(* ===== verification/Prelude.thy ===== *)
theory Prelude
  imports Main
begin

text \<open>
  Shared vocabulary of the development: the results of fallible operations, tables of rows
  with a primary key (the ORM's view of the database), the rendering of integers that the
  code's f-strings use, and the named collections of rewrite rules the component proofs share.
\<close>

section \<open>Collections of facts\<close>

named_theorems table_simps \<open>lookup and update of rows by primary key\<close>
named_theorems guard_defs \<open>definitions of the boolean guards of the handlers\<close>

section \<open>Results\<close>

text \<open>
  An operation that can raise returns \<open>Inl e\<close> for the exception and \<open>Inr r\<close> for its result.
  \<open>is_ok\<close> says that it returned.
\<close>

definition is_ok :: "'e + 'a \<Rightarrow> bool" where
  "is_ok r = (case r of Inl _ \<Rightarrow> False | Inr _ \<Rightarrow> True)"

lemma is_ok_simps [simp]: "is_ok (Inr x)" "\<not> is_ok (Inl e)"
  by (simp_all add: is_ok_def)

lemma is_okE: "is_ok r \<Longrightarrow> (\<And>x. r = Inr x \<Longrightarrow> P) \<Longrightarrow> P"
  by (auto simp: is_ok_def split: sum.splits)

text \<open>Sequencing: the exception of the first operation ends the second.\<close>

definition bind_ok :: "'e + 'a \<Rightarrow> ('a \<Rightarrow> 'e + 'b) \<Rightarrow> 'e + 'b" where
  "bind_ok r f = (case r of Inl e \<Rightarrow> Inl e | Inr x \<Rightarrow> f x)"

definition or_raise :: "'e \<Rightarrow> 'a option \<Rightarrow> 'e + 'a" where
  "or_raise e v = (case v of None \<Rightarrow> Inl e | Some x \<Rightarrow> Inr x)"

lemma bind_ok_simps [simp]: "bind_ok (Inr x) f = f x" "bind_ok (Inl e) f = Inl e"
  by (simp_all add: bind_ok_def)

lemma bind_ok_Inr_iff: "bind_ok r f = Inr y \<longleftrightarrow> (\<exists>x. r = Inr x \<and> f x = Inr y)"
  by (simp add: bind_ok_def split: sum.splits)

lemma bind_ok_Inl_iff: "bind_ok r f = Inl e \<longleftrightarrow> r = Inl e \<or> (\<exists>x. r = Inr x \<and> f x = Inl e)"
  by (auto simp add: bind_ok_def split: sum.splits)

lemma bind_ok_split:
  "P (bind_ok r f) \<longleftrightarrow> (\<forall>e. r = Inl e \<longrightarrow> P (Inl e)) \<and> (\<forall>x. r = Inr x \<longrightarrow> P (f x))"
  by (simp add: bind_ok_def split: sum.split)

lemma bind_ok_OkE:
  assumes "bind_ok r f = Inr y"
  obtains x where "r = Inr x" "f x = Inr y"
  using assms by (auto simp: bind_ok_Inr_iff)

lemma or_raise_simps [simp]: "or_raise e None = Inl e" "or_raise e (Some x) = Inr x"
  by (simp_all add: or_raise_def)

lemma or_raise_Inr_iff [simp]: "or_raise e v = Inr x \<longleftrightarrow> v = Some x"
  by (simp add: or_raise_def split: option.splits)

lemma or_raise_Inl_iff [simp]: "or_raise e v = Inl e' \<longleftrightarrow> v = None \<and> e' = e"
  by (auto simp add: or_raise_def split: option.splits)

section \<open>Tables\<close>

text \<open>
  A table is the list of its rows in insertion order, which is the order of
  \<open>order_by('created_at', 'pk')\<close> since rows are only appended. \<open>row_get\<close> is
  \<open>objects.filter(pk=k).first()\<close>, \<open>row_put\<close> is \<open>row.save()\<close> of an existing row,
  \<open>row_add\<close> is \<open>objects.create\<close> and \<open>next_pk\<close> the next value of the table's sequence.
\<close>

definition row_get :: "('r \<Rightarrow> 'k) \<Rightarrow> 'k \<Rightarrow> 'r list \<Rightarrow> 'r option" where
  "row_get pk k rows = find (\<lambda>r. pk r = k) rows"

definition row_put :: "('r \<Rightarrow> 'k) \<Rightarrow> 'r \<Rightarrow> 'r list \<Rightarrow> 'r list" where
  "row_put pk r rows = map (\<lambda>x. if pk x = pk r then r else x) rows"

definition row_add :: "'r \<Rightarrow> 'r list \<Rightarrow> 'r list" where
  "row_add r rows = rows @ [r]"

definition next_pk :: "('r \<Rightarrow> nat) \<Rightarrow> 'r list \<Rightarrow> nat" where
  "next_pk pk rows = Suc (foldr max (map pk rows) 0)"

lemma row_get_Nil [simp]: "row_get pk k [] = None"
  by (simp add: row_get_def)

lemma row_get_Cons [simp]:
  "row_get pk k (r # rows) = (if pk r = k then Some r else row_get pk k rows)"
  by (simp add: row_get_def)

lemma row_put_Nil [simp]: "row_put pk r [] = []"
  by (simp add: row_put_def)

lemma row_put_Cons [simp]:
  "row_put pk r (x # rows) = (if pk x = pk r then r else x) # row_put pk r rows"
  by (simp add: row_put_def)

lemma row_get_key: "row_get pk k rows = Some r \<Longrightarrow> pk r = k"
  by (induction rows) (auto split: if_splits)

lemma row_get_in_set: "row_get pk k rows = Some r \<Longrightarrow> r \<in> set rows"
  by (induction rows) (auto split: if_splits)

lemma row_get_None_iff: "row_get pk k rows = None \<longleftrightarrow> k \<notin> pk ` set rows"
  by (induction rows) auto

lemma row_get_put [table_simps]:
  "row_get pk k (row_put pk r rows) =
     (if k = pk r \<and> row_get pk k rows \<noteq> None then Some r else row_get pk k rows)"
  by (induction rows) (auto split: if_splits)

lemma row_get_add [table_simps]:
  "row_get pk k (row_add r rows) =
     (case row_get pk k rows of Some x \<Rightarrow> Some x | None \<Rightarrow> if pk r = k then Some r else None)"
  by (induction rows) (auto simp: row_add_def)

lemma map_pk_row_put [table_simps]: "map pk (row_put pk r rows) = map pk rows"
  by (induction rows) auto

lemma row_put_put: "pk r' = pk r \<Longrightarrow> row_put pk r' (row_put pk r rows) = row_put pk r' rows"
  by (induction rows) auto

lemma row_put_same: "distinct (map pk rows) \<Longrightarrow> row_get pk (pk r) rows = Some r \<Longrightarrow> row_put pk r rows = rows"
proof (induction rows)
  case Nil
  then show ?case by simp
next
  case (Cons x rows)
  show ?case
  proof (cases "pk x = pk r")
    case True
    with Cons.prems have "x = r" and "pk r \<notin> pk ` set rows" by auto
    then have "row_put pk r rows = rows"
      unfolding row_put_def by (intro map_idI) (metis image_eqI)
    with \<open>x = r\<close> show ?thesis by simp
  next
    case False
    with Cons show ?thesis by simp
  qed
qed

lemma set_row_put_subset: "set (row_put pk r rows) \<subseteq> insert r (set rows)"
  by (auto simp: row_put_def)

lemma row_get_distinct_iff:
  "distinct (map pk rows) \<Longrightarrow> row_get pk k rows = Some r \<longleftrightarrow> r \<in> set rows \<and> pk r = k"
proof (induction rows)
  case Nil
  then show ?case by simp
next
  case (Cons x rows)
  then show ?case by (auto simp: image_iff)
qed

lemma foldr_max_ge: "x \<in> set xs \<Longrightarrow> x \<le> foldr max xs (0::nat)"
  by (induction xs) auto

lemma next_pk_fresh: "next_pk pk rows \<notin> pk ` set rows"
proof
  assume "next_pk pk rows \<in> pk ` set rows"
  then have "next_pk pk rows \<le> foldr max (map pk rows) 0"
    by (intro foldr_max_ge) auto
  then show False by (simp add: next_pk_def)
qed

lemma row_get_next_pk [table_simps]: "row_get pk (next_pk pk rows) rows = None"
  by (simp add: row_get_None_iff next_pk_fresh)

lemma distinct_row_add_next:
  "distinct (map pk rows) \<Longrightarrow> pk r = next_pk pk rows \<Longrightarrow> distinct (map pk (row_add r rows))"
  using next_pk_fresh [of pk rows] by (auto simp: row_add_def)

section \<open>The interface of a table\<close>

text \<open>
  The handlers rely on four laws of a table and on nothing else: a row is found under its own
  key, saving a row changes exactly the row with its key, and saving keeps the set of keys.
  The client lemmas say what a sweep (a loop that saves one row after another) leaves behind.
\<close>

locale keyed_table =
  fixes pk :: "'r \<Rightarrow> 'k"
    and getr :: "'k \<Rightarrow> 't \<Rightarrow> 'r option"
    and putr :: "'r \<Rightarrow> 't \<Rightarrow> 't"
  assumes get_key: "getr k t = Some r \<Longrightarrow> pk r = k"
    and get_put_same: "getr (pk r) t \<noteq> None \<Longrightarrow> getr (pk r) (putr r t) = Some r"
    and get_put_other: "k \<noteq> pk r \<Longrightarrow> getr k (putr r t) = getr k t"
begin

lemma get_put:
  "getr (pk r) t = Some x \<Longrightarrow> getr k (putr r t) = (if k = pk r then Some r else getr k t)"
  using get_put_same [of r t] get_put_other [of k r t] by auto

lemma get_put_NoneI: "getr k t = None \<Longrightarrow> k \<noteq> pk r \<Longrightarrow> getr k (putr r t) = None"
  by (simp add: get_put_other)

lemma sweep_other: "k \<notin> pk ` set rs \<Longrightarrow> getr k (fold putr rs t) = getr k t"
  by (induction rs arbitrary: t) (auto simp: get_put_other)

lemma sweep_known: "getr k t \<noteq> None \<Longrightarrow> getr k (fold putr rs t) \<noteq> None"
proof (induction rs arbitrary: t)
  case Nil
  then show ?case by simp
next
  case (Cons r rs)
  have "getr k (putr r t) \<noteq> None"
    using Cons.prems get_put_same [of r t] get_put_other [of k r t] by (cases "k = pk r") auto
  then show ?case using Cons.IH by simp
qed

lemma sweep_same:
  "r \<in> set rs \<Longrightarrow> distinct (map pk rs) \<Longrightarrow> \<forall>x\<in>set rs. getr (pk x) t \<noteq> None
    \<Longrightarrow> getr (pk r) (fold putr rs t) = Some r"
proof (induction rs arbitrary: t)
  case Nil
  then show ?case by simp
next
  case (Cons x rs)
  have known: "\<forall>y\<in>set rs. getr (pk y) (putr x t) \<noteq> None"
    using Cons.prems(2,3) by (auto simp: get_put_other image_iff)
  show ?case
  proof (cases "r = x")
    case True
    have "pk x \<notin> pk ` set rs" using Cons.prems(2) by simp
    then show ?thesis using True Cons.prems(3) by (simp add: sweep_other get_put_same)
  next
    case False
    then show ?thesis using Cons.prems known by (auto intro: Cons.IH)
  qed
qed

text \<open>A sweep of distinct known rows is an update of the table by a table.\<close>

lemma sweep_lookup:
  assumes "distinct (map pk rs)" "\<forall>x\<in>set rs. getr (pk x) t \<noteq> None"
  shows "getr k (fold putr rs t) = (case row_get pk k rs of Some r \<Rightarrow> Some r | None \<Rightarrow> getr k t)"
proof (cases "row_get pk k rs")
  case None
  then have "k \<notin> pk ` set rs" by (simp add: row_get_None_iff)
  then show ?thesis using sweep_other [of k rs t] None by simp
next
  case (Some r)
  then have "r \<in> set rs" "pk r = k" by (auto dest: row_get_in_set row_get_key)
  then show ?thesis using sweep_same [OF _ assms] Some by auto
qed

end

section \<open>Integers as text\<close>

text \<open>\<open>str(n)\<close>, and the zero-padded fields of ISO dates.\<close>

definition digit :: "nat \<Rightarrow> char" where
  "digit n = ''0123456789'' ! n"

fun str_nat :: "nat \<Rightarrow> string" where
  "str_nat n = (if n < 10 then [digit n] else str_nat (n div 10) @ [digit (n mod 10)])"

declare str_nat.simps [simp del]

definition str_int :: "int \<Rightarrow> string" where
  "str_int i = (if i < 0 then ''-'' @ str_nat (nat (- i)) else str_nat (nat i))"

definition pad :: "nat \<Rightarrow> nat \<Rightarrow> string" where
  "pad w n = replicate (w - length (str_nat n)) (CHR ''0'') @ str_nat n"

section \<open>Lists\<close>

text \<open>\<open>qs[:limit]\<close> and the first element of a query.\<close>

definition first_row :: "'a list \<Rightarrow> 'a option" where
  "first_row xs = (case xs of [] \<Rightarrow> None | x # _ \<Rightarrow> Some x)"

lemma first_row_simps [simp]: "first_row [] = None" "first_row (x # xs) = Some x"
  by (simp_all add: first_row_def)

lemma first_row_in_set: "first_row xs = Some x \<Longrightarrow> x \<in> set xs"
  by (cases xs) auto

lemma first_row_None [simp]: "first_row xs = None \<longleftrightarrow> xs = []"
  by (cases xs) auto

lemma sum_list_append_single [simp]: "sum_list (xs @ [x]) = sum_list xs + (x :: int)"
  by simp

end
