(* ===== verification/Calendar.thy ===== *)
theory Calendar
  imports Prelude
begin

text \<open>
  Billing dates (\<^verbatim>\<open>apps/billing/services.py\<close>: \<open>add_billing_month\<close>, \<open>add_billing_months\<close>,
  \<open>add_billing_year\<close>, \<open>ai_credit_period_for_date\<close>) over Python's \<open>datetime.date\<close>. A date is a
  year, a month and a day in the proleptic Gregorian calendar, ordered lexicographically;
  \<open>None\<close> is the \<open>ValueError\<close> that constructing an invalid date raises. Day arithmetic
  (\<open>date + timedelta(days=n)\<close>, \<open>(a - b).days\<close>) goes through Python's ordinal numbers.
\<close>

section \<open>Dates\<close>

datatype date = Date (dyear: int) (dmonth: int) (dday: int)

instantiation date :: linorder
begin

definition less_eq_date :: "date \<Rightarrow> date \<Rightarrow> bool" where
  "a \<le> b \<longleftrightarrow> dyear a < dyear b \<or> (dyear a = dyear b \<and>
     (dmonth a < dmonth b \<or> (dmonth a = dmonth b \<and> dday a \<le> dday b)))"

definition less_date :: "date \<Rightarrow> date \<Rightarrow> bool" where
  "a < b \<longleftrightarrow> dyear a < dyear b \<or> (dyear a = dyear b \<and>
     (dmonth a < dmonth b \<or> (dmonth a = dmonth b \<and> dday a < dday b)))"

instance
  by standard (auto simp: less_eq_date_def less_date_def intro: date.expand)

end

lemmas date_order_defs = less_eq_date_def less_date_def

definition leap :: "int \<Rightarrow> bool" where
  "leap y \<longleftrightarrow> y mod 4 = 0 \<and> (y mod 100 \<noteq> 0 \<or> y mod 400 = 0)"

definition last_day :: "int \<Rightarrow> int \<Rightarrow> int" where
  "last_day y m =
     (if m = 2 then (if leap y then 29 else 28)
      else if m = 4 \<or> m = 6 \<or> m = 9 \<or> m = 11 then 30 else 31)"

definition valid_date :: "date \<Rightarrow> bool" where
  "valid_date d \<longleftrightarrow> 1 \<le> dyear d \<and> dyear d \<le> 9999 \<and> 1 \<le> dmonth d \<and> dmonth d \<le> 12 \<and>
     1 \<le> dday d \<and> dday d \<le> last_day (dyear d) (dmonth d)"

text \<open>\<open>date(year, month, day)\<close> and \<open>replace\<close>: \<open>None\<close> where Python raises \<open>ValueError\<close>.\<close>

definition mk_date :: "int \<Rightarrow> int \<Rightarrow> int \<Rightarrow> date option" where
  "mk_date y m d = (if valid_date (Date y m d) then Some (Date y m d) else None)"

lemma last_day_bounds: "28 \<le> last_day y m" "last_day y m \<le> 31"
  by (simp_all add: last_day_def)

lemma mk_date_Some: "mk_date y m d = Some r \<longleftrightarrow> r = Date y m d \<and> valid_date r"
  by (auto simp: mk_date_def)

section \<open>Month arithmetic\<close>

definition add_billing_months :: "date \<Rightarrow> int \<Rightarrow> date option" where
  "add_billing_months anchor months =
     (let absolute_month = dyear anchor * 12 + dmonth anchor - 1 + months;
          year = absolute_month div 12;
          month = absolute_month mod 12 + 1
      in mk_date year month (min (dday anchor) (last_day year month)))"

definition add_billing_month :: "date \<Rightarrow> date option" where
  "add_billing_month start = add_billing_months start 1"

definition add_billing_year :: "date \<Rightarrow> date option" where
  "add_billing_year start =
     (case mk_date (dyear start + 1) (dmonth start) (dday start) of
        Some d \<Rightarrow> Some d
      | None \<Rightarrow> mk_date (dyear start + 1) 2 28)"

text \<open>
  The month number counts months from year 0, so that month arithmetic is addition on it and
  the order of dates is the order of month numbers, then of days.
\<close>

definition month_number :: "date \<Rightarrow> int" where
  "month_number d = dyear d * 12 + dmonth d - 1"

lemma month_number_split:
  assumes "1 \<le> dmonth d" "dmonth d \<le> 12"
  shows "month_number d div 12 = dyear d" "month_number d mod 12 + 1 = dmonth d"
proof -
  have eq: "month_number d = (dmonth d - 1) + dyear d * 12" by (simp add: month_number_def)
  have "(dmonth d - 1) div 12 = 0" "(dmonth d - 1) mod 12 = dmonth d - 1"
    using assms by auto
  then show "month_number d div 12 = dyear d" "month_number d mod 12 + 1 = dmonth d"
    unfolding eq by simp_all
qed

lemma date_less_iff:
  assumes "valid_date a" "valid_date b"
  shows "a < b \<longleftrightarrow> month_number a < month_number b \<or>
           (month_number a = month_number b \<and> dday a < dday b)"
  using assms by (auto simp: less_date_def valid_date_def month_number_def)

lemma date_le_iff:
  assumes "valid_date a" "valid_date b"
  shows "a \<le> b \<longleftrightarrow> month_number a < month_number b \<or>
           (month_number a = month_number b \<and> dday a \<le> dday b)"
  using assms by (auto simp: less_eq_date_def valid_date_def month_number_def)

lemma add_billing_months_eq:
  "add_billing_months a n =
     (let y = (month_number a + n) div 12; m = (month_number a + n) mod 12 + 1
      in if 1 \<le> y \<and> y \<le> 9999 \<and> 1 \<le> dday a
         then Some (Date y m (min (dday a) (last_day y m))) else None)"
proof -
  define y where "y = (month_number a + n) div 12"
  define m where "m = (month_number a + n) mod 12 + 1"
  have m: "1 \<le> m" "m \<le> 12" by (simp_all add: m_def)
  have l: "1 \<le> last_day y m" using last_day_bounds(1) [of y m] by linarith
  have "add_billing_months a n = mk_date y m (min (dday a) (last_day y m))"
    by (simp add: add_billing_months_def Let_def y_def m_def month_number_def)
  also have "\<dots> = (if 1 \<le> y \<and> y \<le> 9999 \<and> 1 \<le> dday a
      then Some (Date y m (min (dday a) (last_day y m))) else None)"
    using m l by (simp add: mk_date_def valid_date_def)
  finally show ?thesis by (simp only: y_def m_def Let_def)
qed

lemma add_billing_months_Some:
  "add_billing_months a n = Some r \<Longrightarrow>
     dyear r = (month_number a + n) div 12 \<and> dmonth r = (month_number a + n) mod 12 + 1 \<and>
     dday r = min (dday a) (last_day (dyear r) (dmonth r))"
  by (auto simp: add_billing_months_eq Let_def split: if_splits)

lemma add_billing_months_month_number:
  assumes "add_billing_months a n = Some r"
  shows "month_number r = month_number a + n"
proof -
  have "month_number r = ((month_number a + n) div 12) * 12 + (month_number a + n) mod 12"
    using add_billing_months_Some [OF assms] by (simp add: month_number_def)
  then show ?thesis by simp
qed

lemma add_billing_months_day:
  "add_billing_months a n = Some r \<Longrightarrow> dday r = min (dday a) (last_day (dyear r) (dmonth r))"
  using add_billing_months_Some by blast

lemma add_billing_months_valid: "add_billing_months a n = Some r \<Longrightarrow> valid_date r"
  by (auto simp: add_billing_months_def Let_def mk_date_Some)

lemma add_billing_months_defined:
  assumes "1 \<le> dday a" "12 \<le> month_number a + n" "month_number a + n < 120000"
  shows "\<exists>r. add_billing_months a n = Some r"
proof -
  have "1 \<le> (month_number a + n) div 12 \<and> (month_number a + n) div 12 \<le> 9999"
    using assms(2,3) by linarith
  then show ?thesis using assms(1) by (simp add: add_billing_months_eq Let_def)
qed

lemma add_billing_months_0: "valid_date a \<Longrightarrow> add_billing_months a 0 = Some a"
  using month_number_split [of a]
  by (cases a) (simp add: add_billing_months_eq Let_def valid_date_def)

lemma valid_month_number_bounds: "valid_date a \<Longrightarrow> 12 \<le> month_number a \<and> month_number a < 120000"
  by (auto simp: valid_date_def month_number_def)

text \<open>
  Adding a year is adding twelve months: 29 February becomes 28 February in both.
\<close>

lemma last_day_next_year:
  "last_day (y + 1) m \<le> last_day y m \<or> (m = 2 \<and> leap (y + 1))"
  by (auto simp: last_day_def)

lemma leap_not_consecutive: "leap y \<Longrightarrow> \<not> leap (y + 1)"
proof
  assume a: "leap y" "leap (y + 1)"
  then have "y mod 4 = 0" "(y + 1) mod 4 = 0" by (simp_all add: leap_def)
  then show False by presburger
qed

lemma year_is_twelve_months:
  assumes "valid_date d"
  shows "add_billing_year d = add_billing_months d 12"
proof -
  obtain y m k where d: "d = Date y m k" by (cases d)
  have b: "1 \<le> y" "y \<le> 9999" "1 \<le> m" "m \<le> 12" "1 \<le> k" "k \<le> last_day y m"
    using assms by (auto simp: d valid_date_def)
  have mn: "(month_number d + 12) div 12 = y + 1" "(month_number d + 12) mod 12 + 1 = m"
    using month_number_split [of d] b by (simp_all add: d)
  have dd: "dday d = k" by (simp add: d)
  have months: "add_billing_months d 12 =
      (if y + 1 \<le> 9999 then Some (Date (y + 1) m (min k (last_day (y + 1) m))) else None)"
    unfolding add_billing_months_eq Let_def mn dd using b by auto
  have yr: "add_billing_year d =
      (case mk_date (y + 1) m k of Some d \<Rightarrow> Some d | None \<Rightarrow> mk_date (y + 1) 2 28)"
    by (simp add: add_billing_year_def d split: option.split)
  show ?thesis
  proof (cases "k \<le> last_day (y + 1) m")
    case True
    then have "mk_date (y + 1) m k = (if y + 1 \<le> 9999 then Some (Date (y + 1) m k) else None)"
      using b by (auto simp: mk_date_def valid_date_def)
    moreover have "mk_date (y + 1) 2 28 = None" if "\<not> y + 1 \<le> 9999"
      using that by (simp add: mk_date_def valid_date_def)
    ultimately show ?thesis using True unfolding yr months by simp
  next
    case False
    then have feb: "m = 2" "k = 29" "\<not> leap (y + 1)"
      using b leap_not_consecutive [of y] by (auto simp: last_day_def split: if_splits)
    have "mk_date (y + 1) m k = None"
      using False by (simp add: mk_date_def valid_date_def)
    moreover have "mk_date (y + 1) 2 28 = (if y + 1 \<le> 9999 then Some (Date (y + 1) 2 28) else None)"
      using b by (auto simp: mk_date_def valid_date_def last_day_def)
    ultimately show ?thesis
      using feb unfolding yr months by (simp add: last_day_def)
  qed
qed

section \<open>The AI-credit month inside a subscription term\<close>

text \<open>
  \<open>ai_credit_period_for_date\<close>. The outer \<open>None\<close> is a \<open>ValueError\<close> of the month arithmetic, the
  inner one is Python's \<open>None\<close> (the date is outside the term).
\<close>

definition ai_month_index :: "date \<Rightarrow> date \<Rightarrow> int" where
  "ai_month_index anchor d = (dyear d - dyear anchor) * 12 + dmonth d - dmonth anchor"

definition ai_period_end :: "date \<Rightarrow> date \<Rightarrow> int \<Rightarrow> date option" where
  "ai_period_end subscription_start subscription_end next_month_index =
     (if next_month_index > ai_month_index subscription_start subscription_end
      then Some subscription_end
      else map_option (\<lambda>d. min d subscription_end)
             (add_billing_months subscription_start next_month_index))"

definition ai_credit_period_for_date ::
    "date \<Rightarrow> date \<Rightarrow> date \<Rightarrow> (date \<times> date) option option" where
  "ai_credit_period_for_date subscription_start subscription_end target =
     (if target < subscription_start \<or> subscription_end \<le> target then Some None
      else let month_index = ai_month_index subscription_start target in
        case add_billing_months subscription_start month_index of
          None \<Rightarrow> None
        | Some period_start0 \<Rightarrow>
            (case (if period_start0 > target
                   then map_option (Pair (month_index - 1))
                          (add_billing_months subscription_start (month_index - 1))
                   else Some (month_index, period_start0)) of
               None \<Rightarrow> None
             | Some (index, period_start) \<Rightarrow>
                 map_option (\<lambda>e. Some (period_start, e))
                   (ai_period_end subscription_start subscription_end (index + 1))))"

lemma ai_month_index_eq: "ai_month_index a d = month_number d - month_number a"
  by (simp add: ai_month_index_def month_number_def algebra_simps)

text \<open>The month found is the one that holds the date: its start and the next start frame it.\<close>

lemma add_billing_months_mono:
  assumes "add_billing_months a m = Some x" "add_billing_months a n = Some y" "m < n"
  shows "x < y"
  using add_billing_months_month_number [OF assms(1)] add_billing_months_month_number [OF assms(2)]
    add_billing_months_valid [OF assms(1)] add_billing_months_valid [OF assms(2)] assms(3)
  by (simp add: date_less_iff)

lemma month_frame:
  assumes s: "valid_date s" and t: "valid_date t" and st: "s \<le> t"
  obtains k p where "0 \<le> k" "k \<le> ai_month_index s t" "add_billing_months s k = Some p" "p \<le> t"
    "\<And>q. add_billing_months s (k + 1) = Some q \<Longrightarrow> t < q"
    "k = (case add_billing_months s (ai_month_index s t) of Some p0 \<Rightarrow>
            if p0 > t then ai_month_index s t - 1 else ai_month_index s t)"
proof -
  let ?i = "ai_month_index s t"
  have mt: "month_number s + ?i = month_number t" by (simp add: ai_month_index_eq)
  have i0: "0 \<le> ?i" using st s t by (auto simp: date_le_iff ai_month_index_eq)
  have d1: "1 \<le> dday s" using s by (simp add: valid_date_def)
  have "\<exists>p0. add_billing_months s ?i = Some p0"
    using add_billing_months_defined [OF d1, of ?i] valid_month_number_bounds [OF t] mt by simp
  then obtain p0 where p0: "add_billing_months s ?i = Some p0" ..
  have mn: "month_number q = month_number s + k" "valid_date q"
    if "add_billing_months s k = Some q" for k q
    using that add_billing_months_month_number add_billing_months_valid by blast+
  show thesis
  proof (cases "p0 > t")
    case False
    show thesis
    proof (rule that [OF i0 order.refl p0])
      show "p0 \<le> t" using False by simp
      show "t < q" if q: "add_billing_months s (?i + 1) = Some q" for q
        using mn [OF q] mt t by (simp add: date_less_iff)
      show "?i = (case add_billing_months s ?i of Some p0 \<Rightarrow>
            if p0 > t then ?i - 1 else ?i)" using p0 False by simp
    qed
  next
    case True
    have "?i \<noteq> 0" using True st p0 add_billing_months_0 [OF s] by auto
    then have i1: "0 \<le> ?i - 1" using i0 by simp
    have "12 \<le> month_number s + (?i - 1)" "month_number s + (?i - 1) < 120000"
      using i1 valid_month_number_bounds [OF s] valid_month_number_bounds [OF t] mt by linarith+
    then obtain p where p: "add_billing_months s (?i - 1) = Some p"
      using add_billing_months_defined [OF d1] by blast
    show thesis
    proof (rule that [OF i1 _ p])
      show "?i - 1 \<le> ?i" by simp
      show "p \<le> t" using mn [OF p] mt t by (simp add: date_le_iff)
      show "t < q" if q: "add_billing_months s (?i - 1 + 1) = Some q" for q
        using q p0 True by simp
      show "?i - 1 = (case add_billing_months s ?i of Some p0 \<Rightarrow>
            if p0 > t then ?i - 1 else ?i)" using p0 True by simp
    qed
  qed
qed

lemma ai_credit_period_outside:
  "target < s \<or> e \<le> target \<Longrightarrow> ai_credit_period_for_date s e target = Some None"
  by (simp add: ai_credit_period_for_date_def)

lemma ai_period_end_Some:
  assumes "valid_date s" "valid_date e" "0 \<le> k" "k \<le> ai_month_index s e"
  shows "\<exists>q. ai_period_end s e (k + 1) = Some q \<and>
     q = (case add_billing_months s (k + 1) of None \<Rightarrow> e | Some n \<Rightarrow> min n e)"
proof (cases "k + 1 > ai_month_index s e")
  case True
  have "e \<le> n" if n: "add_billing_months s (k + 1) = Some n" for n
    using add_billing_months_month_number [OF n] add_billing_months_valid [OF n] assms(2) True
    by (simp add: ai_month_index_eq date_le_iff)
  then show ?thesis using True by (auto simp: ai_period_end_def min_def split: option.splits)
next
  case False
  have "1 \<le> dday s" using assms(1) by (simp add: valid_date_def)
  moreover have "12 \<le> month_number s + (k + 1)" "month_number s + (k + 1) < 120000"
    using False assms(3) valid_month_number_bounds [OF assms(1)] valid_month_number_bounds [OF assms(2)]
    by (simp_all add: ai_month_index_eq)
  ultimately obtain n where "add_billing_months s (k + 1) = Some n"
    using add_billing_months_defined by blast
  then show ?thesis using False by (simp add: ai_period_end_def)
qed

lemma ai_credit_period_inside:
  assumes s: "valid_date s" and e: "valid_date e" and t: "valid_date t" and "s \<le> t" "t < e"
  shows "\<exists>k a b. ai_credit_period_for_date s e t = Some (Some (a, b)) \<and> 0 \<le> k \<and>
     add_billing_months s k = Some a \<and>
     b = (case add_billing_months s (k + 1) of None \<Rightarrow> e | Some n \<Rightarrow> min n e) \<and>
     s \<le> a \<and> a \<le> t \<and> t < b \<and> b \<le> e"
proof -
  obtain k p where k: "0 \<le> k" "k \<le> ai_month_index s t" "add_billing_months s k = Some p" "p \<le> t"
    and next_gt: "\<And>q. add_billing_months s (k + 1) = Some q \<Longrightarrow> t < q"
    and idx: "k = (case add_billing_months s (ai_month_index s t) of Some p0 \<Rightarrow>
            if p0 > t then ai_month_index s t - 1 else ai_month_index s t)"
    using month_frame [OF s t assms(4)] by blast
  have "month_number t \<le> month_number e" using assms(5) t e by (auto simp: date_less_iff)
  then have "k \<le> ai_month_index s e" using k(2) by (simp add: ai_month_index_eq)
  then obtain b where b: "ai_period_end s e (k + 1) = Some b"
    "b = (case add_billing_months s (k + 1) of None \<Rightarrow> e | Some n \<Rightarrow> min n e)"
    using ai_period_end_Some [OF s e k(1)] by blast
  have d1: "1 \<le> dday s" using s by (simp add: valid_date_def)
  have "month_number s + ai_month_index s t = month_number t" by (simp add: ai_month_index_eq)
  then have "\<exists>p0. add_billing_months s (ai_month_index s t) = Some p0"
    using add_billing_months_defined [OF d1, of "ai_month_index s t"] valid_month_number_bounds [OF t]
    by simp
  then obtain p0 where p0: "add_billing_months s (ai_month_index s t) = Some p0" ..
  have res: "ai_credit_period_for_date s e t = Some (Some (p, b))"
  proof -
    have inside: "(t < s \<or> e \<le> t) = False" using assms(4,5) by (simp add: not_less)
    show ?thesis
    proof (cases "p0 > t")
      case True
      then have "k = ai_month_index s t - 1" using idx p0 by simp
      then show ?thesis
        using True k(3) b(1) unfolding ai_credit_period_for_date_def Let_def inside p0 by simp
    next
      case False
      then have "k = ai_month_index s t" using idx p0 by simp
      then show ?thesis
        using False k(3) b(1) p0 unfolding ai_credit_period_for_date_def Let_def inside by simp
    qed
  qed
  have "s \<le> p"
  proof (cases "k = 0")
    case True
    then show ?thesis using k(3) add_billing_months_0 [OF s] by simp
  next
    case False
    then show ?thesis
      using k(1) add_billing_months_mono [OF add_billing_months_0 [OF s] k(3)] by simp
  qed
  moreover have "t < b" "b \<le> e"
    using next_gt assms(5) by (auto simp: b(2) min_def split: option.splits)
  ultimately show ?thesis using res k b(2) by blast
qed

section \<open>Day arithmetic\<close>

text \<open>
  \<open>date.toordinal\<close> and \<open>date.fromordinal\<close>, by CPython's algorithms: 400-year cycles, then
  100-year, 4-year and 1-year ones, then a month guess corrected by one.
\<close>

definition days_before_year :: "int \<Rightarrow> int" where
  "days_before_year y = (y - 1) * 365 + (y - 1) div 4 - (y - 1) div 100 + (y - 1) div 400"

definition days_before_month :: "int \<Rightarrow> int \<Rightarrow> int" where
  "days_before_month y m =
     [0, 0, 31, 59, 90, 120, 151, 181, 212, 243, 273, 304, 334] ! nat m
       + (if m > 2 \<and> leap y then 1 else 0)"

definition to_ordinal :: "date \<Rightarrow> int" where
  "to_ordinal d = days_before_year (dyear d) + days_before_month (dyear d) (dmonth d) + dday d"

definition month_of_day :: "int \<Rightarrow> int \<Rightarrow> int \<times> int" where
  "month_of_day y n =
     (let m = (n + 50) div 32
      in if days_before_month y m > n then (m - 1, n - days_before_month y (m - 1) + 1)
         else (m, n - days_before_month y m + 1))"

definition of_ordinal :: "int \<Rightarrow> date" where
  "of_ordinal n =
     (let n400 = (n - 1) div 146097; r400 = (n - 1) mod 146097;
          n100 = r400 div 36524; r100 = r400 mod 36524;
          n4 = r100 div 1461; r4 = r100 mod 1461;
          n1 = r4 div 365; r1 = r4 mod 365;
          year = n400 * 400 + 1 + n100 * 100 + n4 * 4 + n1
      in if n1 = 4 \<or> n100 = 4 then Date (year - 1) 12 31
         else let (m, d) = month_of_day year r1 in Date year m d)"

text \<open>\<open>d + timedelta(days=n)\<close> (\<open>None\<close> is \<open>OverflowError\<close>) and \<open>(a - b).days\<close>.\<close>

definition add_days :: "date \<Rightarrow> int \<Rightarrow> date option" where
  "add_days d n =
     (let o' = to_ordinal d + n in if 1 \<le> o' \<and> o' \<le> 3652059 then Some (of_ordinal o') else None)"

definition days_between :: "date \<Rightarrow> date \<Rightarrow> int" where
  "days_between a b = to_ordinal a - to_ordinal b"

lemma days_before_year_cycles:
  assumes "0 \<le> b" "b \<le> 3" "0 \<le> c" "c \<le> 24" "0 \<le> d" "d \<le> 3"
  shows "days_before_year (a * 400 + 1 + b * 100 + c * 4 + d) = 146097 * a + 36524 * b + 1461 * c + 365 * d"
proof -
  let ?z = "a * 400 + b * 100 + c * 4 + d"
  have "?z div 4 = 100 * a + 25 * b + c" using assms by linarith
  moreover have "?z div 100 = 4 * a + b" using assms by linarith
  moreover have "?z div 400 = a" using assms by linarith
  ultimately show ?thesis by (simp add: days_before_year_def algebra_simps)
qed

lemma month_of_day_sum:
  assumes "0 \<le> n" "n \<le> 364" "month_of_day y n = (m, d)"
  shows "days_before_month y m + d = n + 1"
proof -
  from assms(3) show ?thesis by (auto simp: month_of_day_def Let_def split: if_splits)
qed

lemma days_before_last_day: "days_before_month y 12 + 31 = (if leap y then 366 else 365)"
  by (simp add: days_before_month_def)

lemma leap_cycle:
  assumes "0 \<le> b" "b \<le> 3" "0 \<le> c" "c \<le> 24"
  shows "leap (a * 400 + 1 + b * 100 + c * 4 + 3) \<longleftrightarrow> c \<noteq> 24 \<or> b = 3"
proof -
  let ?y = "a * 400 + 1 + b * 100 + c * 4 + 3"
  have "?y = (c * 4 + 4) + (4 * a + b) * 100" by simp
  then have m100: "?y mod 100 = (c * 4 + 4) mod 100" by (metis mod_mult_self1)
  have "?y = (c * 4 + 4) + (25 * (4 * a + b)) * 4" by simp
  then have "?y mod 4 = (c * 4 + 4) mod 4" by (metis mod_mult_self1)
  then have m4: "?y mod 4 = 0" by presburger
  have c100: "(c * 4 + 4) mod 100 = 0 \<longleftrightarrow> c = 24" using assms by presburger
  have m400: "?y mod 400 = 0 \<longleftrightarrow> b = 3" if "c = 24"
  proof -
    have "?y = (100 * b + 100) + a * 400" using that by simp
    then have "?y mod 400 = (100 * b + 100) mod 400" by (metis mod_mult_self1)
    moreover have "b = 0 \<or> b = 1 \<or> b = 2 \<or> b = 3" using assms by linarith
    ultimately show ?thesis by auto
  qed
  show ?thesis unfolding leap_def m100 using m4 c100 m400 by metis
qed

lemma mod_range: "0 < k \<Longrightarrow> 0 \<le> i mod k \<and> i mod k \<le> k - (1::int)"
  using pos_mod_bound [of k i] pos_mod_sign [of k i] by linarith

lemma to_of_ordinal: "1 \<le> n \<Longrightarrow> to_ordinal (of_ordinal n) = n"
proof -
  assume "1 \<le> n"
  define a where "a = (n - 1) div 146097"
  define r where "r = (n - 1) mod 146097"
  define b where "b = r div 36524"
  define s where "s = r mod 36524"
  define c where "c = s div 1461"
  define u where "u = s mod 1461"
  define d where "d = u div 365"
  define v where "v = u mod 365"
  have r: "0 \<le> r" "r \<le> 146096" by (use mod_range [of 146097 "n - 1"] in \<open>simp_all add: r_def\<close>)
  have b: "0 \<le> b" "b \<le> 4" using r by (simp_all add: b_def) 
  have s: "0 \<le> s" "s \<le> 36523" by (use mod_range [of 36524 r] in \<open>simp_all add: s_def\<close>)
  have c: "0 \<le> c" "c \<le> 24" using s by (simp_all add: c_def)
  have u: "0 \<le> u" "u \<le> 1460" by (use mod_range [of 1461 s] in \<open>simp_all add: u_def\<close>)
  have d: "0 \<le> d" "d \<le> 4" using u by (simp_all add: d_def)
  have v: "0 \<le> v" "v \<le> 364" by (use mod_range [of 365 u] in \<open>simp_all add: v_def\<close>)
  have n1: "n - 1 = 146097 * a + r" by (simp add: a_def r_def)
  have r1: "r = 36524 * b + s" by (simp add: b_def s_def)
  have s1: "s = 1461 * c + u" by (simp add: c_def u_def)
  have u1: "u = 365 * d + v" by (simp add: d_def v_def)
  define y where "y = a * 400 + 1 + b * 100 + c * 4 + d"
  have of: "of_ordinal n = (if d = 4 \<or> b = 4 then Date (y - 1) 12 31
      else let (m, k) = month_of_day y v in Date y m k)"
    by (simp only: of_ordinal_def Let_def y_def a_def r_def b_def s_def c_def u_def d_def v_def)
  consider (new) "d \<noteq> 4" "b \<noteq> 4" | (d4) "d = 4" "b \<noteq> 4" | (b4) "b = 4" by blast
  then show ?thesis
  proof cases
    case new
    have dy: "days_before_year y = 146097 * a + 36524 * b + 1461 * c + 365 * d"
      unfolding y_def by (rule days_before_year_cycles) (use b c d new in auto)
    obtain m k where mk: "month_of_day y v = (m, k)" by (cases "month_of_day y v")
    have "to_ordinal (of_ordinal n) = days_before_year y + days_before_month y m + k"
      using new mk by (simp add: of to_ordinal_def)
    then show ?thesis using month_of_day_sum [OF v mk] n1 r1 s1 u1 dy by simp
  next
    case d4
    have v0: "v = 0" "u = 1460" using d4 u u1 v by simp_all
    have c24: "c \<noteq> 24 \<or> b = 3"
    proof (rule ccontr)
      assume "\<not> ?thesis"
      then have "s = 36524" using s1 v0 by simp
      then show False using s by simp
    qed
    have y': "y - 1 = a * 400 + 1 + b * 100 + c * 4 + 3" by (simp add: y_def d4)
    have "leap (y - 1)" unfolding y' using leap_cycle b c c24 d4 by simp
    moreover have "days_before_year (y - 1) = 146097 * a + 36524 * b + 1461 * c + 365 * 3"
      unfolding y' by (rule days_before_year_cycles) (use b c d4 in auto)
    moreover have "to_ordinal (of_ordinal n) = days_before_year (y - 1) + days_before_month (y - 1) 12 + 31"
      using d4 by (simp add: of to_ordinal_def)
    ultimately show ?thesis
      using d4 v0 n1 r1 s1 days_before_last_day [of "y - 1"] by simp
  next
    case b4
    have z: "s = 0" "r = 146096" using b4 r r1 s by simp_all
    then have cu: "c = 0" "u = 0" using s1 c u by linarith+
    then have dv: "d = 0" "v = 0" using u1 d v by linarith+
    have y': "y - 1 = a * 400 + 1 + 3 * 100 + 24 * 4 + 3" by (simp add: y_def b4 cu dv)
    have "leap (y - 1)" unfolding y' using leap_cycle [of 3 24 a] by simp
    moreover have "days_before_year (y - 1) = 146097 * a + 36524 * 3 + 1461 * 24 + 365 * 3"
      unfolding y' by (rule days_before_year_cycles) auto
    moreover have "to_ordinal (of_ordinal n) = days_before_year (y - 1) + days_before_month (y - 1) 12 + 31"
      using b4 by (simp add: of to_ordinal_def)
    ultimately show ?thesis
      using b4 z n1 days_before_last_day [of "y - 1"] by simp
  qed
qed

lemma add_days_between: "add_days d n = Some e \<Longrightarrow> days_between e d = n"
  by (auto simp: add_days_def Let_def days_between_def to_of_ordinal split: if_splits)

text \<open>\<open>date.isoformat()\<close> and, for an instant in microseconds since the epoch, the UTC
  \<open>datetime.isoformat()\<close>.\<close>

definition str_date :: "date \<Rightarrow> string" where
  "str_date d = pad 4 (nat (dyear d)) @ ''-'' @ pad 2 (nat (dmonth d)) @ ''-'' @ pad 2 (nat (dday d))"

definition str_datetime :: "int \<Rightarrow> string" where
  "str_datetime us =
     (let day = us div 86400000000; r = us mod 86400000000;
          s = r div 1000000; f = r mod 1000000
      in str_date (of_ordinal (day + 719163)) @ ''T'' @ pad 2 (nat (s div 3600)) @ '':'' @
         pad 2 (nat (s div 60 mod 60)) @ '':'' @ pad 2 (nat (s mod 60)) @
         (if f = 0 then [] else ''.'' @ pad 6 (nat f)) @ ''+00:00'')"

end
