(* ===== verification/Decimals.thy ===== *)
theory Decimals
  imports Prelude
begin

text \<open>
  Amounts as the code sees them before they are columns: Python's \<open>Decimal(str(x))\<close> and the
  JSON documents that invoices and provider responses carry. Database columns hold scaled
  integers: kopecks for money (\<open>decimal_places=2\<close>) and ten-thousandths for AI credits
  (\<open>decimal_places=4\<close>). \<open>dec_units p d\<close> is the column value of a decimal that \<open>quantize\<close> to
  \<open>p\<close> places leaves unchanged; it is \<open>None\<close> when the decimal is not finite, has more places or
  overflows the 28 digits of the default context.
\<close>

section \<open>Digits\<close>

definition is_digit :: "char \<Rightarrow> bool" where
  "is_digit c \<longleftrightarrow> c \<in> set ''0123456789''"

definition digit_value :: "char \<Rightarrow> nat" where
  "digit_value c = length (takeWhile (\<lambda>d. d \<noteq> c) ''0123456789'')"

definition digits_value :: "string \<Rightarrow> nat" where
  "digits_value cs = foldl (\<lambda>n c. 10 * n + digit_value c) 0 cs"

lemma digit_cases:
  assumes "n < 10"
  shows "n = 0 \<or> n = 1 \<or> n = 2 \<or> n = 3 \<or> n = 4 \<or> n = 5 \<or> n = 6 \<or> n = 7 \<or> n = 8 \<or> n = (9::nat)"
  using assms by presburger

lemma digit_facts: "n < 10 \<Longrightarrow> is_digit (digit n) \<and> digit_value (digit n) = n"
  by (drule digit_cases) (elim disjE; simp add: is_digit_def digit_def digit_value_def)

lemma str_nat_nonempty: "str_nat n \<noteq> []"
  by (subst str_nat.simps) simp

lemma str_nat_digits: "\<forall>c\<in>set (str_nat n). is_digit c"
proof (induction n rule: str_nat.induct)
  case (1 n)
  show ?case
  proof (cases "n < 10")
    case True
    then show ?thesis using digit_facts by (subst str_nat.simps) simp
  next
    case False
    then show ?thesis using "1.IH" digit_facts [of "n mod 10"] by (subst str_nat.simps) auto
  qed
qed

lemma str_nat_value: "digits_value (str_nat n) = n"
proof (induction n rule: str_nat.induct)
  case (1 n)
  show ?case
  proof (cases "n < 10")
    case True
    then show ?thesis using digit_facts by (subst str_nat.simps) (simp add: digits_value_def)
  next
    case False
    then have "digits_value (str_nat n) = 10 * digits_value (str_nat (n div 10)) + n mod 10"
      using digit_facts [of "n mod 10"] by (subst str_nat.simps) (simp add: digits_value_def)
    then show ?thesis using "1.IH" False by simp
  qed
qed

lemma str_nat_inject [simp]: "str_nat m = str_nat n \<longleftrightarrow> m = n"
  by (metis str_nat_value)

lemma takeWhile_digits [simp]:
  "\<forall>c\<in>set xs. is_digit c \<Longrightarrow> takeWhile is_digit (xs @ ys) = xs @ takeWhile is_digit ys"
  "\<forall>c\<in>set xs. is_digit c \<Longrightarrow> dropWhile is_digit (xs @ ys) = dropWhile is_digit ys"
  by (induction xs) auto

lemma all_digits [simp]:
  "\<forall>c\<in>set xs. is_digit c \<Longrightarrow> takeWhile is_digit xs = xs"
  "\<forall>c\<in>set xs. is_digit c \<Longrightarrow> dropWhile is_digit xs = []"
  by (induction xs) auto

section \<open>Decimal\<close>

datatype decimal = Dec int int | Non_Finite

definition is_space :: "char \<Rightarrow> bool" where
  "is_space c \<longleftrightarrow> c \<in> {CHR '' '', CHR 0x09, CHR 0x0A, CHR 0x0B, CHR 0x0C, CHR 0x0D,
     CHR 0x1C, CHR 0x1D, CHR 0x1E, CHR 0x1F}"

definition strip :: "string \<Rightarrow> string" where
  "strip s = rev (dropWhile is_space (rev (dropWhile is_space s)))"

definition lower :: "string \<Rightarrow> string" where
  "lower s = map (\<lambda>c. case map_of (zip ''ABCDEFGHIJKLMNOPQRSTUVWXYZ'' ''abcdefghijklmnopqrstuvwxyz'') c of
       Some l \<Rightarrow> l | None \<Rightarrow> c) s"

definition upper :: "string \<Rightarrow> string" where
  "upper s = map (\<lambda>c. case map_of (zip ''abcdefghijklmnopqrstuvwxyz'' ''ABCDEFGHIJKLMNOPQRSTUVWXYZ'') c of
       Some l \<Rightarrow> l | None \<Rightarrow> c) s"

definition split_sign :: "string \<Rightarrow> int \<times> string" where
  "split_sign s = (case s of
      c # cs \<Rightarrow> if c = CHR ''-'' then (- 1, cs) else if c = CHR ''+'' then (1, cs) else (1, s)
    | [] \<Rightarrow> (1, []))"

text \<open>The exponent part: nothing, or \<open>e\<close> with an optional sign and digits to the end.\<close>

definition dec_exponent :: "string \<Rightarrow> int option" where
  "dec_exponent s = (case s of
      [] \<Rightarrow> Some 0
    | c # cs \<Rightarrow>
        (if c = CHR ''e'' \<or> c = CHR ''E''
         then let (sg, ds) = split_sign cs in
              if ds \<noteq> [] \<and> list_all is_digit ds then Some (sg * int (digits_value ds)) else None
         else None))"

definition dec_number :: "int \<Rightarrow> string \<Rightarrow> decimal option" where
  "dec_number sg s =
     (let ip = takeWhile is_digit s; r = dropWhile is_digit s;
          (fp, r') = (case r of
              c # cs \<Rightarrow> if c = CHR ''.'' then (takeWhile is_digit cs, dropWhile is_digit cs) else ([], r)
            | [] \<Rightarrow> ([], []))
      in if ip = [] \<and> fp = [] then None
         else map_option (\<lambda>e. Dec (sg * int (digits_value (ip @ fp))) (e - int (length fp)))
                (dec_exponent r'))"

definition dec_special :: "string \<Rightarrow> bool" where
  "dec_special s =
     (let l = lower s; nan = (if take 1 l = ''s'' then drop 1 l else l)
      in l = ''inf'' \<or> l = ''infinity'' \<or> (take 3 nan = ''nan'' \<and> list_all is_digit (drop 3 nan)))"

text \<open>\<open>Decimal(text)\<close>; \<open>None\<close> is \<open>InvalidOperation\<close>.\<close>

definition dec_parse :: "string \<Rightarrow> decimal option" where
  "dec_parse text =
     (let (sg, s) = split_sign (filter (\<lambda>c. c \<noteq> CHR ''_'') (strip text))
      in if dec_special s then Some Non_Finite else dec_number sg s)"

definition scaled :: "int \<Rightarrow> int \<Rightarrow> int option" where
  "scaled c k = (if 0 \<le> k then Some (c * 10 ^ nat k)
                 else if c mod 10 ^ nat (- k) = 0 then Some (c div 10 ^ nat (- k)) else None)"

definition dec_units :: "nat \<Rightarrow> decimal \<Rightarrow> int option" where
  "dec_units places d = (case d of
      Non_Finite \<Rightarrow> None
    | Dec c e \<Rightarrow> (case scaled c (e + int places) of
          None \<Rightarrow> None
        | Some u \<Rightarrow> if \<bar>u\<bar> < 10 ^ 28 then Some u else None))"

definition dec_finite :: "decimal \<Rightarrow> bool" where
  "dec_finite d = (case d of Non_Finite \<Rightarrow> False | Dec _ _ \<Rightarrow> True)"

definition dec_positive :: "decimal \<Rightarrow> bool" where
  "dec_positive d = (case d of Non_Finite \<Rightarrow> False | Dec c _ \<Rightarrow> 0 < c)"

text \<open>
  What storing a decimal in a column with \<open>p\<close> places leaves: rounding half to even.
\<close>

definition dec_column :: "nat \<Rightarrow> decimal \<Rightarrow> int" where
  "dec_column places d = (case d of
      Non_Finite \<Rightarrow> 0
    | Dec c e \<Rightarrow>
        (let k = e + int places in
         if 0 \<le> k then c * 10 ^ nat k
         else let m = 10 ^ nat (- k); q = c div m; r = c mod m
              in if 2 * r < m \<or> (2 * r = m \<and> even q) then q else q + 1))"

lemma dec_column_exact: "dec_units p d = Some u \<Longrightarrow> dec_column p d = u"
  by (auto simp: dec_units_def dec_column_def scaled_def Let_def
      split: decimal.splits option.splits if_splits)

text \<open>\<open>str(column)\<close> for a column with two places, and its round trip through the parser.\<close>

definition str_cents :: "int \<Rightarrow> string" where
  "str_cents k = (if k < 0 then ''-'' else []) @
     str_nat (nat \<bar>k\<bar> div 100) @ ''.'' @ pad 2 (nat \<bar>k\<bar> mod 100)"

lemma pad2_length: "n < 100 \<Longrightarrow> length (pad 2 n) = 2"
proof -
  assume "n < 100"
  have "length (str_nat n) \<le> 2"
  proof (cases "n < 10")
    case True
    then show ?thesis by (subst str_nat.simps) simp
  next
    case False
    then have "n div 10 < 10" using \<open>n < 100\<close> by linarith
    then show ?thesis using False by (subst str_nat.simps, subst str_nat.simps) simp
  qed
  then show ?thesis by (simp add: pad_def)
qed

lemma foldl_digits: "foldl (\<lambda>n c. 10 * n + digit_value c) a ys = a * 10 ^ length ys + digits_value ys"
proof (induction ys arbitrary: a)
  case Nil
  then show ?case by (simp add: digits_value_def)
next
  case (Cons y ys)
  have "foldl (\<lambda>n c. 10 * n + digit_value c) a (y # ys) =
      (10 * a + digit_value y) * 10 ^ length ys + digits_value ys"
    using Cons.IH [of "10 * a + digit_value y"] by simp
  moreover have "digits_value (y # ys) = digit_value y * 10 ^ length ys + digits_value ys"
    using Cons.IH [of "digit_value y"] by (simp add: digits_value_def)
  ultimately show ?case by (simp add: algebra_simps)
qed

lemma digits_value_append: "digits_value (xs @ ys) = digits_value xs * 10 ^ length ys + digits_value ys"
  using foldl_digits [of "digits_value xs" ys] by (simp add: digits_value_def)

lemma digits_value_pad: "digits_value (pad w n) = n"
proof -
  have "digits_value (replicate k (CHR ''0'')) = 0" for k
    by (induction k) (simp_all add: digits_value_def digit_value_def)
  then show ?thesis by (simp add: pad_def digits_value_append str_nat_value)
qed

lemma pad_digits: "\<forall>c\<in>set (pad w n). is_digit c"
proof -
  have "is_digit (CHR ''0'')" by (simp add: is_digit_def)
  then show ?thesis using str_nat_digits by (auto simp: pad_def)
qed

lemma is_digit_digit: "is_digit c \<Longrightarrow> \<exists>n<10. c = digit n"
proof -
  assume "is_digit c"
  then obtain i where "i < length ''0123456789''" "c = ''0123456789'' ! i"
    unfolding is_digit_def by (metis in_set_conv_nth)
  then have "i < 10" "c = digit i" by (simp_all add: digit_def)
  then show ?thesis by blast
qed

lemma digit_not: "is_digit c \<Longrightarrow> c \<noteq> CHR ''.'' \<and> c \<noteq> CHR ''-'' \<and> c \<noteq> CHR ''+'' \<and> c \<noteq> CHR ''_'' \<and> \<not> is_space c"
  by (drule is_digit_digit, elim exE conjE, drule digit_cases, elim disjE)
    (simp_all add: digit_def is_space_def)

lemma not_space: "\<not> is_space (CHR ''.'')" by (simp add: is_space_def)

lemma strip_id:
  assumes "list_all (\<lambda>c. \<not> is_space c) s"
  shows "strip s = s"
proof -
  have keep: "dropWhile is_space xs = xs" if "list_all (\<lambda>c. \<not> is_space c) xs" for xs
    using that by (cases xs) auto
  have "list_all (\<lambda>c. \<not> is_space c) (rev s)" using assms by simp
  then show ?thesis using keep [OF assms] keep [of "rev s"] by (simp add: strip_def)
qed

lemma digit_lower: "is_digit c \<Longrightarrow> lower (c # cs) = c # lower cs \<and> c \<noteq> CHR ''i'' \<and> c \<noteq> CHR ''n'' \<and> c \<noteq> CHR ''s''"
  by (drule is_digit_digit, elim exE conjE, drule digit_cases, elim disjE)
    (simp_all add: digit_def lower_def)

lemma dec_special_digit: "is_digit c \<Longrightarrow> \<not> dec_special (c # cs)"
  using digit_lower [of c cs] by (simp add: dec_special_def Let_def)

lemma dec_number_digits:
  assumes "\<forall>c\<in>set xs. is_digit c" "\<forall>c\<in>set ys. is_digit c" "xs \<noteq> []"
  shows "dec_number sg (xs @ ''.'' @ ys) =
     Some (Dec (sg * int (digits_value (xs @ ys))) (- int (length ys)))"
proof -
  have "takeWhile is_digit (xs @ ''.'' @ ys) = xs" "dropWhile is_digit (xs @ ''.'' @ ys) = ''.'' @ ys"
    using assms(1) by (simp_all add: is_digit_def)
  then show ?thesis using assms(2,3) unfolding dec_number_def by (simp add: dec_exponent_def)
qed

lemma dec_parse_cents:
  assumes "0 \<le> k"
  shows "dec_parse (str_cents k) = Some (Dec k (- 2))"
proof -
  let ?n = "nat k"
  let ?xs = "str_nat (?n div 100)" and ?ys = "pad 2 (?n mod 100)"
  let ?s = "?xs @ ''.'' @ ?ys"
  have s: "str_cents k = ?s" using assms by (simp add: str_cents_def)
  have dx: "\<forall>c\<in>set ?xs. is_digit c" and dy: "\<forall>c\<in>set ?ys. is_digit c"
    by (rule str_nat_digits, rule pad_digits)
  obtain c cs where xs: "?xs = c # cs" "is_digit c"
    using str_nat_nonempty [of "?n div 100"] dx by (cases ?xs) auto
  have "list_all (\<lambda>c. \<not> is_space c) ?s"
    using dx dy digit_not by (auto simp: list_all_iff not_space)
  then have "strip ?s = ?s" by (rule strip_id)
  moreover have "filter (\<lambda>c. c \<noteq> CHR ''_'') ?s = ?s"
    using dx dy digit_not by (intro filter_True) auto
  moreover have "split_sign ?s = (1, ?s)"
    using digit_not [OF xs(2)] by (simp add: xs split_sign_def)
  moreover have "\<not> dec_special ?s" using dec_special_digit [OF xs(2)] by (simp add: xs)
  moreover have "dec_number 1 ?s = Some (Dec k (- 2))"
    using dec_number_digits [OF dx dy str_nat_nonempty, of 1] assms
      pad2_length [of "?n mod 100"] div_mult_mod_eq [of ?n 100]
    by (simp add: digits_value_append str_nat_value digits_value_pad)
  ultimately show ?thesis by (simp add: dec_parse_def s)
qed

lemma dec_units_cents: "\<bar>k\<bar> < 10 ^ 28 \<Longrightarrow> dec_units 2 (Dec k (- 2)) = Some k"
  by (simp add: dec_units_def scaled_def)

section \<open>JSON documents\<close>

datatype json = JNull | JBool bool | JInt int | JFloat string | JStr string | JList "json list" | JObj "(string \<times> json) list"

type_synonym dict = "(string \<times> json) list"

text \<open>
  A float is carried by its \<open>repr\<close>. The text of a list or a nested document is never a number,
  an identifier or a choice, and no code uses it otherwise, so it is abbreviated.
\<close>

text \<open>\<open>d.get(k)\<close>, truth value, \<open>str(x)\<close>, and \<open>d.get(k) or {}\<close> used as a dictionary
  (\<open>None\<close>: the value has no \<open>get\<close>, an \<open>AttributeError\<close>).\<close>

definition dict_get :: "string \<Rightarrow> dict \<Rightarrow> json" where
  "dict_get k d = (case map_of d k of None \<Rightarrow> JNull | Some v \<Rightarrow> v)"

fun truthy :: "json \<Rightarrow> bool" where
  "truthy JNull = False"
| "truthy (JBool b) = b"
| "truthy (JInt i) = (i \<noteq> 0)"
| "truthy (JFloat r) = (r \<noteq> ''0.0'' \<and> r \<noteq> ''-0.0'')"
| "truthy (JStr s) = (s \<noteq> [])"
| "truthy (JList l) = (l \<noteq> [])"
| "truthy (JObj d) = (d \<noteq> [])"

fun py_str :: "json \<Rightarrow> string" where
  "py_str JNull = ''None''"
| "py_str (JBool b) = (if b then ''True'' else ''False'')"
| "py_str (JInt i) = str_int i"
| "py_str (JFloat r) = r"
| "py_str (JStr s) = s"
| "py_str (JList l) = ''[]''"
| "py_str (JObj d) = ''{}''"

text \<open>\<open>str(value or '')\<close>.\<close>

definition text_or_empty :: "json \<Rightarrow> string" where
  "text_or_empty j = (if truthy j then py_str j else [])"

definition dict_sub :: "string \<Rightarrow> dict \<Rightarrow> dict option" where
  "dict_sub k d = (case dict_get k d of JObj s \<Rightarrow> Some s | v \<Rightarrow> if truthy v then None else Some [])"

text \<open>\<open>int(text)\<close>: \<open>None\<close> is \<open>ValueError\<close>. Underscores separate digits.\<close>

fun int_digits :: "string \<Rightarrow> bool" where
  "int_digits [] = False"
| "int_digits [c] = is_digit c"
| "int_digits (c # d # cs) = (is_digit c \<and> (if d = CHR ''_'' then int_digits cs else int_digits (d # cs)))"

definition py_int :: "string \<Rightarrow> int option" where
  "py_int text =
     (let (sg, s) = split_sign (strip text)
      in if int_digits s then Some (sg * int (digits_value (filter (\<lambda>c. c \<noteq> CHR ''_'') s))) else None)"

lemma int_digits_all: "xs \<noteq> [] \<Longrightarrow> \<forall>c\<in>set xs. is_digit c \<Longrightarrow> int_digits xs"
  by (induction xs rule: int_digits.induct) (use digit_not in auto)

lemma py_int_str_nat: "py_int (str_nat n) = Some (int n)"
proof -
  obtain c cs where xs: "str_nat n = c # cs" "is_digit c"
    using str_nat_nonempty [of n] str_nat_digits [of n] by (cases "str_nat n") auto
  have "list_all (\<lambda>c. \<not> is_space c) (str_nat n)"
    using str_nat_digits digit_not by (auto simp: list_all_iff)
  then have "strip (str_nat n) = str_nat n" by (rule strip_id)
  moreover have "split_sign (str_nat n) = (1, str_nat n)"
    using digit_not [OF xs(2)] by (simp add: xs(1) split_sign_def)
  moreover have "filter (\<lambda>c. c \<noteq> CHR ''_'') (str_nat n) = str_nat n"
    using str_nat_digits digit_not by (intro filter_True) auto
  ultimately show ?thesis
    using int_digits_all [OF str_nat_nonempty str_nat_digits] by (simp add: py_int_def str_nat_value)
qed

end
