(* ===== verification/Billing_Types.thy ===== *)
theory Billing_Types
  imports Calendar Decimals
begin

text \<open>
  The data model of \<^verbatim>\<open>apps/billing/models.py\<close>: one record per model with the columns the code
  reads, one datatype per set of choices, the database as a record of tables, and the guards of
  \<open>Invoice.save\<close> and of the unique constraints. Money is in kopecks, AI credits in
  ten-thousandths, instants in microseconds since the epoch, UUIDs are natural numbers.
\<close>

type_synonym money = int
type_synonym credits = int
type_synonym instant = int
type_synonym uuid = nat

section \<open>Exceptions\<close>

datatype inv_status = Pending | Paid | Failed | Partially_Refunded | Refunded | Manual_Review

datatype err =
    ValueError | TypeError | AttributeError | OverflowError | RuntimeError
  | IntegrityError | DoesNotExist | MultipleObjectsReturned | ValidationError
  | InsufficientAICredits credits credits
  | BillingOutboxConflict
  | BillingDisabled
  | CheckoutConflict nat
  | CheckoutKeyLimit nat
  | CheckoutPending nat int
  | CheckoutManualReview nat string
  | CheckoutTerminal nat inv_status
  | ActiveSubscriptionCheckout string string date
  | SubscriptionCheckoutInProgress nat
  | YooKassaAPIError
  | YooKassaSnapshotError
  | OtherError string

text \<open>\<open>type(exc).__name__\<close>.\<close>

fun err_name :: "err \<Rightarrow> string" where
  "err_name ValueError = ''ValueError''"
| "err_name TypeError = ''TypeError''"
| "err_name AttributeError = ''AttributeError''"
| "err_name OverflowError = ''OverflowError''"
| "err_name RuntimeError = ''RuntimeError''"
| "err_name IntegrityError = ''IntegrityError''"
| "err_name DoesNotExist = ''DoesNotExist''"
| "err_name MultipleObjectsReturned = ''MultipleObjectsReturned''"
| "err_name ValidationError = ''ValidationError''"
| "err_name (InsufficientAICredits _ _) = ''InsufficientAICredits''"
| "err_name BillingOutboxConflict = ''BillingOutboxConflictError''"
| "err_name BillingDisabled = ''BillingDisabledError''"
| "err_name (CheckoutConflict _) = ''CheckoutConflictError''"
| "err_name (CheckoutKeyLimit _) = ''CheckoutKeyLimitError''"
| "err_name (CheckoutPending _ _) = ''CheckoutPendingError''"
| "err_name (CheckoutManualReview _ _) = ''CheckoutManualReviewError''"
| "err_name (CheckoutTerminal _ _) = ''CheckoutTerminalError''"
| "err_name (ActiveSubscriptionCheckout _ _ _) = ''ActiveSubscriptionCheckoutError''"
| "err_name (SubscriptionCheckoutInProgress _) = ''SubscriptionCheckoutInProgressError''"
| "err_name YooKassaAPIError = ''YooKassaAPIError''"
| "err_name YooKassaSnapshotError = ''YooKassaSnapshotError''"
| "err_name (OtherError n) = n"

section \<open>The environment of an operation\<close>

text \<open>
  What an operation reads from outside the database: the clock (one reading per operation), the
  local date, the time-zone conversion of a local day to instants, the settings, and the
  library functions whose values the code only stores and compares (SHA-256 of the canonical
  payload, UUID version 5, the text of a UUID), or only asks about (whether
  \<open>ipaddress.ip_address\<close> accepts a bracketed host).
\<close>

datatype checkout_payload =
    Subscription_Payload (cp_plan_slug: string) (cp_period: string) (cp_return_url: string)
  | AI_Topup_Payload (cp_package_id: nat) (cp_return_url: string)

record env =
  now :: instant
  today :: date
  day_start :: "date \<Rightarrow> instant"
  day_end :: "date \<Rightarrow> instant"
  payload_hash :: "checkout_payload \<Rightarrow> string"
  uuid5 :: "string \<Rightarrow> string"
  uuid_text :: "uuid \<Rightarrow> string"
  ipv6_text :: "string \<Rightarrow> bool"
  billing_enabled :: bool
  allow_test_payments :: bool
  trial_days :: int
  grace_days :: int
  max_keys :: nat
  recon_base :: int
  recon_max_delay :: int
  recon_max_attempts :: nat
  recon_batch :: int
  webhook_timeout :: int
  outbox_base :: int
  outbox_max_delay :: int
  outbox_max_attempts :: nat
  outbox_timeout :: int
  outbox_batch :: int

text \<open>\<open>timedelta(seconds=n)\<close> in microseconds.\<close>

definition secs :: "int \<Rightarrow> instant" where
  "secs n = 1000000 * n"

section \<open>Tables\<close>

record plan =
  pl_pk :: nat
  pl_name :: string
  pl_slug :: string
  pl_monthly :: money
  pl_yearly :: money
  pl_limit_listings :: "int option"
  pl_limit_sku :: "int option"
  pl_limit_ai :: "int option"
  pl_active :: bool

record tenant =
  tn_pk :: nat
  tn_active :: bool
  tn_ai_override :: "int option"
  tn_ai_used :: int
  tn_active_listings :: int
  tn_sku :: int
  tn_trial_ends :: "instant option"

datatype sub_status = Trial | Active | Past_Due | Cancelled

record subscription =
  sb_pk :: nat
  sb_tenant :: nat
  sb_plan :: nat
  sb_status :: sub_status
  sb_period :: string
  sb_start :: date
  sb_end :: date
  sb_ai_start :: "date option"
  sb_ai_end :: "date option"
  sb_cancelled_at :: "instant option"
  sb_version :: nat

datatype purchase = Subscription_Purchase | AI_Topup

fun purchase_name :: "purchase \<Rightarrow> string" where
  "purchase_name Subscription_Purchase = ''subscription''"
| "purchase_name AI_Topup = ''ai_topup''"

datatype checkout_state =
    Ck_Legacy | Ck_Intent_Created | Ck_Provider_Pending | Ck_Provider_Created | Ck_Manual_Review

text \<open>
  The columns of \<open>Invoice._IMMUTABLE_INTENT_FIELDS\<close> form one record, the financial intent of the
  invoice; an empty snapshot is the JSON default \<open>{}\<close>.
\<close>

record intent =
  in_tenant :: nat
  in_amount :: money
  in_currency :: string
  in_type :: purchase
  in_metadata :: dict
  in_client_key :: "uuid option"
  in_provider_key :: string
  in_payload_hash :: string
  in_return_url :: string
  in_snapshot :: dict
  in_plan :: "nat option"
  in_version :: "nat option"

record invoice =
  iv_pk :: nat
  iv_intent :: intent
  iv_status :: inv_status
  iv_payment_id :: string
  iv_paid_at :: "instant option"
  iv_refunded :: money
  iv_refund_review :: bool
  iv_confirmation_url :: string
  iv_state :: checkout_state
  iv_attempts :: nat
  iv_first_attempt :: "instant option"
  iv_last_attempt :: "instant option"
  iv_error :: string
  iv_recon_attempts :: nat
  iv_next_recon :: "instant option"
  iv_last_recon :: "instant option"

record client_key =
  ck_pk :: nat
  ck_tenant :: nat
  ck_invoice :: nat
  ck_key :: uuid
  ck_hash :: string

datatype event_status = Ev_Pending | Ev_Processing | Ev_Dispatched | Ev_Dead

datatype event_type = Ev_Notification | Ev_Requeue_Limit_Reached | Ev_Unknown string

record outbox_event =
  ob_id :: uuid
  ob_tenant :: nat
  ob_invoice :: "nat option"
  ob_type :: event_type
  ob_key :: string
  ob_payload :: dict
  ob_status :: event_status
  ob_attempts :: nat
  ob_next_attempt :: "instant option"
  ob_token :: "uuid option"
  ob_started :: "instant option"
  ob_dispatched_at :: "instant option"
  ob_dead_at :: "instant option"
  ob_error :: string

record wallet =
  wl_pk :: nat
  wl_tenant :: nat
  wl_included :: credits
  wl_limit :: credits
  wl_purchased :: credits
  wl_reserved :: credits
  wl_expires :: "instant option"
  wl_sent :: "int list"

datatype txn_kind =
    K_Grant | K_Topup | K_Reserve | K_Release | K_Charge | K_Expire | K_Adjustment | K_Refund | K_Chargeback

datatype balance = Bal_Included | Bal_Purchased | Bal_Reserved

record credit_txn =
  tx_tenant :: nat
  tx_kind :: txn_kind
  tx_balance :: balance
  tx_amount :: credits
  tx_key :: string
  tx_reference :: string

record package =
  pk_pk :: nat
  pk_name :: string
  pk_credits :: money
  pk_price :: money
  pk_active :: bool

datatype rev_kind = Rev_Refund | Rev_Chargeback
datatype rev_status = Rev_Applied | Rev_Manual_Review | Rev_Rejected

record reversal =
  rv_pk :: nat
  rv_invoice :: nat
  rv_kind :: rev_kind
  rv_reference :: string
  rv_payment_id :: string
  rv_amount :: money
  rv_currency :: string
  rv_requested :: credits
  rv_reversed :: credits
  rv_shortfall :: credits
  rv_status :: rev_status
  rv_reason :: string

datatype decision = D_Received | D_Applied | D_Ignored | D_Rejected | D_Manual_Review | D_Error

record webhook_event =
  wh_pk :: nat
  wh_type :: string
  wh_object :: string
  wh_key :: string
  wh_payment_id :: string
  wh_invoice :: "nat option"
  wh_tenant :: "nat option"
  wh_amount :: "money option"
  wh_currency :: string
  wh_decision :: decision
  wh_reason :: string
  wh_deliveries :: nat
  wh_token :: "uuid option"
  wh_started :: "instant option"
  wh_processed :: "instant option"
  wh_recon_attempts :: nat
  wh_next_recon :: "instant option"
  wh_last_recon :: "instant option"

text \<open>
  The database. \<open>d_synclog\<close> holds the billing entries of \<open>SyncLog\<close> (tenant, status, message),
  \<open>d_uuid\<close> is the source of fresh UUIDs (\<open>uuid4\<close> never repeats) and \<open>d_kicks\<close> the outbox events
  whose dispatch was scheduled with \<open>transaction.on_commit\<close>.
\<close>

record db =
  d_plans :: "plan list"
  d_tenants :: "tenant list"
  d_subs :: "subscription list"
  d_invoices :: "invoice list"
  d_keys :: "client_key list"
  d_outbox :: "outbox_event list"
  d_wallets :: "wallet list"
  d_ledger :: "credit_txn list"
  d_packages :: "package list"
  d_reversals :: "reversal list"
  d_webhooks :: "webhook_event list"
  d_synclog :: "(nat \<times> string \<times> string) list"
  d_uuid :: uuid
  d_kicks :: "uuid list"

definition empty_db :: db where
  "empty_db = \<lparr>d_plans = [], d_tenants = [], d_subs = [], d_invoices = [], d_keys = [], d_outbox = [],
     d_wallets = [], d_ledger = [], d_packages = [], d_reversals = [], d_webhooks = [],
     d_synclog = [], d_uuid = 0, d_kicks = []\<rparr>"

section \<open>Row access\<close>

definition get_plan :: "nat \<Rightarrow> db \<Rightarrow> plan option" where
  "get_plan k d = row_get pl_pk k (d_plans d)"

definition get_tenant :: "nat \<Rightarrow> db \<Rightarrow> tenant option" where
  "get_tenant k d = row_get tn_pk k (d_tenants d)"

definition put_tenant :: "tenant \<Rightarrow> db \<Rightarrow> db" where
  "put_tenant t d = d\<lparr>d_tenants := row_put tn_pk t (d_tenants d)\<rparr>"

definition get_sub :: "nat \<Rightarrow> db \<Rightarrow> subscription option" where
  "get_sub k d = row_get sb_pk k (d_subs d)"

definition put_sub :: "subscription \<Rightarrow> db \<Rightarrow> db" where
  "put_sub s d = d\<lparr>d_subs := row_put sb_pk s (d_subs d)\<rparr>"

text \<open>\<open>tenant.subscription\<close> (one-to-one).\<close>

definition sub_of :: "nat \<Rightarrow> db \<Rightarrow> subscription option" where
  "sub_of t d = row_get sb_tenant t (d_subs d)"

definition get_invoice :: "nat \<Rightarrow> db \<Rightarrow> invoice option" where
  "get_invoice k d = row_get iv_pk k (d_invoices d)"

definition put_invoice :: "invoice \<Rightarrow> db \<Rightarrow> db" where
  "put_invoice i d = d\<lparr>d_invoices := row_put iv_pk i (d_invoices d)\<rparr>"

definition get_event :: "uuid \<Rightarrow> db \<Rightarrow> outbox_event option" where
  "get_event k d = row_get ob_id k (d_outbox d)"

definition put_event :: "outbox_event \<Rightarrow> db \<Rightarrow> db" where
  "put_event e d = d\<lparr>d_outbox := row_put ob_id e (d_outbox d)\<rparr>"

definition wallet_of :: "nat \<Rightarrow> db \<Rightarrow> wallet option" where
  "wallet_of t d = row_get wl_tenant t (d_wallets d)"

definition put_wallet :: "wallet \<Rightarrow> db \<Rightarrow> db" where
  "put_wallet w d = d\<lparr>d_wallets := row_put wl_tenant w (d_wallets d)\<rparr>"

definition get_reversal :: "nat \<Rightarrow> db \<Rightarrow> reversal option" where
  "get_reversal k d = row_get rv_pk k (d_reversals d)"

definition put_reversal :: "reversal \<Rightarrow> db \<Rightarrow> db" where
  "put_reversal r d = d\<lparr>d_reversals := row_put rv_pk r (d_reversals d)\<rparr>"

definition get_webhook :: "nat \<Rightarrow> db \<Rightarrow> webhook_event option" where
  "get_webhook k d = row_get wh_pk k (d_webhooks d)"

definition put_webhook :: "webhook_event \<Rightarrow> db \<Rightarrow> db" where
  "put_webhook e d = d\<lparr>d_webhooks := row_put wh_pk e (d_webhooks d)\<rparr>"

definition add_synclog :: "nat \<Rightarrow> string \<Rightarrow> string \<Rightarrow> db \<Rightarrow> db" where
  "add_synclog t status message d = d\<lparr>d_synclog := d_synclog d @ [(t, status, message)]\<rparr>"

text \<open>\<open>uuid.uuid4()\<close>.\<close>

definition fresh_uuid :: "db \<Rightarrow> uuid \<times> db" where
  "fresh_uuid d = (d_uuid d, d\<lparr>d_uuid := Suc (d_uuid d)\<rparr>)"

lemmas access_defs =
  get_plan_def get_tenant_def put_tenant_def get_sub_def put_sub_def sub_of_def get_invoice_def
  put_invoice_def get_event_def put_event_def wallet_of_def put_wallet_def get_reversal_def
  put_reversal_def get_webhook_def put_webhook_def add_synclog_def fresh_uuid_def

interpretation tenant_table: keyed_table tn_pk get_tenant put_tenant
  by unfold_locales (auto simp: access_defs table_simps dest: row_get_key)

interpretation sub_table: keyed_table sb_pk get_sub put_sub
  by unfold_locales (auto simp: access_defs table_simps dest: row_get_key)

interpretation invoice_table: keyed_table iv_pk get_invoice put_invoice
  by unfold_locales (auto simp: access_defs table_simps dest: row_get_key)

interpretation event_table: keyed_table ob_id get_event put_event
  by unfold_locales (auto simp: access_defs table_simps dest: row_get_key)

interpretation wallet_table: keyed_table wl_tenant wallet_of put_wallet
  by unfold_locales (auto simp: access_defs table_simps dest: row_get_key)

interpretation reversal_table: keyed_table rv_pk get_reversal put_reversal
  by unfold_locales (auto simp: access_defs table_simps dest: row_get_key)

interpretation webhook_table: keyed_table wh_pk get_webhook put_webhook
  by unfold_locales (auto simp: access_defs table_simps dest: row_get_key)

end
