(* ===== verification/Interfaces.thy ===== *)
theory Interfaces
  imports Billing_Types
begin

text \<open>
  The contracts that several billing components share, as locales with their client lemmas:
  retry back-off, the claim/finish lease that keeps two workers from finishing the same row,
  and idempotent application of an operation under a key. Each is interpreted on the model's own
  definitions in the theory of the component that provides it.
\<close>

section \<open>Back-off\<close>

text \<open>
  A delay table between a base and a cap that never shrinks with the attempt number. \<open>ok\<close> is what
  the settings guarantee. The client is a row that is rescheduled after every failure.
\<close>

locale backoff =
  fixes ok :: "env \<Rightarrow> bool"
    and base :: "env \<Rightarrow> int"
    and cap :: "env \<Rightarrow> int"
    and delay :: "env \<Rightarrow> nat \<Rightarrow> int"
  assumes base_pos: "ok e \<Longrightarrow> 0 < base e"
    and delay_ge: "ok e \<Longrightarrow> base e \<le> delay e n"
    and delay_le: "ok e \<Longrightarrow> delay e n \<le> cap e"
    and delay_mono: "ok e \<Longrightarrow> m \<le> n \<Longrightarrow> delay e m \<le> delay e n"
begin

lemma delay_positive: "ok e \<Longrightarrow> 0 < delay e n"
  using base_pos [of e] delay_ge [of e n] by linarith

text \<open>The waiting time accumulated by the attempts numbered \<open>Suc m, \<dots>, m + n\<close>.\<close>

lemma total_wait_bounds:
  "ok e \<Longrightarrow> int n * base e \<le> (\<Sum>k\<leftarrow>[m..<m + n]. delay e k) \<and>
     (\<Sum>k\<leftarrow>[m..<m + n]. delay e k) \<le> int n * cap e"
proof (induction n)
  case 0
  then show ?case by simp
next
  case (Suc n)
  then show ?case
    using delay_ge [of e "m + n"] delay_le [of e "m + n"] by (simp add: algebra_simps)
qed

end

section \<open>Leases\<close>

text \<open>
  A row is claimed by drawing a fresh token, and finished by presenting the token. \<open>bound\<close> bounds
  the tokens drawn so far. The laws are about one operation; the client lemmas are about every
  interleaving of the operations of any number of workers.
\<close>

datatype ('c, 'f, 'k) lease_action = Claim 'c 'k | Finish 'f 'k uuid

locale lease =
  fixes holder :: "'k \<Rightarrow> 's \<Rightarrow> uuid option"
    and bound :: "'s \<Rightarrow> uuid"
    and claim :: "'c \<Rightarrow> 'k \<Rightarrow> 's \<Rightarrow> uuid option \<times> 's"
    and finish :: "'f \<Rightarrow> 'k \<Rightarrow> uuid \<Rightarrow> 's \<Rightarrow> 's"
  assumes claim_taken: "claim c k s = (Some t, s') \<Longrightarrow> holder k s' = Some t \<and> t = bound s \<and> bound s' = Suc t"
    and claim_refused: "claim c k s = (None, s') \<Longrightarrow> holder k s' = holder k s \<and> bound s' = bound s"
    and claim_other: "claim c k s = (r, s') \<Longrightarrow> k' \<noteq> k \<Longrightarrow> holder k' s' = holder k' s"
    and finish_stale: "holder k s \<noteq> Some t \<Longrightarrow> finish f k t s = s"
    and finish_released: "holder k (finish f k t s) \<noteq> Some t"
    and finish_held: "holder k s = Some t \<Longrightarrow> holder k (finish f k t s) = None"
    and finish_other: "k' \<noteq> k \<Longrightarrow> holder k' (finish f k t s) = holder k' s"
    and finish_next: "bound (finish f k t s) = bound s"
begin

fun act :: "('c, 'f, 'k) lease_action \<Rightarrow> 's \<Rightarrow> 's" where
  "act (Claim c k) s = snd (claim c k s)"
| "act (Finish f k t) s = finish f k t s"

definition run :: "('c, 'f, 'k) lease_action list \<Rightarrow> 's \<Rightarrow> 's" where
  "run as s = fold act as s"

text \<open>A drawn token that does not hold the row never holds it again.\<close>

lemma act_lost:
  assumes "t < bound s" "holder k s \<noteq> Some t"
  shows "t < bound (act a s) \<and> holder k (act a s) \<noteq> Some t"
proof (cases a)
  case (Claim c k')
  obtain r s' where cl: "claim c k' s = (r, s')" by (cases "claim c k' s")
  show ?thesis
  proof (cases r)
    case None
    have "holder k' s' = holder k' s" "bound s' = bound s"
      using claim_refused [OF cl [unfolded None]] by auto
    then show ?thesis
      using assms claim_other [OF cl, of k] Claim cl by (cases "k = k'") auto
  next
    case (Some u)
    have "holder k' s' = Some u" "u = bound s" "bound s' = Suc u"
      using claim_taken [OF cl [unfolded Some]] by auto
    then show ?thesis
      using assms claim_other [OF cl, of k] Claim cl by (cases "k = k'") auto
  qed
next
  case (Finish f k' u)
  show ?thesis
  proof (cases "k = k'")
    case False
    then show ?thesis using assms finish_other finish_next Finish by simp
  next
    case True
    have "holder k (finish f k u s) \<noteq> Some t"
    proof (cases "holder k s = Some u")
      case True
      then show ?thesis using finish_held by simp
    next
      case False
      then show ?thesis using finish_stale assms(2) by simp
    qed
    then show ?thesis using assms(1) finish_next Finish True by simp
  qed
qed

lemma lost_for_good:
  assumes "t < bound s" "holder k s \<noteq> Some t"
  shows "holder k (run as s) \<noteq> Some t"
proof -
  have "t < bound (run as s) \<and> holder k (run as s) \<noteq> Some t"
    using assms unfolding run_def
  proof (induction as arbitrary: s)
    case Nil
    then show ?case by simp
  next
    case (Cons a as)
    then show ?case using act_lost by simp
  qed
  then show ?thesis by simp
qed

lemma act_bound: "bound s \<le> bound (act a s)"
proof (cases a)
  case (Claim c k)
  obtain r s' where cl: "claim c k s = (r, s')" by (cases "claim c k s")
  show ?thesis
  proof (cases r)
    case None
    then show ?thesis using claim_refused [OF cl [unfolded None]] Claim cl by simp
  next
    case (Some u)
    then show ?thesis using claim_taken [OF cl [unfolded Some]] Claim cl by simp
  qed
qed (simp add: finish_next)

lemma run_bound: "bound s \<le> bound (run as s)"
proof (induction as arbitrary: s)
  case Nil
  then show ?case by (simp add: run_def)
next
  case (Cons a as)
  have "bound s \<le> bound (act a s)" by (rule act_bound)
  also have "\<dots> \<le> bound (run as (act a s))" by (rule Cons.IH)
  finally show ?case by (simp add: run_def)
qed

text \<open>
  Fencing: once another claim has taken the row, a worker that still has the old token changes
  nothing, after any interleaving.
\<close>

lemma fenced:
  assumes "claim c k s = (Some t, s1)" "claim c' k (run bs s1) = (Some u, s3)"
  shows "finish f k t (run as s3) = run as s3"
proof -
  let ?s2 = "run bs s1"
  have "t < bound s1" using claim_taken [OF assms(1)] by simp
  then have lt: "t < bound ?s2" using run_bound [of s1 bs] by linarith
  have "u = bound ?s2" "bound s3 = Suc u" "holder k s3 = Some u"
    using claim_taken [OF assms(2)] by auto
  then have "holder k (run as s3) \<noteq> Some t"
    using lt by (intro lost_for_good) auto
  then show ?thesis by (rule finish_stale)
qed

text \<open>A token finishes at most once.\<close>

lemma finish_once:
  assumes "t < bound s"
  shows "finish g k t (run as (finish f k t s)) = run as (finish f k t s)"
proof -
  have "t < bound (finish f k t s)" using assms by (simp add: finish_next)
  then have "holder k (run as (finish f k t s)) \<noteq> Some t"
    using finish_released by (rule lost_for_good)
  then show ?thesis by (rule finish_stale)
qed

end

section \<open>Tokens\<close>

text \<open>
  What is left of a lease when the steps of the system are only known to draw their tokens from a
  growing source: a token that has been drawn and does not hold a row never holds it again.
\<close>

locale token_register =
  fixes register :: "'k \<Rightarrow> 's \<Rightarrow> uuid option"
    and source :: "'s \<Rightarrow> uuid"
    and moves :: "'s \<Rightarrow> 's \<Rightarrow> bool"
  assumes source_grows: "moves s s' \<Longrightarrow> source s \<le> source s'"
    and token_drawn: "moves s s' \<Longrightarrow> register k s' = Some t \<Longrightarrow> register k s = Some t \<or> source s \<le> t"
begin

lemma source_reached: "moves\<^sup>*\<^sup>* s s' \<Longrightarrow> source s \<le> source s'"
  by (induction rule: rtranclp_induct) (auto dest: source_grows)

lemma token_gone:
  assumes "moves\<^sup>*\<^sup>* s s'" "t < source s" "register k s \<noteq> Some t"
  shows "register k s' \<noteq> Some t"
  using assms(1)
proof (induction rule: rtranclp_induct)
  case base
  then show ?case using assms(3) .
next
  case (step y z)
  then show ?case using token_drawn [OF step(2), of k t] source_reached [OF step(1)] assms(2) by auto
qed

end

text \<open>Every lease is one.\<close>

sublocale lease \<subseteq> register: token_register holder bound "\<lambda>s s'. \<exists>a. s' = act a s"
proof
  show "bound s \<le> bound s'" if "\<exists>a. s' = act a s" for s s' using that act_bound by blast
  show "holder k s = Some t \<or> bound s \<le> t" if "\<exists>a. s' = act a s" "holder k s' = Some t" for s s' k t
    using that act_lost [of t s k] by force
qed

section \<open>Operations under an idempotency key\<close>

text \<open>
  An operation records its key when it returns and does nothing when the key is already there; no
  operation removes a key. Deliveries that repeat a key, in any order and mixed with other
  operations of the same kind, then have the effect of the first delivery only.
\<close>

locale keyed_operation =
  fixes seen :: "'k \<Rightarrow> 's \<Rightarrow> bool"
    and apply_op :: "'k \<Rightarrow> 'a \<Rightarrow> 's \<Rightarrow> 'e + 's"
  assumes records: "apply_op k a s = Inr s' \<Longrightarrow> seen k s'"
    and repeats: "seen k s \<Longrightarrow> apply_op k a s = Inr s' \<Longrightarrow> s' = s"
    and keeps: "seen k s \<Longrightarrow> apply_op j a s = Inr s' \<Longrightarrow> seen k s'"
begin

text \<open>A delivery that raises rolls back.\<close>

definition deliver :: "'k \<times> 'a \<Rightarrow> 's \<Rightarrow> 's" where
  "deliver ka s = (case apply_op (fst ka) (snd ka) s of Inl _ \<Rightarrow> s | Inr s' \<Rightarrow> s')"

lemma deliver_seen: "seen k s \<Longrightarrow> deliver (k, a) s = s"
  by (auto simp: deliver_def dest: repeats split: sum.splits)

lemma deliver_keeps: "seen k s \<Longrightarrow> seen k (deliver ja s)"
  by (auto simp: deliver_def dest: keeps split: sum.splits)

lemma deliveries_keep: "seen k s \<Longrightarrow> seen k (fold deliver ds s)"
  by (induction ds arbitrary: s) (auto simp: deliver_keeps)

lemma exactly_once:
  assumes "apply_op k a s = Inr s'"
  shows "deliver (k, b) (fold deliver ds s') = fold deliver ds s'"
  using deliveries_keep [OF records [OF assms]] by (rule deliver_seen)

lemma duplicates_dropped:
  assumes "seen k s"
  shows "fold deliver ds s = fold deliver (filter (\<lambda>d. fst d \<noteq> k) ds) s"
  using assms
proof (induction ds arbitrary: s)
  case Nil
  then show ?case by simp
next
  case (Cons d ds)
  show ?case
  proof (cases "fst d = k")
    case True
    then have "deliver d s = s" using deliver_seen [OF Cons.prems, of "snd d"] by (cases d) simp
    then show ?thesis using True Cons by simp
  next
    case False
    then show ?thesis using Cons.IH [OF deliver_keeps [OF Cons.prems]] by simp
  qed
qed

end

end
