(* ===== verification/Samples.thy ===== *)
theory Samples
  imports Billing_Types
begin

text \<open>
  Concrete inputs on which the witnesses of the properties are evaluated: an environment with the
  default settings of \<^verbatim>\<open>config/settings/base.py\<close>, one plan, one tenant with a trial subscription,
  an empty database around them, and builders for rows.
\<close>

definition demo_env :: env where
  "demo_env = \<lparr>now = 1770000000000000, today = Date 2026 2 10,
     day_start = (\<lambda>d. (to_ordinal d - 719163) * 86400000000 - 10800000000),
     day_end = (\<lambda>d. (to_ordinal d - 719162) * 86400000000 - 10800000001),
     payload_hash = (\<lambda>p. case p of
        Subscription_Payload s per u \<Rightarrow> ''s:'' @ s @ '':'' @ per @ '':'' @ u
      | AI_Topup_Payload n u \<Rightarrow> ''a:'' @ str_nat n @ '':'' @ u),
     uuid5 = map (\<lambda>c. if c = CHR '':'' then CHR ''-'' else c), uuid_text = str_nat, ipv6_text = (\<lambda>_. False),
     billing_enabled = True, allow_test_payments = False, trial_days = 14, grace_days = 7,
     max_keys = 32, recon_base = 60, recon_max_delay = 3600, recon_max_attempts = 48,
     recon_batch = 100, webhook_timeout = 120, outbox_base = 30, outbox_max_delay = 3600,
     outbox_max_attempts = 25, outbox_timeout = 300, outbox_batch = 100\<rparr>"

definition demo_plan :: plan where
  "demo_plan = \<lparr>pl_pk = 1, pl_name = ''Business'', pl_slug = ''business'', pl_monthly = 1490000,
     pl_yearly = 14304000, pl_limit_listings = Some 10000, pl_limit_sku = Some 30000,
     pl_limit_ai = Some 5000, pl_active = True\<rparr>"

definition demo_tenant :: tenant where
  "demo_tenant = \<lparr>tn_pk = 7, tn_active = True, tn_ai_override = None, tn_ai_used = 0,
     tn_active_listings = 0, tn_sku = 0, tn_trial_ends = None\<rparr>"

definition demo_sub :: subscription where
  "demo_sub = \<lparr>sb_pk = 3, sb_tenant = 7, sb_plan = 1, sb_status = Trial, sb_period = ''monthly'',
     sb_start = Date 2026 2 1, sb_end = Date 2026 2 15, sb_ai_start = Some (Date 2026 2 1),
     sb_ai_end = Some (Date 2026 2 15), sb_cancelled_at = None, sb_version = 1\<rparr>"

definition demo_db :: db where
  "demo_db = empty_db\<lparr>d_plans := [demo_plan], d_tenants := [demo_tenant], d_subs := [demo_sub]\<rparr>"

definition demo_event :: "uuid \<Rightarrow> event_status \<Rightarrow> outbox_event" where
  "demo_event i st = \<lparr>ob_id = i, ob_tenant = 7, ob_invoice = None, ob_type = Ev_Requeue_Limit_Reached,
     ob_key = ''k'', ob_payload = [(''schema'', JInt 1)], ob_status = st, ob_attempts = 0,
     ob_next_attempt = None, ob_token = None, ob_started = None, ob_dispatched_at = None,
     ob_dead_at = None, ob_error = []\<rparr>"

lemmas demo_defs = demo_env_def demo_plan_def demo_tenant_def demo_sub_def demo_db_def demo_event_def
  empty_db_def

end
