(* ===== verification/Outbox.thy ===== *)
theory Outbox
  imports Interfaces Samples
begin

text \<open>
  The transactional outbox (\<^verbatim>\<open>apps/billing/outbox.py\<close>): enqueueing a side effect inside a
  financial transaction, and the dispatcher that claims, publishes and finishes events. The
  message broker is the argument \<open>broker\<close>, which says for a task whether \<open>apply_async\<close> raises;
  the list of accepted tasks is the effect. Log lines are left out.
\<close>

section \<open>Retry delay\<close>

definition billing_outbox_delay_seconds :: "env \<Rightarrow> nat \<Rightarrow> int" where
  "billing_outbox_delay_seconds e attempt =
     (let exponent = min (attempt - 1) 16
      in min (outbox_max_delay e) (outbox_base e * 2 ^ exponent))"

text \<open>What \<^verbatim>\<open>config/settings/base.py\<close> guarantees of the two settings.\<close>

definition outbox_settings_ok :: "env \<Rightarrow> bool" where
  "outbox_settings_ok e \<longleftrightarrow> 1 \<le> outbox_base e \<and> outbox_base e \<le> outbox_max_delay e"

lemma capped_doubling:
  fixes b c :: int
  assumes "1 \<le> b" "b \<le> c"
  shows "b \<le> min c (b * 2 ^ min (n - 1) 16)" "min c (b * 2 ^ min (n - 1) 16) \<le> c"
    and "m \<le> n \<Longrightarrow> min c (b * 2 ^ min (m - 1) 16) \<le> min c (b * 2 ^ min (n - 1) 16)"
proof -
  have "b * 1 \<le> b * 2 ^ k" for k :: nat
    using assms by (intro mult_left_mono) simp_all
  then show "b \<le> min c (b * 2 ^ min (n - 1) 16)" using assms by simp
  show "min c (b * 2 ^ min (n - 1) 16) \<le> c" by simp
  assume "m \<le> n"
  then have "(2::int) ^ min (m - 1) 16 \<le> 2 ^ min (n - 1) 16"
    by (intro power_increasing) auto
  then have "b * 2 ^ min (m - 1) 16 \<le> b * 2 ^ min (n - 1) 16"
    using assms by (intro mult_left_mono) simp_all
  then show "min c (b * 2 ^ min (m - 1) 16) \<le> min c (b * 2 ^ min (n - 1) 16)" by linarith
qed

interpretation outbox_backoff:
  backoff outbox_settings_ok outbox_base outbox_max_delay billing_outbox_delay_seconds
proof
  fix e m n
  assume ok: "outbox_settings_ok e"
  then have b: "1 \<le> outbox_base e" "outbox_base e \<le> outbox_max_delay e"
    by (simp_all add: outbox_settings_ok_def)
  then show "0 < outbox_base e" by simp
  show "outbox_base e \<le> billing_outbox_delay_seconds e n"
    using capped_doubling(1) [OF b] by (simp add: billing_outbox_delay_seconds_def Let_def)
  show "billing_outbox_delay_seconds e n \<le> outbox_max_delay e"
    by (simp add: billing_outbox_delay_seconds_def Let_def)
  assume "m \<le> n"
  then show "billing_outbox_delay_seconds e m \<le> billing_outbox_delay_seconds e n"
    using capped_doubling(3) [OF b] by (simp add: billing_outbox_delay_seconds_def Let_def)
qed

section \<open>Enqueueing\<close>

definition notification_levels :: "string list" where
  "notification_levels = [''billing'', ''critical'', ''error'', ''success'']"

fun known_event_type :: "event_type \<Rightarrow> bool" where
  "known_event_type (Ev_Unknown _) = False"
| "known_event_type _ = True"

text \<open>
  \<open>_validate_enqueue\<close>. Every caller runs inside a transaction and passes a string key and a
  dictionary payload, so the three type checks of the source hold by typing.
\<close>

definition validate_enqueue :: "nat \<Rightarrow> event_type \<Rightarrow> string \<Rightarrow> invoice option \<Rightarrow> bool" where
  "validate_enqueue tenant_id type key ivo \<longleftrightarrow>
     strip key \<noteq> [] \<and> length key \<le> 200 \<and> known_event_type type \<and>
     (case ivo of None \<Rightarrow> True | Some i \<Rightarrow> in_tenant (iv_intent i) = tenant_id)"

definition event_with_key :: "nat \<Rightarrow> string \<Rightarrow> db \<Rightarrow> outbox_event option" where
  "event_with_key t key d = find (\<lambda>e. ob_tenant e = t \<and> ob_key e = key) (d_outbox d)"

definition new_event :: "uuid \<Rightarrow> nat \<Rightarrow> event_type \<Rightarrow> string \<Rightarrow> dict \<Rightarrow> invoice option \<Rightarrow> outbox_event" where
  "new_event i t type key payload ivo =
     \<lparr>ob_id = i, ob_tenant = t, ob_invoice = map_option iv_pk ivo, ob_type = type, ob_key = key,
      ob_payload = payload, ob_status = Ev_Pending, ob_attempts = 0, ob_next_attempt = None,
      ob_token = None, ob_started = None, ob_dispatched_at = None, ob_dead_at = None, ob_error = []\<rparr>"

definition enqueue ::
    "nat \<Rightarrow> event_type \<Rightarrow> string \<Rightarrow> dict \<Rightarrow> invoice option \<Rightarrow> db \<Rightarrow> err + outbox_event \<times> db" where
  "enqueue t type key payload ivo d =
     (let normalized_key = strip key in
      if \<not> validate_enqueue t type normalized_key ivo then Inl ValueError
      else case event_with_key t normalized_key d of
        Some e \<Rightarrow>
          (if ob_type e \<noteq> type \<or> ob_invoice e \<noteq> map_option iv_pk ivo \<or> ob_payload e \<noteq> payload
           then Inl BillingOutboxConflict else Inr (e, d))
      | None \<Rightarrow>
          (let (i, d1) = fresh_uuid d; e = new_event i t type normalized_key payload ivo
           in Inr (e, d1\<lparr>d_outbox := d_outbox d1 @ [e], d_kicks := d_kicks d1 @ [i]\<rparr>)))"

definition notification_payload :: "string \<Rightarrow> string \<Rightarrow> dict \<Rightarrow> dict" where
  "notification_payload level message payload =
     [(''schema'', JInt 1), (''level'', JStr level), (''message'', JStr (strip message)),
      (''payload'', JObj payload)]"

definition enqueue_notification ::
    "nat \<Rightarrow> string \<Rightarrow> string \<Rightarrow> string \<Rightarrow> invoice option \<Rightarrow> dict \<Rightarrow> db \<Rightarrow> err + outbox_event \<times> db" where
  "enqueue_notification t level message key ivo payload d =
     (if level \<notin> set notification_levels then Inl ValueError
      else if strip message = [] \<or> 2000 < length message then Inl ValueError
      else enqueue t Ev_Notification key (notification_payload level message payload) ivo d)"

definition requeue_payload :: dict where
  "requeue_payload = [(''schema'', JInt 1)]"

definition enqueue_limit_reached_requeue ::
    "nat \<Rightarrow> string \<Rightarrow> invoice option \<Rightarrow> db \<Rightarrow> err + outbox_event \<times> db" where
  "enqueue_limit_reached_requeue t key ivo d = enqueue t Ev_Requeue_Limit_Reached key requeue_payload ivo d"

text \<open>What enqueueing leaves alone.\<close>

lemma enqueue_frame:
  assumes "enqueue t ty k p i d = Inr (e, d')"
  shows "d_wallets d' = d_wallets d" "d_ledger d' = d_ledger d" "d_invoices d' = d_invoices d"
    "d_subs d' = d_subs d" "d_tenants d' = d_tenants d" "d_plans d' = d_plans d"
    "d_reversals d' = d_reversals d" "d_webhooks d' = d_webhooks d" "d_keys d' = d_keys d"
    "d_packages d' = d_packages d" "d_synclog d' = d_synclog d"
  using assms by (auto simp: enqueue_def fresh_uuid_def Let_def split: if_splits option.splits)

lemma enqueue_notification_enqueue:
  "enqueue_notification t l m k i p d = Inr r \<Longrightarrow>
     enqueue t Ev_Notification k (notification_payload l m p) i d = Inr r"
  by (auto simp: enqueue_notification_def split: if_splits)

lemmas enqueue_notification_frame = enqueue_frame [OF enqueue_notification_enqueue]

lemma event_with_key_Some:
  "event_with_key t k d = Some e \<Longrightarrow> e \<in> set (d_outbox d) \<and> ob_tenant e = t \<and> ob_key e = k"
  by (auto simp: event_with_key_def find_Some_iff)

lemma event_with_key_append:
  "event_with_key t k (d\<lparr>d_outbox := d_outbox d @ [e]\<rparr>) =
     (case event_with_key t k d of Some x \<Rightarrow> Some x
      | None \<Rightarrow> if ob_tenant e = t \<and> ob_key e = k then Some e else None)"
proof -
  have "find P (xs @ [e]) = (case find P xs of Some x \<Rightarrow> Some x | None \<Rightarrow> if P e then Some e else None)"
    for P and xs :: "outbox_event list"
    by (induction xs) auto
  then show ?thesis by (simp add: event_with_key_def)
qed

text \<open>An enqueued event is found under its key, exactly as it was asked for.\<close>

lemma enqueue_found:
  assumes "enqueue t ty k p i d = Inr (e, d')"
  shows "event_with_key t (strip k) d' = Some e \<and> ob_type e = ty \<and> ob_payload e = p \<and>
     ob_invoice e = map_option iv_pk i \<and> ob_tenant e = t \<and> ob_key e = strip k"
proof (cases "event_with_key t (strip k) d")
  case None
  then show ?thesis
    using assms event_with_key_append
    by (auto simp: enqueue_def fresh_uuid_def new_event_def Let_def event_with_key_def split: if_splits)
next
  case (Some x)
  then show ?thesis
    using assms event_with_key_Some [OF Some] by (auto simp: enqueue_def Let_def split: if_splits)
qed

lemma enqueue_keeps:
  assumes "enqueue t ty k p i d = Inr (e, d')" "event_with_key u q d = Some x"
  shows "event_with_key u q d' = Some x"
proof (cases "event_with_key t (strip k) d")
  case None
  then show ?thesis
    using assms event_with_key_append
    by (auto simp: enqueue_def fresh_uuid_def new_event_def Let_def event_with_key_def split: if_splits)
next
  case (Some y)
  then show ?thesis using assms by (auto simp: enqueue_def Let_def split: if_splits)
qed

lemma enqueue_repeat:
  assumes "enqueue t ty k p i d = Inr (e, d')" "event_with_key t (strip k) d = Some x"
  shows "d' = d \<and> e = x"
  using assms by (auto simp: enqueue_def Let_def split: if_splits)

definition event_seen :: "nat \<times> string \<Rightarrow> db \<Rightarrow> bool" where
  "event_seen tk d \<longleftrightarrow> event_with_key (fst tk) (strip (snd tk)) d \<noteq> None"

definition enqueue_op ::
    "nat \<times> string \<Rightarrow> event_type \<times> dict \<times> invoice option \<Rightarrow> db \<Rightarrow> err + db" where
  "enqueue_op tk a d =
     bind_ok (enqueue (fst tk) (fst a) (snd tk) (fst (snd a)) (snd (snd a)) d) (\<lambda>r. Inr (snd r))"

interpretation outbox_keys: keyed_operation event_seen enqueue_op
proof
  fix k a s s'
  assume "enqueue_op k a s = Inr s'"
  then obtain e where en: "enqueue (fst k) (fst a) (snd k) (fst (snd a)) (snd (snd a)) s = Inr (e, s')"
    by (auto simp: enqueue_op_def bind_ok_Inr_iff)
  show "event_seen k s'" using enqueue_found [OF en] by (simp add: event_seen_def)
  show "s' = s" if "event_seen k s"
    using that enqueue_repeat [OF en] by (auto simp: event_seen_def)
  show "event_seen j s'" if "event_seen j s" for j
    using that enqueue_keeps [OF en] by (auto simp: event_seen_def)
qed

section \<open>Dispatching\<close>

text \<open>
  \<open>_candidate_ids\<close>: explicit ids, or the pending events that are due and the processing ones
  whose claim is stale, oldest first.
\<close>

definition outbox_stale_before :: "env \<Rightarrow> instant" where
  "outbox_stale_before e = now e - secs (outbox_timeout e)"

definition due_candidate :: "env \<Rightarrow> bool \<Rightarrow> outbox_event \<Rightarrow> bool" where
  "due_candidate e force ev \<longleftrightarrow>
     (ob_status ev = Ev_Pending \<and>
        (force \<or> (case ob_next_attempt ev of None \<Rightarrow> True | Some n \<Rightarrow> n \<le> now e))) \<or>
     (ob_status ev = Ev_Processing \<and>
        (case ob_started ev of None \<Rightarrow> True | Some s \<Rightarrow> s < outbox_stale_before e))"

definition candidate_ids :: "env \<Rightarrow> nat \<Rightarrow> uuid list option \<Rightarrow> bool \<Rightarrow> db \<Rightarrow> uuid list" where
  "candidate_ids e limit event_ids force d =
     take limit (map ob_id (filter
       (\<lambda>ev. case event_ids of Some ids \<Rightarrow> ob_id ev \<in> set ids | None \<Rightarrow> due_candidate e force ev)
       (d_outbox d)))"

datatype claim_state = Claimed | Final | Busy | Waiting | Not_Due | Exhausted

definition claim_event ::
    "env \<Rightarrow> bool \<Rightarrow> uuid \<Rightarrow> db \<Rightarrow> err + (outbox_event \<times> uuid option \<times> claim_state) \<times> db" where
  "claim_event e force event_id d =
     (case get_event event_id d of
        None \<Rightarrow> Inl DoesNotExist
      | Some ev \<Rightarrow>
          (if ob_status ev = Ev_Dispatched then Inr ((ev, None, Final), d)
           else if ob_status ev = Ev_Dead \<and> \<not> force then Inr ((ev, None, Final), d)
           else if ob_status ev = Ev_Processing \<and>
                   (case ob_started ev of None \<Rightarrow> False | Some s \<Rightarrow> s \<ge> outbox_stale_before e)
             then Inr ((ev, None, Busy), d)
           else if ob_status ev = Ev_Pending \<and> \<not> force \<and>
                   (case ob_next_attempt ev of None \<Rightarrow> False | Some n \<Rightarrow> n > now e)
             then Inr ((ev, None, Waiting), d)
           else
             (let (token, d1) = fresh_uuid d;
                  ev' = ev\<lparr>ob_status := Ev_Processing, ob_token := Some token,
                           ob_started := Some (now e), ob_attempts := ob_attempts ev + 1\<rparr>
              in Inr ((ev', Some token, Claimed), put_event ev' d1))))"

datatype task =
    Send_Notification_Task (tk_tenant: nat) (tk_level: string) (tk_message: string)
      (tk_payload: dict) (tk_dedupe: string) (tk_id: string)
  | Requeue_Limit_Reached_Task (tk_tenant: nat) (tk_id: string)

definition event_task_id :: "env \<Rightarrow> outbox_event \<Rightarrow> string" where
  "event_task_id e ev = ''billing-outbox-'' @ uuid_text e (ob_id ev)"

text \<open>\<open>_publish_event\<close>: the task handed to the broker, or the \<open>ValueError\<close> of a damaged payload.\<close>

definition event_task :: "env \<Rightarrow> outbox_event \<Rightarrow> err + task" where
  "event_task e ev =
     (case ob_type ev of
        Ev_Notification \<Rightarrow>
          (case (dict_get ''level'' (ob_payload ev), dict_get ''message'' (ob_payload ev),
                 dict_get ''payload'' (ob_payload ev)) of
             (JStr level, JStr message, JObj payload) \<Rightarrow>
               (if dict_get ''schema'' (ob_payload ev) = JInt 1 \<and> level \<in> set notification_levels
                then Inr (Send_Notification_Task (ob_tenant ev) level message payload
                            (''billing-outbox:'' @ uuid_text e (ob_id ev)) (event_task_id e ev))
                else Inl ValueError)
           | _ \<Rightarrow> Inl ValueError)
      | Ev_Requeue_Limit_Reached \<Rightarrow>
          (if ob_payload ev \<noteq> requeue_payload then Inl ValueError
           else Inr (Requeue_Limit_Reached_Task (ob_tenant ev) (event_task_id e ev)))
      | Ev_Unknown _ \<Rightarrow> Inl ValueError)"

definition publish_event :: "(task \<Rightarrow> err option) \<Rightarrow> env \<Rightarrow> outbox_event \<Rightarrow> err + task" where
  "publish_event broker e ev =
     (case event_task e ev of
        Inl x \<Rightarrow> Inl x
      | Inr t \<Rightarrow> (case broker t of None \<Rightarrow> Inr t | Some x \<Rightarrow> Inl x))"

definition holds_claim :: "outbox_event \<Rightarrow> uuid \<Rightarrow> bool" where
  "holds_claim ev token \<longleftrightarrow> ob_status ev = Ev_Processing \<and> ob_token ev = Some token"

definition mark_dispatched :: "env \<Rightarrow> uuid \<Rightarrow> uuid \<Rightarrow> db \<Rightarrow> err + bool \<times> db" where
  "mark_dispatched e event_id token d =
     (case get_event event_id d of
        None \<Rightarrow> Inl DoesNotExist
      | Some ev \<Rightarrow>
          (if \<not> holds_claim ev token then Inr (False, d)
           else Inr (True, put_event
                  (ev\<lparr>ob_status := Ev_Dispatched, ob_token := None, ob_started := None,
                      ob_next_attempt := None, ob_error := [], ob_dispatched_at := Some (now e),
                      ob_dead_at := None\<rparr>) d)))"

datatype reschedule_state = Retryable | Dead_Lettered

definition reschedule :: "env \<Rightarrow> uuid \<Rightarrow> uuid \<Rightarrow> err \<Rightarrow> db \<Rightarrow> err + reschedule_state option \<times> db" where
  "reschedule e event_id token exc d =
     (case get_event event_id d of
        None \<Rightarrow> Inl DoesNotExist
      | Some ev \<Rightarrow>
          (if \<not> holds_claim ev token then Inr (None, d)
           else let exhausted = ob_attempts ev \<ge> outbox_max_attempts e in
             Inr (Some (if exhausted then Dead_Lettered else Retryable),
                  put_event
                    (ev\<lparr>ob_status := (if exhausted then Ev_Dead else Ev_Pending),
                        ob_token := None, ob_started := None,
                        ob_next_attempt := (if exhausted then None
                          else Some (now e + secs (billing_outbox_delay_seconds e (ob_attempts ev)))),
                        ob_dead_at := (if exhausted then Some (now e) else None),
                        ob_error := take 500 (err_name exc @ '': dispatch failed'')\<rparr>) d)))"

record outbox_stats =
  os_claimed :: nat
  os_dispatched :: nat
  os_retryable :: nat
  os_dead :: nat
  os_skipped :: nat
  os_errors :: nat

definition no_outbox_stats :: outbox_stats where
  "no_outbox_stats = \<lparr>os_claimed = 0, os_dispatched = 0, os_retryable = 0, os_dead = 0,
     os_skipped = 0, os_errors = 0\<rparr>"

text \<open>One iteration of the dispatch loop; the tasks the broker accepted are collected.\<close>

definition dispatch_one ::
    "(task \<Rightarrow> err option) \<Rightarrow> env \<Rightarrow> bool \<Rightarrow> uuid \<Rightarrow> outbox_stats \<times> task list \<times> db \<Rightarrow>
      outbox_stats \<times> task list \<times> db" where
  "dispatch_one broker e force event_id st =
     (let (stats, sent, d) = st in
      case claim_event e force event_id d of
        Inl _ \<Rightarrow> (stats\<lparr>os_skipped := os_skipped stats + 1\<rparr>, sent, d)
      | Inr ((ev, token, state), d1) \<Rightarrow>
          (case (state, token) of
             (Claimed, Some tok) \<Rightarrow>
               (let stats1 = stats\<lparr>os_claimed := os_claimed stats + 1\<rparr> in
                case publish_event broker e ev of
                  Inl exc \<Rightarrow>
                    (case reschedule e (ob_id ev) tok exc d1 of
                       Inl _ \<Rightarrow> (stats1\<lparr>os_skipped := os_skipped stats1 + 1,
                                       os_errors := os_errors stats1 + 1\<rparr>, sent, d1)
                     | Inr (Some Retryable, d2) \<Rightarrow>
                         (stats1\<lparr>os_retryable := os_retryable stats1 + 1,
                                 os_errors := os_errors stats1 + 1\<rparr>, sent, d2)
                     | Inr (Some Dead_Lettered, d2) \<Rightarrow>
                         (stats1\<lparr>os_dead := os_dead stats1 + 1,
                                 os_errors := os_errors stats1 + 1\<rparr>, sent, d2)
                     | Inr (None, d2) \<Rightarrow> (stats1\<lparr>os_errors := os_errors stats1 + 1\<rparr>, sent, d2))
                | Inr t \<Rightarrow>
                    (case mark_dispatched e (ob_id ev) tok d1 of
                       Inl _ \<Rightarrow> (stats1\<lparr>os_skipped := os_skipped stats1 + 1\<rparr>, sent @ [t], d1)
                     | Inr (True, d2) \<Rightarrow>
                         (stats1\<lparr>os_dispatched := os_dispatched stats1 + 1\<rparr>, sent @ [t], d2)
                     | Inr (False, d2) \<Rightarrow>
                         (stats1\<lparr>os_skipped := os_skipped stats1 + 1\<rparr>, sent @ [t], d2)))
           | _ \<Rightarrow> (stats\<lparr>os_skipped := os_skipped stats + 1\<rparr>, sent, d1)))"

definition batch_limit :: "int option \<Rightarrow> int \<Rightarrow> nat" where
  "batch_limit limit fallback =
     nat (min 1000 (max 1 (case limit of None \<Rightarrow> fallback | Some l \<Rightarrow> if l = 0 then fallback else l)))"

definition dispatch_due_billing_outbox ::
    "(task \<Rightarrow> err option) \<Rightarrow> env \<Rightarrow> int option \<Rightarrow> uuid list option \<Rightarrow> bool \<Rightarrow> db \<Rightarrow>
      err + outbox_stats \<times> task list \<times> db" where
  "dispatch_due_billing_outbox broker e limit event_ids force d =
     (if force \<and> event_ids = None then Inl ValueError
      else Inr (fold (dispatch_one broker e force)
             (candidate_ids e (batch_limit limit (outbox_batch e)) event_ids force d)
             (no_outbox_stats, [], d)))"

section \<open>The lease of an event\<close>

definition event_holder :: "uuid \<Rightarrow> db \<Rightarrow> uuid option" where
  "event_holder k d = (case get_event k d of
      None \<Rightarrow> None
    | Some ev \<Rightarrow> if ob_status ev = Ev_Processing then ob_token ev else None)"

definition event_claim :: "env \<times> bool \<Rightarrow> uuid \<Rightarrow> db \<Rightarrow> uuid option \<times> db" where
  "event_claim c k d = (case claim_event (fst c) (snd c) k d of
      Inl _ \<Rightarrow> (None, d)
    | Inr ((_, token, _), d') \<Rightarrow> (token, d'))"

datatype event_end = Mark_Dispatched env | Reschedule env err

fun event_finish :: "event_end \<Rightarrow> uuid \<Rightarrow> uuid \<Rightarrow> db \<Rightarrow> db" where
  "event_finish (Mark_Dispatched e) k token d =
     (case mark_dispatched e k token d of Inl _ \<Rightarrow> d | Inr (_, d') \<Rightarrow> d')"
| "event_finish (Reschedule e exc) k token d =
     (case reschedule e k token exc d of Inl _ \<Rightarrow> d | Inr (_, d') \<Rightarrow> d')"

lemma get_event_fresh [simp]: "get_event k (d\<lparr>d_uuid := u\<rparr>) = get_event k d"
  by (simp add: get_event_def)

lemma put_event_uuid [simp]: "d_uuid (put_event ev d) = d_uuid d"
  by (simp add: put_event_def)

lemma get_event_id: "get_event k d = Some ev \<Longrightarrow> ob_id ev = k"
  by (rule event_table.get_key)

lemma get_event_put:
  "get_event k d = Some ev \<Longrightarrow> ob_id ev' = k \<Longrightarrow>
     get_event j (put_event ev' d) = (if j = k then Some ev' else get_event j d)"
  using event_table.get_put [of ev' d] by auto

text \<open>The row that a claim takes: which rows can be claimed, and what the claim writes.\<close>

definition claimable :: "env \<Rightarrow> bool \<Rightarrow> outbox_event \<Rightarrow> bool" where
  "claimable e force ev \<longleftrightarrow>
     ob_status ev \<noteq> Ev_Dispatched \<and> (ob_status ev = Ev_Dead \<longrightarrow> force) \<and>
     (ob_status ev = Ev_Processing \<longrightarrow>
        (case ob_started ev of None \<Rightarrow> True | Some s \<Rightarrow> s < outbox_stale_before e)) \<and>
     (ob_status ev = Ev_Pending \<longrightarrow>
        force \<or> (case ob_next_attempt ev of None \<Rightarrow> True | Some n \<Rightarrow> n \<le> now e))"

lemma claim_event_None: "get_event k d = None \<Longrightarrow> claim_event e force k d = Inl DoesNotExist"
  by (simp add: claim_event_def)

lemma claim_event_refused:
  assumes "get_event k d = Some ev" "\<not> claimable e force ev"
  shows "\<exists>st. claim_event e force k d = Inr ((ev, None, st), d) \<and> st \<noteq> Claimed"
  using assms
  by (cases "ob_status ev") (auto simp: claim_event_def claimable_def not_less split: option.splits)

lemma claim_event_taken:
  assumes "get_event k d = Some ev" "claimable e force ev"
  shows "claim_event e force k d =
     (let ev' = ev\<lparr>ob_status := Ev_Processing, ob_token := Some (d_uuid d),
                   ob_started := Some (now e), ob_attempts := ob_attempts ev + 1\<rparr>
      in Inr ((ev', Some (d_uuid d), Claimed), put_event ev' (d\<lparr>d_uuid := Suc (d_uuid d)\<rparr>)))"
  using assms
  by (cases "ob_status ev")
    (auto simp: claim_event_def claimable_def fresh_uuid_def Let_def split: option.splits)

lemma event_claim_cases:
  obtains (gone) "get_event k d = None" "event_claim c k d = (None, d)"
  | (refused) ev where "get_event k d = Some ev" "\<not> claimable (fst c) (snd c) ev"
      "event_claim c k d = (None, d)"
  | (taken) ev ev' where "get_event k d = Some ev" "claimable (fst c) (snd c) ev"
      "ev' = ev\<lparr>ob_status := Ev_Processing, ob_token := Some (d_uuid d),
                ob_started := Some (now (fst c)), ob_attempts := ob_attempts ev + 1\<rparr>"
      "event_claim c k d = (Some (d_uuid d), put_event ev' (d\<lparr>d_uuid := Suc (d_uuid d)\<rparr>))"
proof (cases "get_event k d")
  case None
  then show thesis using gone by (simp add: event_claim_def claim_event_None)
next
  case (Some ev)
  show thesis
  proof (cases "claimable (fst c) (snd c) ev")
    case True
    then show thesis using taken Some claim_event_taken [OF Some True]
      by (simp add: event_claim_def Let_def)
  next
    case False
    then show thesis using refused Some claim_event_refused [OF Some False]
      by (auto simp: event_claim_def)
  qed
qed

text \<open>What finishing writes.\<close>

fun finished_row :: "event_end \<Rightarrow> outbox_event \<Rightarrow> outbox_event" where
  "finished_row (Mark_Dispatched e) ev =
     ev\<lparr>ob_status := Ev_Dispatched, ob_token := None, ob_started := None, ob_next_attempt := None,
        ob_error := [], ob_dispatched_at := Some (now e), ob_dead_at := None\<rparr>"
| "finished_row (Reschedule e exc) ev =
     (let exhausted = ob_attempts ev \<ge> outbox_max_attempts e in
      ev\<lparr>ob_status := (if exhausted then Ev_Dead else Ev_Pending), ob_token := None, ob_started := None,
         ob_next_attempt := (if exhausted then None
           else Some (now e + secs (billing_outbox_delay_seconds e (ob_attempts ev)))),
         ob_dead_at := (if exhausted then Some (now e) else None),
         ob_error := take 500 (err_name exc @ '': dispatch failed'')\<rparr>)"

lemma event_holder_Some:
  "event_holder k d = Some token \<longleftrightarrow> (\<exists>ev. get_event k d = Some ev \<and> holds_claim ev token)"
  by (auto simp: event_holder_def holds_claim_def split: option.splits)

lemma event_finish_cases:
  obtains (stale) "event_holder k d \<noteq> Some token" "event_finish f k token d = d"
  | (held) ev where "event_holder k d = Some token" "get_event k d = Some ev" "holds_claim ev token"
      "event_finish f k token d = put_event (finished_row f ev) d"
proof (cases "event_holder k d = Some token")
  case True
  then obtain ev where ev: "get_event k d = Some ev" "holds_claim ev token"
    by (auto simp: event_holder_Some)
  then show thesis using held [OF True ev]
    by (cases f) (simp_all add: mark_dispatched_def reschedule_def Let_def)
next
  case False
  then have "\<And>ev. get_event k d = Some ev \<Longrightarrow> \<not> holds_claim ev token"
    by (auto simp: event_holder_Some)
  then show thesis using stale [OF False]
    by (cases f) (auto simp: mark_dispatched_def reschedule_def split: option.splits)
qed

lemma finished_row_facts:
  "ob_id (finished_row f ev) = ob_id ev" "ob_token (finished_row f ev) = None"
  "ob_attempts (finished_row f ev) = ob_attempts ev" "ob_tenant (finished_row f ev) = ob_tenant ev"
  "ob_type (finished_row f ev) = ob_type ev" "ob_payload (finished_row f ev) = ob_payload ev"
  "ob_key (finished_row f ev) = ob_key ev" "ob_invoice (finished_row f ev) = ob_invoice ev"
  "ob_status (finished_row f ev) \<noteq> Ev_Processing"
  by (cases f; simp add: Let_def)+

lemma event_holder_put:
  "get_event k d = Some ev \<Longrightarrow> ob_id ev' = k \<Longrightarrow>
     event_holder j (put_event ev' d) =
       (if j = k then (if ob_status ev' = Ev_Processing then ob_token ev' else None) else event_holder j d)"
  by (simp add: event_holder_def get_event_put)

lemma event_holder_fresh [simp]: "event_holder k (d\<lparr>d_uuid := u\<rparr>) = event_holder k d"
  by (simp add: event_holder_def)

lemma event_claim_step:
  assumes "event_claim c k s = (r, s')"
  shows "r = Some t \<Longrightarrow> event_holder k s' = Some t \<and> t = d_uuid s \<and> d_uuid s' = Suc t"
    and "r = None \<Longrightarrow> s' = s"
    and "k' \<noteq> k \<Longrightarrow> event_holder k' s' = event_holder k' s"
proof -
  have "(r = Some t \<longrightarrow> event_holder k s' = Some t \<and> t = d_uuid s \<and> d_uuid s' = Suc t) \<and>
      (r = None \<longrightarrow> s' = s) \<and> (k' \<noteq> k \<longrightarrow> event_holder k' s' = event_holder k' s)"
  proof (cases rule: event_claim_cases [of k s c])
    case (taken ev ev')
    have g: "get_event k (s\<lparr>d_uuid := Suc (d_uuid s)\<rparr>) = Some ev" using taken(1) by simp
    have "ob_id ev' = k" using get_event_id [OF taken(1)] taken(3) by simp
    then show ?thesis
      using assms taken(3,4) event_holder_put [OF g] by auto
  qed (use assms in auto)
  then show "r = Some t \<Longrightarrow> event_holder k s' = Some t \<and> t = d_uuid s \<and> d_uuid s' = Suc t"
    and "r = None \<Longrightarrow> s' = s" and "k' \<noteq> k \<Longrightarrow> event_holder k' s' = event_holder k' s"
    by blast+
qed

lemma event_finish_step:
  shows "event_holder k s \<noteq> Some t \<Longrightarrow> event_finish f k t s = s"
    and "event_holder k s = Some t \<Longrightarrow> event_holder k (event_finish f k t s) = None"
    and "k' \<noteq> k \<Longrightarrow> event_holder k' (event_finish f k t s) = event_holder k' s"
    and "d_uuid (event_finish f k t s) = d_uuid s"
proof -
  have "(event_holder k s \<noteq> Some t \<longrightarrow> event_finish f k t s = s) \<and>
     (event_holder k s = Some t \<longrightarrow> event_holder k (event_finish f k t s) = None) \<and>
     (k' \<noteq> k \<longrightarrow> event_holder k' (event_finish f k t s) = event_holder k' s) \<and>
     d_uuid (event_finish f k t s) = d_uuid s"
  proof (cases rule: event_finish_cases [of k s t f])
    case (held ev)
    have "ob_id (finished_row f ev) = k"
      using get_event_id [OF held(2)] finished_row_facts by simp
    then show ?thesis
      using held event_holder_put [OF held(2)] finished_row_facts(2) by auto
  qed auto
  then show "event_holder k s \<noteq> Some t \<Longrightarrow> event_finish f k t s = s"
    and "event_holder k s = Some t \<Longrightarrow> event_holder k (event_finish f k t s) = None"
    and "k' \<noteq> k \<Longrightarrow> event_holder k' (event_finish f k t s) = event_holder k' s"
    and "d_uuid (event_finish f k t s) = d_uuid s"
    by blast+
qed

interpretation outbox_lease: lease event_holder d_uuid event_claim event_finish
proof
  fix c k k' s t s' r f
  show "event_claim c k s = (Some t, s') \<Longrightarrow> event_holder k s' = Some t \<and> t = d_uuid s \<and> d_uuid s' = Suc t"
    by (rule event_claim_step(1)) auto
  show "event_claim c k s = (None, s') \<Longrightarrow> event_holder k s' = event_holder k s \<and> d_uuid s' = d_uuid s"
    using event_claim_step(2) by blast
  show "event_claim c k s = (r, s') \<Longrightarrow> k' \<noteq> k \<Longrightarrow> event_holder k' s' = event_holder k' s"
    by (rule event_claim_step(3))
  show "event_holder k (event_finish f k t s) \<noteq> Some t"
    using event_finish_step(1,2) [of k s t f] by (cases "event_holder k s = Some t") auto
qed (auto intro: event_finish_step)

section \<open>Properties\<close>

text \<open>Whatever is claimed or finished, by whomever, a dispatched row stays as it is.\<close>

lemma act_keeps_dispatched:
  assumes "get_event k s = Some ev" "ob_status ev = Ev_Dispatched"
  shows "get_event k (outbox_lease.act a s) = Some ev"
proof (cases a)
  case (Claim c j)
  show ?thesis
  proof (cases rule: event_claim_cases [of j s c])
    case (taken ev' ev'')
    have "j \<noteq> k" using taken(1,2) assms by (auto simp: claimable_def)
    moreover have "ob_id ev'' = j" using get_event_id [OF taken(1)] taken(3) by simp
    ultimately show ?thesis using taken assms Claim by (simp add: get_event_put)
  qed (use assms Claim in simp_all)
next
  case (Finish f j u)
  show ?thesis
  proof (cases rule: event_finish_cases [of j s u f])
    case (held ev')
    have "j \<noteq> k" using held(2,3) assms by (auto simp: holds_claim_def)
    moreover have "ob_id (finished_row f ev') = j"
      using get_event_id [OF held(2)] finished_row_facts by simp
    ultimately show ?thesis using held assms Finish by (simp add: get_event_put)
  qed (use assms Finish in simp)
qed

text \<open>Once an outbox event is dispatched, no claim, no completion and no rescheduling by any
  number of workers, with any clocks and tokens and in any order, changes its row again: the side
  effect is never queued for a second dispatch.\<close>

theorem dispatched_is_final:
  assumes "get_event k s = Some ev" "ob_status ev = Ev_Dispatched"
  shows "get_event k (outbox_lease.run as s) = Some ev"
  using assms(1)
proof (induction as arbitrary: s)
  case Nil
  then show ?case by (simp add: outbox_lease.run_def)
next
  case (Cons a as)
  then show ?case using act_keeps_dispatched assms(2) by (simp add: outbox_lease.run_def)
qed

theorem dispatched_is_final_witness:
  "get_event 5 (outbox_lease.run [Claim (demo_env, True) 5, Finish (Mark_Dispatched demo_env) 5 0]
      (empty_db\<lparr>d_outbox := [demo_event 5 Ev_Dispatched]\<rparr>)) = Some (demo_event 5 Ev_Dispatched)"
  by (rule dispatched_is_final) (simp_all add: get_event_def demo_event_def)

text \<open>A worker whose claim on an outbox event was taken over by a later claim can neither mark
  the event dispatched nor reschedule it, whatever other operations ran between the two claims and
  after them.\<close>

theorem outbox_fencing:
  assumes "event_claim c k s = (Some t, s1)"
    and "event_claim c' k (outbox_lease.run bs s1) = (Some u, s3)"
  shows "event_finish f k t (outbox_lease.run as s3) = outbox_lease.run as s3"
  using assms by (rule outbox_lease.fenced)

definition queue_sample :: "uuid \<Rightarrow> instant \<Rightarrow> db" where
  "queue_sample token at = empty_db\<lparr>d_uuid := token + 1, d_outbox :=
     [(demo_event 5 Ev_Processing)\<lparr>ob_token := Some token, ob_started := Some at,
        ob_attempts := token + 1\<rparr>]\<rparr>"

lemma sample_claim_takes:
  "event_claim (demo_env, False) 5 (empty_db\<lparr>d_outbox := [demo_event 5 Ev_Pending]\<rparr>) =
     (Some 0, queue_sample 0 1770000000000000)"
  by (simp add: event_claim_def claim_event_def access_defs demo_defs queue_sample_def Let_def)

lemma sample_claim_again:
  "event_claim (demo_env\<lparr>now := 1770001000000000\<rparr>, False) 5
     (outbox_lease.run [] (queue_sample 0 1770000000000000)) = (Some 1, queue_sample 1 1770001000000000)"
  by (simp add: event_claim_def claim_event_def access_defs demo_defs outbox_stale_before_def secs_def
      queue_sample_def Let_def outbox_lease.run_def)

theorem outbox_fencing_witness:
  "event_finish (Mark_Dispatched demo_env) 5 0
     (outbox_lease.run [Claim (demo_env, True) 6] (queue_sample 1 1770001000000000)) =
   outbox_lease.run [Claim (demo_env, True) 6] (queue_sample 1 1770001000000000)"
  by (rule outbox_fencing [OF sample_claim_takes sample_claim_again])

text \<open>A pending row has retries left; a row under way may have used the last one.\<close>

definition retry_budget :: "nat \<Rightarrow> db \<Rightarrow> bool" where
  "retry_budget m d \<longleftrightarrow> (\<forall>ev\<in>set (d_outbox d). ob_status ev = Ev_Pending \<longrightarrow> ob_attempts ev < m)"

fun action_max_attempts :: "(env \<times> bool, event_end, uuid) lease_action \<Rightarrow> nat option" where
  "action_max_attempts (Claim c k) = None"
| "action_max_attempts (Finish (Mark_Dispatched e) k t) = None"
| "action_max_attempts (Finish (Reschedule e x) k t) = Some (outbox_max_attempts e)"

lemma retry_budget_put:
  "retry_budget m d \<Longrightarrow> (ob_status ev = Ev_Pending \<Longrightarrow> ob_attempts ev < m) \<Longrightarrow> retry_budget m (put_event ev d)"
  by (auto simp: retry_budget_def put_event_def row_put_def)

lemma act_retry_budget:
  assumes "retry_budget m s" "\<forall>n. action_max_attempts a = Some n \<longrightarrow> n = m"
  shows "retry_budget m (outbox_lease.act a s)"
proof (cases a)
  case (Claim c j)
  show ?thesis
  proof (cases rule: event_claim_cases [of j s c])
    case (taken ev ev')
    then show ?thesis using assms(1) Claim
      by (simp add: retry_budget_put) (rule retry_budget_put, simp_all add: retry_budget_def)
  qed (use assms Claim in simp_all)
next
  case (Finish f j u)
  show ?thesis
  proof (cases rule: event_finish_cases [of j s u f])
    case (held ev)
    have "ob_status (finished_row f ev) = Ev_Pending \<Longrightarrow> ob_attempts (finished_row f ev) < m"
      using assms(2) Finish by (cases f) (simp_all add: Let_def split: if_splits)
    then show ?thesis using held assms(1) Finish by (simp add: retry_budget_put)
  qed (use assms Finish in simp)
qed

text \<open>No retry beyond the limit: with the limit of attempts fixed at \<open>m\<close>, every event that waits
  in the queue as pending after any interleaving of claims, completions and reschedules has been
  attempted fewer than \<open>m\<close> times; the failure of attempt \<open>m\<close> dead-letters the event.\<close>

theorem pending_events_have_budget:
  assumes "retry_budget m s" "\<forall>a\<in>set as. \<forall>n. action_max_attempts a = Some n \<longrightarrow> n = m"
  shows "retry_budget m (outbox_lease.run as s)"
  using assms
proof (induction as arbitrary: s)
  case Nil
  then show ?case by (simp add: outbox_lease.run_def)
next
  case (Cons a as)
  then show ?case using act_retry_budget by (simp add: outbox_lease.run_def)
qed

theorem pending_events_have_budget_witness:
  "retry_budget 25 (outbox_lease.run
      [Claim (demo_env, False) 5, Finish (Reschedule demo_env RuntimeError) 5 0]
      (empty_db\<lparr>d_outbox := [demo_event 5 Ev_Pending]\<rparr>))"
  by (rule pending_events_have_budget) (simp_all add: retry_budget_def demo_event_def demo_env_def)

text \<open>The dispatcher on one event, in terms of the row it leaves.\<close>

definition claimed_row :: "env \<Rightarrow> uuid \<Rightarrow> outbox_event \<Rightarrow> outbox_event" where
  "claimed_row e token ev =
     ev\<lparr>ob_status := Ev_Processing, ob_token := Some token, ob_started := Some (now e),
        ob_attempts := ob_attempts ev + 1\<rparr>"

lemma claimed_row_holds: "holds_claim (claimed_row e token ev) token"
  by (simp add: holds_claim_def claimed_row_def)

lemma claimed_row_fields:
  "ob_type (claimed_row e token ev) = ob_type ev" "ob_payload (claimed_row e token ev) = ob_payload ev"
  "ob_id (claimed_row e token ev) = ob_id ev" "ob_tenant (claimed_row e token ev) = ob_tenant ev"
  "ob_attempts (claimed_row e token ev) = ob_attempts ev + 1"
  by (simp_all add: claimed_row_def)

lemma claimed_row_task: "event_task e (claimed_row e' token ev) = event_task e ev"
  unfolding event_task_def event_task_id_def claimed_row_fields ..

lemma dispatch_one_claimed:
  assumes g: "get_event k d = Some ev" and c: "claimable e force ev"
  shows "\<exists>d'. (case publish_event broker e ev of
      Inr t \<Rightarrow> dispatch_one broker e force k (st, sent, d) =
         (st\<lparr>os_claimed := os_claimed st + 1, os_dispatched := os_dispatched st + 1\<rparr>, sent @ [t], d') \<and>
         get_event k d' = Some (finished_row (Mark_Dispatched e) (claimed_row e (d_uuid d) ev))
    | Inl x \<Rightarrow> dispatch_one broker e force k (st, sent, d) =
         ((if ob_attempts ev + 1 \<ge> outbox_max_attempts e
           then st\<lparr>os_claimed := os_claimed st + 1, os_dead := os_dead st + 1, os_errors := os_errors st + 1\<rparr>
           else st\<lparr>os_claimed := os_claimed st + 1, os_retryable := os_retryable st + 1,
                   os_errors := os_errors st + 1\<rparr>), sent, d') \<and>
         get_event k d' = Some (finished_row (Reschedule e x) (claimed_row e (d_uuid d) ev)))"
proof -
  let ?ev = "claimed_row e (d_uuid d) ev"
  let ?d1 = "put_event ?ev (d\<lparr>d_uuid := Suc (d_uuid d)\<rparr>)"
  have id: "ob_id ?ev = k" using get_event_id [OF g] by (simp add: claimed_row_def)
  have g1: "get_event k ?d1 = Some ?ev"
    using get_event_put [of k "d\<lparr>d_uuid := Suc (d_uuid d)\<rparr>" ev ?ev k] g id by simp
  have cl: "claim_event e force k d = Inr ((?ev, Some (d_uuid d), Claimed), ?d1)"
    using claim_event_taken [OF g c] by (simp add: Let_def claimed_row_def)
  have pub: "publish_event broker e ?ev = publish_event broker e ev"
    by (simp add: publish_event_def claimed_row_task)
  have fin: "get_event k (put_event (finished_row f ?ev) ?d1) = Some (finished_row f ?ev)" for f
    using get_event_put [OF g1] id finished_row_facts(1) by simp
  show ?thesis
  proof (cases "publish_event broker e ev")
    case (Inl x)
    have "reschedule e k (d_uuid d) x ?d1 =
        Inr (Some (if ob_attempts ev + 1 \<ge> outbox_max_attempts e then Dead_Lettered else Retryable),
             put_event (finished_row (Reschedule e x) ?ev) ?d1)"
      using g1 claimed_row_holds by (simp add: reschedule_def Let_def claimed_row_def)
    then show ?thesis
      using cl pub Inl id fin [of "Reschedule e x"] by (simp add: dispatch_one_def)
  next
    case (Inr t)
    have "mark_dispatched e k (d_uuid d) ?d1 =
        Inr (True, put_event (finished_row (Mark_Dispatched e) ?ev) ?d1)"
      using g1 claimed_row_holds by (simp add: mark_dispatched_def)
    then show ?thesis
      using cl pub Inr id fin [of "Mark_Dispatched e"] by (simp add: dispatch_one_def)
  qed
qed

text \<open>What one step of the dispatcher does with an event it may claim. If the payload is intact and
  the broker accepts the task, exactly that task is sent and the row ends dispatched, with one
  more attempt and no token. Otherwise nothing is sent, and the row goes back to the queue due
  after the back-off delay of its new attempt number, or is dead-lettered when that attempt was
  the last one allowed.\<close>

theorem dispatch_outcome:
  assumes "get_event k d = Some ev" "claimable e force ev"
  shows "\<exists>d' ev'. snd (dispatch_one broker e force k (st, sent, d)) =
       (case publish_event broker e ev of Inr t \<Rightarrow> sent @ [t] | Inl x \<Rightarrow> sent, d') \<and>
     get_event k d' = Some ev' \<and> ob_token ev' = None \<and> ob_attempts ev' = ob_attempts ev + 1 \<and>
     (case publish_event broker e ev of
        Inr t \<Rightarrow> ob_status ev' = Ev_Dispatched \<and> ob_dispatched_at ev' = Some (now e)
      | Inl x \<Rightarrow>
          if ob_attempts ev + 1 \<ge> outbox_max_attempts e
          then ob_status ev' = Ev_Dead \<and> ob_next_attempt ev' = None
          else ob_status ev' = Ev_Pending \<and> ob_next_attempt ev' =
                 Some (now e + secs (billing_outbox_delay_seconds e (ob_attempts ev + 1))))"
proof (cases "publish_event broker e ev")
  case (Inl x)
  then show ?thesis
    using dispatch_one_claimed [OF assms, of broker st sent] finished_row_facts(2,3)
    by (cases "outbox_max_attempts e \<le> Suc (ob_attempts ev)")
      (fastforce simp: Let_def claimed_row_fields)+
next
  case (Inr t)
  then show ?thesis
    using dispatch_one_claimed [OF assms, of broker st sent]
    by (fastforce simp: claimed_row_fields)
qed

lemma sample_due:
  "get_event 5 (empty_db\<lparr>d_outbox := [demo_event 5 Ev_Pending]\<rparr>) = Some (demo_event 5 Ev_Pending)"
  "claimable demo_env False (demo_event 5 Ev_Pending)"
  "publish_event (\<lambda>_. None) demo_env (demo_event 5 Ev_Pending) =
     Inr (Requeue_Limit_Reached_Task 7 ''billing-outbox-5'')"
  by (simp_all add: get_event_def demo_defs claimable_def publish_event_def event_task_def
      requeue_payload_def event_task_id_def str_nat.simps digit_def)

theorem dispatch_outcome_witness:
  "\<exists>d' ev'. snd (dispatch_one (\<lambda>_. None) demo_env False 5
        (no_outbox_stats, [], empty_db\<lparr>d_outbox := [demo_event 5 Ev_Pending]\<rparr>)) =
       ([Requeue_Limit_Reached_Task 7 ''billing-outbox-5''], d') \<and>
     get_event 5 d' = Some ev' \<and> ob_status ev' = Ev_Dispatched"
  using dispatch_outcome [OF sample_due(1,2), of "\<lambda>_. None" no_outbox_stats "[]"]
  unfolding sample_due(3) by auto

text \<open>The counters of one iteration.\<close>

definition stats_balanced :: "outbox_stats \<times> task list \<times> db \<Rightarrow> bool" where
  "stats_balanced r \<longleftrightarrow>
     os_claimed (fst r) = os_dispatched (fst r) + os_errors (fst r) \<and>
     os_errors (fst r) = os_retryable (fst r) + os_dead (fst r) \<and>
     length (fst (snd r)) = os_dispatched (fst r)"

lemma dispatch_one_skipped:
  assumes "\<And>ev. get_event k d = Some ev \<Longrightarrow> \<not> claimable e force ev"
  shows "dispatch_one broker e force k (st, sent, d) = (st\<lparr>os_skipped := os_skipped st + 1\<rparr>, sent, d)"
proof (cases "get_event k d")
  case None
  then show ?thesis by (simp add: dispatch_one_def claim_event_None)
next
  case (Some ev)
  obtain cs where "claim_event e force k d = Inr ((ev, None, cs), d)"
    using claim_event_refused [OF Some assms [OF Some]] by blast
  then show ?thesis by (cases cs) (simp_all add: dispatch_one_def)
qed

lemma dispatch_one_stats:
  assumes "stats_balanced r"
  shows "stats_balanced (dispatch_one broker e force k r) \<and>
     os_claimed (fst (dispatch_one broker e force k r)) + os_skipped (fst (dispatch_one broker e force k r)) =
       Suc (os_claimed (fst r) + os_skipped (fst r))"
proof -
  obtain st sent d where r: "r = (st, sent, d)" by (cases r)
  show ?thesis
  proof (cases "\<exists>ev. get_event k d = Some ev \<and> claimable e force ev")
    case True
    then obtain ev where "get_event k d = Some ev" "claimable e force ev" by blast
    from dispatch_one_claimed [OF this, of broker st sent] show ?thesis
      using assms by (cases "publish_event broker e ev") (auto simp: r stats_balanced_def)
  next
    case False
    then have "dispatch_one broker e force k (st, sent, d) =
        (st\<lparr>os_skipped := os_skipped st + 1\<rparr>, sent, d)"
      by (intro dispatch_one_skipped) blast
    then show ?thesis using assms by (simp add: r stats_balanced_def)
  qed
qed

lemma dispatch_fold_stats:
  "stats_balanced r \<Longrightarrow> stats_balanced (fold (dispatch_one broker e force) ks r) \<and>
     os_claimed (fst (fold (dispatch_one broker e force) ks r)) +
       os_skipped (fst (fold (dispatch_one broker e force) ks r)) =
       length ks + os_claimed (fst r) + os_skipped (fst r)"
proof (induction ks arbitrary: r)
  case Nil
  then show ?case by simp
next
  case (Cons k ks)
  then show ?case using dispatch_one_stats [OF Cons.prems, of broker e force k] by simp
qed

text \<open>The report of a dispatcher run accounts for every candidate: each was either claimed or
  skipped, every claimed event was either sent or counted as an error, every error either waits
  for a retry or is dead, and the broker received exactly as many tasks as events are reported
  dispatched.\<close>

theorem dispatch_report_accounts:
  assumes "dispatch_due_billing_outbox broker e limit event_ids force d = Inr (st, sent, d')"
  shows "os_claimed st + os_skipped st =
       length (candidate_ids e (batch_limit limit (outbox_batch e)) event_ids force d) \<and>
     os_claimed st = os_dispatched st + os_errors st \<and>
     os_errors st = os_retryable st + os_dead st \<and> length sent = os_dispatched st"
proof -
  have "stats_balanced (no_outbox_stats, [], d)"
    by (simp add: stats_balanced_def no_outbox_stats_def)
  from dispatch_fold_stats [OF this, of broker e force
      "candidate_ids e (batch_limit limit (outbox_batch e)) event_ids force d"]
  have "stats_balanced (st, sent, d') \<and>
      os_claimed (fst (st, sent, d')) + os_skipped (fst (st, sent, d')) =
      length (candidate_ids e (batch_limit limit (outbox_batch e)) event_ids force d)"
    using assms by (simp add: dispatch_due_billing_outbox_def no_outbox_stats_def split: if_splits)
  then show ?thesis by (simp add: stats_balanced_def)
qed

lemma sample_dispatch:
  "dispatch_due_billing_outbox (\<lambda>_. None) demo_env None None False demo_db = Inr (no_outbox_stats, [], demo_db)"
  by (simp add: dispatch_due_billing_outbox_def candidate_ids_def demo_defs)

theorem dispatch_report_accounts_witness:
  "os_claimed no_outbox_stats + os_skipped no_outbox_stats =
     length (candidate_ids demo_env (batch_limit None (outbox_batch demo_env)) None False demo_db)"
  using dispatch_report_accounts [OF sample_dispatch] by simp

text \<open>What a financial transaction enqueues can be published: the event stored by
  \<open>enqueue_notification\<close> passes the payload checks of the dispatcher, and the task carries the
  tenant, the level, the stripped message and the payload that were enqueued.\<close>

theorem enqueued_notification_is_publishable:
  assumes "enqueue_notification t level message key i payload d = Inr (ev, d')"
  shows "\<exists>dedupe task_id. event_task e ev =
     Inr (Send_Notification_Task t level (strip message) payload dedupe task_id)"
proof -
  have "level \<in> set notification_levels"
    using assms by (auto simp: enqueue_notification_def split: if_splits)
  moreover have "ob_type ev = Ev_Notification" "ob_tenant ev = t"
    "ob_payload ev = notification_payload level message payload"
    using enqueue_found [OF enqueue_notification_enqueue [OF assms]] by auto
  ultimately show ?thesis
    by (simp add: event_task_def notification_payload_def dict_get_def)
qed

lemma sample_enqueue:
  "enqueue_notification 7 ''billing'' '' paid '' ''invoice:1'' None [] demo_db =
     Inr (new_event 0 7 Ev_Notification ''invoice:1'' (notification_payload ''billing'' '' paid '' []) None,
          demo_db\<lparr>d_uuid := 1, d_outbox :=
            [new_event 0 7 Ev_Notification ''invoice:1'' (notification_payload ''billing'' '' paid '' []) None],
            d_kicks := [0]\<rparr>)"
  by (simp add: enqueue_notification_def notification_levels_def enqueue_def strip_def is_space_def
      validate_enqueue_def event_with_key_def fresh_uuid_def demo_db_def empty_db_def Let_def)

theorem enqueued_notification_is_publishable_witness:
  "\<exists>dedupe task_id. event_task demo_env
      (new_event 0 7 Ev_Notification ''invoice:1'' (notification_payload ''billing'' '' paid '' []) None) =
     Inr (Send_Notification_Task 7 ''billing'' (strip '' paid '') [] dedupe task_id)"
  by (rule enqueued_notification_is_publishable [OF sample_enqueue])

text \<open>Enqueueing is exactly-once per tenant and key: after one successful call, repeating the
  call with the same key, whatever other events were enqueued in between, adds nothing to the
  outbox (a repetition with a different payload is refused).\<close>

theorem enqueue_exactly_once:
  assumes "enqueue_op tk a s = Inr s'"
  shows "outbox_keys.deliver (tk, b) (fold outbox_keys.deliver ds s') = fold outbox_keys.deliver ds s'"
  using assms by (rule outbox_keys.exactly_once)

lemma sample_enqueue_op:
  "enqueue_op (7, ''requeue:1'') (Ev_Requeue_Limit_Reached, requeue_payload, None) demo_db =
     Inr (demo_db\<lparr>d_uuid := 1, d_outbox :=
            [new_event 0 7 Ev_Requeue_Limit_Reached ''requeue:1'' requeue_payload None], d_kicks := [0]\<rparr>)"
  by (simp add: enqueue_op_def enqueue_def strip_def is_space_def validate_enqueue_def event_with_key_def
      fresh_uuid_def demo_db_def empty_db_def Let_def)

theorem enqueue_exactly_once_witness:
  "outbox_keys.deliver ((7, ''requeue:1''), (Ev_Requeue_Limit_Reached, requeue_payload, None))
     (fold outbox_keys.deliver []
       (demo_db\<lparr>d_uuid := 1, d_outbox :=
          [new_event 0 7 Ev_Requeue_Limit_Reached ''requeue:1'' requeue_payload None], d_kicks := [0]\<rparr>)) =
   fold outbox_keys.deliver []
     (demo_db\<lparr>d_uuid := 1, d_outbox :=
        [new_event 0 7 Ev_Requeue_Limit_Reached ''requeue:1'' requeue_payload None], d_kicks := [0]\<rparr>)"
  by (rule enqueue_exactly_once [OF sample_enqueue_op])

end
