(* ===== verification/Wallet.thy ===== *)
theory Wallet
  imports Outbox
begin

text \<open>
  The AI wallet (\<^verbatim>\<open>apps/billing/ai_wallet.py\<close>): included and purchased balances, reservations,
  and the ledger of credit transactions behind them. Every operation is one transaction: \<open>Inl\<close>
  is an exception, after which the caller's database is unchanged. Amounts are integers in
  ten-thousandths of a credit (the columns have four places and callers pass amounts rounded to
  them). The \<open>tenant\<close> argument is the in-memory tenant row. The free-text \<open>details\<close> of a ledger row,
  which no code reads back, are left out.
\<close>

section \<open>The ledger\<close>

definition ledger_has :: "nat \<Rightarrow> string \<Rightarrow> db \<Rightarrow> bool" where
  "ledger_has t key d \<longleftrightarrow> (\<exists>x\<in>set (d_ledger d). tx_tenant x = t \<and> tx_key x = key)"

definition ledger_row :: "nat \<Rightarrow> string \<Rightarrow> db \<Rightarrow> credit_txn option" where
  "ledger_row t key d = find (\<lambda>x. tx_tenant x = t \<and> tx_key x = key) (d_ledger d)"

text \<open>
  \<open>AICreditTransaction.objects.create\<close>: the key and the reference are columns of 160 characters,
  and a nonempty key is unique per tenant.
\<close>

definition ledger_create :: "credit_txn \<Rightarrow> db \<Rightarrow> err + db" where
  "ledger_create x d =
     (if 160 < length (tx_key x) \<or> 160 < length (tx_reference x) then Inl (OtherError ''DataError'')
      else if tx_key x \<noteq> [] \<and> ledger_has (tx_tenant x) (tx_key x) d then Inl IntegrityError
      else Inr (d\<lparr>d_ledger := d_ledger d @ [x]\<rparr>))"

definition ledger_create_if :: "bool \<Rightarrow> credit_txn \<Rightarrow> db \<Rightarrow> err + db" where
  "ledger_create_if c x d = (if c then ledger_create x d else Inr d)"

section \<open>Limits and balances\<close>

text \<open>\<open>effective_limit\<close>: the override, or the limit of the plan; no subscription or an unlimited plan
  gives zero.\<close>

definition credits_of_int :: "int \<Rightarrow> credits" where
  "credits_of_int n = 10000 * n"

definition effective_limit :: "tenant \<Rightarrow> db \<Rightarrow> credits" where
  "effective_limit tn d =
     (case tn_ai_override tn of
        Some override \<Rightarrow> credits_of_int override
      | None \<Rightarrow>
          (case sub_of (tn_pk tn) d of
             None \<Rightarrow> 0
           | Some s \<Rightarrow> (case get_plan (sb_plan s) d of
                None \<Rightarrow> 0
              | Some p \<Rightarrow> (case pl_limit_ai p of None \<Rightarrow> 0 | Some l \<Rightarrow> credits_of_int l))))"

definition total_balance :: "wallet \<Rightarrow> credits" where
  "total_balance w = wl_included w + wl_purchased w"

definition available_balance :: "wallet \<Rightarrow> credits" where
  "available_balance w = max 0 (total_balance w - wl_reserved w)"

text \<open>
  Bootstrapping a wallet is three commits when no transaction is open around it: \<open>get_or_create\<close>
  inserts a row with the column defaults, \<open>save(update_fields=...)\<close> writes the part of the limit not
  used yet until the end of the AI period or of the paid period, and a ledger row records it.
\<close>

definition fresh_wallet :: "tenant \<Rightarrow> nat \<Rightarrow> wallet" where
  "fresh_wallet tn pk =
     \<lparr>wl_pk = pk, wl_tenant = tn_pk tn, wl_included = 0, wl_limit = 0, wl_purchased = 0, wl_reserved = 0,
      wl_expires = None, wl_sent = []\<rparr>"

definition get_or_create_wallet :: "tenant \<Rightarrow> db \<Rightarrow> (wallet \<times> bool) \<times> db" where
  "get_or_create_wallet tn d =
     (case wallet_of (tn_pk tn) d of
        Some w \<Rightarrow> ((w, False), d)
      | None \<Rightarrow> let w = fresh_wallet tn (next_pk wl_pk (d_wallets d))
          in ((w, True), d\<lparr>d_wallets := row_add w (d_wallets d)\<rparr>))"

definition bootstrapped :: "env \<Rightarrow> tenant \<Rightarrow> db \<Rightarrow> wallet \<Rightarrow> wallet" where
  "bootstrapped e tn d w =
     (let limit = effective_limit tn d; remaining = max 0 (limit - credits_of_int (tn_ai_used tn));
          w1 = w\<lparr>wl_limit := limit, wl_included := remaining\<rparr>
      in case sub_of (tn_pk tn) d of
           None \<Rightarrow> w1
         | Some s \<Rightarrow>
             w1\<lparr>wl_expires := Some (day_end e (case sb_ai_end s of Some p \<Rightarrow> p | None \<Rightarrow> sb_end s))\<rparr>)"

definition save_bootstrap :: "wallet \<Rightarrow> db \<Rightarrow> err + db" where
  "save_bootstrap w d =
     (case wallet_of (wl_tenant w) d of
        None \<Rightarrow> Inl (OtherError ''DatabaseError'')
      | Some x \<Rightarrow>
          Inr (put_wallet (x\<lparr>wl_limit := wl_limit w, wl_included := wl_included w,
                            wl_expires := wl_expires w\<rparr>) d))"

definition bootstrap_key :: "nat \<Rightarrow> string" where
  "bootstrap_key t = ''wallet-bootstrap:'' @ str_nat t"

definition post_bootstrap :: "tenant \<Rightarrow> wallet \<Rightarrow> db \<Rightarrow> err + db" where
  "post_bootstrap tn w d =
     ledger_create_if (wl_included w \<noteq> 0)
       \<lparr>tx_tenant = tn_pk tn, tx_kind = K_Grant, tx_balance = Bal_Included,
        tx_amount = wl_included w, tx_key = bootstrap_key (tn_pk tn),
        tx_reference = ''legacy-ai-credits''\<rparr> d"

text \<open>Inside the transaction of a wallet operation the three are one step.\<close>

definition ensure_wallet :: "env \<Rightarrow> tenant \<Rightarrow> db \<Rightarrow> err + wallet \<times> db" where
  "ensure_wallet e tn d =
     (case get_or_create_wallet tn d of
        ((w, False), d1) \<Rightarrow> Inr (w, d1)
      | ((w, True), d1) \<Rightarrow>
          (let w1 = bootstrapped e tn d1 w
           in bind_ok (save_bootstrap w1 d1) (\<lambda>d2.
              bind_ok (post_bootstrap tn w1 d2) (\<lambda>d3. Inr (w1, d3)))))"

text \<open>
  Outside a transaction every statement commits by itself: \<open>h n\<close> is what other processes commit after
  the \<open>n\<close>th of them, and an exception leaves what was committed before it.
\<close>

definition ensure_wallet_outside ::
    "(nat \<Rightarrow> db \<Rightarrow> db) \<Rightarrow> env \<Rightarrow> tenant \<Rightarrow> db \<Rightarrow> (err + wallet) \<times> db" where
  "ensure_wallet_outside h e tn d =
     (case get_or_create_wallet tn d of
        ((w, False), d1) \<Rightarrow> (Inr w, d1)
      | ((w, True), d1) \<Rightarrow>
          (let d1 = h 0 d1; w1 = bootstrapped e tn d1 w; d1' = h 1 d1
           in case save_bootstrap w1 d1' of
                Inl err \<Rightarrow> (Inl err, d1')
              | Inr d2 \<Rightarrow>
                  (case post_bootstrap tn w1 (h 2 d2) of
                     Inl err \<Rightarrow> (Inl err, h 2 d2)
                   | Inr d3 \<Rightarrow> (Inr w1, d3))))"

text \<open>What an undisturbed bootstrap stores.\<close>

definition bootstrap_wallet :: "env \<Rightarrow> tenant \<Rightarrow> nat \<Rightarrow> db \<Rightarrow> wallet" where
  "bootstrap_wallet e tn pk d = bootstrapped e tn d (fresh_wallet tn pk)"

section \<open>Summaries\<close>

text \<open>\<open>used / limit * 100\<close> never crosses a whole percent by the rounding of the 28-digit quotient
  (the columns have 16 digits), so thresholds are compared by cross-multiplication.\<close>

definition used_credits :: "wallet \<Rightarrow> credits" where
  "used_credits w = max 0 (wl_limit w - wl_included w)"

definition percent_reached :: "wallet \<Rightarrow> int \<Rightarrow> bool" where
  "percent_reached w threshold \<longleftrightarrow>
     (if wl_limit w \<le> 0 then threshold \<le> 100
      else threshold \<le> 100 \<and> threshold * wl_limit w \<le> 100 * used_credits w)"

text \<open>Rounding half to even, and the percentage in hundredths.\<close>

definition div_half_even :: "int \<Rightarrow> int \<Rightarrow> int" where
  "div_half_even a b =
     (let q = a div b; r = a mod b in if 2 * r < b \<or> (2 * r = b \<and> even q) then q else q + 1)"

definition percent_hundredths :: "wallet \<Rightarrow> int" where
  "percent_hundredths w =
     (if 0 < wl_limit w then min 10000 (div_half_even (10000 * used_credits w) (wl_limit w)) else 10000)"

definition threshold_state :: "wallet \<Rightarrow> string" where
  "threshold_state w =
     (if percent_reached w 100 then ''exhausted''
      else if percent_reached w 90 then ''critical''
      else if percent_reached w 80 then ''warning''
      else ''normal'')"

record wallet_summary =
  ws_included :: credits
  ws_included_limit :: credits
  ws_included_used :: credits
  ws_percent :: int
  ws_purchased :: credits
  ws_reserved :: credits
  ws_total :: credits
  ws_available :: credits
  ws_expires :: "instant option"
  ws_unlimited :: bool
  ws_individual :: bool
  ws_overage :: bool
  ws_threshold :: string

definition summarize_wallet :: "tenant \<Rightarrow> wallet \<Rightarrow> wallet_summary" where
  "summarize_wallet tn w =
     \<lparr>ws_included = wl_included w, ws_included_limit = wl_limit w, ws_included_used = used_credits w,
      ws_percent = percent_hundredths w, ws_purchased = wl_purchased w,
      ws_reserved = wl_reserved w, ws_total = total_balance w, ws_available = available_balance w,
      ws_expires = wl_expires w, ws_unlimited = False, ws_individual = (tn_ai_override tn \<noteq> None),
      ws_overage = (wl_included w \<le> 0 \<and> 0 < wl_purchased w), ws_threshold = threshold_state w\<rparr>"

text \<open>\<open>wallet.refresh_from_db()\<close> reads the row again before it is summarized.\<close>

definition summary ::
    "(nat \<Rightarrow> db \<Rightarrow> db) \<Rightarrow> env \<Rightarrow> tenant \<Rightarrow> db \<Rightarrow> (err + wallet_summary) \<times> db" where
  "summary h e tn d =
     (case ensure_wallet_outside h e tn d of
        (Inl err, d1) \<Rightarrow> (Inl err, d1)
      | (Inr w, d1) \<Rightarrow>
          (let d2 = h 3 d1
           in case wallet_of (wl_tenant w) d2 of
                None \<Rightarrow> (Inl DoesNotExist, d2)
              | Some w2 \<Rightarrow> (Inr (summarize_wallet tn w2), d2)))"

text \<open>The read-only summary computes the wallet a second time, in memory only; a missing row is
  replaced by an unsaved one with the defaults of the other columns.\<close>

definition projected_wallet :: "env \<Rightarrow> tenant \<Rightarrow> db \<Rightarrow> wallet" where
  "projected_wallet e tn d =
     (let limit = effective_limit tn d;
          remaining = max 0 (limit - credits_of_int (tn_ai_used tn));
          expires = (case sub_of (tn_pk tn) d of
                       None \<Rightarrow> None
                     | Some s \<Rightarrow>
                         Some (day_end e (case sb_ai_end s of Some p \<Rightarrow> p | None \<Rightarrow> sb_end s)))
      in \<lparr>wl_pk = 0, wl_tenant = tn_pk tn, wl_included = remaining, wl_limit = limit,
          wl_purchased = 0, wl_reserved = 0, wl_expires = expires, wl_sent = []\<rparr>)"

definition read_only_summary :: "env \<Rightarrow> tenant \<Rightarrow> db \<Rightarrow> wallet_summary" where
  "read_only_summary e tn d =
     summarize_wallet tn
       (case wallet_of (tn_pk tn) d of Some w \<Rightarrow> w | None \<Rightarrow> projected_wallet e tn d)"

section \<open>Reservations\<close>

record reservation =
  rs_key :: string
  rs_amount :: credits
  rs_unlimited :: bool

definition expire_included_if_needed :: "env \<Rightarrow> wallet \<Rightarrow> db \<Rightarrow> err + wallet \<times> db" where
  "expire_included_if_needed e w d =
     (case wl_expires w of
        None \<Rightarrow> Inr (w, d)
      | Some x \<Rightarrow>
          (if x < now e \<and> 0 < wl_included w
           then let w' = w\<lparr>wl_included := 0\<rparr> in
             bind_ok (ledger_create
                 \<lparr>tx_tenant = wl_tenant w, tx_kind = K_Expire, tx_balance = Bal_Included,
                  tx_amount = - wl_included w,
                  tx_key = ''included-expire:'' @ str_nat (wl_pk w) @ '':'' @ str_datetime x,
                  tx_reference = []\<rparr> (put_wallet w' d))
               (\<lambda>d'. Inr (w', d'))
           else Inr (w, d)))"

text \<open>\<open>key or f'ai-reserve:{uuid4()}'\<close>.\<close>

definition reservation_key :: "env \<Rightarrow> string option \<Rightarrow> db \<Rightarrow> string \<times> db" where
  "reservation_key e key d =
     (case key of
        None \<Rightarrow> let (u, d1) = fresh_uuid d in (''ai-reserve:'' @ uuid_text e u, d1)
      | Some k \<Rightarrow>
          if k = [] then let (u, d1) = fresh_uuid d in (''ai-reserve:'' @ uuid_text e u, d1)
          else (k, d))"

definition reserve :: "env \<Rightarrow> tenant \<Rightarrow> credits \<Rightarrow> string option \<Rightarrow> db \<Rightarrow> err + reservation \<times> db" where
  "reserve e tn amount0 key d0 =
     (let amount = max 0 amount0; (k, d) = reservation_key e key d0 in
      bind_ok (ensure_wallet e tn d) (\<lambda>(w0, d1).
      bind_ok (expire_included_if_needed e w0 d1) (\<lambda>(w, d2).
        if available_balance w < amount then Inl (InsufficientAICredits (available_balance w) amount)
        else bind_ok (ledger_create
                 \<lparr>tx_tenant = tn_pk tn, tx_kind = K_Reserve, tx_balance = Bal_Reserved,
                  tx_amount = amount, tx_key = k, tx_reference = []\<rparr>
                 (put_wallet (w\<lparr>wl_reserved := wl_reserved w + amount\<rparr>) d2))
               (\<lambda>d3. Inr (\<lparr>rs_key = k, rs_amount = amount, rs_unlimited = False\<rparr>, d3)))))"

text \<open>The \<open>get_or_create\<close> of \<open>release\<close> writes the ledger row once per reservation; the balance is
  updated on every call.\<close>

definition release :: "tenant \<Rightarrow> reservation \<Rightarrow> db \<Rightarrow> err + db" where
  "release tn r d =
     (if rs_unlimited r then Inr d
      else case wallet_of (tn_pk tn) d of
        None \<Rightarrow> Inl DoesNotExist
      | Some w \<Rightarrow>
          (let released = min (wl_reserved w) (rs_amount r);
               d1 = put_wallet (w\<lparr>wl_reserved := wl_reserved w - released\<rparr>) d
           in ledger_create_if (\<not> ledger_has (tn_pk tn) (rs_key r @ '':release'') d1)
                \<lparr>tx_tenant = tn_pk tn, tx_kind = K_Release, tx_balance = Bal_Reserved,
                 tx_amount = - released, tx_key = rs_key r @ '':release'', tx_reference = rs_key r\<rparr> d1))"

section \<open>Threshold notifications\<close>

text \<open>\<open>str(x.normalize())\<close> of a column with four places: trailing zeros are dropped, and a whole
  number that ends in zeros is written with an exponent.\<close>

definition zeros_end :: "string \<Rightarrow> nat" where
  "zeros_end s = length (takeWhile (\<lambda>c. c = CHR ''0'') (rev s))"

definition str_normalized :: "credits \<Rightarrow> string" where
  "str_normalized u =
     (if u = 0 then ''0'' else
      let s = str_nat (nat \<bar>u\<bar>); z = zeros_end s; digits = take (length s - z) s;
          n = length digits; sign = (if u < 0 then ''-'' else [])
      in if z \<le> 4 then
           (let places = 4 - z in
            if places = 0 then sign @ digits
            else if places < n then sign @ take (n - places) digits @ ''.'' @ drop (n - places) digits
            else sign @ ''0.'' @ replicate (places - n) (CHR ''0'') @ digits)
         else sign @ take 1 digits @ (if n = 1 then [] else ''.'' @ drop 1 digits) @
           ''E+'' @ str_nat (z - 4 + n - 1))"

definition warning_thresholds :: "int list" where
  "warning_thresholds = [80, 90, 100]"

definition msg_included_exhausted :: string where
  "msg_included_exhausted = ''Monthly AI credits exhausted. Further requests use the purchased balance.''"

definition msg_credits_exhausted :: string where
  "msg_credits_exhausted = ''AI credits exhausted. AI requests are suspended until a top-up or the next period.''"

definition threshold_level :: "int \<Rightarrow> string" where
  "threshold_level threshold = (if 100 \<le> threshold then ''critical'' else ''billing'')"

definition threshold_message :: "int \<Rightarrow> wallet \<Rightarrow> string" where
  "threshold_message threshold w =
     (if 100 \<le> threshold
      then (if 0 < wl_purchased w then msg_included_exhausted else msg_credits_exhausted)
      else ''Used '' @ str_int threshold @ ''% of the monthly AI credits. Left: '' @
           str_normalized (wl_included w) @ '' credits.'')"

definition threshold_key :: "env \<Rightarrow> int \<Rightarrow> wallet \<Rightarrow> string" where
  "threshold_key e threshold w =
     ''ai-wallet:'' @ str_nat (wl_pk w) @ '':threshold:'' @ str_int threshold @ '':state:'' @
     str_datetime (now e) @ '':v1''"

definition reached_thresholds :: "wallet \<Rightarrow> int list" where
  "reached_thresholds w = filter (percent_reached w) warning_thresholds"

definition unsent_thresholds :: "wallet \<Rightarrow> int list" where
  "unsent_thresholds w = filter (\<lambda>t. t \<notin> set (wl_sent w)) (reached_thresholds w)"

definition notify_threshold_if_needed :: "env \<Rightarrow> wallet \<Rightarrow> db \<Rightarrow> err + wallet \<times> db" where
  "notify_threshold_if_needed e w d =
     (if unsent_thresholds w = [] then Inr (w, d)
      else
        (let threshold = Max (set (unsent_thresholds w));
             w' = w\<lparr>wl_sent := sort (remdups (wl_sent w @ reached_thresholds w))\<rparr>
         in bind_ok
              (enqueue_notification (wl_tenant w) (threshold_level threshold)
                 (threshold_message threshold w') (threshold_key e threshold w') None []
                 (put_wallet w' d))
              (\<lambda>(_, d'). Inr (w', d'))))"

section \<open>Settlement\<close>

definition charge_txn :: "tenant \<Rightarrow> reservation \<Rightarrow> balance \<Rightarrow> string \<Rightarrow> credits \<Rightarrow> credit_txn" where
  "charge_txn tn r b suffix amount =
     \<lparr>tx_tenant = tn_pk tn, tx_kind = K_Charge, tx_balance = b, tx_amount = - amount,
      tx_key = rs_key r @ suffix, tx_reference = rs_key r\<rparr>"

text \<open>The wallet after the reserve is lifted and the charge is split.\<close>

definition settle_charge :: "reservation \<Rightarrow> credits \<Rightarrow> wallet \<Rightarrow> credits \<times> credits \<times> wallet" where
  "settle_charge r actual w =
     (let reserved = max 0 (wl_reserved w - rs_amount r);
          available_for_charge = max 0 (wl_included w + wl_purchased w - reserved);
          charged = min actual available_for_charge;
          from_included = min (wl_included w) charged;
          from_purchased = charged - from_included
      in (from_included, from_purchased,
          w\<lparr>wl_reserved := reserved, wl_included := wl_included w - from_included,
            wl_purchased := wl_purchased w - from_purchased\<rparr>))"

definition settle :: "env \<Rightarrow> tenant \<Rightarrow> reservation \<Rightarrow> credits \<Rightarrow> db \<Rightarrow> err + credits \<times> db" where
  "settle e tn r actual0 d =
     (let actual = max 0 actual0 in
      if rs_unlimited r then Inr (actual, d)
      else case wallet_of (tn_pk tn) d of
        None \<Rightarrow> Inl DoesNotExist
      | Some w \<Rightarrow>
          (if ledger_has (tn_pk tn) (rs_key r @ '':settled'') d then Inr (actual, d)
           else let (from_included, from_purchased, w1) = settle_charge r actual w in
             bind_ok (notify_threshold_if_needed e w1 (put_wallet w1 d)) (\<lambda>(_, d1).
             bind_ok (ledger_create_if (from_included \<noteq> 0)
                 (charge_txn tn r Bal_Included '':charge:included'' from_included) d1) (\<lambda>d2.
             bind_ok (ledger_create_if (from_purchased \<noteq> 0)
                 (charge_txn tn r Bal_Purchased '':charge:purchased'' from_purchased) d2) (\<lambda>d3.
             bind_ok (ledger_create
                 \<lparr>tx_tenant = tn_pk tn, tx_kind = K_Release, tx_balance = Bal_Reserved,
                  tx_amount = - rs_amount r, tx_key = rs_key r @ '':settled'',
                  tx_reference = rs_key r\<rparr> d3) (\<lambda>d4.
               Inr (from_included + from_purchased, d4)))))))"

section \<open>Grants, top-ups and reversals\<close>

definition grant_included ::
    "env \<Rightarrow> tenant \<Rightarrow> credits option \<Rightarrow> date option \<Rightarrow> string \<Rightarrow> db \<Rightarrow> err + wallet \<times> db" where
  "grant_included e tn amount period_end key d =
     bind_ok (ensure_wallet e tn d) (\<lambda>(w, d1).
       if ledger_has (tn_pk tn) key d1 then Inr (w, d1)
       else
         bind_ok (ledger_create_if (wl_included w \<noteq> 0)
             \<lparr>tx_tenant = tn_pk tn, tx_kind = K_Expire, tx_balance = Bal_Included,
              tx_amount = - wl_included w, tx_key = key @ '':expire'', tx_reference = []\<rparr> d1) (\<lambda>d2.
         (let grant_amount = (case amount of None \<Rightarrow> 0 | Some a \<Rightarrow> max 0 a);
              w' = w\<lparr>wl_limit := grant_amount, wl_included := grant_amount,
                     wl_expires := map_option (day_end e) period_end, wl_sent := []\<rparr>
          in bind_ok (ledger_create
                \<lparr>tx_tenant = tn_pk tn, tx_kind = K_Grant, tx_balance = Bal_Included,
                 tx_amount = grant_amount, tx_key = key, tx_reference = ''subscription-period''\<rparr>
                (put_wallet w' d2))
              (\<lambda>d3. Inr (w', d3)))))"

definition sync_included_limit :: "env \<Rightarrow> tenant \<Rightarrow> db \<Rightarrow> err + wallet \<times> db" where
  "sync_included_limit e tn d =
     bind_ok (ensure_wallet e tn d) (\<lambda>(w, d1).
       (let new_limit = effective_limit tn d1;
            consumed = max 0 (wl_limit w - wl_included w);
            reserved_from_included = max 0 (wl_reserved w - wl_purchased w);
            new_balance = max (max 0 (new_limit - consumed)) reserved_from_included;
            adjustment = new_balance - wl_included w;
            w' = w\<lparr>wl_limit := new_limit, wl_included := new_balance, wl_sent := []\<rparr>;
            (u, d2) = (if adjustment \<noteq> 0 then fresh_uuid d1 else (0, d1))
        in bind_ok (ledger_create_if (adjustment \<noteq> 0)
              \<lparr>tx_tenant = tn_pk tn, tx_kind = K_Adjustment, tx_balance = Bal_Included,
               tx_amount = adjustment,
               tx_key = ''limit-sync:'' @ str_nat (tn_pk tn) @ '':'' @ uuid_text e u,
               tx_reference = ''tenant-limit-override''\<rparr> (put_wallet w' d2))
            (\<lambda>d3. Inr (w', d3))))"

definition topup :: "env \<Rightarrow> tenant \<Rightarrow> credits \<Rightarrow> string \<Rightarrow> string \<Rightarrow> db \<Rightarrow> err + wallet \<times> db" where
  "topup e tn amount0 key reference d =
     bind_ok (ensure_wallet e tn d) (\<lambda>(w, d1).
       if ledger_has (tn_pk tn) key d1 then Inr (w, d1)
       else let amount = max 0 amount0; w' = w\<lparr>wl_purchased := wl_purchased w + amount\<rparr> in
         bind_ok (ledger_create
             \<lparr>tx_tenant = tn_pk tn, tx_kind = K_Topup, tx_balance = Bal_Purchased,
              tx_amount = amount, tx_key = key, tx_reference = reference\<rparr> (put_wallet w' d1))
           (\<lambda>d2. Inr (w', d2)))"

text \<open>The result is the amount taken back and the shortfall.\<close>

definition reverse_purchased ::
    "env \<Rightarrow> tenant \<Rightarrow> credits \<Rightarrow> string \<Rightarrow> string \<Rightarrow> txn_kind \<Rightarrow> db \<Rightarrow> err + (credits \<times> credits) \<times> db" where
  "reverse_purchased e tn amount key reference kind d =
     bind_ok (ensure_wallet e tn d) (\<lambda>(w, d1).
       case ledger_row (tn_pk tn) key d1 of
         Some x \<Rightarrow> Inr ((\<bar>tx_amount x\<bar>, max 0 (amount - \<bar>tx_amount x\<bar>)), d1)
       | None \<Rightarrow>
           (let requested = max 0 amount;
                reserved_from_purchased = max 0 (wl_reserved w - wl_included w);
                reversible = max 0 (wl_purchased w - reserved_from_purchased);
                reversed_amount = min requested reversible;
                shortfall = requested - reversed_amount
            in bind_ok (ledger_create
                  \<lparr>tx_tenant = tn_pk tn, tx_kind = kind, tx_balance = Bal_Purchased,
                   tx_amount = - reversed_amount, tx_key = key, tx_reference = reference\<rparr>
                  (put_wallet (w\<lparr>wl_purchased := wl_purchased w - reversed_amount\<rparr>) d1))
                (\<lambda>d2. Inr ((reversed_amount, shortfall), d2))))"

section \<open>Wallet operations as one type\<close>

datatype wallet_op =
    Op_Ensure tenant
  | Op_Reserve tenant credits "string option"
  | Op_Release tenant reservation
  | Op_Settle tenant reservation credits
  | Op_Grant tenant "credits option" "date option" string
  | Op_Sync tenant
  | Op_Topup tenant credits string string
  | Op_Reverse tenant credits string string txn_kind

definition db_of :: "err + 'a \<times> db \<Rightarrow> err + db" where
  "db_of r = bind_ok r (\<lambda>(_, d). Inr d)"

fun wallet_step :: "env \<Rightarrow> wallet_op \<Rightarrow> db \<Rightarrow> err + db" where
  "wallet_step e (Op_Ensure tn) d = db_of (ensure_wallet e tn d)"
| "wallet_step e (Op_Reserve tn a k) d = db_of (reserve e tn a k d)"
| "wallet_step e (Op_Release tn r) d = release tn r d"
| "wallet_step e (Op_Settle tn r a) d = db_of (settle e tn r a d)"
| "wallet_step e (Op_Grant tn a p k) d = db_of (grant_included e tn a p k d)"
| "wallet_step e (Op_Sync tn) d = db_of (sync_included_limit e tn d)"
| "wallet_step e (Op_Topup tn a k ref) d = db_of (topup e tn a k ref d)"
| "wallet_step e (Op_Reverse tn a k ref kind) d = db_of (reverse_purchased e tn a k ref kind d)"

text \<open>One transaction: an exception rolls back.\<close>

definition perform :: "env \<times> wallet_op \<Rightarrow> db \<Rightarrow> db" where
  "perform eo d = (case wallet_step (fst eo) (snd eo) d of Inl _ \<Rightarrow> d | Inr d' \<Rightarrow> d')"

lemma db_of_Inr_iff: "db_of r = Inr d \<longleftrightarrow> (\<exists>x. r = Inr (x, d))"
  by (auto simp: db_of_def bind_ok_Inr_iff)

lemma bootstrapped_frame [simp]:
  "bootstrapped e tn (d\<lparr>d_wallets := ws\<rparr>) w = bootstrapped e tn d w"
  "wl_tenant (bootstrapped e tn d w) = wl_tenant w" "wl_pk (bootstrapped e tn d w) = wl_pk w"
  "wl_purchased (bootstrapped e tn d w) = wl_purchased w"
  "wl_reserved (bootstrapped e tn d w) = wl_reserved w" "0 \<le> wl_included (bootstrapped e tn d w)"
  by (simp_all add: bootstrapped_def effective_limit_def sub_of_def get_plan_def Let_def
      split: option.splits)

lemma wallet_of_add_new:
  "wallet_of (wl_tenant w) d = None \<Longrightarrow>
     wallet_of t (d\<lparr>d_wallets := row_add w (d_wallets d)\<rparr>) = (if t = wl_tenant w then Some w else wallet_of t d)"
  by (auto simp: wallet_of_def row_get_add split: option.splits)

lemma put_wallet_add_new:
  assumes "wallet_of (wl_tenant w) d = None" "wl_tenant w' = wl_tenant w"
  shows "put_wallet w' (d\<lparr>d_wallets := row_add w (d_wallets d)\<rparr>) = d\<lparr>d_wallets := row_add w' (d_wallets d)\<rparr>"
proof -
  have "\<forall>x\<in>set (d_wallets d). wl_tenant x \<noteq> wl_tenant w"
    using assms(1) by (simp add: wallet_of_def row_get_None_iff) (metis imageI)
  then have "map (\<lambda>x. if wl_tenant x = wl_tenant w then w' else x) (d_wallets d) = d_wallets d"
    by (simp add: map_idI)
  then show ?thesis using assms(2) by (simp add: put_wallet_def row_put_def row_add_def)
qed

text \<open>Inside a transaction the three statements of bootstrapping store the finished wallet and its
  ledger row at once.\<close>

lemma ensure_wallet_eq:
  "ensure_wallet e tn d =
     (case wallet_of (tn_pk tn) d of
        Some w \<Rightarrow> Inr (w, d)
      | None \<Rightarrow>
          (let w = bootstrap_wallet e tn (next_pk wl_pk (d_wallets d)) d;
               d1 = d\<lparr>d_wallets := row_add w (d_wallets d)\<rparr>
           in bind_ok
                (ledger_create_if (wl_included w \<noteq> 0)
                   \<lparr>tx_tenant = tn_pk tn, tx_kind = K_Grant, tx_balance = Bal_Included,
                    tx_amount = wl_included w, tx_key = bootstrap_key (tn_pk tn),
                    tx_reference = ''legacy-ai-credits''\<rparr> d1)
                (\<lambda>d2. Inr (w, d2))))"
proof (cases "wallet_of (tn_pk tn) d")
  case (Some w)
  then show ?thesis by (simp add: ensure_wallet_def get_or_create_wallet_def)
next
  case None
  let ?f = "fresh_wallet tn (next_pk wl_pk (d_wallets d))"
  let ?w = "bootstrapped e tn d ?f"
  let ?d = "d\<lparr>d_wallets := row_add ?f (d_wallets d)\<rparr>"
  have t: "wl_tenant ?f = tn_pk tn" by (simp add: fresh_wallet_def)
  have "?f\<lparr>wl_limit := wl_limit ?w, wl_included := wl_included ?w, wl_expires := wl_expires ?w\<rparr> = ?w"
    by (simp add: bootstrapped_def fresh_wallet_def Let_def split: option.splits)
  moreover have "put_wallet ?w ?d = d\<lparr>d_wallets := row_add ?w (d_wallets d)\<rparr>"
    using None t by (intro put_wallet_add_new) simp_all
  ultimately have "save_bootstrap ?w ?d = Inr (d\<lparr>d_wallets := row_add ?w (d_wallets d)\<rparr>)"
    using None t wallet_of_add_new [of ?f d] by (simp add: save_bootstrap_def)
  then show ?thesis
    using None
    by (simp add: ensure_wallet_def get_or_create_wallet_def Let_def post_bootstrap_def bootstrap_wallet_def)
qed

section \<open>Conservation\<close>

definition ledger_sum :: "nat \<Rightarrow> balance \<Rightarrow> db \<Rightarrow> credits" where
  "ledger_sum t b d =
     sum_list (map tx_amount (filter (\<lambda>x. tx_tenant x = t \<and> tx_balance x = b) (d_ledger d)))"

definition wallet_nonneg :: "wallet \<Rightarrow> bool" where
  "wallet_nonneg w \<longleftrightarrow> 0 \<le> wl_included w \<and> 0 \<le> wl_purchased w \<and> 0 \<le> wl_reserved w"

text \<open>
  The books: one wallet per tenant, no ledger row without a wallet, no negative balance, the
  purchased balance is the sum of its ledger rows, and the included balance of tenant \<open>t\<close> is the sum
  of its ledger rows and \<open>g t\<close>. With \<open>g = (\<lambda>_. 0)\<close> the books balance.
\<close>

definition books_ok :: "(nat \<Rightarrow> credits) \<Rightarrow> db \<Rightarrow> bool" where
  "books_ok g d \<longleftrightarrow>
     distinct (map wl_tenant (d_wallets d)) \<and>
     (\<forall>x\<in>set (d_ledger d). tx_tenant x \<in> wl_tenant ` set (d_wallets d)) \<and>
     (\<forall>t. wallet_of t d = None \<longrightarrow> g t = 0) \<and>
     (\<forall>w\<in>set (d_wallets d). wallet_nonneg w \<and>
        wl_included w = ledger_sum (wl_tenant w) Bal_Included d + g (wl_tenant w) \<and>
        wl_purchased w = ledger_sum (wl_tenant w) Bal_Purchased d)"

text \<open>
  Inside an operation the books of one tenant are off by what is still to be written: \<open>i\<close> on the
  included and \<open>p\<close> on the purchased balance.
\<close>

definition books_off :: "(nat \<Rightarrow> credits) \<Rightarrow> nat \<Rightarrow> credits \<Rightarrow> credits \<Rightarrow> db \<Rightarrow> bool" where
  "books_off g t i p d \<longleftrightarrow>
     distinct (map wl_tenant (d_wallets d)) \<and> wallet_of t d \<noteq> None \<and>
     (\<forall>x\<in>set (d_ledger d). wallet_of (tx_tenant x) d \<noteq> None) \<and>
     (\<forall>u. wallet_of u d = None \<longrightarrow> g u = 0) \<and>
     (\<forall>u w. wallet_of u d = Some w \<longrightarrow> wallet_nonneg w \<and>
        wl_included w = ledger_sum u Bal_Included d + g u + (if u = t then i else 0) \<and>
        wl_purchased w = ledger_sum u Bal_Purchased d + (if u = t then p else 0))"

lemma wallet_of_None: "wallet_of t d = None \<longleftrightarrow> t \<notin> wl_tenant ` set (d_wallets d)"
  by (simp add: wallet_of_def row_get_None_iff)

lemma wallet_of_Some:
  "distinct (map wl_tenant (d_wallets d)) \<Longrightarrow>
     wallet_of t d = Some w \<longleftrightarrow> w \<in> set (d_wallets d) \<and> wl_tenant w = t"
  by (simp add: wallet_of_def row_get_distinct_iff)

lemma books_off_iff: "books_off g t 0 0 d \<longleftrightarrow> books_ok g d \<and> wallet_of t d \<noteq> None"
proof (cases "distinct (map wl_tenant (d_wallets d))")
  case True
  then show ?thesis
    by (auto simp: books_ok_def books_off_def wallet_of_Some wallet_of_None simp del: not_None_eq)
next
  case False
  then show ?thesis by (simp add: books_ok_def books_off_def)
qed

lemma books_off_put:
  assumes "books_off g t i p d" "wallet_of t d = Some w" "wl_tenant w' = t" "wallet_nonneg w'"
  shows "books_off g t (i + (wl_included w' - wl_included w)) (p + (wl_purchased w' - wl_purchased w))
    (put_wallet w' d)"
proof -
  have get: "wallet_of u (put_wallet w' d) = (if u = t then Some w' else wallet_of u d)" for u
    using wallet_table.get_put [of w' d w u] assms(2,3) by simp
  have led: "ledger_sum u b (put_wallet w' d) = ledger_sum u b d" for u b
    by (simp add: ledger_sum_def put_wallet_def)
  have "d_ledger (put_wallet w' d) = d_ledger d" by (simp add: put_wallet_def)
  moreover have "distinct (map wl_tenant (d_wallets (put_wallet w' d)))"
    using assms(1) by (simp add: put_wallet_def map_pk_row_put books_off_def)
  moreover have "wl_included w = ledger_sum t Bal_Included d + g t + i"
    "wl_purchased w = ledger_sum t Bal_Purchased d + p"
    using assms(1,2) by (auto simp: books_off_def)
  ultimately show ?thesis
    using assms unfolding books_off_def get led by auto
qed

lemma ledger_create_Inr:
  "ledger_create x d = Inr d' \<longleftrightarrow> d' = d\<lparr>d_ledger := d_ledger d @ [x]\<rparr> \<and>
     length (tx_key x) \<le> 160 \<and> length (tx_reference x) \<le> 160 \<and>
     (tx_key x \<noteq> [] \<longrightarrow> \<not> ledger_has (tx_tenant x) (tx_key x) d)"
  by (auto simp: ledger_create_def)

lemma wallet_of_ledger [simp]: "wallet_of t (d\<lparr>d_ledger := l\<rparr>) = wallet_of t d"
  by (simp add: wallet_of_def)

lemma ledger_sum_append [simp]:
  "ledger_sum t b (d\<lparr>d_ledger := d_ledger d @ [x]\<rparr>) =
     ledger_sum t b d + (if tx_tenant x = t \<and> tx_balance x = b then tx_amount x else 0)"
  by (simp add: ledger_sum_def)

lemma books_off_ledger:
  assumes "books_off g t i p d" "ledger_create x d = Inr d'" "tx_tenant x = t"
  shows "books_off g t (i - (if tx_balance x = Bal_Included then tx_amount x else 0))
    (p - (if tx_balance x = Bal_Purchased then tx_amount x else 0)) d'"
  using assms unfolding ledger_create_Inr books_off_def by (auto split: if_splits)

lemma books_off_ledger_if:
  assumes "books_off g t i p d" "ledger_create_if c x d = Inr d'" "tx_tenant x = t" "\<not> c \<longrightarrow> tx_amount x = 0"
  shows "books_off g t (i - (if tx_balance x = Bal_Included then tx_amount x else 0))
    (p - (if tx_balance x = Bal_Purchased then tx_amount x else 0)) d'"
  using assms books_off_ledger by (cases c) (auto simp: ledger_create_if_def)

lemma books_off_cong:
  assumes "d_wallets d' = d_wallets d" "d_ledger d' = d_ledger d"
  shows "books_off g t i p d' \<longleftrightarrow> books_off g t i p d"
proof -
  have "wallet_of u d' = wallet_of u d" "ledger_sum u b d' = ledger_sum u b d" for u b
    using assms by (simp_all add: wallet_of_def ledger_sum_def)
  then show ?thesis using assms by (simp add: books_off_def)
qed

lemma ledger_create_if_wallets:
  "ledger_create_if c x d = Inr d' \<Longrightarrow> d_wallets d' = d_wallets d"
  by (auto simp: ledger_create_if_def ledger_create_Inr split: if_splits)

lemma ledger_create_wallet_of [simp]:
  "ledger_create_if c x d = Inr d' \<Longrightarrow> wallet_of t d' = wallet_of t d"
  "ledger_create x d = Inr d' \<Longrightarrow> wallet_of t d' = wallet_of t d"
  by (auto simp: ledger_create_if_def ledger_create_Inr split: if_splits)

lemma wallet_of_put [simp]:
  "wallet_of (wl_tenant w) d = Some x \<Longrightarrow> wallet_of t (put_wallet w d) = (if t = wl_tenant w then Some w else wallet_of t d)"
  using wallet_table.get_put [of w d x t] by simp

lemma wallet_of_tenant: "wallet_of t d = Some w \<Longrightarrow> wl_tenant w = t"
  by (rule wallet_table.get_key)

lemma bootstrap_wallet_facts [simp]:
  "wl_tenant (bootstrap_wallet e tn k d) = tn_pk tn" "wallet_nonneg (bootstrap_wallet e tn k d)"
  "wl_purchased (bootstrap_wallet e tn k d) = 0" "wl_reserved (bootstrap_wallet e tn k d) = 0"
  by (simp_all add: bootstrap_wallet_def fresh_wallet_def wallet_nonneg_def)

lemma ledger_sum_none:
  "\<forall>x\<in>set (d_ledger d). tx_tenant x \<noteq> t \<Longrightarrow> ledger_sum t b d = 0"
  unfolding ledger_sum_def by (subst filter_False) auto

lemma books_off_new_wallet:
  assumes "books_ok g d" "wallet_of (wl_tenant w) d = None" "wallet_nonneg w"
  shows "books_off g (wl_tenant w) (wl_included w) (wl_purchased w) (d\<lparr>d_wallets := row_add w (d_wallets d)\<rparr>)"
proof -
  let ?d = "d\<lparr>d_wallets := row_add w (d_wallets d)\<rparr>"
  have fresh: "wl_tenant w \<notin> wl_tenant ` set (d_wallets d)"
    using assms(2) by (simp add: wallet_of_None)
  then have none: "\<forall>x\<in>set (d_ledger d). tx_tenant x \<noteq> wl_tenant w"
    using assms(1) unfolding books_ok_def by metis
  have "wallet_of u ?d = (if u = wl_tenant w then Some w else wallet_of u d)" for u
    using assms(2) by (auto simp: wallet_of_def row_get_add split: option.splits)
  moreover have "ledger_sum u b ?d = ledger_sum u b d" for u b by (simp add: ledger_sum_def)
  moreover have "ledger_sum (wl_tenant w) b d = 0" for b using none by (rule ledger_sum_none)
  moreover have "distinct (map wl_tenant (d_wallets ?d))"
    using assms(1) fresh by (simp add: books_ok_def row_add_def)
  moreover have "\<forall>x\<in>set (d_ledger d). wallet_of (tx_tenant x) d \<noteq> None"
    using assms(1) by (simp add: books_ok_def wallet_of_None del: not_None_eq)
  ultimately show ?thesis
    using assms unfolding books_off_def
    by (auto simp: books_ok_def wallet_of_Some)
qed

lemma ensure_wallet_found:
  "ensure_wallet e tn d = Inr (w, d') \<Longrightarrow> wallet_of (tn_pk tn) d' = Some w"
  by (auto simp: ensure_wallet_eq bind_ok_Inr_iff Let_def wallet_of_def row_get_add
      dest: ledger_create_if_wallets split: option.splits)

lemma ensure_wallet_books:
  assumes "ensure_wallet e tn d = Inr (w, d')" "books_ok g d"
  shows "books_off g (tn_pk tn) 0 0 d'"
proof (cases "wallet_of (tn_pk tn) d")
  case (Some x)
  then show ?thesis using assms by (simp add: ensure_wallet_eq books_off_iff)
next
  case None
  let ?w = "bootstrap_wallet e tn (next_pk wl_pk (d_wallets d)) d"
  let ?x = "\<lparr>tx_tenant = tn_pk tn, tx_kind = K_Grant, tx_balance = Bal_Included,
       tx_amount = wl_included ?w, tx_key = bootstrap_key (tn_pk tn),
       tx_reference = ''legacy-ai-credits''\<rparr>"
  have off: "books_off g (tn_pk tn) (wl_included ?w) 0 (d\<lparr>d_wallets := row_add ?w (d_wallets d)\<rparr>)"
    using books_off_new_wallet [OF assms(2), of ?w] None by simp
  have cr: "ledger_create_if (wl_included ?w \<noteq> 0) ?x (d\<lparr>d_wallets := row_add ?w (d_wallets d)\<rparr>) = Inr d'"
    using assms(1) None by (auto simp: ensure_wallet_eq Let_def bind_ok_Inr_iff)
  show ?thesis using books_off_ledger_if [OF off cr] by simp
qed

lemma expire_books:
  assumes "expire_included_if_needed e w d = Inr (w', d')" "books_off g t 0 0 d" "wallet_of t d = Some w"
  shows "books_off g t 0 0 d' \<and> wallet_of t d' = Some w'"
proof -
  have t: "wl_tenant w = t" using assms(3) by (rule wallet_of_tenant)
  have nn: "wallet_nonneg w" using assms(2,3) by (auto simp: books_off_def)
  show ?thesis
  proof (cases "\<exists>x. wl_expires w = Some x \<and> x < now e \<and> 0 < wl_included w")
    case False
    then show ?thesis using assms by (auto simp: expire_included_if_needed_def split: option.splits)
  next
    case True
    then obtain x where x: "wl_expires w = Some x" "x < now e" "0 < wl_included w" by blast
    let ?w = "w\<lparr>wl_included := 0\<rparr>"
    let ?x = "\<lparr>tx_tenant = wl_tenant w, tx_kind = K_Expire, tx_balance = Bal_Included,
        tx_amount = - wl_included w,
        tx_key = ''included-expire:'' @ str_nat (wl_pk w) @ '':'' @ str_datetime x, tx_reference = []\<rparr>"
    have off: "books_off g t (- wl_included w) 0 (put_wallet ?w d)"
      using books_off_put [OF assms(2,3), of ?w] t nn by (simp add: wallet_nonneg_def)
    have cr: "ledger_create ?x (put_wallet ?w d) = Inr d'" and w': "w' = ?w"
      using assms(1) x by (auto simp: expire_included_if_needed_def Let_def bind_ok_Inr_iff)
    have "books_off g t 0 0 d'" using books_off_ledger [OF off cr] t by simp
    then show ?thesis using cr w' assms(3) t by simp
  qed
qed

text \<open>Saving a wallet and posting the difference.\<close>

lemma books_post_if:
  assumes "books_off g t 0 0 d" "wallet_of t d = Some w" "ledger_create_if c x (put_wallet w' d) = Inr d'"
    and "wl_tenant w' = t" "wallet_nonneg w'" "tx_tenant x = t" "\<not> c \<longrightarrow> tx_amount x = 0"
    and "wl_included w' - wl_included w = (if tx_balance x = Bal_Included then tx_amount x else 0)"
    and "wl_purchased w' - wl_purchased w = (if tx_balance x = Bal_Purchased then tx_amount x else 0)"
  shows "books_off g t 0 0 d' \<and> wallet_of t d' = Some w'"
proof -
  have "books_off g t (wl_included w' - wl_included w) (wl_purchased w' - wl_purchased w) (put_wallet w' d)"
    using books_off_put [OF assms(1,2,4,5)] by simp
  from books_off_ledger_if [OF this assms(3,6,7)] have "books_off g t 0 0 d'"
    using assms(8,9) by simp
  moreover have "wallet_of t d' = Some w'"
    using ledger_create_wallet_of(1) [OF assms(3), of t] assms(2,4) by simp
  ultimately show ?thesis ..
qed

lemmas books_post = books_post_if [where c = True, unfolded ledger_create_if_def if_True, simplified not_True_eq_False simp_thms]

lemma books_off_nonneg: "books_off g t i p d \<Longrightarrow> wallet_of t d = Some w \<Longrightarrow> wallet_nonneg w"
  by (simp add: books_off_def)

lemma reservation_key_frame:
  "reservation_key e k d = (q, d') \<Longrightarrow> d_wallets d' = d_wallets d \<and> d_ledger d' = d_ledger d \<and>
     d_subs d' = d_subs d \<and> d_plans d' = d_plans d"
  by (auto simp: reservation_key_def fresh_uuid_def split: option.splits if_splits)

lemma books_ok_cong:
  "d_wallets d' = d_wallets d \<Longrightarrow> d_ledger d' = d_ledger d \<Longrightarrow> books_ok g d' \<longleftrightarrow> books_ok g d"
  by (simp add: books_ok_def ledger_sum_def wallet_of_def)

lemma reserve_cases:
  assumes "reserve e tn a k d = Inr (r, d')"
  obtains q d0 w0 d1 w d2 where "reservation_key e k d = (q, d0)" "ensure_wallet e tn d0 = Inr (w0, d1)"
    "expire_included_if_needed e w0 d1 = Inr (w, d2)" "max 0 a \<le> available_balance w"
    "ledger_create \<lparr>tx_tenant = tn_pk tn, tx_kind = K_Reserve, tx_balance = Bal_Reserved,
           tx_amount = max 0 a, tx_key = q, tx_reference = []\<rparr>
         (put_wallet (w\<lparr>wl_reserved := wl_reserved w + max 0 a\<rparr>) d2) = Inr d'"
    "r = \<lparr>rs_key = q, rs_amount = max 0 a, rs_unlimited = False\<rparr>"
proof -
  obtain q d0 where k: "reservation_key e k d = (q, d0)" by fastforce
  obtain x where x: "ensure_wallet e tn d0 = Inr x"
    using assms k by (auto simp: reserve_def Let_def elim!: bind_ok_OkE)
  obtain w0 d1 where x': "x = (w0, d1)" by (cases x)
  obtain y where y: "expire_included_if_needed e w0 d1 = Inr y"
    using assms k x x' by (auto simp: reserve_def Let_def elim!: bind_ok_OkE)
  obtain w d2 where y': "y = (w, d2)" by (cases y)
  show thesis
    using assms k x x' y y' that [OF k, of w0 d1 w d2]
    by (auto simp: reserve_def Let_def not_less elim!: bind_ok_OkE split: if_splits)
qed

lemma reserve_books:
  assumes "reserve e tn a k d = Inr (r, d')" "books_ok g d"
  shows "books_off g (tn_pk tn) 0 0 d'"
  using assms(1)
proof (cases rule: reserve_cases)
  case (1 q d0 w0 d1 w d2)
  have "books_ok g d0" using assms(2) reservation_key_frame [OF 1(1)] books_ok_cong by blast
  then have b1: "books_off g (tn_pk tn) 0 0 d1" "wallet_of (tn_pk tn) d1 = Some w0"
    using ensure_wallet_books [OF 1(2)] ensure_wallet_found [OF 1(2)] by auto
  have b2: "books_off g (tn_pk tn) 0 0 d2" "wallet_of (tn_pk tn) d2 = Some w"
    using expire_books [OF 1(3) b1] by auto
  show ?thesis
    using books_post [OF b2 1(5)] books_off_nonneg [OF b2] wallet_of_tenant [OF b2(2)]
    by (simp add: wallet_nonneg_def)
qed

lemma release_books:
  assumes "release tn r d = Inr d'" "books_ok g d"
  shows "books_ok g d'"
proof (cases "rs_unlimited r")
  case True
  then show ?thesis using assms by (simp add: release_def)
next
  case False
  then obtain w where w: "wallet_of (tn_pk tn) d = Some w"
    using assms(1) by (cases "wallet_of (tn_pk tn) d") (auto simp: release_def)
  let ?w = "w\<lparr>wl_reserved := wl_reserved w - min (wl_reserved w) (rs_amount r)\<rparr>"
  let ?c = "\<not> ledger_has (tn_pk tn) (rs_key r @ '':release'') (put_wallet ?w d)"
  let ?x = "\<lparr>tx_tenant = tn_pk tn, tx_kind = K_Release, tx_balance = Bal_Reserved,
     tx_amount = - min (wl_reserved w) (rs_amount r), tx_key = rs_key r @ '':release'', tx_reference = rs_key r\<rparr>"
  have cr: "ledger_create_if ?c ?x (put_wallet ?w d) = Inr d'"
    using assms(1) False w by (simp add: release_def Let_def)
  have b: "books_off g (tn_pk tn) 0 0 d" using assms(2) w by (simp add: books_off_iff)
  have nn: "wallet_nonneg ?w"
    using books_off_nonneg [OF b w] by (simp add: wallet_nonneg_def)
  have t: "wl_tenant ?w = tn_pk tn" using wallet_of_tenant [OF w] by simp
  have "books_off g (tn_pk tn) 0 0 (put_wallet ?w d)"
    using books_off_put [OF b w t nn] by simp
  then have "books_off g (tn_pk tn) 0 0 d'"
    using cr books_off_ledger [of g "tn_pk tn" 0 0 "put_wallet ?w d" ?x d']
    by (cases ?c) (simp_all add: ledger_create_if_def)
  then show ?thesis by (simp add: books_off_iff)
qed

text \<open>A notification changes the sent set and the outbox only.\<close>

lemma notify_shape:
  assumes "notify_threshold_if_needed e w d = Inr (w', d')"
  shows "\<exists>s. w' = w\<lparr>wl_sent := s\<rparr> \<and> d_ledger d' = d_ledger d \<and>
     (d_wallets d' = d_wallets d \<and> w' = w \<or> d_wallets d' = row_put wl_tenant w' (d_wallets d))"
proof (cases "unsent_thresholds w = []")
  case True
  then have "w' = w" "d' = d" using assms by (auto simp: notify_threshold_if_needed_def)
  then show ?thesis by (intro exI [of _ "wl_sent w"]) simp
next
  case False
  let ?w = "w\<lparr>wl_sent := sort (remdups (wl_sent w @ reached_thresholds w))\<rparr>"
  let ?t = "Max (set (unsent_thresholds w))"
  obtain ev where en: "enqueue_notification (wl_tenant w) (threshold_level ?t) (threshold_message ?t ?w)
      (threshold_key e ?t ?w) None [] (put_wallet ?w d) = Inr (ev, d')" and w': "w' = ?w"
    using assms unfolding notify_threshold_if_needed_def if_not_P [OF False] Let_def split_beta bind_ok_Inr_iff
    by (metis Inr_inject fst_conv prod.collapse snd_conv)
  show ?thesis
    using enqueue_notification_frame(1,2) [OF en] w'
    by (intro exI [of _ "wl_sent w'"]) (auto simp: put_wallet_def)
qed

lemma notify_books:
  assumes "notify_threshold_if_needed e w d = Inr (w', d')" "books_off g t i p d" "wallet_of t d = Some w"
  shows "books_off g t i p d' \<and> wallet_of t d' = Some w'"
proof -
  obtain s where s: "w' = w\<lparr>wl_sent := s\<rparr>" and l: "d_ledger d' = d_ledger d" and
    d: "d_wallets d' = d_wallets d \<and> w' = w \<or> d_wallets d' = row_put wl_tenant w' (d_wallets d)"
    using notify_shape [OF assms(1)] by blast
  have t: "wl_tenant w = t" using assms(3) by (rule wallet_of_tenant)
  have nn: "wallet_nonneg w'" using books_off_nonneg [OF assms(2,3)] s by (simp add: wallet_nonneg_def)
  show ?thesis
    using d
  proof
    assume "d_wallets d' = d_wallets d \<and> w' = w"
    then show ?thesis using assms(2,3) l books_off_cong [of d' d] by (simp add: wallet_of_def)
  next
    assume "d_wallets d' = row_put wl_tenant w' (d_wallets d)"
    then have eq: "d_wallets d' = d_wallets (put_wallet w' d)" "d_ledger d' = d_ledger (put_wallet w' d)"
      using l by (simp_all add: put_wallet_def)
    have "books_off g t i p (put_wallet w' d)"
      using books_off_put [OF assms(2,3) _ nn] s t by simp
    moreover have "wallet_of t (put_wallet w' d) = Some w'" using assms(3) t s by simp
    moreover have "wallet_of t d' = wallet_of t (put_wallet w' d)" using eq by (simp add: wallet_of_def)
    ultimately show ?thesis using books_off_cong [OF eq] by simp
  qed
qed

text \<open>The arithmetic of a charge.\<close>

lemma settle_charge_facts:
  assumes "settle_charge r a w = (i, p, w')" "wallet_nonneg w" "0 \<le> a"
  shows "wl_included w' = wl_included w - i" "wl_purchased w' = wl_purchased w - p"
    "wl_tenant w' = wl_tenant w" "wl_reserved w' = max 0 (wl_reserved w - rs_amount r)"
    "0 \<le> i" "0 \<le> p" "wallet_nonneg w'"
    "i + p = min a (max 0 (total_balance w - max 0 (wl_reserved w - rs_amount r)))"
    "0 < p \<Longrightarrow> wl_included w' = 0" "wl_limit w' = wl_limit w" "wl_expires w' = wl_expires w"
    "wl_sent w' = wl_sent w" "wl_pk w' = wl_pk w"
proof -
  define res where "res = max 0 (wl_reserved w - rs_amount r)"
  define c where "c = min a (max 0 (total_balance w - res))"
  have i: "i = min (wl_included w) c" and p: "p = c - i"
    and w': "w' = w\<lparr>wl_reserved := res, wl_included := wl_included w - i, wl_purchased := wl_purchased w - p\<rparr>"
    using assms(1) by (auto simp: settle_charge_def Let_def res_def c_def total_balance_def)
  have nn: "0 \<le> wl_included w" "0 \<le> wl_purchased w" "0 \<le> wl_reserved w"
    using assms(2) by (simp_all add: wallet_nonneg_def)
  have res: "0 \<le> res" by (simp add: res_def)
  have c: "0 \<le> c" "c \<le> total_balance w"
    using assms(3) nn res by (simp_all add: c_def total_balance_def)
  show "0 \<le> i" using i c nn by simp
  show "0 \<le> p" using p i by simp
  show "i + p = min a (max 0 (total_balance w - max 0 (wl_reserved w - rs_amount r)))"
    using p by (simp add: c_def res_def)
  show "0 < p \<Longrightarrow> wl_included w' = 0" using i p w' by (simp add: min_def split: if_splits)
  show "wallet_nonneg w'"
    using i p c res nn w' by (simp add: wallet_nonneg_def total_balance_def)
  show "wl_reserved w' = max 0 (wl_reserved w - rs_amount r)" by (simp add: w' res_def)
  show "wl_included w' = wl_included w - i" "wl_purchased w' = wl_purchased w - p"
    "wl_tenant w' = wl_tenant w" "wl_limit w' = wl_limit w" "wl_expires w' = wl_expires w"
    "wl_sent w' = wl_sent w" "wl_pk w' = wl_pk w"
    by (simp_all add: w')
qed

lemma settle_cases:
  assumes "settle e tn r a d = Inr (c, d')" "\<not> rs_unlimited r" "\<not> ledger_has (tn_pk tn) (rs_key r @ '':settled'') d"
  obtains w i p w1 w2 d1 d2 d3 where
    "wallet_of (tn_pk tn) d = Some w" "settle_charge r (max 0 a) w = (i, p, w1)"
    "notify_threshold_if_needed e w1 (put_wallet w1 d) = Inr (w2, d1)"
    "ledger_create_if (i \<noteq> 0) (charge_txn tn r Bal_Included '':charge:included'' i) d1 = Inr d2"
    "ledger_create_if (p \<noteq> 0) (charge_txn tn r Bal_Purchased '':charge:purchased'' p) d2 = Inr d3"
    "ledger_create \<lparr>tx_tenant = tn_pk tn, tx_kind = K_Release, tx_balance = Bal_Reserved,
        tx_amount = - rs_amount r, tx_key = rs_key r @ '':settled'', tx_reference = rs_key r\<rparr> d3 = Inr d'"
    "c = i + p"
proof -
  obtain w where w: "wallet_of (tn_pk tn) d = Some w"
    using assms by (cases "wallet_of (tn_pk tn) d") (auto simp: settle_def Let_def)
  obtain i p w1 where sc: "settle_charge r (max 0 a) w = (i, p, w1)"
    by (cases "settle_charge r (max 0 a) w") auto
  from assms w sc have "bind_ok (notify_threshold_if_needed e w1 (put_wallet w1 d)) (\<lambda>(_, d1).
      bind_ok (ledger_create_if (i \<noteq> 0) (charge_txn tn r Bal_Included '':charge:included'' i) d1) (\<lambda>d2.
      bind_ok (ledger_create_if (p \<noteq> 0) (charge_txn tn r Bal_Purchased '':charge:purchased'' p) d2) (\<lambda>d3.
      bind_ok (ledger_create
        \<lparr>tx_tenant = tn_pk tn, tx_kind = K_Release, tx_balance = Bal_Reserved,
         tx_amount = - rs_amount r, tx_key = rs_key r @ '':settled'', tx_reference = rs_key r\<rparr> d3)
        (\<lambda>d4. Inr (i + p, d4))))) = Inr (c, d')"
    by (simp add: settle_def Let_def)
  then obtain x where 1: "notify_threshold_if_needed e w1 (put_wallet w1 d) = Inr x" and
    2: "bind_ok (ledger_create_if (i \<noteq> 0) (charge_txn tn r Bal_Included '':charge:included'' i) (snd x)) (\<lambda>d2.
      bind_ok (ledger_create_if (p \<noteq> 0) (charge_txn tn r Bal_Purchased '':charge:purchased'' p) d2) (\<lambda>d3.
      bind_ok (ledger_create
        \<lparr>tx_tenant = tn_pk tn, tx_kind = K_Release, tx_balance = Bal_Reserved,
         tx_amount = - rs_amount r, tx_key = rs_key r @ '':settled'', tx_reference = rs_key r\<rparr> d3)
        (\<lambda>d4. Inr (i + p, d4)))) = Inr (c, d')"
    unfolding split_beta by (rule bind_ok_OkE)
  from 2 obtain d2 where 3: "ledger_create_if (i \<noteq> 0) (charge_txn tn r Bal_Included '':charge:included'' i) (snd x) = Inr d2"
    and 4: "bind_ok (ledger_create_if (p \<noteq> 0) (charge_txn tn r Bal_Purchased '':charge:purchased'' p) d2) (\<lambda>d3.
      bind_ok (ledger_create
        \<lparr>tx_tenant = tn_pk tn, tx_kind = K_Release, tx_balance = Bal_Reserved,
         tx_amount = - rs_amount r, tx_key = rs_key r @ '':settled'', tx_reference = rs_key r\<rparr> d3)
        (\<lambda>d4. Inr (i + p, d4))) = Inr (c, d')"
    by (rule bind_ok_OkE)
  from 4 obtain d3 where 5: "ledger_create_if (p \<noteq> 0) (charge_txn tn r Bal_Purchased '':charge:purchased'' p) d2 = Inr d3"
    and 6: "ledger_create
        \<lparr>tx_tenant = tn_pk tn, tx_kind = K_Release, tx_balance = Bal_Reserved,
         tx_amount = - rs_amount r, tx_key = rs_key r @ '':settled'', tx_reference = rs_key r\<rparr> d3 = Inr d'"
    and 7: "c = i + p"
    by (auto elim!: bind_ok_OkE)
  show thesis using that [OF w sc _ 3 5 6 7, of "fst x"] 1 by simp
qed

lemma settle_done:
  assumes "settle e tn r a d = Inr (c, d')" "rs_unlimited r \<or> ledger_has (tn_pk tn) (rs_key r @ '':settled'') d"
  shows "d' = d \<and> c = max 0 a"
  using assms by (simp add: settle_def Let_def split: option.splits if_splits)

lemma settle_books:
  assumes "settle e tn r a d = Inr (c, d')" "books_ok g d"
  shows "books_ok g d'"
proof (cases "rs_unlimited r \<or> ledger_has (tn_pk tn) (rs_key r @ '':settled'') d")
  case True
  then show ?thesis using settle_done [OF assms(1)] assms(2) by simp
next
  case False
  then have n: "\<not> rs_unlimited r" "\<not> ledger_has (tn_pk tn) (rs_key r @ '':settled'') d" by auto
  obtain w i p w1 w2 d1 d2 d3 where
    w: "wallet_of (tn_pk tn) d = Some w" and sc: "settle_charge r (max 0 a) w = (i, p, w1)" and
    s1: "notify_threshold_if_needed e w1 (put_wallet w1 d) = Inr (w2, d1)" and
    s2: "ledger_create_if (i \<noteq> 0) (charge_txn tn r Bal_Included '':charge:included'' i) d1 = Inr d2" and
    s3: "ledger_create_if (p \<noteq> 0) (charge_txn tn r Bal_Purchased '':charge:purchased'' p) d2 = Inr d3" and
    s4: "ledger_create \<lparr>tx_tenant = tn_pk tn, tx_kind = K_Release, tx_balance = Bal_Reserved,
        tx_amount = - rs_amount r, tx_key = rs_key r @ '':settled'', tx_reference = rs_key r\<rparr> d3 = Inr d'"
    using assms(1) n by (rule settle_cases)
  have b: "books_off g (tn_pk tn) 0 0 d" using assms(2) w by (simp add: books_off_iff)
  have nn: "wallet_nonneg w" by (rule books_off_nonneg [OF b w])
  have t: "wl_tenant w = tn_pk tn" by (rule wallet_of_tenant [OF w])
  note f = settle_charge_facts [OF sc nn max.cobounded1]
  have "books_off g (tn_pk tn) (- i) (- p) (put_wallet w1 d)"
    using books_off_put [OF b w _ f(7)] f(1-3) t by simp
  moreover have "wallet_of (tn_pk tn) (put_wallet w1 d) = Some w1" using w f(3) t by simp
  ultimately have "books_off g (tn_pk tn) (- i) (- p) d1" using notify_books [OF s1] by blast
  from books_off_ledger_if [OF this s2] have "books_off g (tn_pk tn) 0 (- p) d2"
    by (simp add: charge_txn_def)
  from books_off_ledger_if [OF this s3] have "books_off g (tn_pk tn) 0 0 d3"
    by (simp add: charge_txn_def)
  from books_off_ledger [OF this s4] show ?thesis by (simp add: books_off_iff)
qed

lemma ensured:
  assumes "ensure_wallet e tn d = Inr (w, d')" "books_ok g d"
  shows "books_off g (tn_pk tn) 0 0 d'" "wallet_of (tn_pk tn) d' = Some w" "wl_tenant w = tn_pk tn"
    "wallet_nonneg w"
  using ensure_wallet_books [OF assms] ensure_wallet_found [OF assms(1)] wallet_of_tenant books_off_nonneg
  by blast+

lemma grant_books:
  assumes "grant_included e tn a p k d = Inr (w', d')" "books_ok g d"
  shows "books_ok g d'"
proof -
  obtain w d1 where en: "ensure_wallet e tn d = Inr (w, d1)"
    using assms(1) by (auto simp: grant_included_def bind_ok_Inr_iff)
  note b = ensured [OF en assms(2)]
  show ?thesis
  proof (cases "ledger_has (tn_pk tn) k d1")
    case True
    then show ?thesis using assms(1) en b(1) by (simp add: grant_included_def books_off_iff)
  next
    case False
    let ?g = "case a of None \<Rightarrow> 0 | Some a \<Rightarrow> max 0 a"
    let ?w = "w\<lparr>wl_limit := ?g, wl_included := ?g, wl_expires := map_option (day_end e) p, wl_sent := []\<rparr>"
    obtain d2 where
      s1: "ledger_create_if (wl_included w \<noteq> 0)
             \<lparr>tx_tenant = tn_pk tn, tx_kind = K_Expire, tx_balance = Bal_Included,
              tx_amount = - wl_included w, tx_key = k @ '':expire'', tx_reference = []\<rparr> d1 = Inr d2" and
      s2: "ledger_create \<lparr>tx_tenant = tn_pk tn, tx_kind = K_Grant, tx_balance = Bal_Included,
                 tx_amount = ?g, tx_key = k, tx_reference = ''subscription-period''\<rparr>
             (put_wallet ?w d2) = Inr d'"
      using assms(1) en False
      by (simp add: grant_included_def Let_def) (auto elim!: bind_ok_OkE)
    have nn: "wallet_nonneg ?w" using b(4) by (simp add: wallet_nonneg_def split: option.split)
    have o2: "books_off g (tn_pk tn) (wl_included w) 0 d2" using books_off_ledger_if [OF b(1) s1] by simp
    have w2: "wallet_of (tn_pk tn) d2 = Some w" using ledger_create_wallet_of(1) [OF s1] b(2) by simp
    have "books_off g (tn_pk tn) ?g 0 (put_wallet ?w d2)"
      using books_off_put [OF o2 w2 _ nn] b(3) by simp
    from books_off_ledger [OF this s2] show ?thesis by (simp add: books_off_iff)
  qed
qed

lemma topup_books:
  assumes "topup e tn a k ref d = Inr (w', d')" "books_ok g d"
  shows "books_ok g d'"
proof -
  obtain w d1 where en: "ensure_wallet e tn d = Inr (w, d1)"
    using assms(1) by (auto simp: topup_def bind_ok_Inr_iff)
  note b = ensured [OF en assms(2)]
  show ?thesis
  proof (cases "ledger_has (tn_pk tn) k d1")
    case True
    then show ?thesis using assms(1) en b(1) by (simp add: topup_def books_off_iff)
  next
    case False
    then have s: "ledger_create
        \<lparr>tx_tenant = tn_pk tn, tx_kind = K_Topup, tx_balance = Bal_Purchased, tx_amount = max 0 a,
         tx_key = k, tx_reference = ref\<rparr> (put_wallet (w\<lparr>wl_purchased := wl_purchased w + max 0 a\<rparr>) d1) = Inr d'"
      using assms(1) en by (auto simp: topup_def Let_def elim!: bind_ok_OkE)
    show ?thesis
      using books_post [OF b(1,2) s] b(3,4) by (simp add: wallet_nonneg_def books_off_iff)
  qed
qed

text \<open>The amount a reversal can take back.\<close>

definition reversible :: "wallet \<Rightarrow> credits" where
  "reversible w = max 0 (wl_purchased w - max 0 (wl_reserved w - wl_included w))"

lemma ledger_row_has: "ledger_row t k d = None \<longleftrightarrow> \<not> ledger_has t k d"
  by (auto simp: ledger_row_def ledger_has_def find_None_iff)

lemma reverse_cases:
  assumes "reverse_purchased e tn a k ref kind d = Inr (r, d')"
  obtains (seen) w x where "ensure_wallet e tn d = Inr (w, d')" "ledger_row (tn_pk tn) k d' = Some x"
      "r = (\<bar>tx_amount x\<bar>, max 0 (a - \<bar>tx_amount x\<bar>))"
  | (fresh) w d1 where "ensure_wallet e tn d = Inr (w, d1)" "\<not> ledger_has (tn_pk tn) k d1"
      "r = (min (max 0 a) (reversible w), max 0 a - min (max 0 a) (reversible w))"
      "ledger_create \<lparr>tx_tenant = tn_pk tn, tx_kind = kind, tx_balance = Bal_Purchased,
           tx_amount = - min (max 0 a) (reversible w), tx_key = k, tx_reference = ref\<rparr>
         (put_wallet (w\<lparr>wl_purchased := wl_purchased w - min (max 0 a) (reversible w)\<rparr>) d1) = Inr d'"
proof -
  obtain w d1 where en: "ensure_wallet e tn d = Inr (w, d1)"
    using assms(1) by (auto simp: reverse_purchased_def bind_ok_Inr_iff)
  show thesis
  proof (cases "ledger_row (tn_pk tn) k d1")
    case None
    then have "\<not> ledger_has (tn_pk tn) k d1" by (simp add: ledger_row_has)
    then show thesis
      using None assms en that(2) [OF en]
      by (auto simp: reverse_purchased_def Let_def reversible_def elim!: bind_ok_OkE)
  next
    case (Some x)
    then show thesis using assms en that(1) [of w x] by (simp add: reverse_purchased_def)
  qed
qed

lemma reverse_books:
  assumes "reverse_purchased e tn a k ref kind d = Inr (r, d')" "books_ok g d"
  shows "books_ok g d'"
  using assms(1)
proof (cases rule: reverse_cases)
  case (seen w x)
  then show ?thesis using ensured(1) [OF _ assms(2)] by (simp add: books_off_iff)
next
  case (fresh w d1)
  note b = ensured [OF fresh(1) assms(2)]
  have "min (max 0 a) (reversible w) \<le> wl_purchased w"
    using b(4) by (auto simp: wallet_nonneg_def reversible_def)
  then show ?thesis
    using books_post [OF b(1,2) fresh(4)] b(3,4) by (simp add: wallet_nonneg_def books_off_iff)
qed

definition synced_included :: "credits \<Rightarrow> wallet \<Rightarrow> credits" where
  "synced_included new_limit w =
     max (max 0 (new_limit - max 0 (wl_limit w - wl_included w))) (max 0 (wl_reserved w - wl_purchased w))"

lemma sync_cases:
  assumes "sync_included_limit e tn d = Inr (w', d')"
  obtains w d1 d2 u where "ensure_wallet e tn d = Inr (w, d1)"
    "d_wallets d2 = d_wallets d1" "d_ledger d2 = d_ledger d1"
    "w' = w\<lparr>wl_limit := effective_limit tn d1, wl_included := synced_included (effective_limit tn d1) w,
             wl_sent := []\<rparr>"
    "ledger_create_if (synced_included (effective_limit tn d1) w - wl_included w \<noteq> 0)
        \<lparr>tx_tenant = tn_pk tn, tx_kind = K_Adjustment, tx_balance = Bal_Included,
         tx_amount = synced_included (effective_limit tn d1) w - wl_included w,
         tx_key = ''limit-sync:'' @ str_nat (tn_pk tn) @ '':'' @ uuid_text e u,
         tx_reference = ''tenant-limit-override''\<rparr> (put_wallet w' d2) = Inr d'"
proof -
  obtain w d1 where en: "ensure_wallet e tn d = Inr (w, d1)"
    using assms(1) by (auto simp: sync_included_limit_def bind_ok_Inr_iff)
  let ?c = "synced_included (effective_limit tn d1) w - wl_included w \<noteq> 0"
  obtain u d2 where u: "(if ?c then fresh_uuid d1 else (0, d1)) = (u, d2)" by fastforce
  then have "d_wallets d2 = d_wallets d1" "d_ledger d2 = d_ledger d1"
    by (auto simp: fresh_uuid_def split: if_splits)
  then show thesis
    using assms that [OF en] u
    unfolding sync_included_limit_def en bind_ok_simps prod.case Let_def synced_included_def [symmetric] u
    by (auto elim!: bind_ok_OkE)
qed

lemma sync_books:
  assumes "sync_included_limit e tn d = Inr (w', d')" "books_ok g d"
  shows "books_ok g d'"
  using assms(1)
proof (cases rule: sync_cases)
  case (1 w d1 d2 u)
  note b = ensured [OF 1(1) assms(2)]
  have b2: "books_off g (tn_pk tn) 0 0 d2" "wallet_of (tn_pk tn) d2 = Some w"
    using b(1,2) 1(2,3) books_off_cong [of d2 d1] by (simp_all add: wallet_of_def)
  have nn: "wallet_nonneg w'" using b(4) 1(4) by (simp add: wallet_nonneg_def synced_included_def)
  show ?thesis
    using books_post_if [OF b2 1(5) _ nn] b(3) 1(4) by (simp add: books_off_iff)
qed

lemma wallet_step_books: "wallet_step e op d = Inr d' \<Longrightarrow> books_ok g d \<Longrightarrow> books_ok g d'"
  by (cases op)
    (auto simp: db_of_Inr_iff books_off_iff intro: release_books settle_books grant_books sync_books
      topup_books reverse_books dest: ensure_wallet_books reserve_books)

lemma perform_books: "books_ok g d \<Longrightarrow> books_ok g (perform eo d)"
  by (auto simp: perform_def dest: wallet_step_books split: sum.splits)

lemma demo_books: "books_ok (\<lambda>_. 0) demo_db"
  by (simp add: books_ok_def demo_db_def empty_db_def)

section \<open>Isolation\<close>

text \<open>An operation of tenant \<open>t\<close> leaves other wallets alone and only appends ledger rows of \<open>t\<close>.\<close>

definition touches :: "nat \<Rightarrow> db \<Rightarrow> db \<Rightarrow> bool" where
  "touches t d d' \<longleftrightarrow>
     (\<forall>u. u \<noteq> t \<longrightarrow> wallet_of u d' = wallet_of u d) \<and>
     (wallet_of t d \<noteq> None \<longrightarrow> wallet_of t d' \<noteq> None) \<and>
     (\<exists>rows. d_ledger d' = d_ledger d @ rows \<and> (\<forall>x\<in>set rows. tx_tenant x = t))"

lemma touches_refl [intro]: "touches t d d"
  by (simp add: touches_def)

lemma touches_trans [trans]:
  assumes "touches t d d1" "touches t d1 d2" shows "touches t d d2"
proof -
  obtain r1 r2 where "d_ledger d1 = d_ledger d @ r1" "\<forall>x\<in>set r1. tx_tenant x = t"
    "d_ledger d2 = d_ledger d1 @ r2" "\<forall>x\<in>set r2. tx_tenant x = t"
    using assms by (auto simp: touches_def)
  then have "d_ledger d2 = d_ledger d @ (r1 @ r2)" "\<forall>x\<in>set (r1 @ r2). tx_tenant x = t" by auto
  then show ?thesis using assms unfolding touches_def by metis
qed

lemma wallet_of_put_known: "wallet_of t d \<noteq> None \<Longrightarrow> wallet_of t (put_wallet w d) \<noteq> None"
  using wallet_table.get_put_same [of w d] wallet_table.get_put_other [of t w d] by (cases "t = wl_tenant w") auto

lemma touches_put: "wl_tenant w = t \<Longrightarrow> touches t d (put_wallet w d)"
  using wallet_of_put_known [of t d w] by (simp add: touches_def wallet_table.get_put_other) (simp add: put_wallet_def)

lemma touches_ledger: "ledger_create x d = Inr d' \<Longrightarrow> tx_tenant x = t \<Longrightarrow> touches t d d'"
  by (simp add: touches_def ledger_create_Inr)

lemma touches_ledger_if: "ledger_create_if c x d = Inr d' \<Longrightarrow> tx_tenant x = t \<Longrightarrow> touches t d d'"
  by (cases c) (auto simp: ledger_create_if_def touches_ledger)

lemma touches_same:
  "d_wallets d' = d_wallets d \<Longrightarrow> d_ledger d' = d_ledger d \<Longrightarrow> touches t d d'"
  by (simp add: touches_def wallet_of_def)

lemma touches_post:
  "ledger_create x (put_wallet w d) = Inr d' \<Longrightarrow> wl_tenant w = t \<Longrightarrow> tx_tenant x = t \<Longrightarrow> touches t d d'"
  by (rule touches_trans [OF touches_put touches_ledger])

lemma touches_post_if:
  "ledger_create_if c x (put_wallet w d) = Inr d' \<Longrightarrow> wl_tenant w = t \<Longrightarrow> tx_tenant x = t \<Longrightarrow> touches t d d'"
  by (rule touches_trans [OF touches_put touches_ledger_if])

lemma touches_ensure:
  assumes "ensure_wallet e tn d = Inr (w, d')" shows "touches (tn_pk tn) d d'"
proof (cases "wallet_of (tn_pk tn) d")
  case (Some x)
  then show ?thesis using assms by (auto simp: ensure_wallet_eq)
next
  case None
  let ?w = "bootstrap_wallet e tn (next_pk wl_pk (d_wallets d)) d"
  let ?d = "d\<lparr>d_wallets := row_add ?w (d_wallets d)\<rparr>"
  have "touches (tn_pk tn) d ?d"
    by (auto simp: touches_def wallet_of_def row_get_add split: option.splits)
  also have "touches (tn_pk tn) ?d d'"
    using assms None by (auto simp: ensure_wallet_eq Let_def bind_ok_Inr_iff intro: touches_ledger_if)
  finally show ?thesis .
qed

lemma touches_expire:
  assumes "expire_included_if_needed e w d = Inr (w', d')" "wl_tenant w = t"
  shows "touches t d d'" "wl_tenant w' = t"
proof -
  show "wl_tenant w' = t"
    using assms by (auto simp: expire_included_if_needed_def Let_def bind_ok_Inr_iff split: option.splits if_splits)
  show "touches t d d'"
    using assms
    by (auto simp: expire_included_if_needed_def Let_def bind_ok_Inr_iff intro: touches_post
        split: option.splits if_splits)
qed

lemma touches_notify:
  assumes "notify_threshold_if_needed e w d = Inr (w', d')" "wl_tenant w = t"
  shows "touches t d d'"
proof -
  obtain s where s: "w' = w\<lparr>wl_sent := s\<rparr>" and l: "d_ledger d' = d_ledger d" and
    d: "d_wallets d' = d_wallets d \<and> w' = w \<or> d_wallets d' = row_put wl_tenant w' (d_wallets d)"
    using notify_shape [OF assms(1)] by blast
  then have "touches t d (put_wallet w' d)" using assms(2) by (intro touches_put) simp
  also have "touches t (put_wallet w' d) d'" if "d_wallets d' = row_put wl_tenant w' (d_wallets d)"
    using that l by (intro touches_same) (simp_all add: put_wallet_def)
  finally show ?thesis using d l touches_same by blast
qed

lemma touches_reserve:
  assumes "reserve e tn a k d = Inr (r, d')" shows "touches (tn_pk tn) d d'"
  using assms
proof (cases rule: reserve_cases)
  case (1 q d0 w0 d1 w d2)
  have "touches (tn_pk tn) d d0" using reservation_key_frame [OF 1(1)] by (intro touches_same) auto
  also have "touches (tn_pk tn) d0 d1" by (rule touches_ensure [OF 1(2)])
  also have t: "wl_tenant w0 = tn_pk tn" by (rule wallet_of_tenant [OF ensure_wallet_found [OF 1(2)]])
  have "touches (tn_pk tn) d1 d2" by (rule touches_expire(1) [OF 1(3) t])
  finally have "touches (tn_pk tn) d d2" .
  also have "touches (tn_pk tn) d2 d'"
    using touches_post [OF 1(5), of "tn_pk tn"] touches_expire(2) [OF 1(3) t] by simp
  finally show ?thesis .
qed

lemma touches_release:
  assumes "release tn r d = Inr d'" shows "touches (tn_pk tn) d d'"
proof (cases "rs_unlimited r")
  case True
  then show ?thesis using assms by (auto simp: release_def)
next
  case False
  then obtain w where w: "wallet_of (tn_pk tn) d = Some w"
    using assms by (cases "wallet_of (tn_pk tn) d") (auto simp: release_def)
  then show ?thesis
    using assms False wallet_of_tenant [OF w]
    by (simp add: release_def Let_def) (erule touches_post_if, simp_all)
qed

lemma settle_charge_tenant: "wl_tenant (snd (snd (settle_charge r a w))) = wl_tenant w"
  by (simp add: settle_charge_def Let_def)

lemma touches_settle:
  assumes "settle e tn r a d = Inr (c, d')" shows "touches (tn_pk tn) d d'"
proof (cases "rs_unlimited r \<or> ledger_has (tn_pk tn) (rs_key r @ '':settled'') d")
  case True
  then show ?thesis using settle_done [OF assms True] by auto
next
  case False
  then have n: "\<not> rs_unlimited r" "\<not> ledger_has (tn_pk tn) (rs_key r @ '':settled'') d" by auto
  obtain w i p w1 w2 d1 d2 d3 where
    w: "wallet_of (tn_pk tn) d = Some w" and sc: "settle_charge r (max 0 a) w = (i, p, w1)" and
    s: "notify_threshold_if_needed e w1 (put_wallet w1 d) = Inr (w2, d1)"
      "ledger_create_if (i \<noteq> 0) (charge_txn tn r Bal_Included '':charge:included'' i) d1 = Inr d2"
      "ledger_create_if (p \<noteq> 0) (charge_txn tn r Bal_Purchased '':charge:purchased'' p) d2 = Inr d3"
      "ledger_create \<lparr>tx_tenant = tn_pk tn, tx_kind = K_Release, tx_balance = Bal_Reserved,
        tx_amount = - rs_amount r, tx_key = rs_key r @ '':settled'', tx_reference = rs_key r\<rparr> d3 = Inr d'"
    using assms n by (rule settle_cases)
  have t: "wl_tenant w1 = tn_pk tn"
    using settle_charge_tenant [of r "max 0 a" w] sc wallet_of_tenant [OF w] by simp
  have "touches (tn_pk tn) d (put_wallet w1 d)" by (rule touches_put [OF t])
  also have "touches (tn_pk tn) (put_wallet w1 d) d1" by (rule touches_notify [OF s(1) t])
  also have "touches (tn_pk tn) d1 d2" by (rule touches_ledger_if [OF s(2)]) (simp add: charge_txn_def)
  also have "touches (tn_pk tn) d2 d3" by (rule touches_ledger_if [OF s(3)]) (simp add: charge_txn_def)
  also have "touches (tn_pk tn) d3 d'" by (rule touches_ledger [OF s(4)]) simp
  finally show ?thesis .
qed

lemma ensured_tenant: "ensure_wallet e tn d = Inr (w, d') \<Longrightarrow> wl_tenant w = tn_pk tn"
  by (rule wallet_of_tenant [OF ensure_wallet_found])

lemma touches_grant:
  assumes "grant_included e tn a p k d = Inr (w', d')" shows "touches (tn_pk tn) d d'"
proof -
  obtain w d1 where en: "ensure_wallet e tn d = Inr (w, d1)"
    using assms by (auto simp: grant_included_def bind_ok_Inr_iff)
  have "touches (tn_pk tn) d1 d'"
    using assms en ensured_tenant [OF en]
    by (auto simp: grant_included_def Let_def elim!: bind_ok_OkE split: if_splits
        intro: touches_trans [OF touches_ledger_if touches_post])
  with touches_ensure [OF en] show ?thesis by (rule touches_trans)
qed

lemma touches_topup:
  assumes "topup e tn a k ref d = Inr (w', d')" shows "touches (tn_pk tn) d d'"
proof -
  obtain w d1 where en: "ensure_wallet e tn d = Inr (w, d1)"
    using assms by (auto simp: topup_def bind_ok_Inr_iff)
  have "touches (tn_pk tn) d1 d'"
    using assms en ensured_tenant [OF en]
    by (auto simp: topup_def Let_def elim!: bind_ok_OkE split: if_splits intro: touches_post)
  with touches_ensure [OF en] show ?thesis by (rule touches_trans)
qed

lemma touches_reverse:
  assumes "reverse_purchased e tn a k ref kind d = Inr (r, d')" shows "touches (tn_pk tn) d d'"
  using assms
proof (cases rule: reverse_cases)
  case (seen w x)
  then show ?thesis by (simp add: touches_ensure)
next
  case (fresh w d1)
  then show ?thesis
    using touches_trans [OF touches_ensure [OF fresh(1)] touches_post [OF fresh(4)]]
      ensured_tenant [OF fresh(1)] by simp
qed

lemma touches_sync:
  assumes "sync_included_limit e tn d = Inr (w', d')" shows "touches (tn_pk tn) d d'"
  using assms
proof (cases rule: sync_cases)
  case (1 w d1 d2 u)
  have "touches (tn_pk tn) d d1" by (rule touches_ensure [OF 1(1)])
  also have "touches (tn_pk tn) d1 d2" using 1(2,3) by (rule touches_same)
  also have "touches (tn_pk tn) d2 d'"
    using touches_post_if [OF 1(5), of "tn_pk tn"] ensured_tenant [OF 1(1)] 1(4) by simp
  finally show ?thesis .
qed

fun op_tenant :: "wallet_op \<Rightarrow> nat" where
  "op_tenant (Op_Ensure tn) = tn_pk tn"
| "op_tenant (Op_Reserve tn _ _) = tn_pk tn"
| "op_tenant (Op_Release tn _) = tn_pk tn"
| "op_tenant (Op_Settle tn _ _) = tn_pk tn"
| "op_tenant (Op_Grant tn _ _ _) = tn_pk tn"
| "op_tenant (Op_Sync tn) = tn_pk tn"
| "op_tenant (Op_Topup tn _ _ _) = tn_pk tn"
| "op_tenant (Op_Reverse tn _ _ _ _) = tn_pk tn"

lemma wallet_step_touches: "wallet_step e op d = Inr d' \<Longrightarrow> touches (op_tenant op) d d'"
  by (cases op)
    (auto simp: db_of_Inr_iff dest: touches_ensure touches_reserve touches_release touches_settle
      touches_grant touches_sync touches_topup touches_reverse)

lemma perform_touches: "touches (op_tenant (snd eo)) d (perform eo d)"
  by (auto simp: perform_def dest: wallet_step_touches split: sum.splits)

text \<open>Isolation and an append-only ledger: an operation of one tenant leaves the wallet of
  every other tenant as it was, keeps every ledger row, and adds rows of its own tenant only.\<close>

theorem wallet_isolation:
  assumes "wallet_step e op d = Inr d'"
  shows "(\<forall>u. u \<noteq> op_tenant op \<longrightarrow> wallet_of u d' = wallet_of u d) \<and>
     (\<exists>rows. d_ledger d' = d_ledger d @ rows \<and> (\<forall>x\<in>set rows. tx_tenant x = op_tenant op))"
  using wallet_step_touches [OF assms] by (simp add: touches_def)

definition demo_topup_db :: db where
  "demo_topup_db = demo_db\<lparr>d_wallets :=
       [\<lparr>wl_pk = 1, wl_tenant = 7, wl_included = 50000000, wl_limit = 50000000, wl_purchased = 500000,
         wl_reserved = 0, wl_expires = Some (day_end demo_env (Date 2026 2 15)), wl_sent = []\<rparr>],
     d_ledger :=
       [\<lparr>tx_tenant = 7, tx_kind = K_Grant, tx_balance = Bal_Included, tx_amount = 50000000,
         tx_key = ''wallet-bootstrap:7'', tx_reference = ''legacy-ai-credits''\<rparr>,
        \<lparr>tx_tenant = 7, tx_kind = K_Topup, tx_balance = Bal_Purchased, tx_amount = 500000,
         tx_key = ''invoice:1'', tx_reference = ''pay''\<rparr>]\<rparr>"

lemma sample_topup: "wallet_step demo_env (Op_Topup demo_tenant 500000 ''invoice:1'' ''pay'') demo_db = Inr demo_topup_db"
  by (simp add: db_of_def topup_def ensure_wallet_eq wallet_of_def demo_topup_db_def demo_defs Let_def
      bootstrap_wallet_def next_pk_def effective_limit_def sub_of_def get_plan_def credits_of_int_def
      bootstrapped_def fresh_wallet_def ledger_create_if_def ledger_create_def ledger_has_def row_add_def
      bootstrap_key_def str_nat.simps digit_def put_wallet_def)

theorem wallet_isolation_witness:
  "wallet_of 8 demo_topup_db = wallet_of 8 demo_db \<and>
     (\<exists>rows. d_ledger demo_topup_db = d_ledger demo_db @ rows \<and> (\<forall>x\<in>set rows. tx_tenant x = 7))"
  using wallet_isolation [OF sample_topup] by (simp add: demo_tenant_def)

section \<open>Runs of committed operations and of bootstraps\<close>

text \<open>
  Operations commit as one transaction. A bootstrap that runs outside a transaction is a process with
  its own memory, which commits its three statements one by one (between the first two it computes
  the wallet from what it reads) and may be lost after any of them. A tenant's wallet is created
  once, so a tenant has one such process at most; they are kept by tenant.
\<close>

datatype boot =
    Boot_Created tenant wallet
  | Boot_Computed tenant wallet
  | Boot_Saved tenant wallet

type_synonym boots = "nat \<Rightarrow> boot option"

fun boot_next :: "env \<Rightarrow> boot \<Rightarrow> db \<Rightarrow> boot option \<times> db" where
  "boot_next e (Boot_Created tn w) d = (Some (Boot_Computed tn (bootstrapped e tn d w)), d)"
| "boot_next e (Boot_Computed tn w) d =
     (case save_bootstrap w d of Inl _ \<Rightarrow> (None, d) | Inr d' \<Rightarrow> (Some (Boot_Saved tn w), d'))"
| "boot_next e (Boot_Saved tn w) d =
     (None, case post_bootstrap tn w d of Inl _ \<Rightarrow> d | Inr d' \<Rightarrow> d')"

datatype wallet_event =
    Committed wallet_op
  | Boot_Begin tenant
  | Boot_Next nat
  | Boot_Lost nat

fun wallet_event_step :: "env \<times> wallet_event \<Rightarrow> db \<times> boots \<Rightarrow> db \<times> boots" where
  "wallet_event_step (e, Committed op) (d, bs) = (perform (e, op) d, bs)"
| "wallet_event_step (e, Boot_Begin tn) (d, bs) =
     (case get_or_create_wallet tn d of
        ((w, created), d') \<Rightarrow> (d', if created then bs(tn_pk tn \<mapsto> Boot_Created tn w) else bs))"
| "wallet_event_step (e, Boot_Next t) (d, bs) =
     (case bs t of
        None \<Rightarrow> (d, bs)
      | Some b \<Rightarrow> (case boot_next e b d of (b', d') \<Rightarrow> (d', bs(t := b'))))"
| "wallet_event_step (e, Boot_Lost t) (d, bs) = (d, bs(t := None))"

text \<open>
  What a bootstrap has saved and not yet posted, and what a run leaves unposted for good: the grant
  of a bootstrap lost (or refused its ledger row) between the two, less the included credits that a
  late save overwrites.
\<close>

definition unposted :: "boots \<Rightarrow> nat \<Rightarrow> credits" where
  "unposted bs t = (case bs t of Some (Boot_Saved tn w) \<Rightarrow> wl_included w | _ \<Rightarrow> 0)"

fun stray_step :: "env \<times> wallet_event \<Rightarrow> db \<times> boots \<Rightarrow> nat \<Rightarrow> credits" where
  "stray_step (e, Boot_Next t) (d, bs) u =
     (if u \<noteq> t then 0
      else case bs t of
        Some (Boot_Computed tn w) \<Rightarrow> (case wallet_of t d of None \<Rightarrow> 0 | Some x \<Rightarrow> - wl_included x)
      | Some (Boot_Saved tn w) \<Rightarrow> (if is_ok (post_bootstrap tn w d) then 0 else wl_included w)
      | _ \<Rightarrow> 0)"
| "stray_step (e, Boot_Lost t) (d, bs) u = (if u = t then unposted bs t else 0)"
| "stray_step (e, Committed op) s u = 0"
| "stray_step (e, Boot_Begin tn) s u = 0"

fun stray :: "(env \<times> wallet_event) list \<Rightarrow> db \<times> boots \<Rightarrow> nat \<Rightarrow> credits" where
  "stray [] s u = 0"
| "stray (ev # evs) s u = stray_step ev s u + stray evs (wallet_event_step ev s) u"

text \<open>The memory of a bootstrap belongs to its tenant, whose wallet exists.\<close>

fun boot_ok :: "nat \<Rightarrow> boot \<Rightarrow> bool" where
  "boot_ok t (Boot_Created tn w) \<longleftrightarrow> tn_pk tn = t \<and> wl_tenant w = t"
| "boot_ok t (Boot_Computed tn w) \<longleftrightarrow> tn_pk tn = t \<and> wl_tenant w = t \<and> 0 \<le> wl_included w"
| "boot_ok t (Boot_Saved tn w) \<longleftrightarrow> tn_pk tn = t \<and> wl_tenant w = t"

definition boots_ok :: "db \<times> boots \<Rightarrow> bool" where
  "boots_ok s \<longleftrightarrow> (\<forall>t b. snd s t = Some b \<longrightarrow> wallet_of t (fst s) \<noteq> None \<and> boot_ok t b)"

lemma books_ok_offset:
  assumes "books_off g t i 0 d"
  shows "books_ok (g(t := g t + i)) d"
proof -
  have "books_off (g(t := g t + i)) t 0 0 d"
    using assms unfolding books_off_def by auto
  then show ?thesis by (simp add: books_off_iff)
qed

lemma known_touches: "touches t d d' \<Longrightarrow> wallet_of u d \<noteq> None \<Longrightarrow> wallet_of u d' \<noteq> None"
  unfolding touches_def by (cases "u = t") simp_all

text \<open>Each statement of a bootstrap moves the offset of its tenant by what it does not post.\<close>

lemma books_create:
  assumes "get_or_create_wallet tn d = ((w, created), d')" "books_ok g d"
  shows "books_ok g d'" "wallet_of (tn_pk tn) d' = Some w" "wallet_of u d \<noteq> None \<Longrightarrow> wallet_of u d' \<noteq> None"
    "created \<Longrightarrow> wallet_of (tn_pk tn) d = None"
proof -
  let ?w = "fresh_wallet tn (next_pk wl_pk (d_wallets d))"
  have t: "wl_tenant ?w = tn_pk tn" "wallet_nonneg ?w" "wl_included ?w = 0" "wl_purchased ?w = 0"
    by (simp_all add: fresh_wallet_def wallet_nonneg_def)
  show "books_ok g d'"
    using assms books_off_new_wallet [of g d ?w] t
    by (auto simp: get_or_create_wallet_def Let_def books_off_iff split: option.splits)
  show "wallet_of (tn_pk tn) d' = Some w" "wallet_of u d \<noteq> None \<Longrightarrow> wallet_of u d' \<noteq> None"
    "created \<Longrightarrow> wallet_of (tn_pk tn) d = None"
    using assms(1) wallet_of_add_new [of ?w d] t(1)
    by (auto simp: get_or_create_wallet_def Let_def split: option.splits)
qed

lemma books_save:
  assumes "books_ok g d" "wallet_of (wl_tenant w) d = Some x" "0 \<le> wl_included w"
  shows "\<exists>d'. save_bootstrap w d = Inr d' \<and>
     books_ok (g(wl_tenant w := g (wl_tenant w) + (wl_included w - wl_included x))) d' \<and>
     (\<forall>u. wallet_of u d \<noteq> None \<longrightarrow> wallet_of u d' \<noteq> None)"
proof -
  let ?t = "wl_tenant w"
  let ?x = "x\<lparr>wl_limit := wl_limit w, wl_included := wl_included w, wl_expires := wl_expires w\<rparr>"
  have t: "wl_tenant x = ?t" using assms(2) by (rule wallet_of_tenant)
  have b: "books_off g ?t 0 0 d" using assms(1,2) by (simp add: books_off_iff)
  have nn: "wallet_nonneg ?x" using books_off_nonneg [OF b assms(2)] assms(3) by (simp add: wallet_nonneg_def)
  have "books_off g ?t (wl_included w - wl_included x) 0 (put_wallet ?x d)"
    using books_off_put [OF b assms(2) _ nn] t by simp
  from books_ok_offset [OF this] show ?thesis
    using assms(2) wallet_of_put_known [of _ d ?x] by (simp add: save_bootstrap_def)
qed

lemma books_post_bootstrap:
  assumes "books_ok g d" "post_bootstrap tn w d = Inr d'" "wallet_of (tn_pk tn) d \<noteq> None"
  shows "books_ok (g(tn_pk tn := g (tn_pk tn) - wl_included w)) d'" "wallet_of u d' = wallet_of u d"
proof -
  have "books_off g (tn_pk tn) 0 0 d" using assms(1,3) by (simp add: books_off_iff)
  from books_off_ledger_if [OF this assms(2) [unfolded post_bootstrap_def]]
  show "books_ok (g(tn_pk tn := g (tn_pk tn) - wl_included w)) d'"
    using books_ok_offset [of g "tn_pk tn" "- wl_included w" d'] by simp
  show "wallet_of u d' = wallet_of u d"
    using assms(2) by (simp add: post_bootstrap_def)
qed

lemma event_books:
  assumes "books_ok (\<lambda>t. unposted bs t + g t) d" "boots_ok (d, bs)" "wallet_event_step ev (d, bs) = (d', bs')"
  shows "books_ok (\<lambda>t. unposted bs' t + (g t + stray_step ev (d, bs) t)) d' \<and> boots_ok (d', bs')"
proof -
  obtain e a where ev: "ev = (e, a)" by (cases ev)
  show ?thesis
  proof (cases a)
    case (Committed op)
    then show ?thesis
      using assms ev perform_books [OF assms(1), of "(e, op)"]
        known_touches [OF perform_touches [of "(e, op)" d]]
      by (auto simp: boots_ok_def)
  next
    case (Boot_Begin tn)
    obtain w created d1 where g: "get_or_create_wallet tn d = ((w, created), d1)" by (metis prod.collapse)
    note b = books_create [OF g assms(1)]
    have "bs (tn_pk tn) = None" if created
      using b(4) [OF that] assms(2) unfolding boots_ok_def by (metis fst_conv snd_conv not_None_eq)
    then have u: "created \<Longrightarrow> unposted (bs(tn_pk tn \<mapsto> Boot_Created tn w)) = unposted bs"
      by (auto simp: unposted_def fun_eq_iff)
    show ?thesis
      using assms(2,3) ev Boot_Begin g b(1,2,3) wallet_of_tenant [OF b(2)] u
      by (auto simp: boots_ok_def split: if_splits)
  next
    case (Boot_Next t)
    show ?thesis
    proof (cases "bs t")
      case None
      then have "stray_step ev (d, bs) = (\<lambda>_. 0)" using ev Boot_Next by (simp add: fun_eq_iff)
      then show ?thesis using assms ev Boot_Next None by simp
    next
      case (Some b)
      then obtain x where x: "wallet_of t d = Some x" and ok: "boot_ok t b"
        using assms(2) by (auto simp: boots_ok_def)
      show ?thesis
      proof (cases b)
        case (Boot_Created tn w)
        have "unposted (bs(t \<mapsto> Boot_Computed tn (bootstrapped e tn d w))) = unposted bs"
          "stray_step ev (d, bs) = (\<lambda>_. 0)"
          using Some Boot_Created ev Boot_Next by (simp_all add: unposted_def fun_eq_iff)
        then show ?thesis
          using assms ev Boot_Next Some Boot_Created ok x by (auto simp: boots_ok_def split: if_splits)
      next
        case (Boot_Computed tn w)
        have w: "wl_tenant w = t" "0 \<le> wl_included w" "tn_pk tn = t" using ok Boot_Computed by simp_all
        obtain d1 where s: "save_bootstrap w d = Inr d1" and
          b1: "books_ok ((\<lambda>t. unposted bs t + g t)(t := unposted bs t + g t + (wl_included w - wl_included x))) d1" and
          k: "\<forall>u. wallet_of u d \<noteq> None \<longrightarrow> wallet_of u d1 \<noteq> None"
          using books_save [OF assms(1), of w x] w x by auto
        have eq: "(\<lambda>u. unposted (bs(t \<mapsto> Boot_Saved tn w)) u + (g u + stray_step ev (d, bs) u)) =
           (\<lambda>t. unposted bs t + g t)(t := unposted bs t + g t + (wl_included w - wl_included x))"
          using Some Boot_Computed ev Boot_Next x by (simp add: unposted_def fun_eq_iff)
        have "boots_ok (d1, bs(t \<mapsto> Boot_Saved tn w))"
          using assms(2) k w x by (simp add: boots_ok_def)
        moreover have sd: "d' = d1" "bs' = bs(t \<mapsto> Boot_Saved tn w)"
          using assms(3) ev Boot_Next Some Boot_Computed s by simp_all
        ultimately show ?thesis unfolding sd eq using b1 by simp
      next
        case (Boot_Saved tn w)
        have tn: "tn_pk tn = t" using ok Boot_Saved by simp
        have u: "unposted bs t = wl_included w" using Some Boot_Saved by (simp add: unposted_def)
        have bs: "boots_ok (d, bs(t := None))" using assms(2) by (simp add: boots_ok_def)
        show ?thesis
        proof (cases "post_bootstrap tn w d")
          case (Inl err)
          have s: "d' = d" "bs' = bs(t := None)" using assms(3) ev Boot_Next Some Boot_Saved Inl by simp_all
          have eq: "(\<lambda>u. unposted (bs(t := None)) u + (g u + stray_step ev (d, bs) u)) = (\<lambda>t. unposted bs t + g t)"
            using Some Boot_Saved ev Boot_Next Inl by (simp add: unposted_def fun_eq_iff is_ok_def)
          show ?thesis unfolding s eq using assms(1) bs by simp
        next
          case (Inr d1)
          have s: "d' = d1" "bs' = bs(t := None)" using assms(3) ev Boot_Next Some Boot_Saved Inr by simp_all
          have eq: "(\<lambda>u. unposted (bs(t := None)) u + (g u + stray_step ev (d, bs) u)) =
             (\<lambda>t. unposted bs t + g t)(t := unposted bs t + g t - wl_included w)"
            using Some Boot_Saved ev Boot_Next Inr by (simp add: unposted_def fun_eq_iff is_ok_def)
          have "wallet_of (tn_pk tn) d \<noteq> None" using x tn by simp
          note b1 = books_post_bootstrap [OF assms(1) Inr this]
          show ?thesis unfolding s eq using b1 bs tn by (simp add: boots_ok_def)
        qed
      qed
    qed
  next
    case (Boot_Lost t)
    have eq: "(\<lambda>u. unposted (bs(t := None)) u + (g u + stray_step ev (d, bs) u)) = (\<lambda>t. unposted bs t + g t)"
      using ev Boot_Lost by (simp add: unposted_def fun_eq_iff)
    have s: "d' = d" "bs' = bs(t := None)" using assms(3) ev Boot_Lost by simp_all
    show ?thesis unfolding s eq using assms(1,2) by (simp add: boots_ok_def)
  qed
qed

lemma events_books:
  assumes "books_ok (\<lambda>t. unposted bs t + g t) d" "boots_ok (d, bs)" "fold wallet_event_step evs (d, bs) = (d', bs')"
  shows "books_ok (\<lambda>t. unposted bs' t + (g t + stray evs (d, bs) t)) d' \<and> boots_ok (d', bs')"
  using assms
proof (induction evs arbitrary: d bs g)
  case (Cons ev evs)
  obtain d1 bs1 where s: "wallet_event_step ev (d, bs) = (d1, bs1)" by (metis prod.collapse)
  note b = event_books [OF Cons.prems(1,2) s]
  show ?case
    using Cons.IH [of bs1 "\<lambda>t. g t + stray_step ev (d, bs) t" d1] Cons.prems(3) b s by (simp add: add.assoc)
qed simp

text \<open>Without a bootstrap of its own outside a transaction a tenant has nothing unposted.\<close>

lemma no_bootstrap_no_stray:
  assumes "bs t = None" "\<forall>e tn. (e, Boot_Begin tn) \<in> set evs \<longrightarrow> tn_pk tn \<noteq> t"
    "fold wallet_event_step evs (d, bs) = (d', bs')"
  shows "stray evs (d, bs) t = 0 \<and> bs' t = None"
  using assms
proof (induction evs arbitrary: d bs)
  case (Cons ev evs)
  obtain d1 bs1 where s: "wallet_event_step ev (d, bs) = (d1, bs1)" by (metis prod.collapse)
  obtain e a where ev: "ev = (e, a)" by (cases ev)
  have "bs1 t = None" "stray_step ev (d, bs) t = 0"
    using s ev Cons.prems(1,2)
    by (cases a; auto simp: unposted_def split: prod.splits option.splits if_splits)+
  then show ?case using Cons.IH [of bs1 d1] Cons.prems s by simp
qed simp

text \<open>C37: The wallet books after any run: operations of any tenants that commit or roll back, interleaved
  with bootstraps that run outside a transaction, commit statement by statement and may be lost in
  between. No tenant has two wallets, no balance is negative, the purchased balance is the sum of its
  ledger rows, and the included balance is the sum of its ledger rows, what a bootstrap has saved and
  is about to post, and what bootstraps have strayed by: a grant whose poster was lost or refused,
  less what a late save overwrote. For a tenant whose wallet was not bootstrapped outside a
  transaction in the run, the included balance is the sum of its ledger rows.\<close>

theorem wallet_books_balance:
  assumes "books_ok (\<lambda>_. 0) d" "fold wallet_event_step evs (d, \<lambda>_. None) = (d', bs)"
  shows "distinct (map wl_tenant (d_wallets d')) \<and>
     (\<forall>w\<in>set (d_wallets d'). wallet_nonneg w \<and>
        wl_purchased w = ledger_sum (wl_tenant w) Bal_Purchased d' \<and>
        wl_included w = ledger_sum (wl_tenant w) Bal_Included d' + unposted bs (wl_tenant w) +
          stray evs (d, \<lambda>_. None) (wl_tenant w) \<and>
        ((\<forall>e tn. (e, Boot_Begin tn) \<in> set evs \<longrightarrow> tn_pk tn \<noteq> wl_tenant w) \<longrightarrow>
          wl_included w = ledger_sum (wl_tenant w) Bal_Included d'))"
proof -
  have "books_ok (\<lambda>t. unposted bs t + (0 + stray evs (d, \<lambda>_. None) t)) d'"
    using events_books [OF _ _ assms(2), of "\<lambda>_. 0"] assms(1) by (simp add: unposted_def boots_ok_def)
  moreover have "stray evs (d, \<lambda>_. None) t = 0 \<and> unposted bs t = 0"
    if "\<forall>e tn. (e, Boot_Begin tn) \<in> set evs \<longrightarrow> tn_pk tn \<noteq> t" for t
    using no_bootstrap_no_stray [OF _ that assms(2)] by (simp add: unposted_def)
  ultimately show ?thesis unfolding books_ok_def by auto
qed

theorem wallet_books_balance_witness:
  "\<exists>d' bs. fold wallet_event_step
       [(demo_env, Boot_Begin demo_tenant), (demo_env, Boot_Next 7),
        (demo_env, Committed (Op_Topup demo_tenant 500000 ''invoice:1'' ''pay'')),
        (demo_env, Boot_Next 7), (demo_env, Boot_Next 7)] (demo_db, \<lambda>_. None) = (d', bs) \<and>
     (\<forall>w\<in>set (d_wallets d'). wl_purchased w = ledger_sum (wl_tenant w) Bal_Purchased d')"
  (is "\<exists>d' bs. fold wallet_event_step ?evs (demo_db, \<lambda>_. None) = (d', bs) \<and> _")
proof -
  obtain d' bs where "fold wallet_event_step ?evs (demo_db, \<lambda>_. None) = (d', bs)"
    by (metis prod.collapse)
  from wallet_books_balance [OF demo_books this] this show ?thesis by blast
qed

text \<open>An undisturbed bootstrap outside a transaction runs through these steps and leaves nothing
  unposted.\<close>

lemma undisturbed_bootstrap:
  assumes "wallet_of (tn_pk tn) d = None" "ensure_wallet_outside (\<lambda>_ x. x) e tn d = (Inr w, d')"
  shows "fold wallet_event_step ((e, Boot_Begin tn) # replicate 3 (e, Boot_Next (tn_pk tn))) (d, bs) =
       (d', bs(tn_pk tn := None)) \<and>
     stray ((e, Boot_Begin tn) # replicate 3 (e, Boot_Next (tn_pk tn))) (d, bs) (tn_pk tn) = 0"
proof -
  let ?f = "fresh_wallet tn (next_pk wl_pk (d_wallets d))"
  have f: "wl_tenant ?f = tn_pk tn" "wl_included ?f = 0" by (simp_all add: fresh_wallet_def)
  show ?thesis
    using assms wallet_of_add_new [of ?f d] f
    by (auto simp: ensure_wallet_outside_def get_or_create_wallet_def Let_def numeral_3_eq_3 is_ok_def
        split: sum.splits)
qed

text \<open>A bootstrap lost between saving the wallet and posting its grant leaves a balance that no ledger
  row accounts for, and no later bootstrap posts it: the wallet exists.\<close>

lemma lost_bootstrap_is_unposted:
  "\<exists>d' bs w. fold wallet_event_step
       [(demo_env, Boot_Begin demo_tenant), (demo_env, Boot_Next 7), (demo_env, Boot_Next 7),
        (demo_env, Boot_Lost 7), (demo_env, Boot_Begin demo_tenant), (demo_env, Boot_Next 7)]
       (demo_db, \<lambda>_. None) = (d', bs) \<and>
     wallet_of 7 d' = Some w \<and> wl_included w = 50000000 \<and> ledger_sum 7 Bal_Included d' = 0"
  by (simp add: get_or_create_wallet_def wallet_of_def demo_defs Let_def fresh_wallet_def bootstrapped_def
      save_bootstrap_def put_wallet_def row_add_def row_put_def row_get_def next_pk_def effective_limit_def
      sub_of_def get_plan_def credits_of_int_def ledger_sum_def)

section \<open>Reservations are covered\<close>

text \<open>
  A session follows the reservations of tenant \<open>t\<close> that are open: the callers settle or release a
  reservation only while it is open. Operations of other tenants may interleave. \<open>None\<close> marks the
  end of the billing period (a new grant, or a reservation that finds the included credits
  expired), where included credits are withdrawn whether or not they are reserved.
\<close>

definition expiry_due :: "env \<Rightarrow> nat \<Rightarrow> db \<Rightarrow> bool" where
  "expiry_due e t d =
     (case wallet_of t d of
        None \<Rightarrow> False
      | Some w \<Rightarrow> (case wl_expires w of None \<Rightarrow> False | Some x \<Rightarrow> x < now e \<and> 0 < wl_included w))"

definition after :: "'a \<Rightarrow> err + 'a \<Rightarrow> 'a" where
  "after s r = (case r of Inl _ \<Rightarrow> s | Inr s' \<Rightarrow> s')"

definition session_step ::
    "nat \<Rightarrow> env \<times> wallet_op \<Rightarrow> reservation list \<times> db \<Rightarrow> (reservation list \<times> db) option" where
  "session_step t eo s =
     (let e = fst eo; open_rs = fst s; d = snd s in
      if op_tenant (snd eo) \<noteq> t then Some (open_rs, perform eo d)
      else case snd eo of
        Op_Grant _ _ _ _ \<Rightarrow> None
      | Op_Reserve tn a k \<Rightarrow>
          (if expiry_due e t d then None
           else case reserve e tn a k d of Inl _ \<Rightarrow> Some s | Inr (r, d') \<Rightarrow> Some (r # open_rs, d'))
      | Op_Settle tn r a \<Rightarrow>
          (if r \<in> set open_rs
           then case settle e tn r a d of Inl _ \<Rightarrow> Some s | Inr (_, d') \<Rightarrow> Some (remove1 r open_rs, d')
           else None)
      | Op_Release tn r \<Rightarrow>
          (if r \<in> set open_rs
           then case release tn r d of Inl _ \<Rightarrow> Some s | Inr d' \<Rightarrow> Some (remove1 r open_rs, d')
           else None)
      | _ \<Rightarrow> Some (open_rs, perform eo d))"

fun session ::
    "nat \<Rightarrow> (env \<times> wallet_op) list \<Rightarrow> reservation list \<times> db \<Rightarrow> (reservation list \<times> db) option" where
  "session t [] s = Some s"
| "session t (eo # eos) s = (case session_step t eo s of None \<Rightarrow> None | Some s' \<Rightarrow> session t eos s')"

definition reserved_total :: "reservation list \<Rightarrow> credits" where
  "reserved_total rs = sum_list (map rs_amount rs)"

text \<open>What is reserved covers the open reservations and is itself covered by the balances.\<close>

definition covers :: "reservation list \<Rightarrow> wallet \<Rightarrow> bool" where
  "covers rs w \<longleftrightarrow> reserved_total rs \<le> wl_reserved w \<and> wl_reserved w \<le> total_balance w"

definition session_ok :: "nat \<Rightarrow> reservation list \<times> db \<Rightarrow> bool" where
  "session_ok t s \<longleftrightarrow> books_ok (\<lambda>_. 0) (snd s) \<and>
     (\<forall>r\<in>set (fst s). 0 \<le> rs_amount r \<and> \<not> rs_unlimited r) \<and>
     (case wallet_of t (snd s) of None \<Rightarrow> fst s = [] | Some w \<Rightarrow> covers (fst s) w)"

lemma reserved_total_remove1:
  "r \<in> set rs \<Longrightarrow> reserved_total (remove1 r rs) = reserved_total rs - rs_amount r"
  unfolding reserved_total_def by (simp add: sum_list_map_remove1 [of r rs rs_amount])

lemma reserved_total_nonneg: "\<forall>r\<in>set rs. 0 \<le> rs_amount r \<Longrightarrow> 0 \<le> reserved_total rs"
  unfolding reserved_total_def by (intro sum_list_nonneg) auto

lemma ensure_old_or_new:
  assumes "ensure_wallet e tn d = Inr (w, d')"
  shows "wallet_of (tn_pk tn) d = Some w \<and> d' = d \<or>
     wallet_of (tn_pk tn) d = None \<and> wl_reserved w = 0 \<and> wallet_nonneg w"
  using assms by (auto simp: ensure_wallet_eq Let_def bind_ok_Inr_iff split: option.splits)

lemma ensure_covers:
  assumes "ensure_wallet e tn d = Inr (w, d')" "session_ok (tn_pk tn) (rs, d)"
  shows "covers rs w"
  using ensure_old_or_new [OF assms(1)] assms(2)
  by (auto simp: session_ok_def covers_def wallet_nonneg_def total_balance_def reserved_total_def)

lemma session_okI:
  assumes "books_ok (\<lambda>_. 0) d" "\<forall>r\<in>set rs. 0 \<le> rs_amount r \<and> \<not> rs_unlimited r" "wallet_of t d = Some w" "covers rs w"
  shows "session_ok t (rs, d)"
  using assms by (simp add: session_ok_def)

lemma session_ok_other:
  assumes "session_ok t (rs, d)" "touches u d d'" "u \<noteq> t" "books_ok (\<lambda>_. 0) d'"
  shows "session_ok t (rs, d')"
  using assms by (auto simp: session_ok_def touches_def split: option.splits)

lemma expire_not_due:
  assumes "expire_included_if_needed e w d = Inr (w', d')" "wallet_of t d = Some w" "\<not> expiry_due e t d"
  shows "w' = w \<and> d' = d"
  using assms by (auto simp: expire_included_if_needed_def expiry_due_def split: option.splits)

lemma bootstrap_expire_covers:
  assumes "expire_included_if_needed e w d = Inr (w', d')" "wl_reserved w = 0" "wallet_nonneg w"
  shows "wl_reserved w' = 0 \<and> wallet_nonneg w'"
  using assms
  by (auto simp: expire_included_if_needed_def Let_def bind_ok_Inr_iff wallet_nonneg_def
      split: option.splits if_splits)

lemma session_reserve:
  assumes "reserve e tn a k d = Inr (r, d')" "session_ok (tn_pk tn) (rs, d)" "\<not> expiry_due e (tn_pk tn) d"
  shows "session_ok (tn_pk tn) (r # rs, d')"
  using assms(1)
proof (cases rule: reserve_cases)
  case (1 q d0 w0 d1 w d2)
  let ?t = "tn_pk tn"
  have same: "d_wallets d0 = d_wallets d" "d_ledger d0 = d_ledger d"
    using reservation_key_frame [OF 1(1)] by auto
  have ok0: "books_ok (\<lambda>_. 0) d0" using assms(2) books_ok_cong [OF same] by (simp add: session_ok_def)
  have get: "wallet_of u d0 = wallet_of u d" for u using same by (simp add: wallet_of_def)
  have b1: "books_off (\<lambda>_. 0) ?t 0 0 d1" "wallet_of ?t d1 = Some w0" using ensured [OF 1(2) ok0] by auto
  have cov: "covers rs w"
  proof (cases "wallet_of ?t d0")
    case (Some x)
    then have "x = w0" "d1 = d0" using ensure_old_or_new [OF 1(2)] by auto
    then have "w = w0" using expire_not_due [OF 1(3)] Some assms(3) get by (simp add: expiry_due_def)
    then show ?thesis using Some \<open>x = w0\<close> assms(2) get by (simp add: session_ok_def)
  next
    case None
    then have "rs = []" using assms(2) get by (simp add: session_ok_def)
    moreover have "wl_reserved w = 0 \<and> wallet_nonneg w"
      using None ensure_old_or_new [OF 1(2)] bootstrap_expire_covers [OF 1(3)] by simp
    ultimately show ?thesis
      by (simp add: covers_def reserved_total_def wallet_nonneg_def total_balance_def)
  qed
  have b2: "books_off (\<lambda>_. 0) ?t 0 0 d2" "wallet_of ?t d2 = Some w" using expire_books [OF 1(3) b1] by auto
  let ?w = "w\<lparr>wl_reserved := wl_reserved w + max 0 a\<rparr>"
  have found: "wallet_of ?t d' = Some ?w"
    using books_post [OF b2 1(5)] books_off_nonneg [OF b2] wallet_of_tenant [OF b2(2)]
    by (simp add: wallet_nonneg_def)
  have "covers (r # rs) ?w"
    using cov 1(4) by (auto simp: covers_def reserved_total_def total_balance_def available_balance_def 1(6))
  moreover have "books_ok (\<lambda>_. 0) d'" using reserve_books [OF assms(1)] assms(2) by (simp add: session_ok_def books_off_iff)
  ultimately show ?thesis
    using assms(2) found by (intro session_okI) (auto simp: session_ok_def 1(6))
qed

lemma session_release:
  assumes "release tn r d = Inr d'" "session_ok (tn_pk tn) (rs, d)" "r \<in> set rs"
  shows "session_ok (tn_pk tn) (remove1 r rs, d')"
proof -
  let ?t = "tn_pk tn"
  have r: "0 \<le> rs_amount r" "\<not> rs_unlimited r" using assms(2,3) by (auto simp: session_ok_def)
  obtain w where w: "wallet_of ?t d = Some w"
    using assms(1) r(2) by (cases "wallet_of ?t d") (auto simp: release_def)
  let ?w = "w\<lparr>wl_reserved := wl_reserved w - min (wl_reserved w) (rs_amount r)\<rparr>"
  have t: "wl_tenant ?w = ?t" using wallet_of_tenant [OF w] by simp
  have "wallet_of ?t d' = wallet_of ?t (put_wallet ?w d)"
    using assms(1) r(2) w ledger_create_wallet_of(1) by (simp add: release_def Let_def)
  then have found: "wallet_of ?t d' = Some ?w" using w t by simp
  have cov: "covers rs w" using assms(2) w by (simp add: session_ok_def)
  have "wallet_nonneg w"
    using assms(2) w books_off_nonneg [of "\<lambda>_. 0" ?t 0 0 d] by (simp add: session_ok_def books_off_iff)
  then have "covers (remove1 r rs) ?w"
    using cov r(1) reserved_total_remove1 [OF assms(3)]
    by (auto simp: covers_def total_balance_def min_def wallet_nonneg_def)
  moreover have "books_ok (\<lambda>_. 0) d'" using release_books [OF assms(1)] assms(2) by (simp add: session_ok_def)
  ultimately show ?thesis
    using assms(2) found by (intro session_okI) (auto simp: session_ok_def dest: notin_set_remove1 set_mp [OF set_remove1_subset])
qed

lemma settle_wallet:
  assumes "settle e tn r a d = Inr (c, d')" "\<not> rs_unlimited r"
    "\<not> ledger_has (tn_pk tn) (rs_key r @ '':settled'') d"
  obtains w i p w1 s where "wallet_of (tn_pk tn) d = Some w" "settle_charge r (max 0 a) w = (i, p, w1)"
    "c = i + p" "wallet_of (tn_pk tn) d' = Some (w1\<lparr>wl_sent := s\<rparr>)"
proof -
  obtain w i p w1 w2 d1 d2 d3 where
    w: "wallet_of (tn_pk tn) d = Some w" and sc: "settle_charge r (max 0 a) w = (i, p, w1)" and
    s1: "notify_threshold_if_needed e w1 (put_wallet w1 d) = Inr (w2, d1)" and
    s2: "ledger_create_if (i \<noteq> 0) (charge_txn tn r Bal_Included '':charge:included'' i) d1 = Inr d2" and
    s3: "ledger_create_if (p \<noteq> 0) (charge_txn tn r Bal_Purchased '':charge:purchased'' p) d2 = Inr d3" and
    s4: "ledger_create \<lparr>tx_tenant = tn_pk tn, tx_kind = K_Release, tx_balance = Bal_Reserved,
        tx_amount = - rs_amount r, tx_key = rs_key r @ '':settled'', tx_reference = rs_key r\<rparr> d3 = Inr d'"
    and c: "c = i + p"
    using assms by (rule settle_cases)
  have t: "wl_tenant w1 = tn_pk tn"
    using settle_charge_tenant [of r "max 0 a" w] sc wallet_of_tenant [OF w] by simp
  have g: "wallet_of (tn_pk tn) (put_wallet w1 d) = Some w1" using w t by simp
  obtain s where s: "w2 = w1\<lparr>wl_sent := s\<rparr>" and
    d: "d_wallets d1 = d_wallets (put_wallet w1 d) \<and> w2 = w1 \<or>
        d_wallets d1 = row_put wl_tenant w2 (d_wallets (put_wallet w1 d))"
    using notify_shape [OF s1] by blast
  have "wallet_of (tn_pk tn) d1 = Some w2"
    using d g s t by (auto simp: wallet_of_def row_get_put)
  then have "wallet_of (tn_pk tn) d' = Some w2"
    using ledger_create_wallet_of(1) [OF s2] ledger_create_wallet_of(1) [OF s3]
      ledger_create_wallet_of(2) [OF s4] by simp
  then show thesis using that [OF w sc c] s by simp
qed

lemma session_settle:
  assumes "settle e tn r a d = Inr (c, d')" "session_ok (tn_pk tn) (rs, d)" "r \<in> set rs"
  shows "session_ok (tn_pk tn) (remove1 r rs, d')" "a \<le> rs_amount r \<Longrightarrow> c = max 0 a"
proof -
  let ?t = "tn_pk tn"
  have r: "0 \<le> rs_amount r" "\<not> rs_unlimited r" using assms(2,3) by (auto simp: session_ok_def)
  have ok: "books_ok (\<lambda>_. 0) d'" using settle_books [OF assms(1)] assms(2) by (simp add: session_ok_def)
  have rest: "\<forall>x\<in>set (remove1 r rs). 0 \<le> rs_amount x \<and> \<not> rs_unlimited x"
    using assms(2) by (auto simp: session_ok_def dest: set_mp [OF set_remove1_subset])
  have less: "reserved_total (remove1 r rs) = reserved_total rs - rs_amount r"
    by (rule reserved_total_remove1 [OF assms(3)])
  show "session_ok (tn_pk tn) (remove1 r rs, d')" "a \<le> rs_amount r \<Longrightarrow> c = max 0 a"
  proof (atomize (full), cases "ledger_has ?t (rs_key r @ '':settled'') d")
    case True
    then have "d' = d" "c = max 0 a" using settle_done [OF assms(1)] by auto
    moreover obtain w where "wallet_of ?t d = Some w" "covers rs w"
      using assms(2,3) by (cases "wallet_of ?t d") (auto simp: session_ok_def)
    moreover have "covers (remove1 r rs) w" using \<open>covers rs w\<close> less r(1) by (simp add: covers_def)
    ultimately show "session_ok (tn_pk tn) (remove1 r rs, d') \<and> (a \<le> rs_amount r \<longrightarrow> c = max 0 a)"
      using ok rest by (auto intro: session_okI)
  next
    case False
    obtain w i p w1 s where w: "wallet_of ?t d = Some w" and
      sc: "settle_charge r (max 0 a) w = (i, p, w1)" and c: "c = i + p" and
      w1: "wallet_of ?t d' = Some (w1\<lparr>wl_sent := s\<rparr>)"
      using assms(1) r(2) False by (rule settle_wallet)
    have cov: "covers rs w" using assms(2) w by (simp add: session_ok_def)
    have nn: "wallet_nonneg w"
      using assms(2) w books_off_nonneg [of "\<lambda>_. 0" ?t 0 0 d] by (simp add: session_ok_def books_off_iff)
    note f = settle_charge_facts [OF sc nn max.cobounded1]
    have room: "wl_reserved w1 \<le> total_balance w" "wl_reserved w1 \<le> wl_reserved w"
      using cov nn r(1) by (auto simp: f(4) covers_def wallet_nonneg_def total_balance_def)
    then have cp: "c = min (max 0 a) (total_balance w - wl_reserved w1)"
      using f(4,8) c by simp
    have tot: "total_balance w1 = total_balance w - c"
      by (simp add: total_balance_def f(1,2) c)
    have "covers (remove1 r rs) (w1\<lparr>wl_sent := s\<rparr>)"
      using cov less cp tot room by (auto simp: covers_def f(4) total_balance_def)
    moreover have "c = max 0 a" if "a \<le> rs_amount r"
    proof -
      have "max 0 a \<le> total_balance w - wl_reserved w1"
        using that r(1) cov nn less reserved_total_nonneg [of "remove1 r rs"] rest
        by (auto simp: f(4) covers_def wallet_nonneg_def total_balance_def)
      then show ?thesis using cp by simp
    qed
    ultimately show "session_ok (tn_pk tn) (remove1 r rs, d') \<and> (a \<le> rs_amount r \<longrightarrow> c = max 0 a)"
      using ok rest w1 by (auto intro: session_okI)
  qed
qed

lemma session_topup:
  assumes "topup e tn a k ref d = Inr (w', d')" "session_ok (tn_pk tn) (rs, d)"
  shows "session_ok (tn_pk tn) (rs, d')"
proof -
  obtain w d1 where en: "ensure_wallet e tn d = Inr (w, d1)"
    using assms(1) by (auto simp: topup_def bind_ok_Inr_iff)
  have ok: "books_ok (\<lambda>_. 0) d" using assms(2) by (simp add: session_ok_def)
  note b = ensured [OF en ok]
  have cov: "covers rs w" by (rule ensure_covers [OF en assms(2)])
  have rs: "\<forall>r\<in>set rs. 0 \<le> rs_amount r \<and> \<not> rs_unlimited r" using assms(2) by (simp add: session_ok_def)
  show ?thesis
  proof (cases "ledger_has (tn_pk tn) k d1")
    case True
    then have "d' = d1" using assms(1) en by (simp add: topup_def)
    then show ?thesis using b cov rs topup_books [OF assms(1) ok] by (auto intro: session_okI)
  next
    case False
    then have s: "ledger_create
        \<lparr>tx_tenant = tn_pk tn, tx_kind = K_Topup, tx_balance = Bal_Purchased, tx_amount = max 0 a,
         tx_key = k, tx_reference = ref\<rparr> (put_wallet (w\<lparr>wl_purchased := wl_purchased w + max 0 a\<rparr>) d1) = Inr d'"
      using assms(1) en by (auto simp: topup_def Let_def elim!: bind_ok_OkE)
    have "wallet_of (tn_pk tn) d' = Some (w\<lparr>wl_purchased := wl_purchased w + max 0 a\<rparr>)"
      using books_post [OF b(1,2) s] b(3,4) by (simp add: wallet_nonneg_def)
    moreover have "covers rs (w\<lparr>wl_purchased := wl_purchased w + max 0 a\<rparr>)"
      using cov by (auto simp: covers_def total_balance_def)
    ultimately show ?thesis using rs topup_books [OF assms(1) ok] by (auto intro: session_okI)
  qed
qed

lemma session_reverse:
  assumes "reverse_purchased e tn a k ref kind d = Inr (r, d')" "session_ok (tn_pk tn) (rs, d)"
  shows "session_ok (tn_pk tn) (rs, d')"
  using assms(1)
proof (cases rule: reverse_cases)
  case (seen w x)
  then show ?thesis
    using assms(2) ensure_wallet_found [OF seen(1)] ensure_covers [OF seen(1) assms(2)]
      reverse_books [OF assms(1)]
    by (intro session_okI) (auto simp: session_ok_def)
next
  case (fresh w d1)
  have ok: "books_ok (\<lambda>_. 0) d" using assms(2) by (simp add: session_ok_def)
  note b = ensured [OF fresh(1) ok]
  let ?w = "w\<lparr>wl_purchased := wl_purchased w - min (max 0 a) (reversible w)\<rparr>"
  have cov: "covers rs w" by (rule ensure_covers [OF fresh(1) assms(2)])
  have le: "min (max 0 a) (reversible w) \<le> wl_purchased w"
    using b(4) by (auto simp: wallet_nonneg_def reversible_def)
  have "wallet_of (tn_pk tn) d' = Some ?w"
    using books_post [OF b(1,2) fresh(4)] b(3,4) le by (simp add: wallet_nonneg_def)
  moreover have "covers rs ?w"
    using cov b(4) by (auto simp: covers_def total_balance_def reversible_def wallet_nonneg_def)
  ultimately show ?thesis
    using assms(2) reverse_books [OF assms(1) ok] by (intro session_okI) (auto simp: session_ok_def)
qed

lemma session_sync:
  assumes "sync_included_limit e tn d = Inr (w', d')" "session_ok (tn_pk tn) (rs, d)"
  shows "session_ok (tn_pk tn) (rs, d')"
  using assms(1)
proof (cases rule: sync_cases)
  case (1 w d1 d2 u)
  have ok: "books_ok (\<lambda>_. 0) d" using assms(2) by (simp add: session_ok_def)
  note b = ensured [OF 1(1) ok]
  have b2: "books_off (\<lambda>_. 0) (tn_pk tn) 0 0 d2" "wallet_of (tn_pk tn) d2 = Some w"
    using b(1,2) 1(2,3) books_off_cong [of d2 d1] by (simp_all add: wallet_of_def)
  have nn: "wallet_nonneg w'" using b(4) 1(4) by (simp add: wallet_nonneg_def synced_included_def)
  have "wallet_of (tn_pk tn) d' = Some w'"
    using books_post_if [OF b2 1(5) _ nn] b(3) 1(4) by simp
  moreover have "covers rs w'"
    using ensure_covers [OF 1(1) assms(2)] 1(4)
    by (auto simp: covers_def total_balance_def synced_included_def)
  ultimately show ?thesis
    using assms(2) sync_books [OF assms(1) ok] by (intro session_okI) (auto simp: session_ok_def)
qed

lemma session_ensure:
  assumes "ensure_wallet e tn d = Inr (w, d')" "session_ok (tn_pk tn) (rs, d)"
  shows "session_ok (tn_pk tn) (rs, d')"
  using assms(2) ensured [OF assms(1)] ensure_covers [OF assms]
  by (intro session_okI) (auto simp: session_ok_def books_off_iff)

lemma perform_cases:
  "perform (e, op) d = d \<or> wallet_step e op d = Inr (perform (e, op) d)"
  by (simp add: perform_def split: sum.splits)

lemma session_perform:
  assumes "session_ok t (rs, d)" "op_tenant op = t"
    "op = Op_Ensure tn \<or> op = Op_Sync tn \<or> op = Op_Topup tn a k ref \<or> op = Op_Reverse tn a k ref kind"
  shows "session_ok t (rs, perform (e, op) d)"
  using perform_cases [of e op d]
proof
  assume "perform (e, op) d = d"
  then show ?thesis using assms(1) by simp
next
  assume "wallet_step e op d = Inr (perform (e, op) d)"
  then show ?thesis
    using assms session_ensure session_sync session_topup session_reverse
    by (elim disjE) (auto simp: db_of_Inr_iff)
qed

lemma session_step_ok:
  assumes "session_step t eo s = Some s'" "session_ok t s"
  shows "session_ok t s'"
proof -
  obtain e op where eo: "eo = (e, op)" by (cases eo)
  obtain rs d where s: "s = (rs, d)" by (cases s)
  have ok: "session_ok t (rs, d)" using assms(2) s by simp
  show ?thesis
  proof (cases "op_tenant op = t")
    case False
    have "session_ok t (rs, perform (e, op) d)"
      using session_ok_other [OF ok perform_touches [of "(e, op)"]] False perform_books ok
      by (simp add: session_ok_def)
    then show ?thesis using assms(1) False by (simp add: session_step_def Let_def eo s)
  next
    case True
    show ?thesis
    proof (cases op)
      case (Op_Ensure tn)
      then show ?thesis
        using assms(1) True session_perform [OF ok True, of tn] by (auto simp: session_step_def eo s)
    next
      case (Op_Reserve tn a k)
      then show ?thesis
        using assms True ok session_reserve [of e tn a k d]
        by (auto simp: session_step_def eo s Let_def split: if_splits sum.splits)
    next
      case (Op_Release tn r)
      then show ?thesis
        using assms True ok session_release [of tn r d]
        by (auto simp: session_step_def eo s Let_def split: if_splits sum.splits)
    next
      case (Op_Settle tn r a)
      then show ?thesis
        using assms True ok session_settle(1) [of e tn r a d]
        by (auto simp: session_step_def eo s Let_def split: if_splits sum.splits)
    next
      case (Op_Grant tn a p k)
      then show ?thesis using assms(1) True by (simp add: session_step_def eo s)
    next
      case (Op_Sync tn)
      then show ?thesis
        using assms(1) True session_perform [OF ok True, of tn] by (auto simp: session_step_def eo s)
    next
      case (Op_Topup tn a k ref)
      then show ?thesis
        using assms(1) True session_perform [OF ok True, of tn a k ref] by (auto simp: session_step_def eo s)
    next
      case (Op_Reverse tn a k ref kind)
      then show ?thesis
        using assms(1) True session_perform [OF ok True, of tn a k ref kind] by (auto simp: session_step_def eo s)
    qed
  qed
qed

lemma session_ok_run:
  "session t eos s = Some s' \<Longrightarrow> session_ok t s \<Longrightarrow> session_ok t s'"
  by (induction eos arbitrary: s) (auto split: option.splits dest: session_step_ok)

text \<open>An open reservation is always paid for: within a billing period, after any session of
  reservations, settlements, releases, top-ups, payment reversals and limit changes of the tenant,
  interleaved with any operations of other tenants, settling an open reservation at a cost not
  above its amount charges exactly that cost, never less, and never out of credits that other open
  reservations need: what is left still covers them.\<close>

theorem open_reservation_is_paid:
  assumes "session t eos ([], d) = Some (rs, d1)" "books_ok (\<lambda>_. 0) d" 
      "case wallet_of t d of None \<Rightarrow> True | Some w \<Rightarrow> wl_reserved w \<le> total_balance w"
    and "r \<in> set rs" "a \<le> rs_amount r" "settle e tn r a d1 = Inr (c, d2)" "tn_pk tn = t"
  shows "c = max 0 a \<and> (\<exists>w. wallet_of t d2 = Some w \<and>
     reserved_total (remove1 r rs) \<le> wl_reserved w \<and> wl_reserved w \<le> total_balance w)"
proof -
  have "session_ok t ([], d)"
    using assms(2,3) books_off_nonneg [of "\<lambda>_. 0" t 0 0 d]
    by (auto simp: session_ok_def covers_def reserved_total_def books_off_iff wallet_nonneg_def split: option.splits)
  then have ok: "session_ok (tn_pk tn) (rs, d1)" using session_ok_run [OF assms(1)] assms(7) by simp
  have "c = max 0 a" by (rule session_settle(2) [OF assms(6) ok assms(4,5)])
  moreover have "session_ok t (remove1 r rs, d2)"
    using session_settle(1) [OF assms(6) ok assms(4)] assms(7) by simp
  moreover have "wallet_of t d2 \<noteq> None"
  proof (cases "ledger_has t (rs_key r @ '':settled'') d1")
    case True
    then have "d2 = d1" using settle_done [OF assms(6)] assms(7) by simp
    then show ?thesis using ok assms(4,7) by (auto simp: session_ok_def split: option.splits)
  next
    case False
    have "\<not> rs_unlimited r" using ok assms(4) by (auto simp: session_ok_def)
    then show ?thesis using settle_wallet [OF assms(6)] False assms(7) by auto
  qed
  ultimately show ?thesis by (auto simp: session_ok_def covers_def)
qed

definition demo_wallet :: "credits \<Rightarrow> credits \<Rightarrow> credits \<Rightarrow> wallet" where
  "demo_wallet inc pur res = \<lparr>wl_pk = 1, wl_tenant = 7, wl_included = inc, wl_limit = 50000000,
     wl_purchased = pur, wl_reserved = res, wl_expires = Some (day_end demo_env (Date 2026 2 15)), wl_sent = []\<rparr>"

definition demo_reservation :: reservation where
  "demo_reservation = \<lparr>rs_key = ''op:1'', rs_amount = 120000, rs_unlimited = False\<rparr>"

definition demo_reserved_db :: db where
  "demo_reserved_db = demo_topup_db\<lparr>d_wallets := [demo_wallet 50000000 500000 120000],
     d_ledger := d_ledger demo_topup_db @
       [\<lparr>tx_tenant = 7, tx_kind = K_Reserve, tx_balance = Bal_Reserved, tx_amount = 120000,
         tx_key = ''op:1'', tx_reference = []\<rparr>]\<rparr>"

definition demo_settled_db :: db where
  "demo_settled_db = demo_topup_db\<lparr>d_wallets := [demo_wallet 49930000 500000 0],
     d_ledger := d_ledger demo_reserved_db @
       [charge_txn demo_tenant demo_reservation Bal_Included '':charge:included'' 70000,
        \<lparr>tx_tenant = 7, tx_kind = K_Release, tx_balance = Bal_Reserved, tx_amount = - 120000,
         tx_key = ''op:1:settled'', tx_reference = ''op:1''\<rparr>]\<rparr>"

lemma demo_wallets:
  "wallet_of 7 demo_topup_db = Some (demo_wallet 50000000 500000 0)"
  "wallet_of 7 demo_reserved_db = Some (demo_wallet 50000000 500000 120000)"
  by (simp_all add: wallet_of_def demo_topup_db_def demo_reserved_db_def demo_wallet_def)

lemma demo_not_expired: "day_end demo_env (Date 2026 2 15) = 1771189199999999" "now demo_env = 1770000000000000"
  by (simp_all add: demo_env_def to_ordinal_def days_before_year_def days_before_month_def leap_def)

lemma sample_reserve:
  "reserve demo_env demo_tenant 120000 (Some ''op:1'') demo_topup_db = Inr (demo_reservation, demo_reserved_db)"
  by (simp add: reserve_def reservation_key_def ensure_wallet_eq demo_tenant_def wallet_of_def
      expire_included_if_needed_def demo_wallet_def demo_not_expired available_balance_def
      total_balance_def ledger_create_def ledger_has_def put_wallet_def demo_reserved_db_def
      demo_topup_db_def demo_reservation_def)

lemma sample_settle:
  "settle demo_env demo_tenant demo_reservation 70000 demo_reserved_db = Inr (70000, demo_settled_db)"
  by (simp add: settle_def settle_charge_def demo_tenant_def wallet_of_def demo_wallet_def
      ledger_has_def ledger_create_if_def ledger_create_def put_wallet_def demo_reserved_db_def
      demo_topup_db_def demo_settled_db_def demo_reservation_def charge_txn_def
      notify_threshold_if_needed_def unsent_thresholds_def reached_thresholds_def
      warning_thresholds_def percent_reached_def used_credits_def)

lemma sample_session:
  "session 7 [(demo_env, Op_Reserve demo_tenant 120000 (Some ''op:1''))] ([], demo_topup_db) =
     Some ([demo_reservation], demo_reserved_db)"
  by (simp add: session_step_def sample_reserve expiry_due_def demo_wallets)
    (simp add: demo_tenant_def demo_wallet_def demo_not_expired)

lemma demo_topup_books: "books_ok (\<lambda>_. 0) demo_topup_db"
  by (rule wallet_step_books [OF sample_topup demo_books])

theorem open_reservation_is_paid_witness:
  "\<exists>w. wallet_of 7 demo_settled_db = Some w \<and> wl_reserved w \<le> total_balance w"
  using open_reservation_is_paid [OF sample_session demo_topup_books _ _ _ sample_settle]
  by (auto simp: demo_wallets demo_wallet_def total_balance_def demo_reservation_def demo_tenant_def)

section \<open>Postings under an idempotency key\<close>

datatype posting =
    Post_Topup credits string
  | Post_Grant "credits option" "date option"
  | Post_Reverse credits string txn_kind

definition posting_seen :: "tenant \<times> string \<Rightarrow> db \<Rightarrow> bool" where
  "posting_seen k d \<longleftrightarrow> wallet_of (tn_pk (fst k)) d \<noteq> None \<and> ledger_has (tn_pk (fst k)) (snd k) d"

fun post :: "tenant \<times> string \<Rightarrow> env \<times> posting \<Rightarrow> db \<Rightarrow> err + db" where
  "post k (e, Post_Topup a ref) d = db_of (topup e (fst k) a (snd k) ref d)"
| "post k (e, Post_Grant a p) d = db_of (grant_included e (fst k) a p (snd k) d)"
| "post k (e, Post_Reverse a ref kind) d = db_of (reverse_purchased e (fst k) a (snd k) ref kind d)"

lemma touches_keeps:
  assumes "touches u d d'" "ledger_has t k d" shows "ledger_has t k d'"
  using assms by (auto simp: touches_def ledger_has_def)

lemma ledger_created: "ledger_create x d = Inr d' \<Longrightarrow> ledger_has (tx_tenant x) (tx_key x) d'"
  by (auto simp: ledger_create_Inr ledger_has_def)

lemma ensure_known: "ensure_wallet e tn d = Inr (w, d') \<Longrightarrow> wallet_of t d \<noteq> None \<Longrightarrow> wallet_of t d' \<noteq> None"
  using ensure_wallet_found [of e tn d w d'] touches_ensure [of e tn d w d']
  by (cases "t = tn_pk tn") (auto simp: touches_def)

lemma ensure_present:
  "wallet_of (tn_pk tn) d \<noteq> None \<Longrightarrow> ensure_wallet e tn d = Inr (the (wallet_of (tn_pk tn) d), d)"
  by (auto simp: ensure_wallet_eq)

lemma ledger_create_known:
  "ledger_create x d = Inr d' \<Longrightarrow> wallet_of t d \<noteq> None \<Longrightarrow> wallet_of t d' \<noteq> None"
  "ledger_create_if c x d = Inr d' \<Longrightarrow> wallet_of t d \<noteq> None \<Longrightarrow> wallet_of t d' \<noteq> None"
  using ledger_create_wallet_of by simp_all

lemma topup_seen:
  assumes "topup e tn a k ref d = Inr (w', d')"
  shows "posting_seen (tn, k) d'"
proof -
  obtain w d1 where en: "ensure_wallet e tn d = Inr (w, d1)"
    using assms(1) by (auto simp: topup_def bind_ok_Inr_iff)
  show ?thesis
    using assms en ensure_wallet_found [OF en] wallet_of_put_known [of "tn_pk tn" d1]
    by (auto simp: topup_def Let_def posting_seen_def elim!: bind_ok_OkE dest: ledger_created ledger_create_known(1)
        split: if_splits)
qed

lemma reverse_seen:
  assumes "reverse_purchased e tn a k ref kind d = Inr (r, d')"
  shows "posting_seen (tn, k) d'"
  using assms
proof (cases rule: reverse_cases)
  case (seen w x)
  then have "ledger_has (tn_pk tn) k d'" using ledger_row_has [of "tn_pk tn" k d'] by auto
  then show ?thesis using ensure_wallet_found [OF seen(1)] by (simp add: posting_seen_def)
next
  case (fresh w d1)
  then show ?thesis
    using ledger_created [OF fresh(4)] ledger_create_known(1) [OF fresh(4)] wallet_of_put_known
      ensure_wallet_found [OF fresh(1)]
    by (simp add: posting_seen_def)
qed

lemma grant_seen:
  assumes "grant_included e tn a p k d = Inr (w', d')"
  shows "posting_seen (tn, k) d'"
proof -
  obtain w d1 where en: "ensure_wallet e tn d = Inr (w, d1)"
    using assms(1) by (auto simp: grant_included_def bind_ok_Inr_iff)
  have known: "wallet_of (tn_pk tn) d1 \<noteq> None" using ensure_wallet_found [OF en] by simp
  show ?thesis
  proof (cases "ledger_has (tn_pk tn) k d1")
    case True
    then show ?thesis using assms en known by (simp add: grant_included_def posting_seen_def)
  next
    case False
    let ?g = "case a of None \<Rightarrow> 0 | Some a \<Rightarrow> max 0 a"
    let ?w = "w\<lparr>wl_limit := ?g, wl_included := ?g, wl_expires := map_option (day_end e) p, wl_sent := []\<rparr>"
    let ?x = "\<lparr>tx_tenant = tn_pk tn, tx_kind = K_Grant, tx_balance = Bal_Included,
                 tx_amount = ?g, tx_key = k, tx_reference = ''subscription-period''\<rparr>"
    obtain c x d2 where s1: "ledger_create_if c x d1 = Inr d2" and
      s2: "ledger_create ?x (put_wallet ?w d2) = Inr d'"
      using assms(1) en False
      by (simp add: grant_included_def Let_def) (auto elim!: bind_ok_OkE)
    have "wallet_of (tn_pk tn) d2 \<noteq> None" using ledger_create_known(2) [OF s1 known] .
    then show ?thesis
      using ledger_created [OF s2] ledger_create_known(1) [OF s2] wallet_of_put_known
      by (simp add: posting_seen_def)
  qed
qed

lemma post_seen: "post k ep d = Inr d' \<Longrightarrow> posting_seen k d'"
  by (cases k; cases ep; cases "snd ep")
    (auto simp: db_of_Inr_iff dest: topup_seen grant_seen reverse_seen)

lemma post_touches: "post k ep d = Inr d' \<Longrightarrow> touches (tn_pk (fst k)) d d'"
  by (cases ep; cases "snd ep")
    (auto simp: db_of_Inr_iff dest: touches_topup touches_grant touches_reverse)

lemma post_repeat:
  assumes "posting_seen k d" "post k ep d = Inr d'" shows "d' = d"
proof -
  obtain e p where ep: "ep = (e, p)" by (cases ep)
  have en: "ensure_wallet e (fst k) d = Inr (the (wallet_of (tn_pk (fst k)) d), d)" for e
    using assms(1) by (intro ensure_present) (simp add: posting_seen_def)
  have has: "ledger_has (tn_pk (fst k)) (snd k) d" using assms(1) by (simp add: posting_seen_def)
  then obtain x where "ledger_row (tn_pk (fst k)) (snd k) d = Some x"
    using ledger_row_has by fastforce
  then show ?thesis
    using assms(2) en has
    by (cases p) (auto simp: ep db_of_Inr_iff topup_def grant_included_def reverse_purchased_def)
qed

interpretation postings: keyed_operation posting_seen post
proof
  fix k a s s'
  assume p: "post k a s = Inr s'"
  show "posting_seen k s'" using p by (rule post_seen)
  show "s' = s" if "posting_seen k s" using that p by (rule post_repeat)
  show "posting_seen j s'" if "posting_seen j s" for j
  proof (cases "tn_pk (fst j) = tn_pk (fst k)")
    case True
    then show ?thesis
      using that touches_keeps [OF post_touches [OF p]] post_seen [OF p] by (simp add: posting_seen_def)
  next
    case False
    then show ?thesis
      using that touches_keeps [OF post_touches [OF p]] post_touches [OF p]
      by (simp add: posting_seen_def touches_def)
  qed
qed

text \<open>C38: Top-ups, period grants and payment reversals are exactly-once per tenant and key: when
  one of them has succeeded, delivering it again under its key, after any other postings in
  between and whatever the amounts of the repetition, changes nothing.\<close>

theorem posting_exactly_once:
  assumes "post k ep d = Inr d'"
  shows "postings.deliver (k, ep') (fold postings.deliver ds d') = fold postings.deliver ds d'"
  using assms by (rule postings.exactly_once)

lemma sample_post:
  "post (demo_tenant, ''invoice:1'') (demo_env, Post_Topup 500000 ''pay'') demo_db = Inr demo_topup_db"
  using sample_topup by simp

theorem posting_exactly_once_witness:
  "postings.deliver ((demo_tenant, ''invoice:1''), (demo_env, Post_Topup 500000 ''pay''))
     (fold postings.deliver [] demo_topup_db) = fold postings.deliver [] demo_topup_db"
  by (rule posting_exactly_once [OF sample_post])

section \<open>Settling twice\<close>

definition settled_seen :: "tenant \<times> reservation \<Rightarrow> db \<Rightarrow> bool" where
  "settled_seen tr d \<longleftrightarrow> rs_unlimited (snd tr) \<or>
     wallet_of (tn_pk (fst tr)) d \<noteq> None \<and> ledger_has (tn_pk (fst tr)) (rs_key (snd tr) @ '':settled'') d"

definition settle_op :: "tenant \<times> reservation \<Rightarrow> env \<times> credits \<Rightarrow> db \<Rightarrow> err + db" where
  "settle_op tr a d = db_of (settle (fst a) (fst tr) (snd tr) (snd a) d)"

lemma settle_records:
  assumes "settle e tn r a d = Inr (c, d')" shows "settled_seen (tn, r) d'"
proof (cases "rs_unlimited r \<or> ledger_has (tn_pk tn) (rs_key r @ '':settled'') d")
  case True
  then show ?thesis
    using assms settle_done [OF assms True]
    by (cases "wallet_of (tn_pk tn) d") (auto simp: settled_seen_def settle_def Let_def split: if_splits)
next
  case False
  then have n: "\<not> rs_unlimited r" "\<not> ledger_has (tn_pk tn) (rs_key r @ '':settled'') d" by auto
  obtain d3 where "ledger_create \<lparr>tx_tenant = tn_pk tn, tx_kind = K_Release, tx_balance = Bal_Reserved,
        tx_amount = - rs_amount r, tx_key = rs_key r @ '':settled'', tx_reference = rs_key r\<rparr> d3 = Inr d'"
    using assms n by (rule settle_cases)
  then have "ledger_has (tn_pk tn) (rs_key r @ '':settled'') d'" using ledger_created by fastforce
  moreover have "wallet_of (tn_pk tn) d' \<noteq> None" using settle_wallet [OF assms n] by auto
  ultimately show ?thesis by (simp add: settled_seen_def)
qed

interpretation settlements: keyed_operation settled_seen settle_op
proof
  fix k a s s'
  assume "settle_op k a s = Inr s'"
  then obtain c where st: "settle (fst a) (fst k) (snd k) (snd a) s = Inr (c, s')"
    by (auto simp: settle_op_def db_of_Inr_iff)
  have seen: "settled_seen k s'" using settle_records [OF st] by simp
  show "settled_seen k s'" by (rule seen)
  show "s' = s" if "settled_seen k s"
    using that settle_done [OF st] by (auto simp: settled_seen_def)
  show "settled_seen j s'" if j: "settled_seen j s" for j
  proof -
    have "wallet_of (tn_pk (fst j)) s' \<noteq> None" if "wallet_of (tn_pk (fst j)) s \<noteq> None"
    proof (cases "tn_pk (fst j) = tn_pk (fst k)")
      case True
      then show ?thesis
        using seen that settle_done [OF st] by (auto simp: settled_seen_def)
    next
      case False
      then show ?thesis using that touches_settle [OF st] by (simp add: touches_def)
    qed
    then show ?thesis using j touches_keeps [OF touches_settle [OF st]] by (auto simp: settled_seen_def)
  qed
qed

text \<open>A reservation is settled once: after a successful settlement, settling it again with any
  cost, after any other settlements, changes nothing.\<close>

theorem settle_exactly_once:
  assumes "settle_op tr a d = Inr d'"
  shows "settlements.deliver (tr, b) (fold settlements.deliver ds d') = fold settlements.deliver ds d'"
  using assms by (rule settlements.exactly_once)

lemma sample_settle_op:
  "settle_op (demo_tenant, demo_reservation) (demo_env, 70000) demo_reserved_db = Inr demo_settled_db"
  using sample_settle by (simp add: settle_op_def db_of_def)

theorem settle_exactly_once_witness:
  "settlements.deliver ((demo_tenant, demo_reservation), (demo_env, 90000))
     (fold settlements.deliver [] demo_settled_db) = fold settlements.deliver [] demo_settled_db"
  by (rule settle_exactly_once [OF sample_settle_op])

section \<open>Summaries agree\<close>

lemma pk_irrelevant:
  "used_credits (w\<lparr>wl_pk := k\<rparr>) = used_credits w"
  "percent_reached (w\<lparr>wl_pk := k\<rparr>) x = percent_reached w x"
  "percent_hundredths (w\<lparr>wl_pk := k\<rparr>) = percent_hundredths w"
  "total_balance (w\<lparr>wl_pk := k\<rparr>) = total_balance w"
  "available_balance (w\<lparr>wl_pk := k\<rparr>) = available_balance w"
  by (simp_all add: used_credits_def percent_reached_def percent_hundredths_def total_balance_def
      available_balance_def)

lemma summarize_pk: "summarize_wallet tn (w\<lparr>wl_pk := k\<rparr>) = summarize_wallet tn w"
  by (simp add: summarize_wallet_def threshold_state_def pk_irrelevant)

text \<open>With nothing committed in between, bootstrapping outside a transaction returns and stores what
  it does inside one.\<close>

lemma ensure_outside_alone:
  assumes "\<And>n x. h n x = x"
  shows "ensure_wallet_outside h e tn d = (Inr w, d') \<longleftrightarrow> ensure_wallet e tn d = Inr (w, d')"
  by (simp add: ensure_wallet_outside_def ensure_wallet_def Let_def assms bind_ok_def
      split: prod.splits bool.splits sum.splits)

lemma bootstrap_is_projected: "bootstrap_wallet e tn k d = (projected_wallet e tn d)\<lparr>wl_pk := k\<rparr>"
  by (simp add: bootstrap_wallet_def projected_wallet_def bootstrapped_def fresh_wallet_def Let_def
      split: option.splits)

lemma projected_summary:
  assumes "ensure_wallet e tn d = Inr (w, d')" "wallet_of (tn_pk tn) d = None"
  shows "summarize_wallet tn w = summarize_wallet tn (projected_wallet e tn d)"
proof -
  have "w = bootstrap_wallet e tn (next_pk wl_pk (d_wallets d)) d"
    using assms by (auto simp: ensure_wallet_eq Let_def bind_ok_Inr_iff)
  then show ?thesis by (simp add: bootstrap_is_projected summarize_pk)
qed

lemma summary_cases:
  assumes "summary h e tn d = (Inr s, d')"
  obtains w d1 w2 where "ensure_wallet_outside h e tn d = (Inr w, d1)" "d' = h 3 d1"
    "wallet_of (wl_tenant w) d' = Some w2" "s = summarize_wallet tn w2"
  using assms by (auto simp: summary_def Let_def split: prod.splits sum.splits option.splits)

lemma outside_tenant:
  assumes "ensure_wallet_outside h e tn d = (Inr w, d')"
  shows "wl_tenant w = tn_pk tn"
  using assms wallet_of_tenant
  by (auto simp: ensure_wallet_outside_def get_or_create_wallet_def fresh_wallet_def Let_def
      split: prod.splits bool.splits sum.splits option.splits if_splits)

text \<open>C39: The read-only summary of the wallet page agrees with the summary that bootstraps the wallet.
  Whatever other processes commit between the statements of the bootstrap, the read-only summary
  afterwards shows what the bootstrapping summary answered; and when none of them commits anything in
  between, it already showed those numbers before the wallet existed, from a computation of its
  own.\<close>

theorem read_only_summary_agrees:
  assumes "summary h e tn d = (Inr s, d')"
  shows "read_only_summary e' tn d' = s \<and> ((\<forall>n x. h n x = x) \<longrightarrow> read_only_summary e tn d = s)"
proof -
  obtain w d1 w2 where s: "ensure_wallet_outside h e tn d = (Inr w, d1)" "d' = h 3 d1"
    "wallet_of (wl_tenant w) d' = Some w2" "s = summarize_wallet tn w2"
    using assms by (rule summary_cases)
  have t: "wl_tenant w = tn_pk tn" using s(1) by (rule outside_tenant)
  have "read_only_summary e tn d = s" if "\<forall>n x. h n x = x"
  proof -
    have en: "ensure_wallet e tn d = Inr (w, d1)" and d': "d' = d1"
      using s(1,2) that ensure_outside_alone [of h] by auto
    then have w2: "w2 = w" using s(3) t ensure_wallet_found [OF en] by simp
    show ?thesis
    proof (cases "wallet_of (tn_pk tn) d")
      case None
      then show ?thesis using projected_summary [OF en None] s(4) w2 by (simp add: read_only_summary_def)
    next
      case (Some x)
      then show ?thesis using en s(4) w2 by (simp add: read_only_summary_def ensure_wallet_eq)
    qed
  qed
  then show ?thesis using s(3,4) t by (simp add: read_only_summary_def)
qed

theorem read_only_summary_agrees_witness:
  "\<exists>s d'. summary (\<lambda>_ x. x) demo_env demo_tenant demo_db = (Inr s, d') \<and>
     read_only_summary demo_env demo_tenant demo_db = s"
proof -
  have "is_ok (ensure_wallet demo_env demo_tenant demo_db)"
    by (simp add: ensure_wallet_eq wallet_of_def demo_defs Let_def bootstrapped_def fresh_wallet_def
        bootstrap_wallet_def next_pk_def effective_limit_def sub_of_def get_plan_def credits_of_int_def
        ledger_create_if_def ledger_create_def ledger_has_def bootstrap_key_def str_nat.simps digit_def)
  then obtain w d' where en: "ensure_wallet demo_env demo_tenant demo_db = Inr (w, d')" by (auto elim: is_okE)
  then have "ensure_wallet_outside (\<lambda>_ x. x) demo_env demo_tenant demo_db = (Inr w, d')"
    by (simp add: ensure_outside_alone)
  then have "summary (\<lambda>_ x. x) demo_env demo_tenant demo_db = (Inr (summarize_wallet demo_tenant w), d')"
    using ensure_wallet_found [OF en] ensured_tenant [OF en] by (simp add: summary_def Let_def)
  from read_only_summary_agrees [OF this] this show ?thesis by blast
qed

section \<open>Notifications\<close>

lemma reached_sent [simp]: "reached_thresholds (w\<lparr>wl_sent := s\<rparr>) = reached_thresholds w"
  by (simp add: reached_thresholds_def percent_reached_def used_credits_def cong: filter_cong)

lemma enqueue_outbox:
  assumes "enqueue t ty k p i d = Inr (ev, d')"
  shows "d_outbox d' = d_outbox d \<or> d_outbox d' = d_outbox d @ [ev] \<and> ob_payload ev = p \<and> ob_tenant ev = t"
  using assms by (auto simp: enqueue_def fresh_uuid_def new_event_def Let_def split: if_splits option.splits)

text \<open>The largest threshold that is reached and was not announced before.\<close>

definition announced :: "wallet \<Rightarrow> int \<Rightarrow> bool" where
  "announced w threshold \<longleftrightarrow> threshold \<in> set (unsent_thresholds w) \<and>
     (\<forall>u\<in>set (unsent_thresholds w). u \<le> threshold)"

lemma notify_effect:
  assumes "notify_threshold_if_needed e w d = Inr (w', d')"
  shows "unsent_thresholds w' = [] \<and>
     (d_outbox d' = d_outbox d \<or>
      (\<exists>ev threshold. d_outbox d' = d_outbox d @ [ev] \<and> announced w threshold \<and> ob_tenant ev = wl_tenant w \<and>
         ob_payload ev = notification_payload (threshold_level threshold) (threshold_message threshold w') []))"
proof (cases "unsent_thresholds w = []")
  case True
  then show ?thesis using assms by (simp add: notify_threshold_if_needed_def)
next
  case False
  let ?w = "w\<lparr>wl_sent := sort (remdups (wl_sent w @ reached_thresholds w))\<rparr>"
  let ?t = "Max (set (unsent_thresholds w))"
  obtain ev where en: "enqueue_notification (wl_tenant w) (threshold_level ?t) (threshold_message ?t ?w)
      (threshold_key e ?t ?w) None [] (put_wallet ?w d) = Inr (ev, d')" and w': "w' = ?w"
    using assms unfolding notify_threshold_if_needed_def if_not_P [OF False] Let_def split_beta bind_ok_Inr_iff
    by (metis Inr_inject fst_conv prod.collapse snd_conv)
  have "announced w ?t" using False by (simp add: announced_def)
  moreover have "d_outbox (put_wallet ?w d) = d_outbox d" by (simp add: put_wallet_def)
  moreover have "unsent_thresholds ?w = []" by (simp add: unsent_thresholds_def filter_empty_conv)
  ultimately show ?thesis
    using enqueue_outbox [OF enqueue_notification_enqueue [OF en]] w' by auto
qed

lemma notify_wallet:
  assumes "notify_threshold_if_needed e w d = Inr (w', d')" "wallet_of t d = Some w"
  shows "wallet_of t d' = Some w'"
proof -
  obtain s where s: "w' = w\<lparr>wl_sent := s\<rparr>" and
    d: "d_wallets d' = d_wallets d \<and> w' = w \<or> d_wallets d' = row_put wl_tenant w' (d_wallets d)"
    using notify_shape [OF assms(1)] by blast
  then show ?thesis
    using assms(2) wallet_of_tenant [OF assms(2)] by (auto simp: wallet_of_def row_get_put)
qed

lemma ledger_outbox:
  "ledger_create x d = Inr d' \<Longrightarrow> d_outbox d' = d_outbox d"
  "ledger_create_if c x d = Inr d' \<Longrightarrow> d_outbox d' = d_outbox d"
  by (auto simp: ledger_create_if_def ledger_create_Inr split: if_splits)

text \<open>Usage thresholds are announced once per period: a settlement leaves no reached threshold
  unannounced, and it enqueues at most one notification, which carries the level and the text of
  the largest threshold that was reached and not announced before.\<close>

theorem threshold_announced_once:
  assumes "settle e tn r a d = Inr (c, d')" "\<not> rs_unlimited r"
    "\<not> ledger_has (tn_pk tn) (rs_key r @ '':settled'') d" "wallet_of (tn_pk tn) d = Some w"
  shows "\<exists>w1 w2. w1 = snd (snd (settle_charge r (max 0 a) w)) \<and> wallet_of (tn_pk tn) d' = Some w2 \<and>
     unsent_thresholds w2 = [] \<and>
     (d_outbox d' = d_outbox d \<or>
      (\<exists>ev threshold. d_outbox d' = d_outbox d @ [ev] \<and> announced w1 threshold \<and> ob_tenant ev = tn_pk tn \<and>
         ob_payload ev = notification_payload (threshold_level threshold) (threshold_message threshold w2) []))"
proof -
  obtain w0 i p w1 w2 d1 d2 d3 where
    w: "wallet_of (tn_pk tn) d = Some w0" and sc: "settle_charge r (max 0 a) w0 = (i, p, w1)" and
    s1: "notify_threshold_if_needed e w1 (put_wallet w1 d) = Inr (w2, d1)" and
    s2: "ledger_create_if (i \<noteq> 0) (charge_txn tn r Bal_Included '':charge:included'' i) d1 = Inr d2" and
    s3: "ledger_create_if (p \<noteq> 0) (charge_txn tn r Bal_Purchased '':charge:purchased'' p) d2 = Inr d3" and
    s4: "ledger_create \<lparr>tx_tenant = tn_pk tn, tx_kind = K_Release, tx_balance = Bal_Reserved,
        tx_amount = - rs_amount r, tx_key = rs_key r @ '':settled'', tx_reference = rs_key r\<rparr> d3 = Inr d'"
    using assms(1-3) by (rule settle_cases)
  have out: "d_outbox d' = d_outbox d1"
    using ledger_outbox(2) [OF s2] ledger_outbox(2) [OF s3] ledger_outbox(1) [OF s4] by simp
  have t: "wl_tenant w1 = tn_pk tn"
    using settle_charge_tenant [of r "max 0 a" w0] sc wallet_of_tenant [OF w] by simp
  have "wallet_of (tn_pk tn) (put_wallet w1 d) = Some w1" using w t by simp
  then have "wallet_of (tn_pk tn) d1 = Some w2" by (rule notify_wallet [OF s1])
  then have "wallet_of (tn_pk tn) d' = Some w2"
    using ledger_create_wallet_of(1) [OF s2] ledger_create_wallet_of(1) [OF s3]
      ledger_create_wallet_of(2) [OF s4] by simp
  then show ?thesis
    using notify_effect [OF s1] out w assms(4) sc t by (auto simp: put_wallet_def)
qed

theorem threshold_announced_once_witness:
  "\<exists>w2. wallet_of 7 demo_settled_db = Some w2 \<and> unsent_thresholds w2 = []"
  using threshold_announced_once [OF sample_settle, of "demo_wallet 50000000 500000 120000"]
  by (auto simp: demo_reservation_def ledger_has_def demo_reserved_db_def demo_topup_db_def demo_wallet_def
      demo_tenant_def wallet_of_def)

section \<open>Single operations\<close>

text \<open>A reservation never overdraws: when \<open>reserve\<close> returns, it holds exactly the requested
  amount (zero for a negative request), that amount is part of the reserved balance, and unless
  the request was empty the reserved balance is within the included and purchased credits.\<close>

theorem reserve_never_overdraws:
  assumes "reserve e tn a k d = Inr (r, d')" "books_ok (\<lambda>_. 0) d"
  shows "rs_amount r = max 0 a \<and> \<not> rs_unlimited r \<and>
     (\<exists>w. wallet_of (tn_pk tn) d' = Some w \<and> rs_amount r \<le> wl_reserved w \<and>
        (0 < a \<longrightarrow> wl_reserved w \<le> total_balance w))"
  using assms(1)
proof (cases rule: reserve_cases)
  case (1 q d0 w0 d1 w d2)
  have "books_ok (\<lambda>_. 0) d0" using assms(2) reservation_key_frame [OF 1(1)] books_ok_cong by blast
  then have b1: "books_off (\<lambda>_. 0) (tn_pk tn) 0 0 d1" "wallet_of (tn_pk tn) d1 = Some w0"
    using ensured [OF 1(2)] by auto
  have b2: "books_off (\<lambda>_. 0) (tn_pk tn) 0 0 d2" "wallet_of (tn_pk tn) d2 = Some w"
    using expire_books [OF 1(3) b1] by auto
  have nn: "wallet_nonneg w" by (rule books_off_nonneg [OF b2])
  have "wallet_of (tn_pk tn) d' = Some (w\<lparr>wl_reserved := wl_reserved w + max 0 a\<rparr>)"
    using books_post [OF b2 1(5)] nn wallet_of_tenant [OF b2(2)] by (simp add: wallet_nonneg_def)
  then show ?thesis
    using 1(4) nn by (auto simp: 1(6) available_balance_def total_balance_def wallet_nonneg_def)
qed

theorem reserve_never_overdraws_witness:
  "rs_amount demo_reservation = max 0 120000 \<and> (\<exists>w. wallet_of 7 demo_reserved_db = Some w \<and> 120000 \<le> wl_reserved w)"
  using reserve_never_overdraws [OF sample_reserve demo_topup_books]
  by (auto simp: demo_reservation_def demo_tenant_def)

text \<open>C40: Releasing is not idempotent: when the release of a reservation was already recorded, a
  second \<open>release\<close> writes no ledger row but takes the amount out of the reserved balance again, at
  the expense of the other open reservations.\<close>

theorem second_release_takes_again:
  assumes "wallet_of (tn_pk tn) d = Some w" "\<not> rs_unlimited r" "ledger_has (tn_pk tn) (rs_key r @ '':release'') d"
    and "0 < rs_amount r" "rs_amount r \<le> wl_reserved w"
  shows "\<exists>d'. release tn r d = Inr d' \<and> d_ledger d' = d_ledger d \<and>
     wallet_of (tn_pk tn) d' = Some (w\<lparr>wl_reserved := wl_reserved w - rs_amount r\<rparr>)"
proof -
  let ?w = "w\<lparr>wl_reserved := wl_reserved w - rs_amount r\<rparr>"
  have "ledger_has (tn_pk tn) (rs_key r @ '':release'') (put_wallet ?w d)"
    using assms(3) by (simp add: ledger_has_def put_wallet_def)
  then have "release tn r d = Inr (put_wallet ?w d)"
    using assms by (simp add: release_def Let_def min_absorb2 ledger_create_if_def)
  moreover have "d_ledger (put_wallet ?w d) = d_ledger d" by (simp add: put_wallet_def)
  ultimately show ?thesis using assms(1) wallet_of_tenant [OF assms(1)] by auto
qed

definition demo_released_db :: db where
  "demo_released_db = demo_reserved_db\<lparr>d_ledger := d_ledger demo_reserved_db @
     [\<lparr>tx_tenant = 7, tx_kind = K_Release, tx_balance = Bal_Reserved, tx_amount = - 120000,
       tx_key = ''op:1:release'', tx_reference = ''op:1''\<rparr>]\<rparr>"

theorem second_release_takes_again_witness:
  "\<exists>d'. release demo_tenant demo_reservation demo_released_db = Inr d' \<and>
     wallet_of 7 d' = Some (demo_wallet 50000000 500000 0)"
  using second_release_takes_again [of demo_tenant demo_released_db "demo_wallet 50000000 500000 120000" demo_reservation]
  by (auto simp: demo_released_db_def demo_tenant_def demo_wallets demo_wallet_def demo_reservation_def ledger_has_def)

section \<open>What postings leave alone\<close>

definition same_but_wallets :: "db \<Rightarrow> db \<Rightarrow> bool" where
  "same_but_wallets d d' \<longleftrightarrow> d' = d\<lparr>d_wallets := d_wallets d', d_ledger := d_ledger d'\<rparr>"

lemma same_but_walletsD:
  assumes "same_but_wallets d d'"
  shows "d_subs d' = d_subs d" "d_tenants d' = d_tenants d" "d_plans d' = d_plans d"
    "d_invoices d' = d_invoices d" "d_keys d' = d_keys d" "d_outbox d' = d_outbox d"
    "d_packages d' = d_packages d" "d_reversals d' = d_reversals d" "d_webhooks d' = d_webhooks d"
    "d_synclog d' = d_synclog d" "d_uuid d' = d_uuid d" "d_kicks d' = d_kicks d"
proof -
  have "d' = d\<lparr>d_wallets := d_wallets d', d_ledger := d_ledger d'\<rparr>"
    using assms by (simp add: same_but_wallets_def)
  then obtain ws l where e: "d' = d\<lparr>d_wallets := ws, d_ledger := l\<rparr>" by blast
  show "d_subs d' = d_subs d" "d_tenants d' = d_tenants d" "d_plans d' = d_plans d"
    "d_invoices d' = d_invoices d" "d_keys d' = d_keys d" "d_outbox d' = d_outbox d"
    "d_packages d' = d_packages d" "d_reversals d' = d_reversals d" "d_webhooks d' = d_webhooks d"
    "d_synclog d' = d_synclog d" "d_uuid d' = d_uuid d" "d_kicks d' = d_kicks d"
    by (simp_all add: e)
qed

lemma same_but_walletsI: "d' = d\<lparr>d_wallets := ws, d_ledger := l\<rparr> \<Longrightarrow> same_but_wallets d d'"
  by (simp add: same_but_wallets_def)

lemma same_but_wallets_refl [intro]: "same_but_wallets d d"
  by (simp add: same_but_wallets_def)

lemma same_but_wallets_trans [trans]:
  assumes "same_but_wallets d d1" "same_but_wallets d1 d2" shows "same_but_wallets d d2"
proof -
  obtain ws l where "d1 = d\<lparr>d_wallets := ws, d_ledger := l\<rparr>" using assms(1) unfolding same_but_wallets_def by blast
  moreover obtain ws' l' where "d2 = d1\<lparr>d_wallets := ws', d_ledger := l'\<rparr>"
    using assms(2) unfolding same_but_wallets_def by blast
  ultimately have "d2 = d\<lparr>d_wallets := ws', d_ledger := l'\<rparr>" by simp
  then show ?thesis by (rule same_but_walletsI)
qed

lemma same_put_wallet: "same_but_wallets d (put_wallet w d)"
  by (simp add: same_but_wallets_def put_wallet_def)

lemma same_ledger: "ledger_create x d = Inr d' \<Longrightarrow> same_but_wallets d d'"
  by (auto simp: ledger_create_Inr same_but_wallets_def)

lemma same_ledger_if: "ledger_create_if c x d = Inr d' \<Longrightarrow> same_but_wallets d d'"
  by (cases c) (auto simp: ledger_create_if_def same_ledger)

lemma same_post: "ledger_create x (put_wallet w d) = Inr d' \<Longrightarrow> same_but_wallets d d'"
  by (rule same_but_wallets_trans [OF same_put_wallet same_ledger])

lemma same_ensure:
  assumes "ensure_wallet e tn d = Inr (w, d')" shows "same_but_wallets d d'"
proof (cases "wallet_of (tn_pk tn) d")
  case (Some x)
  then show ?thesis using assms by (auto simp: ensure_wallet_eq)
next
  case None
  let ?d = "d\<lparr>d_wallets := row_add (bootstrap_wallet e tn (next_pk wl_pk (d_wallets d)) d) (d_wallets d)\<rparr>"
  have "same_but_wallets d ?d" by (simp add: same_but_wallets_def)
  also have "same_but_wallets ?d d'"
    using assms None by (auto simp: ensure_wallet_eq Let_def bind_ok_Inr_iff intro: same_ledger_if)
  finally show ?thesis .
qed

lemma same_grant:
  assumes "grant_included e tn a p k d = Inr (w', d')" shows "same_but_wallets d d'"
proof -
  obtain w d1 where en: "ensure_wallet e tn d = Inr (w, d1)"
    using assms by (auto simp: grant_included_def bind_ok_Inr_iff)
  have "same_but_wallets d1 d'"
    using assms en
    by (auto simp: grant_included_def Let_def elim!: bind_ok_OkE split: if_splits
        intro: same_but_wallets_trans [OF same_ledger_if same_post])
  with same_ensure [OF en] show ?thesis by (rule same_but_wallets_trans)
qed

lemma same_topup:
  assumes "topup e tn a k ref d = Inr (w', d')" shows "same_but_wallets d d'"
proof -
  obtain w d1 where en: "ensure_wallet e tn d = Inr (w, d1)"
    using assms by (auto simp: topup_def bind_ok_Inr_iff)
  have "same_but_wallets d1 d'"
    using assms en by (auto simp: topup_def Let_def elim!: bind_ok_OkE split: if_splits intro: same_post)
  with same_ensure [OF en] show ?thesis by (rule same_but_wallets_trans)
qed

lemma same_reverse:
  assumes "reverse_purchased e tn a k ref kind d = Inr (r, d')" shows "same_but_wallets d d'"
  using assms
proof (cases rule: reverse_cases)
  case (seen w x)
  then show ?thesis by (simp add: same_ensure)
next
  case (fresh w d1)
  show ?thesis by (rule same_but_wallets_trans [OF same_ensure [OF fresh(1)] same_post [OF fresh(4)]])
qed

text \<open>A grant under a new key resets the included balance to the granted amount.\<close>

lemma grant_fresh:
  assumes "grant_included e tn (Some a) p k d = Inr (w', d')" "\<not> ledger_has (tn_pk tn) k d" "k \<noteq> bootstrap_key (tn_pk tn)"
  shows "\<exists>w. wallet_of (tn_pk tn) d' = Some w \<and> wl_included w = max 0 a \<and> wl_limit w = max 0 a \<and>
     wl_expires w = map_option (day_end e) p \<and> wl_sent w = []"
proof -
  obtain w d1 where en: "ensure_wallet e tn d = Inr (w, d1)"
    using assms(1) by (auto simp: grant_included_def bind_ok_Inr_iff)
  have new: "\<not> ledger_has (tn_pk tn) k d1"
    using en assms(2,3)
    by (auto simp: ensure_wallet_eq Let_def bind_ok_Inr_iff ledger_create_if_def ledger_create_Inr ledger_has_def
        split: option.splits if_splits)
  let ?w = "w\<lparr>wl_limit := max 0 a, wl_included := max 0 a, wl_expires := map_option (day_end e) p, wl_sent := []\<rparr>"
  let ?x = "\<lparr>tx_tenant = tn_pk tn, tx_kind = K_Grant, tx_balance = Bal_Included,
       tx_amount = max 0 a, tx_key = k, tx_reference = ''subscription-period''\<rparr>"
  obtain c x d2 where s1: "ledger_create_if c x d1 = Inr d2" and
    s2: "ledger_create ?x (put_wallet ?w d2) = Inr d'"
    using assms(1) en new by (simp add: grant_included_def Let_def) (auto elim!: bind_ok_OkE)
  have "wallet_of (tn_pk tn) d2 = Some w"
    using ledger_create_wallet_of(1) [OF s1] ensure_wallet_found [OF en] by simp
  then have "wallet_of (tn_pk tn) d' = Some ?w"
    using ledger_create_wallet_of(2) [OF s2] ensured_tenant [OF en] by simp
  then show ?thesis by simp
qed

end
