(* ===== verification/Subscriptions.thy ===== *)
theory Subscriptions
  imports Wallet
begin

text \<open>
  Plans, limits and the subscription life cycle: \<open>Subscription.effective_status\<close> and \<open>access_mode\<close>
  (\<^verbatim>\<open>apps/billing/models.py\<close>), \<open>LimitChecker\<close> and the trial, upgrade, AI-period and expiry
  operations of \<open>BillingService\<close> (\<^verbatim>\<open>apps/billing/services.py\<close>), and the daily tasks of
  \<^verbatim>\<open>apps/billing/tasks.py\<close>. Each service operation is one transaction. The live counts of
  listings and products, which come from other applications, are arguments.
\<close>

section \<open>Sweeps\<close>

text \<open>A loop inside one transaction: the first exception ends it.\<close>

fun sweep :: "('a \<Rightarrow> db \<Rightarrow> err + db) \<Rightarrow> 'a list \<Rightarrow> db \<Rightarrow> err + db" where
  "sweep f [] d = Inr d"
| "sweep f (x # xs) d = (case f x d of Inl e \<Rightarrow> Inl e | Inr d' \<Rightarrow> sweep f xs d')"

section \<open>Status and access\<close>

definition effective_status :: "env \<Rightarrow> subscription \<Rightarrow> sub_status" where
  "effective_status e s =
     (if sb_status s \<in> {Trial, Active} \<and> sb_end s < today e then Past_Due else sb_status s)"

definition is_active :: "env \<Rightarrow> subscription \<Rightarrow> bool" where
  "is_active e s \<longleftrightarrow> effective_status e s \<in> {Trial, Active}"

datatype access = Access_Full | Access_Billing_Only

definition sub_access_mode :: "env \<Rightarrow> subscription \<Rightarrow> access" where
  "sub_access_mode e s = (if is_active e s then Access_Full else Access_Billing_Only)"

definition access_mode :: "env \<Rightarrow> tenant \<Rightarrow> db \<Rightarrow> access" where
  "access_mode e tn d =
     (if \<not> tn_active tn then Access_Billing_Only
      else case sub_of (tn_pk tn) d of
        None \<Rightarrow> Access_Billing_Only
      | Some s \<Rightarrow> sub_access_mode e s)"

section \<open>Limits\<close>

definition plan_order :: "string list" where
  "plan_order = [''starter'', ''business'', ''pro'', ''enterprise'']"

definition capitalize :: "string \<Rightarrow> string" where
  "capitalize s = upper (take 1 s) @ lower (drop 1 s)"

definition next_plan :: "plan \<Rightarrow> string" where
  "next_plan p =
     (if pl_slug p \<in> set plan_order
      then let idx = length (takeWhile (\<lambda>s. s \<noteq> pl_slug p) plan_order)
           in if idx + 1 < length plan_order then capitalize (plan_order ! (idx + 1)) else ''Enterprise''
      else ''Business'')"

definition msg_inactive :: string where "msg_inactive = ''Subscription is not active.''"
definition msg_ai_exhausted :: string where
  "msg_ai_exhausted = ''AI balance is exhausted. Top up or upgrade the plan.''"

text \<open>The subscription with its plan, when \<open>_get_subscription\<close> finds one.\<close>

definition subscription_plan :: "nat \<Rightarrow> db \<Rightarrow> (subscription \<times> plan) option" where
  "subscription_plan t d =
     (case sub_of t d of None \<Rightarrow> None
      | Some s \<Rightarrow> map_option (Pair s) (get_plan (sb_plan s) d))"

definition can_publish :: "env \<Rightarrow> tenant \<Rightarrow> db \<Rightarrow> bool \<times> string" where
  "can_publish e tn d =
     (case subscription_plan (tn_pk tn) d of
        None \<Rightarrow> (False, msg_inactive)
      | Some (s, p) \<Rightarrow>
          (if \<not> is_active e s then (False, msg_inactive)
           else case pl_limit_listings p of
             None \<Rightarrow> (True, [])
           | Some l \<Rightarrow>
               (if tn_active_listings tn \<ge> l
                then (False, ''Limit of '' @ str_int l @ '' active listings reached. Upgrade to '' @ next_plan p @ ''.'')
                else (True, []))))"

definition can_import_sku :: "env \<Rightarrow> tenant \<Rightarrow> int \<Rightarrow> db \<Rightarrow> bool \<times> string" where
  "can_import_sku e tn count d =
     (case subscription_plan (tn_pk tn) d of
        None \<Rightarrow> (False, msg_inactive)
      | Some (s, p) \<Rightarrow>
          (if \<not> is_active e s then (False, msg_inactive)
           else case pl_limit_sku p of
             None \<Rightarrow> (True, [])
           | Some l \<Rightarrow>
               (if tn_sku tn + count > l then (False, ''Limit of '' @ str_int l @ '' SKU reached.'')
                else (True, []))))"

text \<open>The two functions that read the AI summary run outside a transaction: \<open>h\<close> as in \<^const>\<open>summary\<close>.\<close>

definition can_generate_ai ::
    "(nat \<Rightarrow> db \<Rightarrow> db) \<Rightarrow> env \<Rightarrow> tenant \<Rightarrow> db \<Rightarrow> (err + bool \<times> string) \<times> db" where
  "can_generate_ai h e tn d =
     (case sub_of (tn_pk tn) d of
        None \<Rightarrow> (Inr (False, msg_inactive), d)
      | Some s \<Rightarrow>
          (if \<not> is_active e s then (Inr (False, msg_inactive), d)
           else case summary h e tn d of
             (Inl err, d') \<Rightarrow> (Inl err, d')
           | (Inr w, d') \<Rightarrow>
               (if ws_available w < credits_of_int 1 then (Inr (False, msg_ai_exhausted), d')
                else (Inr (True, []), d'))))"

record usage_summary =
  us_listings :: "int \<times> int option"
  us_sku :: "int \<times> int option"
  us_wallet :: wallet_summary
  us_requests :: int
  us_rejected :: int
  us_status :: "sub_status option"
  us_period_days_left :: "int option"
  us_grace_days_left :: "int option"
  us_plan :: "string option"

definition grace_days_left :: "env \<Rightarrow> subscription \<Rightarrow> int option" where
  "grace_days_left e s =
     (if effective_status e s = Past_Due
      then Some (max 0 (grace_days e - days_between (today e) (sb_end s))) else None)"

definition period_days_left :: "env \<Rightarrow> subscription \<Rightarrow> int option" where
  "period_days_left e s =
     (if effective_status e s \<in> {Trial, Active}
      then Some (max 0 (days_between (sb_end s) (today e))) else None)"

definition get_usage_summary ::
    "(nat \<Rightarrow> db \<Rightarrow> db) \<Rightarrow> env \<Rightarrow> tenant \<Rightarrow> int \<Rightarrow> int \<Rightarrow> int \<Rightarrow> db \<Rightarrow> (err + usage_summary) \<times> db" where
  "get_usage_summary h e tn rejected active_listings skus d =
     (let sp = subscription_plan (tn_pk tn) d in
      case summary h e tn d of
        (Inl err, d') \<Rightarrow> (Inl err, d')
      | (Inr w, d') \<Rightarrow>
        (Inr \<lparr>us_listings = (active_listings, Option.bind sp (\<lambda>(_, p). pl_limit_listings p)),
              us_sku = (skus, Option.bind sp (\<lambda>(_, p). pl_limit_sku p)),
              us_wallet = w, us_requests = tn_ai_used tn, us_rejected = rejected,
              us_status = map_option (\<lambda>(s, _). effective_status e s) sp,
              us_period_days_left = Option.bind sp (\<lambda>(s, _). period_days_left e s),
              us_grace_days_left = Option.bind sp (\<lambda>(s, _). grace_days_left e s),
              us_plan = map_option (\<lambda>(_, p). pl_slug p) sp\<rparr>, d'))"

section \<open>Trial, upgrade and AI period\<close>

definition set_trial_end :: "nat \<Rightarrow> instant option \<Rightarrow> db \<Rightarrow> db" where
  "set_trial_end t v d =
     (case get_tenant t d of None \<Rightarrow> d | Some tn \<Rightarrow> put_tenant (tn\<lparr>tn_trial_ends := v\<rparr>) d)"

definition reset_ai_used :: "nat \<Rightarrow> db \<Rightarrow> db" where
  "reset_ai_used t d =
     (case get_tenant t d of None \<Rightarrow> d | Some tn \<Rightarrow> put_tenant (tn\<lparr>tn_ai_used := 0\<rparr>) d)"

definition sync_tenant_trial_end :: "env \<Rightarrow> subscription \<Rightarrow> db \<Rightarrow> db" where
  "sync_tenant_trial_end e s d =
     set_trial_end (sb_tenant s) (if sb_status s = Trial then Some (day_start e (sb_end s)) else None) d"

definition period_grant_key :: "nat \<Rightarrow> date \<Rightarrow> date \<Rightarrow> string" where
  "period_grant_key pk a b = ''subscription-grant:'' @ str_nat pk @ '':'' @ str_date a @ '':'' @ str_date b"

definition version_grant_key :: "nat \<Rightarrow> nat \<Rightarrow> string" where
  "version_grant_key pk v = ''subscription-grant:'' @ str_nat pk @ '':v'' @ str_nat v"

definition start_trial :: "env \<Rightarrow> tenant \<Rightarrow> db \<Rightarrow> err + subscription \<times> db" where
  "start_trial e tn d =
     (case find (\<lambda>p. pl_slug p = ''business'') (d_plans d) of
        None \<Rightarrow> Inl DoesNotExist
      | Some p \<Rightarrow>
          (case add_days (today e) (trial_days e) of
             None \<Rightarrow> Inl OverflowError
           | Some trial_end \<Rightarrow>
               (if sub_of (tn_pk tn) d \<noteq> None then Inl IntegrityError
                else let s = \<lparr>sb_pk = next_pk sb_pk (d_subs d), sb_tenant = tn_pk tn, sb_plan = pl_pk p,
                              sb_status = Trial, sb_period = ''monthly'', sb_start = today e, sb_end = trial_end,
                              sb_ai_start = Some (today e), sb_ai_end = Some trial_end,
                              sb_cancelled_at = None, sb_version = 1\<rparr>;
                         d1 = sync_tenant_trial_end e s (d\<lparr>d_subs := row_add s (d_subs d)\<rparr>)
                  in bind_ok (grant_included e tn (Some (effective_limit tn d1)) (Some trial_end)
                        (period_grant_key (sb_pk s) (today e) trial_end) d1)
                      (\<lambda>(_, d2). Inr (s, d2)))))"

definition extend_trial :: "env \<Rightarrow> tenant \<Rightarrow> int option \<Rightarrow> db \<Rightarrow> err + subscription \<times> db" where
  "extend_trial e tn days d =
     (let extension_days = (case days of None \<Rightarrow> trial_days e | Some n \<Rightarrow> n) in
      if extension_days \<le> 0 then Inl ValueError
      else case sub_of (tn_pk tn) d of
        None \<Rightarrow> Inl DoesNotExist
      | Some s \<Rightarrow>
          (if sb_status s = Active then Inl ValueError
           else case add_days (max (sb_end s) (today e)) extension_days of
             None \<Rightarrow> Inl OverflowError
           | Some period_end \<Rightarrow>
               (let s' = s\<lparr>sb_status := Trial, sb_start := today e, sb_end := period_end,
                           sb_ai_start := Some (today e), sb_ai_end := Some period_end,
                           sb_cancelled_at := None, sb_version := sb_version s + 1\<rparr>
                in Inr (s', sync_tenant_trial_end e s' (put_sub s' d)))))"

definition upgrade_plan :: "env \<Rightarrow> tenant \<Rightarrow> string \<Rightarrow> string \<Rightarrow> db \<Rightarrow> err + subscription \<times> db" where
  "upgrade_plan e tn slug period d =
     (case find (\<lambda>p. pl_slug p = slug \<and> pl_active p) (d_plans d) of
        None \<Rightarrow> Inl DoesNotExist
      | Some p \<Rightarrow>
          (case (if period = ''yearly'' then add_billing_year (today e) else add_billing_month (today e)) of
             None \<Rightarrow> Inl ValueError
           | Some period_end \<Rightarrow>
               (case sub_of (tn_pk tn) d of
                  None \<Rightarrow> Inl DoesNotExist
                | Some s \<Rightarrow>
                    (case (if period = ''yearly''
                           then map_option (\<lambda>m. min m period_end) (add_billing_months (today e) 1)
                           else Some period_end) of
                       None \<Rightarrow> Inl ValueError
                     | Some ai_end \<Rightarrow>
                         (let s' = s\<lparr>sb_plan := pl_pk p, sb_period := period, sb_status := Active,
                                     sb_start := today e, sb_end := period_end,
                                     sb_ai_start := Some (today e), sb_ai_end := Some ai_end,
                                     sb_cancelled_at := None, sb_version := sb_version s + 1\<rparr>;
                              d1 = reset_ai_used (tn_pk tn) (sync_tenant_trial_end e s' (put_sub s' d));
                              tn' = tn\<lparr>tn_ai_used := 0\<rparr>
                          in bind_ok (grant_included e tn' (Some (effective_limit tn' d1)) (Some ai_end)
                                (version_grant_key (sb_pk s') (sb_version s')) d1)
                              (\<lambda>(_, d2). Inr (s', d2)))))))"

definition refresh_ai_credit_period :: "env \<Rightarrow> nat \<Rightarrow> date option \<Rightarrow> db \<Rightarrow> err + bool \<times> db" where
  "refresh_ai_credit_period e sub_id target d =
     (case get_sub sub_id d of
        None \<Rightarrow> Inl DoesNotExist
      | Some s \<Rightarrow>
          (case get_tenant (sb_tenant s) d of
             None \<Rightarrow> Inl DoesNotExist
           | Some tn \<Rightarrow>
               (if sb_status s \<noteq> Active then Inr (False, d)
                else case ai_credit_period_for_date (sb_start s) (sb_end s)
                       (case target of Some t \<Rightarrow> t | None \<Rightarrow> today e) of
                  None \<Rightarrow> Inl ValueError
                | Some None \<Rightarrow> Inr (False, d)
                | Some (Some (period_start, period_end)) \<Rightarrow>
                    (if sb_ai_start s = Some period_start \<and> sb_ai_end s = Some period_end then Inr (False, d)
                     else let s' = s\<lparr>sb_ai_start := Some period_start, sb_ai_end := Some period_end,
                                     sb_version := sb_version s + 1\<rparr>;
                              d1 = reset_ai_used (sb_tenant s) (put_sub s' d)
                       in bind_ok (grant_included e tn (Some (effective_limit tn d1)) (Some period_end)
                              (period_grant_key (sb_pk s) period_start period_end) d1)
                            (\<lambda>(_, d2). Inr (True, d2))))))"

section \<open>Expiry\<close>

definition msg_past_due :: "env \<Rightarrow> string" where
  "msg_past_due e = ''Your subscription has expired. Renew it within '' @ str_int (grace_days e) @ '' days.''"

definition msg_cancelled :: string where
  "msg_cancelled = ''Your subscription is cancelled. Publishing new listings is blocked.''"

definition expiry_key :: "subscription \<Rightarrow> string \<Rightarrow> string" where
  "expiry_key s what = ''subscription:'' @ str_nat (sb_pk s) @ '':'' @ what @ '':'' @ str_date (sb_end s) @ '':v1''"

definition mark_past_due :: "env \<Rightarrow> subscription \<Rightarrow> db \<Rightarrow> err + db" where
  "mark_past_due e s d =
     db_of (enqueue_notification (sb_tenant s) ''billing'' (msg_past_due e) (expiry_key s ''past-due'') None []
       (set_trial_end (sb_tenant s) None
         (put_sub (s\<lparr>sb_status := Past_Due, sb_version := sb_version s + 1\<rparr>) d)))"

definition expired_subs :: "env \<Rightarrow> db \<Rightarrow> subscription list" where
  "expired_subs e d =
     sort_key sb_pk (filter (\<lambda>s. sb_status s \<in> {Trial, Active} \<and> sb_end s < today e) (d_subs d))"

definition check_expired_trials :: "env \<Rightarrow> db \<Rightarrow> err + nat \<times> db" where
  "check_expired_trials e d =
     bind_ok (sweep (mark_past_due e) (expired_subs e d) d) (\<lambda>d'. Inr (length (expired_subs e d), d'))"

definition mark_cancelled :: "env \<Rightarrow> subscription \<Rightarrow> db \<Rightarrow> err + db" where
  "mark_cancelled e s d =
     db_of (enqueue_notification (sb_tenant s) ''critical'' msg_cancelled (expiry_key s ''cancelled'') None []
       (put_sub (s\<lparr>sb_status := Cancelled, sb_cancelled_at := Some (now e), sb_version := sb_version s + 1\<rparr>) d))"

definition lapsed_subs :: "date \<Rightarrow> db \<Rightarrow> subscription list" where
  "lapsed_subs deadline d =
     sort_key sb_pk (filter (\<lambda>s. sb_status s = Past_Due \<and> sb_end s < deadline) (d_subs d))"

definition check_grace_period_expired :: "env \<Rightarrow> db \<Rightarrow> err + nat \<times> db" where
  "check_grace_period_expired e d =
     (case add_days (today e) (- grace_days e) of
        None \<Rightarrow> Inl OverflowError
      | Some deadline \<Rightarrow>
          bind_ok (sweep (mark_cancelled e) (lapsed_subs deadline d) d)
            (\<lambda>d'. Inr (length (lapsed_subs deadline d), d')))"

section \<open>Daily tasks\<close>

text \<open>Each service call commits on its own; an exception ends the task.\<close>

definition billing_check_expired :: "env \<Rightarrow> db \<Rightarrow> (err + nat \<times> nat) \<times> db" where
  "billing_check_expired e d =
     (case check_expired_trials e d of
        Inl x \<Rightarrow> (Inl x, d)
      | Inr (past_due_count, d1) \<Rightarrow>
          (case check_grace_period_expired e d1 of
             Inl x \<Rightarrow> (Inl x, d1)
           | Inr (cancelled_count, d2) \<Rightarrow> (Inr (past_due_count, cancelled_count), d2)))"

fun refresh_all :: "env \<Rightarrow> nat list \<Rightarrow> nat \<Rightarrow> db \<Rightarrow> (err + nat) \<times> db" where
  "refresh_all e [] n d = (Inr n, d)"
| "refresh_all e (i # is) n d =
     (case refresh_ai_credit_period e i (Some (today e)) d of
        Inl x \<Rightarrow> (Inl x, d)
      | Inr (done, d') \<Rightarrow> refresh_all e is (if done then n + 1 else n) d')"

definition reset_monthly_ai_credits :: "env \<Rightarrow> db \<Rightarrow> (err + nat) \<times> db" where
  "reset_monthly_ai_credits e d =
     refresh_all e (map sb_pk (filter (\<lambda>s. sb_status s = Active \<and> sb_start s \<le> today e \<and> today e < sb_end s)
       (d_subs d))) 0 d"

section \<open>What a sweep leaves behind\<close>

lemma put_sub_pk_list: "map sb_pk (d_subs (put_sub s d)) = map sb_pk (d_subs d)"
  by (simp add: put_sub_def map_pk_row_put)

lemma fold_put_subs: "d_subs (fold put_sub ss d) = fold (row_put sb_pk) ss (d_subs d)"
  by (induction ss arbitrary: d) (simp_all add: put_sub_def)

lemma sweep_subs:
  assumes "\<And>s d d'. f s d = Inr d' \<Longrightarrow> d_subs d' = row_put sb_pk (g s) (d_subs d)"
  shows "sweep f ss d = Inr d' \<Longrightarrow> d_subs d' = fold (row_put sb_pk) (map g ss) (d_subs d)"
proof (induction ss arbitrary: d)
  case Nil
  then show ?case by simp
next
  case (Cons s ss)
  then obtain d1 where "f s d = Inr d1" "sweep f ss d1 = Inr d'" by (auto split: sum.splits)
  then show ?case using Cons.IH assms by simp
qed

text \<open>
  A sweep over the rows with \<open>P\<close>, in the order of their keys, that saves \<open>g s\<close> for each \<open>s\<close>, maps
  exactly these rows.
\<close>

lemma sweep_get:
  assumes f: "\<And>s d d'. f s d = Inr d' \<Longrightarrow> d_subs d' = row_put sb_pk (g s) (d_subs d)"
    and g: "\<And>s. sb_pk (g s) = sb_pk s"
    and run: "sweep f (sort_key sb_pk (filter P (d_subs d))) d = Inr d'"
    and dist: "distinct (map sb_pk (d_subs d))"
  shows "get_sub k d' = map_option (\<lambda>s. if P s then g s else s) (get_sub k d)"
proof -
  let ?ss = "sort_key sb_pk (filter P (d_subs d))"
  have pks: "map sb_pk (map g ?ss) = map sb_pk ?ss" using g by simp
  have "distinct (map sb_pk ?ss)"
    using dist by (auto simp: distinct_map intro: inj_on_subset)
  then have dg: "distinct (map sb_pk (map g ?ss))" by (simp only: pks)
  have "d_subs d' = fold (row_put sb_pk) (map g ?ss) (d_subs d)"
    using sweep_subs [of f g, OF f run] .
  then have eq: "get_sub k d' = get_sub k (fold put_sub (map g ?ss) d)"
    by (simp add: get_sub_def fold_put_subs)
  have get: "get_sub i d = Some s \<longleftrightarrow> s \<in> set (d_subs d) \<and> sb_pk s = i" for i s
    unfolding get_sub_def by (rule row_get_distinct_iff [OF dist])
  have known: "\<forall>x\<in>set (map g ?ss). get_sub (sb_pk x) d \<noteq> None"
  proof
    fix x assume "x \<in> set (map g ?ss)"
    then obtain s where "s \<in> set (d_subs d)" "x = g s" by auto
    then have "get_sub (sb_pk x) d = Some s" using get g by auto
    then show "get_sub (sb_pk x) d \<noteq> None" by simp
  qed
  show ?thesis
  proof (cases "\<exists>s. get_sub k d = Some s \<and> P s")
    case True
    then obtain s where s: "get_sub k d = Some s" "P s" by blast
    then have "g s \<in> set (map g ?ss)" "sb_pk (g s) = k" using get g by auto
    then show ?thesis using sub_table.sweep_same [OF _ dg known] eq s by fastforce
  next
    case False
    have "k \<notin> sb_pk ` set (map g ?ss)"
    proof
      assume "k \<in> sb_pk ` set (map g ?ss)"
      then obtain s where "s \<in> set (d_subs d)" "P s" "sb_pk s = k" using g by auto
      then show False using False get by auto
    qed
    then have "get_sub k d' = get_sub k d" using sub_table.sweep_other eq by simp
    then show ?thesis using False by (cases "get_sub k d") auto
  qed
qed

lemma set_trial_end_subs [simp]: "d_subs (set_trial_end t v d) = d_subs d"
  by (simp add: set_trial_end_def put_tenant_def split: option.split)

lemma mark_past_due_subs:
  assumes "mark_past_due e s d = Inr d'"
  shows "d_subs d' = row_put sb_pk (s\<lparr>sb_status := Past_Due, sb_version := sb_version s + 1\<rparr>) (d_subs d)"
proof -
  let ?s = "s\<lparr>sb_status := Past_Due, sb_version := sb_version s + 1\<rparr>"
  obtain ev where en: "enqueue_notification (sb_tenant s) ''billing'' (msg_past_due e) (expiry_key s ''past-due'') None []
       (set_trial_end (sb_tenant s) None (put_sub ?s d)) = Inr (ev, d')"
    using assms unfolding mark_past_due_def db_of_Inr_iff by blast
  show ?thesis using enqueue_notification_frame(4) [OF en] by (simp add: put_sub_def)
qed

lemma mark_cancelled_subs:
  assumes "mark_cancelled e s d = Inr d'"
  shows "d_subs d' = row_put sb_pk
    (s\<lparr>sb_status := Cancelled, sb_cancelled_at := Some (now e), sb_version := sb_version s + 1\<rparr>) (d_subs d)"
proof -
  let ?s = "s\<lparr>sb_status := Cancelled, sb_cancelled_at := Some (now e), sb_version := sb_version s + 1\<rparr>"
  obtain ev where en: "enqueue_notification (sb_tenant s) ''critical'' msg_cancelled (expiry_key s ''cancelled'') None []
       (put_sub ?s d) = Inr (ev, d')"
    using assms unfolding mark_cancelled_def db_of_Inr_iff by blast
  show ?thesis using enqueue_notification_frame(4) [OF en] by (simp add: put_sub_def)
qed

text \<open>What the two sweeps do to one row.\<close>

definition expired_row :: "env \<Rightarrow> subscription \<Rightarrow> subscription" where
  "expired_row e s =
     (if sb_status s \<in> {Trial, Active} \<and> sb_end s < today e
      then s\<lparr>sb_status := Past_Due, sb_version := sb_version s + 1\<rparr> else s)"

definition lapsed_row :: "env \<Rightarrow> date \<Rightarrow> subscription \<Rightarrow> subscription" where
  "lapsed_row e deadline s =
     (if sb_status s = Past_Due \<and> sb_end s < deadline
      then s\<lparr>sb_status := Cancelled, sb_cancelled_at := Some (now e), sb_version := sb_version s + 1\<rparr> else s)"

lemma check_expired_get:
  assumes "check_expired_trials e d = Inr (n, d')" "distinct (map sb_pk (d_subs d))"
  shows "get_sub k d' = map_option (expired_row e) (get_sub k d)" "n = length (expired_subs e d)"
proof -
  have run: "sweep (mark_past_due e) (expired_subs e d) d = Inr d'" and n: "n = length (expired_subs e d)"
    using assms(1) by (auto simp: check_expired_trials_def bind_ok_Inr_iff)
  show "n = length (expired_subs e d)" by (rule n)
  have "get_sub k d' = map_option
      (\<lambda>s. if sb_status s \<in> {Trial, Active} \<and> sb_end s < today e
           then s\<lparr>sb_status := Past_Due, sb_version := sb_version s + 1\<rparr> else s) (get_sub k d)"
    by (rule sweep_get [OF mark_past_due_subs _ run [unfolded expired_subs_def] assms(2)]) simp_all
  then show "get_sub k d' = map_option (expired_row e) (get_sub k d)"
    by (simp add: expired_row_def [abs_def])
qed

lemma check_grace_get:
  assumes "check_grace_period_expired e d = Inr (n, d')" "distinct (map sb_pk (d_subs d))"
    "add_days (today e) (- grace_days e) = Some deadline"
  shows "get_sub k d' = map_option (lapsed_row e deadline) (get_sub k d)" "n = length (lapsed_subs deadline d)"
proof -
  have run: "sweep (mark_cancelled e) (lapsed_subs deadline d) d = Inr d'" and n: "n = length (lapsed_subs deadline d)"
    using assms by (auto simp: check_grace_period_expired_def bind_ok_Inr_iff)
  show "n = length (lapsed_subs deadline d)" by (rule n)
  have "get_sub k d' = map_option
      (\<lambda>s. if sb_status s = Past_Due \<and> sb_end s < deadline
           then s\<lparr>sb_status := Cancelled, sb_cancelled_at := Some (now e), sb_version := sb_version s + 1\<rparr> else s)
      (get_sub k d)"
    by (rule sweep_get [OF mark_cancelled_subs _ run [unfolded lapsed_subs_def] assms(2)]) simp_all
  then show "get_sub k d' = map_option (lapsed_row e deadline) (get_sub k d)"
    by (simp add: lapsed_row_def [abs_def])
qed

definition due_status :: "env \<Rightarrow> date \<Rightarrow> subscription \<Rightarrow> sub_status" where
  "due_status e deadline s =
     (case sb_status s of
        Cancelled \<Rightarrow> Cancelled
      | Past_Due \<Rightarrow> if sb_end s < deadline then Cancelled else Past_Due
      | _ \<Rightarrow> if \<not> sb_end s < today e then sb_status s
             else if sb_end s < deadline then Cancelled else Past_Due)"

lemma expired_row_end [simp]: "sb_end (expired_row e s) = sb_end s" "sb_pk (expired_row e s) = sb_pk s"
  by (simp_all add: expired_row_def)

lemma lapsed_expired_row:
  "sb_status (lapsed_row e dl (expired_row e s)) = due_status e dl s"
  "sub_access_mode e (lapsed_row e dl (expired_row e s)) = sub_access_mode e s"
  "sb_version s \<le> sb_version (lapsed_row e dl (expired_row e s))"
  "sb_version (lapsed_row e dl (expired_row e s)) = sb_version s \<longleftrightarrow> lapsed_row e dl (expired_row e s) = s"
  "sb_version (lapsed_row e dl (expired_row e s)) = sb_version s \<longleftrightarrow> due_status e dl s = sb_status s"
  by (cases "sb_status s"; auto simp: lapsed_row_def expired_row_def due_status_def sub_access_mode_def is_active_def
      effective_status_def dest: arg_cong [of _ _ sb_version] arg_cong [of _ _ sb_status])+

lemma sweep_pks:
  assumes "\<And>s d d'. f s d = Inr d' \<Longrightarrow> map sb_pk (d_subs d') = map sb_pk (d_subs d)"
  shows "sweep f ss d = Inr d' \<Longrightarrow> map sb_pk (d_subs d') = map sb_pk (d_subs d)"
proof (induction ss arbitrary: d)
  case Nil
  then show ?case by simp
next
  case (Cons s ss)
  then obtain d1 where "f s d = Inr d1" "sweep f ss d1 = Inr d'" by (auto split: sum.splits)
  then show ?case using Cons.IH assms by metis
qed

lemma check_expired_pks:
  assumes "check_expired_trials e d = Inr (n, d')"
  shows "map sb_pk (d_subs d') = map sb_pk (d_subs d)"
proof -
  have "sweep (mark_past_due e) (expired_subs e d) d = Inr d'"
    using assms(1) by (auto simp: check_expired_trials_def bind_ok_Inr_iff)
  then show ?thesis by (rule sweep_pks [rotated]) (simp add: mark_past_due_subs map_pk_row_put)
qed

lemma expired_subs_after:
  assumes "check_expired_trials e d = Inr (n, d')" "distinct (map sb_pk (d_subs d))"
  shows "expired_subs e d' = []"
proof -
  have dist: "distinct (map sb_pk (d_subs d'))" using check_expired_pks [OF assms(1)] assms(2) by simp
  have "\<not> (sb_status s \<in> {Trial, Active} \<and> sb_end s < today e)" if "s \<in> set (d_subs d')" for s
  proof -
    have "get_sub (sb_pk s) d' = Some s"
      using that row_get_distinct_iff [OF dist] by (simp add: get_sub_def)
    then obtain s0 where "s = expired_row e s0"
      using check_expired_get(1) [OF assms, of "sb_pk s"] by auto
    then show ?thesis by (auto simp: expired_row_def)
  qed
  then show ?thesis by (simp add: expired_subs_def filter_empty_conv)
qed

text \<open>C36: The daily expiry task refines the subscription life cycle: every subscription ends up with
  the status its dates call for (past due once the period is over, cancelled once the grace period
  is over, cancelled stays cancelled), its billing version grows exactly when its status
  changes, and nobody's access changes, because access already followed the dates.\<close>

theorem expiry_refines_life_cycle:
  assumes "billing_check_expired e d = (Inr (a, b), d')" "distinct (map sb_pk (d_subs d))"
    "add_days (today e) (- grace_days e) = Some deadline" "get_sub k d = Some s"
  shows "\<exists>s'. get_sub k d' = Some s' \<and> sb_status s' = due_status e deadline s \<and>
     sub_access_mode e s' = sub_access_mode e s \<and> sb_version s \<le> sb_version s' \<and>
     (sb_version s' = sb_version s \<longleftrightarrow> due_status e deadline s = sb_status s)"
proof -
  obtain d1 where 1: "check_expired_trials e d = Inr (a, d1)" and 2: "check_grace_period_expired e d1 = Inr (b, d')"
    using assms(1) by (auto simp: billing_check_expired_def split: sum.splits)
  have "distinct (map sb_pk (d_subs d1))" using check_expired_pks [OF 1] assms(2) by simp
  then have "get_sub k d' = Some (lapsed_row e deadline (expired_row e s))"
    using check_grace_get(1) [OF 2 _ assms(3), of k] check_expired_get(1) [OF 1 assms(2), of k] assms(4) by simp
  then show ?thesis using lapsed_expired_row by auto
qed

text \<open>The expiry sweep is idempotent within a day: run again, it finds nothing, changes nothing and
  sends nothing.\<close>

theorem expiry_sweep_idempotent:
  assumes "check_expired_trials e d = Inr (n, d')" "distinct (map sb_pk (d_subs d))"
  shows "check_expired_trials e d' = Inr (0, d')"
  using expired_subs_after [OF assms] by (simp add: check_expired_trials_def)

definition late_env :: env where
  "late_env = demo_env\<lparr>today := Date 2026 2 18\<rparr>"

definition swept_db :: db where
  "swept_db = demo_db\<lparr>d_subs := [demo_sub\<lparr>sb_status := Past_Due, sb_version := 2\<rparr>], d_uuid := 1,
     d_outbox := [new_event 0 7 Ev_Notification (expiry_key demo_sub ''past-due'')
        (notification_payload ''billing'' (msg_past_due late_env) []) None], d_kicks := [0]\<rparr>"

lemma sample_key: "strip (expiry_key demo_sub ''past-due'') = expiry_key demo_sub ''past-due''"
  by (simp add: expiry_key_def demo_sub_def strip_def str_date_def pad_def str_nat.simps digit_def is_space_def)

lemma sample_message: "strip (msg_past_due late_env) \<noteq> []" "length (msg_past_due late_env) \<le> 2000"
  by (simp_all add: msg_past_due_def late_env_def demo_env_def str_int_def str_nat.simps digit_def strip_def is_space_def)

lemma sample_expired: "check_expired_trials late_env demo_db = Inr (1, swept_db)"
proof -
  have "expired_subs late_env demo_db = [demo_sub]"
    by (simp add: expired_subs_def demo_defs late_env_def less_date_def)
  have d: "set_trial_end (sb_tenant demo_sub) None
      (put_sub (demo_sub\<lparr>sb_status := Past_Due, sb_version := sb_version demo_sub + 1\<rparr>) demo_db) =
      demo_db\<lparr>d_subs := [demo_sub\<lparr>sb_status := Past_Due, sb_version := 2\<rparr>]\<rparr>"
    by (simp add: set_trial_end_def get_tenant_def put_tenant_def put_sub_def demo_defs)
  have t: "sb_tenant demo_sub = 7" by (simp add: demo_sub_def)
  have "length (expiry_key demo_sub ''past-due'') \<le> 200" "expiry_key demo_sub ''past-due'' \<noteq> []"
    by (simp_all add: expiry_key_def demo_sub_def str_date_def pad_def str_nat.simps digit_def)
  then have "mark_past_due late_env demo_sub demo_db = Inr swept_db"
    using sample_message unfolding mark_past_due_def d unfolding t
    by (simp add: Let_def enqueue_notification_def notification_levels_def enqueue_def sample_key
        validate_enqueue_def event_with_key_def fresh_uuid_def db_of_def swept_db_def demo_db_def empty_db_def)
  moreover have "expired_subs late_env demo_db = [demo_sub]"
    by (simp add: expired_subs_def demo_defs late_env_def less_date_def)
  ultimately show ?thesis by (simp add: check_expired_trials_def)
qed

lemma sample_expiry_task: "billing_check_expired late_env demo_db = (Inr (1, 0), swept_db)"
  "add_days (today late_env) (- grace_days late_env) = Some (Date 2026 2 11)"
proof -
  show dl: "add_days (today late_env) (- grace_days late_env) = Some (Date 2026 2 11)"
    by (simp add: late_env_def demo_env_def add_days_def to_ordinal_def of_ordinal_def days_before_year_def
        days_before_month_def leap_def month_of_day_def)
  have "lapsed_subs (Date 2026 2 11) swept_db = []"
    by (simp add: lapsed_subs_def swept_db_def demo_sub_def less_date_def)
  then show "billing_check_expired late_env demo_db = (Inr (1, 0), swept_db)"
    by (simp add: billing_check_expired_def sample_expired check_grace_period_expired_def dl)
qed

lemma demo_subs_distinct: "distinct (map sb_pk (d_subs demo_db))"
  by (simp add: demo_db_def)

theorem expiry_sweep_idempotent_witness:
  "check_expired_trials late_env swept_db = Inr (0, swept_db)"
  by (rule expiry_sweep_idempotent [OF sample_expired demo_subs_distinct])

theorem expiry_refines_life_cycle_witness:
  "\<exists>s'. get_sub 3 swept_db = Some s' \<and> sb_status s' = due_status late_env (Date 2026 2 11) demo_sub \<and>
     sb_status s' = Past_Due"
proof -
  have "get_sub 3 demo_db = Some demo_sub" by (simp add: get_sub_def demo_db_def demo_sub_def)
  moreover have "due_status late_env (Date 2026 2 11) demo_sub = Past_Due"
    by (simp add: due_status_def demo_sub_def late_env_def less_date_def)
  ultimately show ?thesis
    using expiry_refines_life_cycle [OF sample_expiry_task(1) demo_subs_distinct sample_expiry_task(2)] by metis
qed

section \<open>The AI period\<close>

lemma reset_ai_used_subs [simp]: "d_subs (reset_ai_used t d) = d_subs d" "d_ledger (reset_ai_used t d) = d_ledger d"
  "d_plans (reset_ai_used t d) = d_plans d"
  by (simp_all add: reset_ai_used_def put_tenant_def split: option.split)

lemma refresh_cases:
  assumes "refresh_ai_credit_period e i target d = Inr (True, d')"
  obtains s tn a b d2 where "get_sub i d = Some s" "get_tenant (sb_tenant s) d = Some tn" "sb_status s = Active"
    "ai_credit_period_for_date (sb_start s) (sb_end s) (case target of Some t \<Rightarrow> t | None \<Rightarrow> today e) = Some (Some (a, b))"
    "\<not> (sb_ai_start s = Some a \<and> sb_ai_end s = Some b)"
    "d2 = reset_ai_used (sb_tenant s)
       (put_sub (s\<lparr>sb_ai_start := Some a, sb_ai_end := Some b, sb_version := sb_version s + 1\<rparr>) d)"
    "\<exists>w. grant_included e tn (Some (effective_limit tn d2)) (Some b) (period_grant_key (sb_pk s) a b) d2 = Inr (w, d')"
  using assms
  by (auto simp: refresh_ai_credit_period_def Let_def bind_ok_Inr_iff split: option.splits if_splits)

lemma refresh_sub:
  assumes "refresh_ai_credit_period e i target d = Inr (True, d')"
  obtains s a b where "get_sub i d = Some s"
    "ai_credit_period_for_date (sb_start s) (sb_end s) (case target of Some t \<Rightarrow> t | None \<Rightarrow> today e) = Some (Some (a, b))"
    "get_sub i d' = Some (s\<lparr>sb_ai_start := Some a, sb_ai_end := Some b, sb_version := sb_version s + 1\<rparr>)"
    "sb_status s = Active" "get_tenant (sb_tenant s) d' \<noteq> None"
  using assms
proof (cases rule: refresh_cases)
  case (1 s tn a b d2)
  obtain w where g: "grant_included e tn (Some (effective_limit tn d2)) (Some b) (period_grant_key (sb_pk s) a b) d2 = Inr (w, d')"
    using 1(7) by blast
  have pk: "sb_pk s = i" using sub_table.get_key [OF 1(1)] .
  let ?s = "s\<lparr>sb_ai_start := Some a, sb_ai_end := Some b, sb_version := sb_version s + 1\<rparr>"
  have "get_sub i (put_sub ?s d) = Some ?s"
    using sub_table.get_put_same [of ?s d] 1(1) pk by simp
  then have "get_sub i d' = Some ?s"
    using same_but_walletsD(1) [OF same_grant [OF g]] 1(6) by (simp add: get_sub_def)
  moreover have "get_tenant (sb_tenant s) d2 \<noteq> None"
    using 1(2,6) tenant_table.get_key [OF 1(2)] tenant_table.get_put_same [of "tn\<lparr>tn_ai_used := 0\<rparr>"]
    by (simp add: reset_ai_used_def get_tenant_def put_sub_def)
  then have "get_tenant (sb_tenant s) d' \<noteq> None"
    using same_but_walletsD(2) [OF same_grant [OF g]] by (simp add: get_tenant_def)
  ultimately show thesis using that 1(1,3,4) by blast
qed

lemma refresh_again:
  assumes "refresh_ai_credit_period e i target d = Inr (True, d')"
  shows "refresh_ai_credit_period e' i (Some (case target of Some t \<Rightarrow> t | None \<Rightarrow> today e)) d' = Inr (False, d')"
  using assms
  by (rule refresh_sub) (auto simp: refresh_ai_credit_period_def split: option.splits)

text \<open>The AI credits of a paid subscription are granted once per AI month: a successful refresh
  stores a period that contains the day asked for and lies inside the paid period, repeating the
  refresh for the same day at any time does nothing, and unless this month was granted before the
  included balance becomes the limit of the tenant, valid to the end of the period.\<close>

theorem refresh_grants_the_month_once:
  assumes "refresh_ai_credit_period e i (Some t) d = Inr (True, d')" "get_sub i d = Some s"
    "valid_date (sb_start s)" "valid_date (sb_end s)" "valid_date t"
  shows "\<exists>s' a b tn w. get_sub i d' = Some s' \<and> sb_ai_start s' = Some a \<and> sb_ai_end s' = Some b \<and>
     sb_start s \<le> a \<and> a \<le> t \<and> t < b \<and> b \<le> sb_end s \<and> sb_version s' = sb_version s + 1 \<and>
     get_tenant (sb_tenant s) d = Some tn \<and>
     (ledger_has (tn_pk tn) (period_grant_key (sb_pk s) a b) d \<or>
      wallet_of (tn_pk tn) d' = Some w \<and> wl_included w = max 0 (effective_limit tn d') \<and>
      wl_expires w = Some (day_end e b)) \<and>
     refresh_ai_credit_period e' i (Some t) d' = Inr (False, d')"
  using assms(1)
proof (cases rule: refresh_cases)
  case (1 s0 tn a b d2)
  have s0: "s0 = s" using 1(1) assms(2) by simp
  obtain w where g: "grant_included e tn (Some (effective_limit tn d2)) (Some b) (period_grant_key (sb_pk s) a b) d2 = Inr (w, d')"
    using 1(7) s0 by blast
  have "\<not> (t < sb_start s \<or> sb_end s \<le> t)"
    using 1(4) ai_credit_period_outside [of t "sb_start s" "sb_end s"] s0 by auto
  then have in_term: "sb_start s \<le> t" "t < sb_end s" by (simp_all add: not_le not_less)
  obtain s' where s': "get_sub i d' = Some s'" "sb_ai_start s' = Some a" "sb_ai_end s' = Some b"
    "sb_version s' = sb_version s + 1"
    using assms(1) by (rule refresh_sub) (use 1(1,4) s0 in auto)
  have bounds: "sb_start s \<le> a" "a \<le> t" "t < b" "b \<le> sb_end s"
    using ai_credit_period_inside [OF assms(3,4,5) in_term] 1(4) s0 by auto
  have lim: "effective_limit tn d' = effective_limit tn d2"
    using same_but_walletsD [OF same_grant [OF g]]
    by (simp add: effective_limit_def sub_of_def get_plan_def cong: option.case_cong)
  have has: "ledger_has u k d2 = ledger_has u k d" for u k
    by (simp add: 1(6) ledger_has_def put_sub_def)
  have "ledger_has (tn_pk tn) (period_grant_key (sb_pk s) a b) d \<or>
      (\<exists>w. wallet_of (tn_pk tn) d' = Some w \<and> wl_included w = max 0 (effective_limit tn d') \<and>
        wl_expires w = Some (day_end e b))"
    using grant_fresh [OF g] has lim by (auto simp: period_grant_key_def bootstrap_key_def)
  moreover have "refresh_ai_credit_period e' i (Some t) d' = Inr (False, d')"
    using refresh_again [OF assms(1)] by simp
  ultimately show ?thesis using s' bounds 1(2) s0 by blast
qed

definition paid_sub :: subscription where
  "paid_sub = demo_sub\<lparr>sb_status := Active, sb_start := Date 2026 1 15, sb_end := Date 2026 4 15,
     sb_ai_start := Some (Date 2026 1 15), sb_ai_end := Some (Date 2026 2 15)\<rparr>"

definition paid_db :: db where
  "paid_db = demo_db\<lparr>d_subs := [paid_sub]\<rparr>"

lemma sample_month: "ai_credit_period_for_date (Date 2026 1 15) (Date 2026 4 15) (Date 2026 2 20) =
    Some (Some (Date 2026 2 15, Date 2026 3 15))"
  by (simp add: ai_credit_period_for_date_def ai_month_index_def ai_period_end_def add_billing_months_def
      last_day_def less_date_def less_eq_date_def mk_date_def valid_date_def min_def)

lemma sample_refresh: "\<exists>d'. refresh_ai_credit_period demo_env 3 (Some (Date 2026 2 20)) paid_db = Inr (True, d')"
proof -
  have "get_sub 3 paid_db = Some paid_sub" "get_tenant 7 paid_db = Some demo_tenant"
    by (simp_all add: get_sub_def get_tenant_def paid_db_def paid_sub_def demo_defs)
  moreover have f: "sb_tenant paid_sub = 7" "sb_status paid_sub = Active" "sb_start paid_sub = Date 2026 1 15"
    "sb_end paid_sub = Date 2026 4 15" "sb_ai_start paid_sub = Some (Date 2026 1 15)" "sb_pk paid_sub = 3"
    by (simp_all add: paid_sub_def demo_sub_def)
  moreover have "is_ok (grant_included demo_env demo_tenant (Some l) (Some (Date 2026 3 15))
      (period_grant_key 3 (Date 2026 2 15) (Date 2026 3 15)) d)"
    if "d_wallets d = []" "d_ledger d = []" for l d
    using that
    by (simp add: grant_included_def ensure_wallet_eq wallet_of_def ledger_create_if_def ledger_create_def
        ledger_has_def demo_tenant_def bootstrap_key_def period_grant_key_def str_nat.simps digit_def
        str_date_def pad_def Let_def put_wallet_def)
  then have "is_ok (grant_included demo_env demo_tenant
      (Some (effective_limit demo_tenant (reset_ai_used 7 (put_sub
          (paid_sub\<lparr>sb_ai_start := Some (Date 2026 2 15), sb_ai_end := Some (Date 2026 3 15),
            sb_version := sb_version paid_sub + 1\<rparr>) paid_db)))) (Some (Date 2026 3 15))
      (period_grant_key 3 (Date 2026 2 15) (Date 2026 3 15)) (reset_ai_used 7 (put_sub
          (paid_sub\<lparr>sb_ai_start := Some (Date 2026 2 15), sb_ai_end := Some (Date 2026 3 15),
            sb_version := sb_version paid_sub + 1\<rparr>) paid_db)))"
    by (simp add: reset_ai_used_def put_tenant_def put_sub_def paid_db_def demo_db_def empty_db_def split: option.split)
  ultimately show ?thesis
    by (elim is_okE) (auto simp: refresh_ai_credit_period_def sample_month Let_def)
qed

theorem refresh_grants_the_month_once_witness:
  "\<exists>d'. refresh_ai_credit_period demo_env 3 (Some (Date 2026 2 20)) paid_db = Inr (True, d') \<and>
     refresh_ai_credit_period late_env 3 (Some (Date 2026 2 20)) d' = Inr (False, d')"
proof -
  obtain d' where r: "refresh_ai_credit_period demo_env 3 (Some (Date 2026 2 20)) paid_db = Inr (True, d')"
    using sample_refresh by blast
  have s: "get_sub 3 paid_db = Some paid_sub" by (simp add: get_sub_def paid_db_def paid_sub_def demo_sub_def)
  have "valid_date (sb_start paid_sub)" "valid_date (sb_end paid_sub)" "valid_date (Date 2026 2 20)"
    by (simp_all add: paid_sub_def valid_date_def last_day_def leap_def)
  from refresh_grants_the_month_once [OF r s this, of late_env] r show ?thesis by blast
qed

section \<open>Trials and upgrades\<close>

lemma sync_trial_subs [simp]: "d_subs (sync_tenant_trial_end e s d) = d_subs d"
  by (simp add: sync_tenant_trial_end_def)

text \<open>A trial gives full access for exactly the configured number of days: the new subscription
  starts today, ends \<open>trial_days\<close> days later, cannot be created twice, and unless it was granted
  before, the wallet holds the AI limit of the tenant until the last day of the trial.\<close>

theorem trial_outcome:
  assumes "start_trial e tn d = Inr (s, d')"
  shows "sub_of (tn_pk tn) d = None \<and> sub_of (tn_pk tn) d' = Some s \<and> sb_status s = Trial \<and>
     sb_start s = today e \<and> days_between (sb_end s) (today e) = trial_days e \<and>
     start_trial e' tn d' \<noteq> Inr (s', d'') \<and>
     (ledger_has (tn_pk tn) (period_grant_key (sb_pk s) (sb_start s) (sb_end s)) d \<or>
      (\<exists>w. wallet_of (tn_pk tn) d' = Some w \<and> wl_included w = max 0 (effective_limit tn d') \<and>
         wl_expires w = Some (day_end e (sb_end s))))"
proof -
  obtain p trial_end where p: "find (\<lambda>p. pl_slug p = ''business'') (d_plans d) = Some p"
    and te: "add_days (today e) (trial_days e) = Some trial_end" and none: "sub_of (tn_pk tn) d = None"
    using assms(1) by (auto simp: start_trial_def split: option.splits if_splits)
  let ?s = "\<lparr>sb_pk = next_pk sb_pk (d_subs d), sb_tenant = tn_pk tn, sb_plan = pl_pk p,
      sb_status = Trial, sb_period = ''monthly'', sb_start = today e, sb_end = trial_end,
      sb_ai_start = Some (today e), sb_ai_end = Some trial_end, sb_cancelled_at = None, sb_version = 1\<rparr>"
  let ?d = "sync_tenant_trial_end e ?s (d\<lparr>d_subs := row_add ?s (d_subs d)\<rparr>)"
  have "bind_ok (grant_included e tn (Some (effective_limit tn ?d)) (Some trial_end)
      (period_grant_key (sb_pk ?s) (today e) trial_end) ?d) (\<lambda>(_, d2). Inr (?s, d2)) = Inr (s, d')"
    using assms(1) p te none by (simp add: start_trial_def Let_def)
  then obtain x where x: "grant_included e tn (Some (effective_limit tn ?d)) (Some trial_end)
      (period_grant_key (sb_pk ?s) (today e) trial_end) ?d = Inr x" "(\<lambda>(_, d2). Inr (?s, d2)) x = (Inr (s, d') :: err + _)"
    by (rule bind_ok_OkE)
  obtain w where w: "x = (w, d')" and s: "s = ?s" using x(2) by (cases x) auto
  have g: "grant_included e tn (Some (effective_limit tn ?d)) (Some trial_end)
      (period_grant_key (sb_pk ?s) (today e) trial_end) ?d = Inr (w, d')" using x(1) w by simp
  have subs: "d_subs d' = row_add ?s (d_subs d)" using same_but_walletsD(1) [OF same_grant [OF g]] by simp
  have found: "sub_of (tn_pk tn) d' = Some ?s"
    using none subs by (simp add: sub_of_def row_get_add)
  have lim: "effective_limit tn d' = effective_limit tn ?d"
    using same_but_walletsD [OF same_grant [OF g]]
    by (simp add: effective_limit_def sub_of_def get_plan_def cong: option.case_cong)
  have has: "ledger_has u k ?d = ledger_has u k d" for u k
    by (simp add: sync_tenant_trial_end_def set_trial_end_def put_tenant_def ledger_has_def split: option.split)
  have "ledger_has (tn_pk tn) (period_grant_key (sb_pk s) (sb_start s) (sb_end s)) d \<or>
      (\<exists>w. wallet_of (tn_pk tn) d' = Some w \<and> wl_included w = max 0 (effective_limit tn d') \<and>
         wl_expires w = Some (day_end e (sb_end s)))"
    using grant_fresh [OF g] has lim s by (auto simp: period_grant_key_def bootstrap_key_def)
  moreover have "start_trial e' tn d' \<noteq> Inr (s', d'')"
    using found by (simp add: start_trial_def split: option.split)
  ultimately show ?thesis using none found s add_days_between [OF te] by simp
qed

definition newcomer :: tenant where
  "newcomer = demo_tenant\<lparr>tn_pk := 8\<rparr>"

lemma grant_fits:
  assumes "d_wallets d = []" "d_ledger d = []" "length k \<le> 100" "k \<noteq> bootstrap_key (tn_pk tn)"
    "k @ '':expire'' \<noteq> bootstrap_key (tn_pk tn)" "length (bootstrap_key (tn_pk tn)) \<le> 160"
  shows "is_ok (grant_included e tn l p k d)"
  using assms
  by (auto simp: grant_included_def ensure_wallet_eq wallet_of_def ledger_create_if_def ledger_create_def
      ledger_has_def Let_def put_wallet_def is_ok_def)

lemma sample_trial: "\<exists>s d'. start_trial demo_env newcomer demo_db = Inr (s, d')"
proof -
  have days: "add_days (today demo_env) (trial_days demo_env) = Some (Date 2026 2 24)"
    by (simp add: demo_env_def add_days_def to_ordinal_def of_ordinal_def days_before_year_def
        days_before_month_def leap_def month_of_day_def)
  have plan: "find (\<lambda>p. pl_slug p = ''business'') (d_plans demo_db) = Some demo_plan"
    by (simp add: demo_db_def demo_plan_def)
  have none: "sub_of (tn_pk newcomer) demo_db = None"
    by (simp add: sub_of_def demo_db_def demo_sub_def newcomer_def)
  have ok: "is_ok (grant_included demo_env newcomer l p (period_grant_key 4 (Date 2026 2 10) (Date 2026 2 24)) d)"
    if "d_wallets d = []" "d_ledger d = []" for l p d
    using that by (rule grant_fits)
      (simp_all add: period_grant_key_def bootstrap_key_def str_date_def pad_def str_nat.simps digit_def newcomer_def)
  have pk: "next_pk sb_pk (d_subs demo_db) = 4" by (simp add: next_pk_def demo_db_def demo_sub_def)
  have tables: "d_wallets (sync_tenant_trial_end e s (demo_db\<lparr>d_subs := l\<rparr>)) = []"
    "d_ledger (sync_tenant_trial_end e s (demo_db\<lparr>d_subs := l\<rparr>)) = []" for e s l
    by (simp_all add: sync_tenant_trial_end_def set_trial_end_def put_tenant_def demo_db_def empty_db_def split: option.split)
  have td: "today demo_env = Date 2026 2 10" by (simp add: demo_env_def)
  let ?s = "\<lparr>sb_pk = 4, sb_tenant = tn_pk newcomer, sb_plan = pl_pk demo_plan,
      sb_status = Trial, sb_period = ''monthly'', sb_start = Date 2026 2 10, sb_end = Date 2026 2 24,
      sb_ai_start = Some (Date 2026 2 10), sb_ai_end = Some (Date 2026 2 24), sb_cancelled_at = None, sb_version = 1\<rparr>"
  let ?d = "sync_tenant_trial_end demo_env ?s (demo_db\<lparr>d_subs := row_add ?s (d_subs demo_db)\<rparr>)"
  have "is_ok (grant_included demo_env newcomer (Some (effective_limit newcomer ?d)) (Some (Date 2026 2 24))
      (period_grant_key 4 (Date 2026 2 10) (Date 2026 2 24)) ?d)"
    by (rule ok [OF tables])
  then obtain x where x: "grant_included demo_env newcomer (Some (effective_limit newcomer ?d)) (Some (Date 2026 2 24))
      (period_grant_key 4 (Date 2026 2 10) (Date 2026 2 24)) ?d = Inr x"
    by (rule is_okE)
  have "start_trial demo_env newcomer demo_db = Inr (?s, snd x)"
    unfolding start_trial_def plan td days [unfolded td] option.case Let_def none pk by (simp add: x split_beta del: One_nat_def)
  then show ?thesis by blast
qed

theorem trial_outcome_witness:
  "\<exists>s d'. start_trial demo_env newcomer demo_db = Inr (s, d') \<and> days_between (sb_end s) (Date 2026 2 10) = 14"
proof -
  obtain s d' where st: "start_trial demo_env newcomer demo_db = Inr (s, d')" using sample_trial by blast
  from trial_outcome [OF st] have "days_between (sb_end s) (Date 2026 2 10) = 14" by (simp add: demo_env_def)
  with st show ?thesis by blast
qed

lemma upgrade_cases:
  assumes "upgrade_plan e tn slug period d = Inr (s', d')"
  obtains p period_end s ai_end w where "find (\<lambda>p. pl_slug p = slug \<and> pl_active p) (d_plans d) = Some p"
    "(if period = ''yearly'' then add_billing_year (today e) else add_billing_month (today e)) = Some period_end"
    "sub_of (tn_pk tn) d = Some s"
    "(if period = ''yearly'' then map_option (\<lambda>m. min m period_end) (add_billing_months (today e) 1)
      else Some period_end) = Some ai_end"
    "s' = s\<lparr>sb_plan := pl_pk p, sb_period := period, sb_status := Active, sb_start := today e,
         sb_end := period_end, sb_ai_start := Some (today e), sb_ai_end := Some ai_end,
         sb_cancelled_at := None, sb_version := sb_version s + 1\<rparr>"
    "grant_included e (tn\<lparr>tn_ai_used := 0\<rparr>)
        (Some (effective_limit (tn\<lparr>tn_ai_used := 0\<rparr>)
          (reset_ai_used (tn_pk tn) (sync_tenant_trial_end e s' (put_sub s' d))))) (Some ai_end)
        (version_grant_key (sb_pk s') (sb_version s'))
        (reset_ai_used (tn_pk tn) (sync_tenant_trial_end e s' (put_sub s' d))) = Inr (w, d')"
proof -
  obtain p where p: "find (\<lambda>p. pl_slug p = slug \<and> pl_active p) (d_plans d) = Some p"
    using assms by (cases "find (\<lambda>p. pl_slug p = slug \<and> pl_active p) (d_plans d)") (auto simp: upgrade_plan_def)
  obtain pe where pe: "(if period = ''yearly'' then add_billing_year (today e) else add_billing_month (today e)) = Some pe"
    using assms p
    by (cases "if period = ''yearly'' then add_billing_year (today e) else add_billing_month (today e)")
      (simp_all add: upgrade_plan_def)
  obtain s where s: "sub_of (tn_pk tn) d = Some s"
    using assms p pe by (cases "sub_of (tn_pk tn) d") (simp_all add: upgrade_plan_def)
  obtain ae where ae: "(if period = ''yearly'' then map_option (\<lambda>m. min m pe) (add_billing_months (today e) 1)
      else Some pe) = Some ae"
    using assms p pe s
    by (cases "if period = ''yearly'' then map_option (\<lambda>m. min m pe) (add_billing_months (today e) 1) else Some pe")
      (simp_all add: upgrade_plan_def)
  let ?s = "s\<lparr>sb_plan := pl_pk p, sb_period := period, sb_status := Active, sb_start := today e,
         sb_end := pe, sb_ai_start := Some (today e), sb_ai_end := Some ae,
         sb_cancelled_at := None, sb_version := sb_version s + 1\<rparr>"
  let ?d = "reset_ai_used (tn_pk tn) (sync_tenant_trial_end e ?s (put_sub ?s d))"
  have "bind_ok (grant_included e (tn\<lparr>tn_ai_used := 0\<rparr>) (Some (effective_limit (tn\<lparr>tn_ai_used := 0\<rparr>) ?d)) (Some ae)
        (version_grant_key (sb_pk ?s) (sb_version ?s)) ?d) (\<lambda>(_, d2). Inr (?s, d2)) = Inr (s', d')"
    using assms unfolding upgrade_plan_def p option.case pe s ae Let_def .
  then obtain x where x: "grant_included e (tn\<lparr>tn_ai_used := 0\<rparr>) (Some (effective_limit (tn\<lparr>tn_ai_used := 0\<rparr>) ?d)) (Some ae)
        (version_grant_key (sb_pk ?s) (sb_version ?s)) ?d = Inr x"
      "(\<lambda>(_, d2). Inr (?s, d2)) x = (Inr (s', d') :: err + _)"
    by (rule bind_ok_OkE)
  obtain w where w: "x = (w, d')" and eq: "s' = ?s" using x(2) by (cases x) auto
  show thesis by (rule that [OF p pe s ae eq]) (use x(1) w eq in simp)
qed

lemma sub_of_put:
  "sub_of (sb_tenant s) d = Some s0 \<Longrightarrow> sb_pk s = sb_pk s0 \<Longrightarrow> distinct (map sb_pk (d_subs d)) \<Longrightarrow>
     sub_of (sb_tenant s) (put_sub s d) = Some s"
proof -
  assume g: "sub_of (sb_tenant s) d = Some s0" and pk: "sb_pk s = sb_pk s0" and dist: "distinct (map sb_pk (d_subs d))"
  have "row_get sb_tenant t (row_put sb_pk s rows) = Some s"
    if "row_get sb_tenant t rows = Some s0" "sb_tenant s = t" "distinct (map sb_pk rows)" for t rows
    using that
  proof (induction rows)
    case Nil
    then show ?case by simp
  next
    case (Cons r rows)
    show ?case
    proof (cases "sb_tenant r = t")
      case True
      then show ?thesis using Cons.prems pk by simp
    next
      case False
      then have "row_get sb_tenant t rows = Some s0" using Cons.prems by simp
      then have "s0 \<in> set rows" by (rule row_get_in_set)
      then have "sb_pk r \<noteq> sb_pk s" using Cons.prems(3) pk by auto
      then show ?thesis using False Cons by simp
    qed
  qed
  then show ?thesis using g dist by (simp add: sub_of_def put_sub_def)
qed

lemma sub_of_get: "sub_of t d = Some s \<Longrightarrow> sb_tenant s = t"
  unfolding sub_of_def by (rule row_get_key)

lemma add_months_later:
  assumes "valid_date a" "add_billing_months a n = Some r" "1 \<le> n"
  shows "a < r"
  using assms add_billing_months_month_number [OF assms(2)] by (simp add: date_less_iff add_billing_months_valid)

text \<open>An upgrade gives a full new term at once: the subscription is active on the requested plan
  from today for one calendar month, or twelve for a yearly term, access is full, the first AI
  period starts today and does not outlast the term, the trial marker of the tenant is gone, and
  the included balance is the limit of the new plan (or the tenant's override), unless this very
  version was granted before.\<close>

theorem upgrade_outcome:
  assumes "upgrade_plan e tn slug period d = Inr (s', d')" "distinct (map sb_pk (d_subs d))"
    "valid_date (today e)"
  shows "\<exists>p ai_end. p \<in> set (d_plans d) \<and> pl_slug p = slug \<and> pl_active p \<and>
     sub_of (tn_pk tn) d' = Some s' \<and> sb_plan s' = pl_pk p \<and> sub_access_mode e s' = Access_Full \<and>
     add_billing_months (today e) (if period = ''yearly'' then 12 else 1) = Some (sb_end s') \<and>
     sb_ai_start s' = Some (today e) \<and> sb_ai_end s' = Some ai_end \<and> ai_end \<le> sb_end s' \<and>
     (ledger_has (tn_pk tn) (version_grant_key (sb_pk s') (sb_version s')) d \<or>
      (\<exists>w. wallet_of (tn_pk tn) d' = Some w \<and> wl_included w = max 0 (effective_limit tn d') \<and>
         wl_expires w = Some (day_end e ai_end)))"
  using assms(1)
proof (cases rule: upgrade_cases)
  case (1 p pe s ae w)
  let ?tn = "tn\<lparr>tn_ai_used := 0\<rparr>"
  let ?d = "reset_ai_used (tn_pk tn) (sync_tenant_trial_end e s' (put_sub s' d))"
  have plan: "p \<in> set (d_plans d)" "pl_slug p = slug" "pl_active p"
    using 1(1) by (auto simp: find_Some_iff)
  have ten: "sb_tenant s' = tn_pk tn" "sb_pk s' = sb_pk s" using 1(5) sub_of_get [OF 1(3)] by simp_all
  have "sub_of (sb_tenant s') (put_sub s' d) = Some s'"
    using sub_of_put [of s' d s] ten 1(3) assms(2) by simp
  then have found: "sub_of (tn_pk tn) d' = Some s'"
    using same_but_walletsD(1) [OF same_grant [OF 1(6)]] ten by (simp add: sub_of_def)
  have tm: "add_billing_months (today e) (if period = ''yearly'' then 12 else 1) = Some pe"
    using 1(2) year_is_twelve_months [OF assms(3)] by (simp add: add_billing_month_def split: if_splits)
  then have later: "today e < pe" using add_months_later [OF assms(3)] by (simp split: if_splits)
  have acc: "sub_access_mode e s' = Access_Full"
    using later 1(5) by (auto simp: sub_access_mode_def is_active_def effective_status_def)
  have ai: "ae \<le> pe" using 1(4) by (auto split: if_splits)
  have lim: "effective_limit tn d' = effective_limit ?tn ?d"
    using same_but_walletsD [OF same_grant [OF 1(6)]]
    by (simp add: effective_limit_def sub_of_def get_plan_def cong: option.case_cong)
  have has: "ledger_has u k ?d = ledger_has u k d" for u k
    by (simp add: sync_tenant_trial_end_def set_trial_end_def put_tenant_def put_sub_def ledger_has_def
        split: option.split)
  have "ledger_has (tn_pk tn) (version_grant_key (sb_pk s') (sb_version s')) d \<or>
      (\<exists>w. wallet_of (tn_pk tn) d' = Some w \<and> wl_included w = max 0 (effective_limit tn d') \<and>
         wl_expires w = Some (day_end e ae))"
    using grant_fresh [OF 1(6)] has lim by (auto simp: version_grant_key_def bootstrap_key_def)
  then show ?thesis using plan found acc tm ai 1(5) by auto
qed

lemma sample_upgrade: "\<exists>s d'. upgrade_plan demo_env demo_tenant ''business'' ''yearly'' demo_db = Inr (s, d')"
proof -
  have plan: "find (\<lambda>p. pl_slug p = ''business'' \<and> pl_active p) (d_plans demo_db) = Some demo_plan"
    by (simp add: demo_db_def demo_plan_def)
  have year: "(if ''yearly'' = ''yearly'' then add_billing_year (today demo_env) else add_billing_month (today demo_env))
      = Some (Date 2027 2 10)"
    by (simp add: demo_env_def add_billing_year_def mk_date_def valid_date_def last_day_def leap_def)
  have sub: "sub_of (tn_pk demo_tenant) demo_db = Some demo_sub"
    by (simp add: sub_of_def demo_db_def demo_sub_def demo_tenant_def)
  have ai: "(if ''yearly'' = ''yearly'' then map_option (\<lambda>m. min m (Date 2027 2 10)) (add_billing_months (today demo_env) 1)
      else Some (Date 2027 2 10)) = Some (Date 2026 3 10)"
    by (simp add: demo_env_def add_billing_months_def mk_date_def valid_date_def last_day_def leap_def min_def less_eq_date_def)
  have ok: "is_ok (grant_included demo_env (demo_tenant\<lparr>tn_ai_used := 0\<rparr>) l p (version_grant_key 3 2) d)"
    if "d_wallets d = []" "d_ledger d = []" for l p d
    using that by (rule grant_fits)
      (simp_all add: version_grant_key_def bootstrap_key_def str_nat.simps digit_def demo_tenant_def)
  have tables: "d_wallets (reset_ai_used t (sync_tenant_trial_end e s (put_sub s demo_db))) = []"
    "d_ledger (reset_ai_used t (sync_tenant_trial_end e s (put_sub s demo_db))) = []" for t e s
    by (simp_all add: reset_ai_used_def sync_tenant_trial_end_def set_trial_end_def put_tenant_def put_sub_def
        demo_db_def empty_db_def split: option.split)
  let ?s = "demo_sub\<lparr>sb_plan := pl_pk demo_plan, sb_period := ''yearly'', sb_status := Active,
      sb_start := today demo_env, sb_end := Date 2027 2 10, sb_ai_start := Some (today demo_env),
      sb_ai_end := Some (Date 2026 3 10), sb_cancelled_at := None, sb_version := sb_version demo_sub + 1\<rparr>"
  let ?d = "reset_ai_used (tn_pk demo_tenant) (sync_tenant_trial_end demo_env ?s (put_sub ?s demo_db))"
  have keys: "sb_pk ?s = 3" "sb_version ?s = 2" by (simp_all add: demo_sub_def)
  obtain x where x: "grant_included demo_env (demo_tenant\<lparr>tn_ai_used := 0\<rparr>)
      (Some (effective_limit (demo_tenant\<lparr>tn_ai_used := 0\<rparr>) ?d)) (Some (Date 2026 3 10)) (version_grant_key 3 2) ?d = Inr x"
    using ok [OF tables] by (rule is_okE)
  have "upgrade_plan demo_env demo_tenant ''business'' ''yearly'' demo_db = Inr (?s, snd x)"
    unfolding upgrade_plan_def plan year sub ai option.case Let_def unfolding keys x
    by (simp add: split_beta)
  then show ?thesis by blast
qed

theorem upgrade_outcome_witness:
  "\<exists>s d'. upgrade_plan demo_env demo_tenant ''business'' ''yearly'' demo_db = Inr (s, d') \<and>
     sub_access_mode demo_env s = Access_Full"
proof -
  obtain s d' where u: "upgrade_plan demo_env demo_tenant ''business'' ''yearly'' demo_db = Inr (s, d')"
    using sample_upgrade by blast
  have "valid_date (today demo_env)" by (simp add: demo_env_def valid_date_def last_day_def leap_def)
  from upgrade_outcome [OF u demo_subs_distinct this] u show ?thesis by blast
qed

end
