(* ===== verification/YooKassa.thy ===== *)
theory YooKassa
  imports Subscriptions
begin

text \<open>
  The payment provider client (\<^verbatim>\<open>apps/billing/yookassa_client.py\<close>): validation of outgoing
  requests and of every field of a response, the response size limit, and the error classes.
  The HTTP transport and the JSON decoder are a parameter, the record \<open>gateway\<close>; \<open>urlsplit\<close> is
  modelled on ASCII text.
\<close>

section \<open>URLs\<close>

text \<open>The parts of \<open>urllib.parse.urlsplit\<close> the code reads. \<open>None\<close> is \<open>ValueError\<close>.\<close>

record url =
  ur_scheme :: string
  ur_netloc :: string
  ur_query :: string
  ur_fragment :: string

definition is_alpha :: "char \<Rightarrow> bool" where
  "is_alpha c \<longleftrightarrow> c \<in> set ''abcdefghijklmnopqrstuvwxyzABCDEFGHIJKLMNOPQRSTUVWXYZ''"

definition scheme_char :: "char \<Rightarrow> bool" where
  "scheme_char c \<longleftrightarrow> is_alpha c \<or> is_digit c \<or> c \<in> set ''+-.''"

text \<open>\<open>s.partition(c)\<close> and the last component of \<open>s.rpartition(c)\<close>.\<close>

definition before :: "char \<Rightarrow> string \<Rightarrow> string" where
  "before c s = takeWhile (\<lambda>x. x \<noteq> c) s"

definition after_first :: "char \<Rightarrow> string \<Rightarrow> string" where
  "after_first c s = drop 1 (dropWhile (\<lambda>x. x \<noteq> c) s)"

definition after_last :: "char \<Rightarrow> string \<Rightarrow> string" where
  "after_last c s = rev (takeWhile (\<lambda>x. x \<noteq> c) (rev s))"

definition split_scheme :: "string \<Rightarrow> string \<times> string" where
  "split_scheme s =
     (let p = before (CHR '':'') s in
      if CHR '':'' \<in> set s \<and> p \<noteq> [] \<and> is_alpha (hd p) \<and> list_all scheme_char p
      then (lower p, after_first (CHR '':'') s) else ([], s))"

definition split_netloc :: "string \<Rightarrow> string \<times> string" where
  "split_netloc s =
     (if take 2 s = ''//''
      then (takeWhile (\<lambda>c. c \<notin> set ''/?#'') (drop 2 s), dropWhile (\<lambda>c. c \<notin> set ''/?#'') (drop 2 s))
      else ([], s))"

text \<open>Leading controls and spaces are stripped, tabs and line breaks removed.\<close>

definition clean_url :: "string \<Rightarrow> string" where
  "clean_url s = filter (\<lambda>c. c \<notin> {CHR 0x09, CHR 0x0A, CHR 0x0D})
     (dropWhile (\<lambda>c. (of_char c :: nat) \<le> 32) s)"

definition host_of :: "string \<Rightarrow> string" where
  "host_of netloc = after_last (CHR ''@'') netloc"

definition bracketed_ok :: "env \<Rightarrow> string \<Rightarrow> bool" where
  "bracketed_ok e netloc \<longleftrightarrow>
     (CHR ''['' \<in> set netloc \<longleftrightarrow> CHR '']'' \<in> set netloc) \<and>
     (CHR ''['' \<in> set netloc \<longrightarrow>
        ipv6_text e (before (CHR '']'') (after_first (CHR ''['') netloc)))"

definition urlsplit :: "env \<Rightarrow> string \<Rightarrow> url option" where
  "urlsplit e text =
     (let (scheme, r) = split_scheme (clean_url text); (netloc, r1) = split_netloc r;
          fragment = after_first (CHR ''#'') r1; r2 = before (CHR ''#'') r1
      in if \<not> bracketed_ok e netloc then None
         else Some \<lparr>ur_scheme = scheme, ur_netloc = netloc, ur_query = after_first (CHR ''?'') r2,
                    ur_fragment = fragment\<rparr>)"

definition hostname :: "url \<Rightarrow> string" where
  "hostname u =
     (let h = host_of (ur_netloc u)
      in lower (if CHR ''['' \<in> set h then before (CHR '']'') (after_first (CHR ''['') h) else before (CHR '':'') h))"

definition port_text :: "url \<Rightarrow> string" where
  "port_text u =
     (let h = host_of (ur_netloc u)
      in if CHR ''['' \<in> set h
         then after_first (CHR '':'') (after_first (CHR '']'') (after_first (CHR ''['') h))
         else after_first (CHR '':'') h)"

text \<open>Reading \<open>port\<close> raises \<open>ValueError\<close> unless it is empty or a number up to 65535.\<close>

definition port_ok :: "url \<Rightarrow> bool" where
  "port_ok u \<longleftrightarrow> port_text u = [] \<or>
     list_all is_digit (port_text u) \<and> digits_value (port_text u) \<le> 65535"

text \<open>\<open>username is None and password is None\<close>: there is no userinfo part.\<close>

definition no_userinfo :: "url \<Rightarrow> bool" where
  "no_userinfo u \<longleftrightarrow> CHR ''@'' \<notin> set (ur_netloc u)"

definition plain_url :: "env \<Rightarrow> string list \<Rightarrow> string \<Rightarrow> bool" where
  "plain_url e schemes text =
     (case urlsplit e text of
        None \<Rightarrow> False
      | Some u \<Rightarrow> port_ok u \<and> ur_scheme u \<in> set schemes \<and> hostname u \<noteq> [] \<and> no_userinfo u)"

section \<open>Fields\<close>

definition word_char :: "char \<Rightarrow> bool" where
  "word_char c \<longleftrightarrow> is_alpha c \<or> is_digit c \<or> c = CHR ''_'' \<or> c = CHR ''-''"

definition is_valid_provider_id :: "string \<Rightarrow> bool" where
  "is_valid_provider_id s \<longleftrightarrow> 1 \<le> length s \<and> length s \<le> 200 \<and> list_all word_char s"

definition required_idempotency_key :: "string \<Rightarrow> err + string" where
  "required_idempotency_key s =
     (if 1 \<le> length s \<and> length s \<le> 64 \<and> list_all word_char s then Inr s else Inl ValueError)"

definition json_text :: "json \<Rightarrow> string" where
  "json_text j = (case j of JStr s \<Rightarrow> s | _ \<Rightarrow> [])"

definition required_provider_id :: "json \<Rightarrow> err + string" where
  "required_provider_id j =
     (if is_valid_provider_id (json_text j) then Inr (json_text j) else Inl YooKassaSnapshotError)"

definition payment_statuses :: "string list" where
  "payment_statuses = [''pending'', ''waiting_for_capture'', ''succeeded'', ''canceled'']"

definition refund_statuses :: "string list" where
  "refund_statuses = [''pending'', ''succeeded'', ''canceled'']"

definition required_status :: "json \<Rightarrow> string list \<Rightarrow> err + string" where
  "required_status j allowed =
     (if json_text j \<in> set allowed then Inr (json_text j) else Inl YooKassaSnapshotError)"

definition required_boolean :: "json \<Rightarrow> err + bool" where
  "required_boolean j = (case j of JBool b \<Rightarrow> Inr b | _ \<Rightarrow> Inl YooKassaSnapshotError)"

definition is_currency :: "string \<Rightarrow> bool" where
  "is_currency s \<longleftrightarrow> length s = 3 \<and> list_all (\<lambda>c. c \<in> set ''ABCDEFGHIJKLMNOPQRSTUVWXYZ'') s"

definition max_provider_amount :: money where
  "max_provider_amount = 9999999999"

text \<open>A finite positive decimal that \<open>quantize\<close> leaves unchanged and that is within the limit.\<close>

definition provider_amount :: "string \<Rightarrow> money option" where
  "provider_amount text =
     (case dec_parse text of
        None \<Rightarrow> None
      | Some a \<Rightarrow>
          (case dec_units 2 a of
             None \<Rightarrow> None
           | Some k \<Rightarrow> if 0 < k \<and> k \<le> max_provider_amount then Some k else None))"

definition required_amount :: "dict \<Rightarrow> err + money \<times> string" where
  "required_amount payload =
     (case dict_get ''amount'' payload of
        JObj amount_payload \<Rightarrow>
          (let raw_value = dict_get ''value'' amount_payload;
               currency = upper (json_text (dict_get ''currency'' amount_payload))
           in case raw_value of
                JBool _ \<Rightarrow> Inl YooKassaSnapshotError
              | _ \<Rightarrow>
                  (case provider_amount (py_str raw_value) of
                     None \<Rightarrow> Inl YooKassaSnapshotError
                   | Some k \<Rightarrow> if is_currency currency then Inr (k, currency) else Inl YooKassaSnapshotError))
      | _ \<Rightarrow> Inl YooKassaSnapshotError)"

definition outgoing_amount :: "money \<Rightarrow> string \<Rightarrow> err + money \<times> string" where
  "outgoing_amount amount currency =
     (if 0 < amount \<and> amount \<le> max_provider_amount \<and> is_currency (upper currency)
      then Inr (amount, upper currency) else Inl ValueError)"

section \<open>Transport\<close>

text \<open>
  A response that arrived: its status, the two headers the code reads, the body chunks, and
  whether the overall deadline passed before the body was read. \<open>gw_call\<close> is the network
  (\<open>Inl\<close>: \<open>requests.RequestException\<close>), \<open>gw_json\<close> the decoder of a UTF-8 JSON body.
\<close>

record http_response =
  rp_late :: bool
  rp_status :: int
  rp_encoding :: "string option"
  rp_length :: "string option"
  rp_chunks :: "string list"

datatype http_request =
    Get_Object string string
  | Post_Payment dict string

record gateway =
  gw_call :: "http_request \<Rightarrow> http_response option"
  gw_json :: "string \<Rightarrow> json option"
  gw_enabled :: bool
  gw_shop_id :: string
  gw_secret_key :: string
  gw_base_url :: string
  gw_timeouts_ok :: bool
  gw_max_bytes :: int

definition api_transport_settings :: "env \<Rightarrow> gateway \<Rightarrow> err + unit" where
  "api_transport_settings e gw =
     (if \<not> gw_enabled gw \<or> gw_shop_id gw = [] \<or> gw_secret_key gw = [] then Inl YooKassaAPIError
      else case urlsplit e (rev (dropWhile (\<lambda>c. c = CHR ''/'') (rev (gw_base_url gw)))) of
        None \<Rightarrow> Inl ValueError
      | Some u \<Rightarrow>
          (if ur_scheme u \<noteq> ''https'' \<or> hostname u = [] \<or> \<not> no_userinfo u \<or> ur_query u \<noteq> [] \<or> ur_fragment u \<noteq> []
           then Inl YooKassaAPIError
           else if \<not> gw_timeouts_ok gw then Inl YooKassaAPIError
           else Inr ()))"

text \<open>The chunks are joined while their total stays within the limit.\<close>

fun join_limited :: "int \<Rightarrow> string list \<Rightarrow> string \<Rightarrow> err + string" where
  "join_limited max_bytes [] acc = Inr acc"
| "join_limited max_bytes (c # cs) acc =
     (if int (length (acc @ c)) > max_bytes then Inl YooKassaAPIError
      else join_limited max_bytes cs (acc @ c))"

definition read_response_limited :: "http_response \<Rightarrow> int \<Rightarrow> err + string" where
  "read_response_limited r max_bytes =
     (if max_bytes \<le> 0 then Inl YooKassaAPIError
      else if (case rp_encoding r of None \<Rightarrow> False | Some enc \<Rightarrow> lower (strip enc) \<noteq> ''identity'')
        then Inl YooKassaAPIError
      else if (case rp_length r of
                 None \<Rightarrow> False
               | Some l \<Rightarrow> (case py_int l of None \<Rightarrow> True | Some n \<Rightarrow> n < 0 \<or> n > max_bytes))
        then Inl YooKassaAPIError
      else join_limited max_bytes (rp_chunks r) [])"

definition response_json :: "gateway \<Rightarrow> http_response \<Rightarrow> err + dict" where
  "response_json gw r =
     (if rp_late r then Inl YooKassaAPIError
      else if rp_status r \<noteq> 200 then Inl YooKassaAPIError
      else bind_ok (read_response_limited r (gw_max_bytes gw)) (\<lambda>body.
        case gw_json gw body of
          None \<Rightarrow> Inl YooKassaAPIError
        | Some (JObj payload) \<Rightarrow> Inr payload
        | Some _ \<Rightarrow> Inl YooKassaSnapshotError))"

definition fetch_object :: "env \<Rightarrow> gateway \<Rightarrow> string \<Rightarrow> string \<Rightarrow> err + dict" where
  "fetch_object e gw resource object_id =
     bind_ok (required_provider_id (JStr object_id)) (\<lambda>requested_id.
     bind_ok (api_transport_settings e gw) (\<lambda>_.
       case gw_call gw (Get_Object resource requested_id) of
         None \<Rightarrow> Inl YooKassaAPIError
       | Some r \<Rightarrow> response_json gw r))"

definition post_payment :: "env \<Rightarrow> gateway \<Rightarrow> dict \<Rightarrow> string \<Rightarrow> err + dict" where
  "post_payment e gw payload key =
     bind_ok (api_transport_settings e gw) (\<lambda>_.
     bind_ok (required_idempotency_key key) (\<lambda>k.
       case gw_call gw (Post_Payment payload k) of
         None \<Rightarrow> Inl YooKassaAPIError
       | Some r \<Rightarrow> response_json gw r))"

section \<open>Payments and refunds\<close>

record payment_snapshot =
  ps_id :: string
  ps_status :: string
  ps_amount :: money
  ps_currency :: string
  ps_test :: bool

record refund_snapshot =
  rf_id :: string
  rf_status :: string
  rf_payment_id :: string
  rf_amount :: money
  rf_currency :: string

definition fetch_payment :: "env \<Rightarrow> gateway \<Rightarrow> string \<Rightarrow> err + payment_snapshot" where
  "fetch_payment e gw payment_id =
     bind_ok (fetch_object e gw ''payments'' payment_id) (\<lambda>payload.
     bind_ok (required_provider_id (dict_get ''id'' payload)) (\<lambda>snapshot_id.
       if snapshot_id \<noteq> payment_id then Inl YooKassaSnapshotError
       else bind_ok (required_amount payload) (\<lambda>(amount, currency).
         bind_ok (required_status (dict_get ''status'' payload) payment_statuses) (\<lambda>status.
         bind_ok (required_boolean (dict_get ''test'' payload)) (\<lambda>test.
           Inr \<lparr>ps_id = snapshot_id, ps_status = status, ps_amount = amount,
                ps_currency = currency, ps_test = test\<rparr>)))))"

definition fetch_refund :: "env \<Rightarrow> gateway \<Rightarrow> string \<Rightarrow> err + refund_snapshot" where
  "fetch_refund e gw refund_id =
     bind_ok (fetch_object e gw ''refunds'' refund_id) (\<lambda>payload.
     bind_ok (required_provider_id (dict_get ''id'' payload)) (\<lambda>snapshot_id.
       if snapshot_id \<noteq> refund_id then Inl YooKassaSnapshotError
       else bind_ok (required_amount payload) (\<lambda>(amount, currency).
         bind_ok (required_status (dict_get ''status'' payload) refund_statuses) (\<lambda>status.
         bind_ok (required_provider_id (dict_get ''payment_id'' payload)) (\<lambda>payment_id.
           Inr \<lparr>rf_id = snapshot_id, rf_status = status, rf_payment_id = payment_id,
                rf_amount = amount, rf_currency = currency\<rparr>)))))"

definition metadata_ok :: "(string \<times> string) list \<Rightarrow> bool" where
  "metadata_ok metadata \<longleftrightarrow> length metadata \<le> 16 \<and>
     list_all (\<lambda>(k, v). 1 \<le> length k \<and> length k \<le> 64 \<and> length v \<le> 512) metadata"

definition payment_payload :: "money \<Rightarrow> string \<Rightarrow> string \<Rightarrow> string \<Rightarrow> (string \<times> string) list \<Rightarrow> dict" where
  "payment_payload amount currency description return_url metadata =
     [(''amount'', JObj [(''value'', JStr (str_cents amount)), (''currency'', JStr currency)]),
      (''confirmation'', JObj [(''type'', JStr ''redirect''), (''return_url'', JStr return_url)]),
      (''capture'', JBool True),
      (''description'', JStr (strip description)),
      (''metadata'', JObj (map (\<lambda>(k, v). (k, JStr v)) metadata))]"

text \<open>The confirmation URL of a payment response.\<close>

definition required_confirmation :: "env \<Rightarrow> dict \<Rightarrow> err + string" where
  "required_confirmation e payment =
     (case dict_get ''confirmation'' payment of
        JObj c \<Rightarrow>
          (if dict_get ''type'' c \<noteq> JStr ''redirect'' then Inl YooKassaSnapshotError
           else case dict_get ''confirmation_url'' c of
             JStr u \<Rightarrow> if u \<noteq> [] \<and> plain_url e [''https''] u then Inr u else Inl YooKassaSnapshotError
           | _ \<Rightarrow> Inl YooKassaSnapshotError)
      | _ \<Rightarrow> Inl YooKassaSnapshotError)"

definition yk_create_payment ::
    "env \<Rightarrow> gateway \<Rightarrow> money \<Rightarrow> string \<Rightarrow> string \<Rightarrow> (string \<times> string) list \<Rightarrow> string \<Rightarrow> err + string \<times> string" where
  "yk_create_payment e gw amount0 description return_url metadata key =
     bind_ok (outgoing_amount amount0 ''RUB'') (\<lambda>(amount, currency).
       if strip description = [] \<or> 128 < length description then Inl ValueError
       else if \<not> metadata_ok metadata then Inl ValueError
       else if \<not> plain_url e [''http'', ''https''] return_url then Inl ValueError
       else
         bind_ok (post_payment e gw (payment_payload amount currency description return_url metadata) key) (\<lambda>payment.
         bind_ok (required_provider_id (dict_get ''id'' payment)) (\<lambda>payment_id.
         bind_ok (required_status (dict_get ''status'' payment) payment_statuses) (\<lambda>_.
         bind_ok (required_amount payment) (\<lambda>(response_amount, response_currency).
         bind_ok (required_boolean (dict_get ''test'' payment)) (\<lambda>_.
         bind_ok (required_confirmation e payment) (\<lambda>confirmation_url.
           if response_amount \<noteq> amount \<or> response_currency \<noteq> currency then Inl YooKassaSnapshotError
           else Inr (payment_id, confirmation_url))))))))"

section \<open>What an accepted response guarantees\<close>

lemma provider_amount_bounds: "provider_amount s = Some k \<Longrightarrow> 0 < k \<and> k \<le> max_provider_amount"
  by (simp add: provider_amount_def split: option.splits if_splits)

lemma provider_amount_text:
  assumes "0 < k" "k \<le> max_provider_amount" shows "provider_amount (str_cents k) = Some k"
proof -
  have "\<bar>k\<bar> < 10 ^ 28" using assms by (simp add: max_provider_amount_def)
  then show ?thesis
    using assms dec_parse_cents [of k] dec_units_cents [of k] by (simp add: provider_amount_def)
qed

lemma required_amount_bounds:
  "required_amount p = Inr (k, c) \<Longrightarrow> 0 < k \<and> k \<le> max_provider_amount \<and> is_currency c"
  by (auto simp: required_amount_def Let_def dest: provider_amount_bounds
      split: json.splits option.splits if_splits)

lemma required_provider_id_ok: "required_provider_id j = Inr s \<Longrightarrow> is_valid_provider_id s \<and> json_text j = s"
  by (auto simp: required_provider_id_def split: if_splits)

lemma required_status_ok: "required_status j ss = Inr s \<Longrightarrow> s \<in> set ss"
  by (auto simp: required_status_def split: if_splits)

lemma join_limited_length:
  "join_limited m cs acc = Inr b \<Longrightarrow> int (length acc) \<le> m \<Longrightarrow> int (length b) \<le> m \<and> b = acc @ concat cs"
  by (induction m cs acc rule: join_limited.induct) (auto split: if_splits)

lemma read_limited:
  "read_response_limited r m = Inr b \<Longrightarrow> int (length b) \<le> m \<and> b = concat (rp_chunks r)"
  using join_limited_length [of m "rp_chunks r" "[]" b]
  by (auto simp: read_response_limited_def split: if_splits)

text \<open>The document of a response that was read: on time, status 200, within the size limit.\<close>

definition delivers :: "gateway \<Rightarrow> http_request \<Rightarrow> dict \<Rightarrow> bool" where
  "delivers gw q p \<longleftrightarrow> (case gw_call gw q of
      None \<Rightarrow> False
    | Some r \<Rightarrow> \<not> rp_late r \<and> rp_status r = 200 \<and> int (length (concat (rp_chunks r))) \<le> gw_max_bytes gw \<and>
        gw_json gw (concat (rp_chunks r)) = Some (JObj p))"

lemma response_json_delivers:
  "gw_call gw q = Some r \<Longrightarrow> response_json gw r = Inr p \<Longrightarrow> delivers gw q p"
  by (auto simp: response_json_def delivers_def dest!: read_limited elim!: bind_ok_OkE
      split: if_splits option.splits json.splits)

lemma fetch_object_delivers:
  "fetch_object e gw res i = Inr p \<Longrightarrow> delivers gw (Get_Object res i) p \<and> is_valid_provider_id i"
  by (auto simp: fetch_object_def json_text_def response_json_delivers required_provider_id_def
      elim!: bind_ok_OkE split: option.splits if_splits)

lemma post_payment_delivers:
  "post_payment e gw payload k = Inr p \<Longrightarrow> delivers gw (Post_Payment payload k) p"
  by (auto simp: post_payment_def response_json_delivers required_idempotency_key_def
      elim!: bind_ok_OkE split: option.splits if_splits)

lemma fetch_payment_sound:
  assumes "fetch_payment e gw i = Inr s"
  shows "ps_id s = i" "is_valid_provider_id i" "ps_status s \<in> set payment_statuses"
    "0 < ps_amount s" "ps_amount s \<le> max_provider_amount" "is_currency (ps_currency s)"
    "\<exists>p. delivers gw (Get_Object ''payments'' i) p"
  using assms
  by (auto simp: fetch_payment_def elim!: bind_ok_OkE split: if_splits
      dest!: fetch_object_delivers required_amount_bounds required_status_ok)

lemma fetch_refund_sound:
  assumes "fetch_refund e gw i = Inr s"
  shows "rf_id s = i" "is_valid_provider_id i" "rf_status s \<in> set refund_statuses"
    "0 < rf_amount s" "rf_amount s \<le> max_provider_amount" "is_currency (rf_currency s)"
    "is_valid_provider_id (rf_payment_id s)"
  using assms
  by (auto simp: fetch_refund_def elim!: bind_ok_OkE split: if_splits
      dest!: fetch_object_delivers required_amount_bounds required_status_ok required_provider_id_ok)

text \<open>An authoritative payment snapshot is never partial: when \<open>fetch_payment\<close> returns, the
  provider answered the request for this very id in time, with status 200 and within the size
  limit, and the snapshot has that id, a known status, a positive amount in whole kopecks within
  the provider's limit and a three-letter currency.\<close>

theorem payment_snapshot_is_complete:
  assumes "fetch_payment e gw i = Inr s"
  shows "ps_id s = i \<and> is_valid_provider_id i \<and> ps_status s \<in> set payment_statuses \<and>
     0 < ps_amount s \<and> ps_amount s \<le> max_provider_amount \<and> is_currency (ps_currency s) \<and>
     (\<exists>p. delivers gw (Get_Object ''payments'' i) p)"
  using fetch_payment_sound [OF assms] by simp

text \<open>A provider for the witnesses: it answers every request with one document.\<close>

definition demo_gateway :: "dict \<Rightarrow> gateway" where
  "demo_gateway p = \<lparr>gw_call = (\<lambda>_. Some \<lparr>rp_late = False, rp_status = 200, rp_encoding = None,
        rp_length = Some ''2'', rp_chunks = [''{'', ''}'']\<rparr>),
     gw_json = (\<lambda>_. Some (JObj p)), gw_enabled = True, gw_shop_id = ''shop'', gw_secret_key = ''key'',
     gw_base_url = ''https://api.yookassa.ru/v3/'', gw_timeouts_ok = True, gw_max_bytes = 1024\<rparr>"

definition demo_payment :: dict where
  "demo_payment = [(''id'', JStr ''pay-1''), (''status'', JStr ''succeeded''), (''test'', JBool False),
     (''amount'', JObj [(''value'', JStr ''14900.00''), (''currency'', JStr ''rub'')]),
     (''confirmation'', JObj [(''type'', JStr ''redirect''), (''confirmation_url'', JStr ''https://y.ru/p'')])]"

lemmas url_defs = urlsplit_def clean_url_def split_scheme_def split_netloc_def before_def after_first_def
  after_last_def is_alpha_def scheme_char_def bracketed_ok_def hostname_def host_of_def no_userinfo_def
  lower_def is_digit_def Let_def

lemma demo_transport: "api_transport_settings demo_env (demo_gateway p) = Inr ()"
  by (simp add: api_transport_settings_def demo_gateway_def url_defs)

lemma demo_amount: "required_amount demo_payment = Inr (1490000, ''RUB'')"
  by (simp add: required_amount_def demo_payment_def dict_get_def provider_amount_def dec_parse_def strip_def
      is_space_def split_sign_def dec_special_def dec_number_def dec_exponent_def is_digit_def digits_value_def
      digit_value_def dec_units_def scaled_def max_provider_amount_def upper_def lower_def json_text_def
      is_currency_def Let_def)

lemma demo_fields: "dict_get ''id'' demo_payment = JStr ''pay-1''"
  "dict_get ''status'' demo_payment = JStr ''succeeded''" "dict_get ''test'' demo_payment = JBool False"
  by (simp_all add: demo_payment_def dict_get_def)

lemma demo_response: "response_json (demo_gateway p)
    \<lparr>rp_late = False, rp_status = 200, rp_encoding = None, rp_length = Some ''2'', rp_chunks = [''{'', ''}'']\<rparr> = Inr p"
  by (simp add: response_json_def demo_gateway_def read_response_limited_def py_int_def strip_def is_space_def
      split_sign_def is_digit_def digits_value_def digit_value_def)

lemma sample_fetch: "fetch_payment demo_env (demo_gateway demo_payment) ''pay-1'' =
    Inr \<lparr>ps_id = ''pay-1'', ps_status = ''succeeded'', ps_amount = 1490000, ps_currency = ''RUB'', ps_test = False\<rparr>"
proof -
  have id: "required_provider_id (JStr ''pay-1'') = Inr ''pay-1''"
    by (simp add: required_provider_id_def is_valid_provider_id_def json_text_def word_char_def is_alpha_def is_digit_def)
  have "gw_call (demo_gateway demo_payment) q = Some \<lparr>rp_late = False, rp_status = 200, rp_encoding = None,
      rp_length = Some ''2'', rp_chunks = [''{'', ''}'']\<rparr>" for q
    by (simp add: demo_gateway_def)
  then have "fetch_object demo_env (demo_gateway demo_payment) ''payments'' ''pay-1'' = Inr demo_payment"
    by (simp add: fetch_object_def id demo_transport demo_response)
  then show ?thesis
    by (simp add: fetch_payment_def demo_amount demo_fields id required_status_def payment_statuses_def
        json_text_def required_boolean_def)
qed

theorem payment_snapshot_is_complete_witness:
  "is_valid_provider_id ''pay-1'' \<and> (\<exists>p. delivers (demo_gateway demo_payment) (Get_Object ''payments'' ''pay-1'') p)"
  using payment_snapshot_is_complete [OF sample_fetch] by simp

lemma outgoing_ok: "outgoing_amount a c = Inr (k, cur) \<Longrightarrow> k = a \<and> cur = upper c \<and> 0 < a \<and> a \<le> max_provider_amount"
  by (auto simp: outgoing_amount_def split: if_splits)

lemma payload_amount:
  assumes "0 < a" "a \<le> max_provider_amount"
  shows "required_amount (payment_payload a ''RUB'' desc url md) = Inr (a, ''RUB'')"
  using provider_amount_text [OF assms]
  by (simp add: required_amount_def payment_payload_def dict_get_def json_text_def upper_def is_currency_def)

lemma required_confirmation_url: "required_confirmation e p = Inr u \<Longrightarrow> plain_url e [''https''] u"
  by (auto simp: required_confirmation_def split: json.splits if_splits)

lemma create_payment_sound:
  assumes "yk_create_payment e gw a desc url md key = Inr (pid, curl)"
  shows "\<exists>p. delivers gw (Post_Payment (payment_payload a ''RUB'' desc url md) key) p \<and>
     required_amount (payment_payload a ''RUB'' desc url md) = Inr (a, ''RUB'') \<and>
     required_amount p = Inr (a, ''RUB'')"
    "is_valid_provider_id pid" "plain_url e [''https''] curl"
proof -
  obtain x where x: "outgoing_amount a ''RUB'' = Inr x"
    using assms by (auto simp: yk_create_payment_def elim!: bind_ok_OkE)
  then have xa: "x = (a, ''RUB'')" "0 < a" "a \<le> max_provider_amount"
    using outgoing_ok [of a "''RUB''" "fst x" "snd x"] by (auto simp: upper_def prod_eq_iff)
  let ?q = "payment_payload a ''RUB'' desc url md"
  have ok: "strip desc \<noteq> []" "length desc \<le> 128" "metadata_ok md" "plain_url e [''http'', ''https''] url"
    using assms by (auto simp: yk_create_payment_def x xa split: if_splits)
  have "bind_ok (post_payment e gw ?q key) (\<lambda>payment.
         bind_ok (required_provider_id (dict_get ''id'' payment)) (\<lambda>payment_id.
         bind_ok (required_status (dict_get ''status'' payment) payment_statuses) (\<lambda>_.
         bind_ok (required_amount payment) (\<lambda>(response_amount, response_currency).
         bind_ok (required_boolean (dict_get ''test'' payment)) (\<lambda>_.
         bind_ok (required_confirmation e payment) (\<lambda>confirmation_url.
           if response_amount \<noteq> a \<or> response_currency \<noteq> ''RUB'' then Inl YooKassaSnapshotError
           else Inr (payment_id, confirmation_url))))))) = Inr (pid, curl)"
    using assms ok by (simp add: yk_create_payment_def x xa)
  then obtain p where p: "post_payment e gw ?q key = Inr p" "required_provider_id (dict_get ''id'' p) = Inr pid"
    "required_amount p = Inr (a, ''RUB'')" "required_confirmation e p = Inr curl"
    by (auto elim!: bind_ok_OkE split: if_splits)
  show "\<exists>p. delivers gw (Post_Payment ?q key) p \<and> required_amount ?q = Inr (a, ''RUB'') \<and>
      required_amount p = Inr (a, ''RUB'')"
    using post_payment_delivers [OF p(1)] payload_amount [OF xa(2,3)] p(3) by blast
  show "is_valid_provider_id pid" using required_provider_id_ok [OF p(2)] by simp
  show "plain_url e [''https''] curl" by (rule required_confirmation_url [OF p(4)])
qed

text \<open>A created payment is the one that was asked for: when \<open>create_payment\<close> returns, one request
  was posted under the caller's idempotency key, the amount text on the wire reads back as exactly
  the amount of the invoice in roubles, the provider's answer carries the same amount and currency,
  the payment id is well formed and the confirmation URL is an https URL with a host and without
  credentials.\<close>

theorem created_payment_matches_request:
  assumes "yk_create_payment e gw a desc url md key = Inr (pid, curl)"
  shows "(\<exists>p. delivers gw (Post_Payment (payment_payload a ''RUB'' desc url md) key) p \<and>
     required_amount (payment_payload a ''RUB'' desc url md) = Inr (a, ''RUB'') \<and>
     required_amount p = Inr (a, ''RUB'')) \<and> is_valid_provider_id pid \<and> plain_url e [''https''] curl"
  using create_payment_sound [OF assms] by simp

lemma demo_confirmation: "required_confirmation demo_env demo_payment = Inr ''https://y.ru/p''"
proof -
  have "dict_get ''confirmation'' demo_payment =
      JObj [(''type'', JStr ''redirect''), (''confirmation_url'', JStr ''https://y.ru/p'')]"
    by (simp add: demo_payment_def dict_get_def)
  moreover have "plain_url demo_env [''https''] ''https://y.ru/p''"
    by (simp add: plain_url_def url_defs port_ok_def port_text_def)
  ultimately show ?thesis by (simp add: required_confirmation_def dict_get_def)
qed

lemma demo_post:
  "required_idempotency_key k = Inr k \<Longrightarrow> post_payment demo_env (demo_gateway p) q k = Inr p"
proof -
  assume k: "required_idempotency_key k = Inr k"
  have "gw_call (demo_gateway p) r = Some \<lparr>rp_late = False, rp_status = 200, rp_encoding = None,
      rp_length = Some ''2'', rp_chunks = [''{'', ''}'']\<rparr>" for r
    by (simp add: demo_gateway_def)
  then show ?thesis by (simp add: post_payment_def demo_transport demo_response k)
qed

lemma sample_create: "yk_create_payment demo_env (demo_gateway demo_payment) 1490000 ''MAP'' ''https://map.ru'' [] ''k1'' =
    Inr (''pay-1'', ''https://y.ru/p'')"
proof -
  have out: "outgoing_amount 1490000 ''RUB'' = Inr (1490000, ''RUB'')"
    by (simp add: outgoing_amount_def max_provider_amount_def upper_def is_currency_def)
  have id: "required_provider_id (JStr ''pay-1'') = Inr ''pay-1''"
    by (simp add: required_provider_id_def is_valid_provider_id_def json_text_def word_char_def is_alpha_def is_digit_def)
  have "required_idempotency_key ''k1'' = Inr ''k1''"
    by (simp add: required_idempotency_key_def word_char_def is_alpha_def is_digit_def)
  note post = demo_post [OF this, of demo_payment]
  have "plain_url demo_env [''http'', ''https''] ''https://map.ru''"
    by (simp add: plain_url_def url_defs port_ok_def port_text_def)
  moreover have "strip ''MAP'' = ''MAP''" by (simp add: strip_def is_space_def)
  ultimately show ?thesis
    by (simp add: yk_create_payment_def out metadata_ok_def post demo_fields id demo_amount demo_confirmation
        required_status_def payment_statuses_def json_text_def required_boolean_def)
qed

theorem created_payment_matches_request_witness:
  "is_valid_provider_id ''pay-1'' \<and> plain_url demo_env [''https''] ''https://y.ru/p''"
  using created_payment_matches_request [OF sample_create] by simp

text \<open>The response body is bounded: a body that is accepted has at most the configured number of
  bytes and is the concatenation of the received chunks, whatever length the headers announced.\<close>

theorem response_body_is_bounded:
  assumes "read_response_limited r max_bytes = Inr body"
  shows "int (length body) \<le> max_bytes \<and> body = concat (rp_chunks r)"
  using read_limited [OF assms] .

theorem response_body_is_bounded_witness:
  "int (length ''{}'') \<le> 1024"
proof -
  have "read_response_limited \<lparr>rp_late = False, rp_status = 200, rp_encoding = Some '' Identity'', rp_length = Some ''2'',
      rp_chunks = [''{'', [], ''}'']\<rparr> 1024 = Inr ''{}''"
    by (simp add: read_response_limited_def py_int_def strip_def is_space_def lower_def
        split_sign_def is_digit_def digits_value_def digit_value_def)
  from response_body_is_bounded [OF this] show ?thesis by simp
qed

end
