(* ===== verification/Invoice_Model.thy ===== *)
theory Invoice_Model
  imports YooKassa
begin

text \<open>
  \<open>Invoice.save\<close> and the constraints of the invoice and checkout-key tables
  (\<^verbatim>\<open>apps/billing/models.py\<close>), and the transition to manual review, which most services share
  (\<^verbatim>\<open>apps/billing/services.py\<close>). Every later operation writes invoices through
  \<open>save_invoice\<close> and \<open>create_invoice\<close> only.
\<close>

section \<open>Constraints\<close>

definition active_states :: "checkout_state list" where
  "active_states = [Ck_Intent_Created, Ck_Provider_Pending, Ck_Provider_Created]"

definition active_intent :: "invoice \<Rightarrow> bool" where
  "active_intent i \<longleftrightarrow> iv_status i = Pending \<and> iv_state i \<in> set active_states"

text \<open>Two different invoices that one of the five unique constraints forbids.\<close>

definition clash :: "invoice \<Rightarrow> invoice \<Rightarrow> bool" where
  "clash i j \<longleftrightarrow>
     (iv_payment_id i \<noteq> [] \<and> iv_payment_id i = iv_payment_id j) \<or>
     (in_client_key (iv_intent i) \<noteq> None \<and> in_client_key (iv_intent i) = in_client_key (iv_intent j) \<and>
        in_tenant (iv_intent i) = in_tenant (iv_intent j)) \<or>
     (in_provider_key (iv_intent i) \<noteq> [] \<and> in_provider_key (iv_intent i) = in_provider_key (iv_intent j)) \<or>
     (active_intent i \<and> active_intent j \<and> in_payload_hash (iv_intent i) \<noteq> [] \<and>
        in_tenant (iv_intent i) = in_tenant (iv_intent j) \<and>
        in_payload_hash (iv_intent i) = in_payload_hash (iv_intent j)) \<or>
     (active_intent i \<and> active_intent j \<and> in_type (iv_intent i) = Subscription_Purchase \<and>
        in_type (iv_intent j) = Subscription_Purchase \<and> in_tenant (iv_intent i) = in_tenant (iv_intent j))"

definition unique_ok :: "invoice \<Rightarrow> db \<Rightarrow> bool" where
  "unique_ok i d \<longleftrightarrow> (\<forall>j\<in>set (d_invoices d). iv_pk j \<noteq> iv_pk i \<longrightarrow> \<not> clash i j)"

section \<open>Saving\<close>

text \<open>\<open>Invoice.save\<close> of an existing row: the payment id is final, a row with an entitlement snapshot
  keeps its financial intent, a new payment id is well formed.\<close>

definition save_guard :: "invoice \<Rightarrow> invoice \<Rightarrow> bool" where
  "save_guard original i \<longleftrightarrow>
     (iv_payment_id original \<noteq> [] \<longrightarrow> iv_payment_id i = iv_payment_id original) \<and>
     (in_snapshot (iv_intent original) \<noteq> [] \<longrightarrow> iv_intent i = iv_intent original) \<and>
     (iv_payment_id i \<noteq> [] \<and> iv_payment_id original = [] \<longrightarrow> is_valid_provider_id (iv_payment_id i))"

definition save_invoice :: "invoice \<Rightarrow> db \<Rightarrow> err + db" where
  "save_invoice i d =
     (case get_invoice (iv_pk i) d of
        None \<Rightarrow> Inl (OtherError ''DatabaseError'')
      | Some original \<Rightarrow>
          (if \<not> save_guard original i then Inl ValidationError
           else if \<not> unique_ok i d then Inl IntegrityError
           else Inr (put_invoice i d)))"

text \<open>\<open>Invoice.objects.create\<close>: the given columns and the defaults.\<close>

definition new_invoice :: "nat \<Rightarrow> intent \<Rightarrow> checkout_state \<Rightarrow> invoice" where
  "new_invoice pk it state =
     \<lparr>iv_pk = pk, iv_intent = it, iv_status = Pending, iv_payment_id = [], iv_paid_at = None,
      iv_refunded = 0, iv_refund_review = False, iv_confirmation_url = [], iv_state = state,
      iv_attempts = 0, iv_first_attempt = None, iv_last_attempt = None, iv_error = [],
      iv_recon_attempts = 0, iv_next_recon = None, iv_last_recon = None\<rparr>"

definition create_invoice :: "intent \<Rightarrow> checkout_state \<Rightarrow> db \<Rightarrow> err + invoice \<times> db" where
  "create_invoice it state d =
     (let i = new_invoice (next_pk iv_pk (d_invoices d)) it state in
      if \<not> unique_ok i d then Inl IntegrityError
      else Inr (i, d\<lparr>d_invoices := row_add i (d_invoices d)\<rparr>))"

section \<open>Manual review\<close>

definition invoice_log :: "nat \<Rightarrow> string \<Rightarrow> string" where
  "invoice_log pk reason = ''Invoice '' @ str_nat pk @ '': '' @ reason"

definition manual_row :: "string \<Rightarrow> bool \<Rightarrow> invoice \<Rightarrow> invoice" where
  "manual_row reason refund_review i =
     i\<lparr>iv_status := Manual_Review,
       iv_state := (if in_client_key (iv_intent i) \<noteq> None then Ck_Manual_Review else iv_state i),
       iv_error := take 500 reason, iv_next_recon := None,
       iv_refund_review := (refund_review \<or> iv_refund_review i)\<rparr>"

definition mark_invoice_manual_review_locked :: "invoice \<Rightarrow> string \<Rightarrow> bool \<Rightarrow> db \<Rightarrow> err + db" where
  "mark_invoice_manual_review_locked i reason refund_review d =
     bind_ok (save_invoice (manual_row reason refund_review i) d) (\<lambda>d'.
       Inr (add_synclog (in_tenant (iv_intent i)) ''error'' (invoice_log (iv_pk i) reason) d'))"

definition mark_invoice_manual_review :: "nat \<Rightarrow> string \<Rightarrow> bool \<Rightarrow> db \<Rightarrow> err + invoice \<times> db" where
  "mark_invoice_manual_review invoice_id reason refund_review d =
     (case get_invoice invoice_id d of
        None \<Rightarrow> Inl DoesNotExist
      | Some i \<Rightarrow>
          bind_ok (mark_invoice_manual_review_locked i reason refund_review d)
            (\<lambda>d'. Inr (manual_row reason refund_review i, d')))"

definition mark_payment_collision_manual :: "nat \<Rightarrow> string \<Rightarrow> string \<Rightarrow> db \<Rightarrow> err + db" where
  "mark_payment_collision_manual invoice_id payment_id reason d =
     sweep (\<lambda>i. mark_invoice_manual_review_locked i reason False)
       (sort_key iv_pk (filter (\<lambda>i. iv_pk i = invoice_id \<or> iv_payment_id i = payment_id) (d_invoices d))) d"

section \<open>Invoices stay consistent\<close>

definition invoices_ok :: "db \<Rightarrow> bool" where
  "invoices_ok d \<longleftrightarrow> distinct (map iv_pk (d_invoices d)) \<and>
     (\<forall>i\<in>set (d_invoices d). \<forall>j\<in>set (d_invoices d). iv_pk i \<noteq> iv_pk j \<longrightarrow> \<not> clash i j)"

lemma clash_symD: "clash i j \<Longrightarrow> clash j i"
  unfolding clash_def by metis

lemma clash_sym: "clash i j \<longleftrightarrow> clash j i"
  using clash_symD by blast

lemma save_invoice_Inr:
  "save_invoice i d = Inr d' \<longleftrightarrow>
     (\<exists>original. get_invoice (iv_pk i) d = Some original \<and> save_guard original i \<and> unique_ok i d \<and> d' = put_invoice i d)"
  by (auto simp: save_invoice_def split: option.splits if_splits)

lemma put_invoice_ok:
  assumes "invoices_ok d" "unique_ok i d"
  shows "invoices_ok (put_invoice i d)"
proof -
  have sub: "set (d_invoices (put_invoice i d)) \<subseteq> insert i {j \<in> set (d_invoices d). iv_pk j \<noteq> iv_pk i}"
    by (auto simp: put_invoice_def row_put_def)
  have "\<not> clash a b" if "a \<in> set (d_invoices (put_invoice i d))" "b \<in> set (d_invoices (put_invoice i d))"
    "iv_pk a \<noteq> iv_pk b" for a b
  proof -
    have "a = i \<or> a \<in> set (d_invoices d) \<and> iv_pk a \<noteq> iv_pk i" "b = i \<or> b \<in> set (d_invoices d) \<and> iv_pk b \<noteq> iv_pk i"
      using that(1,2) sub by auto
    then show ?thesis
      using assms that(3) clash_sym [of a b] by (auto simp: invoices_ok_def unique_ok_def)
  qed
  moreover have "distinct (map iv_pk (d_invoices (put_invoice i d)))"
    using assms(1) by (simp add: invoices_ok_def put_invoice_def map_pk_row_put)
  ultimately show ?thesis by (simp add: invoices_ok_def)
qed

lemma save_invoice_ok: "save_invoice i d = Inr d' \<Longrightarrow> invoices_ok d \<Longrightarrow> invoices_ok d'"
  by (auto simp: save_invoice_Inr put_invoice_ok)

lemma create_invoice_ok:
  assumes "create_invoice it state d = Inr (i, d')" "invoices_ok d"
  shows "invoices_ok d'"
proof -
  have i: "i = new_invoice (next_pk iv_pk (d_invoices d)) it state" "unique_ok i d"
    "d' = d\<lparr>d_invoices := row_add i (d_invoices d)\<rparr>"
    using assms(1) by (auto simp: create_invoice_def Let_def split: if_splits)
  have "iv_pk i \<notin> iv_pk ` set (d_invoices d)"
    using next_pk_fresh [of iv_pk "d_invoices d"] i(1) by (simp add: new_invoice_def)
  moreover have "\<not> clash i j" "\<not> clash j i" if "j \<in> set (d_invoices d)" "iv_pk j \<noteq> iv_pk i" for j
    using i(2) that clash_symD by (auto simp: unique_ok_def)
  ultimately show ?thesis
    using assms(2) i(3) by (auto simp: invoices_ok_def row_add_def)
qed

text \<open>What a save keeps of every invoice: an invoice with a snapshot keeps its intent, and a payment
  id is final.\<close>

definition intent_kept :: "invoice \<Rightarrow> invoice \<Rightarrow> bool" where
  "intent_kept i i' \<longleftrightarrow>
     (in_snapshot (iv_intent i) \<noteq> [] \<longrightarrow> iv_intent i' = iv_intent i) \<and>
     (iv_payment_id i \<noteq> [] \<longrightarrow> iv_payment_id i' = iv_payment_id i)"

definition invoices_kept :: "db \<Rightarrow> db \<Rightarrow> bool" where
  "invoices_kept d d' \<longleftrightarrow> (\<forall>k i. get_invoice k d = Some i \<longrightarrow>
     (\<exists>i'. get_invoice k d' = Some i' \<and> intent_kept i i'))"

lemma intent_kept_refl [intro]: "intent_kept i i"
  by (simp add: intent_kept_def)

lemma intent_kept_trans: "intent_kept i j \<Longrightarrow> intent_kept j k \<Longrightarrow> intent_kept i k"
  by (auto simp: intent_kept_def)

lemma invoices_kept_refl [intro]: "invoices_kept d d"
  by (auto simp: invoices_kept_def)

lemma invoices_kept_trans [trans]: "invoices_kept d d1 \<Longrightarrow> invoices_kept d1 d2 \<Longrightarrow> invoices_kept d d2"
  unfolding invoices_kept_def by (meson intent_kept_trans)

lemma invoices_kept_same: "d_invoices d' = d_invoices d \<Longrightarrow> invoices_kept d d'"
  by (auto simp: invoices_kept_def get_invoice_def)

lemma save_invoice_kept:
  assumes "save_invoice i d = Inr d'" shows "invoices_kept d d'"
proof -
  obtain o' where o': "get_invoice (iv_pk i) d = Some o'" "save_guard o' i" "d' = put_invoice i d"
    using assms by (auto simp: save_invoice_Inr)
  have "get_invoice k d' = (if k = iv_pk i then Some i else get_invoice k d)" for k
    using invoice_table.get_put [OF o'(1)] o'(3) by simp
  then show ?thesis
    using o'(1,2) by (auto simp: invoices_kept_def intent_kept_def save_guard_def)
qed

lemma create_invoice_kept:
  assumes "create_invoice it state d = Inr (i, d')" shows "invoices_kept d d'"
  using assms
  by (auto simp: create_invoice_def Let_def invoices_kept_def get_invoice_def row_get_add split: if_splits)

lemma add_synclog_invoices [simp]: "d_invoices (add_synclog t s m d) = d_invoices d"
  "get_invoice k (add_synclog t s m d) = get_invoice k d"
  by (simp_all add: add_synclog_def get_invoice_def)

lemma mark_locked_kept:
  assumes "mark_invoice_manual_review_locked i r f d = Inr d'" shows "invoices_kept d d'"
proof -
  obtain d1 where s: "save_invoice (manual_row r f i) d = Inr d1"
    and d': "d' = add_synclog (in_tenant (iv_intent i)) ''error'' (invoice_log (iv_pk i) r) d1"
    using assms by (auto simp: mark_invoice_manual_review_locked_def bind_ok_Inr_iff)
  have "invoices_kept d d1" by (rule save_invoice_kept [OF s])
  also have "invoices_kept d1 d'" by (rule invoices_kept_same) (simp add: d')
  finally show ?thesis .
qed

lemma invoices_ok_same: "d_invoices d' = d_invoices d \<Longrightarrow> invoices_ok d' \<longleftrightarrow> invoices_ok d"
  by (simp add: invoices_ok_def)

lemma mark_locked_ok:
  assumes "mark_invoice_manual_review_locked i r f d = Inr d'" "invoices_ok d" shows "invoices_ok d'"
proof -
  obtain d1 where s: "save_invoice (manual_row r f i) d = Inr d1"
    and d': "d' = add_synclog (in_tenant (iv_intent i)) ''error'' (invoice_log (iv_pk i) r) d1"
    using assms(1) by (auto simp: mark_invoice_manual_review_locked_def bind_ok_Inr_iff)
  then show ?thesis using save_invoice_ok [OF s assms(2)] invoices_ok_same [of d' d1] by simp
qed

text \<open>Sweeps that only save.\<close>

lemma sweep_keeps:
  assumes "\<And>x d d'. f x d = Inr d' \<Longrightarrow> invoices_kept d d'"
  shows "sweep f xs d = Inr d' \<Longrightarrow> invoices_kept d d'"
proof (induction xs arbitrary: d)
  case Nil
  then show ?case by auto
next
  case (Cons x xs)
  then obtain d1 where "f x d = Inr d1" "sweep f xs d1 = Inr d'" by (auto split: sum.splits)
  then show ?case using Cons.IH assms invoices_kept_trans by blast
qed

lemma sweep_ok:
  assumes "\<And>x d d'. f x d = Inr d' \<Longrightarrow> invoices_ok d \<Longrightarrow> invoices_ok d'"
  shows "sweep f xs d = Inr d' \<Longrightarrow> invoices_ok d \<Longrightarrow> invoices_ok d'"
proof (induction xs arbitrary: d)
  case Nil
  then show ?case by simp
next
  case (Cons x xs)
  then obtain d1 where "f x d = Inr d1" "sweep f xs d1 = Inr d'" by (auto split: sum.splits)
  then show ?case using Cons assms by blast
qed

lemma collision_kept: "mark_payment_collision_manual i p r d = Inr d' \<Longrightarrow> invoices_kept d d'"
  unfolding mark_payment_collision_manual_def by (rule sweep_keeps) (rule mark_locked_kept)

lemma collision_ok: "mark_payment_collision_manual i p r d = Inr d' \<Longrightarrow> invoices_ok d \<Longrightarrow> invoices_ok d'"
  unfolding mark_payment_collision_manual_def by (rule sweep_ok) (rule mark_locked_ok)

end
