(* ===== verification/Checkout.thy ===== *)
theory Checkout
  imports Invoice_Model
begin

text \<open>
  Checkout (\<^verbatim>\<open>apps/billing/services.py\<close>): browser keys bound to durable intents, the creation of
  subscription and AI top-up intents, and the attempt that calls the provider outside of any
  transaction. An operation that is one transaction has the type \<open>err + 'a \<times> db\<close>; one that
  commits several returns \<open>(err + 'a) \<times> db\<close>, with the database as left by the transactions that
  committed. No operation here runs inside another transaction, so
  \<open>_assert_checkout_transaction_boundary\<close> holds by construction.
\<close>

section \<open>Delays and URLs\<close>

definition reconciliation_delay_seconds :: "env \<Rightarrow> nat \<Rightarrow> int" where
  "reconciliation_delay_seconds e attempt =
     (let exponent = min (attempt - 1) 16
      in min (recon_max_delay e) (recon_base e * 2 ^ exponent))"

definition recon_settings_ok :: "env \<Rightarrow> bool" where
  "recon_settings_ok e \<longleftrightarrow> 1 \<le> recon_base e \<and> recon_base e \<le> recon_max_delay e"

interpretation recon_backoff:
  backoff recon_settings_ok recon_base recon_max_delay reconciliation_delay_seconds
proof
  fix e m n
  assume ok: "recon_settings_ok e"
  then have b: "1 \<le> recon_base e" "recon_base e \<le> recon_max_delay e"
    by (simp_all add: recon_settings_ok_def)
  then show "0 < recon_base e" by simp
  show "recon_base e \<le> reconciliation_delay_seconds e n"
    using capped_doubling(1) [OF b] by (simp add: reconciliation_delay_seconds_def Let_def)
  show "reconciliation_delay_seconds e n \<le> recon_max_delay e"
    by (simp add: reconciliation_delay_seconds_def Let_def)
  assume "m \<le> n"
  then show "reconciliation_delay_seconds e m \<le> reconciliation_delay_seconds e n"
    using capped_doubling(3) [OF b] by (simp add: reconciliation_delay_seconds_def Let_def)
qed

definition is_safe_confirmation_url :: "env \<Rightarrow> string \<Rightarrow> bool" where
  "is_safe_confirmation_url e value = plain_url e [''https''] value"

section \<open>Guards\<close>

definition blocks_subscription_checkout :: "invoice \<Rightarrow> bool" where
  "blocks_subscription_checkout i \<longleftrightarrow> iv_status i = Manual_Review \<and> iv_paid_at i = None"

definition is_unsettled_checkout_manual :: "invoice \<Rightarrow> bool" where
  "is_unsettled_checkout_manual i \<longleftrightarrow> blocks_subscription_checkout i \<and> \<not> iv_refund_review i"

definition provider_checkout_key :: "env \<Rightarrow> nat \<Rightarrow> uuid \<Rightarrow> string" where
  "provider_checkout_key e t key =
     uuid5 e (''yookassa:tenant:'' @ str_nat t @ '':checkout:'' @ uuid_text e key)"

section \<open>Browser keys\<close>

definition key_row :: "nat \<Rightarrow> uuid \<Rightarrow> db \<Rightarrow> client_key option" where
  "key_row t key d = find (\<lambda>r. ck_tenant r = t \<and> ck_key r = key) (d_keys d)"

definition invoice_with_key :: "nat \<Rightarrow> uuid \<Rightarrow> db \<Rightarrow> invoice option" where
  "invoice_with_key t key d =
     find (\<lambda>i. in_tenant (iv_intent i) = t \<and> in_client_key (iv_intent i) = Some key) (d_invoices d)"

text \<open>The number of keys accepted for an intent: its rows, and its canonical key if it has no row yet.\<close>

definition accepted_key_count :: "nat \<Rightarrow> invoice \<Rightarrow> db \<Rightarrow> nat" where
  "accepted_key_count t i d =
     length (filter (\<lambda>r. ck_invoice r = iv_pk i) (d_keys d)) +
     (case in_client_key (iv_intent i) of
        None \<Rightarrow> 0
      | Some c \<Rightarrow> if \<exists>r\<in>set (d_keys d). ck_tenant r = t \<and> ck_invoice r = iv_pk i \<and> ck_key r = c then 0 else 1)"

definition bind_checkout_client_key :: "env \<Rightarrow> nat \<Rightarrow> nat \<Rightarrow> uuid \<Rightarrow> string \<Rightarrow> db \<Rightarrow> err + db" where
  "bind_checkout_client_key e t invoice_id key hash d =
     (case get_invoice invoice_id d of
        None \<Rightarrow> Inl DoesNotExist
      | Some locked \<Rightarrow>
          (if in_tenant (iv_intent locked) \<noteq> t then Inl DoesNotExist
           else if (case invoice_with_key t key d of None \<Rightarrow> False | Some c \<Rightarrow> iv_pk c \<noteq> iv_pk locked)
             then Inl (CheckoutConflict (case invoice_with_key t key d of Some c \<Rightarrow> iv_pk c | None \<Rightarrow> 0))
           else case key_row t key d of
             Some r \<Rightarrow>
               (if ck_invoice r \<noteq> iv_pk locked \<or> ck_hash r \<noteq> hash then Inl (CheckoutConflict (ck_invoice r))
                else Inr d)
           | None \<Rightarrow>
               (if in_client_key (iv_intent locked) \<noteq> Some key \<and> max_keys e \<le> accepted_key_count t locked d
                then Inl (CheckoutKeyLimit (iv_pk locked))
                else Inr (d\<lparr>d_keys := row_add
                       \<lparr>ck_pk = next_pk ck_pk (d_keys d), ck_tenant = t, ck_invoice = iv_pk locked,
                        ck_key = key, ck_hash = hash\<rparr> (d_keys d)\<rparr>))))"

definition checkout_intent_for_client_key ::
    "env \<Rightarrow> nat \<Rightarrow> uuid \<Rightarrow> string \<Rightarrow> bool \<Rightarrow> db \<Rightarrow> err + invoice option \<times> db" where
  "checkout_intent_for_client_key e t key hash bind_legacy_key d =
     (case key_row t key d of
        Some r \<Rightarrow>
          (case get_invoice (ck_invoice r) d of
             None \<Rightarrow> Inl DoesNotExist
           | Some i \<Rightarrow>
               (if ck_hash r \<noteq> hash \<or> in_payload_hash (iv_intent i) \<noteq> hash then Inl (CheckoutConflict (ck_invoice r))
                else Inr (Some i, d)))
      | None \<Rightarrow>
          (case invoice_with_key t key d of
             None \<Rightarrow> Inr (None, d)
           | Some i \<Rightarrow>
               (if in_payload_hash (iv_intent i) \<noteq> hash then Inl (CheckoutConflict (iv_pk i))
                else if bind_legacy_key
                  then bind_ok (bind_checkout_client_key e t (iv_pk i) key hash d) (\<lambda>d'. Inr (Some i, d'))
                else Inr (Some i, d))))"

section \<open>Subscription intents\<close>

definition msg_unfinished :: string where
  "msg_unfinished = ''An unfinished subscription payment requires manual review.''"

definition unresolved_subscription :: "nat \<Rightarrow> invoice \<Rightarrow> bool" where
  "unresolved_subscription t i \<longleftrightarrow>
     in_tenant (iv_intent i) = t \<and> in_type (iv_intent i) = Subscription_Purchase \<and>
     (iv_status i = Manual_Review \<and> iv_paid_at i = None \<or>
      iv_status i = Pending \<and> iv_state i \<in> {Ck_Legacy, Ck_Manual_Review, Ck_Intent_Created, Ck_Provider_Pending, Ck_Provider_Created})"

definition needs_operator :: "invoice \<Rightarrow> bool" where
  "needs_operator i \<longleftrightarrow> blocks_subscription_checkout i \<or> iv_state i \<in> {Ck_Legacy, Ck_Manual_Review}"

definition or_default :: "string \<Rightarrow> string \<Rightarrow> string" where
  "or_default s d = (if s = [] then d else s)"

definition subscription_snapshot :: "plan \<Rightarrow> money \<Rightarrow> string \<Rightarrow> nat \<Rightarrow> dict" where
  "subscription_snapshot p amount period version =
     [(''schema'', JInt 1), (''purchase_type'', JStr ''subscription''), (''amount'', JStr (str_cents amount)),
      (''currency'', JStr ''RUB''), (''period'', JStr period), (''expected_subscription_version'', JInt (int version)),
      (''plan'', JObj [(''id'', JInt (int (pl_pk p))), (''slug'', JStr (pl_slug p)), (''name'', JStr (pl_name p))])]"

definition subscription_intent :: "env \<Rightarrow> nat \<Rightarrow> plan \<Rightarrow> string \<Rightarrow> string \<Rightarrow> uuid \<Rightarrow> string \<Rightarrow> nat \<Rightarrow> intent" where
  "subscription_intent e t p period return_url key hash version =
     (let amount = (if period = ''yearly'' then pl_yearly p else pl_monthly p) in
      \<lparr>in_tenant = t, in_amount = amount, in_currency = ''RUB'', in_type = Subscription_Purchase,
       in_metadata = [(''plan_slug'', JStr (pl_slug p)), (''period'', JStr period)],
       in_client_key = Some key, in_provider_key = provider_checkout_key e t key,
       in_payload_hash = hash, in_return_url = return_url,
       in_snapshot = subscription_snapshot p amount period version,
       in_plan = Some (pl_pk p), in_version = Some version\<rparr>)"

text \<open>The transaction under the lock of the subscription row.\<close>

definition subscription_intent_tx ::
    "env \<Rightarrow> nat \<Rightarrow> string \<Rightarrow> string \<Rightarrow> string \<Rightarrow> uuid \<Rightarrow> string \<Rightarrow> db \<Rightarrow> err + invoice \<times> db" where
  "subscription_intent_tx e t slug period return_url key hash d =
     (case subscription_plan t d of
        None \<Rightarrow> Inl DoesNotExist
      | Some (s, sub_plan) \<Rightarrow>
          bind_ok (checkout_intent_for_client_key e t key hash False d) (\<lambda>(existing, _).
          (let unresolved = filter (unresolved_subscription t) (d_invoices d) in
           case find needs_operator unresolved of
             Some m \<Rightarrow> Inl (CheckoutManualReview (iv_pk m) (or_default (iv_error m) msg_unfinished))
           | None \<Rightarrow>
               (case existing of
                  Some i \<Rightarrow> Inr (i, d)
                | None \<Rightarrow>
                    (if effective_status e s = Active \<and> sub_access_mode e s = Access_Full
                     then Inl (ActiveSubscriptionCheckout (pl_slug sub_plan) (sb_period s) (sb_end s))
                     else case find active_intent unresolved of
                       Some i \<Rightarrow>
                         (if in_payload_hash (iv_intent i) = hash then Inr (i, d)
                          else Inl (SubscriptionCheckoutInProgress (iv_pk i)))
                     | None \<Rightarrow>
                         (case find (\<lambda>p. pl_slug p = slug \<and> pl_active p) (d_plans d) of
                            None \<Rightarrow> Inl DoesNotExist
                          | Some p \<Rightarrow>
                              create_invoice (subscription_intent e t p period return_url key hash (sb_version s))
                                Ck_Intent_Created d))))))"

text \<open>The key is bound in a second transaction.\<close>

definition bind_intent :: "env \<Rightarrow> nat \<Rightarrow> uuid \<Rightarrow> string \<Rightarrow> invoice \<times> db \<Rightarrow> (err + invoice) \<times> db" where
  "bind_intent e t key hash created =
     (case bind_checkout_client_key e t (iv_pk (fst created)) key hash (snd created) of
        Inl x \<Rightarrow> (Inl x, snd created)
      | Inr d' \<Rightarrow> (Inr (fst created), d'))"

definition subscription_checkout_intent ::
    "env \<Rightarrow> nat \<Rightarrow> string \<Rightarrow> string \<Rightarrow> string \<Rightarrow> uuid \<Rightarrow> string \<Rightarrow> db \<Rightarrow> (err + invoice) \<times> db" where
  "subscription_checkout_intent e t slug period return_url key hash d =
     (case subscription_intent_tx e t slug period return_url key hash d of
        Inl x \<Rightarrow> (Inl x, d)
      | Inr created \<Rightarrow> bind_intent e t key hash created)"

section \<open>AI top-up intents\<close>

definition package_snapshot :: "package \<Rightarrow> dict" where
  "package_snapshot p =
     [(''schema'', JInt 1), (''purchase_type'', JStr ''ai_topup''), (''amount'', JStr (str_cents (pk_price p))),
      (''currency'', JStr ''RUB''),
      (''package'', JObj [(''id'', JInt (int (pk_pk p))), (''name'', JStr (pk_name p)),
         (''credits'', JStr (str_cents (pk_credits p))), (''price_rub'', JStr (str_cents (pk_price p)))])]"

definition topup_intent :: "env \<Rightarrow> nat \<Rightarrow> package \<Rightarrow> string \<Rightarrow> uuid \<Rightarrow> string \<Rightarrow> intent" where
  "topup_intent e t p return_url key hash =
     \<lparr>in_tenant = t, in_amount = pk_price p, in_currency = ''RUB'', in_type = AI_Topup,
      in_metadata = [(''tenant_id'', JStr (str_nat t)), (''purchase_type'', JStr ''ai_topup''),
        (''package_id'', JStr (str_nat (pk_pk p)))],
      in_client_key = Some key, in_provider_key = provider_checkout_key e t key,
      in_payload_hash = hash, in_return_url = return_url, in_snapshot = package_snapshot p,
      in_plan = None, in_version = None\<rparr>"

definition topup_intent_tx ::
    "env \<Rightarrow> nat \<Rightarrow> nat \<Rightarrow> string \<Rightarrow> uuid \<Rightarrow> string \<Rightarrow> db \<Rightarrow> err + invoice \<times> db" where
  "topup_intent_tx e t package_id return_url key hash d =
     (if sub_of t d = None then Inl DoesNotExist
      else bind_ok (checkout_intent_for_client_key e t key hash False d) (\<lambda>(existing, _).
        case existing of
          Some i \<Rightarrow> Inr (i, d)
        | None \<Rightarrow>
            (case find (\<lambda>i. in_tenant (iv_intent i) = t \<and> in_type (iv_intent i) = AI_Topup \<and>
                       in_payload_hash (iv_intent i) = hash \<and> active_intent i) (d_invoices d) of
               Some i \<Rightarrow> Inr (i, d)
             | None \<Rightarrow>
                 (case find (\<lambda>p. pk_pk p = package_id \<and> pk_active p) (d_packages d) of
                    None \<Rightarrow> Inl DoesNotExist
                  | Some p \<Rightarrow> create_invoice (topup_intent e t p return_url key hash) Ck_Intent_Created d))))"

definition ai_checkout_intent ::
    "env \<Rightarrow> nat \<Rightarrow> nat \<Rightarrow> string \<Rightarrow> uuid \<Rightarrow> string \<Rightarrow> db \<Rightarrow> (err + invoice) \<times> db" where
  "ai_checkout_intent e t package_id return_url key hash d =
     (case checkout_intent_for_client_key e t key hash True d of
        Inl x \<Rightarrow> (Inl x, d)
      | Inr (Some i, d1) \<Rightarrow> (Inr i, d1)
      | Inr (None, d1) \<Rightarrow>
          (case topup_intent_tx e t package_id return_url key hash d1 of
             Inl x \<Rightarrow> (Inl x, d1)
           | Inr created \<Rightarrow> bind_intent e t key hash created))"

section \<open>The provider attempt\<close>

definition msg_manual_default :: string where "msg_manual_default = ''Invoice requires manual review.''"
definition msg_no_subscription :: string where "msg_no_subscription = ''Subscription of the tenant not found before payment.''"
definition msg_became_active :: string where
  "msg_became_active = ''Subscription became active after the checkout was created.''"
definition msg_no_provider_key :: string where "msg_no_provider_key = ''Checkout intent has no durable provider key.''"
definition msg_attempts_exhausted :: string where "msg_attempts_exhausted = ''Payment attempts are exhausted.''"
definition msg_horizon :: string where
  "msg_horizon = ''The provider idempotency horizon has passed; a retry could duplicate the payment.''"
definition msg_no_package :: string where "msg_no_package = ''Checkout intent has no AI package snapshot.''"
definition msg_no_plan :: string where "msg_no_plan = ''Checkout intent has no plan snapshot.''"
definition msg_other_payment :: string where "msg_other_payment = ''Provider key returned another payment_id.''"
definition msg_payment_taken :: string where
  "msg_payment_taken = ''payment_id is already linked to another invoice; both are blocked.''"

lemmas msg_defs = msg_manual_default_def msg_no_subscription_def msg_became_active_def msg_no_provider_key_def
  msg_attempts_exhausted_def msg_horizon_def msg_no_package_def msg_no_plan_def msg_other_payment_def
  msg_payment_taken_def msg_unfinished_def

text \<open>The description and the metadata of a payment, from the snapshot only.\<close>

definition provider_payment_parameters :: "env \<Rightarrow> invoice \<Rightarrow> err + string \<times> (string \<times> string) list" where
  "provider_payment_parameters e i =
     (let it = iv_intent i; snapshot = in_snapshot it;
          intent_metadata = [(''checkout_intent_id'', str_nat (iv_pk i)),
            (''checkout_client_key'', case in_client_key it of None \<Rightarrow> ''None'' | Some c \<Rightarrow> uuid_text e c)]
      in if in_type it = AI_Topup
         then (case dict_sub ''package'' snapshot of
             None \<Rightarrow> Inl AttributeError
           | Some pkg \<Rightarrow>
               (let name = strip (text_or_empty (dict_get ''name'' pkg)) in
                if name = [] then Inl (CheckoutManualReview (iv_pk i) msg_no_package)
                else Inr (take 128 (''MAP - '' @ name),
                  [(''tenant_id'', str_nat (in_tenant it)), (''purchase_type'', ''ai_topup''),
                   (''package_id'', py_str (dict_get ''id'' pkg))] @ intent_metadata)))
         else (case dict_sub ''plan'' snapshot of
             None \<Rightarrow> Inl AttributeError
           | Some pl \<Rightarrow>
               (let name = strip (text_or_empty (dict_get ''name'' pl)) in
                if name = [] then Inl (CheckoutManualReview (iv_pk i) msg_no_plan)
                else case dict_get ''period'' snapshot of
                  JObj _ \<Rightarrow> Inl TypeError
                | JList _ \<Rightarrow> Inl TypeError
                | period \<Rightarrow>
                    (if period \<noteq> JStr ''monthly'' \<and> period \<noteq> JStr ''yearly''
                     then Inl (CheckoutManualReview (iv_pk i) msg_no_plan)
                     else Inr (take 128 (''MAP '' @ name @ '' ('' @
                            (if period = JStr ''yearly'' then ''year'' else ''month'') @ '')''),
                       [(''tenant_id'', str_nat (in_tenant it)), (''plan_slug'', py_str (dict_get ''slug'' pl)),
                        (''period'', py_str period)] @ intent_metadata)))))"

definition provider_idempotency_horizon :: instant where
  "provider_idempotency_horizon = secs (23 * 3600)"

text \<open>Why an attempt must not be made: the subscription of the tenant first, then the intent itself.\<close>

definition subscription_blocker :: "env \<Rightarrow> invoice \<Rightarrow> db \<Rightarrow> string option" where
  "subscription_blocker e i d =
     (if in_type (iv_intent i) \<noteq> Subscription_Purchase then None
      else case sub_of (in_tenant (iv_intent i)) d of
        None \<Rightarrow> Some msg_no_subscription
      | Some s \<Rightarrow>
          (if effective_status e s = Active \<and> sub_access_mode e s = Access_Full then Some msg_became_active
           else None))"

definition attempt_blocker :: "env \<Rightarrow> invoice \<Rightarrow> string option" where
  "attempt_blocker e i =
     (if in_provider_key (iv_intent i) = [] \<or> in_client_key (iv_intent i) = None then Some msg_no_provider_key
      else if recon_max_attempts e \<le> iv_attempts i then Some msg_attempts_exhausted
      else if (case iv_first_attempt i of None \<Rightarrow> False | Some f \<Rightarrow> f < now e - provider_idempotency_horizon)
        then Some msg_horizon
      else None)"

definition backoff_wait :: "env \<Rightarrow> bool \<Rightarrow> invoice \<Rightarrow> int option" where
  "backoff_wait e respect_backoff i =
     (case iv_next_recon i of
        None \<Rightarrow> None
      | Some n \<Rightarrow> if respect_backoff \<and> n > now e then Some (max 1 ((n - now e) div 1000000)) else None)"

text \<open>What the first transaction decides: the stored URL, manual review with its reason, or the
  attempt with its number, description and metadata.\<close>

datatype attempt =
    Stored_Url string
  | Quarantined string nat
  | Attempt nat string "(string \<times> string) list"

definition quarantined_row :: "string \<Rightarrow> invoice \<Rightarrow> invoice" where
  "quarantined_row reason i =
     i\<lparr>iv_status := Manual_Review, iv_state := Ck_Manual_Review, iv_error := reason, iv_next_recon := None\<rparr>"

definition attempt_row :: "env \<Rightarrow> invoice \<Rightarrow> invoice" where
  "attempt_row e i =
     i\<lparr>iv_attempts := iv_attempts i + 1,
       iv_first_attempt := (case iv_first_attempt i of None \<Rightarrow> Some (now e) | Some f \<Rightarrow> Some f),
       iv_last_attempt := Some (now e), iv_state := Ck_Provider_Pending,
       iv_next_recon := Some (now e + secs (reconciliation_delay_seconds e (iv_attempts i + 1)))\<rparr>"

definition prepare_attempt :: "env \<Rightarrow> nat \<Rightarrow> bool \<Rightarrow> db \<Rightarrow> err + (attempt \<times> invoice) \<times> db" where
  "prepare_attempt e invoice_id respect_backoff d =
     (case get_invoice invoice_id d of
        None \<Rightarrow> Inl DoesNotExist
      | Some i \<Rightarrow>
          (if iv_state i = Ck_Manual_Review \<or> iv_status i = Manual_Review
           then Inl (CheckoutManualReview (iv_pk i) (or_default (iv_error i) msg_manual_default))
           else if iv_status i \<noteq> Pending then Inl (CheckoutTerminal (iv_pk i) (iv_status i))
           else if subscription_blocker e i d = None \<and> iv_confirmation_url i \<noteq> []
             then Inr ((Stored_Url (iv_confirmation_url i), i), d)
           else case (case subscription_blocker e i d of Some r \<Rightarrow> Some r | None \<Rightarrow> attempt_blocker e i) of
             Some reason \<Rightarrow>
               bind_ok (save_invoice (quarantined_row reason i) d) (\<lambda>d'.
                 Inr ((Quarantined reason (in_tenant (iv_intent i)), quarantined_row reason i), d'))
           | None \<Rightarrow>
               (case backoff_wait e respect_backoff i of
                  Some retry_after \<Rightarrow> Inl (CheckoutPending (iv_pk i) retry_after)
                | None \<Rightarrow>
                    (case provider_payment_parameters e (attempt_row e i) of
                       Inr (description, metadata) \<Rightarrow>
                         bind_ok (save_invoice (attempt_row e i) d) (\<lambda>d'.
                           Inr ((Attempt (iv_attempts i + 1) description metadata, attempt_row e i), d'))
                     | Inl (CheckoutManualReview _ reason) \<Rightarrow>
                         bind_ok (save_invoice (quarantined_row reason (attempt_row e i)) d) (\<lambda>d'.
                           Inr ((Quarantined reason (in_tenant (iv_intent i)),
                                 quarantined_row reason (attempt_row e i)), d'))
                     | Inl x \<Rightarrow> Inl x))))"

definition audit_checkout_manual_review :: "nat \<Rightarrow> nat \<Rightarrow> string \<Rightarrow> db \<Rightarrow> db" where
  "audit_checkout_manual_review invoice_id t reason d =
     (if get_tenant t d = None then d else add_synclog t ''error'' (invoice_log invoice_id reason) d)"

text \<open>The network call, with the response checks repeated by the service.\<close>

definition provider_call :: "env \<Rightarrow> gateway \<Rightarrow> invoice \<Rightarrow> string \<Rightarrow> (string \<times> string) list \<Rightarrow> err + string \<times> string" where
  "provider_call e gw i description metadata =
     bind_ok (yk_create_payment e gw (in_amount (iv_intent i)) description (in_return_url (iv_intent i)) metadata
          (in_provider_key (iv_intent i))) (\<lambda>(payment_id, url).
       if is_valid_provider_id payment_id \<and> is_safe_confirmation_url e url then Inr (payment_id, url)
       else Inl ValueError)"

definition store_ambiguous :: "env \<Rightarrow> nat \<Rightarrow> int \<Rightarrow> err \<Rightarrow> db \<Rightarrow> err + db" where
  "store_ambiguous e invoice_id retry_after x d =
     (case get_invoice invoice_id d of
        None \<Rightarrow> Inl DoesNotExist
      | Some i \<Rightarrow>
          (if iv_confirmation_url i \<noteq> [] then Inr d
           else save_invoice (i\<lparr>iv_state := Ck_Provider_Pending,
                  iv_error := take 500 (''Ambiguous YooKassa result: '' @ err_name x),
                  iv_next_recon := Some (now e + secs retry_after)\<rparr>) d))"

definition store_created :: "env \<Rightarrow> nat \<Rightarrow> string \<Rightarrow> string \<Rightarrow> db \<Rightarrow> err + db" where
  "store_created e invoice_id payment_id url d =
     (case get_invoice invoice_id d of
        None \<Rightarrow> Inl DoesNotExist
      | Some i \<Rightarrow>
          (if iv_payment_id i \<noteq> [] \<and> iv_payment_id i \<noteq> payment_id
           then Inl (CheckoutManualReview (iv_pk i) msg_other_payment)
           else save_invoice (i\<lparr>iv_payment_id := payment_id, iv_confirmation_url := url,
                  iv_state := Ck_Provider_Created, iv_error := [],
                  iv_next_recon := Some (now e + secs (recon_base e))\<rparr>) d))"

text \<open>Both invoices of a payment collision are quarantined before the error is raised.\<close>

definition collide :: "nat \<Rightarrow> string \<Rightarrow> string \<Rightarrow> err \<Rightarrow> db \<Rightarrow> (err + string) \<times> db" where
  "collide invoice_id payment_id reason x d =
     (case mark_payment_collision_manual invoice_id payment_id reason d of
        Inl y \<Rightarrow> (Inl y, d)
      | Inr d' \<Rightarrow> (Inl x, d'))"

definition finish_attempt ::
    "env \<Rightarrow> nat \<Rightarrow> int \<Rightarrow> err + string \<times> string \<Rightarrow> db \<Rightarrow> (err + string) \<times> db" where
  "finish_attempt e invoice_id retry_after outcome d =
     (case outcome of
        Inl x \<Rightarrow>
          (case store_ambiguous e invoice_id retry_after x d of
             Inl y \<Rightarrow> (Inl y, d)
           | Inr d' \<Rightarrow> (Inl (CheckoutPending invoice_id retry_after), d'))
      | Inr (payment_id, url) \<Rightarrow>
          (case store_created e invoice_id payment_id url d of
             Inr d' \<Rightarrow> (Inr url, d')
           | Inl (CheckoutManualReview k reason) \<Rightarrow>
               collide invoice_id payment_id reason (CheckoutManualReview k reason) d
           | Inl IntegrityError \<Rightarrow>
               collide invoice_id payment_id msg_payment_taken (CheckoutManualReview invoice_id msg_payment_taken) d
           | Inl _ \<Rightarrow> (Inl (CheckoutPending invoice_id retry_after), d)))"

definition resume_checkout_intent :: "env \<Rightarrow> gateway \<Rightarrow> nat \<Rightarrow> bool \<Rightarrow> db \<Rightarrow> (err + string) \<times> db" where
  "resume_checkout_intent e gw invoice_id respect_backoff d =
     (case prepare_attempt e invoice_id respect_backoff d of
        Inl x \<Rightarrow> (Inl x, d)
      | Inr ((Stored_Url url, _), d1) \<Rightarrow> (Inr url, d1)
      | Inr ((Quarantined reason t, i), d1) \<Rightarrow>
          (Inl (CheckoutManualReview (iv_pk i) reason), audit_checkout_manual_review (iv_pk i) t reason d1)
      | Inr ((Attempt n description metadata, i), d1) \<Rightarrow>
          finish_attempt e invoice_id (reconciliation_delay_seconds e n)
            (provider_call e gw i description metadata) d1)"

section \<open>Entry points\<close>

text \<open>\<open>None\<close> is an \<open>idempotency_key\<close> that is not a UUID.\<close>

definition resume_created :: "env \<Rightarrow> gateway \<Rightarrow> (err + invoice) \<times> db \<Rightarrow> (err + string) \<times> db" where
  "resume_created e gw r =
     (case fst r of
        Inl x \<Rightarrow> (Inl x, snd r)
      | Inr i \<Rightarrow> resume_checkout_intent e gw (iv_pk i) True (snd r))"

definition create_payment ::
    "env \<Rightarrow> gateway \<Rightarrow> nat \<Rightarrow> string \<Rightarrow> string \<Rightarrow> string \<Rightarrow> uuid option \<Rightarrow> db \<Rightarrow> (err + string) \<times> db" where
  "create_payment e gw t slug period return_url idempotency_key d =
     (if \<not> billing_enabled e then (Inl BillingDisabled, d)
      else case idempotency_key of
        None \<Rightarrow> (Inl ValueError, d)
      | Some key \<Rightarrow>
          resume_created e gw (subscription_checkout_intent e t slug period return_url key
            (payload_hash e (Subscription_Payload slug period return_url)) d))"

definition create_ai_topup_payment ::
    "env \<Rightarrow> gateway \<Rightarrow> nat \<Rightarrow> nat \<Rightarrow> string \<Rightarrow> uuid option \<Rightarrow> db \<Rightarrow> (err + string) \<times> db" where
  "create_ai_topup_payment e gw t package_id return_url idempotency_key d =
     (if \<not> billing_enabled e then (Inl BillingDisabled, d)
      else case idempotency_key of
        None \<Rightarrow> (Inl ValueError, d)
      | Some key \<Rightarrow>
          resume_created e gw (ai_checkout_intent e t package_id return_url key
            (payload_hash e (AI_Topup_Payload package_id return_url)) d))"

section \<open>What an attempt leaves alone\<close>

definition same_but_invoices :: "db \<Rightarrow> db \<Rightarrow> bool" where
  "same_but_invoices d d' \<longleftrightarrow> d' = d\<lparr>d_invoices := d_invoices d', d_synclog := d_synclog d'\<rparr>"

lemma same_but_invoicesI: "d' = d\<lparr>d_invoices := x, d_synclog := y\<rparr> \<Longrightarrow> same_but_invoices d d'"
  by (simp add: same_but_invoices_def)

lemma same_but_invoicesD:
  assumes "same_but_invoices d d'"
  shows "d_subs d' = d_subs d" "d_tenants d' = d_tenants d" "d_plans d' = d_plans d" "d_keys d' = d_keys d"
    "d_packages d' = d_packages d" "d_wallets d' = d_wallets d" "d_ledger d' = d_ledger d"
    "d_outbox d' = d_outbox d" "d_reversals d' = d_reversals d" "d_webhooks d' = d_webhooks d"
proof -
  obtain x y where e: "d' = d\<lparr>d_invoices := x, d_synclog := y\<rparr>"
    using assms unfolding same_but_invoices_def by blast
  show "d_subs d' = d_subs d" "d_tenants d' = d_tenants d" "d_plans d' = d_plans d" "d_keys d' = d_keys d"
    "d_packages d' = d_packages d" "d_wallets d' = d_wallets d" "d_ledger d' = d_ledger d"
    "d_outbox d' = d_outbox d" "d_reversals d' = d_reversals d" "d_webhooks d' = d_webhooks d"
    by (simp_all add: e)
qed

lemma same_but_invoices_refl [intro]: "same_but_invoices d d"
  by (simp add: same_but_invoices_def)

lemma same_but_invoices_trans [trans]:
  assumes "same_but_invoices d d1" "same_but_invoices d1 d2" shows "same_but_invoices d d2"
proof -
  obtain x y where "d1 = d\<lparr>d_invoices := x, d_synclog := y\<rparr>"
    using assms(1) unfolding same_but_invoices_def by blast
  moreover obtain x' y' where "d2 = d1\<lparr>d_invoices := x', d_synclog := y'\<rparr>"
    using assms(2) unfolding same_but_invoices_def by blast
  ultimately have "d2 = d\<lparr>d_invoices := x', d_synclog := y'\<rparr>" by simp
  then show ?thesis by (rule same_but_invoicesI)
qed

lemma save_invoice_same: "save_invoice i d = Inr d' \<Longrightarrow> same_but_invoices d d'"
  by (auto simp: save_invoice_Inr put_invoice_def intro: same_but_invoicesI [where y = "d_synclog d"])

lemma synclog_same: "same_but_invoices d (add_synclog t s m d)"
  by (simp add: same_but_invoices_def add_synclog_def)

lemma mark_locked_same: "mark_invoice_manual_review_locked i r f d = Inr d' \<Longrightarrow> same_but_invoices d d'"
  by (auto simp: mark_invoice_manual_review_locked_def bind_ok_Inr_iff
      intro: same_but_invoices_trans [OF save_invoice_same synclog_same])

lemma sweep_frame:
  assumes "\<And>x d d'. f x d = Inr d' \<Longrightarrow> same_but_invoices d d'"
  shows "sweep f xs d = Inr d' \<Longrightarrow> same_but_invoices d d'"
proof (induction xs arbitrary: d)
  case Nil
  then show ?case by auto
next
  case (Cons x xs)
  then obtain d1 where "f x d = Inr d1" "sweep f xs d1 = Inr d'" by (auto split: sum.splits)
  then show ?case using Cons.IH assms same_but_invoices_trans by blast
qed

lemma collision_same: "mark_payment_collision_manual i p r d = Inr d' \<Longrightarrow> same_but_invoices d d'"
  unfolding mark_payment_collision_manual_def by (rule sweep_frame) (rule mark_locked_same)

text \<open>The three facts that every step of a checkout keeps: what is not an invoice, the consistency of
  the invoices, and the intents and payment ids.\<close>

definition checkout_step :: "db \<Rightarrow> db \<Rightarrow> bool" where
  "checkout_step d d' \<longleftrightarrow> same_but_invoices d d' \<and> invoices_kept d d' \<and> (invoices_ok d \<longrightarrow> invoices_ok d')"

lemma checkout_step_refl [intro]: "checkout_step d d"
  by (auto simp: checkout_step_def)

lemma checkout_step_trans [trans]: "checkout_step d d1 \<Longrightarrow> checkout_step d1 d2 \<Longrightarrow> checkout_step d d2"
  unfolding checkout_step_def by (meson same_but_invoices_trans invoices_kept_trans)

lemma step_save: "save_invoice i d = Inr d' \<Longrightarrow> checkout_step d d'"
  unfolding checkout_step_def using save_invoice_same save_invoice_kept save_invoice_ok by blast

lemma step_collision: "mark_payment_collision_manual i p r d = Inr d' \<Longrightarrow> checkout_step d d'"
  unfolding checkout_step_def using collision_same collision_kept collision_ok by blast

lemma step_synclog: "checkout_step d (add_synclog t s m d)"
  using invoices_ok_same [of "add_synclog t s m d" d] invoices_kept_same [of "add_synclog t s m d" d]
  by (simp add: checkout_step_def synclog_same)

lemma prepare_cases:
  assumes "prepare_attempt e k b d = Inr ((a, i'), d')"
  obtains (stored) i where "get_invoice k d = Some i" "a = Stored_Url (iv_confirmation_url i)" "i' = i" "d' = d"
      "iv_status i = Pending" "iv_state i \<noteq> Ck_Manual_Review" "subscription_blocker e i d = None" "iv_confirmation_url i \<noteq> []"
  | (quarantined) i reason where "get_invoice k d = Some i" "a = Quarantined reason (in_tenant (iv_intent i))"
      "i' = quarantined_row reason i \<or> i' = quarantined_row reason (attempt_row e i)" "save_invoice i' d = Inr d'"
  | (attempted) i n description metadata where "get_invoice k d = Some i" "a = Attempt n description metadata"
      "n = iv_attempts i + 1" "i' = attempt_row e i" "save_invoice i' d = Inr d'"
      "provider_payment_parameters e i' = Inr (description, metadata)" "subscription_blocker e i d = None"
      "attempt_blocker e i = None" "backoff_wait e b i = None" "iv_status i = Pending" "iv_confirmation_url i = []"
      "iv_state i \<noteq> Ck_Manual_Review"
proof -
  obtain i where i: "get_invoice k d = Some i"
    using assms by (cases "get_invoice k d") (auto simp: prepare_attempt_def)
  have ok: "iv_state i \<noteq> Ck_Manual_Review" "iv_status i \<noteq> Manual_Review" "iv_status i = Pending"
    using assms i by (auto simp: prepare_attempt_def split: if_splits)
  show thesis
  proof (cases "subscription_blocker e i d = None \<and> iv_confirmation_url i \<noteq> []")
    case True
    then show thesis using assms i ok by (intro stored [OF i]) (auto simp: prepare_attempt_def)
  next
    case url: False
    show thesis
    proof (cases "case subscription_blocker e i d of Some r \<Rightarrow> Some r | None \<Rightarrow> attempt_blocker e i")
      case (Some reason)
      then have "bind_ok (save_invoice (quarantined_row reason i) d) (\<lambda>d'.
          Inr ((Quarantined reason (in_tenant (iv_intent i)), quarantined_row reason i), d')) = Inr ((a, i'), d')"
        using assms i ok url by (simp add: prepare_attempt_def)
      then show thesis using quarantined [OF i] by (auto elim!: bind_ok_OkE)
    next
      case None
      then have free: "subscription_blocker e i d = None" "attempt_blocker e i = None"
        by (auto split: option.splits)
      then have nourl: "iv_confirmation_url i = []" using url by simp
      have wait: "backoff_wait e b i = None"
        using assms i ok url None by (cases "backoff_wait e b i") (auto simp: prepare_attempt_def)
      show thesis
      proof (cases "provider_payment_parameters e (attempt_row e i)")
        case (Inr dm)
        obtain desc md where dm: "dm = (desc, md)" by (cases dm)
        have "bind_ok (save_invoice (attempt_row e i) d) (\<lambda>d'.
            Inr ((Attempt (iv_attempts i + 1) desc md, attempt_row e i), d')) = Inr ((a, i'), d')"
          using assms i ok url None wait Inr dm by (simp add: prepare_attempt_def)
        then show thesis
          using attempted [OF i] free wait ok nourl Inr dm by (auto elim!: bind_ok_OkE)
      next
        case (Inl x)
        then obtain j reason where x: "x = CheckoutManualReview j reason"
          using assms i ok url None wait by (cases x) (simp_all add: prepare_attempt_def)
        have "bind_ok (save_invoice (quarantined_row reason (attempt_row e i)) d) (\<lambda>d'.
            Inr ((Quarantined reason (in_tenant (iv_intent i)), quarantined_row reason (attempt_row e i)), d')) =
            Inr ((a, i'), d')"
          using assms i ok url None wait Inl x by (simp add: prepare_attempt_def)
        then show thesis using quarantined [OF i] by (auto elim!: bind_ok_OkE)
      qed
    qed
  qed
qed

lemma step_prepare: "prepare_attempt e k b d = Inr ((a, i'), d') \<Longrightarrow> checkout_step d d'"
  by (erule prepare_cases) (auto intro: step_save)

lemma step_store_ambiguous: "store_ambiguous e k r x d = Inr d' \<Longrightarrow> checkout_step d d'"
  by (auto simp: store_ambiguous_def intro: step_save split: option.splits if_splits)

lemma step_store_created: "store_created e k p u d = Inr d' \<Longrightarrow> checkout_step d d'"
  by (auto simp: store_created_def intro: step_save split: option.splits if_splits)

lemma step_collide: "checkout_step d (snd (collide k p r x d))"
  by (auto simp: collide_def dest: step_collision split: sum.splits)

lemma step_finish: "checkout_step d (snd (finish_attempt e k r oc d))"
  using step_store_ambiguous step_store_created
  by (auto simp: finish_attempt_def step_collide split: sum.splits err.splits)

lemma step_audit: "checkout_step d (audit_checkout_manual_review k t r d)"
  by (auto simp: audit_checkout_manual_review_def step_synclog)

lemma step_resume: "checkout_step d (snd (resume_checkout_intent e gw k b d))"
proof (cases "prepare_attempt e k b d")
  case (Inl x)
  then show ?thesis by (auto simp: resume_checkout_intent_def)
next
  case (Inr r)
  obtain a i' d1 where r: "r = ((a, i'), d1)" by (metis prod.collapse)
  have s: "checkout_step d d1" using step_prepare Inr r by blast
  show ?thesis
    using s checkout_step_trans [OF s step_audit] checkout_step_trans [OF s step_finish]
    by (cases a) (auto simp: resume_checkout_intent_def Inr r)
qed

section \<open>Any sequence of checkouts\<close>

lemma bind_key_shape:
  assumes "bind_checkout_client_key e t k key hash d = Inr d'"
  shows "d' = d \<or> (\<exists>r. d' = d\<lparr>d_keys := row_add r (d_keys d)\<rparr>)"
  using assms by (auto simp: bind_checkout_client_key_def split: option.splits if_splits)

lemma bind_key_invoices: "bind_checkout_client_key e t k key hash d = Inr d' \<Longrightarrow> d_invoices d' = d_invoices d"
  by (drule bind_key_shape) auto

lemma intent_for_key_invoices:
  "checkout_intent_for_client_key e t key hash b d = Inr (x, d') \<Longrightarrow> d_invoices d' = d_invoices d"
  by (auto simp: checkout_intent_for_client_key_def bind_key_invoices elim!: bind_ok_OkE
      split: option.splits if_splits)

lemma subscription_tx_invoices:
  assumes "subscription_intent_tx e t slug per url key hash d = Inr (i, d')"
  shows "d' = d \<or> (\<exists>it. create_invoice it Ck_Intent_Created d = Inr (i, d'))"
  using assms by (auto simp: subscription_intent_tx_def Let_def elim!: bind_ok_OkE split: option.splits if_splits)

lemma topup_tx_invoices:
  assumes "topup_intent_tx e t p url key hash d = Inr (i, d')"
  shows "d' = d \<or> (\<exists>it. create_invoice it Ck_Intent_Created d = Inr (i, d'))"
  using assms by (auto simp: topup_intent_tx_def elim!: bind_ok_OkE split: option.splits if_splits)

text \<open>The relation between the databases before and after: invoices stay consistent and keep intent
  and payment id.\<close>

definition invoice_step :: "db \<Rightarrow> db \<Rightarrow> bool" where
  "invoice_step d d' \<longleftrightarrow> invoices_kept d d' \<and> (invoices_ok d \<longrightarrow> invoices_ok d')"

lemma invoice_step_trans [trans]: "invoice_step d d1 \<Longrightarrow> invoice_step d1 d2 \<Longrightarrow> invoice_step d d2"
  unfolding invoice_step_def by (meson invoices_kept_trans)

lemma invoice_step_same: "d_invoices d' = d_invoices d \<Longrightarrow> invoice_step d d'"
  using invoices_ok_same [of d' d] invoices_kept_same [of d' d] by (simp add: invoice_step_def)

lemma invoice_step_checkout: "checkout_step d d' \<Longrightarrow> invoice_step d d'"
  by (simp add: checkout_step_def invoice_step_def)

lemma invoice_step_create: "create_invoice it st d = Inr r \<Longrightarrow> invoice_step d (snd r)"
  using create_invoice_kept [of it st d "fst r" "snd r"] create_invoice_ok [of it st d "fst r" "snd r"]
  by (simp add: invoice_step_def)

lemma step_bind_intent: "invoice_step (snd r) (snd (bind_intent e t key hash r))"
  by (auto simp: bind_intent_def intro: invoice_step_same bind_key_invoices split: sum.splits)

lemma step_resume_created: "invoice_step (snd r) (snd (resume_created e gw r))"
  using invoice_step_checkout [OF step_resume] invoice_step_same [of "snd r" "snd r"]
  by (auto simp: resume_created_def split: sum.splits)

lemma step_subscription_intent: "invoice_step d (snd (subscription_checkout_intent e t slug per url key hash d))"
proof (cases "subscription_intent_tx e t slug per url key hash d")
  case (Inl x)
  then show ?thesis by (simp add: subscription_checkout_intent_def invoice_step_same)
next
  case (Inr r)
  then have "invoice_step d (snd r)"
    using subscription_tx_invoices [of e t slug per url key hash d "fst r" "snd r"]
      by (auto intro: invoice_step_create invoice_step_same)
  also have "invoice_step (snd r) (snd (bind_intent e t key hash r))" by (rule step_bind_intent)
  finally show ?thesis using Inr by (simp add: subscription_checkout_intent_def)
qed

lemma step_ai_intent: "invoice_step d (snd (ai_checkout_intent e t p url key hash d))"
proof (cases "checkout_intent_for_client_key e t key hash True d")
  case (Inl x)
  then show ?thesis by (simp add: ai_checkout_intent_def invoice_step_same)
next
  case (Inr r)
  obtain o' d1 where r: "r = (o', d1)" by (cases r)
  have s1: "invoice_step d d1" using Inr r by (auto intro: invoice_step_same intent_for_key_invoices)
  show ?thesis
  proof (cases o')
    case (Some i)
    then show ?thesis using s1 Inr r by (simp add: ai_checkout_intent_def)
  next
    case None
    show ?thesis
    proof (cases "topup_intent_tx e t p url key hash d1")
      case (Inl x)
      then show ?thesis using s1 Inr r None by (simp add: ai_checkout_intent_def)
    next
      case inr: (Inr q)
      have "invoice_step d1 (snd q)"
        using inr topup_tx_invoices [of e t p url key hash d1 "fst q" "snd q"]
          by (auto intro: invoice_step_create invoice_step_same)
      with s1 have "invoice_step d (snd q)" by (rule invoice_step_trans)
      also have "invoice_step (snd q) (snd (bind_intent e t key hash q))" by (rule step_bind_intent)
      finally show ?thesis using Inr r None inr by (simp add: ai_checkout_intent_def)
    qed
  qed
qed

lemma step_create_payment: "invoice_step d (snd (create_payment e gw t slug per url key d))"
proof (cases "billing_enabled e \<and> key \<noteq> None")
  case True
  then show ?thesis
    using invoice_step_trans [OF step_subscription_intent step_resume_created]
    by (auto simp: create_payment_def)
qed (auto simp: create_payment_def invoice_step_same split: option.splits)

lemma step_create_topup: "invoice_step d (snd (create_ai_topup_payment e gw t p url key d))"
proof (cases "billing_enabled e \<and> key \<noteq> None")
  case True
  then show ?thesis
    using invoice_step_trans [OF step_ai_intent step_resume_created]
    by (auto simp: create_ai_topup_payment_def)
qed (auto simp: create_ai_topup_payment_def invoice_step_same split: option.splits)

datatype checkout_op =
    Buy_Subscription env gateway nat string string string "uuid option"
  | Buy_Credits env gateway nat nat string "uuid option"
  | Retry_Checkout env gateway nat bool

fun checkout_act :: "checkout_op \<Rightarrow> db \<Rightarrow> db" where
  "checkout_act (Buy_Subscription e gw t slug per url key) d = snd (create_payment e gw t slug per url key d)"
| "checkout_act (Buy_Credits e gw t p url key) d = snd (create_ai_topup_payment e gw t p url key d)"
| "checkout_act (Retry_Checkout e gw k b) d = snd (resume_checkout_intent e gw k b d)"

lemma step_checkout_act: "invoice_step d (checkout_act op d)"
  by (cases op) (auto simp: step_create_payment step_create_topup intro: invoice_step_checkout step_resume)

lemma step_checkout_run: "invoice_step d (fold checkout_act ops d)"
proof (induction ops arbitrary: d)
  case Nil
  then show ?case by (simp add: invoice_step_same)
next
  case (Cons op ops)
  show ?case using invoice_step_trans [OF step_checkout_act Cons.IH] by simp
qed

text \<open>C35: Whatever checkouts, repetitions and retries are made by whichever tenants, with whatever
  answers of the provider: no tenant ever has two live subscription payments, no two invoices share
  a provider payment, and an invoice that carries an entitlement snapshot keeps its whole financial
  intent (tenant, amount, plan, keys, snapshot) and its payment id.\<close>

theorem one_live_subscription_payment:
  assumes "invoices_ok d" "d' = fold checkout_act ops d" "i \<in> set (d_invoices d')" "j \<in> set (d_invoices d')"
  shows "(active_intent i \<and> active_intent j \<and> in_type (iv_intent i) = Subscription_Purchase \<and>
       in_type (iv_intent j) = Subscription_Purchase \<and> in_tenant (iv_intent i) = in_tenant (iv_intent j)
       \<longrightarrow> iv_pk i = iv_pk j) \<and>
     (iv_payment_id i \<noteq> [] \<and> iv_payment_id i = iv_payment_id j \<longrightarrow> iv_pk i = iv_pk j) \<and>
     (\<forall>k x. get_invoice k d = Some x \<longrightarrow> (\<exists>x'. get_invoice k d' = Some x' \<and>
        (in_snapshot (iv_intent x) \<noteq> [] \<longrightarrow> iv_intent x' = iv_intent x) \<and>
        (iv_payment_id x \<noteq> [] \<longrightarrow> iv_payment_id x' = iv_payment_id x)))"
proof -
  have st: "invoice_step d d'" using step_checkout_run assms(2) by simp
  then have ok: "invoices_ok d'" using assms(1) by (simp add: invoice_step_def)
  have "\<not> clash i j \<or> iv_pk i = iv_pk j" using ok assms(3,4) by (auto simp: invoices_ok_def)
  moreover have "invoices_kept d d'" using st by (simp add: invoice_step_def)
  ultimately show ?thesis by (auto simp: clash_def invoices_kept_def intent_kept_def)
qed

section \<open>Repeating a checkout\<close>

definition no_operator_needed :: "nat \<Rightarrow> db \<Rightarrow> bool" where
  "no_operator_needed t d \<longleftrightarrow> (\<forall>x\<in>set (d_invoices d). unresolved_subscription t x \<longrightarrow> \<not> needs_operator x)"

lemma no_operator_find:
  "no_operator_needed t d \<longleftrightarrow> find needs_operator (filter (unresolved_subscription t) (d_invoices d)) = None"
  by (auto simp: no_operator_needed_def find_None_iff)

lemma get_invoice_mem: "get_invoice k d = Some i \<Longrightarrow> i \<in> set (d_invoices d) \<and> iv_pk i = k"
  unfolding get_invoice_def using row_get_in_set row_get_key by metis

lemma mem_get_invoice: "invoices_ok d \<Longrightarrow> i \<in> set (d_invoices d) \<Longrightarrow> get_invoice (iv_pk i) d = Some i"
  unfolding get_invoice_def invoices_ok_def using row_get_distinct_iff [of iv_pk "d_invoices d"] by blast

lemma invoice_with_key_Some:
  "invoice_with_key t key d = Some i \<Longrightarrow> i \<in> set (d_invoices d) \<and> in_tenant (iv_intent i) = t \<and>
     in_client_key (iv_intent i) = Some key"
  by (auto simp: invoice_with_key_def find_Some_iff)

lemma intent_for_key_found:
  assumes "checkout_intent_for_client_key e t key hash False d = Inr (Some i, d')" "invoices_ok d"
  shows "get_invoice (iv_pk i) d = Some i \<and> in_payload_hash (iv_intent i) = hash"
  using assms get_invoice_mem mem_get_invoice
  by (auto simp: checkout_intent_for_client_key_def dest: invoice_with_key_Some
      split: option.splits if_splits)

lemma created_invoice:
  assumes "create_invoice it st d = Inr (i, d')"
  shows "get_invoice (iv_pk i) d' = Some i \<and> iv_intent i = it \<and> iv_state i = st \<and> iv_status i = Pending \<and>
     d_invoices d' = d_invoices d @ [i] \<and> d' = d\<lparr>d_invoices := d_invoices d'\<rparr>"
proof -
  have i: "i = new_invoice (next_pk iv_pk (d_invoices d)) it st" "d' = d\<lparr>d_invoices := row_add i (d_invoices d)\<rparr>"
    using assms by (auto simp: create_invoice_def Let_def split: if_splits)
  then have "get_invoice (iv_pk i) d' = Some i"
    using row_get_next_pk [of iv_pk "d_invoices d"] by (simp add: get_invoice_def row_get_add new_invoice_def)
  then show ?thesis using i by (simp add: new_invoice_def row_add_def)
qed

lemma subscription_tx_facts:
  assumes "subscription_intent_tx e t slug per url key hash d = Inr (i, d')" "invoices_ok d"
  shows "get_invoice (iv_pk i) d' = Some i" "in_payload_hash (iv_intent i) = hash" "no_operator_needed t d'"
    "d' = d\<lparr>d_invoices := d_invoices d'\<rparr>"
proof -
  obtain s p where sp: "subscription_plan t d = Some (s, p)"
    using assms(1) by (auto simp: subscription_intent_tx_def split: option.splits)
  obtain ex d0 where ex: "checkout_intent_for_client_key e t key hash False d = Inr (ex, d0)"
    using assms(1) sp by (auto simp: subscription_intent_tx_def elim!: bind_ok_OkE)
  have none: "find needs_operator (filter (unresolved_subscription t) (d_invoices d)) = None"
    using assms(1) sp ex
    by (cases "find needs_operator (filter (unresolved_subscription t) (d_invoices d))")
      (simp_all add: subscription_intent_tx_def)
  then have nod: "no_operator_needed t d" by (simp add: no_operator_find)
  have "(get_invoice (iv_pk i) d' = Some i \<and> in_payload_hash (iv_intent i) = hash \<and> d' = d) \<or>
      (\<exists>it. create_invoice it Ck_Intent_Created d = Inr (i, d') \<and> in_payload_hash it = hash)"
  proof (cases ex)
    case (Some x)
    then show ?thesis
      using assms sp ex none intent_for_key_found [of e t key hash d x d0] by (auto simp: subscription_intent_tx_def)
  next
    case None
    show ?thesis
    proof (cases "find active_intent (filter (unresolved_subscription t) (d_invoices d))")
      case (Some x)
      then have "x \<in> set (d_invoices d)" by (auto simp: find_Some_iff dest: nth_mem)
      then have "get_invoice (iv_pk x) d = Some x" by (rule mem_get_invoice [OF assms(2)])
      then show ?thesis
        using assms sp ex none None Some by (auto simp: subscription_intent_tx_def split: if_splits)
    next
      case none2: None
      then show ?thesis
        using assms sp ex none None
        by (auto simp: subscription_intent_tx_def subscription_intent_def Let_def split: if_splits option.splits)
    qed
  qed
  then have "get_invoice (iv_pk i) d' = Some i \<and> in_payload_hash (iv_intent i) = hash \<and>
      no_operator_needed t d' \<and> d' = d\<lparr>d_invoices := d_invoices d'\<rparr>"
  proof
    assume a: "get_invoice (iv_pk i) d' = Some i \<and> in_payload_hash (iv_intent i) = hash \<and> d' = d"
    then have "d' = d\<lparr>d_invoices := d_invoices d'\<rparr>" "no_operator_needed t d'" using nod by simp_all
    then show ?thesis using a by blast
  next
    assume "\<exists>it. create_invoice it Ck_Intent_Created d = Inr (i, d') \<and> in_payload_hash it = hash"
    then obtain it where c: "create_invoice it Ck_Intent_Created d = Inr (i, d')" "in_payload_hash it = hash" by blast
    have "\<not> needs_operator i"
      using created_invoice [OF c(1)] by (simp add: needs_operator_def blocks_subscription_checkout_def)
    then have "no_operator_needed t d'"
      using created_invoice [OF c(1)] nod by (auto simp: no_operator_needed_def)
    moreover have "get_invoice (iv_pk i) d' = Some i" "d' = d\<lparr>d_invoices := d_invoices d'\<rparr>" "in_payload_hash (iv_intent i) = hash"
      using created_invoice [OF c(1)] c(2) by blast+
    ultimately show ?thesis by blast
  qed
  then show "get_invoice (iv_pk i) d' = Some i" "in_payload_hash (iv_intent i) = hash" "no_operator_needed t d'"
    "d' = d\<lparr>d_invoices := d_invoices d'\<rparr>" by blast+
qed

lemma key_row_add:
  "key_row t key d = None \<Longrightarrow> ck_tenant r = t \<Longrightarrow> ck_key r = key \<Longrightarrow>
     key_row t key (d\<lparr>d_keys := row_add r (d_keys d)\<rparr>) = Some r"
proof -
  assume a: "key_row t key d = None" "ck_tenant r = t" "ck_key r = key"
  have "find P (xs @ [r]) = Some r" if "find P xs = None" "P r" for P xs
    using that by (induction xs) (auto split: if_splits)
  then show ?thesis using a by (simp add: key_row_def row_add_def)
qed

lemma bind_key_facts:
  assumes "bind_checkout_client_key e t k key hash d = Inr d'" "get_invoice k d = Some i"
  shows "in_tenant (iv_intent i) = t" "\<exists>r. key_row t key d' = Some r \<and> ck_invoice r = k \<and> ck_hash r = hash"
    "\<And>c. invoice_with_key t key d = Some c \<Longrightarrow> iv_pk c = k"
proof -
  have pk: "iv_pk i = k" using get_invoice_mem [OF assms(2)] by simp
  show "in_tenant (iv_intent i) = t"
    using assms by (auto simp: bind_checkout_client_key_def split: if_splits)
  show "iv_pk c = k" if "invoice_with_key t key d = Some c" for c
    using assms that pk by (auto simp: bind_checkout_client_key_def split: if_splits)
  show "\<exists>r. key_row t key d' = Some r \<and> ck_invoice r = k \<and> ck_hash r = hash"
  proof (cases "key_row t key d")
    case None
    then show ?thesis
      using assms pk key_row_add [OF None]
      by (auto simp: bind_checkout_client_key_def split: if_splits)
  next
    case (Some r)
    then show ?thesis using assms pk by (auto simp: bind_checkout_client_key_def split: if_splits)
  qed
qed

lemma save_invoice_put: "save_invoice i d = Inr d' \<Longrightarrow> d' = put_invoice i d"
  by (auto simp: save_invoice_Inr)

lemma safe_url_nonempty: "is_safe_confirmation_url e url \<Longrightarrow> url \<noteq> []"
proof
  assume safe: "is_safe_confirmation_url e url" and "url = []"
  then show False by (simp add: is_safe_confirmation_url_def plain_url_def url_defs port_ok_def port_text_def)
qed

lemma provider_call_url: "provider_call e gw i de md = Inr (p, url) \<Longrightarrow> url \<noteq> []"
  by (auto simp: provider_call_def safe_url_nonempty split: if_splits elim!: bind_ok_OkE)

text \<open>What a checkout that returned a URL left in the database.\<close>

lemma resume_success:
  assumes "resume_checkout_intent e gw k b d = (Inr url, d')" "get_invoice k d = Some i"
  shows "\<exists>i'. get_invoice k d' = Some i' \<and> iv_pk i' = k \<and> iv_intent i' = iv_intent i \<and> iv_status i' = Pending \<and>
     iv_state i' \<noteq> Ck_Manual_Review \<and> iv_confirmation_url i' = url \<and> url \<noteq> [] \<and>
     (d' = d \<or> iv_state i' = Ck_Provider_Created \<and> d' = put_invoice i' d)"
proof -
  have pk: "iv_pk i = k" using get_invoice_mem [OF assms(2)] by simp
  obtain a j d1 where p: "prepare_attempt e k b d = Inr ((a, j), d1)"
    using assms(1) by (auto simp: resume_checkout_intent_def split: sum.splits)
  show ?thesis
    using p
  proof (cases rule: prepare_cases)
    case (stored i0)
    then show ?thesis using assms p pk by (auto simp: resume_checkout_intent_def)
  next
    case (quarantined i0 reason)
    then show ?thesis using assms p by (simp add: resume_checkout_intent_def)
  next
    case (attempted i0 n desc md)
    have i0: "i0 = i" using attempted(1) assms(2) by simp
    have d1: "d1 = put_invoice (attempt_row e i) d"
      using attempted(4,5) i0 save_invoice_put by simp
    have g1: "get_invoice k d1 = Some (attempt_row e i)"
      using invoice_table.get_put_same [of "attempt_row e i" d] d1 assms(2) pk by (simp add: attempt_row_def)
    have fin: "finish_attempt e k (reconciliation_delay_seconds e n) (provider_call e gw j desc md) d1 = (Inr url, d')"
      using assms(1) p attempted(2) by (simp add: resume_checkout_intent_def)
    obtain pid u where pc: "provider_call e gw j desc md = Inr (pid, u)"
      using fin by (cases "provider_call e gw j desc md") (auto simp: finish_attempt_def split: sum.splits)
    then have sc: "store_created e k pid u d1 = Inr d' \<and> url = u"
      using fin by (auto simp: finish_attempt_def collide_def split: sum.splits err.splits)
    let ?i' = "attempt_row e i\<lparr>iv_payment_id := pid, iv_confirmation_url := u, iv_state := Ck_Provider_Created,
      iv_error := [], iv_next_recon := Some (now e + secs (recon_base e))\<rparr>"
    have sv: "save_invoice ?i' d1 = Inr d'"
      using sc g1 by (auto simp: store_created_def split: if_splits)
    then have "d' = put_invoice ?i' d1" by (rule save_invoice_put)
    moreover have "put_invoice ?i' d1 = put_invoice ?i' d"
      unfolding d1 by (simp add: put_invoice_def row_put_put attempt_row_def)
    ultimately have d': "d' = put_invoice ?i' d" by simp
    have "get_invoice k d' = Some ?i'"
      using invoice_table.get_put_same [of ?i' d] d' assms(2) pk by (simp add: attempt_row_def)
    then show ?thesis
      using d' sc pk attempted(10) i0 provider_call_url [OF pc]
      by (intro exI [of _ ?i']) (simp add: attempt_row_def)
  qed
qed

lemma resume_stored:
  assumes "get_invoice k d = Some i" "iv_status i = Pending" "iv_state i \<noteq> Ck_Manual_Review"
    "subscription_blocker e i d = None" "iv_confirmation_url i = url" "url \<noteq> []"
  shows "resume_checkout_intent e gw k b d = (Inr url, d)"
  using assms by (simp add: resume_checkout_intent_def prepare_attempt_def)

lemma find_row_put:
  assumes "distinct (map pk xs)" "row_get pk (pk r) xs = Some x" "P r = P x"
  shows "map_option pk (find P (row_put pk r xs)) = map_option pk (find P xs)"
  using assms
proof (induction xs)
  case Nil
  then show ?case by simp
next
  case (Cons y xs)
  show ?case
  proof (cases "pk y = pk r")
    case True
    then have "x = y" using Cons.prems(2) by simp
    have "pk r \<notin> pk ` set xs" using Cons.prems(1) True by auto
    then have "row_put pk r xs = xs"
      unfolding row_put_def by (intro map_idI) (metis image_eqI)
    then show ?thesis using True \<open>x = y\<close> Cons.prems(3) by simp
  next
    case False
    then show ?thesis using Cons by simp
  qed
qed

lemma invoice_with_key_put:
  assumes "invoices_ok d" "get_invoice k d = Some i" "iv_pk i' = k" "iv_intent i' = iv_intent i"
  shows "map_option iv_pk (invoice_with_key t key (put_invoice i' d)) = map_option iv_pk (invoice_with_key t key d)"
  using assms unfolding invoice_with_key_def put_invoice_def invoices_ok_def get_invoice_def
  by (auto intro!: find_row_put)

lemma no_operator_put:
  assumes "no_operator_needed t d" "iv_status i' = Pending" "iv_state i' = Ck_Provider_Created"
  shows "no_operator_needed t (put_invoice i' d)"
  using assms by (auto simp: no_operator_needed_def put_invoice_def row_put_def needs_operator_def
      blocks_subscription_checkout_def)

section \<open>A sample checkout\<close>

definition demo_hash :: string where
  "demo_hash = ''s:business:monthly:https://map.ru''"

definition demo_intent :: intent where
  "demo_intent = subscription_intent demo_env 7 demo_plan ''monthly'' ''https://map.ru'' 5 demo_hash 1"

definition ordered :: invoice where
  "ordered = new_invoice 1 demo_intent Ck_Intent_Created"

definition ordered_db :: db where
  "ordered_db = demo_db\<lparr>d_invoices := [ordered],
     d_keys := [\<lparr>ck_pk = 1, ck_tenant = 7, ck_invoice = 1, ck_key = 5, ck_hash = demo_hash\<rparr>]\<rparr>"

definition bought :: invoice where
  "bought = (attempt_row demo_env ordered)\<lparr>iv_payment_id := ''pay-1'', iv_confirmation_url := ''https://y.ru/p'',
     iv_state := Ck_Provider_Created, iv_error := [], iv_next_recon := Some (now demo_env + secs 60)\<rparr>"

definition bought_db :: db where
  "bought_db = ordered_db\<lparr>d_invoices := [bought]\<rparr>"

lemma demo_intent_sel:
  "in_tenant demo_intent = 7" "in_client_key demo_intent = Some 5" "in_payload_hash demo_intent = demo_hash"
  "in_type demo_intent = Subscription_Purchase" "in_amount demo_intent = 1490000"
  "in_return_url demo_intent = ''https://map.ru''"
  by (simp_all add: demo_intent_def subscription_intent_def demo_plan_def)

lemma demo_provider_key: "in_provider_key demo_intent = ''yookassa-tenant-7-checkout-5''"
  by (simp add: demo_intent_def subscription_intent_def Let_def provider_checkout_key_def demo_env_def str_nat.simps digit_def)

lemma demo_trial: "\<not> (effective_status demo_env demo_sub = Active \<and> sub_access_mode demo_env demo_sub = Access_Full)"
  by (simp add: effective_status_def demo_sub_def demo_env_def less_date_def)

lemma demo_subscription: "sub_of 7 demo_db = Some demo_sub" "subscription_plan 7 demo_db = Some (demo_sub, demo_plan)"
  by (simp_all add: subscription_plan_def sub_of_def get_plan_def demo_defs)

lemma sample_intent:
  "subscription_checkout_intent demo_env 7 ''business'' ''monthly'' ''https://map.ru'' 5 demo_hash demo_db =
     (Inr ordered, ordered_db)"
proof -
  have "create_invoice demo_intent Ck_Intent_Created demo_db = Inr (ordered, demo_db\<lparr>d_invoices := [ordered]\<rparr>)"
    by (simp add: create_invoice_def Let_def ordered_def demo_db_def empty_db_def next_pk_def row_add_def unique_ok_def)
  moreover have "find (\<lambda>p. pl_slug p = ''business'' \<and> pl_active p) (d_plans demo_db) = Some demo_plan"
    by (simp add: demo_defs)
  moreover have "checkout_intent_for_client_key demo_env 7 5 demo_hash False demo_db = Inr (None, demo_db)"
    by (simp add: checkout_intent_for_client_key_def key_row_def invoice_with_key_def demo_db_def empty_db_def)
  moreover have "d_invoices demo_db = []" by (simp add: demo_db_def empty_db_def)
  ultimately have "subscription_intent_tx demo_env 7 ''business'' ''monthly'' ''https://map.ru'' 5 demo_hash demo_db =
      Inr (ordered, demo_db\<lparr>d_invoices := [ordered]\<rparr>)"
    using demo_trial demo_subscription demo_intent_def
    by (simp add: subscription_intent_tx_def demo_sub_def)
  moreover have "bind_checkout_client_key demo_env 7 1 5 demo_hash (demo_db\<lparr>d_invoices := [ordered]\<rparr>) = Inr ordered_db"
    by (simp add: bind_checkout_client_key_def get_invoice_def ordered_def new_invoice_def demo_intent_sel
        invoice_with_key_def key_row_def ordered_db_def demo_db_def empty_db_def next_pk_def row_add_def)
  moreover have "iv_pk ordered = 1" by (simp add: ordered_def new_invoice_def)
  ultimately show ?thesis by (simp add: subscription_checkout_intent_def bind_intent_def)
qed

lemma demo_parameters:
  "provider_payment_parameters demo_env (attempt_row demo_env ordered) =
     Inr (''MAP Business (month)'', [(''tenant_id'', ''7''), (''plan_slug'', ''business''), (''period'', ''monthly''),
       (''checkout_intent_id'', ''1''), (''checkout_client_key'', ''5'')])"
  by (simp add: provider_payment_parameters_def attempt_row_def ordered_def new_invoice_def demo_intent_def
      subscription_intent_def subscription_snapshot_def dict_sub_def dict_get_def demo_plan_def demo_env_def
      strip_def is_space_def text_or_empty_def Let_def str_int_def str_nat.simps digit_def)

lemma demo_prepare:
  "prepare_attempt demo_env 1 True ordered_db =
     Inr ((Attempt 1 ''MAP Business (month)'' [(''tenant_id'', ''7''), (''plan_slug'', ''business''),
       (''period'', ''monthly''), (''checkout_intent_id'', ''1''), (''checkout_client_key'', ''5'')],
       attempt_row demo_env ordered), ordered_db\<lparr>d_invoices := [attempt_row demo_env ordered]\<rparr>)"
proof -
  have g: "get_invoice 1 ordered_db = Some ordered"
    by (simp add: get_invoice_def ordered_db_def ordered_def new_invoice_def)
  have "sub_of 7 ordered_db = Some demo_sub" by (simp add: ordered_db_def sub_of_def demo_defs)
  then have sb: "subscription_blocker demo_env ordered ordered_db = None"
    using demo_trial by (simp add: subscription_blocker_def ordered_def new_invoice_def demo_intent_sel)
  have ab: "attempt_blocker demo_env ordered = None"
    by (simp add: attempt_blocker_def ordered_def new_invoice_def demo_intent_sel demo_provider_key demo_env_def)
  have sv: "save_invoice (attempt_row demo_env ordered) ordered_db =
      Inr (ordered_db\<lparr>d_invoices := [attempt_row demo_env ordered]\<rparr>)"
    using g by (simp add: save_invoice_def attempt_row_def save_guard_def unique_ok_def put_invoice_def
        ordered_db_def ordered_def new_invoice_def)
  have st: "iv_state ordered = Ck_Intent_Created" "iv_status ordered = Pending" "iv_confirmation_url ordered = []"
    "iv_attempts ordered = 0" "backoff_wait demo_env True ordered = None"
    by (simp_all add: ordered_def new_invoice_def backoff_wait_def)
  show ?thesis using g sb ab sv st demo_parameters by (simp add: prepare_attempt_def)
qed

lemma demo_provider_call:
  "provider_call demo_env (demo_gateway demo_payment) (attempt_row demo_env ordered) ''MAP Business (month)''
     [(''tenant_id'', ''7''), (''plan_slug'', ''business''), (''period'', ''monthly''),
      (''checkout_intent_id'', ''1''), (''checkout_client_key'', ''5'')] = Inr (''pay-1'', ''https://y.ru/p'')"
proof -
  have out: "outgoing_amount 1490000 ''RUB'' = Inr (1490000, ''RUB'')"
    by (simp add: outgoing_amount_def max_provider_amount_def upper_def is_currency_def)
  have id: "required_provider_id (JStr ''pay-1'') = Inr ''pay-1''" "is_valid_provider_id ''pay-1''"
    by (simp_all add: required_provider_id_def is_valid_provider_id_def json_text_def word_char_def is_alpha_def is_digit_def)
  have "required_idempotency_key ''yookassa-tenant-7-checkout-5'' = Inr ''yookassa-tenant-7-checkout-5''"
    by (simp add: required_idempotency_key_def word_char_def is_alpha_def is_digit_def)
  note post = demo_post [OF this, of demo_payment]
  have url: "plain_url demo_env [''http'', ''https''] ''https://map.ru''"
    by (simp add: plain_url_def url_defs port_ok_def port_text_def)
  have safe: "is_safe_confirmation_url demo_env ''https://y.ru/p''"
    by (simp add: is_safe_confirmation_url_def plain_url_def url_defs port_ok_def port_text_def)
  have it: "iv_intent (attempt_row demo_env ordered) = demo_intent"
    by (simp add: attempt_row_def ordered_def new_invoice_def)
  have "strip ''MAP Business (month)'' = ''MAP Business (month)''" by (simp add: strip_def is_space_def)
  then have "yk_create_payment demo_env (demo_gateway demo_payment) 1490000 ''MAP Business (month)'' ''https://map.ru''
      [(''tenant_id'', ''7''), (''plan_slug'', ''business''), (''period'', ''monthly''),
      (''checkout_intent_id'', ''1''), (''checkout_client_key'', ''5'')] ''yookassa-tenant-7-checkout-5'' =
      Inr (''pay-1'', ''https://y.ru/p'')"
    using url by (simp add: yk_create_payment_def out metadata_ok_def post demo_fields id demo_amount demo_confirmation
        required_status_def payment_statuses_def json_text_def required_boolean_def)
  then show ?thesis using id safe by (simp add: provider_call_def it demo_intent_sel demo_provider_key)
qed

lemma sample_resume:
  "resume_checkout_intent demo_env (demo_gateway demo_payment) 1 True ordered_db = (Inr ''https://y.ru/p'', bought_db)"
proof -
  let ?d = "ordered_db\<lparr>d_invoices := [attempt_row demo_env ordered]\<rparr>"
  have g: "get_invoice 1 ?d = Some (attempt_row demo_env ordered)"
    by (simp add: get_invoice_def attempt_row_def ordered_def new_invoice_def)
  have "is_valid_provider_id ''pay-1''"
    by (simp add: is_valid_provider_id_def word_char_def is_alpha_def is_digit_def)
  then have "save_invoice bought ?d = Inr bought_db"
    by (simp add: save_invoice_def bought_def attempt_row_def ordered_def new_invoice_def get_invoice_def
        save_guard_def unique_ok_def put_invoice_def bought_db_def)
  moreover have "iv_payment_id (attempt_row demo_env ordered) = []" "recon_base demo_env = 60"
    by (simp_all add: attempt_row_def ordered_def new_invoice_def demo_env_def)
  ultimately have "store_created demo_env 1 ''pay-1'' ''https://y.ru/p'' ?d = Inr bought_db"
    using g by (simp add: store_created_def bought_def)
  then show ?thesis
    using demo_prepare demo_provider_call by (simp add: resume_checkout_intent_def finish_attempt_def)
qed

lemma sample_checkout:
  "create_payment demo_env (demo_gateway demo_payment) 7 ''business'' ''monthly'' ''https://map.ru'' (Some 5) demo_db =
     (Inr ''https://y.ru/p'', bought_db)"
proof -
  have "payload_hash demo_env (Subscription_Payload ''business'' ''monthly'' ''https://map.ru'') = demo_hash"
    by (simp add: demo_env_def demo_hash_def)
  moreover have "billing_enabled demo_env" by (simp add: demo_env_def)
  moreover have "iv_pk ordered = 1" by (simp add: ordered_def new_invoice_def)
  ultimately show ?thesis
    using sample_intent sample_resume by (simp add: create_payment_def resume_created_def)
qed

lemma demo_invoices_ok: "invoices_ok demo_db"
  by (simp add: invoices_ok_def demo_db_def empty_db_def)

lemma bought_sel:
  "iv_pk bought = 1" "iv_status bought = Pending" "iv_state bought = Ck_Provider_Created" "iv_intent bought = demo_intent"
  "iv_confirmation_url bought = ''https://y.ru/p''" "iv_payment_id bought = ''pay-1''"
  by (simp_all add: bought_def attempt_row_def ordered_def new_invoice_def)

lemma get_bought: "get_invoice 1 bought_db = Some bought"
  by (simp add: get_invoice_def bought_db_def bought_sel)

lemma bought_ok: "invoices_ok bought_db"
  by (simp add: invoices_ok_def bought_db_def)

lemma sample_retry: "resume_checkout_intent demo_env gw 1 True bought_db = (Inr ''https://y.ru/p'', bought_db)"
proof -
  have "sub_of 7 bought_db = Some demo_sub" by (simp add: bought_db_def ordered_db_def sub_of_def demo_defs)
  then have "subscription_blocker demo_env bought bought_db = None"
    using demo_trial by (simp add: subscription_blocker_def bought_sel demo_intent_sel)
  then show ?thesis using resume_stored [OF get_bought] by (simp add: bought_sel)
qed

theorem one_live_subscription_payment_witness:
  "\<exists>x. get_invoice 1 bought_db = Some x \<and> iv_intent x = demo_intent \<and> iv_payment_id x = ''pay-1''"
proof -
  have d': "bought_db = fold checkout_act [Retry_Checkout demo_env (demo_gateway demo_payment) 1 True] bought_db"
    by (simp add: sample_retry del: One_nat_def)
  have "bought \<in> set (d_invoices bought_db)" by (simp add: bought_db_def)
  from one_live_subscription_payment [OF bought_ok d' this this] get_bought
  obtain x where "get_invoice 1 bought_db = Some x" "in_snapshot (iv_intent bought) \<noteq> [] \<longrightarrow> iv_intent x = iv_intent bought"
    "iv_payment_id bought \<noteq> [] \<longrightarrow> iv_payment_id x = iv_payment_id bought" by blast
  then show ?thesis
    by (simp add: bought_sel demo_intent_def subscription_intent_def subscription_snapshot_def Let_def)
qed

section \<open>A repeated checkout returns the same URL\<close>

lemma subscription_plan_same:
  "d_subs d' = d_subs d \<Longrightarrow> d_plans d' = d_plans d \<Longrightarrow> subscription_plan t d' = subscription_plan t d"
  by (simp add: subscription_plan_def sub_of_def get_plan_def split: option.splits)

lemma blocker_same:
  "iv_intent i' = iv_intent i \<Longrightarrow> d_subs d' = d_subs d \<Longrightarrow> subscription_blocker e i' d' = subscription_blocker e i d"
  by (simp add: subscription_blocker_def sub_of_def)

lemma key_row_same: "d_keys d' = d_keys d \<Longrightarrow> key_row t key d' = key_row t key d"
  by (simp add: key_row_def)

text \<open>A tenant without paid access can still pay.\<close>

definition may_pay :: "env \<Rightarrow> nat \<Rightarrow> db \<Rightarrow> bool" where
  "may_pay e t d \<longleftrightarrow>
     (\<exists>s. sub_of t d = Some s \<and> \<not> (effective_status e s = Active \<and> sub_access_mode e s = Access_Full))"

lemma repeated_intent:
  assumes "key_row t key d = Some r" "ck_invoice r = k" "ck_hash r = hash"
    "get_invoice k d = Some i" "in_payload_hash (iv_intent i) = hash" "in_tenant (iv_intent i) = t"
    "no_operator_needed t d" "subscription_plan t d \<noteq> None"
    "\<And>c. invoice_with_key t key d = Some c \<Longrightarrow> iv_pk c = k"
  shows "subscription_checkout_intent e t slug per url key hash d = (Inr i, d)"
proof -
  obtain s p where sp: "subscription_plan t d = Some (s, p)" using assms(8) by auto
  have pk: "iv_pk i = k" using get_invoice_mem [OF assms(4)] by simp
  have "checkout_intent_for_client_key e t key hash False d = Inr (Some i, d)"
    using assms(1-5) by (simp add: checkout_intent_for_client_key_def)
  then have tx: "subscription_intent_tx e t slug per url key hash d = Inr (i, d)"
    using sp assms(7) by (simp add: subscription_intent_tx_def no_operator_find)
  have "bind_checkout_client_key e t k key hash d = Inr d"
    using assms(1-6,9) pk by (auto simp: bind_checkout_client_key_def split: option.splits)
  then show ?thesis using tx pk by (simp add: subscription_checkout_intent_def bind_intent_def)
qed

lemma repeat_after_success:
  assumes "invoices_ok d" "create_payment e gw t slug per url (Some key) d = (Inr u, d1)"
    "billing_enabled e'" "payload_hash e' = payload_hash e" "may_pay e' t d"
  shows "create_payment e' gw' t slug per url (Some key) d1 = (Inr u, d1)"
proof -
  let ?hash = "payload_hash e (Subscription_Payload slug per url)"
  obtain i d2 where ri: "subscription_checkout_intent e t slug per url key ?hash d = (Inr i, d2)"
    and rs: "resume_checkout_intent e gw (iv_pk i) True d2 = (Inr u, d1)"
    using assms(2) by (cases "subscription_checkout_intent e t slug per url key ?hash d")
      (auto simp: create_payment_def resume_created_def split: if_splits sum.splits)
  obtain d0 where tx: "subscription_intent_tx e t slug per url key ?hash d = Inr (i, d0)"
    and bk: "bind_checkout_client_key e t (iv_pk i) key ?hash d0 = Inr d2"
    using ri by (auto simp: subscription_checkout_intent_def bind_intent_def split: sum.splits)
  note txf = subscription_tx_facts [OF tx assms(1)]
  note bkf = bind_key_facts [OF bk txf(1)]
  have inv2: "d_invoices d2 = d_invoices d0" by (rule bind_key_invoices [OF bk])
  have ok2: "invoices_ok d2"
    using step_subscription_intent [of d e t slug per url key ?hash] ri assms(1) by (simp add: invoice_step_def)
  have g2: "get_invoice (iv_pk i) d2 = Some i" using txf(1) inv2 by (simp add: get_invoice_def)
  have no2: "no_operator_needed t d2" using txf(3) inv2 by (simp add: no_operator_needed_def)
  have wk2: "\<And>c. invoice_with_key t key d2 = Some c \<Longrightarrow> iv_pk c = iv_pk i"
    using bkf(3) inv2 by (simp add: invoice_with_key_def)
  obtain r where r: "key_row t key d2 = Some r" "ck_invoice r = iv_pk i" "ck_hash r = ?hash" using bkf(2) by blast
  obtain i' where i': "get_invoice (iv_pk i) d1 = Some i'" "iv_pk i' = iv_pk i" "iv_intent i' = iv_intent i"
      "iv_status i' = Pending" "iv_state i' \<noteq> Ck_Manual_Review" "iv_confirmation_url i' = u" "u \<noteq> []"
      "d1 = d2 \<or> iv_state i' = Ck_Provider_Created \<and> d1 = put_invoice i' d2"
    using resume_success [OF rs g2] by blast
  have d0: "d_subs d0 = d_subs d" "d_plans d0 = d_plans d"
    using arg_cong [OF txf(4), of d_subs] arg_cong [OF txf(4), of d_plans] by simp_all
  have d2: "d_subs d2 = d_subs d0" "d_plans d2 = d_plans d0"
    using bind_key_shape [OF bk] by auto
  have d1: "d_subs d1 = d_subs d2" "d_plans d1 = d_plans d2" "d_keys d1 = d_keys d2"
    using i'(8) by (auto simp: put_invoice_def)
  have no1: "no_operator_needed t d1" using i'(4,8) no2 no_operator_put by auto
  have "map_option iv_pk (invoice_with_key t key d1) = map_option iv_pk (invoice_with_key t key d2)"
    using i'(8) invoice_with_key_put [OF ok2 g2 i'(2,3), of t key] by auto
  have wk1: "iv_pk c = iv_pk i" if "invoice_with_key t key d1 = Some c" for c
  proof -
    have "map_option iv_pk (invoice_with_key t key d2) = Some (iv_pk c)"
      using that \<open>map_option iv_pk (invoice_with_key t key d1) = _\<close> by simp
    then obtain c' where "invoice_with_key t key d2 = Some c'" "iv_pk c' = iv_pk c" by blast
    then show ?thesis using wk2 [of c'] by simp
  qed
  have "subscription_plan t d \<noteq> None"
    using tx by (cases "subscription_plan t d") (simp_all add: subscription_intent_tx_def)
  then have sp1: "subscription_plan t d1 \<noteq> None"
    using subscription_plan_same [of d1 d t] d0 d1 d2 by simp
  have "subscription_checkout_intent e' t slug per url key ?hash d1 = (Inr i', d1)"
  proof (rule repeated_intent [where r = r and k = "iv_pk i"])
    show "key_row t key d1 = Some r" using r(1) key_row_same [OF d1(3)] by simp
    show "in_payload_hash (iv_intent i') = ?hash" "in_tenant (iv_intent i') = t" using i'(3) txf(2) bkf(1) by simp_all
    show "iv_pk c = iv_pk i" if "invoice_with_key t key d1 = Some c" for c by (rule wk1 [OF that])
  qed (rule r i'(1) no1 sp1)+
  moreover have "subscription_blocker e' i' d1 = None"
    using assms(5) i'(3) bkf(1) d0 d1 d2 by (auto simp: subscription_blocker_def may_pay_def sub_of_def)
  then have "resume_checkout_intent e' gw' (iv_pk i') True d1 = (Inr u, d1)"
    using resume_stored [of "iv_pk i'" d1 i' e' u] i' by simp
  ultimately show ?thesis using assms(3,4) by (simp add: create_payment_def resume_created_def)
qed

text \<open>A retried checkout cannot charge twice: once a subscription checkout has returned a
  confirmation URL, the same request with the same browser key returns the same URL, at any later
  time at which the tenant still has no paid access, without asking the provider (whatever the
  provider would answer) and without changing the database.\<close>

theorem checkout_retry_returns_same_url:
  assumes "invoices_ok d" "create_payment e gw t slug per url (Some key) d = (Inr u, d1)"
    "billing_enabled e'" "payload_hash e' = payload_hash e" "may_pay e' t d"
  shows "create_payment e' gw' t slug per url (Some key) d1 = (Inr u, d1)"
  using repeat_after_success [OF assms] .

theorem checkout_retry_returns_same_url_witness:
  "create_payment demo_env (demo_gateway []) 7 ''business'' ''monthly'' ''https://map.ru'' (Some 5) bought_db =
     (Inr ''https://y.ru/p'', bought_db)"
proof -
  have "may_pay demo_env 7 demo_db" "billing_enabled demo_env"
    using demo_trial demo_subscription(1) by (simp_all add: may_pay_def demo_env_def)
  then show ?thesis
    by (intro checkout_retry_returns_same_url [OF demo_invoices_ok sample_checkout]) simp_all
qed

section \<open>Attempts\<close>

text \<open>A provider attempt is a bounded retry of one recorded request: it is made only for a pending
  invoice without a URL, under a durable key, with its number written first and at most the
  configured maximum, not later than the provider's idempotency horizon (23 hours) after the first
  attempt, never while the tenant's subscription is active with full access, and under the back-off
  only once the recorded time has come; the next retry is recorded between base and maximal delay.\<close>

theorem attempts_are_bounded:
  assumes "recon_settings_ok e" "prepare_attempt e k b d = Inr ((Attempt n description metadata, i'), d')"
  shows "\<exists>i. get_invoice k d = Some i \<and> get_invoice k d' = Some i' \<and> iv_intent i' = iv_intent i \<and>
     iv_status i = Pending \<and> iv_confirmation_url i = [] \<and> in_provider_key (iv_intent i) \<noteq> [] \<and>
     n = iv_attempts i + 1 \<and> iv_attempts i' = n \<and> n \<le> recon_max_attempts e \<and>
     (\<exists>f. iv_first_attempt i' = Some f \<and> (iv_first_attempt i \<noteq> None \<longrightarrow> iv_first_attempt i = Some f) \<and>
        now e \<le> f + 82800 * 1000000) \<and>
     (b \<longrightarrow> (\<forall>w. iv_next_recon i = Some w \<longrightarrow> w \<le> now e)) \<and>
     (\<exists>w. iv_next_recon i' = Some w \<and> now e + secs (recon_base e) \<le> w \<and> w \<le> now e + secs (recon_max_delay e)) \<and>
     (in_type (iv_intent i) = Subscription_Purchase \<longrightarrow> may_pay e (in_tenant (iv_intent i)) d)"
  using assms(2)
proof (cases rule: prepare_cases)
  case (attempted i n0 de md)
  have pk: "iv_pk i = k" using get_invoice_mem attempted(1) by blast
  have "get_invoice k d' = Some i'"
    using invoice_table.get_put_same [of i' d] save_invoice_put [OF attempted(5)] attempted(1,4) pk
    by (simp add: attempt_row_def)
  moreover have "may_pay e (in_tenant (iv_intent i)) d" if "in_type (iv_intent i) = Subscription_Purchase"
    using attempted(7) that by (auto simp: subscription_blocker_def may_pay_def split: option.splits if_splits)
  moreover have "secs (recon_base e) \<le> secs (reconciliation_delay_seconds e (iv_attempts i + 1))"
    "secs (reconciliation_delay_seconds e (iv_attempts i + 1)) \<le> secs (recon_max_delay e)"
    using recon_backoff.delay_ge [OF assms(1)] recon_backoff.delay_le [OF assms(1)] by (simp_all add: secs_def)
  moreover have "in_provider_key (iv_intent i) \<noteq> []" "iv_attempts i + 1 \<le> recon_max_attempts e"
    "\<And>f. iv_first_attempt i = Some f \<Longrightarrow> now e \<le> f + 82800 * 1000000"
    using attempted(8) by (auto simp: attempt_blocker_def provider_idempotency_horizon_def secs_def split: if_splits)
  moreover have "w \<le> now e" if b "iv_next_recon i = Some w" for w
    using attempted(9) that by (auto simp: backoff_wait_def split: if_splits)
  ultimately show ?thesis
    using attempted(1-4,10,11)
    by (intro exI [of _ i]) (auto simp: attempt_row_def split: option.splits)
qed simp_all

theorem attempts_are_bounded_witness:
  "iv_attempts (attempt_row demo_env ordered) = 1 \<and> may_pay demo_env 7 ordered_db"
proof -
  have ok: "recon_settings_ok demo_env" by (simp add: recon_settings_ok_def demo_env_def)
  have "get_invoice 1 ordered_db = Some ordered"
    by (simp add: get_invoice_def ordered_db_def ordered_def new_invoice_def)
  then show ?thesis
    using attempts_are_bounded [OF ok demo_prepare]
    by (auto simp: ordered_def new_invoice_def demo_intent_sel)
qed

text \<open>The parameters are a function of the key and the intent of the invoice.\<close>

lemma parameters_cong:
  assumes "iv_pk i' = iv_pk i" "iv_intent i' = iv_intent i" "uuid_text e' = uuid_text e"
  shows "provider_payment_parameters e' i' = provider_payment_parameters e i"
  unfolding provider_payment_parameters_def assms by (rule refl)

lemma parameters_need_snapshot:
  assumes "provider_payment_parameters e i = Inr p" shows "in_snapshot (iv_intent i) \<noteq> []"
proof
  assume "in_snapshot (iv_intent i) = []"
  then show False
    using assms by (simp add: provider_payment_parameters_def Let_def dict_sub_def dict_get_def text_or_empty_def
        strip_def split: if_splits)
qed

text \<open>All attempts for an invoice send one and the same request: whatever checkouts, retries and
  provider answers lie between two attempts, the later one carries the description, the metadata,
  the amount, the return URL and the idempotency key of the earlier one.\<close>

theorem attempts_repeat_one_request:
  assumes "prepare_attempt e k b d = Inr ((Attempt n description metadata, i), d1)"
    "prepare_attempt e' k b' (fold checkout_act ops d1) = Inr ((Attempt n' description' metadata', i'), d3)"
    "uuid_text e' = uuid_text e"
  shows "description' = description \<and> metadata' = metadata \<and> iv_intent i' = iv_intent i"
proof -
  obtain o1 where o1: "get_invoice k d = Some o1" "i = attempt_row e o1" "save_invoice i d = Inr d1"
      "provider_payment_parameters e i = Inr (description, metadata)"
    using assms(1) by (cases rule: prepare_cases) auto
  obtain o2 where o2: "get_invoice k (fold checkout_act ops d1) = Some o2" "i' = attempt_row e' o2"
      "provider_payment_parameters e' i' = Inr (description', metadata')"
    using assms(2) by (cases rule: prepare_cases) auto
  have pk: "iv_pk i = k" "iv_pk i' = k"
    using get_invoice_mem [OF o1(1)] get_invoice_mem [OF o2(1)] o1(2) o2(2) by (simp_all add: attempt_row_def)
  have "get_invoice k d1 = Some i"
    using invoice_table.get_put_same [of i d] save_invoice_put [OF o1(3)] o1(1) pk by simp
  then obtain x where "get_invoice k (fold checkout_act ops d1) = Some x" "intent_kept i x"
    using step_checkout_run [of d1 ops] unfolding invoice_step_def invoices_kept_def by blast
  then have "iv_intent i' = iv_intent i"
    using o2 parameters_need_snapshot [OF o1(4)] by (simp add: intent_kept_def attempt_row_def)
  then show ?thesis using parameters_cong [of i' i e' e] pk o1(4) o2(3) assms(3) by simp
qed

definition later_env :: env where
  "later_env = demo_env\<lparr>now := now demo_env + secs 60\<rparr>"

lemma later_prepare:
  "is_ok (prepare_attempt later_env 1 True (ordered_db\<lparr>d_invoices := [attempt_row demo_env ordered]\<rparr>))"
  "\<exists>n de md i d. prepare_attempt later_env 1 True (ordered_db\<lparr>d_invoices := [attempt_row demo_env ordered]\<rparr>) =
     Inr ((Attempt n de md, i), d)"
proof -
  let ?i = "attempt_row demo_env ordered" and ?d = "ordered_db\<lparr>d_invoices := [attempt_row demo_env ordered]\<rparr>"
  have pk: "iv_pk ?i = 1" "iv_intent ?i = demo_intent" "iv_payment_id ?i = []" "iv_status ?i = Pending"
    "iv_state ?i = Ck_Provider_Pending" "iv_confirmation_url ?i = []" "iv_attempts ?i = 1"
    "iv_first_attempt ?i = Some (now demo_env)"
    "iv_next_recon ?i = Some (now demo_env + secs 60)"
    by (simp_all add: attempt_row_def ordered_def new_invoice_def reconciliation_delay_seconds_def demo_env_def)
  have g: "get_invoice 1 ?d = Some ?i" by (simp add: get_invoice_def pk)
  have "sub_of 7 ?d = Some demo_sub" by (simp add: ordered_db_def sub_of_def demo_defs)
  moreover have "\<not> (effective_status later_env demo_sub = Active \<and> sub_access_mode later_env demo_sub = Access_Full)"
    by (simp add: effective_status_def demo_sub_def later_env_def demo_env_def less_date_def)
  ultimately have sb: "subscription_blocker later_env ?i ?d = None"
    by (simp add: subscription_blocker_def pk demo_intent_sel)
  have ab: "attempt_blocker later_env ?i = None"
    by (simp add: attempt_blocker_def pk demo_intent_sel demo_provider_key later_env_def
        provider_idempotency_horizon_def secs_def)
      (simp add: demo_env_def)
  have bw: "backoff_wait later_env True ?i = None" by (simp add: backoff_wait_def pk later_env_def)
  have "provider_payment_parameters later_env (attempt_row later_env ?i) = provider_payment_parameters demo_env ?i"
    by (rule parameters_cong) (simp_all add: attempt_row_def later_env_def)
  note pp = this [unfolded demo_parameters]
  have "save_invoice (attempt_row later_env ?i) ?d = Inr (?d\<lparr>d_invoices := [attempt_row later_env ?i]\<rparr>)"
    using g pk by (simp add: save_invoice_def attempt_row_def save_guard_def unique_ok_def put_invoice_def
        ordered_db_def ordered_def new_invoice_def)
  then show "\<exists>n de md i d. prepare_attempt later_env 1 True ?d = Inr ((Attempt n de md, i), d)"
    using g pk sb ab bw pp by (simp add: prepare_attempt_def)
  then show "is_ok (prepare_attempt later_env 1 True ?d)" by auto
qed

theorem attempts_repeat_one_request_witness:
  "\<exists>n i d. prepare_attempt later_env 1 True (ordered_db\<lparr>d_invoices := [attempt_row demo_env ordered]\<rparr>) =
     Inr ((Attempt n ''MAP Business (month)'' [(''tenant_id'', ''7''), (''plan_slug'', ''business''),
       (''period'', ''monthly''), (''checkout_intent_id'', ''1''), (''checkout_client_key'', ''5'')], i), d)"
proof -
  obtain n de md i d where p: "prepare_attempt later_env 1 True
      (fold checkout_act [] (ordered_db\<lparr>d_invoices := [attempt_row demo_env ordered]\<rparr>)) = Inr ((Attempt n de md, i), d)"
    using later_prepare(2) by auto
  have "uuid_text later_env = uuid_text demo_env" by (simp add: later_env_def)
  from attempts_repeat_one_request [OF demo_prepare p this] p show ?thesis by auto
qed

end
