(* ===== verification/Fulfilment.thy ===== *)
theory Fulfilment
  imports Checkout
begin

text \<open>
  Fulfilment of payments (\<^verbatim>\<open>apps/billing/services.py\<close>: \<open>_ai_entitlement_from_invoice\<close>,
  \<open>handle_payment_success_webhook\<close>, \<open>handle_payment_failed_webhook\<close>). Each handler is one
  transaction: \<open>Inl\<close> rolls back. The argument \<open>amount\<close> is the text \<open>str(amount)\<close> the handler
  parses. Currency codes are ASCII.
\<close>

section \<open>Amounts and texts\<close>

text \<open>\<open>Decimal(str(amount))\<close>, finite, positive, and with at most two places.\<close>

definition received_amount :: "string \<Rightarrow> money option" where
  "received_amount text =
     (case dec_parse text of
        None \<Rightarrow> None
      | Some x \<Rightarrow> (case dec_units 2 x of None \<Rightarrow> None | Some u \<Rightarrow> if 0 < u then Some u else None))"

definition received_currency :: "string \<Rightarrow> string" where
  "received_currency c = upper c"

definition is_currency_text :: "string \<Rightarrow> bool" where
  "is_currency_text c \<longleftrightarrow> length c = 3 \<and> list_all is_alpha c"

text \<open>\<open>str\<close> of a finite decimal: plain notation unless the exponent is positive or the value is tiny.\<close>

definition str_decimal :: "decimal \<Rightarrow> string" where
  "str_decimal x = (case x of
      Non_Finite \<Rightarrow> ''NaN''
    | Dec c e \<Rightarrow>
        (let digits = str_nat (nat \<bar>c\<bar>); left = e + int (length digits);
             dot = (if e \<le> 0 \<and> - 6 < left then left else 1);
             (whole, frac) =
               (if dot \<le> 0 then (''0'', ''.'' @ replicate (nat (- dot)) (CHR ''0'') @ digits)
                else if int (length digits) \<le> dot
                  then (digits @ replicate (nat (dot - int (length digits))) (CHR ''0''), [])
                else (take (nat dot) digits, ''.'' @ drop (nat dot) digits))
         in (if c < 0 then ''-'' else []) @ whole @ frac @
            (if left = dot then []
             else ''E'' @ (if left - dot < 0 then [] else ''+'') @ str_int (left - dot))))"

section \<open>The entitlement of an AI top-up\<close>

text \<open>Comparing a JSON value with a Python number: \<open>True\<close> and \<open>1.0\<close> equal 1.\<close>

definition json_is_int :: "json \<Rightarrow> int \<Rightarrow> bool" where
  "json_is_int j n = (case j of
      JInt i \<Rightarrow> i = n
    | JBool b \<Rightarrow> n = (if b then 1 else 0)
    | JFloat r \<Rightarrow> r = str_int n @ ''.0''
    | _ \<Rightarrow> False)"

definition json_decimal :: "json \<Rightarrow> decimal option" where
  "json_decimal j = dec_parse (py_str j)"

definition equals_cents :: "decimal \<Rightarrow> money \<Rightarrow> bool" where
  "equals_cents x a \<longleftrightarrow> dec_units 2 x = Some a"

definition topup_key :: "string \<Rightarrow> string" where
  "topup_key payment_id = ''yookassa-topup:'' @ payment_id"

definition topup_rows :: "invoice \<Rightarrow> db \<Rightarrow> credit_txn list" where
  "topup_rows i d = filter (\<lambda>x. tx_tenant x = in_tenant (iv_intent i) \<and> tx_kind x = K_Topup \<and>
     (tx_key x = topup_key (iv_payment_id i) \<or> tx_reference x = iv_payment_id i)) (d_ledger d)"

definition ledger_snapshot :: "invoice \<Rightarrow> credit_txn \<Rightarrow> dict" where
  "ledger_snapshot i x =
     [(''schema'', JInt 1), (''purchase_type'', JStr ''ai_topup''),
      (''amount'', JStr (str_cents (in_amount (iv_intent i)))), (''currency'', JStr (in_currency (iv_intent i))),
      (''package'', JObj [(''id'', dict_get ''package_id'' (in_metadata (iv_intent i))),
         (''name'', JStr ''Legacy AI top-up''), (''credits'', JStr (str_decimal (Dec (tx_amount x) (- 4)))),
         (''price_rub'', JStr (str_cents (in_amount (iv_intent i))))]),
      (''legacy_ledger_backfill'', JBool True)]"

definition ai_entitlement_from_invoice :: "invoice \<Rightarrow> db \<Rightarrow> err + decimal option \<times> dict" where
  "ai_entitlement_from_invoice i d =
     (let it = iv_intent i; snapshot = in_snapshot it in
      if snapshot \<noteq> [] then
        (case dict_sub ''package'' snapshot of
           None \<Rightarrow> Inl AttributeError
         | Some pkg \<Rightarrow>
             (case (json_decimal (dict_get ''credits'' pkg), json_decimal (dict_get ''amount'' snapshot),
                    json_decimal (dict_get ''price_rub'' pkg)) of
                (Some credits, Some amount, Some price) \<Rightarrow>
                  (if \<not> json_is_int (dict_get ''schema'' snapshot) 1 \<or>
                      dict_get ''purchase_type'' snapshot \<noteq> JStr ''ai_topup'' \<or>
                      dict_get ''currency'' snapshot \<noteq> JStr (in_currency it) \<or>
                      \<not> dec_finite credits \<or> \<not> dec_positive credits \<or>
                      \<not> equals_cents amount (in_amount it) \<or> \<not> equals_cents price (in_amount it)
                   then Inr (None, snapshot) else Inr (Some credits, snapshot))
              | _ \<Rightarrow> Inr (None, snapshot)))
      else
        (case take 2 (topup_rows i d) of
           [x] \<Rightarrow> if 0 < tx_amount x then Inr (Some (Dec (tx_amount x) (- 4)), ledger_snapshot i x)
                  else Inr (None, snapshot)
         | _ \<Rightarrow> Inr (None, snapshot)))"

section \<open>Messages\<close>

definition msg_foreign_payment :: "string \<Rightarrow> string" where
  "msg_foreign_payment payment_id = ''Invoice does not belong to payment_id='' @ payment_id @ ''.''"
definition msg_bad_amount :: string where "msg_bad_amount = ''Authoritative payment has a malformed amount.''"
definition msg_no_credits :: string where "msg_no_credits = ''Cannot determine the purchased number of AI credits.''"
definition msg_subscription_missing :: string where "msg_subscription_missing = ''Subscription of the tenant not found.''"
definition msg_broken_snapshot :: string where "msg_broken_snapshot = ''Immutable subscription snapshot is damaged.''"
definition msg_snapshot_differs :: string where
  "msg_snapshot_differs = ''Immutable subscription snapshot does not match the invoice.''"
definition msg_unclear_plan :: string where
  "msg_unclear_plan = ''Cannot determine the purchased plan and period unambiguously.''"
definition msg_plan_differs :: string where
  "msg_plan_differs = ''Purchased plan does not match the immutable snapshot.''"

definition msg_wrong_amount :: "invoice \<Rightarrow> string \<Rightarrow> money \<Rightarrow> string \<Rightarrow> string" where
  "msg_wrong_amount i payment_id amount currency =
     ''Payment '' @ payment_id @ '': expected '' @ str_cents (in_amount (iv_intent i)) @ '' '' @
     in_currency (iv_intent i) @ '', received '' @ str_cents amount @ '' '' @ or_default currency ''<empty>'' @ ''.''"

definition msg_changed :: "nat \<Rightarrow> nat \<Rightarrow> string" where
  "msg_changed expected actual =
     ''Subscription changed after checkout: expected_version='' @ str_nat expected @
     '', actual_version='' @ str_nat actual @ ''.''"

definition msg_topped_up :: "decimal \<Rightarrow> string" where
  "msg_topped_up credits = ''AI balance topped up by '' @ str_decimal credits @ '' credits''"

definition msg_paid :: "invoice \<Rightarrow> string" where
  "msg_paid i = ''Payment of '' @ str_cents (in_amount (iv_intent i)) @ '' RUB succeeded''"

section \<open>Success\<close>

definition paid_key :: "nat \<Rightarrow> string \<Rightarrow> string" where
  "paid_key pk what = ''invoice:'' @ str_nat pk @ '':paid:'' @ what @ '':v1''"

text \<open>The tenant and the invoice of \<open>select_related('tenant').get(pk=...)\<close>.\<close>

definition invoice_with_tenant :: "nat \<Rightarrow> db \<Rightarrow> (invoice \<times> tenant) option" where
  "invoice_with_tenant k d =
     (case get_invoice k d of
        None \<Rightarrow> None
      | Some i \<Rightarrow> map_option (Pair i) (get_tenant (in_tenant (iv_intent i)) d))"

definition refuse :: "invoice \<Rightarrow> string \<Rightarrow> db \<Rightarrow> err + bool \<times> db" where
  "refuse i reason d =
     bind_ok (mark_invoice_manual_review_locked i reason False d) (\<lambda>d'. Inr (False, d'))"

definition paid_row :: "env \<Rightarrow> invoice \<Rightarrow> invoice" where
  "paid_row e i =
     i\<lparr>iv_status := Paid, iv_paid_at := Some (now e), iv_error := [], iv_next_recon := None,
       iv_state := (if is_unsettled_checkout_manual i then Ck_Provider_Created else iv_state i)\<rparr>"

definition with_snapshot :: "dict \<Rightarrow> invoice \<Rightarrow> invoice" where
  "with_snapshot s i = i\<lparr>iv_intent := (iv_intent i)\<lparr>in_snapshot := s\<rparr>\<rparr>"

definition fulfil_topup :: "env \<Rightarrow> tenant \<Rightarrow> invoice \<Rightarrow> db \<Rightarrow> err + bool \<times> db" where
  "fulfil_topup e tn i d =
     bind_ok (ai_entitlement_from_invoice i d) (\<lambda>(entitlement, snapshot).
       case entitlement of
         None \<Rightarrow> refuse i msg_no_credits d
       | Some credits \<Rightarrow>
           (let backfill = in_snapshot (iv_intent i) = [];
                i1 = (if backfill then with_snapshot snapshot i else i)
            in
            bind_ok (if backfill then save_invoice i1 d else Inr d) (\<lambda>d1.
            bind_ok (save_invoice (paid_row e i1) d1) (\<lambda>d2.
            bind_ok (topup e tn (dec_column 4 credits) (topup_key (iv_payment_id i)) (iv_payment_id i) d2) (\<lambda>(_, d3).
            bind_ok (enqueue_notification (tn_pk tn) ''billing'' (msg_topped_up credits @ ''.'')
                (paid_key (iv_pk i) ''notification'') (Some (paid_row e i1)) [] d3) (\<lambda>(_, d4).
              Inr (True, add_synclog (tn_pk tn) ''ok'' (msg_topped_up credits) d4)))))))"

text \<open>What a paid subscription invoice bought: a plan and a period, or for an invoice from before the
  intents only the reactivation of the present subscription; or the reason for manual review.\<close>

datatype bought_terms = Review string | Terms plan string bool

definition legacy_status_only :: "invoice \<Rightarrow> bool" where
  "legacy_status_only i \<longleftrightarrow>
     in_snapshot (iv_intent i) = [] \<and> in_plan (iv_intent i) = None \<and>
     \<not> truthy (dict_get ''plan_slug'' (in_metadata (iv_intent i)))"

definition bought_period :: "invoice \<Rightarrow> json" where
  "bought_period i =
     (let p = dict_get ''period'' (in_snapshot (iv_intent i)) in
      if truthy p then p
      else (case map_of (in_metadata (iv_intent i)) ''period'' of None \<Rightarrow> JStr ''monthly'' | Some q \<Rightarrow> q))"

definition version_matches :: "json \<Rightarrow> nat option \<Rightarrow> bool" where
  "version_matches j v = (case v of None \<Rightarrow> j = JNull | Some n \<Rightarrow> json_is_int j (int n))"

text \<open>The plan id and slug of a snapshot that agrees with its invoice; a document without a snapshot
  has none.\<close>

definition snapshot_plan :: "invoice \<Rightarrow> err + string + (int \<times> string) option" where
  "snapshot_plan i =
     (let it = iv_intent i; snapshot = in_snapshot it in
      if snapshot = [] then Inr (Inr None)
      else case json_decimal (dict_get ''amount'' snapshot) of
        None \<Rightarrow> Inr (Inl msg_broken_snapshot)
      | Some amount \<Rightarrow>
          (case dict_sub ''plan'' snapshot of
             None \<Rightarrow> Inl AttributeError
           | Some pl \<Rightarrow>
               (case py_int (text_or_empty (dict_get ''id'' pl)) of
                  None \<Rightarrow> Inr (Inl msg_broken_snapshot)
                | Some plan_id \<Rightarrow>
                    (if \<not> json_is_int (dict_get ''schema'' snapshot) 1 \<or>
                        dict_get ''purchase_type'' snapshot \<noteq> JStr ''subscription'' \<or>
                        dict_get ''currency'' snapshot \<noteq> JStr (in_currency it) \<or>
                        \<not> equals_cents amount (in_amount it) \<or>
                        (case in_plan it of None \<Rightarrow> False | Some p \<Rightarrow> int p \<noteq> plan_id) \<or>
                        \<not> version_matches (dict_get ''expected_subscription_version'' snapshot) (in_version it)
                     then Inr (Inl msg_snapshot_differs)
                     else Inr (Inr (Some (plan_id, text_or_empty (dict_get ''slug'' pl))))))))"

definition bought_plan :: "invoice \<Rightarrow> (int \<times> string) option \<Rightarrow> subscription \<Rightarrow> db \<Rightarrow> plan option" where
  "bought_plan i snap s d =
     (case (in_plan (iv_intent i), snap) of
        (Some p, _) \<Rightarrow> get_plan p d
      | (None, Some (plan_id, _)) \<Rightarrow> find (\<lambda>p. int (pl_pk p) = plan_id) (d_plans d)
      | (None, None) \<Rightarrow>
          (let slug = dict_get ''plan_slug'' (in_metadata (iv_intent i)) in
           if truthy slug then find (\<lambda>p. pl_slug p = py_str slug) (d_plans d)
           else get_plan (sb_plan s) d))"

definition purchased_terms :: "invoice \<Rightarrow> subscription \<Rightarrow> db \<Rightarrow> err + bought_terms" where
  "purchased_terms i s d =
     bind_ok (snapshot_plan i) (\<lambda>sp.
       case sp of
         Inl reason \<Rightarrow> Inr (Review reason)
       | Inr snap \<Rightarrow>
           (case bought_plan i snap s d of
              None \<Rightarrow> Inr (Review msg_unclear_plan)
            | Some p \<Rightarrow>
                (case bought_period i of
                   JObj _ \<Rightarrow> Inl TypeError
                 | JList _ \<Rightarrow> Inl TypeError
                 | JStr period \<Rightarrow>
                     (if period \<noteq> ''monthly'' \<and> period \<noteq> ''yearly'' then Inr (Review msg_unclear_plan)
                      else if (case snap of None \<Rightarrow> False
                               | Some (plan_id, slug) \<Rightarrow> int (pl_pk p) \<noteq> plan_id \<or> pl_slug p \<noteq> slug)
                        then Inr (Review msg_plan_differs)
                      else case in_version (iv_intent i) of
                        Some v \<Rightarrow> if sb_version s \<noteq> v then Inr (Review (msg_changed v (sb_version s)))
                                  else Inr (Terms p period (legacy_status_only i))
                      | None \<Rightarrow> Inr (Terms p period (legacy_status_only i)))
                 | _ \<Rightarrow> Inr (Review msg_unclear_plan))))"

definition backfill_snapshot :: "invoice \<Rightarrow> plan \<Rightarrow> string \<Rightarrow> bool \<Rightarrow> dict" where
  "backfill_snapshot i p period legacy =
     [(''schema'', JInt 1), (''purchase_type'', JStr ''subscription''),
      (''amount'', JStr (str_cents (in_amount (iv_intent i)))), (''currency'', JStr (in_currency (iv_intent i))),
      (''period'', JStr period), (''expected_subscription_version'', JNull),
      (''plan'', JObj [(''id'', JInt (int (pl_pk p))), (''slug'', JStr (pl_slug p)), (''name'', JStr (pl_name p))]),
      (''legacy_backfill'', JBool True), (''legacy_status_only'', JBool legacy)]"

text \<open>The term that a payment buys. A trial is replaced from today on; paid days that are left are
  kept. \<open>None\<close>: the calendar raises.\<close>

definition renewed :: "env \<Rightarrow> plan \<Rightarrow> string \<Rightarrow> subscription \<Rightarrow> subscription option" where
  "renewed e p period s =
     (let term_base = (if sb_status s = Trial then today e else max (today e) (sb_end s)) in
      case (if period = ''yearly'' then add_billing_year term_base else add_billing_month term_base) of
        None \<Rightarrow> None
      | Some end \<Rightarrow>
          (case add_billing_months (today e) 1 of
             None \<Rightarrow> None
           | Some m \<Rightarrow>
               Some (s\<lparr>sb_plan := pl_pk p, sb_period := period, sb_status := Active, sb_start := today e,
                 sb_end := end, sb_ai_start := Some (today e), sb_ai_end := Some (min m end),
                 sb_cancelled_at := None, sb_version := sb_version s + 1\<rparr>)))"

definition reactivated :: "subscription \<Rightarrow> subscription" where
  "reactivated s = s\<lparr>sb_status := Active, sb_version := sb_version s + 1\<rparr>"

definition renewed_or_raise :: "env \<Rightarrow> plan \<Rightarrow> string \<Rightarrow> bool \<Rightarrow> subscription \<Rightarrow> err + subscription" where
  "renewed_or_raise e p period legacy s =
     (if legacy then Inr (reactivated s) else or_raise ValueError (renewed e p period s))"

definition backfilled :: "invoice \<Rightarrow> plan \<Rightarrow> string \<Rightarrow> bool \<Rightarrow> subscription \<Rightarrow> invoice" where
  "backfilled i p period legacy s =
     (if in_snapshot (iv_intent i) \<noteq> [] then i
      else i\<lparr>iv_intent := (iv_intent i)\<lparr>
               in_snapshot := backfill_snapshot i p (if legacy then sb_period s else period) legacy,
               in_plan := Some (pl_pk p)\<rparr>\<rparr>)"

definition grant_term :: "env \<Rightarrow> tenant \<Rightarrow> bool \<Rightarrow> subscription \<Rightarrow> db \<Rightarrow> err + db" where
  "grant_term e tn legacy s d =
     (if legacy then Inr d
      else db_of (grant_included e tn (Some (effective_limit tn (reset_ai_used (tn_pk tn) d))) (sb_ai_end s)
             (version_grant_key (sb_pk s) (sb_version s)) (reset_ai_used (tn_pk tn) d)))"

definition fulfil_terms ::
    "env \<Rightarrow> tenant \<Rightarrow> invoice \<Rightarrow> plan \<Rightarrow> string \<Rightarrow> bool \<Rightarrow> subscription \<Rightarrow> db \<Rightarrow> err + bool \<times> db" where
  "fulfil_terms e tn i p period legacy s d =
     bind_ok (renewed_or_raise e p period legacy s) (\<lambda>s'.
     (let i' = paid_row e (backfilled i p period legacy s) in
      bind_ok (save_invoice i' (sync_tenant_trial_end e s' (put_sub s' d))) (\<lambda>d1.
      bind_ok (grant_term e tn legacy s' d1) (\<lambda>d2.
      bind_ok (enqueue_notification (tn_pk tn) ''billing'' (msg_paid i @ ''. Subscription activated.'')
          (paid_key (iv_pk i) ''notification'') (Some i') [] d2) (\<lambda>(_, d3).
      bind_ok (enqueue_limit_reached_requeue (tn_pk tn) (paid_key (iv_pk i) ''requeue'') (Some i') d3) (\<lambda>(_, d4).
        Inr (True, add_synclog (tn_pk tn) ''ok'' (msg_paid i) d4)))))))"

definition fulfil_subscription :: "env \<Rightarrow> tenant \<Rightarrow> invoice \<Rightarrow> db \<Rightarrow> err + bool \<times> db" where
  "fulfil_subscription e tn i d =
     (case sub_of (tn_pk tn) d of
        None \<Rightarrow> refuse i msg_subscription_missing d
      | Some s \<Rightarrow>
          bind_ok (purchased_terms i s d) (\<lambda>terms.
            case terms of
              Review reason \<Rightarrow> refuse i reason d
            | Terms p period legacy \<Rightarrow> fulfil_terms e tn i p period legacy s d))"

text \<open>Whether the payment is the one the invoice asks for: the amount and currency, or the reason.\<close>

definition payment_objection :: "invoice \<Rightarrow> string \<Rightarrow> string \<Rightarrow> string \<Rightarrow> string option" where
  "payment_objection i payment_id amount currency =
     (if payment_id = [] \<or> iv_payment_id i \<noteq> payment_id then Some (msg_foreign_payment payment_id)
      else case received_amount amount of
        None \<Rightarrow> Some msg_bad_amount
      | Some a \<Rightarrow>
          (if \<not> is_currency_text (received_currency currency) \<or> a \<noteq> in_amount (iv_intent i) \<or>
              received_currency currency \<noteq> in_currency (iv_intent i)
           then Some (msg_wrong_amount i payment_id a (received_currency currency))
           else None))"

definition handle_payment_success_webhook ::
    "env \<Rightarrow> nat \<Rightarrow> string \<Rightarrow> string \<Rightarrow> string \<Rightarrow> db \<Rightarrow> err + bool \<times> db" where
  "handle_payment_success_webhook e invoice_id payment_id amount currency d =
     (case invoice_with_tenant invoice_id d of
        None \<Rightarrow> Inr (False, d)
      | Some (i, tn) \<Rightarrow>
          (case payment_objection i payment_id amount currency of
             Some reason \<Rightarrow> refuse i reason d
           | None \<Rightarrow>
               (if iv_status i \<in> {Paid, Partially_Refunded, Refunded} then Inr (True, d)
                else if iv_status i \<noteq> Pending \<and> \<not> is_unsettled_checkout_manual i then Inr (False, d)
                else if in_type (iv_intent i) = AI_Topup then fulfil_topup e tn i d
                else fulfil_subscription e tn i d)))"

section \<open>Cancellation\<close>

definition failed_row :: "invoice \<Rightarrow> invoice" where
  "failed_row i =
     i\<lparr>iv_status := Failed, iv_error := [], iv_next_recon := None,
       iv_state := (if is_unsettled_checkout_manual i then Ck_Provider_Created else iv_state i)\<rparr>"

definition handle_payment_failed_webhook :: "nat \<Rightarrow> string \<Rightarrow> db \<Rightarrow> err + bool \<times> db" where
  "handle_payment_failed_webhook invoice_id payment_id d =
     (case invoice_with_tenant invoice_id d of
        None \<Rightarrow> Inr (False, d)
      | Some (i, tn) \<Rightarrow>
          (if payment_id = [] \<or> iv_payment_id i \<noteq> payment_id then Inr (False, d)
           else if iv_status i = Failed then Inr (True, d)
           else if iv_status i \<noteq> Pending \<and> \<not> is_unsettled_checkout_manual i then Inr (False, d)
           else bind_ok (save_invoice (failed_row i) d) (\<lambda>d1.
             Inr (True, add_synclog (tn_pk tn) ''warn'' (''Payment failed (payment_id='' @ payment_id @ '')'') d1))))"

section \<open>What a fulfilled subscription leaves behind\<close>

lemma reset_ai_used_frame [simp]:
  "d_subs (reset_ai_used t d) = d_subs d" "d_invoices (reset_ai_used t d) = d_invoices d"
  "d_plans (reset_ai_used t d) = d_plans d" "d_ledger (reset_ai_used t d) = d_ledger d"
  "d_wallets (reset_ai_used t d) = d_wallets d" "map tn_pk (d_tenants (reset_ai_used t d)) = map tn_pk (d_tenants d)"
  by (simp_all add: reset_ai_used_def put_tenant_def map_pk_row_put split: option.split)

lemma grant_term_same:
  assumes "grant_term e tn legacy s d = Inr d'"
  shows "d_subs d' = d_subs d" "d_invoices d' = d_invoices d" "d_plans d' = d_plans d"
    "map tn_pk (d_tenants d') = map tn_pk (d_tenants d)"
proof -
  have "d_subs d' = d_subs d \<and> d_invoices d' = d_invoices d \<and> d_plans d' = d_plans d \<and>
      map tn_pk (d_tenants d') = map tn_pk (d_tenants d)"
  proof (cases legacy)
    case True
    then show ?thesis using assms by (simp add: grant_term_def)
  next
    case False
    then obtain w where "grant_included e tn (Some (effective_limit tn (reset_ai_used (tn_pk tn) d))) (sb_ai_end s)
        (version_grant_key (sb_pk s) (sb_version s)) (reset_ai_used (tn_pk tn) d) = Inr (w, d')"
      using assms by (auto simp: grant_term_def db_of_Inr_iff)
    note same_but_walletsD [OF same_grant [OF this]]
    then show ?thesis by simp
  qed
  then show "d_subs d' = d_subs d" "d_invoices d' = d_invoices d" "d_plans d' = d_plans d"
    "map tn_pk (d_tenants d') = map tn_pk (d_tenants d)" by blast+
qed

lemma sync_trial_frame [simp]:
  "d_subs (sync_tenant_trial_end e s d) = d_subs d" "d_invoices (sync_tenant_trial_end e s d) = d_invoices d"
  "d_plans (sync_tenant_trial_end e s d) = d_plans d" "d_ledger (sync_tenant_trial_end e s d) = d_ledger d"
  "d_wallets (sync_tenant_trial_end e s d) = d_wallets d"
  "map tn_pk (d_tenants (sync_tenant_trial_end e s d)) = map tn_pk (d_tenants d)"
  by (simp_all add: sync_tenant_trial_end_def set_trial_end_def put_tenant_def map_pk_row_put split: option.split)

lemma put_sub_frame [simp]:
  "d_subs (put_sub s d) = row_put sb_pk s (d_subs d)" "d_invoices (put_sub s d) = d_invoices d" "d_plans (put_sub s d) = d_plans d"
  "d_ledger (put_sub s d) = d_ledger d" "d_wallets (put_sub s d) = d_wallets d"
  by (simp_all add: put_sub_def)

lemma put_invoice_frame [simp]:
  "d_subs (put_invoice i d) = d_subs d" "d_invoices (put_invoice i d) = row_put iv_pk i (d_invoices d)"
  "d_plans (put_invoice i d) = d_plans d" "d_ledger (put_invoice i d) = d_ledger d"
  "d_wallets (put_invoice i d) = d_wallets d"
  by (simp_all add: put_invoice_def)

lemma synclog_frame [simp]:
  "d_subs (add_synclog t a b d) = d_subs d" "d_plans (add_synclog t a b d) = d_plans d"
  "d_ledger (add_synclog t a b d) = d_ledger d" "d_wallets (add_synclog t a b d) = d_wallets d"
  by (simp_all add: add_synclog_def)

lemma fulfil_terms_cases:
  assumes "fulfil_terms e tn i p period legacy s d = Inr (r, d')"
  obtains s' i' d1 d2 where "r" "renewed_or_raise e p period legacy s = Inr s'"
    "i' = paid_row e (backfilled i p period legacy s)"
    "save_invoice i' (sync_tenant_trial_end e s' (put_sub s' d)) = Inr d1" "grant_term e tn legacy s' d1 = Inr d2"
    "d_subs d' = row_put sb_pk s' (d_subs d)" "d_invoices d' = row_put iv_pk i' (d_invoices d)" "d_plans d' = d_plans d"
    "d_wallets d' = d_wallets d2" "d_ledger d' = d_ledger d2" "d_ledger d1 = d_ledger d"
    "map tn_pk (d_tenants d') = map tn_pk (d_tenants d)"
proof -
  obtain s' where s': "renewed_or_raise e p period legacy s = Inr s'"
    using assms by (auto simp: fulfil_terms_def elim: bind_ok_OkE)
  define i' where "i' = paid_row e (backfilled i p period legacy s)"
  obtain d1 where d1: "save_invoice i' (sync_tenant_trial_end e s' (put_sub s' d)) = Inr d1"
    using assms s' by (auto simp: fulfil_terms_def Let_def i'_def elim: bind_ok_OkE)
  obtain d2 where d2: "grant_term e tn legacy s' d1 = Inr d2"
    using assms s' d1 by (auto simp: fulfil_terms_def Let_def i'_def elim: bind_ok_OkE)
  obtain x d3 where d3: "enqueue_notification (tn_pk tn) ''billing'' (msg_paid i @ ''. Subscription activated.'')
      (paid_key (iv_pk i) ''notification'') (Some i') [] d2 = Inr (x, d3)"
    using assms s' d1 d2 by (auto simp: fulfil_terms_def Let_def i'_def elim: bind_ok_OkE)
  obtain y d4 where d4: "enqueue_limit_reached_requeue (tn_pk tn) (paid_key (iv_pk i) ''requeue'') (Some i') d3 = Inr (y, d4)"
    using assms s' d1 d2 d3 by (auto simp: fulfil_terms_def Let_def i'_def elim: bind_ok_OkE)
  have r: "r" "d' = add_synclog (tn_pk tn) ''ok'' (msg_paid i) d4"
    using assms s' d1 d2 d3 d4 by (auto simp: fulfil_terms_def Let_def i'_def)
  note en = enqueue_notification_frame [OF d3] enqueue_frame [OF d4 [unfolded enqueue_limit_reached_requeue_def]]
  have p1: "d1 = put_invoice i' (sync_tenant_trial_end e s' (put_sub s' d))" by (rule save_invoice_put [OF d1])
  show thesis
    by (rule that [OF r(1) s' i'_def d1 d2])
      (simp_all add: r(2) en grant_term_same [OF d2] p1 put_invoice_def put_sub_def add_synclog_def)
qed

lemma save_in_put: "save_invoice i d = Inr d' \<Longrightarrow> get_invoice (iv_pk i) d' = Some i"
  by (auto simp: save_invoice_Inr invoice_table.get_put_same)

lemma paid_row_sel [simp]:
  "iv_pk (paid_row e i) = iv_pk i" "iv_intent (paid_row e i) = iv_intent i" "iv_status (paid_row e i) = Paid"
  "iv_payment_id (paid_row e i) = iv_payment_id i" "iv_paid_at (paid_row e i) = Some (now e)"
  by (simp_all add: paid_row_def)

text \<open>An invoice that the checkout wrote is read back as what was bought.\<close>

lemma checkout_terms:
  assumes "iv_intent i = subscription_intent e0 t p period url key hash v" "period = ''monthly'' \<or> period = ''yearly''"
    "0 < pl_pk p" "0 \<le> in_amount (iv_intent i)" "in_amount (iv_intent i) < 10 ^ 10"
    "get_plan (pl_pk p) d = Some q" "pl_slug q = pl_slug p" "sb_version s = v"
  shows "purchased_terms i s d = Inr (Terms q period False)"
proof -
  let ?a = "in_amount (iv_intent i)"
  let ?s = "subscription_snapshot p ?a period v"
  have it: "in_snapshot (iv_intent i) = ?s" "in_plan (iv_intent i) = Some (pl_pk p)" "in_version (iv_intent i) = Some v"
    "in_currency (iv_intent i) = ''RUB''"
    using assms(1) by (simp_all add: subscription_intent_def Let_def)
  have am: "json_decimal (dict_get ''amount'' ?s) = Some (Dec ?a (- 2))"
    using dec_parse_cents [OF assms(4)] by (simp add: json_decimal_def dict_get_def subscription_snapshot_def)
  have eq: "equals_cents (Dec ?a (- 2)) ?a"
    using assms(4,5) dec_units_cents [of ?a] by (simp add: equals_cents_def)
  have pl: "dict_sub ''plan'' ?s =
      Some [(''id'', JInt (int (pl_pk p))), (''slug'', JStr (pl_slug p)), (''name'', JStr (pl_name p))]" (is "_ = Some ?pl")
    by (simp add: dict_sub_def dict_get_def subscription_snapshot_def)
  have id: "py_int (text_or_empty (dict_get ''id'' ?pl)) = Some (int (pl_pk p))"
    using assms(3) by (simp add: dict_get_def text_or_empty_def str_int_def py_int_str_nat)
  have slug: "text_or_empty (dict_get ''slug'' ?pl) = pl_slug p"
    by (simp add: dict_get_def text_or_empty_def)
  have "?s \<noteq> []" by (simp add: subscription_snapshot_def)
  then have sp: "snapshot_plan i = Inr (Inr (Some (int (pl_pk p), pl_slug p)))"
    using am eq pl id slug
    by (simp add: snapshot_plan_def Let_def it) (simp add: subscription_snapshot_def dict_get_def json_is_int_def version_matches_def)
  have pr: "bought_period i = JStr period"
    using assms(2) it by (auto simp: bought_period_def subscription_snapshot_def dict_get_def)
  have "pl_pk q = pl_pk p" using assms(6) row_get_key unfolding get_plan_def by fast
  then show ?thesis
    using sp pr assms(2,6,7,8)
    by (auto simp: purchased_terms_def bought_plan_def it legacy_status_only_def)
qed

lemma renewed_facts:
  assumes "renewed e p period s = Some s'" "valid_date (today e)" "valid_date (sb_end s)" "period = ''monthly'' \<or> period = ''yearly''"
  shows "sb_plan s' = pl_pk p" "sb_period s' = period" "sb_status s' = Active" "sb_start s' = today e"
    "sb_version s' = sb_version s + 1" "sb_pk s' = sb_pk s" "sb_tenant s' = sb_tenant s" "sb_cancelled_at s' = None"
    "add_billing_months (if sb_status s = Trial then today e else max (today e) (sb_end s))
       (if period = ''yearly'' then 12 else 1) = Some (sb_end s')"
    "today e < sb_end s'" "\<exists>a. sb_ai_end s' = Some a \<and> today e < a \<and> a \<le> sb_end s'" "sb_ai_start s' = Some (today e)"
proof -
  let ?b = "if sb_status s = Trial then today e else max (today e) (sb_end s)"
  obtain pe m where pe: "(if period = ''yearly'' then add_billing_year ?b else add_billing_month ?b) = Some pe"
      "add_billing_months (today e) 1 = Some m"
    and s': "s' = s\<lparr>sb_plan := pl_pk p, sb_period := period, sb_status := Active, sb_start := today e,
                 sb_end := pe, sb_ai_start := Some (today e), sb_ai_end := Some (min m pe),
                 sb_cancelled_at := None, sb_version := sb_version s + 1\<rparr>"
    using assms(1) by (auto simp: renewed_def Let_def split: option.splits)
  have vb: "valid_date ?b" using assms(2,3) by (simp add: max_def)
  have tm: "add_billing_months ?b (if period = ''yearly'' then 12 else 1) = Some pe"
    using pe(1) year_is_twelve_months [OF vb] by (simp add: add_billing_month_def split: if_splits)
  have "?b < pe" by (rule add_months_later [OF vb tm]) simp
  moreover have "today e \<le> ?b" by simp
  ultimately have later: "today e < pe" by (rule le_less_trans [rotated])
  have "today e < m" by (rule add_months_later [OF assms(2) pe(2)]) simp
  then show "\<exists>a. sb_ai_end s' = Some a \<and> today e < a \<and> a \<le> sb_end s'" using later s' by (simp add: min_def)
  show "sb_plan s' = pl_pk p" "sb_period s' = period" "sb_status s' = Active" "sb_start s' = today e"
    "sb_version s' = sb_version s + 1" "sb_pk s' = sb_pk s" "sb_tenant s' = sb_tenant s" "sb_cancelled_at s' = None"
    "sb_ai_start s' = Some (today e)" "today e < sb_end s'"
    using s' later by simp_all
  show "add_billing_months ?b (if period = ''yearly'' then 12 else 1) = Some (sb_end s')" using tm s' by simp
qed

lemma invoice_with_tenant_Some:
  "get_invoice k d = Some i \<Longrightarrow> get_tenant (in_tenant (iv_intent i)) d = Some tn \<Longrightarrow> invoice_with_tenant k d = Some (i, tn)"
  by (simp add: invoice_with_tenant_def)

text \<open>The provider paid exactly what the invoice asks for.\<close>

definition pays :: "string \<Rightarrow> string \<Rightarrow> string \<Rightarrow> invoice \<Rightarrow> bool" where
  "pays payment_id amount currency i \<longleftrightarrow>
     payment_id \<noteq> [] \<and> iv_payment_id i = payment_id \<and> received_amount amount = Some (in_amount (iv_intent i)) \<and>
     received_currency currency = in_currency (iv_intent i) \<and> is_currency_text (in_currency (iv_intent i))"

lemma pays_iff: "payment_objection i payment_id amount currency = None \<longleftrightarrow> pays payment_id amount currency i"
  by (auto simp: payment_objection_def pays_def split: option.splits if_splits)

definition payable :: "invoice \<Rightarrow> bool" where
  "payable i \<longleftrightarrow> iv_status i = Pending \<or> is_unsettled_checkout_manual i"

lemma success_open:
  assumes "get_invoice k d = Some i" "get_tenant (in_tenant (iv_intent i)) d = Some tn" "pays pid amt cur i" "payable i"
  shows "handle_payment_success_webhook e k pid amt cur d =
     (if in_type (iv_intent i) = AI_Topup then fulfil_topup e tn i d else fulfil_subscription e tn i d)"
proof -
  have "payment_objection i pid amt cur = None" using assms(3) pays_iff by blast
  moreover have "iv_status i \<notin> {Paid, Partially_Refunded, Refunded}"
    using assms(4) by (auto simp: payable_def is_unsettled_checkout_manual_def blocks_subscription_checkout_def)
  ultimately show ?thesis
    using assms(4) invoice_with_tenant_Some [OF assms(1,2)]
    by (auto simp: handle_payment_success_webhook_def payable_def)
qed

text \<open>A wallet was granted the limit of the plan, until the end of the first AI month.\<close>

definition granted :: "env \<Rightarrow> tenant \<Rightarrow> subscription \<Rightarrow> db \<Rightarrow> bool" where
  "granted e tn s d \<longleftrightarrow>
     (\<exists>w. wallet_of (tn_pk tn) d = Some w \<and> wl_included w = max 0 (effective_limit tn d) \<and>
        wl_expires w = map_option (day_end e) (sb_ai_end s))"

lemma effective_limit_cong:
  "d_subs d' = d_subs d \<Longrightarrow> d_plans d' = d_plans d \<Longrightarrow> effective_limit tn d' = effective_limit tn d"
  by (simp add: effective_limit_def sub_of_def get_plan_def cong: option.case_cong)

lemma grant_term_granted:
  assumes "grant_term e tn False s d = Inr d'" "\<not> ledger_has (tn_pk tn) (version_grant_key (sb_pk s) (sb_version s)) d"
  shows "granted e tn s d'"
proof -
  let ?d = "reset_ai_used (tn_pk tn) d"
  obtain w where g: "grant_included e tn (Some (effective_limit tn ?d)) (sb_ai_end s)
      (version_grant_key (sb_pk s) (sb_version s)) ?d = Inr (w, d')"
    using assms(1) by (auto simp: grant_term_def db_of_Inr_iff)
  have "\<not> ledger_has (tn_pk tn) (version_grant_key (sb_pk s) (sb_version s)) ?d"
    using assms(2) by (simp add: ledger_has_def)
  note gf = grant_fresh [OF g this]
  have "effective_limit tn d' = effective_limit tn ?d"
    using same_but_walletsD [OF same_grant [OF g]] by (intro effective_limit_cong) simp_all
  then show ?thesis using gf by (auto simp: granted_def version_grant_key_def bootstrap_key_def)
qed

lemma granted_cong:
  "d_wallets d' = d_wallets d \<Longrightarrow> d_subs d' = d_subs d \<Longrightarrow> d_plans d' = d_plans d \<Longrightarrow> granted e tn s d \<Longrightarrow> granted e tn s d'"
  using effective_limit_cong [of d' d tn] by (simp add: granted_def wallet_of_def)

lemma subscription_fulfilled:
  assumes "handle_payment_success_webhook e k pid amt cur d = Inr (r, d')"
    "get_invoice k d = Some i" "get_tenant t d = Some tn" "sub_of t d = Some s"
    "iv_intent i = subscription_intent e0 t p period url key hash (sb_version s)"
    "period = ''monthly'' \<or> period = ''yearly''" "0 < pl_pk p"
    "get_plan (pl_pk p) d = Some q" "pl_slug q = pl_slug p" "pays pid amt cur i" "in_amount (iv_intent i) < 10 ^ 10"
    "payable i" "distinct (map sb_pk (d_subs d))" "valid_date (today e)" "valid_date (sb_end s)"
  obtains s' where "r" "sub_of t d' = Some s'" "renewed e q period s = Some s'" "get_invoice k d' = Some (paid_row e i)"
    "pl_pk q = pl_pk p"
    "ledger_has t (version_grant_key (sb_pk s') (sb_version s')) d \<or> granted e tn s' d'"
proof -
  have it: "in_tenant (iv_intent i) = t" "in_type (iv_intent i) = Subscription_Purchase" "in_snapshot (iv_intent i) \<noteq> []"
    using assms(5) by (simp_all add: subscription_intent_def subscription_snapshot_def Let_def)
  have tn: "tn_pk tn = t" using assms(3) row_get_key unfolding get_tenant_def by fast
  have pk: "iv_pk i = k" using get_invoice_mem [OF assms(2)] by simp
  have "0 < in_amount (iv_intent i)"
    using assms(10) by (auto simp: pays_def received_amount_def split: option.splits if_splits)
  then have terms: "purchased_terms i s d = Inr (Terms q period False)"
    using checkout_terms [OF assms(5-7) _ assms(11,8,9)] by simp
  have "fulfil_terms e tn i q period False s d = Inr (r, d')"
    using success_open [OF assms(2) _ assms(10,12)] assms(1,3,4) it tn terms by (simp add: fulfil_subscription_def)
  then show thesis
  proof (cases rule: fulfil_terms_cases)
    case (1 s' i' d1 d2)
    have rn: "renewed e q period s = Some s'" using 1(2) by (simp add: renewed_or_raise_def)
    note rf = renewed_facts [OF rn assms(14,15,6)]
    have "sb_tenant s' = t" using rf(7) sub_of_get [OF assms(4)] by simp
    then have "sub_of t (put_sub s' d) = Some s'"
      using sub_of_put [of s' d s] assms(4,13) rf(6) by simp
    then have sub: "sub_of t d' = Some s'" using 1(6) by (simp add: sub_of_def)
    have i': "i' = paid_row e i" using 1(3) it(3) by (simp add: backfilled_def)
    have "get_invoice k d' = Some (paid_row e i)"
      using assms(2) 1(7) i' pk by (simp add: get_invoice_def row_get_put)
    moreover have "pl_pk q = pl_pk p" using assms(8) row_get_key unfolding get_plan_def by fast
    moreover have "granted e tn s' d'" if new: "\<not> ledger_has t (version_grant_key (sb_pk s') (sb_version s')) d"
    proof -
      have "granted e tn s' d2"
        using grant_term_granted [OF 1(5)] new 1(11) tn by (simp add: ledger_has_def)
      moreover have "d_subs d' = d_subs d2" "d_plans d' = d_plans d2"
        using 1(6,8) grant_term_same [OF 1(5)] save_invoice_put [OF 1(4)] by simp_all
      ultimately show ?thesis using granted_cong [of d' d2] 1(9) by simp
    qed
    ultimately show thesis using that [OF 1(1) sub rn] by blast
  qed
qed

section \<open>Fulfilment of a subscription\<close>

text \<open>C30: Checkout and fulfilment fit together: when the provider has paid exactly the amount of a
  payable invoice that the checkout wrote, and the subscription has the version the checkout saw,
  the handler reports success; the subscription is active with full access on the very plan and
  period of the checkout, from today for one or twelve calendar months counted from today (from the
  end of the days already paid for, if later and not a trial), its version grows by one, the invoice
  is paid with its intent unchanged, and the wallet holds the AI credits of the plan until the end
  of the first AI month, unless this very version was granted before.\<close>

theorem checkout_is_fulfilled_as_bought:
  assumes "handle_payment_success_webhook e k pid amt cur d = Inr (r, d')"
    "get_invoice k d = Some i" "get_tenant t d = Some tn" "sub_of t d = Some s"
    "iv_intent i = subscription_intent e0 t p period url key hash (sb_version s)"
    "period = ''monthly'' \<or> period = ''yearly''" "0 < pl_pk p"
    "get_plan (pl_pk p) d = Some q" "pl_slug q = pl_slug p" "pays pid amt cur i" "in_amount (iv_intent i) < 10 ^ 10"
    "payable i" "distinct (map sb_pk (d_subs d))" "valid_date (today e)" "valid_date (sb_end s)"
  shows "r \<and> (\<exists>s' i'. sub_of t d' = Some s' \<and> sb_plan s' = pl_pk p \<and> sb_period s' = period \<and>
     sub_access_mode e s' = Access_Full \<and> sb_start s' = today e \<and>
     add_billing_months (if sb_status s = Trial then today e else max (today e) (sb_end s))
       (if period = ''yearly'' then 12 else 1) = Some (sb_end s') \<and>
     sb_version s' = sb_version s + 1 \<and>
     get_invoice k d' = Some i' \<and> iv_status i' = Paid \<and> iv_paid_at i' = Some (now e) \<and> iv_intent i' = iv_intent i \<and>
     (ledger_has t (version_grant_key (sb_pk s') (sb_version s')) d \<or> granted e tn s' d'))"
proof -
  obtain s' where s': "r" "sub_of t d' = Some s'" "renewed e q period s = Some s'" "get_invoice k d' = Some (paid_row e i)"
    "pl_pk q = pl_pk p" "ledger_has t (version_grant_key (sb_pk s') (sb_version s')) d \<or> granted e tn s' d'"
    by (rule subscription_fulfilled [OF assms])
  note rf = renewed_facts [OF s'(3) assms(14,15,6)]
  have "sub_access_mode e s' = Access_Full"
    using rf(3,10) by (auto simp: sub_access_mode_def is_active_def effective_status_def)
  then show ?thesis using s' rf by auto
qed

lemma demo_pays: "pays ''pay-1'' ''14900.00'' ''RUB'' bought"
proof -
  have "str_cents 1490000 = ''14900.00''" by (simp add: str_cents_def str_nat.simps pad_def digit_def)
  then have "dec_parse ''14900.00'' = Some (Dec 1490000 (- 2))" using dec_parse_cents [of 1490000] by simp
  then have "received_amount ''14900.00'' = Some 1490000"
    using dec_units_cents [of 1490000] by (simp add: received_amount_def)
  moreover have "in_currency demo_intent = ''RUB''" by (simp add: demo_intent_def subscription_intent_def Let_def)
  ultimately show ?thesis
    by (simp add: pays_def bought_sel demo_intent_sel received_currency_def upper_def is_currency_text_def is_alpha_def)
qed

lemma sample_paid_enqueue:
  assumes "d_outbox d = []" "in_tenant (iv_intent i) = 7"
  shows "\<exists>x y d3 d4. enqueue_notification 7 ''billing'' (msg_paid bought @ ''. Subscription activated.'')
      (paid_key 1 ''notification'') (Some i) [] d = Inr (x, d3) \<and>
      enqueue_limit_reached_requeue 7 (paid_key 1 ''requeue'') (Some i) d3 = Inr (y, d4)"
proof -
  have k: "strip (paid_key 1 w) = paid_key 1 w" "paid_key 1 w \<noteq> []" "length (paid_key 1 w) \<le> 200"
    if "w = ''notification'' \<or> w = ''requeue''" for w
    using that by (auto simp: paid_key_def strip_def is_space_def str_nat.simps digit_def)
  have m: "strip (msg_paid bought @ ''. Subscription activated.'') \<noteq> []"
    "length (msg_paid bought @ ''. Subscription activated.'') \<le> 2000"
    by (simp_all add: msg_paid_def bought_sel demo_intent_sel str_cents_def str_nat.simps pad_def digit_def strip_def is_space_def)
  have ne: "paid_key 1 ''requeue'' \<noteq> paid_key 1 ''notification''" by (simp add: paid_key_def)
  show ?thesis
    using k [of "''notification''"] k [of "''requeue''"] m assms ne
    by (simp add: enqueue_notification_def enqueue_limit_reached_requeue_def notification_levels_def enqueue_def Let_def
        validate_enqueue_def event_with_key_def fresh_uuid_def new_event_def)
qed

lemma demo_renewed:
  "renewed demo_env demo_plan ''monthly'' demo_sub =
     Some (demo_sub\<lparr>sb_plan := 1, sb_period := ''monthly'', sb_status := Active, sb_start := Date 2026 2 10,
       sb_end := Date 2026 3 10, sb_ai_start := Some (Date 2026 2 10), sb_ai_end := Some (Date 2026 3 10),
       sb_cancelled_at := None, sb_version := 2\<rparr>)"
  by (simp add: renewed_def Let_def demo_env_def demo_sub_def demo_plan_def add_billing_month_def add_billing_months_def
      mk_date_def valid_date_def last_day_def leap_def)

lemma bought_rows: "get_tenant 7 bought_db = Some demo_tenant" "sub_of 7 bought_db = Some demo_sub"
  "get_plan 1 bought_db = Some demo_plan" "d_subs bought_db = [demo_sub]" "d_wallets bought_db = []"
  "d_ledger bought_db = []" "d_outbox bought_db = []" "d_invoices bought_db = [bought]"
  by (simp_all add: bought_db_def ordered_db_def get_tenant_def sub_of_def get_plan_def demo_defs)

lemma demo_payable: "payable bought"
  by (simp add: payable_def bought_sel)

lemma demo_written: "iv_intent bought =
    subscription_intent demo_env 7 demo_plan ''monthly'' ''https://map.ru'' 5 demo_hash (sb_version demo_sub)"
  by (simp add: bought_sel demo_intent_def demo_sub_def)

lemma demo_plan_row: "0 < pl_pk demo_plan" "get_plan (pl_pk demo_plan) bought_db = Some demo_plan"
    "in_amount (iv_intent bought) < 10 ^ 10" "0 \<le> in_amount (iv_intent bought)"
  using bought_rows(3) by (simp_all add: bought_sel demo_intent_sel) (simp_all add: demo_plan_def)

lemma sample_success: "\<exists>d'. handle_payment_success_webhook demo_env 1 ''pay-1'' ''14900.00'' ''RUB'' bought_db = Inr (True, d')"
proof -
  obtain s' where s': "renewed demo_env demo_plan ''monthly'' demo_sub = Some s'" "sb_pk s' = 3" "sb_version s' = 2"
    using demo_renewed by (simp add: demo_sub_def)
  let ?d = "sync_tenant_trial_end demo_env s' (put_sub s' bought_db)"
  have ob: "d_outbox ?d = []"
    using bought_rows by (simp add: sync_tenant_trial_end_def set_trial_end_def put_tenant_def put_sub_def split: option.split)
  have t: "in_tenant (iv_intent bought) = 7" by (simp add: bought_sel demo_intent_sel)
  have terms: "purchased_terms bought demo_sub bought_db = Inr (Terms demo_plan ''monthly'' False)"
    using checkout_terms [OF demo_written _ demo_plan_row(1,4,3,2) refl refl] by simp
  have bf: "backfilled bought demo_plan ''monthly'' False demo_sub = bought"
    by (simp add: backfilled_def bought_sel demo_intent_def subscription_intent_def subscription_snapshot_def Let_def)
  have "d_invoices ?d = [bought]" by (simp add: bought_rows)
  then have sv: "save_invoice (paid_row demo_env bought) ?d = Inr (put_invoice (paid_row demo_env bought) ?d)"
    using get_bought by (simp add: save_invoice_def get_invoice_def bought_sel save_guard_def unique_ok_def)
  let ?d1 = "put_invoice (paid_row demo_env bought) ?d"
  have "d_wallets (reset_ai_used 7 ?d1) = []" "d_ledger (reset_ai_used 7 ?d1) = []" by (simp_all add: bought_rows)
  then have "is_ok (grant_included demo_env demo_tenant l p (version_grant_key 3 2) (reset_ai_used 7 ?d1))" for l p
    by (rule grant_fits) (simp_all add: version_grant_key_def bootstrap_key_def str_nat.simps digit_def demo_tenant_def)
  then obtain w d2 where g: "grant_included demo_env demo_tenant (Some (effective_limit demo_tenant (reset_ai_used 7 ?d1)))
      (sb_ai_end s') (version_grant_key 3 2) (reset_ai_used 7 ?d1) = Inr (w, d2)"
    by (metis is_okE prod.collapse)
  have gt: "grant_term demo_env demo_tenant False s' ?d1 = Inr d2"
    using g s' by (simp add: grant_term_def db_of_def demo_tenant_def)
  have "d_outbox (reset_ai_used 7 ?d1) = []"
    using ob by (simp add: reset_ai_used_def put_tenant_def put_invoice_def split: option.split)
  then have "d_outbox d2 = []" using same_but_walletsD(6) [OF same_grant [OF g]] by simp
  then obtain x y d3 d4 where "enqueue_notification 7 ''billing'' (msg_paid bought @ ''. Subscription activated.'')
      (paid_key 1 ''notification'') (Some (paid_row demo_env bought)) [] d2 = Inr (x, d3)"
    "enqueue_limit_reached_requeue 7 (paid_key 1 ''requeue'') (Some (paid_row demo_env bought)) d3 = Inr (y, d4)"
    using sample_paid_enqueue [of d2 "paid_row demo_env bought"] t by (auto simp del: One_nat_def)
  then have "\<exists>d'. fulfil_terms demo_env demo_tenant bought demo_plan ''monthly'' False demo_sub bought_db = Inr (True, d')"
    using s'(1) bf sv gt
    by (simp add: fulfil_terms_def renewed_or_raise_def bought_sel demo_tenant_def del: One_nat_def)
  then show ?thesis
    using success_open [OF get_bought _ demo_pays demo_payable] terms bought_rows(1,2) t
    by (simp add: fulfil_subscription_def bought_sel demo_intent_sel demo_tenant_def del: One_nat_def)
qed

theorem checkout_is_fulfilled_as_bought_witness:
  "\<exists>d' s. handle_payment_success_webhook demo_env 1 ''pay-1'' ''14900.00'' ''RUB'' bought_db = Inr (True, d') \<and>
     sub_of 7 d' = Some s \<and> sb_period s = ''monthly'' \<and> sub_access_mode demo_env s = Access_Full"
proof -
  obtain d' where h: "handle_payment_success_webhook demo_env 1 ''pay-1'' ''14900.00'' ''RUB'' bought_db = Inr (True, d')"
    using sample_success by blast
  have "distinct (map sb_pk (d_subs bought_db))" "valid_date (today demo_env)" "valid_date (sb_end demo_sub)"
    by (simp_all add: bought_rows) (simp_all add: demo_env_def demo_sub_def valid_date_def last_day_def leap_def)
  from checkout_is_fulfilled_as_bought [OF h get_bought bought_rows(1,2) demo_written _ demo_plan_row(1,2) refl demo_pays
      demo_plan_row(3) demo_payable this]
  show ?thesis using h by blast
qed

section \<open>Payments that do not match\<close>

lemma manual_row_sel [simp]:
  "iv_pk (manual_row r f i) = iv_pk i" "iv_intent (manual_row r f i) = iv_intent i"
  "iv_payment_id (manual_row r f i) = iv_payment_id i" "iv_status (manual_row r f i) = Manual_Review"
  "iv_paid_at (manual_row r f i) = iv_paid_at i" "iv_refunded (manual_row r f i) = iv_refunded i"
  by (simp_all add: manual_row_def)

lemma manual_row_saves:
  assumes "invoices_ok d" "get_invoice k d = Some i"
  shows "save_invoice (manual_row r f i) d = Inr (put_invoice (manual_row r f i) d)"
proof -
  have pk: "iv_pk i = k" "i \<in> set (d_invoices d)" using get_invoice_mem [OF assms(2)] by simp_all
  have "\<not> clash (manual_row r f i) j" if "j \<in> set (d_invoices d)" "iv_pk j \<noteq> iv_pk i" for j
  proof -
    have "\<not> clash i j" using assms(1) pk that by (auto simp: invoices_ok_def)
    then show ?thesis by (auto simp: clash_def active_intent_def)
  qed
  then show ?thesis using assms(2) pk by (simp add: save_invoice_def save_guard_def unique_ok_def)
qed

lemma refuse_result:
  assumes "invoices_ok d" "get_invoice k d = Some i"
  shows "refuse i reason d = Inr (False, add_synclog (in_tenant (iv_intent i)) ''error'' (invoice_log (iv_pk i) reason)
     (put_invoice (manual_row reason False i) d))"
  using manual_row_saves [OF assms] by (simp add: refuse_def mark_invoice_manual_review_locked_def)

text \<open>C32: A payment that does not match its invoice delivers nothing: with a foreign payment id, a
  malformed, non-positive or different amount, or another currency the success handler never raises,
  reports failure, puts the invoice under manual review with its intent and payment date as they
  were, and leaves subscriptions, wallets, the credit ledger, tenants and the outbox untouched.\<close>

theorem mismatched_payment_delivers_nothing:
  assumes "invoices_ok d" "get_invoice k d = Some i" "get_tenant (in_tenant (iv_intent i)) d = Some tn"
    "\<not> pays pid amt cur i"
  shows "\<exists>d' i'. handle_payment_success_webhook e k pid amt cur d = Inr (False, d') \<and>
     get_invoice k d' = Some i' \<and> iv_status i' = Manual_Review \<and> iv_intent i' = iv_intent i \<and>
     iv_paid_at i' = iv_paid_at i \<and> d_subs d' = d_subs d \<and> d_wallets d' = d_wallets d \<and> d_ledger d' = d_ledger d \<and>
     d_tenants d' = d_tenants d \<and> d_outbox d' = d_outbox d"
proof -
  obtain reason where "payment_objection i pid amt cur = Some reason"
    using assms(4) pays_iff by (cases "payment_objection i pid amt cur") blast+
  then have h: "handle_payment_success_webhook e k pid amt cur d = refuse i reason d"
    using invoice_with_tenant_Some [OF assms(2,3)] by (simp add: handle_payment_success_webhook_def)
  have "get_invoice k (put_invoice (manual_row reason False i) d) = Some (manual_row reason False i)"
    using invoice_table.get_put [of "manual_row reason False i" d i] assms(2) get_invoice_mem [OF assms(2)] by simp
  then show ?thesis
    unfolding h refuse_result [OF assms(1,2)] by (simp add: put_invoice_def add_synclog_def get_invoice_def)
qed

theorem mismatched_payment_delivers_nothing_witness:
  "\<exists>d' i. handle_payment_success_webhook demo_env 1 ''pay-1'' ''1.00'' ''RUB'' bought_db = Inr (False, d') \<and>
     get_invoice 1 d' = Some i \<and> iv_status i = Manual_Review \<and> d_subs d' = d_subs bought_db"
proof -
  have "str_cents 100 = ''1.00''" by (simp add: str_cents_def str_nat.simps pad_def digit_def)
  then have "dec_parse ''1.00'' = Some (Dec 100 (- 2))" using dec_parse_cents [of 100] by simp
  then have "received_amount ''1.00'' = Some 100"
    using dec_units_cents [of 100] by (simp add: received_amount_def)
  then have "\<not> pays ''pay-1'' ''1.00'' ''RUB'' bought" by (simp add: pays_def bought_sel demo_intent_sel)
  moreover have "get_tenant (in_tenant (iv_intent bought)) bought_db = Some demo_tenant"
    using bought_rows(1) by (simp add: bought_sel demo_intent_sel)
  ultimately show ?thesis
    using mismatched_payment_delivers_nothing [OF bought_ok get_bought] by blast
qed

section \<open>Fulfilment of a top-up\<close>

lemma with_snapshot_sel [simp]:
  "iv_pk (with_snapshot s i) = iv_pk i" "iv_payment_id (with_snapshot s i) = iv_payment_id i"
  "in_tenant (iv_intent (with_snapshot s i)) = in_tenant (iv_intent i)"
  "in_amount (iv_intent (with_snapshot s i)) = in_amount (iv_intent i)"
  "in_currency (iv_intent (with_snapshot s i)) = in_currency (iv_intent i)"
  "in_type (iv_intent (with_snapshot s i)) = in_type (iv_intent i)"
  "in_snapshot (iv_intent (with_snapshot s i)) = s"
  by (simp_all add: with_snapshot_def)

lemma fulfil_topup_cases:
  assumes "fulfil_topup e tn i d = Inr (r, d')"
  obtains (refused) snap where "ai_entitlement_from_invoice i d = Inr (None, snap)" "refuse i msg_no_credits d = Inr (r, d')"
  | (credited) credits snap i1 w d2 d3 where "r" "ai_entitlement_from_invoice i d = Inr (Some credits, snap)"
      "i1 = (if in_snapshot (iv_intent i) = [] then with_snapshot snap i else i)"
      "d2 = put_invoice (paid_row e i1) d" "get_invoice (iv_pk i) d \<noteq> None"
      "topup e tn (dec_column 4 credits) (topup_key (iv_payment_id i)) (iv_payment_id i) d2 = Inr (w, d3)"
      "d_wallets d' = d_wallets d3" "d_ledger d' = d_ledger d3" "d_invoices d' = d_invoices d3" "d_subs d' = d_subs d"
      "d_tenants d' = d_tenants d"
proof -
  obtain en snap where ent: "ai_entitlement_from_invoice i d = Inr (en, snap)"
    using assms by (auto simp: fulfil_topup_def elim: bind_ok_OkE)
  show thesis
  proof (cases en)
    case None
    then show thesis using assms ent refused by (simp add: fulfil_topup_def)
  next
    case (Some credits)
    define i1 where "i1 = (if in_snapshot (iv_intent i) = [] then with_snapshot snap i else i)"
    obtain d1 where d1: "(if in_snapshot (iv_intent i) = [] then save_invoice i1 d else Inr d) = Inr d1"
      using assms ent Some by (auto simp: fulfil_topup_def Let_def i1_def elim: bind_ok_OkE split: if_splits)
    obtain d2 where d2: "save_invoice (paid_row e i1) d1 = Inr d2"
      using assms ent Some d1 by (auto simp: fulfil_topup_def Let_def i1_def elim: bind_ok_OkE split: if_splits)
    obtain w d3 where d3: "topup e tn (dec_column 4 credits) (topup_key (iv_payment_id i)) (iv_payment_id i) d2 = Inr (w, d3)"
      using assms ent Some d1 d2 by (auto simp: fulfil_topup_def Let_def i1_def elim: bind_ok_OkE split: if_splits)
    obtain x d4 where d4: "enqueue_notification (tn_pk tn) ''billing'' (msg_topped_up credits @ ''.'')
        (paid_key (iv_pk i) ''notification'') (Some (paid_row e i1)) [] d3 = Inr (x, d4)"
      using assms ent Some d1 d2 d3 by (auto simp: fulfil_topup_def Let_def i1_def elim: bind_ok_OkE split: if_splits)
    have fin: "r" "d' = add_synclog (tn_pk tn) ''ok'' (msg_topped_up credits) d4"
      using assms ent Some d1 d2 d3 d4 by (auto simp: fulfil_topup_def Let_def i1_def split: if_splits)
    have e1: "d1 = (if in_snapshot (iv_intent i) = [] then put_invoice i1 d else d)"
      using d1 save_invoice_put by (auto split: if_splits)
    have "d2 = put_invoice (paid_row e i1) d"
      using save_invoice_put [OF d2] e1 by (simp add: i1_def put_invoice_def row_put_put)
    moreover have "get_invoice (iv_pk i) d \<noteq> None"
      using d1 d2 by (auto simp: save_invoice_Inr i1_def split: if_splits)
    moreover have "d_subs d3 = d_subs d2" "d_tenants d3 = d_tenants d2"
      using same_but_walletsD [OF same_topup [OF d3]] by simp_all
    ultimately show thesis
      using credited [OF fin(1) ent [unfolded Some] i1_def _ _ d3] enqueue_notification_frame [OF d4] fin(2)
      by (simp add: add_synclog_def put_invoice_def)
  qed
qed

definition purchased_of :: "nat \<Rightarrow> db \<Rightarrow> credits" where
  "purchased_of t d = (case wallet_of t d of None \<Rightarrow> 0 | Some w \<Rightarrow> wl_purchased w)"

lemma ensure_purchased:
  assumes "ensure_wallet e tn d = Inr (w, d1)"
  shows "wl_purchased w = purchased_of (tn_pk tn) d" "wallet_of (tn_pk tn) d1 = Some w"
    "k \<noteq> bootstrap_key (tn_pk tn) \<Longrightarrow> ledger_has (tn_pk tn) k d1 = ledger_has (tn_pk tn) k d"
proof -
  show "wallet_of (tn_pk tn) d1 = Some w" by (rule ensure_wallet_found [OF assms])
  show "wl_purchased w = purchased_of (tn_pk tn) d"
    using assms by (auto simp: ensure_wallet_eq purchased_of_def Let_def bootstrap_wallet_def fresh_wallet_def elim!: bind_ok_OkE
        split: option.splits)
  show "k \<noteq> bootstrap_key (tn_pk tn) \<Longrightarrow> ledger_has (tn_pk tn) k d1 = ledger_has (tn_pk tn) k d"
    using assms by (auto simp: ensure_wallet_eq Let_def bind_ok_Inr_iff ledger_create_if_def ledger_create_Inr ledger_has_def
        split: option.splits if_splits)
qed

lemma topup_effect:
  assumes "topup e tn a k ref d = Inr (w', d')" "k \<noteq> bootstrap_key (tn_pk tn)"
  shows "purchased_of (tn_pk tn) d' =
       purchased_of (tn_pk tn) d + (if ledger_has (tn_pk tn) k d then 0 else max 0 a)"
    "ledger_has (tn_pk tn) k d'"
proof -
  obtain w d1 where en: "ensure_wallet e tn d = Inr (w, d1)"
    using assms(1) by (auto simp: topup_def bind_ok_Inr_iff)
  note ef = ensure_purchased [OF en]
  have "purchased_of (tn_pk tn) d' = purchased_of (tn_pk tn) d + (if ledger_has (tn_pk tn) k d then 0 else max 0 a) \<and>
      ledger_has (tn_pk tn) k d'"
  proof (cases "ledger_has (tn_pk tn) k d1")
    case True
    then have "d' = d1" using assms(1) en by (simp add: topup_def)
    then show ?thesis using True ef(1,2) ef(3) [OF assms(2)] by (simp add: purchased_of_def)
  next
    case False
    let ?w = "w\<lparr>wl_purchased := wl_purchased w + max 0 a\<rparr>"
    let ?x = "\<lparr>tx_tenant = tn_pk tn, tx_kind = K_Topup, tx_balance = Bal_Purchased,
              tx_amount = max 0 a, tx_key = k, tx_reference = ref\<rparr>"
    have c: "ledger_create ?x (put_wallet ?w d1) = Inr d'"
      using assms(1) en False by (auto simp: topup_def Let_def elim!: bind_ok_OkE)
    have "wallet_of (tn_pk tn) d' = Some ?w"
      using ledger_create_wallet_of(2) [OF c] ensured_tenant [OF en] ef(2) by simp
    moreover have "ledger_has (tn_pk tn) k d'" using ledger_created [OF c] by simp
    ultimately show ?thesis using False ef(1) ef(3) [OF assms(2)] by (simp add: purchased_of_def)
  qed
  then show "purchased_of (tn_pk tn) d' = purchased_of (tn_pk tn) d + (if ledger_has (tn_pk tn) k d then 0 else max 0 a)"
    "ledger_has (tn_pk tn) k d'" by simp_all
qed

lemma topup_key_other: "topup_key p \<noteq> bootstrap_key t"
  by (simp add: topup_key_def bootstrap_key_def)

text \<open>A top-up snapshot that the checkout wrote is read back as the credits of the package.\<close>

lemma checkout_entitlement:
  assumes "iv_intent i = topup_intent e0 t p url key hash" "0 \<le> pk_price p" "pk_price p < 10 ^ 12" "0 < pk_credits p"
  shows "ai_entitlement_from_invoice i d = Inr (Some (Dec (pk_credits p) (- 2)), package_snapshot p)"
proof -
  have it: "in_snapshot (iv_intent i) = package_snapshot p" "in_amount (iv_intent i) = pk_price p"
    "in_currency (iv_intent i) = ''RUB''"
    using assms(1) by (simp_all add: topup_intent_def)
  let ?s = "package_snapshot p"
  have pkg: "dict_sub ''package'' ?s = Some [(''id'', JInt (int (pk_pk p))), (''name'', JStr (pk_name p)),
         (''credits'', JStr (str_cents (pk_credits p))), (''price_rub'', JStr (str_cents (pk_price p)))]" (is "_ = Some ?p")
    by (simp add: dict_sub_def dict_get_def package_snapshot_def)
  have js: "json_decimal (dict_get ''credits'' ?p) = Some (Dec (pk_credits p) (- 2))"
    "json_decimal (dict_get ''amount'' ?s) = Some (Dec (pk_price p) (- 2))"
    "json_decimal (dict_get ''price_rub'' ?p) = Some (Dec (pk_price p) (- 2))"
    using dec_parse_cents [of "pk_credits p"] dec_parse_cents [OF assms(2)] assms(4)
    by (simp_all add: json_decimal_def dict_get_def package_snapshot_def)
  have eq: "equals_cents (Dec (pk_price p) (- 2)) (pk_price p)"
    using assms(2,3) dec_units_cents [of "pk_price p"] by (simp add: equals_cents_def)
  have "?s \<noteq> []" by (simp add: package_snapshot_def)
  then show ?thesis
    using pkg js eq assms(4) by (simp add: ai_entitlement_from_invoice_def Let_def it)
      (simp add: package_snapshot_def dict_get_def json_is_int_def dec_finite_def dec_positive_def)
qed

text \<open>A paid top-up adds exactly the credits of the package as it was when the checkout was made,
  and only once per provider payment: on success of a payable top-up invoice written by the checkout
  the purchased balance grows by the package's credits, unless this payment was credited before,
  the ledger carries the payment, and the invoice is paid.\<close>

theorem topup_is_credited_as_bought:
  assumes "handle_payment_success_webhook e k pid amt cur d = Inr (r, d')"
    "get_invoice k d = Some i" "get_tenant t d = Some tn" "iv_intent i = topup_intent e0 t p url key hash"
    "0 < pk_credits p" "pk_price p < 10 ^ 12" "pays pid amt cur i" "payable i"
  shows "r \<and> purchased_of t d' = purchased_of t d + (if ledger_has t (topup_key pid) d then 0 else 100 * pk_credits p) \<and>
     ledger_has t (topup_key pid) d' \<and>
     (\<exists>i'. get_invoice k d' = Some i' \<and> iv_status i' = Paid \<and> iv_intent i' = iv_intent i)"
proof -
  have it: "in_tenant (iv_intent i) = t" "in_type (iv_intent i) = AI_Topup" "in_amount (iv_intent i) = pk_price p"
    "in_snapshot (iv_intent i) \<noteq> []"
    using assms(4) by (simp_all add: topup_intent_def package_snapshot_def)
  have tn: "tn_pk tn = t" using assms(3) row_get_key unfolding get_tenant_def by fast
  have pid: "iv_payment_id i = pid" using assms(7) by (simp add: pays_def)
  have pk: "iv_pk i = k" using get_invoice_mem [OF assms(2)] by simp
  have "0 < pk_price p"
    using assms(7) it(3) by (auto simp: pays_def received_amount_def split: option.splits if_splits)
  then have ent: "ai_entitlement_from_invoice i d = Inr (Some (Dec (pk_credits p) (- 2)), package_snapshot p)"
    using checkout_entitlement [OF assms(4) _ assms(6,5)] by simp
  have col: "dec_column 4 (Dec (pk_credits p) (- 2)) = 100 * pk_credits p" by (simp add: dec_column_def)
  have "fulfil_topup e tn i d = Inr (r, d')"
    using success_open [OF assms(2) _ assms(7,8)] assms(1,3) it by simp
  then show ?thesis
  proof (cases rule: fulfil_topup_cases)
    case (refused snap)
    then show ?thesis using ent by simp
  next
    case (credited credits snap i1 w d2 d3)
    have c: "credits = Dec (pk_credits p) (- 2)" "i1 = i" using credited(2,3) ent it(4) by simp_all
    note te = topup_effect [OF credited(6) topup_key_other, unfolded tn pid c(1) col]
    have same: "purchased_of t d2 = purchased_of t d" "ledger_has t (topup_key pid) d2 = ledger_has t (topup_key pid) d"
      by (simp_all add: credited(4) purchased_of_def wallet_of_def ledger_has_def)
    have "d_invoices d3 = d_invoices d2" using same_but_walletsD [OF same_topup [OF credited(6)]] by simp
    then have "get_invoice k d' = Some (paid_row e i)"
      using credited(4,9) assms(2) pk c(2) by (simp add: get_invoice_def row_get_put)
    moreover have "purchased_of t d' = purchased_of t d3" "ledger_has t (topup_key pid) d' = ledger_has t (topup_key pid) d3"
      using credited(7,8) by (simp_all add: purchased_of_def wallet_of_def ledger_has_def)
    ultimately show ?thesis using te same credited(1) assms(5) by simp
  qed
qed

definition demo_package :: package where
  "demo_package = \<lparr>pk_pk = 4, pk_name = ''Credits'', pk_credits = 50000, pk_price = 99000, pk_active = True\<rparr>"

definition topup_invoice :: invoice where
  "topup_invoice = (new_invoice 2 (topup_intent demo_env 7 demo_package ''https://map.ru'' 6 ''h'') Ck_Provider_Created)
     \<lparr>iv_payment_id := ''pay-2'', iv_confirmation_url := ''https://y.ru/q''\<rparr>"

definition topup_db :: db where
  "topup_db = demo_db\<lparr>d_invoices := [topup_invoice]\<rparr>"

lemma topup_sel:
  "iv_pk topup_invoice = 2" "iv_status topup_invoice = Pending" "iv_payment_id topup_invoice = ''pay-2''"
  "in_tenant (iv_intent topup_invoice) = 7" "in_type (iv_intent topup_invoice) = AI_Topup"
  "in_currency (iv_intent topup_invoice) = ''RUB''" "in_amount (iv_intent topup_invoice) = 99000"
  by (simp_all add: topup_invoice_def new_invoice_def topup_intent_def demo_package_def)

lemma topup_written: "iv_intent topup_invoice = topup_intent demo_env 7 demo_package ''https://map.ru'' 6 ''h''"
  by (simp add: topup_invoice_def new_invoice_def)

lemma topup_rows_db: "get_invoice 2 topup_db = Some topup_invoice" "get_tenant 7 topup_db = Some demo_tenant"
  "d_wallets topup_db = []" "d_ledger topup_db = []" "d_outbox topup_db = []" "sub_of 7 topup_db = Some demo_sub"
  by (simp_all add: topup_db_def get_invoice_def topup_sel get_tenant_def sub_of_def demo_defs)

lemma topup_pays: "pays ''pay-2'' ''990.00'' ''RUB'' topup_invoice"
proof -
  have "str_cents 99000 = ''990.00''" by (simp add: str_cents_def str_nat.simps pad_def digit_def)
  then have "dec_parse ''990.00'' = Some (Dec 99000 (- 2))" using dec_parse_cents [of 99000] by simp
  then have "received_amount ''990.00'' = Some 99000"
    using dec_units_cents [of 99000] by (simp add: received_amount_def)
  then show ?thesis
    by (simp add: pays_def topup_sel received_currency_def upper_def is_currency_text_def is_alpha_def)
qed

lemma topup_fits:
  assumes "d_wallets d = []" "d_ledger d = []" "length k \<le> 160" "length ref \<le> 160" "k \<noteq> bootstrap_key (tn_pk tn)"
    "length (bootstrap_key (tn_pk tn)) \<le> 160"
  shows "is_ok (topup e tn a k ref d)"
  using assms
  by (auto simp: topup_def ensure_wallet_eq wallet_of_def ledger_create_if_def ledger_create_def
      ledger_has_def Let_def put_wallet_def is_ok_def)

lemma sample_topup_paid_in:
  assumes rows: "get_tenant 7 d = Some demo_tenant" "d_invoices d = [topup_invoice]" "d_wallets d = []" "d_ledger d = []" "d_outbox d = []"
  shows "\<exists>d'. handle_payment_success_webhook demo_env 2 ''pay-2'' ''990.00'' ''RUB'' d = Inr (True, d')"
proof -
  have g: "get_invoice 2 d = Some topup_invoice" using rows(2) by (simp add: get_invoice_def topup_sel)
  let ?i = topup_invoice and ?p = "paid_row demo_env topup_invoice"
  have ent: "ai_entitlement_from_invoice ?i d = Inr (Some (Dec 50000 (- 2)), package_snapshot demo_package)"
    using checkout_entitlement [OF topup_written] by (simp add: demo_package_def)
  have snap: "in_snapshot (iv_intent ?i) \<noteq> []" by (simp add: topup_written topup_intent_def package_snapshot_def)
  have sv: "save_invoice ?p d = Inr (put_invoice ?p d)"
    using g by (simp add: save_invoice_def topup_sel save_guard_def unique_ok_def)
      (simp add: rows(2) topup_sel)
  let ?d = "put_invoice ?p d"
  have "is_ok (topup demo_env demo_tenant (dec_column 4 (Dec 50000 (- 2))) (topup_key ''pay-2'') ''pay-2'' ?d)"
    by (rule topup_fits) (simp_all add: rows topup_key_def bootstrap_key_def demo_tenant_def str_nat.simps digit_def)
  then obtain w d3 where t3: "topup demo_env demo_tenant (dec_column 4 (Dec 50000 (- 2))) (topup_key ''pay-2'') ''pay-2'' ?d =
      Inr (w, d3)" by (metis is_okE prod.collapse)
  have ob: "d_outbox d3 = []"
    using same_but_walletsD(6) [OF same_topup [OF t3]] rows(5) by (simp add: put_invoice_def)
  have m: "msg_topped_up (Dec 50000 (- 2)) @ ''.'' = ''AI balance topped up by 500.00 credits.''"
    by (simp add: msg_topped_up_def str_decimal_def str_nat.simps digit_def str_int_def Let_def)
  have "is_ok (enqueue_notification 7 ''billing'' (msg_topped_up (Dec 50000 (- 2)) @ ''.'') (paid_key 2 ''notification'')
      (Some ?p) [] d3)"
    unfolding m using ob
    by (simp add: enqueue_notification_def notification_levels_def enqueue_def Let_def validate_enqueue_def paid_key_def
        event_with_key_def fresh_uuid_def topup_sel strip_def is_space_def str_nat.simps digit_def)
  then obtain x d4 where "enqueue_notification 7 ''billing'' (msg_topped_up (Dec 50000 (- 2)) @ ''.'')
      (paid_key 2 ''notification'') (Some ?p) [] d3 = Inr (x, d4)" by (metis is_okE prod.collapse)
  then have "\<exists>d'. fulfil_topup demo_env demo_tenant ?i d = Inr (True, d')"
    using ent snap sv t3 by (simp add: fulfil_topup_def topup_sel(1-3)) (simp add: demo_tenant_def)
  then show ?thesis
    using success_open [OF g _ topup_pays] rows(1) by (simp add: payable_def topup_sel)
qed

lemma sample_topup_paid: "\<exists>d'. handle_payment_success_webhook demo_env 2 ''pay-2'' ''990.00'' ''RUB'' topup_db = Inr (True, d')"
  by (rule sample_topup_paid_in) (simp_all add: topup_rows_db, simp add: topup_db_def)

theorem topup_is_credited_as_bought_witness:
  "\<exists>d'. handle_payment_success_webhook demo_env 2 ''pay-2'' ''990.00'' ''RUB'' topup_db = Inr (True, d') \<and>
     purchased_of 7 d' = 5000000"
proof -
  obtain d' where h: "handle_payment_success_webhook demo_env 2 ''pay-2'' ''990.00'' ''RUB'' topup_db = Inr (True, d')"
    using sample_topup_paid by blast
  have p: "0 < pk_credits demo_package" "pk_price demo_package < 10 ^ 12" by (simp_all add: demo_package_def)
  have "payable topup_invoice" by (simp add: payable_def topup_sel)
  from topup_is_credited_as_bought [OF h topup_rows_db(1,2) topup_written p topup_pays this] h show ?thesis
    using topup_rows_db(3,4) by (simp add: purchased_of_def wallet_of_def ledger_has_def demo_package_def)
qed

section \<open>Repeated and contradictory deliveries\<close>

text \<open>A fulfilled invoice is paid (or was refunded since), still for the same payment and amount.\<close>

lemma success_leaves_paid:
  assumes "handle_payment_success_webhook e k pid amt cur d = Inr (True, d')"
  shows "\<exists>i' tn. invoice_with_tenant k d' = Some (i', tn) \<and> pays pid amt cur i' \<and>
     iv_status i' \<in> {Paid, Partially_Refunded, Refunded}"
proof -
  obtain i tn where i: "invoice_with_tenant k d = Some (i, tn)"
    using assms by (cases "invoice_with_tenant k d") (auto simp: handle_payment_success_webhook_def)
  then have g: "get_invoice k d = Some i" "get_tenant (in_tenant (iv_intent i)) d = Some tn"
    by (auto simp: invoice_with_tenant_def split: option.splits)
  have pk: "iv_pk i = k" using get_invoice_mem [OF g(1)] by simp
  have nref: "refuse i reason d \<noteq> Inr (True, d')" for reason
    by (auto simp: refuse_def bind_ok_Inr_iff)
  have p: "pays pid amt cur i"
    using assms i nref pays_iff [of i pid amt cur] by (auto simp: handle_payment_success_webhook_def split: option.splits)
  then have no: "payment_objection i pid amt cur = None" using pays_iff by blast
  show ?thesis
  proof (cases "iv_status i \<in> {Paid, Partially_Refunded, Refunded}")
    case True
    then have "d' = d" using assms i no by (auto simp: handle_payment_success_webhook_def split: option.splits)
    then show ?thesis using i p True by auto
  next
    case False
    have pa: "payable i"
      using assms i no False
      by (auto simp: handle_payment_success_webhook_def payable_def split: option.splits if_splits)
    have run: "(if in_type (iv_intent i) = AI_Topup then fulfil_topup e tn i d else fulfil_subscription e tn i d) = Inr (True, d')"
      using assms success_open [OF g p pa] by simp
    have "\<exists>i1. get_invoice k d' = Some (paid_row e i1) \<and> in_tenant (iv_intent i1) = in_tenant (iv_intent i) \<and>
        in_amount (iv_intent i1) = in_amount (iv_intent i) \<and> in_currency (iv_intent i1) = in_currency (iv_intent i) \<and>
        iv_payment_id i1 = iv_payment_id i \<and> map tn_pk (d_tenants d') = map tn_pk (d_tenants d)"
    proof (cases "in_type (iv_intent i) = AI_Topup")
      case True
      then have "fulfil_topup e tn i d = Inr (True, d')" using run by simp
      then show ?thesis
      proof (cases rule: fulfil_topup_cases)
        case (refused snap)
        then show ?thesis using nref by blast
      next
        case (credited credits snap i1 w d2 d3)
        have "d_invoices d3 = d_invoices d2" using same_but_walletsD [OF same_topup [OF credited(6)]] by simp
        moreover have "iv_pk i1 = k" using credited(3) pk by simp
        ultimately have "get_invoice k d' = Some (paid_row e i1)"
          using credited(4,9) g(1) by (simp add: get_invoice_def row_get_put)
        then show ?thesis using credited(3,11) by (intro exI [of _ i1]) auto
      qed
    next
      case False
      then obtain s p period legacy where "fulfil_terms e tn i p period legacy s d = Inr (True, d')"
        using run nref by (auto simp: fulfil_subscription_def elim!: bind_ok_OkE split: option.splits bought_terms.splits)
      then show ?thesis
      proof (cases rule: fulfil_terms_cases)
        case (1 s' i' d1 d2)
        let ?i1 = "backfilled i p period legacy s"
        have b: "iv_pk ?i1 = k" "in_tenant (iv_intent ?i1) = in_tenant (iv_intent i)"
          "in_amount (iv_intent ?i1) = in_amount (iv_intent i)" "in_currency (iv_intent ?i1) = in_currency (iv_intent i)"
          "iv_payment_id ?i1 = iv_payment_id i" using pk by (simp_all add: backfilled_def)
        have "get_invoice k d' = Some (paid_row e ?i1)"
          using 1(3,7) g(1) b(1) by (simp add: get_invoice_def row_get_put)
        moreover have "map tn_pk (d_tenants d') = map tn_pk (d_tenants d)" by (rule 1(12))
        ultimately show ?thesis using b by blast
      qed
    qed
    then obtain i1 where i1: "get_invoice k d' = Some (paid_row e i1)" "in_tenant (iv_intent i1) = in_tenant (iv_intent i)"
        "in_amount (iv_intent i1) = in_amount (iv_intent i)" "in_currency (iv_intent i1) = in_currency (iv_intent i)"
        "iv_payment_id i1 = iv_payment_id i" "map tn_pk (d_tenants d') = map tn_pk (d_tenants d)" by blast
    have "in_tenant (iv_intent i) \<in> tn_pk ` set (d_tenants d)"
      using g(2) row_get_None_iff [of tn_pk "in_tenant (iv_intent i)" "d_tenants d"] by (auto simp: get_tenant_def)
    then have "in_tenant (iv_intent i) \<in> tn_pk ` set (d_tenants d')" using i1(6) by (metis list.set_map)
    then obtain tn' where "get_tenant (in_tenant (iv_intent i)) d' = Some tn'"
      using row_get_None_iff [of tn_pk "in_tenant (iv_intent i)" "d_tenants d'"] by (auto simp: get_tenant_def)
    then have "invoice_with_tenant k d' = Some (paid_row e i1, tn')" using i1(1,2) by (simp add: invoice_with_tenant_def)
    moreover have "pays pid amt cur (paid_row e i1)" using p i1 by (simp add: pays_def)
    ultimately show ?thesis by auto
  qed
qed

text \<open>C31: Deliveries of a success take effect once: after the success handler has reported success, the
  same delivery again reports success and changes nothing, at any time, and a cancellation of that
  payment is refused and changes nothing.\<close>

theorem success_takes_effect_once:
  assumes "handle_payment_success_webhook e k pid amt cur d = Inr (True, d')"
  shows "handle_payment_success_webhook e' k pid amt cur d' = Inr (True, d') \<and>
     handle_payment_failed_webhook k pid d' = Inr (False, d')"
proof -
  obtain i tn where i: "invoice_with_tenant k d' = Some (i, tn)" "pays pid amt cur i"
      "iv_status i \<in> {Paid, Partially_Refunded, Refunded}"
    using success_leaves_paid [OF assms] by blast
  have "payment_objection i pid amt cur = None" using i(2) pays_iff by blast
  then show ?thesis
    using i by (auto simp: handle_payment_success_webhook_def handle_payment_failed_webhook_def pays_def
        is_unsettled_checkout_manual_def blocks_subscription_checkout_def)
qed

theorem success_takes_effect_once_witness:
  "\<exists>d'. handle_payment_success_webhook demo_env 2 ''pay-2'' ''990.00'' ''RUB'' topup_db = Inr (True, d') \<and>
     handle_payment_failed_webhook 2 ''pay-2'' d' = Inr (False, d')"
  using sample_topup_paid success_takes_effect_once by blast

end
