(* ===== verification/Reversals.thy ===== *)
theory Reversals
  imports Fulfilment
begin

text \<open>
  Refunds and chargebacks (\<^verbatim>\<open>apps/billing/services.py\<close>: \<open>_reversal_matches\<close>,
  \<open>_create_reversal_fail_closed\<close>, \<open>handle_reversal_success\<close>, \<open>record_chargeback\<close>) and the
  \<open>PaymentReversal\<close> table. The handler is one transaction. As in \<^theory_text>\<open>Fulfilment\<close>, \<open>amount\<close> is the
  text \<open>str(amount)\<close>.
\<close>

section \<open>Reversal rows\<close>

definition reversal_matches :: "reversal \<Rightarrow> invoice \<Rightarrow> string \<Rightarrow> string \<Rightarrow> money \<Rightarrow> string \<Rightarrow> rev_kind \<Rightarrow> bool" where
  "reversal_matches v i reference payment_id amount currency kind \<longleftrightarrow>
     rv_reference v = reference \<and> rv_invoice v = iv_pk i \<and> rv_payment_id v = payment_id \<and>
     rv_amount v = amount \<and> rv_currency v = currency \<and> rv_kind v = kind"

definition reversal_with :: "string \<Rightarrow> db \<Rightarrow> reversal option" where
  "reversal_with reference d = find (\<lambda>v. rv_reference v = reference) (d_reversals d)"

definition new_reversal ::
    "nat \<Rightarrow> invoice \<Rightarrow> string \<Rightarrow> string \<Rightarrow> money \<Rightarrow> string \<Rightarrow> rev_kind \<Rightarrow> rev_status \<Rightarrow> string \<Rightarrow> reversal" where
  "new_reversal pk i reference payment_id amount currency kind status reason =
     \<lparr>rv_pk = pk, rv_invoice = iv_pk i, rv_kind = kind, rv_reference = reference, rv_payment_id = payment_id,
      rv_amount = amount, rv_currency = currency, rv_requested = 0, rv_reversed = 0, rv_shortfall = 0,
      rv_status = status, rv_reason = reason\<rparr>"

text \<open>The amount column has ten digits; the reference is unique. A reference that is taken gives the row
  that holds it if it is the same reversal, and nothing otherwise.\<close>

definition create_reversal_fail_closed ::
    "invoice \<Rightarrow> string \<Rightarrow> string \<Rightarrow> money \<Rightarrow> string \<Rightarrow> rev_kind \<Rightarrow> rev_status \<Rightarrow> string \<Rightarrow> db \<Rightarrow>
       err + (reversal option \<times> bool) \<times> db" where
  "create_reversal_fail_closed i reference payment_id amount currency kind status reason d =
     (if 10 ^ 10 \<le> \<bar>amount\<bar> then Inl (OtherError ''InvalidOperation'')
      else case reversal_with reference d of
        Some v \<Rightarrow>
          Inr ((if reversal_matches v i reference payment_id amount currency kind then Some v else None, False), d)
      | None \<Rightarrow>
          (let v = new_reversal (next_pk rv_pk (d_reversals d)) i reference payment_id amount currency kind status reason
           in Inr ((Some v, True), d\<lparr>d_reversals := row_add v (d_reversals d)\<rparr>)))"

section \<open>The handler\<close>

definition msg_not_payable :: string where "msg_not_payable = ''The invoice was not in a payable status.''"
definition msg_reversal_currency :: string where "msg_reversal_currency = ''Malformed amount or currency of the refund.''"
definition msg_over_refund :: string where
  "msg_over_refund = ''The sum of the refunds exceeds the amount of the payment.''"
definition msg_subscription_refund :: string where
  "msg_subscription_refund = ''A subscription refund requires manual review of the period and of the service rendered.''"
definition msg_no_entitlement :: string where
  "msg_no_entitlement = ''Cannot determine the credits that were originally bought.''"
definition msg_shortfall :: "credits \<Rightarrow> string" where
  "msg_shortfall n = ''Could not take back '' @ str_decimal (Dec n (- 4)) @ '' credits already spent or reserved.''"

definition review_row :: "invoice \<Rightarrow> invoice" where
  "review_row i = i\<lparr>iv_refund_review := True, iv_status := Manual_Review\<rparr>"

text \<open>A reversal that is only recorded.\<close>

definition record_only ::
    "invoice \<Rightarrow> string \<Rightarrow> string \<Rightarrow> money \<Rightarrow> string \<Rightarrow> rev_kind \<Rightarrow> string \<Rightarrow> db \<Rightarrow> err + reversal option \<times> db" where
  "record_only i reference payment_id amount currency kind reason d =
     bind_ok (create_reversal_fail_closed i reference payment_id amount currency kind Rev_Manual_Review reason d)
       (\<lambda>((v, created), d1).
         if v = None \<or> \<not> created then Inr (v, d1)
         else bind_ok (save_invoice (review_row i) d1) (\<lambda>d2. Inr (v, d2)))"

text \<open>A reversal that is counted but whose credits an operator must settle.\<close>

definition count_for_review :: "invoice \<Rightarrow> reversal \<Rightarrow> money \<Rightarrow> string \<Rightarrow> db \<Rightarrow> err + reversal option \<times> db" where
  "count_for_review i v refunded reason d =
     (let v' = v\<lparr>rv_reason := reason\<rparr> in
      bind_ok (save_invoice ((review_row i)\<lparr>iv_refunded := refunded\<rparr>) (put_reversal v' d)) (\<lambda>d'. Inr (Some v', d')))"

text \<open>The credits to be taken back after \<open>refunded\<close> of \<open>amount\<close>: all of them at the end, before that the
  proportional part rounded down to the places of the column. (With the columns of a package the
  quotient of at most 28 digits never rounds up to the next unit.)\<close>

definition credit_target :: "decimal \<Rightarrow> money \<Rightarrow> money \<Rightarrow> credits" where
  "credit_target x refunded amount =
     (if refunded = amount then dec_column 4 x
      else case x of
        Non_Finite \<Rightarrow> 0
      | Dec c e \<Rightarrow> (c * 10 ^ nat (e + 4) * refunded) div (amount * 10 ^ nat (- (e + 4))))"

definition requested_before :: "nat \<Rightarrow> nat \<Rightarrow> db \<Rightarrow> credits" where
  "requested_before invoice_id pk d =
     sum_list (map rv_requested (filter (\<lambda>v. rv_invoice v = invoice_id \<and> rv_pk v \<noteq> pk) (d_reversals d)))"

definition kind_name :: "rev_kind \<Rightarrow> string" where
  "kind_name kind = (case kind of Rev_Chargeback \<Rightarrow> ''chargeback'' | Rev_Refund \<Rightarrow> ''refund'')"

definition kind_txn :: "rev_kind \<Rightarrow> txn_kind" where
  "kind_txn kind = (case kind of Rev_Chargeback \<Rightarrow> K_Chargeback | Rev_Refund \<Rightarrow> K_Refund)"

definition reversed_invoice :: "invoice \<Rightarrow> dict \<Rightarrow> money \<Rightarrow> credits \<Rightarrow> invoice" where
  "reversed_invoice i snapshot refunded shortfall =
     (let i1 = (if in_snapshot (iv_intent i) = [] \<and> snapshot \<noteq> [] then with_snapshot snapshot i else i)
      in if shortfall \<noteq> 0 then (review_row i1)\<lparr>iv_refunded := refunded\<rparr>
         else i1\<lparr>iv_refunded := refunded,
                 iv_status := (if refunded = in_amount (iv_intent i) then Refunded else Partially_Refunded)\<rparr>)"

definition settled_reversal :: "reversal \<Rightarrow> credits \<Rightarrow> credits \<Rightarrow> credits \<Rightarrow> reversal" where
  "settled_reversal v requested reversed shortfall =
     v\<lparr>rv_requested := requested, rv_reversed := reversed, rv_shortfall := shortfall,
       rv_status := (if shortfall \<noteq> 0 then Rev_Manual_Review else Rev_Applied),
       rv_reason := (if shortfall \<noteq> 0 then msg_shortfall shortfall else rv_reason v)\<rparr>"

definition reverse_credits ::
    "env \<Rightarrow> tenant \<Rightarrow> invoice \<Rightarrow> reversal \<Rightarrow> money \<Rightarrow> decimal \<Rightarrow> dict \<Rightarrow> db \<Rightarrow> err + reversal option \<times> db" where
  "reverse_credits e tn i v refunded x snapshot d =
     (let target = credit_target x refunded (in_amount (iv_intent i));
          requested = max 0 (target - requested_before (iv_pk i) (rv_pk v) d)
      in bind_ok (reverse_purchased e tn requested (kind_name (rv_kind v) @ '':'' @ rv_reference v) (rv_reference v)
           (kind_txn (rv_kind v)) d) (\<lambda>((reversed, shortfall), d1).
         (let v' = settled_reversal v requested reversed shortfall in
          bind_ok (save_invoice (reversed_invoice i snapshot refunded shortfall) (put_reversal v' d1))
            (\<lambda>d2. Inr (Some v', d2)))))"

definition apply_reversal ::
    "env \<Rightarrow> tenant \<Rightarrow> invoice \<Rightarrow> string \<Rightarrow> string \<Rightarrow> money \<Rightarrow> string \<Rightarrow> rev_kind \<Rightarrow> db \<Rightarrow> err + reversal option \<times> db" where
  "apply_reversal e tn i reference payment_id amount currency kind d =
     (let refunded = iv_refunded i + amount in
      bind_ok (create_reversal_fail_closed i reference payment_id amount currency kind Rev_Manual_Review [] d)
        (\<lambda>((vo, created), d1).
          case vo of
            None \<Rightarrow> Inr (None, d1)
          | Some v \<Rightarrow>
              (if \<not> created then Inr (Some v, d1)
               else if in_type (iv_intent i) \<noteq> AI_Topup then count_for_review i v refunded msg_subscription_refund d1
               else bind_ok (ai_entitlement_from_invoice i d1) (\<lambda>(entitlement, snapshot).
                 case entitlement of
                   None \<Rightarrow> count_for_review i v refunded msg_no_entitlement d1
                 | Some x \<Rightarrow> reverse_credits e tn i v refunded x snapshot d1))))"

definition handle_reversal_success ::
    "env \<Rightarrow> nat \<Rightarrow> string \<Rightarrow> string \<Rightarrow> string \<Rightarrow> string \<Rightarrow> rev_kind \<Rightarrow> db \<Rightarrow> err + reversal option \<times> db" where
  "handle_reversal_success e invoice_id reference payment_id amount currency kind d =
     (if reference = [] \<or> 200 < length reference then Inr (None, d)
      else case invoice_with_tenant invoice_id d of
        None \<Rightarrow> Inr (None, d)
      | Some (i, tn) \<Rightarrow>
          (if payment_id = [] \<or> iv_payment_id i \<noteq> payment_id then Inr (None, d)
           else case received_amount amount of
             None \<Rightarrow> Inr (None, d)
           | Some a \<Rightarrow>
               (let c = received_currency currency in
                if \<not> is_currency_text c then Inr (None, d)
                else case reversal_with reference d of
                  Some v \<Rightarrow> Inr (if reversal_matches v i reference payment_id a c kind then Some v else None, d)
                | None \<Rightarrow>
                    (if iv_status i \<notin> {Paid, Partially_Refunded, Manual_Review}
                     then record_only i reference payment_id a c kind msg_not_payable d
                     else if c \<noteq> in_currency (iv_intent i)
                     then record_only i reference payment_id a c kind msg_reversal_currency d
                     else if a > in_amount (iv_intent i) - iv_refunded i
                     then record_only i reference payment_id a c kind msg_over_refund d
                     else apply_reversal e tn i reference payment_id a c kind d))))"

definition record_chargeback :: "env \<Rightarrow> invoice \<Rightarrow> string \<Rightarrow> string \<Rightarrow> string \<Rightarrow> db \<Rightarrow> err + reversal option \<times> db" where
  "record_chargeback e i amount external_reference currency d =
     handle_reversal_success e (iv_pk i) external_reference (iv_payment_id i) amount currency Rev_Chargeback d"

section \<open>The shape of an outcome\<close>

definition requested_sum :: "nat \<Rightarrow> db \<Rightarrow> credits" where
  "requested_sum k d = sum_list (map rv_requested (filter (\<lambda>v. rv_invoice v = k) (d_reversals d)))"

lemma requested_before_new:
  assumes "d_reversals d1 = row_add v (d_reversals d)" "rv_pk v = next_pk rv_pk (d_reversals d)"
  shows "requested_before k (rv_pk v) d1 = requested_sum k d"
proof -
  have "rv_pk u \<noteq> rv_pk v" if "u \<in> set (d_reversals d)" for u
    using next_pk_fresh [of rv_pk "d_reversals d"] that assms(2) by (metis imageI)
  then have "filter (\<lambda>u. rv_invoice u = k \<and> rv_pk u \<noteq> rv_pk v) (d_reversals d) = filter (\<lambda>u. rv_invoice u = k) (d_reversals d)"
    by (intro filter_cong) auto
  then show ?thesis by (simp add: requested_before_def requested_sum_def assms(1) row_add_def)
qed

lemma row_put_fresh:
  assumes "pk v \<notin> pk ` set rows" "pk v' = pk v"
  shows "row_put pk v' (row_add v rows) = rows @ [v']"
proof -
  have "map (\<lambda>x. if pk x = pk v' then v' else x) rows = rows"
    using assms by (intro map_idI) (metis image_eqI)
  then show ?thesis using assms(2) by (simp add: row_put_def row_add_def)
qed

lemma create_reversal_new:
  assumes "create_reversal_fail_closed i ref pid a c kind st reason d = Inr ((vo, created), d1)" "reversal_with ref d = None"
  shows "\<exists>v. vo = Some v \<and> created \<and> v = new_reversal (next_pk rv_pk (d_reversals d)) i ref pid a c kind st reason \<and>
    d1 = d\<lparr>d_reversals := row_add v (d_reversals d)\<rparr>"
  using assms by (auto simp: create_reversal_fail_closed_def Let_def split: if_splits)

lemma new_reversal_sel [simp]:
  "rv_pk (new_reversal pk i ref pid a c kind st reason) = pk"
  "rv_invoice (new_reversal pk i ref pid a c kind st reason) = iv_pk i"
  "rv_requested (new_reversal pk i ref pid a c kind st reason) = 0"
  "reversal_matches (new_reversal pk i ref pid a c kind st reason) i ref pid a c kind"
  "rv_kind (new_reversal pk i ref pid a c kind st reason) = kind"
  "rv_reference (new_reversal pk i ref pid a c kind st reason) = ref"
  "rv_status (new_reversal pk i ref pid a c kind st reason) = st"
  by (simp_all add: new_reversal_def reversal_matches_def)

lemma review_row_sel [simp]:
  "iv_pk (review_row i) = iv_pk i" "iv_intent (review_row i) = iv_intent i" "iv_payment_id (review_row i) = iv_payment_id i"
  "iv_refunded (review_row i) = iv_refunded i" "iv_status (review_row i) = Manual_Review"
  "iv_paid_at (review_row i) = iv_paid_at i"
  by (simp_all add: review_row_def)

text \<open>One reversal row was appended for the invoice and the invoice was saved; nothing else changed but
  the wallet side.\<close>

definition appended :: "invoice \<Rightarrow> reversal \<Rightarrow> invoice \<Rightarrow> db \<Rightarrow> db \<Rightarrow> bool" where
  "appended i v i' d d' \<longleftrightarrow>
     rv_pk v = next_pk rv_pk (d_reversals d) \<and> d_reversals d' = d_reversals d @ [v] \<and>
     save_guard i i' \<and> iv_pk i' = iv_pk i \<and> iv_payment_id i' = iv_payment_id i \<and>
     in_amount (iv_intent i') = in_amount (iv_intent i) \<and> in_tenant (iv_intent i') = in_tenant (iv_intent i) \<and>
     d_invoices d' = row_put iv_pk i' (d_invoices d) \<and> d_tenants d' = d_tenants d \<and> d_subs d' = d_subs d"

lemma save_invoice_guard:
  assumes "save_invoice i' d = Inr d'" "get_invoice k d = Some i" "iv_pk i' = k"
  shows "save_guard i i'" "d' = put_invoice i' d"
  using assms by (auto simp: save_invoice_Inr)

lemma record_only_cases:
  assumes "record_only i ref pid a c kind reason d = Inr (vo, d')" "get_invoice (iv_pk i) d = Some i" "reversal_with ref d = None"
  obtains v where "vo = Some v" "reversal_matches v i ref pid a c kind" "rv_requested v = 0" "appended i v (review_row i) d d'"
    "d_wallets d' = d_wallets d" "d_ledger d' = d_ledger d" "rv_status v = Rev_Manual_Review"
proof -
  obtain vo1 created d1 where c: "create_reversal_fail_closed i ref pid a c kind Rev_Manual_Review reason d = Inr ((vo1, created), d1)"
    and rest: "(if vo1 = None \<or> \<not> created then Inr (vo1, d1)
         else bind_ok (save_invoice (review_row i) d1) (\<lambda>d2. Inr (vo1, d2))) = Inr (vo, d')"
    using assms(1) by (auto simp: record_only_def elim!: bind_ok_OkE)
  obtain v where v: "vo1 = Some v" created "v = new_reversal (next_pk rv_pk (d_reversals d)) i ref pid a c kind Rev_Manual_Review reason"
      "d1 = d\<lparr>d_reversals := row_add v (d_reversals d)\<rparr>"
    using create_reversal_new [OF c assms(3)] by blast
  have s: "save_invoice (review_row i) d1 = Inr d'" "vo = Some v"
    using rest v(1,2) by (auto elim!: bind_ok_OkE)
  have "get_invoice (iv_pk i) d1 = Some i" using assms(2) v(4) by (simp add: get_invoice_def)
  note sg = save_invoice_guard [OF s(1) this]
  have "appended i v (review_row i) d d'"
    using sg v(3) by (simp add: appended_def v(4) put_invoice_def row_add_def)
  moreover have "d_wallets d' = d_wallets d" "d_ledger d' = d_ledger d" using sg(2) v(4) by simp_all
  ultimately show thesis using that [OF s(2)] v(3) by simp
qed

lemma count_for_review_cases:
  assumes "count_for_review i v refunded reason d1 = Inr (vo, d')" "get_invoice (iv_pk i) d = Some i"
    "d1 = d\<lparr>d_reversals := row_add v (d_reversals d)\<rparr>" "rv_pk v = next_pk rv_pk (d_reversals d)"
  obtains v' where "vo = Some v'" "v' = v\<lparr>rv_reason := reason\<rparr>"
    "appended i v' ((review_row i)\<lparr>iv_refunded := refunded\<rparr>) d d'" "d_wallets d' = d_wallets d" "d_ledger d' = d_ledger d"
proof -
  let ?v = "v\<lparr>rv_reason := reason\<rparr>" and ?i = "(review_row i)\<lparr>iv_refunded := refunded\<rparr>"
  have s: "save_invoice ?i (put_reversal ?v d1) = Inr d'" "vo = Some ?v"
    using assms(1) by (auto simp: count_for_review_def Let_def elim!: bind_ok_OkE)
  have "get_invoice (iv_pk i) (put_reversal ?v d1) = Some i"
    using assms(2,3) by (simp add: get_invoice_def put_reversal_def)
  note sg = save_invoice_guard [OF s(1) this]
  have rows: "row_put rv_pk ?v (row_add v (d_reversals d)) = d_reversals d @ [?v]"
    using assms(4) next_pk_fresh by (intro row_put_fresh) simp_all
  have "appended i ?v ?i d d'"
    using sg assms(3,4) rows by (simp add: appended_def put_invoice_def put_reversal_def)
  moreover have "d_wallets d' = d_wallets d" "d_ledger d' = d_ledger d" using sg(2) assms(3) by (simp_all add: put_reversal_def)
  ultimately show thesis by (rule that [OF s(2) refl])
qed

lemma entitlement_ledger:
  assumes "d_ledger d' = d_ledger d" shows "ai_entitlement_from_invoice i d' = ai_entitlement_from_invoice i d"
  unfolding ai_entitlement_from_invoice_def topup_rows_def assms by (rule refl)

lemma reversed_invoice_sel [simp]:
  "iv_pk (reversed_invoice i s r n) = iv_pk i" "iv_payment_id (reversed_invoice i s r n) = iv_payment_id i"
  "iv_refunded (reversed_invoice i s r n) = r"
  "in_amount (iv_intent (reversed_invoice i s r n)) = in_amount (iv_intent i)"
  "in_tenant (iv_intent (reversed_invoice i s r n)) = in_tenant (iv_intent i)"
  by (simp_all add: reversed_invoice_def Let_def)

lemma settled_reversal_sel [simp]:
  "rv_pk (settled_reversal v a b c) = rv_pk v" "rv_requested (settled_reversal v a b c) = a"
  "rv_reversed (settled_reversal v a b c) = b" "rv_shortfall (settled_reversal v a b c) = c"
  "rv_invoice (settled_reversal v a b c) = rv_invoice v" "rv_reference (settled_reversal v a b c) = rv_reference v"
  "reversal_matches (settled_reversal v a b c) i ref pid am cu kind = reversal_matches v i ref pid am cu kind"
  "rv_status (settled_reversal v a b c) = (if c \<noteq> 0 then Rev_Manual_Review else Rev_Applied)"
  by (simp_all add: settled_reversal_def reversal_matches_def)

lemma reverse_credits_cases:
  assumes "reverse_credits e tn i v refunded x snapshot d1 = Inr (vo, d')" "get_invoice (iv_pk i) d = Some i"
    "d1 = d\<lparr>d_reversals := row_add v (d_reversals d)\<rparr>" "rv_pk v = next_pk rv_pk (d_reversals d)"
  obtains n reversed shortfall d2 where
    "n = max 0 (credit_target x refunded (in_amount (iv_intent i)) - requested_sum (iv_pk i) d)"
    "reverse_purchased e tn n (kind_name (rv_kind v) @ '':'' @ rv_reference v) (rv_reference v) (kind_txn (rv_kind v)) d1 =
       Inr ((reversed, shortfall), d2)"
    "vo = Some (settled_reversal v n reversed shortfall)"
    "appended i (settled_reversal v n reversed shortfall) (reversed_invoice i snapshot refunded shortfall) d d'"
    "d_wallets d' = d_wallets d2" "d_ledger d' = d_ledger d2"
proof -
  have rb: "requested_before (iv_pk i) (rv_pk v) d1 = requested_sum (iv_pk i) d"
    using assms(3,4) by (intro requested_before_new) simp_all
  let ?n = "max 0 (credit_target x refunded (in_amount (iv_intent i)) - requested_sum (iv_pk i) d)"
  obtain reversed shortfall d2 where rp: "reverse_purchased e tn ?n (kind_name (rv_kind v) @ '':'' @ rv_reference v)
       (rv_reference v) (kind_txn (rv_kind v)) d1 = Inr ((reversed, shortfall), d2)"
    using assms(1) rb by (auto simp: reverse_credits_def Let_def elim!: bind_ok_OkE)
  let ?v = "settled_reversal v ?n reversed shortfall" and ?i = "reversed_invoice i snapshot refunded shortfall"
  have s: "save_invoice ?i (put_reversal ?v d2) = Inr d'" "vo = Some ?v"
    using assms(1) rb rp by (auto simp: reverse_credits_def Let_def elim!: bind_ok_OkE)
  note same = same_but_walletsD [OF same_reverse [OF rp]]
  have "get_invoice (iv_pk i) (put_reversal ?v d2) = Some i"
    using assms(2,3) same(4) by (simp add: get_invoice_def put_reversal_def)
  note sg = save_invoice_guard [OF s(1) this]
  have rows: "row_put rv_pk ?v (row_add v (d_reversals d)) = d_reversals d @ [?v]"
    using assms(4) next_pk_fresh by (intro row_put_fresh) simp_all
  have "appended i ?v ?i d d'"
    using sg assms(3,4) rows same by (simp add: appended_def put_invoice_def put_reversal_def)
  moreover have "d_wallets d' = d_wallets d2" "d_ledger d' = d_ledger d2" using sg(2) by (simp_all add: put_reversal_def)
  ultimately show thesis by (rule that [OF refl rp s(2)])
qed

text \<open>Every outcome of the handler: nothing changed (and the row that holds the reference is returned, or
  nothing), or one row was appended, without effect on the
  refunded amount, or counted in it.\<close>

lemma reversal_cases:
  assumes "handle_reversal_success e k ref pid amt cur kind d = Inr (vo, d')"
  obtains (unchanged) "d' = d" "vo = None \<or> vo = reversal_with ref d"
  | (recorded) i tn a v i' where "invoice_with_tenant k d = Some (i, tn)" "received_amount amt = Some a" "iv_pk i = k"
      "reversal_with ref d = None" "vo = Some v" "reversal_matches v i ref pid a (received_currency cur) kind"
      "appended i v i' d d'" "iv_refunded i' = iv_refunded i" "rv_requested v = 0"
      "d_wallets d' = d_wallets d" "d_ledger d' = d_ledger d" "rv_status v = Rev_Manual_Review"
  | (counted) i tn a v i' where "invoice_with_tenant k d = Some (i, tn)" "received_amount amt = Some a" "iv_pk i = k"
      "reversal_with ref d = None" "vo = Some v" "reversal_matches v i ref pid a (received_currency cur) kind"
      "appended i v i' d d'" "iv_refunded i' = iv_refunded i + a" "iv_refunded i + a \<le> in_amount (iv_intent i)"
      "in_type (iv_intent i) \<noteq> AI_Topup \<or> (\<exists>s. ai_entitlement_from_invoice i d = Inr (None, s))"
      "rv_requested v = 0" "d_wallets d' = d_wallets d" "d_ledger d' = d_ledger d" "rv_status v = Rev_Manual_Review"
  | (credited) i tn a v i' x s d1 d2 where "invoice_with_tenant k d = Some (i, tn)" "received_amount amt = Some a" "iv_pk i = k"
      "reversal_with ref d = None" "vo = Some v" "reversal_matches v i ref pid a (received_currency cur) kind"
      "appended i v i' d d'" "iv_refunded i' = iv_refunded i + a" "iv_refunded i + a \<le> in_amount (iv_intent i)"
      "in_type (iv_intent i) = AI_Topup" "ai_entitlement_from_invoice i d = Inr (Some x, s)"
      "rv_requested v = max 0 (credit_target x (iv_refunded i + a) (in_amount (iv_intent i)) - requested_sum k d)"
      "d_wallets d1 = d_wallets d" "d_ledger d1 = d_ledger d" "d_subs d1 = d_subs d" "d_plans d1 = d_plans d"
      "reverse_purchased e tn (rv_requested v) (kind_name kind @ '':'' @ ref) ref (kind_txn kind) d1 =
         Inr ((rv_reversed v, rv_shortfall v), d2)"
      "d_wallets d' = d_wallets d2" "d_ledger d' = d_ledger d2"
      "i' = reversed_invoice i s (iv_refunded i + a) (rv_shortfall v)"
      "rv_status v = (if rv_shortfall v \<noteq> 0 then Rev_Manual_Review else Rev_Applied)"
proof (cases "d' = d \<and> (vo = None \<or> vo = reversal_with ref d)")
  case True
  then show thesis using unchanged by blast
next
  case changed: False
  let ?c = "received_currency cur"
  obtain i tn where it: "invoice_with_tenant k d = Some (i, tn)"
    using assms changed by (auto simp: handle_reversal_success_def split: if_splits option.splits)
  then have g: "get_invoice k d = Some i" by (auto simp: invoice_with_tenant_def split: option.splits)
  have pk: "iv_pk i = k" "get_invoice (iv_pk i) d = Some i" using get_invoice_mem [OF g] g by simp_all
  obtain a where a: "received_amount amt = Some a"
    using assms changed it by (auto simp: handle_reversal_success_def split: if_splits option.splits)
  have none: "reversal_with ref d = None"
    using assms changed it a by (auto simp: handle_reversal_success_def Let_def split: if_splits option.splits)
  show thesis
  proof (cases "\<exists>reason. record_only i ref pid a ?c kind reason d = Inr (vo, d')")
    case True
    then obtain reason where "record_only i ref pid a ?c kind reason d = Inr (vo, d')" by blast
    then show thesis
      using pk(2) none
    proof (cases rule: record_only_cases)
      case (1 v)
      show thesis by (rule recorded [OF it a pk(1) none 1(1,2,4) _ 1(3,5,6,7)]) simp
    qed
  next
    case False
    then have ap: "apply_reversal e tn i ref pid a ?c kind d = Inr (vo, d')" and le: "iv_refunded i + a \<le> in_amount (iv_intent i)"
      using assms changed it a none
      by (auto simp: handle_reversal_success_def Let_def split: if_splits)
    obtain vo1 created d1 where c: "create_reversal_fail_closed i ref pid a ?c kind Rev_Manual_Review [] d = Inr ((vo1, created), d1)"
      using ap by (auto simp: apply_reversal_def Let_def elim!: bind_ok_OkE)
    obtain v where v: "vo1 = Some v" created "v = new_reversal (next_pk rv_pk (d_reversals d)) i ref pid a ?c kind Rev_Manual_Review []"
        "d1 = d\<lparr>d_reversals := row_add v (d_reversals d)\<rparr>"
      using create_reversal_new [OF c none] by blast
    have vpk: "rv_pk v = next_pk rv_pk (d_reversals d)" "rv_requested v = 0" "reversal_matches v i ref pid a ?c kind"
      "rv_kind v = kind" "rv_reference v = ref" "rv_status v = Rev_Manual_Review" using v(3) by simp_all
    have ent: "ai_entitlement_from_invoice i d1 = ai_entitlement_from_invoice i d"
      using v(4) by (intro entitlement_ledger) simp
    have review: thesis if "count_for_review i v (iv_refunded i + a) reason d1 = Inr (vo, d')"
        "in_type (iv_intent i) \<noteq> AI_Topup \<or> (\<exists>s. ai_entitlement_from_invoice i d = Inr (None, s))" for reason
      using that(1) pk(2) v(4) vpk(1)
    proof (cases rule: count_for_review_cases)
      case (1 v')
      show thesis
        by (rule counted [OF it a pk(1) none 1(1) _ 1(3) _ le that(2) _ 1(4,5)])
          (use 1(2) vpk in \<open>simp_all add: reversal_matches_def\<close>)
    qed
    show thesis
    proof (cases "in_type (iv_intent i) = AI_Topup")
      case False
      then have "count_for_review i v (iv_refunded i + a) msg_subscription_refund d1 = Inr (vo, d')"
        using ap c v(1,2) by (simp add: apply_reversal_def Let_def)
      then show thesis using review False by blast
    next
      case ai: True
      then obtain en s where en: "ai_entitlement_from_invoice i d1 = Inr (en, s)"
        using ap c v(1,2) by (auto simp: apply_reversal_def Let_def elim!: bind_ok_OkE)
      show thesis
      proof (cases en)
        case None
        then have "count_for_review i v (iv_refunded i + a) msg_no_entitlement d1 = Inr (vo, d')"
          using ap c v(1,2) ai en by (simp add: apply_reversal_def Let_def)
        then show thesis using review en ent None by auto
      next
        case (Some x)
        then have "reverse_credits e tn i v (iv_refunded i + a) x s d1 = Inr (vo, d')"
          using ap c v(1,2) ai en by (simp add: apply_reversal_def Let_def)
        then show thesis
          using pk(2) v(4) vpk(1)
        proof (cases rule: reverse_credits_cases)
          case (1 n reversed shortfall d2)
          show thesis
            by (rule credited [OF it a pk(1) none 1(3) _ 1(4) _ le ai _ _ _ _ _ _ _ 1(5,6), where ?d1.0 = d1])
              (use 1(1,2) vpk pk en Some ent v(4) in \<open>simp_all\<close>)
        qed
      qed
    qed
  qed
qed

section \<open>Once per provider reference\<close>

lemma reversal_with_append:
  "reversal_with ref d = None \<Longrightarrow> rv_reference v = ref \<Longrightarrow> d_reversals d' = d_reversals d @ [v] \<Longrightarrow> reversal_with ref d' = Some v"
proof -
  have "find P (xs @ [v]) = Some v" if "find P xs = None" "P v" for P xs
    using that by (induction xs) (auto split: if_splits)
  then show "reversal_with ref d = None \<Longrightarrow> rv_reference v = ref \<Longrightarrow> d_reversals d' = d_reversals d @ [v] \<Longrightarrow> reversal_with ref d' = Some v"
    by (simp add: reversal_with_def)
qed

lemma appended_invoice:
  assumes "appended i v i' d d'" "invoice_with_tenant k d = Some (i, tn)"
  shows "invoice_with_tenant k d' = Some (i', tn)" "get_invoice k d' = Some i'" "get_invoice k d = Some i"
    "j \<noteq> k \<Longrightarrow> get_invoice j d' = get_invoice j d"
proof -
  have g: "get_invoice k d = Some i" "get_tenant (in_tenant (iv_intent i)) d = Some tn"
    using assms(2) by (auto simp: invoice_with_tenant_def split: option.splits)
  then have pk: "iv_pk i' = k" using assms(1) get_invoice_mem [OF g(1)] by (simp add: appended_def)
  then have g': "get_invoice j d' = (if j = k then Some i' else get_invoice j d)" for j
    using assms(1) g(1) by (simp add: appended_def get_invoice_def row_get_put)
  then show "get_invoice k d' = Some i'" "get_invoice k d = Some i" "j \<noteq> k \<Longrightarrow> get_invoice j d' = get_invoice j d"
    using g(1) by simp_all
  then show "invoice_with_tenant k d' = Some (i', tn)"
    using assms(1) g(2) by (simp add: invoice_with_tenant_def appended_def get_tenant_def)
qed

text \<open>What makes a call reach the lookup of the reference.\<close>

lemma reversal_returned:
  assumes "handle_reversal_success e k ref pid amt cur kind d = Inr (Some v, d')"
  shows "reversal_with ref d' = Some v" "ref \<noteq> []" "length ref \<le> 200"
    "\<exists>i tn a. invoice_with_tenant k d' = Some (i, tn) \<and> pid \<noteq> [] \<and> iv_payment_id i = pid \<and> received_amount amt = Some a \<and>
       is_currency_text (received_currency cur) \<and> reversal_matches v i ref pid a (received_currency cur) kind"
proof -
  obtain i tn a where b: "invoice_with_tenant k d = Some (i, tn)" "pid \<noteq> []" "iv_payment_id i = pid" "received_amount amt = Some a"
      "is_currency_text (received_currency cur)" "ref \<noteq> []" "length ref \<le> 200"
    using assms by (auto simp: handle_reversal_success_def Let_def split: if_splits option.splits)
  show "ref \<noteq> []" "length ref \<le> 200" by fact+
  have new: "reversal_with ref d' = Some v \<and> (\<exists>i tn a. invoice_with_tenant k d' = Some (i, tn) \<and> pid \<noteq> [] \<and>
      iv_payment_id i = pid \<and> received_amount amt = Some a \<and>
      is_currency_text (received_currency cur) \<and> reversal_matches v i ref pid a (received_currency cur) kind)"
    if "appended i0 v i' d d'" "invoice_with_tenant k d = Some (i0, tn0)" "received_amount amt = Some a0"
      "reversal_with ref d = None" "reversal_matches v i0 ref pid a0 (received_currency cur) kind" for i0 tn0 a0 i'
  proof -
    have "reversal_with ref d' = Some v"
      using that by (intro reversal_with_append [OF that(4)]) (simp_all add: reversal_matches_def appended_def)
    moreover have "invoice_with_tenant k d' = Some (i', tn0)" by (rule appended_invoice(1) [OF that(1,2)])
    moreover have "iv_pk i' = iv_pk i0" "iv_payment_id i' = iv_payment_id i0" using that(1) by (simp_all add: appended_def)
    ultimately show ?thesis using that b by (auto simp: reversal_matches_def)
  qed
  have "reversal_with ref d' = Some v \<and> (\<exists>i tn a. invoice_with_tenant k d' = Some (i, tn) \<and> pid \<noteq> [] \<and>
      iv_payment_id i = pid \<and> received_amount amt = Some a \<and>
      is_currency_text (received_currency cur) \<and> reversal_matches v i ref pid a (received_currency cur) kind)"
    using assms
  proof (cases rule: reversal_cases)
    case unchanged
    then have r: "reversal_with ref d = Some v" by simp
    then have "reversal_matches v i ref pid a (received_currency cur) kind"
      using assms b by (simp add: handle_reversal_success_def Let_def split: if_splits)
    then show ?thesis using unchanged(1) r b by auto
  next
    case (recorded i0 tn0 a0 v0 i')
    show ?thesis by (rule new [OF _ recorded(1,2,4)]) (use recorded(5,6,7) in simp_all)
  next
    case (counted i0 tn0 a0 v0 i')
    show ?thesis by (rule new [OF _ counted(1,2,4)]) (use counted(5,6,7) in simp_all)
  next
    case (credited i0 tn0 a0 v0 i' x s d1 d2)
    show ?thesis by (rule new [OF _ credited(1,2,4)]) (use credited(5,6,7) in simp_all)
  qed
  then show "reversal_with ref d' = Some v"
    "\<exists>i tn a. invoice_with_tenant k d' = Some (i, tn) \<and> pid \<noteq> [] \<and> iv_payment_id i = pid \<and> received_amount amt = Some a \<and>
       is_currency_text (received_currency cur) \<and> reversal_matches v i ref pid a (received_currency cur) kind" by blast+
qed

text \<open>A provider reference is reversed once: after the handler has returned a reversal, the same
  delivery returns the same reversal and changes nothing, and any other delivery under the same
  reference (another invoice, payment, amount, currency or kind) changes nothing either.\<close>

theorem reversal_takes_effect_once:
  assumes "handle_reversal_success e k ref pid amt cur kind d = Inr (Some v, d')"
  shows "handle_reversal_success e' k ref pid amt cur kind d' = Inr (Some v, d') \<and>
     (\<exists>x. handle_reversal_success e' k2 ref pid2 amt2 cur2 kind2 d' = Inr (x, d') \<and> x \<in> {None, Some v})"
proof
  note rr = reversal_returned [OF assms]
  show "handle_reversal_success e' k ref pid amt cur kind d' = Inr (Some v, d')"
    using rr by (auto simp: handle_reversal_success_def Let_def)
  show "\<exists>x. handle_reversal_success e' k2 ref pid2 amt2 cur2 kind2 d' = Inr (x, d') \<and> x \<in> {None, Some v}"
    using rr(1) by (auto simp: handle_reversal_success_def Let_def split: option.split)
qed

section \<open>Any sequence of reversals\<close>

datatype reversal_op = Reversal_Op env nat string string string string rev_kind

text \<open>One transaction: an exception rolls back.\<close>

fun reversal_act :: "reversal_op \<Rightarrow> db \<Rightarrow> db" where
  "reversal_act (Reversal_Op e k ref pid amt cur kind) d =
     (case handle_reversal_success e k ref pid amt cur kind d of Inl _ \<Rightarrow> d | Inr (_, d') \<Rightarrow> d')"

lemma reversal_act_cases:
  "reversal_act (Reversal_Op e k ref pid amt cur kind) d = d \<or>
     (\<exists>vo. handle_reversal_success e k ref pid amt cur kind d = Inr (vo, reversal_act (Reversal_Op e k ref pid amt cur kind) d))"
  by (auto split: sum.splits)

lemma received_amount_positive: "received_amount t = Some a \<Longrightarrow> 0 < a"
  by (auto simp: received_amount_def split: option.splits if_splits)

definition refunds_ok :: "db \<Rightarrow> bool" where
  "refunds_ok d \<longleftrightarrow> (\<forall>i\<in>set (d_invoices d). 0 \<le> iv_refunded i \<and> iv_refunded i \<le> in_amount (iv_intent i))"

lemma appended_refunds:
  assumes "appended i v i' d d'" "refunds_ok d" "0 \<le> iv_refunded i'" "iv_refunded i' \<le> in_amount (iv_intent i)"
  shows "refunds_ok d'"
  using assms by (auto simp: refunds_ok_def appended_def row_put_def)

lemma reversal_refunds_ok:
  assumes "handle_reversal_success e k ref pid amt cur kind d = Inr (vo, d')" "refunds_ok d"
  shows "refunds_ok d'"
proof -
  have row: "0 \<le> iv_refunded i \<and> iv_refunded i \<le> in_amount (iv_intent i)" if "invoice_with_tenant k d = Some (i, tn)" for i tn
  proof -
    have "get_invoice k d = Some i" using that by (auto simp: invoice_with_tenant_def split: option.splits)
    then show ?thesis using assms(2) get_invoice_mem by (auto simp: refunds_ok_def)
  qed
  show ?thesis
    using assms(1)
  proof (cases rule: reversal_cases)
    case unchanged
    then show ?thesis using assms(2) by simp
  next
    case (recorded i tn a v i')
    then show ?thesis using appended_refunds [OF recorded(7) assms(2)] row [OF recorded(1)] by simp
  next
    case (counted i tn a v i')
    then show ?thesis
      using appended_refunds [OF counted(7) assms(2)] row [OF counted(1)] received_amount_positive [OF counted(2)] by simp
  next
    case (credited i tn a v i' x s d1 d2)
    then show ?thesis
      using appended_refunds [OF credited(7) assms(2)] row [OF credited(1)] received_amount_positive [OF credited(2)] by simp
  qed
qed

lemma reversal_act_refunds: "refunds_ok d \<Longrightarrow> refunds_ok (reversal_act op d)"
proof (cases op)
  case (Reversal_Op e k ref pid amt cur kind)
  assume "refunds_ok d"
  then show ?thesis using reversal_act_cases [of e k ref pid amt cur kind d] reversal_refunds_ok unfolding Reversal_Op by metis
qed

lemma reversal_run_refunds: "refunds_ok d \<Longrightarrow> refunds_ok (fold reversal_act ops d)"
  by (induction ops arbitrary: d) (simp_all add: reversal_act_refunds)

text \<open>The credit target grows with the refunded part and ends at the whole entitlement.\<close>

lemma credit_target_mono:
  assumes "x = Dec c e" "0 < c" "0 \<le> r" "r \<le> r'" "r' \<le> a" "0 < a"
  shows "credit_target x r a \<le> credit_target x r' a"
proof -
  define n where "n = c * 10 ^ nat (e + 4)"
  define m :: int where "m = 10 ^ nat (- (e + 4))"
  have pos: "0 \<le> n" "0 < m" "0 < a * m" using assms(2,6) by (simp_all add: n_def m_def)
  have tgt: "credit_target x q a = (if q = a then dec_column 4 x else (n * q) div (a * m))" for q
    by (simp add: credit_target_def assms(1) n_def m_def)
  have step: "(n * p) div (a * m) \<le> (n * q) div (a * m)" if "p \<le> q" for p q
    using that pos by (intro zdiv_mono1 mult_left_mono) simp_all
  have "(n * a) div (a * m) = n div m" using assms(6) by (simp add: mult.commute [of n])
  moreover have "n div m \<le> dec_column 4 x"
    by (auto simp: dec_column_def assms(1) n_def m_def Let_def)
  ultimately have top: "(n * q) div (a * m) \<le> dec_column 4 x" if "q \<le> a" for q
    using step [OF that] by linarith
  show ?thesis using step [OF assms(4)] top [of r] assms(4,5) by (auto simp: tgt)
qed

lemma credit_target_bounds:
  assumes "x = Dec c e" "0 < c" "0 \<le> r" "r \<le> a" "0 < a"
  shows "0 \<le> credit_target x r a" "credit_target x r a \<le> dec_column 4 x"
proof -
  have "credit_target x 0 a = 0" using assms(5) by (simp add: credit_target_def assms(1))
  then show "0 \<le> credit_target x r a" using credit_target_mono [OF assms(1,2) _ assms(3,4,5)] by simp
  have "credit_target x a a = dec_column 4 x" by (simp add: credit_target_def)
  then show "credit_target x r a \<le> dec_column 4 x" using credit_target_mono [OF assms(1-4) _ assms(5)] by simp
qed

text \<open>The books of one top-up invoice: the credits requested back by all its reversals are the target of
  its refunded amount.\<close>

definition reversal_books :: "nat \<Rightarrow> intent \<Rightarrow> decimal \<Rightarrow> db \<Rightarrow> bool" where
  "reversal_books k it x d \<longleftrightarrow>
     (\<exists>i. get_invoice k d = Some i \<and> iv_intent i = it \<and> 0 \<le> iv_refunded i \<and> iv_refunded i \<le> in_amount it \<and>
        requested_sum k d = credit_target x (iv_refunded i) (in_amount it))"

text \<open>The entitlement written in a snapshot depends on the intent only.\<close>

definition snapshot_entitlement :: "intent \<Rightarrow> decimal \<Rightarrow> bool" where
  "snapshot_entitlement it x \<longleftrightarrow> in_type it = AI_Topup \<and> in_snapshot it \<noteq> [] \<and> 0 < in_amount it \<and>
     (\<forall>i d. iv_intent i = it \<longrightarrow> ai_entitlement_from_invoice i d = Inr (Some x, in_snapshot it))"

lemma snapshot_entitlementI:
  assumes "ai_entitlement_from_invoice i d = Inr (Some x, s)" "in_snapshot (iv_intent i) \<noteq> []"
    "in_type (iv_intent i) = AI_Topup" "0 < in_amount (iv_intent i)"
  shows "snapshot_entitlement (iv_intent i) x"
proof -
  have "ai_entitlement_from_invoice j d0 = ai_entitlement_from_invoice i d" if "iv_intent j = iv_intent i" for j d0
    using that assms(2) by (simp add: ai_entitlement_from_invoice_def Let_def)
  moreover have "s = in_snapshot (iv_intent i)"
    using assms(1,2) by (auto simp: ai_entitlement_from_invoice_def Let_def split: option.splits if_splits)
  ultimately show ?thesis using assms by (simp add: snapshot_entitlement_def)
qed

lemma snapshot_entitlement_positive:
  assumes "snapshot_entitlement it x" shows "\<exists>c e. x = Dec c e \<and> 0 < c"
proof -
  define i where "i = (new_invoice 0 it Ck_Legacy)"
  have "iv_intent i = it" by (simp add: i_def new_invoice_def)
  then have "ai_entitlement_from_invoice i empty_db = Inr (Some x, in_snapshot it)" "in_snapshot (iv_intent i) \<noteq> []"
    using assms by (auto simp: snapshot_entitlement_def)
  then have "dec_positive x"
    by (auto simp: ai_entitlement_from_invoice_def Let_def split: option.splits if_splits)
  then show ?thesis by (auto simp: dec_positive_def split: decimal.splits)
qed

lemma requested_sum_append:
  "d_reversals d' = d_reversals d @ [v] \<Longrightarrow>
     requested_sum k d' = requested_sum k d + (if rv_invoice v = k then rv_requested v else 0)"
  by (simp add: requested_sum_def)

lemma reversal_books_step:
  assumes "handle_reversal_success e k2 ref pid amt cur kind d = Inr (vo, d')" "snapshot_entitlement it x" "reversal_books k it x d"
  shows "reversal_books k it x d'"
proof -
  obtain j where j: "get_invoice k d = Some j" "iv_intent j = it" "0 \<le> iv_refunded j" "iv_refunded j \<le> in_amount it"
      "requested_sum k d = credit_target x (iv_refunded j) (in_amount it)"
    using assms(3) by (auto simp: reversal_books_def)
  have pos: "0 < in_amount it" and snap: "in_snapshot it \<noteq> []" and ai: "in_type it = AI_Topup"
    using assms(2) by (simp_all add: snapshot_entitlement_def)
  obtain c e0 where x: "x = Dec c e0" "0 < c" using snapshot_entitlement_positive [OF assms(2)] by blast
  have other: "reversal_books k it x d'"
    if "appended i v i' d d'" "invoice_with_tenant k2 d = Some (i, tn)" "iv_pk i = k2" "rv_invoice v = iv_pk i" "k2 \<noteq> k"
    for i v i' tn
  proof -
    have "get_invoice k d' = Some j" using appended_invoice(4) [OF that(1,2), of k] that(5) j(1) by simp
    moreover have "requested_sum k d' = requested_sum k d"
      using that requested_sum_append [of d' d v k] by (simp add: appended_def)
    ultimately show ?thesis using j by (auto simp: reversal_books_def)
  qed
  have same: "get_invoice k d' = Some i' \<and> iv_intent i' = it \<and> i = j \<and> requested_sum k d' = requested_sum k d + rv_requested v"
    if "appended i v i' d d'" "invoice_with_tenant k2 d = Some (i, tn)" "iv_pk i = k2" "rv_invoice v = iv_pk i" "k2 = k"
    for i v i' tn
  proof -
    have "i = j" "get_invoice k d' = Some i'"
      using appended_invoice(2,3) [OF that(1,2)] that(5) j(1) by simp_all
    moreover have "iv_intent i' = it"
      using that(1) j(2) snap calculation(1) by (simp add: appended_def save_guard_def)
    moreover have "requested_sum k d' = requested_sum k d + rv_requested v"
      using that requested_sum_append [of d' d v k] by (simp add: appended_def)
    ultimately show ?thesis by blast
  qed
  show ?thesis
    using assms(1)
  proof (cases rule: reversal_cases)
    case unchanged
    then show ?thesis using assms(3) by simp
  next
    case (recorded i tn a v i')
    have v: "rv_invoice v = iv_pk i" using recorded(6) by (simp add: reversal_matches_def)
    show ?thesis
    proof (cases "k2 = k")
      case True
      show ?thesis using same [OF recorded(7,1,3) v True] recorded(8,9) j by (auto simp: reversal_books_def)
    qed (rule other [OF recorded(7,1,3) v])
  next
    case (counted i tn a v i')
    have v: "rv_invoice v = iv_pk i" using counted(6) by (simp add: reversal_matches_def)
    show ?thesis
    proof (cases "k2 = k")
      case True
      have "i = j" using same [OF counted(7,1,3) v True] by blast
      then have False using counted(10) assms(2) j(2) by (auto simp: snapshot_entitlement_def)
      then show ?thesis ..
    qed (rule other [OF counted(7,1,3) v])
  next
    case (credited i tn a v i' x' s d1 d2)
    have v: "rv_invoice v = iv_pk i" using credited(6) by (simp add: reversal_matches_def)
    show ?thesis
    proof (cases "k2 = k")
      case True
      note sm = same [OF credited(7,1,3) v True]
      have ij: "i = j" using sm by blast
      then have "x' = x" using credited(11) assms(2) j(2) by (auto simp: snapshot_entitlement_def)
      have apos: "0 < a" by (rule received_amount_positive [OF credited(2)])
      have le: "iv_refunded j + a \<le> in_amount it" using credited(9) ij j(2) by simp
      have "credit_target x (iv_refunded j) (in_amount it) \<le> credit_target x (iv_refunded j + a) (in_amount it)"
        using credit_target_mono [OF x j(3) _ le pos] apos by simp
      then have "rv_requested v = credit_target x (iv_refunded j + a) (in_amount it) - requested_sum k d"
        using credited(12) ij \<open>x' = x\<close> j(2,5) True by simp
      then have "requested_sum k d' = credit_target x (iv_refunded i') (in_amount it)"
        using sm credited(8) ij by simp
      moreover have "0 \<le> iv_refunded i'" "iv_refunded i' \<le> in_amount it"
        using credited(8) ij j(3) apos le by simp_all
      ultimately show ?thesis using sm by (auto simp: reversal_books_def)
    qed (rule other [OF credited(7,1,3) v])
  qed
qed

lemma reversal_books_run:
  "snapshot_entitlement it x \<Longrightarrow> reversal_books k it x d \<Longrightarrow> reversal_books k it x (fold reversal_act ops d)"
proof (induction ops arbitrary: d)
  case Nil
  then show ?case by simp
next
  case (Cons op ops)
  obtain e k2 ref pid amt cur kind where op: "op = Reversal_Op e k2 ref pid amt cur kind" by (cases op)
  have "reversal_books k it x (reversal_act op d)"
    using reversal_act_cases [of e k2 ref pid amt cur kind d] reversal_books_step [OF _ Cons.prems] Cons.prems(2)
    unfolding op by metis
  then show ?case using Cons.IH Cons.prems(1) by simp
qed

text \<open>C33: No more is refunded than was paid: whatever refunds and chargebacks arrive, in any order and
  from whatever sources, valid or not, the refunded amount of every invoice stays between zero and
  its amount.\<close>

theorem refunds_never_exceed_payments:
  assumes "\<forall>i\<in>set (d_invoices d). 0 \<le> iv_refunded i \<and> iv_refunded i \<le> in_amount (iv_intent i)"
  shows "\<forall>i\<in>set (d_invoices (fold reversal_act ops d)). 0 \<le> iv_refunded i \<and> iv_refunded i \<le> in_amount (iv_intent i)"
  using reversal_run_refunds [of d ops] assms by (simp add: refunds_ok_def)

text \<open>C34: Credits follow refunds: for a top-up invoice with an entitlement of \<open>x\<close> credits, after any
  sequence of reversals of any invoices, the credits requested back by its reversals add up to the
  share of \<open>x\<close> that its refunded amount is of its amount, rounded down once for the whole (not once
  per partial refund): never more than \<open>x\<close>, and all of \<open>x\<close> when everything is refunded.\<close>

theorem credits_follow_refunds:
  assumes "get_invoice k d = Some i" "snapshot_entitlement (iv_intent i) x" "iv_refunded i = 0" "requested_sum k d = 0"
  shows "\<exists>i'. get_invoice k (fold reversal_act ops d) = Some i' \<and> iv_intent i' = iv_intent i \<and>
     requested_sum k (fold reversal_act ops d) = credit_target x (iv_refunded i') (in_amount (iv_intent i)) \<and>
     0 \<le> requested_sum k (fold reversal_act ops d) \<and> requested_sum k (fold reversal_act ops d) \<le> dec_column 4 x \<and>
     (iv_refunded i' = in_amount (iv_intent i) \<longrightarrow> requested_sum k (fold reversal_act ops d) = dec_column 4 x)"
proof -
  let ?it = "iv_intent i"
  obtain c e where x: "x = Dec c e" "0 < c" using snapshot_entitlement_positive [OF assms(2)] by blast
  have pos: "0 < in_amount ?it" using assms(2) by (simp add: snapshot_entitlement_def)
  have "credit_target x 0 (in_amount ?it) = 0" using pos by (simp add: credit_target_def x)
  then have "reversal_books k ?it x d" using assms pos by (auto simp: reversal_books_def)
  from reversal_books_run [OF assms(2) this, of ops]
  obtain i' where i': "get_invoice k (fold reversal_act ops d) = Some i'" "iv_intent i' = ?it"
      "0 \<le> iv_refunded i'" "iv_refunded i' \<le> in_amount ?it"
      "requested_sum k (fold reversal_act ops d) = credit_target x (iv_refunded i') (in_amount ?it)"
    by (auto simp: reversal_books_def)
  then show ?thesis
    using credit_target_bounds [OF x i'(3,4) pos] by (auto simp: credit_target_def)
qed

section \<open>A sample refund\<close>

definition paid_topup :: invoice where
  "paid_topup = paid_row demo_env topup_invoice"

definition refund_of :: "invoice \<Rightarrow> db" where
  "refund_of i = topup_db\<lparr>d_invoices := [i], d_wallets := [demo_wallet 0 5000000 0]\<rparr>"

definition refund_db :: db where
  "refund_db = refund_of paid_topup"

lemma paid_topup_sel:
  "iv_pk paid_topup = 2" "iv_payment_id paid_topup = ''pay-2''" "iv_status paid_topup = Paid" "iv_refunded paid_topup = 0"
  "in_tenant (iv_intent paid_topup) = 7" "in_type (iv_intent paid_topup) = AI_Topup"
  "in_currency (iv_intent paid_topup) = ''RUB''" "in_amount (iv_intent paid_topup) = 99000"
  "in_snapshot (iv_intent paid_topup) \<noteq> []"
  by (simp_all add: paid_topup_def topup_sel)
    (simp_all add: paid_row_def topup_invoice_def new_invoice_def topup_written topup_intent_def package_snapshot_def)

lemma refund_rows:
  assumes "iv_pk i = 2"
  shows "get_invoice 2 (refund_of i) = Some i" "get_tenant 7 (refund_of i) = Some demo_tenant"
    "d_reversals (refund_of i) = []" "d_invoices (refund_of i) = [i]" "d_ledger (refund_of i) = []"
    "wallet_of 7 (refund_of i) = Some (demo_wallet 0 5000000 0)"
  using assms by (simp_all add: refund_of_def get_invoice_def)
    (simp_all add: get_tenant_def topup_db_def demo_db_def demo_tenant_def empty_db_def wallet_of_def demo_wallet_def)

lemmas refund_db_rows = refund_rows [OF paid_topup_sel(1), folded refund_db_def]

lemma refund_entitlement:
  assumes "iv_intent i = iv_intent paid_topup"
  shows "ai_entitlement_from_invoice i d = Inr (Some (Dec 50000 (- 2)), package_snapshot demo_package)"
proof -
  have "iv_intent i = topup_intent demo_env 7 demo_package ''https://map.ru'' 6 ''h''"
    using assms by (simp add: paid_topup_def topup_written)
  from checkout_entitlement [OF this] show ?thesis by (simp add: demo_package_def)
qed

lemma refund_snapshot_entitlement: "snapshot_entitlement (iv_intent paid_topup) (Dec 50000 (- 2))"
  by (rule snapshot_entitlementI [OF refund_entitlement [OF refl, of empty_db]]) (simp_all add: paid_topup_sel)

lemma half_amount: "received_amount ''495.00'' = Some 49500"
proof -
  have "str_cents 49500 = ''495.00''" by (simp add: str_cents_def str_nat.simps pad_def digit_def)
  then have "dec_parse ''495.00'' = Some (Dec 49500 (- 2))" using dec_parse_cents [of 49500] by simp
  then show ?thesis using dec_units_cents [of 49500] by (simp add: received_amount_def)
qed

definition demo_refund :: reversal_op where
  "demo_refund = Reversal_Op demo_env 2 ''ref-1'' ''pay-2'' ''495.00'' ''RUB'' Rev_Refund"

lemma sample_refund_of:
  assumes "iv_pk i = 2" "iv_payment_id i = ''pay-2''" "iv_refunded i = 0" "iv_intent i = iv_intent paid_topup"
    "iv_status i = Paid \<or> iv_status i = Manual_Review"
  shows "\<exists>v d'. handle_reversal_success demo_env 2 ''ref-1'' ''pay-2'' ''495.00'' ''RUB'' Rev_Refund (refund_of i) = Inr (Some v, d') \<and>
     rv_status v = Rev_Applied \<and> rv_requested v = 2500000"
proof -
  note rows = refund_rows [OF assms(1)]
  have sel: "iv_pk i = 2" "iv_payment_id i = ''pay-2''" "iv_refunded i = 0" "iv_status i = Paid \<or> iv_status i = Manual_Review"
    "in_tenant (iv_intent i) = 7" "in_type (iv_intent i) = AI_Topup" "in_currency (iv_intent i) = ''RUB''"
    "in_amount (iv_intent i) = 99000" "in_snapshot (iv_intent i) \<noteq> []"
    using assms paid_topup_sel by simp_all
  have ent: "ai_entitlement_from_invoice i d = Inr (Some (Dec 50000 (- 2)), package_snapshot demo_package)" for d
    by (rule refund_entitlement [OF assms(4)])
  let ?v = "new_reversal 1 i ''ref-1'' ''pay-2'' 49500 ''RUB'' Rev_Refund Rev_Manual_Review []"
  let ?d1 = "(refund_of i)\<lparr>d_reversals := [?v]\<rparr>"
  have cr: "create_reversal_fail_closed i ''ref-1'' ''pay-2'' 49500 ''RUB'' Rev_Refund Rev_Manual_Review [] (refund_of i) =
      Inr ((Some ?v, True), ?d1)"
    by (simp add: create_reversal_fail_closed_def reversal_with_def rows next_pk_def row_add_def Let_def)
  have tgt: "credit_target (Dec 50000 (- 2)) 49500 99000 = 2500000" by (simp add: credit_target_def)
  have w: "wallet_of 7 ?d1 = Some (demo_wallet 0 5000000 0)" using rows(6) by (simp add: wallet_of_def)
  have "ledger_row 7 ''refund:ref-1'' ?d1 = None" "d_ledger ?d1 = []" using rows(5) by (simp_all add: ledger_row_def)
  then obtain d2 where rp: "reverse_purchased demo_env demo_tenant 2500000 ''refund:ref-1'' ''ref-1'' K_Refund ?d1 =
      Inr ((2500000, 0), d2)"
    using w by (simp add: reverse_purchased_def ensure_wallet_eq demo_tenant_def Let_def ledger_create_def ledger_has_def
        put_wallet_def demo_wallet_def)
  note same = same_but_walletsD [OF same_reverse [OF rp]]
  let ?v' = "settled_reversal ?v 2500000 2500000 0"
  let ?i' = "reversed_invoice i (package_snapshot demo_package) 49500 0"
  have i': "iv_pk ?i' = 2" "iv_payment_id ?i' = ''pay-2''" "iv_intent ?i' = iv_intent i"
    by (simp_all add: sel) (simp add: reversed_invoice_def Let_def sel)
  have "d_invoices (put_reversal ?v' d2) = [i]" using same(4) rows(4) by (simp add: put_reversal_def)
  then have "save_invoice ?i' (put_reversal ?v' d2) = Inr (put_invoice ?i' (put_reversal ?v' d2))"
    using i' by (simp add: save_invoice_def get_invoice_def sel save_guard_def unique_ok_def)
  then have rc: "\<exists>d'. reverse_credits demo_env demo_tenant i ?v 49500 (Dec 50000 (- 2)) (package_snapshot demo_package) ?d1 =
      Inr (Some ?v', d')"
    using tgt rp by (simp add: reverse_credits_def sel requested_before_def kind_name_def kind_txn_def Let_def)
  then have "\<exists>d'. apply_reversal demo_env demo_tenant i ''ref-1'' ''pay-2'' 49500 ''RUB'' Rev_Refund (refund_of i) = Inr (Some ?v', d')"
    using cr ent [of ?d1] by (simp add: apply_reversal_def sel Let_def)
  moreover have "received_currency ''RUB'' = ''RUB''" "is_currency_text ''RUB''"
    by (simp_all add: received_currency_def upper_def is_currency_text_def is_alpha_def)
  moreover have "invoice_with_tenant 2 (refund_of i) = Some (i, demo_tenant)"
    using rows(1,2) by (simp add: invoice_with_tenant_def sel)
  ultimately have "\<exists>d'. handle_reversal_success demo_env 2 ''ref-1'' ''pay-2'' ''495.00'' ''RUB'' Rev_Refund (refund_of i) =
      Inr (Some ?v', d')"
    using half_amount rows(3) sel(4) by (auto simp: handle_reversal_success_def sel(1-3,5-9) reversal_with_def Let_def)
  moreover have "rv_status ?v' = Rev_Applied" "rv_requested ?v' = 2500000" by (simp_all add: settled_reversal_def)
  ultimately show ?thesis by blast
qed

lemma sample_refund:
  "\<exists>v d'. handle_reversal_success demo_env 2 ''ref-1'' ''pay-2'' ''495.00'' ''RUB'' Rev_Refund refund_db = Inr (Some v, d') \<and>
     rv_status v = Rev_Applied \<and> rv_requested v = 2500000"
  unfolding refund_db_def by (rule sample_refund_of) (simp_all add: paid_topup_sel)

theorem reversal_takes_effect_once_witness:
  "\<exists>v d'. handle_reversal_success demo_env 2 ''ref-1'' ''pay-2'' ''495.00'' ''RUB'' Rev_Refund refund_db = Inr (Some v, d') \<and>
     handle_reversal_success demo_env 2 ''ref-1'' ''pay-2'' ''495.00'' ''RUB'' Rev_Refund d' = Inr (Some v, d')"
  using sample_refund reversal_takes_effect_once by blast

theorem refunds_never_exceed_payments_witness:
  "list_all (\<lambda>i. iv_refunded i \<le> in_amount (iv_intent i)) (d_invoices (fold reversal_act [demo_refund, demo_refund] refund_db))"
proof -
  have "\<forall>i\<in>set (d_invoices refund_db). 0 \<le> iv_refunded i \<and> iv_refunded i \<le> in_amount (iv_intent i)"
    by (simp add: refund_db_rows paid_topup_sel)
  from refunds_never_exceed_payments [OF this, of "[demo_refund, demo_refund]"] show ?thesis by (simp only: list_all_iff) blast
qed

theorem credits_follow_refunds_witness:
  "\<exists>i. get_invoice 2 (fold reversal_act [demo_refund] refund_db) = Some i \<and>
     requested_sum 2 (fold reversal_act [demo_refund] refund_db) = credit_target (Dec 50000 (- 2)) (iv_refunded i) 99000"
proof -
  have "requested_sum 2 refund_db = 0" by (simp add: requested_sum_def refund_db_rows)
  from credits_follow_refunds [OF refund_db_rows(1) refund_snapshot_entitlement paid_topup_sel(4) this, of "[demo_refund]"]
  show ?thesis by (simp only: paid_topup_sel) blast
qed

section \<open>Applied reversals\<close>

lemma reverse_effect:
  assumes "reverse_purchased e tn n key ref kind d = Inr ((reversed, 0), d')" "\<not> ledger_has (tn_pk tn) key d"
    "key \<noteq> bootstrap_key (tn_pk tn)" "0 \<le> n"
  shows "reversed = n" "purchased_of (tn_pk tn) d' = purchased_of (tn_pk tn) d - n"
proof -
  obtain w d1 where en: "ensure_wallet e tn d = Inr (w, d1)"
    using assms(1) by (auto simp: reverse_purchased_def bind_ok_Inr_iff)
  note ef = ensure_purchased [OF en]
  have none: "ledger_row (tn_pk tn) key d1 = None"
    using ef(3) [OF assms(3)] assms(2) ledger_row_has by blast
  let ?m = "min (max 0 n) (max 0 (wl_purchased w - max 0 (wl_reserved w - wl_included w)))"
  let ?w = "w\<lparr>wl_purchased := wl_purchased w - ?m\<rparr>"
  let ?x = "\<lparr>tx_tenant = tn_pk tn, tx_kind = kind, tx_balance = Bal_Purchased, tx_amount = - ?m, tx_key = key, tx_reference = ref\<rparr>"
  have "bind_ok (ledger_create ?x (put_wallet ?w d1)) (\<lambda>d2. Inr ((?m, max 0 n - ?m), d2)) = Inr ((reversed, 0), d')"
    using assms(1) by (simp only: reverse_purchased_def en bind_ok_simps prod.case none option.case Let_def)
  then have c: "ledger_create ?x (put_wallet ?w d1) = Inr d'" and m: "reversed = ?m" "max 0 n - ?m = 0"
    by (auto elim!: bind_ok_OkE)
  have mn: "?m = n" using m(2) assms(4) by simp
  then show "reversed = n" using m(1) by simp
  have "wallet_of (tn_pk tn) d' = Some ?w"
    using ledger_create_wallet_of(2) [OF c] ensured_tenant [OF en] ef(2) by simp
  then show "purchased_of (tn_pk tn) d' = purchased_of (tn_pk tn) d - n"
    using ef(1) mn by (simp add: purchased_of_def)
qed

lemma kind_key_other: "kind_name kind @ '':'' @ ref \<noteq> bootstrap_key t"
  by (cases kind) (simp_all add: kind_name_def bootstrap_key_def)

text \<open>An applied reversal is complete: when a new reversal comes back as applied, the invoice is a
  top-up, its refunded amount has grown by the amount of the reversal and it is refunded or, short
  of its whole amount, partially refunded; the purchased balance has fallen by exactly the credits
  requested, none are missing, and the payment date is as before, whether or not the invoice had
  ever been paid and credited.\<close>

theorem applied_reversal_takes_back_credits:
  assumes "handle_reversal_success e k ref pid amt cur kind d = Inr (Some v, d')" "reversal_with ref d = None"
    "rv_status v = Rev_Applied" "get_invoice k d = Some i"
    "\<not> ledger_has (in_tenant (iv_intent i)) (kind_name kind @ '':'' @ ref) d"
  shows "in_type (iv_intent i) = AI_Topup \<and> rv_shortfall v = 0 \<and> rv_reversed v = rv_requested v \<and>
     purchased_of (in_tenant (iv_intent i)) d' = purchased_of (in_tenant (iv_intent i)) d - rv_requested v \<and>
     (\<exists>i' a. get_invoice k d' = Some i' \<and> received_amount amt = Some a \<and> iv_refunded i' = iv_refunded i + a \<and>
        iv_status i' = (if iv_refunded i' = in_amount (iv_intent i) then Refunded else Partially_Refunded) \<and>
        iv_paid_at i' = iv_paid_at i)"
  using assms(1)
proof (cases rule: reversal_cases)
  case (credited i0 tn a v0 i' x s d1 d2)
  have v0: "v0 = v" using credited(5) by simp
  have i0: "i0 = i" "get_invoice k d' = Some i'"
    using appended_invoice(2,3) [OF credited(7,1)] assms(4) by simp_all
  have tn: "tn_pk tn = in_tenant (iv_intent i)"
    using credited(1) i0(1) row_get_key [of tn_pk] by (auto simp: invoice_with_tenant_def get_tenant_def split: option.splits)
  have sf: "rv_shortfall v = 0"
  proof (rule ccontr)
    assume "rv_shortfall v \<noteq> 0"
    then show False using credited(21) v0 assms(3) by simp
  qed
  have "0 \<le> rv_requested v" using credited(12) v0 by simp
  moreover have "reverse_purchased e tn (rv_requested v) (kind_name kind @ '':'' @ ref) ref (kind_txn kind) d1 = Inr ((rv_reversed v, 0), d2)"
    using credited(17) v0 sf by simp
  moreover have "\<not> ledger_has (tn_pk tn) (kind_name kind @ '':'' @ ref) d1"
    using assms(5) tn credited(14) by (simp add: ledger_has_def)
  ultimately have re: "rv_reversed v = rv_requested v" "purchased_of (tn_pk tn) d2 = purchased_of (tn_pk tn) d1 - rv_requested v"
    using reverse_effect [OF _ _ kind_key_other] by blast+
  have pu: "purchased_of (tn_pk tn) d' = purchased_of (tn_pk tn) d2" "purchased_of (tn_pk tn) d1 = purchased_of (tn_pk tn) d"
    using credited(13,18) by (simp_all add: purchased_of_def wallet_of_def)
  have row: "iv_status i' = (if iv_refunded i' = in_amount (iv_intent i) then Refunded else Partially_Refunded)"
    "iv_paid_at i' = iv_paid_at i"
    using credited(20) i0(1) v0 sf by (simp_all add: reversed_invoice_def Let_def with_snapshot_def)
  show ?thesis
    using credited(2,8,10) i0 sf re pu tn row by auto
qed (use assms in auto)

definition unpaid_topup :: invoice where
  "unpaid_topup = topup_invoice\<lparr>iv_status := Manual_Review\<rparr>"

theorem applied_reversal_takes_back_credits_witness:
  "\<exists>v d'. handle_reversal_success demo_env 2 ''ref-1'' ''pay-2'' ''495.00'' ''RUB'' Rev_Refund (refund_of unpaid_topup) =
       Inr (Some v, d') \<and>
     iv_paid_at unpaid_topup = None \<and> d_ledger (refund_of unpaid_topup) = [] \<and>
     purchased_of 7 d' = purchased_of 7 (refund_of unpaid_topup) - 2500000"
proof -
  let ?d = "refund_of unpaid_topup"
  have u: "iv_pk unpaid_topup = 2" "iv_payment_id unpaid_topup = ''pay-2''" "iv_refunded unpaid_topup = 0"
    "iv_intent unpaid_topup = iv_intent paid_topup" "iv_status unpaid_topup = Manual_Review" "iv_paid_at unpaid_topup = None"
    using paid_topup_sel by (simp_all add: unpaid_topup_def topup_sel paid_topup_def topup_invoice_def new_invoice_def)
  note rows = refund_rows [OF u(1)]
  obtain v d' where run: "handle_reversal_success demo_env 2 ''ref-1'' ''pay-2'' ''495.00'' ''RUB'' Rev_Refund ?d = Inr (Some v, d')"
      "rv_status v = Rev_Applied" "rv_requested v = 2500000"
    using sample_refund_of [OF u(1-4)] u(5) by blast
  have "reversal_with ''ref-1'' ?d = None" by (simp add: reversal_with_def rows)
  moreover have "\<not> ledger_has (in_tenant (iv_intent unpaid_topup)) (kind_name Rev_Refund @ '':'' @ ''ref-1'') ?d"
    by (simp add: ledger_has_def rows)
  moreover have "in_tenant (iv_intent unpaid_topup) = 7" using u(4) paid_topup_sel(5) by simp
  ultimately have "purchased_of 7 d' = purchased_of 7 ?d - 2500000"
    using applied_reversal_takes_back_credits [OF run(1) _ run(2) rows(1)] run(3) by simp
  then show ?thesis using run(1) u(6) rows(5) by blast
qed

end
