(* ===== verification/Webhooks.thy ===== *)
theory Webhooks
  imports Reversals
begin

text \<open>
  Processing of provider notifications (\<^verbatim>\<open>apps/billing/webhook_processing.py\<close> and the entry point
  \<open>YooKassaWebhookView.post\<close> of \<^verbatim>\<open>apps/billing/views.py\<close>): the claim of a delivery, the reading of the
  authoritative object, the business operation, and the final decision. An event is processed in
  several transactions, so the database is returned next to the exception. The payload and the
  source address, which are stored for audit only, are left out. The messages are ASCII renderings.
\<close>

section \<open>Events and decisions\<close>

definition supported_yookassa_events :: "string list" where
  "supported_yookassa_events = [''payment.succeeded'', ''payment.canceled'', ''refund.succeeded'']"

definition final_webhook_decisions :: "decision list" where
  "final_webhook_decisions = [D_Applied, D_Ignored, D_Rejected, D_Manual_Review]"

definition transient_payment_statuses :: "string list" where
  "transient_payment_statuses = [''pending'', ''waiting_for_capture'']"

definition transient_refund_statuses :: "string list" where
  "transient_refund_statuses = [''pending'']"

definition is_final :: "webhook_event \<Rightarrow> bool" where
  "is_final w \<longleftrightarrow> wh_decision w \<in> set final_webhook_decisions"

record process_result =
  pr_acknowledged :: bool
  pr_retry :: string

definition webhook_key :: "string \<Rightarrow> string \<Rightarrow> string" where
  "webhook_key event object_id = event @ '':'' @ object_id"

definition webhook_with :: "string \<Rightarrow> db \<Rightarrow> webhook_event option" where
  "webhook_with key d = find (\<lambda>w. wh_key w = key) (d_webhooks d)"

definition new_webhook :: "nat \<Rightarrow> string \<Rightarrow> string \<Rightarrow> string \<Rightarrow> webhook_event" where
  "new_webhook pk event object_id key =
     \<lparr>wh_pk = pk, wh_type = event, wh_object = object_id, wh_key = key, wh_payment_id = [], wh_invoice = None,
      wh_tenant = None, wh_amount = None, wh_currency = [], wh_decision = D_Received, wh_reason = [],
      wh_deliveries = 1, wh_token = None, wh_started = None, wh_processed = None, wh_recon_attempts = 0,
      wh_next_recon = None, wh_last_recon = None\<rparr>"

section \<open>Claims\<close>

text \<open>Somebody is at work on the event and has not run into the timeout.\<close>

definition webhook_busy :: "env \<Rightarrow> webhook_event \<Rightarrow> bool" where
  "webhook_busy e w \<longleftrightarrow> wh_token w \<noteq> None \<and>
     (case wh_started w of None \<Rightarrow> False | Some s \<Rightarrow> s > now e - secs (webhook_timeout e))"

definition delivery_row :: "env \<Rightarrow> uuid \<Rightarrow> webhook_event \<Rightarrow> webhook_event" where
  "delivery_row e token w =
     w\<lparr>wh_decision := D_Received, wh_reason := [], wh_token := Some token, wh_started := Some (now e),
       wh_processed := None\<rparr>"

definition claim_open_event ::
    "env \<Rightarrow> webhook_event \<Rightarrow> db \<Rightarrow> (webhook_event \<times> uuid option \<times> claim_state) \<times> db" where
  "claim_open_event e w d =
     (if is_final w then ((w, None, Final), d)
      else if webhook_busy e w then ((w, None, Busy), d)
      else (let (token, d1) = fresh_uuid d; w' = delivery_row e token w
            in ((w', Some token, Claimed), put_webhook w' d1)))"

definition counted_delivery :: "webhook_event \<Rightarrow> webhook_event" where
  "counted_delivery w = w\<lparr>wh_deliveries := wh_deliveries w + 1\<rparr>"

definition claim_webhook_event ::
    "env \<Rightarrow> string \<Rightarrow> string \<Rightarrow> db \<Rightarrow> (webhook_event \<times> uuid option \<times> claim_state) \<times> db" where
  "claim_webhook_event e event object_id d =
     (let key = webhook_key event object_id in
      case webhook_with key d of
        None \<Rightarrow>
          (let w = new_webhook (next_pk wh_pk (d_webhooks d)) event object_id key
           in claim_open_event e w (d\<lparr>d_webhooks := row_add w (d_webhooks d)\<rparr>))
      | Some w \<Rightarrow> claim_open_event e (counted_delivery w) (put_webhook (counted_delivery w) d))"

definition recheck_row :: "env \<Rightarrow> uuid \<Rightarrow> webhook_event \<Rightarrow> webhook_event" where
  "recheck_row e token w =
     w\<lparr>wh_recon_attempts := wh_recon_attempts w + 1, wh_last_recon := Some (now e), wh_decision := D_Received,
       wh_token := Some token, wh_started := Some (now e), wh_processed := None\<rparr>"

definition claim_webhook_event_for_reconciliation ::
    "env \<Rightarrow> bool \<Rightarrow> nat \<Rightarrow> db \<Rightarrow> err + (webhook_event \<times> uuid option \<times> claim_state) \<times> db" where
  "claim_webhook_event_for_reconciliation e force webhook_event_id d =
     (case get_webhook webhook_event_id d of
        None \<Rightarrow> Inl DoesNotExist
      | Some w \<Rightarrow>
          (if is_final w then Inr ((w, None, Final), d)
           else if webhook_busy e w then Inr ((w, None, Busy), d)
           else if \<not> force \<and> (case wh_next_recon w of None \<Rightarrow> False | Some n \<Rightarrow> n > now e)
             then Inr ((w, None, Not_Due), d)
           else if wh_recon_attempts w \<ge> recon_max_attempts e then Inr ((w, None, Exhausted), d)
           else (let (token, d1) = fresh_uuid d; w' = recheck_row e token w
                 in Inr ((w', Some token, Claimed), put_webhook w' d1))))"

section \<open>Decisions\<close>

text \<open>The arguments of \<open>finalize_webhook_event\<close> after the claim; the invoice as its key and tenant.\<close>

record closing =
  cl_decision :: decision
  cl_reason :: string
  cl_invoice :: "(nat \<times> nat) option"
  cl_payment_id :: string
  cl_amount :: "money option"
  cl_currency :: string

definition closed_row :: "env \<Rightarrow> closing \<Rightarrow> webhook_event \<Rightarrow> webhook_event" where
  "closed_row e c w =
     w\<lparr>wh_invoice := map_option fst (cl_invoice c), wh_tenant := map_option snd (cl_invoice c),
       wh_payment_id := cl_payment_id c, wh_amount := cl_amount c, wh_currency := cl_currency c,
       wh_decision := cl_decision c, wh_reason := take 500 (cl_reason c), wh_token := None,
       wh_started := None, wh_processed := Some (now e),
       wh_next_recon := (if cl_decision c = D_Error
         then Some (now e + secs (reconciliation_delay_seconds e (max 1 (wh_recon_attempts w)))) else None)\<rparr>"

definition finalize_webhook_event :: "env \<Rightarrow> nat \<Rightarrow> uuid \<Rightarrow> closing \<Rightarrow> db \<Rightarrow> err + decision \<times> db" where
  "finalize_webhook_event e webhook_event_id processing_token c d =
     (case get_webhook webhook_event_id d of
        None \<Rightarrow> Inl DoesNotExist
      | Some w \<Rightarrow>
          (if is_final w then Inr (wh_decision w, d)
           else if wh_token w \<noteq> Some processing_token then Inr (wh_decision w, d)
           else Inr (cl_decision c, put_webhook (closed_row e c w) d)))"

definition final_result :: "decision \<Rightarrow> string \<Rightarrow> process_result" where
  "final_result actual_decision retry_code =
     (if actual_decision \<in> set final_webhook_decisions then \<lparr>pr_acknowledged = True, pr_retry = []\<rparr>
      else \<lparr>pr_acknowledged = False, pr_retry = retry_code\<rparr>)"

type_synonym processed = "(err + process_result) \<times> db"

text \<open>The two ways in which processing ends: the answer follows the decision that is on record, or the
  delivery is acknowledged whatever is on record.\<close>

definition close_by_record :: "env \<Rightarrow> nat \<Rightarrow> uuid \<Rightarrow> closing \<Rightarrow> string \<Rightarrow> db \<Rightarrow> processed" where
  "close_by_record e k token c retry_code d =
     (case finalize_webhook_event e k token c d of
        Inl x \<Rightarrow> (Inl x, d)
      | Inr (actual, d') \<Rightarrow> (Inr (final_result actual retry_code), d'))"

definition close_acknowledged :: "env \<Rightarrow> nat \<Rightarrow> uuid \<Rightarrow> closing \<Rightarrow> db \<Rightarrow> processed" where
  "close_acknowledged e k token c d =
     (case finalize_webhook_event e k token c d of
        Inl x \<Rightarrow> (Inl x, d)
      | Inr (_, d') \<Rightarrow> (Inr \<lparr>pr_acknowledged = True, pr_retry = []\<rparr>, d'))"

definition bare_closing :: "decision \<Rightarrow> string \<Rightarrow> closing" where
  "bare_closing decision reason =
     \<lparr>cl_decision = decision, cl_reason = reason, cl_invoice = None, cl_payment_id = [], cl_amount = None,
      cl_currency = []\<rparr>"

section \<open>The authoritative object\<close>

record observation =
  on_status :: string
  on_amount :: money
  on_currency :: string
  on_payment_id :: string
  on_payment :: payment_snapshot
  on_refund :: "refund_snapshot option"

definition observe :: "env \<Rightarrow> gateway \<Rightarrow> string \<Rightarrow> string \<Rightarrow> err + observation" where
  "observe e gw event object_id =
     (if event = ''refund.succeeded'' then
        bind_ok (fetch_refund e gw object_id) (\<lambda>r.
        bind_ok (fetch_payment e gw (rf_payment_id r)) (\<lambda>p.
          Inr \<lparr>on_status = rf_status r, on_amount = rf_amount r, on_currency = rf_currency r,
               on_payment_id = rf_payment_id r, on_payment = p, on_refund = Some r\<rparr>))
      else
        bind_ok (fetch_payment e gw object_id) (\<lambda>p.
          Inr \<lparr>on_status = ps_status p, on_amount = ps_amount p, on_currency = ps_currency p,
               on_payment_id = ps_id p, on_payment = p, on_refund = None\<rparr>))"

definition observed_closing :: "observation \<Rightarrow> invoice option \<Rightarrow> decision \<Rightarrow> string \<Rightarrow> closing" where
  "observed_closing ob i decision reason =
     \<lparr>cl_decision = decision, cl_reason = reason,
      cl_invoice = map_option (\<lambda>i. (iv_pk i, in_tenant (iv_intent i))) i,
      cl_payment_id = on_payment_id ob, cl_amount = Some (on_amount ob), cl_currency = on_currency ob\<rparr>"

section \<open>Processing\<close>

definition msg_unsupported :: string where "msg_unsupported = ''Unsupported event type.''"
definition msg_bad_object :: string where "msg_bad_object = ''The webhook has no valid object id.''"
definition msg_unconfirmed :: string where
  "msg_unconfirmed = ''Could not confirm the object through the YooKassa API.''"
definition msg_no_invoice :: string where "msg_no_invoice = ''Invoice for the confirmed payment not found yet.''"
definition msg_many_invoices :: string where "msg_many_invoices = ''The payment is linked to more than one invoice.''"
definition msg_test_payment :: string where
  "msg_test_payment = ''A test payment does not activate goods or balance.''"
definition msg_test_unrecorded :: string where "msg_test_unrecorded = ''Error recording the test payment.''"
definition msg_object_differs :: string where
  "msg_object_differs = ''Amount or currency of the authoritative object does not match the invoice.''"
definition msg_mismatch_unrecorded :: string where "msg_mismatch_unrecorded = ''Error recording the financial mismatch.''"
definition msg_not_accepted :: string where "msg_not_accepted = ''The paid invoice failed the repeated check.''"
definition msg_cancel_differs :: string where
  "msg_cancel_differs = ''The status of the invoice does not agree with the cancelled payment.''"
definition msg_refund_unapplied :: string where
  "msg_refund_unapplied = ''The confirmed refund could not be applied.''"
definition msg_processing_error :: string where
  "msg_processing_error = ''Temporary error applying the confirmed event.''"

definition msg_transient :: "string \<Rightarrow> string" where
  "msg_transient subject = ''The authoritative status of the '' @ subject @ '' does not match the event yet.''"

definition msg_contradiction :: "string \<Rightarrow> string \<Rightarrow> string" where
  "msg_contradiction subject status =
     ''The event contradicts the terminal authoritative status of the '' @ subject @ '': '' @ status @ ''.''"

definition finalize_status_mismatch ::
    "env \<Rightarrow> nat \<Rightarrow> uuid \<Rightarrow> string \<Rightarrow> string list \<Rightarrow> observation \<Rightarrow> string \<Rightarrow> string \<Rightarrow> db \<Rightarrow> processed" where
  "finalize_status_mismatch e k token observed_status transient_statuses ob subject retry_code d =
     (let is_transient = observed_status \<in> set transient_statuses in
      close_by_record e k token
        (observed_closing ob None (if is_transient then D_Error else D_Ignored)
          (if is_transient then msg_transient subject else msg_contradiction subject observed_status))
        retry_code d)"

text \<open>An invoice that the handler did not accept goes to manual review unless it is there already.\<close>

definition review_unless_reviewed ::
    "nat \<Rightarrow> (invoice \<Rightarrow> string) \<Rightarrow> db \<Rightarrow> (err + decision \<times> string) \<times> db" where
  "review_unless_reviewed k reason d =
     (case get_invoice k d of
        None \<Rightarrow> (Inl DoesNotExist, d)
      | Some i \<Rightarrow>
          (if iv_status i = Manual_Review then (Inr (D_Manual_Review, reason i), d)
           else case mark_invoice_manual_review k (reason i) False d of
             Inl x \<Rightarrow> (Inl x, d)
           | Inr (_, d') \<Rightarrow> (Inr (D_Manual_Review, reason i), d')))"

definition apply_payment :: "env \<Rightarrow> invoice \<Rightarrow> string \<Rightarrow> payment_snapshot \<Rightarrow> db \<Rightarrow> (err + decision \<times> string) \<times> db" where
  "apply_payment e i event p d =
     (if event = ''payment.succeeded'' then
        (case handle_payment_success_webhook e (iv_pk i) (ps_id p) (str_cents (ps_amount p)) (ps_currency p) d of
           Inl x \<Rightarrow> (Inl x, d)
         | Inr (processed, d') \<Rightarrow>
             (if processed then (Inr (D_Applied, []), d')
              else review_unless_reviewed (iv_pk i) (\<lambda>j. or_default (iv_error j) msg_not_accepted) d'))
      else
        (case handle_payment_failed_webhook (iv_pk i) (ps_id p) d of
           Inl x \<Rightarrow> (Inl x, d)
         | Inr (processed, d') \<Rightarrow>
             (if processed then (Inr (D_Applied, []), d')
              else review_unless_reviewed (iv_pk i) (\<lambda>j. msg_cancel_differs) d')))"

definition apply_refund :: "env \<Rightarrow> invoice \<Rightarrow> refund_snapshot \<Rightarrow> db \<Rightarrow> (err + decision \<times> string) \<times> db" where
  "apply_refund e i r d =
     (case handle_reversal_success e (iv_pk i) (rf_id r) (rf_payment_id r) (str_cents (rf_amount r)) (rf_currency r)
         Rev_Refund d of
        Inl x \<Rightarrow> (Inl x, d)
      | Inr (None, d') \<Rightarrow>
          (case mark_invoice_manual_review (iv_pk i) msg_refund_unapplied True d' of
             Inl x \<Rightarrow> (Inl x, d')
           | Inr (_, d'') \<Rightarrow> (Inr (D_Manual_Review, msg_refund_unapplied), d''))
      | Inr (Some v, d') \<Rightarrow>
          (Inr (if rv_status v = Rev_Applied then D_Applied else D_Manual_Review, rv_reason v), d'))"

definition apply_event ::
    "env \<Rightarrow> invoice \<Rightarrow> string \<Rightarrow> observation \<Rightarrow> db \<Rightarrow> (err + decision \<times> string) \<times> db" where
  "apply_event e i event ob d =
     (if event = ''payment.succeeded'' \<or> event = ''payment.canceled'' then apply_payment e i event (on_payment ob) d
      else case on_refund ob of
        None \<Rightarrow> (Inl RuntimeError, d)
      | Some r \<Rightarrow> apply_refund e i r d)"

text \<open>A finding that puts the invoice under review; if that cannot be written, the event is retried.\<close>

definition close_under_review ::
    "env \<Rightarrow> nat \<Rightarrow> uuid \<Rightarrow> invoice \<Rightarrow> observation \<Rightarrow> string \<Rightarrow> bool \<Rightarrow> string \<Rightarrow> db \<Rightarrow> processed" where
  "close_under_review e k token i ob reason refund_review unrecorded d =
     (case mark_invoice_manual_review (iv_pk i) reason refund_review d of
        Inl _ \<Rightarrow>
          close_by_record e k token (observed_closing ob (Some i) D_Error unrecorded) ''manual_review_write_failed'' d
      | Inr (i', d') \<Rightarrow> close_acknowledged e k token (observed_closing ob (Some i') D_Manual_Review reason) d')"

definition object_differs :: "string \<Rightarrow> invoice \<Rightarrow> observation \<Rightarrow> bool" where
  "object_differs event i ob \<longleftrightarrow>
     on_currency ob \<noteq> in_currency (iv_intent i) \<or> ps_currency (on_payment ob) \<noteq> in_currency (iv_intent i) \<or>
     ps_amount (on_payment ob) \<noteq> in_amount (iv_intent i) \<or>
     (take 8 event = ''payment.'' \<and> on_amount ob \<noteq> in_amount (iv_intent i))"

definition settle_event :: "env \<Rightarrow> nat \<Rightarrow> uuid \<Rightarrow> string \<Rightarrow> invoice \<Rightarrow> observation \<Rightarrow> db \<Rightarrow> processed" where
  "settle_event e k token event i ob d =
     (if ps_test (on_payment ob) \<and> \<not> allow_test_payments e
      then close_under_review e k token i ob msg_test_payment False msg_test_unrecorded d
      else if object_differs event i ob
      then close_under_review e k token i ob msg_object_differs (event = ''refund.succeeded'') msg_mismatch_unrecorded d
      else case apply_event e i event ob d of
        (Inl _, d') \<Rightarrow>
          close_by_record e k token (observed_closing ob (Some i) D_Error msg_processing_error) ''processing_error'' d'
      | (Inr (decision, reason), d') \<Rightarrow>
          close_by_record e k token (observed_closing ob (Some i) decision reason) ''claim_lost'' d')"

definition settle_observation :: "env \<Rightarrow> nat \<Rightarrow> uuid \<Rightarrow> string \<Rightarrow> observation \<Rightarrow> db \<Rightarrow> processed" where
  "settle_observation e k token event ob d =
     (if on_status ob \<noteq> after_first (CHR ''.'') event
      then finalize_status_mismatch e k token (on_status ob)
             (if event = ''refund.succeeded'' then transient_refund_statuses else transient_payment_statuses)
             ob ''object'' ''provider_state_mismatch'' d
      else if event = ''refund.succeeded'' \<and> ps_status (on_payment ob) \<noteq> ''succeeded''
      then finalize_status_mismatch e k token (ps_status (on_payment ob)) transient_payment_statuses
             ob ''linked payment'' ''linked_payment_state_mismatch'' d
      else case filter (\<lambda>i. iv_payment_id i = on_payment_id ob) (d_invoices d) of
        [] \<Rightarrow> close_by_record e k token (observed_closing ob None D_Error msg_no_invoice) ''invoice_not_ready'' d
      | [i] \<Rightarrow> settle_event e k token event i ob d
      | _ \<Rightarrow> close_by_record e k token (observed_closing ob None D_Error msg_many_invoices) ''ambiguous_invoice'' d)"

definition process_claimed_yookassa_event :: "env \<Rightarrow> gateway \<Rightarrow> nat \<Rightarrow> uuid \<Rightarrow> db \<Rightarrow> processed" where
  "process_claimed_yookassa_event e gw webhook_event_id processing_token d =
     (case get_webhook webhook_event_id d of
        None \<Rightarrow> (Inl DoesNotExist, d)
      | Some w \<Rightarrow>
          (if wh_type w \<notin> set supported_yookassa_events
           then close_acknowledged e webhook_event_id processing_token (bare_closing D_Ignored msg_unsupported) d
           else if \<not> is_valid_provider_id (wh_object w)
           then close_acknowledged e webhook_event_id processing_token (bare_closing D_Rejected msg_bad_object) d
           else case observe e gw (wh_type w) (wh_object w) of
             Inl _ \<Rightarrow> close_by_record e webhook_event_id processing_token
                      (bare_closing D_Error msg_unconfirmed) ''provider_unavailable'' d
           | Inr ob \<Rightarrow> settle_observation e webhook_event_id processing_token (wh_type w) ob d))"

section \<open>What a business operation leaves alone\<close>

text \<open>Applying an event never touches the webhook table, keeps the invoices consistent and their
  intents and payment ids as they are; an invoice that is pending afterwards was pending before and
  its reconciliation schedule is the same.\<close>

definition same_schedule :: "invoice \<Rightarrow> invoice \<Rightarrow> bool" where
  "same_schedule i i' \<longleftrightarrow> iv_status i = Pending \<and> iv_recon_attempts i' = iv_recon_attempts i \<and>
     iv_next_recon i' = iv_next_recon i \<and> iv_payment_id i' = iv_payment_id i"

definition waiting_kept :: "db \<Rightarrow> db \<Rightarrow> bool" where
  "waiting_kept d d' \<longleftrightarrow> (\<forall>k i. get_invoice k d = Some i \<longrightarrow>
     (\<exists>i'. get_invoice k d' = Some i' \<and> (iv_status i' = Pending \<longrightarrow> same_schedule i i')))"

definition business_step :: "db \<Rightarrow> db \<Rightarrow> bool" where
  "business_step d d' \<longleftrightarrow>
     d_webhooks d' = d_webhooks d \<and> d_uuid d \<le> d_uuid d' \<and> invoice_step d d' \<and> waiting_kept d d'"

lemma waiting_kept_same: "d_invoices d' = d_invoices d \<Longrightarrow> waiting_kept d d'"
  by (simp add: waiting_kept_def get_invoice_def same_schedule_def)

lemma waiting_kept_trans:
  assumes "waiting_kept d d1" "waiting_kept d1 d2" shows "waiting_kept d d2"
  unfolding waiting_kept_def
proof (intro allI impI)
  fix k i
  assume "get_invoice k d = Some i"
  then obtain j where j: "get_invoice k d1 = Some j" "iv_status j = Pending \<longrightarrow> same_schedule i j"
    using assms(1) unfolding waiting_kept_def by blast
  then obtain i' where "get_invoice k d2 = Some i'" "iv_status i' = Pending \<longrightarrow> same_schedule j i'"
    using assms(2) unfolding waiting_kept_def by blast
  then show "\<exists>i'. get_invoice k d2 = Some i' \<and> (iv_status i' = Pending \<longrightarrow> same_schedule i i')"
    using j(2) by (auto simp: same_schedule_def)
qed

lemma waiting_kept_put:
  "iv_status i \<noteq> Pending \<Longrightarrow> waiting_kept d (put_invoice i d)"
  by (auto simp: waiting_kept_def get_invoice_def put_invoice_def row_get_put same_schedule_def)

lemma business_refl [intro]: "business_step d d"
  by (simp add: business_step_def invoice_step_same waiting_kept_same)

lemma business_trans [trans]: "business_step d d1 \<Longrightarrow> business_step d1 d2 \<Longrightarrow> business_step d d2"
  unfolding business_step_def using invoice_step_trans waiting_kept_trans by (metis le_trans)

lemma business_same:
  "d_webhooks d' = d_webhooks d \<Longrightarrow> d_uuid d' = d_uuid d \<Longrightarrow> d_invoices d' = d_invoices d \<Longrightarrow> business_step d d'"
  by (simp add: business_step_def invoice_step_same waiting_kept_same)

lemma same_but_invoices_uuid:
  assumes "same_but_invoices d d'" shows "d_uuid d' = d_uuid d"
  using arg_cong [OF assms [unfolded same_but_invoices_def], of d_uuid] by simp

lemma business_checkout: "checkout_step d d' \<Longrightarrow> waiting_kept d d' \<Longrightarrow> business_step d d'"
  using same_but_invoices_uuid [of d d'] same_but_invoicesD [of d d'] invoice_step_checkout [of d d']
  by (simp add: business_step_def checkout_step_def)

lemma business_save: "save_invoice i d = Inr d' \<Longrightarrow> iv_status i \<noteq> Pending \<Longrightarrow> business_step d d'"
  using business_checkout [OF step_save] waiting_kept_put [of i d] save_invoice_put by metis

lemma business_synclog: "business_step d (add_synclog t s m d)"
  by (rule business_same) (simp_all add: add_synclog_def)

lemma business_wallets: "same_but_wallets d d' \<Longrightarrow> business_step d d'"
  using same_but_walletsD [of d d'] by (intro business_same)

lemma business_enqueue:
  assumes "enqueue t ty k p i d = Inr (ev, d')" shows "business_step d d'"
proof -
  have "d_uuid d \<le> d_uuid d'"
    using assms by (auto simp: enqueue_def fresh_uuid_def Let_def split: if_splits option.splits)
  then show ?thesis using enqueue_frame [OF assms] by (simp add: business_step_def invoice_step_same waiting_kept_same)
qed

lemmas business_notify = business_enqueue [OF enqueue_notification_enqueue]

lemma business_put_reversal: "business_step d (put_reversal v d)"
  by (rule business_same) (simp_all add: put_reversal_def)

lemma business_mark_locked:
  assumes "mark_invoice_manual_review_locked i r f d = Inr d'" shows "business_step d d'"
proof -
  obtain d1 where d1: "save_invoice (manual_row r f i) d = Inr d1"
    and d': "d' = add_synclog (in_tenant (iv_intent i)) ''error'' (invoice_log (iv_pk i) r) d1"
    using assms by (auto simp: mark_invoice_manual_review_locked_def elim!: bind_ok_OkE)
  have "business_step d d1" by (rule business_save [OF d1]) simp
  also have "business_step d1 d'" unfolding d' by (rule business_synclog)
  finally show ?thesis .
qed

lemma business_mark: "mark_invoice_manual_review k r f d = Inr (i, d') \<Longrightarrow> business_step d d'"
  by (auto simp: mark_invoice_manual_review_def business_mark_locked elim!: bind_ok_OkE split: option.splits)

lemma business_refuse: "refuse i r d = Inr (b, d') \<Longrightarrow> business_step d d'"
  by (auto simp: refuse_def business_mark_locked elim!: bind_ok_OkE)

lemma reset_ai_used_webhooks [simp]: "d_webhooks (reset_ai_used t d) = d_webhooks d" "d_uuid (reset_ai_used t d) = d_uuid d"
  by (simp_all add: reset_ai_used_def put_tenant_def split: option.split)

lemma sync_trial_webhooks [simp]:
  "d_webhooks (sync_tenant_trial_end e s d) = d_webhooks d" "d_uuid (sync_tenant_trial_end e s d) = d_uuid d"
  by (simp_all add: sync_tenant_trial_end_def set_trial_end_def put_tenant_def split: option.split)

lemma business_grant_term:
  assumes "grant_term e tn legacy s d = Inr d'" shows "business_step d d'"
proof (cases legacy)
  case True
  then show ?thesis using assms by (auto simp: grant_term_def)
next
  case False
  then obtain w where g: "grant_included e tn (Some (effective_limit tn (reset_ai_used (tn_pk tn) d))) (sb_ai_end s)
      (version_grant_key (sb_pk s) (sb_version s)) (reset_ai_used (tn_pk tn) d) = Inr (w, d')"
    using assms by (auto simp: grant_term_def db_of_Inr_iff)
  have "business_step d (reset_ai_used (tn_pk tn) d)" by (rule business_same) simp_all
  also have "business_step (reset_ai_used (tn_pk tn) d) d'" by (rule business_wallets [OF same_grant [OF g]])
  finally show ?thesis .
qed

lemma business_fulfil_terms:
  assumes "fulfil_terms e tn i p period legacy s d = Inr (r, d')" shows "business_step d d'"
proof -
  obtain s' j d1 d2 d3 d4 x y where
      d1: "save_invoice (paid_row e j) (sync_tenant_trial_end e s' (put_sub s' d)) = Inr d1" and
      d2: "grant_term e tn legacy s' d1 = Inr d2" and
      d3: "enqueue_notification (tn_pk tn) ''billing'' (msg_paid i @ ''. Subscription activated.'')
        (paid_key (iv_pk i) ''notification'') (Some (paid_row e j)) [] d2 = Inr (x, d3)" and
      d4: "enqueue_limit_reached_requeue (tn_pk tn) (paid_key (iv_pk i) ''requeue'') (Some (paid_row e j)) d3 = Inr (y, d4)" and
      d': "d' = add_synclog (tn_pk tn) ''ok'' (msg_paid i) d4"
    using assms unfolding fulfil_terms_def Let_def
    by (elim bind_ok_OkE) (auto split: prod.splits elim!: bind_ok_OkE)
  have "business_step d (sync_tenant_trial_end e s' (put_sub s' d))"
    by (rule business_same) (simp_all add: put_sub_def)
  also have "business_step \<dots> d1" by (rule business_save [OF d1]) simp
  also have "business_step d1 d2" by (rule business_grant_term [OF d2])
  also have "business_step d2 d3" by (rule business_notify [OF d3])
  also have "business_step d3 d4" by (rule business_enqueue [OF d4 [unfolded enqueue_limit_reached_requeue_def]])
  also have "business_step d4 d'" unfolding d' by (rule business_synclog)
  finally show ?thesis .
qed

lemma business_fulfil_subscription:
  "fulfil_subscription e tn i d = Inr (r, d') \<Longrightarrow> business_step d d'"
  by (auto simp: fulfil_subscription_def business_refuse business_fulfil_terms elim!: bind_ok_OkE
      split: option.splits bought_terms.splits)

lemma business_fulfil_topup:
  assumes "fulfil_topup e tn i d = Inr (r, d')" shows "business_step d d'"
proof -
  obtain en snap where ent: "ai_entitlement_from_invoice i d = Inr (en, snap)"
    using assms by (auto simp: fulfil_topup_def elim: bind_ok_OkE)
  show ?thesis
  proof (cases en)
    case None
    then show ?thesis using assms ent by (auto simp: fulfil_topup_def business_refuse)
  next
    case (Some credits)
    obtain i1 d1 d2 d3 d4 w x where
        d1: "(if in_snapshot (iv_intent i) = [] then save_invoice i1 d else Inr d) = Inr d1" and
        d2: "save_invoice (paid_row e i1) d1 = Inr d2" and
        d3: "topup e tn (dec_column 4 credits) (topup_key (iv_payment_id i)) (iv_payment_id i) d2 = Inr (w, d3)" and
        d4: "enqueue_notification (tn_pk tn) ''billing'' (msg_topped_up credits @ ''.'')
          (paid_key (iv_pk i) ''notification'') (Some (paid_row e i1)) [] d3 = Inr (x, d4)" and
        d': "d' = add_synclog (tn_pk tn) ''ok'' (msg_topped_up credits) d4"
      using assms ent unfolding fulfil_topup_def Let_def Some
      by (auto split: prod.splits if_splits elim!: bind_ok_OkE)
    have "checkout_step d d1" using d1 by (auto split: if_splits intro: step_save)
    also have "checkout_step d1 d2" by (rule step_save [OF d2])
    finally have "checkout_step d d2" .
    moreover have "waiting_kept d d2"
    proof -
      have e1: "d1 = (if in_snapshot (iv_intent i) = [] then put_invoice i1 d else d)"
        using d1 save_invoice_put by (auto split: if_splits)
      have "d2 = put_invoice (paid_row e i1) d"
        using save_invoice_put [OF d2] e1 by (simp add: put_invoice_def row_put_put)
      then show ?thesis using waiting_kept_put [of "paid_row e i1" d] by simp
    qed
    ultimately have "business_step d d2" by (rule business_checkout)
    also have "business_step d2 d3" by (rule business_wallets [OF same_topup [OF d3]])
    also have "business_step d3 d4" by (rule business_notify [OF d4])
    also have "business_step d4 d'" unfolding d' by (rule business_synclog)
    finally show ?thesis .
  qed
qed

lemma business_success:
  "handle_payment_success_webhook e k pid amt cur d = Inr (r, d') \<Longrightarrow> business_step d d'"
  by (auto simp: handle_payment_success_webhook_def business_refuse business_fulfil_topup business_fulfil_subscription
      split: option.splits if_splits)

lemma business_failed:
  assumes "handle_payment_failed_webhook k pid d = Inr (r, d')" shows "business_step d d'"
proof (cases "d' = d")
  case False
  then obtain i d1 t s m where d1: "save_invoice (failed_row i) d = Inr d1" and d': "d' = add_synclog t s m d1"
    using assms by (auto simp: handle_payment_failed_webhook_def elim!: bind_ok_OkE split: option.splits if_splits)
  have "business_step d d1" by (rule business_save [OF d1]) (simp add: failed_row_def)
  also have "business_step d1 d'" unfolding d' by (rule business_synclog)
  finally show ?thesis .
qed auto

lemma business_create_reversal:
  "create_reversal_fail_closed i ref pid a c kind st reason d = Inr (r, d') \<Longrightarrow> business_step d d'"
  by (auto simp: create_reversal_fail_closed_def Let_def intro: business_same split: if_splits option.splits)

lemma business_record_only:
  assumes "record_only i ref pid a c kind reason d = Inr (r, d')" shows "business_step d d'"
proof -
  obtain vc d1 where d1: "create_reversal_fail_closed i ref pid a c kind Rev_Manual_Review reason d = Inr (vc, d1)"
    and d': "d' = d1 \<or> save_invoice (review_row i) d1 = Inr d'"
    using assms by (auto simp: record_only_def elim!: bind_ok_OkE split: if_splits)
  have "business_step d d1" by (rule business_create_reversal [OF d1])
  also have "business_step d1 d'" using d' business_save [of "review_row i" d1 d'] by auto
  finally show ?thesis .
qed

lemma business_count:
  assumes "count_for_review i v n reason d = Inr (r, d')" shows "business_step d d'"
proof -
  obtain v' where d': "save_invoice ((review_row i)\<lparr>iv_refunded := n\<rparr>) (put_reversal v' d) = Inr d'"
    using assms by (auto simp: count_for_review_def Let_def elim!: bind_ok_OkE)
  have "business_step d (put_reversal v' d)" by (rule business_put_reversal)
  also have "business_step (put_reversal v' d) d'" by (rule business_save [OF d']) simp
  finally show ?thesis .
qed

lemma business_reverse_credits:
  assumes "reverse_credits e tn i v n x s d = Inr (r, d')" shows "business_step d d'"
proof -
  obtain a k ref kind rs d1 v' sf where d1: "reverse_purchased e tn a k ref kind d = Inr (rs, d1)"
    and d': "save_invoice (reversed_invoice i s n sf) (put_reversal v' d1) = Inr d'"
    using assms by (auto simp: reverse_credits_def Let_def elim!: bind_ok_OkE split: prod.splits)
  have "business_step d d1" by (rule business_wallets [OF same_reverse [OF d1]])
  also have "business_step d1 (put_reversal v' d1)" by (rule business_put_reversal)
  also have "business_step (put_reversal v' d1) d'"
    by (rule business_save [OF d']) (simp add: reversed_invoice_def Let_def)
  finally show ?thesis .
qed

lemma business_apply_reversal:
  assumes "apply_reversal e tn i ref pid a c kind d = Inr (r, d')" shows "business_step d d'"
proof -
  obtain vo created d1 where d1: "create_reversal_fail_closed i ref pid a c kind Rev_Manual_Review [] d = Inr ((vo, created), d1)"
    using assms by (auto simp: apply_reversal_def Let_def elim!: bind_ok_OkE)
  have "business_step d d1" by (rule business_create_reversal [OF d1])
  also have "business_step d1 d'"
    using assms d1
    by (auto simp: apply_reversal_def Let_def business_count business_reverse_credits elim!: bind_ok_OkE
        split: option.splits if_splits)
  finally show ?thesis .
qed

lemma business_reversal:
  "handle_reversal_success e k ref pid amt cur kind d = Inr (r, d') \<Longrightarrow> business_step d d'"
  by (auto simp: handle_reversal_success_def Let_def business_record_only business_apply_reversal
      split: option.splits if_splits)

lemma business_review_unless: "business_step d (snd (review_unless_reviewed k r d))"
  by (auto simp: review_unless_reviewed_def business_mark split: option.splits sum.splits)

lemma business_apply_payment: "business_step d (snd (apply_payment e i event p d))"
  using business_trans [OF business_success business_review_unless] business_trans [OF business_failed business_review_unless]
  by (auto simp: apply_payment_def business_success business_failed split: sum.splits)

lemma business_apply_refund: "business_step d (snd (apply_refund e i r d))"
  using business_trans [OF business_reversal business_mark]
  by (auto simp: apply_refund_def business_reversal split: sum.splits option.splits)

lemma business_apply_event: "business_step d (snd (apply_event e i event ob d))"
  using business_apply_payment business_apply_refund by (auto simp: apply_event_def split: option.splits)

section \<open>The lease on an event\<close>

text \<open>The token that may still decide an event.\<close>

definition webhook_holder :: "nat \<Rightarrow> db \<Rightarrow> uuid option" where
  "webhook_holder k d =
     (case get_webhook k d of None \<Rightarrow> None | Some w \<Rightarrow> if is_final w then None else wh_token w)"

text \<open>The two claims of an existing event: a repeated delivery and the reconciliation.\<close>

datatype webhook_claim = Redelivery env | Recheck env bool

fun webhook_claim_op :: "webhook_claim \<Rightarrow> nat \<Rightarrow> db \<Rightarrow> uuid option \<times> db" where
  "webhook_claim_op (Redelivery e) k d =
     (case get_webhook k d of
        None \<Rightarrow> (None, d)
      | Some w \<Rightarrow>
          (case claim_open_event e (counted_delivery w) (put_webhook (counted_delivery w) d) of
             ((_, t, _), d') \<Rightarrow> (t, d')))"
| "webhook_claim_op (Recheck e force) k d =
     (case claim_webhook_event_for_reconciliation e force k d of
        Inl _ \<Rightarrow> (None, d)
      | Inr ((_, t, _), d') \<Rightarrow> (t, d'))"

definition webhook_finish :: "env \<times> closing \<Rightarrow> nat \<Rightarrow> uuid \<Rightarrow> db \<Rightarrow> db" where
  "webhook_finish ec k t d =
     (case finalize_webhook_event (fst ec) k t (snd ec) d of Inl _ \<Rightarrow> d | Inr (_, d') \<Rightarrow> d')"

lemma counted_delivery_sel [simp]:
  "wh_pk (counted_delivery w) = wh_pk w" "wh_token (counted_delivery w) = wh_token w"
  "is_final (counted_delivery w) = is_final w" "wh_key (counted_delivery w) = wh_key w"
  "wh_decision (counted_delivery w) = wh_decision w" "webhook_busy e (counted_delivery w) = webhook_busy e w"
  "wh_recon_attempts (counted_delivery w) = wh_recon_attempts w"
  by (simp_all add: counted_delivery_def is_final_def webhook_busy_def)

lemma claimed_rows_sel [simp]:
  "wh_pk (delivery_row e t w) = wh_pk w" "wh_token (delivery_row e t w) = Some t" "\<not> is_final (delivery_row e t w)"
  "wh_pk (recheck_row e t w) = wh_pk w" "wh_token (recheck_row e t w) = Some t" "\<not> is_final (recheck_row e t w)"
  "wh_recon_attempts (recheck_row e t w) = wh_recon_attempts w + 1"
  by (simp_all add: delivery_row_def recheck_row_def is_final_def final_webhook_decisions_def)

lemma closed_row_sel [simp]:
  "wh_pk (closed_row e c w) = wh_pk w" "wh_token (closed_row e c w) = None" "wh_decision (closed_row e c w) = cl_decision c"
  "wh_recon_attempts (closed_row e c w) = wh_recon_attempts w" "wh_started (closed_row e c w) = None"
  "wh_type (closed_row e c w) = wh_type w" "wh_object (closed_row e c w) = wh_object w"
  by (simp_all add: closed_row_def)

lemma get_webhook_pk: "get_webhook k d = Some w \<Longrightarrow> wh_pk w = k"
  by (rule webhook_table.get_key)

lemma get_put_webhook:
  "get_webhook k d = Some w \<Longrightarrow> wh_pk w' = k \<Longrightarrow>
     get_webhook j (put_webhook w' d) = (if j = k then Some w' else get_webhook j d)"
  using webhook_table.get_put [of w' d w j] by simp

lemma get_webhook_fresh [simp]: "get_webhook k (d\<lparr>d_uuid := u\<rparr>) = get_webhook k d"
  by (simp add: get_webhook_def)

lemma put_webhook_uuid [simp]: "d_uuid (put_webhook w d) = d_uuid d"
  by (simp add: put_webhook_def)

text \<open>The outcomes of the operations of the lease.\<close>

lemma webhook_claim_cases:
  obtains (gone) "get_webhook k d = None" "webhook_claim_op c k d = (None, d)"
  | (refused) w w' where "get_webhook k d = Some w" "w' = w \<or> w' = counted_delivery w"
      "webhook_claim_op c k d = (None, d) \<and> w' = w \<or> webhook_claim_op c k d = (None, put_webhook w' d)"
  | (taken) w w' d1 where "get_webhook k d = Some w" "\<not> is_final w" "wh_pk w' = k" "\<not> is_final w'"
      "wh_token w' = Some (d_uuid d)" "get_webhook k d1 \<noteq> None" "d_uuid d1 = Suc (d_uuid d)"
      "\<forall>j. j \<noteq> k \<longrightarrow> get_webhook j d1 = get_webhook j d"
      "webhook_claim_op c k d = (Some (d_uuid d), put_webhook w' d1)"
proof (cases "get_webhook k d")
  case None
  then show thesis using gone by (cases c) (simp_all add: claim_webhook_event_for_reconciliation_def)
next
  case (Some w)
  have pk: "wh_pk w = k" using Some by (rule get_webhook_pk)
  show thesis
  proof (cases c)
    case (Redelivery e)
    let ?d = "put_webhook (counted_delivery w) d"
    show thesis
    proof (cases "is_final w \<or> webhook_busy e w")
      case True
      then show thesis using refused [OF Some, of "counted_delivery w"] Some Redelivery
        by (auto simp: claim_open_event_def)
    next
      case False
      have "webhook_claim_op c k d =
          (Some (d_uuid d), put_webhook (delivery_row e (d_uuid d) (counted_delivery w)) (?d\<lparr>d_uuid := Suc (d_uuid d)\<rparr>))"
        using False Some Redelivery by (simp add: claim_open_event_def fresh_uuid_def Let_def)
      then show thesis
        using False pk get_put_webhook [OF Some, of "counted_delivery w"] by (intro taken [OF Some]) auto
    qed
  next
    case (Recheck e force)
    show thesis
    proof (cases "is_final w \<or> webhook_busy e w \<or>
        (\<not> force \<and> (case wh_next_recon w of None \<Rightarrow> False | Some n \<Rightarrow> n > now e)) \<or> wh_recon_attempts w \<ge> recon_max_attempts e")
      case True
      then have "webhook_claim_op c k d = (None, d)"
        using Some Recheck by (auto simp: claim_webhook_event_for_reconciliation_def)
      then show thesis using refused [OF Some] by blast
    next
      case False
      then have "claim_webhook_event_for_reconciliation e force k d =
          Inr ((recheck_row e (d_uuid d) w, Some (d_uuid d), Claimed),
            put_webhook (recheck_row e (d_uuid d) w) (d\<lparr>d_uuid := Suc (d_uuid d)\<rparr>))"
        using Some by (auto simp: claim_webhook_event_for_reconciliation_def fresh_uuid_def Let_def)
      then show thesis using False pk Some Recheck by (intro taken [OF Some, of "recheck_row e (d_uuid d) w"]) auto
    qed
  qed
qed

lemma webhook_holder_put:
  "get_webhook k d = Some x \<Longrightarrow> wh_pk w = k \<Longrightarrow>
     webhook_holder j (put_webhook w d) = (if j = k then (if is_final w then None else wh_token w) else webhook_holder j d)"
  by (simp add: webhook_holder_def get_put_webhook)

lemma webhook_holder_Some:
  "webhook_holder k d = Some t \<longleftrightarrow> (\<exists>w. get_webhook k d = Some w \<and> \<not> is_final w \<and> wh_token w = Some t)"
  by (auto simp: webhook_holder_def split: option.splits)

lemma finalize_held:
  "get_webhook k d = Some w \<Longrightarrow> \<not> is_final w \<Longrightarrow> wh_token w = Some t \<Longrightarrow>
     finalize_webhook_event e k t c d = Inr (cl_decision c, put_webhook (closed_row e c w) d)"
  by (simp add: finalize_webhook_event_def)

lemma finalize_stale:
  "get_webhook k d = Some w \<Longrightarrow> webhook_holder k d \<noteq> Some t \<Longrightarrow>
     finalize_webhook_event e k t c d = Inr (wh_decision w, d)"
  by (auto simp: finalize_webhook_event_def webhook_holder_def)

lemma webhook_finish_cases:
  obtains (stale) "webhook_holder k d \<noteq> Some t" "webhook_finish ec k t d = d"
  | (held) w where "webhook_holder k d = Some t" "get_webhook k d = Some w" "\<not> is_final w" "wh_token w = Some t"
      "webhook_finish ec k t d = put_webhook (closed_row (fst ec) (snd ec) w) d"
proof (cases "webhook_holder k d = Some t")
  case True
  then obtain w where w: "get_webhook k d = Some w" "\<not> is_final w" "wh_token w = Some t"
    by (auto simp: webhook_holder_Some)
  then show thesis using held [OF True w] by (simp add: webhook_finish_def finalize_held)
next
  case False
  then have "webhook_finish ec k t d = d"
    using finalize_stale [OF _ False]
    by (cases "get_webhook k d") (simp_all add: webhook_finish_def, simp add: finalize_webhook_event_def)
  then show thesis using stale [OF False] by simp
qed

lemma webhook_claim_step:
  assumes "webhook_claim_op c k s = (r, s')"
  shows "r = Some t \<Longrightarrow> webhook_holder k s' = Some t \<and> t = d_uuid s \<and> d_uuid s' = Suc t"
    and "r = None \<Longrightarrow> webhook_holder k s' = webhook_holder k s \<and> d_uuid s' = d_uuid s"
    and "k' \<noteq> k \<Longrightarrow> webhook_holder k' s' = webhook_holder k' s"
proof -
  have "(r = Some t \<longrightarrow> webhook_holder k s' = Some t \<and> t = d_uuid s \<and> d_uuid s' = Suc t) \<and>
      (r = None \<longrightarrow> webhook_holder k s' = webhook_holder k s \<and> d_uuid s' = d_uuid s) \<and>
      (k' \<noteq> k \<longrightarrow> webhook_holder k' s' = webhook_holder k' s)"
  proof (cases rule: webhook_claim_cases [of k s c])
    case gone
    then show ?thesis using assms by simp
  next
    case (refused w w')
    have "wh_pk w' = k" using get_webhook_pk [OF refused(1)] refused(2) by auto
    then have "webhook_holder j (put_webhook w' s) = webhook_holder j s" for j
      using webhook_holder_put [OF refused(1)] refused(1,2) by (auto simp: webhook_holder_def)
    then show ?thesis using assms refused(3) by auto
  next
    case (taken w w' d1)
    obtain x where x: "get_webhook k d1 = Some x" using taken(6) by blast
    have "webhook_holder j d1 = webhook_holder j s" if "j \<noteq> k" for j
      using taken(8) that by (simp add: webhook_holder_def)
    then show ?thesis
      using assms taken webhook_holder_put [OF x taken(3)] by auto
  qed
  then show "r = Some t \<Longrightarrow> webhook_holder k s' = Some t \<and> t = d_uuid s \<and> d_uuid s' = Suc t"
    and "r = None \<Longrightarrow> webhook_holder k s' = webhook_holder k s \<and> d_uuid s' = d_uuid s"
    and "k' \<noteq> k \<Longrightarrow> webhook_holder k' s' = webhook_holder k' s"
    by blast+
qed

interpretation webhook_lease: lease webhook_holder d_uuid webhook_claim_op webhook_finish
proof
  fix c k k' s t s' r f
  show "webhook_claim_op c k s = (Some t, s') \<Longrightarrow> webhook_holder k s' = Some t \<and> t = d_uuid s \<and> d_uuid s' = Suc t"
    by (rule webhook_claim_step(1)) auto
  show "webhook_claim_op c k s = (None, s') \<Longrightarrow> webhook_holder k s' = webhook_holder k s \<and> d_uuid s' = d_uuid s"
    by (rule webhook_claim_step(2)) auto
  show "webhook_claim_op c k s = (r, s') \<Longrightarrow> k' \<noteq> k \<Longrightarrow> webhook_holder k' s' = webhook_holder k' s"
    by (rule webhook_claim_step(3))
  have fin: "(webhook_holder k s \<noteq> Some t \<longrightarrow> webhook_finish f k t s = s) \<and>
      (webhook_holder k s = Some t \<longrightarrow> webhook_holder k (webhook_finish f k t s) = None) \<and>
      (k' \<noteq> k \<longrightarrow> webhook_holder k' (webhook_finish f k t s) = webhook_holder k' s) \<and>
      d_uuid (webhook_finish f k t s) = d_uuid s"
  proof (cases rule: webhook_finish_cases [of k s t f])
    case (held w)
    have "wh_pk (closed_row (fst f) (snd f) w) = k" using get_webhook_pk [OF held(2)] by simp
    then show ?thesis using held webhook_holder_put [OF held(2)] by auto
  qed auto
  then show "webhook_holder k s \<noteq> Some t \<Longrightarrow> webhook_finish f k t s = s"
    and "webhook_holder k s = Some t \<Longrightarrow> webhook_holder k (webhook_finish f k t s) = None"
    and "k' \<noteq> k \<Longrightarrow> webhook_holder k' (webhook_finish f k t s) = webhook_holder k' s"
    and "d_uuid (webhook_finish f k t s) = d_uuid s"
    by blast+
  show "webhook_holder k (webhook_finish f k t s) \<noteq> Some t"
    using fin by (cases "webhook_holder k s = Some t") auto
qed

text \<open>A repeated delivery of an event is the claim of the row with its key.\<close>

lemma claim_redelivery:
  assumes "webhook_with (webhook_key event ob) d = Some w" "get_webhook (wh_pk w) d = Some w"
  shows "(fst (snd (fst (claim_webhook_event e event ob d))), snd (claim_webhook_event e event ob d)) =
     webhook_claim_op (Redelivery e) (wh_pk w) d"
  using assms by (simp add: claim_webhook_event_def case_prod_unfold)

section \<open>Decisions are final\<close>

lemma act_keeps_final:
  assumes "get_webhook k s = Some w" "is_final w"
  shows "\<exists>n\<ge>wh_deliveries w. get_webhook k (webhook_lease.act a s) = Some (w\<lparr>wh_deliveries := n\<rparr>)"
proof (cases a)
  case (Claim c j)
  show ?thesis
  proof (cases rule: webhook_claim_cases [of j s c])
    case gone
    then show ?thesis using assms Claim by auto
  next
    case (refused v v')
    have "wh_pk v' = j" using get_webhook_pk [OF refused(1)] refused(2) by auto
    then have "get_webhook k (put_webhook v' s) = (if k = j then Some v' else Some w)"
      using get_put_webhook [OF refused(1)] assms by simp
    moreover have "k = j \<Longrightarrow> v' = w \<or> v' = w\<lparr>wh_deliveries := wh_deliveries w + 1\<rparr>"
      using refused(1,2) assms by (auto simp: counted_delivery_def)
    ultimately have "get_webhook k (webhook_lease.act a s) = Some w \<or>
        get_webhook k (webhook_lease.act a s) = Some (w\<lparr>wh_deliveries := wh_deliveries w + 1\<rparr>)"
      using refused(3) assms(1) Claim by (cases "k = j") auto
    then show ?thesis
    proof
      assume "get_webhook k (webhook_lease.act a s) = Some w"
      then show ?thesis by (intro exI [of _ "wh_deliveries w"]) simp
    next
      assume "get_webhook k (webhook_lease.act a s) = Some (w\<lparr>wh_deliveries := wh_deliveries w + 1\<rparr>)"
      then show ?thesis by (intro exI [of _ "wh_deliveries w + 1"]) simp
    qed
  next
    case (taken v v' d1)
    obtain x where x: "get_webhook j d1 = Some x" using taken(6) by blast
    have "j \<noteq> k" using taken(1,2) assms by auto
    then have "get_webhook k (put_webhook v' d1) = Some w"
      using get_put_webhook [OF x taken(3)] taken(8) assms(1) by auto
    then show ?thesis using taken(9) Claim by auto
  qed
next
  case (Finish f j u)
  show ?thesis
  proof (cases rule: webhook_finish_cases [of j s u f])
    case stale
    then show ?thesis using assms Finish by auto
  next
    case (held v)
    have "j \<noteq> k" using held(2,3) assms by auto
    then show ?thesis using held get_put_webhook [OF held(2)] get_webhook_pk [OF held(2)] assms(1) Finish by auto
  qed
qed

text \<open>C26: A decision is final: once an event is applied, ignored, rejected or under manual review, no
  repeated delivery, no reconciliation claim and no decision of a late worker, in any number and
  order, changes anything in its row but the count of deliveries, and nobody obtains a claim on it.\<close>

theorem webhook_decision_is_final:
  assumes "get_webhook k s = Some w" "is_final w"
  shows "(\<exists>n\<ge>wh_deliveries w. get_webhook k (webhook_lease.run as s) = Some (w\<lparr>wh_deliveries := n\<rparr>)) \<and>
     fst (webhook_claim_op c k (webhook_lease.run as s)) = None"
proof -
  have run: "\<exists>n\<ge>wh_deliveries w. get_webhook k (webhook_lease.run as s) = Some (w\<lparr>wh_deliveries := n\<rparr>)"
    using assms
  proof (induction as arbitrary: s w)
    case Nil
    then show ?case by (auto simp: webhook_lease.run_def intro!: exI [of _ "wh_deliveries w"])
  next
    case (Cons a as)
    obtain n where n: "wh_deliveries w \<le> n" "get_webhook k (webhook_lease.act a s) = Some (w\<lparr>wh_deliveries := n\<rparr>)"
      using act_keeps_final [OF Cons.prems] by blast
    have "is_final (w\<lparr>wh_deliveries := n\<rparr>)" using Cons.prems(2) by (simp add: is_final_def)
    then obtain m where "n \<le> m" "get_webhook k (webhook_lease.run as (webhook_lease.act a s)) = Some (w\<lparr>wh_deliveries := m\<rparr>)"
      using Cons.IH [OF n(2)] by auto
    then show ?case using n(1) by (auto simp: webhook_lease.run_def intro!: exI [of _ m])
  qed
  then obtain n where "get_webhook k (webhook_lease.run as s) = Some (w\<lparr>wh_deliveries := n\<rparr>)" by blast
  moreover have "is_final (w\<lparr>wh_deliveries := n\<rparr>)" using assms(2) by (simp add: is_final_def)
  ultimately have "fst (webhook_claim_op c k (webhook_lease.run as s)) = None"
    by (cases rule: webhook_claim_cases [of k "webhook_lease.run as s" c]) auto
  with run show ?thesis by blast
qed

section \<open>Every claimed event is decided or retried\<close>

lemma business_webhook: "business_step d d' \<Longrightarrow> get_webhook k d' = get_webhook k d"
  by (simp add: business_step_def get_webhook_def)

text \<open>Processing ends by writing a decision, final or an error, over the claim.\<close>

definition closes :: "env \<Rightarrow> webhook_event \<Rightarrow> db \<Rightarrow> processed \<Rightarrow> bool" where
  "closes e w d p \<longleftrightarrow> (\<exists>c retry_code d1.
     p = (Inr (final_result (cl_decision c) retry_code), put_webhook (closed_row e c w) d1) \<and> business_step d d1 \<and>
     (cl_decision c = D_Error \<or> cl_decision c \<in> set final_webhook_decisions))"

lemma closes_record:
  assumes "get_webhook k d = Some w" "\<not> is_final w" "wh_token w = Some t" "business_step d d1"
    "cl_decision c = D_Error \<or> cl_decision c \<in> set final_webhook_decisions"
  shows "closes e w d (close_by_record e k t c retry_code d1)"
proof -
  have "get_webhook k d1 = Some w" using assms(1) business_webhook [OF assms(4)] by simp
  then have "close_by_record e k t c retry_code d1 =
      (Inr (final_result (cl_decision c) retry_code), put_webhook (closed_row e c w) d1)"
    using assms(2,3) by (simp add: close_by_record_def finalize_held)
  then show ?thesis using assms(4,5) unfolding closes_def by blast
qed

lemma closes_acknowledged:
  assumes "get_webhook k d = Some w" "\<not> is_final w" "wh_token w = Some t" "business_step d d1"
    "cl_decision c \<in> set final_webhook_decisions"
  shows "closes e w d (close_acknowledged e k t c d1)"
proof -
  have "get_webhook k d1 = Some w" using assms(1) business_webhook [OF assms(4)] by simp
  then have "close_acknowledged e k t c d1 =
      (Inr (final_result (cl_decision c) []), put_webhook (closed_row e c w) d1)"
    using assms(2,3,5) by (simp add: close_acknowledged_def finalize_held final_result_def)
  then show ?thesis using assms(4,5) unfolding closes_def by blast
qed

lemma review_unless_decision: "fst (review_unless_reviewed k r d) = Inr (dec, reason) \<Longrightarrow> dec = D_Manual_Review"
  by (auto simp: review_unless_reviewed_def split: option.splits sum.splits if_splits)

lemma apply_event_decision:
  "fst (apply_event e i event ob d) = Inr (dec, reason) \<Longrightarrow> dec = D_Applied \<or> dec = D_Manual_Review"
  by (auto simp: apply_event_def apply_payment_def apply_refund_def
      split: option.splits sum.splits if_splits dest: review_unless_decision)

lemma bare_closing_sel [simp]: "cl_decision (bare_closing dec reason) = dec"
  by (simp add: bare_closing_def)

lemma observed_closing_sel [simp]: "cl_decision (observed_closing ob i dec reason) = dec"
  by (simp add: observed_closing_def)

lemma final_decisions [simp]:
  "D_Applied \<in> set final_webhook_decisions" "D_Ignored \<in> set final_webhook_decisions"
  "D_Rejected \<in> set final_webhook_decisions" "D_Manual_Review \<in> set final_webhook_decisions"
  "D_Error \<notin> set final_webhook_decisions" "D_Received \<notin> set final_webhook_decisions"
  by (simp_all add: final_webhook_decisions_def)

text \<open>Every way to the end: some business step, then one of the two closings.\<close>

definition ends :: "env \<Rightarrow> nat \<Rightarrow> uuid \<Rightarrow> db \<Rightarrow> processed \<Rightarrow> bool" where
  "ends e k t d p \<longleftrightarrow> (\<exists>c retry_code d1. business_step d d1 \<and>
     (p = close_by_record e k t c retry_code d1 \<and> (cl_decision c = D_Error \<or> cl_decision c \<in> set final_webhook_decisions) \<or>
      p = close_acknowledged e k t c d1 \<and> cl_decision c \<in> set final_webhook_decisions))"

lemma ends_record:
  "business_step d d1 \<Longrightarrow> cl_decision c = D_Error \<or> cl_decision c \<in> set final_webhook_decisions \<Longrightarrow>
     ends e k t d (close_by_record e k t c retry_code d1)"
  unfolding ends_def by blast

lemma ends_acknowledged:
  "business_step d d1 \<Longrightarrow> cl_decision c \<in> set final_webhook_decisions \<Longrightarrow> ends e k t d (close_acknowledged e k t c d1)"
  unfolding ends_def by blast

lemma ends_under_review: "ends e k t d (close_under_review e k t i ob reason rr unrecorded d)"
proof (cases "mark_invoice_manual_review (iv_pk i) reason rr d")
  case (Inl x)
  then show ?thesis by (simp add: close_under_review_def) (rule ends_record; auto)
next
  case (Inr r)
  obtain i' d' where r: "r = (i', d')" by (cases r)
  have "business_step d d'" using Inr r by (auto intro: business_mark)
  then show ?thesis using Inr r by (simp add: close_under_review_def ends_acknowledged)
qed

lemma ends_settle: "ends e k t d (settle_event e k t event i ob d)"
proof -
  obtain r d' where ap: "apply_event e i event ob d = (r, d')" by (cases "apply_event e i event ob d")
  have b: "business_step d d'" using business_apply_event [of d e i event ob] ap by simp
  have "ends e k t d (case apply_event e i event ob d of
        (Inl _, d') \<Rightarrow>
          close_by_record e k t (observed_closing ob (Some i) D_Error msg_processing_error) ''processing_error'' d'
      | (Inr (decision, reason), d') \<Rightarrow>
          close_by_record e k t (observed_closing ob (Some i) decision reason) ''claim_lost'' d')"
  proof (cases r)
    case (Inl x)
    then show ?thesis using ap b by (simp add: ends_record)
  next
    case (Inr dr)
    obtain dec reason where dr: "dr = (dec, reason)" by (cases dr)
    have "dec = D_Applied \<or> dec = D_Manual_Review" using apply_event_decision [of e i event ob d] ap Inr dr by simp
    then show ?thesis using ap b Inr dr by (auto intro: ends_record)
  qed
  then show ?thesis using ends_under_review by (simp add: settle_event_def)
qed

lemma ends_mismatch: "ends e k t d (finalize_status_mismatch e k t st ts ob subject rc d)"
  unfolding finalize_status_mismatch_def Let_def by (rule ends_record) auto

lemma ends_observation: "ends e k t d (settle_observation e k t event ob d)"
  unfolding settle_observation_def
  using ends_settle ends_mismatch ends_record [OF business_refl] by (auto split: list.splits)

lemma process_ends:
  "get_webhook k d = Some w \<Longrightarrow> ends e k t d (process_claimed_yookassa_event e gw k t d)"
  unfolding process_claimed_yookassa_event_def
  using ends_observation ends_record [OF business_refl] ends_acknowledged [OF business_refl]
  by (auto split: sum.splits)

lemma process_closes:
  assumes "get_webhook k d = Some w" "\<not> is_final w" "wh_token w = Some t"
  shows "closes e w d (process_claimed_yookassa_event e gw k t d)"
  using process_ends [OF assms(1), of e t gw] closes_record [OF assms] closes_acknowledged [OF assms]
  unfolding ends_def by metis

text \<open>No event is lost: a worker that holds the claim on an event always comes to an end with an
  answer, whatever the provider and the handlers do; the claim is released, and either the row holds
  a final decision and the delivery is acknowledged, or it is not acknowledged, the row records
  an error and the next automatic attempt is scheduled after the back-off delay.\<close>

theorem claimed_event_is_decided_or_retried:
  assumes "webhook_holder k d = Some t" "get_webhook k d = Some w"
  shows "\<exists>r d' w'. process_claimed_yookassa_event e gw k t d = (Inr r, d') \<and> get_webhook k d' = Some w' \<and>
     wh_token w' = None \<and> wh_recon_attempts w' = wh_recon_attempts w \<and>
     (if pr_acknowledged r then is_final w'
      else wh_decision w' = D_Error \<and>
        wh_next_recon w' = Some (now e + secs (reconciliation_delay_seconds e (max 1 (wh_recon_attempts w)))))"
proof -
  have w: "\<not> is_final w" "wh_token w = Some t" using assms by (auto simp: webhook_holder_Some)
  obtain c rc d1 where p: "process_claimed_yookassa_event e gw k t d =
      (Inr (final_result (cl_decision c) rc), put_webhook (closed_row e c w) d1)" "business_step d d1"
      "cl_decision c = D_Error \<or> cl_decision c \<in> set final_webhook_decisions"
    using process_closes [OF assms(2) w, of e gw] unfolding closes_def by blast
  have "get_webhook k d1 = Some w" using assms(2) business_webhook [OF p(2)] by simp
  then have g: "get_webhook k (put_webhook (closed_row e c w) d1) = Some (closed_row e c w)"
    using get_put_webhook get_webhook_pk [OF assms(2)] by simp
  have "if pr_acknowledged (final_result (cl_decision c) rc) then is_final (closed_row e c w)
      else wh_decision (closed_row e c w) = D_Error \<and>
        wh_next_recon (closed_row e c w) = Some (now e + secs (reconciliation_delay_seconds e (max 1 (wh_recon_attempts w))))"
    using p(3) by (auto simp: final_result_def is_final_def closed_row_def)
  then show ?thesis using p(1) g by (intro exI conjI) (assumption | simp)+
qed

section \<open>Only what the provider confirms is applied\<close>

text \<open>The object the provider returned is the one the event is about, in the state the event names, not
  a forbidden test payment, and equal in amount and currency to the one invoice of the payment.\<close>

definition confirmed :: "env \<Rightarrow> gateway \<Rightarrow> webhook_event \<Rightarrow> observation \<Rightarrow> invoice \<Rightarrow> db \<Rightarrow> bool" where
  "confirmed e gw w ob i d \<longleftrightarrow>
     wh_type w \<in> set supported_yookassa_events \<and> observe e gw (wh_type w) (wh_object w) = Inr ob \<and>
     on_status ob = after_first (CHR ''.'') (wh_type w) \<and>
     (wh_type w = ''refund.succeeded'' \<longrightarrow> ps_status (on_payment ob) = ''succeeded'') \<and>
     filter (\<lambda>i. iv_payment_id i = on_payment_id ob) (d_invoices d) = [i] \<and>
     (ps_test (on_payment ob) \<longrightarrow> allow_test_payments e) \<and> \<not> object_differs (wh_type w) i ob"

definition applied_close ::
    "env \<Rightarrow> nat \<Rightarrow> uuid \<Rightarrow> invoice \<Rightarrow> observation \<Rightarrow> (err + decision \<times> string) \<times> db \<Rightarrow> processed" where
  "applied_close e k t i ob r = (case r of
      (Inl _, d') \<Rightarrow>
        close_by_record e k t (observed_closing ob (Some i) D_Error msg_processing_error) ''processing_error'' d'
    | (Inr (decision, reason), d') \<Rightarrow>
        close_by_record e k t (observed_closing ob (Some i) decision reason) ''claim_lost'' d')"

text \<open>Processing that applies nothing: at most an invoice went to manual review.\<close>

definition quiet :: "env \<Rightarrow> nat \<Rightarrow> uuid \<Rightarrow> db \<Rightarrow> processed \<Rightarrow> bool" where
  "quiet e k t d p \<longleftrightarrow> (\<exists>c rc d1. same_but_invoices d d1 \<and> cl_decision c \<noteq> D_Applied \<and>
     (p = close_by_record e k t c rc d1 \<or> p = close_acknowledged e k t c d1))"

lemma quiet_record: "cl_decision c \<noteq> D_Applied \<Longrightarrow> quiet e k t d (close_by_record e k t c rc d)"
  unfolding quiet_def by blast

lemma quiet_acknowledged: "cl_decision c \<noteq> D_Applied \<Longrightarrow> quiet e k t d (close_acknowledged e k t c d)"
  unfolding quiet_def by blast

lemma mark_same: "mark_invoice_manual_review k r f d = Inr (i, d') \<Longrightarrow> same_but_invoices d d'"
  by (auto simp: mark_invoice_manual_review_def mark_locked_same elim!: bind_ok_OkE split: option.splits)

lemma quiet_review: "quiet e k t d (close_under_review e k t i ob reason rr unrecorded d)"
proof (cases "mark_invoice_manual_review (iv_pk i) reason rr d")
  case (Inl x)
  then show ?thesis by (simp add: close_under_review_def quiet_record)
next
  case (Inr r)
  obtain i' d' where r: "r = (i', d')" by (cases r)
  have "same_but_invoices d d'" using Inr r by (auto intro: mark_same)
  moreover have "cl_decision (observed_closing ob (Some i') D_Manual_Review reason) \<noteq> D_Applied" by simp
  ultimately have "quiet e k t d (close_acknowledged e k t (observed_closing ob (Some i') D_Manual_Review reason) d')"
    unfolding quiet_def by blast
  then show ?thesis using Inr r by (simp add: close_under_review_def)
qed

lemma quiet_mismatch: "quiet e k t d (finalize_status_mismatch e k t st ts ob subject rc d)"
  unfolding finalize_status_mismatch_def Let_def by (rule quiet_record) simp

lemma observation_cases:
  assumes "get_webhook k d = Some w" "wh_type w \<in> set supported_yookassa_events" "observe e gw (wh_type w) (wh_object w) = Inr ob"
  shows "quiet e k t d (settle_observation e k t (wh_type w) ob d) \<or>
     (\<exists>i. confirmed e gw w ob i d \<and>
        settle_observation e k t (wh_type w) ob d = applied_close e k t i ob (apply_event e i (wh_type w) ob d))"
proof (cases "on_status ob \<noteq> after_first (CHR ''.'') (wh_type w) \<or>
    (wh_type w = ''refund.succeeded'' \<and> ps_status (on_payment ob) \<noteq> ''succeeded'')")
  case True
  then show ?thesis by (auto simp: settle_observation_def quiet_mismatch)
next
  case ok: False
  let ?is = "filter (\<lambda>i. iv_payment_id i = on_payment_id ob) (d_invoices d)"
  consider (none) "?is = []" | (one) i where "?is = [i]" | (many) i j js where "?is = i # j # js"
    by (metis list.exhaust)
  then show ?thesis
  proof cases
    case none
    then show ?thesis using ok by (auto simp: settle_observation_def intro: quiet_record)
  next
    case many
    then show ?thesis using ok by (auto simp: settle_observation_def intro: quiet_record)
  next
    case (one i)
    then have s: "settle_observation e k t (wh_type w) ob d = settle_event e k t (wh_type w) i ob d"
      using ok by (auto simp: settle_observation_def)
    show ?thesis
    proof (cases "(ps_test (on_payment ob) \<and> \<not> allow_test_payments e) \<or> object_differs (wh_type w) i ob")
      case True
      then show ?thesis by (auto simp: s settle_event_def quiet_review)
    next
      case False
      then have "confirmed e gw w ob i d" using assms(2,3) ok one by (auto simp: confirmed_def)
      moreover have "settle_event e k t (wh_type w) i ob d = applied_close e k t i ob (apply_event e i (wh_type w) ob d)"
        using False by (auto simp: settle_event_def applied_close_def)
      ultimately show ?thesis using s by auto
    qed
  qed
qed

lemma process_cases:
  obtains (gone) "get_webhook k d = None" "process_claimed_yookassa_event e gw k t d = (Inl DoesNotExist, d)"
  | (quiet) w where "get_webhook k d = Some w" "quiet e k t d (process_claimed_yookassa_event e gw k t d)"
  | (applied) w ob i where "get_webhook k d = Some w" "confirmed e gw w ob i d"
      "process_claimed_yookassa_event e gw k t d = applied_close e k t i ob (apply_event e i (wh_type w) ob d)"
proof (cases "get_webhook k d")
  case None
  then show thesis using gone by (simp add: process_claimed_yookassa_event_def)
next
  case (Some w)
  show thesis
  proof (cases "wh_type w \<in> set supported_yookassa_events \<and> is_valid_provider_id (wh_object w)")
    case False
    then have "quiet e k t d (process_claimed_yookassa_event e gw k t d)"
      using Some by (auto simp: process_claimed_yookassa_event_def intro: quiet_acknowledged)
    then show thesis by (rule quiet [OF Some])
  next
    case True
    show thesis
    proof (cases "observe e gw (wh_type w) (wh_object w)")
      case (Inl x)
      then have "quiet e k t d (process_claimed_yookassa_event e gw k t d)"
        using Some True by (auto simp: process_claimed_yookassa_event_def intro: quiet_record)
      then show thesis by (rule quiet [OF Some])
    next
      case (Inr ob)
      then have "process_claimed_yookassa_event e gw k t d = settle_observation e k t (wh_type w) ob d"
        using Some True by (simp add: process_claimed_yookassa_event_def)
      then show thesis
        using observation_cases [OF Some conjunct1 [OF True] Inr, of t] quiet [OF Some] applied [OF Some] by metis
    qed
  qed
qed

lemma finalize_frame:
  assumes "finalize_webhook_event e k t c d = Inr (dec, d')"
  shows "d_wallets d' = d_wallets d" "d_ledger d' = d_ledger d" "d_subs d' = d_subs d" "d_outbox d' = d_outbox d"
    "d_invoices d' = d_invoices d" "d_reversals d' = d_reversals d" "d_tenants d' = d_tenants d"
  using assms by (auto simp: finalize_webhook_event_def put_webhook_def split: option.splits if_splits)

lemma close_frame:
  assumes "p = close_by_record e k t c rc d \<or> p = close_acknowledged e k t c d"
  shows "d_wallets (snd p) = d_wallets d" "d_ledger (snd p) = d_ledger d" "d_subs (snd p) = d_subs d"
    "d_outbox (snd p) = d_outbox d" "d_invoices (snd p) = d_invoices d" "d_reversals (snd p) = d_reversals d"
    "d_tenants (snd p) = d_tenants d"
  using assms finalize_frame [of e k t c d]
  by (auto simp: close_by_record_def close_acknowledged_def split: sum.splits)

lemma applied_close_frame:
  assumes "applied_close e k t i ob (res, d1) = (r, d')"
  shows "d_wallets d' = d_wallets d1" "d_ledger d' = d_ledger d1" "d_subs d' = d_subs d1" "d_outbox d' = d_outbox d1"
    "d_invoices d' = d_invoices d1" "d_reversals d' = d_reversals d1" "d_tenants d' = d_tenants d1"
proof -
  obtain c rc where "applied_close e k t i ob (res, d1) = close_by_record e k t c rc d1"
    by (cases res) (auto simp: applied_close_def)
  then have "(r, d') = close_by_record e k t c rc d1" using assms by simp
  from close_frame [OF disjI1, OF this]
  show "d_wallets d' = d_wallets d1" "d_ledger d' = d_ledger d1" "d_subs d' = d_subs d1" "d_outbox d' = d_outbox d1"
    "d_invoices d' = d_invoices d1" "d_reversals d' = d_reversals d1" "d_tenants d' = d_tenants d1"
    by simp_all
qed

lemma quiet_frame:
  assumes "quiet e k t d p"
  shows "d_wallets (snd p) = d_wallets d" "d_ledger (snd p) = d_ledger d" "d_subs (snd p) = d_subs d"
    "d_outbox (snd p) = d_outbox d" "d_reversals (snd p) = d_reversals d"
proof -
  obtain c rc d1 where s: "same_but_invoices d d1"
    and p: "p = close_by_record e k t c rc d1 \<or> p = close_acknowledged e k t c d1"
    using assms unfolding quiet_def by blast
  show "d_wallets (snd p) = d_wallets d" "d_ledger (snd p) = d_ledger d" "d_subs (snd p) = d_subs d"
    "d_outbox (snd p) = d_outbox d" "d_reversals (snd p) = d_reversals d"
    using close_frame [OF p] same_but_invoicesD [OF s] by simp_all
qed

lemma observed_payment:
  assumes "observe e gw event oid = Inr ob"
  shows "on_payment_id ob = ps_id (on_payment ob)" "is_valid_provider_id (on_payment_id ob)"
    "event = ''refund.succeeded'' \<or> on_payment_id ob = oid \<and> on_status ob = ps_status (on_payment ob) \<and>
       on_amount ob = ps_amount (on_payment ob) \<and> on_currency ob = ps_currency (on_payment ob)"
  using assms fetch_payment_sound fetch_refund_sound
  by (auto simp: observe_def elim!: bind_ok_OkE split: if_splits)

text \<open>C25: Nothing is delivered or taken back on the word of a notification: if processing an event
  changes a wallet, the ledger, a subscription, a reversal or the outbox, then the provider itself
  returned the payment, succeeded, and not a test payment where these are not allowed; there is
  exactly one invoice with that payment id, and the payment equals it in amount and currency.\<close>

theorem changes_need_confirmation:
  assumes "process_claimed_yookassa_event e gw k t d = (r, d')"
    "(d_wallets d', d_ledger d', d_subs d', d_reversals d', d_outbox d') \<noteq>
       (d_wallets d, d_ledger d, d_subs d, d_reversals d, d_outbox d)"
  shows "\<exists>w ob p i. get_webhook k d = Some w \<and> observe e gw (wh_type w) (wh_object w) = Inr ob \<and> p = on_payment ob \<and>
     ps_status p = ''succeeded'' \<and> (ps_test p \<longrightarrow> allow_test_payments e) \<and>
     filter (\<lambda>i. iv_payment_id i = ps_id p) (d_invoices d) = [i] \<and>
     ps_amount p = in_amount (iv_intent i) \<and> ps_currency p = in_currency (iv_intent i)"
proof (cases rule: process_cases [of k d e gw t])
  case gone
  then show ?thesis using assms by simp
next
  case (quiet w)
  then show ?thesis using assms quiet_frame [OF quiet(2)] by simp
next
  case (applied w ob i)
  note c = applied(2) [unfolded confirmed_def]
  have ob: "observe e gw (wh_type w) (wh_object w) = Inr ob" using c by blast
  have differs: "\<not> object_differs (wh_type w) i ob" using c by blast
  have "ps_status (on_payment ob) = ''succeeded''"
  proof (rule ccontr)
    assume no: "ps_status (on_payment ob) \<noteq> ''succeeded''"
    then have "wh_type w \<noteq> ''refund.succeeded''" using c by blast
    then have st: "on_status ob = ps_status (on_payment ob)" "wh_type w = ''payment.succeeded'' \<or> wh_type w = ''payment.canceled''"
      using observed_payment(3) [OF ob] c by (auto simp: supported_yookassa_events_def)
    have "after_first (CHR ''.'') ''payment.succeeded'' = ''succeeded''" by (simp add: after_first_def)
    then have ty: "wh_type w = ''payment.canceled''" using no st c by auto
    obtain res d1 where ap: "apply_event e i (wh_type w) ob d = (res, d1)" by (cases "apply_event e i (wh_type w) ob d")
    have "same_but_invoices d d1"
      using ap ty mark_same same_but_invoices_trans [OF save_invoice_same synclog_same]
      by (auto simp: apply_event_def apply_payment_def handle_payment_failed_webhook_def review_unless_reviewed_def
          split: option.splits sum.splits if_splits elim!: bind_ok_OkE dest!: mark_same)
    note same = same_but_invoicesD [OF this]
    have "applied_close e k t i ob (res, d1) = (r, d')" using applied(3) ap assms(1) by simp
    from applied_close_frame [OF this] show False using assms(2) same by simp
  qed
  moreover have "on_payment_id ob = ps_id (on_payment ob)" by (rule observed_payment(1) [OF ob])
  ultimately show ?thesis using applied(1) ob c differs unfolding object_differs_def by fastforce
qed

lemma received_cents: "0 < a \<Longrightarrow> a \<le> max_provider_amount \<Longrightarrow> received_amount (str_cents a) = Some a"
  using dec_parse_cents [of a] dec_units_cents [of a] by (simp add: received_amount_def max_provider_amount_def)

lemma observed_fetch: "observe e gw event oid = Inr ob \<Longrightarrow> \<exists>x. fetch_payment e gw x = Inr (on_payment ob)"
  by (auto simp: observe_def elim!: bind_ok_OkE split: if_splits)

lemma observed_bounds:
  assumes "observe e gw event oid = Inr ob"
  shows "0 < ps_amount (on_payment ob)" "ps_amount (on_payment ob) \<le> max_provider_amount" "is_currency (ps_currency (on_payment ob))"
  using observed_fetch [OF assms] fetch_payment_sound(4,5,6) by blast+

lemma upper_letters: "list_all (\<lambda>x. upper [x] = [x]) ''ABCDEFGHIJKLMNOPQRSTUVWXYZ''"
  by code_simp

lemma upper_currency:
  assumes "is_currency c" shows "upper c = c"
proof -
  have letters: "\<forall>x\<in>set c. upper [x] = [x]"
    using assms upper_letters unfolding is_currency_def list_all_iff by blast
  have "upper c = concat (map (\<lambda>x. upper [x]) c)" by (induction c) (simp_all add: upper_def)
  also have "\<dots> = concat (map (\<lambda>x. [x]) c)" using letters by (metis (no_types, lifting) map_cong)
  finally show ?thesis by simp
qed

lemma close_row:
  assumes "p = close_by_record e k t c rc d \<or> p = close_acknowledged e k t c d" "get_webhook k d = Some w" "\<not> is_final w" "wh_token w = Some t"
  shows "get_webhook k (snd p) = Some (closed_row e c w)"
  using assms get_put_webhook [of k d w "closed_row e c w" k] get_webhook_pk [OF assms(2)]
  by (auto simp: close_by_record_def close_acknowledged_def finalize_held)

lemma applied_close_row:
  assumes "applied_close e k t i ob (res, d1) = (r, d')" "get_webhook k d1 = Some w" "\<not> is_final w" "wh_token w = Some t"
  shows "\<exists>dec reason. get_webhook k d' = Some (closed_row e (observed_closing ob (Some i) dec reason) w) \<and>
    (case res of Inl _ \<Rightarrow> dec = D_Error | Inr dr \<Rightarrow> dr = (dec, reason))"
proof -
  obtain dec reason rc where c: "applied_close e k t i ob (res, d1) = close_by_record e k t (observed_closing ob (Some i) dec reason) rc d1"
    "case res of Inl _ \<Rightarrow> dec = D_Error | Inr dr \<Rightarrow> dr = (dec, reason)"
    by (cases res) (auto simp: applied_close_def)
  have "get_webhook k (snd (r, d')) = Some (closed_row e (observed_closing ob (Some i) dec reason) w)"
    using c(1) assms(1) by (intro close_row [OF disjI1 assms(2-4)]) simp
  then show ?thesis using c(2) by auto
qed

lemma applied_success:
  assumes "apply_event e i ''payment.succeeded'' ob d = (Inr (D_Applied, reason), d')"
  shows "handle_payment_success_webhook e (iv_pk i) (ps_id (on_payment ob)) (str_cents (ps_amount (on_payment ob)))
     (ps_currency (on_payment ob)) d = Inr (True, d')"
proof (cases "handle_payment_success_webhook e (iv_pk i) (ps_id (on_payment ob)) (str_cents (ps_amount (on_payment ob)))
     (ps_currency (on_payment ob)) d")
  case (Inl x)
  then show ?thesis using assms by (simp add: apply_event_def apply_payment_def)
next
  case (Inr r)
  obtain b d1 where r: "r = (b, d1)" by (cases r)
  show ?thesis
  proof (cases b)
    case True
    then show ?thesis using assms Inr r by (simp add: apply_event_def apply_payment_def)
  next
    case False
    then have "fst (review_unless_reviewed (iv_pk i) (\<lambda>j. or_default (iv_error j) msg_not_accepted) d1) = Inr (D_Applied, reason)"
      using assms Inr r by (simp add: apply_event_def apply_payment_def)
    then show ?thesis using review_unless_decision by blast
  qed
qed

text \<open>What the records call applied has been delivered: when a worker with the claim processes
  an event and its row then says that a succeeded payment was applied, the invoice named in the row
  has this payment id, is paid (or was refunded since), and its amount and currency are the ones the
  provider confirmed and the row records.\<close>

theorem applied_payment_is_paid:
  assumes "process_claimed_yookassa_event e gw k t d = (r, d')" "webhook_holder k d = Some t"
    "get_webhook k d' = Some w'" "wh_decision w' = D_Applied" "wh_type w' = ''payment.succeeded''"
  shows "\<exists>j i. wh_invoice w' = Some j \<and> get_invoice j d' = Some i \<and> iv_payment_id i = wh_object w' \<and>
     iv_status i \<in> {Paid, Partially_Refunded, Refunded} \<and>
     wh_amount w' = Some (in_amount (iv_intent i)) \<and> wh_currency w' = in_currency (iv_intent i)"
proof -
  obtain w where w: "get_webhook k d = Some w" "\<not> is_final w" "wh_token w = Some t"
    using assms(2) by (auto simp: webhook_holder_Some)
  show ?thesis
  proof (cases rule: process_cases [of k d e gw t])
    case gone
    then show ?thesis using w by simp
  next
    case (quiet v)
    obtain c rc d1 where q: "same_but_invoices d d1" "cl_decision c \<noteq> D_Applied"
      "(r, d') = close_by_record e k t c rc d1 \<or> (r, d') = close_acknowledged e k t c d1"
      using quiet(2) assms(1) unfolding quiet_def by auto
    have "get_webhook k d1 = Some w" using w(1) same_but_invoicesD [OF q(1)] by (simp add: get_webhook_def)
    then have "get_webhook k d' = Some (closed_row e c w)" using close_row [OF q(3) _ w(2,3)] by simp
    then show ?thesis using assms(3,4) q(2) by simp
  next
    case (applied v ob i)
    have v: "v = w" using applied(1) w(1) by simp
    note c = applied(2) [unfolded confirmed_def v]
    have ob: "observe e gw (wh_type w) (wh_object w) = Inr ob" using c by blast
    obtain res d1 where ap: "apply_event e i (wh_type w) ob d = (res, d1)" by (cases "apply_event e i (wh_type w) ob d")
    have "business_step d d1" using business_apply_event [of d e i "wh_type w" ob] ap by simp
    then have w1: "get_webhook k d1 = Some w" using w(1) business_webhook by simp
    have fin: "applied_close e k t i ob (res, d1) = (r, d')" using applied(3) ap assms(1) v by simp
    obtain dec reason where row: "get_webhook k d' = Some (closed_row e (observed_closing ob (Some i) dec reason) w)"
      "case res of Inl _ \<Rightarrow> dec = D_Error | Inr dr \<Rightarrow> dr = (dec, reason)"
      using applied_close_row [OF fin w1 w(2,3)] by blast
    have w': "w' = closed_row e (observed_closing ob (Some i) D_Applied reason) w" and dec: "dec = D_Applied"
      using row(1) assms(3,4) by auto
    have res: "res = Inr (D_Applied, reason)" using row(2) dec by (cases res) auto
    have ty: "wh_type w = ''payment.succeeded''" using assms(5) w' by simp
    note h = applied_success [OF ap [unfolded ty res]]
    obtain i' tn where i': "get_invoice (iv_pk i) d1 = Some i'" "iv_status i' \<in> {Paid, Partially_Refunded, Refunded}"
      "pays (ps_id (on_payment ob)) (str_cents (ps_amount (on_payment ob))) (ps_currency (on_payment ob)) i'"
      using success_leaves_paid [OF h] by (auto simp: invoice_with_tenant_def split: option.splits)
    have inv: "get_invoice (iv_pk i) d' = Some i'" using i'(1) applied_close_frame [OF fin] by (simp add: get_invoice_def)
    have pay: "on_payment_id ob = wh_object w" "on_amount ob = ps_amount (on_payment ob)" "on_currency ob = ps_currency (on_payment ob)"
      "ps_id (on_payment ob) = wh_object w"
      using observed_payment [OF ob] ty by auto
    have "received_amount (str_cents (ps_amount (on_payment ob))) = Some (ps_amount (on_payment ob))"
      by (rule received_cents [OF observed_bounds(1,2) [OF ob]])
    then have "in_amount (iv_intent i') = ps_amount (on_payment ob)" "iv_payment_id i' = ps_id (on_payment ob)"
      "received_currency (ps_currency (on_payment ob)) = in_currency (iv_intent i')"
      using i'(3) by (auto simp: pays_def)
    moreover have "received_currency (ps_currency (on_payment ob)) = ps_currency (on_payment ob)"
      using upper_currency [OF observed_bounds(3) [OF ob]] by (simp add: received_currency_def)
    ultimately have "wh_amount w' = Some (in_amount (iv_intent i'))" "wh_currency w' = in_currency (iv_intent i')"
      "wh_invoice w' = Some (iv_pk i)" "iv_payment_id i' = wh_object w'"
      using pay by (simp_all add: w' closed_row_def observed_closing_def)
    then show ?thesis using inv i'(2) by blast
  qed
qed

section \<open>A sample event\<close>

definition topup_payment :: dict where
  "topup_payment = [(''id'', JStr ''pay-2''), (''status'', JStr ''succeeded''), (''test'', JBool False),
     (''amount'', JObj [(''value'', JStr ''990.00''), (''currency'', JStr ''RUB'')])]"

definition hook :: webhook_event where
  "hook = (new_webhook 9 ''payment.succeeded'' ''pay-2'' ''payment.succeeded:pay-2'')
     \<lparr>wh_token := Some 0, wh_started := Some 1770000000000000\<rparr>"

definition hook_db :: db where
  "hook_db = topup_db\<lparr>d_webhooks := [hook], d_uuid := 1\<rparr>"

lemma hook_sel: "wh_pk hook = 9" "wh_type hook = ''payment.succeeded''" "wh_object hook = ''pay-2''" "wh_token hook = Some 0"
  "\<not> is_final hook" "wh_decision hook = D_Received" "wh_recon_attempts hook = 0"
  by (simp_all add: hook_def new_webhook_def is_final_def)

lemma hook_rows: "get_webhook 9 hook_db = Some hook" "webhook_holder 9 hook_db = Some 0" "d_invoices hook_db = [topup_invoice]"
  "d_ledger hook_db = []" "d_wallets hook_db = []" "d_outbox hook_db = []" "get_tenant 7 hook_db = Some demo_tenant"
  using topup_rows_db by (simp_all add: hook_db_def get_webhook_def hook_sel webhook_holder_def get_tenant_def)
    (simp add: topup_db_def)

lemma hook_id: "is_valid_provider_id ''pay-2''" "required_provider_id (JStr ''pay-2'') = Inr ''pay-2''"
  by (simp_all add: required_provider_id_def is_valid_provider_id_def json_text_def word_char_def is_alpha_def is_digit_def)

lemma hook_fetch: "fetch_payment demo_env (demo_gateway topup_payment) ''pay-2'' =
    Inr \<lparr>ps_id = ''pay-2'', ps_status = ''succeeded'', ps_amount = 99000, ps_currency = ''RUB'', ps_test = False\<rparr>"
proof -
  have amount: "required_amount topup_payment = Inr (99000, ''RUB'')"
    by (simp add: required_amount_def topup_payment_def dict_get_def provider_amount_def dec_parse_def strip_def
        is_space_def split_sign_def dec_special_def dec_number_def dec_exponent_def is_digit_def digits_value_def
        digit_value_def dec_units_def scaled_def max_provider_amount_def upper_def lower_def json_text_def
        is_currency_def Let_def)
  have fields: "dict_get ''id'' topup_payment = JStr ''pay-2''" "dict_get ''status'' topup_payment = JStr ''succeeded''"
    "dict_get ''test'' topup_payment = JBool False"
    by (simp_all add: topup_payment_def dict_get_def)
  have "gw_call (demo_gateway topup_payment) q = Some \<lparr>rp_late = False, rp_status = 200, rp_encoding = None,
      rp_length = Some ''2'', rp_chunks = [''{'', ''}'']\<rparr>" for q
    by (simp add: demo_gateway_def)
  then have "fetch_object demo_env (demo_gateway topup_payment) ''payments'' ''pay-2'' = Inr topup_payment"
    by (simp add: fetch_object_def hook_id demo_transport demo_response)
  then show ?thesis
    by (simp add: fetch_payment_def amount fields hook_id required_status_def payment_statuses_def
        json_text_def required_boolean_def)
qed

lemma sample_process:
  "\<exists>d1 c. process_claimed_yookassa_event demo_env (demo_gateway topup_payment) 9 0 hook_db =
       (Inr (final_result D_Applied []), put_webhook (closed_row demo_env c hook) d1) \<and> cl_decision c = D_Applied \<and>
     handle_payment_success_webhook demo_env 2 ''pay-2'' ''990.00'' ''RUB'' hook_db = Inr (True, d1)"
proof -
  let ?p = "\<lparr>ps_id = ''pay-2'', ps_status = ''succeeded'', ps_amount = 99000, ps_currency = ''RUB'', ps_test = False\<rparr>"
  let ?ob = "\<lparr>on_status = ''succeeded'', on_amount = 99000, on_currency = ''RUB'', on_payment_id = ''pay-2'',
     on_payment = ?p, on_refund = None\<rparr>"
  have ob: "observe demo_env (demo_gateway topup_payment) ''payment.succeeded'' ''pay-2'' = Inr ?ob"
    by (simp add: observe_def hook_fetch)
  obtain d1 where h: "handle_payment_success_webhook demo_env 2 ''pay-2'' ''990.00'' ''RUB'' hook_db = Inr (True, d1)"
    using sample_topup_paid_in [OF hook_rows(7,3,5,4,6)] by blast
  have "str_cents 99000 = ''990.00''" by (simp add: str_cents_def str_nat.simps pad_def digit_def)
  then have ap: "apply_event demo_env topup_invoice ''payment.succeeded'' ?ob hook_db = (Inr (D_Applied, []), d1)"
    using h by (simp add: apply_event_def apply_payment_def topup_sel)
  let ?c = "observed_closing ?ob (Some topup_invoice) D_Applied []"
  have "business_step hook_db d1" by (rule business_success [OF h])
  then have w1: "get_webhook 9 d1 = Some hook" using business_webhook hook_rows(1) by simp
  have "settle_event demo_env 9 0 ''payment.succeeded'' topup_invoice ?ob hook_db =
      close_by_record demo_env 9 0 ?c ''claim_lost'' d1"
    using ap by (simp add: settle_event_def object_differs_def topup_sel)
  also have "\<dots> = (Inr (final_result D_Applied []), put_webhook (closed_row demo_env ?c hook) d1)"
    using finalize_held [OF w1 hook_sel(5,4)] by (simp add: close_by_record_def final_result_def)
  finally have "process_claimed_yookassa_event demo_env (demo_gateway topup_payment) 9 0 hook_db =
      (Inr (final_result D_Applied []), put_webhook (closed_row demo_env ?c hook) d1)"
    using ob by (simp add: process_claimed_yookassa_event_def hook_rows hook_sel supported_yookassa_events_def hook_id
        settle_observation_def after_first_def topup_sel)
  then show ?thesis using h by (intro exI [of _ d1] exI [of _ ?c]) simp
qed

theorem webhook_decision_is_final_witness:
  "(\<exists>n\<ge>1. get_webhook 9 (webhook_lease.run
       [Claim (Redelivery demo_env) 9, Claim (Recheck demo_env True) 9, Finish (demo_env, bare_closing D_Error []) 9 0]
       (hook_db\<lparr>d_webhooks := [hook\<lparr>wh_decision := D_Applied\<rparr>]\<rparr>)) =
     Some (hook\<lparr>wh_decision := D_Applied, wh_deliveries := n\<rparr>))"
proof -
  let ?d = "hook_db\<lparr>d_webhooks := [hook\<lparr>wh_decision := D_Applied\<rparr>]\<rparr>"
  have "get_webhook 9 ?d = Some (hook\<lparr>wh_decision := D_Applied\<rparr>)" by (simp add: get_webhook_def hook_sel)
  moreover have "is_final (hook\<lparr>wh_decision := D_Applied\<rparr>)" by (simp add: is_final_def)
  ultimately have "(\<exists>n\<ge>wh_deliveries (hook\<lparr>wh_decision := D_Applied\<rparr>). get_webhook 9 (webhook_lease.run
       [Claim (Redelivery demo_env) 9, Claim (Recheck demo_env True) 9, Finish (demo_env, bare_closing D_Error []) 9 0] ?d) =
     Some ((hook\<lparr>wh_decision := D_Applied\<rparr>)\<lparr>wh_deliveries := n\<rparr>))"
    using webhook_decision_is_final [where c = "Redelivery demo_env"] by blast
  moreover have "wh_deliveries (hook\<lparr>wh_decision := D_Applied\<rparr>) = 1" by (simp add: hook_def new_webhook_def)
  ultimately show ?thesis by (simp del: One_nat_def)
qed

theorem claimed_event_is_decided_or_retried_witness:
  "\<exists>r d' w'. process_claimed_yookassa_event demo_env (demo_gateway []) 9 0 hook_db = (Inr r, d') \<and>
     get_webhook 9 d' = Some w' \<and> wh_token w' = None \<and>
     (if pr_acknowledged r then is_final w' else wh_next_recon w' = Some 1770000060000000)"
proof -
  have tm: "now demo_env + secs (reconciliation_delay_seconds demo_env (max 1 (wh_recon_attempts hook))) = 1770000060000000"
    by (simp add: hook_sel reconciliation_delay_seconds_def secs_def demo_env_def)
  obtain r d' w' where r: "process_claimed_yookassa_event demo_env (demo_gateway []) 9 0 hook_db = (Inr r, d')"
      "get_webhook 9 d' = Some w'" "wh_token w' = None"
      "if pr_acknowledged r then is_final w' else wh_decision w' = D_Error \<and> wh_next_recon w' = Some 1770000060000000"
    using claimed_event_is_decided_or_retried [OF hook_rows(2,1), of demo_env "demo_gateway []", unfolded tm] by blast
  then have "if pr_acknowledged r then is_final w' else wh_next_recon w' = Some 1770000060000000"
    by (cases "pr_acknowledged r") simp_all
  then show ?thesis using r(1-3) by blast
qed

theorem changes_need_confirmation_witness:
  "\<exists>i. filter (\<lambda>i. iv_payment_id i = ''pay-2'') (d_invoices hook_db) = [i] \<and>
     ps_amount (case fetch_payment demo_env (demo_gateway topup_payment) ''pay-2'' of Inr p \<Rightarrow> p) = in_amount (iv_intent i)"
proof -
  obtain d1 c where p: "process_claimed_yookassa_event demo_env (demo_gateway topup_payment) 9 0 hook_db =
       (Inr (final_result D_Applied []), put_webhook (closed_row demo_env c hook) d1)" "cl_decision c = D_Applied"
    and h: "handle_payment_success_webhook demo_env 2 ''pay-2'' ''990.00'' ''RUB'' hook_db = Inr (True, d1)"
    using sample_process by blast
  have "get_invoice 2 hook_db = Some topup_invoice" by (simp add: get_invoice_def hook_rows topup_sel)
  then have "fulfil_topup demo_env demo_tenant topup_invoice hook_db = Inr (True, d1)"
    using success_open [OF _ _ topup_pays] h hook_rows(7) by (simp add: payable_def topup_sel)
  then have "d_ledger d1 \<noteq> []"
  proof (cases rule: fulfil_topup_cases)
    case (refused snap)
    then show ?thesis by (auto simp: refuse_def elim!: bind_ok_OkE)
  next
    case (credited credits snap i1 w d2 d3)
    then show ?thesis using topup_effect [OF credited(6) topup_key_other] by (auto simp: ledger_has_def)
  qed
  then have ch: "(d_wallets (put_webhook (closed_row demo_env c hook) d1), d_ledger (put_webhook (closed_row demo_env c hook) d1),
      d_subs (put_webhook (closed_row demo_env c hook) d1), d_reversals (put_webhook (closed_row demo_env c hook) d1),
      d_outbox (put_webhook (closed_row demo_env c hook) d1)) \<noteq>
    (d_wallets hook_db, d_ledger hook_db, d_subs hook_db, d_reversals hook_db, d_outbox hook_db)"
    using hook_rows(4) by (simp add: put_webhook_def)
  from changes_need_confirmation [OF p(1) ch] show ?thesis
    using hook_rows(1) hook_fetch by (auto simp: hook_sel observe_def)
qed

theorem applied_payment_is_paid_witness:
  "\<exists>d' w' j i. process_claimed_yookassa_event demo_env (demo_gateway topup_payment) 9 0 hook_db =
       (Inr (final_result D_Applied []), d') \<and> get_webhook 9 d' = Some w' \<and>
     wh_invoice w' = Some j \<and> get_invoice j d' = Some i \<and> iv_payment_id i = ''pay-2'' \<and>
     iv_status i \<in> {Paid, Partially_Refunded, Refunded}"
proof -
  obtain d1 c where p: "process_claimed_yookassa_event demo_env (demo_gateway topup_payment) 9 0 hook_db =
       (Inr (final_result D_Applied []), put_webhook (closed_row demo_env c hook) d1)" "cl_decision c = D_Applied"
    and h: "handle_payment_success_webhook demo_env 2 ''pay-2'' ''990.00'' ''RUB'' hook_db = Inr (True, d1)"
    using sample_process by blast
  have "get_webhook 9 d1 = Some hook" using business_webhook [OF business_success [OF h]] hook_rows(1) by simp
  then have g: "get_webhook 9 (put_webhook (closed_row demo_env c hook) d1) = Some (closed_row demo_env c hook)"
    using get_put_webhook hook_sel(1) by simp
  from applied_payment_is_paid [OF p(1) hook_rows(2) g] p g show ?thesis by (auto simp: hook_sel)
qed

end
