(* ===== verification/Reconciliation.thy ===== *)
theory Reconciliation
  imports Webhooks
begin

text \<open>
  The periodic reconciliation with the provider (\<^verbatim>\<open>apps/billing/reconciliation.py\<close>): events whose
  processing failed or was abandoned are claimed again and processed, or closed for manual review
  when their attempts are used up; invoices that wait for the provider are resumed or polled. A run
  consists of many transactions; an exception that leaves the run keeps what was committed.
\<close>

section \<open>Counters\<close>

record recon_stats =
  rs_events_claimed :: nat
  rs_events_final :: nat
  rs_events_retryable :: nat
  rs_invoices_claimed :: nat
  rs_invoices_resumed :: nat
  rs_invoices_waiting :: nat
  rs_invoices_final :: nat
  rs_manual_review :: nat
  rs_errors :: nat

definition no_recon_stats :: recon_stats where
  "no_recon_stats = \<lparr>rs_events_claimed = 0, rs_events_final = 0, rs_events_retryable = 0, rs_invoices_claimed = 0,
     rs_invoices_resumed = 0, rs_invoices_waiting = 0, rs_invoices_final = 0, rs_manual_review = 0, rs_errors = 0\<rparr>"

type_synonym progress = "(err + recon_stats) \<times> db"

definition count_event_claimed :: "recon_stats \<Rightarrow> recon_stats" where
  "count_event_claimed st = st\<lparr>rs_events_claimed := rs_events_claimed st + 1\<rparr>"
definition count_event_final :: "recon_stats \<Rightarrow> recon_stats" where
  "count_event_final st = st\<lparr>rs_events_final := rs_events_final st + 1\<rparr>"
definition count_event_retryable :: "recon_stats \<Rightarrow> recon_stats" where
  "count_event_retryable st = st\<lparr>rs_events_retryable := rs_events_retryable st + 1\<rparr>"
definition count_claimed :: "recon_stats \<Rightarrow> recon_stats" where
  "count_claimed st = st\<lparr>rs_invoices_claimed := rs_invoices_claimed st + 1\<rparr>"
definition count_resumed :: "recon_stats \<Rightarrow> recon_stats" where
  "count_resumed st = st\<lparr>rs_invoices_resumed := rs_invoices_resumed st + 1\<rparr>"
definition count_waiting :: "recon_stats \<Rightarrow> recon_stats" where
  "count_waiting st = st\<lparr>rs_invoices_waiting := rs_invoices_waiting st + 1\<rparr>"
definition count_final :: "recon_stats \<Rightarrow> recon_stats" where
  "count_final st = st\<lparr>rs_invoices_final := rs_invoices_final st + 1\<rparr>"
definition count_manual :: "recon_stats \<Rightarrow> recon_stats" where
  "count_manual st = st\<lparr>rs_manual_review := rs_manual_review st + 1\<rparr>"
definition count_error :: "recon_stats \<Rightarrow> recon_stats" where
  "count_error st = st\<lparr>rs_errors := rs_errors st + 1\<rparr>"

lemmas count_defs = count_event_claimed_def count_event_final_def count_event_retryable_def count_claimed_def
  count_resumed_def count_waiting_def count_final_def count_manual_def count_error_def no_recon_stats_def

text \<open>A loop over keys that an exception ends.\<close>

fun for_each :: "('k \<Rightarrow> recon_stats \<Rightarrow> db \<Rightarrow> progress) \<Rightarrow> 'k list \<Rightarrow> recon_stats \<Rightarrow> db \<Rightarrow> progress" where
  "for_each f [] st d = (Inr st, d)"
| "for_each f (k # ks) st d = (case f k st d of (Inl x, d') \<Rightarrow> (Inl x, d') | (Inr st', d') \<Rightarrow> for_each f ks st' d')"

section \<open>Exhausted events\<close>

definition msg_recon_exhausted :: string where
  "msg_recon_exhausted = ''The limit of automatic YooKassa reconciliation is exhausted.''"

definition lookup_payment_id :: "webhook_event \<Rightarrow> string" where
  "lookup_payment_id w =
     (if wh_payment_id w = [] \<and> take 8 (wh_type w) = ''payment.'' then wh_object w else wh_payment_id w)"

definition event_invoice :: "webhook_event \<Rightarrow> db \<Rightarrow> invoice option" where
  "event_invoice w d =
     (case wh_invoice w of
        Some k \<Rightarrow> get_invoice k d
      | None \<Rightarrow> if lookup_payment_id w = [] then None
                else find (\<lambda>i. iv_payment_id i = lookup_payment_id w) (d_invoices d))"

definition compatible_statuses :: "string \<Rightarrow> inv_status list" where
  "compatible_statuses event =
     (if event = ''payment.succeeded'' then [Paid, Partially_Refunded, Refunded]
      else if event = ''payment.canceled'' then [Failed]
      else if event = ''refund.succeeded'' then [Partially_Refunded, Refunded]
      else [])"

definition exhausted_row :: "env \<Rightarrow> invoice option \<Rightarrow> webhook_event \<Rightarrow> webhook_event" where
  "exhausted_row e i w =
     w\<lparr>wh_invoice := map_option iv_pk i, wh_tenant := map_option (\<lambda>i. in_tenant (iv_intent i)) i,
       wh_decision := D_Manual_Review, wh_reason := msg_recon_exhausted, wh_token := None, wh_started := None,
       wh_next_recon := None, wh_processed := Some (now e)\<rparr>"

text \<open>One transaction: \<open>Some\<close> whether an invoice was marked, or \<open>None\<close> when a new delivery took the row.\<close>

definition finalize_exhausted_event :: "env \<Rightarrow> nat \<Rightarrow> db \<Rightarrow> err + bool option \<times> db" where
  "finalize_exhausted_event e webhook_event_id d =
     (case get_webhook webhook_event_id d of
        None \<Rightarrow> Inl DoesNotExist
      | Some w \<Rightarrow>
          (if is_final w then Inr (Some False, d)
           else if wh_recon_attempts w < recon_max_attempts e \<or> webhook_busy e w then Inr (None, d)
           else
             (let i = event_invoice w d;
                  mark = (case i of None \<Rightarrow> False | Some i \<Rightarrow> iv_status i \<notin> set (compatible_statuses (wh_type w)))
              in bind_ok
                   (case i of
                      Some i \<Rightarrow> if mark then mark_invoice_manual_review_locked i msg_recon_exhausted
                                   (wh_type w = ''refund.succeeded'') d else Inr d
                    | None \<Rightarrow> Inr d)
                   (\<lambda>d1. Inr (Some mark, put_webhook (exhausted_row e i w) d1)))))"

section \<open>Events\<close>

definition event_candidate :: "env \<Rightarrow> bool \<Rightarrow> webhook_event \<Rightarrow> bool" where
  "event_candidate e force w \<longleftrightarrow>
     (wh_decision w = D_Error \<or>
      (wh_decision w = D_Received \<and>
         (case wh_started w of None \<Rightarrow> True | Some s \<Rightarrow> s < now e - secs (webhook_timeout e)))) \<and>
     (force \<or> (case wh_next_recon w of None \<Rightarrow> True | Some n \<Rightarrow> n \<le> now e))"

definition event_candidate_ids :: "env \<Rightarrow> nat \<Rightarrow> nat list option \<Rightarrow> bool \<Rightarrow> db \<Rightarrow> nat list" where
  "event_candidate_ids e limit event_ids force d =
     take limit (map wh_pk (filter
       (\<lambda>w. case event_ids of Some ids \<Rightarrow> wh_pk w \<in> set ids | None \<Rightarrow> event_candidate e force w)
       (d_webhooks d)))"

definition reconcile_event :: "env \<Rightarrow> gateway \<Rightarrow> bool \<Rightarrow> nat \<Rightarrow> recon_stats \<Rightarrow> db \<Rightarrow> progress" where
  "reconcile_event e gw force event_id st d =
     (case claim_webhook_event_for_reconciliation e force event_id d of
        Inl _ \<Rightarrow> (Inr st, d)
      | Inr ((w, token, claim_state), d1) \<Rightarrow>
          (if claim_state = Exhausted then
             (case finalize_exhausted_event e (wh_pk w) d1 of
                Inl x \<Rightarrow> if x = DoesNotExist then (Inr st, d1) else (Inl x, d1)
              | Inr (None, d2) \<Rightarrow> (Inr st, d2)
              | Inr (Some marked, d2) \<Rightarrow> (Inr (count_event_final (if marked then count_manual st else st)), d2))
           else if claim_state = Final then (Inr (count_event_final st), d1)
           else case token of
             None \<Rightarrow> (Inr st, d1)
           | Some t \<Rightarrow>
               (if claim_state \<noteq> Claimed then (Inr st, d1)
                else case process_claimed_yookassa_event e gw (wh_pk w) t d1 of
                  (Inl _, d2) \<Rightarrow> (Inr (count_error (count_event_claimed st)), d2)
                | (Inr r, d2) \<Rightarrow>
                    (Inr (if pr_acknowledged r then count_event_final (count_event_claimed st)
                          else count_event_retryable (count_event_claimed st)), d2))))"

definition reconcile_events ::
    "env \<Rightarrow> gateway \<Rightarrow> nat \<Rightarrow> nat list option \<Rightarrow> bool \<Rightarrow> recon_stats \<Rightarrow> db \<Rightarrow> progress" where
  "reconcile_events e gw limit event_ids force st d =
     for_each (reconcile_event e gw force) (event_candidate_ids e limit event_ids force d) st d"

section \<open>Invoices\<close>

definition invoice_candidate :: "env \<Rightarrow> bool \<Rightarrow> invoice \<Rightarrow> bool" where
  "invoice_candidate e force i \<longleftrightarrow>
     iv_status i = Pending \<and>
     (iv_state i \<in> {Ck_Intent_Created, Ck_Provider_Pending, Ck_Provider_Created} \<or>
      (iv_state i = Ck_Legacy \<and> iv_payment_id i \<noteq> [])) \<and>
     (force \<or> (case iv_next_recon i of None \<Rightarrow> True | Some n \<Rightarrow> n \<le> now e))"

definition targeted_invoice :: "bool \<Rightarrow> invoice \<Rightarrow> bool" where
  "targeted_invoice force i \<longleftrightarrow>
     iv_status i = Pending \<or>
     (force \<and> iv_status i = Manual_Review \<and> iv_paid_at i = None \<and> \<not> iv_refund_review i)"

definition invoice_candidate_ids :: "env \<Rightarrow> nat \<Rightarrow> nat list option \<Rightarrow> bool \<Rightarrow> db \<Rightarrow> nat list" where
  "invoice_candidate_ids e limit invoice_ids force d =
     take limit (map iv_pk (filter
       (\<lambda>i. case invoice_ids of Some ids \<Rightarrow> iv_pk i \<in> set ids \<and> targeted_invoice force i | None \<Rightarrow> invoice_candidate e force i)
       (d_invoices d)))"

definition msg_poll_exhausted :: string where
  "msg_poll_exhausted = ''The limit of automatic reconciliation of the YooKassa payment state is exhausted.''"

definition polled_row :: "env \<Rightarrow> bool \<Rightarrow> invoice \<Rightarrow> invoice" where
  "polled_row e recovering i =
     (if recovering then i\<lparr>iv_last_recon := Some (now e), iv_next_recon := None\<rparr>
      else i\<lparr>iv_last_recon := Some (now e), iv_recon_attempts := iv_recon_attempts i + 1,
             iv_next_recon := Some (now e + secs (reconciliation_delay_seconds e (iv_recon_attempts i + 1)))\<rparr>)"

datatype poll_state = Poll_Final | Poll_No_Payment | Poll_Not_Due | Poll_Exhausted | Poll_Claimed

definition claim_provider_invoice :: "env \<Rightarrow> bool \<Rightarrow> nat \<Rightarrow> db \<Rightarrow> err + (invoice \<times> poll_state) \<times> db" where
  "claim_provider_invoice e force invoice_id d =
     (case get_invoice invoice_id d of
        None \<Rightarrow> Inl DoesNotExist
      | Some i \<Rightarrow>
          (let recovering = force \<and> is_unsettled_checkout_manual i in
           if iv_status i \<noteq> Pending \<and> \<not> recovering then Inr ((i, Poll_Final), d)
           else if iv_payment_id i = [] then Inr ((i, Poll_No_Payment), d)
           else if \<not> force \<and> (case iv_next_recon i of None \<Rightarrow> False | Some n \<Rightarrow> n > now e) then Inr ((i, Poll_Not_Due), d)
           else if iv_recon_attempts i \<ge> recon_max_attempts e \<and> \<not> recovering
             then bind_ok (mark_invoice_manual_review_locked i msg_poll_exhausted False d)
                    (\<lambda>d'. Inr ((manual_row msg_poll_exhausted False i, Poll_Exhausted), d'))
           else bind_ok (save_invoice (polled_row e recovering i) d)
                  (\<lambda>d'. Inr ((polled_row e recovering i, Poll_Claimed), d'))))"

definition record_invoice_poll_error :: "nat \<Rightarrow> string \<Rightarrow> db \<Rightarrow> err + db" where
  "record_invoice_poll_error invoice_id message d =
     (case get_invoice invoice_id d of
        None \<Rightarrow> Inl DoesNotExist
      | Some i \<Rightarrow>
          (if iv_status i \<noteq> Pending \<and> \<not> is_unsettled_checkout_manual i then Inr d
           else save_invoice (i\<lparr>iv_error := take 500 message\<rparr>) d))"

definition msg_poll_failed :: "err \<Rightarrow> string" where
  "msg_poll_failed x = ''Could not reconcile the YooKassa payment: '' @ err_name x @ ''.''"
definition msg_poll_unexpected :: "err \<Rightarrow> string" where
  "msg_poll_unexpected x = ''Unexpected error reconciling YooKassa: '' @ err_name x @ ''.''"
definition msg_poll_differs :: "invoice \<Rightarrow> payment_snapshot \<Rightarrow> string" where
  "msg_poll_differs i p =
     ''Reconciliation found an amount or currency that differs: expected '' @ str_cents (in_amount (iv_intent i)) @ '' '' @
     in_currency (iv_intent i) @ '', received '' @ str_cents (ps_amount p) @ '' '' @ ps_currency p @ ''.''"
definition msg_poll_test :: string where "msg_poll_test = ''A YooKassa test payment cannot activate an entitlement.''"
definition msg_poll_waiting :: "string \<Rightarrow> string" where
  "msg_poll_waiting status = ''The YooKassa payment is still in status '' @ status @ ''.''"
definition msg_event_final :: string where
  "msg_event_final = ''The authoritative YooKassa event is final but the invoice is still pending.''"
definition msg_event_done :: string where
  "msg_event_done = ''The authoritative event was processed but the invoice is still pending.''"

text \<open>Steps of the poll: note an error, or put the invoice under review, and count.\<close>

definition note_poll :: "nat \<Rightarrow> string \<Rightarrow> recon_stats \<Rightarrow> db \<Rightarrow> progress" where
  "note_poll k message st d = (case record_invoice_poll_error k message d of Inl x \<Rightarrow> (Inl x, d) | Inr d' \<Rightarrow> (Inr st, d'))"

definition review_poll :: "nat \<Rightarrow> string \<Rightarrow> recon_stats \<Rightarrow> db \<Rightarrow> progress" where
  "review_poll k reason st d =
     (case mark_invoice_manual_review k reason False d of
        Inl x \<Rightarrow> (Inl x, d)
      | Inr (_, d') \<Rightarrow> (Inr (count_manual st), d'))"

definition close_poll :: "nat \<Rightarrow> string \<Rightarrow> recon_stats \<Rightarrow> db \<Rightarrow> progress" where
  "close_poll k reason st d =
     (case get_invoice k d of
        None \<Rightarrow> (Inl DoesNotExist, d)
      | Some i \<Rightarrow> if iv_status i = Pending then review_poll k reason st d else (Inr (count_final st), d))"

text \<open>An unpaid checkout under manual review, on an explicit request of an operator.\<close>

definition recover_manual :: "env \<Rightarrow> nat \<Rightarrow> payment_snapshot \<Rightarrow> recon_stats \<Rightarrow> db \<Rightarrow> progress" where
  "recover_manual e k p st d =
     (case (if ps_status p = ''succeeded''
            then handle_payment_success_webhook e k (ps_id p) (str_cents (ps_amount p)) (ps_currency p) d
            else if ps_status p = ''canceled'' then handle_payment_failed_webhook k (ps_id p) d
            else Inr (False, d)) of
        Inl x \<Rightarrow> (Inl x, d)
      | Inr (resolved, d') \<Rightarrow> (Inr (if resolved then count_final st else count_manual st), d'))"

definition poll_as_event :: "env \<Rightarrow> gateway \<Rightarrow> nat \<Rightarrow> payment_snapshot \<Rightarrow> recon_stats \<Rightarrow> db \<Rightarrow> progress" where
  "poll_as_event e gw k p st d =
     (case claim_webhook_event e (''payment.'' @ ps_status p) (ps_id p) d of
        ((w, token, claim_state), d1) \<Rightarrow>
          (if claim_state = Final then close_poll k msg_event_final st d1
           else case token of
             None \<Rightarrow> (Inr (count_waiting st), d1)
           | Some t \<Rightarrow>
               (if claim_state = Busy then (Inr (count_waiting st), d1)
                else case process_claimed_yookassa_event e gw (wh_pk w) t d1 of
                  (Inl x, d2) \<Rightarrow> (Inl x, d2)
                | (Inr r, d2) \<Rightarrow>
                    (if \<not> pr_acknowledged r then (Inr (count_waiting st), d2)
                     else close_poll k msg_event_done st d2))))"

definition process_payment_state :: "env \<Rightarrow> gateway \<Rightarrow> invoice \<Rightarrow> recon_stats \<Rightarrow> db \<Rightarrow> progress" where
  "process_payment_state e gw i st d =
     (case fetch_payment e gw (iv_payment_id i) of
        Inl x \<Rightarrow>
          (if x = YooKassaAPIError \<or> x = YooKassaSnapshotError
           then note_poll (iv_pk i) (msg_poll_failed x) (count_waiting st) d
           else note_poll (iv_pk i) (msg_poll_unexpected x) (count_error st) d)
      | Inr p \<Rightarrow>
          (if ps_amount p \<noteq> in_amount (iv_intent i) \<or> ps_currency p \<noteq> in_currency (iv_intent i)
           then review_poll (iv_pk i) (msg_poll_differs i p) st d
           else if ps_test p \<and> \<not> allow_test_payments e then review_poll (iv_pk i) msg_poll_test st d
           else if ps_status p \<in> set transient_payment_statuses
           then note_poll (iv_pk i) (msg_poll_waiting (ps_status p)) (count_waiting st) d
           else if is_unsettled_checkout_manual i then recover_manual e (iv_pk i) p st d
           else poll_as_event e gw (iv_pk i) p st d))"

definition resume_counted :: "env \<Rightarrow> gateway \<Rightarrow> bool \<Rightarrow> nat \<Rightarrow> recon_stats \<Rightarrow> db \<Rightarrow> progress" where
  "resume_counted e gw force k st d =
     (case resume_checkout_intent e gw k (\<not> force) d of
        (Inr _, d') \<Rightarrow> (Inr (count_resumed st), d')
      | (Inl x, d') \<Rightarrow>
          (Inr (case x of CheckoutPending _ _ \<Rightarrow> count_waiting st | CheckoutManualReview _ _ \<Rightarrow> count_manual st
             | CheckoutTerminal _ _ \<Rightarrow> count_final st | _ \<Rightarrow> count_error st), d'))"

definition reconcile_invoice :: "env \<Rightarrow> gateway \<Rightarrow> bool \<Rightarrow> nat \<Rightarrow> recon_stats \<Rightarrow> db \<Rightarrow> progress" where
  "reconcile_invoice e gw force invoice_id st d =
     (case get_invoice invoice_id d of
        None \<Rightarrow> (Inr st, d)
      | Some i \<Rightarrow>
          (if iv_status i \<noteq> Pending \<and> \<not> (force \<and> is_unsettled_checkout_manual i) then (Inr (count_final st), d)
           else if iv_payment_id i = [] then resume_counted e gw force invoice_id st d
           else case claim_provider_invoice e force invoice_id d of
             Inl x \<Rightarrow> if x = DoesNotExist then (Inr st, d) else (Inl x, d)
           | Inr ((i', state), d') \<Rightarrow>
               (case state of
                  Poll_Final \<Rightarrow> (Inr (count_final st), d')
                | Poll_Exhausted \<Rightarrow> (Inr (count_manual st), d')
                | Poll_Claimed \<Rightarrow> process_payment_state e gw i' (count_claimed st) d'
                | _ \<Rightarrow> (Inr st, d'))))"

definition reconcile_invoices ::
    "env \<Rightarrow> gateway \<Rightarrow> nat \<Rightarrow> nat list option \<Rightarrow> bool \<Rightarrow> recon_stats \<Rightarrow> db \<Rightarrow> progress" where
  "reconcile_invoices e gw limit invoice_ids force st d =
     for_each (reconcile_invoice e gw force) (invoice_candidate_ids e limit invoice_ids force d) st d"

text \<open>\<open>limit or YOOKASSA_RECONCILIATION_BATCH_SIZE\<close>, at least 1 and at most 1000.\<close>

definition recon_limit :: "env \<Rightarrow> int option \<Rightarrow> nat" where
  "recon_limit e limit =
     (let n = (case limit of None \<Rightarrow> recon_batch e | Some n \<Rightarrow> if n = 0 then recon_batch e else n)
      in nat (min (max 1 n) 1000))"

definition reconcile_yookassa_billing ::
    "env \<Rightarrow> gateway \<Rightarrow> int option \<Rightarrow> bool \<Rightarrow> nat list option \<Rightarrow> nat list option \<Rightarrow> db \<Rightarrow> progress" where
  "reconcile_yookassa_billing e gw limit force event_ids invoice_ids d =
     (if \<not> billing_enabled e then (Inr no_recon_stats, d)
      else case reconcile_events e gw (recon_limit e limit) event_ids force no_recon_stats d of
        (Inl x, d') \<Rightarrow> (Inl x, d')
      | (Inr st, d') \<Rightarrow> reconcile_invoices e gw (recon_limit e limit) invoice_ids force st d')"

section \<open>Bounded retries\<close>



section \<open>Retries of an event come to an end\<close>

lemma put_webhook_invoices [simp]: "d_invoices (put_webhook w d) = d_invoices d"
  by (simp add: put_webhook_def)

lemma invoices_ok_business: "business_step d d' \<Longrightarrow> invoices_ok d \<Longrightarrow> invoices_ok d'"
  by (simp add: business_step_def invoice_step_def)

lemma invoices_ok_put_webhook [simp]: "invoices_ok (put_webhook w d) = invoices_ok d"
  by (rule invoices_ok_same) simp

lemma mem_gets_invoice: "invoices_ok d \<Longrightarrow> i \<in> set (d_invoices d) \<Longrightarrow> get_invoice (iv_pk i) d = Some i"
  by (simp add: invoices_ok_def get_invoice_def row_get_distinct_iff)

lemma event_invoice_found:
  assumes "event_invoice w d = Some i" "invoices_ok d" shows "get_invoice (iv_pk i) d = Some i"
proof -
  have "i \<in> set (d_invoices d)"
    using assms(1) get_invoice_mem [of _ d i]
    by (auto simp: event_invoice_def find_Some_iff split: option.splits if_splits)
  then show ?thesis by (rule mem_gets_invoice [OF assms(2)])
qed

lemma mark_locked_total:
  assumes "invoices_ok d" "get_invoice (iv_pk i) d = Some i"
  shows "\<exists>d'. mark_invoice_manual_review_locked i r f d = Inr d'"
  using manual_row_saves [OF assms] by (simp add: mark_invoice_manual_review_locked_def)

definition recon_due :: "env \<Rightarrow> webhook_event \<Rightarrow> bool" where
  "recon_due e w \<longleftrightarrow> (case wh_next_recon w of None \<Rightarrow> True | Some n \<Rightarrow> n \<le> now e)"

text \<open>One reconciliation of an open event that is due: a final decision, or one more attempt noted and
  the next one scheduled.\<close>

lemma reconcile_event_progress:
  assumes "get_webhook k d = Some w" "\<not> is_final w" "\<not> webhook_busy e w" "force \<or> recon_due e w" "invoices_ok d"
  obtains (closed) st' w' d' where "reconcile_event e gw force k st d = (Inr st', d')" "get_webhook k d' = Some w'"
      "is_final w'" "invoices_ok d'"
  | (retried) st' w' d' where "reconcile_event e gw force k st d = (Inr st', d')" "get_webhook k d' = Some w'"
      "\<not> is_final w'" "wh_token w' = None" "wh_recon_attempts w' = wh_recon_attempts w + 1"
      "wh_recon_attempts w < recon_max_attempts e" "invoices_ok d'"
      "wh_next_recon w' = Some (now e + secs (reconciliation_delay_seconds e (wh_recon_attempts w + 1)))"
proof -
  have pk: "wh_pk w = k" by (rule get_webhook_pk [OF assms(1)])
  have due: "\<not> (\<not> force \<and> (case wh_next_recon w of None \<Rightarrow> False | Some n \<Rightarrow> n > now e))"
    using assms(4) by (auto simp: recon_due_def split: option.splits)
  show thesis
  proof (cases "wh_recon_attempts w \<ge> recon_max_attempts e")
    case True
    let ?i = "event_invoice w d"
    let ?mark = "case ?i of None \<Rightarrow> False | Some i \<Rightarrow> iv_status i \<notin> set (compatible_statuses (wh_type w))"
    have claim: "claim_webhook_event_for_reconciliation e force k d = Inr ((w, None, Exhausted), d)"
      using assms(1-3) due True by (simp add: claim_webhook_event_for_reconciliation_def)
    obtain d1 where d1: "(case ?i of Some i \<Rightarrow> if ?mark then mark_invoice_manual_review_locked i msg_recon_exhausted
        (wh_type w = ''refund.succeeded'') d else Inr d | None \<Rightarrow> Inr d) = Inr d1"
    proof (cases ?i)
      case None
      then show thesis using that by simp
    next
      case (Some i)
      then show thesis
        using that mark_locked_total [OF assms(5) event_invoice_found [OF Some assms(5)]] by (cases ?mark) auto
    qed
    have b: "business_step d d1"
      using d1 by (auto split: option.splits if_splits intro: business_mark_locked)
    have "finalize_exhausted_event e k d = Inr (Some ?mark, put_webhook (exhausted_row e ?i w) d1)"
      using assms(1-3) True d1 by (simp add: finalize_exhausted_event_def Let_def)
    then have "reconcile_event e gw force k st d =
        (Inr (count_event_final (if ?mark then count_manual st else st)), put_webhook (exhausted_row e ?i w) d1)"
      by (simp add: reconcile_event_def claim pk)
    moreover have "get_webhook k (put_webhook (exhausted_row e ?i w) d1) = Some (exhausted_row e ?i w)"
      using assms(1) business_webhook [OF b] pk by (simp add: get_put_webhook exhausted_row_def)
    moreover have "is_final (exhausted_row e ?i w)" by (simp add: exhausted_row_def is_final_def)
    ultimately show thesis using closed invoices_ok_business [OF b assms(5)] by simp
  next
    case False
    let ?w = "recheck_row e (d_uuid d) w"
    let ?d = "put_webhook ?w (d\<lparr>d_uuid := Suc (d_uuid d)\<rparr>)"
    have claim: "claim_webhook_event_for_reconciliation e force k d = Inr ((?w, Some (d_uuid d), Claimed), ?d)"
      using assms(1-3) due False by (simp add: claim_webhook_event_for_reconciliation_def fresh_uuid_def Let_def)
    have g: "get_webhook k ?d = Some ?w" using assms(1) pk by (simp add: get_put_webhook)
    have "closes e ?w ?d (process_claimed_yookassa_event e gw k (d_uuid d) ?d)"
      by (rule process_closes [OF g]) simp_all
    then obtain c rc d1 where p: "process_claimed_yookassa_event e gw k (d_uuid d) ?d =
        (Inr (final_result (cl_decision c) rc), put_webhook (closed_row e c ?w) d1)" "business_step ?d d1"
        "cl_decision c = D_Error \<or> cl_decision c \<in> set final_webhook_decisions"
      unfolding closes_def by blast
    let ?d' = "put_webhook (closed_row e c ?w) d1"
    have "\<exists>st'. reconcile_event e gw force k st d = (Inr st', ?d')"
      by (simp add: reconcile_event_def claim pk p(1))
    then obtain st' where r: "reconcile_event e gw force k st d = (Inr st', ?d')" by blast
    have g': "get_webhook k ?d' = Some (closed_row e c ?w)"
      using g business_webhook [OF p(2)] pk by (simp add: get_put_webhook)
    have ok: "invoices_ok ?d'"
      using invoices_ok_business [OF p(2)] assms(5) invoices_ok_same [of ?d d] by simp
    show thesis
    proof (cases "cl_decision c = D_Error")
      case True
      then have "\<not> is_final (closed_row e c ?w)"
        "wh_next_recon (closed_row e c ?w) = Some (now e + secs (reconciliation_delay_seconds e (wh_recon_attempts w + 1)))"
        by (simp_all add: is_final_def closed_row_def recheck_row_def)
      then show thesis using retried [OF r g'] False ok by simp
    next
      case False
      then have "is_final (closed_row e c ?w)" using p(3) by (simp add: is_final_def)
      then show thesis using closed [OF r g'] ok by simp
    qed
  qed
qed















section \<open>Every claim is accounted for\<close>

definition event_outcomes :: "recon_stats \<Rightarrow> nat" where
  "event_outcomes st = rs_events_final st + rs_events_retryable st"

definition invoice_outcomes :: "recon_stats \<Rightarrow> nat" where
  "invoice_outcomes st = rs_invoices_resumed st + rs_invoices_waiting st + rs_invoices_final st + rs_manual_review st + rs_errors st"

text \<open>What one candidate adds to the counters.\<close>

definition event_adds :: "recon_stats \<Rightarrow> recon_stats \<Rightarrow> bool" where
  "event_adds st st' \<longleftrightarrow> rs_invoices_claimed st' = rs_invoices_claimed st \<and>
     rs_invoices_resumed st' + rs_invoices_waiting st' + rs_invoices_final st' =
       rs_invoices_resumed st + rs_invoices_waiting st + rs_invoices_final st \<and>
     rs_events_claimed st \<le> rs_events_claimed st' \<and>
     rs_events_claimed st' + event_outcomes st + rs_errors st \<le> rs_events_claimed st + event_outcomes st' + rs_errors st' \<and>
     event_outcomes st' + rs_errors st' \<le> event_outcomes st + rs_errors st + 1 \<and>
     rs_manual_review st' + event_outcomes st \<le> rs_manual_review st + event_outcomes st'"

definition invoice_adds :: "recon_stats \<Rightarrow> recon_stats \<Rightarrow> bool" where
  "invoice_adds st st' \<longleftrightarrow> rs_events_claimed st' = rs_events_claimed st \<and> event_outcomes st' = event_outcomes st \<and>
     rs_errors st \<le> rs_errors st' \<and> rs_manual_review st \<le> rs_manual_review st' \<and>
     rs_invoices_claimed st' + invoice_outcomes st \<le> rs_invoices_claimed st + invoice_outcomes st' \<and>
     invoice_outcomes st' \<le> invoice_outcomes st + 1"

lemmas outcome_defs = event_outcomes_def invoice_outcomes_def event_adds_def invoice_adds_def count_defs

lemma event_adds_one: "fst (reconcile_event e gw force k st d) = Inr st' \<Longrightarrow> event_adds st st'"
  by (auto simp: reconcile_event_def outcome_defs split: sum.splits option.splits if_splits prod.splits)

lemma note_poll_stats: "fst (note_poll k m st d) = Inr st' \<Longrightarrow> st' = st"
  by (auto simp: note_poll_def split: sum.splits)

lemma review_poll_stats: "fst (review_poll k m st d) = Inr st' \<Longrightarrow> st' = count_manual st"
  by (auto simp: review_poll_def split: sum.splits)

lemma close_poll_stats: "fst (close_poll k m st d) = Inr st' \<Longrightarrow> st' = count_manual st \<or> st' = count_final st"
  by (auto simp: close_poll_def dest: review_poll_stats split: option.splits if_splits)

lemma recover_manual_stats: "fst (recover_manual e k p st d) = Inr st' \<Longrightarrow> st' = count_manual st \<or> st' = count_final st"
  by (auto simp: recover_manual_def split: sum.splits if_splits)

lemma poll_as_event_stats:
  "fst (poll_as_event e gw k p st d) = Inr st' \<Longrightarrow> st' \<in> {count_manual st, count_final st, count_waiting st}"
  by (auto simp: poll_as_event_def dest: close_poll_stats split: sum.splits option.splits if_splits prod.splits)

lemma process_payment_stats:
  "fst (process_payment_state e gw i st d) = Inr st' \<Longrightarrow>
     st' \<in> {count_manual st, count_final st, count_waiting st, count_error st}"
  by (auto simp: process_payment_state_def split: sum.splits if_splits
      dest: note_poll_stats review_poll_stats recover_manual_stats poll_as_event_stats)

lemma resume_counted_stats:
  "fst (resume_counted e gw force k st d) = Inr st' \<Longrightarrow>
     st' \<in> {count_resumed st, count_waiting st, count_manual st, count_final st, count_error st}"
  by (auto simp: resume_counted_def split: sum.splits prod.splits err.splits)

lemma invoice_adds_one:
  assumes "fst (reconcile_invoice e gw force k st d) = Inr st'" shows "invoice_adds st st'"
proof (cases "\<exists>d1 i. fst (process_payment_state e gw i (count_claimed st) d1) = Inr st'")
  case True
  then have "st' \<in> {count_manual (count_claimed st), count_final (count_claimed st), count_waiting (count_claimed st),
      count_error (count_claimed st)}"
    using process_payment_stats by blast
  then show ?thesis by (auto simp: outcome_defs)
next
  case False
  then have "st' = st \<or> st' \<in> {count_resumed st, count_waiting st, count_manual st, count_final st, count_error st}"
    using assms resume_counted_stats [of e gw force k st d]
    by (auto simp: reconcile_invoice_def split: option.splits sum.splits if_splits prod.splits poll_state.splits)
  then show ?thesis by (auto simp: outcome_defs)
qed

lemma for_each_adds:
  assumes "fst (for_each f ks st d) = Inr st'" "\<And>k st d st'. fst (f k st d) = Inr st' \<Longrightarrow> Q st st'"
    "\<And>st. R 0 st st" "\<And>n st st1 st'. Q st st1 \<Longrightarrow> R n st1 st' \<Longrightarrow> R (Suc n) st st'"
  shows "R (length ks) st st'"
  using assms(1)
proof (induction ks arbitrary: st d)
  case Nil
  then show ?case using assms(3) by simp
next
  case (Cons k ks)
  obtain r d1 where r: "f k st d = (r, d1)" by (cases "f k st d")
  then obtain st1 where st1: "r = Inr st1" "fst (for_each f ks st1 d1) = Inr st'"
    using Cons.prems by (cases r) auto
  have "Q st st1" using assms(2) [of k st d] r st1(1) by simp
  then show ?case using Cons.IH [OF st1(2)] assms(4) by simp
qed

definition events_bound :: "nat \<Rightarrow> recon_stats \<Rightarrow> recon_stats \<Rightarrow> bool" where
  "events_bound n st st' \<longleftrightarrow> rs_invoices_claimed st' = rs_invoices_claimed st \<and>
     rs_invoices_resumed st' + rs_invoices_waiting st' + rs_invoices_final st' =
       rs_invoices_resumed st + rs_invoices_waiting st + rs_invoices_final st \<and>
     rs_events_claimed st' + event_outcomes st + rs_errors st \<le> rs_events_claimed st + event_outcomes st' + rs_errors st' \<and>
     event_outcomes st' + rs_errors st' \<le> event_outcomes st + rs_errors st + n"

definition invoices_bound :: "nat \<Rightarrow> recon_stats \<Rightarrow> recon_stats \<Rightarrow> bool" where
  "invoices_bound n st st' \<longleftrightarrow> rs_events_claimed st' = rs_events_claimed st \<and> event_outcomes st' = event_outcomes st \<and>
     rs_errors st \<le> rs_errors st' \<and> rs_manual_review st \<le> rs_manual_review st' \<and>
     rs_invoices_claimed st' + invoice_outcomes st \<le> rs_invoices_claimed st + invoice_outcomes st' \<and>
     invoice_outcomes st' \<le> invoice_outcomes st + n"

lemma events_add:
  "fst (for_each (reconcile_event e gw force) ks st d) = Inr st' \<Longrightarrow> events_bound (length ks) st st'"
  by (erule for_each_adds [OF _ event_adds_one]) (auto simp: events_bound_def event_adds_def)

lemma invoices_add:
  "fst (for_each (reconcile_invoice e gw force) ks st d) = Inr st' \<Longrightarrow> invoices_bound (length ks) st st'"
  by (erule for_each_adds [OF _ invoice_adds_one]) (auto simp: invoices_bound_def invoice_adds_def)

text \<open>The report of a run accounts for its work, and the work is bounded: at most 1000 events and
  1000 invoices are taken up, every claimed event ended as final, retryable or an error, and every
  candidate is counted at most once among the outcomes.\<close>

theorem reconciliation_report_accounts:
  assumes "reconcile_yookassa_billing e gw limit force event_ids invoice_ids d = (Inr st, d')"
  shows "recon_limit e limit \<le> 1000 \<and> 1 \<le> recon_limit e limit \<and>
     rs_events_claimed st \<le> event_outcomes st + rs_errors st \<and> rs_events_claimed st \<le> recon_limit e limit \<and>
     event_outcomes st \<le> recon_limit e limit \<and>
     rs_invoices_claimed st \<le> recon_limit e limit \<and>
     rs_invoices_resumed st + rs_invoices_waiting st + rs_invoices_final st \<le> recon_limit e limit"
proof -
  have lim: "recon_limit e limit \<le> 1000 \<and> 1 \<le> recon_limit e limit"
    by (auto simp: recon_limit_def Let_def)
  show ?thesis
  proof (cases "billing_enabled e")
    case False
    then show ?thesis using assms lim by (auto simp: reconcile_yookassa_billing_def no_recon_stats_def event_outcomes_def)
  next
    case True
    obtain r d1 where ev: "reconcile_events e gw (recon_limit e limit) event_ids force no_recon_stats d = (r, d1)"
      by (cases "reconcile_events e gw (recon_limit e limit) event_ids force no_recon_stats d")
    then obtain st1 where r: "r = Inr st1"
      and iv: "reconcile_invoices e gw (recon_limit e limit) invoice_ids force st1 d1 = (Inr st, d')"
      using assms True by (cases r) (auto simp: reconcile_yookassa_billing_def)
    have st1: "fst (for_each (reconcile_event e gw force) (event_candidate_ids e (recon_limit e limit) event_ids force d)
        no_recon_stats d) = Inr st1"
      and st: "fst (for_each (reconcile_invoice e gw force) (invoice_candidate_ids e (recon_limit e limit) invoice_ids force d1)
        st1 d1) = Inr st"
      using ev r iv by (simp_all add: reconcile_events_def reconcile_invoices_def)
    have len: "length (event_candidate_ids e (recon_limit e limit) event_ids force d) \<le> recon_limit e limit"
      "length (invoice_candidate_ids e (recon_limit e limit) invoice_ids force d1) \<le> recon_limit e limit"
      by (simp_all add: event_candidate_ids_def invoice_candidate_ids_def)
    show ?thesis
      using events_add [OF st1] invoices_add [OF st] len lim
      by (simp add: events_bound_def invoices_bound_def invoice_outcomes_def event_outcomes_def no_recon_stats_def)
  qed
qed

theorem reconciliation_report_accounts_witness:
  "\<exists>st d'. reconcile_yookassa_billing demo_env (demo_gateway []) None True (Some [9]) (Some [])
       (hook_db\<lparr>d_webhooks := [hook\<lparr>wh_token := None\<rparr>]\<rparr>) = (Inr st, d') \<and>
     rs_events_claimed st \<le> event_outcomes st + rs_errors st \<and> rs_events_claimed st \<le> 100"
proof -
  let ?d = "hook_db\<lparr>d_webhooks := [hook\<lparr>wh_token := None\<rparr>]\<rparr>"
  have g: "get_webhook 9 ?d = Some (hook\<lparr>wh_token := None\<rparr>)" by (simp add: get_webhook_def hook_sel)
  have op: "\<not> is_final (hook\<lparr>wh_token := None\<rparr>)" "\<not> webhook_busy demo_env (hook\<lparr>wh_token := None\<rparr>)"
    by (simp_all add: is_final_def hook_sel webhook_busy_def)
  have ok: "invoices_ok ?d" by (simp add: invoices_ok_def hook_rows)
  obtain st d' where r: "reconcile_event demo_env (demo_gateway []) True 9 no_recon_stats ?d = (Inr st, d')"
    by (rule reconcile_event_progress [OF g op _ ok, of True "demo_gateway []" no_recon_stats]) simp_all
  have "event_candidate_ids demo_env n (Some [9]) True ?d = take n [9]" for n
    by (simp add: event_candidate_ids_def hook_sel)
  moreover have lim: "recon_limit demo_env None = 100" by (simp add: recon_limit_def demo_env_def)
  moreover have "invoice_candidate_ids demo_env n (Some []) True d' = []" for n by (simp add: invoice_candidate_ids_def)
  moreover have "billing_enabled demo_env" by (simp add: demo_env_def)
  ultimately have run: "reconcile_yookassa_billing demo_env (demo_gateway []) None True (Some [9]) (Some []) ?d = (Inr st, d')"
    using r by (simp add: reconcile_yookassa_billing_def reconcile_events_def reconcile_invoices_def)
  show ?thesis using reconciliation_report_accounts [OF run] run lim by auto
qed

section \<open>Waiting invoices\<close>
























end
