(* ===== verification/Source_Address.thy ===== *)
theory Source_Address
  imports Decimals "HOL-Library.Word"
begin

text \<open>
  The source check of notifications (\<^verbatim>\<open>apps/billing/webhook.py\<close>): which hop of the forwarding chain
  counts, and whether its address lies in the published networks of the provider. The parsers are
  those of Python's \<open>ipaddress\<close> module on ASCII text; an address is a word of its width.
\<close>

unbundle bit_operations_syntax

section \<open>Texts\<close>

text \<open>\<open>s.split(c)\<close>.\<close>

fun split_on :: "char \<Rightarrow> string \<Rightarrow> string list" where
  "split_on c [] = [[]]"
| "split_on c (x # xs) =
     (if x = c then [] # split_on c xs
      else case split_on c xs of [] \<Rightarrow> [[x]] | p # ps \<Rightarrow> (x # p) # ps)"

definition hex_value :: "char \<Rightarrow> nat option" where
  "hex_value c = map_of (zip ''0123456789abcdefABCDEF'' ([0..<16] @ [10..<16])) c"

fun hex_text :: "nat \<Rightarrow> string" where
  "hex_text n = (if n < 16 then [''0123456789abcdef'' ! n] else hex_text (n div 16) @ [''0123456789abcdef'' ! (n mod 16)])"

declare hex_text.simps [simp del]

text \<open>Digits of a number to a base, most significant first.\<close>

definition of_digits :: "nat \<Rightarrow> nat list \<Rightarrow> nat" where
  "of_digits base ds = foldl (\<lambda>acc x. acc * base + x) 0 ds"

section \<open>IPv4\<close>

text \<open>One to three digits without a leading zero, at most 255.\<close>

definition ipv4_octet :: "string \<Rightarrow> nat option" where
  "ipv4_octet s =
     (if s = [] \<or> \<not> list_all is_digit s \<or> 3 < length s \<or> (s \<noteq> ''0'' \<and> hd s = CHR ''0'') then None
      else if 255 < digits_value s then None else Some (digits_value s))"

definition ipv4_value :: "string \<Rightarrow> nat option" where
  "ipv4_value s =
     (if length (split_on (CHR ''.'') s) \<noteq> 4 then None
      else map_option (of_digits 256) (those (map ipv4_octet (split_on (CHR ''.'') s))))"

section \<open>IPv6\<close>

definition hextet :: "string \<Rightarrow> nat option" where
  "hextet s =
     (if s = [] \<or> 4 < length s then None
      else map_option (of_digits 16) (those (map hex_value s)))"

text \<open>A dotted tail stands for two hextets.\<close>

definition ipv6_parts :: "string \<Rightarrow> string list option" where
  "ipv6_parts s =
     (let parts = split_on (CHR '':'') s in
      if length parts < 3 then None
      else if CHR ''.'' \<in> set (last parts) then
        (case ipv4_value (last parts) of
           None \<Rightarrow> None
         | Some v \<Rightarrow> Some (butlast parts @ [hex_text (v div 65536), hex_text (v mod 65536)]))
      else Some parts)"

definition ipv6_hextets :: "string list \<Rightarrow> nat list option" where
  "ipv6_hextets parts =
     (case filter (\<lambda>i. parts ! i = []) [1..<length parts - 1] of
        [] \<Rightarrow>
          (if length parts \<noteq> 8 \<or> hd parts = [] \<or> last parts = [] then None else those (map hextet parts))
      | [i] \<Rightarrow>
          (let hi = (if hd parts = [] then i - 1 else i);
               lo = (if last parts = [] then length parts - i - 2 else length parts - i - 1)
           in if (hd parts = [] \<and> hi \<noteq> 0) \<or> (last parts = [] \<and> lo \<noteq> 0) \<or> 8 \<le> hi + lo then None
              else map_option (\<lambda>(a, b). a @ replicate (8 - (hi + lo)) 0 @ b)
                (case (those (map hextet (take hi parts)), those (map hextet (drop (length parts - lo) parts))) of
                   (Some a, Some b) \<Rightarrow> Some (a, b) | _ \<Rightarrow> None))
      | _ \<Rightarrow> None)"

text \<open>A zone after a percent sign is cut off.\<close>

definition ipv6_value :: "string \<Rightarrow> nat option" where
  "ipv6_value s =
     (let parts = split_on (CHR ''%'') s in
      if CHR ''/'' \<in> set s \<or> 2 < length parts \<or> (length parts = 2 \<and> last parts = []) then None
      else case ipv6_parts (hd parts) of
        None \<Rightarrow> None
      | Some ps \<Rightarrow> if 9 < length ps then None else map_option (of_digits 65536) (ipv6_hextets ps))"

section \<open>Addresses and networks\<close>

datatype address = V4 "32 word" | V6 "128 word"

definition ip_address :: "string \<Rightarrow> address option" where
  "ip_address s =
     (case ipv4_value s of
        Some v \<Rightarrow> Some (V4 (of_nat v))
      | None \<Rightarrow> map_option (\<lambda>v. V6 (of_nat v)) (ipv6_value s))"

text \<open>A network is its first address and the number of free bits at the end.\<close>

type_synonym network = "address \<times> nat"

fun in_network :: "address \<Rightarrow> network \<Rightarrow> bool" where
  "in_network (V4 a) (V4 b, n) \<longleftrightarrow> a AND NOT (mask n) = b"
| "in_network (V6 a) (V6 b, n) \<longleftrightarrow> a AND NOT (mask n) = b"
| "in_network _ _ \<longleftrightarrow> False"

text \<open>\<open>YOOKASSA_IP_RANGES\<close>: address and prefix length.\<close>

definition yookassa_ip_ranges :: "(string \<times> nat) list" where
  "yookassa_ip_ranges =
     [(''185.71.76.0'', 27), (''185.71.77.0'', 27), (''77.75.153.0'', 25), (''77.75.154.128'', 25),
      (''77.75.156.11'', 32), (''77.75.156.35'', 32), (''2a02:5180::'', 32)]"

definition ip_network :: "string \<times> nat \<Rightarrow> network option" where
  "ip_network r =
     map_option (\<lambda>a. (a, (case a of V4 _ \<Rightarrow> 32 | V6 _ \<Rightarrow> 128) - snd r)) (ip_address (fst r))"

definition yookassa_networks :: "network list" where
  "yookassa_networks = List.map_filter ip_network yookassa_ip_ranges"

text \<open>The last hop of \<open>X-Forwarded-For\<close> if there is one, else the peer.\<close>

definition remote_ip :: "string \<Rightarrow> string \<Rightarrow> string" where
  "remote_ip forwarded_for remote_addr =
     (if forwarded_for = [] then remote_addr else strip (last (split_on (CHR '','') forwarded_for)))"

definition is_yookassa_ip :: "string \<Rightarrow> string \<Rightarrow> bool" where
  "is_yookassa_ip forwarded_for remote_addr =
     (case ip_address (remote_ip forwarded_for remote_addr) of
        None \<Rightarrow> False
      | Some a \<Rightarrow> list_ex (in_network a) yookassa_networks)"

lemmas address_defs = ipv4_value_def ipv4_octet_def of_digits_def is_digit_def digits_value_def digit_value_def
  ipv6_value_def ipv6_parts_def ipv6_hextets_def hextet_def hex_value_def Let_def upt_rec

lemma range_addresses:
  "ip_address ''185.71.76.0'' = Some (V4 3108457472)" "ip_address ''185.71.77.0'' = Some (V4 3108457728)"
  "ip_address ''77.75.153.0'' = Some (V4 1296800000)" "ip_address ''77.75.154.128'' = Some (V4 1296800384)"
  "ip_address ''77.75.156.11'' = Some (V4 1296800779)" "ip_address ''77.75.156.35'' = Some (V4 1296800803)"
  by (simp_all add: ip_address_def address_defs)

lemma range_address6: "ip_address ''2a02:5180::'' = Some (V6 55839613433066233928356509225412722688)"
proof -
  have "replicate 6 (0::nat) = [0, 0, 0, 0, 0, 0]" by (simp add: numeral_eq_Suc)
  then show ?thesis by (simp add: ip_address_def address_defs)
qed

section \<open>Networks are intervals\<close>

lemma and_not_mask: "a AND NOT (mask n) = push_bit n (drop_bit n a)" for a :: "'a::len word"
  by (rule bit_word_eqI) (auto simp: bit_simps)

lemma unat_and_not_mask: "unat (a AND NOT (mask n)) = unat a div 2 ^ n * 2 ^ n" for a :: "'a::len word"
proof -
  have "unat a div 2 ^ n * 2 ^ n \<le> unat a" by simp
  then have "unat a div 2 ^ n * 2 ^ n < 2 ^ LENGTH('a)" using unsigned_less [of a] by (rule le_less_trans)
  moreover have "unat (a AND NOT (mask n)) = take_bit LENGTH('a) (push_bit n (drop_bit n (unat a)))"
    unfolding and_not_mask unsigned_push_bit_eq unat_drop_bit_eq ..
  ultimately show ?thesis by (simp add: push_bit_eq_mult drop_bit_eq_div take_bit_eq_mod)
qed

lemma aligned_interval:
  assumes "m dvd c" "0 < (m::nat)" shows "x div m * m = c \<longleftrightarrow> c \<le> x \<and> x < c + m"
proof
  assume "x div m * m = c"
  then have "x = c + x mod m" by (metis div_mult_mod_eq)
  then show "c \<le> x \<and> x < c + m" using mod_less_divisor [OF assms(2), of x] by linarith
next
  assume b: "c \<le> x \<and> x < c + m"
  obtain q where q: "c = m * q" using assms(1) by (elim dvdE)
  have "x div m = q" using b q assms(2) by (intro div_nat_eqI) (simp_all add: mult.commute)
  then show "x div m * m = c" using q by (simp add: mult.commute)
qed

lemma network_interval:
  fixes a b :: "'a::len word"
  assumes "2 ^ n dvd unat b"
  shows "a AND NOT (mask n) = b \<longleftrightarrow> unat b \<le> unat a \<and> unat a < unat b + 2 ^ n"
proof -
  have "a AND NOT (mask n) = b \<longleftrightarrow> unat (a AND NOT (mask n)) = unat b" by (simp add: unsigned_word_eqI word_unat_eq_iff)
  then show ?thesis using aligned_interval [OF assms] by (simp add: unat_and_not_mask)
qed

lemma networks:
  "yookassa_networks = [(V4 3108457472, 5), (V4 3108457728, 5), (V4 1296800000, 7), (V4 1296800384, 7),
     (V4 1296800779, 0), (V4 1296800803, 0), (V6 55839613433066233928356509225412722688, 96)]"
  by (simp add: yookassa_networks_def yookassa_ip_ranges_def List.map_filter_simps ip_network_def range_addresses range_address6)

text \<open>The intervals of the published networks.\<close>

fun published :: "address \<Rightarrow> bool" where
  "published (V4 a) \<longleftrightarrow>
     3108457472 \<le> unat a \<and> unat a \<le> 3108457503 \<or> 3108457728 \<le> unat a \<and> unat a \<le> 3108457759 \<or>
     1296800000 \<le> unat a \<and> unat a \<le> 1296800127 \<or> 1296800384 \<le> unat a \<and> unat a \<le> 1296800511 \<or>
     unat a = 1296800779 \<or> unat a = 1296800803"
| "published (V6 a) \<longleftrightarrow> unat a div 2 ^ 96 = 704795008"

lemma v4_network:
  assumes "unat b = c" "2 ^ n dvd c" shows "in_network (V4 a) (V4 b, n) \<longleftrightarrow> c \<le> unat a \<and> unat a < c + 2 ^ n"
  using network_interval [of n b a] assms by simp

lemma v4_published: "list_ex (in_network (V4 a)) yookassa_networks \<longleftrightarrow> published (V4 a)"
proof -
  have "in_network (V4 a) (V4 3108457472, 5) \<longleftrightarrow> 3108457472 \<le> unat a \<and> unat a < 3108457472 + 2 ^ 5"
    "in_network (V4 a) (V4 3108457728, 5) \<longleftrightarrow> 3108457728 \<le> unat a \<and> unat a < 3108457728 + 2 ^ 5"
    "in_network (V4 a) (V4 1296800000, 7) \<longleftrightarrow> 1296800000 \<le> unat a \<and> unat a < 1296800000 + 2 ^ 7"
    "in_network (V4 a) (V4 1296800384, 7) \<longleftrightarrow> 1296800384 \<le> unat a \<and> unat a < 1296800384 + 2 ^ 7"
    "in_network (V4 a) (V4 1296800779, 0) \<longleftrightarrow> 1296800779 \<le> unat a \<and> unat a < 1296800779 + 2 ^ 0"
    "in_network (V4 a) (V4 1296800803, 0) \<longleftrightarrow> 1296800803 \<le> unat a \<and> unat a < 1296800803 + 2 ^ 0"
    by (rule v4_network; simp)+
  moreover have "x < 3108457472 + 2 ^ 5 \<longleftrightarrow> x \<le> 3108457503" "x < 3108457728 + 2 ^ 5 \<longleftrightarrow> x \<le> 3108457759"
    "x < 1296800000 + 2 ^ 7 \<longleftrightarrow> x \<le> 1296800127" "x < 1296800384 + 2 ^ 7 \<longleftrightarrow> x \<le> 1296800511"
    "1296800779 \<le> x \<and> x < 1296800779 + 2 ^ 0 \<longleftrightarrow> x = 1296800779" "1296800803 \<le> x \<and> x < 1296800803 + 2 ^ 0 \<longleftrightarrow> x = 1296800803"
    for x :: nat by auto
  ultimately show ?thesis unfolding networks list_ex_iff
    by (simp only: list.set insert_iff empty_iff in_network.simps(3,4) published.simps bex_simps simp_thms disj_assoc)
qed

lemma v6_published: "list_ex (in_network (V6 a)) yookassa_networks \<longleftrightarrow> published (V6 a)"
proof -
  let ?c = "704795008 * 2 ^ 96 :: nat"
  have "unat (55839613433066233928356509225412722688 :: 128 word) = ?c" by simp
  moreover have "(2::nat) ^ 96 dvd ?c" by (rule dvd_triv_right)
  ultimately have "in_network (V6 a) (V6 55839613433066233928356509225412722688, 96) \<longleftrightarrow> unat a div 2 ^ 96 * 2 ^ 96 = ?c"
    using network_interval [of 96 "55839613433066233928356509225412722688 :: 128 word" a]
      aligned_interval [of "2 ^ 96" ?c "unat a"] by simp
  then show ?thesis by (simp add: networks del: in_network.simps(2))
qed

lemma networks_published: "list_ex (in_network x) yookassa_networks \<longleftrightarrow> published x"
  using v4_published v6_published by (cases x) auto

section \<open>The trusted hop\<close>

lemma split_on_nonempty: "split_on c xs \<noteq> []"
  by (induction xs) (auto split: list.splits)

lemma split_on_single: "c \<notin> set s \<Longrightarrow> split_on c s = [s]"
  by (induction s) auto

lemma split_on_last: "c \<notin> set s \<Longrightarrow> last (split_on c (xs @ c # s)) = s"
proof (induction xs)
  case Nil
  then show ?case by (simp add: split_on_single)
next
  case (Cons x xs)
  obtain p q ps where "split_on c (xs @ c # s) = p # q # ps"
  proof (cases "split_on c (xs @ c # s)" rule: remdups_adj.cases)
    case (2 y)
    have "length (split_on c (xs @ c # s)) = length (split_on c xs) + length (split_on c s)"
      by (induction xs) (auto split: list.splits simp: split_on_nonempty)
    then show ?thesis using 2 split_on_nonempty by (cases "split_on c s"; cases "split_on c xs") auto
  qed (use split_on_nonempty in auto)
  then show ?case using Cons by auto
qed

text \<open>Whatever a client puts in front, only the hop after the last comma, which the reverse proxy
  appends, is looked at; and it is looked up in the published intervals.\<close>

lemma is_yookassa_ip_last_hop:
  assumes "CHR '','' \<notin> set hop"
  shows "is_yookassa_ip (forged @ '','' @ hop) peer \<longleftrightarrow>
     (case ip_address (strip hop) of None \<Rightarrow> False | Some a \<Rightarrow> published a)"
  using split_on_last [OF assms, of forged]
  by (simp add: is_yookassa_ip_def remote_ip_def networks_published split: option.split)

end
