(* ===== verification/Webhook_Entry.thy ===== *)
theory Webhook_Entry
  imports Webhooks Source_Address
begin

text \<open>
  The entry point of provider notifications, \<open>YooKassaWebhookView.post\<close> of
  \<^verbatim>\<open>apps/billing/views.py\<close>: switch, source check, audit of refused requests, claim, processing
  and the answer. A request is its decoded body and the two source headers; the audit columns
  \<open>payload\<close> and \<open>source_ip\<close> and the texts of the answers are not represented.
\<close>

section \<open>The request\<close>

record request =
  rq_data :: json
  rq_forwarded :: string
  rq_remote :: string

datatype webhook_reply = Reply_Ok | Reply_Retry string | Reply_Forbidden | Reply_Disabled

text \<open>\<open>_safe_webhook_text\<close>.\<close>

definition safe_webhook_text :: "json \<Rightarrow> nat \<Rightarrow> string" where
  "safe_webhook_text v max_length = (case v of JStr s \<Rightarrow> take max_length s | _ \<Rightarrow> [])"

definition request_fields :: "request \<Rightarrow> dict" where
  "request_fields rq = (case rq_data rq of JObj m \<Rightarrow> m | _ \<Rightarrow> [])"

definition payment_object :: "request \<Rightarrow> dict" where
  "payment_object rq = (case dict_get ''object'' (request_fields rq) of JObj m \<Rightarrow> m | _ \<Rightarrow> [])"

definition posted_event :: "request \<Rightarrow> string" where
  "posted_event rq = safe_webhook_text (dict_get ''event'' (request_fields rq)) 80"

definition posted_object_id :: "request \<Rightarrow> string" where
  "posted_object_id rq = safe_webhook_text (dict_get ''id'' (payment_object rq)) 200"

text \<open>\<open>_parse_webhook_amount\<close>. A value that is true and has no \<open>get\<close> raises \<open>AttributeError\<close>.\<close>

definition parse_webhook_amount :: "dict \<Rightarrow> err + money option \<times> string" where
  "parse_webhook_amount obj =
     (case dict_sub ''amount'' obj of
        None \<Rightarrow> Inl AttributeError
      | Some amount_obj \<Rightarrow>
          (let currency = upper (text_or_empty (dict_get ''currency'' amount_obj)) in
           Inr (case provider_amount (py_str (dict_get ''value'' amount_obj)) of
                  None \<Rightarrow> (None, [])
                | Some amount \<Rightarrow> if is_currency_text currency then (Some amount, currency) else (None, []))))"

definition msg_forbidden :: string where
  "msg_forbidden = ''The address of the sender does not belong to YooKassa.''"

definition rejected_row :: "env \<Rightarrow> nat \<Rightarrow> string \<Rightarrow> string \<Rightarrow> money option \<Rightarrow> string \<Rightarrow> webhook_event" where
  "rejected_row e pk event object_id amount currency =
     (new_webhook pk event object_id [])
       \<lparr>wh_amount := amount, wh_currency := currency, wh_decision := D_Rejected, wh_reason := msg_forbidden,
        wh_processed := Some (now e)\<rparr>"

text \<open>The accepted request: claim, process, answer.\<close>

definition accept_notification ::
    "env \<Rightarrow> gateway \<Rightarrow> string \<Rightarrow> string \<Rightarrow> db \<Rightarrow> (err + webhook_reply) \<times> db" where
  "accept_notification e gw event object_id d =
     (case claim_webhook_event e event object_id d of
        ((w, processing_token, claim_state), d1) \<Rightarrow>
          (if claim_state = Final then (Inr Reply_Ok, d1)
           else if claim_state = Busy then (Inr (Reply_Retry ''already_processing''), d1)
           else case (claim_state, processing_token) of
             (Claimed, Some token) \<Rightarrow>
               (case process_claimed_yookassa_event e gw (wh_pk w) token d1 of
                  (Inl x, d2) \<Rightarrow> (Inl x, d2)
                | (Inr r, d2) \<Rightarrow>
                    (Inr (if pr_acknowledged r then Reply_Ok else Reply_Retry (pr_retry r)), d2))
           | _ \<Rightarrow> (Inr (Reply_Retry ''claim_unavailable''), d1)))"

definition webhook_post :: "env \<Rightarrow> gateway \<Rightarrow> request \<Rightarrow> db \<Rightarrow> (err + webhook_reply) \<times> db" where
  "webhook_post e gw rq d =
     (if \<not> billing_enabled e then (Inr Reply_Disabled, d)
      else case parse_webhook_amount (payment_object rq) of
        Inl x \<Rightarrow> (Inl x, d)
      | Inr (amount, currency) \<Rightarrow>
          (if \<not> is_yookassa_ip (rq_forwarded rq) (rq_remote rq)
           then (Inr Reply_Forbidden,
                 d\<lparr>d_webhooks := row_add (rejected_row e (next_pk wh_pk (d_webhooks d)) (posted_event rq)
                     (posted_object_id rq) amount currency) (d_webhooks d)\<rparr>)
           else accept_notification e gw (posted_event rq) (posted_object_id rq) d))"

section \<open>Forged requests\<close>

text \<open>C29: A request that did not come through the published networks delivers nothing: whatever it says
  and whatever forwarding chain it pretends, when the hop the reverse proxy saw is not an address
  of the provider, all that can change is one more audit row, rejected and without a key,
  so that it cannot stand in for a real event; the answer is never a success.\<close>

theorem forged_notification_is_only_audited:
  assumes "rq_forwarded rq = forged @ '','' @ hop" "CHR '','' \<notin> set hop"
    "case ip_address (strip hop) of None \<Rightarrow> True | Some a \<Rightarrow> \<not> published a"
    "webhook_post e gw rq d = (r, d')"
  shows "\<exists>audit. d' = d\<lparr>d_webhooks := d_webhooks d @ audit\<rparr> \<and> length audit \<le> 1 \<and>
     list_all (\<lambda>w. wh_decision w = D_Rejected \<and> wh_key w = [] \<and> wh_token w = None) audit \<and> r \<noteq> Inr Reply_Ok"
proof -
  have refused: "\<not> is_yookassa_ip (rq_forwarded rq) (rq_remote rq)"
    using assms(3) unfolding assms(1) is_yookassa_ip_last_hop [OF assms(2)] by (auto split: option.splits)
  have unchanged: ?thesis if "d' = d" "r \<noteq> Inr Reply_Ok"
    using that by (intro exI [of _ "[]"]) simp
  show ?thesis
  proof (cases "billing_enabled e \<and> (\<exists>p. parse_webhook_amount (payment_object rq) = Inr p)")
    case True
    then obtain amount currency where "parse_webhook_amount (payment_object rq) = Inr (amount, currency)" by auto
    then show ?thesis using True assms(4) refused
      by (intro exI [of _ "[rejected_row e (next_pk wh_pk (d_webhooks d)) (posted_event rq) (posted_object_id rq) amount currency]"])
        (auto simp: webhook_post_def row_add_def rejected_row_def new_webhook_def)
  next
    case False
    then have "d' = d \<and> r \<noteq> Inr Reply_Ok" using assms(4)
      by (cases "parse_webhook_amount (payment_object rq)") (auto simp: webhook_post_def split: if_splits)
    then show ?thesis using unchanged by blast
  qed
qed

definition forged_request :: request where
  "forged_request =
     \<lparr>rq_data = JObj [(''event'', JStr ''payment.succeeded''), (''object'', JObj [(''id'', JStr ''pay-2'')])],
      rq_forwarded = ''185.71.76.1, 8.8.8.8'', rq_remote = ''10.0.0.1''\<rparr>"

theorem forged_notification_is_only_audited_witness:
  "\<exists>audit. snd (webhook_post demo_env (demo_gateway topup_payment) forged_request hook_db) =
       hook_db\<lparr>d_webhooks := d_webhooks hook_db @ audit\<rparr> \<and> length audit \<le> 1 \<and>
     list_all (\<lambda>w. wh_decision w = D_Rejected \<and> wh_key w = [] \<and> wh_token w = None) audit \<and>
     fst (webhook_post demo_env (demo_gateway topup_payment) forged_request hook_db) \<noteq> Inr Reply_Ok"
proof (rule forged_notification_is_only_audited)
  show "rq_forwarded forged_request = ''185.71.76.1'' @ '','' @ '' 8.8.8.8''" by (simp add: forged_request_def)
  show "CHR '','' \<notin> set '' 8.8.8.8''" by simp
  have "strip '' 8.8.8.8'' = ''8.8.8.8''" by (simp add: strip_def is_space_def)
  moreover have "ip_address ''8.8.8.8'' = Some (V4 134744072)" by (simp add: ip_address_def address_defs)
  ultimately show "case ip_address (strip '' 8.8.8.8'') of None \<Rightarrow> True | Some a \<Rightarrow> \<not> published a" by simp
  show "webhook_post demo_env (demo_gateway topup_payment) forged_request hook_db =
      (fst (webhook_post demo_env (demo_gateway topup_payment) forged_request hook_db),
       snd (webhook_post demo_env (demo_gateway topup_payment) forged_request hook_db))" by simp
qed

section \<open>The answer and the record\<close>

lemma find_put_row:
  "distinct (map pk rows) \<Longrightarrow> find P rows = Some r \<Longrightarrow> pk r' = pk r \<Longrightarrow> P r' \<Longrightarrow> find P (row_put pk r' rows) = Some r'"
proof (induction rows)
  case (Cons x rows)
  show ?case
  proof (cases "P x")
    case False
    then have f: "find P rows = Some r" using Cons.prems by simp
    then have "r \<in> set rows" by (induction rows) (auto split: if_splits)
    then have "pk x \<noteq> pk r'" using Cons.prems by (metis distinct.simps(2) image_eqI list.set_map list.simps(9))
    then show ?thesis using Cons False f by simp
  qed (use Cons in simp)
qed simp

text \<open>The row of a key in a table with distinct primary keys.\<close>

definition stored :: "string \<Rightarrow> webhook_event \<Rightarrow> db \<Rightarrow> bool" where
  "stored key w d \<longleftrightarrow> distinct (map wh_pk (d_webhooks d)) \<and> webhook_with key d = Some w \<and> wh_key w = key"

lemma stored_get: "stored key w d \<Longrightarrow> get_webhook (wh_pk w) d = Some w"
  unfolding stored_def webhook_with_def get_webhook_def row_get_distinct_iff [of wh_pk]
  by (auto simp: row_get_distinct_iff find_Some_iff)

lemma stored_put:
  assumes "stored key w d" "wh_pk w' = wh_pk w" "wh_key w' = key" "d_webhooks d1 = d_webhooks d"
  shows "stored key w' (put_webhook w' d1)"
  using assms by (auto simp: stored_def webhook_with_def put_webhook_def map_pk_row_put intro!: find_put_row)

lemma webhook_rows_key [simp]:
  "wh_key (closed_row e c w) = wh_key w" "wh_key (delivery_row e t w) = wh_key w" "wh_key (counted_delivery w) = wh_key w"
  by (simp_all add: closed_row_def delivery_row_def counted_delivery_def)

lemma stored_new:
  assumes "webhook_with key d = None" "distinct (map wh_pk (d_webhooks d))"
  shows "stored key (new_webhook (next_pk wh_pk (d_webhooks d)) ev ob key)
     (d\<lparr>d_webhooks := row_add (new_webhook (next_pk wh_pk (d_webhooks d)) ev ob key) (d_webhooks d)\<rparr>)"
proof -
  let ?w = "new_webhook (next_pk wh_pk (d_webhooks d)) ev ob key"
  have "distinct (map wh_pk (row_add ?w (d_webhooks d)))"
    by (rule distinct_row_add_next [OF assms(2)]) (simp add: new_webhook_def)
  moreover have "find (\<lambda>w. wh_key w = key) (rows @ [?w]) = Some ?w" if "find (\<lambda>w. wh_key w = key) rows = None" for rows
    using that by (induction rows) (auto simp: new_webhook_def split: if_splits)
  ultimately show ?thesis using assms(1)
    by (simp add: stored_def webhook_with_def row_add_def) (simp add: new_webhook_def)
qed

lemma claim_open_stored:
  assumes "stored key w d" "claim_open_event e w d = ((w', tok, st), d')"
  shows "stored key w' d' \<and> (st = Final \<and> is_final w' \<or> st = Busy \<and> \<not> is_final w' \<and> webhook_busy e w' \<or>
     (\<exists>t. st = Claimed \<and> tok = Some t \<and> \<not> is_final w' \<and> wh_token w' = Some t))"
proof (cases "is_final w \<or> webhook_busy e w")
  case True
  then show ?thesis using assms by (cases "is_final w") (simp_all add: claim_open_event_def)
next
  case False
  then have eq: "w' = delivery_row e (d_uuid d) w" "tok = Some (d_uuid d)" "st = Claimed"
      "d' = put_webhook w' (d\<lparr>d_uuid := Suc (d_uuid d)\<rparr>)"
    using assms(2) by (auto simp: claim_open_event_def fresh_uuid_def Let_def)
  have "stored key w' d'" unfolding eq(4)
    by (rule stored_put [OF assms(1)]) (use assms(1) eq(1) in \<open>auto simp: stored_def\<close>)
  then show ?thesis using eq by simp
qed

lemma claim_stored:
  assumes "distinct (map wh_pk (d_webhooks d))" "claim_webhook_event e ev ob d = ((w, tok, st), d1)"
  shows "stored (webhook_key ev ob) w d1 \<and> (st = Final \<and> is_final w \<or> st = Busy \<and> \<not> is_final w \<and> webhook_busy e w \<or>
     (\<exists>t. st = Claimed \<and> tok = Some t \<and> \<not> is_final w \<and> wh_token w = Some t))"
proof (cases "webhook_with (webhook_key ev ob) d")
  case None
  then show ?thesis using assms claim_open_stored [OF stored_new [OF None assms(1)]]
    by (simp add: claim_webhook_event_def Let_def)
next
  case (Some v)
  have "wh_key v = webhook_key ev ob" using Some by (auto simp: webhook_with_def find_Some_iff)
  then have v: "stored (webhook_key ev ob) v d" using Some assms(1) by (simp add: stored_def)
  have "stored (webhook_key ev ob) (counted_delivery v) (put_webhook (counted_delivery v) d)"
    by (rule stored_put [OF v]) (use \<open>wh_key v = webhook_key ev ob\<close> in auto)
  then show ?thesis using assms(2) Some claim_open_stored by (simp add: claim_webhook_event_def Let_def)
qed

text \<open>C24: The provider is told the truth: while billing is enabled, a request through the published
  networks whose amount field can be read (an absent amount can, a nonempty one that is not an object raises before anything is stored)
  is answered, and the answer says what the records hold. Success is answered only when the event of the
  request is stored with a final decision; otherwise the provider is asked to deliver again, and the
  event is either in the hands of another worker or recorded as an error with its next attempt
  scheduled.
\<close>

theorem delivery_answer_matches_record:
  assumes "billing_enabled e" "is_yookassa_ip (rq_forwarded rq) (rq_remote rq)"
    "parse_webhook_amount (payment_object rq) = Inr p" "distinct (map wh_pk (d_webhooks d))"
  shows "\<exists>reply d' w. webhook_post e gw rq d = (Inr reply, d') \<and>
     webhook_with (webhook_key (posted_event rq) (posted_object_id rq)) d' = Some w \<and>
     (reply = Reply_Ok \<and> is_final w \<or>
      (\<exists>code. reply = Reply_Retry code) \<and> \<not> is_final w \<and>
        (webhook_busy e w \<or> wh_decision w = D_Error \<and> wh_token w = None \<and>
           wh_next_recon w = Some (now e + secs (reconciliation_delay_seconds e (max 1 (wh_recon_attempts w))))))"
proof -
  let ?key = "webhook_key (posted_event rq) (posted_object_id rq)"
  have post: "webhook_post e gw rq d = accept_notification e gw (posted_event rq) (posted_object_id rq) d"
    using assms(1-3) by (cases p) (simp add: webhook_post_def)
  obtain w tok st d1 where cl: "claim_webhook_event e (posted_event rq) (posted_object_id rq) d = ((w, tok, st), d1)"
    by (metis prod.exhaust)
  note c = claim_stored [OF assms(4) cl]
  then consider (final) "st = Final" "is_final w" | (busy) "st = Busy" "\<not> is_final w" "webhook_busy e w"
    | (claimed) t where "st = Claimed" "tok = Some t" "\<not> is_final w" "wh_token w = Some t" by blast
  then show ?thesis
  proof cases
    case final
    then show ?thesis using c cl by (auto simp: post accept_notification_def stored_def)
  next
    case busy
    then show ?thesis using c cl by (auto simp: post accept_notification_def stored_def)
  next
    case (claimed t)
    have g: "get_webhook (wh_pk w) d1 = Some w" using c stored_get by blast
    obtain cl' rc d2 where p: "process_claimed_yookassa_event e gw (wh_pk w) t d1 =
        (Inr (final_result (cl_decision cl') rc), put_webhook (closed_row e cl' w) d2)" "business_step d1 d2"
        "cl_decision cl' = D_Error \<or> cl_decision cl' \<in> set final_webhook_decisions"
      using process_closes [OF g claimed(3,4), of e gw] unfolding closes_def by blast
    have "stored ?key (closed_row e cl' w) (put_webhook (closed_row e cl' w) d2)"
      by (rule stored_put [of ?key w d1]) (use c p(2) in \<open>auto simp: stored_def business_step_def\<close>)
    moreover have "webhook_post e gw rq d = (Inr (if cl_decision cl' \<in> set final_webhook_decisions then Reply_Ok
        else Reply_Retry rc), put_webhook (closed_row e cl' w) d2)"
      using claimed(1,2) cl p(1) by (simp add: post accept_notification_def final_result_def)
    ultimately show ?thesis using p(3) by (auto simp: stored_def is_final_def closed_row_def)
  qed
qed

definition trusted_request :: request where
  "trusted_request =
     \<lparr>rq_data = JObj [(''event'', JStr ''payment.succeeded''), (''object'', JObj [(''id'', JStr ''pay-2'')])],
      rq_forwarded = ''8.8.8.8, 185.71.76.1'', rq_remote = ''10.0.0.1''\<rparr>"

lemma trusted_address: "is_yookassa_ip (rq_forwarded trusted_request) (rq_remote trusted_request)"
proof -
  have "strip '' 185.71.76.1'' = ''185.71.76.1''" by (simp add: strip_def is_space_def)
  moreover have "ip_address ''185.71.76.1'' = Some (V4 3108457473)" by (simp add: ip_address_def address_defs)
  ultimately show ?thesis
    using is_yookassa_ip_last_hop [of "'' 185.71.76.1''" "''8.8.8.8''" "''10.0.0.1''"] by (simp add: trusted_request_def)
qed

theorem delivery_answer_matches_record_witness:
  "\<exists>reply d' w. webhook_post demo_env (demo_gateway topup_payment) trusted_request topup_db = (Inr reply, d') \<and>
     webhook_with (webhook_key (posted_event trusted_request) (posted_object_id trusted_request)) d' = Some w \<and>
     (reply = Reply_Ok \<and> is_final w \<or>
      (\<exists>code. reply = Reply_Retry code) \<and> \<not> is_final w \<and>
        (webhook_busy demo_env w \<or> wh_decision w = D_Error \<and> wh_token w = None \<and>
           wh_next_recon w = Some (now demo_env + secs (reconciliation_delay_seconds demo_env (max 1 (wh_recon_attempts w))))))"
proof (rule delivery_answer_matches_record)
  show "billing_enabled demo_env" by (simp add: demo_env_def)
  show "is_yookassa_ip (rq_forwarded trusted_request) (rq_remote trusted_request)" by (rule trusted_address)
  show "parse_webhook_amount (payment_object trusted_request) = Inr (None, [])"
    by (simp add: parse_webhook_amount_def payment_object_def request_fields_def trusted_request_def dict_sub_def
        dict_get_def provider_amount_def dec_parse_def strip_def is_space_def split_sign_def dec_special_def lower_def
        dec_number_def is_digit_def Let_def)
  show "distinct (map wh_pk (d_webhooks topup_db))" by (simp add: topup_db_def demo_db_def empty_db_def)
qed

text \<open>An amount that is neither a document nor empty stops the view with an exception before the source
  is checked or anything is recorded.\<close>

lemma malformed_amount_raises:
  assumes "billing_enabled e" "dict_get ''amount'' (payment_object rq) = JStr (c # cs)"
  shows "webhook_post e gw rq d = (Inl AttributeError, d)"
  using assms by (simp add: webhook_post_def parse_webhook_amount_def dict_sub_def)

end
