(* ===== verification/Job_Types.thy ===== *)
theory Job_Types
  imports Interfaces
begin

text \<open>
  The data of the background jobs: the durable dispatch rows of \<^verbatim>\<open>apps/core/models.py\<close>, the domain rows
  whose status the dispatcher keeps consistent (parse and bulk jobs of products, media jobs, image
  searches, research runs with their paid searches), and the feed cursors of marketplace accounts
  and their endpoints. Only the columns the code reads or writes are kept.
\<close>

section \<open>Dispatches\<close>

datatype dispatch_status =
    Dp_Pending | Dp_Publishing | Dp_Published | Dp_Running | Dp_Succeeded | Dp_Failed | Dp_Cancelled

record job_dispatch =
  jd_id :: uuid
  jd_task :: string
  jd_queue :: string
  jd_args :: "json list"
  jd_kwargs :: dict
  jd_key :: "string option"
  jd_status :: dispatch_status
  jd_available :: instant
  jd_token :: "uuid option"
  jd_lease :: "instant option"
  jd_celery :: "uuid option"
  jd_publishes :: nat
  jd_runs :: nat
  jd_max_runs :: int
  jd_timeout :: int
  jd_error :: string
  jd_result :: json
  jd_started :: "instant option"
  jd_finished :: "instant option"

section \<open>Domain jobs\<close>

datatype parse_status = Pj_Pending | Pj_Running | Pj_Success | Pj_Failed | Pj_Not_Found | Pj_Need_Review

record parse_job =
  pj_pk :: nat
  pj_status :: parse_status
  pj_error :: string
  pj_finished :: "instant option"

datatype bulk_status = Bk_Pending | Bk_Running | Bk_Paused | Bk_Cooling_Down | Bk_Success | Bk_Failed | Bk_Cancelled

record bulk_job =
  bk_pk :: nat
  bk_status :: bulk_status
  bk_error :: string
  bk_finished :: "instant option"
  bk_next_batch :: "instant option"
  bk_last_dispatched :: "instant option"

datatype media_status = Md_Queued | Md_Submitted | Md_Processing | Md_Succeeded | Md_Failed | Md_Cancelled

datatype response_state = Rs_None | Rs_Recorded | Rs_Applying | Rs_Applied | Rs_Accounting_Resolved

record media_job =
  md_pk :: nat
  md_status :: media_status
  md_code :: string
  md_error :: string
  md_finished :: "instant option"
  md_provider_job :: string
  md_response :: response_state

datatype image_status = Is_Pending | Is_Running | Is_Succeeded | Is_Failed | Is_Reconciliation_Required

record image_search =
  is_pk :: nat
  is_status :: image_status
  is_code :: string
  is_error :: string
  is_finished :: "instant option"

datatype research_status =
    Wr_Queued | Wr_Running | Wr_Need_Review | Wr_Completed | Wr_No_Results | Wr_Skipped | Wr_Failed

record research_run =
  wr_pk :: nat
  wr_status :: research_status
  wr_error :: string
  wr_finished :: "instant option"

datatype workflow_status = Wf_In_Progress | Wf_Apply_Pending | Wf_Uncertain | Wf_Applied | Wf_Reconciled

record search_workflow =
  wf_pk :: nat
  wf_run :: "nat option"
  wf_operation :: string
  wf_status :: workflow_status

datatype search_status = Sa_Started | Sa_Success | Sa_Empty | Sa_Failed | Sa_Outcome_Uncertain | Sa_Skipped

record search_attempt =
  sa_pk :: nat
  sa_workflow :: nat
  sa_status :: search_status
  sa_checkpoint :: bool

section \<open>Feed cursors\<close>

record feed_account =
  fa_pk :: nat
  fa_avito :: bool
  fa_active :: bool
  fa_deleted :: bool
  fa_tenant_active :: bool
  fa_last_flush :: "instant option"
  fa_revision :: int
  fa_dispatched :: int
  fa_due :: "instant option"

record feed_endpoint =
  fe_account :: nat
  fe_revision :: int

datatype listing_status =
    Ls_Draft | Ls_Queued | Ls_Pending | Ls_Active | Ls_Rejected | Ls_Archiving | Ls_Archived | Ls_Deleted
  | Ls_Requires_Review | Ls_Limit_Reached

record feed_listing =
  fl_product :: nat
  fl_account :: nat
  fl_status :: listing_status
  fl_deleted :: bool

section \<open>The tables\<close>

text \<open>\<open>jb_next\<close> is the source of fresh UUIDs, \<open>jb_kicks\<close> the dispatches whose publication was scheduled
  with \<open>transaction.on_commit\<close>.\<close>

record jobs =
  jb_dispatches :: "job_dispatch list"
  jb_parse :: "parse_job list"
  jb_bulk :: "bulk_job list"
  jb_media :: "media_job list"
  jb_images :: "image_search list"
  jb_runs :: "research_run list"
  jb_workflows :: "search_workflow list"
  jb_searches :: "search_attempt list"
  jb_accounts :: "feed_account list"
  jb_endpoints :: "feed_endpoint list"
  jb_listings :: "feed_listing list"
  jb_next :: uuid
  jb_kicks :: "uuid list"

definition get_dispatch :: "uuid \<Rightarrow> jobs \<Rightarrow> job_dispatch option" where
  "get_dispatch k s = row_get jd_id k (jb_dispatches s)"

definition put_dispatch :: "job_dispatch \<Rightarrow> jobs \<Rightarrow> jobs" where
  "put_dispatch w s = s\<lparr>jb_dispatches := row_put jd_id w (jb_dispatches s)\<rparr>"

text \<open>\<open>objects.filter(p).update(f)\<close>.\<close>

definition update_where :: "('r \<Rightarrow> bool) \<Rightarrow> ('r \<Rightarrow> 'r) \<Rightarrow> 'r list \<Rightarrow> 'r list" where
  "update_where p f rows = map (\<lambda>r. if p r then f r else r) rows"

lemma update_where_set: "r \<in> set (update_where p f rows) \<longleftrightarrow> (\<exists>x\<in>set rows. r = (if p x then f x else x))"
  by (auto simp: update_where_def)

lemma update_where_id: "(\<And>r. r \<in> set rows \<Longrightarrow> \<not> p r) \<Longrightarrow> update_where p f rows = rows"
  by (auto simp: update_where_def intro: map_idI)

interpretation dispatch_table: keyed_table jd_id get_dispatch put_dispatch
proof
  show "get_dispatch k t = Some r \<Longrightarrow> jd_id r = k" for k t r
    unfolding get_dispatch_def by (rule row_get_key)
qed (auto simp: get_dispatch_def put_dispatch_def table_simps)

section \<open>Arguments\<close>

text \<open>\<open>int(x)\<close> of a JSON value: \<open>None\<close> is \<open>TypeError\<close> or \<open>ValueError\<close>. A float is truncated.\<close>

fun json_int :: "json \<Rightarrow> int option" where
  "json_int (JBool b) = Some (if b then 1 else 0)"
| "json_int (JInt i) = Some i"
| "json_int (JStr s) = py_int s"
| "json_int (JFloat r) = (case dec_parse r of
     Some (Dec c e) \<Rightarrow> Some (if 0 \<le> e then c * 10 ^ nat e else sgn c * (\<bar>c\<bar> div 10 ^ nat (- e)))
   | _ \<Rightarrow> None)"
| "json_int _ = None"

definition int_arg_at :: "job_dispatch \<Rightarrow> nat \<Rightarrow> int option" where
  "int_arg_at w position = (if position < length (jd_args w) then json_int (jd_args w ! position) else None)"

definition first_int_arg :: "job_dispatch \<Rightarrow> int option" where
  "first_int_arg w = int_arg_at w 0"

text \<open>A positive integer written canonically.\<close>

definition positive_canonical :: "json \<Rightarrow> int option" where
  "positive_canonical v =
     (case v of
        JBool _ \<Rightarrow> None
      | _ \<Rightarrow> (case json_int v of
            None \<Rightarrow> None
          | Some n \<Rightarrow> if n \<le> 0 \<or> str_int n \<noteq> py_str v then None else Some n))"

definition canonical_positive_dispatch_arg :: "job_dispatch \<Rightarrow> nat \<Rightarrow> int option" where
  "canonical_positive_dispatch_arg w position =
     (if position < length (jd_args w) then positive_canonical (jd_args w ! position) else None)"

lemma positive_canonical_pos: "positive_canonical v = Some n \<Longrightarrow> 0 < n"
  by (auto simp: positive_canonical_def split: json.splits option.splits if_splits)

lemma positive_canonical_int: "0 < n \<Longrightarrow> positive_canonical (JInt n) = Some n"
  by (simp add: positive_canonical_def)

end
