(* ===== verification/Dispatch.thy ===== *)
theory Dispatch
  imports Job_Types
begin

text \<open>
  Durable delivery of background jobs (\<^verbatim>\<open>apps/core/dispatch.py\<close>): a row is stored with the business
  change, published to the broker under a lease, claimed by the worker that receives the message,
  and finished with the outcome of the task; the status of the domain job follows. \<open>t\<close> is the clock
  reading of an operation. The broker and the registered tasks are parameters.
\<close>

section \<open>Tables of the dispatcher\<close>

text \<open>\<open>DURABLE_TASK_QUEUES\<close>.\<close>

definition durable_task_queues :: "(string \<times> string) list" where
  "durable_task_queues =
     [(''apps.marketplaces.ozon_tasks.deliver_ozon_health_alert'', ''notifications''),
      (''apps.products.tasks.parse_single_part'', ''part_parsing''),
      (''apps.products.tasks.parse_single_part_then_generate_description'', ''part_parsing''),
      (''apps.products.tasks.process_bulk_product_action'', ''part_parsing_bulk''),
      (''apps.ai_agent.tasks.generate_description_task'', ''ai_generate''),
      (''apps.image_search.tasks.search_images_for_product'', ''image_search''),
      (''apps.media_processing.tasks.process_media_job'', ''media_processing''),
      (''apps.marketplaces.tasks.process_marketplace_feed_intent'', ''avito_publish''),
      (''apps.marketplaces.tasks.process_marketplace_feed_run_step'', ''avito_publish''),
      (''apps.web_research.tasks.schedule_web_research_fallback'', ''part_parsing''),
      (''apps.web_research.tasks.run_web_research'', ''part_parsing'')]"

definition leased_states :: "dispatch_status list" where
  "leased_states = [Dp_Publishing, Dp_Published, Dp_Running]"

definition terminal_states :: "dispatch_status list" where
  "terminal_states = [Dp_Succeeded, Dp_Failed, Dp_Cancelled]"

definition no_automatic_replay_tasks :: "string list" where
  "no_automatic_replay_tasks =
     [''apps.ai_agent.tasks.generate_description_task'', ''apps.media_processing.tasks.process_media_job'']"

definition msg_outcome_unknown :: string where
  "msg_outcome_unknown = ''The result of the external provider is unknown; automatic replay is forbidden.''"

definition outcome_uncertain_result :: json where
  "outcome_uncertain_result =
     JObj [(''reason_code'', JStr ''outcome_uncertain''), (''message'', JStr msg_outcome_unknown)]"

definition msg_worker_lost :: string where
  "msg_worker_lost = ''The result of the external operation after losing the worker is unknown; automatic replay is forbidden.''"
definition msg_runs_exhausted :: string where "msg_runs_exhausted = ''The number of run attempts is exceeded.''"
definition msg_task_forbidden :: string where "msg_task_forbidden = ''The task is not allowed any more.''"
definition msg_task_unregistered :: "string \<Rightarrow> string" where
  "msg_task_unregistered name = ''Celery task is not registered: '' @ name"

definition retry_delay :: "int \<Rightarrow> int" where
  "retry_delay attempt = min 300 (max 2 (2 ^ nat (min (max attempt 1) 8)))"

section \<open>Enqueueing\<close>

text \<open>The arguments of \<open>enqueue_durable_task\<close>; \<open>None\<close> and the empty list are the same to the code.\<close>

record job_request =
  jq_task :: string
  jq_args :: "json list"
  jq_kwargs :: dict
  jq_key :: "string option"
  jq_available :: "instant option"
  jq_max_runs :: int
  jq_timeout :: int
  jq_revive :: bool

definition new_dispatch :: "instant \<Rightarrow> job_request \<Rightarrow> string \<Rightarrow> uuid \<Rightarrow> job_dispatch" where
  "new_dispatch t q queue k =
     \<lparr>jd_id = k, jd_task = jq_task q, jd_queue = queue, jd_args = jq_args q, jd_kwargs = jq_kwargs q,
      jd_key = (if jq_key q = Some [] then None else jq_key q), jd_status = Dp_Pending,
      jd_available = (case jq_available q of Some a \<Rightarrow> a | None \<Rightarrow> t), jd_token = None, jd_lease = None,
      jd_celery = None, jd_publishes = 0, jd_runs = 0, jd_max_runs = max 1 (min (jq_max_runs q) 25),
      jd_timeout = max 60 (min (jq_timeout q) 7200), jd_error = [], jd_result = JNull, jd_started = None,
      jd_finished = None\<rparr>"

definition revived_row :: "instant \<Rightarrow> job_request \<Rightarrow> job_dispatch \<Rightarrow> job_dispatch" where
  "revived_row t q w =
     w\<lparr>jd_status := Dp_Pending, jd_available := (case jq_available q of Some a \<Rightarrow> a | None \<Rightarrow> t), jd_token := None,
       jd_lease := None, jd_celery := None, jd_runs := 0, jd_error := [], jd_result := JNull, jd_started := None,
       jd_finished := None\<rparr>"

definition dispatch_with_key :: "string \<Rightarrow> jobs \<Rightarrow> job_dispatch option" where
  "dispatch_with_key key s = find (\<lambda>w. jd_key w = Some key) (jb_dispatches s)"

text \<open>Publication is scheduled after the commit.\<close>

definition kick :: "uuid \<Rightarrow> jobs \<Rightarrow> jobs" where
  "kick k s = s\<lparr>jb_kicks := jb_kicks s @ [k]\<rparr>"

definition create_dispatch :: "instant \<Rightarrow> job_request \<Rightarrow> string \<Rightarrow> jobs \<Rightarrow> job_dispatch \<times> jobs" where
  "create_dispatch t q queue s =
     (let w = new_dispatch t q queue (jb_next s)
      in (w, kick (jd_id w) (s\<lparr>jb_dispatches := row_add w (jb_dispatches s), jb_next := Suc (jb_next s)\<rparr>)))"

definition enqueue_durable_task :: "instant \<Rightarrow> job_request \<Rightarrow> jobs \<Rightarrow> err + job_dispatch \<times> jobs" where
  "enqueue_durable_task t q s =
     (case map_of durable_task_queues (jq_task q) of
        None \<Rightarrow> Inl ValueError
      | Some queue \<Rightarrow>
          (case (case jq_key q of None \<Rightarrow> None | Some key \<Rightarrow> if key = [] then None else dispatch_with_key key s) of
             None \<Rightarrow> Inr (create_dispatch t q queue s)
           | Some w \<Rightarrow>
               (if jq_revive q \<and> jd_status w = Dp_Failed
                then Inr (revived_row t q w, kick (jd_id w) (put_dispatch (revived_row t q w) s))
                else Inr (w, kick (jd_id w) s))))"

section \<open>The domain job of a dispatch\<close>

text \<open>\<open>task_name.startswith('apps.products.tasks.parse_single_part')\<close>.\<close>

definition is_parse_task :: "string \<Rightarrow> bool" where
  "is_parse_task name \<longleftrightarrow>
     take (length ''apps.products.tasks.parse_single_part'') name = ''apps.products.tasks.parse_single_part''"

definition bulk_task :: string where "bulk_task = ''apps.products.tasks.process_bulk_product_action''"
definition media_task :: string where "media_task = ''apps.media_processing.tasks.process_media_job''"
definition image_task :: string where "image_task = ''apps.image_search.tasks.search_images_for_product''"
definition research_task :: string where "research_task = ''apps.web_research.tasks.run_web_research''"

text \<open>\<open>_mark_retrying_domain_job\<close>.\<close>

definition mark_retrying_domain_job :: "job_dispatch \<Rightarrow> string \<Rightarrow> jobs \<Rightarrow> jobs" where
  "mark_retrying_domain_job w error s =
     (case first_int_arg w of
        None \<Rightarrow> s
      | Some k \<Rightarrow>
          (if is_parse_task (jd_task w) then
             s\<lparr>jb_parse := update_where (\<lambda>j. int (pj_pk j) = k \<and> pj_status j \<in> {Pj_Running, Pj_Failed})
                 (\<lambda>j. j\<lparr>pj_status := Pj_Pending, pj_error := error, pj_finished := None\<rparr>) (jb_parse s)\<rparr>
           else if jd_task w = bulk_task then
             s\<lparr>jb_bulk := update_where (\<lambda>j. int (bk_pk j) = k \<and> bk_status j = Bk_Running)
                 (\<lambda>j. j\<lparr>bk_status := Bk_Pending, bk_error := error, bk_last_dispatched := None\<rparr>) (jb_bulk s)\<rparr>
           else if jd_task w = media_task then
             s\<lparr>jb_media := update_where
                 (\<lambda>j. int (md_pk j) = k \<and> md_status j = Md_Failed \<and> md_code j = ''submission_failed'')
                 (\<lambda>j. j\<lparr>md_status := Md_Queued, md_finished := None\<rparr>) (jb_media s)\<rparr>
           else if jd_task w = research_task then
             s\<lparr>jb_runs := update_where (\<lambda>j. int (wr_pk j) = k \<and> wr_status j = Wr_Running)
                 (\<lambda>j. j\<lparr>wr_status := Wr_Queued, wr_error := error, wr_finished := None\<rparr>) (jb_runs s)\<rparr>
           else s))"

text \<open>\<open>_prepare_recovered_domain_job\<close>.\<close>

definition prepare_recovered_domain_job :: "job_dispatch \<Rightarrow> jobs \<Rightarrow> jobs" where
  "prepare_recovered_domain_job w s =
     (if jd_runs w \<le> 1 \<or> jd_task w \<noteq> media_task then s
      else case first_int_arg w of
        None \<Rightarrow> s
      | Some k \<Rightarrow>
          s\<lparr>jb_media := update_where (\<lambda>j. int (md_pk j) = k \<and> md_status j = Md_Processing \<and> md_provider_job j = [])
              (\<lambda>j. j\<lparr>md_status := Md_Queued, md_finished := None\<rparr>) (jb_media s)\<rparr>)"

text \<open>A paid checkpoint that the run can replay without paying again.\<close>

definition has_checkpoint :: "search_workflow \<Rightarrow> jobs \<Rightarrow> bool" where
  "has_checkpoint f s \<longleftrightarrow> list_ex (\<lambda>a. sa_workflow a = wf_pk f \<and> sa_status a \<in> {Sa_Success, Sa_Empty} \<and> sa_checkpoint a)
     (jb_searches s)"

definition has_replayable_checkpoint :: "int \<Rightarrow> jobs \<Rightarrow> bool" where
  "has_replayable_checkpoint k s \<longleftrightarrow> list_ex (\<lambda>f.
     (case wf_run f of None \<Rightarrow> False | Some r \<Rightarrow> int r = k) \<and> wf_operation f = ''web_research'' \<and>
     (wf_status f \<in> {Wf_In_Progress, Wf_Apply_Pending} \<or>
      (wf_status f = Wf_Applied \<and>
         (has_checkpoint f s \<or>
          (list_all (\<lambda>a. sa_workflow a \<noteq> wf_pk f) (jb_searches s) \<and>
           list_ex (\<lambda>r. int (wr_pk r) = k \<and> wr_status r \<in> {Wr_Queued, Wr_Running}) (jb_runs s))))))
     (jb_workflows s)"

definition failed_media :: "instant \<Rightarrow> string \<Rightarrow> bool \<Rightarrow> media_job \<Rightarrow> media_job" where
  "failed_media t error uncertain j =
     j\<lparr>md_status := Md_Failed, md_code := (if uncertain then ''outcome_uncertain'' else ''dispatch_failed''),
       md_error := error, md_finished := Some t\<rparr>"

definition failed_image :: "instant \<Rightarrow> string \<Rightarrow> bool \<Rightarrow> image_search \<Rightarrow> image_search" where
  "failed_image t error uncertain j =
     j\<lparr>is_status := (if uncertain then Is_Reconciliation_Required else Is_Failed),
       is_code := (if uncertain then ''provider_reconciliation_required'' else ''dispatch_failed''),
       is_error := take 500 error, is_finished := Some t\<rparr>"

text \<open>The last update of a research run, after the read that looks for a checkpoint.\<close>

definition close_research_run :: "instant \<Rightarrow> int \<Rightarrow> string \<Rightarrow> bool \<Rightarrow> jobs \<Rightarrow> jobs" where
  "close_research_run t k error replayable s =
     (if replayable then
        s\<lparr>jb_runs := update_where (\<lambda>j. int (wr_pk j) = k)
            (\<lambda>j. j\<lparr>wr_status := Wr_Queued, wr_error := error, wr_finished := None\<rparr>) (jb_runs s)\<rparr>
      else
        s\<lparr>jb_runs := update_where (\<lambda>j. int (wr_pk j) = k \<and> wr_status j \<in> {Wr_Queued, Wr_Running})
            (\<lambda>j. j\<lparr>wr_status := Wr_Failed, wr_error := error, wr_finished := Some t\<rparr>) (jb_runs s)\<rparr>)"

text \<open>\<open>_mark_terminal_domain_failure\<close>.\<close>

definition mark_terminal_domain_failure :: "instant \<Rightarrow> job_dispatch \<Rightarrow> string \<Rightarrow> bool \<Rightarrow> jobs \<Rightarrow> jobs" where
  "mark_terminal_domain_failure t w error uncertain s =
     (case first_int_arg w of
        None \<Rightarrow> s
      | Some k \<Rightarrow>
          (if is_parse_task (jd_task w) then
             s\<lparr>jb_parse := update_where (\<lambda>j. int (pj_pk j) = k \<and> pj_status j \<in> {Pj_Pending, Pj_Running})
                 (\<lambda>j. j\<lparr>pj_status := Pj_Failed, pj_error := error, pj_finished := Some t\<rparr>) (jb_parse s)\<rparr>
           else if jd_task w = bulk_task then
             s\<lparr>jb_bulk := update_where
                 (\<lambda>j. int (bk_pk j) = k \<and> bk_status j \<in> {Bk_Pending, Bk_Running, Bk_Cooling_Down})
                 (\<lambda>j. j\<lparr>bk_status := Bk_Failed, bk_error := error, bk_finished := Some t, bk_next_batch := None,
                    bk_last_dispatched := None\<rparr>) (jb_bulk s)\<rparr>
           else if jd_task w = media_task then
             s\<lparr>jb_media := update_where
                 (\<lambda>j. int (md_pk j) = k \<and> md_status j \<in> {Md_Queued, Md_Processing, Md_Failed} \<and>
                    \<not> (uncertain \<and> md_response j \<in> {Rs_Applied, Rs_Accounting_Resolved}))
                 (failed_media t error uncertain) (jb_media s)\<rparr>
           else if jd_task w = image_task then
             (case int_arg_at w 1 of
                None \<Rightarrow> s
              | Some i \<Rightarrow>
                  s\<lparr>jb_images := update_where (\<lambda>j. int (is_pk j) = i \<and> is_status j \<noteq> Is_Succeeded)
                      (failed_image t error uncertain) (jb_images s)\<rparr>)
           else if jd_task w = research_task then
             close_research_run t k error (has_replayable_checkpoint k s) s
           else s))"

section \<open>Publication\<close>

definition due_for_publication :: "instant \<Rightarrow> job_dispatch \<Rightarrow> bool" where
  "due_for_publication t w \<longleftrightarrow>
     (if jd_status w = Dp_Pending then jd_available w \<le> t
      else jd_status w \<in> set leased_states \<and> (case jd_lease w of None \<Rightarrow> False | Some l \<Rightarrow> l \<le> t))"

text \<open>A worker that was lost while it ran an external operation.\<close>

definition lost_in_flight :: "job_dispatch \<Rightarrow> bool" where
  "lost_in_flight w \<longleftrightarrow> jd_status w = Dp_Running \<and> jd_task w \<in> set no_automatic_replay_tasks"

definition uncertain_row :: "instant \<Rightarrow> job_dispatch \<Rightarrow> job_dispatch" where
  "uncertain_row t w =
     w\<lparr>jd_status := Dp_Failed, jd_finished := Some t, jd_error := msg_worker_lost, jd_result := outcome_uncertain_result,
       jd_token := None, jd_celery := None, jd_lease := None\<rparr>"

definition publishing_row :: "instant \<Rightarrow> uuid \<Rightarrow> uuid \<Rightarrow> job_dispatch \<Rightarrow> job_dispatch" where
  "publishing_row t token celery w =
     w\<lparr>jd_status := Dp_Publishing, jd_token := Some token, jd_celery := Some celery, jd_lease := Some (t + secs 90),
       jd_publishes := jd_publishes w + 1\<rparr>"

text \<open>The first transaction of \<open>publish_dispatch\<close>: the claimed row, or nothing to publish.\<close>

definition claim_publication :: "instant \<Rightarrow> uuid \<Rightarrow> jobs \<Rightarrow> job_dispatch option \<times> jobs" where
  "claim_publication t k s =
     (case get_dispatch k s of
        None \<Rightarrow> (None, s)
      | Some w \<Rightarrow>
          (if jd_status w \<in> set terminal_states \<or> \<not> due_for_publication t w then (None, s)
           else if lost_in_flight w
           then (None, mark_terminal_domain_failure t w msg_worker_lost True (put_dispatch (uncertain_row t w) s))
           else (let w' = publishing_row t (jb_next s) (Suc (jb_next s)) w
                 in (Some w', put_dispatch w' (s\<lparr>jb_next := jb_next s + 2\<rparr>)))))"

text \<open>\<open>objects.filter(pk, status, claim_token).update\<close>.\<close>

definition update_claimed :: "uuid \<Rightarrow> dispatch_status \<Rightarrow> uuid option \<Rightarrow> (job_dispatch \<Rightarrow> job_dispatch) \<Rightarrow> jobs \<Rightarrow> bool \<times> jobs" where
  "update_claimed k status token f s =
     (case get_dispatch k s of
        None \<Rightarrow> (False, s)
      | Some w \<Rightarrow> if jd_status w = status \<and> jd_token w = token then (True, put_dispatch (f w) s) else (False, s))"

definition unpublished_row :: "instant \<Rightarrow> nat \<Rightarrow> string \<Rightarrow> job_dispatch \<Rightarrow> job_dispatch" where
  "unpublished_row t attempt error w =
     w\<lparr>jd_status := Dp_Pending, jd_available := t + secs (retry_delay (int attempt)), jd_token := None, jd_celery := None,
       jd_lease := None, jd_error := error\<rparr>"

definition published_row :: "instant \<Rightarrow> job_dispatch \<Rightarrow> job_dispatch" where
  "published_row t w = w\<lparr>jd_status := Dp_Published, jd_lease := Some (t + secs 120), jd_error := []\<rparr>"

text \<open>What follows the call of the broker; \<open>Some\<close> is the text of its exception.\<close>

definition settle_publication :: "instant \<Rightarrow> job_dispatch \<Rightarrow> string option \<Rightarrow> jobs \<Rightarrow> bool \<times> jobs" where
  "settle_publication t w answer s =
     (case answer of
        Some text \<Rightarrow>
          (False, snd (update_claimed (jd_id w) Dp_Publishing (jd_token w) (unpublished_row t (jd_publishes w) (take 2000 text)) s))
      | None \<Rightarrow> (True, snd (update_claimed (jd_id w) Dp_Publishing (jd_token w) (published_row t) s)))"

type_synonym broker = "job_dispatch \<Rightarrow> string option"

definition publish_dispatch :: "instant \<Rightarrow> broker \<Rightarrow> uuid \<Rightarrow> jobs \<Rightarrow> bool \<times> jobs" where
  "publish_dispatch t broker k s =
     (case claim_publication t k s of
        (None, s1) \<Rightarrow> (False, s1)
      | (Some w, s1) \<Rightarrow> settle_publication t w (broker w) s1)"

definition due_dispatch :: "instant \<Rightarrow> job_dispatch \<Rightarrow> bool" where
  "due_dispatch t w \<longleftrightarrow> (jd_status w = Dp_Pending \<and> jd_available w \<le> t) \<or>
     (jd_status w \<in> set leased_states \<and> (case jd_lease w of None \<Rightarrow> False | Some l \<Rightarrow> l \<le> t))"

definition due_dispatch_ids :: "instant \<Rightarrow> nat \<Rightarrow> jobs \<Rightarrow> uuid list" where
  "due_dispatch_ids t limit s =
     take limit (map jd_id (sort_key jd_available (filter (due_dispatch t) (jb_dispatches s))))"

text \<open>\<open>publish_due_dispatches\<close>: how many rows were selected and published.\<close>

definition publish_due_dispatches :: "instant \<Rightarrow> broker \<Rightarrow> int \<Rightarrow> jobs \<Rightarrow> (nat \<times> nat) \<times> jobs" where
  "publish_due_dispatches t broker limit s =
     (let ids = due_dispatch_ids t (nat (max 1 (min limit 1000))) s;
          (published, s') = fold (\<lambda>k (n, s). case publish_dispatch t broker k s of (b, s') \<Rightarrow> (if b then n + 1 else n, s')) ids (0, s)
      in ((length ids, published), s'))"

section \<open>The worker\<close>

definition exhausted_dispatch :: "instant \<Rightarrow> job_dispatch \<Rightarrow> job_dispatch" where
  "exhausted_dispatch t w =
     w\<lparr>jd_status := Dp_Failed, jd_finished := Some t, jd_error := msg_runs_exhausted, jd_lease := None\<rparr>"

definition running_row :: "instant \<Rightarrow> job_dispatch \<Rightarrow> job_dispatch" where
  "running_row t w =
     w\<lparr>jd_status := Dp_Running, jd_runs := jd_runs w + 1,
       jd_started := (case jd_started w of None \<Rightarrow> Some t | Some x \<Rightarrow> Some x), jd_lease := Some (t + secs (jd_timeout w))\<rparr>"

definition claim_dispatch :: "instant \<Rightarrow> uuid \<Rightarrow> uuid \<Rightarrow> jobs \<Rightarrow> job_dispatch option \<times> jobs" where
  "claim_dispatch t k claim_token s =
     (case get_dispatch k s of
        None \<Rightarrow> (None, s)
      | Some w \<Rightarrow>
          (if jd_status w \<in> set terminal_states then (None, s)
           else if jd_token w \<noteq> Some claim_token then (None, s)
           else if jd_status w \<notin> {Dp_Publishing, Dp_Published} then (None, s)
           else if jd_max_runs w \<le> int (jd_runs w)
           then (None, mark_terminal_domain_failure t (exhausted_dispatch t w) msg_runs_exhausted False
                         (put_dispatch (exhausted_dispatch t w) s))
           else (Some (running_row t w),
                 prepare_recovered_domain_job (running_row t w) (put_dispatch (running_row t w) s))))"

text \<open>What a task leaves: the JSON form of its value, or an exception with the two marks the code asks for.\<close>

record task_error =
  te_safe_retry :: bool
  te_uncertain :: bool
  te_text :: string

datatype task_outcome = Returned json | Raised task_error | Forbidden | Unregistered

definition failed_row_of :: "instant \<Rightarrow> string \<Rightarrow> bool \<Rightarrow> bool \<Rightarrow> nat \<Rightarrow> job_dispatch \<Rightarrow> job_dispatch" where
  "failed_row_of t error terminal uncertain runs w =
     (let w1 = w\<lparr>jd_error := error, jd_token := None, jd_celery := None, jd_lease := None\<rparr> in
      if terminal
      then w1\<lparr>jd_status := Dp_Failed, jd_finished := Some t, jd_result := (if uncertain then outcome_uncertain_result else jd_result w)\<rparr>
      else w1\<lparr>jd_status := Dp_Pending, jd_available := t + secs (retry_delay (int runs))\<rparr>)"

text \<open>
  \<open>_finish_failed\<close> runs outside a transaction: it first commits the failure of the dispatch
  (\<open>end_failed\<close>; \<open>w\<close> is the row as the worker claimed it) and then updates the domain job, which is
  work that the process still has in its hands: a job to close, a research run whose checkpoint it
  has looked for, or a job to put back.
\<close>

datatype job_closing =
    Fail_Job job_dispatch string bool
  | Fail_Run instant int string bool
  | Retry_Job job_dispatch string

definition end_failed ::
    "instant \<Rightarrow> job_dispatch \<Rightarrow> string \<Rightarrow> bool \<Rightarrow> bool \<Rightarrow> jobs \<Rightarrow> job_closing option \<times> jobs" where
  "end_failed t w error terminal uncertain s =
     (case update_claimed (jd_id w) Dp_Running (jd_token w) (failed_row_of t error terminal uncertain (jd_runs w)) s of
        (False, s1) \<Rightarrow> (None, s1)
      | (True, s1) \<Rightarrow> (Some (if terminal then Fail_Job w error uncertain else Retry_Job w error), s1))"

text \<open>One statement of what is left: the read of the checkpoint of a research run comes before its update.\<close>

fun close_next :: "instant \<Rightarrow> job_closing \<Rightarrow> jobs \<Rightarrow> job_closing option \<times> jobs" where
  "close_next t (Fail_Job w error uncertain) s =
     (case first_int_arg w of
        Some k \<Rightarrow>
          (if jd_task w = research_task then (Some (Fail_Run t k error (has_replayable_checkpoint k s)), s)
           else (None, mark_terminal_domain_failure t w error uncertain s))
      | None \<Rightarrow> (None, s))"
| "close_next t (Fail_Run u k error replayable) s = (None, close_research_run u k error replayable s)"
| "close_next t (Retry_Job w error) s = (None, mark_retrying_domain_job w error s)"

text \<open>All of it, and the whole function, by a process that is not lost; \<open>h n\<close> is what others commit after
  its \<open>n\<close>th statement.\<close>

definition close_job :: "(nat \<Rightarrow> jobs \<Rightarrow> jobs) \<Rightarrow> instant \<Rightarrow> job_closing \<Rightarrow> jobs \<Rightarrow> jobs" where
  "close_job h t c s =
     (case close_next t c s of
        (None, s1) \<Rightarrow> s1
      | (Some c1, s1) \<Rightarrow> snd (close_next t c1 (h 1 s1)))"

definition finish_failed ::
    "(nat \<Rightarrow> jobs \<Rightarrow> jobs) \<Rightarrow> instant \<Rightarrow> job_dispatch \<Rightarrow> string \<Rightarrow> bool \<Rightarrow> bool \<Rightarrow> jobs \<Rightarrow> jobs" where
  "finish_failed h t w error terminal uncertain s =
     (case end_failed t w error terminal uncertain s of
        (None, s1) \<Rightarrow> s1
      | (Some c, s1) \<Rightarrow> close_job h t c (h 0 s1))"

definition succeeded_row :: "instant \<Rightarrow> json \<Rightarrow> job_dispatch \<Rightarrow> job_dispatch" where
  "succeeded_row t r w =
     w\<lparr>jd_status := Dp_Succeeded, jd_result := r, jd_error := [], jd_lease := None, jd_finished := Some t\<rparr>"

definition raised_uncertain :: "job_dispatch \<Rightarrow> task_error \<Rightarrow> bool" where
  "raised_uncertain w x \<longleftrightarrow>
     te_uncertain x \<or> (jd_task w \<in> set no_automatic_replay_tasks \<and> \<not> te_safe_retry x)"

definition raised_terminal :: "job_dispatch \<Rightarrow> task_error \<Rightarrow> bool" where
  "raised_terminal w x \<longleftrightarrow> raised_uncertain w x \<or> jd_max_runs w \<le> int (jd_runs w)"

text \<open>The part of \<open>execute_claimed_dispatch\<close> after the task: the reported status and the tables. Its first
  commit is a function of its own.\<close>

definition end_execution :: "instant \<Rightarrow> job_dispatch \<Rightarrow> task_outcome \<Rightarrow> jobs \<Rightarrow> job_closing option \<times> jobs" where
  "end_execution t w outcome s =
     (case outcome of
        Forbidden \<Rightarrow> end_failed t w msg_task_forbidden True False s
      | Unregistered \<Rightarrow> end_failed t w (msg_task_unregistered (jd_task w)) False False s
      | Raised x \<Rightarrow> end_failed t w (take 2000 (te_text x)) (raised_terminal w x) (raised_uncertain w x) s
      | Returned r \<Rightarrow> (None, snd (update_claimed (jd_id w) Dp_Running (jd_token w) (succeeded_row t r) s)))"

definition finish_execution ::
    "(nat \<Rightarrow> jobs \<Rightarrow> jobs) \<Rightarrow> instant \<Rightarrow> job_dispatch \<Rightarrow> task_outcome \<Rightarrow> jobs \<Rightarrow> string \<times> jobs" where
  "finish_execution h t w outcome s =
     (case outcome of
        Forbidden \<Rightarrow> (''failed'', finish_failed h t w msg_task_forbidden True False s)
      | Unregistered \<Rightarrow> (''retrying'', finish_failed h t w (msg_task_unregistered (jd_task w)) False False s)
      | Raised x \<Rightarrow>
          (if raised_terminal w x then ''failed'' else ''retrying'',
           finish_failed h t w (take 2000 (te_text x)) (raised_terminal w x) (raised_uncertain w x) s)
      | Returned r \<Rightarrow> (''succeeded'', snd (update_claimed (jd_id w) Dp_Running (jd_token w) (succeeded_row t r) s)))"

type_synonym job_task = "json list \<Rightarrow> dict \<Rightarrow> jobs \<Rightarrow> task_outcome \<times> jobs"

definition execute_claimed_dispatch ::
    "(nat \<Rightarrow> jobs \<Rightarrow> jobs) \<Rightarrow> instant \<Rightarrow> (string \<Rightarrow> job_task option) \<Rightarrow> job_dispatch \<Rightarrow> jobs \<Rightarrow> string \<times> jobs" where
  "execute_claimed_dispatch h t registered w s =
     (if map_of durable_task_queues (jd_task w) = None then finish_execution h t w Forbidden s
      else case registered (jd_task w) of
        None \<Rightarrow> finish_execution h t w Unregistered s
      | Some task \<Rightarrow> (case task (jd_args w) (jd_kwargs w) s of (outcome, s1) \<Rightarrow> finish_execution h t w outcome s1))"

text \<open>\<open>execute_background_dispatch\<close>, the body of the delivered message.\<close>

definition execute_background_dispatch ::
    "(nat \<Rightarrow> jobs \<Rightarrow> jobs) \<Rightarrow> instant \<Rightarrow> (string \<Rightarrow> job_task option) \<Rightarrow> uuid \<Rightarrow> uuid \<Rightarrow> jobs \<Rightarrow> string \<times> jobs" where
  "execute_background_dispatch h t registered k claim_token s =
     (case claim_dispatch t k claim_token s of
        (None, s1) \<Rightarrow> (''duplicate_or_stale'', s1)
      | (Some w, s1) \<Rightarrow> execute_claimed_dispatch h t registered w s1)"

section \<open>The system\<close>

text \<open>
  Between two transactions a publisher holds the row it is about to send and a worker the row it has
  claimed; both were read at the time of the claim. A process whose dispatch has failed holds what is
  left to do to its domain job; if it is lost, that is never done. A step is one commit, labelled with
  what it did. The domain tables may change at any time by other code. Nothing is assumed about the broker:
  a message can be lost, duplicated or delivered late.
\<close>

record job_system =
  js_jobs :: jobs
  js_publishers :: "job_dispatch list"
  js_workers :: "job_dispatch list"
  js_closings :: "job_closing list"

datatype job_event =
    Enqueued job_request job_dispatch
  | Publishing job_dispatch | Not_Published uuid
  | Settled job_dispatch "string option"
  | Started job_dispatch | Not_Started uuid
  | Ended job_dispatch task_outcome
  | Closed job_closing
  | Domain_Change

inductive job_step :: "job_system \<Rightarrow> job_event \<Rightarrow> job_system \<Rightarrow> bool" where
  enqueue: "enqueue_durable_task t q (js_jobs s) = Inr (w, d) \<Longrightarrow> job_step s (Enqueued q w) (s\<lparr>js_jobs := d\<rparr>)"
| publishing: "claim_publication t k (js_jobs s) = (Some w, d) \<Longrightarrow>
     job_step s (Publishing w) (s\<lparr>js_jobs := d, js_publishers := w # js_publishers s\<rparr>)"
| not_published: "claim_publication t k (js_jobs s) = (None, d) \<Longrightarrow> job_step s (Not_Published k) (s\<lparr>js_jobs := d\<rparr>)"
| settle: "w \<in> set (js_publishers s) \<Longrightarrow> settle_publication t w answer (js_jobs s) = (b, d) \<Longrightarrow>
     job_step s (Settled w answer) (s\<lparr>js_jobs := d\<rparr>)"
| start: "claim_dispatch t k token (js_jobs s) = (Some w, d) \<Longrightarrow>
     job_step s (Started w) (s\<lparr>js_jobs := d, js_workers := w # js_workers s\<rparr>)"
| not_started: "claim_dispatch t k token (js_jobs s) = (None, d) \<Longrightarrow> job_step s (Not_Started k) (s\<lparr>js_jobs := d\<rparr>)"
| finish: "w \<in> set (js_workers s) \<Longrightarrow> end_execution t w outcome (js_jobs s) = (c, d) \<Longrightarrow>
     job_step s (Ended w outcome) (s\<lparr>js_jobs := d, js_closings := (case c of None \<Rightarrow> [] | Some x \<Rightarrow> [x]) @ js_closings s\<rparr>)"
| close: "x \<in> set (js_closings s) \<Longrightarrow> close_next t x (js_jobs s) = (c, d) \<Longrightarrow>
     job_step s (Closed x)
       (s\<lparr>js_jobs := d, js_closings := (case c of None \<Rightarrow> [] | Some y \<Rightarrow> [y]) @ remove1 x (js_closings s)\<rparr>)"
| domain: "jb_dispatches d = jb_dispatches (js_jobs s) \<Longrightarrow> jb_next d = jb_next (js_jobs s) \<Longrightarrow>
     job_step s Domain_Change (s\<lparr>js_jobs := d\<rparr>)"

inductive_cases job_step_cases: "job_step s e s'"

inductive job_trace :: "job_system \<Rightarrow> job_event list \<Rightarrow> job_system \<Rightarrow> bool" where
  trace_nil: "job_trace s [] s"
| trace_step: "job_step s e s1 \<Longrightarrow> job_trace s1 es s2 \<Longrightarrow> job_trace s (e # es) s2"

inductive_simps job_trace_simps [simp]: "job_trace s [] s'" "job_trace s (e # es) s'"

lemma job_trace_append: "job_trace s (es @ fs) s2 \<longleftrightarrow> (\<exists>s1. job_trace s es s1 \<and> job_trace s1 fs s2)"
  by (induction es arbitrary: s) auto

text \<open>An invariant of the steps holds along every trace.\<close>

lemma trace_invariant:
  assumes "job_trace s es s'" "P s" "\<And>s e s1. job_step s e s1 \<Longrightarrow> P s \<Longrightarrow> P s1"
  shows "P s'"
  using assms(1,2) by (induction rule: job_trace.induct) (auto intro: assms(3))

section \<open>What the operations do to the rows\<close>

lemma get_put_dispatch:
  "get_dispatch k s = Some w \<Longrightarrow> jd_id w' = k \<Longrightarrow>
     get_dispatch j (put_dispatch w' s) = (if j = k then Some w' else get_dispatch j s)"
  using dispatch_table.get_put [of w' s w j] by simp

lemma get_dispatch_id: "get_dispatch k s = Some w \<Longrightarrow> jd_id w = k"
  by (rule dispatch_table.get_key)

lemma research_frame [simp]:
  "jb_dispatches (close_research_run t k error b s) = jb_dispatches s" "jb_next (close_research_run t k error b s) = jb_next s"
  by (simp_all add: close_research_run_def)

lemma domain_frame [simp]:
  "jb_dispatches (mark_terminal_domain_failure t w error u s) = jb_dispatches s"
  "jb_next (mark_terminal_domain_failure t w error u s) = jb_next s"
  "jb_dispatches (mark_retrying_domain_job w error s) = jb_dispatches s"
  "jb_next (mark_retrying_domain_job w error s) = jb_next s"
  "jb_dispatches (prepare_recovered_domain_job w s) = jb_dispatches s"
  "jb_next (prepare_recovered_domain_job w s) = jb_next s"
  by (auto simp: mark_terminal_domain_failure_def mark_retrying_domain_job_def prepare_recovered_domain_job_def
      split: option.splits)

lemma closing_frame [simp]:
  "jb_dispatches (snd (close_next t c s)) = jb_dispatches s" "jb_next (snd (close_next t c s)) = jb_next s"
  by (cases c; simp split: option.split)+

lemma get_dispatch_frame [simp]:
  "get_dispatch k (mark_terminal_domain_failure t w error u s) = get_dispatch k s"
  "get_dispatch k (mark_retrying_domain_job w error s) = get_dispatch k s"
  "get_dispatch k (prepare_recovered_domain_job w s) = get_dispatch k s"
  "get_dispatch k (s\<lparr>jb_next := n\<rparr>) = get_dispatch k s"
  "get_dispatch k (kick j s) = get_dispatch k s"
  by (simp_all add: get_dispatch_def kick_def)

lemma put_dispatch_frame [simp]: "jb_next (put_dispatch w s) = jb_next s" "jb_next (kick j s) = jb_next s"
  "jb_dispatches (kick j s) = jb_dispatches s"
  by (simp_all add: put_dispatch_def kick_def)

lemma rows_sel [simp]:
  "jd_id (uncertain_row t w) = jd_id w" "jd_id (publishing_row t a b w) = jd_id w"
  "jd_id (unpublished_row t n x w) = jd_id w" "jd_id (published_row t w) = jd_id w"
  "jd_id (exhausted_dispatch t w) = jd_id w" "jd_id (running_row t w) = jd_id w"
  "jd_id (failed_row_of t x c u n w) = jd_id w" "jd_id (succeeded_row t r w) = jd_id w"
  "jd_id (revived_row t q w) = jd_id w" "jd_id (new_dispatch t q queue k) = k"
  by (simp_all add: uncertain_row_def publishing_row_def unpublished_row_def published_row_def exhausted_dispatch_def
      running_row_def failed_row_of_def succeeded_row_def revived_row_def new_dispatch_def Let_def)

text \<open>
  A step changes at most one row: \<open>row_step n W e w w'\<close> says that the step labelled \<open>e\<close> replaces the row
  \<open>w\<close> by \<open>w'\<close>, where \<open>n\<close> is the next fresh UUID and \<open>W\<close> the rows held by workers.
\<close>

inductive row_step :: "uuid \<Rightarrow> job_dispatch list \<Rightarrow> job_event \<Rightarrow> job_dispatch \<Rightarrow> job_dispatch \<Rightarrow> bool"
  for n :: uuid and W :: "job_dispatch list" where
  revive: "jq_revive q \<Longrightarrow> jd_status w = Dp_Failed \<Longrightarrow>
     row_step n W (Enqueued q (revived_row t q w)) w (revived_row t q w)"
| publish: "jd_status w \<notin> set terminal_states \<Longrightarrow> due_for_publication t w \<Longrightarrow> \<not> lost_in_flight w \<Longrightarrow>
     row_step n W (Publishing (publishing_row t n (Suc n) w)) w (publishing_row t n (Suc n) w)"
| lose: "lost_in_flight w \<Longrightarrow> row_step n W (Not_Published (jd_id w)) w (uncertain_row t w)"
| unpublish: "jd_id v = jd_id w \<Longrightarrow> jd_status w = Dp_Publishing \<Longrightarrow> jd_token w = jd_token v \<Longrightarrow>
     row_step n W (Settled v (Some x)) w (unpublished_row t m y w)"
| publish_done: "jd_id v = jd_id w \<Longrightarrow> jd_status w = Dp_Publishing \<Longrightarrow> jd_token w = jd_token v \<Longrightarrow>
     row_step n W (Settled v None) w (published_row t w)"
| start: "jd_status w \<in> {Dp_Publishing, Dp_Published} \<Longrightarrow> int (jd_runs w) < jd_max_runs w \<Longrightarrow> jd_token w \<noteq> None \<Longrightarrow>
     row_step n W (Started (running_row t w)) w (running_row t w)"
| exhaust: "jd_status w \<in> {Dp_Publishing, Dp_Published} \<Longrightarrow> jd_max_runs w \<le> int (jd_runs w) \<Longrightarrow>
     row_step n W (Not_Started (jd_id w)) w (exhausted_dispatch t w)"
| fail: "v \<in> set W \<Longrightarrow> jd_id v = jd_id w \<Longrightarrow> jd_status w = Dp_Running \<Longrightarrow> jd_token w = jd_token v \<Longrightarrow>
     (case outcome of Returned _ \<Rightarrow> False | Forbidden \<Rightarrow> terminal | Unregistered \<Rightarrow> \<not> terminal | Raised y \<Rightarrow> terminal = raised_terminal v y) \<Longrightarrow>
     row_step n W (Ended v outcome) w (failed_row_of t x terminal u (jd_runs v) w)"
| succeed: "v \<in> set W \<Longrightarrow> jd_id v = jd_id w \<Longrightarrow> jd_status w = Dp_Running \<Longrightarrow> jd_token w = jd_token v \<Longrightarrow>
     row_step n W (Ended v (Returned r)) w (succeeded_row t r w)"

inductive_cases row_step_startedE: "row_step n W (Started v) w w'"
inductive_cases row_step_endedE: "row_step n W (Ended v outcome) w w'"

lemma row_step_id: "row_step n W e w w' \<Longrightarrow> jd_id w' = jd_id w"
  by (induction rule: row_step.induct) simp_all

definition appends :: "job_event \<Rightarrow> jobs \<Rightarrow> jobs \<Rightarrow> bool" where
  "appends e s s' \<longleftrightarrow> (\<exists>t q queue w. e = Enqueued q w \<and> w = new_dispatch t q queue (jb_next s) \<and>
     map_of durable_task_queues (jq_task q) = Some queue \<and> jb_dispatches s' = row_add w (jb_dispatches s) \<and>
     jb_next s' = Suc (jb_next s) \<and> (\<forall>v\<in>set (jb_dispatches s). jd_key w \<noteq> None \<longrightarrow> jd_key v \<noteq> jd_key w))"

definition replaces :: "job_dispatch list \<Rightarrow> job_event \<Rightarrow> job_dispatch \<Rightarrow> job_dispatch \<Rightarrow> jobs \<Rightarrow> jobs \<Rightarrow> bool" where
  "replaces W e w w' s s' \<longleftrightarrow> get_dispatch (jd_id w) s = Some w \<and> row_step (jb_next s) W e w w' \<and>
     jb_dispatches s' = row_put jd_id w' (jb_dispatches s) \<and> jb_next s \<le> jb_next s' \<and>
     (case e of Publishing _ \<Rightarrow> jb_next s' = jb_next s + 2 | _ \<Rightarrow> True)"

definition rows_move :: "job_dispatch list \<Rightarrow> job_event \<Rightarrow> jobs \<Rightarrow> jobs \<Rightarrow> bool" where
  "rows_move W e s s' \<longleftrightarrow> (jb_dispatches s' = jb_dispatches s \<and> jb_next s' = jb_next s \<and> (\<forall>w. e \<noteq> Publishing w \<and> e \<noteq> Started w)) \<or>
     appends e s s' \<or> (\<exists>w w'. replaces W e w w' s s')"

lemma rows_move_same:
  "jb_dispatches s' = jb_dispatches s \<Longrightarrow> jb_next s' = jb_next s \<Longrightarrow> (\<forall>w. e \<noteq> Publishing w \<and> e \<noteq> Started w) \<Longrightarrow> rows_move W e s s'"
  by (simp add: rows_move_def)

lemma rows_move_put:
  assumes "get_dispatch k s = Some w" "row_step (jb_next s) W e w w'" "jb_dispatches s' = jb_dispatches (put_dispatch w' s)"
    "jb_next s \<le> jb_next s'" "case e of Publishing _ \<Rightarrow> jb_next s' = jb_next s + 2 | _ \<Rightarrow> True"
  shows "rows_move W e s s'"
  using assms get_dispatch_id [OF assms(1)] unfolding rows_move_def replaces_def by (auto simp: put_dispatch_def)

lemma dispatch_with_key_None: "dispatch_with_key key s = None \<longleftrightarrow> (\<forall>v\<in>set (jb_dispatches s). jd_key v \<noteq> Some key)"
  by (auto simp: dispatch_with_key_def find_None_iff)

lemma dispatch_with_key_Some: "dispatch_with_key key s = Some w \<Longrightarrow> w \<in> set (jb_dispatches s) \<and> jd_key w = Some key"
  by (auto simp: dispatch_with_key_def find_Some_iff)

text \<open>The table keeps its primary keys and its deduplication keys unique.\<close>

definition keys_ok :: "jobs \<Rightarrow> bool" where
  "keys_ok s \<longleftrightarrow> distinct (map jd_id (jb_dispatches s)) \<and> (\<forall>w\<in>set (jb_dispatches s). jd_id w < jb_next s) \<and>
     (\<forall>v\<in>set (jb_dispatches s). \<forall>w\<in>set (jb_dispatches s). jd_key v \<noteq> None \<longrightarrow> jd_key v = jd_key w \<longrightarrow> v = w)"

lemma keys_ok_get: "keys_ok s \<Longrightarrow> w \<in> set (jb_dispatches s) \<Longrightarrow> get_dispatch (jd_id w) s = Some w"
  by (simp add: keys_ok_def get_dispatch_def row_get_distinct_iff)

lemma get_dispatch_mem: "get_dispatch k s = Some w \<Longrightarrow> w \<in> set (jb_dispatches s)"
  unfolding get_dispatch_def by (rule row_get_in_set)

lemma enqueue_moves:
  assumes "keys_ok s" "enqueue_durable_task t q s = Inr (w, d)"
  shows "rows_move W (Enqueued q w) s d"
proof -
  obtain queue where queue: "map_of durable_task_queues (jq_task q) = Some queue"
    using assms(2) by (auto simp: enqueue_durable_task_def split: option.splits)
  let ?found = "case jq_key q of None \<Rightarrow> None | Some key \<Rightarrow> if key = [] then None else dispatch_with_key key s"
  show ?thesis
  proof (cases ?found)
    case None
    have w: "w = new_dispatch t q queue (jb_next s)" and d: "jb_dispatches d = row_add w (jb_dispatches s)" "jb_next d = Suc (jb_next s)"
      using assms(2) queue None by (auto simp: enqueue_durable_task_def create_dispatch_def Let_def kick_def)
    have "\<forall>v\<in>set (jb_dispatches s). jd_key w \<noteq> None \<longrightarrow> jd_key v \<noteq> jd_key w"
      using None unfolding w by (auto simp: new_dispatch_def dispatch_with_key_None split: option.splits if_splits)
    then have "appends (Enqueued q w) s d" using w d queue unfolding appends_def by blast
    then show ?thesis by (simp add: rows_move_def)
  next
    case (Some v)
    then have v: "get_dispatch (jd_id v) s = Some v"
      using keys_ok_get [OF assms(1)] by (auto dest: dispatch_with_key_Some split: option.splits if_splits)
    show ?thesis
    proof (cases "jq_revive q \<and> jd_status v = Dp_Failed")
      case True
      then have "w = revived_row t q v" "d = kick (jd_id v) (put_dispatch (revived_row t q v) s)"
        using assms(2) queue Some by (auto simp: enqueue_durable_task_def)
      then show ?thesis using True by (intro rows_move_put [OF v, of _ _ "revived_row t q v"]) (auto intro: row_step.revive)
    next
      case False
      then have "w = v" "d = kick (jd_id v) s" using assms(2) queue Some by (auto simp: enqueue_durable_task_def)
      then show ?thesis by (intro rows_move_same) simp_all
    qed
  qed
qed

lemma claim_publication_moves:
  assumes "claim_publication t k s = (r, d)"
  shows "rows_move W (case r of Some w \<Rightarrow> Publishing w | None \<Rightarrow> Not_Published k) s d"
proof (cases "get_dispatch k s")
  case None
  then show ?thesis using assms by (intro rows_move_same) (auto simp: claim_publication_def)
next
  case (Some w)
  note id = get_dispatch_id [OF Some]
  consider "jd_status w \<in> set terminal_states \<or> \<not> due_for_publication t w"
    | "\<not> (jd_status w \<in> set terminal_states \<or> \<not> due_for_publication t w)" "lost_in_flight w"
    | "\<not> (jd_status w \<in> set terminal_states \<or> \<not> due_for_publication t w)" "\<not> lost_in_flight w" by blast
  then show ?thesis
  proof cases
    case 1
    then show ?thesis using assms Some by (intro rows_move_same) (auto simp: claim_publication_def)
  next
    case 2
    then show ?thesis using assms Some row_step.lose [of w "jb_next s" W t] id
      by (intro rows_move_put [OF Some, of _ _ "uncertain_row t w"]) (auto simp: claim_publication_def)
  next
    case 3
    then show ?thesis using assms Some
      by (intro rows_move_put [OF Some, of _ _ "publishing_row t (jb_next s) (Suc (jb_next s)) w"])
        (auto simp: claim_publication_def Let_def put_dispatch_def intro: row_step.publish)
  qed
qed

lemma update_claimed_moves:
  assumes "update_claimed k st tok f s = (b, d)"
    "\<And>w. get_dispatch k s = Some w \<Longrightarrow> jd_status w = st \<Longrightarrow> jd_token w = tok \<Longrightarrow> row_step (jb_next s) W e w (f w)"
    "\<forall>w. e \<noteq> Publishing w \<and> e \<noteq> Started w"
  shows "rows_move W e s d"
proof (cases "\<exists>w. get_dispatch k s = Some w \<and> jd_status w = st \<and> jd_token w = tok")
  case True
  then obtain w where w: "get_dispatch k s = Some w" "jd_status w = st" "jd_token w = tok" by blast
  then have "d = put_dispatch (f w) s" using assms(1) by (simp add: update_claimed_def)
  then show ?thesis using assms(3)
    by (intro rows_move_put [OF w(1) assms(2) [OF w]]) (auto split: job_event.split)
next
  case False
  then have "d = s" using assms(1) by (auto simp: update_claimed_def split: option.splits if_splits)
  then show ?thesis using assms(3) by (intro rows_move_same) auto
qed

lemma settle_moves:
  assumes "settle_publication t v answer s = (b, d)"
  shows "rows_move W (Settled v answer) s d"
proof (cases answer)
  case None
  obtain b' where "update_claimed (jd_id v) Dp_Publishing (jd_token v) (published_row t) s = (b', d)"
    using assms None by (cases "update_claimed (jd_id v) Dp_Publishing (jd_token v) (published_row t) s") (simp add: settle_publication_def)
  then show ?thesis by (rule update_claimed_moves) (auto simp: None dest: get_dispatch_id intro!: row_step.publish_done)
next
  case (Some x)
  let ?f = "unpublished_row t (jd_publishes v) (take 2000 x)"
  obtain b' where "update_claimed (jd_id v) Dp_Publishing (jd_token v) ?f s = (b', d)"
    using assms Some by (cases "update_claimed (jd_id v) Dp_Publishing (jd_token v) ?f s") (simp add: settle_publication_def)
  then show ?thesis by (rule update_claimed_moves) (auto simp: Some dest: get_dispatch_id intro!: row_step.unpublish)
qed

lemma claim_dispatch_moves:
  assumes "claim_dispatch t k token s = (r, d)"
  shows "rows_move W (case r of Some w \<Rightarrow> Started w | None \<Rightarrow> Not_Started k) s d"
proof (cases "get_dispatch k s")
  case None
  then show ?thesis using assms by (intro rows_move_same) (auto simp: claim_dispatch_def)
next
  case (Some w)
  note id = get_dispatch_id [OF Some]
  let ?go = "jd_status w \<notin> set terminal_states \<and> jd_token w = Some token \<and> jd_status w \<in> {Dp_Publishing, Dp_Published}"
  consider "\<not> ?go" | "?go" "jd_max_runs w \<le> int (jd_runs w)" | "?go" "int (jd_runs w) < jd_max_runs w" by linarith
  then show ?thesis
  proof cases
    case 1
    then have "r = None \<and> d = s" using assms Some by (auto simp: claim_dispatch_def split: if_splits)
    then show ?thesis by (intro rows_move_same) simp_all
  next
    case 2
    then show ?thesis using assms Some row_step.exhaust [of w "jb_next s" W t] id
      by (intro rows_move_put [OF Some, of _ _ "exhausted_dispatch t w"]) (auto simp: claim_dispatch_def)
  next
    case 3
    then show ?thesis using assms Some
      by (intro rows_move_put [OF Some, of _ _ "running_row t w"]) (auto simp: claim_dispatch_def intro!: row_step.start)
  qed
qed

lemma end_failed_moves:
  assumes "v \<in> set W"
    "case outcome of Returned _ \<Rightarrow> False | Forbidden \<Rightarrow> terminal | Unregistered \<Rightarrow> \<not> terminal | Raised y \<Rightarrow> terminal = raised_terminal v y"
    "end_failed t v x terminal u s = (c, d)"
  shows "rows_move W (Ended v outcome) s d"
proof -
  let ?f = "failed_row_of t x terminal u (jd_runs v)"
  obtain b s1 where up: "update_claimed (jd_id v) Dp_Running (jd_token v) ?f s = (b, s1)"
    by (cases "update_claimed (jd_id v) Dp_Running (jd_token v) ?f s")
  have "rows_move W (Ended v outcome) s s1"
    by (rule update_claimed_moves [OF up]) (auto dest: get_dispatch_id intro!: row_step.fail [OF assms(1) _ _ _ assms(2)])
  moreover have "d = s1" using up assms(3) by (auto simp: end_failed_def split: bool.splits)
  ultimately show ?thesis by simp
qed

lemma end_moves:
  assumes "v \<in> set W" "end_execution t v outcome s = (c, d)"
  shows "rows_move W (Ended v outcome) s d"
proof (cases outcome)
  case (Returned j)
  let ?u = "update_claimed (jd_id v) Dp_Running (jd_token v) (succeeded_row t j) s"
  obtain b where "?u = (b, d)" using assms(2) Returned by (cases ?u) (simp add: end_execution_def)
  then show ?thesis
    by (rule update_claimed_moves) (auto simp: Returned dest: get_dispatch_id intro!: row_step.succeed [OF assms(1)])
next
  case (Raised x)
  then show ?thesis using assms(2) by (auto simp: end_execution_def intro!: end_failed_moves [OF assms(1)])
next
  case Forbidden
  then show ?thesis using assms(2) by (auto simp: end_execution_def intro!: end_failed_moves [OF assms(1)])
next
  case Unregistered
  then show ?thesis using assms(2) by (auto simp: end_execution_def intro!: end_failed_moves [OF assms(1)])
qed

text \<open>The summary: what a step does to the dispatch table.\<close>

lemma job_step_moves:
  assumes "job_step s e s'" "keys_ok (js_jobs s)"
  shows "rows_move (js_workers s) e (js_jobs s) (js_jobs s')"
  using assms(1)
proof (cases rule: job_step.cases)
  case (enqueue t q w d)
  then show ?thesis using enqueue_moves [OF assms(2)] by simp
next
  case (publishing t k w d)
  then show ?thesis using claim_publication_moves [of t k "js_jobs s" "Some w"] by simp
next
  case (not_published t k d)
  then show ?thesis using claim_publication_moves [of t k "js_jobs s" None] by simp
next
  case (settle w answer t b d)
  then show ?thesis using settle_moves by simp
next
  case (start t k token w d)
  then show ?thesis using claim_dispatch_moves [of t k token "js_jobs s" "Some w"] by simp
next
  case (not_started t k token d)
  then show ?thesis using claim_dispatch_moves [of t k token "js_jobs s" None] by simp
next
  case (finish w t outcome c d)
  then show ?thesis using end_moves by simp
next
  case (close x t c d)
  have "jb_dispatches d = jb_dispatches (js_jobs s)" "jb_next d = jb_next (js_jobs s)"
    using close(4) closing_frame [of t x "js_jobs s"] by simp_all
  then show ?thesis using close(1,2) by (intro rows_move_same) simp_all
next
  case (domain d)
  then show ?thesis by (intro rows_move_same) simp_all
qed

section \<open>Well-formed tables\<close>

fun status_ok :: "job_dispatch \<Rightarrow> dispatch_status \<Rightarrow> bool" where
  "status_ok w Dp_Pending \<longleftrightarrow> jd_token w = None \<and> jd_lease w = None"
| "status_ok w Dp_Publishing \<longleftrightarrow> jd_token w \<noteq> None \<and> jd_lease w \<noteq> None"
| "status_ok w Dp_Published \<longleftrightarrow> jd_token w \<noteq> None \<and> jd_lease w \<noteq> None"
| "status_ok w Dp_Running \<longleftrightarrow> jd_token w \<noteq> None \<and> jd_lease w \<noteq> None \<and> 1 \<le> jd_runs w"
| "status_ok w _ \<longleftrightarrow> jd_lease w = None"

definition dispatch_ok :: "uuid \<Rightarrow> job_dispatch \<Rightarrow> bool" where
  "dispatch_ok n w \<longleftrightarrow> int (jd_runs w) \<le> jd_max_runs w \<and> 1 \<le> jd_max_runs w \<and> jd_max_runs w \<le> 25 \<and>
     60 \<le> jd_timeout w \<and> jd_timeout w \<le> 7200 \<and> map_of durable_task_queues (jd_task w) = Some (jd_queue w) \<and>
     status_ok w (jd_status w) \<and> (\<forall>t. jd_token w = Some t \<longrightarrow> t < n)"

text \<open>What a worker holds: a row as it was claimed, of a dispatch that has not been claimed with the same
  token again.\<close>

definition worker_ok :: "jobs \<Rightarrow> job_dispatch \<Rightarrow> bool" where
  "worker_ok s v \<longleftrightarrow> (\<exists>w t. get_dispatch (jd_id v) s = Some w \<and> jd_task w = jd_task v \<and> jd_args w = jd_args v \<and>
     jd_max_runs w = jd_max_runs v \<and> jd_token v = Some t \<and> t < jb_next s \<and>
     (jd_token w = Some t \<longrightarrow> jd_status w \<notin> {Dp_Publishing, Dp_Published} \<and> (jd_status w = Dp_Running \<longrightarrow> jd_runs w = jd_runs v)))"

definition system_ok :: "job_system \<Rightarrow> bool" where
  "system_ok s \<longleftrightarrow> keys_ok (js_jobs s) \<and> (\<forall>w\<in>set (jb_dispatches (js_jobs s)). dispatch_ok (jb_next (js_jobs s)) w) \<and>
     (\<forall>v\<in>set (js_workers s). worker_ok (js_jobs s) v)"

lemmas row_defs = revived_row_def publishing_row_def uncertain_row_def unpublished_row_def published_row_def
  running_row_def exhausted_dispatch_def failed_row_of_def succeeded_row_def Let_def

lemma row_step_ok: "row_step n W e w w' \<Longrightarrow> dispatch_ok n w \<Longrightarrow> n + 2 \<le> m \<or> (\<forall>v. e \<noteq> Publishing v) \<and> n \<le> m \<Longrightarrow> dispatch_ok m w'"
  by (induction rule: row_step.induct) (auto simp: dispatch_ok_def row_defs terminal_states_def)

lemma row_step_fixed:
  "row_step n W e w w' \<Longrightarrow>
     jd_task w' = jd_task w \<and> jd_args w' = jd_args w \<and> jd_max_runs w' = jd_max_runs w \<and> jd_key w' = jd_key w"
  by (induction rule: row_step.induct) (auto simp: row_defs)

lemma row_step_token:
  "row_step n W e w w' \<Longrightarrow> jd_token w' = Some t \<Longrightarrow> t < n \<Longrightarrow> jd_token w = Some t"
  by (induction rule: row_step.induct) (auto simp: row_defs split: if_splits)

lemma row_step_worker:
  "row_step n W e w w' \<Longrightarrow> jd_token w' = Some t \<Longrightarrow> t < n \<Longrightarrow>
     jd_token w = Some t \<longrightarrow> jd_status w \<notin> {Dp_Publishing, Dp_Published} \<and> (jd_status w = Dp_Running \<longrightarrow> jd_runs w = r) \<Longrightarrow>
     jd_status w' \<notin> {Dp_Publishing, Dp_Published} \<and> (jd_status w' = Dp_Running \<longrightarrow> jd_runs w' = r)"
  by (induction rule: row_step.induct) (auto simp: row_defs split: if_splits)

lemma replaces_get:
  assumes "replaces W e w w' s s'"
  shows "get_dispatch k s' = (if k = jd_id w then Some w' else get_dispatch k s)"
proof -
  have "get_dispatch k s' = get_dispatch k (put_dispatch w' s)"
    using assms by (simp add: replaces_def get_dispatch_def put_dispatch_def)
  moreover have "jd_id w' = jd_id w" using assms row_step_id by (auto simp: replaces_def)
  ultimately show ?thesis using assms get_put_dispatch [of "jd_id w" s w w' k] by (simp add: replaces_def)
qed

lemma appends_get:
  assumes "appends e s s'" "get_dispatch k s = Some w"
  shows "get_dispatch k s' = Some w"
  using assms by (auto simp: appends_def get_dispatch_def table_simps)

lemma rows_move_get:
  assumes "rows_move W e s s'" "get_dispatch k s = Some w"
  obtains w' where "get_dispatch k s' = Some w'" "w' = w \<or> row_step (jb_next s) W e w w'"
proof -
  from assms(1) consider "jb_dispatches s' = jb_dispatches s" | "appends e s s'" | v v' where "replaces W e v v' s s'"
    by (auto simp: rows_move_def)
  then show thesis
  proof cases
    case 1
    then show ?thesis using assms(2) that [of w] by (simp add: get_dispatch_def)
  next
    case 2
    then show ?thesis using appends_get assms(2) that [of w] by simp
  next
    case (3 v v')
    then show ?thesis using replaces_get [OF 3, of k] assms(2) that
      by (cases "k = jd_id v") (auto simp: replaces_def)
  qed
qed

lemma rows_move_next: "rows_move W e s s' \<Longrightarrow> jb_next s \<le> jb_next s'"
  by (auto simp: rows_move_def appends_def replaces_def)

lemma replaces_mem:
  assumes "replaces W e w w' s s'" "keys_ok s" "x \<in> set (jb_dispatches s')"
  shows "x = w' \<or> (x \<in> set (jb_dispatches s) \<and> jd_id x \<noteq> jd_id w)"
  using assms row_step_id by (auto simp: replaces_def row_put_def split: if_splits)

lemma rows_move_keys:
  assumes "rows_move W e s s'" "keys_ok s"
  shows "keys_ok s'"
proof -
  from assms(1) consider "jb_dispatches s' = jb_dispatches s" "jb_next s' = jb_next s" | "appends e s s'"
    | v v' where "replaces W e v v' s s'"
    by (auto simp: rows_move_def)
  then show ?thesis
  proof cases
    case 1
    then have "keys_ok s' = keys_ok s" unfolding keys_ok_def 1 by (intro refl)
    then show ?thesis using assms(2) by blast
  next
    case 2
    then obtain t q queue w where w: "w = new_dispatch t q queue (jb_next s)" "jb_dispatches s' = row_add w (jb_dispatches s)"
        "jb_next s' = Suc (jb_next s)" "\<forall>v\<in>set (jb_dispatches s). jd_key w \<noteq> None \<longrightarrow> jd_key v \<noteq> jd_key w"
      by (auto simp: appends_def)
    have "jd_id w = jb_next s" by (simp add: w(1))
    then show ?thesis using assms(2) w(2-4) unfolding keys_ok_def by (auto simp: row_add_def less_Suc_eq)
  next
    case (3 v v')
    have k: "get_dispatch (jd_id v) s = Some v" "row_step (jb_next s) W e v v'" "jb_next s \<le> jb_next s'"
      using 3 by (auto simp: replaces_def)
    have "map jd_id (jb_dispatches s') = map jd_id (jb_dispatches s)"
      using 3 by (simp add: replaces_def map_pk_row_put)
    then have "distinct (map jd_id (jb_dispatches s'))" "\<forall>w\<in>set (jb_dispatches s'). jd_id w < jb_next s'"
      using assms(2) k(3) unfolding keys_ok_def by (metis, metis (no_types, lifting) image_iff list.set_map order_less_le_trans)
    moreover have "x = y" if "x \<in> set (jb_dispatches s')" "y \<in> set (jb_dispatches s')" "jd_key x \<noteq> None" "jd_key x = jd_key y" for x y
      using replaces_mem [OF 3 assms(2) that(1)] replaces_mem [OF 3 assms(2) that(2)] that(3,4) assms(2)
        row_step_fixed [OF k(2)] get_dispatch_mem [OF k(1)] unfolding keys_ok_def by metis
    ultimately show ?thesis unfolding keys_ok_def by blast
  qed
qed

lemma rows_move_ok:
  assumes "rows_move W e s s'" "keys_ok s" "\<forall>w\<in>set (jb_dispatches s). dispatch_ok (jb_next s) w"
  shows "\<forall>w\<in>set (jb_dispatches s'). dispatch_ok (jb_next s') w"
proof -
  have mono: "dispatch_ok m w" if "dispatch_ok n w" "n \<le> m" for n m w using that by (auto simp: dispatch_ok_def)
  from assms(1) consider "jb_dispatches s' = jb_dispatches s" "jb_next s' = jb_next s" | "appends e s s'"
    | v v' where "replaces W e v v' s s'"
    by (auto simp: rows_move_def)
  then show ?thesis
  proof cases
    case 1
    then show ?thesis using assms(3) by simp
  next
    case 2
    then obtain t q queue where w: "map_of durable_task_queues (jq_task q) = Some queue"
        "jb_dispatches s' = row_add (new_dispatch t q queue (jb_next s)) (jb_dispatches s)" "jb_next s' = Suc (jb_next s)"
      by (auto simp: appends_def)
    then have "dispatch_ok (jb_next s') (new_dispatch t q queue (jb_next s))" by (simp add: dispatch_ok_def new_dispatch_def)
    then show ?thesis using w(2,3) assms(3) by (auto simp: row_add_def intro: mono)
  next
    case (3 v v')
    then have "dispatch_ok (jb_next s) v" using assms(3) get_dispatch_mem by (auto simp: replaces_def)
    then have "dispatch_ok (jb_next s') v'"
      using 3 row_step_ok [of "jb_next s" W e v v' "jb_next s'"] by (cases e) (auto simp: replaces_def)
    then show ?thesis using replaces_mem [OF 3 assms(2)] assms(3) rows_move_next [OF assms(1)] by (blast intro: mono)
  qed
qed

lemma row_step_worker_ok:
  assumes "worker_ok s v" "get_dispatch (jd_id v) s = Some w" "get_dispatch (jd_id v) s' = Some w'"
    "w' = w \<or> row_step (jb_next s) W e w w'" "jb_next s \<le> jb_next s'"
  shows "worker_ok s' v"
proof -
  obtain t where v: "jd_task w = jd_task v" "jd_args w = jd_args v" "jd_max_runs w = jd_max_runs v" "jd_token v = Some t"
      "t < jb_next s"
      "jd_token w = Some t \<longrightarrow> jd_status w \<notin> {Dp_Publishing, Dp_Published} \<and> (jd_status w = Dp_Running \<longrightarrow> jd_runs w = jd_runs v)"
    using assms(1,2) by (auto simp: worker_ok_def)
  have "jd_task w' = jd_task v \<and> jd_args w' = jd_args v \<and> jd_max_runs w' = jd_max_runs v"
    using assms(4) v(1-3) row_step_fixed by metis
  moreover have "jd_token w' = Some t \<longrightarrow> jd_status w' \<notin> {Dp_Publishing, Dp_Published} \<and> (jd_status w' = Dp_Running \<longrightarrow> jd_runs w' = jd_runs v)"
    using assms(4) v(5,6) row_step_worker [of "jb_next s" W e w w' t "jd_runs v"] by blast
  ultimately show ?thesis using assms(3,5) v(4,5) unfolding worker_ok_def by (intro exI conjI) (assumption | simp)+
qed

lemma started_worker_ok:
  assumes "claim_dispatch t k token s = (Some w, s')" "\<forall>w\<in>set (jb_dispatches s). dispatch_ok (jb_next s) w"
  shows "worker_ok s' w \<and> get_dispatch (jd_id w) s' = Some w \<and> jd_status w = Dp_Running"
proof -
  obtain x where x: "get_dispatch k s = Some x" "jd_token x = Some token" "w = running_row t x"
      "s' = prepare_recovered_domain_job w (put_dispatch w s)"
    using assms(1) by (auto simp: claim_dispatch_def split: option.splits if_splits)
  have id: "jd_id w = k" using get_dispatch_id [OF x(1)] by (simp add: x(3))
  have g: "get_dispatch k s' = Some w" using get_put_dispatch [OF x(1) id] by (simp add: x(4))
  have "token < jb_next s" using assms(2) get_dispatch_mem [OF x(1)] x(2) by (auto simp: dispatch_ok_def)
  moreover have "jb_next s' = jb_next s" by (simp add: x(4))
  moreover have "jd_token w = Some token" "jd_status w = Dp_Running" using x(2) by (simp_all add: x(3) running_row_def)
  ultimately show ?thesis using g id unfolding worker_ok_def by auto
qed

lemma job_step_ok:
  assumes "job_step s e s'" "system_ok s"
  shows "system_ok s'"
proof -
  have ok: "keys_ok (js_jobs s)" "\<forall>w\<in>set (jb_dispatches (js_jobs s)). dispatch_ok (jb_next (js_jobs s)) w"
      "\<forall>v\<in>set (js_workers s). worker_ok (js_jobs s) v"
    using assms(2) by (auto simp: system_ok_def)
  note m = job_step_moves [OF assms(1) ok(1)]
  have old: "worker_ok (js_jobs s') v" if "v \<in> set (js_workers s)" for v
  proof -
    have v: "worker_ok (js_jobs s) v" using ok(3) that by blast
    then have "get_dispatch (jd_id v) (js_jobs s) \<noteq> None" unfolding worker_ok_def by force
    then obtain w where w: "get_dispatch (jd_id v) (js_jobs s) = Some w" by blast
    obtain w' where w': "get_dispatch (jd_id v) (js_jobs s') = Some w'" "w' = w \<or> row_step (jb_next (js_jobs s)) (js_workers s) e w w'"
      using rows_move_get [OF m w] by blast
    show ?thesis by (rule row_step_worker_ok [OF v w w' rows_move_next [OF m]])
  qed
  have "worker_ok (js_jobs s') v" if "v \<in> set (js_workers s')" for v
    using assms(1)
  proof (cases rule: job_step.cases)
    case (start t k token w d)
    then have "v = w \<or> v \<in> set (js_workers s)" "worker_ok (js_jobs s') w"
      using that started_worker_ok [OF start(3) ok(2)] by auto
    then show ?thesis using old by blast
  qed (use that old in simp_all)
  then show ?thesis using rows_move_keys [OF m ok(1)] rows_move_ok [OF m ok(1,2)] by (simp add: system_ok_def)
qed

lemma job_trace_ok: "job_trace s es s' \<Longrightarrow> system_ok s \<Longrightarrow> system_ok s'"
  by (rule trace_invariant [where P = system_ok]) (auto intro: job_step_ok)

text \<open>Two workers never hold the same claim: a token starts one execution.\<close>

definition workers_apart :: "job_system \<Rightarrow> bool" where
  "workers_apart s \<longleftrightarrow> (\<forall>u\<in>set (js_workers s). \<forall>v\<in>set (js_workers s).
     jd_id u = jd_id v \<longrightarrow> jd_token u = jd_token v \<longrightarrow> u = v)"

lemma claimed_apart:
  assumes "claim_dispatch t k token s = (Some w, d)" "worker_ok s u" "jd_id u = jd_id w"
  shows "jd_token u \<noteq> jd_token w"
proof -
  obtain x where x: "get_dispatch k s = Some x" "jd_token x = Some token" "w = running_row t x"
      "jd_status x \<in> {Dp_Publishing, Dp_Published}"
    using assms(1) by (auto simp: claim_dispatch_def split: option.splits if_splits)
  have "jd_id u = k" "jd_token w = Some token"
    using assms(3) get_dispatch_id [OF x(1)] x(2,3) by (simp_all add: running_row_def)
  then show ?thesis using assms(2) x(1,2,4) by (auto simp: worker_ok_def)
qed

lemma job_step_apart:
  assumes "job_step s e s'" "system_ok s" "workers_apart s"
  shows "workers_apart s'"
  using assms(1)
proof (cases rule: job_step.cases)
  case (start t k token w d)
  have "jd_token u \<noteq> jd_token w" if "u \<in> set (js_workers s)" "jd_id u = jd_id w" for u
    using claimed_apart [OF start(3) _ that(2)] assms(2) that(1) by (auto simp: system_ok_def)
  then show ?thesis using assms(3) start(2) unfolding workers_apart_def by simp metis
qed (use assms(3) in \<open>simp_all add: workers_apart_def\<close>)

lemma job_step_workers: "job_step s e s' \<Longrightarrow> set (js_workers s) \<subseteq> set (js_workers s')"
  by (cases rule: job_step.cases) auto

section \<open>The rows stay well formed\<close>

lemma distinct_keys:
  assumes "distinct (map jd_id rows)" "\<forall>v\<in>set rows. \<forall>w\<in>set rows. jd_key v \<noteq> None \<longrightarrow> jd_key v = jd_key w \<longrightarrow> v = w"
  shows "distinct (filter (\<lambda>k. k \<noteq> None) (map jd_key rows))"
  using assms
proof (induction rows)
  case Nil
  then show ?case by simp
next
  case (Cons a rows)
  have ids: "distinct (map jd_id rows)" using Cons.prems(1) by simp
  have "\<forall>v\<in>set rows. \<forall>w\<in>set rows. jd_key v \<noteq> None \<longrightarrow> jd_key v = jd_key w \<longrightarrow> v = w"
    using Cons.prems(2) by (meson list.set_intros(2))
  then have "distinct (filter (\<lambda>k. k \<noteq> None) (map jd_key rows))" by (rule Cons.IH [OF ids])
  moreover have False if "jd_key a \<noteq> None" "v \<in> set rows" "jd_key v = jd_key a" for v
  proof -
    have "v = a" using Cons.prems(2) that by (metis list.set_intros)
    then show False using Cons.prems(1) that(2) by auto
  qed
  ultimately show ?case by auto
qed

text \<open>C23: Whatever publishers and workers do, in any order, losing and duplicating messages: keys are
  unique, so a deduplication key stands for one job; a row is only ever queued for its own
  allowlisted queue, has not run more often than its limit of at most 25, waits without a lease and
  is in flight only with a token and a lease that runs out, so that no row is stuck.\<close>

theorem dispatch_rows_stay_well_formed:
  assumes "job_trace s es s'" "jb_dispatches (js_jobs s) = []" "js_workers s = []"
  shows "distinct (map jd_id (jb_dispatches (js_jobs s'))) \<and>
     distinct (filter (\<lambda>k. k \<noteq> None) (map jd_key (jb_dispatches (js_jobs s')))) \<and>
     list_all (\<lambda>w. int (jd_runs w) \<le> jd_max_runs w \<and> jd_max_runs w \<le> 25 \<and>
       map_of durable_task_queues (jd_task w) = Some (jd_queue w) \<and> status_ok w (jd_status w)) (jb_dispatches (js_jobs s'))"
proof -
  have "system_ok s" using assms(2,3) by (simp add: system_ok_def keys_ok_def)
  then have "system_ok s'" by (rule job_trace_ok [OF assms(1)])
  then have k: "keys_ok (js_jobs s')" and d: "\<forall>w\<in>set (jb_dispatches (js_jobs s')). dispatch_ok (jb_next (js_jobs s')) w"
    by (auto simp: system_ok_def)
  have "distinct (map jd_id (jb_dispatches (js_jobs s')))"
      "distinct (filter (\<lambda>k. k \<noteq> None) (map jd_key (jb_dispatches (js_jobs s'))))"
    using k distinct_keys [of "jb_dispatches (js_jobs s')"] unfolding keys_ok_def by blast+
  then show ?thesis using d by (auto simp: list_all_iff dispatch_ok_def)
qed

end
