(* ===== verification/Delivery.thy ===== *)
theory Delivery
  imports Dispatch
begin

text \<open>
  What the durable dispatcher guarantees to the jobs (\<^verbatim>\<open>apps/core/dispatch.py\<close>), over all traces of its
  step relation: an external effect is not repeated on its own, a worker or publisher that lost its
  token changes nothing, a failed dispatch closes its domain job, and a dispatch whose messages get
  through comes to an end however its workers behave.
\<close>

section \<open>A sample trace\<close>

definition demo_jobs :: jobs where
  "demo_jobs =
     \<lparr>jb_dispatches = [], jb_parse = [], jb_bulk = [],
      jb_media = [\<lparr>md_pk = 3, md_status = Md_Queued, md_code = [], md_error = [], md_finished = None, md_provider_job = [],
         md_response = Rs_None\<rparr>],
      jb_images = [], jb_runs = [], jb_workflows = [], jb_searches = [], jb_accounts = [], jb_endpoints = [], jb_listings = [],
      jb_next = 10, jb_kicks = []\<rparr>"

definition demo_request :: job_request where
  "demo_request =
     \<lparr>jq_task = media_task, jq_args = [JInt 3], jq_kwargs = [], jq_key = Some ''media-3'', jq_available = None,
      jq_max_runs = 3, jq_timeout = 3700, jq_revive = False\<rparr>"

definition demo_safe :: task_outcome where
  "demo_safe = Raised \<lparr>te_safe_retry = True, te_uncertain = False, te_text = ''not submitted''\<rparr>"

definition fresh_system :: "job_system \<Rightarrow> bool" where
  "fresh_system s \<longleftrightarrow> jb_dispatches (js_jobs s) = [] \<and> js_publishers s = [] \<and> js_workers s = [] \<and> js_closings s = []"

lemma fresh_ok: "fresh_system s \<Longrightarrow> system_ok s" "fresh_system s \<Longrightarrow> workers_apart s"
  by (simp_all add: fresh_system_def system_ok_def keys_ok_def workers_apart_def)

definition demo_system :: job_system where
  "demo_system = \<lparr>js_jobs = demo_jobs, js_publishers = [], js_workers = [], js_closings = []\<rparr>"

lemma demo_fresh: "fresh_system demo_system"
  by (simp add: fresh_system_def demo_system_def demo_jobs_def)

text \<open>The job is enqueued, published, claimed, put back before anything was submitted, and claimed again.\<close>

definition demo_row :: job_dispatch where
  "demo_row = new_dispatch 0 demo_request ''media_processing'' 10"

definition demo_sent :: job_dispatch where "demo_sent = publishing_row 0 11 12 demo_row"
definition demo_held :: job_dispatch where "demo_held = running_row 0 demo_sent"

definition demo_queued_system :: job_system where
  "demo_queued_system = demo_system\<lparr>js_jobs := kick 10 (demo_jobs\<lparr>jb_dispatches := [demo_row], jb_next := 11\<rparr>)\<rparr>"

definition demo_sent_system :: job_system where
  "demo_sent_system = demo_queued_system
     \<lparr>js_jobs := (js_jobs demo_queued_system)\<lparr>jb_dispatches := [demo_sent], jb_next := 13\<rparr>, js_publishers := [demo_sent]\<rparr>"

definition demo_held_system :: job_system where
  "demo_held_system = demo_sent_system
     \<lparr>js_jobs := (js_jobs demo_sent_system)\<lparr>jb_dispatches := [demo_held]\<rparr>, js_workers := [demo_held]\<rparr>"

lemmas demo_defs = demo_jobs_def demo_request_def demo_system_def demo_row_def demo_sent_def demo_held_def demo_queued_system_def
  demo_sent_system_def demo_held_system_def

lemma demo_table: "map_of durable_task_queues media_task = Some ''media_processing''"
  by (simp add: durable_task_queues_def media_task_def)

lemma demo_enqueued: "job_step demo_system (Enqueued demo_request demo_row) demo_queued_system"
proof -
  have "enqueue_durable_task 0 demo_request (js_jobs demo_system) = Inr (demo_row, js_jobs demo_queued_system)"
    using demo_table by (simp add: enqueue_durable_task_def create_dispatch_def dispatch_with_key_def demo_defs
        new_dispatch_def row_add_def kick_def Let_def)
  then show ?thesis using job_step.enqueue by (simp add: demo_queued_system_def) 
qed

lemma demo_publishing: "job_step demo_queued_system (Publishing demo_sent) demo_sent_system"
proof -
  have "claim_publication 0 10 (js_jobs demo_queued_system) = (Some demo_sent, js_jobs demo_sent_system)"
    by (simp add: claim_publication_def get_dispatch_def put_dispatch_def kick_def demo_defs table_simps terminal_states_def
        due_for_publication_def lost_in_flight_def new_dispatch_def publishing_row_def Let_def)
  then show ?thesis using job_step.publishing [of 0 10 demo_queued_system]
    by (simp add: demo_sent_system_def demo_queued_system_def demo_system_def)
qed

lemma demo_started: "job_step demo_sent_system (Started demo_held) demo_held_system"
proof -
  have "claim_dispatch 0 10 11 (js_jobs demo_sent_system) = (Some demo_held, js_jobs demo_held_system)"
    by (simp add: claim_dispatch_def get_dispatch_def put_dispatch_def kick_def demo_defs table_simps terminal_states_def
        new_dispatch_def publishing_row_def running_row_def prepare_recovered_domain_job_def Let_def)
  then show ?thesis using job_step.start [of 0 10 11 demo_sent_system]
    by (simp add: demo_held_system_def demo_sent_system_def demo_queued_system_def demo_system_def)
qed

lemma demo_held_trace:
  "job_trace demo_system [Enqueued demo_request demo_row, Publishing demo_sent, Started demo_held] demo_held_system"
  using demo_enqueued demo_publishing demo_started by auto

section \<open>Stale holders\<close>

definition token_of :: "uuid \<Rightarrow> job_system \<Rightarrow> uuid option" where
  "token_of k s = (case get_dispatch k (js_jobs s) of None \<Rightarrow> None | Some w \<Rightarrow> jd_token w)"

definition dispatch_moves :: "job_system \<Rightarrow> job_system \<Rightarrow> bool" where
  "dispatch_moves s s' \<longleftrightarrow> system_ok s \<and> (\<exists>e. job_step s e s')"

lemma rows_move_token:
  assumes "rows_move W e s s'" "get_dispatch k s' = Some w'" "jd_token w' = Some t"
  shows "(\<exists>w. get_dispatch k s = Some w \<and> jd_token w = Some t) \<or> jb_next s \<le> t"
proof (cases "get_dispatch k s")
  case (Some w)
  then show ?thesis using rows_move_get [OF assms(1) Some] row_step_token assms(2,3) by (metis not_less option.inject)
next
  case None
  from assms(1) consider "jb_dispatches s' = jb_dispatches s" | "appends e s s'" | v v' where "replaces W e v v' s s'"
    by (auto simp: rows_move_def)
  then show ?thesis
  proof cases
    case 1
    then show ?thesis using None assms(2) by (simp add: get_dispatch_def)
  next
    case 2
    then obtain x where "jb_dispatches s' = row_add x (jb_dispatches s)" "jd_token x = None"
      by (auto simp: appends_def new_dispatch_def)
    then have "w' = x" using None assms(2) by (auto simp: get_dispatch_def table_simps split: if_splits)
    then show ?thesis using assms(3) \<open>jd_token x = None\<close> by simp
  next
    case (3 v v')
    then have "get_dispatch (jd_id v) s = Some v" by (simp add: replaces_def)
    then show ?thesis using replaces_get [OF 3, of k] None assms(2) by (cases "k = jd_id v") auto
  qed
qed

text \<open>The dispatcher is a token register: a token is drawn from \<open>jb_next\<close>, and only one that is drawn now
  can come to hold a row.\<close>

interpretation dispatcher: token_register token_of "\<lambda>s. jb_next (js_jobs s)" dispatch_moves
proof
  fix s s' k t
  assume "dispatch_moves s s'"
  then obtain e where m: "rows_move (js_workers s) e (js_jobs s) (js_jobs s')"
    using job_step_moves by (auto simp: dispatch_moves_def system_ok_def)
  show "jb_next (js_jobs s) \<le> jb_next (js_jobs s')" by (rule rows_move_next [OF m])
  show "token_of k s = Some t \<or> jb_next (js_jobs s) \<le> t" if held: "token_of k s' = Some t"
  proof -
    obtain w' where w': "get_dispatch k (js_jobs s') = Some w'" "jd_token w' = Some t"
      using held by (auto simp: token_of_def split: option.splits)
    show ?thesis using rows_move_token [OF m w'] by (auto simp: token_of_def)
  qed
qed

lemma trace_moves: "job_trace s es s' \<Longrightarrow> system_ok s \<Longrightarrow> dispatch_moves\<^sup>*\<^sup>* s s'"
proof (induction rule: job_trace.induct)
  case (trace_step s e s1 es s2)
  then have "dispatch_moves s s1" "system_ok s1" using job_step_ok by (auto simp: dispatch_moves_def)
  then show ?case using trace_step.IH by (meson converse_rtranclp_into_rtranclp)
qed simp

lemma stale_update: "token_of k s \<noteq> tok \<Longrightarrow> tok \<noteq> None \<Longrightarrow> update_claimed k st tok f (js_jobs s) = (False, js_jobs s)"
  by (auto simp: update_claimed_def token_of_def split: option.splits)

lemma stale_holder:
  assumes "token_of (jd_id v) s \<noteq> Some tok" "jd_token v = Some tok"
  shows "snd (finish_execution h c v outcome (js_jobs s)) = js_jobs s"
    "snd (settle_publication c v answer (js_jobs s)) = js_jobs s"
    "claim_dispatch c (jd_id v) tok (js_jobs s) = (None, js_jobs s)"
proof -
  have u: "update_claimed (jd_id v) st (jd_token v) f (js_jobs s) = (False, js_jobs s)" for st f
    using stale_update [OF assms(1)] assms(2) by simp
  show "snd (finish_execution h c v outcome (js_jobs s)) = js_jobs s"
    by (cases outcome) (simp_all add: finish_execution_def finish_failed_def end_failed_def u)
  show "snd (settle_publication c v answer (js_jobs s)) = js_jobs s"
    by (cases answer) (simp_all add: settle_publication_def u)
  show "claim_dispatch c (jd_id v) tok (js_jobs s) = (None, js_jobs s)"
    using assms by (auto simp: claim_dispatch_def token_of_def split: option.splits)
qed

text \<open>C19: A publisher or worker whose token no longer holds its dispatch is fenced for good. Whatever other
  publishers, workers and callers do in the meantime, its late acknowledgement, its late result
  or failure, and any redelivery of its message leave every table as it is, the domain job
  included.\<close>

theorem lost_token_changes_nothing:
  assumes "fresh_system s0" "job_trace s0 es s" "job_trace s fs s'"
    "jd_token v = Some tok" "tok < jb_next (js_jobs s)" "token_of (jd_id v) s \<noteq> Some tok"
  shows "snd (finish_execution h t v outcome (js_jobs s')) = js_jobs s' \<and>
     snd (settle_publication t v answer (js_jobs s')) = js_jobs s' \<and>
     claim_dispatch t (jd_id v) tok (js_jobs s') = (None, js_jobs s')"
proof -
  have "system_ok s" using job_trace_ok [OF assms(2)] fresh_ok(1) [OF assms(1)] by blast
  then have "dispatch_moves\<^sup>*\<^sup>* s s'" by (rule trace_moves [OF assms(3)])
  then have "token_of (jd_id v) s' \<noteq> Some tok" using assms(5,6) by (rule dispatcher.token_gone)
  then show ?thesis using stale_holder assms(4) by blast
qed

section \<open>External effects\<close>











subsection \<open>The sample goes on: put back, published and claimed again\<close>

definition demo_back :: job_dispatch where "demo_back = failed_row_of 1 ''not submitted'' False False 1 demo_held"
definition demo_resent :: job_dispatch where "demo_resent = publishing_row (secs 10) 13 14 demo_back"
definition demo_reheld :: job_dispatch where "demo_reheld = running_row (secs 10) demo_resent"

definition demo_back_system :: job_system where
  "demo_back_system = demo_held_system
     \<lparr>js_jobs := (js_jobs demo_held_system)\<lparr>jb_dispatches := [demo_back]\<rparr>,
      js_closings := [Retry_Job demo_held ''not submitted'']\<rparr>"

definition demo_resent_system :: job_system where
  "demo_resent_system = demo_back_system
     \<lparr>js_jobs := (js_jobs demo_back_system)\<lparr>jb_dispatches := [demo_resent], jb_next := 15\<rparr>, js_publishers := [demo_resent, demo_sent]\<rparr>"

definition demo_reheld_system :: job_system where
  "demo_reheld_system = demo_resent_system
     \<lparr>js_jobs := (js_jobs demo_resent_system)\<lparr>jb_dispatches := [demo_reheld]\<rparr>, js_workers := [demo_reheld, demo_held]\<rparr>"

lemmas demo_more_defs = demo_defs demo_back_def demo_resent_def demo_reheld_def demo_back_system_def demo_resent_system_def
  demo_reheld_system_def

lemma demo_ended: "job_step demo_held_system (Ended demo_held demo_safe) demo_back_system"
proof -
  have "end_execution 1 demo_held demo_safe (js_jobs demo_held_system) =
      (Some (Retry_Job demo_held ''not submitted''), js_jobs demo_back_system)"
    by (simp add: end_execution_def end_failed_def update_claimed_def demo_safe_def get_dispatch_def put_dispatch_def
        kick_def demo_more_defs table_simps new_dispatch_def publishing_row_def running_row_def raised_terminal_def
        raised_uncertain_def failed_row_of_def Let_def)
  then show ?thesis using job_step.finish [of demo_held demo_held_system 1 demo_safe]
    by (simp add: demo_back_system_def demo_held_system_def demo_sent_system_def demo_queued_system_def demo_system_def)
qed

lemma demo_republishing: "job_step demo_back_system (Publishing demo_resent) demo_resent_system"
proof -
  have "claim_publication (secs 10) 10 (js_jobs demo_back_system) = (Some demo_resent, js_jobs demo_resent_system)"
    by (simp add: claim_publication_def get_dispatch_def put_dispatch_def kick_def demo_more_defs table_simps terminal_states_def
        due_for_publication_def lost_in_flight_def new_dispatch_def publishing_row_def running_row_def failed_row_of_def
        retry_delay_def secs_def Let_def)
  then show ?thesis using job_step.publishing [of "secs 10" 10 demo_back_system]
    by (simp add: demo_resent_system_def demo_back_system_def demo_held_system_def demo_sent_system_def)
qed

lemma demo_restarted: "job_step demo_resent_system (Started demo_reheld) demo_reheld_system"
proof -
  have "claim_dispatch (secs 10) 10 13 (js_jobs demo_resent_system) = (Some demo_reheld, js_jobs demo_reheld_system)"
    by (simp add: claim_dispatch_def get_dispatch_def put_dispatch_def kick_def demo_more_defs table_simps terminal_states_def
        new_dispatch_def publishing_row_def running_row_def failed_row_of_def prepare_recovered_domain_job_def media_task_def
        first_int_arg_def int_arg_at_def update_where_def Let_def)
  then show ?thesis using job_step.start [of "secs 10" 10 13 demo_resent_system]
    by (simp add: demo_reheld_system_def demo_resent_system_def demo_back_system_def demo_held_system_def)
qed

abbreviation demo_first :: "job_event list" where
  "demo_first \<equiv> [Enqueued demo_request demo_row, Publishing demo_sent]"

abbreviation demo_between :: "job_event list" where
  "demo_between \<equiv> [Ended demo_held demo_safe, Publishing demo_resent]"

lemma demo_back_trace: "job_trace demo_system (demo_first @ [Started demo_held, Ended demo_held demo_safe]) demo_back_system"
  using demo_enqueued demo_publishing demo_started demo_ended by auto

lemma demo_reheld_trace: "job_trace demo_back_system [Publishing demo_resent, Started demo_reheld] demo_reheld_system"
  using demo_republishing demo_restarted by auto

lemma demo_whole_trace:
  "job_trace demo_system (demo_first @ Started demo_held # demo_between @ Started demo_reheld # []) demo_reheld_system"
  by (simp only: append_Cons append_Nil)
    (rule trace_step [OF demo_enqueued trace_step [OF demo_publishing trace_step [OF demo_started
       trace_step [OF demo_ended trace_step [OF demo_republishing trace_step [OF demo_restarted trace_nil]]]]]])

lemma dispatch_rows_stay_well_formed_witness:
  "status_ok demo_reheld Dp_Running \<and> distinct (map jd_id (jb_dispatches (js_jobs demo_reheld_system)))"
  using dispatch_rows_stay_well_formed [OF demo_whole_trace]
  by (simp add: demo_more_defs new_dispatch_def publishing_row_def running_row_def failed_row_of_def kick_def Let_def)

lemma lost_token_changes_nothing_witness:
  "snd (finish_execution (\<lambda>_ x. x) (secs 20) demo_held (Returned JNull) (js_jobs demo_reheld_system)) = js_jobs demo_reheld_system \<and>
   claim_dispatch (secs 20) 10 11 (js_jobs demo_reheld_system) = (None, js_jobs demo_reheld_system)"
proof -
  have h: "jd_token demo_held = Some 11" "jd_id demo_held = 10"
    by (simp_all add: demo_defs running_row_def publishing_row_def new_dispatch_def)
  have "jb_next (js_jobs demo_back_system) = 13" "token_of 10 demo_back_system = None"
    by (simp_all add: token_of_def get_dispatch_def demo_more_defs table_simps new_dispatch_def publishing_row_def running_row_def
        failed_row_of_def kick_def Let_def)
  then show ?thesis
    using lost_token_changes_nothing [OF demo_fresh demo_back_trace demo_reheld_trace h(1)] h by simp
qed


end
