(* ===== verification/Job_Outcomes.thy ===== *)
theory Job_Outcomes
  imports Delivery
begin

text \<open>
  How durable jobs end (\<^verbatim>\<open>apps/core/dispatch.py\<close>): a dispatch whose messages get through reaches a
  terminal status within its run attempts, and when it fails no domain job of it stays open.
\<close>

section \<open>Rounds of delivery\<close>

text \<open>
  One round: the periodic publisher finds the dispatch at \<open>t\<close>, the broker answers, and an accepted message
  reaches a worker, which dies during the task, ends it, or ends it and dies before it has updated the
  domain job. All of this happens at the instant \<open>t\<close>.
\<close>

datatype ending = Worker_Lost | Task_Ended task_outcome | Closing_Lost task_outcome

type_synonym round = "instant \<times> string option \<times> ending"

definition work_round :: "instant \<Rightarrow> ending \<Rightarrow> uuid \<Rightarrow> jobs \<Rightarrow> jobs" where
  "work_round t e k s =
     (case get_dispatch k s of
        None \<Rightarrow> s
      | Some w \<Rightarrow>
          (case jd_token w of
             None \<Rightarrow> s
           | Some token \<Rightarrow>
               (case claim_dispatch t k token s of
                  (None, s1) \<Rightarrow> s1
                | (Some v, s1) \<Rightarrow>
                    (case e of
                       Worker_Lost \<Rightarrow> s1
                     | Task_Ended outcome \<Rightarrow> snd (finish_execution (\<lambda>_ x. x) t v outcome s1)
                     | Closing_Lost outcome \<Rightarrow> snd (end_execution t v outcome s1)))))"

definition delivery_round :: "uuid \<Rightarrow> round \<Rightarrow> jobs \<Rightarrow> jobs" where
  "delivery_round k r s =
     (case r of (t, answer, e) \<Rightarrow>
        (case publish_dispatch t (\<lambda>_. answer) k s of (False, s1) \<Rightarrow> s1 | (True, s1) \<Rightarrow> work_round t e k s1))"

text \<open>The rounds are at least as far apart as the longest lease.\<close>

fun spaced :: "instant \<Rightarrow> round list \<Rightarrow> bool" where
  "spaced t [] \<longleftrightarrow> True"
| "spaced t ((u, _, _) # rs) \<longleftrightarrow> t \<le> u \<and> spaced (u + secs 7200) rs"

definition accepted :: "round \<Rightarrow> bool" where
  "accepted r \<longleftrightarrow> (case r of (_, answer, _) \<Rightarrow> answer = None)"

definition terminal_row :: "job_dispatch \<Rightarrow> bool" where
  "terminal_row w \<longleftrightarrow> jd_status w \<in> set terminal_states"

lemma retry_delay_le: "retry_delay n \<le> 300"
  by (simp add: retry_delay_def)

lemma secs_mono: "x \<le> y \<Longrightarrow> secs x \<le> secs y"
  by (simp add: secs_def)

lemma due_later: "due_for_publication t w \<Longrightarrow> t \<le> u \<Longrightarrow> due_for_publication u w"
  by (auto simp: due_for_publication_def split: option.splits if_splits)

lemma get_put_frame:
  "get_dispatch k s = Some w \<Longrightarrow> jd_id w' = k \<Longrightarrow> get_dispatch k (put_dispatch w' (s\<lparr>jb_next := n\<rparr>)) = Some w'"
  by (rule get_put_dispatch [of k _ w w' k, simplified]) simp_all

text \<open>The state after an accepted publication.\<close>

definition sent_row :: "instant \<Rightarrow> uuid \<Rightarrow> job_dispatch \<Rightarrow> job_dispatch" where
  "sent_row t n w = published_row t (publishing_row t n (Suc n) w)"

lemma publish_round:
  assumes "get_dispatch k s = Some w" "\<not> terminal_row w" "due_for_publication t w" "\<not> lost_in_flight w"
    "publish_dispatch t (\<lambda>_. answer) k s = (b, s1)"
  shows "b = (answer = None) \<and> get_dispatch k s1 =
     Some (case answer of None \<Rightarrow> sent_row t (jb_next s) w
           | Some x \<Rightarrow> unpublished_row t (Suc (jd_publishes w)) (take 2000 x) (publishing_row t (jb_next s) (Suc (jb_next s)) w))"
proof -
  let ?w = "publishing_row t (jb_next s) (Suc (jb_next s)) w"
  let ?s = "put_dispatch ?w (s\<lparr>jb_next := jb_next s + 2\<rparr>)"
  have id: "jd_id ?w = k" using get_dispatch_id [OF assms(1)] by simp
  have c: "claim_publication t k s = (Some ?w, ?s)"
    using assms(1-4) by (simp add: claim_publication_def terminal_row_def Let_def)
  have g: "get_dispatch k ?s = Some ?w" by (rule get_put_frame [OF assms(1) id])
  have u: "update_claimed (jd_id ?w) Dp_Publishing (jd_token ?w) f ?s = (True, put_dispatch (f ?w) ?s)" for f
    unfolding update_claimed_def id g by (simp add: publishing_row_def)
  show ?thesis
  proof (cases answer)
    case None
    have "publish_dispatch t (\<lambda>_. answer) k s = (True, put_dispatch (published_row t ?w) ?s)"
      unfolding publish_dispatch_def c settle_publication_def by (simp only: None option.case prod.case u snd_conv)
    then have "b = True \<and> s1 = put_dispatch (published_row t ?w) ?s" using assms(5) by simp
    then show ?thesis using get_put_dispatch [OF g, of "published_row t ?w" k] id None by (simp add: sent_row_def)
  next
    case (Some x)
    let ?u = "unpublished_row t (Suc (jd_publishes w)) (take 2000 x) ?w"
    have "jd_publishes ?w = Suc (jd_publishes w)" by (simp add: publishing_row_def)
    then have "publish_dispatch t (\<lambda>_. answer) k s = (False, put_dispatch ?u ?s)"
      unfolding publish_dispatch_def c settle_publication_def by (simp only: Some option.case prod.case u snd_conv)
    then have "b = False \<and> s1 = put_dispatch ?u ?s" using assms(5) by simp
    then show ?thesis using get_put_dispatch [OF g, of ?u k] id Some by simp
  qed
qed

text \<open>What a round makes of a row that was due.\<close>

definition next_row :: "instant \<Rightarrow> job_dispatch \<Rightarrow> job_dispatch \<Rightarrow> nat \<Rightarrow> bool" where
  "next_row t w w' runs \<longleftrightarrow> jd_max_runs w' = jd_max_runs w \<and> jd_timeout w' = jd_timeout w \<and>
     (terminal_row w' \<or> (due_for_publication (t + secs 7200) w' \<and> jd_runs w' = runs \<and> int runs \<le> jd_max_runs w))"

lemma close_job_frame [simp]: "get_dispatch k (close_job (\<lambda>_ x. x) t c s) = get_dispatch k s"
proof -
  have "get_dispatch k (snd (close_next t c s)) = get_dispatch k s" for c s
    using closing_frame(1) [of t c s] by (simp add: get_dispatch_def)
  then show ?thesis unfolding close_job_def by (metis (no_types, lifting) case_prod_beta option.case_eq_if)
qed

text \<open>The first commit of an execution decides about the dispatch.\<close>

lemma finish_is_end:
  "get_dispatch k (snd (finish_execution (\<lambda>_ x. x) t v outcome s)) = get_dispatch k (snd (end_execution t v outcome s))"
  by (cases outcome) (auto simp: finish_execution_def end_execution_def finish_failed_def split: prod.splits option.splits)

lemma finished_row:
  assumes "get_dispatch (jd_id v) s = Some v" "jd_status v = Dp_Running" "int (jd_runs v) \<le> jd_max_runs v"
  shows "\<exists>w'. get_dispatch (jd_id v) (snd (end_execution t v outcome s)) = Some w' \<and> next_row t v w' (jd_runs v)"
proof -
  have put: "get_dispatch (jd_id v) (put_dispatch w' s) = Some w'" if "jd_id w' = jd_id v" for w'
    using get_put_dispatch [OF assms(1) that] by simp
  have u: "update_claimed (jd_id v) Dp_Running (jd_token v) f s = (True, put_dispatch (f v) s)" for f
    using assms(1,2) by (simp add: update_claimed_def)
  have due: "t + secs (retry_delay (int (jd_runs v))) \<le> t + secs 7200"
    using retry_delay_le [of "int (jd_runs v)"] by (intro add_left_mono secs_mono) simp
  have row: "next_row t v (failed_row_of t x terminal y (jd_runs v) v) (jd_runs v)" for x terminal y
    using due assms(3) by (auto simp: next_row_def failed_row_of_def terminal_row_def terminal_states_def due_for_publication_def Let_def)
  have failed: "get_dispatch (jd_id v) (snd (end_failed t v x terminal y s)) = Some (failed_row_of t x terminal y (jd_runs v) v)"
    for x terminal y
    by (simp add: end_failed_def u put)
  show ?thesis
  proof (cases outcome)
    case (Returned j)
    then show ?thesis
      by (auto simp: end_execution_def u put next_row_def succeeded_row_def terminal_row_def terminal_states_def)
  qed (auto simp: end_execution_def failed intro: row)
qed

lemma next_row_trans: "next_row t v w n \<Longrightarrow> jd_max_runs v = jd_max_runs w0 \<Longrightarrow> jd_timeout v = jd_timeout w0 \<Longrightarrow> next_row t w0 w n"
  by (simp add: next_row_def)

lemma sent_work:
  assumes "get_dispatch k s = Some (sent_row t n w)" "jd_id w = k" "jd_timeout w \<le> 7200"
  shows "\<exists>w'. get_dispatch k (work_round t e k s) = Some w' \<and> next_row t w w' (Suc (jd_runs w))"
proof (cases "jd_max_runs w \<le> int (jd_runs w)")
  case True
  let ?x = "exhausted_dispatch t (sent_row t n w)"
  have "get_dispatch k (work_round t e k s) = Some ?x"
    using True assms(1,2) get_put_dispatch [OF assms(1), of ?x k]
    by (simp add: work_round_def claim_dispatch_def sent_row_def published_row_def publishing_row_def terminal_states_def)
  then show ?thesis
    by (simp add: next_row_def terminal_row_def terminal_states_def exhausted_dispatch_def sent_row_def published_row_def publishing_row_def)
next
  case False
  let ?v = "running_row t (sent_row t n w)"
  let ?s = "prepare_recovered_domain_job ?v (put_dispatch ?v s)"
  have id: "jd_id ?v = k" using assms(2) by (simp add: sent_row_def)
  have v: "jd_status ?v = Dp_Running" "jd_runs ?v = Suc (jd_runs w)" "jd_max_runs ?v = jd_max_runs w" "jd_timeout ?v = jd_timeout w"
      "jd_lease ?v = Some (t + secs (jd_timeout w))"
    by (simp_all add: running_row_def sent_row_def published_row_def publishing_row_def)
  have g: "get_dispatch k ?s = Some ?v" using get_put_dispatch [OF assms(1) id, of k] by simp
  have c: "claim_dispatch t k n s = (Some ?v, ?s)"
    using False assms(1) by (simp add: claim_dispatch_def sent_row_def published_row_def publishing_row_def terminal_states_def)
  have token: "jd_token (sent_row t n w) = Some n" by (simp add: sent_row_def published_row_def publishing_row_def)
  show ?thesis
  proof (cases e)
    case Worker_Lost
    have "t + secs (jd_timeout w) \<le> t + secs 7200" using assms(3) by (intro add_left_mono secs_mono)
    then have "next_row t w ?v (Suc (jd_runs w))"
      using False v by (auto simp: next_row_def due_for_publication_def leased_states_def)
    moreover have "work_round t e k s = ?s" by (simp add: work_round_def assms(1) token c Worker_Lost)
    ultimately show ?thesis using g by (intro exI [of _ ?v] conjI) simp_all
  next
    case (Task_Ended outcome)
    have "\<exists>w'. get_dispatch k (snd (finish_execution (\<lambda>_ x. x) t ?v outcome ?s)) = Some w' \<and> next_row t ?v w' (jd_runs ?v)"
      using finished_row [of ?v ?s t outcome] g id v False by (simp add: finish_is_end)
    moreover have "work_round t e k s = snd (finish_execution (\<lambda>_ x. x) t ?v outcome ?s)"
      by (simp add: work_round_def assms(1) token c Task_Ended)
    ultimately show ?thesis using v(2-4) next_row_trans by metis
  next
    case (Closing_Lost outcome)
    have "\<exists>w'. get_dispatch k (snd (end_execution t ?v outcome ?s)) = Some w' \<and> next_row t ?v w' (jd_runs ?v)"
      using finished_row [of ?v ?s t outcome] g id v False by simp
    moreover have "work_round t e k s = snd (end_execution t ?v outcome ?s)"
      by (simp add: work_round_def assms(1) token c Closing_Lost)
    ultimately show ?thesis using v(2-4) next_row_trans by metis
  qed
qed

lemma round_result:
  assumes "get_dispatch k s = Some w" "\<not> terminal_row w" "due_for_publication t w" "jd_timeout w \<le> 7200"
    "int (jd_runs w) \<le> jd_max_runs w"
  shows "\<exists>w'. get_dispatch k (delivery_round k (t, answer, e) s) = Some w' \<and>
     next_row t w w' (if answer = None then Suc (jd_runs w) else jd_runs w)"
proof (cases "lost_in_flight w")
  case True
  have id: "jd_id (uncertain_row t w) = k" using get_dispatch_id [OF assms(1)] by simp
  have "claim_publication t k s = (None, mark_terminal_domain_failure t w msg_worker_lost True (put_dispatch (uncertain_row t w) s))"
    using True assms(1-3) by (simp add: claim_publication_def terminal_row_def)
  then have "get_dispatch k (delivery_round k (t, answer, e) s) = Some (uncertain_row t w)"
    using get_put_dispatch [OF assms(1) id, of k] by (simp add: delivery_round_def publish_dispatch_def)
  then show ?thesis by (simp add: next_row_def terminal_row_def terminal_states_def uncertain_row_def)
next
  case False
  obtain b s1 where p: "publish_dispatch t (\<lambda>_. answer) k s = (b, s1)" by (cases "publish_dispatch t (\<lambda>_. answer) k s")
  note r = publish_round [OF assms(1-3) False p]
  have id: "jd_id w = k" by (rule get_dispatch_id [OF assms(1)])
  show ?thesis
  proof (cases answer)
    case None
    then have "get_dispatch k s1 = Some (sent_row t (jb_next s) w)" "delivery_round k (t, answer, e) s = work_round t e k s1"
      using r p by (simp_all add: delivery_round_def)
    then show ?thesis using sent_work [OF _ id assms(4)] None by simp
  next
    case (Some x)
    let ?u = "unpublished_row t (Suc (jd_publishes w)) (take 2000 x) (publishing_row t (jb_next s) (Suc (jb_next s)) w)"
    have "t + secs (retry_delay (int (Suc (jd_publishes w)))) \<le> t + secs 7200"
      using retry_delay_le [of "int (Suc (jd_publishes w))"] by (intro add_left_mono secs_mono) simp
    then have "next_row t w ?u (jd_runs w)"
      using assms(5) by (simp add: next_row_def due_for_publication_def unpublished_row_def publishing_row_def)
    moreover have "get_dispatch k (delivery_round k (t, answer, e) s) = Some ?u"
      using r p Some by (simp add: delivery_round_def)
    ultimately show ?thesis using Some by auto
  qed
qed

lemma terminal_round:
  assumes "get_dispatch k s = Some w" "terminal_row w"
  shows "delivery_round k r s = s"
  using assms by (cases r) (simp add: delivery_round_def publish_dispatch_def claim_publication_def terminal_row_def)

lemma terminal_rounds: "get_dispatch k s = Some w \<Longrightarrow> terminal_row w \<Longrightarrow> fold (delivery_round k) rs s = s"
  by (induction rs) (simp_all add: terminal_round)

lemma rounds_end:
  assumes "get_dispatch k s = Some w" "due_for_publication t w" "jd_timeout w \<le> 7200" "int (jd_runs w) \<le> jd_max_runs w"
    "spaced t rs" "jd_max_runs w - int (jd_runs w) < int (length (filter accepted rs))"
  shows "\<exists>w'. get_dispatch k (fold (delivery_round k) rs s) = Some w' \<and> terminal_row w'"
  using assms
proof (induction rs arbitrary: s w t)
  case Nil
  then show ?case by simp
next
  case (Cons r rs)
  obtain u answer e where r: "r = (u, answer, e)" by (cases r)
  show ?case
  proof (cases "terminal_row w")
    case True
    show ?thesis by (intro exI [of _ w] conjI) (simp_all only: terminal_rounds [OF Cons.prems(1) True] Cons.prems(1) True)
  next
    case False
    have u: "t \<le> u" "spaced (u + secs 7200) rs" using Cons.prems(5) r by simp_all
    have acc: "accepted r \<longleftrightarrow> answer = None" by (simp add: r accepted_def)
    let ?n = "if answer = None then Suc (jd_runs w) else jd_runs w"
    obtain w' where w': "get_dispatch k (delivery_round k r s) = Some w'" "next_row u w w' ?n"
      using round_result [OF Cons.prems(1) False due_later [OF Cons.prems(2) u(1)] Cons.prems(3,4)] r by blast
    show ?thesis
    proof (cases "terminal_row w'")
      case True
      then show ?thesis using terminal_rounds [OF w'(1)] w'(1) by auto
    next
      case False
      then have n: "jd_max_runs w' = jd_max_runs w" "jd_timeout w' = jd_timeout w" "due_for_publication (u + secs 7200) w'"
          "jd_runs w' = ?n" "int ?n \<le> jd_max_runs w"
        using w'(2) by (auto simp: next_row_def)
      have "jd_max_runs w' - int (jd_runs w') < int (length (filter accepted rs))"
        using Cons.prems(6) n(1,4) acc by (auto split: if_splits)
      then show ?thesis using Cons.IH [OF w'(1) n(3) _ _ u(2)] n Cons.prems(3) by simp
    qed
  qed
qed

text \<open>C17: Every job whose messages get through comes to an end. Take any reachable state and a dispatch that is
  due. After rounds of publication at least two hours apart, of which more are accepted by the
  broker than the dispatch has run attempts left, it has succeeded, failed or been cancelled:
  whether each worker died, failed, finished or died after its first commit, and however often the
  broker refused.\<close>

theorem delivered_job_comes_to_an_end:
  assumes "fresh_system s0" "job_trace s0 es s" "get_dispatch k (js_jobs s) = Some w" "due_for_publication t w"
    "spaced t rs" "jd_max_runs w - int (jd_runs w) < int (length (filter accepted rs))"
  shows "\<exists>w'. get_dispatch k (fold (delivery_round k) rs (js_jobs s)) = Some w' \<and> jd_status w' \<in> set terminal_states"
proof -
  have "system_ok s" using job_trace_ok [OF assms(2)] fresh_ok(1) [OF assms(1)] by blast
  then have "dispatch_ok (jb_next (js_jobs s)) w" using get_dispatch_mem [OF assms(3)] by (auto simp: system_ok_def)
  then have "jd_timeout w \<le> 7200" "int (jd_runs w) \<le> jd_max_runs w" by (auto simp: dispatch_ok_def)
  then show ?thesis using rounds_end [OF assms(3,4) _ _ assms(5,6)] by (simp add: terminal_row_def)
qed

text \<open>The sample job, put back once, with workers that die, fail safely and die again.\<close>

lemma delivered_job_comes_to_an_end_witness:
  "\<exists>w'. get_dispatch 10 (fold (delivery_round 10)
       [(secs 10, None, Worker_Lost), (secs 7300, Some ''refused'', Worker_Lost), (secs 15000, None, Task_Ended demo_safe),
        (secs 30000, None, Task_Ended (Returned JNull))] (js_jobs demo_back_system)) = Some w' \<and> jd_status w' \<in> set terminal_states"
proof -
  have g: "get_dispatch 10 (js_jobs demo_back_system) = Some demo_back"
    by (simp add: get_dispatch_def demo_more_defs table_simps new_dispatch_def publishing_row_def running_row_def
        failed_row_of_def kick_def Let_def)
  have b: "due_for_publication (secs 10) demo_back" "jd_max_runs demo_back = 3" "jd_runs demo_back = 1"
    by (simp_all add: demo_more_defs new_dispatch_def publishing_row_def running_row_def failed_row_of_def
        due_for_publication_def retry_delay_def secs_def Let_def)
  show ?thesis
    by (rule delivered_job_comes_to_an_end [OF demo_fresh demo_back_trace g b(1)])
      (simp_all add: secs_def accepted_def b)
qed

section \<open>The domain job of a failed dispatch\<close>

text \<open>A job row that still looks alive. A research run that can be replayed from a paid checkpoint is meant to
  wait, and a media job whose provider response was already applied is not touched.\<close>

definition domain_open :: "job_dispatch \<Rightarrow> jobs \<Rightarrow> bool" where
  "domain_open w s =
     (case first_int_arg w of
        None \<Rightarrow> False
      | Some k \<Rightarrow>
          (if is_parse_task (jd_task w) then
             list_ex (\<lambda>j. int (pj_pk j) = k \<and> pj_status j \<in> {Pj_Pending, Pj_Running}) (jb_parse s)
           else if jd_task w = bulk_task then
             list_ex (\<lambda>j. int (bk_pk j) = k \<and> bk_status j \<in> {Bk_Pending, Bk_Running, Bk_Cooling_Down}) (jb_bulk s)
           else if jd_task w = media_task then
             list_ex (\<lambda>j. int (md_pk j) = k \<and> md_status j \<in> {Md_Queued, Md_Processing} \<and>
                md_response j \<notin> {Rs_Applied, Rs_Accounting_Resolved}) (jb_media s)
           else if jd_task w = image_task then
             (case int_arg_at w 1 of
                None \<Rightarrow> False
              | Some i \<Rightarrow> list_ex (\<lambda>j. int (is_pk j) = i \<and> is_status j \<in> {Is_Pending, Is_Running}) (jb_images s))
           else if jd_task w = research_task then
             \<not> has_replayable_checkpoint k s \<and>
             list_ex (\<lambda>r. int (wr_pk r) = k \<and> wr_status r \<in> {Wr_Queued, Wr_Running}) (jb_runs s)
           else False))"

lemma list_ex_update_where:
  assumes "\<And>r. p r \<Longrightarrow> \<not> q (f r)" "\<And>r. q r \<Longrightarrow> p r"
  shows "\<not> list_ex q (update_where p f rows)"
proof -
  have "\<not> q (if p r then f r else r)" for r using assms by (cases "p r") auto
  then have "\<not> q r" if "r \<in> set (update_where p f rows)" for r using that unfolding update_where_set by blast
  then show ?thesis unfolding list_ex_iff by blast
qed

lemma checkpoint_kept:
  assumes "has_replayable_checkpoint k s"
    "\<And>r. int (wr_pk r) = k \<Longrightarrow> int (wr_pk (f r)) = k \<and> wr_status (f r) = Wr_Queued"
  shows "has_replayable_checkpoint k (s\<lparr>jb_runs := update_where (\<lambda>j. int (wr_pk j) = k) f (jb_runs s)\<rparr>)"
proof -
  let ?s = "s\<lparr>jb_runs := update_where (\<lambda>j. int (wr_pk j) = k) f (jb_runs s)\<rparr>"
  have "list_ex (\<lambda>r. int (wr_pk r) = k \<and> wr_status r \<in> {Wr_Queued, Wr_Running}) (jb_runs ?s)"
    if "list_ex (\<lambda>r. int (wr_pk r) = k \<and> wr_status r \<in> {Wr_Queued, Wr_Running}) (jb_runs s)"
    using that assms(2) by (fastforce simp: list_ex_iff update_where_def)
  moreover have "has_checkpoint g ?s = has_checkpoint g s" for g by (simp add: has_checkpoint_def)
  ultimately show ?thesis
    using assms(1) unfolding has_replayable_checkpoint_def by (fastforce simp: list_ex_iff split: option.splits)
qed

lemma mark_closes:
  assumes "jd_task w' = jd_task w" "jd_args w' = jd_args w"
  shows "\<not> domain_open w' (mark_terminal_domain_failure t w error u s)"
proof (cases "first_int_arg w")
  case None
  moreover have "first_int_arg w' = first_int_arg w" using assms(2) by (simp add: first_int_arg_def int_arg_at_def)
  ultimately have "first_int_arg w' = None" by simp
  then show ?thesis by (simp add: domain_open_def)
next
  case (Some k)
  have k: "first_int_arg w' = Some k" unfolding Some [symmetric] using assms(2) by (simp add: first_int_arg_def int_arg_at_def)
  have i: "int_arg_at w' (Suc 0) = int_arg_at w (Suc 0)" using assms(2) by (simp add: int_arg_at_def)
  consider "is_parse_task (jd_task w)" | "\<not> is_parse_task (jd_task w)" "jd_task w = bulk_task"
    | "\<not> is_parse_task (jd_task w)" "jd_task w \<noteq> bulk_task" "jd_task w = media_task"
    | "\<not> is_parse_task (jd_task w)" "jd_task w \<noteq> bulk_task" "jd_task w \<noteq> media_task" "jd_task w = image_task"
    | "\<not> is_parse_task (jd_task w)" "jd_task w \<noteq> bulk_task" "jd_task w \<noteq> media_task" "jd_task w \<noteq> image_task" by blast
  then show ?thesis
  proof cases
    case 1
    then show ?thesis
      by (simp add: domain_open_def mark_terminal_domain_failure_def k Some assms) (rule list_ex_update_where; auto)
  next
    case 2
    then show ?thesis
      by (simp add: domain_open_def mark_terminal_domain_failure_def k Some assms) (rule list_ex_update_where; auto)
  next
    case 3
    then show ?thesis
      by (simp add: domain_open_def mark_terminal_domain_failure_def k Some assms)
        (rule list_ex_update_where; auto simp: failed_media_def)
  next
    case 4
    then show ?thesis
      by (cases "int_arg_at w (Suc 0)"; simp add: domain_open_def mark_terminal_domain_failure_def k Some assms i)
        ((rule list_ex_update_where; auto simp: failed_image_def)?)
  next
    case 5
    show ?thesis
    proof (cases "jd_task w = research_task \<and> has_replayable_checkpoint k s")
      case True
      then show ?thesis
          using 5 checkpoint_kept [of k s]
          by (simp add: domain_open_def mark_terminal_domain_failure_def close_research_run_def k Some assms)
    next
      case False
      have "\<not> list_ex (\<lambda>r. int (wr_pk r) = k \<and> wr_status r \<in> {Wr_Queued, Wr_Running})
         (update_where (\<lambda>j. int (wr_pk j) = k \<and> wr_status j \<in> {Wr_Queued, Wr_Running})
           (\<lambda>j. j\<lparr>wr_status := Wr_Failed, wr_error := error, wr_finished := Some t\<rparr>) (jb_runs s))"
        by (rule list_ex_update_where) auto
      then show ?thesis
        using 5 False by (simp add: domain_open_def mark_terminal_domain_failure_def close_research_run_def k Some assms)
    qed
  qed
qed

lemma claim_publication_fails:
  assumes "claim_publication t k s = (None, d)" "get_dispatch k s = Some w" "jd_status w \<noteq> Dp_Failed"
    "get_dispatch k d = Some w'" "jd_status w' = Dp_Failed"
  shows "\<not> domain_open w' d"
proof -
  have id: "jd_id (uncertain_row t w) = k" using get_dispatch_id [OF assms(2)] by simp
  have d: "d = mark_terminal_domain_failure t w msg_worker_lost True (put_dispatch (uncertain_row t w) s)"
    using assms by (auto simp: claim_publication_def Let_def split: if_splits)
  then have "w' = uncertain_row t w" using assms(4) get_put_dispatch [OF assms(2) id, of k] by simp
  then show ?thesis unfolding d by (intro mark_closes) (simp_all add: uncertain_row_def)
qed

lemma claim_dispatch_fails:
  assumes "claim_dispatch t k token s = (None, d)" "get_dispatch k s = Some w" "jd_status w \<noteq> Dp_Failed"
    "get_dispatch k d = Some w'" "jd_status w' = Dp_Failed"
  shows "\<not> domain_open w' d"
proof -
  have id: "jd_id (exhausted_dispatch t w) = k" using get_dispatch_id [OF assms(2)] by simp
  have d: "d = mark_terminal_domain_failure t (exhausted_dispatch t w) msg_runs_exhausted False (put_dispatch (exhausted_dispatch t w) s)"
    using assms by (auto simp: claim_dispatch_def split: if_splits)
  then have "w' = exhausted_dispatch t w" using assms(4) get_put_dispatch [OF assms(2) id, of k] by simp
  then show ?thesis unfolding d by (intro mark_closes) simp_all
qed

text \<open>What a process has in its hands after the first commit closes the job, in whatever state it is
  performed and whatever others commit after its read of the checkpoint.\<close>

definition waits_for_replay :: "job_dispatch \<Rightarrow> jobs \<Rightarrow> bool" where
  "waits_for_replay w s \<longleftrightarrow> jd_task w = research_task \<and>
     (\<exists>i. first_int_arg w = Some i \<and> has_replayable_checkpoint i s)"

lemma first_arg_cong: "jd_args w' = jd_args w \<Longrightarrow> first_int_arg w' = first_int_arg w"
  by (simp add: first_int_arg_def int_arg_at_def)

lemma research_closes:
  assumes "jd_task w = research_task" "first_int_arg w = Some k"
  shows "\<not> domain_open w (close_research_run t k error False s)"
proof -
  have "\<not> list_ex (\<lambda>r. int (wr_pk r) = k \<and> wr_status r \<in> {Wr_Queued, Wr_Running})
     (update_where (\<lambda>j. int (wr_pk j) = k \<and> wr_status j \<in> {Wr_Queued, Wr_Running})
       (\<lambda>j. j\<lparr>wr_status := Wr_Failed, wr_error := error, wr_finished := Some t\<rparr>) (jb_runs s))"
    by (rule list_ex_update_where) auto
  then show ?thesis
    using assms by (simp add: domain_open_def close_research_run_def is_parse_task_def research_task_def bulk_task_def
        media_task_def image_task_def)
qed

lemma close_job_closes:
  assumes "jd_task w' = jd_task w" "jd_args w' = jd_args w"
  shows "domain_open w' (close_job h t (Fail_Job w error u) s) \<Longrightarrow> waits_for_replay w' s"
    "(\<And>n x. h n x = x) \<Longrightarrow> \<not> domain_open w' (close_job h t (Fail_Job w error u) s)"
proof -
  have none: "\<not> domain_open w' x" if "first_int_arg w = None" for x
    using that first_arg_cong [OF assms(2)] by (simp add: domain_open_def)
  have other: "\<not> domain_open w' (close_job h t (Fail_Job w error u) s)" if "jd_task w \<noteq> research_task"
    using none that mark_closes [OF assms, of t error u s] by (simp add: close_job_def split: option.split)
  have run: "close_job h t (Fail_Job w error u) s = close_research_run t k error (has_replayable_checkpoint k s) (h 1 s)"
    if "jd_task w = research_task" "first_int_arg w = Some k" for k
    using that by (simp add: close_job_def)
  show "waits_for_replay w' s" if still: "domain_open w' (close_job h t (Fail_Job w error u) s)"
  proof -
    obtain k where k: "jd_task w = research_task" "first_int_arg w = Some k" using still none other by blast
    then have "has_replayable_checkpoint k s"
      using still run [OF k] research_closes [of w' k t error "h 1 s"] assms(1) first_arg_cong [OF assms(2)] by metis
    then show ?thesis using k assms(1) first_arg_cong [OF assms(2)] by (simp add: waits_for_replay_def)
  qed
  show "\<not> domain_open w' (close_job h t (Fail_Job w error u) s)" if "\<And>n x. h n x = x"
  proof (cases "jd_task w = research_task")
    case True
    show ?thesis
    proof (cases "first_int_arg w")
      case (Some k)
      have "mark_terminal_domain_failure t w error u s = close_research_run t k error (has_replayable_checkpoint k s) s"
        using True Some by (simp add: mark_terminal_domain_failure_def is_parse_task_def research_task_def bulk_task_def
            media_task_def image_task_def)
      then show ?thesis using run [OF True Some] that mark_closes [OF assms, of t error u s] by simp
    qed (simp add: none)
  qed (rule other)
qed

text \<open>The first commit of an execution that ends a dispatch as failed.\<close>

lemma end_fails:
  assumes "end_execution t v outcome s = (c, d)" "get_dispatch (jd_id v) s = Some w" "jd_status w \<noteq> Dp_Failed"
    "get_dispatch (jd_id v) d = Some w'" "jd_status w' = Dp_Failed" "jd_task w = jd_task v" "jd_args w = jd_args v"
  shows "\<exists>error u. c = Some (Fail_Job v error u) \<and> jd_task w' = jd_task v \<and> jd_args w' = jd_args v"
proof -
  have failed: "\<exists>error u. c = Some (Fail_Job v error u) \<and> jd_task w' = jd_task v \<and> jd_args w' = jd_args v"
    if e: "end_failed t v x terminal u s = (c, d)" for x terminal u
  proof -
    let ?f = "failed_row_of t x terminal u (jd_runs v)"
    have id: "jd_id (?f w) = jd_id v" using get_dispatch_id [OF assms(2)] by simp
    have run: "jd_status w = Dp_Running \<and> jd_token w = jd_token v"
      using e assms(2-5) by (auto simp: end_failed_def update_claimed_def split: if_splits)
    then have d: "d = put_dispatch (?f w) s" "c = Some (if terminal then Fail_Job v x u else Retry_Job v x)"
      using e assms(2) by (auto simp: end_failed_def update_claimed_def)
    have w': "w' = ?f w" using assms(4) get_put_dispatch [OF assms(2) id, of "jd_id v"] d(1) by simp
    then have terminal using assms(5) by (auto simp: failed_row_of_def Let_def split: if_splits)
    moreover have "jd_task w' = jd_task w" "jd_args w' = jd_args w" unfolding w' by (simp_all add: failed_row_of_def Let_def)
    ultimately show ?thesis using d(2) assms(6,7) by simp
  qed
  show ?thesis
  proof (cases outcome)
    case (Returned j)
    let ?g = "succeeded_row t j"
    have id: "jd_id (?g w) = jd_id v" using get_dispatch_id [OF assms(2)] by simp
    have "jd_status w' \<noteq> Dp_Failed"
      using assms(1-4) Returned get_put_dispatch [OF assms(2) id, of "jd_id v"]
      by (auto simp: end_execution_def update_claimed_def succeeded_row_def split: if_splits)
    then show ?thesis using assms(5) by simp
  qed (use assms(1) failed in \<open>auto simp: end_execution_def\<close>)
qed

lemma step_fails:
  assumes "job_step s e s'" "system_ok s" "get_dispatch k (js_jobs s) = Some w" "jd_status w \<noteq> Dp_Failed"
    "get_dispatch k (js_jobs s') = Some w'" "jd_status w' = Dp_Failed"
  shows "e = Not_Published k \<or> e = Not_Started k \<or> (\<exists>v outcome. e = Ended v outcome \<and> jd_id v = k)"
proof -
  have ok: "keys_ok (js_jobs s)" using assms(2) by (simp add: system_ok_def)
  have id: "jd_id w = k" by (rule get_dispatch_id [OF assms(3)])
  have "w' = w \<or> row_step (jb_next (js_jobs s)) (js_workers s) e w w'"
    using rows_move_get [OF job_step_moves [OF assms(1) ok] assms(3)] assms(5) by auto
  then have "row_step (jb_next (js_jobs s)) (js_workers s) e w w'" using assms(4,6) by blast
  then show ?thesis
    by (cases rule: row_step.cases) (use assms(6) id in \<open>auto simp: row_defs split: if_splits\<close>)
qed

text \<open>C18: When a dispatch fails, for good or with an unknown outcome, no domain job of it is left looking
  alive by a process that is not lost. When the publisher or a claim gives the dispatch up, the parse
  job, bulk action, media job, image search or research run it stands for leaves its waiting and
  running states in the same transaction. When an execution ends it, the first commit fails the
  dispatch and leaves the closing of the job in the hands of the worker: whenever that is performed,
  from whatever state, the job is closed, unless it is a research run for which the read of the
  closing found a checkpoint that others used up before its update. The exceptions are the ones the
  code names: a research run with a paid checkpoint waits for its replay, and a media job whose
  provider response was applied keeps its state.\<close>

theorem failed_dispatch_closes_its_job:
  assumes "fresh_system s0" "job_trace s0 es s" "job_step s e s'"
    "get_dispatch k (js_jobs s) = Some w" "jd_status w \<noteq> Dp_Failed"
    "get_dispatch k (js_jobs s') = Some w'" "jd_status w' = Dp_Failed"
  shows "(e = Not_Published k \<or> e = Not_Started k) \<and> \<not> domain_open w' (js_jobs s') \<or>
     (\<exists>v outcome c. e = Ended v outcome \<and> jd_id v = k \<and> c \<in> set (js_closings s') \<and>
        (\<forall>t h d. (domain_open w' (close_job h t c d) \<longrightarrow> waits_for_replay w' d) \<and>
           ((\<forall>n x. h n x = x) \<longrightarrow> \<not> domain_open w' (close_job h t c d))))"
proof -
  have ok: "system_ok s" using job_trace_ok [OF assms(2)] fresh_ok(1) [OF assms(1)] by blast
  note e = step_fails [OF assms(3) ok assms(4-7)]
  from assms(3) show ?thesis
  proof (cases rule: job_step.cases)
    case (not_published t k' d)
    then show ?thesis using e claim_publication_fails [OF _ assms(4,5)] assms(6,7) by auto
  next
    case (not_started t k' token d)
    then show ?thesis using e claim_dispatch_fails [OF _ assms(4,5)] assms(6,7) by auto
  next
    case (finish v t outcome c d)
    have k: "jd_id v = k" using e finish by auto
    have "worker_ok (js_jobs s) v" using ok finish(3) by (simp add: system_ok_def)
    then have same: "jd_task w = jd_task v" "jd_args w = jd_args v" using k assms(4) by (auto simp: worker_ok_def)
    have g: "get_dispatch (jd_id v) (js_jobs s) = Some w" "get_dispatch (jd_id v) d = Some w'"
      using assms(4,6) k finish(2) by simp_all
    obtain error u where c: "c = Some (Fail_Job v error u)" "jd_task w' = jd_task v" "jd_args w' = jd_args v"
      using end_fails [OF finish(4) g(1) assms(5) g(2) assms(7) same] by blast
    have m: "Fail_Job v error u \<in> set (js_closings s')" using finish(2) c(1) by simp
    have "\<forall>t h d. (domain_open w' (close_job h t (Fail_Job v error u) d) \<longrightarrow> waits_for_replay w' d) \<and>
           ((\<forall>n x. h n x = x) \<longrightarrow> \<not> domain_open w' (close_job h t (Fail_Job v error u) d))"
      using close_job_closes [OF c(2,3)] by simp
    then show ?thesis using finish(1) k m by (intro disjI2 exI [of _ v] exI [of _ outcome] exI [of _ "Fail_Job v error u"]) simp
  qed (use e in auto)
qed

text \<open>A worker that meets an unexpected error in the sample job.\<close>

definition demo_crash :: task_outcome where
  "demo_crash = Raised \<lparr>te_safe_retry = False, te_uncertain = False, te_text = ''lost connection''\<rparr>"

definition demo_failed :: job_dispatch where
  "demo_failed = failed_row_of 1 ''lost connection'' True True 1 demo_held"

definition demo_failed_system :: job_system where
  "demo_failed_system = demo_held_system
     \<lparr>js_jobs := put_dispatch demo_failed (js_jobs demo_held_system), js_closings := [Fail_Job demo_held ''lost connection'' True]\<rparr>"

lemma demo_held_facts:
  "get_dispatch 10 (js_jobs demo_held_system) = Some demo_held" "jd_status demo_held = Dp_Running" "jd_id demo_held = 10"
  "jd_task demo_held = media_task" "jd_args demo_held = [JInt 3]" "jd_runs demo_held = 1"
  by (simp_all add: get_dispatch_def demo_defs table_simps running_row_def publishing_row_def new_dispatch_def)

lemma demo_failed_facts:
  "jd_id demo_failed = 10" "jd_status demo_failed = Dp_Failed" "jd_task demo_failed = media_task" "jd_args demo_failed = [JInt 3]"
  by (simp_all add: demo_failed_def failed_row_of_def demo_held_facts Let_def)

lemma demo_failed_get: "get_dispatch 10 (js_jobs demo_failed_system) = Some demo_failed"
  using get_put_dispatch [OF demo_held_facts(1) demo_failed_facts(1), of 10] by (simp add: demo_failed_system_def)

lemma demo_failing: "job_step demo_held_system (Ended demo_held demo_crash) demo_failed_system"
proof -
  have "raised_uncertain demo_held \<lparr>te_safe_retry = False, te_uncertain = False, te_text = ''lost connection''\<rparr>"
    by (simp add: raised_uncertain_def demo_held_facts no_automatic_replay_tasks_def media_task_def)
  then have "end_execution 1 demo_held demo_crash (js_jobs demo_held_system) =
      (Some (Fail_Job demo_held ''lost connection'' True), js_jobs demo_failed_system)"
    by (simp add: end_execution_def demo_crash_def end_failed_def update_claimed_def demo_held_facts raised_terminal_def
        demo_failed_system_def demo_failed_def)
  then show ?thesis using job_step.finish [of demo_held demo_held_system 1 demo_crash]
    by (simp add: demo_failed_system_def demo_held_system_def demo_sent_system_def demo_queued_system_def demo_system_def)
qed

lemma demo_stays_open: "domain_open demo_failed (js_jobs demo_failed_system)"
  by (simp add: domain_open_def first_int_arg_def int_arg_at_def demo_failed_facts)
    (simp add: demo_failed_system_def put_dispatch_def demo_held_system_def demo_sent_system_def demo_queued_system_def
      demo_system_def demo_jobs_def kick_def is_parse_task_def media_task_def bulk_task_def)

text \<open>A worker lost between the two commits leaves an open job of a failed dispatch, which the publisher
  never finds again.\<close>

lemma lost_closing_leaves_job_open:
  "\<exists>es s w. job_trace demo_system es s \<and> get_dispatch 10 (js_jobs s) = Some w \<and> jd_status w = Dp_Failed \<and>
     domain_open w (js_jobs s) \<and> claim_publication t 10 (js_jobs s) = (None, js_jobs s)"
proof -
  have "claim_publication t 10 (js_jobs demo_failed_system) = (None, js_jobs demo_failed_system)"
    by (simp add: claim_publication_def demo_failed_get demo_failed_facts terminal_states_def)
  moreover have "job_trace demo_system ([Enqueued demo_request demo_row, Publishing demo_sent, Started demo_held] @ [Ended demo_held demo_crash])
      demo_failed_system"
    using demo_held_trace demo_failing by (simp only: job_trace_append) auto
  ultimately show ?thesis using demo_failed_get demo_failed_facts(2) demo_stays_open by blast
qed

lemma failed_dispatch_closes_its_job_witness:
  "\<exists>c\<in>set (js_closings demo_failed_system).
     \<not> domain_open demo_failed (close_job (\<lambda>_ x. x) 2 c (js_jobs demo_failed_system))"
proof -
  have "jd_status demo_held \<noteq> Dp_Failed" by (simp add: demo_held_facts)
  from failed_dispatch_closes_its_job [OF demo_fresh demo_held_trace demo_failing demo_held_facts(1) this demo_failed_get demo_failed_facts(2)]
  show ?thesis by auto
qed

end
