(* ===== verification/Feed_Intents.thy ===== *)
theory Feed_Intents
  imports Delivery
begin

text \<open>
  The desired state of marketplace feeds (\<^verbatim>\<open>apps/marketplaces/feed_intents.py\<close>): every change of a product
  advances a revision on the account and its endpoint and makes it due; the scanner of
  \<^verbatim>\<open>apps/marketplaces/tasks.py\<close> turns each due revision into one durable dispatch; a dispatch that ended
  without effect is recovered by \<^verbatim>\<open>apps/core/dispatch.py\<close>. Instants are aware datetimes by their type.
\<close>

section \<open>Accounts and endpoints\<close>

definition get_account :: "nat \<Rightarrow> jobs \<Rightarrow> feed_account option" where
  "get_account k s = row_get fa_pk k (jb_accounts s)"

definition put_account :: "feed_account \<Rightarrow> jobs \<Rightarrow> jobs" where
  "put_account a s = s\<lparr>jb_accounts := row_put fa_pk a (jb_accounts s)\<rparr>"

definition get_endpoint :: "nat \<Rightarrow> jobs \<Rightarrow> feed_endpoint option" where
  "get_endpoint k s = row_get fe_account k (jb_endpoints s)"

definition put_endpoint :: "feed_endpoint \<Rightarrow> jobs \<Rightarrow> jobs" where
  "put_endpoint p s = s\<lparr>jb_endpoints := row_put fe_account p (jb_endpoints s)\<rparr>"

interpretation accounts: keyed_table fa_pk get_account put_account
proof
  show "get_account k t = Some r \<Longrightarrow> fa_pk r = k" for k t r unfolding get_account_def by (rule row_get_key)
qed (auto simp: get_account_def put_account_def table_simps)

interpretation endpoints: keyed_table fe_account get_endpoint put_endpoint
proof
  show "get_endpoint k t = Some r \<Longrightarrow> fe_account r = k" for k t r unfolding get_endpoint_def by (rule row_get_key)
qed (auto simp: get_endpoint_def put_endpoint_def table_simps)

text \<open>\<open>_write_accounts\<close> and \<open>_write_endpoints\<close>.\<close>

definition write_accounts :: "feed_account list \<Rightarrow> jobs \<Rightarrow> jobs" where
  "write_accounts rows s = fold put_account rows s"

definition write_endpoints :: "feed_endpoint list \<Rightarrow> jobs \<Rightarrow> jobs" where
  "write_endpoints rows s = fold put_endpoint rows s"

section \<open>Arguments\<close>

definition max_feed_intent_revision :: int where "max_feed_intent_revision = 2 ^ 63 - 1"
definition feed_intent_coalesce_window :: instant where "feed_intent_coalesce_window = secs 3600"
definition revision_drift :: err where "revision_drift = OtherError ''FeedIntentRevisionDriftError''"

text \<open>A positive integer that is the text of itself: \<open>_positive_feed_intent_argument\<close>; \<open>_account_id\<close> raises instead.\<close>

definition positive_feed_intent_argument :: "json \<Rightarrow> int option" where
  "positive_feed_intent_argument v =
     (case v of
        JBool _ \<Rightarrow> None
      | _ \<Rightarrow> (case py_int (py_str v) of
            None \<Rightarrow> None
          | Some n \<Rightarrow> if n \<le> 0 \<or> str_int n \<noteq> py_str v then None else Some n))"

definition account_id :: "json \<Rightarrow> err + int" where
  "account_id v = or_raise ValueError (positive_feed_intent_argument v)"

definition normalized_account_ids :: "json list \<Rightarrow> err + int list" where
  "normalized_account_ids vs =
     bind_ok (or_raise ValueError (those (map positive_feed_intent_argument vs))) (\<lambda>ids. Inr (sort (remdups ids)))"

section \<open>Locks\<close>

definition lock_accounts :: "int list \<Rightarrow> jobs \<Rightarrow> err + feed_account list" where
  "lock_accounts ids s =
     (let rows = sort_key fa_pk (filter (\<lambda>a. int (fa_pk a) \<in> set ids) (jb_accounts s))
      in if map (\<lambda>a. int (fa_pk a)) rows = ids then Inr rows else Inl DoesNotExist)"

definition endpoint_synced :: "feed_account list \<Rightarrow> feed_endpoint \<Rightarrow> bool" where
  "endpoint_synced rows p \<longleftrightarrow>
     (case row_get fa_pk (fe_account p) rows of None \<Rightarrow> False | Some a \<Rightarrow> fe_revision p = fa_revision a)"

definition lock_synchronized_endpoints :: "feed_account list \<Rightarrow> jobs \<Rightarrow> err + feed_endpoint list" where
  "lock_synchronized_endpoints rows s =
     (let points = sort_key fe_account (filter (\<lambda>p. fe_account p \<in> set (map fa_pk rows)) (jb_endpoints s))
      in if list_all (endpoint_synced rows) points then Inr points else Inl revision_drift)"

definition revision_exhausted :: "feed_account \<Rightarrow> bool" where
  "revision_exhausted a \<longleftrightarrow> max_feed_intent_revision \<le> fa_revision a"

section \<open>Advancing the desired revision\<close>

text \<open>No due time on an undispatched revision is the hold of an uncertain provider operation.\<close>

definition held_intent :: "feed_account \<Rightarrow> bool" where
  "held_intent a \<longleftrightarrow> fa_dispatched a < fa_revision a \<and> fa_due a = None"

definition candidate_due :: "instant \<Rightarrow> feed_account \<Rightarrow> instant" where
  "candidate_due t a = (case fa_last_flush a of None \<Rightarrow> t | Some f \<Rightarrow> max t (f + feed_intent_coalesce_window))"

definition bumped_account :: "instant \<Rightarrow> feed_account \<Rightarrow> feed_account" where
  "bumped_account t a =
     a\<lparr>fa_due := (if held_intent a then None
                 else Some (case fa_due a of None \<Rightarrow> candidate_due t a | Some d \<Rightarrow> min d (candidate_due t a))),
       fa_revision := fa_revision a + 1\<rparr>"

text \<open>An endpoint takes the revision of its account.\<close>

definition endpoint_of :: "feed_account list \<Rightarrow> feed_endpoint \<Rightarrow> feed_endpoint" where
  "endpoint_of rows p =
     (case row_get fa_pk (fe_account p) rows of None \<Rightarrow> p | Some a \<Rightarrow> p\<lparr>fe_revision := fa_revision a\<rparr>)"

definition bump_feed_intents :: "bool \<Rightarrow> instant \<Rightarrow> json list \<Rightarrow> jobs \<Rightarrow> err + (nat \<times> int) list \<times> jobs" where
  "bump_feed_intents in_atomic_block t vs s =
     (if \<not> in_atomic_block then Inl RuntimeError
      else bind_ok (normalized_account_ids vs) (\<lambda>ids.
           bind_ok (lock_accounts ids s) (\<lambda>rows.
           bind_ok (lock_synchronized_endpoints rows s) (\<lambda>points.
             if list_ex revision_exhausted rows then Inl OverflowError
             else (let rows' = map (bumped_account t) rows
                   in Inr (map (\<lambda>a. (fa_pk a, fa_revision a)) rows',
                           write_endpoints (map (endpoint_of rows') points) (write_accounts rows' s)))))))"

definition rearm_feed_intent :: "bool \<Rightarrow> json \<Rightarrow> int \<Rightarrow> instant option \<Rightarrow> jobs \<Rightarrow> err + int option \<times> jobs" where
  "rearm_feed_intent in_atomic_block v expected_revision due s =
     (if \<not> in_atomic_block then Inl RuntimeError
      else bind_ok (account_id v) (\<lambda>k.
        if expected_revision < 0 \<or> max_feed_intent_revision < expected_revision then Inl ValueError
        else bind_ok (lock_accounts [k] s) (\<lambda>rows.
             bind_ok (lock_synchronized_endpoints rows s) (\<lambda>points.
               let a = hd rows in
               if fa_revision a \<noteq> expected_revision \<or> fa_dispatched a \<noteq> expected_revision then Inr (None, s)
               else if revision_exhausted a then Inl OverflowError
               else (let a' = a\<lparr>fa_revision := fa_revision a + 1, fa_due := due\<rparr>
                     in Inr (Some (fa_revision a'),
                             write_endpoints (map (endpoint_of [a']) points) (write_accounts [a'] s)))))))"

definition nudge_undispatched_feed_intent :: "bool \<Rightarrow> json \<Rightarrow> instant \<Rightarrow> jobs \<Rightarrow> err + bool \<times> jobs" where
  "nudge_undispatched_feed_intent in_atomic_block v due s =
     (if \<not> in_atomic_block then Inl RuntimeError
      else bind_ok (account_id v) (\<lambda>k.
           bind_ok (lock_accounts [k] s) (\<lambda>rows.
             let a = hd rows in
             if fa_revision a \<le> fa_dispatched a then Inr (False, s)
             else if (case fa_due a of None \<Rightarrow> False | Some d \<Rightarrow> d \<le> due) then Inr (False, s)
             else Inr (True, write_accounts [a\<lparr>fa_due := Some due\<rparr>] s))))"

text \<open>The owners of the listings of products; \<open>_normalized_product_ids\<close> is \<open>_normalized_account_ids\<close>. The default
  manager of listings hides the deleted ones.\<close>

definition product_feed_account_ids :: "json list \<Rightarrow> jobs \<Rightarrow> err + nat list" where
  "product_feed_account_ids vs s =
     bind_ok (normalized_account_ids vs) (\<lambda>ids.
       Inr (sort (remdups (map fl_account (filter (\<lambda>l. \<not> fl_deleted l \<and> int (fl_product l) \<in> set ids \<and>
              fl_status l \<in> {Ls_Active, Ls_Pending} \<and>
              (case get_account (fl_account l) s of None \<Rightarrow> False | Some a \<Rightarrow> \<not> fa_deleted a)) (jb_listings s))))))"

definition bump_feed_intents_for_products ::
    "string \<Rightarrow> bool \<Rightarrow> instant \<Rightarrow> json list \<Rightarrow> jobs \<Rightarrow> err + (nat \<times> int) list \<times> jobs" where
  "bump_feed_intents_for_products mode in_atomic_block t vs s =
     (if mode = ''legacy'' then Inr ([], s)
      else bind_ok (product_feed_account_ids vs s) (\<lambda>ids. bump_feed_intents in_atomic_block t (map (JInt \<circ> int) ids) s))"

section \<open>The scanner\<close>

definition feed_intent_task :: string where
  "feed_intent_task = ''apps.marketplaces.tasks.process_marketplace_feed_intent''"

definition bounded_feed_intent_scan_limit :: "json \<Rightarrow> int" where
  "bounded_feed_intent_scan_limit v =
     (case v of
        JBool _ \<Rightarrow> 1
      | _ \<Rightarrow> (case py_int (py_str v) of None \<Rightarrow> 100 | Some n \<Rightarrow> max 1 (min n 100)))"

definition due_feed_account :: "instant \<Rightarrow> feed_account \<Rightarrow> bool" where
  "due_feed_account t a \<longleftrightarrow> fa_avito a \<and> \<not> fa_deleted a \<and> fa_active a \<and> fa_tenant_active a \<and>
     (case fa_due a of None \<Rightarrow> False | Some d \<Rightarrow> d \<le> t) \<and> fa_dispatched a < fa_revision a"

text \<open>Rows that another transaction has locked are skipped.\<close>

definition due_feed_accounts :: "instant \<Rightarrow> (nat \<Rightarrow> bool) \<Rightarrow> nat \<Rightarrow> jobs \<Rightarrow> feed_account list" where
  "due_feed_accounts t locked limit s =
     take limit (sort_key (\<lambda>a. case fa_due a of None \<Rightarrow> 0 | Some d \<Rightarrow> d) (sort_key fa_pk
       (filter (\<lambda>a. due_feed_account t a \<and> \<not> locked (fa_pk a)) (jb_accounts s))))"

definition feed_intent_key :: "nat \<Rightarrow> int \<Rightarrow> string" where
  "feed_intent_key k revision = ''feed-intent:'' @ str_nat k @ '':rev:'' @ str_int revision"

definition feed_intent_request :: "instant \<Rightarrow> feed_account \<Rightarrow> job_request" where
  "feed_intent_request t a =
     \<lparr>jq_task = feed_intent_task, jq_args = [JInt (int (fa_pk a)), JInt (fa_revision a)], jq_kwargs = [],
      jq_key = Some (feed_intent_key (fa_pk a) (fa_revision a)), jq_available = Some t, jq_max_runs = 5,
      jq_timeout = 180, jq_revive = False\<rparr>"

definition owns_feed_intent :: "feed_account \<Rightarrow> job_dispatch \<Rightarrow> bool" where
  "owns_feed_intent a w \<longleftrightarrow> jd_task w = feed_intent_task \<and> jd_queue w = ''avito_publish'' \<and>
     jd_args w = [JInt (int (fa_pk a)), JInt (fa_revision a)] \<and> jd_kwargs w = []"

fun enqueue_feed_intents :: "instant \<Rightarrow> feed_account list \<Rightarrow> jobs \<Rightarrow> err + job_dispatch list \<times> jobs" where
  "enqueue_feed_intents t [] s = Inr ([], s)"
| "enqueue_feed_intents t (a # rows) s =
     bind_ok (enqueue_durable_task t (feed_intent_request t a) s) (\<lambda>(w, s1).
       if \<not> owns_feed_intent a w then Inl RuntimeError
       else bind_ok (enqueue_feed_intents t rows s1) (\<lambda>(ws, s2). Inr (w # ws, s2)))"

definition dispatched_account :: "feed_account \<Rightarrow> feed_account" where
  "dispatched_account a = a\<lparr>fa_dispatched := fa_revision a, fa_due := None\<rparr>"

text \<open>The transaction of the scanner in durable mode.\<close>

definition scan_feed_intents :: "instant \<Rightarrow> (nat \<Rightarrow> bool) \<Rightarrow> nat \<Rightarrow> jobs \<Rightarrow> err + job_dispatch list \<times> jobs" where
  "scan_feed_intents t locked limit s =
     (let rows = due_feed_accounts t locked limit s
      in bind_ok (enqueue_feed_intents t rows s) (\<lambda>(ws, s1). Inr (ws, write_accounts (map dispatched_account rows) s1)))"

text \<open>\<open>dispatch_due_marketplace_feed_intents\<close>; the repair of the legacy coordinator is a parameter.\<close>

datatype scan_answer =
    Legacy_Repair json
  | Scan_Disabled int
  | Scan_Dispatched nat "uuid list" int

definition dispatch_due_marketplace_feed_intents ::
    "string \<Rightarrow> (int \<Rightarrow> instant \<Rightarrow> jobs \<Rightarrow> err + json \<times> jobs) \<Rightarrow> instant \<Rightarrow> (nat \<Rightarrow> bool) \<Rightarrow> json \<Rightarrow> jobs \<Rightarrow> err + scan_answer \<times> jobs" where
  "dispatch_due_marketplace_feed_intents mode legacy_repair t locked limit s =
     (let batch_limit = bounded_feed_intent_scan_limit limit in
      if mode = ''legacy'' \<or> mode = ''dual_write''
      then bind_ok (legacy_repair batch_limit t s) (\<lambda>(j, s1). Inr (Legacy_Repair j, s1))
      else if mode \<noteq> ''durable'' then Inr (Scan_Disabled batch_limit, s)
      else bind_ok (scan_feed_intents t locked (nat batch_limit) s)
             (\<lambda>(ws, s1). Inr (Scan_Dispatched (length ws) (map jd_id ws) batch_limit, s1)))"

section \<open>The consumer\<close>

definition retained :: "string \<Rightarrow> task_outcome" where
  "retained text = Raised \<lparr>te_safe_retry = True, te_uncertain = False, te_text = text\<rparr>"

definition status_result :: "string \<Rightarrow> task_outcome" where
  "status_result status = Returned (JObj [(''status'', JStr status)])"

definition process_marketplace_feed_intent :: "string \<Rightarrow> json \<Rightarrow> json \<Rightarrow> jobs \<Rightarrow> task_outcome" where
  "process_marketplace_feed_intent mode account revision s =
     (if mode \<noteq> ''durable'' then retained ''Durable marketplace feed ingress is disabled; delivery retained.''
      else case (positive_feed_intent_argument account, positive_feed_intent_argument revision) of
        (Some k, Some expected) \<Rightarrow>
          (case get_account (nat k) s of
             None \<Rightarrow> retained ''Marketplace feed intent owner is temporarily unavailable.''
           | Some a \<Rightarrow>
               (if fa_deleted a \<or> \<not> fa_active a \<or> \<not> fa_tenant_active a
                then retained ''Marketplace feed intent owner is inactive; delivery retained.''
                else if fa_revision a < fa_dispatched a then status_result ''state_conflict''
                else if expected < fa_revision a then status_result ''stale''
                else if fa_revision a < expected \<or> fa_dispatched a < expected then status_result ''future_revision''
                else Returned (JObj [(''status'', JStr ''not_activated''), (''account_id'', JInt k), (''revision'', JInt expected)])))
      | _ \<Rightarrow> status_result ''invalid'')"

text \<open>The registered task: the dispatcher passes the arguments of the row.\<close>

definition feed_intent_job :: "string \<Rightarrow> job_task" where
  "feed_intent_job mode args kwargs s =
     (case (args, kwargs) of
        ([account, revision], []) \<Rightarrow> (process_marketplace_feed_intent mode account revision s, s)
      | _ \<Rightarrow> (Raised \<lparr>te_safe_retry = False, te_uncertain = False, te_text = ''TypeError''\<rparr>, s))"

section \<open>Recovery of dispatches that ended without effect\<close>

definition feed_intent_recovery_final_codes :: "string list" where
  "feed_intent_recovery_final_codes =
     [''feed_intent_recovered'', ''feed_intent_superseded'', ''feed_intent_owner_missing'', ''feed_intent_recovery_invalid'']"

definition feed_intent_dark_results :: "string list" where
  "feed_intent_dark_results = [''disabled'', ''inactive'', ''missing'', ''not_activated'']"

definition result_dict :: "job_dispatch \<Rightarrow> dict" where
  "result_dict w = (case jd_result w of JObj d \<Rightarrow> d | _ \<Rightarrow> [])"

definition feed_intent_dispatch_needs_recovery :: "job_dispatch \<Rightarrow> bool" where
  "feed_intent_dispatch_needs_recovery w \<longleftrightarrow> jd_task w = feed_intent_task \<and>
     dict_get ''reason_code'' (result_dict w) \<notin> JStr ` set feed_intent_recovery_final_codes \<and>
     (jd_status w \<in> {Dp_Failed, Dp_Cancelled} \<or>
      (jd_status w = Dp_Succeeded \<and> dict_get ''status'' (result_dict w) \<in> JStr ` set feed_intent_dark_results))"

definition json_revision :: "int option \<Rightarrow> json" where
  "json_revision v = (case v of None \<Rightarrow> JNull | Some n \<Rightarrow> JInt n)"

definition finish_feed_intent_recovery :: "job_dispatch \<Rightarrow> string \<Rightarrow> int option \<Rightarrow> int option \<Rightarrow> jobs \<Rightarrow> jobs" where
  "finish_feed_intent_recovery w reason_code source desired s =
     put_dispatch (w\<lparr>jd_result := JObj [(''reason_code'', JStr reason_code), (''source_revision'', json_revision source),
        (''desired_revision'', json_revision desired)]\<rparr>) s"

definition hold_recovery :: "job_dispatch \<Rightarrow> instant \<Rightarrow> jobs \<Rightarrow> jobs" where
  "hold_recovery w t s = put_dispatch (w\<lparr>jd_available := t\<rparr>) s"

datatype recovery = Rc_Recovered | Rc_Superseded | Rc_Held | Rc_Invalid | Rc_Skipped

definition recovery_locked :: "uuid \<Rightarrow> jobs \<Rightarrow> job_dispatch option" where
  "recovery_locked k s = (case get_dispatch k s of None \<Rightarrow> None | Some w \<Rightarrow> if feed_intent_dispatch_needs_recovery w then Some w else None)"

text \<open>The transaction for arguments that are not positive integers.\<close>

definition recover_invalid :: "uuid \<Rightarrow> jobs \<Rightarrow> recovery \<times> jobs" where
  "recover_invalid k s =
     (case recovery_locked k s of
        None \<Rightarrow> (Rc_Skipped, s)
      | Some w \<Rightarrow> (Rc_Invalid, finish_feed_intent_recovery w ''feed_intent_recovery_invalid'' None None s))"

text \<open>The call that makes the desired state due again; \<open>None\<close> when drift or overflow is caught.\<close>

definition rearm_or_nudge :: "instant \<Rightarrow> int \<Rightarrow> int \<Rightarrow> feed_account \<Rightarrow> jobs \<Rightarrow> err + (int \<times> jobs) option" where
  "rearm_or_nudge t k source a s =
     (let caught = (\<lambda>r. case r of
            Inl x \<Rightarrow> if x = revision_drift \<or> x = OverflowError then Inr None else Inl x
          | Inr y \<Rightarrow> Inr (Some y)) in
      if fa_revision a = fa_dispatched a \<and> fa_dispatched a = source
      then caught (bind_ok (rearm_feed_intent True (JInt k) source (Some t) s) (\<lambda>(v, s1).
             case v of None \<Rightarrow> Inl revision_drift | Some desired \<Rightarrow> Inr (desired, s1)))
      else if fa_dispatched a < fa_revision a \<and> fa_dispatched a = source
      then caught (bind_ok (nudge_undispatched_feed_intent True (JInt k) t s) (\<lambda>(_, s1). Inr (fa_revision a, s1)))
      else Inr None)"

text \<open>The transaction for a dispatch of account \<open>k\<close> and revision \<open>source\<close>.\<close>

definition recover_intent :: "instant \<Rightarrow> uuid \<Rightarrow> int \<Rightarrow> int \<Rightarrow> jobs \<Rightarrow> err + recovery \<times> jobs" where
  "recover_intent t d k source s =
     (case get_account (nat k) s of
        None \<Rightarrow>
          (case recovery_locked d s of
             None \<Rightarrow> Inr (Rc_Skipped, s)
           | Some w \<Rightarrow> Inr (Rc_Invalid, finish_feed_intent_recovery w ''feed_intent_owner_missing'' (Some source) None s))
      | Some a \<Rightarrow>
          (case recovery_locked d s of
             None \<Rightarrow> Inr (Rc_Skipped, s)
           | Some w \<Rightarrow>
               (if canonical_positive_dispatch_arg w 0 \<noteq> Some k \<or> canonical_positive_dispatch_arg w 1 \<noteq> Some source
                then Inr (Rc_Skipped, s)
                else if fa_deleted a \<or> \<not> fa_active a \<or> \<not> fa_tenant_active a \<or>
                  list_ex (\<lambda>p. fe_account p = nat k \<and> fe_revision p \<noteq> fa_revision a) (jb_endpoints s)
                then Inr (Rc_Held, hold_recovery w (t + secs 300) s)
                else if source < fa_dispatched a
                then Inr (Rc_Superseded, finish_feed_intent_recovery w ''feed_intent_superseded'' (Some source) (Some (fa_revision a)) s)
                else if fa_dispatched a < source \<or> fa_revision a < fa_dispatched a
                then Inr (Rc_Held, hold_recovery w (t + secs 300) s)
                else if dict_get ''status'' (result_dict w) = JStr ''not_activated''
                then Inr (Rc_Held, hold_recovery w (t + secs 3600) s)
                else bind_ok (rearm_or_nudge t k source a s) (\<lambda>r.
                  case r of
                    None \<Rightarrow> Inr (Rc_Held, hold_recovery w (t + secs 300) s)
                  | Some (desired, s1) \<Rightarrow>
                      Inr (Rc_Recovered, finish_feed_intent_recovery w ''feed_intent_recovered'' (Some source) (Some desired) s1)))))"

definition recovery_candidates :: "instant \<Rightarrow> nat \<Rightarrow> jobs \<Rightarrow> uuid list" where
  "recovery_candidates t limit s =
     take limit (map jd_id (sort_key jd_available
       (filter (\<lambda>w. feed_intent_dispatch_needs_recovery w \<and> jd_available w \<le> t) (jb_dispatches s))))"

definition recover_candidate :: "instant \<Rightarrow> uuid \<Rightarrow> jobs \<Rightarrow> err + recovery \<times> jobs" where
  "recover_candidate t d s =
     (case recovery_locked d s of
        None \<Rightarrow> Inr (Rc_Skipped, s)
      | Some w \<Rightarrow>
          (case (canonical_positive_dispatch_arg w 0, canonical_positive_dispatch_arg w 1) of
             (Some k, Some source) \<Rightarrow> recover_intent t d k source s
           | _ \<Rightarrow> Inr (recover_invalid d s)))"

fun recover_all :: "instant \<Rightarrow> uuid list \<Rightarrow> jobs \<Rightarrow> (err + recovery list) \<times> jobs" where
  "recover_all t [] s = (Inr [], s)"
| "recover_all t (d # ds) s =
     (case recover_candidate t d s of
        Inl x \<Rightarrow> (Inl x, s)
      | Inr (r, s1) \<Rightarrow> (case recover_all t ds s1 of (Inl x, s2) \<Rightarrow> (Inl x, s2) | (Inr rs, s2) \<Rightarrow> (Inr (r # rs), s2)))"

text \<open>\<open>recover_terminal_feed_intent_dispatches\<close>: what became of each candidate; the code counts them.\<close>

definition recover_terminal_feed_intent_dispatches :: "instant \<Rightarrow> json \<Rightarrow> jobs \<Rightarrow> (err + recovery list) \<times> jobs" where
  "recover_terminal_feed_intent_dispatches t limit s =
     (let batch_limit = (case json_int limit of None \<Rightarrow> 100 | Some n \<Rightarrow> max 1 (min n 100))
      in recover_all t (recovery_candidates t (nat batch_limit) s) s)"

section \<open>What the writes do\<close>

lemma put_account_frame [simp]:
  "jb_dispatches (put_account a s) = jb_dispatches s" "jb_endpoints (put_account a s) = jb_endpoints s"
  "jb_next (put_account a s) = jb_next s" "jb_listings (put_account a s) = jb_listings s"
  "get_endpoint k (put_account a s) = get_endpoint k s" "get_dispatch d (put_account a s) = get_dispatch d s"
  "map fa_pk (jb_accounts (put_account a s)) = map fa_pk (jb_accounts s)"
  by (simp_all add: put_account_def get_endpoint_def get_dispatch_def map_pk_row_put)

lemma put_endpoint_frame [simp]:
  "jb_dispatches (put_endpoint p s) = jb_dispatches s" "jb_accounts (put_endpoint p s) = jb_accounts s"
  "jb_next (put_endpoint p s) = jb_next s" "jb_listings (put_endpoint p s) = jb_listings s"
  "get_account k (put_endpoint p s) = get_account k s" "get_dispatch d (put_endpoint p s) = get_dispatch d s"
  "map fe_account (jb_endpoints (put_endpoint p s)) = map fe_account (jb_endpoints s)"
  by (simp_all add: put_endpoint_def get_account_def get_dispatch_def map_pk_row_put)

lemma write_accounts_frame [simp]:
  "jb_dispatches (write_accounts rows s) = jb_dispatches s" "jb_endpoints (write_accounts rows s) = jb_endpoints s"
  "jb_next (write_accounts rows s) = jb_next s" "jb_listings (write_accounts rows s) = jb_listings s"
  "get_endpoint k (write_accounts rows s) = get_endpoint k s" "get_dispatch d (write_accounts rows s) = get_dispatch d s"
  "map fa_pk (jb_accounts (write_accounts rows s)) = map fa_pk (jb_accounts s)"
  by (induction rows arbitrary: s) (simp_all add: write_accounts_def)

lemma write_endpoints_frame [simp]:
  "jb_dispatches (write_endpoints rows s) = jb_dispatches s" "jb_accounts (write_endpoints rows s) = jb_accounts s"
  "jb_next (write_endpoints rows s) = jb_next s" "jb_listings (write_endpoints rows s) = jb_listings s"
  "get_account k (write_endpoints rows s) = get_account k s" "get_dispatch d (write_endpoints rows s) = get_dispatch d s"
  "map fe_account (jb_endpoints (write_endpoints rows s)) = map fe_account (jb_endpoints s)"
  by (induction rows arbitrary: s) (simp_all add: write_endpoints_def)

lemma feeds_frame_dispatch [simp]:
  "get_account k (put_dispatch w s) = get_account k s" "get_endpoint k (put_dispatch w s) = get_endpoint k s"
  "jb_accounts (put_dispatch w s) = jb_accounts s" "jb_endpoints (put_dispatch w s) = jb_endpoints s"
  "jb_listings (put_dispatch w s) = jb_listings s"
  by (simp_all add: put_dispatch_def get_account_def get_endpoint_def)

text \<open>A selection of a table by its key.\<close>

lemma row_get_selected:
  assumes "distinct (map pk rows)"
  shows "row_get pk k (sort_key f (filter (\<lambda>r. p (pk r)) rows)) = (if p k then row_get pk k rows else None)"
proof -
  have d: "distinct (map pk (sort_key f (filter (\<lambda>r. p (pk r)) rows)))"
    using assms by (simp add: distinct_map inj_on_def)
  show ?thesis
  proof (cases "row_get pk k (sort_key f (filter (\<lambda>r. p (pk r)) rows))")
    case None
    then have "row_get pk k rows = None" if "p k" using that by (auto simp: row_get_None_iff)
    then show ?thesis using None by simp
  next
    case (Some r)
    then have "r \<in> set rows" "pk r = k" "p k" using d by (auto simp: row_get_distinct_iff)
    moreover from this have "row_get pk k rows = Some r" using row_get_distinct_iff [OF assms] by blast
    ultimately show ?thesis using Some by simp
  qed
qed

lemma selected_distinct: "distinct (map pk rows) \<Longrightarrow> distinct (map pk (sort_key f (filter p rows)))"
  by (simp add: distinct_map inj_on_def)

definition table_keys_ok :: "jobs \<Rightarrow> bool" where
  "table_keys_ok s \<longleftrightarrow> distinct (map fa_pk (jb_accounts s)) \<and> distinct (map fe_account (jb_endpoints s))"

lemma lock_accounts_rows:
  assumes "lock_accounts ids s = Inr rows" "table_keys_ok s"
  shows "distinct (map fa_pk rows)" "map (\<lambda>a. int (fa_pk a)) rows = ids"
    "row_get fa_pk k rows = (if int k \<in> set ids then get_account k s else None)"
proof -
  have r: "rows = sort_key fa_pk (filter (\<lambda>a. int (fa_pk a) \<in> set ids) (jb_accounts s))" "map (\<lambda>a. int (fa_pk a)) rows = ids"
    using assms(1) by (auto simp: lock_accounts_def Let_def split: if_splits)
  show "distinct (map fa_pk rows)" using assms(2) selected_distinct unfolding r(1) table_keys_ok_def by blast
  show "map (\<lambda>a. int (fa_pk a)) rows = ids" by (rule r(2))
  show "row_get fa_pk k rows = (if int k \<in> set ids then get_account k s else None)"
    using assms(2) row_get_selected [of fa_pk "jb_accounts s" k fa_pk "\<lambda>k. int k \<in> set ids"]
    unfolding r(1) table_keys_ok_def get_account_def by blast
qed

lemma lock_endpoints_rows:
  assumes "lock_synchronized_endpoints rows s = Inr points" "table_keys_ok s"
  shows "distinct (map fe_account points)" "list_all (endpoint_synced rows) points"
    "row_get fe_account k points = (if k \<in> fa_pk ` set rows then get_endpoint k s else None)"
proof -
  have r: "points = sort_key fe_account (filter (\<lambda>p. fe_account p \<in> set (map fa_pk rows)) (jb_endpoints s))"
      "list_all (endpoint_synced rows) points"
    using assms(1) by (auto simp: lock_synchronized_endpoints_def Let_def split: if_splits)
  show "distinct (map fe_account points)" using assms(2) selected_distinct unfolding r(1) table_keys_ok_def by blast
  show "list_all (endpoint_synced rows) points" by (rule r(2))
  show "row_get fe_account k points = (if k \<in> fa_pk ` set rows then get_endpoint k s else None)"
    using assms(2) row_get_selected [of fe_account "jb_endpoints s" k fe_account "\<lambda>k. k \<in> set (map fa_pk rows)"]
    unfolding r(1) table_keys_ok_def get_endpoint_def by (simp only: set_map)
qed

text \<open>The effect of writing transformed locked rows back.\<close>

lemma row_get_map: "(\<And>a. pk (f a) = pk a) \<Longrightarrow> row_get pk k (map f rows) = map_option f (row_get pk k rows)"
  by (induction rows) auto

lemma written_accounts:
  assumes "lock_accounts ids s = Inr rows" "table_keys_ok s" "\<And>a. fa_pk (f a) = fa_pk a"
  shows "get_account k (write_accounts (map f rows) s) =
     (if int k \<in> set ids then map_option f (get_account k s) else get_account k s)"
proof -
  note l = lock_accounts_rows [OF assms(1,2)]
  have d: "distinct (map fa_pk (map f rows))" using l(1) assms(3) by (simp add: comp_def)
  have "get_account (fa_pk a) s \<noteq> None" if "a \<in> set rows" for a
  proof -
    have "int (fa_pk a) \<in> set ids" using l(2) that by auto
    moreover have "row_get fa_pk (fa_pk a) rows \<noteq> None" using that by (auto simp: row_get_None_iff)
    ultimately show ?thesis using l(3) [of "fa_pk a"] by simp
  qed
  then have "\<forall>x\<in>set (map f rows). get_account (fa_pk x) s \<noteq> None" using assms(3) by simp
  then have "get_account k (write_accounts (map f rows) s) =
      (case row_get fa_pk k (map f rows) of Some r \<Rightarrow> Some r | None \<Rightarrow> get_account k s)"
    unfolding write_accounts_def by (rule accounts.sweep_lookup [OF d])
  also have "row_get fa_pk k (map f rows) = map_option f (row_get fa_pk k rows)" by (rule row_get_map) (rule assms(3))
  finally show ?thesis using l(3) [of k] by (cases "get_account k s") auto
qed

lemma endpoint_of_key [simp]: "fe_account (endpoint_of rows p) = fe_account p"
  by (simp add: endpoint_of_def split: option.split)

lemma written_endpoints:
  assumes "lock_synchronized_endpoints rows s = Inr points" "table_keys_ok s"
    "\<And>k. get_endpoint k s' = get_endpoint k s"
  shows "get_endpoint k (write_endpoints (map (endpoint_of rows') points) s') =
     (if k \<in> fa_pk ` set rows then map_option (endpoint_of rows') (get_endpoint k s) else get_endpoint k s)"
proof -
  note l = lock_endpoints_rows [OF assms(1,2)]
  have d: "distinct (map fe_account (map (endpoint_of rows') points))" using l(1) by (simp add: comp_def)
  have "get_endpoint (fe_account p) s' \<noteq> None" if "p \<in> set points" for p
  proof -
    have "row_get fe_account (fe_account p) points \<noteq> None" using that by (auto simp: row_get_None_iff)
    then show ?thesis using l(3) [of "fe_account p"] assms(3) by (auto split: if_splits)
  qed
  then have "\<forall>x\<in>set (map (endpoint_of rows') points). get_endpoint (fe_account x) s' \<noteq> None" by simp
  then have "get_endpoint k (write_endpoints (map (endpoint_of rows') points) s') =
      (case row_get fe_account k (map (endpoint_of rows') points) of Some r \<Rightarrow> Some r | None \<Rightarrow> get_endpoint k s')"
    unfolding write_endpoints_def by (rule endpoints.sweep_lookup [OF d])
  also have "row_get fe_account k (map (endpoint_of rows') points) = map_option (endpoint_of rows') (row_get fe_account k points)"
    by (rule row_get_map) simp
  finally show ?thesis using l(3) [of k] assms(3) by (cases "get_endpoint k s") auto
qed

end
