(* ===== verification/Feed_Cursors.thy ===== *)
theory Feed_Cursors
  imports Feed_Intents
begin

text \<open>
  The cursors of the marketplace feeds: the invariant of accounts and endpoints that every operation
  of \<^verbatim>\<open>feed_intents.py\<close>, the scanner and the recovery keep, what an advance does to an account, and
  the way from a due revision to its one dispatch, and from a failed dispatch back to a due revision.
\<close>

section \<open>The invariant\<close>

definition cursor_ok :: "feed_account \<Rightarrow> bool" where
  "cursor_ok a \<longleftrightarrow> 0 \<le> fa_dispatched a \<and> fa_dispatched a \<le> fa_revision a \<and> fa_revision a \<le> max_feed_intent_revision \<and>
     (fa_due a \<noteq> None \<longrightarrow> fa_dispatched a < fa_revision a)"

definition cursors_ok :: "jobs \<Rightarrow> bool" where
  "cursors_ok s \<longleftrightarrow> table_keys_ok s \<and> (\<forall>k a. get_account k s = Some a \<longrightarrow> cursor_ok a) \<and>
     (\<forall>k a p. get_account k s = Some a \<longrightarrow> get_endpoint k s = Some p \<longrightarrow> fe_revision p = fa_revision a)"

lemma cursors_okI:
  assumes "table_keys_ok s" "\<And>k a. get_account k s = Some a \<Longrightarrow> cursor_ok a"
    "\<And>k a p. get_account k s = Some a \<Longrightarrow> get_endpoint k s = Some p \<Longrightarrow> fe_revision p = fa_revision a"
  shows "cursors_ok s"
  using assms unfolding cursors_ok_def by blast

lemma cursors_okD:
  assumes "cursors_ok s"
  shows "table_keys_ok s" "get_account k s = Some a \<Longrightarrow> cursor_ok a"
    "get_account k s = Some a \<Longrightarrow> get_endpoint k s = Some p \<Longrightarrow> fe_revision p = fa_revision a"
  using assms unfolding cursors_ok_def by blast+

text \<open>Only accounts and endpoints matter.\<close>

lemma cursors_ok_frame:
  assumes "jb_accounts s' = jb_accounts s" "jb_endpoints s' = jb_endpoints s"
  shows "cursors_ok s' = cursors_ok s"
  unfolding cursors_ok_def table_keys_ok_def get_account_def get_endpoint_def assms by (rule refl)

lemma keys_kept:
  "table_keys_ok (write_endpoints ps (write_accounts rows s)) = table_keys_ok s"
  "table_keys_ok (write_accounts rows s) = table_keys_ok s"
  by (simp_all add: table_keys_ok_def)

lemma bumped_account_key [simp]: "fa_pk (bumped_account t a) = fa_pk a"
  by (simp add: bumped_account_def)

lemma bumped_account_ok: "cursor_ok a \<Longrightarrow> \<not> revision_exhausted a \<Longrightarrow> cursor_ok (bumped_account t a)"
  by (auto simp: cursor_ok_def bumped_account_def revision_exhausted_def)

text \<open>Writing the locked accounts with a function that advances revisions, and their endpoints with them.\<close>

lemma advance:
  assumes "cursors_ok s" "lock_accounts ids s = Inr rows" "lock_synchronized_endpoints rows s = Inr points"
    "\<And>a. fa_pk (f a) = fa_pk a" "\<And>a. a \<in> set rows \<Longrightarrow> cursor_ok a \<Longrightarrow> cursor_ok (f a)"
    "s' = write_endpoints (map (endpoint_of (map f rows)) points) (write_accounts (map f rows) s)"
  shows "get_account k s' = (if int k \<in> set ids then map_option f (get_account k s) else get_account k s)" "cursors_ok s'"
proof -
  note keys = cursors_okD(1) [OF assms(1)]
  note l = lock_accounts_rows [OF assms(2) keys]
  show acc: "get_account k s' = (if int k \<in> set ids then map_option f (get_account k s) else get_account k s)" for k
    unfolding assms(6) using written_accounts [OF assms(2) keys assms(4)] by simp
  have pts: "get_endpoint k s' = (if k \<in> fa_pk ` set rows then map_option (endpoint_of (map f rows)) (get_endpoint k s)
      else get_endpoint k s)" for k
    unfolding assms(6) using written_endpoints [OF assms(3) keys, of "write_accounts (map f rows) s"] by simp
  have row: "row_get fa_pk k (map f rows) = (if int k \<in> set ids then map_option f (get_account k s) else None)" for k
    using row_get_map [of fa_pk f, OF assms(4)] l(3) [of k] by simp
  have mem: "int k \<in> set ids \<longleftrightarrow> k \<in> fa_pk ` set rows" for k using l(2) by (auto simp: image_iff)
  show "cursors_ok s'"
  proof (rule cursors_okI)
    show "table_keys_ok s'" using keys assms(6) keys_kept(1) by blast
  next
    fix k a'
    assume a': "get_account k s' = Some a'"
    show "cursor_ok a'"
    proof (cases "int k \<in> set ids")
      case False
      then show ?thesis using a' acc [of k] cursors_okD(2) [OF assms(1)] by simp
    next
      case True
      then obtain a where a: "get_account k s = Some a" "a' = f a" using a' acc [of k] by auto
      have "a \<in> set rows" using l(3) [of k] True a(1) row_get_in_set [of fa_pk k rows] by simp
      then show ?thesis using assms(5) cursors_okD(2) [OF assms(1) a(1)] a(2) by blast
    qed
  next
    fix k a' p'
    assume a': "get_account k s' = Some a'" and p': "get_endpoint k s' = Some p'"
    show "fe_revision p' = fa_revision a'"
    proof (cases "int k \<in> set ids")
      case False
      then show ?thesis
        using a' p' acc [of k] pts [of k] mem [of k] cursors_okD(3) [OF assms(1), of k] by simp
    next
      case True
      then obtain a p where a: "get_account k s = Some a" "a' = f a" and p: "get_endpoint k s = Some p"
          "p' = endpoint_of (map f rows) p"
        using a' p' acc [of k] pts [of k] mem [of k] by auto
      have "fe_account p = k" by (rule endpoints.get_key [OF p(1)])
      then show ?thesis using row [of k] True a p(2) by (simp add: endpoint_of_def)
    qed
  qed
qed

section \<open>The operations keep it\<close>

lemma bump_result:
  assumes "bump_feed_intents b t vs s = Inr (r, s')"
  obtains ids rows points where "those (map positive_feed_intent_argument vs) = Some ids" "lock_accounts (sort (remdups ids)) s = Inr rows"
    "lock_synchronized_endpoints rows s = Inr points" "\<not> list_ex revision_exhausted rows"
    "r = map (\<lambda>a. (fa_pk a, fa_revision a)) (map (bumped_account t) rows)"
    "s' = write_endpoints (map (endpoint_of (map (bumped_account t) rows)) points) (write_accounts (map (bumped_account t) rows) s)"
  using assms unfolding bump_feed_intents_def normalized_account_ids_def Let_def
  by (auto simp: bind_ok_Inr_iff split: if_splits)

lemma bump_ok:
  assumes "bump_feed_intents b t vs s = Inr (r, s')" "cursors_ok s"
  shows "cursors_ok s'"
proof -
  obtain ids rows points where b: "lock_accounts (sort (remdups ids)) s = Inr rows"
    "lock_synchronized_endpoints rows s = Inr points" "\<not> list_ex revision_exhausted rows"
    "s' = write_endpoints (map (endpoint_of (map (bumped_account t) rows)) points) (write_accounts (map (bumped_account t) rows) s)"
    using bump_result [OF assms(1)] by metis
  have "cursor_ok (bumped_account t a)" if "a \<in> set rows" "cursor_ok a" for a
    using that b(3) by (auto simp: list_ex_iff intro: bumped_account_ok)
  then show ?thesis by (rule advance(2) [OF assms(2) b(1,2) bumped_account_key _ b(4)])
qed

lemma lock_one:
  assumes "lock_accounts [k] s = Inr rows" "table_keys_ok s"
  obtains a where "rows = [a]" "int (fa_pk a) = k" "get_account (nat k) s = Some a"
proof -
  note l = lock_accounts_rows [OF assms]
  obtain a where a: "rows = [a]" "int (fa_pk a) = k" using l(2) by (cases rows) auto
  then have "row_get fa_pk (nat k) rows = Some a" by auto
  then have "get_account (nat k) s = Some a" using l(3) [of "nat k"] by (simp split: if_splits)
  then show thesis using that a by blast
qed

lemma rearm_result:
  assumes "rearm_feed_intent b v expected due s = Inr (r, s')"
  shows "(r = None \<and> s' = s) \<or> (\<exists>k rows points. account_id v = Inr k \<and> lock_accounts [k] s = Inr rows \<and>
     lock_synchronized_endpoints rows s = Inr points \<and> fa_revision (hd rows) = expected \<and> fa_dispatched (hd rows) = expected \<and>
     \<not> revision_exhausted (hd rows) \<and> r = Some (expected + 1) \<and>
     s' = write_endpoints (map (endpoint_of [(hd rows)\<lparr>fa_revision := fa_revision (hd rows) + 1, fa_due := due\<rparr>]) points)
       (write_accounts [(hd rows)\<lparr>fa_revision := fa_revision (hd rows) + 1, fa_due := due\<rparr>] s))"
proof -
  from assms obtain k rows points where l: "account_id v = Inr k" "lock_accounts [k] s = Inr rows"
      "lock_synchronized_endpoints rows s = Inr points"
    unfolding rearm_feed_intent_def by (auto simp: bind_ok_Inr_iff split: if_splits)
  let ?a' = "(hd rows)\<lparr>fa_revision := fa_revision (hd rows) + 1, fa_due := due\<rparr>"
  let ?s = "write_endpoints (map (endpoint_of [?a']) points) (write_accounts [?a'] s)"
  have "(r = None \<and> s' = s) \<or> (fa_revision (hd rows) = expected \<and> fa_dispatched (hd rows) = expected \<and>
      \<not> revision_exhausted (hd rows) \<and> r = Some (expected + 1) \<and> s' = ?s)"
    using assms unfolding rearm_feed_intent_def l bind_ok_simps Let_def by (simp split: if_splits)
  then show ?thesis using l by blast
qed

lemma rearm_account:
  assumes "rearm_feed_intent b v expected due s = Inr (Some n, s')" "cursors_ok s"
  obtains k a where "account_id v = Inr (int k)" "get_account k s = Some a" "fa_revision a = expected" "fa_dispatched a = expected"
    "n = expected + 1" "cursors_ok s'"
    "\<And>j. get_account j s' = (if j = k then Some (a\<lparr>fa_revision := expected + 1, fa_due := due\<rparr>) else get_account j s)"
proof -
  note keys = cursors_okD(1) [OF assms(2)]
  let ?f = "\<lambda>a. a\<lparr>fa_revision := fa_revision a + 1, fa_due := due\<rparr>"
  obtain k rows points where l: "account_id v = Inr k" "lock_accounts [k] s = Inr rows"
      "lock_synchronized_endpoints rows s = Inr points" "fa_revision (hd rows) = expected" "fa_dispatched (hd rows) = expected"
      "\<not> revision_exhausted (hd rows)" "n = expected + 1"
      "s' = write_endpoints (map (endpoint_of [?f (hd rows)]) points) (write_accounts [?f (hd rows)] s)"
    using rearm_result [OF assms(1)] by auto
  obtain a where a: "rows = [a]" "int (fa_pk a) = k" "get_account (nat k) s = Some a" using lock_one [OF l(2) keys] by blast
  have k: "k = int (nat k)" using a(2) by auto
  have s': "s' = write_endpoints (map (endpoint_of (map ?f rows)) points) (write_accounts (map ?f rows) s)"
    using l(8) a(1) by simp
  have ok: "cursor_ok (?f x)" if "x \<in> set rows" "cursor_ok x" for x
    using that a(1) l(4-6) by (auto simp: cursor_ok_def revision_exhausted_def)
  note adv = advance [OF assms(2) l(2,3) _ ok s']
  have "get_account j s' = (if j = nat k then Some (a\<lparr>fa_revision := expected + 1, fa_due := due\<rparr>) else get_account j s)" for j
    using adv(1) [of j] a l(4) k by auto
  moreover have "cursors_ok s'" using adv(2) by simp
  moreover have "fa_revision a = expected" "fa_dispatched a = expected" using l(4,5) a(1) by simp_all
  ultimately show thesis using that [of "nat k" a] l(1,7) a(3) k by simp
qed

lemma rearm_ok: "rearm_feed_intent b v expected due s = Inr (r, s') \<Longrightarrow> cursors_ok s \<Longrightarrow> cursors_ok s'"
  using rearm_result [of b v expected due s r s'] rearm_account [of b v expected due s] by (cases r) auto

text \<open>Accounts written without a new revision.\<close>

lemma reschedule:
  assumes "cursors_ok s" "distinct (map fa_pk rows)" "\<forall>a\<in>set rows. get_account (fa_pk a) s = Some a"
    "\<And>a. fa_pk (f a) = fa_pk a" "\<And>a. fa_revision (f a) = fa_revision a" "\<And>a. a \<in> set rows \<Longrightarrow> cursor_ok a \<Longrightarrow> cursor_ok (f a)"
  shows "get_account k (write_accounts (map f rows) s) =
      (if k \<in> fa_pk ` set rows then map_option f (get_account k s) else get_account k s)"
    "cursors_ok (write_accounts (map f rows) s)"
proof -
  let ?s = "write_accounts (map f rows) s"
  have d: "distinct (map fa_pk (map f rows))" using assms(2,4) by (simp add: comp_def)
  have ex: "\<forall>x\<in>set (map f rows). get_account (fa_pk x) s \<noteq> None" using assms(3,4) by simp
  have "get_account k ?s = (case row_get fa_pk k (map f rows) of Some r \<Rightarrow> Some r | None \<Rightarrow> get_account k s)" for k
    unfolding write_accounts_def by (rule accounts.sweep_lookup [OF d ex])
  moreover have "row_get fa_pk k (map f rows) = map_option f (row_get fa_pk k rows)" for k by (rule row_get_map) (rule assms(4))
  moreover have "row_get fa_pk k rows = (if k \<in> fa_pk ` set rows then get_account k s else None)" for k
  proof (cases "row_get fa_pk k rows")
    case None
    then show ?thesis by (auto simp: row_get_None_iff)
  next
    case (Some a)
    then show ?thesis using assms(3) row_get_in_set [OF Some] row_get_key [OF Some] by auto
  qed
  moreover have "get_account k s \<noteq> None" if "k \<in> fa_pk ` set rows" for k using that assms(3) by auto
  ultimately show acc: "get_account k ?s = (if k \<in> fa_pk ` set rows then map_option f (get_account k s) else get_account k s)" for k
    by (auto split: option.split)
  show "cursors_ok ?s"
  proof (rule cursors_okI)
    show "table_keys_ok ?s" using cursors_okD(1) [OF assms(1)] keys_kept(2) by blast
    show "cursor_ok a'" if "get_account k ?s = Some a'" for k a'
    proof (cases "k \<in> fa_pk ` set rows")
      case False
      then show ?thesis using that acc [of k] cursors_okD(2) [OF assms(1)] by simp
    next
      case True
      then obtain a where "a \<in> set rows" "fa_pk a = k" by auto
      then show ?thesis using that acc [of k] True assms(3,6) cursors_okD(2) [OF assms(1)] by auto
    qed
    show "fe_revision p = fa_revision a'" if "get_account k ?s = Some a'" "get_endpoint k ?s = Some p" for k a' p
      using that acc [of k] cursors_okD(3) [OF assms(1), of k] assms(5) by (auto split: if_splits)
  qed
qed

lemma nudge_account:
  assumes "nudge_undispatched_feed_intent b v due s = Inr (r, s')" "cursors_ok s"
  obtains k a where "account_id v = Inr (int k)" "get_account k s = Some a" "cursors_ok s'"
    "r = (fa_dispatched a < fa_revision a \<and> \<not> (case fa_due a of None \<Rightarrow> False | Some d \<Rightarrow> d \<le> due))"
    "\<And>j. get_account j s' = (if r \<and> j = k then Some (a\<lparr>fa_due := Some due\<rparr>) else get_account j s)"
proof -
  note keys = cursors_okD(1) [OF assms(2)]
  let ?f = "\<lambda>a. a\<lparr>fa_due := Some due\<rparr>"
  from assms(1) obtain k rows where l: "account_id v = Inr k" "lock_accounts [k] s = Inr rows"
    unfolding nudge_undispatched_feed_intent_def by (auto simp: bind_ok_Inr_iff split: if_splits)
  obtain a where a: "rows = [a]" "int (fa_pk a) = k" "get_account (nat k) s = Some a" using lock_one [OF l(2) keys] by blast
  have k: "k = int (nat k)" "fa_pk a = nat k" using a(2) by auto
  let ?r = "fa_dispatched a < fa_revision a \<and> \<not> (case fa_due a of None \<Rightarrow> False | Some d \<Rightarrow> d \<le> due)"
  have r: "r = ?r" "s' = (if ?r then write_accounts [?f a] s else s)"
    using assms(1) unfolding nudge_undispatched_feed_intent_def l bind_ok_simps Let_def a(1) list.sel by (auto split: if_splits)
  show thesis
  proof (cases ?r)
    case False
    then have n: "\<not> r" "s' = s" using r by presburger+
    show ?thesis
    proof (rule that [of "nat k" a])
      show "r = ?r" by (rule r(1))
    qed (use assms(2) l(1) a(3) k(1) n in simp_all)
  next
    case True
    have "cursor_ok (?f x)" if "x \<in> set [a]" "cursor_ok x" for x using that True by (auto simp: cursor_ok_def)
    note re = reschedule [OF assms(2), of "[a]" ?f, OF _ _ _ _ this]
    have "cursors_ok s'" "get_account j s' = (if j = nat k then Some (?f a) else get_account j s)" for j
      using re(1) [of j] re(2) a(3) k(2) r(2) True by auto
    then show ?thesis using that [of "nat k" a] l(1) a(3) k(1) r(1) True by simp
  qed
qed

lemma nudge_ok: "nudge_undispatched_feed_intent b v due s = Inr (r, s') \<Longrightarrow> cursors_ok s \<Longrightarrow> cursors_ok s'"
  by (erule nudge_account) auto

section \<open>The scanner\<close>

lemma due_selection:
  assumes "table_keys_ok s" "rows = due_feed_accounts t locked n s"
  shows "distinct (map fa_pk rows)" "\<forall>a\<in>set rows. get_account (fa_pk a) s = Some a"
    "\<forall>a\<in>set rows. due_feed_account t a \<and> \<not> locked (fa_pk a)"
proof -
  let ?all = "sort_key (\<lambda>a. case fa_due a of None \<Rightarrow> 0 | Some d \<Rightarrow> d) (sort_key fa_pk
       (filter (\<lambda>a. due_feed_account t a \<and> \<not> locked (fa_pk a)) (jb_accounts s)))"
  have r: "rows = take n ?all" using assms(2) by (simp add: due_feed_accounts_def)
  have "distinct (map fa_pk ?all)" using assms(1) by (auto simp: table_keys_ok_def distinct_map inj_on_def)
  then show "distinct (map fa_pk rows)" unfolding r take_map [symmetric] by (rule distinct_take)
  have sub: "set rows \<subseteq> set ?all" unfolding r by (rule set_take_subset)
  then show "\<forall>a\<in>set rows. due_feed_account t a \<and> \<not> locked (fa_pk a)" by auto
  have d: "distinct (map fa_pk (jb_accounts s))" using assms(1) by (simp add: table_keys_ok_def)
  show "\<forall>a\<in>set rows. get_account (fa_pk a) s = Some a"
    using sub row_get_distinct_iff [OF d] unfolding get_account_def by auto
qed

lemma enqueue_keeps_feeds:
  "enqueue_durable_task t q s = Inr (w, d) \<Longrightarrow> jb_accounts d = jb_accounts s \<and> jb_endpoints d = jb_endpoints s"
  by (auto simp: enqueue_durable_task_def create_dispatch_def kick_def put_dispatch_def Let_def split: option.splits if_splits)

text \<open>A keyed request that revives nothing finds its row or adds it, and leaves the other rows.\<close>

lemma enqueue_plain:
  assumes "enqueue_durable_task t q s = Inr (w, d)" "keys_ok s" "\<not> jq_revive q" "jq_key q = Some key" "key \<noteq> []"
  shows "keys_ok d" "get_dispatch (jd_id w) d = Some w" "jd_key w = Some key"
    "get_dispatch k s = Some v \<Longrightarrow> get_dispatch k d = Some v"
proof -
  show "keys_ok d" by (rule rows_move_keys [OF enqueue_moves [OF assms(2,1)] assms(2)])
  obtain queue where queue: "map_of durable_task_queues (jq_task q) = Some queue"
    using assms(1) by (auto simp: enqueue_durable_task_def split: option.splits)
  have "(get_dispatch (jd_id w) d = Some w \<and> jd_key w = Some key) \<and> (get_dispatch k s = Some v \<longrightarrow> get_dispatch k d = Some v)" for k v
  proof (cases "dispatch_with_key key s")
    case None
    then have w: "w = new_dispatch t q queue (jb_next s)" and d: "jb_dispatches d = row_add w (jb_dispatches s)"
      using assms(1,4,5) queue by (auto simp: enqueue_durable_task_def create_dispatch_def Let_def kick_def)
    have fresh: "row_get jd_id (jb_next s) (jb_dispatches s) = None"
      using assms(2) by (auto simp: keys_ok_def row_get_None_iff)
    have "jd_id w = jb_next s" by (simp add: w)
    then have "get_dispatch (jd_id w) d = Some w" using fresh by (simp add: get_dispatch_def d table_simps)
    moreover have "jd_key w = Some key" using assms(4,5) by (simp add: w new_dispatch_def)
    moreover have "get_dispatch k s = Some v \<longrightarrow> get_dispatch k d = Some v" by (simp add: get_dispatch_def d table_simps)
    ultimately show ?thesis by blast
  next
    case (Some x)
    have x: "x \<in> set (jb_dispatches s)" "jd_key x = Some key" using dispatch_with_key_Some [OF Some] by auto
    have "w = x" "d = kick (jd_id x) s" using assms(1,3-5) queue Some by (auto simp: enqueue_durable_task_def)
    then show ?thesis using keys_ok_get [OF assms(2) x(1)] x(2) by simp
  qed
  then show "get_dispatch (jd_id w) d = Some w" "jd_key w = Some key" "get_dispatch k s = Some v \<Longrightarrow> get_dispatch k d = Some v"
    by blast+
qed

definition intent_row :: "jobs \<Rightarrow> feed_account \<Rightarrow> job_dispatch \<Rightarrow> bool" where
  "intent_row s a w \<longleftrightarrow> owns_feed_intent a w \<and> jd_key w = Some (feed_intent_key (fa_pk a) (fa_revision a)) \<and>
     get_dispatch (jd_id w) s = Some w"

lemma enqueue_all:
  assumes "enqueue_feed_intents t rows s = Inr (ws, s')" "keys_ok s"
  shows "keys_ok s'" "jb_accounts s' = jb_accounts s" "jb_endpoints s' = jb_endpoints s"
    "get_dispatch k s = Some v \<Longrightarrow> get_dispatch k s' = Some v" "list_all2 (intent_row s') rows ws"
proof -
  have "keys_ok s' \<and> jb_accounts s' = jb_accounts s \<and> jb_endpoints s' = jb_endpoints s \<and>
      (\<forall>k v. get_dispatch k s = Some v \<longrightarrow> get_dispatch k s' = Some v) \<and> list_all2 (intent_row s') rows ws"
    using assms
  proof (induction t rows s arbitrary: ws s' rule: enqueue_feed_intents.induct)
    case (1 t s)
    then show ?case by simp
  next
    case (2 t a rows s)
    obtain w s1 ws1 where e: "enqueue_durable_task t (feed_intent_request t a) s = Inr (w, s1)" "owns_feed_intent a w"
        "enqueue_feed_intents t rows s1 = Inr (ws1, s')" "ws = w # ws1"
      using 2(2) by (auto simp: bind_ok_Inr_iff split: if_splits)
    have q: "\<not> jq_revive (feed_intent_request t a)" "jq_key (feed_intent_request t a) = Some (feed_intent_key (fa_pk a) (fa_revision a))"
        "feed_intent_key (fa_pk a) (fa_revision a) \<noteq> []"
      by (simp_all add: feed_intent_request_def feed_intent_key_def)
    note p = enqueue_plain [OF e(1) 2(3) q]
    have ih: "keys_ok s' \<and> jb_accounts s' = jb_accounts s1 \<and> jb_endpoints s' = jb_endpoints s1 \<and>
        (\<forall>k v. get_dispatch k s1 = Some v \<longrightarrow> get_dispatch k s' = Some v) \<and> list_all2 (intent_row s') rows ws1"
      by (rule 2(1) [OF _ e(3) p(1)]) (use e(2) in simp_all)
    have "intent_row s' a w" using e(2) p(2,3) ih unfolding intent_row_def by blast
    moreover have "get_dispatch k s' = Some v" if "get_dispatch k s = Some v" for k v using p(4) [OF that] ih by blast
    ultimately show ?case using ih enqueue_keeps_feeds [OF e(1)] e(4) by simp
  qed
  then show "keys_ok s'" "jb_accounts s' = jb_accounts s" "jb_endpoints s' = jb_endpoints s"
    "get_dispatch k s = Some v \<Longrightarrow> get_dispatch k s' = Some v" "list_all2 (intent_row s') rows ws"
    by blast+
qed

lemma dispatched_account_sel [simp]:
  "fa_pk (dispatched_account a) = fa_pk a" "fa_revision (dispatched_account a) = fa_revision a"
  "fa_dispatched (dispatched_account a) = fa_revision a" "fa_due (dispatched_account a) = None"
  by (simp_all add: dispatched_account_def)

lemma scan_result:
  assumes "scan_feed_intents t locked n s = Inr (ws, s')" "cursors_ok s" "keys_ok s" "rows = due_feed_accounts t locked n s"
  shows "list_all2 (intent_row s') rows ws" "keys_ok s'" "cursors_ok s'"
    "get_account k s' = (if k \<in> fa_pk ` set rows then map_option dispatched_account (get_account k s) else get_account k s)"
proof -
  obtain s1 where e: "enqueue_feed_intents t rows s = Inr (ws, s1)" "s' = write_accounts (map dispatched_account rows) s1"
    using assms(1,4) by (auto simp: scan_feed_intents_def Let_def bind_ok_Inr_iff)
  note q = enqueue_all [OF e(1) assms(3)]
  note sel = due_selection [OF cursors_okD(1) [OF assms(2)] assms(4)]
  have c: "cursors_ok s1" using cursors_ok_frame [OF q(2,3)] assms(2) by blast
  have g: "get_account k s1 = get_account k s" for k by (simp add: get_account_def q(2))
  have ok: "cursor_ok (dispatched_account a)" if "cursor_ok a" for a using that by (simp add: cursor_ok_def)
  have in1: "\<forall>a\<in>set rows. get_account (fa_pk a) s1 = Some a" using sel(2) by (simp add: g)
  note re = reschedule [OF c sel(1) in1, of dispatched_account]
  show "get_account k s' = (if k \<in> fa_pk ` set rows then map_option dispatched_account (get_account k s) else get_account k s)"
    unfolding e(2) g [symmetric] using ok by (intro re(1)) simp_all
  show "cursors_ok s'" unfolding e(2) using ok by (intro re(2)) simp_all
  show "keys_ok s'" using q(1) unfolding e(2) keys_ok_def write_accounts_frame .
  have "intent_row s' = intent_row s1" unfolding e(2) intent_row_def by simp
  then show "list_all2 (intent_row s') rows ws" using q(5) by simp
qed

section \<open>Recovery\<close>

lemma argument_int: "0 < k \<Longrightarrow> positive_feed_intent_argument (JInt k) = Some k"
  using py_int_str_nat [of "nat k"] by (simp add: positive_feed_intent_argument_def str_int_def)

lemma account_id_int: "0 < k \<Longrightarrow> account_id (JInt k) = Inr k"
  by (simp add: account_id_def argument_int)

text \<open>What an account keeps when its dispatch is recovered: nothing dispatched is forgotten, the desired
  revision does not go back, and what was due stays due at least as soon.\<close>

definition still_desired :: "feed_account \<Rightarrow> feed_account \<Rightarrow> bool" where
  "still_desired a a' \<longleftrightarrow> fa_dispatched a' = fa_dispatched a \<and> fa_revision a \<le> fa_revision a' \<and>
     (\<forall>d. fa_due a = Some d \<longrightarrow> (\<exists>d'. fa_due a' = Some d' \<and> d' \<le> d))"

definition keeps_desired :: "jobs \<Rightarrow> jobs \<Rightarrow> bool" where
  "keeps_desired s s' \<longleftrightarrow> (\<forall>k a. get_account k s = Some a \<longrightarrow> (\<exists>a'. get_account k s' = Some a' \<and> still_desired a a'))"

lemma still_desired_refl [simp]: "still_desired a a"
  by (simp add: still_desired_def)

lemma still_desired_trans: "still_desired a b \<Longrightarrow> still_desired b c \<Longrightarrow> still_desired a c"
  by (fastforce simp: still_desired_def)

lemma keeps_desired_same: "(\<And>k. get_account k s' = get_account k s) \<Longrightarrow> keeps_desired s s'"
  by (simp add: keeps_desired_def)

lemma keeps_desired_trans: "keeps_desired s s1 \<Longrightarrow> keeps_desired s1 s2 \<Longrightarrow> keeps_desired s s2"
  unfolding keeps_desired_def using still_desired_trans by metis

lemma keeps_desired_one:
  assumes "get_account k s = Some a" "\<And>j. get_account j s' = (if j = k then Some a' else get_account j s)" "still_desired a a'"
  shows "keeps_desired s s'"
  unfolding keeps_desired_def using assms by simp

definition rearmed :: "instant \<Rightarrow> feed_account \<Rightarrow> feed_account" where
  "rearmed t a =
     (if fa_revision a = fa_dispatched a then a\<lparr>fa_revision := fa_revision a + 1, fa_due := Some t\<rparr>
      else if (case fa_due a of None \<Rightarrow> False | Some d \<Rightarrow> d \<le> t) then a else a\<lparr>fa_due := Some t\<rparr>)"

lemma rearm_dispatches: "rearm_feed_intent b v expected due s = Inr (r, s') \<Longrightarrow> jb_dispatches s' = jb_dispatches s \<and> jb_next s' = jb_next s"
  using rearm_result [of b v expected due s r s'] by auto

lemma nudge_dispatches: "nudge_undispatched_feed_intent b v due s = Inr (r, s') \<Longrightarrow> jb_dispatches s' = jb_dispatches s \<and> jb_next s' = jb_next s"
  unfolding nudge_undispatched_feed_intent_def by (auto simp: bind_ok_Inr_iff Let_def split: if_splits)

lemma rearm_or_nudge_result:
  assumes "rearm_or_nudge t k source a s = Inr (Some (desired, s'))" "cursors_ok s" "get_account (nat k) s = Some a" "0 < k"
  shows "cursors_ok s'" "jb_dispatches s' = jb_dispatches s" "jb_next s' = jb_next s" "desired = fa_revision (rearmed t a)"
    "get_account j s' = (if j = nat k then Some (rearmed t a) else get_account j s)" "fa_dispatched a = source"
    "fa_dispatched a \<le> fa_revision a"
proof -
  have "cursors_ok s' \<and> jb_dispatches s' = jb_dispatches s \<and> jb_next s' = jb_next s \<and> desired = fa_revision (rearmed t a) \<and>
     get_account j s' = (if j = nat k then Some (rearmed t a) else get_account j s) \<and> fa_dispatched a = source \<and>
     fa_dispatched a \<le> fa_revision a" for j
  proof (cases "fa_revision a = fa_dispatched a \<and> fa_dispatched a = source")
    case True
    then have r: "rearm_feed_intent True (JInt k) source (Some t) s = Inr (Some desired, s')"
      using assms(1) by (auto simp: rearm_or_nudge_def bind_ok_def split: sum.splits option.splits if_splits)
    obtain i x where x: "account_id (JInt k) = Inr (int i)" "get_account i s = Some x" "fa_revision x = source"
        "desired = source + 1" "cursors_ok s'"
        "\<And>j. get_account j s' = (if j = i then Some (x\<lparr>fa_revision := source + 1, fa_due := Some t\<rparr>) else get_account j s)"
      using rearm_account [OF r assms(2)] by metis
    have "k = int i" using x(1) account_id_int [OF assms(4)] by simp
    then have "i = nat k" "x = a" using x(2) assms(3) by simp_all
    then show ?thesis using x(3-6) True rearm_dispatches [OF r] by (simp add: rearmed_def)
  next
    case False
    then have less: "fa_dispatched a < fa_revision a" "fa_dispatched a = source"
      using assms(1) by (auto simp: rearm_or_nudge_def split: if_splits)
    obtain b where n: "nudge_undispatched_feed_intent True (JInt k) t s = Inr (b, s')" "desired = fa_revision a"
      using assms(1) less by (auto simp: rearm_or_nudge_def bind_ok_def split: sum.splits option.splits if_splits)
    obtain i x where x: "account_id (JInt k) = Inr (int i)" "get_account i s = Some x" "cursors_ok s'"
        "b = (fa_dispatched x < fa_revision x \<and> \<not> (case fa_due x of None \<Rightarrow> False | Some d \<Rightarrow> d \<le> t))"
        "\<And>j. get_account j s' = (if b \<and> j = i then Some (x\<lparr>fa_due := Some t\<rparr>) else get_account j s)"
      using nudge_account [OF n(1) assms(2)] by metis
    have "k = int i" using x(1) account_id_int [OF assms(4)] by simp
    then have ix: "i = nat k" "x = a" using x(2) assms(3) by simp_all
    have "get_account j s' = (if j = nat k then Some (rearmed t a) else get_account j s)"
      using x(4,5) ix less(1) assms(3) by (auto simp: rearmed_def)
    moreover have "fa_revision (rearmed t a) = fa_revision a" using less(1) by (simp add: rearmed_def)
    ultimately show ?thesis using x(3) n(2) less nudge_dispatches [OF n(1)] by simp
  qed
  then show "cursors_ok s'" "jb_dispatches s' = jb_dispatches s" "jb_next s' = jb_next s" "desired = fa_revision (rearmed t a)"
    "get_account j s' = (if j = nat k then Some (rearmed t a) else get_account j s)" "fa_dispatched a = source"
    "fa_dispatched a \<le> fa_revision a"
    by blast+
qed

lemma rearmed_sel [simp]: "fa_dispatched (rearmed t a) = fa_dispatched a" "fa_pk (rearmed t a) = fa_pk a"
  by (simp_all add: rearmed_def)

lemma rearmed_due:
  assumes "cursor_ok a"
  shows "fa_revision a \<le> fa_revision (rearmed t a)" "\<exists>d. fa_due (rearmed t a) = Some d \<and> d \<le> t"
    "fa_dispatched a < fa_revision (rearmed t a)" "fa_due a = Some x \<Longrightarrow> \<exists>d. fa_due (rearmed t a) = Some d \<and> d \<le> x"
  using assms by (auto simp: rearmed_def cursor_ok_def split: option.splits)

lemma recovery_writes [simp]:
  "get_account k (finish_feed_intent_recovery w c u v s) = get_account k s"
  "get_account k (hold_recovery w t s) = get_account k s"
  "jb_accounts (finish_feed_intent_recovery w c u v s) = jb_accounts s" "jb_accounts (hold_recovery w t s) = jb_accounts s"
  "jb_endpoints (finish_feed_intent_recovery w c u v s) = jb_endpoints s" "jb_endpoints (hold_recovery w t s) = jb_endpoints s"
  by (simp_all add: finish_feed_intent_recovery_def hold_recovery_def)

lemma recovery_writes_ok: "cursors_ok (finish_feed_intent_recovery w c u v s) = cursors_ok s" "cursors_ok (hold_recovery w t s) = cursors_ok s"
  by (rule cursors_ok_frame; simp)+

text \<open>Either the accounts stay as they are, or the account was made due again.\<close>

lemma recover_intent_cases:
  assumes "recover_intent t d k source s = Inr (r, s')"
  shows "(r \<noteq> Rc_Recovered \<and> jb_accounts s' = jb_accounts s \<and> jb_endpoints s' = jb_endpoints s) \<or>
    (\<exists>a w desired s1. r = Rc_Recovered \<and> get_account (nat k) s = Some a \<and> recovery_locked d s = Some w \<and>
       rearm_or_nudge t k source a s = Inr (Some (desired, s1)) \<and>
       s' = finish_feed_intent_recovery w ''feed_intent_recovered'' (Some source) (Some desired) s1)"
proof (cases "get_account (nat k) s")
  case None
  then show ?thesis using assms by (auto simp: recover_intent_def split: option.splits)
next
  case (Some a)
  then show ?thesis using assms
    by (auto simp: recover_intent_def bind_ok_Inr_iff split: option.splits if_splits)
qed

lemma recover_invalid_frame: "jb_accounts (snd (recover_invalid d s)) = jb_accounts s \<and> jb_endpoints (snd (recover_invalid d s)) = jb_endpoints s"
  by (simp add: recover_invalid_def split: option.split)

lemma canonical_pos: "canonical_positive_dispatch_arg w i = Some n \<Longrightarrow> 0 < n"
  by (auto simp: canonical_positive_dispatch_arg_def split: if_splits dest: positive_canonical_pos)

lemma recover_candidate_keeps:
  assumes "recover_candidate t d s = Inr (r, s')" "cursors_ok s"
  shows "cursors_ok s' \<and> keeps_desired s s'"
proof -
  have same: ?thesis if "jb_accounts s' = jb_accounts s" "jb_endpoints s' = jb_endpoints s"
    using that cursors_ok_frame [OF that] assms(2) by (auto intro: keeps_desired_same simp: get_account_def)
  show ?thesis
  proof (cases "recovery_locked d s")
    case None
    then show ?thesis using assms(1) same by (simp add: recover_candidate_def)
  next
    case (Some w)
    show ?thesis
    proof (cases "\<exists>k source. canonical_positive_dispatch_arg w 0 = Some k \<and> canonical_positive_dispatch_arg w 1 = Some source")
      case False
      then have "Inr (recover_invalid d s) = (Inr (r, s') :: err + recovery \<times> jobs)"
        using assms(1) Some by (auto simp: recover_candidate_def split: option.splits)
      then have "s' = snd (recover_invalid d s)" by (metis snd_conv sum.inject(2))
      then show ?thesis using same recover_invalid_frame by simp
    next
      case True
      then obtain k source where k: "canonical_positive_dispatch_arg w 0 = Some k" "canonical_positive_dispatch_arg w 1 = Some source"
        by blast
      then have rec: "recover_intent t d k source s = Inr (r, s')" using assms(1) Some by (simp add: recover_candidate_def)
      consider "jb_accounts s' = jb_accounts s" "jb_endpoints s' = jb_endpoints s"
        | a w desired s1 where "get_account (nat k) s = Some a" "rearm_or_nudge t k source a s = Inr (Some (desired, s1))"
            "s' = finish_feed_intent_recovery w ''feed_intent_recovered'' (Some source) (Some desired) s1"
        using recover_intent_cases [OF rec] by blast
      then show ?thesis
      proof cases
        case 1
        then show ?thesis by (rule same)
      next
        case (2 a w' desired s1)
        note r = rearm_or_nudge_result [OF 2(2) assms(2) 2(1) canonical_pos [OF k(1)]]
        note a = rearmed_due [OF cursors_okD(2) [OF assms(2) 2(1)]]
        have "keeps_desired s s'"
          by (rule keeps_desired_one [OF 2(1), of _ "rearmed t a"]) (use r(5) 2(3) a in \<open>auto simp: still_desired_def\<close>)
        then show ?thesis using r(1) recovery_writes_ok(1) unfolding 2(3) by blast
      qed
    qed
  qed
qed

lemma recover_all_keeps: "cursors_ok s \<Longrightarrow> cursors_ok (snd (recover_all t ds s)) \<and> keeps_desired s (snd (recover_all t ds s))"
proof (induction t ds s rule: recover_all.induct)
  case (1 t s)
  then show ?case by (simp add: keeps_desired_same)
next
  case (2 t d ds s)
  show ?case
  proof (cases "recover_candidate t d s")
    case (Inl x)
    then show ?thesis using 2(2) by (simp add: keeps_desired_same)
  next
    case (Inr rs)
    obtain r s1 where rs: "rs = (r, s1)" by (cases rs)
    have c: "cursors_ok s1 \<and> keeps_desired s s1" using recover_candidate_keeps Inr 2(2) unfolding rs by blast
    then have "cursors_ok (snd (recover_all t ds s1)) \<and> keeps_desired s1 (snd (recover_all t ds s1))"
      using 2(1) [OF Inr [unfolded rs] refl] by blast
    moreover have "snd (recover_all t (d # ds) s) = snd (recover_all t ds s1)"
      by (simp add: Inr rs split: prod.split sum.split)
    ultimately show ?thesis using c keeps_desired_trans by metis
  qed
qed

end
