(* ===== verification/Feed_Guarantees.thy ===== *)
theory Feed_Guarantees
  imports Feed_Cursors
begin

text \<open>
  What the feed intents guarantee: cursors stay consistent under every mix of operations, an advance
  counts each account once and respects holds and the coalescing window, a due revision becomes
  exactly one dispatch, a dispatch that failed leads to a new due revision, and a delivery only
  confirms the current revision.
\<close>

section \<open>A sample\<close>

definition demo_account :: feed_account where
  "demo_account =
     \<lparr>fa_pk = 5, fa_avito = True, fa_active = True, fa_deleted = False, fa_tenant_active = True,
      fa_last_flush = Some (secs 100), fa_revision = 7, fa_dispatched = 7, fa_due = None\<rparr>"

definition demo_feeds :: jobs where
  "demo_feeds = demo_jobs\<lparr>jb_accounts := [demo_account], jb_endpoints := [\<lparr>fe_account = 5, fe_revision = 7\<rparr>]\<rparr>"

lemma demo_feeds_ok: "cursors_ok demo_feeds" "keys_ok demo_feeds"
  by (auto simp: cursors_ok_def table_keys_ok_def cursor_ok_def keys_ok_def get_account_def get_endpoint_def demo_feeds_def
      demo_jobs_def demo_account_def max_feed_intent_revision_def split: if_splits)

lemma demo_five: "positive_feed_intent_argument (JInt 5) = Some 5"
  by (rule argument_int) simp

lemmas feed_eval = bump_feed_intents_def normalized_account_ids_def lock_accounts_def lock_synchronized_endpoints_def
  demo_feeds_def demo_account_def demo_jobs_def endpoint_synced_def bumped_account_def held_intent_def candidate_due_def
  write_accounts_def write_endpoints_def put_account_def put_endpoint_def endpoint_of_def revision_exhausted_def
  max_feed_intent_revision_def feed_intent_coalesce_window_def secs_def Let_def

definition demo_bumped :: jobs where
  "demo_bumped = demo_feeds
     \<lparr>jb_accounts := [demo_account\<lparr>fa_revision := 8, fa_due := Some (secs 3700)\<rparr>],
      jb_endpoints := [\<lparr>fe_account = 5, fe_revision = 8\<rparr>]\<rparr>"

lemma demo_bump: "bump_feed_intents True (secs 200) [JInt 5, JInt 5] demo_feeds = Inr ([(5, 8)], demo_bumped)"
  by (simp add: demo_five feed_eval demo_bumped_def)

section \<open>Consistent cursors\<close>

datatype feed_op =
    Bump instant "json list"
  | Bump_Products string instant "json list"
  | Rearm json int "instant option"
  | Nudge json instant
  | Scan instant "nat list" nat
  | Recover instant json

fun feed_act :: "feed_op \<Rightarrow> jobs \<Rightarrow> jobs" where
  "feed_act (Bump t vs) s = (case bump_feed_intents True t vs s of Inl _ \<Rightarrow> s | Inr (_, s') \<Rightarrow> s')"
| "feed_act (Bump_Products mode t vs) s = (case bump_feed_intents_for_products mode True t vs s of Inl _ \<Rightarrow> s | Inr (_, s') \<Rightarrow> s')"
| "feed_act (Rearm v expected due) s = (case rearm_feed_intent True v expected due s of Inl _ \<Rightarrow> s | Inr (_, s') \<Rightarrow> s')"
| "feed_act (Nudge v due) s = (case nudge_undispatched_feed_intent True v due s of Inl _ \<Rightarrow> s | Inr (_, s') \<Rightarrow> s')"
| "feed_act (Scan t locked n) s = (case scan_feed_intents t (\<lambda>k. k \<in> set locked) n s of Inl _ \<Rightarrow> s | Inr (_, s') \<Rightarrow> s')"
| "feed_act (Recover t limit) s = snd (recover_terminal_feed_intent_dispatches t limit s)"

lemma bump_products_ok:
  "bump_feed_intents_for_products mode b t vs s = Inr (r, s') \<Longrightarrow> cursors_ok s \<Longrightarrow> cursors_ok s'"
  by (auto simp: bump_feed_intents_for_products_def bind_ok_Inr_iff split: if_splits dest: bump_ok)


text \<open>The dispatch table keeps its keys as well.\<close>

lemma keys_ok_put:
  assumes "keys_ok s" "get_dispatch k s = Some w" "jd_id w' = jd_id w" "jd_key w' = jd_key w"
  shows "keys_ok (put_dispatch w' s)"
proof -
  let ?rows = "jb_dispatches (put_dispatch w' s)"
  have ids: "map jd_id ?rows = map jd_id (jb_dispatches s)" by (simp add: put_dispatch_def map_pk_row_put)
  have old: "x = w' \<or> (x \<in> set (jb_dispatches s) \<and> jd_id x \<noteq> jd_id w)" if "x \<in> set ?rows" for x
    using that assms(3) by (auto simp: put_dispatch_def row_put_def split: if_splits)
  have w: "w \<in> set (jb_dispatches s)" by (rule get_dispatch_mem [OF assms(2)])
  have "distinct (map jd_id ?rows)" using ids assms(1) by (simp add: keys_ok_def)
  moreover have "jd_id x < jb_next (put_dispatch w' s)" if "x \<in> set ?rows" for x
    using old [OF that] assms(1,3) w by (auto simp: keys_ok_def)
  moreover have "x = y" if "x \<in> set ?rows" "y \<in> set ?rows" "jd_key x \<noteq> None" "jd_key x = jd_key y" for x y
    using old [OF that(1)] old [OF that(2)] that(3,4) assms(1,4) w unfolding keys_ok_def by metis
  ultimately show ?thesis unfolding keys_ok_def by blast
qed

lemma keys_ok_rows: "jb_dispatches s' = jb_dispatches s \<Longrightarrow> jb_next s' = jb_next s \<Longrightarrow> keys_ok s' = keys_ok s"
  by (simp only: keys_ok_def)

lemma bump_keys: "bump_feed_intents b t vs s = Inr (r, s') \<Longrightarrow> keys_ok s' = keys_ok s"
  by (erule bump_result) (simp add: keys_ok_def)

lemma bump_products_keys: "bump_feed_intents_for_products mode b t vs s = Inr (r, s') \<Longrightarrow> keys_ok s' = keys_ok s"
  by (auto simp: bump_feed_intents_for_products_def bind_ok_Inr_iff split: if_splits dest: bump_keys)

lemma rearm_keys: "rearm_feed_intent b v expected due s = Inr (r, s') \<Longrightarrow> keys_ok s' = keys_ok s"
  by (drule rearm_dispatches) (simp add: keys_ok_def)

lemma nudge_keys: "nudge_undispatched_feed_intent b v due s = Inr (r, s') \<Longrightarrow> keys_ok s' = keys_ok s"
  by (drule nudge_dispatches) (simp add: keys_ok_def)

lemma recovery_locked_get: "recovery_locked d s = Some w \<Longrightarrow> get_dispatch d s = Some w"
  by (auto simp: recovery_locked_def split: option.splits if_splits)

lemma recovery_writes_keys:
  assumes "keys_ok s" "get_dispatch d s = Some w"
  shows "keys_ok (finish_feed_intent_recovery w c u v s)" "keys_ok (hold_recovery w t s)"
  using keys_ok_put [OF assms] by (simp_all add: finish_feed_intent_recovery_def hold_recovery_def)

lemma rearm_or_nudge_dispatches:
  assumes "rearm_or_nudge t k source a s = Inr (Some (desired, s'))"
  shows "jb_dispatches s' = jb_dispatches s \<and> jb_next s' = jb_next s"
proof (cases "fa_revision a = fa_dispatched a \<and> fa_dispatched a = source")
  case True
  then obtain r where "rearm_feed_intent True (JInt k) source (Some t) s = Inr (r, s')"
    using assms by (auto simp: rearm_or_nudge_def bind_ok_def split: sum.splits option.splits if_splits)
  then show ?thesis by (rule rearm_dispatches)
next
  case False
  then obtain b where "nudge_undispatched_feed_intent True (JInt k) t s = Inr (b, s')"
    using assms by (auto simp: rearm_or_nudge_def bind_ok_def split: sum.splits option.splits if_splits)
  then show ?thesis by (rule nudge_dispatches)
qed

lemma recover_intent_keys:
  assumes "recover_intent t d k source s = Inr (r, s')" "keys_ok s"
  shows "keys_ok s'"
proof (cases "recovery_locked d s")
  case None
  then show ?thesis using assms by (auto simp: recover_intent_def split: option.splits)
next
  case (Some w)
  note kept = recovery_writes_keys [OF assms(2) recovery_locked_get [OF Some]]
  have after: "keys_ok (finish_feed_intent_recovery w c u v s1)"
    if "rearm_or_nudge t k source a s = Inr (Some (desired, s1))" for a desired s1 c u v
  proof -
    have same: "jb_dispatches s1 = jb_dispatches s" "jb_next s1 = jb_next s" using rearm_or_nudge_dispatches [OF that] by auto
    then have "get_dispatch d s1 = Some w" using recovery_locked_get [OF Some] by (simp add: get_dispatch_def)
    then show ?thesis using recovery_writes_keys(1) keys_ok_rows [OF same] assms(2) by blast
  qed
  show ?thesis
  proof (cases "get_account (nat k) s")
    case None
    then show ?thesis using assms(1) Some kept by (auto simp: recover_intent_def)
  next
    case acc: (Some a)
    show ?thesis using assms unfolding recover_intent_def acc Some option.case
      by (auto simp: bind_ok_Inr_iff kept after split: if_splits option.splits)
  qed
qed

lemma recover_candidate_keys:
  assumes "recover_candidate t d s = Inr (r, s')" "keys_ok s"
  shows "keys_ok s'"
proof (cases "recovery_locked d s")
  case None
  then show ?thesis using assms by (simp add: recover_candidate_def)
next
  case (Some w)
  have "keys_ok (snd (recover_invalid d s))"
    using recovery_writes_keys(1) [OF assms(2) recovery_locked_get [OF Some]] by (simp add: recover_invalid_def Some)
  then show ?thesis using assms Some recover_intent_keys [of t d _ _ s r s']
    by (auto simp: recover_candidate_def split: option.splits)
qed

lemma recover_all_keys: "keys_ok s \<Longrightarrow> keys_ok (snd (recover_all t ds s))"
proof (induction t ds s rule: recover_all.induct)
  case (2 t d ds s)
  show ?case
  proof (cases "recover_candidate t d s")
    case (Inr rs)
    obtain r s1 where rs: "rs = (r, s1)" by (cases rs)
    have "keys_ok s1" using recover_candidate_keys Inr 2(2) unfolding rs by blast
    then show ?thesis using 2(1) [OF Inr [unfolded rs] refl] by (simp add: Inr rs split: prod.split sum.split) (metis snd_conv)
  qed (use 2(2) in simp)
qed simp

lemma feed_act_ok:
  assumes "cursors_ok s" "keys_ok s"
  shows "cursors_ok (feed_act p s) \<and> keys_ok (feed_act p s)"
proof (cases p)
  case (Bump t vs)
  then show ?thesis using assms bump_ok bump_keys by (auto split: sum.split)
next
  case (Bump_Products mode t vs)
  then show ?thesis using assms bump_products_ok bump_products_keys by (auto split: sum.split)
next
  case (Rearm v expected due)
  then show ?thesis using assms rearm_ok rearm_keys by (auto split: sum.split)
next
  case (Nudge v due)
  then show ?thesis using assms nudge_ok nudge_keys by (auto split: sum.split)
next
  case (Scan t locked n)
  then show ?thesis using assms scan_result(2,3) [OF _ assms refl] by (auto split: sum.split)
next
  case (Recover t limit)
  then show ?thesis using recover_all_keeps [OF assms(1)] recover_all_keys [OF assms(2)]
    by (simp add: recover_terminal_feed_intent_dispatches_def Let_def)
qed

lemma feed_acts_ok: "cursors_ok s \<Longrightarrow> keys_ok s \<Longrightarrow> cursors_ok (fold feed_act ps s) \<and> keys_ok (fold feed_act ps s)"
  by (induction ps arbitrary: s) (auto simp: feed_act_ok)

text \<open>C22: After any sequence of advances, re-arms, nudges, scans and recoveries, whether they succeed or
  raise, every account has dispatched at most what it desires, within the column's range, is due
  only for a revision that is not dispatched yet, and its endpoint carries the same desired
  revision.\<close>

theorem feed_cursors_stay_consistent:
  assumes "cursors_ok s" "keys_ok s" "get_account k (fold feed_act ps s) = Some a"
  shows "0 \<le> fa_dispatched a \<and> fa_dispatched a \<le> fa_revision a \<and> fa_revision a < 2 ^ 63 \<and>
     (case fa_due a of None \<Rightarrow> True | Some _ \<Rightarrow> fa_dispatched a < fa_revision a) \<and>
     (case get_endpoint k (fold feed_act ps s) of None \<Rightarrow> True | Some p \<Rightarrow> fe_revision p = fa_revision a)"
proof -
  have "cursors_ok (fold feed_act ps s)" using feed_acts_ok [OF assms(1,2)] by blast
  then have "cursor_ok a" "\<forall>p. get_endpoint k (fold feed_act ps s) = Some p \<longrightarrow> fe_revision p = fa_revision a"
    using assms(3) cursors_okD(2,3) by blast+
  then show ?thesis by (auto simp: cursor_ok_def max_feed_intent_revision_def split: option.split)
qed

lemma feed_cursors_stay_consistent_witness:
  "\<exists>a. get_account 5 (fold feed_act [Bump (secs 200) [JInt 5, JInt 5], Bump_Products ''legacy'' 0 [JNull]] demo_feeds) = Some a \<and>
     fa_dispatched a < fa_revision a \<and> fa_due a = Some (secs 3700)"
proof -
  let ?ps = "[Bump (secs 200) [JInt 5, JInt 5], Bump_Products ''legacy'' 0 [JNull]]"
  have s: "fold feed_act ?ps demo_feeds = demo_bumped" by (simp add: demo_bump bump_feed_intents_for_products_def)
  obtain a where a: "get_account 5 demo_bumped = Some a" "fa_due a = Some (secs 3700)"
    by (simp add: get_account_def demo_bumped_def demo_account_def)
  show ?thesis using feed_cursors_stay_consistent [OF demo_feeds_ok, of 5 ?ps a] a unfolding s by simp
qed

section \<open>Advancing\<close>

lemma map_of_pairs: "map_of (map (\<lambda>a. (pk a, f a)) rows) k = map_option f (row_get pk k rows)"
  by (induction rows) auto

text \<open>A change of products is counted once per account. Each named account, however often it is named,
  desires exactly one revision more and the caller learns it; nothing else moves. Work that was
  already due is never postponed, new work waits for the hour after the last flush, and a revision
  held for an uncertain provider outcome stays held. No dispatch is touched.\<close>

theorem bump_advances_each_account_once:
  assumes "cursors_ok s" "bump_feed_intents True t vs s = Inr (r, s')" "get_account k s = Some a"
    "those (map positive_feed_intent_argument vs) = Some ids"
  shows "jb_dispatches s' = jb_dispatches s \<and>
    (\<exists>a'. get_account k s' = Some a' \<and> fa_dispatched a' = fa_dispatched a \<and>
       (if int k \<notin> set ids then a' = a \<and> map_of r k = None
        else fa_revision a' = fa_revision a + 1 \<and> map_of r k = Some (fa_revision a') \<and>
          (if held_intent a then fa_due a' = None
           else case (fa_due a, fa_last_flush a) of
             (Some d, _) \<Rightarrow> (case fa_due a' of None \<Rightarrow> False | Some x \<Rightarrow> x \<le> d)
           | (None, None) \<Rightarrow> fa_due a' = Some t
           | (None, Some f) \<Rightarrow> fa_due a' = Some (max t (f + secs 3600)))))"
proof -
  obtain ids' rows points where b': "those (map positive_feed_intent_argument vs) = Some ids'"
    "lock_accounts (sort (remdups ids')) s = Inr rows" "lock_synchronized_endpoints rows s = Inr points"
    "\<not> list_ex revision_exhausted rows" "r = map (\<lambda>a. (fa_pk a, fa_revision a)) (map (bumped_account t) rows)"
    "s' = write_endpoints (map (endpoint_of (map (bumped_account t) rows)) points) (write_accounts (map (bumped_account t) rows) s)"
    by (rule bump_result [OF assms(2)])
  have "ids' = ids" using b'(1) assms(4) by simp
  note b = b'(2-6) [unfolded this]
  note keys = cursors_okD(1) [OF assms(1)]
  have ok: "cursor_ok (bumped_account t x)" if "x \<in> set rows" "cursor_ok x" for x
    using that b(3) by (auto simp: list_ex_iff intro: bumped_account_ok)
  have g: "get_account k s' = Some (if int k \<in> set ids then bumped_account t a else a)"
    using advance(1) [OF assms(1) b(1,2) bumped_account_key ok b(5), of k] assms(3) by simp
  have r: "map_of r k = (if int k \<in> set ids then Some (fa_revision a + 1) else None)"
    using lock_accounts_rows(3) [OF b(1) keys, of k] assms(3)
    by (simp add: b(4) map_of_pairs row_get_map [of fa_pk] bumped_account_def map_option_case comp_def)
  have "jb_dispatches s' = jb_dispatches s" using b(5) by simp
  moreover have ?thesis if "jb_dispatches s' = jb_dispatches s" "int k \<notin> set ids"
    using that g r by simp
  moreover have ?thesis if d: "jb_dispatches s' = jb_dispatches s" and k: "int k \<in> set ids"
  proof (intro conjI exI [of _ "bumped_account t a"])
    show "if int k \<notin> set ids then bumped_account t a = a \<and> map_of r k = None
        else fa_revision (bumped_account t a) = fa_revision a + 1 \<and> map_of r k = Some (fa_revision (bumped_account t a)) \<and>
          (if held_intent a then fa_due (bumped_account t a) = None
           else case (fa_due a, fa_last_flush a) of
             (Some d, _) \<Rightarrow> (case fa_due (bumped_account t a) of None \<Rightarrow> False | Some x \<Rightarrow> x \<le> d)
           | (None, None) \<Rightarrow> fa_due (bumped_account t a) = Some t
           | (None, Some f) \<Rightarrow> fa_due (bumped_account t a) = Some (max t (f + secs 3600)))"
      using k r by (cases "fa_due a"; cases "fa_last_flush a")
        (simp_all add: bumped_account_def candidate_due_def feed_intent_coalesce_window_def)
  qed (use d k g in \<open>simp_all add: bumped_account_def\<close>)
  ultimately show ?thesis by blast
qed

lemma bump_advances_each_account_once_witness:
  "\<exists>a. get_account 5 demo_bumped = Some a \<and> fa_revision a = 8 \<and> fa_due a = Some (secs 3700)"
proof -
  have g: "get_account 5 demo_feeds = Some demo_account" by (simp add: get_account_def demo_feeds_def demo_account_def)
  have v: "those (map positive_feed_intent_argument [JInt 5, JInt 5]) = Some [5, 5]" by (simp add: demo_five)
  show ?thesis using bump_advances_each_account_once [OF demo_feeds_ok(1) demo_bump g v]
    by (auto simp: demo_account_def held_intent_def secs_def)
qed

section \<open>From a due revision to its dispatch\<close>

lemma filter_single:
  assumes "distinct (map f xs)" "x \<in> set xs" "\<And>y. y \<in> set xs \<Longrightarrow> p y \<longleftrightarrow> y = x"
  shows "filter p xs = [x]"
proof -
  have only: "filter (\<lambda>y. y = x) ys = [x]" if "distinct ys" "x \<in> set ys" for ys
    using that by (induction ys) (auto simp: filter_empty_conv)
  have "filter p xs = filter (\<lambda>y. y = x) xs" using assms(3) by (intro filter_cong) auto
  then show ?thesis using only assms(1,2) by (simp add: distinct_map)
qed

text \<open>C20: The scanner turns every due revision it selects into exactly one dispatch. After a successful scan the
  account has dispatched its desired revision and is not due any more, and the table holds one row
  under the key of that account and revision: the feed task on its queue with exactly those two
  arguments. Whoever scans or enqueues the same revision again finds that row.\<close>

theorem due_revision_becomes_one_dispatch:
  assumes "cursors_ok s" "keys_ok s" "scan_feed_intents t locked n s = Inr (ws, s')" "a \<in> set (due_feed_accounts t locked n s)"
  shows "\<exists>w a'. get_account (fa_pk a) s' = Some a' \<and> fa_dispatched a' = fa_revision a \<and> fa_revision a' = fa_revision a \<and>
     fa_due a' = None \<and> owns_feed_intent a w \<and>
     filter (\<lambda>v. jd_key v = Some (feed_intent_key (fa_pk a) (fa_revision a))) (jb_dispatches s') = [w]"
proof -
  note r = scan_result [OF assms(3,1,2) refl]
  have "get_account (fa_pk a) s = Some a"
    using due_selection(2) [OF cursors_okD(1) [OF assms(1)] refl] assms(4) by blast
  then have acc: "get_account (fa_pk a) s' = Some (dispatched_account a)" using r(4) [of "fa_pk a"] assms(4) by simp
  obtain i where i: "i < length (due_feed_accounts t locked n s)" "due_feed_accounts t locked n s ! i = a"
    using assms(4) by (auto simp: in_set_conv_nth)
  then have "intent_row s' a (ws ! i)" using list_all2_nthD [OF r(1) i(1)] by simp
  then have w: "owns_feed_intent a (ws ! i)" "jd_key (ws ! i) = Some (feed_intent_key (fa_pk a) (fa_revision a))"
      "ws ! i \<in> set (jb_dispatches s')"
    using get_dispatch_mem by (auto simp: intent_row_def)
  have "filter (\<lambda>v. jd_key v = Some (feed_intent_key (fa_pk a) (fa_revision a))) (jb_dispatches s') = [ws ! i]"
  proof (rule filter_single [of jd_id])
    show "distinct (map jd_id (jb_dispatches s'))" using r(2) by (simp add: keys_ok_def)
    show "jd_key v = Some (feed_intent_key (fa_pk a) (fa_revision a)) \<longleftrightarrow> v = ws ! i" if "v \<in> set (jb_dispatches s')" for v
      using that w(2,3) r(2) unfolding keys_ok_def by (metis option.distinct(1))
  qed (rule w(3))
  then show ?thesis using acc w(1) by auto
qed

lemma demo_due: "due_feed_accounts (secs 4000) (\<lambda>_. False) 100 demo_bumped = [demo_account\<lparr>fa_revision := 8, fa_due := Some (secs 3700)\<rparr>]"
  by (simp add: due_feed_accounts_def demo_bumped_def demo_account_def due_feed_account_def secs_def)

lemma demo_bumped_ok: "cursors_ok demo_bumped" "keys_ok demo_bumped"
  using bump_ok [OF demo_bump demo_feeds_ok(1)] bump_keys [OF demo_bump] demo_feeds_ok(2) by simp_all

lemma demo_feed_queue: "map_of durable_task_queues feed_intent_task = Some ''avito_publish''"
  by (simp add: durable_task_queues_def feed_intent_task_def)

lemma demo_scan: "\<exists>ws s'. scan_feed_intents (secs 4000) (\<lambda>_. False) 100 demo_bumped = Inr (ws, s')"
proof -
  let ?a = "demo_account\<lparr>fa_revision := 8, fa_due := Some (secs 3700)\<rparr>"
  have "dispatch_with_key key demo_bumped = None" for key
    by (simp add: dispatch_with_key_def demo_bumped_def demo_feeds_def demo_jobs_def)
  then have "\<exists>ws s1. enqueue_feed_intents (secs 4000) [?a] demo_bumped = Inr (ws, s1)"
    by (simp add: enqueue_durable_task_def demo_feed_queue feed_intent_request_def feed_intent_key_def create_dispatch_def
        owns_feed_intent_def new_dispatch_def Let_def)
  then show ?thesis unfolding scan_feed_intents_def demo_due Let_def by (auto simp: bind_ok_def)
qed

lemma due_revision_becomes_one_dispatch_witness:
  "\<exists>ws s' w. scan_feed_intents (secs 4000) (\<lambda>_. False) 100 demo_bumped = Inr (ws, s') \<and>
     filter (\<lambda>v. jd_key v = Some (feed_intent_key 5 8)) (jb_dispatches s') = [w] \<and> jd_args w = [JInt 5, JInt 8]"
proof -
  obtain ws s' where s: "scan_feed_intents (secs 4000) (\<lambda>_. False) 100 demo_bumped = Inr (ws, s')" using demo_scan by blast
  have "demo_account\<lparr>fa_revision := 8, fa_due := Some (secs 3700)\<rparr> \<in> set (due_feed_accounts (secs 4000) (\<lambda>_. False) 100 demo_bumped)"
    by (simp add: demo_due)
  from due_revision_becomes_one_dispatch [OF demo_bumped_ok s this] show ?thesis
    using s by (auto simp: owns_feed_intent_def demo_account_def)
qed

section \<open>Recovery\<close>

lemma recovered_final:
  "finish_feed_intent_recovery w ''feed_intent_recovered'' u v s = s' \<Longrightarrow> get_dispatch d s = Some w \<Longrightarrow>
     \<exists>w'. get_dispatch d s' = Some w' \<and> \<not> feed_intent_dispatch_needs_recovery w'"
  using get_put_dispatch [of d s w _ d] get_dispatch_id [of d s w]
  by (auto simp: finish_feed_intent_recovery_def feed_intent_dispatch_needs_recovery_def result_dict_def dict_get_def
      feed_intent_recovery_final_codes_def)

text \<open>Sorting out an account that may publish: everything but the source revision agrees.\<close>

definition recoverable_account :: "int \<Rightarrow> feed_account \<Rightarrow> jobs \<Rightarrow> bool" where
  "recoverable_account source a s \<longleftrightarrow> \<not> fa_deleted a \<and> fa_active a \<and> fa_tenant_active a \<and> fa_dispatched a = source \<and>
     fa_revision a < max_feed_intent_revision"

lemma synced_endpoints:
  assumes "cursors_ok s" "get_account k s = Some a" "p \<in> set (jb_endpoints s)" "fe_account p = k"
  shows "fe_revision p = fa_revision a"
proof -
  have "get_endpoint k s = Some p"
    using assms(3,4) row_get_distinct_iff [of fe_account "jb_endpoints s" k p] cursors_okD(1) [OF assms(1)]
    by (simp add: get_endpoint_def table_keys_ok_def)
  then show ?thesis using cursors_okD(3) [OF assms(1,2)] by blast
qed

lemma lock_one_known:
  assumes "table_keys_ok s" "get_account (nat k) s = Some a" "0 < k"
  shows "lock_accounts [k] s = Inr [a]"
proof -
  have a: "a \<in> set (jb_accounts s)" "fa_pk a = nat k" "distinct (map fa_pk (jb_accounts s))"
    using assms(1,2) unfolding get_account_def table_keys_ok_def by (auto dest: row_get_in_set row_get_key)
  have "filter (\<lambda>x. int (fa_pk x) \<in> set [k]) (jb_accounts s) = [a]"
  proof (rule filter_single [OF a(3,1)])
    show "int (fa_pk y) \<in> set [k] \<longleftrightarrow> y = a" if "y \<in> set (jb_accounts s)" for y
    proof
      assume "int (fa_pk y) \<in> set [k]"
      then have "fa_pk y = nat k" by auto
      then have "row_get fa_pk (nat k) (jb_accounts s) = Some y" using that row_get_distinct_iff [OF a(3)] by blast
      then show "y = a" using assms(2) by (simp add: get_account_def)
    next
      assume "y = a"
      then show "int (fa_pk y) \<in> set [k]" using a(2) assms(3) by simp
    qed
  qed
  then show ?thesis using a(2) assms(3) by (simp add: lock_accounts_def Let_def)
qed

lemma lock_endpoints_known:
  assumes "cursors_ok s" "get_account k s = Some a"
  obtains points where "lock_synchronized_endpoints [a] s = Inr points"
proof -
  have "fa_pk a = k" by (rule accounts.get_key [OF assms(2)])
  then have "list_all (endpoint_synced [a]) (sort_key fe_account (filter (\<lambda>p. fe_account p \<in> set (map fa_pk [a])) (jb_endpoints s)))"
    using synced_endpoints [OF assms] by (auto simp: list_all_iff endpoint_synced_def)
  then show thesis using that by (simp add: lock_synchronized_endpoints_def Let_def)
qed

lemma rearm_or_nudge_succeeds:
  assumes "cursors_ok s" "get_account (nat k) s = Some a" "0 < k" "recoverable_account source a s"
  shows "\<exists>desired s'. rearm_or_nudge t k source a s = Inr (Some (desired, s'))"
proof -
  note keys = cursors_okD(1) [OF assms(1)]
  have c: "cursor_ok a" by (rule cursors_okD(2) [OF assms(1,2)])
  note l = lock_one_known [OF keys assms(2,3)]
  obtain points where p: "lock_synchronized_endpoints [a] s = Inr points" by (rule lock_endpoints_known [OF assms(1,2)])
  have src: "fa_dispatched a = source" "0 \<le> source" "source \<le> fa_revision a" "\<not> revision_exhausted a"
      "source \<le> max_feed_intent_revision"
    using assms(4) c by (auto simp: recoverable_account_def cursor_ok_def revision_exhausted_def)
  show ?thesis
  proof (cases "fa_revision a = source")
    case True
    then show ?thesis using src
      by (simp add: rearm_or_nudge_def rearm_feed_intent_def account_id_int [OF assms(3)] l p Let_def bind_ok_def)
  next
    case False
    then show ?thesis using src
      by (simp add: rearm_or_nudge_def nudge_undispatched_feed_intent_def account_id_int [OF assms(3)] l Let_def bind_ok_def)
  qed
qed

text \<open>C21: Desired state is not lost with its message. When the last dispatch of a feed intent has failed or was
  cancelled, or came back without effect, the recovery of an account that may publish makes the
  desired state due at once under a revision that has not been dispatched, and the spent dispatch
  is settled for good; the next scan then finds the account due.\<close>

theorem failed_feed_intent_becomes_due_again:
  assumes "cursors_ok s" "get_dispatch d s = Some w" "feed_intent_dispatch_needs_recovery w"
    "dict_get ''status'' (result_dict w) \<noteq> JStr ''not_activated''"
    "canonical_positive_dispatch_arg w 0 = Some (int k)" "canonical_positive_dispatch_arg w 1 = Some source"
    "get_account k s = Some a" "recoverable_account source a s"
  shows "\<exists>s' a' w'. recover_candidate t d s = Inr (Rc_Recovered, s') \<and> get_account k s' = Some a' \<and>
     (fa_avito a \<longrightarrow> due_feed_account t a') \<and> fa_dispatched a' = source \<and> source < fa_revision a' \<and>
     fa_revision a \<le> fa_revision a' \<and>
     get_dispatch d s' = Some w' \<and> \<not> feed_intent_dispatch_needs_recovery w'"
proof -
  have k: "0 < int k" by (rule canonical_pos [OF assms(5)])
  have lock: "recovery_locked d s = Some w" using assms(2,3) by (simp add: recovery_locked_def)
  have c: "cursor_ok a" by (rule cursors_okD(2) [OF assms(1,7)])
  have acc: "get_account (nat (int k)) s = Some a" using assms(7) by simp
  obtain desired s1 where r: "rearm_or_nudge t (int k) source a s = Inr (Some (desired, s1))"
    using rearm_or_nudge_succeeds [OF assms(1) acc k assms(8)] by blast
  note res = rearm_or_nudge_result [OF r assms(1) acc k]
  let ?s = "finish_feed_intent_recovery w ''feed_intent_recovered'' (Some source) (Some desired) s1"
  have src: "\<not> fa_deleted a" "fa_active a" "fa_tenant_active a" "fa_dispatched a = source" "source \<le> fa_revision a"
    using assms(8) c by (auto simp: recoverable_account_def cursor_ok_def)
  have "\<not> list_ex (\<lambda>p. fe_account p = k \<and> fe_revision p \<noteq> fa_revision a) (jb_endpoints s)"
    using synced_endpoints [OF assms(1,7)] by (auto simp: list_ex_iff)
  then have "recover_intent t d (int k) source s = Inr (Rc_Recovered, ?s)"
    using src assms(4-7) by (simp add: recover_intent_def lock r)
  then have rec: "recover_candidate t d s = Inr (Rc_Recovered, ?s)"
    using assms(5,6) by (simp add: recover_candidate_def lock)
  have g: "get_account k ?s = Some (rearmed t a)" using res(5) [of k] by simp
  note due = rearmed_due [OF c, of t]
  have "due_feed_account t (rearmed t a)" if "fa_avito a"
    using that src due(2,3) by (auto simp: due_feed_account_def rearmed_def split: if_splits option.splits)
  moreover have "get_dispatch d s1 = Some w" using assms(2) res(2) by (simp add: get_dispatch_def)
  then have "\<exists>w'. get_dispatch d ?s = Some w' \<and> \<not> feed_intent_dispatch_needs_recovery w'" by (rule recovered_final [OF refl])
  ultimately show ?thesis using rec g due(1,3) src(4) by auto
qed

definition demo_spent :: job_dispatch where
  "demo_spent = (new_dispatch 0 (feed_intent_request 0 demo_account) ''avito_publish'' 11)\<lparr>jd_status := Dp_Failed\<rparr>"

definition demo_lost :: jobs where
  "demo_lost = demo_feeds\<lparr>jb_dispatches := [demo_spent], jb_next := 12\<rparr>"

lemma failed_feed_intent_becomes_due_again_witness:
  "\<exists>s' a'. recover_candidate (secs 500) 11 demo_lost = Inr (Rc_Recovered, s') \<and> get_account 5 s' = Some a' \<and> 7 < fa_revision a'"
proof -
  have ok: "cursors_ok demo_lost" using cursors_ok_frame [of demo_lost demo_feeds] demo_feeds_ok(1) by (simp add: demo_lost_def)
  have w: "get_dispatch 11 demo_lost = Some demo_spent"
    by (simp add: get_dispatch_def demo_lost_def demo_spent_def new_dispatch_def)
  have row: "jd_task demo_spent = feed_intent_task" "jd_status demo_spent = Dp_Failed" "jd_result demo_spent = JNull"
      "jd_args demo_spent = [JInt 5, JInt 7]"
    by (simp_all add: demo_spent_def new_dispatch_def feed_intent_request_def demo_account_def)
  have n: "feed_intent_dispatch_needs_recovery demo_spent" "dict_get ''status'' (result_dict demo_spent) \<noteq> JStr ''not_activated''"
    by (auto simp: feed_intent_dispatch_needs_recovery_def result_dict_def row dict_get_def)
  have args: "canonical_positive_dispatch_arg demo_spent 0 = Some (int 5)" "canonical_positive_dispatch_arg demo_spent 1 = Some 7"
    by (simp_all add: canonical_positive_dispatch_arg_def row positive_canonical_int)
  have a: "get_account 5 demo_lost = Some demo_account" "recoverable_account 7 demo_account demo_lost"
    by (simp_all add: get_account_def demo_lost_def demo_feeds_def demo_account_def recoverable_account_def max_feed_intent_revision_def)
  show ?thesis using failed_feed_intent_becomes_due_again [OF ok w n args a, of "secs 500"] by auto
qed

text \<open>A sweep of the recovery, over any dispatches and whatever it meets, forgets nothing: no account loses
  what it has dispatched or desires, and what was due stays due, at the same time or sooner.\<close>

theorem recovery_keeps_desired_state:
  assumes "cursors_ok s" "recover_terminal_feed_intent_dispatches t limit s = (r, s')" "get_account k s = Some a"
  shows "\<exists>a'. get_account k s' = Some a' \<and> fa_dispatched a' = fa_dispatched a \<and> fa_revision a \<le> fa_revision a' \<and>
     (case fa_due a of None \<Rightarrow> True | Some d \<Rightarrow> (case fa_due a' of None \<Rightarrow> False | Some d' \<Rightarrow> d' \<le> d))"
proof -
  obtain ds where "s' = snd (recover_all t ds s)"
    using assms(2) by (metis recover_terminal_feed_intent_dispatches_def snd_conv)
  then have "keeps_desired s s'" using recover_all_keeps [OF assms(1)] by blast
  then obtain a' where "get_account k s' = Some a'" "still_desired a a'" using assms(3) unfolding keeps_desired_def by blast
  then show ?thesis by (auto simp: still_desired_def split: option.split)
qed

lemma recovery_keeps_desired_state_witness:
  "\<exists>a'. get_account 5 (snd (recover_terminal_feed_intent_dispatches (secs 500) (JInt 10) demo_lost)) = Some a' \<and> 7 \<le> fa_revision a'"
proof -
  have ok: "cursors_ok demo_lost" using cursors_ok_frame [of demo_lost demo_feeds] demo_feeds_ok(1) by (simp add: demo_lost_def)
  have a: "get_account 5 demo_lost = Some demo_account" by (simp add: get_account_def demo_lost_def demo_feeds_def demo_account_def)
  obtain r s' where r: "recover_terminal_feed_intent_dispatches (secs 500) (JInt 10) demo_lost = (r, s')" by fastforce
  show ?thesis using recovery_keeps_desired_state [OF ok r a] r by (auto simp: demo_account_def)
qed

section \<open>Delivery\<close>

text \<open>A delivered intent is acknowledged as current exactly when it is: in durable mode, for an account
  that may publish, with the revision that is both desired and dispatched. Anything that may still
  change (a disabled mode, a missing or paused owner) gives the delivery back for a safe retry;
  nothing is ever reported as an uncertain outcome.\<close>

theorem delivery_confirms_only_the_current_revision:
  assumes "cursors_ok s"
  shows "((\<exists>rest. process_marketplace_feed_intent mode account revision s = Returned (JObj ((''status'', JStr ''not_activated'') # rest))) =
      (mode = ''durable'' \<and> (\<exists>k a. positive_feed_intent_argument account = Some (int k) \<and> get_account k s = Some a \<and>
         \<not> fa_deleted a \<and> fa_active a \<and> fa_tenant_active a \<and>
         positive_feed_intent_argument revision = Some (fa_revision a) \<and> fa_dispatched a = fa_revision a))) \<and>
     (case process_marketplace_feed_intent mode account revision s of
        Raised x \<Rightarrow> te_safe_retry x \<and> \<not> te_uncertain x
      | Returned _ \<Rightarrow> mode = ''durable''
      | _ \<Rightarrow> False)"
proof -
  have pos: "0 < n" if "positive_feed_intent_argument account = Some n" for n
    using that by (auto simp: positive_feed_intent_argument_def split: json.splits option.splits if_splits)
  show ?thesis
  proof (cases "mode = ''durable''")
    case False
    then show ?thesis by (simp add: process_marketplace_feed_intent_def retained_def)
  next
    case durable: True
    show ?thesis
    proof (cases "positive_feed_intent_argument account")
      case None
      then show ?thesis using durable by (simp add: process_marketplace_feed_intent_def status_result_def)
    next
      case (Some m')
      then obtain n where Some: "positive_feed_intent_argument account = Some (int n)"
        using pos [OF Some] zero_less_imp_eq_int by blast
      show ?thesis
      proof (cases "positive_feed_intent_argument revision")
        case None
        then show ?thesis using durable Some by (simp add: process_marketplace_feed_intent_def status_result_def)
      next
        case rev: (Some m)
        show ?thesis
        proof (cases "get_account n s")
          case None
          then show ?thesis using durable Some rev
            by (auto simp: process_marketplace_feed_intent_def retained_def)
        next
          case acc: (Some a)
          have "cursor_ok a" by (rule cursors_okD(2) [OF assms acc])
          then have "fa_dispatched a \<le> fa_revision a" by (simp add: cursor_ok_def)
          then show ?thesis using durable Some rev acc
            by (auto simp: process_marketplace_feed_intent_def retained_def status_result_def)
        qed
      qed
    qed
  qed
qed

lemma delivery_confirms_only_the_current_revision_witness:
  "\<exists>rest. process_marketplace_feed_intent ''durable'' (JInt 5) (JInt 7) demo_feeds = Returned (JObj ((''status'', JStr ''not_activated'') # rest))"
proof -
  have a: "get_account 5 demo_feeds = Some demo_account" by (simp add: get_account_def demo_feeds_def demo_account_def)
  have "positive_feed_intent_argument (JInt 7) = Some 7" by (rule argument_int) simp
  then show ?thesis
    using delivery_confirms_only_the_current_revision [OF demo_feeds_ok(1), of "''durable''" "JInt 5" "JInt 7"] demo_five a
    by (auto simp: demo_account_def)
qed

end
