(* ===== verification/Feed_Run_Types.thy ===== *)
theory Feed_Run_Types
  imports Job_Types
begin

text \<open>
  The data of the feed workflow (\<^verbatim>\<open>apps/marketplaces/feed_workflow.py\<close> and the models it stores): the
  runs of feed generations, the accounts and listings they belong to, the constraints of the table
  of runs, the identity of an account, and the normalisation of texts. Arguments carry the types
  the code annotates, so the checks of types are left out and the checks of ranges are kept.
\<close>

section \<open>Rows\<close>

datatype marketplace = Mp_Avito | Mp_Ozon

datatype run_state =
    Preparing | Submit_Unknown | Polling | Reporting | Retry_Wait | Succeeded | Failed | Outcome_Uncertain
  | Superseded | Cancelled

record feed_run =
  fr_id :: uuid
  fr_tenant :: nat
  fr_account :: nat
  fr_marketplace :: marketplace
  fr_state :: run_state
  fr_revision :: nat
  fr_identity :: string
  fr_payload :: string
  fr_provider :: "string option"
  fr_predecessor :: "string option"
  fr_submitted :: "instant option"
  fr_deadline :: "instant option"
  fr_reconciles :: nat
  fr_cursor :: nat
  fr_round :: nat
  fr_page :: nat
  fr_report_attempt :: nat
  fr_report_done :: "instant option"
  fr_next :: "instant option"
  fr_token :: "uuid option"
  fr_until :: "instant option"
  fr_total :: nat
  fr_published :: nat
  fr_rejected :: nat
  fr_pending :: nat
  fr_error :: string
  fr_finished :: "instant option"
  fr_artifact :: "uuid option"
  fr_uploads :: nat
  fr_intent :: "int option"
  fr_endpoint :: "int option"
  fr_prev_artifact :: "uuid option"

record market_account =
  ma_pk :: nat
  ma_tenant :: nat
  ma_tenant_active :: bool
  ma_marketplace :: marketplace
  ma_external :: string
  ma_credentials :: string
  ma_active :: bool
  ma_deleted :: "instant option"
  ma_batch_due :: "instant option"

record run_listing =
  rl_pk :: nat
  rl_tenant :: nat
  rl_account :: nat
  rl_product :: nat
  rl_run :: "uuid option"
  rl_external :: "string option"
  rl_status :: listing_status
  rl_reason :: string
  rl_key :: uuid
  rl_published :: "instant option"
  rl_last_sync :: "instant option"
  rl_remote :: "string option"
  rl_remote_checked :: "instant option"
  rl_next_check :: "instant option"
  rl_check_token :: "uuid option"
  rl_check_until :: "instant option"
  rl_deleted :: "instant option"

text \<open>A row of \<open>SyncLog\<close>: a published listing carries the provider's id, a rejected one the reason.\<close>

datatype sync_event = Listing_Published string | Listing_Error string

record sync_row =
  sy_tenant :: nat
  sy_product :: nat
  sy_listing :: nat
  sy_event :: sync_event
  sy_generation :: uuid

text \<open>\<open>fd_uploads\<close> are the generations that have a durable object upload attempt, \<open>fd_next\<close> the source of
  fresh UUIDs.\<close>

record feeds =
  fd_accounts :: "market_account list"
  fd_runs :: "feed_run list"
  fd_listings :: "run_listing list"
  fd_uploads :: "uuid list"
  fd_log :: "sync_row list"
  fd_next :: uuid

definition get_market :: "nat \<Rightarrow> feeds \<Rightarrow> market_account option" where
  "get_market k s = row_get ma_pk k (fd_accounts s)"

definition get_run :: "uuid \<Rightarrow> feeds \<Rightarrow> feed_run option" where
  "get_run k s = row_get fr_id k (fd_runs s)"

definition put_run :: "feed_run \<Rightarrow> feeds \<Rightarrow> feeds" where
  "put_run r s = s\<lparr>fd_runs := row_put fr_id r (fd_runs s)\<rparr>"

interpretation run_table: keyed_table fr_id get_run put_run
proof
  show "get_run k t = Some r \<Longrightarrow> fr_id r = k" for k t r
    unfolding get_run_def by (rule row_get_key)
qed (auto simp: get_run_def put_run_def table_simps)

section \<open>States and constraints\<close>

definition active_run_states :: "run_state list" where
  "active_run_states = [Preparing, Submit_Unknown, Polling, Reporting, Retry_Wait]"

definition ownership_states :: "run_state list" where
  "ownership_states = active_run_states @ [Outcome_Uncertain]"

definition terminal_run_states :: "run_state list" where
  "terminal_run_states = [Succeeded, Failed, Outcome_Uncertain, Superseded, Cancelled]"

definition active_run :: "feed_run \<Rightarrow> bool" where
  "active_run r \<longleftrightarrow> fr_state r \<in> set active_run_states"

definition is_owner :: "feed_run \<Rightarrow> bool" where
  "is_owner r \<longleftrightarrow> fr_state r \<in> set ownership_states"

datatype feed_error =
    Account_Unavailable | Run_Conflict | Submission_Uncertain | Stale_Claim | Bad_Value | Does_Not_Exist
  | Owner_Constraint | Provider_Constraint | Intent_Constraint | Mode_Constraint | Listing_Constraint | Column_Overflow

text \<open>The constraints of \<open>MarketplaceFeedRun.Meta\<close> for a row about to be written among other rows.\<close>

definition owner_clash :: "feed_run \<Rightarrow> feed_run \<Rightarrow> bool" where
  "owner_clash r x \<longleftrightarrow> fr_id x \<noteq> fr_id r \<and> fr_account x = fr_account r \<and> is_owner x \<and> is_owner r"

definition provider_clash :: "feed_run \<Rightarrow> feed_run \<Rightarrow> bool" where
  "provider_clash r x \<longleftrightarrow> fr_id x \<noteq> fr_id r \<and> fr_account x = fr_account r \<and> fr_provider x = fr_provider r \<and>
     fr_provider r \<noteq> None \<and> fr_provider r \<noteq> Some []"

definition intent_clash :: "feed_run \<Rightarrow> feed_run \<Rightarrow> bool" where
  "intent_clash r x \<longleftrightarrow> fr_id x \<noteq> fr_id r \<and> fr_account x = fr_account r \<and> fr_intent x = fr_intent r \<and> fr_intent r \<noteq> None"

definition mode_ok :: "feed_run \<Rightarrow> bool" where
  "mode_ok r \<longleftrightarrow>
     (case fr_intent r of
        None \<Rightarrow> fr_endpoint r = None \<and> fr_prev_artifact r = None \<and> fr_artifact r = None \<and> fr_uploads r = 0
      | Some i \<Rightarrow> 1 \<le> i \<and> (case fr_endpoint r of None \<Rightarrow> False | Some e \<Rightarrow> 0 \<le> e)) \<and>
     (fr_artifact r \<noteq> None \<longrightarrow> 1 \<le> fr_uploads r \<and> fr_prev_artifact r \<noteq> fr_artifact r)"

text \<open>The ranges of the integer columns.\<close>

definition columns_fit :: "feed_run \<Rightarrow> bool" where
  "columns_fit r \<longleftrightarrow> fr_revision r < 2 ^ 63 \<and> fr_cursor r < 2 ^ 63 \<and> fr_round r < 2 ^ 31 \<and> fr_page r < 2 ^ 31 \<and>
     fr_reconciles r < 2 ^ 15 \<and> fr_report_attempt r < 2 ^ 15"

definition run_constraint :: "feed_run \<Rightarrow> feed_run list \<Rightarrow> feed_error option" where
  "run_constraint r rows =
     (if \<not> columns_fit r then Some Column_Overflow
      else if \<not> mode_ok r then Some Mode_Constraint
      else if list_ex (owner_clash r) rows then Some Owner_Constraint
      else if list_ex (provider_clash r) rows then Some Provider_Constraint
      else if list_ex (intent_clash r) rows then Some Intent_Constraint
      else None)"

text \<open>\<open>UPDATE\<close> of one row and \<open>INSERT\<close>.\<close>

definition write_run :: "feed_run \<Rightarrow> feeds \<Rightarrow> feed_error + feeds" where
  "write_run r s = (case run_constraint r (fd_runs s) of Some e \<Rightarrow> Inl e | None \<Rightarrow> Inr (put_run r s))"

definition insert_run :: "feed_run \<Rightarrow> feeds \<Rightarrow> feed_error + feeds" where
  "insert_run r s =
     (case run_constraint r (fd_runs s) of
        Some e \<Rightarrow> Inl e
      | None \<Rightarrow> Inr (s\<lparr>fd_runs := row_add r (fd_runs s)\<rparr>))"

section \<open>Texts\<close>

text \<open>\<open>' '.join(text.split())\<close>.\<close>

fun words :: "string \<Rightarrow> string list" where
  "words [] = []"
| "words (c # cs) =
     (if is_space c then words cs
      else case cs of
        [] \<Rightarrow> [[c]]
      | d # _ \<Rightarrow> if is_space d then [c] # words cs
                else (case words cs of [] \<Rightarrow> [[c]] | w # ws \<Rightarrow> (c # w) # ws))"

definition join_with :: "string \<Rightarrow> string list \<Rightarrow> string" where
  "join_with sep ws = (case ws of [] \<Rightarrow> [] | w # rest \<Rightarrow> w @ concat (map (\<lambda>v. sep @ v) rest))"

definition max_error_length :: nat where
  "max_error_length = 2000"

text \<open>\<open>_error\<close>: NUL is dropped, line breaks and runs of blanks become one blank.\<close>

definition clean_error :: "string \<Rightarrow> string" where
  "clean_error text = take max_error_length (join_with '' '' (words (filter (\<lambda>c. c \<noteq> CHR 0x00) text)))"

text \<open>\<open>re.sub(r'<[^>]+>', ' ', raw)\<close>: an opening bracket, at least one character, and the first closing
  bracket. A bracket that is not closed stays.\<close>

function strip_tags :: "string \<Rightarrow> string" where
  "strip_tags [] = []"
| "strip_tags (c # cs) =
     (let inside = takeWhile (\<lambda>x. x \<noteq> CHR ''>'') cs; rest = dropWhile (\<lambda>x. x \<noteq> CHR ''>'') cs
      in if c = CHR ''<'' \<and> inside \<noteq> [] \<and> rest \<noteq> [] then CHR '' '' # strip_tags (tl rest) else c # strip_tags cs)"
  by pat_completeness auto

termination
proof (relation "measure length")
  show "wf (measure length)" by simp
next
  fix c cs and inside rest :: string
  assume "rest = dropWhile (\<lambda>x. x \<noteq> CHR ''>'') cs"
  then have "length rest \<le> length cs" by (simp add: length_dropWhile_le)
  then have "length (tl rest) \<le> length cs" by simp
  then show "(tl rest, c # cs) \<in> measure length" by simp
qed simp

definition is_control :: "char \<Rightarrow> bool" where
  "is_control c \<longleftrightarrow> (of_char c :: nat) \<le> 31 \<or> (127 \<le> (of_char c :: nat) \<and> (of_char c :: nat) \<le> 159)"

text \<open>\<open>_report_reason\<close>; \<open>html.unescape\<close> is the first argument.\<close>

definition report_reason :: "(string \<Rightarrow> string) \<Rightarrow> string \<Rightarrow> string" where
  "report_reason unescape value =
     (let normalized = join_with '' '' (words (map (\<lambda>c. if is_control c then CHR '' '' else c) (strip_tags (unescape value))))
      in rev (dropWhile is_space (rev (take max_error_length normalized))))"

text \<open>\<open>int(value, 16)\<close> succeeds: an optional sign, an optional \<open>0x\<close>, digits separated by single underscores.\<close>

definition is_hex :: "char \<Rightarrow> bool" where
  "is_hex c \<longleftrightarrow> c \<in> set ''0123456789abcdefABCDEF''"

fun hex_digits :: "string \<Rightarrow> bool" where
  "hex_digits [] = False"
| "hex_digits [c] = is_hex c"
| "hex_digits (c # d # cs) = (is_hex c \<and> (if d = CHR ''_'' then hex_digits cs else hex_digits (d # cs)))"

definition parses_hex :: "string \<Rightarrow> bool" where
  "parses_hex text =
     (let s = snd (split_sign (strip text)) in
      hex_digits
       (case s of
          c # d # rest \<Rightarrow>
            (if c = CHR ''0'' \<and> (d = CHR ''x'' \<or> d = CHR ''X'')
             then (case rest of e # digits \<Rightarrow> if e = CHR ''_'' then digits else rest | [] \<Rightarrow> rest)
             else s)
        | _ \<Rightarrow> s))"

text \<open>\<open>_digest\<close>.\<close>

definition digest_arg :: "bool \<Rightarrow> string \<Rightarrow> feed_error + string" where
  "digest_arg allow_blank value =
     (if value = [] \<and> allow_blank then Inr []
      else if length value \<noteq> 64 \<or> \<not> parses_hex value then Inl Bad_Value
      else Inr (lower value))"

section \<open>The identity of an account\<close>

text \<open>
  \<open>fv_hmac\<close> is HMAC-SHA256, \<open>fv_decrypt\<close> is \<open>decrypt\<close> of \<^verbatim>\<open>datasources/encryption.py\<close> (\<open>None\<close>: an exception),
  \<open>fv_secret\<close> the secret key, \<open>fv_unescape\<close> is \<open>html.unescape\<close> and \<open>fv_uuid_text\<close> is \<open>str\<close> of a UUID
  and \<open>fv_parse_uuid\<close> is \<open>uuid.UUID(text)\<close> (\<open>None\<close>: \<open>ValueError\<close>).
\<close>

record feed_env =
  fv_hmac :: "string \<Rightarrow> string \<Rightarrow> string"
  fv_decrypt :: "string \<Rightarrow> json option"
  fv_secret :: string
  fv_unescape :: "string \<Rightarrow> string"
  fv_uuid_text :: "uuid \<Rightarrow> string"
  fv_parse_uuid :: "string \<Rightarrow> uuid option"

text \<open>\<open>json.dumps(value, ensure_ascii=False, separators=(',', ':'), sort_keys=True)\<close>.\<close>

definition hex_byte :: "char \<Rightarrow> string" where
  "hex_byte c = (let n = (of_char c :: nat) in [''0123456789abcdef'' ! (n div 16), ''0123456789abcdef'' ! (n mod 16)])"

definition json_char :: "char \<Rightarrow> string" where
  "json_char c =
     (if c = CHR 0x22 \<or> c = CHR 0x5C then [CHR 0x5C, c]
      else if c = CHR 0x0A then [CHR 0x5C, CHR ''n'']
      else if c = CHR 0x0D then [CHR 0x5C, CHR ''r'']
      else if c = CHR 0x09 then [CHR 0x5C, CHR ''t'']
      else if c = CHR 0x0C then [CHR 0x5C, CHR ''f'']
      else if c = CHR 0x08 then [CHR 0x5C, CHR ''b'']
      else if (of_char c :: nat) < 32 then [CHR 0x5C, CHR ''u'', CHR ''0'', CHR ''0''] @ hex_byte c
      else [c])"

definition json_quoted :: "string \<Rightarrow> string" where
  "json_quoted s = [CHR 0x22] @ concat (map json_char s) @ [CHR 0x22]"

fun text_le :: "string \<Rightarrow> string \<Rightarrow> bool" where
  "text_le [] _ = True"
| "text_le (_ # _) [] = False"
| "text_le (c # cs) (d # ds) =
     ((of_char c :: nat) < of_char d \<or> c = d \<and> text_le cs ds)"

fun insert_entry :: "string \<times> string \<Rightarrow> (string \<times> string) list \<Rightarrow> (string \<times> string) list" where
  "insert_entry e [] = [e]"
| "insert_entry e (x # xs) = (if text_le (fst e) (fst x) then e # x # xs else x # insert_entry e xs)"

primrec canonical_json :: "json \<Rightarrow> string" where
  "canonical_json JNull = ''null''"
| "canonical_json (JBool b) = (if b then ''true'' else ''false'')"
| "canonical_json (JInt i) = str_int i"
| "canonical_json (JFloat r) = r"
| "canonical_json (JStr s) = json_quoted s"
| "canonical_json (JList vs) = ''['' @ join_with '','' (map canonical_json vs) @ '']''"
| "canonical_json (JObj d) =
     ''{'' @ join_with '','' (map (\<lambda>(k, v). json_quoted k @ '':'' @ v)
                           (foldr insert_entry (map (map_prod id canonical_json) d) [])) @ ''}''"

definition marketplace_name :: "marketplace \<Rightarrow> string" where
  "marketplace_name m = (case m of Mp_Avito \<Rightarrow> ''avito'' | Mp_Ozon \<Rightarrow> ''ozon'')"

definition account_identity_digest :: "feed_env \<Rightarrow> market_account \<Rightarrow> string" where
  "account_identity_digest E a =
     (let (source, credential) =
        (case fv_decrypt E (ma_credentials a) of
           Some (JObj d) \<Rightarrow> (''canonical-json'', canonical_json (JObj d))
         | _ \<Rightarrow> (''opaque-ciphertext'', ma_credentials a));
        identity = canonical_json (JObj
          [(''account_id'', JInt (int (ma_pk a))), (''external_id'', JStr (ma_external a)),
           (''marketplace'', JStr (marketplace_name (ma_marketplace a))), (''tenant_id'', JInt (int (ma_tenant a)))]);
        key = fv_hmac E (fv_secret E) ''saas-poster:marketplace-feed-account-identity:v1''
      in concat (map hex_byte (fv_hmac E key (join_with [CHR 0x00] [''v1'', identity, source, credential]))))"

definition live :: "market_account \<Rightarrow> bool" where
  "live a \<longleftrightarrow> ma_deleted a = None \<and> ma_active a \<and> ma_tenant_active a"

end
