(* ===== verification/Feed_Runs.thy ===== *)
theory Feed_Runs
  imports Feed_Run_Types
begin

text \<open>
  The operations of the feed workflow (\<^verbatim>\<open>apps/marketplaces/feed_workflow.py\<close>). Each runs in one
  transaction that locks the account before the run, so it is one function; \<open>Inl\<close> rolls back. \<open>t\<close> is
  the time of the transition. A snapshot is the row as written, a claim the row as claimed with its
  token and deadline.
\<close>

section \<open>Closing a run\<close>

definition fetch_market :: "nat \<Rightarrow> feeds \<Rightarrow> feed_error + market_account" where
  "fetch_market k s = or_raise Account_Unavailable (get_market k s)"

text \<open>\<open>_terminalize_locked\<close>.\<close>

definition closed_run :: "run_state \<Rightarrow> instant \<Rightarrow> string \<Rightarrow> feed_run \<Rightarrow> feed_run" where
  "closed_run st t error r =
     r\<lparr>fr_state := st, fr_revision := fr_revision r + 1, fr_next := None, fr_token := None, fr_until := None,
       fr_error := clean_error error, fr_finished := Some t\<rparr>"

definition terminalize_locked ::
    "run_state \<Rightarrow> instant \<Rightarrow> string \<Rightarrow> feed_run \<Rightarrow> feeds \<Rightarrow> feed_error + feed_run \<times> feeds" where
  "terminalize_locked st t error r s =
     (if st \<notin> set terminal_run_states then Inl Bad_Value
      else if fr_state r \<in> set terminal_run_states then Inr (r, s)
      else (case get_run (fr_id r) s of
              None \<Rightarrow> Inl Run_Conflict
            | Some x \<Rightarrow>
                (if fr_account x \<noteq> fr_account r \<or> fr_state x \<noteq> fr_state r \<or> fr_revision x \<noteq> fr_revision r
                 then Inl Run_Conflict
                 else bind_ok (write_run (closed_run st t error x) s) (\<lambda>s1. Inr (closed_run st t error x, s1)))))"

text \<open>\<open>not run.provider_run_id\<close>.\<close>

definition no_provider :: "feed_run \<Rightarrow> bool" where
  "no_provider r \<longleftrightarrow> fr_provider r = None \<or> fr_provider r = Some []"

definition has_proven_no_submission :: "feed_run \<Rightarrow> bool" where
  "has_proven_no_submission r \<longleftrightarrow> fr_state r = Preparing \<and> fr_submitted r = None \<and> no_provider r"

definition msg_manual :: string where
  "msg_manual = ''Provider submission may already have been accepted; manual reconciliation is required.''"

definition fence_invalid_owner_locked ::
    "run_state \<Rightarrow> instant \<Rightarrow> string \<Rightarrow> feed_run \<Rightarrow> feeds \<Rightarrow> feed_error + feed_run \<times> feeds" where
  "fence_invalid_owner_locked safe t error r s =
     (if has_proven_no_submission r then terminalize_locked safe t error r s
      else terminalize_locked Outcome_Uncertain t (clean_error error @ '' '' @ msg_manual) r s)"

datatype submitted_policy = Block_Submitted | Hold_Submitted

definition fence_account_feed_runs_for_owner_change ::
    "instant \<Rightarrow> nat \<Rightarrow> string \<Rightarrow> run_state \<Rightarrow> submitted_policy \<Rightarrow> feeds \<Rightarrow> feed_error + feed_run option \<times> feeds" where
  "fence_account_feed_runs_for_owner_change t k reason safe policy s =
     (if safe \<notin> {Superseded, Cancelled} then Inl Bad_Value
      else bind_ok (fetch_market k s) (\<lambda>a.
        case first_row (filter (\<lambda>r. fr_account r = ma_pk a \<and> is_owner r) (fd_runs s)) of
          None \<Rightarrow> Inr (None, s)
        | Some r \<Rightarrow>
            (if has_proven_no_submission r then bind_ok (terminalize_locked safe t reason r s) (\<lambda>(x, s1). Inr (Some x, s1))
             else if policy = Block_Submitted then Inl Submission_Uncertain
             else if fr_state r = Outcome_Uncertain then Inr (Some r, s)
             else bind_ok (fence_invalid_owner_locked safe t reason r s) (\<lambda>(x, s1). Inr (Some x, s1)))))"

definition assert_no_submitted_feed_owner ::
    "instant \<Rightarrow> nat \<Rightarrow> string \<Rightarrow> feeds \<Rightarrow> feed_error + feed_run option \<times> feeds" where
  "assert_no_submitted_feed_owner t k reason s =
     fence_account_feed_runs_for_owner_change t k reason Superseded Block_Submitted s"

section \<open>Creating a generation\<close>

definition max_generation_listings :: nat where
  "max_generation_listings = 10000"

record generation_request =
  gr_id :: "uuid option"
  gr_payload :: string
  gr_intent :: "int option"
  gr_endpoint :: "int option"
  gr_predecessor :: "uuid option"

text \<open>The private fields are one bundle.\<close>

definition bundle_ok :: "generation_request \<Rightarrow> bool" where
  "bundle_ok q \<longleftrightarrow>
     (case gr_intent q of
        None \<Rightarrow> gr_endpoint q = None \<and> gr_predecessor q = None
      | Some i \<Rightarrow> 1 \<le> i \<and> (case gr_endpoint q of None \<Rightarrow> False | Some e \<Rightarrow> 0 \<le> e))"

text \<open>Rows of \<open>Listing.objects\<close> that wait for a feed.\<close>

definition unpublished :: "market_account \<Rightarrow> run_listing \<Rightarrow> bool" where
  "unpublished a l \<longleftrightarrow> rl_deleted l = None \<and> rl_account l = ma_pk a \<and> rl_tenant l = ma_tenant a \<and>
     rl_status l = Ls_Pending \<and> rl_external l = None"

definition replay_objection :: "market_account \<Rightarrow> string \<Rightarrow> generation_request \<Rightarrow> feed_run \<Rightarrow> bool" where
  "replay_objection a payload q r \<longleftrightarrow>
     fr_account r \<noteq> ma_pk a \<or>
     (payload \<noteq> [] \<and> fr_payload r \<noteq> [] \<and> fr_payload r \<noteq> payload) \<or>
     fr_intent r \<noteq> gr_intent q \<or> fr_endpoint r \<noteq> gr_endpoint q \<or> fr_prev_artifact r \<noteq> gr_predecessor q"

definition safely_replaceable :: "feed_run \<Rightarrow> bool" where
  "safely_replaceable r \<longleftrightarrow> fr_state r = Preparing \<and> fr_token r = None \<and> fr_until r = None \<and>
     fr_submitted r = None \<and> fr_provider r = None"

fun supersede_all :: "feed_env \<Rightarrow> instant \<Rightarrow> uuid \<Rightarrow> feed_run list \<Rightarrow> feeds \<Rightarrow> feed_error + feeds" where
  "supersede_all E t k [] s = Inr s"
| "supersede_all E t k (r # rs) s =
     (if \<not> safely_replaceable r then Inl Run_Conflict
      else bind_ok (terminalize_locked Superseded t (''Superseded by feed generation '' @ fv_uuid_text E k @ ''.'') r s)
             (\<lambda>(_, s1). supersede_all E t k rs s1))"

definition new_run :: "feed_env \<Rightarrow> instant \<Rightarrow> uuid \<Rightarrow> market_account \<Rightarrow> string \<Rightarrow> generation_request \<Rightarrow> nat \<Rightarrow> feed_run" where
  "new_run E t k a payload q n =
     \<lparr>fr_id = k, fr_tenant = ma_tenant a, fr_account = ma_pk a, fr_marketplace = ma_marketplace a,
      fr_state = Preparing, fr_revision = 0, fr_identity = account_identity_digest E a, fr_payload = payload,
      fr_provider = None, fr_predecessor = None, fr_submitted = None, fr_deadline = None, fr_reconciles = 0,
      fr_cursor = 0, fr_round = 0, fr_page = 1, fr_report_attempt = 0, fr_report_done = None, fr_next = Some t,
      fr_token = None, fr_until = None, fr_total = n, fr_published = 0, fr_rejected = 0, fr_pending = n,
      fr_error = [], fr_finished = None, fr_artifact = None, fr_uploads = 0, fr_intent = gr_intent q,
      fr_endpoint = gr_endpoint q, fr_prev_artifact = gr_predecessor q\<rparr>"

text \<open>\<open>pending_rows.update(feed_run_id=run.pk)\<close>.\<close>

definition tag_listings :: "market_account \<Rightarrow> uuid \<Rightarrow> feeds \<Rightarrow> feeds" where
  "tag_listings a k s =
     s\<lparr>fd_listings := update_where (unpublished a) (\<lambda>l. l\<lparr>rl_run := Some k\<rparr>) (fd_listings s)\<rparr>"

text \<open>
  \<open>create_or_supersede_feed_run\<close>. The row is inserted and gets its totals in the same transaction;
  the rows counted before and tagged after are the same, as the account is locked.
\<close>

definition generation_id :: "generation_request \<Rightarrow> feeds \<Rightarrow> uuid \<times> feeds" where
  "generation_id q s = (case gr_id q of Some k \<Rightarrow> (k, s) | None \<Rightarrow> (fd_next s, s\<lparr>fd_next := Suc (fd_next s)\<rparr>))"

definition create_generation ::
    "feed_env \<Rightarrow> instant \<Rightarrow> market_account \<Rightarrow> string \<Rightarrow> generation_request \<Rightarrow> uuid \<Rightarrow> feeds \<Rightarrow> feed_error + feed_run \<times> feeds" where
  "create_generation E t a payload q k s =
     (let n = length (filter (unpublished a) (fd_listings s))
      in if max_generation_listings < n then Inl Run_Conflict
         else if list_ex (\<lambda>r. fr_account r = ma_pk a \<and> fr_state r = Outcome_Uncertain) (fd_runs s)
         then Inl Submission_Uncertain
         else bind_ok (supersede_all E t k (filter (\<lambda>r. fr_account r = ma_pk a \<and> active_run r) (fd_runs s)) s) (\<lambda>s1.
              bind_ok (insert_run (new_run E t k a payload q n) s1) (\<lambda>s2.
              Inr (new_run E t k a payload q n, tag_listings a k s2))))"

definition create_or_supersede_feed_run ::
    "feed_env \<Rightarrow> instant \<Rightarrow> nat \<Rightarrow> generation_request \<Rightarrow> feeds \<Rightarrow> feed_error + feed_run \<times> feeds" where
  "create_or_supersede_feed_run E t account q s =
     bind_ok (digest_arg True (gr_payload q)) (\<lambda>payload.
     if \<not> bundle_ok q then Inl Bad_Value
     else (let (k, s0) = generation_id q s in
       bind_ok (fetch_market account s0) (\<lambda>a.
       if \<not> live a then Inl Account_Unavailable
       else (case get_run k s0 of
               Some r \<Rightarrow> if replay_objection a payload q r then Inl Run_Conflict else Inr (r, s0)
             | None \<Rightarrow> create_generation E t a payload q k s0))))"

section \<open>Reopening a failed generation\<close>

definition safe_pre_submission_failure :: "feed_env \<Rightarrow> market_account \<Rightarrow> nat \<Rightarrow> string \<Rightarrow> feed_run \<Rightarrow> bool" where
  "safe_pre_submission_failure E a revision payload r \<longleftrightarrow>
     fr_state r = Failed \<and> fr_revision r = revision \<and> fr_intent r \<noteq> None \<and> fr_payload r = payload \<and>
     fr_identity r = account_identity_digest E a \<and> fr_token r = None \<and> fr_until r = None \<and>
     fr_submitted r = None \<and> fr_provider r = None \<and> fr_predecessor r = None \<and> fr_deadline r = None \<and>
     fr_reconciles r = 0 \<and> fr_artifact r = None \<and> fr_uploads r = 0 \<and> fr_published r = 0 \<and> fr_rejected r = 0 \<and>
     fr_pending r = fr_total r \<and> fr_cursor r = 0 \<and> fr_round r = 0 \<and> fr_page r = 1 \<and> fr_report_attempt r = 0 \<and>
     fr_report_done r = None \<and> fr_finished r \<noteq> None"

definition reopened_run :: "instant \<Rightarrow> feed_run \<Rightarrow> feed_run" where
  "reopened_run t r =
     r\<lparr>fr_state := Preparing, fr_revision := fr_revision r + 1, fr_next := Some t, fr_error := [], fr_finished := None\<rparr>"

definition resume_failed_pre_submission_feed_run ::
    "feed_env \<Rightarrow> instant \<Rightarrow> nat \<Rightarrow> uuid \<Rightarrow> int \<Rightarrow> string \<Rightarrow> feeds \<Rightarrow> feed_error + feed_run \<times> feeds" where
  "resume_failed_pre_submission_feed_run E t account k revision digest s =
     bind_ok (digest_arg False digest) (\<lambda>payload.
     if revision < 0 then Inl Bad_Value
     else bind_ok (fetch_market account s) (\<lambda>a.
       if \<not> live a then Inl Account_Unavailable
       else (case get_run k s of
               None \<Rightarrow> Inl Run_Conflict
             | Some r \<Rightarrow>
                 (if fr_account r \<noteq> ma_pk a \<or> \<not> safe_pre_submission_failure E a (nat revision) payload r \<or>
                     k \<in> set (fd_uploads s) \<or>
                     length (filter (\<lambda>l. unpublished a l \<and> rl_run l = Some k) (fd_listings s)) \<noteq> fr_pending r
                  then Inl Run_Conflict
                  else bind_ok (write_run (reopened_run t r) s) (\<lambda>s1. Inr (reopened_run t r, s1))))))"

section \<open>Claims\<close>

text \<open>A claim is the row as claimed, its token and the deadline of its lease.\<close>

record feed_claim =
  cl_run :: feed_run
  cl_token :: uuid
  cl_until :: instant

definition max_recovery_batch_size :: nat where
  "max_recovery_batch_size = 100"

text \<open>A lease that is over or was never taken.\<close>

definition unleased :: "instant \<Rightarrow> feed_run \<Rightarrow> bool" where
  "unleased t r \<longleftrightarrow> fr_token r = None \<or> (case fr_until r of None \<Rightarrow> True | Some u \<Rightarrow> u \<le> t)"

definition claimed_run_row :: "instant \<Rightarrow> int \<Rightarrow> uuid \<Rightarrow> feed_run \<Rightarrow> feed_run" where
  "claimed_run_row t dur token r =
     r\<lparr>fr_revision := fr_revision r + 1, fr_token := Some token, fr_until := Some (t + dur)\<rparr>"

definition due_at :: "instant \<Rightarrow> feed_run \<Rightarrow> bool" where
  "due_at t r \<longleftrightarrow> (case fr_next r of None \<Rightarrow> False | Some u \<Rightarrow> u \<le> t)"

text \<open>\<open>_claim_locked_account\<close>: a run whose owner is no longer valid is fenced and not claimed.\<close>

definition take_claim :: "instant \<Rightarrow> int \<Rightarrow> feed_run \<Rightarrow> feeds \<Rightarrow> feed_error + feed_claim option \<times> feeds" where
  "take_claim t dur r s =
     (let token = fd_next s; x = claimed_run_row t dur token r
      in bind_ok (write_run x (s\<lparr>fd_next := Suc (fd_next s)\<rparr>)) (\<lambda>s1.
         Inr (Some \<lparr>cl_run = x, cl_token = token, cl_until = t + dur\<rparr>, s1)))"

definition fenced_claim ::
    "run_state \<Rightarrow> instant \<Rightarrow> string \<Rightarrow> feed_run \<Rightarrow> feeds \<Rightarrow> feed_error + feed_claim option \<times> feeds" where
  "fenced_claim safe t error r s = bind_ok (fence_invalid_owner_locked safe t error r s) (\<lambda>(_, s1). Inr (None, s1))"

definition claim_locked_account ::
    "feed_env \<Rightarrow> instant \<Rightarrow> int \<Rightarrow> uuid option \<Rightarrow> nat option \<Rightarrow> market_account \<Rightarrow> feeds \<Rightarrow>
     feed_error + feed_claim option \<times> feeds" where
  "claim_locked_account E t dur generation revision a s =
     (case first_row (filter (\<lambda>r. fr_account r = ma_pk a \<and> active_run r \<and>
                               (case generation of None \<Rightarrow> True | Some k \<Rightarrow> fr_id r = k)) (fd_runs s)) of
        None \<Rightarrow> Inr (None, s)
      | Some r \<Rightarrow>
          (if \<not> live a then fenced_claim Cancelled t ''Marketplace account is inactive or deleted.'' r s
           else if fr_tenant r \<noteq> ma_tenant a \<or> fr_marketplace r \<noteq> ma_marketplace a
           then fenced_claim Superseded t ''Marketplace account ownership changed.'' r s
           else if fr_identity r \<noteq> account_identity_digest E a
           then fenced_claim Superseded t ''Marketplace account identity changed.'' r s
           else if (case revision of None \<Rightarrow> False | Some n \<Rightarrow> fr_revision r \<noteq> n) then Inr (None, s)
           else if \<not> due_at t r then Inr (None, s)
           else if \<not> unleased t r then Inr (None, s)
           else take_claim t dur r s))"

definition claim_due_run_for_account ::
    "feed_env \<Rightarrow> instant \<Rightarrow> int \<Rightarrow> nat \<Rightarrow> uuid option \<Rightarrow> nat option \<Rightarrow> feeds \<Rightarrow>
     feed_error + feed_claim option \<times> feeds" where
  "claim_due_run_for_account E t dur account generation revision s =
     (if dur \<le> 0 then Inl Bad_Value
      else (case get_market account s of
              None \<Rightarrow> Inr (None, s)
            | Some a \<Rightarrow> claim_locked_account E t dur generation revision a s))"

text \<open>\<open>claim_due_runs\<close>; \<open>locked\<close> are the accounts that \<^verbatim>\<open>SKIP LOCKED\<close> leaves out.\<close>

definition has_due_run :: "instant \<Rightarrow> marketplace option \<Rightarrow> feeds \<Rightarrow> market_account \<Rightarrow> bool" where
  "has_due_run t m s a \<longleftrightarrow>
     list_ex (\<lambda>r. fr_account r = ma_pk a \<and> active_run r \<and> due_at t r \<and> unleased t r \<and>
                  (m = None \<or> m = Some (fr_marketplace r))) (fd_runs s)"

definition claimable_accounts :: "instant \<Rightarrow> marketplace option \<Rightarrow> nat list \<Rightarrow> nat \<Rightarrow> feeds \<Rightarrow> market_account list" where
  "claimable_accounts t m locked limit s =
     take limit (sort_key ma_pk (filter (\<lambda>a. live a \<and> has_due_run t m s a \<and>
        (m = None \<or> m = Some (ma_marketplace a)) \<and> ma_pk a \<notin> set locked) (fd_accounts s)))"

fun claim_each :: "feed_env \<Rightarrow> instant \<Rightarrow> int \<Rightarrow> market_account list \<Rightarrow> feeds \<Rightarrow> feed_error + feed_claim list \<times> feeds" where
  "claim_each E t dur [] s = Inr ([], s)"
| "claim_each E t dur (a # as) s =
     bind_ok (claim_locked_account E t dur None None a s) (\<lambda>(c, s1).
     bind_ok (claim_each E t dur as s1) (\<lambda>(cs, s2).
     Inr ((case c of None \<Rightarrow> cs | Some x \<Rightarrow> x # cs), s2)))"

definition claim_due_runs ::
    "feed_env \<Rightarrow> instant \<Rightarrow> int \<Rightarrow> nat \<Rightarrow> marketplace option \<Rightarrow> nat list \<Rightarrow> feeds \<Rightarrow> feed_error + feed_claim list \<times> feeds" where
  "claim_due_runs E t dur limit m locked s =
     (if dur \<le> 0 then Inl Bad_Value
      else if \<not> (1 \<le> limit \<and> limit \<le> max_recovery_batch_size) then Inl Bad_Value
      else claim_each E t dur (claimable_accounts t m locked limit s) s)"

text \<open>\<open>_cancel_inactive_feed_run\<close> and its batch; each candidate has its own transaction.\<close>

definition cancel_inactive_feed_run :: "instant \<Rightarrow> uuid \<Rightarrow> nat \<Rightarrow> feeds \<Rightarrow> feed_error + feed_run option \<times> feeds" where
  "cancel_inactive_feed_run t k account s =
     (case get_market account s of
        None \<Rightarrow> Inr (None, s)
      | Some a \<Rightarrow>
          (case get_run k s of
             None \<Rightarrow> Inr (None, s)
           | Some r \<Rightarrow>
               (if fr_account r \<noteq> ma_pk a \<or> \<not> active_run r \<or> live a then Inr (None, s)
                else bind_ok (fence_invalid_owner_locked Cancelled t
                        ''Marketplace account or tenant is inactive or deleted.'' r s) (\<lambda>(x, s1). Inr (Some x, s1)))))"

definition inactive_owner_runs :: "nat \<Rightarrow> feeds \<Rightarrow> (uuid \<times> nat) list" where
  "inactive_owner_runs limit s =
     take limit (map (\<lambda>r. (fr_id r, fr_account r)) (sort_key fr_account
       (filter (\<lambda>r. active_run r \<and> (case get_market (fr_account r) s of None \<Rightarrow> False | Some a \<Rightarrow> \<not> live a)) (fd_runs s))))"

fun cancel_each :: "instant \<Rightarrow> (uuid \<times> nat) list \<Rightarrow> feeds \<Rightarrow> (feed_error + feed_run list) \<times> feeds" where
  "cancel_each t [] s = (Inr [], s)"
| "cancel_each t ((k, account) # ks) s =
     (case cancel_inactive_feed_run t k account s of
        Inl e \<Rightarrow> (Inl e, s)
      | Inr (x, s1) \<Rightarrow>
          (case cancel_each t ks s1 of
             (Inl e, s2) \<Rightarrow> (Inl e, s2)
           | (Inr xs, s2) \<Rightarrow> (Inr (case x of None \<Rightarrow> xs | Some r \<Rightarrow> r # xs), s2)))"

definition cancel_feed_runs_for_inactive_owners :: "instant \<Rightarrow> nat \<Rightarrow> feeds \<Rightarrow> (feed_error + feed_run list) \<times> feeds" where
  "cancel_feed_runs_for_inactive_owners t limit s =
     (if \<not> (1 \<le> limit \<and> limit \<le> max_recovery_batch_size) then (Inl Bad_Value, s)
      else cancel_each t (inactive_owner_runs limit s) s)"

section \<open>The fence of a claim\<close>

text \<open>The columns compared by every conditional update of a claimed run.\<close>

definition claim_matches :: "feed_claim \<Rightarrow> instant \<Rightarrow> feed_run \<Rightarrow> bool" where
  "claim_matches c t r \<longleftrightarrow>
     fr_id r = fr_id (cl_run c) \<and> fr_account r = fr_account (cl_run c) \<and> fr_tenant r = fr_tenant (cl_run c) \<and>
     fr_marketplace r = fr_marketplace (cl_run c) \<and> fr_identity r = fr_identity (cl_run c) \<and>
     fr_state r = fr_state (cl_run c) \<and> fr_revision r = fr_revision (cl_run c) \<and>
     fr_token r = Some (cl_token c) \<and> fr_until r = Some (cl_until c) \<and> t < cl_until c"

text \<open>\<open>_lock_claimed_run\<close>, and \<open>_validate_claim_for_read\<close>, which does the same without locks.\<close>

definition lock_claimed_run ::
    "feed_env \<Rightarrow> instant \<Rightarrow> feed_claim \<Rightarrow> run_state list \<Rightarrow> feeds \<Rightarrow> feed_error + feed_run" where
  "lock_claimed_run E t c allowed s =
     (case get_market (fr_account (cl_run c)) s of
        None \<Rightarrow> Inl Stale_Claim
      | Some a \<Rightarrow>
          (if \<not> live a \<or> account_identity_digest E a \<noteq> fr_identity (cl_run c) then Inl Stale_Claim
           else (case get_run (fr_id (cl_run c)) s of
                   None \<Rightarrow> Inl Stale_Claim
                 | Some r \<Rightarrow> if claim_matches c t r \<and> fr_state r \<in> set allowed then Inr r else Inl Stale_Claim)))"

text \<open>\<open>_transition_claimed\<close>: \<open>f\<close> are the updates of the step; the lease ends with it.\<close>

definition released :: "feed_run \<Rightarrow> feed_run" where
  "released r = r\<lparr>fr_revision := fr_revision r + 1, fr_token := None, fr_until := None\<rparr>"

definition transition_claimed ::
    "instant \<Rightarrow> feed_claim \<Rightarrow> (feed_run \<Rightarrow> feed_run) \<Rightarrow> feeds \<Rightarrow> feed_error + feed_run \<times> feeds" where
  "transition_claimed t c f s =
     (case get_run (fr_id (cl_run c)) s of
        None \<Rightarrow> Inl Stale_Claim
      | Some r \<Rightarrow>
          (if \<not> claim_matches c t r then Inl Stale_Claim
           else bind_ok (write_run (released (f r)) s) (\<lambda>s1. Inr (released (f r), s1))))"

text \<open>The counters after \<open>p\<close> published, \<open>j\<close> rejected and \<open>d\<close> otherwise resolved rows.\<close>

definition counter_values :: "feed_run \<Rightarrow> int \<Rightarrow> int \<Rightarrow> int \<Rightarrow> feed_error + (feed_run \<Rightarrow> feed_run)" where
  "counter_values r p j d =
     (if p < 0 \<or> j < 0 \<or> d < 0 then Inl Bad_Value
      else if int (fr_pending r) < p + j + d then Inl Run_Conflict
      else let published = fr_published r + nat p; rejected = fr_rejected r + nat j; left = fr_pending r - nat (p + j + d)
           in if fr_total r < published + rejected + left then Inl Run_Conflict
              else Inr (\<lambda>x. x\<lparr>fr_published := published, fr_rejected := rejected, fr_pending := left\<rparr>))"

text \<open>\<open>_recomputed_counters\<close>: deleted listings count too.\<close>

definition in_run :: "feed_run \<Rightarrow> run_listing \<Rightarrow> bool" where
  "in_run r l \<longleftrightarrow> rl_run l = Some (fr_id r) \<and> rl_account l = fr_account r \<and> rl_tenant l = fr_tenant r"

definition count_status :: "listing_status \<Rightarrow> feed_run \<Rightarrow> feeds \<Rightarrow> nat" where
  "count_status st r s = length (filter (\<lambda>l. in_run r l \<and> rl_status l = st) (fd_listings s))"

definition recomputed_counters :: "feed_run \<Rightarrow> feeds \<Rightarrow> feed_error + (feed_run \<Rightarrow> feed_run)" where
  "recomputed_counters r s =
     (let published = count_status Ls_Active r s; rejected = count_status Ls_Rejected r s; left = count_status Ls_Pending r s
      in if fr_total r < published + rejected + left then Inl Run_Conflict
         else Inr (\<lambda>x. x\<lparr>fr_published := published, fr_rejected := rejected, fr_pending := left\<rparr>))"

section \<open>The boundary of the submission\<close>

text \<open>\<open>timedelta(hours=48)\<close>.\<close>

definition provider_result_horizon :: int where
  "provider_result_horizon = secs 172800"

definition msg_in_progress :: string where
  "msg_in_progress = ''Provider submission is in progress.''"

text \<open>The locked row of a preflight: still \<open>PREPARING\<close> under this claim, without any sign of a submission.\<close>

definition pristine_claim :: "feed_claim \<Rightarrow> instant \<Rightarrow> feed_run \<Rightarrow> bool" where
  "pristine_claim c t r \<longleftrightarrow>
     fr_id r = fr_id (cl_run c) \<and> fr_account r = fr_account (cl_run c) \<and> fr_tenant r = fr_tenant (cl_run c) \<and>
     fr_marketplace r = fr_marketplace (cl_run c) \<and> fr_identity r = fr_identity (cl_run c) \<and>
     fr_state r = Preparing \<and> fr_revision r = fr_revision (cl_run c) \<and>
     fr_token r = Some (cl_token c) \<and> fr_until r = Some (cl_until c) \<and> t < cl_until c \<and>
     fr_submitted r = None \<and> fr_provider r = None \<and> fr_predecessor r = None"

text \<open>
  \<open>validate_feed_submission_owner\<close>: \<open>None\<close> when the claim is no longer pristine or its owner was fenced,
  otherwise the locked row.
\<close>

definition preflight ::
    "feed_env \<Rightarrow> instant \<Rightarrow> feed_claim \<Rightarrow> feeds \<Rightarrow> feed_error + feed_run option \<times> feeds" where
  "preflight E t c s =
     (case get_market (fr_account (cl_run c)) s of
        None \<Rightarrow> Inr (None, s)
      | Some a \<Rightarrow>
          (case get_run (fr_id (cl_run c)) s of
             None \<Rightarrow> Inr (None, s)
           | Some r \<Rightarrow>
               (if \<not> pristine_claim c t r then Inr (None, s)
                else if \<not> live a
                then bind_ok (fence_invalid_owner_locked Cancelled t
                       ''Marketplace account became inactive before feed submission.'' r s) (\<lambda>(_, s1). Inr (None, s1))
                else if fr_tenant r \<noteq> ma_tenant a \<or> fr_marketplace r \<noteq> ma_marketplace a \<or>
                        fr_identity r \<noteq> account_identity_digest E a
                then bind_ok (fence_invalid_owner_locked Superseded t
                       ''Marketplace account identity changed before feed submission.'' r s) (\<lambda>(_, s1). Inr (None, s1))
                else Inr (Some r, s))))"

definition validate_feed_submission_owner :: "feed_env \<Rightarrow> instant \<Rightarrow> feed_claim \<Rightarrow> feeds \<Rightarrow> feed_error + bool \<times> feeds" where
  "validate_feed_submission_owner E t c s =
     bind_ok (preflight E t c s) (\<lambda>(r, s1). Inr (r \<noteq> None, s1))"

text \<open>
  \<open>persist_feed_submission_boundary\<close>: the same preflight, then the row becomes \<open>SUBMIT_UNKNOWN\<close> before the
  request is sent. The lease is kept. A claim in the answer authorises the request.
\<close>

definition provider_predecessor_arg :: "string \<Rightarrow> feed_error + string" where
  "provider_predecessor_arg value = (if 200 < length (strip value) then Inl Bad_Value else Inr (strip value))"

definition boundary_row :: "string \<Rightarrow> instant \<Rightarrow> feed_run \<Rightarrow> feed_run" where
  "boundary_row predecessor submitted r =
     r\<lparr>fr_state := Submit_Unknown, fr_submitted := Some submitted, fr_predecessor := Some predecessor,
       fr_deadline := Some (submitted + provider_result_horizon), fr_reconciles := 0,
       fr_revision := fr_revision r + 1, fr_error := msg_in_progress\<rparr>"

definition persist_feed_submission_boundary ::
    "feed_env \<Rightarrow> instant \<Rightarrow> string \<Rightarrow> instant \<Rightarrow> feed_claim \<Rightarrow> feeds \<Rightarrow> feed_error + feed_claim option \<times> feeds" where
  "persist_feed_submission_boundary E t predecessor submitted c s =
     bind_ok (provider_predecessor_arg predecessor) (\<lambda>p.
     bind_ok (preflight E t c s) (\<lambda>(found, s1).
     case found of
       None \<Rightarrow> Inr (None, s1)
     | Some r \<Rightarrow>
         bind_ok (write_run (boundary_row p submitted r) s1) (\<lambda>s2.
         Inr (Some \<lparr>cl_run = boundary_row p submitted r, cl_token = cl_token c, cl_until = cl_until c\<rparr>, s2))))"

text \<open>\<open>_clear_rejected_feed_submission_boundary\<close> of \<^verbatim>\<open>tasks.py\<close>: the provider refused the request.\<close>

definition cleared_row :: "feed_run \<Rightarrow> feed_run" where
  "cleared_row r =
     r\<lparr>fr_state := Preparing, fr_submitted := None, fr_predecessor := None, fr_deadline := None, fr_reconciles := 0,
       fr_revision := fr_revision r + 1, fr_error := []\<rparr>"

definition clear_rejected_feed_submission_boundary :: "instant \<Rightarrow> feed_claim \<Rightarrow> feeds \<Rightarrow> feed_error + feed_claim \<times> feeds" where
  "clear_rejected_feed_submission_boundary t c s =
     (case get_run (fr_id (cl_run c)) s of
        None \<Rightarrow> Inl Stale_Claim
      | Some r \<Rightarrow>
          (if \<not> claim_matches (c\<lparr>cl_run := (cl_run c)\<lparr>fr_state := Submit_Unknown\<rparr>\<rparr>) t r \<or>
              fr_submitted r \<noteq> fr_submitted (cl_run c)
           then Inl Stale_Claim
           else bind_ok (write_run (cleared_row r) s) (\<lambda>s1.
                Inr (c\<lparr>cl_run := (cl_run c)\<lparr>fr_state := Preparing, fr_revision := fr_revision (cl_run c) + 1,
                       fr_submitted := None, fr_predecessor := None, fr_deadline := None\<rparr>\<rparr>, s1))))"

section \<open>The answer of the provider\<close>

text \<open>\<open>str(provider_run_id).strip()\<close>, not blank and at most 200 characters.\<close>

definition optional_provider_arg :: "string option \<Rightarrow> feed_error + string option" where
  "optional_provider_arg v =
     (case v of
        None \<Rightarrow> Inr None
      | Some p \<Rightarrow> if strip p = [] \<or> 200 < length (strip p) then Inl Bad_Value else Inr (Some (strip p)))"

definition provider_run_arg :: "string \<Rightarrow> feed_error + string" where
  "provider_run_arg v = (if strip v = [] \<or> 200 < length (strip v) then Inl Bad_Value else Inr (strip v))"

definition deadline_or :: "instant \<Rightarrow> feed_run \<Rightarrow> instant option" where
  "deadline_or submitted r =
     (case fr_deadline r of Some d \<Rightarrow> Some d | None \<Rightarrow> Some (submitted + provider_result_horizon))"

definition mark_feed_submitted ::
    "feed_env \<Rightarrow> instant \<Rightarrow> feed_claim \<Rightarrow> string \<Rightarrow> string option \<Rightarrow> instant \<Rightarrow> instant \<Rightarrow> feeds \<Rightarrow>
     feed_error + feed_run \<times> feeds" where
  "mark_feed_submitted E t c digest provider submitted again s =
     bind_ok (digest_arg False digest) (\<lambda>payload.
     bind_ok (optional_provider_arg provider) (\<lambda>p.
     bind_ok (lock_claimed_run E t c [Preparing, Submit_Unknown, Retry_Wait] s) (\<lambda>r.
     transition_claimed t c (\<lambda>x. x
       \<lparr>fr_state := Polling, fr_payload := payload, fr_provider := p, fr_submitted := Some submitted,
        fr_deadline := deadline_or submitted r, fr_reconciles := 0, fr_next := Some again, fr_error := []\<rparr>) s)))"

definition mark_feed_submission_unknown ::
    "feed_env \<Rightarrow> instant \<Rightarrow> feed_claim \<Rightarrow> instant \<Rightarrow> instant \<Rightarrow> string \<Rightarrow> feeds \<Rightarrow> feed_error + feed_run \<times> feeds" where
  "mark_feed_submission_unknown E t c submitted again error s =
     (if again \<le> t then Inl Bad_Value
      else bind_ok (lock_claimed_run E t c [Preparing, Submit_Unknown] s) (\<lambda>r.
        if fr_submitted r \<noteq> None \<and> fr_submitted r \<noteq> Some submitted then Inl Run_Conflict
        else transition_claimed t c (\<lambda>x. x
          \<lparr>fr_state := Submit_Unknown, fr_submitted := Some submitted, fr_deadline := deadline_or submitted r,
           fr_reconciles := (if fr_state r = Preparing then 0 else fr_reconciles x), fr_next := Some again,
           fr_error := clean_error error\<rparr>) s))"

definition record_provider_run_observation ::
    "feed_env \<Rightarrow> instant \<Rightarrow> feed_claim \<Rightarrow> string \<Rightarrow> instant \<Rightarrow> feeds \<Rightarrow> feed_error + feed_run \<times> feeds" where
  "record_provider_run_observation E t c provider again s =
     bind_ok (provider_run_arg provider) (\<lambda>p.
     bind_ok (lock_claimed_run E t c [Polling, Submit_Unknown] s) (\<lambda>r.
       if fr_submitted r = None then Inl Run_Conflict
       else if \<not> no_provider r \<and> fr_provider r \<noteq> Some p then Inl Run_Conflict
       else if no_provider r \<and> fr_predecessor r = Some p then Inl Run_Conflict
       else transition_claimed t c (\<lambda>x. x
         \<lparr>fr_state := Polling, fr_provider := Some p, fr_reconciles := 0, fr_next := Some again, fr_error := []\<rparr>) s))"

section \<open>Polling\<close>

definition max_poll_batch_size :: nat where
  "max_poll_batch_size = 100"

text \<open>\<open>timedelta(minutes=10)\<close> and \<open>timedelta(minutes=30)\<close>.\<close>

definition published_status_recheck_delay :: int where
  "published_status_recheck_delay = secs 600"

definition unresolved_poll_retry_delay :: int where
  "unresolved_poll_retry_delay = secs 1800"

definition complete_poll_step ::
    "feed_env \<Rightarrow> instant \<Rightarrow> feed_claim \<Rightarrow> nat \<Rightarrow> int \<times> int \<times> int \<Rightarrow> instant \<Rightarrow> feeds \<Rightarrow> feed_error + feed_run \<times> feeds" where
  "complete_poll_step E t c last_id deltas again s =
     bind_ok (lock_claimed_run E t c [Polling] s) (\<lambda>r.
     if last_id \<le> fr_cursor r then Inl Run_Conflict
     else (case deltas of (p, j, d) \<Rightarrow>
       bind_ok (counter_values r p j d) (\<lambda>counters.
       transition_claimed t c (\<lambda>x. (counters x)\<lparr>fr_cursor := last_id, fr_next := Some again, fr_error := []\<rparr>) s)))"

text \<open>Pending rows of a generation after a cursor, in the order of their keys.\<close>

definition awaiting :: "feed_run \<Rightarrow> run_listing \<Rightarrow> bool" where
  "awaiting r l \<longleftrightarrow> rl_deleted l = None \<and> rl_run l = Some (fr_id r) \<and> rl_account l = fr_account r \<and>
     rl_status l = Ls_Pending \<and> rl_external l = None"

definition poll_page :: "nat \<Rightarrow> (run_listing \<Rightarrow> bool) \<Rightarrow> nat \<Rightarrow> feeds \<Rightarrow> run_listing list" where
  "poll_page limit p cursor s =
     take limit (sort_key rl_pk (filter (\<lambda>l. p l \<and> cursor < rl_pk l) (fd_listings s)))"

definition load_poll_batch :: "feed_env \<Rightarrow> instant \<Rightarrow> feed_claim \<Rightarrow> nat \<Rightarrow> feeds \<Rightarrow> feed_error + run_listing list" where
  "load_poll_batch E t c limit s =
     (if \<not> (1 \<le> limit \<and> limit \<le> max_poll_batch_size) then Inl Bad_Value
      else bind_ok (lock_claimed_run E t c [Polling] s) (\<lambda>r.
        if fr_cursor r \<noteq> fr_cursor (cl_run c) then Inl Stale_Claim
        else Inr (poll_page limit (awaiting r) (fr_cursor r) s)))"

text \<open>\<open>_poll_listing_ids\<close>: one to a hundred positive keys, strictly increasing.\<close>

definition poll_listing_ids :: "nat list \<Rightarrow> bool" where
  "poll_listing_ids ids \<longleftrightarrow> 1 \<le> length ids \<and> length ids \<le> max_poll_batch_size \<and> list_all (\<lambda>k. 0 < k) ids \<and>
     sorted_wrt (<) ids"

text \<open>\<open>_resolved_external_ids\<close>.\<close>

definition external_id_ok :: "string \<Rightarrow> bool" where
  "external_id_ok v \<longleftrightarrow> strip v \<noteq> [] \<and> length (strip v) \<le> 100"

definition resolved_external_ids :: "nat list \<Rightarrow> (nat \<times> string) list \<Rightarrow> feed_error + (nat \<rightharpoonup> string)" where
  "resolved_external_ids ids vs =
     (if max_poll_batch_size < length vs \<or> \<not> list_all (\<lambda>(k, v). k \<in> set ids \<and> external_id_ok v) vs then Inl Bad_Value
      else Inr (\<lambda>k. map_option strip (map_of vs k)))"

text \<open>A listing the provider has published.\<close>

definition published_listing :: "instant \<Rightarrow> string \<Rightarrow> run_listing \<Rightarrow> run_listing" where
  "published_listing t external l =
     l\<lparr>rl_external := Some external, rl_status := Ls_Active, rl_reason := [],
       rl_published := (case rl_published l of None \<Rightarrow> Some t | Some p \<Rightarrow> Some p), rl_last_sync := Some t,
       rl_remote := None, rl_remote_checked := None, rl_next_check := Some (t + published_status_recheck_delay),
       rl_check_token := None, rl_check_until := None\<rparr>"

definition sync_entry :: "feed_run \<Rightarrow> sync_event \<Rightarrow> run_listing \<Rightarrow> sync_row" where
  "sync_entry r e l =
     \<lparr>sy_tenant = rl_tenant l, sy_product = rl_product l, sy_listing = rl_pk l, sy_event = e, sy_generation = fr_id r\<rparr>"

text \<open>\<open>bulk_update\<close> under the unique column \<open>external_id\<close>, and \<open>bulk_create\<close> of the log.\<close>

definition external_clash :: "run_listing list \<Rightarrow> run_listing \<Rightarrow> bool" where
  "external_clash rows l \<longleftrightarrow>
     rl_external l \<noteq> None \<and> list_ex (\<lambda>x. rl_pk x \<noteq> rl_pk l \<and> rl_external x = rl_external l) rows"

definition save_listings :: "run_listing list \<Rightarrow> feeds \<Rightarrow> feed_error + feeds" where
  "save_listings changed s =
     (let rows = fold (row_put rl_pk) changed (fd_listings s)
      in if list_ex (external_clash rows) changed then Inl Listing_Constraint else Inr (s\<lparr>fd_listings := rows\<rparr>))"

definition log_sync :: "sync_row list \<Rightarrow> feeds \<Rightarrow> feeds" where
  "log_sync es s = s\<lparr>fd_log := fd_log s @ es\<rparr>"

text \<open>The next status check of the account is not later than the new listings need it.\<close>

definition advance_status_batch :: "nat \<Rightarrow> instant \<Rightarrow> feeds \<Rightarrow> feeds" where
  "advance_status_batch account due s =
     s\<lparr>fd_accounts := update_where
         (\<lambda>a. ma_pk a = account \<and> (case ma_batch_due a of None \<Rightarrow> True | Some d \<Rightarrow> due < d))
         (\<lambda>a. a\<lparr>ma_batch_due := Some due\<rparr>) (fd_accounts s)\<rparr>"

record page_result =
  pg_run :: feed_run
  pg_changed :: "nat list"
  pg_published :: nat
  pg_rejected :: nat

definition newly_published :: "instant \<Rightarrow> (nat \<rightharpoonup> string) \<Rightarrow> run_listing list \<Rightarrow> run_listing list" where
  "newly_published t external ls =
     List.map_filter (\<lambda>l. map_option (\<lambda>x. published_listing t x l) (external (rl_pk l))) ls"

definition published_entry :: "feed_run \<Rightarrow> run_listing \<Rightarrow> sync_row" where
  "published_entry r l = sync_entry r (Listing_Published (case rl_external l of None \<Rightarrow> [] | Some x \<Rightarrow> x)) l"

text \<open>The page as it is locked also belongs to the tenant of the run.\<close>

definition apply_poll_page ::
    "feed_env \<Rightarrow> instant \<Rightarrow> feed_claim \<Rightarrow> nat list \<Rightarrow> (nat \<times> string) list \<Rightarrow> nat \<Rightarrow> instant \<Rightarrow> feeds \<Rightarrow>
     feed_error + page_result \<times> feeds" where
  "apply_poll_page E t c ids resolved last_id again s =
     (if \<not> poll_listing_ids ids \<or> last_id \<noteq> last ids then Inl Bad_Value
      else bind_ok (resolved_external_ids ids resolved) (\<lambda>external.
        bind_ok (lock_claimed_run E t c [Polling] s) (\<lambda>r.
        if fr_cursor r \<noteq> fr_cursor (cl_run c) then Inl Stale_Claim
        else (let page = poll_page max_poll_batch_size (\<lambda>l. awaiting r l \<and> rl_tenant l = fr_tenant r) (fr_cursor r) s;
                  changed = newly_published t external page
          in if map rl_pk page \<noteq> ids then Inl Run_Conflict
             else bind_ok (save_listings changed s) (\<lambda>s1.
               bind_ok (counter_values r (int (length changed)) 0 0) (\<lambda>counters.
               bind_ok (transition_claimed t c
                         (\<lambda>x. (counters x)\<lparr>fr_cursor := last_id, fr_next := Some again, fr_error := []\<rparr>)
                         (log_sync (map (published_entry r) changed) s1)) (\<lambda>(x, s2).
               Inr (\<lparr>pg_run = x, pg_changed = map rl_pk changed, pg_published = length changed, pg_rejected = 0\<rparr>,
                    if changed = [] then s2
                    else advance_status_batch (fr_account r) (t + published_status_recheck_delay) s2))))))))"

text \<open>\<open>retry_step\<close>, also used for report pages.\<close>

definition retry_step ::
    "feed_env \<Rightarrow> instant \<Rightarrow> feed_claim \<Rightarrow> instant \<Rightarrow> string \<Rightarrow> bool \<Rightarrow> bool \<Rightarrow> feeds \<Rightarrow> feed_error + feed_run \<times> feeds" where
  "retry_step E t c again error count_report count_submission s =
     (if again \<le> t then Inl Bad_Value
      else bind_ok (lock_claimed_run E t c active_run_states s) (\<lambda>r.
        if count_report \<and> fr_state r \<noteq> Reporting then Inl Run_Conflict
        else if count_submission \<and> fr_state r \<noteq> Submit_Unknown then Inl Run_Conflict
        else transition_claimed t c (\<lambda>x. x
          \<lparr>fr_next := Some again, fr_error := clean_error error,
           fr_report_attempt := (if count_report then fr_report_attempt r + 1 else fr_report_attempt x),
           fr_reconciles := (if count_submission then fr_reconciles r + 1 else fr_reconciles x)\<rparr>) s))"

definition reset_poll_round ::
    "feed_env \<Rightarrow> instant \<Rightarrow> feed_claim \<Rightarrow> instant \<Rightarrow> feeds \<Rightarrow> feed_error + feed_run \<times> feeds" where
  "reset_poll_round E t c again s =
     (if again \<le> t then Inl Bad_Value
      else bind_ok (lock_claimed_run E t c [Polling] s) (\<lambda>r.
        if list_ex (\<lambda>l. awaiting r l \<and> fr_cursor r < rl_pk l) (fd_listings s) then Inl Run_Conflict
        else transition_claimed t c (\<lambda>x. x
          \<lparr>fr_cursor := 0, fr_round := fr_round r + 1, fr_pending := length (filter (awaiting r) (fd_listings s)),
           fr_next := Some again, fr_error := []\<rparr>) s))"

section \<open>Reporting\<close>

definition max_report_pages :: nat where
  "max_report_pages = 100"

definition start_reporting ::
    "feed_env \<Rightarrow> instant \<Rightarrow> feed_claim \<Rightarrow> instant \<Rightarrow> string option \<Rightarrow> feeds \<Rightarrow> feed_error + feed_run \<times> feeds" where
  "start_reporting E t c again provider s =
     bind_ok (lock_claimed_run E t c [Polling] s) (\<lambda>r.
     bind_ok (optional_provider_arg provider) (\<lambda>p.
     if \<not> no_provider r \<and> p \<noteq> None \<and> fr_provider r \<noteq> p then Inl Run_Conflict
     else if fr_report_done r \<noteq> None then Inl Run_Conflict
     else (let known = (if no_provider r then p else fr_provider r)
           in if known = None then Inl Run_Conflict
              else transition_claimed t c (\<lambda>x. x
                \<lparr>fr_state := Reporting, fr_provider := known, fr_page := 1, fr_report_attempt := 0,
                 fr_next := Some again, fr_error := []\<rparr>) s)))"

definition advance_report_page ::
    "feed_env \<Rightarrow> instant \<Rightarrow> feed_claim \<Rightarrow> nat \<Rightarrow> int \<times> int \<times> int \<Rightarrow> instant \<Rightarrow> feeds \<Rightarrow> feed_error + feed_run \<times> feeds" where
  "advance_report_page E t c page deltas again s =
     (if \<not> (1 \<le> page \<and> page < max_report_pages) then Inl Bad_Value
      else bind_ok (lock_claimed_run E t c [Reporting] s) (\<lambda>r.
        if page \<noteq> fr_page r \<or> page \<noteq> fr_page (cl_run c) then Inl Stale_Claim
        else (case deltas of (p, j, d) \<Rightarrow>
          bind_ok (counter_values r p j d) (\<lambda>counters.
          transition_claimed t c (\<lambda>x. (counters x)
            \<lparr>fr_page := page + 1, fr_report_attempt := 0, fr_next := Some again, fr_error := []\<rparr>) s))))"

text \<open>\<open>_normalized_report_errors\<close> and \<open>_normalized_report_external_ids\<close>: the keys are UUIDs, each at most once.\<close>

definition report_entries ::
    "feed_env \<Rightarrow> (string \<Rightarrow> bool) \<Rightarrow> (string \<Rightarrow> string) \<Rightarrow> (string \<times> string) list \<Rightarrow> feed_error + (uuid \<times> string) list" where
  "report_entries E ok f vs =
     (let keys = map (\<lambda>v. fv_parse_uuid E (fst v)) vs
      in if max_poll_batch_size < length vs \<or> None \<in> set keys \<or> \<not> distinct keys \<or> \<not> list_all (\<lambda>v. ok (snd v)) vs
         then Inl Bad_Value
         else Inr (map (\<lambda>v. (the (fv_parse_uuid E (fst v)), f (snd v))) vs))"

definition report_errors :: "feed_env \<Rightarrow> (string \<times> string) list \<Rightarrow> feed_error + (uuid \<times> string) list" where
  "report_errors E vs = report_entries E (\<lambda>_. True) (report_reason (fv_unescape E)) vs"

definition report_external_ids :: "feed_env \<Rightarrow> (string \<times> string) list \<Rightarrow> feed_error + (uuid \<times> string) list" where
  "report_external_ids E vs = report_entries E external_id_ok strip vs"

text \<open>A page of the provider's report.\<close>

record report_page =
  rp_page :: nat
  rp_errors :: "(string \<times> string) list"
  rp_external :: "(string \<times> string) list"
  rp_next :: "nat option"
  rp_again :: "instant option"
  rp_complete :: bool

definition report_page_ok :: "report_page \<Rightarrow> bool" where
  "report_page_ok q \<longleftrightarrow>
     1 \<le> rp_page q \<and> rp_page q \<le> max_report_pages \<and>
     (case rp_next q of
        None \<Rightarrow> rp_complete q \<or> rp_again q \<noteq> None
      | Some n \<Rightarrow> n = rp_page q + 1 \<and> n \<le> max_report_pages \<and> rp_again q \<noteq> None)"

definition outcomes_ok :: "(uuid \<times> string) list \<Rightarrow> (uuid \<times> string) list \<Rightarrow> bool" where
  "outcomes_ok errors external \<longleftrightarrow>
     set (map fst errors) \<inter> set (map fst external) = {} \<and>
     length (remdups (map fst errors @ map fst external)) \<le> max_poll_batch_size"

definition rejected_listing :: "instant \<Rightarrow> string \<Rightarrow> run_listing \<Rightarrow> run_listing" where
  "rejected_listing t reason l =
     l\<lparr>rl_status := Ls_Rejected, rl_reason := reason, rl_next_check := None, rl_last_sync := Some t, rl_remote := None,
       rl_remote_checked := None, rl_check_token := None, rl_check_until := None\<rparr>"

text \<open>The pending rows of the generation named by the page, and what the page says of each.\<close>

definition reported_rows :: "feed_run \<Rightarrow> uuid list \<Rightarrow> feeds \<Rightarrow> run_listing list" where
  "reported_rows r ads s =
     take max_poll_batch_size (sort_key rl_pk (filter (\<lambda>l. awaiting r l \<and> rl_tenant l = fr_tenant r \<and> rl_key l \<in> set ads)
       (fd_listings s)))"

definition reported_listing ::
    "instant \<Rightarrow> (uuid \<rightharpoonup> string) \<Rightarrow> (uuid \<rightharpoonup> string) \<Rightarrow> run_listing \<Rightarrow> run_listing option" where
  "reported_listing t errors external l =
     (case errors (rl_key l) of
        Some reason \<Rightarrow> Some (rejected_listing t reason l)
      | None \<Rightarrow> map_option (\<lambda>x. published_listing t x l) (external (rl_key l)))"

definition rejected_entry :: "feed_run \<Rightarrow> run_listing \<Rightarrow> sync_row" where
  "rejected_entry r l = sync_entry r (Listing_Error (rl_reason l)) l"

text \<open>The row after the page: the next page, back to polling, another look, or the end.\<close>

definition report_updates ::
    "instant \<Rightarrow> report_page \<Rightarrow> feed_run \<Rightarrow> nat \<Rightarrow> nat \<Rightarrow> feeds \<Rightarrow> feed_error + (feed_run \<Rightarrow> feed_run)" where
  "report_updates t q r published rejected s =
     (case rp_next q of
        Some n \<Rightarrow>
          bind_ok (counter_values r (int published) (int rejected) 0) (\<lambda>counters.
          Inr (\<lambda>x. (counters x)\<lparr>fr_page := n, fr_report_attempt := 0, fr_next := rp_again q, fr_error := []\<rparr>))
      | None \<Rightarrow>
          bind_ok (recomputed_counters r s) (\<lambda>counters.
          if count_status Ls_Pending r s = 0
          then Inr (\<lambda>x. (counters x)\<lparr>fr_state := Succeeded, fr_next := None, fr_report_attempt := 0,
                 fr_report_done := Some t, fr_error := [], fr_finished := Some t\<rparr>)
          else if rp_complete q
          then Inr (\<lambda>x. (counters x)\<lparr>fr_state := Polling, fr_cursor := 0, fr_round := fr_round r + 1, fr_page := 1,
                 fr_report_attempt := 0, fr_report_done := Some t, fr_next := Some (t + unresolved_poll_retry_delay),
                 fr_error := [], fr_finished := None\<rparr>)
          else Inr (\<lambda>x. (counters x)\<lparr>fr_state := Reporting, fr_page := 1, fr_report_attempt := 0,
                 fr_report_done := None, fr_next := rp_again q, fr_error := [], fr_finished := None\<rparr>)))"

definition apply_report_page ::
    "feed_env \<Rightarrow> instant \<Rightarrow> feed_claim \<Rightarrow> report_page \<Rightarrow> feeds \<Rightarrow> feed_error + page_result \<times> feeds" where
  "apply_report_page E t c q s =
     (if \<not> report_page_ok q then Inl Bad_Value
      else bind_ok (report_errors E (rp_errors q)) (\<lambda>errors.
        bind_ok (report_external_ids E (rp_external q)) (\<lambda>external.
        if \<not> outcomes_ok errors external then Inl Bad_Value
        else bind_ok (lock_claimed_run E t c [Reporting] s) (\<lambda>r.
        if rp_page q \<noteq> fr_page r \<or> rp_page q \<noteq> fr_page (cl_run c) then Inl Stale_Claim
        else (let changed = List.map_filter (reported_listing t (map_of errors) (map_of external))
                    (reported_rows r (map fst errors @ map fst external) s);
                  rejected = filter (\<lambda>l. rl_status l = Ls_Rejected) changed;
                  published = filter (\<lambda>l. rl_status l = Ls_Active) changed
          in bind_ok (save_listings changed s) (\<lambda>s1.
             bind_ok (report_updates t q r (length published) (length rejected) s1) (\<lambda>updates.
             bind_ok (transition_claimed t c updates
                       (log_sync (map (rejected_entry r) rejected @ map (published_entry r) published) s1)) (\<lambda>(x, s2).
             Inr (\<lparr>pg_run = x, pg_changed = map rl_pk changed, pg_published = length published,
                   pg_rejected = length rejected\<rparr>,
                  if published = [] then s2
                  else advance_status_batch (fr_account r) (t + published_status_recheck_delay) s2)))))))))"

section \<open>The end of a run\<close>

definition finish_states :: "run_state list" where
  "finish_states = [Succeeded, Failed, Outcome_Uncertain, Cancelled]"

definition finish_feed_run ::
    "feed_env \<Rightarrow> instant \<Rightarrow> feed_claim \<Rightarrow> run_state \<Rightarrow> string \<Rightarrow> bool \<Rightarrow> feeds \<Rightarrow> feed_error + feed_run \<times> feeds" where
  "finish_feed_run E t c st error count_submission s =
     (if st \<notin> set finish_states then Inl Bad_Value
      else bind_ok (lock_claimed_run E t c active_run_states s) (\<lambda>r.
        if count_submission \<and> fr_state r \<noteq> Submit_Unknown then Inl Run_Conflict
        else bind_ok (recomputed_counters r s) (\<lambda>counters.
          if st = Succeeded \<and> count_status Ls_Pending r s \<noteq> 0 then Inl Run_Conflict
          else if st = Succeeded \<and> fr_submitted r \<noteq> None \<and> fr_report_done r = None then Inl Run_Conflict
          else transition_claimed t c (\<lambda>x. (counters x)
            \<lparr>fr_state := st, fr_next := None, fr_error := clean_error error, fr_finished := Some t,
             fr_reconciles := (if count_submission then fr_reconciles r + 1 else fr_reconciles x)\<rparr>) s)))"

datatype resolution = Provider_Accepted | Provider_Not_Accepted

definition msg_accepted :: string where
  "msg_accepted = ''Operator reconciled: provider accepted the submission.''"

definition msg_run_not_accepted :: string where
  "msg_run_not_accepted = ''Operator reconciled: provider did not accept the submission.''"

definition accepted_row :: "instant \<Rightarrow> string \<Rightarrow> feed_run \<Rightarrow> feed_run" where
  "accepted_row t provider r =
     r\<lparr>fr_revision := fr_revision r + 1, fr_reconciles := 0, fr_report_attempt := 0, fr_token := None, fr_until := None,
       fr_state := Polling, fr_provider := Some provider, fr_deadline := Some (t + provider_result_horizon),
       fr_report_done := None, fr_next := Some t, fr_finished := None, fr_error := msg_accepted\<rparr>"

definition not_accepted_row :: "instant \<Rightarrow> feed_run \<Rightarrow> feed_run" where
  "not_accepted_row t r =
     r\<lparr>fr_revision := fr_revision r + 1, fr_reconciles := 0, fr_report_attempt := 0, fr_token := None, fr_until := None,
       fr_state := Failed, fr_next := None, fr_finished := Some t, fr_error := msg_run_not_accepted\<rparr>"

text \<open>The arguments of \<open>reconcile_uncertain_feed_run\<close>: the provider's run, given exactly when it was accepted.\<close>

definition resolution_arg :: "resolution \<Rightarrow> string option \<Rightarrow> bool \<Rightarrow> feed_error + string option" where
  "resolution_arg res provider tombstone =
     (if tombstone \<and> res = Provider_Accepted then Inl Bad_Value
      else (case res of
          Provider_Accepted \<Rightarrow>
            (case provider of None \<Rightarrow> Inl Bad_Value | Some p \<Rightarrow> bind_ok (provider_run_arg p) (\<lambda>x. Inr (Some x)))
        | Provider_Not_Accepted \<Rightarrow> if provider = None then Inr None else Inl Bad_Value))"

definition reconcile_uncertain_feed_run ::
    "feed_env \<Rightarrow> instant \<Rightarrow> uuid \<Rightarrow> int \<Rightarrow> resolution \<Rightarrow> string option \<Rightarrow> bool \<Rightarrow> feeds \<Rightarrow>
     feed_error + feed_run \<times> feeds" where
  "reconcile_uncertain_feed_run E t k revision res provider tombstone s =
     (if revision < 0 then Inl Bad_Value
      else bind_ok (resolution_arg res provider tombstone) (\<lambda>p.
        bind_ok (or_raise Run_Conflict (get_run k s)) (\<lambda>r.
        bind_ok (fetch_market (fr_account r) s) (\<lambda>a.
        if \<not> ma_tenant_active a then Inl Account_Unavailable
        else if \<not> live a \<and> \<not> (\<not> ma_active a \<and> tombstone \<and> res = Provider_Not_Accepted) then Inl Account_Unavailable
        else if fr_state r \<noteq> Outcome_Uncertain then Inl Run_Conflict
        else if fr_revision r \<noteq> nat revision then Inl Run_Conflict
        else if fr_tenant r \<noteq> ma_tenant a \<or> fr_marketplace r \<noteq> ma_marketplace a \<or>
                fr_identity r \<noteq> account_identity_digest E a then Inl Run_Conflict
        else if fr_submitted r = None then Inl Run_Conflict
        else (case p of
            None \<Rightarrow> bind_ok (write_run (not_accepted_row t r) s) (\<lambda>s1. Inr (not_accepted_row t r, s1))
          | Some x \<Rightarrow>
              (if \<not> no_provider r \<and> fr_provider r \<noteq> Some x then Inl Run_Conflict
               else if list_ex (\<lambda>y. fr_account y = ma_pk a \<and> fr_provider y = Some x \<and> fr_id y \<noteq> k) (fd_runs s)
               then Inl Run_Conflict
               else if list_ex (\<lambda>y. fr_account y = ma_pk a \<and> active_run y \<and> fr_id y \<noteq> k) (fd_runs s)
               then Inl Run_Conflict
               else bind_ok (write_run (accepted_row t x r) s) (\<lambda>s1. Inr (accepted_row t x r, s1))))))))"

definition supersede_feed_run ::
    "instant \<Rightarrow> uuid \<Rightarrow> nat option \<Rightarrow> string \<Rightarrow> feeds \<Rightarrow> feed_error + feed_run \<times> feeds" where
  "supersede_feed_run t k revision reason s =
     bind_ok (or_raise Run_Conflict (get_run k s)) (\<lambda>r.
     bind_ok (fetch_market (fr_account r) s) (\<lambda>_.
     if (case revision of None \<Rightarrow> False | Some n \<Rightarrow> fr_revision r \<noteq> n) then Inl Run_Conflict
     else if fr_state r \<in> set terminal_run_states then Inr (r, s)
     else fence_invalid_owner_locked Superseded t reason r s))"

end
