(* ===== verification/Feed_Run_Moves.thy ===== *)
theory Feed_Run_Moves
  imports Feed_Runs
begin

text \<open>
  How the operations of the feed workflow change runs: every write keeps the constraints of the table
  and the identity of the generation, advances the revision, and follows an edge of the life cycle that
  is allowed to the kind of the operation.
\<close>

section \<open>The life cycle\<close>

text \<open>Nothing was sent; a request may have reached the provider; an operator has to decide; the end.\<close>

datatype run_phase = Open_Phase | In_Flight | On_Hold | Closed_Phase

definition phase :: "feed_run \<Rightarrow> run_phase" where
  "phase r = (case fr_state r of
      Preparing \<Rightarrow> Open_Phase
    | Submit_Unknown \<Rightarrow> In_Flight | Polling \<Rightarrow> In_Flight | Reporting \<Rightarrow> In_Flight | Retry_Wait \<Rightarrow> In_Flight
    | Outcome_Uncertain \<Rightarrow> On_Hold
    | Succeeded \<Rightarrow> Closed_Phase | Failed \<Rightarrow> Closed_Phase | Superseded \<Rightarrow> Closed_Phase | Cancelled \<Rightarrow> Closed_Phase)"

lemma phase_states:
  "phase r = Open_Phase \<longleftrightarrow> fr_state r = Preparing"
  "phase r = In_Flight \<longleftrightarrow> fr_state r \<in> {Submit_Unknown, Polling, Reporting, Retry_Wait}"
  "phase r = On_Hold \<longleftrightarrow> fr_state r = Outcome_Uncertain"
  "phase r = Closed_Phase \<longleftrightarrow> fr_state r \<in> {Succeeded, Failed, Superseded, Cancelled}"
  by (cases "fr_state r"; simp add: phase_def)+

lemma owner_phase: "is_owner r \<longleftrightarrow> phase r \<noteq> Closed_Phase"
  by (cases "fr_state r") (simp_all add: is_owner_def ownership_states_def active_run_states_def phase_def)

lemma active_phase: "active_run r \<longleftrightarrow> phase r = Open_Phase \<or> phase r = In_Flight"
  by (cases "fr_state r") (simp_all add: active_run_def active_run_states_def phase_def)

lemma terminal_phase: "fr_state r \<in> set terminal_run_states \<longleftrightarrow> phase r = On_Hold \<or> phase r = Closed_Phase"
  by (cases "fr_state r") (simp_all add: terminal_run_states_def phase_def)

section \<open>Moves\<close>

definition same_generation :: "feed_run \<Rightarrow> feed_run \<Rightarrow> bool" where
  "same_generation r x \<longleftrightarrow> fr_id x = fr_id r \<and> fr_tenant x = fr_tenant r \<and> fr_account x = fr_account r \<and>
     fr_marketplace x = fr_marketplace r \<and> fr_identity x = fr_identity r \<and> fr_total x = fr_total r \<and>
     fr_intent x = fr_intent r \<and> fr_endpoint x = fr_endpoint r \<and> fr_prev_artifact x = fr_prev_artifact r"

definition row_move :: "(run_phase \<times> run_phase) list \<Rightarrow> feed_run \<Rightarrow> feed_run \<Rightarrow> bool" where
  "row_move edges r x \<longleftrightarrow> same_generation r x \<and> fr_revision r < fr_revision x \<and> (phase r, phase x) \<in> set edges"

text \<open>The constraints of the table.\<close>

definition runs_ok :: "feeds \<Rightarrow> bool" where
  "runs_ok s \<longleftrightarrow> distinct (map fr_id (fd_runs s)) \<and>
     (\<forall>x\<in>set (fd_runs s). columns_fit x \<and> mode_ok x \<and>
        (\<forall>y\<in>set (fd_runs s). \<not> owner_clash x y \<and> \<not> provider_clash x y \<and> \<not> intent_clash x y))"

definition moves :: "(run_phase \<times> run_phase) list \<Rightarrow> feeds \<Rightarrow> feeds \<Rightarrow> bool" where
  "moves edges s s' \<longleftrightarrow>
     (\<forall>k r. get_run k s = Some r \<longrightarrow> (\<exists>x. get_run k s' = Some x \<and> (x = r \<or> row_move edges r x))) \<and>
     (runs_ok s \<longrightarrow> runs_ok s')"

lemma same_generation_refl [simp]: "same_generation r r"
  by (simp add: same_generation_def)

lemma same_generation_trans: "same_generation r x \<Longrightarrow> same_generation x y \<Longrightarrow> same_generation r y"
  by (simp add: same_generation_def)

lemma runs_ok_frame: "fd_runs s' = fd_runs s \<Longrightarrow> runs_ok s' = runs_ok s"
  by (simp add: runs_ok_def)

lemma get_run_frame: "fd_runs s' = fd_runs s \<Longrightarrow> get_run k s' = get_run k s"
  by (simp add: get_run_def)

lemma moves_same:
  assumes "fd_runs s' = fd_runs s"
  shows "moves edges s s'"
  unfolding moves_def get_run_def runs_ok_def assms by blast

lemma moves_refl: "moves edges s s"
  by (rule moves_same) simp

lemma moves_frame:
  assumes "fd_runs t = fd_runs s" "fd_runs t' = fd_runs s'"
  shows "moves edges t t' = moves edges s s'"
  unfolding moves_def get_run_def runs_ok_def assms by (rule refl)

lemma movesI:
  assumes "\<And>k r. get_run k s = Some r \<Longrightarrow> \<exists>x. get_run k s' = Some x \<and> (x = r \<or> row_move edges r x)" "runs_ok s \<Longrightarrow> runs_ok s'"
  shows "moves edges s s'"
  using assms by (simp add: moves_def)

lemma moves_row:
  assumes "moves edges s s'" "get_run k s = Some r"
  obtains x where "get_run k s' = Some x" "x = r \<or> row_move edges r x"
  using assms by (auto simp: moves_def)

lemma moves_keep_ok: "moves edges s s' \<Longrightarrow> runs_ok s \<Longrightarrow> runs_ok s'"
  by (simp add: moves_def)

lemma row_move_mono: "row_move edges r x \<Longrightarrow> set edges \<subseteq> set edges' \<Longrightarrow> row_move edges' r x"
  unfolding row_move_def by blast

lemma moves_mono:
  assumes "moves edges s s'" "set edges \<subseteq> set edges'"
  shows "moves edges' s s'"
proof (rule movesI)
  show "\<exists>x. get_run k s' = Some x \<and> (x = r \<or> row_move edges' r x)" if "get_run k s = Some r" for k r
    using moves_row [OF assms(1) that] row_move_mono [OF _ assms(2)] by blast
qed (rule moves_keep_ok [OF assms(1)])

definition composes :: "(run_phase \<times> run_phase) list \<Rightarrow> bool" where
  "composes edges \<longleftrightarrow> list_all (\<lambda>e. list_all (\<lambda>f. snd e = fst f \<longrightarrow> (fst e, snd f) \<in> set edges) edges) edges"

lemma composesD: "composes edges \<Longrightarrow> (a, b) \<in> set edges \<Longrightarrow> (b, c) \<in> set edges \<Longrightarrow> (a, c) \<in> set edges"
  unfolding composes_def list_all_iff by fastforce

lemma row_move_trans:
  assumes "composes edges" "row_move edges r x" "row_move edges x y"
  shows "row_move edges r y"
  using assms(2,3) composesD [OF assms(1)] unfolding row_move_def
  by (meson same_generation_trans less_trans)

lemma moves_trans:
  assumes "composes edges" "moves edges s s1" "moves edges s1 s2"
  shows "moves edges s s2"
proof (rule movesI)
  fix k r assume "get_run k s = Some r"
  from assms(2) this obtain x where x: "get_run k s1 = Some x" "x = r \<or> row_move edges r x" by (rule moves_row)
  from assms(3) x(1) obtain y where y: "get_run k s2 = Some y" "y = x \<or> row_move edges x y" by (rule moves_row)
  then show "\<exists>y. get_run k s2 = Some y \<and> (y = r \<or> row_move edges r y)"
    using x(2) row_move_trans [OF assms(1), of r x y] by blast
qed (use moves_keep_ok assms(2,3) in blast)

text \<open>Writing one row.\<close>

lemma write_run_Inr:
  "write_run r s = Inr s' \<longleftrightarrow> run_constraint r (fd_runs s) = None \<and> s' = put_run r s"
  by (auto simp: write_run_def split: option.splits)

lemma run_constraint_None:
  "run_constraint r rows = None \<longleftrightarrow> columns_fit r \<and> mode_ok r \<and>
     (\<forall>x\<in>set rows. \<not> owner_clash r x \<and> \<not> provider_clash r x \<and> \<not> intent_clash r x)"
  by (auto simp: run_constraint_def list_ex_iff)

lemma run_clash_sym: "owner_clash r x = owner_clash x r" "provider_clash r x = provider_clash x r" "intent_clash r x = intent_clash x r"
  by (auto simp: owner_clash_def provider_clash_def intent_clash_def)

lemma clash_self: "\<not> owner_clash r r" "\<not> provider_clash r r" "\<not> intent_clash r r"
  by (simp_all add: owner_clash_def provider_clash_def intent_clash_def)

lemma write_keeps_ok:
  assumes "runs_ok s" "write_run r s = Inr s'"
  shows "runs_ok s'"
proof -
  have c: "columns_fit r \<and> mode_ok r" "\<forall>x\<in>set (fd_runs s). \<not> owner_clash r x \<and> \<not> provider_clash r x \<and> \<not> intent_clash r x"
    using assms(2) by (auto simp: write_run_Inr run_constraint_None)
  have rows: "fd_runs s' = row_put fr_id r (fd_runs s)" using assms(2) by (simp add: write_run_Inr put_run_def)
  have sub: "set (fd_runs s') \<subseteq> insert r (set (fd_runs s))" unfolding rows by (rule set_row_put_subset)
  have old: "\<forall>x\<in>set (fd_runs s). columns_fit x \<and> mode_ok x \<and>
        (\<forall>y\<in>set (fd_runs s). \<not> owner_clash x y \<and> \<not> provider_clash x y \<and> \<not> intent_clash x y)"
    using assms(1) by (simp add: runs_ok_def)
  have "\<forall>x\<in>insert r (set (fd_runs s)). columns_fit x \<and> mode_ok x \<and>
        (\<forall>y\<in>insert r (set (fd_runs s)). \<not> owner_clash x y \<and> \<not> provider_clash x y \<and> \<not> intent_clash x y)"
    using c old clash_self by (auto simp: run_clash_sym [of _ r])
  moreover have "distinct (map fr_id (fd_runs s'))"
    using assms(1) by (simp add: rows map_pk_row_put runs_ok_def)
  ultimately show ?thesis using sub unfolding runs_ok_def by blast
qed

lemma write_get:
  assumes "write_run r s = Inr s'" "get_run (fr_id r) s = Some x"
  shows "get_run k s' = (if k = fr_id r then Some r else get_run k s)"
  using assms run_table.get_put by (simp add: write_run_Inr)

lemma moves_write:
  assumes "write_run x s = Inr s'" "get_run (fr_id x) s = Some r" "row_move edges r x"
  shows "moves edges s s'"
  using assms(2,3) write_get [OF assms(1,2)] write_keeps_ok [OF _ assms(1)] unfolding moves_def by auto

text \<open>Adding a row.\<close>

lemma insert_run_Inr:
  "insert_run r s = Inr s' \<longleftrightarrow> run_constraint r (fd_runs s) = None \<and> s' = s\<lparr>fd_runs := row_add r (fd_runs s)\<rparr>"
  by (auto simp: insert_run_def split: option.splits)

lemma moves_insert:
  assumes "insert_run r s = Inr s'" "get_run (fr_id r) s = None"
  shows "moves edges s s'"
proof -
  have s': "s' = s\<lparr>fd_runs := row_add r (fd_runs s)\<rparr>" using assms(1) by (simp add: insert_run_Inr)
  have c: "columns_fit r \<and> mode_ok r" "\<forall>x\<in>set (fd_runs s). \<not> owner_clash r x \<and> \<not> provider_clash r x \<and> \<not> intent_clash r x"
    using assms(1) by (auto simp: insert_run_Inr run_constraint_None)
  have fresh: "fr_id r \<notin> fr_id ` set (fd_runs s)"
    using assms(2) by (simp add: get_run_def row_get_None_iff)
  have "runs_ok s'" if "runs_ok s"
    using that c fresh clash_self unfolding runs_ok_def s'
    by (auto simp: row_add_def run_clash_sym [of _ r])
  moreover have "get_run k s' = Some x" if "get_run k s = Some x" for k x
    using that unfolding get_run_def s' by (simp add: row_get_add)
  ultimately show ?thesis unfolding moves_def by auto
qed

section \<open>Steps without a claim\<close>

definition automatic_edges :: "(run_phase \<times> run_phase) list" where
  "automatic_edges =
     [(Open_Phase, Open_Phase), (Open_Phase, Closed_Phase), (Open_Phase, On_Hold), (In_Flight, In_Flight), (In_Flight, On_Hold)]"

lemma automatic_composes: "composes automatic_edges"
  by (simp add: composes_def automatic_edges_def)

lemma closed_run_sel [simp]:
  "fr_id (closed_run st t e r) = fr_id r" "fr_state (closed_run st t e r) = st"
  "fr_revision (closed_run st t e r) = fr_revision r + 1" "same_generation r (closed_run st t e r)"
  "fr_submitted (closed_run st t e r) = fr_submitted r" "fr_account (closed_run st t e r) = fr_account r"
  by (simp_all add: closed_run_def same_generation_def)

lemma terminalize_cases:
  assumes "terminalize_locked st t e r s = Inr (x, s')" "get_run (fr_id r) s = Some r"
  obtains "x = r" "s' = s" "fr_state r \<in> set terminal_run_states"
  | "st \<in> set terminal_run_states" "fr_state r \<notin> set terminal_run_states" "x = closed_run st t e r" "write_run x s = Inr s'"
  using assms by (auto simp: terminalize_locked_def bind_ok_Inr_iff split: if_splits)

lemma terminalize_moves:
  assumes "terminalize_locked st t e r s = Inr (x, s')" "get_run (fr_id r) s = Some r"
    "fr_state r \<notin> set terminal_run_states \<Longrightarrow> (phase r, phase (r\<lparr>fr_state := st\<rparr>)) \<in> set edges"
  shows "moves edges s s'"
  using assms(1,2)
proof (cases rule: terminalize_cases)
  case 1
  then show ?thesis by (simp add: moves_refl)
next
  case 2
  have "phase x = phase (r\<lparr>fr_state := st\<rparr>)" by (simp add: 2(3) phase_def)
  then have "row_move edges r x" using 2 assms(3) by (simp add: row_move_def)
  moreover have "fr_id x = fr_id r" using 2 by simp
  ultimately show ?thesis using moves_write [OF 2(4), of r] assms(2) by simp
qed

definition safe_close :: "run_state \<Rightarrow> bool" where
  "safe_close st \<longleftrightarrow> st = Superseded \<or> st = Cancelled"

lemma safe_close_simps [simp]: "safe_close Superseded" "safe_close Cancelled"
  by (simp_all add: safe_close_def)

lemma proven_open: "has_proven_no_submission r \<Longrightarrow> phase r = Open_Phase"
  by (simp add: has_proven_no_submission_def phase_def)

lemma fence_moves:
  assumes "fence_invalid_owner_locked st t e r s = Inr (x, s')" "get_run (fr_id r) s = Some r" "safe_close st"
  shows "moves automatic_edges s s'"
proof (cases "has_proven_no_submission r")
  case True
  then have "terminalize_locked st t e r s = Inr (x, s')" using assms(1) by (simp add: fence_invalid_owner_locked_def)
  then show ?thesis using assms(2,3) proven_open [OF True]
    by (elim terminalize_moves) (auto simp: safe_close_def automatic_edges_def phase_def)
next
  case False
  then have "terminalize_locked Outcome_Uncertain t (clean_error e @ '' '' @ msg_manual) r s = Inr (x, s')"
    using assms(1) by (simp add: fence_invalid_owner_locked_def)
  moreover have "(phase r, phase (r\<lparr>fr_state := Outcome_Uncertain\<rparr>)) \<in> set automatic_edges"
    if "fr_state r \<notin> set terminal_run_states"
    using that by (cases "fr_state r") (simp_all add: terminal_run_states_def phase_def automatic_edges_def)
  ultimately show ?thesis using assms(2) by (elim terminalize_moves)
qed

lemma run_here: "runs_ok s \<Longrightarrow> r \<in> set (fd_runs s) \<Longrightarrow> get_run (fr_id r) s = Some r"
  by (simp add: runs_ok_def get_run_def row_get_distinct_iff)

lemma get_run_id: "get_run k s = Some r \<Longrightarrow> fr_id r = k"
  by (rule run_table.get_key)

lemma get_run_mem: "get_run k s = Some r \<Longrightarrow> r \<in> set (fd_runs s)"
  unfolding get_run_def by (rule row_get_in_set)

text \<open>The first row a filter finds.\<close>

lemma first_found:
  assumes "first_row (filter p (fd_runs s)) = Some r" "runs_ok s"
  shows "get_run (fr_id r) s = Some r" "p r"
  using run_here [OF assms(2)] first_row_in_set [OF assms(1)] by auto

lemma owner_change_moves:
  assumes "fence_account_feed_runs_for_owner_change t k e st policy s = Inr (x, s')" "runs_ok s"
  shows "moves automatic_edges s s'"
proof -
  have safe: "safe_close st" using assms(1)
    by (auto simp: fence_account_feed_runs_for_owner_change_def safe_close_def split: if_splits)
  obtain a where a: "fetch_market k s = Inr a" using assms(1)
    by (auto simp: fence_account_feed_runs_for_owner_change_def bind_ok_Inr_iff split: if_splits)
  show ?thesis
  proof (cases "first_row (filter (\<lambda>r. fr_account r = ma_pk a \<and> is_owner r) (fd_runs s))")
    case None
    then show ?thesis using assms(1) a
      by (auto simp: fence_account_feed_runs_for_owner_change_def moves_refl split: if_splits)
  next
    case (Some r)
    note here = first_found(1) [OF Some assms(2)]
    show ?thesis
    proof (cases "has_proven_no_submission r")
      case True
      then obtain y where "terminalize_locked st t e r s = Inr (y, s')" using assms(1) a Some
        by (auto simp: fence_account_feed_runs_for_owner_change_def bind_ok_Inr_iff split: if_splits)
      then have "fence_invalid_owner_locked st t e r s = Inr (y, s')" using True by (simp add: fence_invalid_owner_locked_def)
      then show ?thesis using here safe by (rule fence_moves)
    next
      case False
      then have "s' = s \<or> (\<exists>y. fence_invalid_owner_locked st t e r s = Inr (y, s'))" using assms(1) a Some
        by (auto simp: fence_account_feed_runs_for_owner_change_def bind_ok_Inr_iff split: if_splits)
      then show ?thesis using fence_moves [OF _ here safe] moves_refl by blast
    qed
  qed
qed

lemma supersede_moves:
  assumes "supersede_feed_run t k n e s = Inr (x, s')"
  shows "moves automatic_edges s s'"
proof -
  obtain r where r: "get_run k s = Some r" "(x, s') = (r, s) \<or> fence_invalid_owner_locked Superseded t e r s = Inr (x, s')"
    using assms by (auto simp: supersede_feed_run_def bind_ok_Inr_iff split: if_splits)
  moreover have "get_run (fr_id r) s = Some r" using r(1) get_run_id [OF r(1)] by simp
  ultimately show ?thesis using fence_moves [of Superseded t e r s x s'] by (auto simp: moves_refl)
qed

lemma cancel_one_moves:
  assumes "cancel_inactive_feed_run t k account s = Inr (x, s')"
  shows "moves automatic_edges s s'"
proof -
  have "s' = s \<or> (\<exists>r y e. get_run k s = Some r \<and> fence_invalid_owner_locked Cancelled t e r s = Inr (y, s'))"
    using assms by (auto simp: cancel_inactive_feed_run_def bind_ok_Inr_iff split: option.splits if_splits)
  then show ?thesis using fence_moves [of Cancelled t _ _ s _ s'] get_run_id by (auto simp: moves_refl)
qed

lemma cancel_each_moves: "cancel_each t ks s = (res, s') \<Longrightarrow> moves automatic_edges s s'"
proof (induction t ks s arbitrary: res s' rule: cancel_each.induct)
  case (1 t s)
  then show ?case by (simp add: moves_refl)
next
  case (2 t k account ks s)
  show ?case
  proof (cases "cancel_inactive_feed_run t k account s")
    case (Inl e)
    then show ?thesis using 2(2) by (simp add: moves_refl)
  next
    case (Inr y)
    obtain x s1 where y: "y = (x, s1)" by (cases y)
    obtain xs s2 where rest: "cancel_each t ks s1 = (xs, s2)" by (cases "cancel_each t ks s1")
    have "s' = s2" using 2(2) Inr y rest by (cases xs) auto
    moreover have "moves automatic_edges s s1" using cancel_one_moves Inr y by simp
    moreover have "moves automatic_edges s1 s2" using 2(1) [OF Inr y [symmetric] rest] y by simp
    ultimately show ?thesis using moves_trans [OF automatic_composes] by blast
  qed
qed

lemma claimed_row_sel [simp]:
  "fr_id (claimed_run_row t dur k r) = fr_id r" "fr_state (claimed_run_row t dur k r) = fr_state r"
  "fr_revision (claimed_run_row t dur k r) = fr_revision r + 1" "same_generation r (claimed_run_row t dur k r)"
  "phase (claimed_run_row t dur k r) = phase r" "fr_account (claimed_run_row t dur k r) = fr_account r"
  by (simp_all add: claimed_run_row_def same_generation_def phase_def)

lemma take_claim_result:
  assumes "take_claim t dur r s = Inr (c, s')"
  shows "c = Some \<lparr>cl_run = claimed_run_row t dur (fd_next s) r, cl_token = fd_next s, cl_until = t + dur\<rparr>"
    "write_run (claimed_run_row t dur (fd_next s) r) (s\<lparr>fd_next := Suc (fd_next s)\<rparr>) = Inr s'"
  using assms by (auto simp: take_claim_def bind_ok_Inr_iff Let_def)

lemma take_claim_moves:
  assumes "take_claim t dur r s = Inr (c, s')" "get_run (fr_id r) s = Some r" "active_run r"
  shows "moves automatic_edges s s'"
proof -
  let ?s = "s\<lparr>fd_next := Suc (fd_next s)\<rparr>"
  have "get_run (fr_id r) ?s = Some r" using assms(2) by (simp add: get_run_def)
  moreover have "row_move automatic_edges r (claimed_run_row t dur (fd_next s) r)"
    using assms(3) by (auto simp: row_move_def automatic_edges_def active_phase)
  ultimately have "moves automatic_edges ?s s'"
    using moves_write [OF take_claim_result(2) [OF assms(1)], of r] by simp
  then show ?thesis using moves_frame [of ?s s s' s'] by simp
qed

lemma claim_found:
  assumes "claim_locked_account E t dur g n a s = Inr (c, s')"
  obtains "c = None" "s' = s"
  | r where "first_row (filter (\<lambda>r. fr_account r = ma_pk a \<and> active_run r \<and> (case g of None \<Rightarrow> True | Some k \<Rightarrow> fr_id r = k)) (fd_runs s)) = Some r"
      "(\<exists>y e st. safe_close st \<and> c = None \<and> fence_invalid_owner_locked st t e r s = Inr (y, s')) \<or>
       (take_claim t dur r s = Inr (c, s') \<and> live a \<and> due_at t r \<and> unleased t r)"
proof (cases "first_row (filter (\<lambda>r. fr_account r = ma_pk a \<and> active_run r \<and> (case g of None \<Rightarrow> True | Some k \<Rightarrow> fr_id r = k)) (fd_runs s))")
  case None
  then show ?thesis using assms that(1) by (simp add: claim_locked_account_def)
next
  case (Some r)
  have "(c = None \<and> s' = s) \<or>
     (\<exists>y e st. safe_close st \<and> c = None \<and> fence_invalid_owner_locked st t e r s = Inr (y, s')) \<or>
     (take_claim t dur r s = Inr (c, s') \<and> live a \<and> due_at t r \<and> unleased t r)"
    using assms Some
    by (auto simp: claim_locked_account_def fenced_claim_def bind_ok_Inr_iff safe_close_def split: if_splits)
  then show ?thesis using that Some by blast
qed

lemma claim_locked_moves:
  assumes "claim_locked_account E t dur g n a s = Inr (c, s')" "runs_ok s"
  shows "moves automatic_edges s s'"
  using assms(1)
proof (cases rule: claim_found)
  case 1
  then show ?thesis by (simp add: moves_refl)
next
  case (2 r)
  note here = first_found [OF 2(1) assms(2)]
  show ?thesis using 2(2) fence_moves [OF _ here(1)] take_claim_moves [OF _ here(1)] here(2) by blast
qed

lemma claim_due_moves:
  assumes "claim_due_run_for_account E t dur k g n s = Inr (c, s')" "runs_ok s"
  shows "moves automatic_edges s s'"
  using assms claim_locked_moves
  by (auto simp: claim_due_run_for_account_def moves_refl split: if_splits option.splits)

lemma claim_each_moves: "claim_each E t dur as s = Inr (cs, s') \<Longrightarrow> runs_ok s \<Longrightarrow> moves automatic_edges s s'"
proof (induction E t dur as s arbitrary: cs s' rule: claim_each.induct)
  case (1 E t dur s)
  then show ?case by (simp add: moves_refl)
next
  case (2 E t dur a as s)
  obtain c s1 ds where c: "claim_locked_account E t dur None None a s = Inr (c, s1)"
      and rest: "claim_each E t dur as s1 = Inr (ds, s')"
    using 2(2) by (auto simp: bind_ok_Inr_iff)
  note one = claim_locked_moves [OF c 2(3)]
  have "moves automatic_edges s1 s'" using rest moves_keep_ok [OF one 2(3)] by (rule 2(1))
  with one show ?case by (rule moves_trans [OF automatic_composes])
qed

lemma preflight_moves:
  assumes "preflight E t c s = Inr (found, s')"
  shows "moves automatic_edges s s'"
proof -
  have "s' = s \<or> (\<exists>r y e st. safe_close st \<and> get_run (fr_id (cl_run c)) s = Some r \<and>
          fence_invalid_owner_locked st t e r s = Inr (y, s'))"
    using assms by (auto simp: preflight_def bind_ok_Inr_iff safe_close_def split: option.splits if_splits)
  then show ?thesis using fence_moves [of _ t _ _ s _ s'] get_run_id by (auto simp: moves_refl)
qed

lemma preflight_found:
  assumes "preflight E t c s = Inr (Some r, s')"
  shows "s' = s" "get_run (fr_id (cl_run c)) s = Some r" "pristine_claim c t r"
    "\<exists>a. get_market (fr_account r) s = Some a \<and> live a \<and> fr_identity r = account_identity_digest E a"
  using assms
  by (auto simp: preflight_def bind_ok_Inr_iff pristine_claim_def split: option.splits if_splits)

definition submission_edges :: "(run_phase \<times> run_phase) list" where
  "submission_edges = (Open_Phase, In_Flight) # automatic_edges"

lemma boundary_row_sel [simp]:
  "fr_id (boundary_row p u r) = fr_id r" "fr_revision (boundary_row p u r) = fr_revision r + 1"
  "same_generation r (boundary_row p u r)" "phase (boundary_row p u r) = In_Flight"
  "fr_account (boundary_row p u r) = fr_account r" "fr_submitted (boundary_row p u r) = Some u"
  by (simp_all add: boundary_row_def same_generation_def phase_def)

lemma boundary_authorised:
  assumes "persist_feed_submission_boundary E t p u c s = Inr (Some d, s')"
  obtains r where "get_run (fr_id (cl_run c)) s = Some r" "pristine_claim c t r"
    "cl_run d = boundary_row (strip p) u r" "write_run (boundary_row (strip p) u r) s = Inr s'"
    "\<exists>a. get_market (fr_account r) s = Some a \<and> live a \<and> fr_identity r = account_identity_digest E a"
    "cl_token d = cl_token c" "cl_until d = cl_until c"
proof -
  obtain found s1 where f: "preflight E t c s = Inr (found, s1)" and p: "provider_predecessor_arg p = Inr (strip p)"
    using assms by (auto simp: persist_feed_submission_boundary_def provider_predecessor_arg_def bind_ok_Inr_iff split: if_splits)
  then obtain r where r: "found = Some r"
    using assms by (cases found) (auto simp: persist_feed_submission_boundary_def)
  note pre = preflight_found [OF f [unfolded r]]
  show ?thesis
    using that [OF pre(2,3) _ _ pre(4)] assms f p r pre(1)
    by (auto simp: persist_feed_submission_boundary_def bind_ok_Inr_iff)
qed

lemma boundary_moves:
  assumes "persist_feed_submission_boundary E t p u c s = Inr (d, s')"
  shows "moves submission_edges s s'"
proof (cases d)
  case None
  then obtain found s1 where f: "preflight E t c s = Inr (found, s1)" "found = None \<Longrightarrow> s' = s1" "found = None"
    using assms by (auto simp: persist_feed_submission_boundary_def provider_predecessor_arg_def bind_ok_Inr_iff
        split: if_splits option.splits)
  then show ?thesis using preflight_moves [OF f(1)] by (auto elim: moves_mono simp: submission_edges_def)
next
  case (Some d')
  with assms have "persist_feed_submission_boundary E t p u c s = Inr (Some d', s')" by simp
  then show ?thesis
  proof (rule boundary_authorised)
    fix r assume r: "get_run (fr_id (cl_run c)) s = Some r" "pristine_claim c t r"
      and w: "write_run (boundary_row (strip p) u r) s = Inr s'"
    have "phase r = Open_Phase" using r(2) by (simp add: pristine_claim_def phase_states)
    then have "row_move submission_edges r (boundary_row (strip p) u r)"
      by (simp add: row_move_def submission_edges_def)
    moreover have "get_run (fr_id (boundary_row (strip p) u r)) s = Some r" using r(1) get_run_id [OF r(1)] by simp
    ultimately show ?thesis using w by (intro moves_write)
  qed
qed

section \<open>Creation, resumption and the operator\<close>

lemma supersede_all_moves:
  assumes "supersede_all E t k rs s = Inr s'" "runs_ok s" "distinct (map fr_id rs)" "\<forall>r\<in>set rs. get_run (fr_id r) s = Some r"
  shows "moves automatic_edges s s' \<and> (\<forall>i. get_run i s = None \<longrightarrow> get_run i s' = None)"
  using assms
proof (induction rs arbitrary: s)
  case Nil
  then show ?case by (simp add: moves_refl)
next
  case (Cons r rs)
  let ?e = "''Superseded by feed generation '' @ fv_uuid_text E k @ ''.''"
  obtain x s1 where one: "terminalize_locked Superseded t ?e r s = Inr (x, s1)"
      and rest: "supersede_all E t k rs s1 = Inr s'" and ready: "safely_replaceable r"
    using Cons.prems(1) by (auto simp: bind_ok_Inr_iff split: if_splits)
  have here: "get_run (fr_id r) s = Some r" using Cons.prems(4) by simp
  have m: "moves automatic_edges s s1" using one here ready
    by (elim terminalize_moves) (simp_all add: safely_replaceable_def phase_def automatic_edges_def)
  have frame: "get_run i s1 = get_run i s" if "i \<noteq> fr_id r" for i
    using one here
  proof (cases rule: terminalize_cases)
    case 2
    have "get_run (fr_id x) s = Some r" using here 2(3) by simp
    then show ?thesis using write_get [OF 2(4)] 2(3) that by simp
  qed simp
  have others: "\<forall>y\<in>set rs. get_run (fr_id y) s1 = Some y"
    using Cons.prems(3,4) frame by (auto simp: image_iff)
  have "moves automatic_edges s1 s' \<and> (\<forall>i. get_run i s1 = None \<longrightarrow> get_run i s' = None)"
    using Cons.IH [OF rest moves_keep_ok [OF m Cons.prems(2)] _ others] Cons.prems(3) by simp
  moreover have "get_run i s1 = None" if "get_run i s = None" for i
    using that frame [of i] here by (cases "i = fr_id r") auto
  ultimately show ?case using moves_trans [OF automatic_composes m] by blast
qed

lemma create_generation_result:
  assumes "create_generation E t a payload q k s = Inr (x, s')"
  obtains s1 s2 where "supersede_all E t k (filter (\<lambda>r. fr_account r = ma_pk a \<and> active_run r) (fd_runs s)) s = Inr s1"
    "insert_run x s1 = Inr s2" "s' = tag_listings a k s2"
    "x = new_run E t k a payload q (length (filter (unpublished a) (fd_listings s)))"
    "length (filter (unpublished a) (fd_listings s)) \<le> max_generation_listings"
    "\<forall>r\<in>set (fd_runs s). fr_account r = ma_pk a \<longrightarrow> fr_state r \<noteq> Outcome_Uncertain"
  using assms by (auto simp: create_generation_def Let_def bind_ok_Inr_iff list_ex_iff split: if_splits)

lemma active_rows_here:
  assumes "runs_ok s"
  shows "distinct (map fr_id (filter p (fd_runs s)))" "\<forall>r\<in>set (filter p (fd_runs s)). get_run (fr_id r) s = Some r"
  using assms run_here by (auto simp: runs_ok_def distinct_map_filter)

lemma create_generation_moves:
  assumes "create_generation E t a payload q k s = Inr (x, s')" "runs_ok s" "get_run k s = None"
  shows "moves automatic_edges s s'"
  using assms(1)
proof (rule create_generation_result)
  fix s1 s2
  assume c: "supersede_all E t k (filter (\<lambda>r. fr_account r = ma_pk a \<and> active_run r) (fd_runs s)) s = Inr s1"
    "insert_run x s1 = Inr s2" "s' = tag_listings a k s2"
    "x = new_run E t k a payload q (length (filter (unpublished a) (fd_listings s)))"
  have m: "moves automatic_edges s s1 \<and> (\<forall>i. get_run i s = None \<longrightarrow> get_run i s1 = None)"
    by (rule supersede_all_moves [OF c(1) assms(2) active_rows_here [OF assms(2)]])
  have "fr_id x = k" using c(4) by (simp add: new_run_def)
  then have "moves automatic_edges s1 s2" using moves_insert [OF c(2)] m assms(3) by simp
  then have "moves automatic_edges s s2" using moves_trans [OF automatic_composes] m by blast
  moreover have "fd_runs s' = fd_runs s2" using c(3) by (simp add: tag_listings_def)
  ultimately show ?thesis using moves_frame [of s s s' s2] by simp
qed

lemma create_result:
  assumes "create_or_supersede_feed_run E t account q s = Inr (x, s')"
  obtains k s0 a payload where "generation_id q s = (k, s0)" "get_market account s = Some a" "live a"
    "digest_arg True (gr_payload q) = Inr payload" "bundle_ok q"
    "get_run k s0 = Some x \<and> s' = s0 \<and> \<not> replay_objection a payload q x \<or>
     get_run k s0 = None \<and> create_generation E t a payload q k s0 = Inr (x, s')"
proof -
  obtain k s0 where k: "generation_id q s = (k, s0)" by (cases "generation_id q s")
  have "fetch_market account s0 = fetch_market account s"
    using k by (auto simp: generation_id_def fetch_market_def get_market_def split: option.splits)
  with assms k obtain a payload where a: "get_market account s = Some a" "live a"
      "digest_arg True (gr_payload q) = Inr payload" "bundle_ok q"
      "(case get_run k s0 of
               Some r \<Rightarrow> if replay_objection a payload q r then Inl Run_Conflict else Inr (r, s0)
             | None \<Rightarrow> create_generation E t a payload q k s0) = Inr (x, s')"
    by (auto simp: create_or_supersede_feed_run_def bind_ok_Inr_iff fetch_market_def split: if_splits)
  then show ?thesis using that [OF k a(1-4)] by (cases "get_run k s0") (auto split: if_splits)
qed

lemma create_moves:
  assumes "create_or_supersede_feed_run E t account q s = Inr (x, s')" "runs_ok s"
  shows "moves automatic_edges s s'"
  using assms(1)
proof (rule create_result)
  fix k s0 a payload
  assume k: "generation_id q s = (k, s0)"
    and res: "get_run k s0 = Some x \<and> s' = s0 \<and> \<not> replay_objection a payload q x \<or>
     get_run k s0 = None \<and> create_generation E t a payload q k s0 = Inr (x, s')"
  have same: "fd_runs s0 = fd_runs s" using k by (auto simp: generation_id_def split: option.splits)
  have "runs_ok s0" using assms(2) runs_ok_frame [OF same] by simp
  then have "moves automatic_edges s0 s'" using res create_generation_moves moves_refl by blast
  then show ?thesis using moves_frame [of s s0 s' s'] same by simp
qed

definition resume_edges :: "(run_phase \<times> run_phase) list" where
  "resume_edges = [(Closed_Phase, Open_Phase)]"

lemma resume_result:
  assumes "resume_failed_pre_submission_feed_run E t account k n digest s = Inr (x, s')"
  obtains r a payload where "get_run k s = Some r" "safe_pre_submission_failure E a (nat n) payload r"
    "x = reopened_run t r" "write_run x s = Inr s'" "get_market account s = Some a" "live a"
    "length (filter (\<lambda>l. unpublished a l \<and> rl_run l = Some k) (fd_listings s)) = fr_pending r" "fr_account r = ma_pk a"
  using assms
  by (auto simp: resume_failed_pre_submission_feed_run_def bind_ok_Inr_iff fetch_market_def split: if_splits option.splits)

lemma resume_moves:
  assumes "resume_failed_pre_submission_feed_run E t account k n digest s = Inr (x, s')"
  shows "moves resume_edges s s'"
  using assms
proof (rule resume_result)
  fix r a payload
  assume r: "get_run k s = Some r" "safe_pre_submission_failure E a (nat n) payload r" "x = reopened_run t r" "write_run x s = Inr s'"
  have "phase r = Closed_Phase" using r(2) by (simp add: safe_pre_submission_failure_def phase_states)
  then have "row_move resume_edges r x"
    using r(3) by (simp add: row_move_def resume_edges_def same_generation_def reopened_run_def) (simp add: phase_def)
  moreover have "get_run (fr_id x) s = Some r" using r(1,3) get_run_id [OF r(1)] by (simp add: reopened_run_def)
  ultimately show ?thesis using r(4) by (intro moves_write)
qed

definition operator_edges :: "(run_phase \<times> run_phase) list" where
  "operator_edges = [(On_Hold, In_Flight), (On_Hold, Closed_Phase)]"

lemma reconcile_result:
  assumes "reconcile_uncertain_feed_run E t k n res p tomb s = Inr (x, s')"
  obtains r where "get_run k s = Some r" "fr_state r = Outcome_Uncertain" "fr_submitted r \<noteq> None" "fr_revision r = nat n"
    "x = not_accepted_row t r \<or> (\<exists>u. x = accepted_row t u r)" "write_run x s = Inr s'"
  using assms
  by (auto simp: reconcile_uncertain_feed_run_def bind_ok_Inr_iff split: if_splits option.splits)

lemma reconcile_moves:
  assumes "reconcile_uncertain_feed_run E t k n res p tomb s = Inr (x, s')"
  shows "moves operator_edges s s'"
  using assms
proof (rule reconcile_result)
  fix r assume r: "get_run k s = Some r" "fr_state r = Outcome_Uncertain"
    "x = not_accepted_row t r \<or> (\<exists>u. x = accepted_row t u r)" "write_run x s = Inr s'"
  have "phase r = On_Hold" using r(2) by (simp add: phase_states)
  then have "row_move operator_edges r x"
    using r(3) by (auto simp: row_move_def operator_edges_def same_generation_def not_accepted_row_def accepted_row_def)
      (simp_all add: phase_def)
  moreover have "get_run (fr_id x) s = Some r"
    using r(1,3) get_run_id [OF r(1)] by (auto simp: not_accepted_row_def accepted_row_def)
  ultimately show ?thesis using r(4) by (intro moves_write)
qed

definition rejection_edges :: "(run_phase \<times> run_phase) list" where
  "rejection_edges = [(In_Flight, Open_Phase)]"

lemma clear_moves:
  assumes "clear_rejected_feed_submission_boundary t c s = Inr (d, s')"
  shows "moves rejection_edges s s'"
proof -
  obtain r where r: "get_run (fr_id (cl_run c)) s = Some r" "fr_state r = Submit_Unknown" "write_run (cleared_row r) s = Inr s'"
    using assms by (auto simp: clear_rejected_feed_submission_boundary_def bind_ok_Inr_iff claim_matches_def
        split: if_splits option.splits)
  have "phase r = In_Flight" using r(2) by (simp add: phase_states)
  then have "row_move rejection_edges r (cleared_row r)"
    by (simp add: row_move_def rejection_edges_def same_generation_def cleared_row_def) (simp add: phase_def)
  moreover have "get_run (fr_id (cleared_row r)) s = Some r" using r(1) get_run_id [OF r(1)] by (simp add: cleared_row_def)
  ultimately show ?thesis using r(3) by (intro moves_write)
qed

section \<open>Steps under a claim\<close>

lemma lock_claimed_result:
  assumes "lock_claimed_run E t c allowed s = Inr r"
  shows "get_run (fr_id (cl_run c)) s = Some r" "claim_matches c t r" "fr_state r \<in> set allowed"
  using assms by (auto simp: lock_claimed_run_def split: option.splits if_splits)

lemma transition_result:
  assumes "transition_claimed t c f s = Inr (x, s')"
  obtains r where "get_run (fr_id (cl_run c)) s = Some r" "claim_matches c t r" "x = released (f r)" "write_run x s = Inr s'"
  using assms by (auto simp: transition_claimed_def bind_ok_Inr_iff split: option.splits if_splits)

lemma released_sel [simp]:
  "fr_id (released r) = fr_id r" "fr_state (released r) = fr_state r" "fr_revision (released r) = fr_revision r + 1"
  "same_generation q (released r) = same_generation q r" "phase (released r) = phase r"
  "fr_submitted (released r) = fr_submitted r" "fr_token (released r) = None" "fr_until (released r) = None"
  by (simp_all add: released_def same_generation_def phase_def)

text \<open>A step whose updates keep the identity and follow an edge.\<close>

lemma transition_moves:
  assumes "transition_claimed t c f s = Inr (x, s')"
    "\<And>r. get_run (fr_id (cl_run c)) s = Some r \<Longrightarrow>
       same_generation r (f r) \<and> fr_revision (f r) = fr_revision r \<and> (phase r, phase (f r)) \<in> set edges"
  shows "moves edges s s'"
  using assms(1)
proof (rule transition_result)
  fix r assume r: "get_run (fr_id (cl_run c)) s = Some r" "x = released (f r)" "write_run x s = Inr s'"
  have "row_move edges r x" using assms(2) [OF r(1)] by (simp add: row_move_def r(2))
  moreover have "get_run (fr_id x) s = Some r"
    using r(1,2) assms(2) [OF r(1)] get_run_id [OF r(1)] by (simp add: same_generation_def)
  ultimately show ?thesis using r(3) by (intro moves_write)
qed

text \<open>The same after the row was locked: \<open>r\<close> is the locked row.\<close>

lemma locked_moves:
  assumes "lock_claimed_run E t c allowed s0 = Inr r" "transition_claimed t c f s = Inr (x, s')" "fd_runs s = fd_runs s0"
    "fr_state r \<in> set allowed \<Longrightarrow>
       same_generation r (f r) \<and> fr_revision (f r) = fr_revision r \<and> (phase r, phase (f r)) \<in> set edges"
  shows "moves edges s0 s'"
proof -
  note l = lock_claimed_result [OF assms(1)]
  have "get_run (fr_id (cl_run c)) s = Some r" using l(1) assms(3) by (simp add: get_run_def)
  then have "moves edges s s'" using assms(4) [OF l(3)] by (intro transition_moves [OF assms(2)]) simp
  then show ?thesis using moves_frame [of s0 s s' s'] assms(3) by simp
qed

definition settle_edges :: "(run_phase \<times> run_phase) list" where
  "settle_edges = (In_Flight, Closed_Phase) # automatic_edges"

lemmas edges = automatic_edges_def submission_edges_def settle_edges_def

lemma submitted_moves:
  assumes "mark_feed_submitted E t c digest p u again s = Inr (x, s')"
  shows "moves submission_edges s s'"
proof -
  obtain r f where r: "lock_claimed_run E t c [Preparing, Submit_Unknown, Retry_Wait] s = Inr r"
      and w: "transition_claimed t c f s = Inr (x, s')"
      and f: "\<And>x. same_generation x (f x) \<and> fr_revision (f x) = fr_revision x \<and> phase (f x) = In_Flight"
    using assms by (auto simp: mark_feed_submitted_def bind_ok_Inr_iff same_generation_def phase_def)
  show ?thesis by (rule locked_moves [OF r w refl]) (use f in \<open>auto simp: edges phase_def\<close>)
qed

lemma unknown_moves:
  assumes "mark_feed_submission_unknown E t c u again e s = Inr (x, s')"
  shows "moves submission_edges s s'"
proof -
  obtain r f where r: "lock_claimed_run E t c [Preparing, Submit_Unknown] s = Inr r"
      and w: "transition_claimed t c f s = Inr (x, s')"
      and f: "\<And>x. same_generation x (f x) \<and> fr_revision (f x) = fr_revision x \<and> phase (f x) = In_Flight"
    using assms by (auto simp: mark_feed_submission_unknown_def bind_ok_Inr_iff same_generation_def phase_def split: if_splits)
  show ?thesis by (rule locked_moves [OF r w refl]) (use f in \<open>auto simp: edges phase_def\<close>)
qed

lemma observation_moves:
  assumes "record_provider_run_observation E t c p again s = Inr (x, s')"
  shows "moves automatic_edges s s'"
proof -
  obtain r f where r: "lock_claimed_run E t c [Polling, Submit_Unknown] s = Inr r"
      and w: "transition_claimed t c f s = Inr (x, s')"
      and f: "\<And>x. same_generation x (f x) \<and> fr_revision (f x) = fr_revision x \<and> phase (f x) = In_Flight"
    using assms by (auto simp: record_provider_run_observation_def bind_ok_Inr_iff same_generation_def phase_def split: if_splits)
  show ?thesis by (rule locked_moves [OF r w refl]) (use f in \<open>auto simp: edges phase_def\<close>)
qed

lemma counter_values_keeps:
  assumes "counter_values r p j d = Inr f"
  shows "same_generation x (f x)" "fr_revision (f x) = fr_revision x" "fr_state (f x) = fr_state x" "fr_id (f x) = fr_id x"
  using assms by (auto simp: counter_values_def Let_def same_generation_def split: if_splits)

lemma recomputed_keeps:
  assumes "recomputed_counters r s = Inr f"
  shows "same_generation x (f x)" "fr_revision (f x) = fr_revision x" "fr_state (f x) = fr_state x" "fr_id (f x) = fr_id x"
  using assms by (auto simp: recomputed_counters_def Let_def same_generation_def split: if_splits)

lemmas generation_sel = same_generation_def

lemma poll_step_moves:
  assumes "complete_poll_step E t c k ds again s = Inr (x, s')"
  shows "moves automatic_edges s s'"
proof -
  obtain p j d where ds: "ds = (p, j, d)" by (cases ds)
  obtain r g where r: "lock_claimed_run E t c [Polling] s = Inr r" and g: "counter_values r p j d = Inr g"
      and w: "transition_claimed t c (\<lambda>x. (g x)\<lparr>fr_cursor := k, fr_next := Some again, fr_error := []\<rparr>) s = Inr (x, s')"
    using assms by (auto simp: complete_poll_step_def bind_ok_Inr_iff ds split: if_splits)
  show ?thesis
    by (rule locked_moves [OF r w refl]) (use counter_values_keeps [OF g, of r] in \<open>auto simp: edges phase_def generation_sel\<close>)
qed

lemma save_listings_runs: "save_listings ls s = Inr s' \<Longrightarrow> fd_runs s' = fd_runs s"
  by (auto simp: save_listings_def Let_def split: if_splits)

lemma log_sync_runs [simp]: "fd_runs (log_sync es s) = fd_runs s"
  by (simp add: log_sync_def)

lemma advance_status_runs [simp]: "fd_runs (advance_status_batch k u s) = fd_runs s"
  by (simp add: advance_status_batch_def)

lemma moves_target: "moves edges s s' \<Longrightarrow> fd_runs s'' = fd_runs s' \<Longrightarrow> moves edges s s''"
  using moves_frame [of s s s'' s'] by simp

text \<open>The parts of a poll page that was applied.\<close>

lemma poll_page_result:
  assumes "apply_poll_page E t c ids vs k again s = Inr (res, s')"
  obtains r external page changed s1 g x s2
  where "poll_listing_ids ids" "k = last ids" "resolved_external_ids ids vs = Inr external"
    "lock_claimed_run E t c [Polling] s = Inr r" "fr_cursor r = fr_cursor (cl_run c)"
    "page = poll_page max_poll_batch_size (\<lambda>l. awaiting r l \<and> rl_tenant l = fr_tenant r) (fr_cursor r) s"
    "map rl_pk page = ids" "changed = newly_published t external page" "save_listings changed s = Inr s1"
    "counter_values r (int (length changed)) 0 0 = Inr g"
    "transition_claimed t c (\<lambda>x. (g x)\<lparr>fr_cursor := k, fr_next := Some again, fr_error := []\<rparr>)
       (log_sync (map (published_entry r) changed) s1) = Inr (x, s2)"
    "res = \<lparr>pg_run = x, pg_changed = map rl_pk changed, pg_published = length changed, pg_rejected = 0\<rparr>"
    "s' = (if changed = [] then s2 else advance_status_batch (fr_account r) (t + published_status_recheck_delay) s2)"
  using assms by (auto simp: apply_poll_page_def bind_ok_Inr_iff Let_def split: if_splits)

lemma poll_page_moves:
  assumes "apply_poll_page E t c ids vs k again s = Inr (res, s')"
  shows "moves automatic_edges s s'"
  using assms
proof (rule poll_page_result)
  fix r changed s1 g x s2
  assume r: "lock_claimed_run E t c [Polling] s = Inr r" and sv: "save_listings changed s = Inr s1"
    and g: "counter_values r (int (length changed)) 0 0 = Inr g"
    and w: "transition_claimed t c (\<lambda>x. (g x)\<lparr>fr_cursor := k, fr_next := Some again, fr_error := []\<rparr>)
       (log_sync (map (published_entry r) changed) s1) = Inr (x, s2)"
    and s': "s' = (if changed = [] then s2 else advance_status_batch (fr_account r) (t + published_status_recheck_delay) s2)"
  have "moves automatic_edges s s2"
    by (rule locked_moves [OF r w])
      (use counter_values_keeps [OF g, of r] save_listings_runs [OF sv] in \<open>auto simp: edges phase_def generation_sel\<close>)
  then show ?thesis using s' by (elim moves_target) simp
qed

text \<open>An update that keeps the state as well.\<close>

definition quiet_update :: "(feed_run \<Rightarrow> feed_run) \<Rightarrow> bool" where
  "quiet_update f \<longleftrightarrow> (\<forall>x. same_generation x (f x) \<and> fr_revision (f x) = fr_revision x \<and> fr_state (f x) = fr_state x)"

lemma quiet_moves:
  assumes "lock_claimed_run E t c allowed s = Inr r" "transition_claimed t c f s = Inr (x, s')" "quiet_update f"
    "\<forall>st\<in>set allowed. st \<in> set active_run_states"
  shows "moves automatic_edges s s'"
proof (rule locked_moves [OF assms(1,2) refl])
  assume "fr_state r \<in> set allowed"
  then have "phase r = Open_Phase \<or> phase r = In_Flight" using assms(4) by (auto simp: active_phase [symmetric] active_run_def)
  moreover have "phase (f r) = phase r" using assms(3) by (simp add: quiet_update_def phase_def)
  ultimately show "same_generation r (f r) \<and> fr_revision (f r) = fr_revision r \<and> (phase r, phase (f r)) \<in> set automatic_edges"
    using assms(3) by (auto simp: quiet_update_def edges)
qed

lemma retry_moves:
  assumes "retry_step E t c again e b d s = Inr (x, s')"
  shows "moves automatic_edges s s'"
proof -
  obtain r f where r: "lock_claimed_run E t c active_run_states s = Inr r"
      and w: "transition_claimed t c f s = Inr (x, s')" and f: "quiet_update f"
    using assms by (auto simp: retry_step_def bind_ok_Inr_iff quiet_update_def same_generation_def split: if_splits)
  show ?thesis by (rule quiet_moves [OF r w f]) simp
qed

lemma reset_moves:
  assumes "reset_poll_round E t c again s = Inr (x, s')"
  shows "moves automatic_edges s s'"
proof -
  obtain r f where r: "lock_claimed_run E t c [Polling] s = Inr r"
      and w: "transition_claimed t c f s = Inr (x, s')" and f: "quiet_update f"
    using assms by (auto simp: reset_poll_round_def bind_ok_Inr_iff quiet_update_def same_generation_def split: if_splits)
  show ?thesis by (rule quiet_moves [OF r w f]) (simp add: active_run_states_def)
qed

lemma advance_moves:
  assumes "advance_report_page E t c k ds again s = Inr (x, s')"
  shows "moves automatic_edges s s'"
proof -
  obtain p j d where ds: "ds = (p, j, d)" by (cases ds)
  obtain r g where r: "lock_claimed_run E t c [Reporting] s = Inr r" and g: "counter_values r p j d = Inr g"
      and w: "transition_claimed t c (\<lambda>x. (g x)\<lparr>fr_page := k + 1, fr_report_attempt := 0, fr_next := Some again, fr_error := []\<rparr>) s = Inr (x, s')"
    using assms by (auto simp: advance_report_page_def bind_ok_Inr_iff ds split: if_splits)
  have "quiet_update (\<lambda>x. (g x)\<lparr>fr_page := k + 1, fr_report_attempt := 0, fr_next := Some again, fr_error := []\<rparr>)"
    using counter_values_keeps [OF g] by (simp add: quiet_update_def generation_sel)
  then show ?thesis by (rule quiet_moves [OF r w]) (simp add: active_run_states_def)
qed

lemma reporting_moves:
  assumes "start_reporting E t c again p s = Inr (x, s')"
  shows "moves automatic_edges s s'"
proof -
  obtain r f where r: "lock_claimed_run E t c [Polling] s = Inr r"
      and w: "transition_claimed t c f s = Inr (x, s')"
      and f: "\<And>x. same_generation x (f x) \<and> fr_revision (f x) = fr_revision x \<and> phase (f x) = In_Flight"
    using assms by (auto simp: start_reporting_def bind_ok_Inr_iff Let_def same_generation_def phase_def split: if_splits)
  show ?thesis by (rule locked_moves [OF r w refl]) (use f in \<open>auto simp: edges phase_def\<close>)
qed

lemma finish_result:
  assumes "finish_feed_run E t c st e b s = Inr (x, s')"
  obtains r g f where "lock_claimed_run E t c active_run_states s = Inr r" "recomputed_counters r s = Inr g"
    "st \<in> set finish_states" "st = Succeeded \<Longrightarrow> count_status Ls_Pending r s = 0"
    "st = Succeeded \<Longrightarrow> fr_submitted r = None \<or> fr_report_done r \<noteq> None"
    "f = (\<lambda>x. (g x)\<lparr>fr_state := st, fr_next := None, fr_error := clean_error e, fr_finished := Some t,
             fr_reconciles := (if b then fr_reconciles r + 1 else fr_reconciles x)\<rparr>)"
    "transition_claimed t c f s = Inr (x, s')"
  using assms by (auto simp: finish_feed_run_def bind_ok_Inr_iff split: if_splits)

lemma finish_run_moves:
  assumes "finish_feed_run E t c st e b s = Inr (x, s')"
  shows "moves settle_edges s s'"
  using assms
proof (rule finish_result)
  fix r g f
  assume r: "lock_claimed_run E t c active_run_states s = Inr r" and g: "recomputed_counters r s = Inr g"
    and st: "st \<in> set finish_states"
    and f: "f = (\<lambda>x. (g x)\<lparr>fr_state := st, fr_next := None, fr_error := clean_error e, fr_finished := Some t,
             fr_reconciles := (if b then fr_reconciles r + 1 else fr_reconciles x)\<rparr>)"
    and w: "transition_claimed t c f s = Inr (x, s')"
  show ?thesis
  proof (rule locked_moves [OF r w refl])
    assume "fr_state r \<in> set active_run_states"
    then have "phase r = Open_Phase \<or> phase r = In_Flight" by (simp add: active_phase [symmetric] active_run_def)
    moreover have "phase (f r) = On_Hold \<or> phase (f r) = Closed_Phase"
      using st by (auto simp: finish_states_def phase_def f)
    ultimately have "(phase r, phase (f r)) \<in> set settle_edges" by (auto simp: edges)
    moreover have "same_generation r (f r)" "fr_revision (f r) = fr_revision r"
      using recomputed_keeps(1,2) [OF g, of r] by (simp_all add: f generation_sel)
    ultimately show "same_generation r (f r) \<and> fr_revision (f r) = fr_revision r \<and> (phase r, phase (f r)) \<in> set settle_edges"
      by blast
  qed
qed

text \<open>The parts of a report page that was applied.\<close>

lemma report_page_result:
  assumes "apply_report_page E t c q s = Inr (res, s')"
  obtains r errors external changed rejected published s1 g x s2
  where "report_page_ok q" "report_errors E (rp_errors q) = Inr errors" "report_external_ids E (rp_external q) = Inr external" "outcomes_ok errors external"
    "lock_claimed_run E t c [Reporting] s = Inr r" "rp_page q = fr_page r" "rp_page q = fr_page (cl_run c)"
    "changed = List.map_filter (reported_listing t (map_of errors) (map_of external))
                    (reported_rows r (map fst errors @ map fst external) s)"
    "rejected = filter (\<lambda>l. rl_status l = Ls_Rejected) changed"
    "published = filter (\<lambda>l. rl_status l = Ls_Active) changed"
    "save_listings changed s = Inr s1"
    "report_updates t q r (length published) (length rejected) s1 = Inr g"
    "transition_claimed t c g
       (log_sync (map (rejected_entry r) rejected @ map (published_entry r) published) s1) = Inr (x, s2)"
    "res = \<lparr>pg_run = x, pg_changed = map rl_pk changed, pg_published = length published, pg_rejected = length rejected\<rparr>"
    "s' = (if published = [] then s2 else advance_status_batch (fr_account r) (t + published_status_recheck_delay) s2)"
  using assms by (auto simp: apply_report_page_def bind_ok_Inr_iff Let_def split: if_splits)

lemma counters_quiet:
  "counter_values r p j d = Inr g \<Longrightarrow> quiet_update g" "recomputed_counters r s = Inr g \<Longrightarrow> quiet_update g"
  by (simp_all add: quiet_update_def counter_values_keeps recomputed_keeps)

lemma report_updates_keeps:
  assumes "report_updates t q r p j s = Inr f" "fr_state x = Reporting"
  shows "same_generation x (f x) \<and> fr_revision (f x) = fr_revision x \<and> fr_state (f x) \<in> {Reporting, Polling, Succeeded}"
proof -
  obtain g where "quiet_update g" and
    "f = (\<lambda>x. (g x)\<lparr>fr_page := the (rp_next q), fr_report_attempt := 0, fr_next := rp_again q, fr_error := []\<rparr>) \<or>
     f = (\<lambda>x. (g x)\<lparr>fr_state := Succeeded, fr_next := None, fr_report_attempt := 0,
                 fr_report_done := Some t, fr_error := [], fr_finished := Some t\<rparr>) \<or>
     f = (\<lambda>x. (g x)\<lparr>fr_state := Polling, fr_cursor := 0, fr_round := fr_round r + 1, fr_page := 1,
                 fr_report_attempt := 0, fr_report_done := Some t, fr_next := Some (t + unresolved_poll_retry_delay),
                 fr_error := [], fr_finished := None\<rparr>) \<or>
     f = (\<lambda>x. (g x)\<lparr>fr_state := Reporting, fr_page := 1, fr_report_attempt := 0,
                 fr_report_done := None, fr_next := rp_again q, fr_error := [], fr_finished := None\<rparr>)"
    using assms(1)
    by (auto simp: report_updates_def bind_ok_Inr_iff split: option.splits if_splits dest: counters_quiet)
  then show ?thesis using assms(2) by (auto simp: quiet_update_def generation_sel)
qed

lemma report_page_moves:
  assumes "apply_report_page E t c q s = Inr (res, s')"
  shows "moves settle_edges s s'"
  using assms
proof (rule report_page_result)
  fix r changed rejected published s1 g x s2
  assume r: "lock_claimed_run E t c [Reporting] s = Inr r" and sv: "save_listings changed s = Inr s1"
    and g: "report_updates t q r (length published) (length rejected) s1 = Inr g"
    and w: "transition_claimed t c g
       (log_sync (map (rejected_entry r) rejected @ map (published_entry r) published) s1) = Inr (x, s2)"
    and s': "s' = (if published = [] then s2 else advance_status_batch (fr_account r) (t + published_status_recheck_delay) s2)"
  have "moves settle_edges s s2"
  proof (rule locked_moves [OF r w])
    assume "fr_state r \<in> set [Reporting]"
    then have "fr_state r = Reporting" by simp
    with report_updates_keeps [OF g this] show "same_generation r (g r) \<and> fr_revision (g r) = fr_revision r \<and> (phase r, phase (g r)) \<in> set settle_edges"
      by (auto simp: phase_def edges)
  qed (simp add: save_listings_runs [OF sv])
  then show ?thesis using s' by (elim moves_target) simp
qed

end
