(* ===== verification/Feed_Run_Steps.thy ===== *)
theory Feed_Run_Steps
  imports Feed_Run_Moves
begin

text \<open>
  The operations of the feed workflow as labelled steps, and the life cycle they follow: whatever the
  callers do and in whatever order, a step changes a run only along an edge allowed to its kind.
\<close>

section \<open>Operations\<close>

text \<open>
  One transaction each, with arbitrary arguments; a worker's operation carries the claim it holds,
  which may be out of date. \<open>Outside\<close> is anything the rest of the service does to accounts, listings
  and upload attempts between two transactions.
\<close>

datatype run_op =
    Create instant nat generation_request
  | Resume instant nat uuid int string
  | Claim_Account instant int nat "uuid option" "nat option"
  | Claim_Due instant int nat "marketplace option" "nat list"
  | Cancel_Inactive instant nat
  | Owner_Change instant nat string run_state submitted_policy
  | Supersede_Run instant uuid "nat option" string
  | Validate_Owner instant feed_claim
  | Persist_Boundary instant string instant feed_claim
  | Clear_Rejected instant feed_claim
  | Mark_Submitted instant feed_claim string "string option" instant instant
  | Mark_Unknown instant feed_claim instant instant string
  | Observe_Run instant feed_claim string instant
  | Poll_Step instant feed_claim nat "int \<times> int \<times> int" instant
  | Poll_Page instant feed_claim "nat list" "(nat \<times> string) list" nat instant
  | Retry_Step instant feed_claim instant string bool bool
  | Reset_Round instant feed_claim instant
  | Start_Report instant feed_claim instant "string option"
  | Advance_Page instant feed_claim nat "int \<times> int \<times> int" instant
  | Report_Page instant feed_claim report_page
  | Finish_Run instant feed_claim run_state string bool
  | Reconcile_Run instant uuid int resolution "string option" bool
  | Outside "market_account list" "run_listing list" "uuid list"

text \<open>What a transaction leaves behind.\<close>

definition commit :: "feed_error + 'a \<times> feeds \<Rightarrow> feeds \<Rightarrow> feeds" where
  "commit res s = (case res of Inl _ \<Rightarrow> s | Inr (_, s') \<Rightarrow> s')"

fun perform_run :: "feed_env \<Rightarrow> run_op \<Rightarrow> feeds \<Rightarrow> feeds" where
  "perform_run E (Create t k q) s = commit (create_or_supersede_feed_run E t k q s) s"
| "perform_run E (Resume t k g n d) s = commit (resume_failed_pre_submission_feed_run E t k g n d s) s"
| "perform_run E (Claim_Account t dur k g n) s = commit (claim_due_run_for_account E t dur k g n s) s"
| "perform_run E (Claim_Due t dur n m locked) s = commit (claim_due_runs E t dur n m locked s) s"
| "perform_run E (Cancel_Inactive t n) s = snd (cancel_feed_runs_for_inactive_owners t n s)"
| "perform_run E (Owner_Change t k e st policy) s = commit (fence_account_feed_runs_for_owner_change t k e st policy s) s"
| "perform_run E (Supersede_Run t k n e) s = commit (supersede_feed_run t k n e s) s"
| "perform_run E (Validate_Owner t c) s = commit (validate_feed_submission_owner E t c s) s"
| "perform_run E (Persist_Boundary t p u c) s = commit (persist_feed_submission_boundary E t p u c s) s"
| "perform_run E (Clear_Rejected t c) s = commit (clear_rejected_feed_submission_boundary t c s) s"
| "perform_run E (Mark_Submitted t c d p u again) s = commit (mark_feed_submitted E t c d p u again s) s"
| "perform_run E (Mark_Unknown t c u again e) s = commit (mark_feed_submission_unknown E t c u again e s) s"
| "perform_run E (Observe_Run t c p again) s = commit (record_provider_run_observation E t c p again s) s"
| "perform_run E (Poll_Step t c k ds again) s = commit (complete_poll_step E t c k ds again s) s"
| "perform_run E (Poll_Page t c ids vs k again) s = commit (apply_poll_page E t c ids vs k again s) s"
| "perform_run E (Retry_Step t c again e b d) s = commit (retry_step E t c again e b d s) s"
| "perform_run E (Reset_Round t c again) s = commit (reset_poll_round E t c again s) s"
| "perform_run E (Start_Report t c again p) s = commit (start_reporting E t c again p s) s"
| "perform_run E (Advance_Page t c k ds again) s = commit (advance_report_page E t c k ds again s) s"
| "perform_run E (Report_Page t c q) s = commit (apply_report_page E t c q s) s"
| "perform_run E (Finish_Run t c st e b) s = commit (finish_feed_run E t c st e b s) s"
| "perform_run E (Reconcile_Run t k n res p tomb) s = commit (reconcile_uncertain_feed_run E t k n res p tomb s) s"
| "perform_run E (Outside as ls us) s = s\<lparr>fd_accounts := as, fd_listings := ls, fd_uploads := us\<rparr>"

definition perform_runs :: "feed_env \<Rightarrow> run_op list \<Rightarrow> feeds \<Rightarrow> feeds" where
  "perform_runs E ops s = fold (perform_run E) ops s"

lemma perform_runs_simps [simp]:
  "perform_runs E [] s = s" "perform_runs E (op # ops) s = perform_runs E ops (perform_run E op s)"
  by (simp_all add: perform_runs_def)

section \<open>The life cycle\<close>

text \<open>The edges an operation may follow.\<close>

fun allowed_edges :: "run_op \<Rightarrow> (run_phase \<times> run_phase) list" where
  "allowed_edges (Resume _ _ _ _ _) = resume_edges"
| "allowed_edges (Persist_Boundary _ _ _ _) = submission_edges"
| "allowed_edges (Mark_Submitted _ _ _ _ _ _) = submission_edges"
| "allowed_edges (Mark_Unknown _ _ _ _ _) = submission_edges"
| "allowed_edges (Clear_Rejected _ _) = rejection_edges"
| "allowed_edges (Report_Page _ _ _) = settle_edges"
| "allowed_edges (Finish_Run _ _ _ _ _) = settle_edges"
| "allowed_edges (Reconcile_Run _ _ _ _ _ _) = operator_edges"
| "allowed_edges _ = automatic_edges"

lemma commit_moves:
  assumes "\<And>x s'. res = Inr (x, s') \<Longrightarrow> moves edges s s'"
  shows "moves edges s (commit res s)"
  using assms by (auto simp: commit_def moves_refl split: sum.split)

lemma validate_moves:
  assumes "validate_feed_submission_owner E t c s = Inr (b, s')"
  shows "moves automatic_edges s s'"
  using assms preflight_moves by (auto simp: validate_feed_submission_owner_def bind_ok_Inr_iff)

lemma claim_batch_moves:
  assumes "claim_due_runs E t dur n m locked s = Inr (cs, s')" "runs_ok s"
  shows "moves automatic_edges s s'"
  using assms claim_each_moves by (auto simp: claim_due_runs_def split: if_splits)

lemma cancel_batch_moves: "moves automatic_edges s (snd (cancel_feed_runs_for_inactive_owners t n s))"
  using cancel_each_moves [of t "inactive_owner_runs n s" s]
  by (simp add: cancel_feed_runs_for_inactive_owners_def moves_refl prod_eq_iff)

lemmas op_moves = create_moves resume_moves claim_due_moves claim_batch_moves owner_change_moves supersede_moves
  validate_moves boundary_moves clear_moves submitted_moves unknown_moves observation_moves poll_step_moves
  poll_page_moves retry_moves reset_moves reporting_moves advance_moves report_page_moves finish_run_moves reconcile_moves

lemma perform_moves:
  assumes "runs_ok s"
  shows "moves (allowed_edges op) s (perform_run E op s)"
proof (cases op)
  case (Cancel_Inactive t n)
  then show ?thesis using cancel_batch_moves by simp
next
  case (Outside as ls us)
  then show ?thesis by (simp add: moves_same)
qed (use assms in \<open>auto intro!: commit_moves intro: op_moves\<close>)

end
