(* ===== verification/Feed_Run_Safety.thy ===== *)
theory Feed_Run_Safety
  imports Feed_Run_Steps
begin

text \<open>
  What the feed workflow guarantees whatever its callers do and in whatever order: every operation
  follows the life cycle allowed to it, a request to the provider is authorised only while nothing
  of the account may be in flight, a worker that lost its claim changes nothing, and an account has
  one owner.
\<close>

section \<open>Traces\<close>

lemma perform_keeps_ok: "runs_ok s \<Longrightarrow> runs_ok (perform_run E op s)"
  using perform_moves moves_keep_ok by blast

lemma trace_keeps_ok: "runs_ok s \<Longrightarrow> runs_ok (perform_runs E ops s)"
  by (induction ops arbitrary: s) (simp_all add: perform_keeps_ok)

lemma perform_row:
  assumes "runs_ok s" "get_run k s = Some r"
  obtains x where "get_run k (perform_run E op s) = Some x" "x = r \<or> row_move (allowed_edges op) r x"
  using moves_row [OF perform_moves [OF assms(1)] assms(2)] by blast

text \<open>A revision is never taken back.\<close>

lemma trace_revision:
  assumes "runs_ok s" "get_run k s = Some r"
  obtains x where "get_run k (perform_runs E ops s) = Some x" "fr_revision r \<le> fr_revision x" "same_generation r x"
  using assms
proof (induction ops arbitrary: s r thesis)
  case Nil
  then show ?case by simp
next
  case (Cons op ops)
  obtain y where y: "get_run k (perform_run E op s) = Some y" "y = r \<or> row_move (allowed_edges op) r y"
    using Cons.prems(2,3) by (rule perform_row)
  have le: "fr_revision r \<le> fr_revision y" "same_generation r y" using y(2) by (auto simp: row_move_def)
  obtain x where "get_run k (perform_runs E ops (perform_run E op s)) = Some x" "fr_revision y \<le> fr_revision x" "same_generation y x"
    using Cons.IH [OF _ perform_keeps_ok [OF Cons.prems(2)] y(1)] by blast
  then show ?case using Cons.prems(1) le same_generation_trans by fastforce
qed

section \<open>The steps of a claim\<close>

fun claim_of :: "run_op \<Rightarrow> (instant \<times> feed_claim) option" where
  "claim_of (Validate_Owner t c) = Some (t, c)"
| "claim_of (Persist_Boundary t _ _ c) = Some (t, c)"
| "claim_of (Clear_Rejected t c) = Some (t, c)"
| "claim_of (Mark_Submitted t c _ _ _ _) = Some (t, c)"
| "claim_of (Mark_Unknown t c _ _ _) = Some (t, c)"
| "claim_of (Observe_Run t c _ _) = Some (t, c)"
| "claim_of (Poll_Step t c _ _ _) = Some (t, c)"
| "claim_of (Poll_Page t c _ _ _ _) = Some (t, c)"
| "claim_of (Retry_Step t c _ _ _ _) = Some (t, c)"
| "claim_of (Reset_Round t c _) = Some (t, c)"
| "claim_of (Start_Report t c _ _) = Some (t, c)"
| "claim_of (Advance_Page t c _ _ _) = Some (t, c)"
| "claim_of (Report_Page t c _) = Some (t, c)"
| "claim_of (Finish_Run t c _ _ _) = Some (t, c)"
| "claim_of _ = None"

text \<open>The row no longer carries the claim, or its lease is over.\<close>

definition claim_lost :: "instant \<Rightarrow> feed_claim \<Rightarrow> feeds \<Rightarrow> bool" where
  "claim_lost t c s \<longleftrightarrow> cl_until c \<le> t \<or>
     (case get_run (fr_id (cl_run c)) s of None \<Rightarrow> True | Some r \<Rightarrow> fr_revision r \<noteq> fr_revision (cl_run c))"

lemma lost_no_match: "claim_lost t c s \<Longrightarrow> get_run (fr_id (cl_run c)) s = Some r \<Longrightarrow> \<not> claim_matches c t r \<and> \<not> pristine_claim c t r"
  by (auto simp: claim_lost_def claim_matches_def pristine_claim_def)

lemma lost_lock:
  assumes "claim_lost t c s"
  shows "lock_claimed_run E t c allowed s = Inl Stale_Claim"
  using lost_no_match [OF assms] by (auto simp: lock_claimed_run_def split: option.split)

lemma lost_preflight:
  assumes "claim_lost t c s"
  shows "preflight E t c s = Inr (None, s)"
  using lost_no_match [OF assms] by (auto simp: preflight_def split: option.split)

lemma commit_Inl [simp]: "commit (Inl e) s = s" "commit (Inr (x, s')) s = s'"
  by (simp_all add: commit_def)

lemma commit_guard [simp]: "commit (if p then Inl e else res) s = (if p then s else commit res s)"
  by simp

lemma commit_stale: "(\<And>x s'. res = Inr (x, s') \<Longrightarrow> False) \<Longrightarrow> commit res s = s"
  by (cases res) (auto simp: commit_def)

lemma lost_clear:
  assumes "claim_lost t c s"
  shows "commit (clear_rejected_feed_submission_boundary t c s) s = s"
  using assms by (intro commit_stale)
    (auto simp: clear_rejected_feed_submission_boundary_def claim_lost_def claim_matches_def split: option.splits if_splits)

lemma lost_boundary:
  assumes "claim_lost t c s"
  shows "commit (persist_feed_submission_boundary E t p u c s) s = s"
  using lost_preflight [OF assms]
  by (cases "provider_predecessor_arg p") (simp_all add: persist_feed_submission_boundary_def)

lemma lost_claim_idle:
  assumes "claim_of op = Some (t, c)" "claim_lost t c s"
  shows "perform_run E op s = s"
proof -
  note stale = lost_lock [OF assms(2)] lost_preflight [OF assms(2)] lost_clear [OF assms(2)] lost_boundary [OF assms(2)]
  show ?thesis using assms(1)
    by (cases op)
      (auto simp: stale validate_feed_submission_owner_def mark_feed_submitted_def
        mark_feed_submission_unknown_def record_provider_run_observation_def complete_poll_step_def apply_poll_page_def
        retry_step_def reset_poll_round_def start_reporting_def advance_report_page_def apply_report_page_def
        finish_feed_run_def bind_ok_Inr_iff intro!: commit_stale split: if_splits)
qed

section \<open>What may settle a submission\<close>

text \<open>
  The provider's refusal or final answer reported by the worker that holds the run, and the decision of
  an operator that the provider did not accept it.
\<close>

fun settles :: "uuid \<Rightarrow> run_op \<Rightarrow> bool" where
  "settles k (Clear_Rejected _ c) \<longleftrightarrow> fr_id (cl_run c) = k"
| "settles k (Report_Page _ c _) \<longleftrightarrow> fr_id (cl_run c) = k"
| "settles k (Finish_Run _ c _ _ _) \<longleftrightarrow> fr_id (cl_run c) = k"
| "settles k (Reconcile_Run _ i _ res _ _) \<longleftrightarrow> i = k \<and> res = Provider_Not_Accepted"
| "settles _ _ \<longleftrightarrow> False"

lemma transition_other:
  assumes "transition_claimed t c f s = Inr (x, s')" "k \<noteq> fr_id (cl_run c)"
    "\<And>r. get_run (fr_id (cl_run c)) s = Some r \<Longrightarrow> fr_id (f r) = fr_id r"
  shows "get_run k s' = get_run k s"
  using assms(1)
proof (rule transition_result)
  fix r assume r: "get_run (fr_id (cl_run c)) s = Some r" "x = released (f r)" "write_run x s = Inr s'"
  have "fr_id x = fr_id (cl_run c)" using r(1,2) assms(3) [OF r(1)] get_run_id [OF r(1)] by simp
  then show ?thesis using write_get [OF r(3), of r k] r(1) assms(2) by simp
qed

lemma finish_other:
  assumes "finish_feed_run E t c st e b s = Inr (x, s')" "k \<noteq> fr_id (cl_run c)"
  shows "get_run k s' = get_run k s"
  using assms(1)
proof (rule finish_result)
  fix r g f
  assume g: "recomputed_counters r s = Inr g" and w: "transition_claimed t c f s = Inr (x, s')"
    and f: "f = (\<lambda>x. (g x)\<lparr>fr_state := st, fr_next := None, fr_error := clean_error e, fr_finished := Some t,
             fr_reconciles := (if b then fr_reconciles r + 1 else fr_reconciles x)\<rparr>)"
  show ?thesis using recomputed_keeps(4) [OF g] by (intro transition_other [OF w assms(2)]) (simp add: f)
qed

lemma report_other:
  assumes "apply_report_page E t c q s = Inr (res, s')" "k \<noteq> fr_id (cl_run c)"
  shows "get_run k s' = get_run k s"
  using assms(1)
proof (rule report_page_result)
  fix r changed rejected published s1 g x s2
  assume r: "lock_claimed_run E t c [Reporting] s = Inr r" and sv: "save_listings changed s = Inr s1"
    and g: "report_updates t q r (length published) (length rejected) s1 = Inr g"
    and w: "transition_claimed t c g
       (log_sync (map (rejected_entry r) rejected @ map (published_entry r) published) s1) = Inr (x, s2)"
    and s': "s' = (if published = [] then s2 else advance_status_batch (fr_account r) (t + published_status_recheck_delay) s2)"
  let ?s = "log_sync (map (rejected_entry r) rejected @ map (published_entry r) published) s1"
  have same: "get_run i ?s = get_run i s" for i by (rule get_run_frame) (simp add: save_listings_runs [OF sv])
  have "fr_id (g y) = fr_id y" if "get_run (fr_id (cl_run c)) ?s = Some y" for y
  proof -
    have "y = r" using that same lock_claimed_result(1) [OF r] by simp
    then show ?thesis using report_updates_keeps [OF g, of r] lock_claimed_result(3) [OF r] by (simp add: same_generation_def)
  qed
  then have "get_run k s2 = get_run k ?s" by (intro transition_other [OF w assms(2)])
  moreover have "get_run k s' = get_run k s2" using s' by (intro get_run_frame) simp
  ultimately show ?thesis using same by simp
qed

lemma clear_other:
  assumes "clear_rejected_feed_submission_boundary t c s = Inr (d, s')" "k \<noteq> fr_id (cl_run c)"
  shows "get_run k s' = get_run k s"
proof -
  obtain r where r: "get_run (fr_id (cl_run c)) s = Some r" "write_run (cleared_row r) s = Inr s'"
    using assms(1) by (auto simp: clear_rejected_feed_submission_boundary_def bind_ok_Inr_iff split: if_splits option.splits)
  have "fr_id (cleared_row r) = fr_id (cl_run c)" using get_run_id [OF r(1)] by (simp add: cleared_row_def)
  then show ?thesis using write_get [OF r(2), of r k] r(1) assms(2) by simp
qed

lemma reconcile_touches:
  assumes "reconcile_uncertain_feed_run E t i n res p tomb s = Inr (x, s')"
  shows "k \<noteq> i \<Longrightarrow> get_run k s' = get_run k s"
    "res = Provider_Accepted \<Longrightarrow> \<exists>y. get_run i s' = Some y \<and> phase y = In_Flight"
proof -
  obtain r where r: "get_run i s = Some r" "x = not_accepted_row t r \<or> (\<exists>u. x = accepted_row t u r)" "write_run x s = Inr s'"
    using assms by (rule reconcile_result)
  have id: "fr_id x = i" using r(1,2) get_run_id [OF r(1)] by (auto simp: not_accepted_row_def accepted_row_def)
  note g = write_get [OF r(3), of r]
  show "k \<noteq> i \<Longrightarrow> get_run k s' = get_run k s" using g [of k] id r(1) by simp
  show "\<exists>y. get_run i s' = Some y \<and> phase y = In_Flight" if "res = Provider_Accepted"
  proof -
    have "\<exists>u. x = accepted_row t u r" using assms that r(1)
      by (auto simp: reconcile_uncertain_feed_run_def resolution_arg_def bind_ok_Inr_iff split: if_splits option.splits)
    then have "phase x = In_Flight" by (auto simp: accepted_row_def phase_def)
    then show ?thesis using g [of i] id r(1) by simp
  qed
qed

text \<open>A run whose submission is not settled.\<close>

definition unsettled :: "uuid \<Rightarrow> nat \<Rightarrow> feeds \<Rightarrow> bool" where
  "unsettled k account s \<longleftrightarrow>
     (case get_run k s of None \<Rightarrow> False | Some r \<Rightarrow> fr_account r = account \<and> (phase r = In_Flight \<or> phase r = On_Hold))"

lemma unsettledI: "get_run k s = Some r \<Longrightarrow> fr_account r = account \<Longrightarrow> phase r = In_Flight \<or> phase r = On_Hold \<Longrightarrow> unsettled k account s"
  by (simp add: unsettled_def)

lemma automatic_unsettled:
  assumes "unsettled k account s" "moves submission_edges s s'"
  shows "unsettled k account s'"
proof -
  obtain r where r: "get_run k s = Some r" "fr_account r = account" "phase r = In_Flight \<or> phase r = On_Hold"
    using assms(1) by (auto simp: unsettled_def split: option.splits)
  obtain x where x: "get_run k s' = Some x" "x = r \<or> row_move submission_edges r x" using assms(2) r(1) by (rule moves_row)
  have "phase x = In_Flight \<or> phase x = On_Hold" using x(2) r(3) by (auto simp: row_move_def edges)
  moreover have "fr_account x = account" using x(2) r(2) by (auto simp: row_move_def same_generation_def)
  ultimately show ?thesis using x(1) by (intro unsettledI)
qed

lemma unsettled_frame: "get_run k s' = get_run k s \<Longrightarrow> unsettled k account s' = unsettled k account s"
  by (simp add: unsettled_def)

lemma commit_unsettled:
  assumes "unsettled k account s" "\<And>x s'. res = Inr (x, s') \<Longrightarrow> get_run k s' = get_run k s"
  shows "unsettled k account (commit res s)"
proof (cases res)
  case (Inl e)
  then show ?thesis using assms(1) by (simp add: commit_def)
next
  case (Inr y)
  then have "get_run k (snd y) = get_run k s" by (intro assms(2) [of "fst y"]) simp
  then show ?thesis using assms(1) Inr by (cases y) (simp add: commit_def unsettled_def)
qed

lemma step_unsettled:
  assumes "runs_ok s" "unsettled k account s" "\<not> settles k op"
  shows "unsettled k account (perform_run E op s)"
proof -
  have easy: ?thesis if "set (allowed_edges op) \<subseteq> set submission_edges"
    using automatic_unsettled [OF assms(2) moves_mono [OF perform_moves [OF assms(1)] that]] .
  have resume: ?thesis if "allowed_edges op = resume_edges"
  proof -
    obtain r where r: "get_run k s = Some r" "fr_account r = account" "phase r = In_Flight \<or> phase r = On_Hold"
      using assms(2) by (auto simp: unsettled_def split: option.splits)
    obtain x where x: "get_run k (perform_run E op s) = Some x" "x = r \<or> row_move (allowed_edges op) r x"
      using assms(1) r(1) by (rule perform_row)
    have "x = r" using x(2) r(3) that by (auto simp: row_move_def resume_edges_def)
    then show ?thesis using x(1) r(2,3) by (intro unsettledI) auto
  qed
  show ?thesis
  proof (cases op)
    case (Clear_Rejected t c)
    then show ?thesis using assms(2,3) clear_other by (auto intro!: commit_unsettled)
  next
    case (Report_Page t c q)
    then show ?thesis using assms(2,3) report_other by (auto intro!: commit_unsettled)
  next
    case (Finish_Run t c st e b)
    then show ?thesis using assms(2,3) finish_other by (auto intro!: commit_unsettled)
  next
    case (Reconcile_Run t i n res p tomb)
    show ?thesis
    proof (cases "k = i")
      case False
      then show ?thesis using Reconcile_Run assms(2) reconcile_touches(1) by (auto intro!: commit_unsettled)
    next
      case True
      then have "res = Provider_Accepted" using assms(3) Reconcile_Run by (cases res) auto
      obtain r where r: "get_run k s = Some r" "fr_account r = account" using assms(2) by (auto simp: unsettled_def split: option.splits)
      obtain x where x: "get_run k (perform_run E op s) = Some x" "x = r \<or> row_move (allowed_edges op) r x"
        using assms(1) r(1) by (rule perform_row)
      have acc: "fr_account x = account" using x(2) r(2) by (auto simp: row_move_def same_generation_def)
      show ?thesis
      proof (cases "reconcile_uncertain_feed_run E t i n res p tomb s")
        case (Inl e)
        then show ?thesis using assms(2) Reconcile_Run by simp
      next
        case (Inr y)
        then have "\<exists>z. get_run i (snd y) = Some z \<and> phase z = In_Flight"
          using reconcile_touches(2) \<open>res = Provider_Accepted\<close> by (metis prod.collapse)
        moreover have "perform_run E op s = snd y" using Reconcile_Run Inr by (simp add: commit_def split: prod.splits)
        ultimately show ?thesis using x(1) acc True by (intro unsettledI) auto
      qed
    qed
  qed (use easy resume in \<open>simp_all add: edges\<close>)
qed

lemma trace_unsettled:
  "runs_ok s \<Longrightarrow> unsettled k account s \<Longrightarrow> list_all (\<lambda>op. \<not> settles k op) ops \<Longrightarrow> unsettled k account (perform_runs E ops s)"
proof (induction ops arbitrary: s)
  case Nil
  then show ?case by simp
next
  case (Cons op ops)
  then show ?case using step_unsettled [OF Cons.prems(1,2)] perform_keeps_ok by simp
qed

section \<open>A sample\<close>

definition demo_feed_env :: feed_env where
  "demo_feed_env =
     \<lparr>fv_hmac = (\<lambda>_ _. ''k''), fv_decrypt = (\<lambda>_. None), fv_secret = [], fv_unescape = id, fv_uuid_text = (\<lambda>_. ''u''),
      fv_parse_uuid = (\<lambda>s. if s = ''a'' then Some 111 else if s = ''b'' then Some 112 else None)\<rparr>"

definition demo_market :: market_account where
  "demo_market =
     \<lparr>ma_pk = 5, ma_tenant = 3, ma_tenant_active = True, ma_marketplace = Mp_Avito, ma_external = ''77'',
      ma_credentials = ''c'', ma_active = True, ma_deleted = None, ma_batch_due = None\<rparr>"

definition demo_listing :: "nat \<Rightarrow> run_listing" where
  "demo_listing k =
     \<lparr>rl_pk = k, rl_tenant = 3, rl_account = 5, rl_product = k, rl_run = Some 1, rl_external = None, rl_status = Ls_Pending,
      rl_reason = [], rl_key = 100 + k, rl_published = None, rl_last_sync = None, rl_remote = None, rl_remote_checked = None,
      rl_next_check = None, rl_check_token = None, rl_check_until = None, rl_deleted = None\<rparr>"

definition demo_run :: feed_run where
  "demo_run =
     \<lparr>fr_id = 1, fr_tenant = 3, fr_account = 5, fr_marketplace = Mp_Avito, fr_state = Preparing, fr_revision = 1,
      fr_identity = ''6b'', fr_payload = [], fr_provider = None, fr_predecessor = None, fr_submitted = None,
      fr_deadline = None, fr_reconciles = 0, fr_cursor = 0, fr_round = 0, fr_page = 1, fr_report_attempt = 0,
      fr_report_done = None, fr_next = Some (secs 100), fr_token = Some 7, fr_until = Some (secs 500), fr_total = 2,
      fr_published = 0, fr_rejected = 0, fr_pending = 2, fr_error = [], fr_finished = None, fr_artifact = None,
      fr_uploads = 0, fr_intent = None, fr_endpoint = None, fr_prev_artifact = None\<rparr>"

text \<open>The state in which a run is stored.\<close>

definition demo_feeds_with :: "feed_run \<Rightarrow> feeds" where
  "demo_feeds_with r =
     \<lparr>fd_accounts = [demo_market], fd_runs = [r], fd_listings = [demo_listing 11, demo_listing 12], fd_uploads = [],
      fd_log = [], fd_next = 8\<rparr>"

definition demo_claim :: feed_claim where
  "demo_claim = \<lparr>cl_run = demo_run, cl_token = 7, cl_until = secs 500\<rparr>"

lemma demo_identity: "account_identity_digest demo_feed_env demo_market = ''6b''"
  by (simp add: account_identity_digest_def demo_feed_env_def hex_byte_def)

lemma demo_live: "live demo_market"
  by (simp add: live_def demo_market_def)

lemma demo_feeds_get:
  "get_run k (demo_feeds_with r) = (if fr_id r = k then Some r else None)"
  "get_market 5 (demo_feeds_with r) = Some demo_market"
  by (simp_all add: get_run_def get_market_def demo_feeds_with_def demo_market_def)

lemma demo_put: "fr_id x = fr_id r \<Longrightarrow> put_run x (demo_feeds_with r) = demo_feeds_with x"
  by (simp add: put_run_def demo_feeds_with_def)

lemma demo_constraint: "columns_fit x \<Longrightarrow> mode_ok x \<Longrightarrow> fr_id x = fr_id r \<Longrightarrow> run_constraint x (fd_runs (demo_feeds_with r)) = None"
  by (simp add: run_constraint_None demo_feeds_with_def owner_clash_def provider_clash_def intent_clash_def)

lemma demo_write:
  "columns_fit x \<Longrightarrow> mode_ok x \<Longrightarrow> fr_id x = fr_id r \<Longrightarrow> write_run x (demo_feeds_with r) = Inr (demo_feeds_with x)"
  by (simp add: write_run_Inr demo_constraint demo_put)

lemma demo_runs_ok: "columns_fit r \<Longrightarrow> mode_ok r \<Longrightarrow> runs_ok (demo_feeds_with r)"
  by (simp add: runs_ok_def demo_feeds_with_def clash_self)

definition demo_sent_run :: feed_run where
  "demo_sent_run = boundary_row ''41'' (secs 210) demo_run"

definition demo_sent_claim :: feed_claim where
  "demo_sent_claim = \<lparr>cl_run = demo_sent_run, cl_token = 7, cl_until = secs 500\<rparr>"

lemma demo_digits: "strip ''41'' = ''41''" "provider_predecessor_arg ''41'' = Inr ''41''"
  by (simp_all add: strip_def is_space_def provider_predecessor_arg_def)

lemma demo_fits: "columns_fit demo_run" "mode_ok demo_run" "columns_fit demo_sent_run" "mode_ok demo_sent_run"
  by (simp_all add: columns_fit_def mode_ok_def demo_run_def demo_sent_run_def boundary_row_def)

lemma demo_boundary:
  "persist_feed_submission_boundary demo_feed_env (secs 200) ''41'' (secs 210) demo_claim (demo_feeds_with demo_run) =
     Inr (Some demo_sent_claim, demo_feeds_with demo_sent_run)"
proof -
  have acc: "fr_account demo_run = 5" "fr_id demo_run = 1" by (simp_all add: demo_run_def)
  have "preflight demo_feed_env (secs 200) demo_claim (demo_feeds_with demo_run) = Inr (Some demo_run, demo_feeds_with demo_run)"
    by (simp add: preflight_def demo_claim_def acc demo_feeds_get demo_live pristine_claim_def demo_identity)
      (simp add: demo_run_def demo_market_def secs_def)
  moreover have "write_run (boundary_row ''41'' (secs 210) demo_run) (demo_feeds_with demo_run) = Inr (demo_feeds_with demo_sent_run)"
    using demo_write [of demo_sent_run demo_run] demo_fits(3,4) by (simp add: demo_sent_run_def)
  ultimately show ?thesis
    by (simp add: persist_feed_submission_boundary_def demo_digits demo_sent_claim_def demo_sent_run_def demo_claim_def)
qed

section \<open>The request to the provider\<close>

text \<open>C1: A request to the provider is not repeated. Once the boundary of a run has authorised the request,
  no sequence of operations - claims, retries, replays, new generations, changes of the account,
  fencing of owners, polls, an operator who finds the submission accepted - authorises another request
  of the same account, for this run or any other, before the submission was settled: the provider's
  refusal or final answer recorded by the holder of the run, or the operator's decision that it was
  not accepted.
\<close>

theorem request_is_not_repeated:
  assumes "runs_ok s" "persist_feed_submission_boundary E t p u c s = Inr (Some d, s1)"
    "list_all (\<lambda>op. \<not> settles (fr_id (cl_run c)) op) ops" "fr_account (cl_run c') = fr_account (cl_run c)"
  shows "persist_feed_submission_boundary E t' p' u' c' (perform_runs E ops s1) \<noteq> Inr (Some d', s2)"
proof
  let ?s = "perform_runs E ops s1" and ?k = "fr_id (cl_run c)" and ?a = "fr_account (cl_run c)"
  assume again: "persist_feed_submission_boundary E t' p' u' c' ?s = Inr (Some d', s2)"
  obtain r where r: "get_run ?k s = Some r" "pristine_claim c t r" "write_run (boundary_row (strip p) u r) s = Inr s1"
    using assms(2) by (rule boundary_authorised)
  have "fr_id (boundary_row (strip p) u r) = ?k" "fr_account r = ?a"
    using r(2) get_run_id [OF r(1)] by (simp_all add: pristine_claim_def)
  then have "unsettled ?k ?a s1" using write_get [OF r(3), of r ?k] r(1) by (simp add: unsettled_def)
  moreover have ok1: "runs_ok s1" using moves_keep_ok [OF boundary_moves [OF assms(2)] assms(1)] .
  ultimately have open_run: "unsettled ?k ?a ?s" using assms(3) by (intro trace_unsettled)
  then obtain x where x: "get_run ?k ?s = Some x" "fr_account x = ?a" "phase x = In_Flight \<or> phase x = On_Hold"
    by (auto simp: unsettled_def split: option.splits)
  obtain y where y: "get_run (fr_id (cl_run c')) ?s = Some y" "pristine_claim c' t' y" using again by (rule boundary_authorised)
  have ph: "phase y = Open_Phase" "fr_account y = ?a" using y(2) assms(4) by (simp_all add: pristine_claim_def phase_states)
  then have "fr_id x \<noteq> fr_id y" using x(1,3) y(1) get_run_id [OF x(1)] get_run_id [OF y(1)] by auto
  moreover have "is_owner x" "is_owner y" using x(3) ph(1) by (auto simp: owner_phase)
  ultimately have "owner_clash y x" using x(2) ph(2) by (simp add: owner_clash_def)
  moreover have "x \<in> set (fd_runs ?s)" "y \<in> set (fd_runs ?s)" using get_run_mem x(1) y(1) by blast+
  ultimately show False using trace_keeps_ok [OF ok1] unfolding runs_ok_def by blast
qed

theorem request_is_not_repeated_witness:
  "\<not> (\<exists>d' s2. persist_feed_submission_boundary demo_feed_env (secs 900) ''41'' (secs 900) demo_claim
     (perform_runs demo_feed_env
        [Mark_Unknown (secs 220) demo_sent_claim (secs 210) (secs 520) ''timeout'', Claim_Account (secs 600) (secs 300) 5 None None]
        (demo_feeds_with demo_sent_run)) = Inr (Some d', s2))"
proof -
  let ?ops = "[Mark_Unknown (secs 220) demo_sent_claim (secs 210) (secs 520) ''timeout'', Claim_Account (secs 600) (secs 300) 5 None None]"
  have "list_all (\<lambda>op. \<not> settles (fr_id (cl_run demo_claim)) op) ?ops" by simp
  then show ?thesis using request_is_not_repeated [OF demo_runs_ok [OF demo_fits(1,2)] demo_boundary, of ?ops demo_claim] by blast
qed

section \<open>Overtaken workers\<close>

lemma claim_taken:
  assumes "claim_due_run_for_account E t dur k g n s = Inr (Some c, s')" "runs_ok s"
  obtains r where "get_run (fr_id (cl_run c)) s = Some r" "get_run (fr_id (cl_run c)) s' = Some (cl_run c)"
    "fr_revision (cl_run c) = fr_revision r + 1" "cl_token c = fd_next s" "cl_until c = t + dur" "due_at t r" "unleased t r"
proof -
  obtain a where a: "get_market k s = Some a" "claim_locked_account E t dur g n a s = Inr (Some c, s')"
    using assms(1) by (auto simp: claim_due_run_for_account_def split: if_splits option.splits)
  from a(2) show ?thesis
  proof (cases rule: claim_found)
    case (2 r)
    note here = first_found [OF 2(1) assms(2)]
    have t: "take_claim t dur r s = Inr (Some c, s')" "due_at t r" "unleased t r" using 2(2) by auto
    note w = take_claim_result [OF t(1)]
    have c: "cl_run c = claimed_run_row t dur (fd_next s) r" "cl_token c = fd_next s" "cl_until c = t + dur" using w(1) by simp_all
    have "get_run (fr_id r) (s\<lparr>fd_next := Suc (fd_next s)\<rparr>) = Some r" using here(1) by (simp add: get_run_def)
    then have "get_run (fr_id r) s' = Some (cl_run c)" using write_get [OF w(2), of r "fr_id r"] c(1) by simp
    then show ?thesis using that [of r] here(1) c t by simp
  qed simp
qed

text \<open>C3: A worker that was overtaken changes nothing. Once a second claim of a run has been given out, by
  whatever way, no step under the first claim changes anything, at any time and after any other
  operations.
\<close>

theorem overtaken_worker_changes_nothing:
  assumes "runs_ok s" "claim_due_run_for_account E t dur k g n s = Inr (Some c, s1)"
    "claim_due_run_for_account E t' dur' k' g' n' (perform_runs E ops s1) = Inr (Some d, s2)"
    "fr_id (cl_run d) = fr_id (cl_run c)" "claim_of op = Some (u, c)"
  shows "perform_run E op (perform_runs E later s2) = perform_runs E later s2"
proof -
  let ?k = "fr_id (cl_run c)"
  have ok1: "runs_ok s1" using moves_keep_ok [OF claim_due_moves [OF assms(2,1)] assms(1)] .
  note ok2 = trace_keeps_ok [OF ok1, of E ops]
  have ok3: "runs_ok s2" using moves_keep_ok [OF claim_due_moves [OF assms(3) ok2] ok2] .
  have c: "get_run ?k s1 = Some (cl_run c)" using assms(2,1) by (rule claim_taken)
  obtain x where x: "get_run ?k (perform_runs E ops s1) = Some x" "fr_revision (cl_run c) \<le> fr_revision x"
    using ok1 c by (rule trace_revision)
  obtain y where y: "get_run (fr_id (cl_run d)) (perform_runs E ops s1) = Some y"
      "get_run (fr_id (cl_run d)) s2 = Some (cl_run d)" "fr_revision (cl_run d) = fr_revision y + 1"
    using assms(3) ok2 by (rule claim_taken)
  have less: "fr_revision (cl_run c) < fr_revision (cl_run d)" using x y(1,3) assms(4) by simp
  obtain z where z: "get_run (fr_id (cl_run d)) (perform_runs E later s2) = Some z" "fr_revision (cl_run d) \<le> fr_revision z"
    using ok3 y(2) by (rule trace_revision)
  have "claim_lost u c (perform_runs E later s2)" using z less assms(4) by (simp add: claim_lost_def)
  then show ?thesis by (rule lost_claim_idle [OF assms(5)])
qed

definition demo_due_run :: feed_run where
  "demo_due_run = demo_run\<lparr>fr_revision := 0, fr_token := None, fr_until := None\<rparr>"

definition demo_numbered :: "feed_run \<Rightarrow> nat \<Rightarrow> feeds" where
  "demo_numbered r n = (demo_feeds_with r)\<lparr>fd_next := n\<rparr>"

lemma demo_claims:
  assumes "fr_account r = 5" "active_run r" "fr_identity r = ''6b''" "fr_tenant r = 3" "fr_marketplace r = Mp_Avito"
    "due_at t r" "unleased t r" "0 < dur" "columns_fit (claimed_run_row t dur n r)" "mode_ok r"
  shows "claim_due_run_for_account demo_feed_env t dur 5 None None (demo_numbered r n) =
     Inr (Some \<lparr>cl_run = claimed_run_row t dur n r, cl_token = n, cl_until = t + dur\<rparr>, demo_numbered (claimed_run_row t dur n r) (Suc n))"
proof -
  have m: "get_market 5 (demo_numbered r n) = Some demo_market"
    by (simp add: demo_numbered_def demo_feeds_with_def get_market_def demo_market_def)
  have f: "first_row (filter (\<lambda>x. fr_account x = ma_pk demo_market \<and> active_run x \<and> True) (fd_runs (demo_numbered r n))) = Some r"
    using assms(1,2) by (simp add: demo_numbered_def demo_feeds_with_def demo_market_def)
  have "mode_ok (claimed_run_row t dur n r)" using assms(10) by (cases "fr_intent r") (simp_all add: mode_ok_def claimed_run_row_def)
  then have w: "write_run (claimed_run_row t dur n r) (demo_numbered r (Suc n)) = Inr (demo_numbered (claimed_run_row t dur n r) (Suc n))"
    using assms(9) by (simp add: write_run_Inr run_constraint_None demo_numbered_def demo_feeds_with_def owner_clash_def
        provider_clash_def intent_clash_def put_run_def)
  have n: "(demo_numbered r n)\<lparr>fd_next := Suc n\<rparr> = demo_numbered r (Suc n)" "fd_next (demo_numbered r n) = n"
    by (simp_all add: demo_numbered_def)
  show ?thesis using assms(3-8) f w
    by (simp add: claim_due_run_for_account_def m claim_locked_account_def demo_live demo_identity take_claim_def n Let_def)
      (simp add: demo_market_def)
qed

definition demo_first_claim :: feed_run where
  "demo_first_claim = claimed_run_row (secs 100) (secs 300) 7 demo_due_run"

definition demo_second_claim :: feed_run where
  "demo_second_claim = claimed_run_row (secs 500) (secs 300) 8 demo_first_claim"

lemma demo_due_eval: "demo_first_claim = demo_run\<lparr>fr_revision := 1, fr_token := Some 7, fr_until := Some (secs 400)\<rparr>"
  "demo_second_claim = demo_run\<lparr>fr_revision := 2, fr_token := Some 8, fr_until := Some (secs 800)\<rparr>"
  by (simp_all add: demo_first_claim_def demo_second_claim_def claimed_run_row_def demo_due_run_def secs_def)

lemma demo_two_claims:
  "claim_due_run_for_account demo_feed_env (secs 100) (secs 300) 5 None None (demo_numbered demo_due_run 7) =
     Inr (Some \<lparr>cl_run = demo_first_claim, cl_token = 7, cl_until = secs 400\<rparr>, demo_numbered demo_first_claim 8)"
  "claim_due_run_for_account demo_feed_env (secs 500) (secs 300) 5 None None (demo_numbered demo_first_claim 8) =
     Inr (Some \<lparr>cl_run = demo_second_claim, cl_token = 8, cl_until = secs 800\<rparr>, demo_numbered demo_second_claim 9)"
proof -
  have r: "fr_account demo_due_run = 5" "active_run demo_due_run" "fr_identity demo_due_run = ''6b''" "fr_tenant demo_due_run = 3"
    "fr_marketplace demo_due_run = Mp_Avito" "due_at (secs 100) demo_due_run" "unleased (secs 100) demo_due_run"
    "columns_fit demo_first_claim" "mode_ok demo_due_run"
    by (simp_all add: demo_due_run_def demo_run_def active_run_def active_run_states_def due_at_def unleased_def demo_due_eval
        columns_fit_def mode_ok_def)
  then show "claim_due_run_for_account demo_feed_env (secs 100) (secs 300) 5 None None (demo_numbered demo_due_run 7) =
     Inr (Some \<lparr>cl_run = demo_first_claim, cl_token = 7, cl_until = secs 400\<rparr>, demo_numbered demo_first_claim 8)"
    using demo_claims [of demo_due_run "secs 100" "secs 300" 7] by (simp add: demo_first_claim_def) (simp add: secs_def)
  have r2: "fr_account demo_first_claim = 5" "active_run demo_first_claim" "fr_identity demo_first_claim = ''6b''"
    "fr_tenant demo_first_claim = 3" "fr_marketplace demo_first_claim = Mp_Avito" "due_at (secs 500) demo_first_claim"
    "unleased (secs 500) demo_first_claim" "columns_fit demo_second_claim" "mode_ok demo_first_claim"
    by (simp_all add: demo_run_def active_run_def active_run_states_def due_at_def unleased_def demo_due_eval
        columns_fit_def mode_ok_def secs_def)
  then show "claim_due_run_for_account demo_feed_env (secs 500) (secs 300) 5 None None (demo_numbered demo_first_claim 8) =
     Inr (Some \<lparr>cl_run = demo_second_claim, cl_token = 8, cl_until = secs 800\<rparr>, demo_numbered demo_second_claim 9)"
    using demo_claims [of demo_first_claim "secs 500" "secs 300" 8] by (simp add: demo_second_claim_def) (simp add: secs_def)
qed

theorem overtaken_worker_changes_nothing_witness:
  "perform_run demo_feed_env (Persist_Boundary (secs 300) ''41'' (secs 300) \<lparr>cl_run = demo_first_claim, cl_token = 7, cl_until = secs 400\<rparr>)
     (demo_numbered demo_second_claim 9) = demo_numbered demo_second_claim 9"
proof -
  have ok: "runs_ok (demo_numbered demo_due_run 7)"
    by (simp add: runs_ok_def demo_numbered_def demo_feeds_with_def clash_self demo_due_run_def demo_run_def columns_fit_def mode_ok_def)
  have two: "claim_due_run_for_account demo_feed_env (secs 500) (secs 300) 5 None None
      (perform_runs demo_feed_env [] (demo_numbered demo_first_claim 8)) =
     Inr (Some \<lparr>cl_run = demo_second_claim, cl_token = 8, cl_until = secs 800\<rparr>, demo_numbered demo_second_claim 9)"
    using demo_two_claims(2) by simp
  have same: "fr_id demo_second_claim = fr_id demo_first_claim" by (simp add: demo_due_eval)
  let ?c = "\<lparr>cl_run = demo_first_claim, cl_token = 7, cl_until = secs 400\<rparr>"
  have "perform_run demo_feed_env (Persist_Boundary (secs 300) ''41'' (secs 300) ?c)
      (perform_runs demo_feed_env [] (demo_numbered demo_second_claim 9)) = perform_runs demo_feed_env [] (demo_numbered demo_second_claim 9)"
    by (rule overtaken_worker_changes_nothing [OF ok demo_two_claims(1) two]) (simp_all add: same)
  then show ?thesis unfolding perform_runs_simps .
qed

section \<open>The life cycle\<close>

text \<open>C4: Runs follow the life cycle. Whatever operation runs, with whatever arguments, the table keeps its
  constraints, no run disappears or changes its generation - account, owner, identity, membership and
  private revisions - and a run that changes has a higher revision and moves along an edge its kind of
  operation may take: only the boundary and the records of a submission put a run in flight, only its
  holder or an operator ends one in flight or on hold, only a refusal takes it back, and only a safe
  replay reopens a closed one.
\<close>

theorem feed_runs_follow_the_life_cycle:
  assumes "runs_ok s" "get_run k s = Some r"
  shows "runs_ok (perform_run E op s) \<and>
    (\<exists>x. get_run k (perform_run E op s) = Some x \<and> same_generation r x \<and>
      (x = r \<or> (fr_revision r < fr_revision x \<and> (phase r, phase x) \<in> set (allowed_edges op))))"
proof -
  obtain x where "get_run k (perform_run E op s) = Some x" "x = r \<or> row_move (allowed_edges op) r x"
    using assms by (rule perform_row)
  then show ?thesis using perform_keeps_ok [OF assms(1)] by (auto simp: row_move_def)
qed

theorem feed_runs_follow_the_life_cycle_witness:
  "runs_ok (perform_run demo_feed_env (Supersede_Run (secs 300) 1 None ''admin'') (demo_feeds_with demo_sent_run)) \<and>
    (\<exists>x. get_run 1 (perform_run demo_feed_env (Supersede_Run (secs 300) 1 None ''admin'') (demo_feeds_with demo_sent_run)) = Some x \<and>
      same_generation demo_sent_run x \<and>
      (x = demo_sent_run \<or> (fr_revision demo_sent_run < fr_revision x \<and>
         (phase demo_sent_run, phase x) \<in> set (allowed_edges (Supersede_Run (secs 300) 1 None ''admin'')))))"
proof -
  have "get_run 1 (demo_feeds_with demo_sent_run) = Some demo_sent_run"
    by (simp add: demo_feeds_get demo_sent_run_def) (simp add: demo_run_def)
  then show ?thesis by (rule feed_runs_follow_the_life_cycle [OF demo_runs_ok [OF demo_fits(3,4)]])
qed

section \<open>The constraint on owners\<close>

definition error_of :: "feed_error + 'a \<Rightarrow> feed_error option" where
  "error_of res = (case res of Inl e \<Rightarrow> Some e | Inr _ \<Rightarrow> None)"

text \<open>The exception an operation ends with.\<close>

fun refusal :: "feed_env \<Rightarrow> run_op \<Rightarrow> feeds \<Rightarrow> feed_error option" where
  "refusal E (Create t k q) s = error_of (create_or_supersede_feed_run E t k q s)"
| "refusal E (Resume t k g n d) s = error_of (resume_failed_pre_submission_feed_run E t k g n d s)"
| "refusal E (Claim_Account t dur k g n) s = error_of (claim_due_run_for_account E t dur k g n s)"
| "refusal E (Claim_Due t dur n m locked) s = error_of (claim_due_runs E t dur n m locked s)"
| "refusal E (Cancel_Inactive t n) s = error_of (fst (cancel_feed_runs_for_inactive_owners t n s))"
| "refusal E (Owner_Change t k e st policy) s = error_of (fence_account_feed_runs_for_owner_change t k e st policy s)"
| "refusal E (Supersede_Run t k n e) s = error_of (supersede_feed_run t k n e s)"
| "refusal E (Validate_Owner t c) s = error_of (validate_feed_submission_owner E t c s)"
| "refusal E (Persist_Boundary t p u c) s = error_of (persist_feed_submission_boundary E t p u c s)"
| "refusal E (Clear_Rejected t c) s = error_of (clear_rejected_feed_submission_boundary t c s)"
| "refusal E (Mark_Submitted t c d p u again) s = error_of (mark_feed_submitted E t c d p u again s)"
| "refusal E (Mark_Unknown t c u again e) s = error_of (mark_feed_submission_unknown E t c u again e s)"
| "refusal E (Observe_Run t c p again) s = error_of (record_provider_run_observation E t c p again s)"
| "refusal E (Poll_Step t c k ds again) s = error_of (complete_poll_step E t c k ds again s)"
| "refusal E (Poll_Page t c ids vs k again) s = error_of (apply_poll_page E t c ids vs k again s)"
| "refusal E (Retry_Step t c again e b d) s = error_of (retry_step E t c again e b d s)"
| "refusal E (Reset_Round t c again) s = error_of (reset_poll_round E t c again s)"
| "refusal E (Start_Report t c again p) s = error_of (start_reporting E t c again p s)"
| "refusal E (Advance_Page t c k ds again) s = error_of (advance_report_page E t c k ds again s)"
| "refusal E (Report_Page t c q) s = error_of (apply_report_page E t c q s)"
| "refusal E (Finish_Run t c st e b) s = error_of (finish_feed_run E t c st e b s)"
| "refusal E (Reconcile_Run t k n res p tomb) s = error_of (reconcile_uncertain_feed_run E t k n res p tomb s)"
| "refusal E (Outside as ls us) s = None"

definition clear_of_owners :: "feed_error + 'a \<Rightarrow> bool" where
  "clear_of_owners res \<longleftrightarrow> res \<noteq> Inl Owner_Constraint"

lemma clear_simps [simp]: "clear_of_owners (Inr x)" "clear_of_owners (Inl e) \<longleftrightarrow> e \<noteq> Owner_Constraint"
  by (simp_all add: clear_of_owners_def)

lemma clear_if [simp]:
  "clear_of_owners (if p then a else b) \<longleftrightarrow> (if p then clear_of_owners a else clear_of_owners b)"
  by simp

lemma write_owner:
  assumes "runs_ok s" "get_run (fr_id x) s = Some r" "fr_account x = fr_account r" "is_owner r"
  shows "clear_of_owners (write_run x s)"
  unfolding clear_of_owners_def
proof
  assume "write_run x s = Inl Owner_Constraint"
  then have "list_ex (owner_clash x) (fd_runs s)"
    by (auto simp: write_run_def run_constraint_def split: option.splits if_splits)
  then obtain y where y: "y \<in> set (fd_runs s)" "owner_clash x y" by (auto simp: list_ex_iff)
  have "owner_clash r y" using y(2) assms(2-4) get_run_id [OF assms(2)] by (auto simp: owner_clash_def)
  moreover have "r \<in> set (fd_runs s)" using assms(2) by (rule get_run_mem)
  ultimately show False using assms(1) y(1) unfolding runs_ok_def by blast
qed

lemma terminalize_owner:
  assumes "runs_ok s"
  shows "clear_of_owners (terminalize_locked st t e r s)"
  unfolding clear_of_owners_def
proof
  assume a: "terminalize_locked st t e r s = Inl Owner_Constraint"
  then obtain x where x: "get_run (fr_id r) s = Some x" "fr_state x = fr_state r" "fr_state r \<notin> set terminal_run_states"
      "write_run (closed_run st t e x) s = Inl Owner_Constraint"
    by (auto simp: terminalize_locked_def bind_ok_Inl_iff split: if_splits option.splits)
  have "get_run (fr_id (closed_run st t e x)) s = Some x" using x(1) get_run_id [OF x(1)] by simp
  moreover have "is_owner x"
    using x(2,3) by (cases "fr_state r") (simp_all add: is_owner_def ownership_states_def active_run_states_def terminal_run_states_def)
  ultimately show False using write_owner [OF assms, of "closed_run st t e x" x] x(4) by simp
qed

lemma fence_owner: "runs_ok s \<Longrightarrow> clear_of_owners (fence_invalid_owner_locked st t e r s)"
  by (simp add: fence_invalid_owner_locked_def terminalize_owner)

lemma transition_owner:
  assumes "runs_ok s" "get_run (fr_id (cl_run c)) s = Some r" "is_owner r" "same_generation r (f r)"
  shows "clear_of_owners (transition_claimed t c f s)"
  unfolding clear_of_owners_def
proof
  assume "transition_claimed t c f s = Inl Owner_Constraint"
  then have "write_run (released (f r)) s = Inl Owner_Constraint"
    using assms(2) by (auto simp: transition_claimed_def bind_ok_Inl_iff split: if_splits)
  moreover have "get_run (fr_id (released (f r))) s = Some r" "fr_account (released (f r)) = fr_account r"
    using assms(2,4) get_run_id [OF assms(2)] by (simp_all add: same_generation_def released_def)
  ultimately show False using write_owner [OF assms(1), of "released (f r)" r] assms(3) by simp
qed

lemma locked_owner:
  assumes "runs_ok s0" "lock_claimed_run E t c allowed s0 = Inr r" "fd_runs s = fd_runs s0"
    "\<forall>st\<in>set allowed. st \<in> set active_run_states" "same_generation r (f r)"
  shows "clear_of_owners (transition_claimed t c f s)"
proof (rule transition_owner)
  note l = lock_claimed_result [OF assms(2)]
  show "runs_ok s" using assms(1,3) runs_ok_frame by metis
  show "get_run (fr_id (cl_run c)) s = Some r" using l(1) assms(3) by (simp add: get_run_def)
  show "is_owner r" using l(3) assms(4) by (simp add: is_owner_def ownership_states_def)
qed (rule assms(5))

lemma lock_owner: "clear_of_owners (lock_claimed_run E t c allowed s)"
  by (simp add: lock_claimed_run_def split: option.split)

lemma bind_clear:
  "clear_of_owners r \<Longrightarrow> (\<And>x. r = Inr x \<Longrightarrow> clear_of_owners (f x)) \<Longrightarrow> clear_of_owners (bind_ok r f)"
  by (cases r) auto

lemma argument_clear [simp]:
  "clear_of_owners (digest_arg b v)" "clear_of_owners (optional_provider_arg p)" "clear_of_owners (provider_run_arg v)"
  "clear_of_owners (provider_predecessor_arg v)" "clear_of_owners (counter_values r i j d)"
  "clear_of_owners (recomputed_counters r s)" "clear_of_owners (resolved_external_ids ids vs)"
  "clear_of_owners (save_listings ls s)" "clear_of_owners (report_errors E rs)" "clear_of_owners (report_external_ids E rs)"
  "clear_of_owners (fetch_market k s)" "clear_of_owners (or_raise Run_Conflict w)" "clear_of_owners (resolution_arg res p b)"
  by (auto simp: clear_of_owners_def digest_arg_def optional_provider_arg_def provider_run_arg_def provider_predecessor_arg_def counter_values_def
      recomputed_counters_def resolved_external_ids_def save_listings_def report_errors_def report_external_ids_def
      report_entries_def fetch_market_def resolution_arg_def Let_def bind_ok_Inl_iff split: option.splits resolution.splits)

lemma report_updates_clear: "clear_of_owners (report_updates t q r i j s)"
  by (auto simp: report_updates_def intro!: bind_clear split: option.split)


lemmas owner_rules = bind_clear lock_owner

lemma submission_owner:
  assumes "runs_ok s"
  shows "clear_of_owners (mark_feed_submitted E t c d p u again s)"
    "clear_of_owners (mark_feed_submission_unknown E t c u again e s)"
    "clear_of_owners (record_provider_run_observation E t c v again s)"
  using assms
  by (auto simp: mark_feed_submitted_def mark_feed_submission_unknown_def record_provider_run_observation_def same_generation_def
      active_run_states_def intro!: owner_rules elim!: locked_owner)

lemma quiet_same: "quiet_update f \<Longrightarrow> same_generation r (f r)"
  by (simp add: quiet_update_def)

lemma counters_same:
  "counter_values r i j d = Inr g \<Longrightarrow> same_generation r ((g r)\<lparr>fr_cursor := n, fr_next := u, fr_error := e\<rparr>)"
  "counter_values r i j d = Inr g \<Longrightarrow> same_generation r ((g r)\<lparr>fr_page := n, fr_report_attempt := 0, fr_next := u, fr_error := e\<rparr>)"
  using counter_values_keeps [of r i j d g r] by (auto simp: same_generation_def)

lemma polling_owner:
  assumes "runs_ok s"
  shows "clear_of_owners (complete_poll_step E t c k ds again s)"
    "clear_of_owners (retry_step E t c again e b d s)"
    "clear_of_owners (reset_poll_round E t c again s)"
    "clear_of_owners (start_reporting E t c again p s)"
    "clear_of_owners (advance_report_page E t c n ds again s)"
proof -
  note rules = bind_clear lock_owner
  show "clear_of_owners (complete_poll_step E t c k ds again s)" using assms
    by (auto simp: complete_poll_step_def active_run_states_def intro!: rules counters_same elim!: locked_owner split: prod.split)
  show "clear_of_owners (retry_step E t c again e b d s)" using assms
    by (auto simp: retry_step_def same_generation_def intro!: rules elim!: locked_owner)
  show "clear_of_owners (reset_poll_round E t c again s)" using assms
    by (auto simp: reset_poll_round_def same_generation_def active_run_states_def intro!: rules elim!: locked_owner)
  show "clear_of_owners (start_reporting E t c again p s)" using assms
    by (auto simp: start_reporting_def same_generation_def active_run_states_def Let_def intro!: rules elim!: locked_owner)
  show "clear_of_owners (advance_report_page E t c n ds again s)" using assms
    by (auto simp: advance_report_page_def active_run_states_def intro!: rules counters_same elim!: locked_owner split: prod.split)
qed

lemma save_owner:
  assumes "runs_ok s" "lock_claimed_run E t c allowed s = Inr r" "save_listings ls s = Inr s1"
    "\<forall>st\<in>set allowed. st \<in> set active_run_states" "same_generation r (f r)"
  shows "clear_of_owners (transition_claimed t c f (log_sync es s1))"
  using assms(1,2) by (rule locked_owner) (use assms(4,5) save_listings_runs [OF assms(3)] in simp_all)

lemma page_owner:
  assumes "runs_ok s"
  shows "clear_of_owners (apply_poll_page E t c ids vs k again s)" "clear_of_owners (apply_report_page E t c q s)"
proof -
  note rules = bind_clear lock_owner report_updates_clear
  show "clear_of_owners (apply_poll_page E t c ids vs k again s)" using assms
    by (auto simp: apply_poll_page_def active_run_states_def Let_def intro!: rules counters_same elim!: save_owner)
  have same: "same_generation r (g r)"
    if "lock_claimed_run E t c [Reporting] s = Inr r" "report_updates t q r i j s1 = Inr g" for r g i j s1
    using report_updates_keeps [OF that(2)] lock_claimed_result(3) [OF that(1)] by simp
  have sub: "\<forall>st\<in>set [Reporting]. st \<in> set active_run_states" by (simp add: active_run_states_def)
  have "clear_of_owners (transition_claimed t c g (log_sync es s1))"
    if "lock_claimed_run E t c [Reporting] s = Inr r" "save_listings ls s = Inr s1" "report_updates t q r i j s1 = Inr g"
    for r ls s1 i j g es
    using save_owner [where f = g, OF assms that(1,2) sub] same [OF that(1,3)] by simp
  then show "clear_of_owners (apply_report_page E t c q s)"
    by (auto simp: apply_report_page_def Let_def intro!: rules)
qed

lemma finish_owner:
  assumes "runs_ok s"
  shows "clear_of_owners (finish_feed_run E t c st e b s)"
proof -
  have "same_generation r ((g r)\<lparr>fr_state := st, fr_next := None, fr_error := clean_error e, fr_finished := Some t, fr_reconciles := n\<rparr>)"
    if "recomputed_counters r s = Inr g" for r g n
    using recomputed_keeps(1) [OF that, of r] by (simp add: same_generation_def)
  then show ?thesis using assms
    by (auto simp: finish_feed_run_def intro!: bind_clear lock_owner elim!: locked_owner)
qed

lemma preflight_owner: "runs_ok s \<Longrightarrow> clear_of_owners (preflight E t c s)"
  by (auto simp: preflight_def intro!: bind_clear fence_owner split: option.split)

lemma boundary_owner:
  assumes "runs_ok s"
  shows "clear_of_owners (validate_feed_submission_owner E t c s)" "clear_of_owners (persist_feed_submission_boundary E t p u c s)"
proof -
  show "clear_of_owners (validate_feed_submission_owner E t c s)"
    using assms by (auto simp: validate_feed_submission_owner_def intro!: bind_clear preflight_owner)
  have "clear_of_owners (write_run (boundary_row p' u r) s')" if f: "preflight E t c s = Inr (Some r, s')" for p' r s'
  proof -
    note pre = preflight_found [OF f]
    have "is_owner r" using pre(3) by (simp add: pristine_claim_def is_owner_def ownership_states_def active_run_states_def)
    then show ?thesis using write_owner [OF assms, of "boundary_row p' u r" r] pre(1,2) get_run_id [OF pre(2)] by simp
  qed
  then show "clear_of_owners (persist_feed_submission_boundary E t p u c s)"
    using assms by (auto simp: persist_feed_submission_boundary_def intro!: bind_clear preflight_owner split: option.split)
qed

lemma clear_owner:
  assumes "runs_ok s"
  shows "clear_of_owners (clear_rejected_feed_submission_boundary t c s)"
proof -
  have "clear_of_owners (write_run (cleared_row r) s)" if "get_run (fr_id (cl_run c)) s = Some r" "fr_state r = Submit_Unknown" for r
    using write_owner [OF assms, of "cleared_row r" r] that get_run_id [OF that(1)]
    by (simp add: cleared_row_def is_owner_def ownership_states_def active_run_states_def)
  then show ?thesis
    by (auto simp: clear_rejected_feed_submission_boundary_def claim_matches_def intro!: bind_clear split: option.split)
qed

lemma claim_owner:
  assumes "runs_ok s"
  shows "clear_of_owners (claim_locked_account E t dur g n a s)"
proof (cases "first_row (filter (\<lambda>r. fr_account r = ma_pk a \<and> active_run r \<and> (case g of None \<Rightarrow> True | Some k \<Rightarrow> fr_id r = k)) (fd_runs s))")
  case None
  then show ?thesis by (simp add: claim_locked_account_def)
next
  case (Some r)
  note here = first_found [OF Some assms]
  have "clear_of_owners (take_claim t dur r s)"
  proof -
    let ?s = "s\<lparr>fd_next := Suc (fd_next s)\<rparr>"
    have "runs_ok ?s" "get_run (fr_id r) ?s = Some r" using assms here(1) by (simp_all add: runs_ok_def get_run_def)
    moreover have "is_owner r" using here(2) by (auto simp: active_phase owner_phase)
    ultimately have "clear_of_owners (write_run (claimed_run_row t dur (fd_next s) r) ?s)"
      using write_owner [of ?s "claimed_run_row t dur (fd_next s) r" r] by simp
    then show ?thesis by (auto simp: take_claim_def Let_def intro!: bind_clear)
  qed
  then show ?thesis using Some assms
    by (auto simp: claim_locked_account_def fenced_claim_def intro!: bind_clear fence_owner)
qed

lemma claim_each_owner: "runs_ok s \<Longrightarrow> clear_of_owners (claim_each E t dur as s)"
proof (induction E t dur as s rule: claim_each.induct)
  case (2 E t dur a as s)
  show ?case unfolding claim_each.simps
  proof (intro bind_clear claim_owner [OF 2(2)])
    fix x assume x: "claim_locked_account E t dur None None a s = Inr x"
    have "runs_ok (snd x)" using claim_locked_moves [of E t dur None None a s "fst x" "snd x"] x 2(2) moves_keep_ok by simp
    then have "clear_of_owners (claim_each E t dur as (snd x))" using 2(1) [of "snd x"] by simp
    then show "clear_of_owners (case x of (c, s1) \<Rightarrow> bind_ok (claim_each E t dur as s1)
        (\<lambda>(cs, s2). Inr (case c of None \<Rightarrow> cs | Some x \<Rightarrow> x # cs, s2)))"
      by (auto intro!: bind_clear split: prod.split)
  qed
qed simp

lemma cancel_each_owner: "runs_ok s \<Longrightarrow> clear_of_owners (fst (cancel_each t ks s))"
proof (induction t ks s rule: cancel_each.induct)
  case (2 t k account ks s)
  have one: "clear_of_owners (cancel_inactive_feed_run t k account s)"
    using 2(2) by (auto simp: cancel_inactive_feed_run_def intro!: bind_clear fence_owner split: option.split)
  show ?case
  proof (cases "cancel_inactive_feed_run t k account s")
    case (Inl e)
    then show ?thesis using one by simp
  next
    case (Inr y)
    obtain x s1 where y: "y = (x, s1)" by (cases y)
    have "runs_ok s1" using cancel_one_moves [of t k account s x s1] Inr y 2(2) moves_keep_ok by simp
    then have "clear_of_owners (fst (cancel_each t ks s1))" using 2(1) [OF Inr y [symmetric]] by simp
    then show ?thesis using Inr y by (cases "cancel_each t ks s1"; cases "fst (cancel_each t ks s1)") auto
  qed
qed simp

lemma owner_change_owner: "runs_ok s \<Longrightarrow> clear_of_owners (fence_account_feed_runs_for_owner_change t k e st policy s)"
  by (auto simp: fence_account_feed_runs_for_owner_change_def intro!: bind_clear fence_owner terminalize_owner split: option.split)

lemma supersede_owner: "runs_ok s \<Longrightarrow> clear_of_owners (supersede_feed_run t k n e s)"
  by (auto simp: supersede_feed_run_def intro!: bind_clear fence_owner)

lemma reconcile_owner:
  assumes "runs_ok s"
  shows "clear_of_owners (reconcile_uncertain_feed_run E t k n res p tomb s)"
proof -
  have "clear_of_owners (write_run (not_accepted_row t r) s)" "clear_of_owners (write_run (accepted_row t u r) s)"
    if "get_run k s = Some r" "fr_state r = Outcome_Uncertain" for r u
  proof -
    have "is_owner r" using that(2) by (simp add: is_owner_def ownership_states_def)
    then show "clear_of_owners (write_run (not_accepted_row t r) s)" "clear_of_owners (write_run (accepted_row t u r) s)"
      using write_owner [OF assms, of "not_accepted_row t r" r] write_owner [OF assms, of "accepted_row t u r" r] that(1)
        get_run_id [OF that(1)] by (simp_all add: not_accepted_row_def accepted_row_def)
  qed
  then show ?thesis
    by (auto simp: reconcile_uncertain_feed_run_def intro!: bind_clear split: option.split)
qed

text \<open>After the older generations of an account were superseded, nobody owns it.\<close>

lemma superseded_rows:
  assumes "supersede_all E t k rs s = Inr s'" "runs_ok s" "distinct (map fr_id rs)" "\<forall>r\<in>set rs. get_run (fr_id r) s = Some r"
    "get_run i s' = Some x"
  shows "(i \<in> fr_id ` set rs \<and> fr_state x = Superseded) \<or> (i \<notin> fr_id ` set rs \<and> get_run i s = Some x)"
  using assms
proof (induction rs arbitrary: s)
  case Nil
  then show ?case by simp
next
  case (Cons r rs)
  let ?e = "''Superseded by feed generation '' @ fv_uuid_text E k @ ''.''"
  obtain y s1 where one: "terminalize_locked Superseded t ?e r s = Inr (y, s1)"
      and rest: "supersede_all E t k rs s1 = Inr s'" and ready: "safely_replaceable r"
    using Cons.prems(1) by (auto simp: bind_ok_Inr_iff split: if_splits)
  have here: "get_run (fr_id r) s = Some r" using Cons.prems(4) by simp
  have m: "moves automatic_edges s s1" using one here ready
    by (elim terminalize_moves) (simp_all add: safely_replaceable_def phase_def automatic_edges_def)
  have y: "fr_id y = fr_id r" "fr_state y = Superseded" "write_run y s = Inr s1"
    using one here ready by (auto elim!: terminalize_cases simp: safely_replaceable_def terminal_run_states_def)
  have g: "get_run j s1 = (if j = fr_id r then Some y else get_run j s)" for j
    using write_get [OF y(3), of r j] here y(1) by simp
  have others: "\<forall>z\<in>set rs. get_run (fr_id z) s1 = Some z"
    using Cons.prems(3,4) g by (auto simp: image_iff)
  have "(i \<in> fr_id ` set rs \<and> fr_state x = Superseded) \<or> (i \<notin> fr_id ` set rs \<and> get_run i s1 = Some x)"
    using Cons.IH [OF rest moves_keep_ok [OF m Cons.prems(2)] _ others Cons.prems(5)] Cons.prems(3) by simp
  then show ?case using g y(2) by (auto split: if_splits)
qed

lemma account_is_free:
  assumes "supersede_all E t k (filter (\<lambda>r. fr_account r = b \<and> active_run r) (fd_runs s)) s = Inr s1" "runs_ok s"
    "\<forall>r\<in>set (fd_runs s). fr_account r = b \<longrightarrow> fr_state r \<noteq> Outcome_Uncertain" "x \<in> set (fd_runs s1)" "fr_account x = b"
  shows "\<not> is_owner x"
proof
  assume owner: "is_owner x"
  let ?rs = "filter (\<lambda>r. fr_account r = b \<and> active_run r) (fd_runs s)"
  have ok1: "runs_ok s1" using supersede_all_moves [OF assms(1,2) active_rows_here [OF assms(2)]] moves_keep_ok assms(2) by blast
  note cases = superseded_rows [OF assms(1,2) active_rows_here [OF assms(2)] run_here [OF ok1 assms(4)]]
  have "fr_state x \<noteq> Superseded" using owner by (auto simp: is_owner_def ownership_states_def active_run_states_def)
  with cases have x: "fr_id x \<notin> fr_id ` set ?rs" "get_run (fr_id x) s = Some x" by auto
  have "x \<in> set (fd_runs s)" using get_run_mem [OF x(2)] .
  moreover have "active_run x \<or> fr_state x = Outcome_Uncertain" using owner by (auto simp: is_owner_def ownership_states_def active_run_def)
  ultimately show False using x(1) assms(3,5) by (auto simp: image_iff)
qed

lemma insert_owner:
  assumes "\<And>x. x \<in> set (fd_runs s) \<Longrightarrow> fr_account x = fr_account r \<Longrightarrow> \<not> is_owner x"
  shows "clear_of_owners (insert_run r s)"
  using assms by (auto simp: clear_of_owners_def insert_run_def run_constraint_def list_ex_iff owner_clash_def split: option.splits if_splits)

lemma supersede_all_owner: "runs_ok s \<Longrightarrow> clear_of_owners (supersede_all E t k rs s)"
proof (induction rs arbitrary: s)
  case (Cons r rs)
  have "clear_of_owners (supersede_all E t k rs s1)"
    if one: "terminalize_locked Superseded t e r s = Inr (x, s1)" "safely_replaceable r" for e x s1
  proof -
    have "runs_ok s1"
      using one(1) Cons.prems write_keeps_ok
      by (auto simp: terminalize_locked_def bind_ok_Inr_iff split: if_splits option.splits)
    then show ?thesis by (rule Cons.IH)
  qed
  then show ?case using terminalize_owner [OF Cons.prems] by (auto intro!: bind_clear)
qed simp

lemma create_owner:
  assumes "runs_ok s"
  shows "clear_of_owners (create_or_supersede_feed_run E t account q s)"
proof -
  have generation: "clear_of_owners (create_generation E t a payload q k s0)" if "runs_ok s0" for a payload k s0
    unfolding create_generation_def Let_def using account_is_free [OF _ that] supersede_all_owner [OF that]
    by (auto simp: list_ex_iff new_run_def intro!: bind_clear insert_owner)
  have "runs_ok (snd (generation_id q s))" using assms by (simp add: generation_id_def runs_ok_def split: option.split)
  then show ?thesis using generation
    by (auto simp: create_or_supersede_feed_run_def intro!: bind_clear split: prod.split option.split)
qed

lemma clear_error: "clear_of_owners r \<Longrightarrow> error_of r \<noteq> Some Owner_Constraint"
  by (auto simp: clear_of_owners_def error_of_def split: sum.splits)

text \<open>C15: The code respects the constraint on owners by itself. If the table is consistent, the only
  operation the database can refuse because an account would get a second owner is the replay of a
  generation that failed before its submission; creation, claims, fencing, every step of a worker and
  both decisions of the operator never run into it.
\<close>

theorem only_a_replay_meets_the_owner_constraint:
  assumes "runs_ok s" "refusal E op s = Some Owner_Constraint"
  shows "\<exists>t account k n digest. op = Resume t account k n digest"
proof -
  note ops = create_owner owner_change_owner supersede_owner
    boundary_owner clear_owner submission_owner polling_owner page_owner finish_owner reconcile_owner
  show ?thesis using assms(2)
  proof (cases op)
    case (Claim_Account t dur k g n)
    have "clear_of_owners (claim_due_run_for_account E t dur k g n s)"
      using claim_owner [OF assms(1)] by (simp add: claim_due_run_for_account_def split: option.split)
    then show ?thesis using assms(2) Claim_Account by (simp add: clear_error)
  next
    case (Claim_Due t dur n m locked)
    have "clear_of_owners (claim_due_runs E t dur n m locked s)"
      using claim_each_owner [OF assms(1)] by (simp add: claim_due_runs_def)
    then show ?thesis using assms(2) Claim_Due by (simp add: clear_error)
  next
    case (Cancel_Inactive t n)
    have "clear_of_owners (fst (cancel_feed_runs_for_inactive_owners t n s))"
      using cancel_each_owner [OF assms(1)] by (simp add: cancel_feed_runs_for_inactive_owners_def)
    then show ?thesis using assms(2) Cancel_Inactive by (simp add: clear_error)
  qed (use ops [OF assms(1)] in \<open>simp_all add: clear_error\<close>)
qed

definition demo_digest :: string where
  "demo_digest = ''aaaaaaaaaaaaaaaaaaaaaaaaaaaaaaaaaaaaaaaaaaaaaaaaaaaaaaaaaaaaaaaa''"

lemma demo_digest_arg: "digest_arg b demo_digest = Inr demo_digest"
proof -
  have "strip demo_digest = demo_digest" "length demo_digest = 64" "lower demo_digest = demo_digest"
    by code_simp+
  moreover have "parses_hex demo_digest" by code_simp
  moreover have "demo_digest \<noteq> []" by (simp add: demo_digest_def)
  ultimately show ?thesis by (simp add: digest_arg_def)
qed

definition demo_failed_run :: feed_run where
  "demo_failed_run = demo_run\<lparr>fr_id := 2, fr_state := Failed, fr_revision := 3, fr_payload := demo_digest, fr_token := None,
     fr_until := None, fr_next := None, fr_total := 0, fr_pending := 0, fr_finished := Some (secs 50), fr_intent := Some 4,
     fr_endpoint := Some 0\<rparr>"

definition demo_two_runs :: feeds where
  "demo_two_runs = (demo_feeds_with demo_sent_run)\<lparr>fd_runs := [demo_sent_run, demo_failed_run]\<rparr>"

theorem only_a_replay_meets_the_owner_constraint_witness:
  "\<exists>t account k n digest. Resume (secs 60) 5 2 3 demo_digest = Resume t account k n digest \<and>
     refusal demo_feed_env (Resume (secs 60) 5 2 3 demo_digest) demo_two_runs = Some Owner_Constraint"
proof -
  have state: "fd_runs demo_two_runs = [demo_sent_run, demo_failed_run]" "get_market 5 demo_two_runs = Some demo_market"
    "fd_uploads demo_two_runs = []" "fd_listings demo_two_runs = [demo_listing 11, demo_listing 12]"
    by (simp_all add: demo_two_runs_def demo_feeds_with_def get_market_def demo_market_def)
  have fits: "columns_fit demo_failed_run" "mode_ok demo_failed_run"
    by (simp_all add: columns_fit_def mode_ok_def demo_failed_run_def demo_run_def)
  have "runs_ok demo_two_runs"
    using demo_fits(3,4) fits
    by (simp add: runs_ok_def state owner_clash_def provider_clash_def intent_clash_def)
      (simp add: demo_sent_run_def boundary_row_def demo_failed_run_def demo_run_def is_owner_def ownership_states_def active_run_states_def)
  moreover have "refusal demo_feed_env (Resume (secs 60) 5 2 3 demo_digest) demo_two_runs = Some Owner_Constraint"
  proof -
    have g: "get_run 2 demo_two_runs = Some demo_failed_run"
      by (simp add: get_run_def state) (simp add: demo_sent_run_def boundary_row_def demo_failed_run_def demo_run_def)
    have safe: "safe_pre_submission_failure demo_feed_env demo_market (nat 3) demo_digest demo_failed_run"
      by (simp add: safe_pre_submission_failure_def demo_identity) (simp add: demo_failed_run_def demo_run_def)
    have none: "length (filter (\<lambda>l. unpublished demo_market l \<and> rl_run l = Some 2) (fd_listings demo_two_runs)) = fr_pending demo_failed_run"
      by (simp add: state demo_listing_def demo_failed_run_def)
    have acc: "fr_account demo_failed_run = ma_pk demo_market" by (simp add: demo_failed_run_def demo_run_def demo_market_def)
    have reopened: "columns_fit (reopened_run t demo_failed_run)" "mode_ok (reopened_run t demo_failed_run)"
      "owner_clash (reopened_run t demo_failed_run) demo_sent_run" for t
      by (simp_all add: columns_fit_def mode_ok_def owner_clash_def reopened_run_def demo_failed_run_def demo_run_def
          demo_sent_run_def boundary_row_def is_owner_def ownership_states_def active_run_states_def)
    then have "write_run (reopened_run t demo_failed_run) demo_two_runs = Inl Owner_Constraint" for t
      by (simp add: write_run_def run_constraint_def state)
    then show ?thesis
      using g safe none acc
      by (simp add: resume_failed_pre_submission_feed_run_def demo_digest_arg fetch_market_def state demo_live error_of_def)
  qed
  ultimately show ?thesis using only_a_replay_meets_the_owner_constraint by blast
qed

end
