(* ===== verification/Feed_Run_Pages.thy ===== *)
theory Feed_Run_Pages
  imports Feed_Run_Safety "HOL-Library.Multiset"
begin

text \<open>
  What the feed workflow does with the listings of a generation: creation takes exactly the waiting
  ones, a poll page publishes exactly what the provider resolved, a report page settles what it names
  and ends the run when nothing is pending.
\<close>

section \<open>Listings\<close>

definition get_listing :: "nat \<Rightarrow> feeds \<Rightarrow> run_listing option" where
  "get_listing k s = row_get rl_pk k (fd_listings s)"

definition listings_ok :: "feeds \<Rightarrow> bool" where
  "listings_ok s \<longleftrightarrow> distinct (map rl_pk (fd_listings s))"

interpretation listing_rows: keyed_table rl_pk "row_get rl_pk" "row_put rl_pk"
  by unfold_locales (auto simp: table_simps dest: row_get_key)

lemma fold_put_listing_keys: "map rl_pk (fold (row_put rl_pk) ls rows) = map rl_pk rows"
  by (induction ls arbitrary: rows) (simp_all add: table_simps)

lemma save_listings_get:
  assumes "save_listings ls s = Inr s'" "distinct (map rl_pk ls)" "\<forall>l\<in>set ls. get_listing (rl_pk l) s \<noteq> None"
  shows "get_listing k s' = (case row_get rl_pk k ls of Some l \<Rightarrow> Some l | None \<Rightarrow> get_listing k s)"
    "map rl_pk (fd_listings s') = map rl_pk (fd_listings s)" "fd_accounts s' = fd_accounts s"
proof -
  have rows: "fd_listings s' = fold (row_put rl_pk) ls (fd_listings s)" and acc: "fd_accounts s' = fd_accounts s"
    using assms(1) by (auto simp: save_listings_def Let_def split: if_splits)
  show "get_listing k s' = (case row_get rl_pk k ls of Some l \<Rightarrow> Some l | None \<Rightarrow> get_listing k s)"
    unfolding get_listing_def rows using assms(2,3) by (intro listing_rows.sweep_lookup) (simp_all add: get_listing_def)
  show "map rl_pk (fd_listings s') = map rl_pk (fd_listings s)" unfolding rows by (rule fold_put_listing_keys)
  show "fd_accounts s' = fd_accounts s" by (rule acc)
qed

text \<open>Rows selected in the order of their keys.\<close>

lemma sorted_page:
  assumes "listings_ok s"
  shows "sorted_wrt (<) (map rl_pk (take n (sort_key rl_pk (filter p (fd_listings s)))))"
    "\<forall>l\<in>set (take n (sort_key rl_pk (filter p (fd_listings s)))). p l \<and> get_listing (rl_pk l) s = Some l"
    "distinct (map rl_pk (take n (sort_key rl_pk (filter p (fd_listings s)))))"
proof -
  let ?ls = "sort_key rl_pk (filter p (fd_listings s))"
  have "distinct (map rl_pk (filter p (fd_listings s)))" using assms by (simp add: listings_ok_def distinct_map_filter)
  moreover have "mset (map rl_pk ?ls) = mset (map rl_pk (filter p (fd_listings s)))" by (simp only: mset_map mset_sort)
  ultimately have d: "distinct (map rl_pk ?ls)" using mset_eq_imp_distinct_iff by blast
  have "sorted (map rl_pk ?ls)" by simp
  then have s: "sorted_wrt (<) (map rl_pk ?ls)" using d strict_sorted_iff by blast
  show "sorted_wrt (<) (map rl_pk (take n ?ls))" using s by (simp add: take_map [symmetric] sorted_wrt_take)
  show "distinct (map rl_pk (take n ?ls))" using d by (simp add: take_map [symmetric] distinct_take)
  show "\<forall>l\<in>set (take n ?ls). p l \<and> get_listing (rl_pk l) s = Some l"
    using assms by (auto simp: get_listing_def listings_ok_def row_get_distinct_iff dest!: in_set_takeD)
qed

section \<open>A new generation\<close>

lemma supersede_all_listings:
  assumes "supersede_all E t k rs s = Inr s'"
  shows "fd_listings s' = fd_listings s" "fd_accounts s' = fd_accounts s"
proof -
  have one: "fd_listings s1 = fd_listings s0 \<and> fd_accounts s1 = fd_accounts s0"
    if "terminalize_locked st u e r s0 = Inr (x, s1)" for st u e r s0 x s1
    using that by (auto simp: terminalize_locked_def bind_ok_Inr_iff write_run_Inr put_run_def split: if_splits option.splits)
  have "fd_listings s' = fd_listings s \<and> fd_accounts s' = fd_accounts s"
    using assms by (induction rs arbitrary: s) (auto simp: bind_ok_Inr_iff split: if_splits dest!: one)
  then show "fd_listings s' = fd_listings s" "fd_accounts s' = fd_accounts s" by simp_all
qed

text \<open>C12: A new generation takes exactly the waiting listings. Creating a generation under a fresh
  identity stores a run in preparation whose totals are the number of unpublished pending listings of
  the account, tags those listings and no others, leaves the run as the only owner of the account, and
  repeating the request at any later time returns the same run and changes nothing.
\<close>

theorem new_generation_takes_waiting_listings:
  assumes "runs_ok s" "gr_id q = Some k" "get_run k s = None" "get_market account s = Some a"
    "create_or_supersede_feed_run E t account q s = Inr (r, s')"
  shows "get_run k s' = Some r \<and> fr_state r = Preparing \<and> fr_pending r = fr_total r \<and>
    fr_total r = length (filter (unpublished a) (fd_listings s)) \<and>
    fd_listings s' = map (\<lambda>l. if unpublished a l then l\<lparr>rl_run := Some k\<rparr> else l) (fd_listings s) \<and>
    filter (\<lambda>x. fr_account x = account \<and> is_owner x) (fd_runs s') = [r] \<and>
    create_or_supersede_feed_run E t' account q s' = Inr (r, s')"
  using assms(5)
proof (rule create_result)
  fix k' s0 b payload
  assume k': "generation_id q s = (k', s0)" and b: "get_market account s = Some b" "live b"
    and payload: "digest_arg True (gr_payload q) = Inr payload" "bundle_ok q"
    and res: "get_run k' s0 = Some r \<and> s' = s0 \<and> \<not> replay_objection b payload q r \<or>
     get_run k' s0 = None \<and> create_generation E t b payload q k' s0 = Inr (r, s')"
  have ids: "k' = k" "s0 = s" "b = a" using k' assms(2,4) b(1) by (simp_all add: generation_id_def)
  have acc: "ma_pk a = account" using assms(4) unfolding get_market_def by (rule row_get_key)
  have create: "create_generation E t a payload q k s = Inr (r, s')" using res ids assms(3) by simp
  then show ?thesis
  proof (rule create_generation_result)
    fix s1 s2
    assume sup: "supersede_all E t k (filter (\<lambda>r. fr_account r = ma_pk a \<and> active_run r) (fd_runs s)) s = Inr s1"
      and ins: "insert_run r s1 = Inr s2" and s': "s' = tag_listings a k s2"
      and r: "r = new_run E t k a payload q (length (filter (unpublished a) (fd_listings s)))"
      and calm: "\<forall>r\<in>set (fd_runs s). fr_account r = ma_pk a \<longrightarrow> fr_state r \<noteq> Outcome_Uncertain"
    have s2: "s2 = s1\<lparr>fd_runs := row_add r (fd_runs s1)\<rparr>" using ins by (simp add: insert_run_Inr)
    have runs: "fd_runs s' = fd_runs s1 @ [r]" by (simp add: s' s2 tag_listings_def row_add_def)
    have ls: "fd_listings s' = map (\<lambda>l. if unpublished a l then l\<lparr>rl_run := Some k\<rparr> else l) (fd_listings s)"
      using supersede_all_listings(1) [OF sup] by (simp add: s' s2 tag_listings_def update_where_def)
    have free: "get_run k s1 = None"
      using supersede_all_moves [OF sup assms(1) active_rows_here [OF assms(1)]] assms(3) by blast
    have id: "fr_id r = k" "fr_state r = Preparing" "fr_account r = account" "fr_pending r = fr_total r"
      "fr_total r = length (filter (unpublished a) (fd_listings s))" by (simp_all add: r new_run_def acc)
    have get: "get_run k s' = Some r" using free id(1) by (simp add: get_run_def runs row_add_def [symmetric] row_get_add)
    have "filter (\<lambda>x. fr_account x = account \<and> is_owner x) (fd_runs s1) = []"
      using account_is_free [OF sup assms(1) calm] acc by (auto simp: filter_empty_conv)
    moreover have "is_owner r" using id(2) by (simp add: is_owner_def ownership_states_def active_run_states_def)
    ultimately have only: "filter (\<lambda>x. fr_account x = account \<and> is_owner x) (fd_runs s') = [r]" using id(3) by (simp add: runs)
    have "fd_accounts s' = fd_accounts s" using supersede_all_listings(2) [OF sup] by (simp add: s' s2 tag_listings_def)
    then have m: "fetch_market account s' = Inr a" using assms(4) by (simp add: fetch_market_def get_market_def)
    have "\<not> replay_objection a payload q r" by (simp add: replay_objection_def r new_run_def)
    then have "create_or_supersede_feed_run E t' account q s' = Inr (r, s')"
      using payload b(2) ids(3) m get assms(2) by (simp add: create_or_supersede_feed_run_def generation_id_def)
    then show ?thesis using get id ls only by simp
  qed
qed

definition demo_closed_run :: feed_run where
  "demo_closed_run = demo_run\<lparr>fr_state := Failed, fr_token := None, fr_until := None, fr_next := None, fr_finished := Some (secs 90)\<rparr>"

definition demo_generation :: generation_request where
  "demo_generation = \<lparr>gr_id = Some 9, gr_payload = [], gr_intent = None, gr_endpoint = None, gr_predecessor = None\<rparr>"

definition demo_created :: feed_run where
  "demo_created = new_run demo_feed_env (secs 100) 9 demo_market [] demo_generation 2"

definition demo_created_feeds :: feeds where
  "demo_created_feeds = (demo_feeds_with demo_closed_run)
     \<lparr>fd_runs := [demo_closed_run, demo_created],
      fd_listings := [(demo_listing 11)\<lparr>rl_run := Some 9\<rparr>, (demo_listing 12)\<lparr>rl_run := Some 9\<rparr>]\<rparr>"

lemma demo_closed_eval:
  "fr_id demo_closed_run = 1" "\<not> active_run demo_closed_run" "\<not> is_owner demo_closed_run" "fr_state demo_closed_run = Failed"
  "columns_fit demo_closed_run" "mode_ok demo_closed_run" "fr_account demo_closed_run = 5" "fr_intent demo_closed_run = None"
  "fr_provider demo_closed_run = None"
  by (simp_all add: demo_closed_run_def demo_run_def active_run_def is_owner_def ownership_states_def active_run_states_def
      columns_fit_def mode_ok_def)

lemma demo_create:
  "create_or_supersede_feed_run demo_feed_env (secs 100) 5 demo_generation (demo_feeds_with demo_closed_run) =
     Inr (demo_created, demo_created_feeds)"
proof -
  let ?s = "demo_feeds_with demo_closed_run"
  have rows: "fd_runs ?s = [demo_closed_run]" "fd_listings ?s = [demo_listing 11, demo_listing 12]"
    by (simp_all add: demo_feeds_with_def)
  have waiting: "unpublished demo_market (demo_listing k)" for k
    by (simp add: unpublished_def demo_market_def demo_listing_def)
  have c: "columns_fit demo_created" "mode_ok demo_created" "fr_provider demo_created = None" "fr_intent demo_created = None"
    by (simp_all add: demo_created_def new_run_def demo_generation_def columns_fit_def mode_ok_def)
  have "run_constraint demo_created (fd_runs ?s) = None"
    using c by (simp add: run_constraint_None rows owner_clash_def provider_clash_def intent_clash_def demo_closed_eval)
  then have ins: "insert_run demo_created ?s = Inr (?s\<lparr>fd_runs := [demo_closed_run, demo_created]\<rparr>)"
    by (simp add: insert_run_Inr rows row_add_def)
  have tag: "tag_listings demo_market 9 (?s\<lparr>fd_runs := [demo_closed_run, demo_created]\<rparr>) = demo_created_feeds"
    by (simp add: tag_listings_def demo_created_feeds_def update_where_def waiting) (simp add: demo_feeds_with_def waiting)
  have "create_generation demo_feed_env (secs 100) demo_market [] demo_generation 9 ?s = Inr (demo_created, demo_created_feeds)"
    using ins tag
    by (simp add: create_generation_def rows waiting max_generation_listings_def demo_closed_eval demo_created_def numeral_2_eq_2)
  moreover have "get_run 9 ?s = None" by (simp add: demo_feeds_get demo_closed_eval)
  moreover have "gr_payload demo_generation = []" "gr_id demo_generation = Some 9" "bundle_ok demo_generation"
    by (simp_all add: demo_generation_def bundle_ok_def)
  ultimately show ?thesis
    by (simp add: create_or_supersede_feed_run_def digest_arg_def generation_id_def fetch_market_def demo_feeds_get demo_live)
qed

theorem new_generation_takes_waiting_listings_witness:
  "get_run 9 demo_created_feeds = Some demo_created \<and> fr_total demo_created = 2 \<and>
   create_or_supersede_feed_run demo_feed_env (secs 900) 5 demo_generation demo_created_feeds = Inr (demo_created, demo_created_feeds)"
proof -
  have "gr_id demo_generation = Some 9" "get_run 9 (demo_feeds_with demo_closed_run) = None" "runs_ok (demo_feeds_with demo_closed_run)"
    by (simp_all add: demo_generation_def demo_feeds_get demo_closed_eval demo_runs_ok)
  moreover have "fr_total demo_created = 2" by (simp add: demo_created_def new_run_def)
  ultimately show ?thesis
    using new_generation_takes_waiting_listings [where t' = "secs 900", OF _ _ _ demo_feeds_get(2) demo_create] by blast
qed

section \<open>Poll pages\<close>

lemma map_filter_get:
  assumes "\<And>l x. f l = Some x \<Longrightarrow> rl_pk x = rl_pk l" "distinct (map rl_pk ls)"
  shows "row_get rl_pk i (List.map_filter f ls) = (case row_get rl_pk i ls of None \<Rightarrow> None | Some l \<Rightarrow> f l)"
  using assms(2)
proof (induction ls)
  case Nil
  then show ?case by (simp add: List.map_filter_def)
next
  case (Cons l ls)
  have rest: "row_get rl_pk i ls = None" if "rl_pk l = i" using that Cons.prems by (auto simp: row_get_None_iff)
  show ?case
  proof (cases "f l")
    case None
    then show ?thesis using Cons rest by (auto simp: map_filter_simps)
  next
    case (Some x)
    then show ?thesis using Cons assms(1) by (auto simp: map_filter_simps)
  qed
qed

lemma map_filter_keys:
  assumes "\<And>l x. f l = Some x \<Longrightarrow> rl_pk x = rl_pk l"
  shows "map rl_pk (List.map_filter f ls) = map rl_pk (filter (\<lambda>l. f l \<noteq> None) ls)"
  using assms by (induction ls) (auto simp: map_filter_simps split: option.splits)

lemma published_listing_sel [simp]:
  "rl_pk (published_listing t x l) = rl_pk l" "rl_status (published_listing t x l) = Ls_Active"
  "rl_run (published_listing t x l) = rl_run l" "rl_account (published_listing t x l) = rl_account l"
  "rl_tenant (published_listing t x l) = rl_tenant l" "rl_external (published_listing t x l) = Some x"
  by (simp_all add: published_listing_def)

lemma filter_map_key: "map f (filter (\<lambda>l. p (f l)) ls) = filter p (map f ls)"
  by (induction ls) auto

text \<open>The row of a run after a transition, in the state that the operation returns.\<close>

lemma transition_row:
  assumes "transition_claimed t c f s = Inr (x, s')" "get_run (fr_id (cl_run c)) s = Some r" "fr_id (f r) = fr_id r"
  shows "x = released (f r)" "get_run (fr_id (cl_run c)) s' = Some x" "fd_listings s' = fd_listings s"
proof -
  obtain r' where r': "get_run (fr_id (cl_run c)) s = Some r'" "x = released (f r')" "write_run x s = Inr s'"
    using assms(1) by (rule transition_result)
  show x: "x = released (f r)" using r' assms(2) by simp
  have "fr_id x = fr_id (cl_run c)" using x assms(3) get_run_id [OF assms(2)] by simp
  then show "get_run (fr_id (cl_run c)) s' = Some x" using write_get [OF r'(3), of r "fr_id (cl_run c)"] assms(2) by simp
  show "fd_listings s' = fd_listings s" using r'(3) by (simp add: write_run_Inr put_run_def)
qed

lemma counter_values_result:
  assumes "counter_values r p j d = Inr g"
  shows "g x = x\<lparr>fr_published := fr_published r + nat p, fr_rejected := fr_rejected r + nat j, fr_pending := fr_pending r - nat (p + j + d)\<rparr>"
    "p + j + d \<le> int (fr_pending r)" "fr_published r + nat p + (fr_rejected r + nat j) + (fr_pending r - nat (p + j + d)) \<le> fr_total r"
  using assms by (auto simp: counter_values_def Let_def split: if_splits)

text \<open>C11: A poll page publishes exactly what the provider resolved. The page is the next waiting
  listings after the cursor; those the provider resolved become active under the provider's id, every
  other listing stays as it was, the counters move by the number of published ones, and the cursor
  moves to the end of the page.
\<close>

theorem poll_page_publishes_what_was_resolved:
  assumes "runs_ok s" "listings_ok s" "get_run (fr_id (cl_run c)) s = Some r"
    "apply_poll_page E t c ids vs last_id again s = Inr (res, s')"
  shows "ids = map rl_pk (poll_page max_poll_batch_size (\<lambda>l. awaiting r l \<and> rl_tenant l = fr_tenant r) (fr_cursor r) s) \<and>
    pg_changed res = filter (\<lambda>i. map_of vs i \<noteq> None) ids \<and>
    get_listing i s' = (case get_listing i s of
        None \<Rightarrow> None
      | Some l \<Rightarrow> Some (case map_of vs i of Some v \<Rightarrow> if i \<in> set ids then published_listing t (strip v) l else l | None \<Rightarrow> l)) \<and>
    get_run (fr_id r) s' = Some (pg_run res) \<and> fr_cursor (pg_run res) = last_id \<and>
    fr_published (pg_run res) = fr_published r + length (pg_changed res) \<and>
    fr_pending r = fr_pending (pg_run res) + length (pg_changed res)"
  using assms(4)
proof (rule poll_page_result)
  fix r' external page changed s1 g x s2
  assume ids: "poll_listing_ids ids" "last_id = last ids" and ext: "resolved_external_ids ids vs = Inr external"
    and lk: "lock_claimed_run E t c [Polling] s = Inr r'"
    and page: "page = poll_page max_poll_batch_size (\<lambda>l. awaiting r' l \<and> rl_tenant l = fr_tenant r') (fr_cursor r') s"
    and keys: "map rl_pk page = ids" and ch: "changed = newly_published t external page"
    and sv: "save_listings changed s = Inr s1" and g: "counter_values r' (int (length changed)) 0 0 = Inr g"
    and w: "transition_claimed t c (\<lambda>x. (g x)\<lparr>fr_cursor := last_id, fr_next := Some again, fr_error := []\<rparr>)
       (log_sync (map (published_entry r') changed) s1) = Inr (x, s2)"
    and res: "res = \<lparr>pg_run = x, pg_changed = map rl_pk changed, pg_published = length changed, pg_rejected = 0\<rparr>"
    and s': "s' = (if changed = [] then s2 else advance_status_batch (fr_account r') (t + published_status_recheck_delay) s2)"
  have r': "r' = r" using lock_claimed_result(1) [OF lk] assms(3) by simp
  have e: "external k = map_option strip (map_of vs k)" for k using ext by (auto simp: resolved_external_ids_def split: if_splits)
  let ?f = "\<lambda>l. map_option (\<lambda>x. published_listing t x l) (external (rl_pk l))"
  have f: "rl_pk y = rl_pk l" if "?f l = Some y" for l y using that by auto
  have c: "changed = List.map_filter ?f page" by (simp add: ch newly_published_def)
  note pg = sorted_page [OF assms(2), of max_poll_batch_size "\<lambda>l. (awaiting r' l \<and> rl_tenant l = fr_tenant r') \<and> fr_cursor r' < rl_pk l",
      folded poll_page_def, folded page]
  have "map rl_pk changed = map rl_pk (filter (\<lambda>l. ?f l \<noteq> None) page)" unfolding c by (rule map_filter_keys) (rule f)
  also have "\<dots> = map rl_pk (filter (\<lambda>l. map_of vs (rl_pk l) \<noteq> None) page)" by (simp add: e)
  also have "\<dots> = filter (\<lambda>i. map_of vs i \<noteq> None) (map rl_pk page)" by (rule filter_map_key)
  finally have changed_keys: "map rl_pk changed = filter (\<lambda>i. map_of vs i \<noteq> None) ids" unfolding keys .
  have "distinct (map rl_pk changed)" using pg(3) keys by (simp add: changed_keys)
  moreover have "\<forall>l\<in>set changed. get_listing (rl_pk l) s \<noteq> None"
    using pg(2) by (auto simp: c List.map_filter_def)
  ultimately have l1: "get_listing i s1 = (case row_get rl_pk i changed of Some l \<Rightarrow> Some l | None \<Rightarrow> get_listing i s)"
    by (rule save_listings_get(1) [OF sv])
  have pageget: "row_get rl_pk i page = (if i \<in> set ids then get_listing i s else None)"
  proof (cases "i \<in> set ids")
    case True
    then obtain l where "l \<in> set page" "rl_pk l = i" using keys by auto
    then show ?thesis using pg(2,3) True by (auto simp: row_get_distinct_iff)
  next
    case False
    then show ?thesis using keys by (auto simp: row_get_None_iff)
  qed
  have known: "get_listing i s \<noteq> None" if "i \<in> set ids" using that keys pg(2) by force
  have "row_get rl_pk i changed = (case row_get rl_pk i page of None \<Rightarrow> None | Some l \<Rightarrow> ?f l)"
    unfolding c using f pg(3) by (rule map_filter_get)
  then have changed_get: "row_get rl_pk i changed =
      (if i \<in> set ids then (case get_listing i s of None \<Rightarrow> None | Some l \<Rightarrow> map_option (\<lambda>v. published_listing t (strip v) l) (map_of vs i))
       else None)"
    using pageget by (auto simp: e get_listing_def option.map_comp comp_def dest: row_get_key split: option.splits)
  have l2: "get_listing i s1 = (case get_listing i s of
        None \<Rightarrow> None
      | Some l \<Rightarrow> Some (case map_of vs i of Some v \<Rightarrow> if i \<in> set ids then published_listing t (strip v) l else l | None \<Rightarrow> l))"
    using known by (cases "get_listing i s"; cases "map_of vs i") (simp_all add: l1 changed_get)
  have same: "get_run k (log_sync es s1) = get_run k s" for k es by (rule get_run_frame) (simp add: save_listings_runs [OF sv])
  note row = transition_row [OF w, of r]
  have at: "get_run (fr_id (cl_run c)) (log_sync (map (published_entry r') changed) s1) = Some r" using same assms(3) by simp
  note gk = counter_values_keeps(4) [OF g, of r]
  have x: "x = released ((g r)\<lparr>fr_cursor := last_id, fr_next := Some again, fr_error := []\<rparr>)"
    "get_run (fr_id (cl_run c)) s2 = Some x" "fd_listings s2 = fd_listings s1"
    using row [OF at] gk by (simp_all add: log_sync_def)
  have after: "get_run k s' = get_run k s2" "get_listing k s' = get_listing k s2" for k
    by (simp_all add: s' get_run_def get_listing_def advance_status_batch_def)
  have counts: "fr_published x = fr_published r + length changed" "fr_pending r = fr_pending x + length changed" "fr_cursor x = last_id"
    using counter_values_result [OF g] by (simp_all add: x(1) released_def r')
  have "get_listing i s2 = get_listing i s1" by (simp add: get_listing_def x(3))
  moreover have "ids = map rl_pk (poll_page max_poll_batch_size (\<lambda>l. awaiting r l \<and> rl_tenant l = fr_tenant r) (fr_cursor r) s)"
    using keys page r' by simp
  moreover have "length (map rl_pk changed) = length changed" by simp
  ultimately show ?thesis using x(2) after l2 changed_keys counts get_run_id [OF assms(3)] by (simp add: res)
qed

definition demo_polling_run :: feed_run where
  "demo_polling_run = demo_run\<lparr>fr_state := Polling, fr_revision := 4, fr_provider := Some ''42'', fr_predecessor := Some ''41'',
     fr_submitted := Some (secs 210), fr_deadline := Some (secs 173010)\<rparr>"

definition demo_poll_claim :: feed_claim where
  "demo_poll_claim = \<lparr>cl_run = demo_polling_run, cl_token = 7, cl_until = secs 500\<rparr>"

lemma demo_polling_sel:
  "fr_id demo_polling_run = 1" "fr_account demo_polling_run = 5" "fr_tenant demo_polling_run = 3" "fr_cursor demo_polling_run = 0"
  "fr_state demo_polling_run = Polling" "fr_identity demo_polling_run = ''6b''" "fr_total demo_polling_run = 2"
  "fr_pending demo_polling_run = 2" "fr_published demo_polling_run = 0" "fr_rejected demo_polling_run = 0"
  "columns_fit demo_polling_run" "mode_ok demo_polling_run" "fr_page demo_polling_run = 1"
  by (simp_all add: demo_polling_run_def demo_run_def columns_fit_def mode_ok_def)

lemma demo_awaiting: "fr_id r = 1 \<Longrightarrow> fr_account r = 5 \<Longrightarrow> awaiting r (demo_listing k)"
  by (simp add: awaiting_def demo_listing_def)

lemma demo_listing_sel: "rl_pk (demo_listing k) = k" "rl_tenant (demo_listing k) = 3" "rl_external (demo_listing k) = None"
  "rl_key (demo_listing k) = 100 + k" "rl_account (demo_listing k) = 5" "rl_run (demo_listing k) = Some 1"
  "rl_status (demo_listing k) = Ls_Pending"
  by (simp_all add: demo_listing_def)

lemma demo_rows: "fd_listings (demo_feeds_with r) = [demo_listing 11, demo_listing 12]"
  by (simp add: demo_feeds_with_def)

lemma demo_lock:
  assumes "fr_id r = 1" "fr_account r = 5" "fr_identity r = ''6b''" "fr_state r \<in> set allowed" "fr_token r = Some 7"
    "fr_until r = Some (secs 500)" "t < secs 500"
  shows "lock_claimed_run demo_feed_env t \<lparr>cl_run = r, cl_token = 7, cl_until = secs 500\<rparr> allowed (demo_feeds_with r) = Inr r"
  using assms by (simp add: lock_claimed_run_def demo_feeds_get demo_live demo_identity claim_matches_def)

lemma demo_poll:
  obtains res s' where "apply_poll_page demo_feed_env (secs 300) demo_poll_claim [11, 12] [(11, ''900'')] 12 (secs 330)
    (demo_feeds_with demo_polling_run) = Inr (res, s')"
proof -
  let ?s = "demo_feeds_with demo_polling_run" and ?r = demo_polling_run
  let ?l = "published_listing (secs 300) ''900'' (demo_listing 11)"
  have lk: "lock_claimed_run demo_feed_env (secs 300) demo_poll_claim [Polling] ?s = Inr ?r"
    unfolding demo_poll_claim_def by (rule demo_lock) (simp_all add: demo_polling_sel demo_polling_run_def demo_run_def secs_def)
  have ext: "resolved_external_ids [11, 12] [(11, ''900'')] = Inr (\<lambda>k. map_option strip (map_of [(11, ''900'')] k))"
    by (simp add: resolved_external_ids_def max_poll_batch_size_def external_id_ok_def strip_def is_space_def)
  have page: "poll_page max_poll_batch_size (\<lambda>l. awaiting ?r l \<and> rl_tenant l = fr_tenant ?r) (fr_cursor ?r) ?s =
      [demo_listing 11, demo_listing 12]"
    by (simp add: poll_page_def demo_rows demo_awaiting demo_polling_sel demo_listing_sel max_poll_batch_size_def)
  have "strip ''900'' = ''900''" by (simp add: strip_def is_space_def)
  then have ch: "newly_published (secs 300) (\<lambda>k. map_option strip (map_of [(11, ''900'')] k)) [demo_listing 11, demo_listing 12] = [?l]"
    by (simp add: newly_published_def map_filter_simps demo_listing_sel)
  have sv: "save_listings [?l] ?s = Inr (?s\<lparr>fd_listings := [?l, demo_listing 12]\<rparr>)"
    by (simp add: save_listings_def demo_rows external_clash_def demo_listing_sel)
  have g: "counter_values ?r 1 0 0 = Inr (\<lambda>x. x\<lparr>fr_published := 1, fr_rejected := 0, fr_pending := 1\<rparr>)"
    by (simp add: counter_values_def demo_polling_sel)
  let ?s1 = "log_sync [published_entry ?r ?l] (?s\<lparr>fd_listings := [?l, demo_listing 12]\<rparr>)"
  let ?f = "\<lambda>x. x\<lparr>fr_published := 1, fr_rejected := 0, fr_pending := 1, fr_cursor := 12, fr_next := Some (secs 330), fr_error := []\<rparr>"
  have "get_run 1 ?s1 = Some ?r" by (simp add: get_run_def log_sync_def demo_feeds_with_def demo_polling_sel)
  moreover have "claim_matches demo_poll_claim (secs 300) ?r"
    using lock_claimed_result(2) [OF lk] .
  moreover have "run_constraint (released (?f ?r)) (fd_runs ?s1) = None"
    by (simp add: run_constraint_None log_sync_def demo_feeds_with_def owner_clash_def provider_clash_def intent_clash_def)
      (simp add: released_def columns_fit_def mode_ok_def demo_polling_run_def demo_run_def)
  ultimately obtain s2 where "transition_claimed (secs 300) demo_poll_claim ?f ?s1 = Inr (released (?f ?r), s2)"
    by (simp add: transition_claimed_def write_run_def demo_poll_claim_def demo_polling_sel)
  then have "\<exists>y. apply_poll_page demo_feed_env (secs 300) demo_poll_claim [11, 12] [(11, ''900'')] 12 (secs 330) ?s = Inr y"
    using lk ext page ch sv g
    by (simp add: apply_poll_page_def poll_listing_ids_def max_poll_batch_size_def demo_listing_sel demo_poll_claim_def)
  then show ?thesis using that by force
qed

theorem poll_page_publishes_what_was_resolved_witness:
  "\<exists>res s'. apply_poll_page demo_feed_env (secs 300) demo_poll_claim [11, 12] [(11, ''900'')] 12 (secs 330)
      (demo_feeds_with demo_polling_run) = Inr (res, s') \<and> pg_changed res = [11] \<and> fr_cursor (pg_run res) = 12 \<and>
    get_listing 12 s' = Some (demo_listing 12) \<and> fr_published (pg_run res) = 1"
proof -
  obtain res s' where p: "apply_poll_page demo_feed_env (secs 300) demo_poll_claim [11, 12] [(11, ''900'')] 12 (secs 330)
    (demo_feeds_with demo_polling_run) = Inr (res, s')" by (rule demo_poll)
  have h: "listings_ok (demo_feeds_with demo_polling_run)" "runs_ok (demo_feeds_with demo_polling_run)"
    "get_run (fr_id (cl_run demo_poll_claim)) (demo_feeds_with demo_polling_run) = Some demo_polling_run"
    by (simp_all add: listings_ok_def demo_rows demo_listing_sel demo_runs_ok demo_polling_sel demo_poll_claim_def demo_feeds_get)
  have "get_listing 12 (demo_feeds_with demo_polling_run) = Some (demo_listing 12)"
    by (simp add: get_listing_def demo_rows demo_listing_sel)
  then show ?thesis
    using poll_page_publishes_what_was_resolved [OF h(2,1,3) p, of 12] p by (auto simp: demo_polling_sel)
qed

section \<open>Report pages\<close>

lemma rejected_listing_sel [simp]:
  "rl_pk (rejected_listing t e l) = rl_pk l" "rl_status (rejected_listing t e l) = Ls_Rejected"
  "rl_external (rejected_listing t e l) = rl_external l" "rl_run (rejected_listing t e l) = rl_run l"
  by (simp_all add: rejected_listing_def)

lemma reported_key: "reported_listing t errors external l = Some x \<Longrightarrow> rl_pk x = rl_pk l"
  by (auto simp: reported_listing_def split: option.splits)

lemma count_same: "same_generation r x \<Longrightarrow> count_status st x s = count_status st r s"
  by (simp add: count_status_def in_run_def same_generation_def)

lemma count_frame: "fd_listings s' = fd_listings s \<Longrightarrow> count_status st r s' = count_status st r s"
  by (simp add: count_status_def)

lemma recomputed_result:
  assumes "recomputed_counters r s = Inr g"
  shows "g x = x\<lparr>fr_published := count_status Ls_Active r s, fr_rejected := count_status Ls_Rejected r s, fr_pending := count_status Ls_Pending r s\<rparr>"
  using assms by (auto simp: recomputed_counters_def Let_def split: if_splits)

text \<open>What a report page makes of the row.\<close>

definition report_outcome :: "instant \<Rightarrow> report_page \<Rightarrow> feeds \<Rightarrow> feed_run \<Rightarrow> bool" where
  "report_outcome t q s x \<longleftrightarrow>
     (case rp_next q of
        Some n \<Rightarrow> fr_state x = Reporting \<and> fr_page x = n \<and> fr_next x = rp_again q
      | None \<Rightarrow>
          fr_published x = count_status Ls_Active x s \<and> fr_rejected x = count_status Ls_Rejected x s \<and>
          fr_pending x = count_status Ls_Pending x s \<and>
          (if fr_pending x = 0 then fr_state x = Succeeded \<and> fr_report_done x = Some t \<and> fr_finished x = Some t
           else if rp_complete q then fr_state x = Polling \<and> fr_cursor x = 0 \<and> fr_report_done x = Some t
           else fr_state x = Reporting \<and> fr_page x = 1 \<and> fr_report_done x = None))"

lemma report_updates_outcome:
  assumes "report_updates t q r p j s = Inr g" "fr_state r = Reporting" "fd_listings s' = fd_listings s"
  shows "report_outcome t q s' (released (g r))"
proof (cases "rp_next q")
  case (Some n)
  then obtain h where "counter_values r (int p) (int j) 0 = Inr h"
      "g = (\<lambda>x. (h x)\<lparr>fr_page := n, fr_report_attempt := 0, fr_next := rp_again q, fr_error := []\<rparr>)"
    using assms(1) by (auto simp: report_updates_def bind_ok_Inr_iff)
  then show ?thesis using counter_values_keeps(3) [of r "int p" "int j" 0 h r] assms(2) Some
    by (simp add: report_outcome_def released_def)
next
  case None
  then obtain h where h: "recomputed_counters r s = Inr h" and
      g: "g = (if count_status Ls_Pending r s = 0
          then (\<lambda>x. (h x)\<lparr>fr_state := Succeeded, fr_next := None, fr_report_attempt := 0,
                 fr_report_done := Some t, fr_error := [], fr_finished := Some t\<rparr>)
          else if rp_complete q
          then (\<lambda>x. (h x)\<lparr>fr_state := Polling, fr_cursor := 0, fr_round := fr_round r + 1, fr_page := 1,
                 fr_report_attempt := 0, fr_report_done := Some t, fr_next := Some (t + unresolved_poll_retry_delay),
                 fr_error := [], fr_finished := None\<rparr>)
          else (\<lambda>x. (h x)\<lparr>fr_state := Reporting, fr_page := 1, fr_report_attempt := 0,
                 fr_report_done := None, fr_next := rp_again q, fr_error := [], fr_finished := None\<rparr>))"
    using assms(1) by (auto simp: report_updates_def bind_ok_Inr_iff split: if_splits)
  have "same_generation r (g r)" using recomputed_keeps(1) [OF h, of r] by (simp add: g same_generation_def)
  then have "same_generation r (released (g r))" by simp
  then have "count_status st (released (g r)) s' = count_status st r s" for st
    using count_same count_frame [OF assms(3)] by simp
  moreover have "fr_published (released (g r)) = count_status Ls_Active r s" "fr_rejected (released (g r)) = count_status Ls_Rejected r s"
      "fr_pending (released (g r)) = count_status Ls_Pending r s"
    by (simp_all add: g recomputed_result [OF h] released_def)
  ultimately show ?thesis using None by (simp add: report_outcome_def) (simp add: g released_def)
qed

text \<open>The outcomes of a page name at most a batch of keys and a key belongs to one listing, so the limit
  of the query cuts nothing off.\<close>

lemma reported_rows_all:
  assumes "distinct (map rl_key (fd_listings s))" "outcomes_ok errors external"
  shows "reported_rows r (map fst errors @ map fst external) s =
    sort_key rl_pk (filter (\<lambda>l. awaiting r l \<and> rl_tenant l = fr_tenant r \<and>
      rl_key l \<in> set (map fst errors @ map fst external)) (fd_listings s))"
proof -
  let ?ads = "map fst errors @ map fst external"
  let ?ls = "filter (\<lambda>l. awaiting r l \<and> rl_tenant l = fr_tenant r \<and> rl_key l \<in> set ?ads) (fd_listings s)"
  have "distinct (map rl_key ?ls)" using assms(1) by (rule distinct_map_filter)
  then have "length ?ls = card (set (map rl_key ?ls))" using distinct_card [of "map rl_key ?ls"] by simp
  also have "\<dots> \<le> card (set ?ads)" by (rule card_mono) auto
  also have "\<dots> = length (remdups ?ads)" by (rule length_remdups_card_conv [symmetric])
  also have "\<dots> \<le> max_poll_batch_size" using assms(2) by (simp add: outcomes_ok_def)
  finally show ?thesis unfolding reported_rows_def by simp
qed

lemma option_filter_eq:
  assumes "\<And>l. x = Some l \<longleftrightarrow> y = Some l \<and> P l"
  shows "x = (case y of None \<Rightarrow> None | Some l \<Rightarrow> if P l then Some l else None)"
proof (cases x)
  case None
  then have "\<not> (y = Some l \<and> P l)" for l using assms [of l] by simp
  then show ?thesis using None by (simp split: option.split)
next
  case (Some l)
  then have "y = Some l \<and> P l" using assms [of l] by simp
  then show ?thesis using Some by simp
qed

lemma reported_row:
  assumes "distinct (map rl_key (fd_listings s))" "outcomes_ok errors external" "listings_ok s"
  shows "row_get rl_pk i (reported_rows r (map fst errors @ map fst external) s) =
    (case get_listing i s of
       None \<Rightarrow> None
     | Some l \<Rightarrow> if awaiting r l \<and> rl_tenant l = fr_tenant r \<and> rl_key l \<in> set (map fst errors @ map fst external)
         then Some l else None)"
proof -
  let ?p = "\<lambda>l. awaiting r l \<and> rl_tenant l = fr_tenant r \<and> rl_key l \<in> set (map fst errors @ map fst external)"
  have "distinct (map rl_pk (filter ?p (fd_listings s)))" using assms(3) by (simp add: listings_ok_def distinct_map_filter)
  moreover have "mset (map rl_pk (sort_key rl_pk (filter ?p (fd_listings s)))) = mset (map rl_pk (filter ?p (fd_listings s)))"
    by (simp only: mset_map mset_sort)
  ultimately have "distinct (map rl_pk (sort_key rl_pk (filter ?p (fd_listings s))))" using mset_eq_imp_distinct_iff by blast
  then have get: "row_get rl_pk i (reported_rows r (map fst errors @ map fst external) s) = Some l \<longleftrightarrow>
      l \<in> set (fd_listings s) \<and> ?p l \<and> rl_pk l = i" for l
    unfolding reported_rows_all [OF assms(1,2)] by (auto simp: row_get_distinct_iff)
  moreover have "get_listing i s = Some l \<longleftrightarrow> l \<in> set (fd_listings s) \<and> rl_pk l = i" for l
    using assms(3) by (simp add: get_listing_def listings_ok_def row_get_distinct_iff)
  ultimately have "row_get rl_pk i (reported_rows r (map fst errors @ map fst external) s) = Some l \<longleftrightarrow>
      get_listing i s = Some l \<and> ?p l" for l by blast
  then show ?thesis by (rule option_filter_eq)
qed

text \<open>What a page that reports \<open>errors\<close> and ids makes of a listing.\<close>

definition settled_listing ::
    "instant \<Rightarrow> feed_run \<Rightarrow> (uuid \<times> string) list \<Rightarrow> (uuid \<times> string) list \<Rightarrow> run_listing \<Rightarrow> run_listing" where
  "settled_listing t r errors external l =
     (if \<not> awaiting r l \<or> rl_tenant l \<noteq> fr_tenant r then l
      else case map_of errors (rl_key l) of
        Some reason \<Rightarrow> rejected_listing t reason l
      | None \<Rightarrow> (case map_of external (rl_key l) of None \<Rightarrow> l | Some x \<Rightarrow> published_listing t x l))"

text \<open>C10: A report page settles what it names, and the run ends exactly when nothing is pending. A
  listing that waits in this generation and that the page names with a reason is rejected with that
  reason, one that it names with an id is active under that id, and every other listing stays as it
  was. While there is a next page the run moves on to exactly that page; after the last one its
  counters are recounted from the listings, and it succeeds if none is pending, goes back to polling
  when the provider is done, and reads the report again otherwise.
\<close>

theorem report_page_settles_the_run:
  assumes "runs_ok s" "listings_ok s" "get_run (fr_id (cl_run c)) s = Some r" "apply_report_page E t c q s = Inr (res, s')"
    and "distinct (map rl_key (fd_listings s))"
  shows "get_run (fr_id r) s' = Some (pg_run res) \<and> report_outcome t q s' (pg_run res) \<and>
    (\<exists>errors external. report_errors E (rp_errors q) = Inr errors \<and> report_external_ids E (rp_external q) = Inr external \<and>
       (\<forall>i. get_listing i s' = map_option (settled_listing t r errors external) (get_listing i s)))"
  using assms(4)
proof (rule report_page_result)
  fix r' errors external changed rejected published s1 g x s2
  assume er: "report_errors E (rp_errors q) = Inr errors" and ex: "report_external_ids E (rp_external q) = Inr external"
    and oo: "outcomes_ok errors external"
    and lk: "lock_claimed_run E t c [Reporting] s = Inr r'"
    and ch: "changed = List.map_filter (reported_listing t (map_of errors) (map_of external))
                    (reported_rows r' (map fst errors @ map fst external) s)"
    and sv: "save_listings changed s = Inr s1"
    and g: "report_updates t q r' (length published) (length rejected) s1 = Inr g"
    and w: "transition_claimed t c g
       (log_sync (map (rejected_entry r') rejected @ map (published_entry r') published) s1) = Inr (x, s2)"
    and res: "res = \<lparr>pg_run = x, pg_changed = map rl_pk changed, pg_published = length published, pg_rejected = length rejected\<rparr>"
    and s': "s' = (if published = [] then s2 else advance_status_batch (fr_account r') (t + published_status_recheck_delay) s2)"
  have r': "r' = r" using lock_claimed_result(1) [OF lk] assms(3) by simp
  have st: "fr_state r = Reporting" using lock_claimed_result(3) [OF lk] r' by simp
  define page where "page = reported_rows r (map fst errors @ map fst external) s"
  have c: "changed = List.map_filter (reported_listing t (map_of errors) (map_of external)) page" by (simp add: ch page_def r')
  have pg: "distinct (map rl_pk page)" "\<forall>l\<in>set page. awaiting r l \<and> get_listing (rl_pk l) s = Some l"
    using sorted_page(2,3) [OF assms(2), of max_poll_batch_size
        "\<lambda>l. awaiting r l \<and> rl_tenant l = fr_tenant r \<and> rl_key l \<in> set (map fst errors @ map fst external)"]
    unfolding page_def reported_rows_def by blast+
  have "map rl_pk changed = map rl_pk (filter (\<lambda>l. reported_listing t (map_of errors) (map_of external) l \<noteq> None) page)"
    unfolding c by (rule map_filter_keys) (rule reported_key)
  then have "distinct (map rl_pk changed)" using pg(1) by (simp add: distinct_map_filter)
  moreover have "\<forall>l\<in>set changed. get_listing (rl_pk l) s \<noteq> None"
  proof
    fix l assume "l \<in> set changed"
    then obtain y where "y \<in> set page" "reported_listing t (map_of errors) (map_of external) y = Some l"
      by (auto simp: c List.map_filter_def)
    then show "get_listing (rl_pk l) s \<noteq> None" using pg(2) reported_key by force
  qed
  ultimately have l1: "get_listing i s1 = (case row_get rl_pk i changed of Some l \<Rightarrow> Some l | None \<Rightarrow> get_listing i s)" for i
    by (rule save_listings_get(1) [OF sv])
  have chg: "row_get rl_pk i changed = (case row_get rl_pk i page of None \<Rightarrow> None | Some l \<Rightarrow> reported_listing t (map_of errors) (map_of external) l)" for i
    unfolding c by (rule map_filter_get) (auto intro: pg(1) dest: reported_key)
  have listing: "get_listing i s1 = map_option (settled_listing t r errors external) (get_listing i s)" for i
  proof (cases "get_listing i s")
    case None
    then show ?thesis
      using l1 [of i] chg [of i] reported_row [OF assms(5) oo assms(2), of i r] by (simp add: page_def)
  next
    case (Some l)
    let ?named = "rl_key l \<in> set (map fst errors @ map fst external)"
    have p: "row_get rl_pk i page = (if awaiting r l \<and> rl_tenant l = fr_tenant r \<and> ?named then Some l else None)"
      using reported_row [OF assms(5) oo assms(2), of i r] Some by (simp add: page_def)
    have n: "map_of errors (rl_key l) = None \<and> map_of external (rl_key l) = None \<longleftrightarrow> \<not> ?named"
      by (simp add: map_of_eq_None_iff)
    show ?thesis
      using l1 [of i] chg [of i] p n Some
      by (auto simp: settled_listing_def reported_listing_def split: option.splits if_splits)
  qed
  let ?s = "log_sync (map (rejected_entry r') rejected @ map (published_entry r') published) s1"
  have at: "get_run (fr_id (cl_run c)) ?s = Some r"
    using assms(3) by (simp add: get_run_def save_listings_runs [OF sv])
  have gid: "fr_id (g r) = fr_id r" using report_updates_keeps [OF g, of r] st by (simp add: same_generation_def)
  note row = transition_row [OF w at gid]
  have ls: "fd_listings s' = fd_listings s1" using row(3) by (simp add: s' log_sync_def advance_status_batch_def)
  have "get_run (fr_id r) s' = Some x" using row(2) get_run_id [OF assms(3)] by (simp add: s' get_run_def)
  moreover have "report_outcome t q s' x"
    unfolding row(1) using g [unfolded r'] st ls by (rule report_updates_outcome)
  moreover have "\<forall>i. get_listing i s' = map_option (settled_listing t r errors external) (get_listing i s)"
    using listing by (simp add: get_listing_def ls)
  ultimately show ?thesis using er ex by (simp add: res)
qed

definition demo_reporting_run :: feed_run where
  "demo_reporting_run = demo_polling_run\<lparr>fr_state := Reporting\<rparr>"

definition demo_report_claim :: feed_claim where
  "demo_report_claim = \<lparr>cl_run = demo_reporting_run, cl_token = 7, cl_until = secs 500\<rparr>"

definition demo_page :: report_page where
  "demo_page = \<lparr>rp_page = 1, rp_errors = [], rp_external = [(''a'', ''900''), (''b'', ''901'')], rp_next = None, rp_again = None,
     rp_complete = True\<rparr>"

lemma demo_report:
  obtains res s' where "apply_report_page demo_feed_env (secs 300) demo_report_claim demo_page (demo_feeds_with demo_reporting_run) = Inr (res, s')"
    "rp_next demo_page = None" "count_status Ls_Pending (pg_run res) s' = 0"
proof -
  let ?s = "demo_feeds_with demo_reporting_run" and ?r = demo_reporting_run
  let ?a = "published_listing (secs 300) ''900'' (demo_listing 11)" and ?b = "published_listing (secs 300) ''901'' (demo_listing 12)"
  have sel: "fr_id ?r = 1" "fr_account ?r = 5" "fr_tenant ?r = 3" "fr_page ?r = 1" "fr_state ?r = Reporting" "fr_total ?r = 2"
    by (simp_all add: demo_reporting_run_def demo_polling_sel)
  have lk: "lock_claimed_run demo_feed_env (secs 300) demo_report_claim [Reporting] ?s = Inr ?r"
    unfolding demo_report_claim_def
    by (rule demo_lock) (simp_all add: sel demo_reporting_run_def demo_polling_run_def demo_run_def secs_def)
  have strip: "strip ''900'' = ''900''" "strip ''901'' = ''901''" by (simp_all add: strip_def is_space_def)
  have er: "report_errors demo_feed_env [] = Inr []" by (simp add: report_errors_def report_entries_def)
  have ex: "report_external_ids demo_feed_env [(''a'', ''900''), (''b'', ''901'')] = Inr [(111, ''900''), (112, ''901'')]"
    by (simp add: report_external_ids_def report_entries_def max_poll_batch_size_def external_id_ok_def strip demo_feed_env_def)
  have ok: "report_page_ok demo_page" "outcomes_ok [] [(111, ''900''), (112, ''901'')]"
    by (simp_all add: report_page_ok_def demo_page_def outcomes_ok_def max_report_pages_def max_poll_batch_size_def)
  have rows: "reported_rows ?r [111, 112] ?s = [demo_listing 11, demo_listing 12]"
    by (simp add: reported_rows_def demo_rows demo_awaiting sel demo_listing_sel max_poll_batch_size_def)
  have ch: "List.map_filter (reported_listing (secs 300) (map_of []) (map_of [(111, ''900''), (112, ''901'')])) [demo_listing 11, demo_listing 12] = [?a, ?b]"
    by (simp add: map_filter_simps reported_listing_def demo_listing_sel)
  have sv: "save_listings [?a, ?b] ?s = Inr (?s\<lparr>fd_listings := [?a, ?b]\<rparr>)"
    by (simp add: save_listings_def demo_rows external_clash_def demo_listing_sel)
  let ?s1 = "?s\<lparr>fd_listings := [?a, ?b]\<rparr>"
  have n: "count_status Ls_Active ?r ?s1 = 2" "count_status Ls_Rejected ?r ?s1 = 0" "count_status Ls_Pending ?r ?s1 = 0"
    by (simp_all add: count_status_def in_run_def sel demo_listing_sel)
  let ?g = "\<lambda>x. x\<lparr>fr_published := 2, fr_rejected := 0, fr_pending := 0, fr_state := Succeeded, fr_next := None, fr_report_attempt := 0,
                 fr_report_done := Some (secs 300), fr_error := [], fr_finished := Some (secs 300)\<rparr>"
  have up: "report_updates (secs 300) demo_page ?r 2 0 ?s1 = Inr ?g"
    by (simp add: report_updates_def demo_page_def recomputed_counters_def n sel)
  let ?s2 = "log_sync [published_entry ?r ?a, published_entry ?r ?b] ?s1"
  have "get_run 1 ?s2 = Some ?r" by (simp add: get_run_def log_sync_def demo_feeds_with_def sel)
  moreover have "claim_matches demo_report_claim (secs 300) ?r" using lock_claimed_result(2) [OF lk] .
  moreover have "run_constraint (released (?g ?r)) (fd_runs ?s2) = None"
    by (simp add: run_constraint_None log_sync_def demo_feeds_with_def owner_clash_def provider_clash_def intent_clash_def)
      (simp add: released_def columns_fit_def mode_ok_def demo_reporting_run_def demo_polling_run_def demo_run_def)
  ultimately have w: "transition_claimed (secs 300) demo_report_claim ?g ?s2 = Inr (released (?g ?r), put_run (released (?g ?r)) ?s2)"
    by (simp add: transition_claimed_def write_run_def demo_report_claim_def sel)
  let ?s' = "advance_status_batch 5 (secs 300 + published_status_recheck_delay) (put_run (released (?g ?r)) ?s2)"
  have page: "rp_page demo_page = 1" "rp_errors demo_page = []" "rp_external demo_page = [(''a'', ''900''), (''b'', ''901'')]"
    by (simp_all add: demo_page_def)
  have "apply_report_page demo_feed_env (secs 300) demo_report_claim demo_page ?s =
      Inr (\<lparr>pg_run = released (?g ?r), pg_changed = [11, 12], pg_published = 2, pg_rejected = 0\<rparr>, ?s')"
    using lk ch sv up w rows
    by (simp add: apply_report_page_def ok page er ex sel demo_report_claim_def Let_def demo_listing_sel numeral_2_eq_2)
  moreover have "count_status Ls_Pending (released (?g ?r)) ?s' = 0"
    by (simp add: count_status_def in_run_def advance_status_batch_def put_run_def log_sync_def)
  ultimately show ?thesis using that by (simp add: demo_page_def)
qed

theorem report_page_settles_the_run_witness:
  "\<exists>res s'. apply_report_page demo_feed_env (secs 300) demo_report_claim demo_page (demo_feeds_with demo_reporting_run) = Inr (res, s') \<and>
     get_run 1 s' = Some (pg_run res) \<and> fr_state (pg_run res) = Succeeded \<and>
     get_listing 11 s' = Some (published_listing (secs 300) ''900'' (demo_listing 11))"
proof -
  let ?s = "demo_feeds_with demo_reporting_run"
  obtain res s' where p: "apply_report_page demo_feed_env (secs 300) demo_report_claim demo_page ?s = Inr (res, s')"
    "rp_next demo_page = None" "count_status Ls_Pending (pg_run res) s' = 0" by (rule demo_report)
  have fit: "columns_fit demo_reporting_run" "mode_ok demo_reporting_run"
    by (simp_all add: columns_fit_def mode_ok_def demo_reporting_run_def demo_polling_run_def demo_run_def)
  have id: "fr_id demo_reporting_run = 1" "fr_account demo_reporting_run = 5" "fr_tenant demo_reporting_run = 3"
    by (simp_all add: demo_reporting_run_def demo_polling_sel)
  have ls: "listings_ok ?s" "distinct (map rl_key (fd_listings ?s))"
    by (simp_all add: listings_ok_def demo_rows demo_listing_sel)
  have ok: "runs_ok ?s" using fit by (rule demo_runs_ok)
  have row: "get_run (fr_id (cl_run demo_report_claim)) ?s = Some demo_reporting_run"
    using id by (simp add: demo_report_claim_def demo_feeds_get)
  have l: "get_listing 11 ?s = Some (demo_listing 11)" by (simp add: get_listing_def demo_rows demo_listing_sel)
  have "report_errors demo_feed_env (rp_errors demo_page) = Inr []"
    by (simp add: demo_page_def report_errors_def report_entries_def)
  moreover have "report_external_ids demo_feed_env (rp_external demo_page) = Inr [(111, ''900''), (112, ''901'')]"
    by (simp add: demo_page_def report_external_ids_def report_entries_def max_poll_batch_size_def external_id_ok_def strip_def
        is_space_def demo_feed_env_def)
  ultimately have "get_run 1 s' = Some (pg_run res) \<and> report_outcome (secs 300) demo_page s' (pg_run res) \<and>
      get_listing 11 s' = Some (settled_listing (secs 300) demo_reporting_run [] [(111, ''900''), (112, ''901'')] (demo_listing 11))"
    using report_page_settles_the_run [OF ok ls(1) row p(1) ls(2)] id l by auto
  moreover have "settled_listing (secs 300) demo_reporting_run [] [(111, ''900''), (112, ''901'')] (demo_listing 11) =
      published_listing (secs 300) ''900'' (demo_listing 11)"
    by (simp add: settled_listing_def demo_awaiting id demo_listing_sel)
  ultimately show ?thesis using p by (auto simp: report_outcome_def)
qed

end
