(* ===== verification/Avito_Reports.thy ===== *)
theory Avito_Reports
  imports Feed_Run_Types "HOL-Library.AList"
begin

text \<open>
  The answers of the provider Avito about a feed (\<^verbatim>\<open>apps/marketplaces/adapters/avito/adapter.py\<close>,
  \<^verbatim>\<open>error_handler.py\<close>): the latest upload, the ids of listings, the items of a report. The transport is
  a parameter: an answer of the provider, a failure that the library reports, or an exception that no
  reader of the code catches.
\<close>

section \<open>Answers and errors\<close>

text \<open>
  \<open>ha_body\<close> is the decoded JSON (\<open>None\<close>: \<open>ValueError\<close>), \<open>ha_text\<close> the text of the response, \<open>ha_retry\<close>
  the header \<^verbatim>\<open>Retry-After\<close>.
\<close>

record http_answer =
  ha_status :: int
  ha_retry :: "string option"
  ha_text :: string
  ha_body :: "json option"

text \<open>An exception the readers catch: its text, and the pause a \<open>RateLimitError\<close> asks for.\<close>

record provider_error =
  pe_text :: string
  pe_pause :: "int option"

datatype transport = Answer http_answer | Unreachable string | Crash

datatype 'a reading = Got 'a | Refused provider_error | Crashed

definition provider_failure :: "string \<Rightarrow> provider_error" where
  "provider_failure text = \<lparr>pe_text = text, pe_pause = None\<rparr>"

definition msg_token_expired :: string where "msg_token_expired = ''token expired''"
definition msg_no_access :: string where "msg_no_access = ''no access''"
definition msg_listing_missing :: string where "msg_listing_missing = ''listing not found''"
definition msg_duplicate_listing :: string where "msg_duplicate_listing = ''listing is a duplicate''"
definition msg_photo_too_large :: string where "msg_photo_too_large = ''photo is too large''"
definition msg_bad_data :: string where "msg_bad_data = ''invalid data: ''"
definition msg_avito_server :: string where "msg_avito_server = ''Avito server error: ''"
definition msg_autoload_off :: string where "msg_autoload_off = ''autoload is not connected''"

text \<open>\<open>handle_avito_error\<close>: \<open>None\<close> when the status is no error. \<open>raise_for_status\<close> is the last case.\<close>

definition rejected_text :: "http_answer \<Rightarrow> string" where
  "rejected_text h =
     (case ha_body h of
        Some (JObj d) \<Rightarrow>
          (case map_of d ''error'' of
             None \<Rightarrow> take 200 (ha_text h)
           | Some (JObj e) \<Rightarrow> (case map_of e ''message'' of None \<Rightarrow> take 200 (ha_text h) | Some m \<Rightarrow> py_str m)
           | Some _ \<Rightarrow> take 200 (ha_text h))
      | _ \<Rightarrow> take 200 (ha_text h))"

definition rate_limit_error :: "http_answer \<Rightarrow> provider_error" where
  "rate_limit_error h =
     (case (case ha_retry h of None \<Rightarrow> Some 30 | Some text \<Rightarrow> py_int text) of
        None \<Rightarrow> provider_failure ''ValueError''
      | Some n \<Rightarrow> \<lparr>pe_text = ''Rate limit exceeded, retry after '' @ str_int n @ ''s'', pe_pause = Some n\<rparr>)"

definition handle_avito_error :: "http_answer \<Rightarrow> provider_error option" where
  "handle_avito_error h =
     (let code = ha_status h in
      if code = 400 then Some (provider_failure (msg_bad_data @ take 200 (ha_text h)))
      else if code = 401 then Some (provider_failure msg_token_expired)
      else if code = 403 then Some (provider_failure msg_no_access)
      else if code = 404 then Some (provider_failure msg_listing_missing)
      else if code = 409 then Some (provider_failure msg_duplicate_listing)
      else if code = 413 then Some (provider_failure msg_photo_too_large)
      else if code = 422 then Some (provider_failure (rejected_text h))
      else if code = 429 then Some (rate_limit_error h)
      else if 500 \<le> code then Some (provider_failure (msg_avito_server @ str_int code))
      else if 400 \<le> code then Some (provider_failure ''HTTPError'')
      else None)"

text \<open>A reader: request, status, and the decoding \<open>f\<close> of the body.\<close>

definition read_answer :: "(http_answer \<Rightarrow> provider_error option) \<Rightarrow> (json \<Rightarrow> provider_error + 'a) \<Rightarrow> transport \<Rightarrow> 'a reading" where
  "read_answer objection f x =
     (case x of
        Crash \<Rightarrow> Crashed
      | Unreachable text \<Rightarrow> Refused (provider_failure text)
      | Answer h \<Rightarrow>
          (case objection h of
             Some e \<Rightarrow> Refused e
           | None \<Rightarrow>
               (case ha_body h of
                  None \<Rightarrow> Refused (provider_failure ''ValueError'')
                | Some b \<Rightarrow> (case f b of Inl e \<Rightarrow> Refused e | Inr v \<Rightarrow> Got v))))"

definition json_object :: "string \<Rightarrow> json \<Rightarrow> provider_error + dict" where
  "json_object context v =
     (case v of JObj d \<Rightarrow> Inr d | _ \<Rightarrow> Inl (provider_failure (''Avito '' @ context @ '': top-level JSON must be an object'')))"

definition json_list :: "string \<Rightarrow> json \<Rightarrow> provider_error + json list" where
  "json_list context v =
     (case v of
        JNull \<Rightarrow> Inr []
      | JList l \<Rightarrow> Inr l
      | _ \<Rightarrow> Inl (provider_failure (''Avito '' @ context @ '': expected a list'')))"

definition json_objects :: "string \<Rightarrow> json list \<Rightarrow> provider_error + dict list" where
  "json_objects error vs =
     (if list_all (\<lambda>v. case v of JObj _ \<Rightarrow> True | _ \<Rightarrow> False) vs
      then Inr (map (\<lambda>v. case v of JObj d \<Rightarrow> d | _ \<Rightarrow> []) vs)
      else Inl (provider_failure error))"

section \<open>The latest upload\<close>

text \<open>
  \<open>max(uploads, key=lambda u: u.get('started_at', ''), default={})\<close>: texts and integers are ordered, other
  pairs of values raise \<open>TypeError\<close>. One upload is not compared. The first of equal ones wins.
\<close>

definition json_below :: "json \<Rightarrow> json \<Rightarrow> bool option" where
  "json_below x y =
     (case (x, y) of
        (JStr a, JStr b) \<Rightarrow> Some (\<not> text_le b a)
      | (JInt i, JInt j) \<Rightarrow> Some (i < j)
      | _ \<Rightarrow> None)"

definition started_key :: "dict \<Rightarrow> json" where
  "started_key u = (case map_of u ''started_at'' of None \<Rightarrow> JStr [] | Some v \<Rightarrow> v)"

fun latest_of :: "dict \<Rightarrow> dict list \<Rightarrow> provider_error + dict" where
  "latest_of u [] = Inr u"
| "latest_of u (v # vs) =
     (case json_below (started_key u) (started_key v) of
        None \<Rightarrow> Inl (provider_failure ''TypeError'')
      | Some later \<Rightarrow> latest_of (if later then v else u) vs)"

definition latest_upload_of :: "json \<Rightarrow> provider_error + dict" where
  "latest_upload_of body =
     bind_ok (json_object ''latest upload response'' body) (\<lambda>d.
     bind_ok (json_list ''latest upload list'' (dict_get ''uploads'' d)) (\<lambda>vs.
     bind_ok (json_objects ''Avito latest upload list must contain objects'' vs) (\<lambda>us.
     case us of [] \<Rightarrow> Inr [] | u # rest \<Rightarrow> latest_of u rest)))"

definition get_latest_upload :: "transport \<Rightarrow> dict reading" where
  "get_latest_upload x = read_answer handle_avito_error latest_upload_of x"

section \<open>The ids of listings\<close>

text \<open>After a 401 the token is renewed and the request repeated once; \<open>get('items', [])\<close>.\<close>

definition results_objection :: "http_answer \<Rightarrow> provider_error option" where
  "results_objection h =
     (if ha_status h = 403 \<or> ha_status h = 404 then Some (provider_failure msg_autoload_off) else handle_avito_error h)"

definition feed_items_of :: "json \<Rightarrow> provider_error + json" where
  "feed_items_of body =
     (case body of
        JObj d \<Rightarrow> Inr (case map_of d ''items'' of None \<Rightarrow> JList [] | Some v \<Rightarrow> v)
      | _ \<Rightarrow> Inl (provider_failure ''AttributeError''))"

definition get_feed_results :: "string list \<Rightarrow> transport \<Rightarrow> transport \<Rightarrow> json reading" where
  "get_feed_results ids first again =
     (if ids = [] then Got (JList [])
      else let expired = (case first of Answer h \<Rightarrow> ha_status h = 401 | _ \<Rightarrow> False)
           in read_answer results_objection feed_items_of (if expired then again else first))"

section \<open>The items of a report\<close>

definition feed_item_page_size :: nat where "feed_item_page_size = 100"
definition feed_item_message_limit :: nat where "feed_item_message_limit = 100"
definition feed_item_text_limit :: nat where "feed_item_text_limit = 2000"
definition feed_item_id_limit :: nat where "feed_item_id_limit = 100"

definition rstrip :: "string \<Rightarrow> string" where
  "rstrip s = rev (dropWhile is_space (rev s))"

definition strip_html :: "(string \<Rightarrow> string) \<Rightarrow> string \<Rightarrow> string" where
  "strip_html unescape text =
     join_with '' '' (words (map (\<lambda>c. if is_control c then CHR '' '' else c) (strip_tags (unescape text))))"

text \<open>\<open>_format_avito_message\<close>; the bullet is rendered in ASCII.\<close>

definition msg_bullet :: string where "msg_bullet = ''* ''"

definition message_part :: "string \<Rightarrow> dict \<Rightarrow> string option" where
  "message_part k m = (case dict_get k m of JNull \<Rightarrow> Some [] | JStr s \<Rightarrow> Some s | _ \<Rightarrow> None)"

definition format_avito_message :: "(string \<Rightarrow> string) \<Rightarrow> dict \<Rightarrow> string" where
  "format_avito_message unescape m =
     (case (message_part ''title'' m, message_part ''description'' m) of
        (Some title, Some description) \<Rightarrow>
          (let text = strip (strip_html unescape title @ '' '' @ strip_html unescape description)
           in if text = [] then [] else msg_bullet @ text)
      | _ \<Rightarrow> [])"

definition bounded_feed_item_error :: "string list \<Rightarrow> string" where
  "bounded_feed_item_error messages = rstrip (take feed_item_text_limit (join_with [CHR 0x0A] messages))"

text \<open>\<open>^[1-9][0-9]{0,19}$\<close>.\<close>

definition stats_item_id_ok :: "string \<Rightarrow> bool" where
  "stats_item_id_ok s \<longleftrightarrow> s \<noteq> [] \<and> length s \<le> 20 \<and> list_all is_digit s \<and> hd s \<noteq> CHR ''0''"

definition normalize_avito_stats_item_id :: "json \<Rightarrow> string option" where
  "normalize_avito_stats_item_id v =
     (case v of
        JInt i \<Rightarrow> if stats_item_id_ok (str_int i) then Some (str_int i) else None
      | JStr s \<Rightarrow> if stats_item_id_ok s then Some s else None
      | _ \<Rightarrow> None)"

definition feed_item_ad_id :: "dict \<Rightarrow> string option" where
  "feed_item_ad_id item =
     (case dict_get ''ad_id'' item of
        JStr s \<Rightarrow> if s \<noteq> [] \<and> length s \<le> feed_item_id_limit then Some s else None
      | _ \<Rightarrow> None)"

text \<open>The words of the two readers in their errors.\<close>

record reader_texts =
  rt_body :: string
  rt_page :: string
  rt_item :: string
  rt_entry :: string
  rt_messages :: string
  rt_size :: string

definition feed_item_messages :: "reader_texts \<Rightarrow> dict \<Rightarrow> provider_error + dict list" where
  "feed_item_messages texts item =
     bind_ok (json_list (rt_messages texts) (dict_get ''messages'' item)) (\<lambda>vs.
     if feed_item_message_limit < length vs then Inl (provider_failure (rt_entry texts @ '' exceeds 100 messages''))
     else json_objects (rt_entry texts @ '' message must be an object'') vs)"

definition has_error :: "dict list \<Rightarrow> bool" where
  "has_error ms \<longleftrightarrow> list_ex (\<lambda>m. dict_get ''type'' m = JStr ''error'') ms"

text \<open>The readable texts of the errors and alarms of an item.\<close>

definition error_texts :: "(string \<Rightarrow> string) \<Rightarrow> dict list \<Rightarrow> string list" where
  "error_texts unescape ms =
     filter (\<lambda>s. s \<noteq> [])
       (map (format_avito_message unescape) (filter (\<lambda>m. dict_get ''type'' m \<in> {JStr ''error'', JStr ''alarm''}) ms))"

definition add_item_error :: "string \<Rightarrow> string list \<Rightarrow> (string \<times> string) list \<Rightarrow> (string \<times> string) list" where
  "add_item_error ad texts errors =
     (let combined = bounded_feed_item_error texts
      in AList.update ad
           (case map_of errors ad of None \<Rightarrow> combined | Some old \<Rightarrow> bounded_feed_item_error [old, combined]) errors)"

text \<open>The checks of the metadata of a page, and the next page.\<close>

definition json_equals_int :: "json \<Rightarrow> int \<Rightarrow> bool" where
  "json_equals_int v n \<longleftrightarrow>
     (case v of JInt i \<Rightarrow> i = n | JBool b \<Rightarrow> (if b then 1 else 0) = n | JFloat r \<Rightarrow> r = str_int n @ ''.0'' | _ \<Rightarrow> False)"

definition page_size_ok :: "json \<Rightarrow> bool" where
  "page_size_ok v \<longleftrightarrow> (case v of JNull \<Rightarrow> True | JInt i \<Rightarrow> 1 \<le> i \<and> i \<le> int feed_item_page_size | _ \<Rightarrow> False)"

definition total_pages :: "dict \<Rightarrow> int option" where
  "total_pages meta =
     (case map_of meta ''pages'' of
        None \<Rightarrow> Some 1
      | Some (JInt n) \<Rightarrow> if 1 \<le> n then Some n else None
      | Some _ \<Rightarrow> None)"

definition next_page :: "reader_texts \<Rightarrow> nat \<Rightarrow> (dict \<Rightarrow> json) \<Rightarrow> dict \<Rightarrow> provider_error + nat option" where
  "next_page texts page page_size body =
     (case dict_get ''meta'' body of
        JNull \<Rightarrow> Inr None
      | JObj meta \<Rightarrow>
          (case total_pages meta of
             None \<Rightarrow> Inl (provider_failure (rt_page texts @ '' page count must be positive''))
           | Some n \<Rightarrow>
               (if dict_get ''page'' meta \<noteq> JNull \<and> \<not> json_equals_int (dict_get ''page'' meta) (int page)
                then Inl (provider_failure (rt_page texts @ '' metadata page mismatch''))
                else if \<not> page_size_ok (page_size meta) then Inl (provider_failure (rt_page texts @ '' '' @ rt_size texts @ '' exceeds 100''))
                else Inr (if int page < n then Some (page + 1) else None)))
      | _ \<Rightarrow> Inl (provider_failure (rt_page texts @ '' metadata must be an object'')))"

definition page_items :: "reader_texts \<Rightarrow> json \<Rightarrow> provider_error + dict \<times> json list" where
  "page_items texts body =
     bind_ok (json_object (rt_body texts) body) (\<lambda>d.
     bind_ok (json_list (rt_body texts @ '' items'') (dict_get ''items'' d)) (\<lambda>vs.
     if feed_item_page_size < length vs then Inl (provider_failure (rt_page texts @ '' page exceeds 100 items''))
     else Inr (d, vs)))"

definition item_object :: "reader_texts \<Rightarrow> json \<Rightarrow> provider_error + dict" where
  "item_object texts v =
     (case v of JObj d \<Rightarrow> Inr d | _ \<Rightarrow> Inl (provider_failure (rt_item texts @ '' item must be an object'')))"

text \<open>\<open>get_feed_item_error_page\<close>: items of the last successful upload, in order.\<close>

definition feed_item_error_context :: reader_texts where
  "feed_item_error_context =
     \<lparr>rt_body = ''feed item errors'', rt_page = ''Avito feed item errors'', rt_item = ''Avito feed item errors'',
      rt_entry = ''Avito feed item error'', rt_messages = ''feed item error messages'', rt_size = ''per_page''\<rparr>"

fun collect_errors :: "(string \<Rightarrow> string) \<Rightarrow> json list \<Rightarrow> (string \<times> string) list \<Rightarrow> provider_error + (string \<times> string) list" where
  "collect_errors unescape [] errors = Inr errors"
| "collect_errors unescape (v # items) errors =
     bind_ok (item_object feed_item_error_context v) (\<lambda>item.
     case feed_item_ad_id item of
        None \<Rightarrow> collect_errors unescape items errors
      | Some ad \<Rightarrow>
          bind_ok (feed_item_messages feed_item_error_context item) (\<lambda>ms.
          collect_errors unescape items
            (if has_error ms \<and> error_texts unescape ms \<noteq> [] then add_item_error ad (error_texts unescape ms) errors else errors)))"

record error_page =
  ep_errors :: "(string \<times> string) list"
  ep_next :: "nat option"

definition feed_item_error_page_of :: "(string \<Rightarrow> string) \<Rightarrow> nat \<Rightarrow> json \<Rightarrow> provider_error + error_page" where
  "feed_item_error_page_of unescape page body =
     bind_ok (page_items feed_item_error_context body) (\<lambda>(d, items).
     bind_ok (collect_errors unescape items []) (\<lambda>errors.
     bind_ok (next_page feed_item_error_context page (dict_get ''per_page'') d) (\<lambda>n.
     Inr \<lparr>ep_errors = errors, ep_next = n\<rparr>)))"

definition get_feed_item_error_page :: "(string \<Rightarrow> string) \<Rightarrow> nat \<Rightarrow> transport \<Rightarrow> error_page reading" where
  "get_feed_item_error_page unescape page x =
     (if \<not> (1 \<le> page \<and> page \<le> 100) then Refused (provider_failure ''Avito feed item errors page must be between 1 and 100'')
      else read_answer handle_avito_error (feed_item_error_page_of unescape page) x)"

text \<open>\<open>get_current_feed_item_outcome_page\<close>: an item is rejected, or active under its id, or has no outcome.\<close>

definition outcome_context :: reader_texts where
  "outcome_context =
     \<lparr>rt_body = ''current feed item outcomes'', rt_page = ''Avito current feed outcomes'', rt_item = ''Avito current feed outcome'',
      rt_entry = ''Avito current feed outcome'', rt_messages = ''current feed item outcome messages'', rt_size = ''perPage''\<rparr>"

definition item_active :: "dict \<Rightarrow> bool" where
  "item_active item \<longleftrightarrow> lower (strip (text_or_empty (dict_get ''avito_status'' item))) = ''active''"

fun collect_outcomes ::
    "(string \<Rightarrow> string) \<Rightarrow> json list \<Rightarrow> (string \<times> string) list \<Rightarrow> (string \<times> string) list \<Rightarrow>
     provider_error + (string \<times> string) list \<times> (string \<times> string) list" where
  "collect_outcomes unescape [] errors external = Inr (errors, external)"
| "collect_outcomes unescape (v # items) errors external =
     bind_ok (item_object outcome_context v) (\<lambda>item.
     case feed_item_ad_id item of
        None \<Rightarrow> collect_outcomes unescape items errors external
      | Some ad \<Rightarrow>
          bind_ok (feed_item_messages outcome_context item) (\<lambda>ms.
          if has_error ms
          then (if error_texts unescape ms = [] then collect_outcomes unescape items errors external
                else collect_outcomes unescape items (add_item_error ad (error_texts unescape ms) errors)
                       (AList.delete ad external))
          else if \<not> item_active item then collect_outcomes unescape items errors external
          else (case normalize_avito_stats_item_id (dict_get ''avito_id'' item) of
                  None \<Rightarrow> collect_outcomes unescape items errors external
                | Some k \<Rightarrow>
                    (if map_of errors ad \<noteq> None then collect_outcomes unescape items errors external
                     else if map_of external ad \<noteq> None \<and> map_of external ad \<noteq> Some k
                     then Inl (provider_failure ''Avito current feed outcomes contain conflicting item ids'')
                     else collect_outcomes unescape items errors (AList.update ad k external)))))"

record outcome_page =
  op_errors :: "(string \<times> string) list"
  op_external :: "(string \<times> string) list"
  op_next :: "nat option"

definition outcome_size :: "dict \<Rightarrow> json" where
  "outcome_size meta = (case map_of meta ''perPage'' of Some v \<Rightarrow> v | None \<Rightarrow> dict_get ''per_page'' meta)"

definition outcome_page_of :: "(string \<Rightarrow> string) \<Rightarrow> nat \<Rightarrow> json \<Rightarrow> provider_error + outcome_page" where
  "outcome_page_of unescape page body =
     bind_ok (page_items outcome_context body) (\<lambda>(d, items).
     bind_ok (collect_outcomes unescape items [] []) (\<lambda>(errors, external).
     bind_ok (next_page outcome_context page outcome_size d) (\<lambda>n.
     Inr \<lparr>op_errors = errors, op_external = external, op_next = n\<rparr>)))"

definition get_current_feed_item_outcome_page :: "(string \<Rightarrow> string) \<Rightarrow> nat \<Rightarrow> transport \<Rightarrow> outcome_page reading" where
  "get_current_feed_item_outcome_page unescape page x =
     (if \<not> (1 \<le> page \<and> page \<le> 100) then Refused (provider_failure ''Avito current feed outcomes page must be between 1 and 100'')
      else read_answer handle_avito_error (outcome_page_of unescape page) x)"

text \<open>\<open>get_feed_item_errors\<close>: pages from the first on, at most \<open>max_pages\<close>; any failure ends the reading.\<close>

definition wanted_errors :: "string list \<Rightarrow> (string \<times> string) list \<Rightarrow> (string \<times> string) list \<Rightarrow> (string \<times> string) list" where
  "wanted_errors wanted found result = fold (\<lambda>(ad, reason). AList.update ad reason) (filter (\<lambda>(ad, _). ad \<in> set wanted) found) result"

function feed_item_errors_from ::
    "(string \<Rightarrow> string) \<Rightarrow> (nat \<Rightarrow> transport) \<Rightarrow> string list \<Rightarrow> nat \<Rightarrow> nat \<Rightarrow> (string \<times> string) list \<Rightarrow> (string \<times> string) list" where
  "feed_item_errors_from unescape net wanted max_pages page result =
     (if max_pages < page then result
      else (case get_feed_item_error_page unescape page (net page) of
              Got p \<Rightarrow>
                (let result' = wanted_errors wanted (ep_errors p) result
                 in if ep_next p = None \<or> page = max_pages then result'
                    else feed_item_errors_from unescape net wanted max_pages (page + 1) result')
            | _ \<Rightarrow> result))"
  by pat_completeness auto

termination by (relation "measure (\<lambda>(_, _, _, max_pages, page, _). max_pages + 1 - page)") auto

declare feed_item_errors_from.simps [simp del]

definition avito_max_pages :: "int \<Rightarrow> nat" where
  "avito_max_pages setting = nat (min 100 (max 1 setting))"

definition get_feed_item_errors :: "(string \<Rightarrow> string) \<Rightarrow> int \<Rightarrow> (nat \<Rightarrow> transport) \<Rightarrow> string list \<Rightarrow> (string \<times> string) list" where
  "get_feed_item_errors unescape setting net ids =
     (if ids = [] then [] else feed_item_errors_from unescape net ids (avito_max_pages setting) 1 [])"

section \<open>What a page says\<close>

text \<open>An item that rejects a listing, and one that publishes it under an id.\<close>

definition rejects :: "(string \<Rightarrow> string) \<Rightarrow> string \<Rightarrow> json \<Rightarrow> bool" where
  "rejects unescape ad v \<longleftrightarrow>
     (\<exists>item ms. v = JObj item \<and> feed_item_ad_id item = Some ad \<and> feed_item_messages outcome_context item = Inr ms \<and>
        has_error ms \<and> error_texts unescape ms \<noteq> [])"

definition publishes :: "string \<Rightarrow> string \<Rightarrow> json \<Rightarrow> bool" where
  "publishes ad k v \<longleftrightarrow>
     (\<exists>item ms. v = JObj item \<and> feed_item_ad_id item = Some ad \<and> feed_item_messages outcome_context item = Inr ms \<and>
        \<not> has_error ms \<and> item_active item \<and> normalize_avito_stats_item_id (dict_get ''avito_id'' item) = Some k)"

lemma add_item_error_dom: "map_of (add_item_error ad texts errors) x \<noteq> None \<longleftrightarrow> x = ad \<or> map_of errors x \<noteq> None"
  by (simp add: add_item_error_def Let_def update_conv')

lemma item_object_Inr: "item_object context v = Inr d \<longleftrightarrow> v = JObj d"
  by (auto simp: item_object_def split: json.splits)

text \<open>One item: nothing happens, a listing is rejected, or published.\<close>

lemma collect_outcomes_step:
  assumes "collect_outcomes u (v # vs) errors external = Inr r"
  obtains
    (Skip) "collect_outcomes u vs errors external = Inr r" "\<And>ad. \<not> rejects u ad v"
      "\<And>ad k. publishes ad k v \<Longrightarrow> map_of errors ad \<noteq> None"
  | (Reject) ad texts where "collect_outcomes u vs (add_item_error ad texts errors) (AList.delete ad external) = Inr r"
      "rejects u ad v" "\<And>x. rejects u x v \<Longrightarrow> x = ad" "\<And>x k. \<not> publishes x k v" "feed_item_ad_id (case v of JObj d \<Rightarrow> d) = Some ad"
  | (Publish) ad k where "collect_outcomes u vs errors (AList.update ad k external) = Inr r" "publishes ad k v"
      "map_of errors ad = None" "map_of external ad \<in> {None, Some k}" "\<And>x. \<not> rejects u x v"
      "\<And>x j. publishes x j v \<Longrightarrow> x = ad \<and> j = k"
proof -
  obtain item where v: "v = JObj item"
    using assms by (auto simp: bind_ok_Inr_iff item_object_Inr)
  show ?thesis
  proof (cases "feed_item_ad_id item")
    case None
    then have "\<not> rejects u ad v" "\<not> publishes ad k v" for ad k by (auto simp: v rejects_def publishes_def)
    then show ?thesis using Skip assms None by (simp add: v item_object_def)
  next
    case (Some ad)
    obtain ms where ms: "feed_item_messages outcome_context item = Inr ms"
      using assms Some by (auto simp: v item_object_def bind_ok_Inr_iff)
    have rej: "rejects u x v \<longleftrightarrow> x = ad \<and> has_error ms \<and> error_texts u ms \<noteq> []" for x
      using Some ms by (auto simp: v rejects_def)
    have pub: "publishes x j v \<longleftrightarrow> x = ad \<and> \<not> has_error ms \<and> item_active item \<and>
        normalize_avito_stats_item_id (dict_get ''avito_id'' item) = Some j" for x j
      using Some ms by (auto simp: v publishes_def)
    note run = assms [unfolded v, simplified, unfolded item_object_def, simplified, simplified Some ms, simplified]
    show ?thesis
    proof (cases "has_error ms")
      case True
      show ?thesis
      proof (cases "error_texts u ms = []")
        case True
        with \<open>has_error ms\<close> run have "collect_outcomes u vs errors external = Inr r" by simp
        then show ?thesis by (rule Skip) (use \<open>has_error ms\<close> True rej pub in simp_all)
      next
        case False
        with \<open>has_error ms\<close> run
        have "collect_outcomes u vs (add_item_error ad (error_texts u ms) errors) (AList.delete ad external) = Inr r" by simp
        then show ?thesis by (rule Reject) (use \<open>has_error ms\<close> False rej pub Some v in simp_all)
      qed
    next
      case False
      show ?thesis
      proof (cases "item_active item \<and> map_of errors ad = None")
        case True
        show ?thesis
        proof (cases "normalize_avito_stats_item_id (dict_get ''avito_id'' item)")
          case None
          with False True run have "collect_outcomes u vs errors external = Inr r" by simp
          then show ?thesis by (rule Skip) (use False None rej pub in simp_all)
        next
          case k: (Some k)
          with False True run have "collect_outcomes u vs errors (AList.update ad k external) = Inr r \<and> map_of external ad \<in> {None, Some k}"
            by (simp split: if_splits)
          then show ?thesis using False True k rej pub by (intro Publish [of ad k]) auto
        qed
      next
        case no: False
        with False run have "collect_outcomes u vs errors external = Inr r" by (simp split: if_splits option.splits)
        then show ?thesis by (rule Skip) (use False no rej pub in auto)
      qed
    qed
  qed
qed

lemma collect_outcomes_says:
  assumes "collect_outcomes u vs errors external = Inr (errors', external')"
  shows "(map_of errors' ad \<noteq> None \<longleftrightarrow> map_of errors ad \<noteq> None \<or> (\<exists>v\<in>set vs. rejects u ad v)) \<and>
    (map_of external' ad = Some k \<longleftrightarrow> (if map_of errors ad \<noteq> None then map_of external ad = Some k \<and> \<not> (\<exists>v\<in>set vs. rejects u ad v)
       else \<not> (\<exists>v\<in>set vs. rejects u ad v) \<and> (map_of external ad = Some k \<or> (\<exists>v\<in>set vs. publishes ad k v))))"
  using assms
proof (induction vs arbitrary: errors external)
  case Nil
  then show ?case by simp
next
  case (Cons v vs)
  from Cons.prems show ?case
  proof (cases rule: collect_outcomes_step)
    case Skip
    with Cons.IH [OF Skip(1)] show ?thesis by auto
  next
    case (Reject a texts)
    note IH = Cons.IH [OF Reject(1)]
    show ?thesis
    proof (cases "ad = a")
      case True
      then show ?thesis using IH Reject(2) add_item_error_dom [of a texts errors a] by (auto simp: delete_conv')
    next
      case False
      then have "\<not> rejects u ad v" using Reject(3) by blast
      then show ?thesis using IH Reject(4) False add_item_error_dom [of a texts errors ad] by (simp add: delete_conv')
    qed
  next
    case (Publish a j)
    note IH = Cons.IH [OF Publish(1)]
    show ?thesis
    proof (cases "ad = a")
      case True
      show ?thesis
      proof (cases "k = j")
        case True
        then show ?thesis using IH Publish(2,3,5) \<open>ad = a\<close> by (auto simp: update_conv')
      next
        case False
        then have "\<not> publishes ad k v" "map_of external ad \<noteq> Some k" using Publish(4,6) True by auto
        then show ?thesis using IH False Publish(3,5) True by (simp add: update_conv')
      qed
    next
      case False
      then have "\<not> publishes ad k v" using Publish(6) by blast
      then show ?thesis using IH False Publish(5) by (simp add: update_conv')
    qed
  qed
qed

section \<open>The form of a page\<close>

definition errors_ok :: "(string \<times> string) list \<Rightarrow> bool" where
  "errors_ok errors \<longleftrightarrow> distinct (map fst errors) \<and>
     list_all (\<lambda>(ad, reason). ad \<noteq> [] \<and> length ad \<le> feed_item_id_limit \<and> length reason \<le> feed_item_text_limit) errors"

definition external_ok :: "(string \<times> string) list \<Rightarrow> bool" where
  "external_ok external \<longleftrightarrow> distinct (map fst external) \<and>
     list_all (\<lambda>(ad, k). ad \<noteq> [] \<and> length ad \<le> feed_item_id_limit \<and> stats_item_id_ok k) external"

lemma length_update_le: "length (AList.update k v xs) \<le> Suc (length xs)"
  by (induction xs) auto

lemma list_all_update: "list_all P xs \<Longrightarrow> P (k, v) \<Longrightarrow> list_all P (AList.update k v xs)"
  by (induction xs) auto

lemma list_all_delete: "list_all P xs \<Longrightarrow> list_all P (AList.delete k xs)"
  by (induction xs) auto

lemma length_rstrip: "length (rstrip s) \<le> length s"
  using length_dropWhile_le [of is_space "rev s"] by (simp add: rstrip_def)

lemma length_bounded_error: "length (bounded_feed_item_error ms) \<le> feed_item_text_limit"
  using length_rstrip [of "take feed_item_text_limit (join_with [CHR 0x0A] ms)"]
  by (simp add: bounded_feed_item_error_def)

lemma feed_item_ad_id_ok: "feed_item_ad_id item = Some ad \<Longrightarrow> ad \<noteq> [] \<and> length ad \<le> feed_item_id_limit"
  by (auto simp: feed_item_ad_id_def split: json.splits if_splits)

lemma normalize_ok: "normalize_avito_stats_item_id v = Some k \<Longrightarrow> stats_item_id_ok k"
  by (auto simp: normalize_avito_stats_item_id_def split: json.splits if_splits)

lemma add_item_error_ok:
  assumes "errors_ok errors" "ad \<noteq> []" "length ad \<le> feed_item_id_limit"
  shows "errors_ok (add_item_error ad texts errors)"
  using assms by (auto simp: errors_ok_def add_item_error_def Let_def length_bounded_error
      intro!: list_all_update distinct_update split: option.split)

lemma collect_outcomes_form:
  assumes "collect_outcomes u vs errors external = Inr (errors', external')" "errors_ok errors" "external_ok external"
  shows "errors_ok errors' \<and> external_ok external' \<and>
    length errors' + length external' \<le> length errors + length external + length vs"
  using assms
proof (induction vs arbitrary: errors external)
  case Nil
  then show ?case by simp
next
  case (Cons v vs)
  from Cons.prems(1) show ?case
  proof (cases rule: collect_outcomes_step)
    case Skip
    from Cons.IH [OF Skip(1) Cons.prems(2,3)] show ?thesis by simp
  next
    case (Reject ad texts)
    have 1: "errors_ok (add_item_error ad texts errors)"
      using feed_item_ad_id_ok [OF Reject(5)] Cons.prems(2) by (simp add: add_item_error_ok)
    have 2: "external_ok (AList.delete ad external)"
      using Cons.prems(3) by (simp add: external_ok_def list_all_delete distinct_delete)
    have "length (add_item_error ad texts errors) \<le> Suc (length errors)"
      by (simp add: add_item_error_def Let_def length_update_le)
    with Cons.IH [OF Reject(1) 1 2] length_delete_le [of ad external] show ?thesis by simp
  next
    case (Publish ad k)
    have "ad \<noteq> [] \<and> length ad \<le> feed_item_id_limit \<and> stats_item_id_ok k"
      using Publish(2) feed_item_ad_id_ok normalize_ok by (auto simp: publishes_def)
    then have "external_ok (AList.update ad k external)"
      using Cons.prems(3) by (auto simp: external_ok_def intro!: list_all_update distinct_update)
    from Cons.IH [OF Publish(1) Cons.prems(2) this] length_update_le [of ad k external] show ?thesis by simp
  qed
qed

lemma next_page_Inr: "next_page context page f d = Inr n \<Longrightarrow> n = None \<or> n = Some (page + 1)"
  by (auto simp: next_page_def split: json.splits option.splits if_splits)

lemma outcome_page_parts:
  assumes "outcome_page_of u page body = Inr p"
  obtains d vs where "body = JObj d" "dict_get ''items'' d = JList vs \<or> (dict_get ''items'' d = JNull \<and> vs = [])"
    "length vs \<le> feed_item_page_size" "collect_outcomes u vs [] [] = Inr (op_errors p, op_external p)"
    "next_page outcome_context page outcome_size d = Inr (op_next p)"
  using assms that
  by (auto simp: outcome_page_of_def page_items_def bind_ok_Inr_iff json_object_def json_list_def split: json.splits if_splits)

lemma outcome_page_form:
  assumes "outcome_page_of u page body = Inr p"
  shows "errors_ok (op_errors p)" "external_ok (op_external p)" "length (op_errors p) + length (op_external p) \<le> 100"
    "op_next p = None \<or> op_next p = Some (page + 1)" "set (map fst (op_errors p)) \<inter> set (map fst (op_external p)) = {}"
proof -
  obtain d vs where parts: "length vs \<le> feed_item_page_size" "collect_outcomes u vs [] [] = Inr (op_errors p, op_external p)"
    "next_page outcome_context page outcome_size d = Inr (op_next p)"
    using assms by (rule outcome_page_parts)
  have "errors_ok []" "external_ok []" by (simp_all add: errors_ok_def external_ok_def)
  note form = collect_outcomes_form [OF parts(2) this]
  show "errors_ok (op_errors p)" "external_ok (op_external p)" using form by simp_all
  show "length (op_errors p) + length (op_external p) \<le> 100"
    using form parts(1) by (simp add: feed_item_page_size_def)
  show "op_next p = None \<or> op_next p = Some (page + 1)" using parts(3) by (rule next_page_Inr)
  have "map_of (op_errors p) ad = None \<or> map_of (op_external p) ad = None" for ad
    using collect_outcomes_says [OF parts(2), of ad "the (map_of (op_external p) ad)"]
    by (cases "map_of (op_external p) ad") auto
  then show "set (map fst (op_errors p)) \<inter> set (map fst (op_external p)) = {}"
    by (auto simp: map_of_eq_None_iff)
qed

section \<open>Properties\<close>

text \<open>C13: A report page says what its items say, in whatever order they come. A listing is rejected
  exactly if some item of the page that names it carries a readable error; it is published under an id
  exactly if some item publishes it under that id and none rejects it.
\<close>

theorem outcome_page_says_what_items_say:
  assumes "outcome_page_of unescape page (JObj body) = Inr p" "dict_get ''items'' body = JList items"
  shows "(ad \<in> set (map fst (op_errors p)) \<longleftrightarrow> list_ex (rejects unescape ad) items) \<and>
    ((ad, k) \<in> set (op_external p) \<longleftrightarrow> \<not> list_ex (rejects unescape ad) items \<and> list_ex (publishes ad k) items)"
proof -
  have run: "collect_outcomes unescape items [] [] = Inr (op_errors p, op_external p)"
    using assms by (auto elim!: outcome_page_parts)
  have "external_ok (op_external p)" by (rule outcome_page_form(2) [OF assms(1)])
  then have "(ad, k) \<in> set (op_external p) \<longleftrightarrow> map_of (op_external p) ad = Some k"
    by (auto simp: external_ok_def dest: map_of_SomeD intro: map_of_is_SomeI)
  moreover have "ad \<in> set (map fst (op_errors p)) \<longleftrightarrow> map_of (op_errors p) ad \<noteq> None"
    by (simp add: map_of_eq_None_iff)
  ultimately show ?thesis using collect_outcomes_says [OF run, of ad k] by (auto simp: list_ex_iff)
qed

definition demo_bad_item :: json where
  "demo_bad_item = JObj [(''ad_id'', JStr ''a''),
     (''messages'', JList [JObj [(''type'', JStr ''error''), (''title'', JStr ''bad <b>price</b>'')]])]"

definition demo_active_item :: json where
  "demo_active_item = JObj [(''ad_id'', JStr ''b''), (''avito_status'', JStr ''active''), (''avito_id'', JInt 901)]"

definition demo_items :: "json list" where
  "demo_items = [demo_active_item, demo_bad_item]"

definition demo_body :: dict where
  "demo_body = [(''items'', JList demo_items), (''meta'', JObj [(''pages'', JInt 1)])]"

definition demo_outcome :: outcome_page where
  "demo_outcome = \<lparr>op_errors = [(''a'', msg_bullet @ ''bad price'')], op_external = [(''b'', ''901'')], op_next = None\<rparr>"

lemma demo_outcome: "outcome_page_of id 1 (JObj demo_body) = Inr demo_outcome"
  by code_simp

theorem outcome_page_says_what_items_say_witness:
  "list_ex (rejects id ''a'') demo_items \<and> list_ex (publishes ''b'' ''901'') demo_items"
proof -
  have "dict_get ''items'' demo_body = JList demo_items" by (simp add: demo_body_def dict_get_def)
  note says = outcome_page_says_what_items_say [OF demo_outcome this]
  show ?thesis using says [of "''a''" "[]"] says [of "''b''" "''901''"] by (simp add: demo_outcome_def)
qed

end
