(* ===== verification/Feed_Worker.thy ===== *)
theory Feed_Worker
  imports Feed_Run_Pages Feed_Intents Avito_Reports
begin

text \<open>
  The worker of feed runs (\<^verbatim>\<open>apps/marketplaces/tasks.py\<close>): a durable dispatch wakes it for one revision of
  one run; it claims the run, reads the provider, commits one transition and stores the dispatch for
  the next revision in the same transaction. The state joins the tables of the feed workflow with those
  of the dispatcher; an account is a row of both, under one key.
\<close>

section \<open>State and surroundings\<close>

text \<open>A row of the log about a closed run (the counters are those of the run), and a digest to the tenant.\<close>

record run_summary =
  su_run :: feed_run
  su_failed :: bool
  su_other :: nat
  su_error :: string

text \<open>A row of the log about an account, with its tenant; what the text of the message says.\<close>

datatype account_event =
    Feed_Over_Limit nat
  | Feed_Loaded nat nat

record works =
  wk_feeds :: feeds
  wk_jobs :: jobs
  wk_summaries :: "run_summary list"
  wk_digests :: "feed_run list"
  wk_log :: "(nat \<times> account_event) list"
  wk_marks :: "(nat \<times> int) list"
  wk_deferred :: "(nat \<times> int) list"

text \<open>\<open>wk_marks\<close> are the cache entries set for a deferred flush of an account (with their lifetime in
  seconds), \<open>wk_deferred\<close> the messages sent for one (with their delay).\<close>

text \<open>\<open>parse_datetime(text)\<close>: no time or one without a zone, an invalid one (\<open>ValueError\<close>), an instant.\<close>

datatype parsed_time = No_Time | Invalid_Time | Time instant

text \<open>
  What one execution meets: the readings of the clock, the answers of the provider, what others commit
  meanwhile, and the settings. \<open>se_first\<close> happens while the latest upload is read, \<open>se_second\<close> while a page
  is read. \<open>se_notify\<close> is the notification task (\<open>False\<close>: it raises).
\<close>

record step_env =
  se_env :: feed_env
  se_claim_at :: instant
  se_check_at :: instant
  se_load_at :: instant
  se_recheck_at :: instant
  se_commit_at :: instant
  se_upload :: transport
  se_results :: transport
  se_results_again :: transport
  se_page :: transport
  se_after :: transport
  se_parse_time :: "string \<Rightarrow> parsed_time"
  se_first :: "works \<Rightarrow> works"
  se_second :: "works \<Rightarrow> works"
  se_enabled :: "nat \<Rightarrow> bool"
  se_notify :: "feed_run \<Rightarrow> bool"
  se_max_pages :: int

definition feed_poll_retry_delay :: int where "feed_poll_retry_delay = secs 1800"
definition feed_poll_batch_delay :: int where "feed_poll_batch_delay = secs 30"
definition feed_poll_batch_size :: nat where "feed_poll_batch_size = 100"
definition feed_report_delay :: int where "feed_report_delay = secs 30"
definition feed_reconcile_horizon :: int where "feed_reconcile_horizon = secs 7200"
definition feed_negative_threshold :: nat where "feed_negative_threshold = 4"
definition feed_clock_skew :: int where "feed_clock_skew = secs 300"
definition feed_lease :: int where "feed_lease = secs 300"
definition max_provider_reason_length :: nat where "max_provider_reason_length = 2000"

section \<open>Wake-ups\<close>

definition feed_run_task :: string where
  "feed_run_task = ''apps.marketplaces.tasks.process_marketplace_feed_run_step''"

definition feed_run_key :: "feed_env \<Rightarrow> uuid \<Rightarrow> nat \<Rightarrow> string" where
  "feed_run_key E k n = ''feed-run:'' @ fv_uuid_text E k @ '':rev:'' @ str_nat n"

text \<open>\<open>_enqueue_feed_run_revision\<close>; the task is on the list of durable tasks.\<close>

definition feed_run_request :: "feed_env \<Rightarrow> uuid \<Rightarrow> nat \<Rightarrow> instant \<Rightarrow> job_request" where
  "feed_run_request E k n available =
     \<lparr>jq_task = feed_run_task, jq_args = [JStr (fv_uuid_text E k), JInt (int n)], jq_kwargs = [],
      jq_key = Some (feed_run_key E k n), jq_available = Some available, jq_max_runs = 25, jq_timeout = 180,
      jq_revive = False\<rparr>"

definition enqueue_feed_run_revision ::
    "feed_env \<Rightarrow> instant \<Rightarrow> uuid \<Rightarrow> nat \<Rightarrow> instant \<Rightarrow> works \<Rightarrow> feed_error + job_dispatch \<times> works" where
  "enqueue_feed_run_revision E t k n available s =
     (case enqueue_durable_task t (feed_run_request E k n available) (wk_jobs s) of
        Inl _ \<Rightarrow> Inl Bad_Value
      | Inr (w, j) \<Rightarrow> Inr (w, s\<lparr>wk_jobs := j\<rparr>))"

definition enqueue_feed_run_snapshot :: "feed_env \<Rightarrow> instant \<Rightarrow> feed_run \<Rightarrow> works \<Rightarrow> feed_error + job_dispatch option \<times> works" where
  "enqueue_feed_run_snapshot E t r s =
     (if active_run r
      then (case fr_next r of
              None \<Rightarrow> Inr (None, s)
            | Some a \<Rightarrow> bind_ok (enqueue_feed_run_revision E t (fr_id r) (fr_revision r) a s) (\<lambda>(w, s1). Inr (Some w, s1)))
      else if fr_state r \<in> {Succeeded, Failed, Outcome_Uncertain}
      then bind_ok (enqueue_feed_run_revision E t (fr_id r) (fr_revision r) t s) (\<lambda>(w, s1). Inr (Some w, s1))
      else Inr (None, s))"

section \<open>Ends of a step\<close>

text \<open>\<open>_bounded_provider_reason\<close>: printable characters on one line.\<close>

definition is_printable :: "char \<Rightarrow> bool" where
  "is_printable c \<longleftrightarrow> (let n = (of_char c :: nat) in (32 \<le> n \<and> n \<le> 126) \<or> (161 \<le> n \<and> n \<noteq> 173))"

definition bounded_provider_reason :: "string \<Rightarrow> string" where
  "bounded_provider_reason text = take max_provider_reason_length (join_with '' '' (words (filter is_printable text)))"

text \<open>\<open>_record_feed_run_summary\<close>; \<open>other_resolved_count\<close> raises when the counters exceed the total.\<close>

definition record_feed_run_summary :: "feed_run \<Rightarrow> string \<Rightarrow> works \<Rightarrow> feed_error + unit \<times> works" where
  "record_feed_run_summary r error s =
     (let counted = fr_published r + fr_rejected r + fr_pending r
      in if fr_total r < counted then Inl Run_Conflict
         else Inr ((), s\<lparr>wk_summaries := wk_summaries s @
                [\<lparr>su_run = r, su_failed = (fr_state r \<noteq> Succeeded), su_other = fr_total r - counted,
                  su_error = bounded_provider_reason error\<rparr>]\<rparr>))"

text \<open>A transition of the workflow together with what follows it in the same transaction.\<close>

definition with_feeds :: "feed_error + 'a \<times> feeds \<Rightarrow> works \<Rightarrow> ('a \<Rightarrow> works \<Rightarrow> feed_error + 'b \<times> works) \<Rightarrow> feed_error + 'b \<times> works" where
  "with_feeds res s k = bind_ok res (\<lambda>(x, f). k x (s\<lparr>wk_feeds := f\<rparr>))"

definition then_enqueue :: "feed_env \<Rightarrow> instant \<Rightarrow> feed_run \<Rightarrow> works \<Rightarrow> feed_error + feed_run \<times> works" where
  "then_enqueue E t r s = bind_ok (enqueue_feed_run_snapshot E t r s) (\<lambda>(_, s1). Inr (r, s1))"

definition finish_durable_feed_run ::
    "feed_env \<Rightarrow> instant \<Rightarrow> feed_claim \<Rightarrow> run_state \<Rightarrow> string \<Rightarrow> bool \<Rightarrow> works \<Rightarrow> feed_error + feed_run \<times> works" where
  "finish_durable_feed_run E t c st error negative s =
     (let safe = bounded_provider_reason error
      in with_feeds (finish_feed_run E t c st safe negative (wk_feeds s)) s (\<lambda>r s1.
         bind_ok (record_feed_run_summary r safe s1) (\<lambda>(_, s2).
         then_enqueue E t r s2)))"

definition retry_durable_feed_step ::
    "feed_env \<Rightarrow> instant \<Rightarrow> feed_claim \<Rightarrow> string \<Rightarrow> int \<Rightarrow> bool \<Rightarrow> bool \<Rightarrow> works \<Rightarrow> feed_error + feed_run \<times> works" where
  "retry_durable_feed_step E t c error delay report negative s =
     with_feeds (retry_step E t c (t + max delay (secs 1)) (bounded_provider_reason error) report negative (wk_feeds s)) s (\<lambda>r s1.
     then_enqueue E t r s1)"

text \<open>\<open>_complete_feed_flush_revision\<close>: the cursor of the account after a submission.\<close>

datatype flush_end = Flush_Missing | Flush_Future | Flush_Completed | Flush_Superseded

definition complete_feed_flush_revision ::
    "nat \<Rightarrow> int option \<Rightarrow> instant \<Rightarrow> instant option \<Rightarrow> jobs \<Rightarrow> flush_end \<times> jobs" where
  "complete_feed_flush_revision k captured t submitted s =
     (case get_account k s of
        None \<Rightarrow> (Flush_Missing, s)
      | Some a0 \<Rightarrow>
          (let a = (case submitted of None \<Rightarrow> a0 | Some u \<Rightarrow> a0\<lparr>fa_last_flush := Some u\<rparr>) in
           case captured of
             None \<Rightarrow> (Flush_Completed, put_account a s)
           | Some n \<Rightarrow>
               (if fa_revision a < n then (Flush_Future, s)
                else let a1 = (if fa_dispatched a < n then a\<lparr>fa_dispatched := n\<rparr> else a)
                     in if fa_revision a = n then (Flush_Completed, put_account (a1\<lparr>fa_due := None\<rparr>) s)
                        else (Flush_Superseded, put_account (a1\<lparr>fa_due := Some t\<rparr>) s))))"

section \<open>Observations of the provider\<close>

text \<open>
  \<open>_latest_upload_observation\<close>: an upload of this account that started after the stored boundary, with the
  tolerated skew of the clocks. \<open>Inl\<close> is the \<open>ValueError\<close> of an impossible time.
\<close>

definition account_field_ok :: "market_account \<Rightarrow> json \<Rightarrow> bool" where
  "account_field_ok a v \<longleftrightarrow> v = JNull \<or> v = JStr [] \<or> py_str v = ma_external a"

definition latest_upload_observation ::
    "(string \<Rightarrow> parsed_time) \<Rightarrow> market_account \<Rightarrow> feed_run \<Rightarrow> dict \<Rightarrow> provider_error + (string \<times> string) option" where
  "latest_upload_observation parse a r upload =
     (let provider = strip (text_or_empty (dict_get ''upload_id'' upload)) in
      if provider = [] \<or> 200 < length provider then Inr None
      else (case parse (text_or_empty (dict_get ''started_at'' upload)) of
              Invalid_Time \<Rightarrow> Inl (provider_failure ''ValueError'')
            | No_Time \<Rightarrow> Inr None
            | Time started \<Rightarrow>
                (case fr_submitted r of
                   None \<Rightarrow> Inr None
                 | Some submitted \<Rightarrow>
                     (let status = lower (strip (text_or_empty (dict_get ''status'' upload))) in
                      if started < submitted - feed_clock_skew then Inr None
                      else if \<not> list_all (\<lambda>f. account_field_ok a (dict_get f upload)) [''account_id'', ''user_id'', ''owner_id'']
                      then Inr None
                      else if status = [] then Inr None
                      else Inr (Some (provider, status))))))"

text \<open>\<open>_strict_latest_upload_observation\<close>: every failure of reading and of validation is one the callers catch.\<close>

definition strict_observation :: "step_env \<Rightarrow> market_account \<Rightarrow> feed_run \<Rightarrow> transport \<Rightarrow> (string \<times> string) option reading" where
  "strict_observation W a r x =
     (case get_latest_upload x of
        Crashed \<Rightarrow> Crashed
      | Refused e \<Rightarrow> Refused e
      | Got upload \<Rightarrow> (case latest_upload_observation (se_parse_time W) a r upload of Inl e \<Rightarrow> Refused e | Inr v \<Rightarrow> Got v))"

definition provider_retry_delay :: "provider_error \<Rightarrow> int" where
  "provider_retry_delay e = (case pe_pause e of Some n \<Rightarrow> secs (max 1 n) | None \<Rightarrow> feed_poll_retry_delay)"

section \<open>The answer of a step\<close>

text \<open>The status of the answer, or an exception that leaves the task.\<close>

datatype step_end = Answered string | Escaped

definition workflow_errors :: "feed_error list" where
  "workflow_errors = [Account_Unavailable, Run_Conflict, Submission_Uncertain, Stale_Claim]"

text \<open>One transaction at the end of a step: errors of the workflow are answered with \<open>stale\<close>.\<close>

definition ending_with :: "('a \<Rightarrow> string) \<Rightarrow> feed_error + 'a \<times> works \<Rightarrow> works \<Rightarrow> step_end \<times> works" where
  "ending_with f res s =
     (case res of
        Inr (x, s1) \<Rightarrow> (Answered (f x), s1)
      | Inl e \<Rightarrow> (if e \<in> set workflow_errors then (Answered ''stale'', s) else (Escaped, s)))"

definition finishing :: "step_env \<Rightarrow> feed_claim \<Rightarrow> run_state \<Rightarrow> string \<Rightarrow> string \<Rightarrow> works \<Rightarrow> step_end \<times> works" where
  "finishing W c st error status s =
     ending_with (\<lambda>_. status) (finish_durable_feed_run (se_env W) (se_commit_at W) c st error False s) s"

definition retrying :: "step_env \<Rightarrow> feed_claim \<Rightarrow> string \<Rightarrow> int \<Rightarrow> bool \<Rightarrow> works \<Rightarrow> step_end \<times> works" where
  "retrying W c error delay report s =
     ending_with (\<lambda>_. ''retry_wait'') (retry_durable_feed_step (se_env W) (se_commit_at W) c error delay report False s) s"

section \<open>An ambiguous submission\<close>

definition msg_no_baseline :: string where
  "msg_no_baseline = ''outcome_uncertain: ambiguous submission has no authoritative pre-POST provider baseline; manual reconciliation is required.''"

definition msg_no_evidence :: string where "msg_no_evidence = ''no exact evidence of the upload at the provider''"
definition msg_predecessor :: string where "msg_predecessor = ''the provider still returns the upload that existed before the request''"
definition msg_status_unconfirmed :: string where "msg_status_unconfirmed = ''unconfirmed status of the upload: ''"

definition msg_reconcile_horizon :: string where
  "msg_reconcile_horizon = ''outcome_uncertain: exact provider submission evidence was not found within the reconciliation horizon; manual reconciliation is required and automatic POST retry is disabled. Last observation: ''"

text \<open>\<open>_record_submission_negative_or_fail\<close>.\<close>

definition record_submission_negative_or_fail ::
    "step_env \<Rightarrow> feed_claim \<Rightarrow> string \<Rightarrow> works \<Rightarrow> feed_error + feed_run \<times> works" where
  "record_submission_negative_or_fail W c error s =
     (let t = se_commit_at W;
          horizon_reached = (case fr_submitted (cl_run c) of None \<Rightarrow> False | Some u \<Rightarrow> u + feed_reconcile_horizon \<le> t)
      in if horizon_reached \<and> feed_negative_threshold \<le> fr_reconciles (cl_run c) + 1
         then finish_durable_feed_run (se_env W) t c Outcome_Uncertain (msg_reconcile_horizon @ bounded_provider_reason error) True s
         else retry_durable_feed_step (se_env W) t c error feed_poll_retry_delay False True s)"

definition negative_status :: "feed_run \<Rightarrow> string" where
  "negative_status r = (if fr_state r = Outcome_Uncertain then ''outcome_uncertain'' else ''retry_wait'')"

definition negative :: "step_env \<Rightarrow> feed_claim \<Rightarrow> string \<Rightarrow> works \<Rightarrow> step_end \<times> works" where
  "negative W c error s = ending_with negative_status (record_submission_negative_or_fail W c error s) s"

definition bound_statuses :: "string list" where
  "bound_statuses = [''processing'', ''success'', ''success_warning'']"

text \<open>The run observed is bound, and the revision of the account it was made for is complete.\<close>

definition bind_submission :: "step_env \<Rightarrow> feed_claim \<Rightarrow> string \<Rightarrow> works \<Rightarrow> feed_error + feed_run \<times> works" where
  "bind_submission W c provider s =
     (let t = se_commit_at W; E = se_env W in
      with_feeds (record_provider_run_observation E t c provider (t + feed_poll_batch_delay) (wk_feeds s)) s (\<lambda>r s1.
      let s2 = (case (case get_run (fr_id (cl_run c)) (wk_feeds s1) of None \<Rightarrow> None | Some x \<Rightarrow> fr_intent x) of
                  None \<Rightarrow> s1
                | Some n \<Rightarrow> s1\<lparr>wk_jobs := snd (complete_feed_flush_revision (fr_account (cl_run c)) (Some n) t
                                                 (fr_submitted (cl_run c)) (wk_jobs s1))\<rparr>)
      in then_enqueue E t r s2))"

text \<open>
  \<open>_process_submission_unknown\<close>. Here the observation is validated outside the \<open>try\<close> that surrounds the
  reading, so an impossible time leaves the task.
\<close>

definition process_submission_unknown :: "step_env \<Rightarrow> feed_claim \<Rightarrow> market_account \<Rightarrow> works \<Rightarrow> step_end \<times> works" where
  "process_submission_unknown W c a s0 =
     (let s = se_first W s0; r = cl_run c in
      case get_latest_upload (se_upload W) of
        Crashed \<Rightarrow> (Escaped, s)
      | Refused e \<Rightarrow> retrying W c (pe_text e) (provider_retry_delay e) False s
      | Got upload \<Rightarrow>
          (case latest_upload_observation (se_parse_time W) a r upload of
             Inl _ \<Rightarrow> (Escaped, s)
           | Inr None \<Rightarrow> negative W c msg_no_evidence s
           | Inr (Some (provider, status)) \<Rightarrow>
               (if fr_predecessor r = None then finishing W c Outcome_Uncertain msg_no_baseline ''outcome_uncertain'' s
                else if fr_predecessor r = Some provider then negative W c msg_predecessor s
                else if status \<notin> set bound_statuses
                then retrying W c (msg_status_unconfirmed @ status @ ''.'') feed_poll_retry_delay False s
                else ending_with (\<lambda>_. ''provider_run_bound'') (bind_submission W c provider s) s)))"

section \<open>Polling\<close>

definition provider_success_statuses :: "string list" where
  "provider_success_statuses = [''success'', ''success_warning'']"

definition provider_item_statuses :: "string list" where
  "provider_item_statuses = ''processing'' # provider_success_statuses"

definition provider_result_deadline_reached :: "instant \<Rightarrow> feed_claim \<Rightarrow> bool" where
  "provider_result_deadline_reached t c \<longleftrightarrow> (case fr_deadline (cl_run c) of None \<Rightarrow> True | Some d \<Rightarrow> d \<le> t)"

definition provider_page_observation_is_consistent :: "string \<times> string \<Rightarrow> string \<times> string \<Rightarrow> bool" where
  "provider_page_observation_is_consistent before after \<longleftrightarrow>
     fst before = fst after \<and> snd before \<in> set provider_item_statuses \<and> snd after \<in> set provider_item_statuses \<and>
     \<not> (snd before \<in> set provider_success_statuses \<and> snd after = ''processing'')"

definition msg_provenance :: string where
  "msg_provenance = ''outcome_uncertain: provider result provenance could not be completed automatically; manual reconciliation is required. ''"

definition msg_deadline :: string where "msg_deadline = ''The exact 48-hour provider-result deadline was reached.''"
definition msg_deadline_reporting :: string where
  "msg_deadline_reporting = ''The exact 48-hour provider-result deadline was reached during reporting.''"
definition msg_deadline_ids :: string where
  "msg_deadline_ids = ''The exact 48-hour deadline was reached before the ID page commit.''"
definition msg_deadline_page :: string where
  "msg_deadline_page = ''The exact 48-hour deadline was reached before the report page commit.''"
definition msg_no_provable_run :: string where "msg_no_provable_run = ''no provable upload after the stored boundary''"
definition msg_no_predecessor :: string where
  "msg_no_predecessor = ''The submission has no authoritative pre-POST provider baseline.''"
definition msg_moved :: string where
  "msg_moved = ''The provider latest-upload identity moved away from the bound run.''"
definition msg_moved_reporting :: string where
  "msg_moved_reporting = ''The provider latest-upload identity moved away from the reporting run.''"
definition msg_not_confirmed :: string where "msg_not_confirmed = ''the upload is not confirmed yet: ''"
definition msg_processing :: string where "msg_processing = ''the provider still processes the exact upload''"
definition msg_ids_changed :: string where
  "msg_ids_changed = ''The exact upload changed while a provider ID page was being read.''"
definition msg_page_changed :: string where
  "msg_page_changed = ''The exact upload changed while a current item page was being read.''"
definition msg_page_limit :: string where
  "msg_page_limit = ''The provider report exceeds the bounded 10,000-listing page limit.''"
definition msg_not_provable :: string where "msg_not_provable = ''the report cannot be proven to belong to this generation''"
definition msg_not_checkable :: string where "msg_not_checkable = ''the exact upload cannot be checked: ''"
definition msg_budget :: string where "msg_budget = ''The exact report exceeded its bounded retry budget. Last error: ''"

definition finish_provider_result_uncertain :: "step_env \<Rightarrow> feed_claim \<Rightarrow> string \<Rightarrow> works \<Rightarrow> step_end \<times> works" where
  "finish_provider_result_uncertain W c reason s =
     finishing W c Outcome_Uncertain (msg_provenance @ reason) ''outcome_uncertain'' s"

definition retry_provider_result_read :: "step_env \<Rightarrow> feed_claim \<Rightarrow> string \<Rightarrow> int \<Rightarrow> works \<Rightarrow> step_end \<times> works" where
  "retry_provider_result_read W c error delay s = retrying W c error delay False s"

text \<open>The ids of listings the provider knows: at most a page of items, the last word of a listing counts.\<close>

definition local_ids :: "feed_env \<Rightarrow> run_listing list \<Rightarrow> (string \<times> nat) list" where
  "local_ids E batch = fold (\<lambda>l. AList.update (fv_uuid_text E (rl_key l)) (rl_pk l)) batch []"

definition resolve_item :: "(string \<times> nat) list \<Rightarrow> json \<Rightarrow> (nat \<times> string) list \<Rightarrow> (nat \<times> string) list" where
  "resolve_item ids v resolved =
     (case v of
        JObj item \<Rightarrow>
          (let external = strip (text_or_empty (dict_get ''avito_id'' item)) in
           case map_of ids (text_or_empty (dict_get ''ad_id'' item)) of
             None \<Rightarrow> resolved
           | Some k \<Rightarrow> if external = [] then resolved else AList.update k external resolved)
      | _ \<Rightarrow> resolved)"

definition resolved_ids :: "(string \<times> nat) list \<Rightarrow> json \<Rightarrow> (nat \<times> string) list" where
  "resolved_ids ids results =
     (case results of JList items \<Rightarrow> fold (resolve_item ids) (take feed_poll_batch_size items) [] | _ \<Rightarrow> [])"

definition bind_polling :: "step_env \<Rightarrow> feed_claim \<Rightarrow> string \<Rightarrow> works \<Rightarrow> feed_error + feed_run \<times> works" where
  "bind_polling W c provider s =
     (let t = se_commit_at W; E = se_env W in
      with_feeds (record_provider_run_observation E t c provider (t + feed_poll_batch_delay) (wk_feeds s)) s (then_enqueue E t))"

definition begin_reporting :: "step_env \<Rightarrow> feed_claim \<Rightarrow> string \<Rightarrow> works \<Rightarrow> feed_error + feed_run \<times> works" where
  "begin_reporting W c provider s =
     (let t = se_commit_at W; E = se_env W in
      with_feeds (start_reporting E t c (t + feed_report_delay) (Some provider) (wk_feeds s)) s (then_enqueue E t))"

definition restart_round :: "step_env \<Rightarrow> feed_claim \<Rightarrow> works \<Rightarrow> feed_error + feed_run \<times> works" where
  "restart_round W c s =
     (let t = se_commit_at W; E = se_env W in
      with_feeds (reset_poll_round E t c (t + feed_poll_retry_delay) (wk_feeds s)) s (then_enqueue E t))"

definition commit_poll_page ::
    "step_env \<Rightarrow> feed_claim \<Rightarrow> run_listing list \<Rightarrow> (nat \<times> string) list \<Rightarrow> works \<Rightarrow> feed_error + feed_run \<times> works" where
  "commit_poll_page W c batch resolved s =
     (let t = se_commit_at W; E = se_env W in
      with_feeds (apply_poll_page E t c (map rl_pk batch) resolved (rl_pk (last batch)) (t + feed_poll_batch_delay) (wk_feeds s)) s
        (\<lambda>res. then_enqueue E t (pg_run res)))"

text \<open>The page of ids: read, compared with the upload once more, and committed.\<close>

definition poll_ids ::
    "step_env \<Rightarrow> feed_claim \<Rightarrow> market_account \<Rightarrow> string \<times> string \<Rightarrow> run_listing list \<Rightarrow> works \<Rightarrow> step_end \<times> works" where
  "poll_ids W c a before batch s =
     (let ids = local_ids (se_env W) batch in
      case get_feed_results (map fst ids) (se_results W) (se_results_again W) of
        Crashed \<Rightarrow> (Escaped, s)
      | Refused e \<Rightarrow> retry_provider_result_read W c (pe_text e) (provider_retry_delay e) s
      | Got results \<Rightarrow>
          (case strict_observation W a (cl_run c) (se_after W) of
             Crashed \<Rightarrow> (Escaped, s)
           | Refused e \<Rightarrow> retry_provider_result_read W c (pe_text e) (provider_retry_delay e) s
           | Got after \<Rightarrow>
               (if after \<noteq> Some before then finish_provider_result_uncertain W c msg_ids_changed s
                else if provider_result_deadline_reached (se_recheck_at W) c
                then finish_provider_result_uncertain W c msg_deadline_ids s
                else ending_with (\<lambda>_. ''poll_page_applied'') (commit_poll_page W c batch (resolved_ids ids results) s) s)))"

definition process_polling_feed_run :: "step_env \<Rightarrow> feed_claim \<Rightarrow> market_account \<Rightarrow> works \<Rightarrow> step_end \<times> works" where
  "process_polling_feed_run W c a s0 =
     (if provider_result_deadline_reached (se_check_at W) c then finish_provider_result_uncertain W c msg_deadline s0
      else (let s = se_first W s0; r = cl_run c in
      case strict_observation W a r (se_upload W) of
        Crashed \<Rightarrow> (Escaped, s)
      | Refused e \<Rightarrow> retry_provider_result_read W c (pe_text e) (provider_retry_delay e) s
      | Got None \<Rightarrow> retry_provider_result_read W c msg_no_provable_run feed_poll_retry_delay s
      | Got (Some (provider, status)) \<Rightarrow>
          (if no_provider r
           then (case fr_predecessor r of
                   None \<Rightarrow> finish_provider_result_uncertain W c msg_no_predecessor s
                 | Some p \<Rightarrow>
                     (if provider = p then retry_provider_result_read W c msg_predecessor feed_poll_retry_delay s
                      else ending_with (\<lambda>_. ''provider_run_bound'') (bind_polling W c provider s) s))
           else if fr_provider r \<noteq> Some provider then finish_provider_result_uncertain W c msg_moved s
           else if status \<notin> set provider_item_statuses
           then retry_provider_result_read W c (msg_not_confirmed @ status @ ''.'') feed_poll_retry_delay s
           else if fr_report_done r = None then ending_with (\<lambda>_. ''reporting'') (begin_reporting W c provider s) s
           else if status = ''processing'' then retry_provider_result_read W c msg_processing feed_poll_retry_delay s
           else (case load_poll_batch (se_env W) (se_load_at W) c feed_poll_batch_size (wk_feeds s) of
                   Inl e \<Rightarrow> ending_with (\<lambda>_::unit. []) (Inl e) s
                 | Inr [] \<Rightarrow>
                     (if fr_pending r \<noteq> 0 then ending_with (\<lambda>_. ''poll_round_wait'') (restart_round W c s) s
                      else finishing W c Succeeded [] ''completed'' s)
                 | Inr (l # ls) \<Rightarrow> poll_ids W c a (provider, status) (l # ls) (se_second W s)))))"

section \<open>Reporting\<close>

definition report_attempt_budget :: nat where "report_attempt_budget = 24"

definition retry_reporting_or_fail :: "step_env \<Rightarrow> feed_claim \<Rightarrow> string \<Rightarrow> works \<Rightarrow> step_end \<times> works" where
  "retry_reporting_or_fail W c error s =
     (if report_attempt_budget \<le> fr_report_attempt (cl_run c)
      then finish_provider_result_uncertain W c (msg_budget @ bounded_provider_reason error) s
      else retrying W c error feed_poll_retry_delay True s)"

text \<open>The page as the workflow takes it.\<close>

definition report_page_of :: "instant \<Rightarrow> nat \<Rightarrow> string \<Rightarrow> outcome_page \<Rightarrow> report_page" where
  "report_page_of t page status p =
     \<lparr>rp_page = page, rp_errors = op_errors p, rp_external = op_external p, rp_next = op_next p,
      rp_again = (if op_next p \<noteq> None then Some (t + feed_report_delay)
                  else if status = ''processing'' then Some (t + feed_poll_retry_delay) else None),
      rp_complete = (status \<in> set provider_success_statuses)\<rparr>"

definition commit_report_page :: "step_env \<Rightarrow> feed_claim \<Rightarrow> string \<Rightarrow> outcome_page \<Rightarrow> works \<Rightarrow> feed_error + feed_run \<times> works" where
  "commit_report_page W c status p s =
     (let t = se_commit_at W; E = se_env W in
      with_feeds (apply_report_page E t c (report_page_of t (fr_page (cl_run c)) status p) (wk_feeds s)) s (\<lambda>res s1.
      let r = pg_run res in
      if fr_state r \<in> set terminal_run_states
      then bind_ok (record_feed_run_summary r [] s1) (\<lambda>(_, s2). then_enqueue E t r s2)
      else then_enqueue E t r s1))"

definition reported_status :: "feed_run \<Rightarrow> string" where
  "reported_status r =
     (if fr_state r = Succeeded then ''completed''
      else if fr_report_done r \<noteq> None then ''report_completed'' else ''report_page_applied'')"

definition process_reporting_feed_run :: "step_env \<Rightarrow> feed_claim \<Rightarrow> market_account \<Rightarrow> works \<Rightarrow> step_end \<times> works" where
  "process_reporting_feed_run W c a s0 =
     (let r = cl_run c; max_pages = avito_max_pages (se_max_pages W) in
      if provider_result_deadline_reached (se_check_at W) c then finish_provider_result_uncertain W c msg_deadline_reporting s0
      else if max_pages < fr_page r then finish_provider_result_uncertain W c msg_page_limit s0
      else (let s = se_first W s0 in
      case strict_observation W a r (se_upload W) of
        Crashed \<Rightarrow> (Escaped, s)
      | Refused e \<Rightarrow> retry_reporting_or_fail W c (pe_text e) s
      | Got None \<Rightarrow> retry_reporting_or_fail W c msg_not_provable s
      | Got (Some (provider, status)) \<Rightarrow>
          (if fr_provider r \<noteq> Some provider then finish_provider_result_uncertain W c msg_moved_reporting s
           else if status \<notin> set provider_item_statuses
           then retry_reporting_or_fail W c (msg_not_checkable @ status @ ''.'') s
           else (let s1 = se_second W s in
             case get_current_feed_item_outcome_page (fv_unescape (se_env W)) (fr_page r) (se_page W) of
               Crashed \<Rightarrow> (Escaped, s1)
             | Refused e \<Rightarrow> retry_reporting_or_fail W c (pe_text e) s1
             | Got p \<Rightarrow>
                 (if (case op_next p of None \<Rightarrow> False | Some n \<Rightarrow> max_pages < n)
                  then finish_provider_result_uncertain W c msg_page_limit s1
                  else (case strict_observation W a r (se_after W) of
                    Crashed \<Rightarrow> (Escaped, s1)
                  | Refused e \<Rightarrow> retry_reporting_or_fail W c (pe_text e) s1
                  | Got after \<Rightarrow>
                      (if (case after of None \<Rightarrow> True
                           | Some v \<Rightarrow> \<not> provider_page_observation_is_consistent (provider, status) v)
                       then finish_provider_result_uncertain W c msg_page_changed s1
                       else if provider_result_deadline_reached (se_recheck_at W) c
                       then finish_provider_result_uncertain W c msg_deadline_page s1
                       else ending_with reported_status (commit_report_page W c (snd (the after)) p s1) s1)))))))"

section \<open>The task\<close>

definition msg_worker_lost_before :: string where
  "msg_worker_lost_before = ''Flush worker was lost before the provider submission boundary.''"

definition msg_unsupported_state :: string where "msg_unsupported_state = ''Unsupported durable feed state: retry_wait.''"

text \<open>The part under the \<open>try\<close>: the claim decides.\<close>

definition process_claimed_feed_run :: "step_env \<Rightarrow> string \<Rightarrow> feed_claim \<Rightarrow> market_account \<Rightarrow> works \<Rightarrow> step_end \<times> works" where
  "process_claimed_feed_run W last_error c a s =
     (case fr_state (cl_run c) of
        Preparing \<Rightarrow>
          finishing W c Failed (if strip last_error = [] then msg_worker_lost_before else strip last_error)
            ''failed_pre_submission'' s
      | Submit_Unknown \<Rightarrow> process_submission_unknown W c a s
      | Polling \<Rightarrow> process_polling_feed_run W c a s
      | Reporting \<Rightarrow> process_reporting_feed_run W c a s
      | _ \<Rightarrow> finishing W c Failed msg_unsupported_state ''failed'' s)"

text \<open>\<open>MarketplaceAccount.objects.filter(pk=..., tenant__is_active=True)\<close>: deleted accounts are left out.\<close>

definition working_account :: "nat \<Rightarrow> feeds \<Rightarrow> market_account option" where
  "working_account k s =
     (case get_market k s of None \<Rightarrow> None | Some a \<Rightarrow> if ma_deleted a = None \<and> ma_tenant_active a then Some a else None)"

text \<open>The canonical text of a UUID and a revision.\<close>

definition step_arguments :: "feed_env \<Rightarrow> json \<Rightarrow> json \<Rightarrow> (uuid \<times> nat) option" where
  "step_arguments E run_id revision =
     (case (fv_parse_uuid E (py_str run_id), revision) of
        (Some k, JInt n) \<Rightarrow> if fv_uuid_text E k = py_str run_id \<and> 0 \<le> n then Some (k, nat n) else None
      | _ \<Rightarrow> None)"

definition process_marketplace_feed_run_step :: "step_env \<Rightarrow> json \<Rightarrow> json \<Rightarrow> works \<Rightarrow> step_end \<times> works" where
  "process_marketplace_feed_run_step W run_id revision s =
     (case step_arguments (se_env W) run_id revision of
        None \<Rightarrow> (Answered ''invalid'', s)
      | Some (k, n) \<Rightarrow>
          (case get_run k (wk_feeds s) of
             None \<Rightarrow> (Answered ''stale'', s)
           | Some r \<Rightarrow>
               (if fr_revision r \<noteq> n then (Answered ''stale'', s)
                else if \<not> se_enabled W (fr_account r) then (Answered ''disabled'', s)
                else if fr_state r \<in> {Succeeded, Failed, Outcome_Uncertain}
                then (if se_notify W r then (Answered ''digest_delivered'', s\<lparr>wk_digests := wk_digests s @ [r]\<rparr>) else (Escaped, s))
                else (case claim_due_run_for_account (se_env W) (se_claim_at W) feed_lease (fr_account r) (Some k) (Some n) (wk_feeds s) of
                        Inl _ \<Rightarrow> (Escaped, s)
                      | Inr (None, f) \<Rightarrow> (Answered ''stale'', s\<lparr>wk_feeds := f\<rparr>)
                      | Inr (Some c, f) \<Rightarrow>
                          (let s1 = s\<lparr>wk_feeds := f\<rparr> in
                           case working_account (fr_account r) f of
                             None \<Rightarrow> (Answered ''stale'', s1)
                           | Some a \<Rightarrow> process_claimed_feed_run W (fr_error r) c a s1)))))"

section \<open>Recovery of lost wake-ups\<close>

text \<open>\<open>tenant_on\<close> tells the active tenants.\<close>

definition waking_run :: "instant \<Rightarrow> (nat \<Rightarrow> bool) \<Rightarrow> feeds \<Rightarrow> feed_run \<Rightarrow> bool" where
  "waking_run t tenant_on s r \<longleftrightarrow>
     fr_marketplace r = Mp_Avito \<and> active_run r \<and> due_at t r \<and> unleased t r \<and> tenant_on (fr_tenant r) \<and>
     (case get_market (fr_account r) s of None \<Rightarrow> False | Some a \<Rightarrow> live a)"

definition waking_runs :: "instant \<Rightarrow> (nat \<Rightarrow> bool) \<Rightarrow> (nat \<Rightarrow> bool) \<Rightarrow> feeds \<Rightarrow> feed_run list" where
  "waking_runs t tenant_on served s =
     take 100 (sort_key (\<lambda>r. the (fr_next r)) (sort_key fr_id
       (filter (\<lambda>r. waking_run t tenant_on s r \<and> served (fr_account r)) (fd_runs s))))"

fun wake_each :: "feed_env \<Rightarrow> instant \<Rightarrow> feed_run list \<Rightarrow> works \<Rightarrow> (feed_error + uuid list) \<times> works" where
  "wake_each E t [] s = (Inr [], s)"
| "wake_each E t (r # rs) s =
     (case enqueue_feed_run_revision E t (fr_id r) (fr_revision r) (the (fr_next r)) s of
        Inl e \<Rightarrow> (Inl e, s)
      | Inr (w, s1) \<Rightarrow>
          (case wake_each E t rs s1 of
             (Inl e, s2) \<Rightarrow> (Inl e, s2)
           | (Inr ws, s2) \<Rightarrow> (Inr (jd_id w # ws), s2)))"

text \<open>\<open>dispatch_due_marketplace_feed_runs\<close>; the answer is \<open>None\<close> when neither the fleet nor an account is enabled.\<close>

definition dispatch_due_marketplace_feed_runs ::
    "feed_env \<Rightarrow> instant \<Rightarrow> (nat \<Rightarrow> bool) \<Rightarrow> bool \<Rightarrow> nat list \<Rightarrow> works \<Rightarrow> (feed_error + uuid list option) \<times> works" where
  "dispatch_due_marketplace_feed_runs E t tenant_on fleet cutover s =
     (if \<not> fleet \<and> cutover = [] then (Inr None, s)
      else (case cancel_feed_runs_for_inactive_owners t max_recovery_batch_size (wk_feeds s) of
              (Inl e, f) \<Rightarrow> (Inl e, s\<lparr>wk_feeds := f\<rparr>)
            | (Inr _, f) \<Rightarrow>
                (let s1 = s\<lparr>wk_feeds := f\<rparr> in
                 case wake_each E t (waking_runs t tenant_on (\<lambda>k. fleet \<or> k \<in> set cutover) f) s1 of
                   (Inl e, s2) \<Rightarrow> (Inl e, s2)
                 | (Inr ws, s2) \<Rightarrow> (Inr (Some ws), s2))))"

text \<open>\<open>_enqueue_current_feed_run\<close>: the first due run of one account.\<close>

definition enqueue_current_feed_run ::
    "feed_env \<Rightarrow> instant \<Rightarrow> (nat \<Rightarrow> bool) \<Rightarrow> nat \<Rightarrow> works \<Rightarrow> feed_error + job_dispatch option \<times> works" where
  "enqueue_current_feed_run E t tenant_on account s =
     (case sort_key fr_id (filter (\<lambda>r. fr_account r = account \<and> waking_run t tenant_on (wk_feeds s) r) (fd_runs (wk_feeds s))) of
        [] \<Rightarrow> Inr (None, s)
      | r # _ \<Rightarrow>
          bind_ok (enqueue_feed_run_revision E t (fr_id r) (fr_revision r) (the (fr_next r)) s) (\<lambda>(w, s1). Inr (Some w, s1)))"

end
