(* ===== verification/Feed_Worker_Steps.thy ===== *)
theory Feed_Worker_Steps
  imports Feed_Worker
begin

text \<open>
  What one execution of the worker of feed runs amounts to: one operation of the feed workflow under
  its own claim, together with the dispatch that wakes the worker for the revision it leaves.
\<close>

section \<open>Wake-ups\<close>

lemma feed_run_queue: "map_of durable_task_queues feed_run_task = Some ''avito_publish''"
  by (simp add: durable_task_queues_def feed_run_task_def)

lemma feed_run_key_nonempty: "feed_run_key E k n \<noteq> []"
  by (simp add: feed_run_key_def)

text \<open>A wake-up that is found, or new and available when asked for.\<close>

definition awake :: "feed_env \<Rightarrow> uuid \<Rightarrow> nat \<Rightarrow> instant \<Rightarrow> jobs \<Rightarrow> jobs \<Rightarrow> bool" where
  "awake E k n available before after \<longleftrightarrow>
     (\<exists>w. dispatch_with_key (feed_run_key E k n) after = Some w \<and>
        (dispatch_with_key (feed_run_key E k n) before = Some w \<or>
         dispatch_with_key (feed_run_key E k n) before = None \<and> jd_status w = Dp_Pending \<and> jd_available w = available))"

lemma kick_key [simp]: "dispatch_with_key key (kick k s) = dispatch_with_key key s"
  by (simp add: dispatch_with_key_def kick_def)

lemma find_append: "find p (xs @ ys) = (case find p xs of None \<Rightarrow> find p ys | Some x \<Rightarrow> Some x)"
  by (induction xs) auto

lemma enqueue_feed_run:
  assumes "enqueue_feed_run_revision E t k n available s = Inr (w, s')"
  shows "awake E k n available (wk_jobs s) (wk_jobs s')" "wk_feeds s' = wk_feeds s" "wk_summaries s' = wk_summaries s"
    "wk_digests s' = wk_digests s"
    "dispatch_with_key key (wk_jobs s) = Some v \<Longrightarrow> dispatch_with_key key (wk_jobs s') = Some v"
proof -
  let ?key = "feed_run_key E k n" and ?q = "feed_run_request E k n available"
  have q: "jq_task ?q = feed_run_task" "jq_key ?q = Some ?key" "jq_revive ?q = False" "jq_available ?q = Some available"
    by (simp_all add: feed_run_request_def)
  obtain j where j: "enqueue_durable_task t ?q (wk_jobs s) = Inr (w, j)" "s' = s\<lparr>wk_jobs := j\<rparr>"
    using assms by (auto simp: enqueue_feed_run_revision_def split: sum.splits)
  show "wk_feeds s' = wk_feeds s" "wk_summaries s' = wk_summaries s" "wk_digests s' = wk_digests s" by (simp_all add: j(2))
  have "awake E k n available (wk_jobs s) j \<and> (dispatch_with_key key (wk_jobs s) = Some v \<longrightarrow> dispatch_with_key key j = Some v)"
  proof (cases "dispatch_with_key ?key (wk_jobs s)")
    case None
    let ?w = "new_dispatch t ?q ''avito_publish'' (jb_next (wk_jobs s))"
    have rows: "jb_dispatches j = row_add ?w (jb_dispatches (wk_jobs s))"
      using j(1) None by (simp add: enqueue_durable_task_def q feed_run_queue feed_run_key_nonempty create_dispatch_def Let_def kick_def) auto
    have w: "jd_key ?w = Some ?key" "jd_status ?w = Dp_Pending" "jd_available ?w = available"
      by (simp_all add: new_dispatch_def q feed_run_key_nonempty)
    have found: "dispatch_with_key x j = (case dispatch_with_key x (wk_jobs s) of Some y \<Rightarrow> Some y | None \<Rightarrow> if x = ?key then Some ?w else None)" for x
      unfolding dispatch_with_key_def rows row_add_def find_append by (simp add: w split: option.split)
    show ?thesis using None w by (auto simp: awake_def found)
  next
    case (Some x)
    then have "j = kick (jd_id x) (wk_jobs s)"
      using j(1) by (auto simp: enqueue_durable_task_def q feed_run_queue feed_run_key_nonempty)
    then show ?thesis using Some by (auto simp: awake_def)
  qed
  then show "awake E k n available (wk_jobs s) (wk_jobs s')"
    "dispatch_with_key key (wk_jobs s) = Some v \<Longrightarrow> dispatch_with_key key (wk_jobs s') = Some v"
    by (simp_all add: j(2))
qed

section \<open>The row an operation leaves\<close>

text \<open>A row whose next step needs a wake-up, and the time it is needed at.\<close>

definition wakeable :: "feed_run \<Rightarrow> bool" where
  "wakeable r \<longleftrightarrow> active_run r \<and> fr_next r \<noteq> None \<or> fr_state r \<in> {Succeeded, Failed, Outcome_Uncertain} \<and> fr_next r = None"

definition wake_time :: "instant \<Rightarrow> feed_run \<Rightarrow> instant" where
  "wake_time t r = (case fr_next r of None \<Rightarrow> t | Some a \<Rightarrow> a)"

definition left_behind :: "feed_claim \<Rightarrow> feed_run \<Rightarrow> feeds \<Rightarrow> bool" where
  "left_behind c x f \<longleftrightarrow> get_run (fr_id (cl_run c)) f = Some x \<and> fr_token x = None \<and> fr_revision x = fr_revision (cl_run c) + 1"

lemma wakeable_released [simp]: "wakeable (released r) = wakeable r" "fr_next (released r) = fr_next r"
  by (simp_all add: wakeable_def active_run_def released_def)

lemma wakeable_states:
  "fr_state r \<in> set active_run_states \<Longrightarrow> fr_next r = Some a \<Longrightarrow> wakeable r"
  "fr_state r \<in> {Succeeded, Failed, Outcome_Uncertain} \<Longrightarrow> fr_next r = None \<Longrightarrow> wakeable r"
  by (auto simp: wakeable_def active_run_def)

lemma transition_leaves:
  assumes "transition_claimed t c f s = Inr (x, s')"
    "\<And>r. claim_matches c t r \<Longrightarrow> get_run (fr_id (cl_run c)) s = Some r \<Longrightarrow>
       fr_id (f r) = fr_id r \<and> fr_revision (f r) = fr_revision r \<and> wakeable (f r)"
  shows "left_behind c x s' \<and> wakeable x"
proof -
  obtain r where r: "get_run (fr_id (cl_run c)) s = Some r" "claim_matches c t r"
    using assms(1) by (rule transition_result)
  note f = assms(2) [OF r(2,1)]
  have "x = released (f r)" "get_run (fr_id (cl_run c)) s' = Some x" using transition_row [OF assms(1) r(1)] f by auto
  then show ?thesis using f r(2) by (simp add: left_behind_def claim_matches_def)
qed

text \<open>The row that was locked is the row the transition meets.\<close>

lemma locked_leaves:
  assumes "lock_claimed_run E t c allowed s0 = Inr r" "transition_claimed t c f s = Inr (x, s')" "fd_runs s = fd_runs s0"
    "fr_id (f r) = fr_id r \<and> fr_revision (f r) = fr_revision r \<and> wakeable (f r)"
  shows "left_behind c x s' \<and> wakeable x"
proof (rule transition_leaves [OF assms(2)])
  fix q assume "get_run (fr_id (cl_run c)) s = Some q"
  then have "q = r" using lock_claimed_result(1) [OF assms(1)] assms(3) by (simp add: get_run_def)
  then show "fr_id (f q) = fr_id q \<and> fr_revision (f q) = fr_revision q \<and> wakeable (f q)" using assms(4) by simp
qed

lemma recomputed_identity: "recomputed_counters r s = Inr g \<Longrightarrow> fr_id (g x) = fr_id x \<and> fr_revision (g x) = fr_revision x \<and>
    fr_state (g x) = fr_state x \<and> fr_next (g x) = fr_next x"
  by (simp add: recomputed_result)

lemma counters_identity: "counter_values r p j d = Inr g \<Longrightarrow> fr_id (g x) = fr_id x \<and> fr_revision (g x) = fr_revision x \<and>
    fr_state (g x) = fr_state x \<and> fr_next (g x) = fr_next x"
  by (simp add: counter_values_result(1))

lemma finish_leaves:
  assumes "finish_feed_run E t c st e b s = Inr (x, s')" "st \<in> {Succeeded, Failed, Outcome_Uncertain}"
  shows "left_behind c x s' \<and> wakeable x \<and> fr_state x = st"
proof -
  obtain r g f where r: "lock_claimed_run E t c active_run_states s = Inr r" "recomputed_counters r s = Inr g"
    "f = (\<lambda>x. (g x)\<lparr>fr_state := st, fr_next := None, fr_error := clean_error e, fr_finished := Some t,
             fr_reconciles := (if b then fr_reconciles r + 1 else fr_reconciles x)\<rparr>)"
    "transition_claimed t c f s = Inr (x, s')"
    using assms(1) by (rule finish_result)
  have "wakeable (f r)" by (rule wakeable_states(2)) (use assms(2) r(3) in simp_all)
  moreover have id: "fr_id (f r) = fr_id r \<and> fr_revision (f r) = fr_revision r" using recomputed_identity [OF r(2)] by (simp add: r(3))
  ultimately have "left_behind c x s' \<and> wakeable x" by (intro locked_leaves [OF r(1,4)]) auto
  moreover have "x = released (f r)"
    using transition_row(1) [OF r(4) lock_claimed_result(1) [OF r(1)]] id by simp
  ultimately show ?thesis by (simp add: r(3))
qed

lemma retry_leaves:
  assumes "retry_step E t c again e b d s = Inr (x, s')"
  shows "left_behind c x s' \<and> wakeable x"
proof -
  obtain r f where r: "lock_claimed_run E t c active_run_states s = Inr r" "transition_claimed t c f s = Inr (x, s')"
    "f = (\<lambda>x. x\<lparr>fr_next := Some again, fr_error := clean_error e,
           fr_report_attempt := (if b then fr_report_attempt r + 1 else fr_report_attempt x),
           fr_reconciles := (if d then fr_reconciles r + 1 else fr_reconciles x)\<rparr>)"
    using assms by (auto simp: retry_step_def bind_ok_Inr_iff split: if_splits)
  have "wakeable (f r)" by (rule wakeable_states(1)) (use lock_claimed_result(3) [OF r(1)] in \<open>simp_all add: r(3)\<close>)
  then show ?thesis by (intro locked_leaves [OF r(1,2)]) (simp_all add: r(3))
qed

lemma observation_leaves:
  assumes "record_provider_run_observation E t c p again s = Inr (x, s')"
  shows "left_behind c x s' \<and> wakeable x"
proof -
  obtain r f where r: "lock_claimed_run E t c [Polling, Submit_Unknown] s = Inr r" "transition_claimed t c f s = Inr (x, s')"
    "\<And>x. fr_id (f x) = fr_id x \<and> fr_revision (f x) = fr_revision x \<and> fr_state (f x) = Polling \<and> fr_next (f x) = Some again"
    using assms by (auto simp: record_provider_run_observation_def bind_ok_Inr_iff split: if_splits)
  have "wakeable (f r)" by (rule wakeable_states(1)) (use r(3) in \<open>simp_all add: active_run_states_def\<close>)
  then show ?thesis by (intro locked_leaves [OF r(1,2)]) (simp_all add: r(3))
qed

lemma reporting_leaves:
  assumes "start_reporting E t c again p s = Inr (x, s')"
  shows "left_behind c x s' \<and> wakeable x"
proof -
  obtain r f where r: "lock_claimed_run E t c [Polling] s = Inr r" "transition_claimed t c f s = Inr (x, s')"
    "\<And>x. fr_id (f x) = fr_id x \<and> fr_revision (f x) = fr_revision x \<and> fr_state (f x) = Reporting \<and> fr_next (f x) = Some again"
    using assms by (auto simp: start_reporting_def bind_ok_Inr_iff Let_def split: if_splits)
  have "wakeable (f r)" by (rule wakeable_states(1)) (use r(3) in \<open>simp_all add: active_run_states_def\<close>)
  then show ?thesis by (intro locked_leaves [OF r(1,2)]) (simp_all add: r(3))
qed

lemma reset_leaves:
  assumes "reset_poll_round E t c again s = Inr (x, s')"
  shows "left_behind c x s' \<and> wakeable x"
proof -
  obtain r f where r: "lock_claimed_run E t c [Polling] s = Inr r" "transition_claimed t c f s = Inr (x, s')"
    "\<And>x. fr_id (f x) = fr_id x \<and> fr_revision (f x) = fr_revision x \<and> fr_state (f x) = fr_state x \<and> fr_next (f x) = Some again"
    using assms by (auto simp: reset_poll_round_def bind_ok_Inr_iff split: if_splits)
  have "wakeable (f r)"
    by (rule wakeable_states(1)) (use r(3) lock_claimed_result(3) [OF r(1)] in \<open>simp_all add: active_run_states_def\<close>)
  then show ?thesis by (intro locked_leaves [OF r(1,2)]) (simp_all add: r(3))
qed

lemma poll_page_leaves:
  assumes "apply_poll_page E t c ids vs k again s = Inr (res, s')"
  shows "left_behind c (pg_run res) s' \<and> wakeable (pg_run res)"
  using assms
proof (rule poll_page_result)
  fix r changed s1 g x s2
  assume r: "lock_claimed_run E t c [Polling] s = Inr r" and sv: "save_listings changed s = Inr s1"
    and g: "counter_values r (int (length changed)) 0 0 = Inr g"
    and w: "transition_claimed t c (\<lambda>x. (g x)\<lparr>fr_cursor := k, fr_next := Some again, fr_error := []\<rparr>)
       (log_sync (map (published_entry r) changed) s1) = Inr (x, s2)"
    and res: "res = \<lparr>pg_run = x, pg_changed = map rl_pk changed, pg_published = length changed, pg_rejected = 0\<rparr>"
    and s': "s' = (if changed = [] then s2 else advance_status_batch (fr_account r) (t + published_status_recheck_delay) s2)"
  let ?f = "\<lambda>x. (g x)\<lparr>fr_cursor := k, fr_next := Some again, fr_error := []\<rparr>"
  have "wakeable (?f r)"
    by (rule wakeable_states(1)) (use counters_identity [OF g, of r] lock_claimed_result(3) [OF r] in \<open>simp_all add: active_run_states_def\<close>)
  moreover have "fd_runs (log_sync (map (published_entry r) changed) s1) = fd_runs s" by (simp add: save_listings_runs [OF sv])
  ultimately have "left_behind c x s2 \<and> wakeable x"
    using counters_identity [OF g, of r] by (intro locked_leaves [OF r w]) simp_all
  then show ?thesis by (simp add: res s' left_behind_def get_run_def)
qed

lemma report_updates_wakeable:
  assumes "report_updates t q r p j s = Inr g" "fr_state r = Reporting" "report_page_ok q"
  shows "fr_id (g r) = fr_id r \<and> fr_revision (g r) = fr_revision r \<and> wakeable (g r)"
proof (cases "rp_next q")
  case (Some n)
  then obtain h where h: "counter_values r (int p) (int j) 0 = Inr h"
      "g = (\<lambda>x. (h x)\<lparr>fr_page := n, fr_report_attempt := 0, fr_next := rp_again q, fr_error := []\<rparr>)"
    using assms(1) by (auto simp: report_updates_def bind_ok_Inr_iff)
  obtain a where "rp_again q = Some a" using assms(3) Some by (auto simp: report_page_ok_def)
  then show ?thesis using counters_identity [OF h(1), of r] assms(2) by (simp add: h(2) wakeable_def active_run_def active_run_states_def)
next
  case None
  then obtain h where h: "recomputed_counters r s = Inr h" using assms(1) by (auto simp: report_updates_def bind_ok_Inr_iff)
  have "rp_complete q \<or> rp_again q \<noteq> None" using assms(3) None by (auto simp: report_page_ok_def)
  then show ?thesis using assms(1) None h recomputed_identity [OF h, of r]
    by (auto simp: report_updates_def wakeable_def active_run_def active_run_states_def split: if_splits)
qed

lemma report_page_leaves:
  assumes "apply_report_page E t c q s = Inr (res, s')"
  shows "left_behind c (pg_run res) s' \<and> wakeable (pg_run res)"
  using assms
proof (rule report_page_result)
  fix r changed rejected published s1 g x s2
  assume ok: "report_page_ok q" and r: "lock_claimed_run E t c [Reporting] s = Inr r" and sv: "save_listings changed s = Inr s1"
    and g: "report_updates t q r (length published) (length rejected) s1 = Inr g"
    and w: "transition_claimed t c g
       (log_sync (map (rejected_entry r) rejected @ map (published_entry r) published) s1) = Inr (x, s2)"
    and res: "res = \<lparr>pg_run = x, pg_changed = map rl_pk changed, pg_published = length published, pg_rejected = length rejected\<rparr>"
    and s': "s' = (if published = [] then s2 else advance_status_batch (fr_account r) (t + published_status_recheck_delay) s2)"
  have "fr_state r = Reporting" using lock_claimed_result(3) [OF r] by simp
  note f = report_updates_wakeable [OF g this ok]
  have "fd_runs (log_sync (map (rejected_entry r) rejected @ map (published_entry r) published) s1) = fd_runs s"
    by (simp add: save_listings_runs [OF sv])
  from locked_leaves [OF r w this f] show ?thesis by (simp add: res s' left_behind_def get_run_def)
qed

section \<open>One transaction of the worker\<close>

text \<open>The operations a worker of this task performs.\<close>

definition worker_op :: "instant \<Rightarrow> feed_claim \<Rightarrow> run_op \<Rightarrow> bool" where
  "worker_op t c op \<longleftrightarrow> claim_of op = Some (t, c) \<and>
     (case op of
        Finish_Run _ _ st _ _ \<Rightarrow> st \<in> {Succeeded, Failed, Outcome_Uncertain}
      | Retry_Step _ _ _ _ _ _ \<Rightarrow> True
      | Observe_Run _ _ _ _ \<Rightarrow> True
      | Poll_Page _ _ _ _ _ _ \<Rightarrow> True
      | Reset_Round _ _ _ \<Rightarrow> True
      | Start_Report _ _ _ _ \<Rightarrow> True
      | Report_Page _ _ _ \<Rightarrow> True
      | _ \<Rightarrow> False)"

text \<open>
  The transaction performed one operation under the claim, and the revision it left has its wake-up;
  what was stored of dispatches stays.
\<close>

definition transacted :: "step_env \<Rightarrow> feed_claim \<Rightarrow> works \<Rightarrow> feed_run \<Rightarrow> works \<Rightarrow> bool" where
  "transacted W c s x s' \<longleftrightarrow>
     (\<exists>op. worker_op (se_commit_at W) c op \<and> wk_feeds s' = perform_run (se_env W) op (wk_feeds s)) \<and>
     left_behind c x (wk_feeds s') \<and>
     awake (se_env W) (fr_id x) (fr_revision x) (wake_time (se_commit_at W) x) (wk_jobs s) (wk_jobs s')"

lemma then_enqueue_result:
  assumes "then_enqueue E t x s = Inr (y, s')" "wakeable x"
  shows "y = x" "wk_feeds s' = wk_feeds s" "awake E (fr_id x) (fr_revision x) (wake_time t x) (wk_jobs s) (wk_jobs s')"
proof -
  obtain w where w: "enqueue_feed_run_revision E t (fr_id x) (fr_revision x) (wake_time t x) s = Inr (w, s')"
    using assms by (auto simp: then_enqueue_def enqueue_feed_run_snapshot_def bind_ok_Inr_iff wakeable_def active_run_def
        active_run_states_def wake_time_def split: if_splits option.splits)
  show "y = x" using assms(1) by (auto simp: then_enqueue_def bind_ok_Inr_iff)
  show "wk_feeds s' = wk_feeds s" "awake E (fr_id x) (fr_revision x) (wake_time t x) (wk_jobs s) (wk_jobs s')"
    using enqueue_feed_run(1,2) [OF w] by simp_all
qed

lemma transactedI:
  assumes "worker_op (se_commit_at W) c op" "perform_run (se_env W) op (wk_feeds s) = f" "left_behind c x f \<and> wakeable x"
    "then_enqueue (se_env W) (se_commit_at W) x s1 = Inr (y, s')" "wk_feeds s1 = f"
    "\<And>key. dispatch_with_key key (wk_jobs s1) = dispatch_with_key key (wk_jobs s)"
  shows "transacted W c s x s' \<and> y = x"
  using then_enqueue_result [OF assms(4)] assms by (auto simp: transacted_def awake_def)

lemma finish_transacted:
  assumes "finish_durable_feed_run (se_env W) (se_commit_at W) c st e b s = Inr (x, s')" "st \<in> {Succeeded, Failed, Outcome_Uncertain}"
  shows "transacted W c s x s' \<and> fr_state x = st"
proof -
  let ?E = "se_env W" and ?t = "se_commit_at W" and ?e = "bounded_provider_reason e"
  obtain r f s1 u s2 where r: "finish_feed_run ?E ?t c st ?e b (wk_feeds s) = Inr (r, f)"
    and s1: "record_feed_run_summary r ?e (s\<lparr>wk_feeds := f\<rparr>) = Inr (u, s1)" and s2: "then_enqueue ?E ?t r s1 = Inr (x, s')"
    using assms(1) by (auto simp: finish_durable_feed_run_def with_feeds_def Let_def bind_ok_Inr_iff)
  have keep: "wk_feeds s1 = f" "wk_jobs s1 = wk_jobs s" using s1 by (auto simp: record_feed_run_summary_def Let_def split: if_splits)
  note leaves = finish_leaves [OF r assms(2)]
  have "transacted W c s r s' \<and> x = r"
    by (rule transactedI [of W c "Finish_Run ?t c st ?e b", OF _ _ _ s2 keep(1)])
      (use leaves r assms(2) in \<open>auto simp: worker_op_def keep(2)\<close>)
  then show ?thesis using leaves by simp
qed

lemma retry_transacted:
  assumes "retry_durable_feed_step (se_env W) (se_commit_at W) c e delay b d s = Inr (x, s')"
  shows "transacted W c s x s'"
proof -
  let ?E = "se_env W" and ?t = "se_commit_at W"
  obtain r f where r: "retry_step ?E ?t c (?t + max delay (secs 1)) (bounded_provider_reason e) b d (wk_feeds s) = Inr (r, f)"
    and s1: "then_enqueue ?E ?t r (s\<lparr>wk_feeds := f\<rparr>) = Inr (x, s')"
    using assms by (auto simp: retry_durable_feed_step_def with_feeds_def bind_ok_Inr_iff)
  have "transacted W c s r s' \<and> x = r"
    by (rule transactedI [of W c "Retry_Step ?t c (?t + max delay (secs 1)) (bounded_provider_reason e) b d", OF _ _ _ s1])
      (use retry_leaves [OF r] r in \<open>simp_all add: worker_op_def\<close>)
  then show ?thesis by simp
qed

lemma negative_transacted:
  assumes "record_submission_negative_or_fail W c e s = Inr (x, s')"
  shows "transacted W c s x s'"
  using assms finish_transacted [of W c Outcome_Uncertain] retry_transacted [of W c]
  by (auto simp: record_submission_negative_or_fail_def Let_def split: if_splits)

lemma flush_key [simp]: "dispatch_with_key key (snd (complete_feed_flush_revision k v t u s)) = dispatch_with_key key s"
  by (auto simp: complete_feed_flush_revision_def dispatch_with_key_def put_account_def Let_def split: option.splits)

lemma bind_submission_transacted:
  assumes "bind_submission W c p s = Inr (x, s')"
  shows "transacted W c s x s'"
proof -
  let ?E = "se_env W" and ?t = "se_commit_at W"
  obtain r f s1 where r: "record_provider_run_observation ?E ?t c p (?t + feed_poll_batch_delay) (wk_feeds s) = Inr (r, f)"
    and s1: "then_enqueue ?E ?t r s1 = Inr (x, s')" "wk_feeds s1 = f"
      "\<And>key. dispatch_with_key key (wk_jobs s1) = dispatch_with_key key (wk_jobs s)"
    using assms by (auto simp: bind_submission_def with_feeds_def Let_def bind_ok_Inr_iff split: option.splits)
  have "transacted W c s r s' \<and> x = r"
    by (rule transactedI [of W c "Observe_Run ?t c p (?t + feed_poll_batch_delay)", OF _ _ _ s1])
      (use observation_leaves [OF r] r in \<open>simp_all add: worker_op_def\<close>)
  then show ?thesis by simp
qed

text \<open>The transactions that only enqueue after the transition.\<close>

lemma with_feeds_transacted:
  assumes "with_feeds res s (then_enqueue (se_env W) (se_commit_at W)) = Inr (x, s')"
    "\<And>r f. res = Inr (r, f) \<Longrightarrow> worker_op (se_commit_at W) c op \<and> perform_run (se_env W) op (wk_feeds s) = f \<and> left_behind c r f \<and> wakeable r"
  shows "transacted W c s x s'"
proof -
  obtain r f where r: "res = Inr (r, f)" "then_enqueue (se_env W) (se_commit_at W) r (s\<lparr>wk_feeds := f\<rparr>) = Inr (x, s')"
    using assms(1) by (auto simp: with_feeds_def bind_ok_Inr_iff)
  have "transacted W c s r s' \<and> x = r"
    by (rule transactedI [of W c op, OF _ _ _ r(2)]) (use assms(2) [OF r(1)] in simp_all)
  then show ?thesis by simp
qed

lemma bind_polling_transacted: "bind_polling W c p s = Inr (x, s') \<Longrightarrow> transacted W c s x s'"
  unfolding bind_polling_def Let_def
  by (erule with_feeds_transacted [where op = "Observe_Run (se_commit_at W) c p (se_commit_at W + feed_poll_batch_delay)"])
    (use observation_leaves in \<open>auto simp: worker_op_def\<close>)

lemma begin_reporting_transacted: "begin_reporting W c p s = Inr (x, s') \<Longrightarrow> transacted W c s x s'"
  unfolding begin_reporting_def Let_def
  by (erule with_feeds_transacted [where op = "Start_Report (se_commit_at W) c (se_commit_at W + feed_report_delay) (Some p)"])
    (use reporting_leaves in \<open>auto simp: worker_op_def\<close>)

lemma restart_round_transacted: "restart_round W c s = Inr (x, s') \<Longrightarrow> transacted W c s x s'"
  unfolding restart_round_def Let_def
  by (erule with_feeds_transacted [where op = "Reset_Round (se_commit_at W) c (se_commit_at W + feed_poll_retry_delay)"])
    (use reset_leaves in \<open>auto simp: worker_op_def\<close>)

lemma commit_poll_page_transacted:
  assumes "commit_poll_page W c batch vs s = Inr (x, s')"
  shows "transacted W c s x s'"
proof -
  let ?E = "se_env W" and ?t = "se_commit_at W"
  obtain res f where r: "apply_poll_page ?E ?t c (map rl_pk batch) vs (rl_pk (last batch)) (?t + feed_poll_batch_delay) (wk_feeds s) = Inr (res, f)"
    and s1: "then_enqueue ?E ?t (pg_run res) (s\<lparr>wk_feeds := f\<rparr>) = Inr (x, s')"
    using assms by (auto simp: commit_poll_page_def with_feeds_def Let_def bind_ok_Inr_iff)
  have "transacted W c s (pg_run res) s' \<and> x = pg_run res"
    by (rule transactedI [of W c "Poll_Page ?t c (map rl_pk batch) vs (rl_pk (last batch)) (?t + feed_poll_batch_delay)", OF _ _ _ s1])
      (use poll_page_leaves [OF r] r in \<open>simp_all add: worker_op_def\<close>)
  then show ?thesis by simp
qed

lemma commit_report_page_transacted:
  assumes "commit_report_page W c st p s = Inr (x, s')"
  shows "transacted W c s x s'"
proof -
  let ?E = "se_env W" and ?t = "se_commit_at W" and ?q = "report_page_of (se_commit_at W) (fr_page (cl_run c)) st p"
  obtain res f s1 where r: "apply_report_page ?E ?t c ?q (wk_feeds s) = Inr (res, f)"
    and s1: "then_enqueue ?E ?t (pg_run res) s1 = Inr (x, s')" "wk_feeds s1 = f" "wk_jobs s1 = wk_jobs s"
    using assms by (auto simp: commit_report_page_def with_feeds_def Let_def bind_ok_Inr_iff record_feed_run_summary_def split: if_splits)
  have "transacted W c s (pg_run res) s' \<and> x = pg_run res"
    by (rule transactedI [of W c "Report_Page ?t c ?q", OF _ _ _ s1(1,2)])
      (use report_page_leaves [OF r] r in \<open>simp_all add: worker_op_def s1(3)\<close>)
  then show ?thesis by simp
qed

section \<open>One execution of the worker\<close>

text \<open>
  From the state \<open>s\<close> at its commit: one transaction with an answer of its own, or nothing and an exception
  or the answer \<open>stale\<close>.
\<close>

definition transaction_end :: "step_env \<Rightarrow> feed_claim \<Rightarrow> works \<Rightarrow> step_end \<times> works \<Rightarrow> bool" where
  "transaction_end W c s res \<longleftrightarrow>
     (\<exists>x. transacted W c s x (snd res)) \<and> fst res \<noteq> Escaped \<or> snd res = s \<and> fst res \<in> {Escaped, Answered ''stale''}"

lemma ending_end:
  assumes "\<And>x s'. res = Inr (x, s') \<Longrightarrow> transacted W c s x s'"
  shows "transaction_end W c s (ending_with f res s)"
proof (cases res)
  case (Inl e)
  then show ?thesis by (simp add: transaction_end_def ending_with_def)
next
  case (Inr y)
  then show ?thesis using assms by (cases y) (auto simp: transaction_end_def ending_with_def)
qed

lemma ending_nothing: "transaction_end W c s (ending_with f (Inl e) s)"
  by (simp add: transaction_end_def ending_with_def)

lemma escaped_end: "transaction_end W c s (Escaped, s)"
  by (simp add: transaction_end_def)

lemma finishing_end: "st \<in> {Succeeded, Failed, Outcome_Uncertain} \<Longrightarrow> transaction_end W c s (finishing W c st e status s)"
  unfolding finishing_def by (rule ending_end) (use finish_transacted in blast)

lemma retrying_end: "transaction_end W c s (retrying W c e delay b s)"
  unfolding retrying_def by (rule ending_end) (rule retry_transacted)

lemma uncertain_end: "transaction_end W c s (finish_provider_result_uncertain W c e s)"
  unfolding finish_provider_result_uncertain_def by (rule finishing_end) simp

lemma negative_end: "transaction_end W c s (negative W c e s)"
  unfolding negative_def by (rule ending_end) (rule negative_transacted)

lemma retry_read_end: "transaction_end W c s (retry_provider_result_read W c e delay s)"
  unfolding retry_provider_result_read_def by (rule retrying_end)

lemma retry_reporting_end: "transaction_end W c s (retry_reporting_or_fail W c e s)"
  by (simp add: retry_reporting_or_fail_def uncertain_end retrying_end)

lemmas ends = escaped_end retrying_end uncertain_end negative_end retry_read_end retry_reporting_end ending_nothing

lemma submission_end: "transaction_end W c (se_first W s) (process_submission_unknown W c a s)"
proof -
  have "transaction_end W c s (ending_with f (bind_submission W c p s) s)" for f p s
    by (rule ending_end) (rule bind_submission_transacted)
  moreover have "transaction_end W c s (finishing W c Outcome_Uncertain e st s)" for e st s
    by (rule finishing_end) simp
  ultimately show ?thesis
    unfolding process_submission_unknown_def Let_def
    by (auto simp: ends split: reading.split sum.split option.split)
qed

lemma poll_ids_end: "transaction_end W c s (poll_ids W c a before batch s)"
proof -
  have "transaction_end W c s (ending_with f (commit_poll_page W c batch vs s) s)" for f vs
    by (rule ending_end) (rule commit_poll_page_transacted)
  then show ?thesis unfolding poll_ids_def Let_def by (auto simp: ends split: reading.split)
qed

text \<open>The states in which the worker may commit: at once, after the first reading, after the second.\<close>

definition commit_states :: "step_env \<Rightarrow> works \<Rightarrow> works list" where
  "commit_states W s = [s, se_first W s, se_second W (se_first W s)]"

definition one_transaction :: "step_env \<Rightarrow> feed_claim \<Rightarrow> works \<Rightarrow> step_end \<times> works \<Rightarrow> bool" where
  "one_transaction W c s res \<longleftrightarrow> list_ex (\<lambda>m. transaction_end W c m res) (commit_states W s)"

lemma one_leaf: "transaction_end W c m res \<Longrightarrow> m \<in> set (commit_states W s) \<Longrightarrow> one_transaction W c s res"
  by (auto simp: one_transaction_def list_ex_iff)

lemma commit_state [simp]:
  "s \<in> set (commit_states W s)" "se_first W s \<in> set (commit_states W s)" "se_second W (se_first W s) \<in> set (commit_states W s)"
  by (simp_all add: commit_states_def)

text \<open>The branches of the code, one rule each.\<close>

lemma one_if: "one_transaction W c s a \<Longrightarrow> one_transaction W c s b \<Longrightarrow> one_transaction W c s (if p then a else b)"
  by simp

lemma one_option:
  "one_transaction W c s a \<Longrightarrow> (\<And>y. one_transaction W c s (f y)) \<Longrightarrow> one_transaction W c s (case x of None \<Rightarrow> a | Some y \<Rightarrow> f y)"
  by (cases x) simp_all

lemma one_prod: "(\<And>x y. one_transaction W c s (f x y)) \<Longrightarrow> one_transaction W c s (case p of (x, y) \<Rightarrow> f x y)"
  by (cases p) simp

lemma one_sum:
  "(\<And>e. one_transaction W c s (g e)) \<Longrightarrow> (\<And>y. one_transaction W c s (f y)) \<Longrightarrow>
   one_transaction W c s (case x of Inl e \<Rightarrow> g e | Inr y \<Rightarrow> f y)"
  by (cases x) simp_all

lemma one_list:
  "one_transaction W c s a \<Longrightarrow> (\<And>y ys. one_transaction W c s (f y ys)) \<Longrightarrow>
   one_transaction W c s (case x of [] \<Rightarrow> a | y # ys \<Rightarrow> f y ys)"
  by (cases x) simp_all

lemma one_reading:
  "one_transaction W c s a \<Longrightarrow> (\<And>e. one_transaction W c s (g e)) \<Longrightarrow> (\<And>y. one_transaction W c s (f y)) \<Longrightarrow>
   one_transaction W c s (case x of Got y \<Rightarrow> f y | Refused e \<Rightarrow> g e | Crashed \<Rightarrow> a)"
  by (cases x) simp_all

lemmas branches = one_if one_option one_prod one_sum one_list one_reading

lemma committed_end:
  "transaction_end W c s (ending_with f (bind_polling W c p s) s)"
  "transaction_end W c s (ending_with f (begin_reporting W c p s) s)"
  "transaction_end W c s (ending_with f (restart_round W c s) s)"
  "transaction_end W c s (ending_with f (commit_report_page W c st q s) s)"
  "transaction_end W c s (finishing W c Succeeded e st' s)"
  "transaction_end W c s (finishing W c Failed e st' s)"
  by (rule ending_end, erule bind_polling_transacted begin_reporting_transacted restart_round_transacted commit_report_page_transacted)+
    (rule finishing_end, simp)+

lemmas leaves = ends [THEN one_leaf] committed_end [THEN one_leaf] poll_ids_end [THEN one_leaf]

lemma polling_end: "one_transaction W c s (process_polling_feed_run W c a s)"
  unfolding process_polling_feed_run_def Let_def by (intro branches leaves) simp_all

lemma reporting_end: "one_transaction W c s (process_reporting_feed_run W c a s)"
  unfolding process_reporting_feed_run_def Let_def by (intro branches leaves) simp_all

lemma claimed_end: "one_transaction W c s (process_claimed_feed_run W e c a s)"
  unfolding process_claimed_feed_run_def
  using polling_end reporting_end one_leaf [OF submission_end] committed_end(6) [THEN one_leaf]
  by (cases "fr_state (cl_run c)") simp_all

end
