(* ===== verification/Feed_Worker_Guarantees.thy ===== *)
theory Feed_Worker_Guarantees
  imports Feed_Worker_Steps
begin

text \<open>
  What the worker of feed runs guarantees over the workflow, the dispatcher and the provider: every step
  is one operation with its wake-up, a run whose result does not come is held at its deadline, only
  evidence of the provider binds a submission, and what its reader accepts the workflow accepts.
\<close>

section \<open>One step, one operation\<close>

text \<open>C6: A step of the worker is at most one operation of the feed workflow. Whatever the provider
  answers and whatever others commit meanwhile, the part of the task after the claim ends in one of the
  states it met - at once, after the first or after the second reading - unchanged, with an exception or
  the answer \<open>stale\<close>; or it adds to it one operation under its own claim, none of which sends a request,
  releases the claim with the next revision, and stores the dispatch for that revision.
\<close>

theorem worker_step_is_one_operation:
  "\<exists>m. (m = s \<or> m = se_first W s \<or> m = se_second W (se_first W s)) \<and>
     (process_claimed_feed_run W e c a s = (Escaped, m) \<or> process_claimed_feed_run W e c a s = (Answered ''stale'', m) \<or>
      (\<exists>st s' op x. process_claimed_feed_run W e c a s = (Answered st, s') \<and>
         worker_op (se_commit_at W) c op \<and> wk_feeds s' = perform_run (se_env W) op (wk_feeds m) \<and>
         get_run (fr_id (cl_run c)) (wk_feeds s') = Some x \<and> fr_token x = None \<and> fr_revision x = fr_revision (cl_run c) + 1 \<and>
         awake (se_env W) (fr_id x) (fr_revision x) (wake_time (se_commit_at W) x) (wk_jobs m) (wk_jobs s')))"
proof -
  obtain ans s' where r: "process_claimed_feed_run W e c a s = (ans, s')" by (cases "process_claimed_feed_run W e c a s")
  have "one_transaction W c s (ans, s')" using claimed_end [of W c s e a] by (simp add: r)
  then obtain m where m: "m \<in> set (commit_states W s)" "transaction_end W c m (ans, s')"
    by (auto simp: one_transaction_def list_ex_iff)
  have "ans = Escaped \<or> (\<exists>st. ans = Answered st)" by (cases ans) auto
  then show ?thesis using m by (auto simp: commit_states_def transaction_end_def transacted_def left_behind_def r)
qed

section \<open>Claims\<close>

lemma claim_numbers:
  assumes "claim_due_run_for_account E t dur k (Some g) (Some n) f = Inr (Some c, f')" "runs_ok f"
  shows "fr_id (cl_run c) = g \<and> fr_revision (cl_run c) = n + 1 \<and> get_run g f' = Some (cl_run c)"
proof -
  obtain a where a: "claim_locked_account E t dur (Some g) (Some n) a f = Inr (Some c, f')"
    using assms(1) by (auto simp: claim_due_run_for_account_def split: if_splits option.splits)
  then obtain r where r: "first_row (filter (\<lambda>r. fr_account r = ma_pk a \<and> active_run r \<and> fr_id r = g) (fd_runs f)) = Some r"
      "take_claim t dur r f = Inr (Some c, f')"
    by (auto elim!: claim_found)
  have g: "fr_id r = g" "get_run (fr_id r) f = Some r" using first_found [OF r(1) assms(2)] by auto
  have "fr_revision r = n"
    using a r(1) by (auto simp: claim_locked_account_def fenced_claim_def bind_ok_Inr_iff split: if_splits)
  moreover have c: "cl_run c = claimed_run_row t dur (fd_next f) r" "write_run (cl_run c) (f\<lparr>fd_next := Suc (fd_next f)\<rparr>) = Inr f'"
    using take_claim_result [OF r(2)] by auto
  moreover have "get_run (fr_id (cl_run c)) (f\<lparr>fd_next := Suc (fd_next f)\<rparr>) = Some r" using g by (simp add: c(1) get_run_def)
  ultimately show ?thesis using write_get [OF c(2)] g by simp
qed

lemma processed_step:
  assumes "process_marketplace_feed_run_step W run_id revision s = (Answered st, s')"
    "st \<notin> {''invalid'', ''stale'', ''disabled'', ''digest_delivered''}"
  obtains k n r c f a where "step_arguments (se_env W) run_id revision = Some (k, n)" "get_run k (wk_feeds s) = Some r" "fr_revision r = n"
    "claim_due_run_for_account (se_env W) (se_claim_at W) feed_lease (fr_account r) (Some k) (Some n) (wk_feeds s) = Inr (Some c, f)"
    "process_claimed_feed_run W (fr_error r) c a (s\<lparr>wk_feeds := f\<rparr>) = (Answered st, s')"
  using assms
  by (auto simp: process_marketplace_feed_run_step_def Let_def split: option.splits if_splits sum.splits)

text \<open>C8: A processed step has its wake-up. If the task answers anything but \<open>invalid\<close>, \<open>stale\<close>,
  \<open>disabled\<close> or \<open>digest_delivered\<close>, the run it was called for is released at the second revision after the
  one named in its arguments, and a dispatch for exactly that revision is stored, due when the run is
  due next: no run is left without one.
\<close>

theorem processed_step_has_its_wake_up:
  assumes "process_marketplace_feed_run_step W run_id revision s = (Answered st, s')" "runs_ok (wk_feeds s)"
    "st \<notin> {''invalid'', ''stale'', ''disabled'', ''digest_delivered''}"
  shows "\<exists>k n x s1 m. step_arguments (se_env W) run_id revision = Some (k, n) \<and>
     get_run k (wk_feeds s') = Some x \<and> fr_token x = None \<and> fr_revision x = n + 2 \<and>
     wk_jobs s1 = wk_jobs s \<and> (m = s1 \<or> m = se_first W s1 \<or> m = se_second W (se_first W s1)) \<and>
     awake (se_env W) k (n + 2) (wake_time (se_commit_at W) x) (wk_jobs m) (wk_jobs s')"
proof -
  obtain k n r c f a where k: "step_arguments (se_env W) run_id revision = Some (k, n)"
    and "get_run k (wk_feeds s) = Some r" "fr_revision r = n" and c: "claim_due_run_for_account (se_env W) (se_claim_at W) feed_lease (fr_account r) (Some k) (Some n) (wk_feeds s) = Inr (Some c, f)"
    and p: "process_claimed_feed_run W (fr_error r) c a (s\<lparr>wk_feeds := f\<rparr>) = (Answered st, s')"
    using assms(1,3) by (rule processed_step)
  note num = claim_numbers [OF c assms(2)]
  have "one_transaction W c (s\<lparr>wk_feeds := f\<rparr>) (Answered st, s')"
    using claimed_end [of W c "s\<lparr>wk_feeds := f\<rparr>" "fr_error r" a] by (simp add: p)
  then obtain m x where m: "m \<in> set (commit_states W (s\<lparr>wk_feeds := f\<rparr>))" "transacted W c m x s'"
    using assms(3) by (auto simp: one_transaction_def list_ex_iff transaction_end_def)
  from m(2) have x: "left_behind c x (wk_feeds s')"
      "awake (se_env W) (fr_id x) (fr_revision x) (wake_time (se_commit_at W) x) (wk_jobs m) (wk_jobs s')"
    by (simp_all add: transacted_def)
  have "get_run k (wk_feeds s') = Some x" "fr_token x = None" "fr_revision x = n + 2"
    using x(1) num by (simp_all add: left_behind_def)
  moreover have "fr_id x = k" using calculation(1) by (rule get_run_id)
  moreover have "m = s\<lparr>wk_feeds := f\<rparr> \<or> m = se_first W (s\<lparr>wk_feeds := f\<rparr>) \<or> m = se_second W (se_first W (s\<lparr>wk_feeds := f\<rparr>))"
    using m(1) by (simp add: commit_states_def)
  ultimately show ?thesis using k x(2)
    by (intro exI [of _ k] exI [of _ n] exI [of _ x] exI [of _ "s\<lparr>wk_feeds := f\<rparr>"] exI [of _ m]) simp
qed

section \<open>Deadlines\<close>

lemma rewrite_ok:
  assumes "runs_ok s" "get_run (fr_id x) s = Some r" "same_generation r x" "fr_provider x = fr_provider r" "is_owner r"
    "columns_fit x" "mode_ok x"
  shows "write_run x s = Inr (put_run x s)"
proof -
  have r: "r \<in> set (fd_runs s)" using assms(2) by (rule get_run_mem)
  have same: "fr_id x = fr_id r" "fr_account x = fr_account r" "fr_intent x = fr_intent r"
    using assms(3) by (simp_all add: same_generation_def)
  have "\<not> owner_clash x y \<and> \<not> provider_clash x y \<and> \<not> intent_clash x y" if "y \<in> set (fd_runs s)" for y
  proof -
    have "\<not> owner_clash r y \<and> \<not> provider_clash r y \<and> \<not> intent_clash r y" using assms(1) r that by (simp add: runs_ok_def)
    then show ?thesis using same assms(4,5) by (auto simp: owner_clash_def provider_clash_def intent_clash_def)
  qed
  then show ?thesis using assms(6,7) by (simp add: write_run_Inr run_constraint_None)
qed

text \<open>A run that a worker may claim: due, not leased, and of the same live account.\<close>

definition claimable_run :: "step_env \<Rightarrow> market_account \<Rightarrow> feed_run \<Rightarrow> bool" where
  "claimable_run W a r \<longleftrightarrow> due_at (se_claim_at W) r \<and> unleased (se_claim_at W) r \<and> live a \<and> fr_tenant r = ma_tenant a \<and>
     fr_marketplace r = ma_marketplace a \<and> fr_identity r = account_identity_digest (se_env W) a"

definition claim_for :: "step_env \<Rightarrow> uuid \<Rightarrow> feed_run \<Rightarrow> feed_claim" where
  "claim_for W token r =
     \<lparr>cl_run = claimed_run_row (se_claim_at W) feed_lease token r, cl_token = token, cl_until = se_claim_at W + feed_lease\<rparr>"

definition after_claim :: "step_env \<Rightarrow> feed_run \<Rightarrow> feeds \<Rightarrow> feeds" where
  "after_claim W r f = put_run (cl_run (claim_for W (fd_next f) r)) (f\<lparr>fd_next := Suc (fd_next f)\<rparr>)"

lemma first_of_one:
  assumes "r \<in> set xs" "\<And>x. x \<in> set xs \<Longrightarrow> x = r"
  shows "first_row xs = Some r"
proof (cases xs)
  case Nil
  then show ?thesis using assms(1) by simp
next
  case (Cons y ys)
  then show ?thesis using assms(2) [of y] by simp
qed

lemma only_row:
  assumes "runs_ok f" "get_run k f = Some r" "P r"
  shows "first_row (filter (\<lambda>x. P x \<and> fr_id x = k) (fd_runs f)) = Some r"
proof -
  let ?rows = "filter (\<lambda>x. P x \<and> fr_id x = k) (fd_runs f)"
  have "r \<in> set ?rows" using get_run_mem [OF assms(2)] get_run_id [OF assms(2)] assms(3) by simp
  moreover have "x = r" if x: "x \<in> set ?rows" for x
    using run_here [OF assms(1), of x] x assms(2) by simp
  ultimately show ?thesis by (rule first_of_one)
qed

lemma market_pk: "get_market k s = Some a \<Longrightarrow> ma_pk a = k"
  unfolding get_market_def by (rule row_get_key)

lemma claim_succeeds:
  assumes "runs_ok f" "get_run k f = Some r" "get_market (fr_account r) f = Some a" "active_run r" "claimable_run W a r"
    "fr_revision r + 1 < 2 ^ 63"
  shows "claim_due_run_for_account (se_env W) (se_claim_at W) feed_lease (fr_account r) (Some k) (Some (fr_revision r)) f =
     Inr (Some (claim_for W (fd_next f) r), after_claim W r f)"
proof -
  let ?x = "claimed_run_row (se_claim_at W) feed_lease (fd_next f) r" and ?f = "f\<lparr>fd_next := Suc (fd_next f)\<rparr>"
  have row: "columns_fit r" "mode_ok r" using assms(1) get_run_mem [OF assms(2)] by (simp_all add: runs_ok_def)
  have "write_run ?x ?f = Inr (put_run ?x ?f)"
  proof (rule rewrite_ok)
    show "runs_ok ?f" using assms(1) runs_ok_frame [of ?f f] by simp
    show "get_run (fr_id ?x) ?f = Some r" using assms(2) get_run_id [OF assms(2)] by (simp add: get_run_def)
    show "is_owner r" using assms(4) by (auto simp: is_owner_def active_run_def ownership_states_def)
    show "columns_fit ?x" using row(1) assms(6) by (simp add: columns_fit_def claimed_run_row_def)
    show "mode_ok ?x" using row(2) by (cases "fr_intent r") (simp_all add: mode_ok_def claimed_run_row_def)
  qed (simp_all add: claimed_run_row_def same_generation_def)
  then have taken: "take_claim (se_claim_at W) feed_lease r f = Inr (Some (claim_for W (fd_next f) r), after_claim W r f)"
    by (simp add: take_claim_def Let_def claim_for_def after_claim_def)
  have pk: "ma_pk a = fr_account r" using assms(3) by (rule market_pk)
  have "first_row (filter (\<lambda>x. (fr_account x = ma_pk a \<and> active_run x) \<and> fr_id x = k) (fd_runs f)) = Some r"
    by (rule only_row [OF assms(1,2)]) (use assms(4) pk in simp)
  then show ?thesis using assms(3,5) taken
    by (simp add: claim_due_run_for_account_def claim_locked_account_def claimable_run_def feed_lease_def secs_def conj_assoc)
qed

section \<open>The end of an overdue run\<close>

definition counted :: "feed_run \<Rightarrow> feeds \<Rightarrow> bool" where
  "counted r f \<longleftrightarrow> count_status Ls_Active r f + count_status Ls_Rejected r f + count_status Ls_Pending r f \<le> fr_total r"

lemma claim_for_simps [simp]:
  "cl_run (claim_for W u r) = claimed_run_row (se_claim_at W) feed_lease u r" "cl_token (claim_for W u r) = u"
  "cl_until (claim_for W u r) = se_claim_at W + feed_lease"
  by (simp_all add: claim_for_def)

lemma claimed_row_simps [simp]:
  "fr_id (claimed_run_row t dur u r) = fr_id r" "fr_account (claimed_run_row t dur u r) = fr_account r"
  "fr_state (claimed_run_row t dur u r) = fr_state r" "fr_deadline (claimed_run_row t dur u r) = fr_deadline r"
  "fr_page (claimed_run_row t dur u r) = fr_page r" "fr_identity (claimed_run_row t dur u r) = fr_identity r"
  "fr_tenant (claimed_run_row t dur u r) = fr_tenant r" "fr_total (claimed_run_row t dur u r) = fr_total r"
  "fr_revision (claimed_run_row t dur u r) = fr_revision r + 1" "fr_provider (claimed_run_row t dur u r) = fr_provider r"
  "fr_token (claimed_run_row t dur u r) = Some u" "fr_until (claimed_run_row t dur u r) = Some (t + dur)"
  "fr_submitted (claimed_run_row t dur u r) = fr_submitted r" "fr_reconciles (claimed_run_row t dur u r) = fr_reconciles r"
  by (simp_all add: claimed_run_row_def)

lemma after_claim_frame [simp]:
  "fd_accounts (after_claim W r f) = fd_accounts f" "fd_listings (after_claim W r f) = fd_listings f"
  by (simp_all add: after_claim_def put_run_def)

lemma after_claim_market: "get_market k (after_claim W r f) = get_market k f"
  unfolding get_market_def by simp

lemma after_claim_run:
  assumes "get_run k f = Some r"
  shows "get_run k (after_claim W r f) = Some (cl_run (claim_for W (fd_next f) r))"
proof -
  have "get_run (fr_id (cl_run (claim_for W (fd_next f) r))) (f\<lparr>fd_next := Suc (fd_next f)\<rparr>) = Some r"
    using assms get_run_id [OF assms] by (simp add: get_run_def)
  then show ?thesis using get_run_id [OF assms] run_table.get_put
    unfolding after_claim_def by fastforce
qed

text \<open>What must hold of the tables when a worker claims the run and nothing interferes.\<close>

definition overdue :: "step_env \<Rightarrow> uuid \<Rightarrow> feed_run \<Rightarrow> market_account \<Rightarrow> feeds \<Rightarrow> bool" where
  "overdue W k r a f \<longleftrightarrow>
     get_run k f = Some r \<and> get_market (fr_account r) f = Some a \<and> claimable_run W a r \<and> counted r f \<and>
     fr_state r \<in> {Polling, Reporting} \<and> (case fr_deadline r of None \<Rightarrow> True | Some d \<Rightarrow> d \<le> se_check_at W) \<and>
     fr_revision r + 2 < 2 ^ 63 \<and> se_commit_at W < se_claim_at W + feed_lease"

lemma overdue_facts:
  assumes "overdue W k r a f"
  shows "get_run k f = Some r" "get_market (fr_account r) f = Some a" "claimable_run W a r" "counted r f" "active_run r"
    "fr_state r = Polling \<or> fr_state r = Reporting" "fr_revision r + 2 < 2 ^ 63" "se_commit_at W < se_claim_at W + feed_lease"
    "fr_id r = k" "fr_state r \<in> set active_run_states"
proof -
  have s: "get_run k f = Some r" "fr_state r = Polling \<or> fr_state r = Reporting" using assms by (auto simp: overdue_def)
  show "fr_state r \<in> set active_run_states" using s(2) by (auto simp: active_run_states_def ownership_states_def)
  then show "active_run r" by (simp add: active_run_def)
  show "fr_id r = k" using s(1) by (rule get_run_id)
qed (use assms in \<open>auto simp: overdue_def\<close>)

lemma after_claim_ok:
  assumes "runs_ok f" "overdue W k r a f"
  shows "runs_ok (after_claim W r f)"
proof -
  note o = overdue_facts [OF assms(2)]
  have c: "claim_due_run_for_account (se_env W) (se_claim_at W) feed_lease (fr_account r) (Some k) (Some (fr_revision r)) f =
     Inr (Some (claim_for W (fd_next f) r), after_claim W r f)"
    by (rule claim_succeeds [OF assms(1) o(1,2,5,3)]) (use o(7) in simp)
  obtain q where q: "take_claim (se_claim_at W) feed_lease q f = Inr (Some (claim_for W (fd_next f) r), after_claim W r f)"
    using c o(2) by (auto simp: claim_due_run_for_account_def split: if_splits elim!: claim_found)
  have "runs_ok (f\<lparr>fd_next := Suc (fd_next f)\<rparr>)" using assms(1) by (simp add: runs_ok_def)
  then show ?thesis using take_claim_result(2) [OF q] by (rule write_keeps_ok)
qed

definition held_row :: "step_env \<Rightarrow> uuid \<Rightarrow> string \<Rightarrow> feed_run \<Rightarrow> feeds \<Rightarrow> feed_run" where
  "held_row W u e r f =
     released ((claimed_run_row (se_claim_at W) feed_lease u r)
       \<lparr>fr_published := count_status Ls_Active r f, fr_rejected := count_status Ls_Rejected r f,
        fr_pending := count_status Ls_Pending r f, fr_state := Outcome_Uncertain, fr_next := None,
        fr_error := clean_error e, fr_finished := Some (se_commit_at W), fr_reconciles := fr_reconciles r\<rparr>)"

lemma finish_succeeds:
  assumes "runs_ok f" "overdue W k r a f"
  shows "finish_feed_run (se_env W) (se_commit_at W) (claim_for W (fd_next f) r) Outcome_Uncertain e False (after_claim W r f) =
     Inr (held_row W (fd_next f) e r f, put_run (held_row W (fd_next f) e r f) (after_claim W r f))"
proof -
  note o = overdue_facts [OF assms(2)]
  let ?c = "claim_for W (fd_next f) r" and ?g = "after_claim W r f"
  let ?q = "claimed_run_row (se_claim_at W) feed_lease (fd_next f) r" and ?x = "held_row W (fd_next f) e r f"
  have g: "get_run k ?g = Some ?q" using after_claim_run [OF o(1)] by simp
  have m: "claim_matches ?c (se_commit_at W) ?q" using o(8) by (simp add: claim_matches_def)
  have l: "lock_claimed_run (se_env W) (se_commit_at W) ?c active_run_states ?g = Inr ?q"
    using g m o(2,3,9,10) by (simp add: lock_claimed_run_def after_claim_market claimable_run_def)
  have n: "count_status st ?q ?g = count_status st r f" for st
    by (simp add: count_status_def in_run_def)
  have ok: "runs_ok ?g" by (rule after_claim_ok [OF assms])
  have q: "columns_fit ?q" "mode_ok ?q" using ok get_run_mem [OF g] by (simp_all add: runs_ok_def)
  have w: "write_run ?x ?g = Inr (put_run ?x ?g)"
  proof (rule rewrite_ok [OF ok])
    show "get_run (fr_id ?x) ?g = Some ?q" using g o(9) by (simp add: held_row_def released_def)
    show "same_generation ?q ?x" by (simp add: same_generation_def held_row_def released_def)
    show "fr_provider ?x = fr_provider ?q" by (simp add: held_row_def released_def)
    show "is_owner ?q" using o(6) by (auto simp: is_owner_def ownership_states_def active_run_states_def)
    show "columns_fit ?x" using q(1) o(7) by (simp add: columns_fit_def held_row_def released_def)
    show "mode_ok ?x" using q(2) by (cases "fr_intent r") (simp_all add: mode_ok_def held_row_def released_def claimed_run_row_def)
  qed
  show ?thesis using o(4,9) g m w [unfolded held_row_def] l
    by (simp add: finish_feed_run_def finish_states_def bind_ok_def recomputed_counters_def n counted_def transition_claimed_def
        held_row_def Let_def)
qed

lemma enqueue_succeeds: "\<exists>w s'. enqueue_feed_run_revision E t k n available s = Inr (w, s')"
proof -
  have "jq_task (feed_run_request E k n available) = feed_run_task" by (simp add: feed_run_request_def)
  then show ?thesis
    by (simp add: enqueue_feed_run_revision_def enqueue_durable_task_def feed_run_queue split: sum.split option.split prod.split)
qed

lemma held_succeeds:
  assumes "runs_ok (wk_feeds s)" "overdue W k r a (wk_feeds s)"
  obtains s' where "finishing W (claim_for W (fd_next (wk_feeds s)) r) Outcome_Uncertain e status
       (s\<lparr>wk_feeds := after_claim W r (wk_feeds s)\<rparr>) = (Answered status, s')"
    "wk_feeds s' = put_run (held_row W (fd_next (wk_feeds s)) (bounded_provider_reason e) r (wk_feeds s)) (after_claim W r (wk_feeds s))"
    "awake (se_env W) k (fr_revision r + 2) (se_commit_at W) (wk_jobs s) (wk_jobs s')"
proof -
  let ?f = "wk_feeds s"
  let ?x = "held_row W (fd_next ?f) (bounded_provider_reason e) r ?f"
  let ?s = "s\<lparr>wk_feeds := after_claim W r ?f\<rparr>" and ?E = "se_env W" and ?t = "se_commit_at W"
  note o = overdue_facts [OF assms(2)]
  have x: "fr_state ?x = Outcome_Uncertain" "fr_id ?x = k" "fr_revision ?x = fr_revision r + 2" "fr_total ?x = fr_total r"
    "fr_published ?x + fr_rejected ?x + fr_pending ?x \<le> fr_total ?x"
    using o(4,9) by (simp_all add: held_row_def released_def counted_def)
  obtain u s1 where s1: "record_feed_run_summary ?x (bounded_provider_reason e) (?s\<lparr>wk_feeds := put_run ?x (after_claim W r ?f)\<rparr>) = Inr (u, s1)"
      "wk_feeds s1 = put_run ?x (after_claim W r ?f)" "wk_jobs s1 = wk_jobs s"
    using x(5) by (simp add: record_feed_run_summary_def Let_def)
  obtain w s2 where s2: "enqueue_feed_run_revision ?E ?t k (fr_revision r + 2) ?t s1 = Inr (w, s2)" using enqueue_succeeds by blast
  have "\<not> active_run ?x" using x(1) by (simp add: active_run_def active_run_states_def)
  then have "then_enqueue ?E ?t ?x s1 = Inr (?x, s2)"
    using s2 x(1,2,3) by (simp add: then_enqueue_def enqueue_feed_run_snapshot_def bind_ok_def)
  then have "finishing W (claim_for W (fd_next ?f) r) Outcome_Uncertain e status ?s = (Answered status, s2)"
    using finish_succeeds [OF assms] s1(1)
    by (simp add: finishing_def finish_durable_feed_run_def Let_def with_feeds_def bind_ok_def ending_with_def)
  then show ?thesis by (rule that) (use enqueue_feed_run(1,2) [OF s2] s1(2,3) in simp_all)
qed

lemma held_stored:
  assumes "overdue W k r a f"
  shows "get_run k (put_run (held_row W u e r f) (after_claim W r f)) = Some (held_row W u e r f)"
proof -
  have "fr_id (held_row W u e r f) = k" using overdue_facts(9) [OF assms] by (simp add: held_row_def released_def)
  moreover have "get_run k (after_claim W r f) \<noteq> None" using after_claim_run [OF overdue_facts(1) [OF assms]] by simp
  ultimately show ?thesis using run_table.get_put by fastforce
qed

lemma overdue_held:
  assumes "runs_ok (wk_feeds s)" "overdue W k r a (wk_feeds s)"
  shows "\<exists>reason s'. process_claimed_feed_run W e (claim_for W (fd_next (wk_feeds s)) r) b (s\<lparr>wk_feeds := after_claim W r (wk_feeds s)\<rparr>) =
       (Answered ''outcome_uncertain'', s') \<and>
     get_run k (wk_feeds s') = Some (held_row W (fd_next (wk_feeds s)) reason r (wk_feeds s)) \<and>
     awake (se_env W) k (fr_revision r + 2) (se_commit_at W) (wk_jobs s) (wk_jobs s')"
proof -
  let ?c = "claim_for W (fd_next (wk_feeds s)) r" and ?s = "s\<lparr>wk_feeds := after_claim W r (wk_feeds s)\<rparr>"
  have d: "provider_result_deadline_reached (se_check_at W) ?c"
    using assms(2) by (simp add: overdue_def provider_result_deadline_reached_def)
  then obtain reason where "process_claimed_feed_run W e ?c b ?s = finishing W ?c Outcome_Uncertain reason ''outcome_uncertain'' ?s"
    using overdue_facts(6) [OF assms(2)]
    by (auto simp: process_claimed_feed_run_def process_polling_feed_run_def process_reporting_feed_run_def Let_def
        finish_provider_result_uncertain_def)
  moreover obtain s' where "finishing W ?c Outcome_Uncertain reason ''outcome_uncertain'' ?s = (Answered ''outcome_uncertain'', s')"
    "wk_feeds s' = put_run (held_row W (fd_next (wk_feeds s)) (bounded_provider_reason reason) r (wk_feeds s)) (after_claim W r (wk_feeds s))"
    "awake (se_env W) k (fr_revision r + 2) (se_commit_at W) (wk_jobs s) (wk_jobs s')"
    using assms by (rule held_succeeds)
  ultimately show ?thesis using held_stored [OF assms(2)] by auto
qed

lemma overdue_step:
  assumes "runs_ok (wk_feeds s)" "overdue W k r a (wk_feeds s)" "se_enabled W (fr_account r)"
    "step_arguments (se_env W) run_id revision = Some (k, fr_revision r)"
  shows "process_marketplace_feed_run_step W run_id revision s =
     process_claimed_feed_run W (fr_error r) (claim_for W (fd_next (wk_feeds s)) r) a (s\<lparr>wk_feeds := after_claim W r (wk_feeds s)\<rparr>)"
proof -
  note o = overdue_facts [OF assms(2)]
  let ?f = "wk_feeds s"
  have c: "claim_due_run_for_account (se_env W) (se_claim_at W) feed_lease (fr_account r) (Some k) (Some (fr_revision r)) ?f =
     Inr (Some (claim_for W (fd_next ?f) r), after_claim W r ?f)"
    by (rule claim_succeeds [OF assms(1) o(1,2,5,3)]) (use o(7) in simp)
  have w: "working_account (fr_account r) (after_claim W r ?f) = Some a"
    using o(2,3) by (simp add: working_account_def after_claim_market claimable_run_def live_def)
  have "fr_state r \<notin> {Succeeded, Failed, Outcome_Uncertain}" using o(6) by auto
  then show ?thesis using assms(3,4) o(1) c w by (simp add: process_marketplace_feed_run_step_def Let_def)
qed

text \<open>C7: A run whose result does not come is held at its deadline. When the task is delivered for a
  polling or reporting run that is due, whose account is live and enabled, and whose deadline has passed
  (or was never set), and it commits within its lease, then the step answers \<open>outcome_uncertain\<close> whatever
  the provider would have answered: the run is closed as \<open>outcome_uncertain\<close> at the time of the commit,
  its lease is gone, it still keeps its account from another submission, and the next dispatch is stored.
\<close>

theorem overdue_run_is_held:
  assumes "runs_ok (wk_feeds s)" "overdue W k r a (wk_feeds s)" "se_enabled W (fr_account r)"
    "step_arguments (se_env W) run_id revision = Some (k, fr_revision r)"
  shows "\<exists>s' x. process_marketplace_feed_run_step W run_id revision s = (Answered ''outcome_uncertain'', s') \<and>
     get_run k (wk_feeds s') = Some x \<and> fr_state x = Outcome_Uncertain \<and> fr_finished x = Some (se_commit_at W) \<and>
     fr_token x = None \<and> fr_next x = None \<and> is_owner x \<and>
     awake (se_env W) k (fr_revision x) (se_commit_at W) (wk_jobs s) (wk_jobs s')"
proof -
  obtain reason s' where s': "process_marketplace_feed_run_step W run_id revision s = (Answered ''outcome_uncertain'', s')"
     "get_run k (wk_feeds s') = Some (held_row W (fd_next (wk_feeds s)) reason r (wk_feeds s))"
     "awake (se_env W) k (fr_revision r + 2) (se_commit_at W) (wk_jobs s) (wk_jobs s')"
    using overdue_held [OF assms(1,2)] overdue_step [OF assms] by metis
  moreover have "fr_revision (held_row W (fd_next (wk_feeds s)) reason r (wk_feeds s)) = fr_revision r + 2"
    by (simp add: held_row_def released_def)
  ultimately show ?thesis
    by (intro exI conjI) (auto simp: held_row_def released_def is_owner_def ownership_states_def)
qed

section \<open>Recovery of lost wake-ups\<close>

lemma enqueue_elsewhere:
  assumes "enqueue_feed_run_revision E t k n available s = Inr (w, s')" "key \<noteq> feed_run_key E k n"
  shows "dispatch_with_key key (wk_jobs s') = dispatch_with_key key (wk_jobs s)"
proof -
  let ?q = "feed_run_request E k n available"
  let ?w = "new_dispatch t ?q ''avito_publish'' (jb_next (wk_jobs s))"
  have q: "jq_task ?q = feed_run_task" "jq_key ?q = Some (feed_run_key E k n)" "jq_revive ?q = False" by (simp_all add: feed_run_request_def)
  obtain j where j: "enqueue_durable_task t ?q (wk_jobs s) = Inr (w, j)" "s' = s\<lparr>wk_jobs := j\<rparr>"
    using assms(1) by (auto simp: enqueue_feed_run_revision_def split: sum.splits)
  have "jb_dispatches j = jb_dispatches (wk_jobs s) \<or> jb_dispatches j = row_add ?w (jb_dispatches (wk_jobs s))"
    using j(1) by (auto simp: enqueue_durable_task_def q feed_run_queue feed_run_key_nonempty create_dispatch_def Let_def kick_def
        split: option.splits)
  moreover have "jd_key ?w = Some (feed_run_key E k n)" by (simp add: new_dispatch_def q feed_run_key_nonempty)
  ultimately show ?thesis using assms(2) unfolding j(2) dispatch_with_key_def row_add_def
    by (elim disjE) (simp_all add: find_append split: option.split)
qed

lemma enqueue_new_is_pending:
  assumes "enqueue_feed_run_revision E t k n available s = Inr (w, s')"
    "dispatch_with_key key (wk_jobs s) = None" "dispatch_with_key key (wk_jobs s') = Some v"
  shows "jd_status v = Dp_Pending"
proof (cases "key = feed_run_key E k n")
  case True
  then show ?thesis using enqueue_feed_run(1) [OF assms(1)] assms(2,3) by (auto simp: awake_def)
next
  case False
  then show ?thesis using enqueue_elsewhere [OF assms(1) False] assms(2,3) by simp
qed

text \<open>What a round of recovery may do to the dispatches.\<close>

definition only_wakes :: "jobs \<Rightarrow> jobs \<Rightarrow> bool" where
  "only_wakes before after \<longleftrightarrow>
     (\<forall>key v. dispatch_with_key key before = Some v \<longrightarrow> dispatch_with_key key after = Some v) \<and>
     (\<forall>key v. dispatch_with_key key before = None \<longrightarrow> dispatch_with_key key after = Some v \<longrightarrow> jd_status v = Dp_Pending)"

lemma only_wakes_refl: "only_wakes s s"
  by (simp add: only_wakes_def)

lemma only_wakes_enqueue: "enqueue_feed_run_revision E t k n available s = Inr (w, s') \<Longrightarrow> only_wakes (wk_jobs s) (wk_jobs s')"
  unfolding only_wakes_def using enqueue_feed_run(5) enqueue_new_is_pending by blast

lemma only_wakes_trans:
  assumes "only_wakes s s1" "only_wakes s1 s2"
  shows "only_wakes s s2"
  unfolding only_wakes_def
proof (intro conjI allI impI)
  fix key v
  show "dispatch_with_key key s2 = Some v" if "dispatch_with_key key s = Some v" using that assms by (simp add: only_wakes_def)
  assume "dispatch_with_key key s = None" "dispatch_with_key key s2 = Some v"
  then show "jd_status v = Dp_Pending"
    using assms by (cases "dispatch_with_key key s1") (auto simp: only_wakes_def)
qed

lemma wake_each_result:
  assumes "wake_each E t rs s = (Inr ws, s')"
  shows "wk_feeds s' = wk_feeds s \<and> only_wakes (wk_jobs s) (wk_jobs s') \<and>
     list_all (\<lambda>r. dispatch_with_key (feed_run_key E (fr_id r) (fr_revision r)) (wk_jobs s') \<noteq> None) rs"
  using assms
proof (induction rs arbitrary: s ws)
  case Nil
  then show ?case by (simp add: only_wakes_refl)
next
  case (Cons r rs)
  obtain w s1 us where e: "enqueue_feed_run_revision E t (fr_id r) (fr_revision r) (the (fr_next r)) s = Inr (w, s1)"
    and r: "wake_each E t rs s1 = (Inr us, s')"
    using Cons.prems by (auto split: sum.splits prod.splits)
  note ih = Cons.IH [OF r]
  obtain v where "dispatch_with_key (feed_run_key E (fr_id r) (fr_revision r)) (wk_jobs s1) = Some v"
    using enqueue_feed_run(1) [OF e] by (auto simp: awake_def)
  then have "dispatch_with_key (feed_run_key E (fr_id r) (fr_revision r)) (wk_jobs s') = Some v" using ih by (simp add: only_wakes_def)
  then show ?case using ih only_wakes_trans [OF only_wakes_enqueue [OF e]] enqueue_feed_run(2) [OF e] by simp
qed

text \<open>C14: Recovery gives every due run a dispatch and revives none. When the periodic task ends normally,
  each run it selected has a dispatch under the key of its present revision; a dispatch that was stored
  under any key before is stored unchanged, so a finished one stays finished, and only a key that had no
  dispatch can have a new one, which is pending.
\<close>

theorem recovery_wakes_but_never_revives:
  assumes "dispatch_due_marketplace_feed_runs E t tenant_on fleet cutover s = (Inr (Some ws), s')"
  shows "list_all (\<lambda>r. dispatch_with_key (feed_run_key E (fr_id r) (fr_revision r)) (wk_jobs s') \<noteq> None)
           (waking_runs t tenant_on (\<lambda>k. fleet \<or> k \<in> set cutover) (wk_feeds s')) \<and>
     (\<forall>key v. dispatch_with_key key (wk_jobs s) = Some v \<longrightarrow> dispatch_with_key key (wk_jobs s') = Some v) \<and>
     (\<forall>key v. dispatch_with_key key (wk_jobs s) = None \<longrightarrow> dispatch_with_key key (wk_jobs s') = Some v \<longrightarrow> jd_status v = Dp_Pending)"
proof -
  obtain n f where "cancel_feed_runs_for_inactive_owners t max_recovery_batch_size (wk_feeds s) = (Inr n, f)"
    and w: "wake_each E t (waking_runs t tenant_on (\<lambda>k. fleet \<or> k \<in> set cutover) f) (s\<lparr>wk_feeds := f\<rparr>) = (Inr ws, s')"
    using assms by (auto simp: dispatch_due_marketplace_feed_runs_def Let_def split: if_splits prod.splits sum.splits)
  show ?thesis using wake_each_result [OF w] by (auto simp: only_wakes_def)
qed

section \<open>Evidence\<close>

text \<open>What an upload must show to be the run a submission started.\<close>

definition proves_run :: "step_env \<Rightarrow> market_account \<Rightarrow> feed_run \<Rightarrow> dict \<Rightarrow> string \<Rightarrow> string \<Rightarrow> bool" where
  "proves_run W a r upload provider status \<longleftrightarrow>
     provider = strip (text_or_empty (dict_get ''upload_id'' upload)) \<and> provider \<noteq> [] \<and> length provider \<le> 200 \<and>
     status = lower (strip (text_or_empty (dict_get ''status'' upload))) \<and>
     list_all (\<lambda>f. account_field_ok a (dict_get f upload)) [''account_id'', ''user_id'', ''owner_id''] \<and>
     (case (se_parse_time W (text_or_empty (dict_get ''started_at'' upload)), fr_submitted r) of
        (Time started, Some submitted) \<Rightarrow> submitted - secs 300 \<le> started
      | _ \<Rightarrow> False)"

lemma observation_proves:
  assumes "latest_upload_observation (se_parse_time W) a r upload = Inr (Some (provider, status))"
  shows "proves_run W a r upload provider status"
  using assms
  by (auto simp: latest_upload_observation_def Let_def proves_run_def feed_clock_skew_def split: if_splits parsed_time.splits option.splits)

lemma ending_with_answer:
  assumes "ending_with g res s = (Answered st, s')" "st \<noteq> ''stale''"
  obtains x where "res = Inr (x, s')" "st = g x"
  using assms by (auto simp: ending_with_def split: sum.splits if_splits)

lemma not_binding:
  "negative W c e s \<noteq> (Answered ''provider_run_bound'', s')"
  "retrying W c e d b s \<noteq> (Answered ''provider_run_bound'', s')"
  "finishing W c st e ''outcome_uncertain'' s \<noteq> (Answered ''provider_run_bound'', s')"
  by (auto simp: negative_def retrying_def finishing_def negative_status_def elim!: ending_with_answer split: if_splits)

lemma submission_bound:
  assumes "process_submission_unknown W c a s = (Answered ''provider_run_bound'', s')"
  obtains upload provider status x where "get_latest_upload (se_upload W) = Got upload"
    "proves_run W a (cl_run c) upload provider status" "fr_predecessor (cl_run c) \<noteq> None" "fr_predecessor (cl_run c) \<noteq> Some provider"
    "status \<in> set bound_statuses" "bind_submission W c provider (se_first W s) = Inr (x, s')"
proof (cases "get_latest_upload (se_upload W)")
  case (Got upload)
  then show ?thesis
  proof (cases "latest_upload_observation (se_parse_time W) a (cl_run c) upload")
    case (Inr found)
    then show ?thesis
    proof (cases found)
      case None
      then show ?thesis using assms Got Inr not_binding by (simp add: process_submission_unknown_def Let_def)
    next
      case (Some v)
      obtain provider status where v: "v = (provider, status)" by (cases v)
      have "fr_predecessor (cl_run c) \<noteq> None \<and> fr_predecessor (cl_run c) \<noteq> Some provider \<and> status \<in> set bound_statuses \<and>
          ending_with (\<lambda>_. ''provider_run_bound'') (bind_submission W c provider (se_first W s)) (se_first W s) =
            (Answered ''provider_run_bound'', s')"
        using assms Got Inr Some v not_binding by (auto simp: process_submission_unknown_def Let_def split: if_splits)
      then show ?thesis using that [OF Got observation_proves] Inr Some v by (auto elim!: ending_with_answer)
    qed
  qed (use assms Got in \<open>simp add: process_submission_unknown_def Let_def\<close>)
qed (use assms not_binding in \<open>simp_all add: process_submission_unknown_def Let_def\<close>)

lemma dropWhile_idle: "xs = [] \<or> \<not> P (hd xs) \<Longrightarrow> dropWhile P xs = xs"
  by (cases xs) auto

lemma strip_strip: "strip (strip s) = strip s"
proof -
  define v where "v = dropWhile is_space s"
  define u where "u = rev (dropWhile is_space (rev v))"
  have mirror: "rev u = dropWhile is_space (rev v)" by (simp add: u_def)
  have "rev u = [] \<or> \<not> is_space (hd (rev u))" unfolding mirror using hd_dropWhile by blast
  then have r: "dropWhile is_space (rev u) = rev u" by (rule dropWhile_idle)
  obtain w where w: "v = u @ w" using mirror by (metis rev_append rev_rev_ident takeWhile_dropWhile_id)
  have "u = [] \<or> \<not> is_space (hd u)"
  proof (cases "u = []")
    case False
    have "hd v = hd u" by (subst w) (rule hd_append2 [OF False])
    moreover have "v \<noteq> []" using w False by simp
    ultimately show ?thesis using hd_dropWhile [of is_space s] by (simp add: v_def)
  qed simp
  then have "dropWhile is_space u = u" by (rule dropWhile_idle)
  moreover have "strip s = u" by (simp add: strip_def u_def v_def)
  ultimately show ?thesis using r by (simp add: strip_def)
qed

lemma bound_row:
  assumes "bind_submission W c provider s = Inr (x, s')" "strip provider = provider" "runs_ok (wk_feeds s)"
  shows "\<exists>r. get_run (fr_id (cl_run c)) (wk_feeds s) = Some r \<and> fr_state r \<in> {Polling, Submit_Unknown} \<and> runs_ok (wk_feeds s') \<and>
     get_run (fr_id (cl_run c)) (wk_feeds s') = Some x \<and> fr_state x = Polling \<and> fr_provider x = Some provider"
proof -
  let ?E = "se_env W" and ?t = "se_commit_at W"
  obtain y f s1 where y: "record_provider_run_observation ?E ?t c provider (?t + feed_poll_batch_delay) (wk_feeds s) = Inr (y, f)"
    and s1: "then_enqueue ?E ?t y s1 = Inr (x, s')" "wk_feeds s1 = f"
    using assms(1) by (auto simp: bind_submission_def with_feeds_def Let_def bind_ok_Inr_iff split: option.splits)
  have leaves: "left_behind c y f" "wakeable y" using observation_leaves [OF y] by simp_all
  note e = then_enqueue_result [OF s1(1) leaves(2)]
  obtain r g where r: "lock_claimed_run ?E ?t c [Polling, Submit_Unknown] (wk_feeds s) = Inr r"
      "transition_claimed ?t c g (wk_feeds s) = Inr (y, f)"
    and g: "\<And>x. fr_id (g x) = fr_id x \<and> fr_state (g x) = Polling \<and> fr_provider (g x) = Some provider"
    using y assms(2) by (auto simp: record_provider_run_observation_def bind_ok_Inr_iff provider_run_arg_def split: if_splits)
  note l = lock_claimed_result [OF r(1)]
  have "y = released (g r)" using transition_row(1) [OF r(2) l(1)] g by simp
  then have "fr_state y = Polling" "fr_provider y = Some provider" using g by (simp_all add: released_def)
  moreover have "runs_ok f" using observation_moves [OF y] assms(3) by (simp add: moves_def)
  ultimately show ?thesis using l leaves(1) e s1(2) by (auto simp: left_behind_def)
qed

text \<open>C9: A submission is bound only to an upload that proves it. When the step of an ambiguous submission
  answers \<open>provider_run_bound\<close>, the latest upload the provider returned has an id of at most 200
  characters, started no earlier than five minutes before the recorded submission, contradicts the account
  in none of its three fields, has one of the statuses \<open>processing\<close>, \<open>success\<close> and \<open>success_warning\<close>, and is
  not the upload that was the latest before the request, which is known; the run is polling under this id
  now, and no other run of the account has it.
\<close>

theorem bound_run_has_evidence:
  assumes "process_submission_unknown W c a s = (Answered ''provider_run_bound'', s')" "runs_ok (wk_feeds (se_first W s))"
  shows "\<exists>upload provider status before x. get_latest_upload (se_upload W) = Got upload \<and>
     proves_run W a (cl_run c) upload provider status \<and> status \<in> set [''processing'', ''success'', ''success_warning''] \<and>
     fr_predecessor (cl_run c) = Some before \<and> before \<noteq> provider \<and>
     get_run (fr_id (cl_run c)) (wk_feeds s') = Some x \<and> fr_state x = Polling \<and> fr_provider x = Some provider \<and>
     list_all (\<lambda>y. fr_provider y = Some provider \<and> fr_account y = fr_account x \<longrightarrow> fr_id y = fr_id x) (fd_runs (wk_feeds s'))"
proof -
  obtain upload provider status x where e: "get_latest_upload (se_upload W) = Got upload"
    "proves_run W a (cl_run c) upload provider status" "fr_predecessor (cl_run c) \<noteq> None" "fr_predecessor (cl_run c) \<noteq> Some provider"
    "status \<in> set bound_statuses" "bind_submission W c provider (se_first W s) = Inr (x, s')"
    using assms(1) by (rule submission_bound)
  have p: "strip provider = provider" "provider \<noteq> []" using e(2) by (auto simp: proves_run_def strip_strip)
  have b: "runs_ok (wk_feeds s')" "get_run (fr_id (cl_run c)) (wk_feeds s') = Some x" "fr_state x = Polling" "fr_provider x = Some provider"
    using bound_row [OF e(6) p(1) assms(2)] by auto
  have "\<not> provider_clash x y" if "y \<in> set (fd_runs (wk_feeds s'))" for y
    using b(1) get_run_mem [OF b(2)] that by (simp add: runs_ok_def)
  then have "list_all (\<lambda>y. fr_provider y = Some provider \<and> fr_account y = fr_account x \<longrightarrow> fr_id y = fr_id x) (fd_runs (wk_feeds s'))"
    using b(4) p(2) by (auto simp: list_all_iff provider_clash_def)
  then show ?thesis using e b by (auto simp: bound_statuses_def)
qed

section \<open>Samples\<close>

definition demo_worker_env :: feed_env where
  "demo_worker_env = demo_feed_env
     \<lparr>fv_uuid_text := (\<lambda>k. if k = 1 then ''r'' else ''s''), fv_parse_uuid := (\<lambda>s. if s = ''r'' then Some 1 else None)\<rparr>"

definition demo_overdue_run :: feed_run where
  "demo_overdue_run = demo_polling_run\<lparr>fr_token := None, fr_until := None, fr_deadline := Some (secs 50)\<rparr>"

definition demo_works :: "feed_run \<Rightarrow> works" where
  "demo_works r =
     \<lparr>wk_feeds = demo_feeds_with r,
      wk_jobs = \<lparr>jb_dispatches = [], jb_parse = [], jb_bulk = [], jb_media = [], jb_images = [], jb_runs = [],
        jb_workflows = [], jb_searches = [], jb_accounts = [], jb_endpoints = [], jb_listings = [], jb_next = 1, jb_kicks = []\<rparr>,
      wk_summaries = [], wk_digests = [], wk_log = [], wk_marks = [], wk_deferred = []\<rparr>"

text \<open>The provider is out of reach and every commit happens three seconds after the claim.\<close>

definition demo_step :: step_env where
  "demo_step =
     \<lparr>se_env = demo_worker_env, se_claim_at = secs 100, se_check_at = secs 101, se_load_at = secs 102, se_recheck_at = secs 102,
      se_commit_at = secs 103, se_upload = Crash, se_results = Crash, se_results_again = Crash, se_page = Crash,
      se_after = Crash, se_parse_time = (\<lambda>_. No_Time), se_first = id, se_second = id, se_enabled = (\<lambda>_. True),
      se_notify = (\<lambda>_. True), se_max_pages = 100\<rparr>"

lemma demo_worker_identity: "account_identity_digest demo_worker_env demo_market = ''6b''"
  by (simp add: account_identity_digest_def demo_worker_env_def demo_feed_env_def hex_byte_def)

lemma demo_step_arguments: "step_arguments demo_worker_env (JStr ''r'') (JInt 4) = Some (1, 4)"
  by (simp add: step_arguments_def demo_worker_env_def)

lemma demo_overdue_ok: "runs_ok (wk_feeds (demo_works demo_overdue_run))"
  by (simp add: runs_ok_def demo_works_def demo_feeds_with_def demo_overdue_run_def demo_polling_run_def demo_run_def columns_fit_def
      mode_ok_def owner_clash_def provider_clash_def intent_clash_def)

lemma demo_overdue_fields:
  "fr_account demo_overdue_run = 5" "fr_state demo_overdue_run = Polling" "fr_deadline demo_overdue_run = Some (secs 50)"
  "fr_revision demo_overdue_run = 4" "fr_id demo_overdue_run = 1" "fr_next demo_overdue_run = Some (secs 100)"
  "fr_token demo_overdue_run = None" "fr_total demo_overdue_run = 2" "fr_tenant demo_overdue_run = 3"
  "fr_marketplace demo_overdue_run = Mp_Avito" "fr_identity demo_overdue_run = ''6b''"
  by (simp_all add: demo_overdue_run_def demo_polling_run_def demo_run_def)

lemma demo_step_simps:
  "se_env demo_step = demo_worker_env" "se_claim_at demo_step = secs 100" "se_check_at demo_step = secs 101"
  "se_commit_at demo_step = secs 103" "se_enabled demo_step k" "se_first demo_step = id" "se_second demo_step = id"
  by (simp_all add: demo_step_def)

lemma demo_overdue: "overdue demo_step 1 demo_overdue_run demo_market (wk_feeds (demo_works demo_overdue_run))"
proof -
  let ?r = demo_overdue_run
  have f: "wk_feeds (demo_works ?r) = demo_feeds_with ?r" by (simp add: demo_works_def)
  have "claimable_run demo_step demo_market ?r"
    using demo_live demo_worker_identity
    by (simp add: claimable_run_def demo_step_simps demo_overdue_fields due_at_def unleased_def) (simp add: demo_market_def)
  moreover have "counted ?r (demo_feeds_with ?r)"
    by (simp add: counted_def count_status_def in_run_def demo_overdue_fields)
      (simp add: demo_feeds_with_def demo_listing_def)
  moreover have "get_run 1 (demo_feeds_with ?r) = Some ?r" by (simp add: demo_feeds_get demo_overdue_fields)
  moreover have "get_market (fr_account ?r) (demo_feeds_with ?r) = Some demo_market" by (simp only: demo_overdue_fields demo_feeds_get(2))
  ultimately show ?thesis
    unfolding f overdue_def by (simp add: demo_overdue_fields demo_step_simps secs_def feed_lease_def)
qed

lemma demo_overdue_step:
  "se_enabled demo_step (fr_account demo_overdue_run)"
  "step_arguments (se_env demo_step) (JStr ''r'') (JInt 4) = Some (1, fr_revision demo_overdue_run)"
  by (simp_all only: demo_step_simps demo_step_arguments demo_overdue_fields)

theorem overdue_run_is_held_witness:
  "\<exists>s' x. process_marketplace_feed_run_step demo_step (JStr ''r'') (JInt 4) (demo_works demo_overdue_run) =
       (Answered ''outcome_uncertain'', s') \<and>
     get_run 1 (wk_feeds s') = Some x \<and> fr_state x = Outcome_Uncertain \<and> fr_finished x = Some (secs 103) \<and>
     awake demo_worker_env 1 (fr_revision x) (secs 103) (wk_jobs (demo_works demo_overdue_run)) (wk_jobs s')"
  using overdue_run_is_held [OF demo_overdue_ok demo_overdue demo_overdue_step] unfolding demo_step_simps by blast

lemma demo_held_step:
  "\<exists>s'. process_marketplace_feed_run_step demo_step (JStr ''r'') (JInt 4) (demo_works demo_overdue_run) =
     (Answered ''outcome_uncertain'', s')"
  using overdue_step [OF demo_overdue_ok demo_overdue demo_overdue_step] overdue_held [OF demo_overdue_ok demo_overdue] by metis

theorem processed_step_has_its_wake_up_witness:
  "\<exists>s' k n x. process_marketplace_feed_run_step demo_step (JStr ''r'') (JInt 4) (demo_works demo_overdue_run) =
       (Answered ''outcome_uncertain'', s') \<and> step_arguments demo_worker_env (JStr ''r'') (JInt 4) = Some (k, n) \<and>
     get_run k (wk_feeds s') = Some x \<and> fr_token x = None \<and> fr_revision x = n + 2"
proof -
  obtain s' where s': "process_marketplace_feed_run_step demo_step (JStr ''r'') (JInt 4) (demo_works demo_overdue_run) =
     (Answered ''outcome_uncertain'', s')" using demo_held_step by blast
  show ?thesis using processed_step_has_its_wake_up [OF s' demo_overdue_ok] s' unfolding demo_step_simps by fastforce
qed

text \<open>The run whose wake-up was spent: its dispatch has succeeded although the run was left as it was.\<close>

definition demo_spent_wake :: job_dispatch where
  "demo_spent_wake = (new_dispatch (secs 1) (feed_run_request demo_worker_env 1 4 (secs 1)) ''avito_publish'' 1)\<lparr>jd_status := Dp_Succeeded\<rparr>"

definition demo_spent_works :: works where
  "demo_spent_works = (demo_works demo_overdue_run)\<lparr>wk_jobs := (wk_jobs (demo_works demo_overdue_run))\<lparr>jb_dispatches := [demo_spent_wake]\<rparr>\<rparr>"

lemma demo_spent_key: "dispatch_with_key ''feed-run:r:rev:4'' (wk_jobs demo_spent_works) = Some demo_spent_wake"
  by (simp add: dispatch_with_key_def demo_spent_works_def demo_spent_wake_def new_dispatch_def feed_run_request_def feed_run_key_def
      demo_worker_env_def str_nat.simps digit_def)

lemma wake_each_succeeds: "\<exists>ws s'. wake_each E t rs s = (Inr ws, s')"
proof (induction rs arbitrary: s)
  case Nil
  then show ?case by simp
next
  case (Cons r rs)
  obtain w s1 where "enqueue_feed_run_revision E t (fr_id r) (fr_revision r) (the (fr_next r)) s = Inr (w, s1)"
    using enqueue_succeeds by blast
  moreover obtain ws s2 where "wake_each E t rs s1 = (Inr ws, s2)" using Cons by blast
  ultimately show ?case by simp
qed

lemma demo_recovery:
  "\<exists>ws s'. dispatch_due_marketplace_feed_runs demo_worker_env (secs 200) (\<lambda>_. True) True [] demo_spent_works = (Inr (Some ws), s')"
proof -
  let ?f = "demo_feeds_with demo_overdue_run"
  have f: "wk_feeds demo_spent_works = ?f" by (simp add: demo_spent_works_def demo_works_def)
  have "\<not> (case get_market (fr_account demo_overdue_run) ?f of None \<Rightarrow> False | Some a \<Rightarrow> \<not> live a)"
    using demo_live by (simp only: demo_overdue_fields demo_feeds_get(2) option.case) simp
  then have "inactive_owner_runs max_recovery_batch_size ?f = []"
    by (simp add: inactive_owner_runs_def) (simp add: demo_feeds_with_def)
  then have "cancel_feed_runs_for_inactive_owners (secs 200) max_recovery_batch_size ?f = (Inr [], ?f)"
    by (simp add: cancel_feed_runs_for_inactive_owners_def max_recovery_batch_size_def)
  moreover obtain ws s' where
    "wake_each demo_worker_env (secs 200) (waking_runs (secs 200) (\<lambda>_. True) (\<lambda>k. True \<or> k \<in> set []) ?f) (demo_spent_works\<lparr>wk_feeds := ?f\<rparr>) = (Inr ws, s')"
    using wake_each_succeeds by blast
  ultimately show ?thesis by (simp add: dispatch_due_marketplace_feed_runs_def f Let_def)
qed

theorem recovery_wakes_but_never_revives_witness:
  "\<exists>ws s'. dispatch_due_marketplace_feed_runs demo_worker_env (secs 200) (\<lambda>_. True) True [] demo_spent_works = (Inr (Some ws), s') \<and>
     dispatch_with_key ''feed-run:r:rev:4'' (wk_jobs s') = Some demo_spent_wake"
proof -
  obtain ws s' where s': "dispatch_due_marketplace_feed_runs demo_worker_env (secs 200) (\<lambda>_. True) True [] demo_spent_works = (Inr (Some ws), s')"
    using demo_recovery by blast
  show ?thesis using recovery_wakes_but_never_revives [OF s'] s' demo_spent_key by blast
qed

text \<open>An ambiguous submission, and the upload it turns out to be.\<close>

definition demo_unknown_run :: feed_run where
  "demo_unknown_run = demo_run\<lparr>fr_state := Submit_Unknown, fr_revision := 3, fr_predecessor := Some ''41'', fr_submitted := Some (secs 90)\<rparr>"

definition demo_unknown_claim :: feed_claim where
  "demo_unknown_claim = \<lparr>cl_run = demo_unknown_run, cl_token = 7, cl_until = secs 500\<rparr>"

definition demo_upload :: dict where
  "demo_upload = [(''upload_id'', JStr ''42''), (''started_at'', JStr ''t''), (''status'', JStr ''Processing'')]"

definition demo_reading :: step_env where
  "demo_reading = demo_step
     \<lparr>se_upload := Answer \<lparr>ha_status = 200, ha_retry = None, ha_text = [], ha_body = Some (JObj [(''uploads'', JList [JObj demo_upload])])\<rparr>,
      se_parse_time := (\<lambda>s. if s = ''t'' then Time (secs 95) else No_Time)\<rparr>"

lemma demo_reading_simps:
  "se_env demo_reading = demo_worker_env" "se_commit_at demo_reading = secs 103" "se_first demo_reading = id"
  "se_parse_time demo_reading = (\<lambda>s. if s = ''t'' then Time (secs 95) else No_Time)"
  by (simp_all add: demo_reading_def demo_step_def)

lemma demo_latest: "get_latest_upload (se_upload demo_reading) = Got demo_upload"
proof -
  have u: "se_upload demo_reading = Answer \<lparr>ha_status = 200, ha_retry = None, ha_text = [],
      ha_body = Some (JObj [(''uploads'', JList [JObj demo_upload])])\<rparr>" by (simp add: demo_reading_def)
  show ?thesis unfolding u demo_upload_def by code_simp
qed

lemma demo_observed:
  "latest_upload_observation (se_parse_time demo_reading) demo_market demo_unknown_run demo_upload = Inr (Some (''42'', ''processing''))"
  unfolding demo_reading_simps demo_upload_def demo_market_def demo_unknown_run_def demo_run_def by code_simp

lemma demo_unknown_locked:
  "lock_claimed_run demo_worker_env (secs 103) demo_unknown_claim [Polling, Submit_Unknown] (demo_feeds_with demo_unknown_run) = Inr demo_unknown_run"
proof -
  have "fr_account demo_unknown_run = 5" "fr_id demo_unknown_run = 1" "fr_identity demo_unknown_run = ''6b''"
    "fr_state demo_unknown_run = Submit_Unknown" by (simp_all add: demo_unknown_run_def demo_run_def)
  moreover have "claim_matches demo_unknown_claim (secs 103) demo_unknown_run"
    by (simp add: claim_matches_def demo_unknown_claim_def demo_unknown_run_def demo_run_def secs_def)
  ultimately show ?thesis
    using demo_live by (simp add: lock_claimed_run_def demo_unknown_claim_def demo_feeds_get demo_worker_identity)
qed

definition demo_bound_run :: feed_run where
  "demo_bound_run = released (demo_unknown_run
     \<lparr>fr_state := Polling, fr_provider := Some ''42'', fr_reconciles := 0, fr_next := Some (secs 133), fr_error := []\<rparr>)"

lemma demo_bound_observation:
  "record_provider_run_observation demo_worker_env (secs 103) demo_unknown_claim ''42'' (secs 133) (demo_feeds_with demo_unknown_run) =
     Inr (demo_bound_run, demo_feeds_with demo_bound_run)"
proof -
  let ?s = "demo_feeds_with demo_unknown_run"
  have row: "fr_submitted demo_unknown_run = Some (secs 90)" "no_provider demo_unknown_run" "fr_predecessor demo_unknown_run = Some ''41''"
    by (simp_all add: demo_unknown_run_def demo_run_def no_provider_def)
  have id: "fr_id demo_bound_run = fr_id demo_unknown_run" by (simp add: demo_bound_run_def released_def)
  have ok: "columns_fit demo_bound_run" "mode_ok demo_bound_run"
    by (simp_all add: demo_bound_run_def demo_unknown_run_def demo_run_def released_def columns_fit_def mode_ok_def)
  have w: "write_run demo_bound_run ?s = Inr (demo_feeds_with demo_bound_run)"
    using demo_constraint [OF ok id] demo_put [OF id] by (simp add: write_run_def)
  have a: "provider_run_arg ''42'' = Inr ''42''" by code_simp
  have m: "get_run (fr_id (cl_run demo_unknown_claim)) ?s = Some demo_unknown_run" "claim_matches demo_unknown_claim (secs 103) demo_unknown_run"
    using lock_claimed_result [OF demo_unknown_locked] by simp_all
  show ?thesis using w [unfolded demo_bound_run_def]
    by (simp add: record_provider_run_observation_def a demo_unknown_locked bind_ok_def row transition_claimed_def m demo_bound_run_def)
qed

lemma demo_first: "se_first demo_reading s = s"
  by (simp add: demo_reading_simps)

lemma demo_binding: "\<exists>s'. process_submission_unknown demo_reading demo_unknown_claim demo_market (demo_works demo_unknown_run) =
    (Answered ''provider_run_bound'', s')"
proof -
  let ?s = "demo_works demo_unknown_run"
  have f: "wk_feeds ?s = demo_feeds_with demo_unknown_run" by (simp add: demo_works_def)
  have c: "cl_run demo_unknown_claim = demo_unknown_run" by (simp add: demo_unknown_claim_def)
  have d: "secs 103 + feed_poll_batch_delay = secs 133" by (simp add: feed_poll_batch_delay_def secs_def)
  have "\<exists>x s'. then_enqueue demo_worker_env t r s = Inr (x, s')" if "active_run r" for t r s
  proof (cases "fr_next r")
    case None
    then show ?thesis using that by (simp add: then_enqueue_def enqueue_feed_run_snapshot_def bind_ok_def)
  next
    case (Some u)
    obtain w s1 where "enqueue_feed_run_revision demo_worker_env t (fr_id r) (fr_revision r) u s = Inr (w, s1)" using enqueue_succeeds by blast
    then show ?thesis using that Some by (simp add: then_enqueue_def enqueue_feed_run_snapshot_def bind_ok_def)
  qed
  moreover have "active_run demo_bound_run"
    by (simp add: demo_bound_run_def released_def active_run_def active_run_states_def)
  ultimately obtain x s' where e: "then_enqueue demo_worker_env (secs 103) demo_bound_run (?s\<lparr>wk_feeds := demo_feeds_with demo_bound_run\<rparr>) = Inr (x, s')"
    by blast
  have "get_run (fr_id demo_unknown_run) (demo_feeds_with demo_bound_run) = Some demo_bound_run" "fr_intent demo_bound_run = None"
    by (simp_all add: demo_feeds_get demo_bound_run_def released_def demo_unknown_run_def demo_run_def)
  then have "bind_submission demo_reading demo_unknown_claim ''42'' ?s = Inr (x, s')"
    by (simp add: bind_submission_def demo_reading_simps Let_def f c d demo_bound_observation with_feeds_def bind_ok_def e)
  moreover have "fr_predecessor demo_unknown_run = Some ''41''" by (simp add: demo_unknown_run_def)
  ultimately show ?thesis
    by (simp add: process_submission_unknown_def Let_def demo_latest c demo_observed demo_first bound_statuses_def ending_with_def)
qed

theorem bound_run_has_evidence_witness:
  "\<exists>s' x. process_submission_unknown demo_reading demo_unknown_claim demo_market (demo_works demo_unknown_run) =
       (Answered ''provider_run_bound'', s') \<and>
     get_run 1 (wk_feeds s') = Some x \<and> fr_state x = Polling"
proof -
  obtain s' where s': "process_submission_unknown demo_reading demo_unknown_claim demo_market (demo_works demo_unknown_run) =
    (Answered ''provider_run_bound'', s')" using demo_binding by blast
  have f: "wk_feeds (se_first demo_reading (demo_works demo_unknown_run)) = demo_feeds_with demo_unknown_run"
    by (simp add: demo_reading_simps demo_works_def)
  have ok: "runs_ok (wk_feeds (se_first demo_reading (demo_works demo_unknown_run)))"
    unfolding f by (simp add: runs_ok_def demo_feeds_with_def demo_unknown_run_def demo_run_def columns_fit_def
      mode_ok_def owner_clash_def provider_clash_def intent_clash_def)
  have k: "fr_id (cl_run demo_unknown_claim) = 1" by (simp add: demo_unknown_claim_def demo_unknown_run_def demo_run_def)
  obtain x where "get_run 1 (wk_feeds s') = Some x \<and> fr_state x = Polling"
    using bound_run_has_evidence [OF s' ok] unfolding k by (elim exE conjE) simp
  then show ?thesis using s' by (intro exI [of _ s'] exI [of _ x]) simp
qed

end
