(* ===== verification/Feed_Submission.thy ===== *)
theory Feed_Submission
  imports Feed_Worker_Guarantees
begin

text \<open>
  The task that sends a feed (\<open>_coalesced_flush_durable\<close> of \<^verbatim>\<open>apps/marketplaces/tasks.py\<close>, the shared
  storage): it creates a generation, claims it, stores the feed object, reads the latest upload of the
  provider, stores the boundary, sends the request and records its outcome.
\<close>

section \<open>The request\<close>

text \<open>\<open>_trigger_autoload\<close>: the check of the feed route comes first, without a request.\<close>

datatype trigger_end = Post_Accepted | Post_Limited int | Post_Ambiguous string | Post_Rejected string | Post_Crashed

definition autoload_rate_limit_retry_after :: int where "autoload_rate_limit_retry_after = 660"

definition autoload_safe_rejection_statuses :: "int list" where
  "autoload_safe_rejection_statuses = [400, 401, 403, 404, 405, 409, 410, 413, 415, 422]"

definition msg_autoload_rejected :: string where "msg_autoload_rejected = ''Avito Autoload did not take the feed: HTTP ''"
definition msg_autoload_ambiguous :: string where "msg_autoload_ambiguous = ''Avito Autoload gave an ambiguous answer: HTTP ''"

definition trigger_autoload :: "string option \<Rightarrow> transport \<Rightarrow> trigger_end" where
  "trigger_autoload route x =
     (case route of
        Some e \<Rightarrow> Post_Rejected e
      | None \<Rightarrow>
          (case x of
             Crash \<Rightarrow> Post_Crashed
           | Unreachable e \<Rightarrow> Post_Ambiguous e
           | Answer h \<Rightarrow>
               (if ha_status h = 200 \<or> ha_status h = 204 then Post_Accepted
                else if ha_status h = 429 then Post_Limited autoload_rate_limit_retry_after
                else if ha_status h \<in> set autoload_safe_rejection_statuses
                then Post_Rejected (msg_autoload_rejected @ str_int (ha_status h) @ ''.'')
                else Post_Ambiguous (msg_autoload_ambiguous @ str_int (ha_status h) @ ''.''))))"

text \<open>\<open>_provider_predecessor_from_strict_read\<close>: no text means that there is no upload.\<close>

definition provider_predecessor_from_strict_read :: "market_account \<Rightarrow> dict \<Rightarrow> provider_error + string" where
  "provider_predecessor_from_strict_read a upload =
     (if upload = [] then Inr []
      else if dict_get ''upload_id'' upload \<in> {JNull, JStr []}
      then Inl (provider_failure ''Latest provider upload has no upload_id.'')
      else (let p = strip (py_str (dict_get ''upload_id'' upload)) in
        if p = [] \<or> 200 < length p then Inl (provider_failure ''Latest provider upload has an invalid upload_id.'')
        else if \<not> list_all (\<lambda>f. account_field_ok a (dict_get f upload)) [''account_id'', ''user_id'', ''owner_id'']
        then Inl (provider_failure ''Latest provider upload belongs to another account.'')
        else Inr p))"

section \<open>Surroundings\<close>

datatype put_end = Put_Done | Put_Failed string | Put_Crash

text \<open>The deferred flush: its cache entry is there already, the message is sent, the broker refuses the
  message after the entry was set, or the cache is out of reach.\<close>

datatype defer_end = Defer_Marked | Defer_Sent | Defer_Unsent | Defer_Down

text \<open>
  What one execution meets. \<open>sm_count\<close> and \<open>sm_digest\<close> are the number of listings of the account's feed and
  the SHA-256 of its bytes; \<open>sm_put\<close> is the upload of the object, \<open>sm_baseline\<close> the read of the latest upload,
  \<open>sm_route\<close> the check of the route and \<open>sm_post\<close> the request with the reading of its token.
  \<open>sm_before\<close>, \<open>sm_storing\<close>, \<open>sm_reading\<close> and \<open>sm_posting\<close> are what others commit before the claim, and during the three calls.
  \<open>sm_logged\<close> says whether a row can be written to the log, \<open>sm_defer\<close> what becomes of a deferred flush.
\<close>

record submission_env =
  sm_env :: feed_env
  sm_create_at :: instant
  sm_claim_at :: instant
  sm_stored_at :: instant
  sm_check_at :: instant
  sm_read_at :: instant
  sm_submit_at :: instant
  sm_end_at :: instant
  sm_count :: "feeds \<Rightarrow> nat"
  sm_digest :: "feeds \<Rightarrow> string"
  sm_put :: put_end
  sm_baseline :: transport
  sm_route :: "string option"
  sm_post :: transport
  sm_before :: "works \<Rightarrow> works"
  sm_storing :: "works \<Rightarrow> works"
  sm_reading :: "works \<Rightarrow> works"
  sm_posting :: "works \<Rightarrow> works"
  sm_retries :: nat
  sm_max_retries :: nat
  sm_logged :: bool
  sm_defer :: defer_end

text \<open>A status, a retry of the task after so many seconds, or another exception.\<close>

datatype flush_answer = Flushed string | Flush_Retry int | Flush_Raised

text \<open>The answer, the claim under which the request may have been sent, and the state.\<close>

type_synonym flush_outcome = "flush_answer \<times> feed_claim option \<times> works"

definition max_durable_feed_payload_listings :: nat where "max_durable_feed_payload_listings = 10000"
definition feed_submission_delay :: int where "feed_submission_delay = secs 300"

text \<open>\<open>backoff\<close>.\<close>

definition backoff_schedule :: "int list" where "backoff_schedule = [30, 60, 120, 300]"

definition backoff :: "nat \<Rightarrow> int" where
  "backoff n = backoff_schedule ! min n (length backoff_schedule - 1)"

definition exhausted_retries :: "submission_env \<Rightarrow> bool" where
  "exhausted_retries V \<longleftrightarrow> sm_max_retries V \<le> sm_retries V"

section \<open>The log and the deferred flush\<close>

text \<open>\<open>_write_log\<close> swallows every exception.\<close>

definition write_log :: "bool \<Rightarrow> nat \<Rightarrow> account_event \<Rightarrow> works \<Rightarrow> works" where
  "write_log logged tenant ev s = (if logged then s\<lparr>wk_log := wk_log s @ [(tenant, ev)]\<rparr> else s)"

definition record_durable_feed_payload_limit :: "submission_env \<Rightarrow> market_account \<Rightarrow> works \<Rightarrow> flush_answer \<times> works" where
  "record_durable_feed_payload_limit V a s =
     (Flushed ''payload_limit_exceeded'', write_log (sm_logged V) (ma_tenant a) (Feed_Over_Limit (ma_pk a)) s)"

text \<open>The result is false when the cache or the broker raises.\<close>

definition reschedule_coalesced_flush_after_conflict :: "defer_end \<Rightarrow> nat \<Rightarrow> works \<Rightarrow> bool \<times> works" where
  "reschedule_coalesced_flush_after_conflict x k s =
     (let countdown = feed_submission_delay div secs 1;
          marked = s\<lparr>wk_marks := wk_marks s @ [(k, countdown + 60)]\<rparr>
      in case x of
           Defer_Down \<Rightarrow> (False, s)
         | Defer_Marked \<Rightarrow> (True, s)
         | Defer_Unsent \<Rightarrow> (False, marked)
         | Defer_Sent \<Rightarrow> (True, marked\<lparr>wk_deferred := wk_deferred s @ [(k, countdown)]\<rparr>))"

definition conflicting :: "submission_env \<Rightarrow> nat \<Rightarrow> works \<Rightarrow> flush_answer \<times> works" where
  "conflicting V k s =
     (case reschedule_coalesced_flush_after_conflict (sm_defer V) k s of
        (True, s1) \<Rightarrow> (Flushed ''active_feed_run'', s1)
      | (False, s1) \<Rightarrow> (Flush_Raised, s1))"

section \<open>Ends of the task\<close>

definition unsent :: "flush_answer \<times> works \<Rightarrow> flush_outcome" where
  "unsent res = (fst res, None, snd res)"

definition sent_under :: "submission_env \<Rightarrow> feed_claim \<Rightarrow> flush_answer \<times> works \<Rightarrow> flush_outcome" where
  "sent_under V d res = (fst res, if sm_route V = None then Some d else None, snd res)"

text \<open>\<open>_finish_durable_feed_run\<close> with \<open>FAILED\<close>.\<close>

definition failing :: "submission_env \<Rightarrow> instant \<Rightarrow> feed_claim \<Rightarrow> string \<Rightarrow> string \<Rightarrow> works \<Rightarrow> flush_answer \<times> works" where
  "failing V t c error status s =
     (case finish_durable_feed_run (sm_env V) t c Failed error False s of
        Inl _ \<Rightarrow> (Flush_Raised, s)
      | Inr (_, s1) \<Rightarrow> (Flushed status, s1))"

text \<open>\<open>retry_step\<close> without a wake-up: the retry of this task comes back to the account.\<close>

definition pausing :: "submission_env \<Rightarrow> instant \<Rightarrow> feed_claim \<Rightarrow> string \<Rightarrow> int \<Rightarrow> feed_error list \<Rightarrow> works \<Rightarrow> flush_answer \<times> works" where
  "pausing V t c error seconds stale s =
     (case retry_step (sm_env V) t c (t + secs seconds) error False False (wk_feeds s) of
        Inl e \<Rightarrow> (if e \<in> set stale then Flushed ''stale_before_submission'' else Flush_Raised, s)
      | Inr (_, f) \<Rightarrow> (Flush_Retry seconds, s\<lparr>wk_feeds := f\<rparr>))"

text \<open>\<open>_retry_pre_submission_baseline\<close>.\<close>

definition retry_pre_submission_baseline :: "submission_env \<Rightarrow> feed_claim \<Rightarrow> provider_error \<Rightarrow> works \<Rightarrow> flush_answer \<times> works" where
  "retry_pre_submission_baseline V c e s =
     (if exhausted_retries V then failing V (sm_read_at V) c (pe_text e) ''failed_pre_submission'' s
      else pausing V (sm_read_at V) c (pe_text e) (max 1 (provider_retry_delay e div secs 1)) workflow_errors s)"

text \<open>\<open>last_feed_flush_at\<close> of the account; \<open>objects\<close> leaves deleted accounts out.\<close>

definition touch_last_flush :: "nat \<Rightarrow> instant \<Rightarrow> jobs \<Rightarrow> jobs" where
  "touch_last_flush k t j =
     (case get_account k j of
        None \<Rightarrow> j
      | Some a \<Rightarrow> if fa_deleted a then j else put_account (a\<lparr>fa_last_flush := Some t\<rparr>) j)"

text \<open>A transition after the request, with the cursor of the account and the wake-up in its transaction,
  and what follows its commit.\<close>

definition recording ::
    "submission_env \<Rightarrow> feed_claim \<Rightarrow> feed_error + feed_run \<times> feeds \<Rightarrow> instant \<Rightarrow> string \<Rightarrow> (feed_run \<Rightarrow> works \<Rightarrow> works) \<Rightarrow>
     works \<Rightarrow> flush_answer \<times> works" where
  "recording V d res flushed status after_commit s =
     (case with_feeds res s (\<lambda>r s1. then_enqueue (sm_env V) (sm_end_at V) r
             (s1\<lparr>wk_jobs := touch_last_flush (fr_account (cl_run d)) flushed (wk_jobs s1)\<rparr>)) of
        Inl _ \<Rightarrow> (Flush_Raised, s)
      | Inr (r, s1) \<Rightarrow> (Flushed status, after_commit r s1))"

section \<open>The task, from its end to its beginning\<close>

text \<open>The outcome of the request, under the boundary's claim \<open>d\<close>.\<close>

definition rate_limited :: "submission_env \<Rightarrow> feed_claim \<Rightarrow> int \<Rightarrow> works \<Rightarrow> flush_answer \<times> works" where
  "rate_limited V d n s =
     (let t = sm_end_at V; error = ''Rate limit exceeded, retry after '' @ str_int n @ ''s'' in
      if exhausted_retries V then failing V t d error ''failed'' s
      else (case clear_rejected_feed_submission_boundary t d (wk_feeds s) of
              Inl _ \<Rightarrow> (Flush_Raised, s)
            | Inr (d', f) \<Rightarrow> pausing V t d' error (max 1 n) [] (s\<lparr>wk_feeds := f\<rparr>)))"

definition record_outcome :: "submission_env \<Rightarrow> market_account \<Rightarrow> feed_claim \<Rightarrow> string \<Rightarrow> works \<Rightarrow> flush_answer \<times> works" where
  "record_outcome V a d digest s =
     (let t = sm_end_at V; E = sm_env V; submitted = sm_submit_at V in
      case trigger_autoload (sm_route V) (sm_post V) of
        Post_Crashed \<Rightarrow> (Flush_Raised, s)
      | Post_Limited n \<Rightarrow> rate_limited V d n s
      | Post_Ambiguous e \<Rightarrow>
          recording V d (mark_feed_submission_unknown E t d submitted (t + feed_submission_delay) e (wk_feeds s)) t
            ''submission_unknown'' (\<lambda>_ s. s) s
      | Post_Rejected e \<Rightarrow> failing V t d e ''failed'' s
      | Post_Accepted \<Rightarrow>
          recording V d (mark_feed_submitted E t d digest None submitted (t + feed_submission_delay) (wk_feeds s)) submitted
            ''submitted'' (\<lambda>r. write_log (sm_logged V) (ma_tenant a) (Feed_Loaded (fr_total r) (ma_pk a))) s)"

definition cross_boundary :: "submission_env \<Rightarrow> market_account \<Rightarrow> feed_claim \<Rightarrow> string \<Rightarrow> string \<Rightarrow> works \<Rightarrow> flush_outcome" where
  "cross_boundary V a c digest predecessor s =
     (case persist_feed_submission_boundary (sm_env V) (sm_submit_at V) predecessor (sm_submit_at V) c (wk_feeds s) of
        Inl _ \<Rightarrow> unsent (Flush_Raised, s)
      | Inr (None, f) \<Rightarrow> unsent (Flushed ''stale_before_submission'', s\<lparr>wk_feeds := f\<rparr>)
      | Inr (Some d, f) \<Rightarrow> sent_under V d (record_outcome V a d digest (sm_posting V (s\<lparr>wk_feeds := f\<rparr>))))"

definition read_baseline :: "submission_env \<Rightarrow> market_account \<Rightarrow> feed_claim \<Rightarrow> string \<Rightarrow> works \<Rightarrow> flush_outcome" where
  "read_baseline V a c digest s =
     (case get_latest_upload (sm_baseline V) of
        Crashed \<Rightarrow> unsent (Flush_Raised, s)
      | Refused e \<Rightarrow> unsent (retry_pre_submission_baseline V c e s)
      | Got upload \<Rightarrow>
          (case provider_predecessor_from_strict_read a upload of
             Inl e \<Rightarrow> unsent (retry_pre_submission_baseline V c e s)
           | Inr p \<Rightarrow> cross_boundary V a c digest p s))"

definition check_owner :: "submission_env \<Rightarrow> market_account \<Rightarrow> feed_claim \<Rightarrow> string \<Rightarrow> works \<Rightarrow> flush_outcome" where
  "check_owner V a c digest s =
     (case validate_feed_submission_owner (sm_env V) (sm_check_at V) c (wk_feeds s) of
        Inl _ \<Rightarrow> unsent (Flush_Raised, s)
      | Inr (False, f) \<Rightarrow> unsent (Flushed ''stale_before_submission'', s\<lparr>wk_feeds := f\<rparr>)
      | Inr (True, f) \<Rightarrow> read_baseline V a c digest (sm_reading V (s\<lparr>wk_feeds := f\<rparr>)))"

definition store_payload :: "submission_env \<Rightarrow> market_account \<Rightarrow> feed_claim \<Rightarrow> string \<Rightarrow> works \<Rightarrow> flush_outcome" where
  "store_payload V a c digest s =
     (case sm_put V of
        Put_Crash \<Rightarrow> unsent (Flush_Raised, s)
      | Put_Failed e \<Rightarrow>
          unsent (if exhausted_retries V then failing V (sm_stored_at V) c e ''failed'' s
                  else pausing V (sm_stored_at V) c e (backoff (sm_retries V)) [] s)
      | Put_Done \<Rightarrow> check_owner V a c digest s)"

definition claim_generation :: "submission_env \<Rightarrow> market_account \<Rightarrow> string \<Rightarrow> feed_run \<Rightarrow> works \<Rightarrow> flush_outcome" where
  "claim_generation V a digest r s =
     (case claim_due_run_for_account (sm_env V) (sm_claim_at V) feed_lease (ma_pk a) (Some (fr_id r)) (Some (fr_revision r)) (wk_feeds s) of
        Inl _ \<Rightarrow> unsent (Flush_Raised, s)
      | Inr (None, f) \<Rightarrow> unsent (Flushed ''stale'', s\<lparr>wk_feeds := f\<rparr>)
      | Inr (Some c, f) \<Rightarrow> store_payload V a c digest (sm_storing V (s\<lparr>wk_feeds := f\<rparr>)))"

text \<open>A generation without the private fields; its id is new.\<close>

definition flush_request :: "string \<Rightarrow> generation_request" where
  "flush_request digest =
     \<lparr>gr_id = None, gr_payload = digest, gr_intent = None, gr_endpoint = None, gr_predecessor = None\<rparr>"

definition coalesced_flush_durable :: "submission_env \<Rightarrow> nat \<Rightarrow> works \<Rightarrow> flush_outcome" where
  "coalesced_flush_durable V k s =
     (case working_account k (wk_feeds s) of
        None \<Rightarrow> unsent (Flushed ''inactive_account'', s)
      | Some a \<Rightarrow>
          (if max_durable_feed_payload_listings < sm_count V (wk_feeds s)
           then unsent (record_durable_feed_payload_limit V a s)
           else (let digest = sm_digest V (wk_feeds s) in
             case create_or_supersede_feed_run (sm_env V) (sm_create_at V) k (flush_request digest) (wk_feeds s) of
               Inl e \<Rightarrow>
                 unsent (if e = Submission_Uncertain then (Flushed ''manual_reconciliation_required'', s)
                         else if e = Run_Conflict then conflicting V k s
                         else (Flush_Raised, s))
             | Inr (r, f) \<Rightarrow> claim_generation V a digest r (sm_before V (s\<lparr>wk_feeds := f\<rparr>)))))"

end
