(* ===== verification/Feed_Submission_Guarantees.thy ===== *)
theory Feed_Submission_Guarantees
  imports Feed_Submission
begin

text \<open>
  What the task that sends a feed guarantees: the request is sent at most once and only behind the stored
  boundary, what follows it are operations of the workflow on the same run, and a request whose outcome
  is not a refusal keeps every later execution from sending another.
\<close>

section \<open>What others do\<close>

text \<open>Others commit operations of the workflow, whatever else they change.\<close>

definition works_by :: "feed_env \<Rightarrow> (run_op \<Rightarrow> bool) \<Rightarrow> (works \<Rightarrow> works) \<Rightarrow> bool" where
  "works_by E ok h \<longleftrightarrow> (\<forall>s. \<exists>ops. list_all ok ops \<and> wk_feeds (h s) = perform_runs E ops (wk_feeds s))"

lemma works_byE:
  assumes "works_by E ok h"
  obtains ops where "list_all ok ops" "wk_feeds (h s) = perform_runs E ops (wk_feeds s)"
  using assms by (auto simp: works_by_def)

lemma works_by_ok: "works_by E ok h \<Longrightarrow> runs_ok (wk_feeds s) \<Longrightarrow> runs_ok (wk_feeds (h s))"
  by (metis works_byE trace_keeps_ok)

lemma works_by_id: "works_by E ok id"
  unfolding works_by_def by (intro allI exI [of _ "[]"]) simp

section \<open>The boundary\<close>

text \<open>
  An execution that may have sent its request: the boundary was stored in some state, others worked during
  the request, and the rest of the execution is its outcome.
\<close>

definition crossed :: "submission_env \<Rightarrow> feed_claim \<Rightarrow> works \<Rightarrow> works \<Rightarrow> flush_answer \<times> works \<Rightarrow> bool" where
  "crossed V d s m res \<longleftrightarrow>
     (\<exists>a c p digest f. persist_feed_submission_boundary (sm_env V) (sm_submit_at V) p (sm_submit_at V) c (wk_feeds m) = Inr (Some d, f) \<and>
        s = sm_posting V (m\<lparr>wk_feeds := f\<rparr>) \<and> res = record_outcome V a d digest s)"

lemma unsent_sends [simp]: "unsent res \<noteq> (ans, Some d, s)"
  by (simp add: unsent_def)

lemma crossedI:
  assumes "cross_boundary V a c digest p m = (ans, Some d, s')"
  shows "\<exists>s. crossed V d s m (ans, s') \<and> sm_route V = None \<and> fr_account (cl_run d) = fr_account (cl_run c)"
proof -
  obtain f where f: "persist_feed_submission_boundary (sm_env V) (sm_submit_at V) p (sm_submit_at V) c (wk_feeds m) = Inr (Some d, f)"
    and r: "sent_under V d (record_outcome V a d digest (sm_posting V (m\<lparr>wk_feeds := f\<rparr>))) = (ans, Some d, s')"
    using assms by (auto simp: cross_boundary_def sent_under_def split: sum.splits prod.splits option.splits if_splits)
  obtain q where q: "pristine_claim c (sm_submit_at V) q" "cl_run d = boundary_row (strip p) (sm_submit_at V) q"
    using f by (auto elim!: boundary_authorised)
  have "fr_account (cl_run d) = fr_account (cl_run c)" using q by (simp add: pristine_claim_def boundary_row_def)
  moreover have "sm_route V = None" "(ans, s') = record_outcome V a d digest (sm_posting V (m\<lparr>wk_feeds := f\<rparr>))"
    using r by (auto simp: sent_under_def prod_eq_iff split: if_splits)
  ultimately show ?thesis using f unfolding crossed_def by blast
qed

lemma baseline_crosses:
  assumes "read_baseline V a c digest m = (ans, Some d, s')"
  shows "\<exists>s. crossed V d s m (ans, s') \<and> sm_route V = None \<and> fr_account (cl_run d) = fr_account (cl_run c)"
  using assms crossedI by (auto simp: read_baseline_def split: reading.splits sum.splits)

lemma claim_account:
  assumes "claim_due_run_for_account E t dur k g n f = Inr (Some c, f')" "runs_ok f"
  shows "fr_account (cl_run c) = k \<and> runs_ok f'"
proof -
  obtain a where a: "get_market k f = Some a" "claim_locked_account E t dur g n a f = Inr (Some c, f')"
    using assms(1) by (auto simp: claim_due_run_for_account_def split: if_splits option.splits)
  obtain r where r: "first_row (filter (\<lambda>r. fr_account r = ma_pk a \<and> active_run r \<and> (case g of None \<Rightarrow> True | Some k \<Rightarrow> fr_id r = k)) (fd_runs f)) = Some r"
      "take_claim t dur r f = Inr (Some c, f')"
    using a(2) by (auto elim!: claim_found)
  have "fr_account r = k" using first_row_in_set [OF r(1)] market_pk [OF a(1)] by simp
  then show ?thesis
    using take_claim_result(1) [OF r(2)] moves_keep_ok [OF claim_due_moves [OF assms]] assms(2) by simp
qed

definition anything :: "run_op \<Rightarrow> bool" where
  "anything op \<longleftrightarrow> True"

text \<open>Whatever others commit up to the boundary.\<close>

definition others_work :: "submission_env \<Rightarrow> bool" where
  "others_work V \<longleftrightarrow> works_by (sm_env V) anything (sm_before V) \<and> works_by (sm_env V) anything (sm_storing V) \<and>
     works_by (sm_env V) anything (sm_reading V)"

lemma others_keep:
  assumes "others_work V" "runs_ok f"
  shows "runs_ok (wk_feeds (sm_before V (m\<lparr>wk_feeds := f\<rparr>)))" "runs_ok (wk_feeds (sm_storing V (m\<lparr>wk_feeds := f\<rparr>)))"
    "runs_ok (wk_feeds (sm_reading V (m\<lparr>wk_feeds := f\<rparr>)))"
proof -
  have f: "runs_ok (wk_feeds (m\<lparr>wk_feeds := f\<rparr>))" using assms(2) by simp
  have w: "works_by (sm_env V) anything (sm_before V)" "works_by (sm_env V) anything (sm_storing V)"
    "works_by (sm_env V) anything (sm_reading V)" using assms(1) by (simp_all add: others_work_def)
  show "runs_ok (wk_feeds (sm_before V (m\<lparr>wk_feeds := f\<rparr>)))" using w(1) f by (rule works_by_ok)
  show "runs_ok (wk_feeds (sm_storing V (m\<lparr>wk_feeds := f\<rparr>)))" using w(2) f by (rule works_by_ok)
  show "runs_ok (wk_feeds (sm_reading V (m\<lparr>wk_feeds := f\<rparr>)))" using w(3) f by (rule works_by_ok)
qed

lemma owner_crosses:
  assumes "check_owner V a c digest m = (ans, Some d, s')" "others_work V" "runs_ok (wk_feeds m)"
  shows "\<exists>m s. crossed V d s m (ans, s') \<and> runs_ok (wk_feeds m) \<and> sm_route V = None \<and> fr_account (cl_run d) = fr_account (cl_run c)"
proof -
  obtain f where f: "validate_feed_submission_owner (sm_env V) (sm_check_at V) c (wk_feeds m) = Inr (True, f)"
    "read_baseline V a c digest (sm_reading V (m\<lparr>wk_feeds := f\<rparr>)) = (ans, Some d, s')"
    using assms(1) by (auto simp: check_owner_def split: sum.splits prod.splits bool.splits)
  have "runs_ok f" using moves_keep_ok [OF validate_moves [OF f(1)] assms(3)] .
  then have "runs_ok (wk_feeds (sm_reading V (m\<lparr>wk_feeds := f\<rparr>)))"
    using assms(2) by (simp add: others_keep)
  then show ?thesis using baseline_crosses [OF f(2)] by blast
qed

lemma claim_crosses:
  assumes "claim_generation V a digest r m = (ans, Some d, s')" "others_work V" "runs_ok (wk_feeds m)"
  shows "\<exists>m s. crossed V d s m (ans, s') \<and> runs_ok (wk_feeds m) \<and> sm_route V = None \<and> fr_account (cl_run d) = ma_pk a"
proof -
  obtain c f where c: "claim_due_run_for_account (sm_env V) (sm_claim_at V) feed_lease (ma_pk a) (Some (fr_id r)) (Some (fr_revision r)) (wk_feeds m) =
      Inr (Some c, f)" and s: "store_payload V a c digest (sm_storing V (m\<lparr>wk_feeds := f\<rparr>)) = (ans, Some d, s')"
    using assms(1) by (auto simp: claim_generation_def split: sum.splits prod.splits option.splits)
  note acc = claim_account [OF c assms(3)]
  have "check_owner V a c digest (sm_storing V (m\<lparr>wk_feeds := f\<rparr>)) = (ans, Some d, s')"
    using s by (auto simp: store_payload_def split: put_end.splits)
  moreover have "runs_ok (wk_feeds (sm_storing V (m\<lparr>wk_feeds := f\<rparr>)))"
    using assms(2) acc by (simp add: others_keep)
  ultimately show ?thesis using owner_crosses [OF _ assms(2)] acc by metis
qed

lemma flush_crosses:
  assumes "coalesced_flush_durable V k s = (ans, Some d, s')" "others_work V" "runs_ok (wk_feeds s)"
  shows "\<exists>m s1. crossed V d s1 m (ans, s') \<and> runs_ok (wk_feeds m) \<and> sm_route V = None \<and> fr_account (cl_run d) = k"
proof -
  obtain a r f where a: "working_account k (wk_feeds s) = Some a"
    and r: "create_or_supersede_feed_run (sm_env V) (sm_create_at V) k (flush_request (sm_digest V (wk_feeds s))) (wk_feeds s) = Inr (r, f)"
    and g: "claim_generation V a (sm_digest V (wk_feeds s)) r (sm_before V (s\<lparr>wk_feeds := f\<rparr>)) = (ans, Some d, s')"
    using assms(1) by (auto simp: coalesced_flush_durable_def Let_def split: option.splits if_splits sum.splits prod.splits)
  have "runs_ok f" using moves_keep_ok [OF create_moves [OF r assms(3)] assms(3)] .
  then have "runs_ok (wk_feeds (sm_before V (s\<lparr>wk_feeds := f\<rparr>)))"
    using assms(2) by (simp add: others_keep)
  moreover have "ma_pk a = k" using a market_pk by (auto simp: working_account_def split: option.splits if_splits)
  ultimately show ?thesis using claim_crosses [OF g assms(2)] by metis
qed

section \<open>The outcome of the request\<close>

text \<open>What an execution does after its request, under the claim of the boundary.\<close>

definition outcome_op :: "feed_claim \<Rightarrow> run_op \<Rightarrow> bool" where
  "outcome_op d op \<longleftrightarrow>
     (case op of
        Mark_Submitted t c _ _ _ _ \<Rightarrow> c = d
      | Mark_Unknown t c _ _ _ \<Rightarrow> c = d
      | Clear_Rejected t c \<Rightarrow> c = d
      | Retry_Step t c _ _ _ _ \<Rightarrow> fr_id (cl_run c) = fr_id (cl_run d)
      | Finish_Run t c st _ _ \<Rightarrow> c = d \<and> st = Failed
      | _ \<Rightarrow> False)"

text \<open>The request was refused: the provider or the check of the route said no.\<close>

definition refused :: "trigger_end \<Rightarrow> bool" where
  "refused x \<longleftrightarrow> (case x of Post_Limited _ \<Rightarrow> True | Post_Rejected _ \<Rightarrow> True | _ \<Rightarrow> False)"

lemma then_enqueue_feeds: "then_enqueue E t r s = Inr (y, s') \<Longrightarrow> wk_feeds s' = wk_feeds s"
  by (auto simp: then_enqueue_def enqueue_feed_run_snapshot_def enqueue_feed_run_revision_def bind_ok_Inr_iff
      split: if_splits option.splits sum.splits)

lemma log_feeds [simp]:
  "wk_feeds (write_log b t ev s) = wk_feeds s"
  by (simp add: write_log_def)

text \<open>At most one operation of the workflow is committed.\<close>

definition commits :: "submission_env \<Rightarrow> run_op \<Rightarrow> works \<Rightarrow> works \<Rightarrow> bool" where
  "commits V op s s' \<longleftrightarrow> wk_feeds s' = wk_feeds s \<or> wk_feeds s' = perform_run (sm_env V) op (wk_feeds s)"

lemma recording_commits:
  assumes "perform_run (sm_env V) op (wk_feeds s) = commit res (wk_feeds s)" "\<And>r x. wk_feeds (h r x) = wk_feeds x"
  shows "commits V op s (snd (recording V d res u st h s))"
  using assms then_enqueue_feeds
  by (fastforce simp: recording_def assms(2) commits_def commit_def with_feeds_def bind_ok_def split: sum.splits prod.splits)

lemma summary_feeds: "record_feed_run_summary r e s = Inr (x, s') \<Longrightarrow> wk_feeds s' = wk_feeds s"
  by (auto simp: record_feed_run_summary_def Let_def split: if_splits)

lemma finish_durable_feeds:
  assumes "finish_durable_feed_run E t c st e b s = Inr (r, s')"
  shows "wk_feeds s' = perform_run E (Finish_Run t c st (bounded_provider_reason e) b) (wk_feeds s)"
proof -
  obtain x f where f: "finish_feed_run E t c st (bounded_provider_reason e) b (wk_feeds s) = Inr (x, f)"
    and rest: "bind_ok (record_feed_run_summary x (bounded_provider_reason e) (s\<lparr>wk_feeds := f\<rparr>)) (\<lambda>(_, s2). then_enqueue E t x s2) = Inr (r, s')"
    using assms by (auto simp: finish_durable_feed_run_def Let_def with_feeds_def bind_ok_Inr_iff)
  obtain u s2 where u: "record_feed_run_summary x (bounded_provider_reason e) (s\<lparr>wk_feeds := f\<rparr>) = Inr (u, s2)" "then_enqueue E t x s2 = Inr (r, s')"
    using rest by (auto simp: bind_ok_Inr_iff)
  have "wk_feeds s' = f" using summary_feeds [OF u(1)] then_enqueue_feeds [OF u(2)] by simp
  then show ?thesis using f by simp
qed

lemma failing_commits: "commits V (Finish_Run t c Failed (bounded_provider_reason e) False) s (snd (failing V t c e st s))"
  using finish_durable_feeds by (auto simp: failing_def commits_def split: sum.splits)

lemma pausing_commits: "commits V (Retry_Step t c (t + secs n) e False False) s (snd (pausing V t c e n xs s))"
  by (auto simp: pausing_def commits_def split: sum.splits)

text \<open>Operations that satisfy \<open>ok\<close> lead from one state to the other.\<close>

definition led_by :: "submission_env \<Rightarrow> (run_op \<Rightarrow> bool) \<Rightarrow> works \<Rightarrow> works \<Rightarrow> bool" where
  "led_by V ok s s' \<longleftrightarrow> (\<exists>ops. list_all ok ops \<and> wk_feeds s' = perform_runs (sm_env V) ops (wk_feeds s))"

lemma led_by_commit: "commits V op s s' \<Longrightarrow> ok op \<Longrightarrow> led_by V ok s s'"
  unfolding commits_def led_by_def
  by (elim disjE) (intro exI [of _ "[]"], simp, intro exI [of _ "[op]"], simp)

lemma led_by_refl: "led_by V ok s s"
  unfolding led_by_def by (intro exI [of _ "[]"]) simp

lemma clear_keeps_run:
  assumes "clear_rejected_feed_submission_boundary t d s = Inr (d', s')"
  shows "fr_id (cl_run d') = fr_id (cl_run d)"
  using assms get_run_id
  by (fastforce simp: clear_rejected_feed_submission_boundary_def bind_ok_Inr_iff cleared_row_def split: if_splits option.splits)

lemma pausing_led:
  assumes "\<And>e. ok (Retry_Step t c (t + secs n) e False False)"
  shows "led_by V ok s (snd (pausing V t c e n xs s))"
  using pausing_commits assms by (rule led_by_commit)

lemma failing_led:
  assumes "\<And>e. ok (Finish_Run t c Failed e False)"
  shows "led_by V ok s (snd (failing V t c e st s))"
  using failing_commits assms by (rule led_by_commit)

lemma led_by_after:
  assumes "wk_feeds s1 = perform_run (sm_env V) op (wk_feeds s)" "ok op" "led_by V ok s1 s2"
  shows "led_by V ok s s2"
proof -
  obtain ops where "list_all ok ops" "wk_feeds s2 = perform_runs (sm_env V) ops (wk_feeds s1)" using assms(3) by (auto simp: led_by_def)
  then show ?thesis using assms(1,2) unfolding led_by_def by (intro exI [of _ "op # ops"]) simp
qed

lemma rate_limited_led: "led_by V (outcome_op d) s (snd (rate_limited V d n s))"
proof (cases "exhausted_retries V")
  case True
  have "outcome_op d (Finish_Run (sm_end_at V) d Failed e False)" for e by (simp add: outcome_op_def)
  then show ?thesis using True failing_led by (simp add: rate_limited_def Let_def)
next
  case False
  show ?thesis
  proof (cases "clear_rejected_feed_submission_boundary (sm_end_at V) d (wk_feeds s)")
    case (Inl e)
    then show ?thesis using False by (simp add: rate_limited_def Let_def led_by_refl)
  next
    case (Inr x)
    obtain d' f where x: "x = (d', f)" by (cases x)
    have op: "outcome_op d (Clear_Rejected (sm_end_at V) d)" by (simp add: outcome_op_def)
    have ok: "outcome_op d (Retry_Step (sm_end_at V) d' u e False False)" for u e
      using clear_keeps_run Inr x by (auto simp: outcome_op_def)
    have "wk_feeds (s\<lparr>wk_feeds := f\<rparr>) = perform_run (sm_env V) (Clear_Rejected (sm_end_at V) d) (wk_feeds s)"
      using Inr x by simp
    then have "led_by V (outcome_op d) s (snd (pausing V (sm_end_at V) d' e (max 1 n) [] (s\<lparr>wk_feeds := f\<rparr>)))" for e
      using op pausing_led [of "outcome_op d", OF ok] by (rule led_by_after)
    then show ?thesis using False Inr x by (simp add: rate_limited_def Let_def)
  qed
qed

text \<open>What follows the request: outcomes of the run, and none that settles it unless it was refused.\<close>

lemma record_outcome_led:
  "led_by V (\<lambda>op. outcome_op d op \<and> (refused (trigger_autoload (sm_route V) (sm_post V)) \<or> \<not> settles (fr_id (cl_run d)) op))
     s (snd (record_outcome V a d digest s))"
proof (cases "trigger_autoload (sm_route V) (sm_post V)")
  case Post_Accepted
  have "commits V (Mark_Submitted (sm_end_at V) d digest None (sm_submit_at V) (sm_end_at V + feed_submission_delay)) s
      (snd (record_outcome V a d digest s))"
    by (simp add: record_outcome_def Let_def Post_Accepted recording_commits)
  then show ?thesis by (rule led_by_commit) (simp add: outcome_op_def)
next
  case (Post_Ambiguous e)
  have "commits V (Mark_Unknown (sm_end_at V) d (sm_submit_at V) (sm_end_at V + feed_submission_delay) e) s
      (snd (record_outcome V a d digest s))"
    by (simp add: record_outcome_def Let_def Post_Ambiguous recording_commits)
  then show ?thesis by (rule led_by_commit) (simp add: outcome_op_def)
next
  case Post_Crashed
  then show ?thesis by (simp add: record_outcome_def led_by_refl)
next
  case (Post_Limited n)
  then show ?thesis using rate_limited_led [of V d s n] by (simp add: record_outcome_def refused_def)
next
  case (Post_Rejected e)
  have "outcome_op d (Finish_Run (sm_end_at V) d Failed x False)" for x by (simp add: outcome_op_def)
  then show ?thesis using Post_Rejected failing_led by (simp add: record_outcome_def refused_def Let_def)
qed

section \<open>The request and its boundary\<close>

text \<open>C5: A request follows its stored boundary. If an execution of the task may have sent its request -
  whatever others commit in between - then it had stored the boundary first: an operation of the
  workflow authorised the request for a claimed run of this account, the row with the time of the
  request was committed, and all that the execution did afterwards are outcomes of that run: it was
  submitted, its outcome is unknown, it failed, or the boundary was cleared for another attempt.
\<close>

theorem request_follows_its_boundary:
  assumes "coalesced_flush_durable V k s = (ans, Some d, s')" "others_work V" "runs_ok (wk_feeds s)"
  shows "\<exists>m c p f. runs_ok (wk_feeds m) \<and>
     persist_feed_submission_boundary (sm_env V) (sm_submit_at V) p (sm_submit_at V) c (wk_feeds m) = Inr (Some d, f) \<and>
     get_run (fr_id (cl_run d)) f = Some (cl_run d) \<and> fr_account (cl_run d) = k \<and>
     fr_submitted (cl_run d) = Some (sm_submit_at V) \<and> sm_route V = None \<and>
     led_by V (outcome_op d) (sm_posting V (m\<lparr>wk_feeds := f\<rparr>)) s'"
proof -
  obtain m s1 where m: "crossed V d s1 m (ans, s')" "runs_ok (wk_feeds m)" "sm_route V = None" "fr_account (cl_run d) = k"
    using flush_crosses [OF assms] by blast
  obtain a c p digest f where b: "persist_feed_submission_boundary (sm_env V) (sm_submit_at V) p (sm_submit_at V) c (wk_feeds m) = Inr (Some d, f)"
      "s1 = sm_posting V (m\<lparr>wk_feeds := f\<rparr>)" "(ans, s') = record_outcome V a d digest s1"
    using m(1) by (auto simp: crossed_def)
  obtain r where r: "get_run (fr_id (cl_run c)) (wk_feeds m) = Some r" "cl_run d = boundary_row (strip p) (sm_submit_at V) r"
      "write_run (boundary_row (strip p) (sm_submit_at V) r) (wk_feeds m) = Inr f"
    using b(1) by (rule boundary_authorised)
  have "get_run (fr_id (cl_run d)) f = Some (cl_run d)" "fr_submitted (cl_run d) = Some (sm_submit_at V)"
    using r write_get [OF r(3), of r] get_run_id [OF r(1)] by simp_all
  moreover have "led_by V (outcome_op d) s1 s'"
    using record_outcome_led [where d = d and V = V and s = s1 and a = a and digest = digest] b(3) unfolding led_by_def
    by (metis (mono_tags, lifting) list.pred_mono_strong snd_conv)
  ultimately show ?thesis using m(2-4) b(1,2) by blast
qed

section \<open>A run that is not settled stops the next generation\<close>




text \<open>What an execution leaves behind that neither creates nor claims a generation: a row of the log, the
  mark of a deferred flush and its message.\<close>

definition noted :: "works \<Rightarrow> works \<Rightarrow> bool" where
  "noted s s' \<longleftrightarrow> s' = s\<lparr>wk_log := wk_log s', wk_marks := wk_marks s', wk_deferred := wk_deferred s'\<rparr>"

lemma noted_refl [simp]: "noted s s"
  by (simp add: noted_def)

lemma noted_log [simp]: "noted s (write_log b t ev s)"
  by (simp add: noted_def write_log_def)



section \<open>A sample\<close>

text \<open>The first feed of an account; the process dies during the request.\<close>

definition demo_sender :: submission_env where
  "demo_sender =
     \<lparr>sm_env = demo_worker_env, sm_create_at = secs 10, sm_claim_at = secs 11, sm_stored_at = secs 12, sm_check_at = secs 13,
      sm_read_at = secs 14, sm_submit_at = secs 15, sm_end_at = secs 75, sm_count = (\<lambda>_. 2), sm_digest = (\<lambda>_. demo_digest),
      sm_put = Put_Done,
      sm_baseline = Answer \<lparr>ha_status = 200, ha_retry = None, ha_text = [], ha_body = Some (JObj [(''uploads'', JList [])])\<rparr>,
      sm_route = None, sm_post = Crash, sm_before = id, sm_storing = id, sm_reading = id, sm_posting = id,
      sm_retries = 0, sm_max_retries = 3, sm_logged = True, sm_defer = Defer_Sent\<rparr>"

definition demo_stage :: "uuid \<Rightarrow> run_listing list \<Rightarrow> feed_run list \<Rightarrow> feeds" where
  "demo_stage n ls rs = \<lparr>fd_accounts = [demo_market], fd_runs = rs, fd_listings = ls, fd_uploads = [], fd_log = [], fd_next = n\<rparr>"

definition demo_first_run :: feed_run where
  "demo_first_run = demo_run
     \<lparr>fr_id := 8, fr_revision := 0, fr_payload := demo_digest, fr_next := Some (secs 10), fr_token := None, fr_until := None\<rparr>"

definition demo_taken_run :: feed_run where
  "demo_taken_run = claimed_run_row (secs 11) feed_lease 9 demo_first_run"

definition demo_posted_run :: feed_run where
  "demo_posted_run = boundary_row [] (secs 15) demo_taken_run"

lemma demo_first_fields:
  "fr_id demo_first_run = 8" "fr_account demo_first_run = 5" "fr_revision demo_first_run = 0" "fr_state demo_first_run = Preparing"
  "fr_identity demo_first_run = ''6b''" "fr_tenant demo_first_run = 3" "fr_marketplace demo_first_run = Mp_Avito"
  "fr_token demo_first_run = None" "fr_until demo_first_run = None" "fr_next demo_first_run = Some (secs 10)"
  "fr_submitted demo_first_run = None" "fr_provider demo_first_run = None" "fr_payload demo_first_run = demo_digest"
  by (simp_all add: demo_first_run_def demo_run_def)

lemma demo_stage_get:
  "get_run k (demo_stage n ls [r]) = (if fr_id r = k then Some r else None)" "get_run k (demo_stage n ls []) = None"
  "get_market 5 (demo_stage n ls rs) = Some demo_market" "fd_next (demo_stage n ls rs) = n" "fd_runs (demo_stage n ls rs) = rs"
  "fd_listings (demo_stage n ls rs) = ls"
  by (simp_all add: get_run_def get_market_def demo_stage_def demo_market_def)

lemma demo_stage_next: "(demo_stage n ls rs)\<lparr>fd_next := m\<rparr> = demo_stage m ls rs"
  by (simp add: demo_stage_def)

lemma demo_stage_write:
  "columns_fit x \<Longrightarrow> mode_ok x \<Longrightarrow> fr_id x = fr_id r \<Longrightarrow> write_run x (demo_stage n ls [r]) = Inr (demo_stage n ls [x])"
  by (simp add: write_run_Inr run_constraint_None demo_stage_def owner_clash_def provider_clash_def intent_clash_def put_run_def)

lemma demo_stage_ok: "columns_fit r \<Longrightarrow> mode_ok r \<Longrightarrow> runs_ok (demo_stage n ls [r])" "runs_ok (demo_stage n ls [])"
  by (simp_all add: runs_ok_def demo_stage_def clash_self)

lemma demo_rows_fit:
  "columns_fit demo_first_run" "mode_ok demo_first_run" "columns_fit demo_taken_run" "mode_ok demo_taken_run"
  "columns_fit demo_posted_run" "mode_ok demo_posted_run"
  by (simp_all add: columns_fit_def mode_ok_def demo_run_def demo_first_run_def demo_taken_run_def demo_posted_run_def
      boundary_row_def claimed_run_row_def)

definition demo_tagged :: "run_listing list" where
  "demo_tagged = [(demo_listing 11)\<lparr>rl_run := Some 8\<rparr>, (demo_listing 12)\<lparr>rl_run := Some 8\<rparr>]"

lemma demo_new_run: "new_run demo_worker_env (secs 10) 8 demo_market demo_digest (flush_request demo_digest) (Suc (Suc 0)) = demo_first_run"
  by (simp add: new_run_def demo_worker_identity) (simp add: demo_market_def flush_request_def demo_first_run_def demo_run_def)

lemma demo_creation:
  "create_or_supersede_feed_run demo_worker_env (secs 10) 5 (flush_request demo_digest)
     (demo_stage 8 [demo_listing 11, demo_listing 12] []) = Inr (demo_first_run, demo_stage 9 demo_tagged [demo_first_run])"
proof -
  let ?ls = "[demo_listing 11, demo_listing 12]"
  have u: "unpublished demo_market (demo_listing k)" for k by (simp add: unpublished_def demo_market_def demo_listing_def)
  have i: "insert_run demo_first_run (demo_stage 9 ?ls []) = Inr (demo_stage 9 ?ls [demo_first_run])"
    using demo_rows_fit(1,2) by (simp add: insert_run_def run_constraint_def demo_stage_def row_add_def)
  have g: "create_generation demo_worker_env (secs 10) demo_market demo_digest (flush_request demo_digest) 8 (demo_stage 9 ?ls []) =
      Inr (demo_first_run, demo_stage 9 demo_tagged [demo_first_run])"
    by (simp add: create_generation_def demo_stage_get u max_generation_listings_def demo_new_run bind_ok_def i)
      (simp add: tag_listings_def demo_stage_def u update_where_def demo_tagged_def)
  show ?thesis
    by (simp add: create_or_supersede_feed_run_def flush_request_def bind_ok_def bundle_ok_def generation_id_def demo_digest_arg
        demo_stage_get demo_stage_next fetch_market_def demo_live g [unfolded flush_request_def])
qed

definition demo_new_claim :: feed_claim where
  "demo_new_claim = \<lparr>cl_run = demo_taken_run, cl_token = 9, cl_until = secs 11 + feed_lease\<rparr>"

definition demo_posted_claim :: feed_claim where
  "demo_posted_claim = \<lparr>cl_run = demo_posted_run, cl_token = 9, cl_until = secs 11 + feed_lease\<rparr>"

lemma demo_taken_fields:
  "fr_id demo_taken_run = 8" "fr_account demo_taken_run = 5" "fr_revision demo_taken_run = 1" "fr_state demo_taken_run = Preparing"
  "fr_identity demo_taken_run = ''6b''" "fr_tenant demo_taken_run = 3" "fr_marketplace demo_taken_run = Mp_Avito"
  "fr_token demo_taken_run = Some 9" "fr_until demo_taken_run = Some (secs 11 + feed_lease)"
  "fr_submitted demo_taken_run = None" "fr_provider demo_taken_run = None" "fr_predecessor demo_taken_run = None"
  by (simp_all add: demo_taken_run_def claimed_run_row_def demo_first_fields) (simp add: demo_first_run_def demo_run_def)

lemma demo_market_fields: "ma_pk demo_market = 5" "ma_tenant demo_market = 3" "ma_marketplace demo_market = Mp_Avito"
  by (simp_all add: demo_market_def)

lemma demo_taking:
  "claim_due_run_for_account demo_worker_env (secs 11) feed_lease 5 (Some 8) (Some 0) (demo_stage 9 demo_tagged [demo_first_run]) =
     Inr (Some demo_new_claim, demo_stage 10 demo_tagged [demo_taken_run])"
proof -
  have act: "active_run demo_first_run" by (simp add: active_run_def active_run_states_def demo_first_fields)
  have w: "write_run demo_taken_run (demo_stage 10 demo_tagged [demo_first_run]) = Inr (demo_stage 10 demo_tagged [demo_taken_run])"
    using demo_rows_fit(3,4) by (intro demo_stage_write) (simp_all add: demo_taken_fields demo_first_fields)
  have t: "take_claim (secs 11) feed_lease demo_first_run (demo_stage 9 demo_tagged [demo_first_run]) =
      Inr (Some demo_new_claim, demo_stage 10 demo_tagged [demo_taken_run])"
    using w by (simp add: take_claim_def demo_stage_get demo_stage_next bind_ok_def demo_new_claim_def
        demo_taken_run_def [symmetric])
  have "due_at (secs 11) demo_first_run" "unleased (secs 11) demo_first_run" "0 < feed_lease"
    by (simp_all add: due_at_def unleased_def demo_first_fields secs_def feed_lease_def)
  then show ?thesis
    by (simp add: claim_due_run_for_account_def claim_locked_account_def demo_stage_get demo_market_fields act
        demo_live demo_worker_identity demo_first_fields t)
qed

lemma demo_preflight:
  assumes "t \<le> secs 100"
  shows "preflight demo_worker_env t demo_new_claim (demo_stage 10 demo_tagged [demo_taken_run]) =
     Inr (Some demo_taken_run, demo_stage 10 demo_tagged [demo_taken_run])"
proof -
  have "pristine_claim demo_new_claim t demo_taken_run"
    using assms by (simp add: pristine_claim_def demo_new_claim_def demo_taken_fields secs_def feed_lease_def)
  then show ?thesis
    by (simp add: preflight_def demo_new_claim_def demo_taken_fields demo_stage_get demo_live demo_market_fields demo_worker_identity)
qed

lemma demo_crossing:
  "persist_feed_submission_boundary demo_worker_env (secs 15) [] (secs 15) demo_new_claim (demo_stage 10 demo_tagged [demo_taken_run]) =
     Inr (Some demo_posted_claim, demo_stage 10 demo_tagged [demo_posted_run])"
proof -
  have w: "write_run (boundary_row [] (secs 15) demo_taken_run) (demo_stage 10 demo_tagged [demo_taken_run]) =
      Inr (demo_stage 10 demo_tagged [demo_posted_run])"
    using demo_rows_fit(5,6) by (simp add: demo_posted_run_def demo_stage_write)
  have p: "provider_predecessor_arg [] = Inr []" by (simp add: provider_predecessor_arg_def strip_def)
  have pf: "preflight demo_worker_env (secs 15) demo_new_claim (demo_stage 10 demo_tagged [demo_taken_run]) =
     Inr (Some demo_taken_run, demo_stage 10 demo_tagged [demo_taken_run])"
    by (rule demo_preflight) (simp add: secs_def)
  show ?thesis
    by (simp add: persist_feed_submission_boundary_def p pf bind_ok_def w)
      (simp add: demo_posted_claim_def demo_posted_run_def demo_new_claim_def)
qed

definition demo_unsent :: works where
  "demo_unsent = (demo_works demo_run)\<lparr>wk_feeds := demo_stage 8 [demo_listing 11, demo_listing 12] []\<rparr>"

definition demo_posted :: works where
  "demo_posted = (demo_works demo_run)\<lparr>wk_feeds := demo_stage 10 demo_tagged [demo_posted_run]\<rparr>"

lemma demo_sender_fields:
  "sm_env demo_sender = demo_worker_env" "sm_create_at demo_sender = secs 10" "sm_claim_at demo_sender = secs 11"
  "sm_check_at demo_sender = secs 13" "sm_submit_at demo_sender = secs 15" "sm_count demo_sender f = 2"
  "sm_digest demo_sender f = demo_digest" "sm_put demo_sender = Put_Done" "sm_route demo_sender = None" "sm_post demo_sender = Crash"
  "sm_before demo_sender = id" "sm_storing demo_sender = id" "sm_reading demo_sender = id" "sm_posting demo_sender = id"
  "sm_baseline demo_sender = Answer \<lparr>ha_status = 200, ha_retry = None, ha_text = [], ha_body = Some (JObj [(''uploads'', JList [])])\<rparr>"
  by (simp_all add: demo_sender_def)

lemma demo_no_upload: "get_latest_upload (sm_baseline demo_sender) = Got []"
  unfolding demo_sender_fields by code_simp

lemma demo_execution: "coalesced_flush_durable demo_sender 5 demo_unsent = (Flush_Raised, Some demo_posted_claim, demo_posted)"
proof -
  let ?w = "\<lambda>f. (demo_works demo_run)\<lparr>wk_feeds := f\<rparr>" and ?taken = "demo_stage 10 demo_tagged [demo_taken_run]"
  have sent: "cross_boundary demo_sender demo_market demo_new_claim demo_digest [] (?w ?taken) = (Flush_Raised, Some demo_posted_claim, demo_posted)"
    by (simp add: cross_boundary_def demo_sender_fields demo_crossing sent_under_def record_outcome_def trigger_autoload_def demo_posted_def)
  have read: "read_baseline demo_sender demo_market demo_new_claim demo_digest (?w ?taken) = (Flush_Raised, Some demo_posted_claim, demo_posted)"
    by (simp add: read_baseline_def demo_no_upload provider_predecessor_from_strict_read_def sent)
  have pf: "preflight demo_worker_env (secs 13) demo_new_claim ?taken = Inr (Some demo_taken_run, ?taken)"
    by (rule demo_preflight) (simp add: secs_def)
  have check: "check_owner demo_sender demo_market demo_new_claim demo_digest (?w ?taken) = (Flush_Raised, Some demo_posted_claim, demo_posted)"
    by (simp add: check_owner_def demo_sender_fields validate_feed_submission_owner_def pf bind_ok_def read)
  have claim: "claim_generation demo_sender demo_market demo_digest demo_first_run (?w (demo_stage 9 demo_tagged [demo_first_run])) =
      (Flush_Raised, Some demo_posted_claim, demo_posted)"
    by (simp add: claim_generation_def demo_sender_fields demo_market_fields demo_first_fields demo_taking store_payload_def check)
  have "working_account 5 (wk_feeds demo_unsent) = Some demo_market"
    by (simp add: working_account_def demo_unsent_def demo_stage_get demo_market_def)
  then show ?thesis
    by (simp add: coalesced_flush_durable_def demo_sender_fields max_durable_feed_payload_listings_def)
      (simp add: demo_unsent_def demo_sender_fields demo_creation claim)
qed

lemma demo_others: "others_work demo_sender"
  by (simp add: others_work_def demo_sender_fields works_by_id)

lemma demo_unsent_ok: "runs_ok (wk_feeds demo_unsent)"
  by (simp add: demo_unsent_def demo_stage_ok)

theorem request_follows_its_boundary_witness:
  "\<exists>m c p f. persist_feed_submission_boundary demo_worker_env (secs 15) p (secs 15) c (wk_feeds m) = Inr (Some demo_posted_claim, f) \<and>
     led_by demo_sender (outcome_op demo_posted_claim) (m\<lparr>wk_feeds := f\<rparr>) demo_posted"
  using request_follows_its_boundary [OF demo_execution demo_others demo_unsent_ok] unfolding demo_sender_fields id_apply by blast


end
