(* ===== verification/Spec2Isabelle.thy ===== *)
theory Spec2Isabelle
  imports Subscriptions Reconciliation Webhook_Entry Job_Outcomes Feed_Guarantees Feed_Submission_Guarantees
begin

text \<open>
  Verified core of the service under \<^verbatim>\<open>src/apps\<close>: the durable delivery of background jobs
  (\<^verbatim>\<open>core/dispatch.py\<close>), the desired state of the marketplace feeds
  (\<^verbatim>\<open>marketplaces/feed_intents.py\<close>, \<^verbatim>\<open>marketplaces/tasks.py\<close>), the runs that bring a feed to the
  provider (\<^verbatim>\<open>marketplaces/feed_workflow.py\<close>), the task that sends them and the worker that drives them
  (\<^verbatim>\<open>marketplaces/tasks.py\<close>, \<^verbatim>\<open>marketplaces/adapters/avito\<close>) and the billing of tenants (\<^verbatim>\<open>billing\<close>).

  \<^bold>\<open>The program.\<close> Work that must survive a crash is stored as a dispatch row in the transaction of the
  business change, published to the broker under a lease, claimed by the worker that receives the
  message, and finished with the outcome of the task; a periodic publisher repeats what was lost and
  the status of the domain job (parsing, media, image search, research) follows. Every change of a
  product advances a revision of its marketplace feed; a scanner turns each due revision into one such
  dispatch, its consumer starts a feed generation, and a dispatch that failed makes the revision due
  again. A generation is a run that owns its account: it takes the waiting listings, crosses a boundary
  stored before the request to the provider is sent, is polled for the ids of its listings, reads the
  provider's report page by page, and ends; when the outcome of the request is unknown it holds the
  account until an operator decides. The task that sends the feed creates the generation, claims it,
  stores the feed object, reads the latest upload of the provider and stores the boundary, each in a
  transaction of its own, before it sends the request and records its outcome. Every revision of a run has a dispatch of its own, which wakes a
  worker: it claims the run, reads the provider, commits one transition of the run and stores the
  dispatch for the next revision with it. In billing a browser asks for a checkout
  (\<^verbatim>\<open>services.py\<close>); an invoice with a frozen financial intent is stored and the provider YooKassa is asked for a payment under a stable idempotency key
  (\<^verbatim>\<open>yookassa_client.py\<close>). The provider later notifies the service (\<^verbatim>\<open>views.py\<close>, \<^verbatim>\<open>webhook.py\<close>); a
  worker claims the event, reads the authoritative object back from the provider and applies it
  (\<^verbatim>\<open>webhook_processing.py\<close>): the success handler renews the subscription or credits the AI wallet
  (\<^verbatim>\<open>services.py\<close>, \<^verbatim>\<open>ai_wallet.py\<close>), the reversal handler takes credits back. What was missed is polled
  and retried (\<^verbatim>\<open>reconciliation.py\<close>). Messages leave through a transactional outbox (\<^verbatim>\<open>outbox.py\<close>);
  daily tasks (\<^verbatim>\<open>tasks.py\<close>) let subscriptions expire and renew the monthly credits.

  \<^bold>\<open>The theories.\<close>
  \<^item> \<open>Prelude\<close>: tables as lists of rows with a primary key (\<open>row_get\<close>, \<open>row_put\<close>, \<open>row_add\<close>),
    results (\<open>bind_ok\<close>), texts of numbers, capped doubling.
  \<^item> \<open>Interfaces\<close>: the contracts as locales: a table with lookup and update, a lease on a row, a register
    of tokens, postings keyed for idempotency, capped back-off. Each is interpreted where the code
    provides it.
  \<^item> \<open>Calendar\<close>: proleptic Gregorian dates, \<open>date + timedelta\<close>, \<open>add_billing_month(s)\<close>,
    \<open>add_billing_year\<close>, \<open>ai_credit_period_for_date\<close>.
  \<^item> \<open>Decimals\<close>: \<open>Decimal(text)\<close>, \<open>quantize\<close>, fixed-point columns, JSON documents, \<open>str\<close> and \<open>int\<close>.
  \<^item> \<open>Job_Types\<close>: the rows of dispatches, of the domain jobs they drive, and of the feed cursors.
  \<^item> \<open>Dispatch\<close>: the operations of \<^verbatim>\<open>core/dispatch.py\<close> (\<open>enqueue_durable_task\<close>, \<open>publish_dispatch\<close>,
    \<open>claim_dispatch\<close>, \<open>finish_execution\<close> and the rest), the step relation \<open>job_step\<close> and its invariant.
  \<^item> \<open>Delivery\<close>: what holds over all traces; \<open>Job_Outcomes\<close>: how jobs end.
  \<^item> \<open>Feed_Intents\<close>: \<open>bump_feed_intents\<close>, the scanner, the consumer and the recovery; \<open>Feed_Cursors\<close>: their
    invariant; \<open>Feed_Guarantees\<close>: their properties.
  \<^item> \<open>Feed_Run_Types\<close>: the rows of runs, accounts and listings, the constraints of the table of runs, the
    normalisation of texts and the identity of an account; \<open>Feed_Runs\<close>: every operation of
    \<^verbatim>\<open>feed_workflow.py\<close> under its name; \<open>Feed_Run_Moves\<close>: the abstract life cycle and the edges each
    operation takes; \<open>Feed_Run_Steps\<close>: all operations as one step function over \<open>run_op\<close>;
    \<open>Feed_Run_Safety\<close> and \<open>Feed_Run_Pages\<close>: what holds over all traces and for each page.
  \<^item> \<open>Avito_Reports\<close>: the readers of the provider's uploads, ids and item outcomes (methods of
    \<open>AvitoAdapter\<close>, \<open>handle_avito_error\<close>) and what a page of outcomes says.
  \<^item> \<open>Feed_Worker\<close>: the durable step \<open>process_marketplace_feed_run_step\<close>, its branches, its wake-ups and
    \<open>dispatch_due_marketplace_feed_runs\<close>; the state \<open>works\<close> joins the tables of the feed workflow and of
    the dispatcher. \<open>Feed_Worker_Steps\<close>: each branch is at most one operation of \<open>run_op\<close>;
    \<open>Feed_Worker_Guarantees\<close>: what follows for runs, their wake-ups and their evidence.
  \<^item> \<open>Feed_Submission\<close>: the task that sends a feed over the shared storage (\<open>_coalesced_flush_durable\<close>),
    one definition for each of its transactions and calls, from \<open>coalesced_flush_durable\<close> to
    \<open>record_outcome\<close>; \<open>Feed_Submission_Guarantees\<close>: what an execution commits and what it prevents.
  \<^item> \<open>Billing_Types\<close>: the rows of \<^verbatim>\<open>billing/models.py\<close> as records, choices as datatypes, the database as
    a record of tables, the environment (clock, settings) of an operation.
  \<^item> \<open>Samples\<close>: a small concrete database for the witnesses of billing.
  \<^item> \<open>Outbox\<close>, \<open>Wallet\<close>, \<open>Subscriptions\<close>, \<open>YooKassa\<close>, \<open>Invoice_Model\<close>, \<open>Checkout\<close>, \<open>Fulfilment\<close>,
    \<open>Reversals\<close>, \<open>Webhooks\<close>, \<open>Source_Address\<close>, \<open>Webhook_Entry\<close>, \<open>Reconciliation\<close>: one component of
    billing each, in the order in which they use each other. Their names follow the functions of the code.

  \<^bold>\<open>How the code is represented.\<close> A function that runs in one transaction is a function from the
  database to \<open>err + 'a \<times> db\<close>, where \<open>Inl\<close> is the exception that rolled it back; one that commits
  several transactions returns \<open>(err + 'a) \<times> db\<close>, the database as left by what was committed, and where
  others can commit in between a function \<open>h\<close> says what: \<open>h n\<close> after its \<open>n\<close>th statement. Code that runs
  without a transaction is cut at each statement: the end of an execution commits the dispatch
  (\<open>end_execution\<close>) before the domain job (\<open>close_next\<close>), which in \<open>job_step\<close> is a step of its own that a
  lost worker never takes; the wallet of a tenant is bootstrapped in three commits when a summary asks
  for it (\<open>ensure_wallet_outside\<close>, and \<open>boot_next\<close> in the runs of \<open>wallet_event_step\<close>) and in one inside a
  wallet operation (\<open>ensure_wallet\<close>). Row
  locks make a transaction atomic, so a transaction is one step; interleavings of several workers
  are sequences of such steps: the labelled steps of \<open>job_step\<close>, in which publishers and workers hold
  copies of the rows they read earlier, the runs of the lease locale, lists of operations. An operation
  reads the clock once. Rows that \<^verbatim>\<open>SKIP LOCKED\<close> leaves out are an argument. Money is counted
  in kopecks, AI credits in ten-thousandths, instants in microseconds, all unbounded, with the
  column limits written out where the code checks them. Messages in Russian are ASCII constants
  \<open>msg_...\<close>; logging is left out. Rows are kept in order of creation, which is the order in which
  the code scans them.

  \<^bold>\<open>Parameters.\<close> The broker is a function from messages to an answer and the tasks a table of outcomes;
  the repair of dispatches of older releases is an argument. In billing the environment carries the
  clock, the settings, the calendar of the local time zone, SHA-256 of the checkout payload and UUID
  version 5; the environment of feed runs carries HMAC, the decryption of credentials, \<^verbatim>\<open>html.unescape\<close> and
  the texts of UUIDs; the environment of a worker step (\<open>step_env\<close>) carries the answers of the provider,
  the parser of times, what others commit while the provider is read, the notification task, the readings
  of the clock and the settings; that of an execution of the sending task (\<open>submission_env\<close>) carries the
  upload of the object, the check of the feed route, the answers of the provider, the number of listings
  and digest of the feed, what others commit during its calls, and the retries; the gateway record carries the HTTP transport and the JSON decoder. Hypotheses about them
  appear in the statements by name.

  \<^bold>\<open>What is shown.\<close> Dispatcher: rows stay well formed, a stale token changes nothing, an effect outside
  is not repeated before an event that releases it, a delivered job ends, and a failed one closes its
  domain job, at once or with what it leaves in the hands of its worker.
  Feeds: cursors stay consistent, an advance counts each account once, a due revision becomes one
  dispatch, a failed one becomes due again, a delivery confirms only the revision it was made for.
  Feed runs: a request to the provider is not repeated before the last one was settled, an overtaken
  worker changes nothing, every operation refines the abstract life cycle, a generation takes exactly
  the waiting listings, poll and report pages settle exactly the waiting listings that the provider named.
  The sending task: a request follows its stored boundary, and one whose outcome is open keeps every
  later execution from sending another. The worker: a step is at most one operation of the workflow, sends no request, and leaves the next
  dispatch behind; a run whose result does not come is held at its deadline; only an upload that proves
  it binds an ambiguous submission; recovery gives due runs a dispatch and never revives a finished one;
  a page of outcomes says exactly what its items say.
  The outbox: leases fence stale workers, a dispatched event is final, attempts are
  bounded, keys make enqueueing repeatable. The wallet: books balance after any run, up to what
  bootstraps that were lost or overtaken left unposted, the read-only summary agrees with the one that
  bootstraps, postings happen once, open reservations stay covered, nothing crosses tenants. Subscriptions: the daily task
  refines the life cycle that the dates prescribe; refresh grants each month once. The client:
  decoded snapshots are complete and match the request. Checkout: one live subscription payment per
  tenant, one request per invoice under one key, bounded attempts, retries without side effects.
  Fulfilment: what was bought is delivered, once, and nothing on a mismatch. Reversals: refunds never
  exceed payments and credits follow them. Notifications: forged requests are only audited, answers
  match the records, decisions are final, nothing changes without confirmation by the provider.
  Reconciliation: under runs at any times every event and every pending payment comes to an end within
  its attempts.

  \<^bold>\<open>Bounds.\<close> There is no fuel: loops of the code run over lists, and the calendar loops have
  termination proofs. A job is shown to end after as many accepted rounds of delivery as it has run
  attempts left plus one, rounds being at least the longest lease (two hours) apart. Reconciliation is
  shown to end once as many of its runs as there are attempts left plus one lie the longest retry delay
  apart; the runs of the five-minute schedule between them are covered, early or not.

  An account is a row of two tables of the model, one for the feed workflow and one for the feed
  intents, under one key; the columns the worker changes in both are disjoint.

  \<^bold>\<open>Not modelled.\<close> The daily purge of old dispatches; the building of feed payloads, the storage of
  private artifacts, and of the task that sends a feed the task around it that coalesces its executions,
  its variant for the private storage and its legacy mode, whose effects
  on a run are the operations of the workflow; the HTTP transport, rate limiter and token cache of the marketplaces and
  the adapters beside the readers of reports; products, data sources, AI agents, analytics, media and the other apps, which reach
  the modelled parts through dispatches, limit checks and wallet operations; serializers, admin
  pages, the remaining views, migrations and management commands (input and output only); the
  database, the broker, the HTTP library and \<open>ipaddress\<close> beyond ASCII texts.
\<close>

end
